(* ===== verification/PyFloat.thy ===== *)
theory PyFloat
  imports Prelude "HOL-Library.Log_Nat"
begin

text \<open>
  Python floats are IEEE 754 binary64 numbers. A finite float is an exact rational, so comparisons
  are modelled exactly; an arithmetic operation rounds its exact result to the nearest binary64
  number, ties to even, as the hardware does. The sign of zero is not modelled: it shows only in
  formatting and in \<open>copysign\<close>, which the modelled code never uses.
\<close>

section \<open>Values and comparisons\<close>

datatype pyfloat = Fin rat | PosInf | NegInf | NaN

fun is_finite :: "pyfloat \<Rightarrow> bool" where
  "is_finite (Fin _) = True"
| "is_finite _ = False"

text \<open>Comparisons with NaN are false.\<close>

fun fle :: "pyfloat \<Rightarrow> pyfloat \<Rightarrow> bool" where
  "fle NaN _ = False"
| "fle _ NaN = False"
| "fle NegInf _ = True"
| "fle _ PosInf = True"
| "fle (Fin a) (Fin b) = (a \<le> b)"
| "fle _ _ = False"

fun flt :: "pyfloat \<Rightarrow> pyfloat \<Rightarrow> bool" where
  "flt NaN _ = False"
| "flt _ NaN = False"
| "flt (Fin a) (Fin b) = (a < b)"
| "flt NegInf PosInf = True"
| "flt NegInf (Fin _) = True"
| "flt (Fin _) PosInf = True"
| "flt _ _ = False"

lemma fle_Fin_iff: "fle (Fin a) x \<and> fle x (Fin b) \<longleftrightarrow> (\<exists>c. x = Fin c \<and> a \<le> c \<and> c \<le> b)"
  by (cases x) auto

lemma flt_imp_fle: "flt x y \<Longrightarrow> fle x y"
  by (cases x; cases y) auto

lemma flt_not_fle: "flt x y \<Longrightarrow> \<not> fle y x"
  by (cases x; cases y) auto

lemma fle_trans: "fle x y \<Longrightarrow> fle y z \<Longrightarrow> fle x z"
  by (cases x; cases y; cases z) auto

section \<open>Rounding\<close>

text \<open>Round half to even, which is also Python's \<open>round\<close> on a float.\<close>

definition round_half_even :: "rat \<Rightarrow> int" where
  "round_half_even x =
     (let f = \<lfloor>x\<rfloor>; d = x - of_int f
      in if d < 1 / 2 then f else if 1 / 2 < d then f + 1 else if even f then f else f + 1)"

lemma round_half_even_of_int [simp]: "round_half_even (of_int n) = n"
  by (simp add: round_half_even_def)

lemma round_half_even_floor: "round_half_even x = \<lfloor>x\<rfloor> \<or> round_half_even x = \<lfloor>x\<rfloor> + 1"
  by (auto simp: round_half_even_def Let_def)

lemma round_half_even_nonneg: "0 \<le> x \<Longrightarrow> 0 \<le> round_half_even x"
  using round_half_even_floor[of x] by (auto simp: zero_le_floor)

lemma round_half_even_mono:
  assumes "x \<le> y"
  shows "round_half_even x \<le> round_half_even y"
proof (cases "\<lfloor>x\<rfloor> = \<lfloor>y\<rfloor>")
  case True
  then show ?thesis using assms by (auto simp: round_half_even_def Let_def)
next
  case False
  have "\<lfloor>x\<rfloor> \<le> \<lfloor>y\<rfloor>" using assms by (rule floor_mono)
  with False have "\<lfloor>x\<rfloor> + 1 \<le> \<lfloor>y\<rfloor>" by simp
  then show ?thesis using round_half_even_floor[of x] round_half_even_floor[of y] by auto
qed

text \<open>The exponent of the leading bit of a positive rational.\<close>

definition rat_exponent :: "rat \<Rightarrow> int" where
  "rat_exponent x =
     (let (n, d) = quotient_of x; e = bitlen n - bitlen d
      in if 2 powi e \<le> x then e else e - 1)"

text \<open>
  The nearest binary64 value: 53 significant bits, smallest exponent \<open>-1022\<close> (subnormals below it
  share its unit in the last place), infinity from \<open>2 ^ 1024\<close> on.
\<close>

definition round64 :: "rat \<Rightarrow> pyfloat" where
  "round64 x =
     (if x = 0 then Fin 0
      else let e = max (rat_exponent \<bar>x\<bar>) (- 1022); u = 2 powi (e - 52);
               r = of_int (round_half_even (x / u)) * u
           in if 2 ^ 1024 \<le> \<bar>r\<bar> then (if 0 < x then PosInf else NegInf) else Fin r)"

lemma round64_zero [simp]: "round64 0 = Fin 0"
  by (simp add: round64_def)

lemma round64_nonneg: "0 \<le> x \<Longrightarrow> round64 x = PosInf \<or> (\<exists>r. round64 x = Fin r \<and> 0 \<le> r)"
  by (auto simp: round64_def Let_def intro!: mult_nonneg_nonneg round_half_even_nonneg)

lemma round64_not_NaN: "round64 x \<noteq> NaN"
  by (auto simp: round64_def Let_def)

text \<open>
  The exponent is at most the true one, so every \<open>m / 2 ^ k\<close> with \<open>\<bar>m\<bar> < 2 ^ 53\<close> and
  \<open>k \<le> 1074\<close> is a binary64 value, which rounding keeps; integers are the case \<open>k = 0\<close>.
\<close>

lemma rat_exponent_le:
  assumes "0 < x"
  shows "2 powi (rat_exponent x) \<le> x"
proof -
  obtain n d where q: "quotient_of x = (n, d)" by (cases "quotient_of x")
  have d: "0 < d" using quotient_of_denom_pos[OF q] .
  have x: "x = of_int n / of_int d" using quotient_of_div[OF q] .
  have n: "0 < n" using assms x d by (simp add: zero_less_divide_iff)
  have "2 powi (bitlen n - bitlen d - 1) \<le> x"
  proof -
    have "0 < bitlen n" using bitlen_nonneg[of n] bitlen_eq_zero_iff[of n] n by linarith
    then obtain a where a: "bitlen n = int a + 1" by (metis zero_less_imp_eq_int Suc_pred' int_Suc)
    obtain b where b: "bitlen d = int b" using bitlen_nonneg[of d] by (metis nonneg_int_cases)
    have "2 ^ a \<le> n" using bitlen_bounds[of n] n a by simp
    then have na: "(2 ^ a :: rat) \<le> of_int n" by (metis of_int_le_iff of_int_numeral of_int_power)
    have "d < 2 ^ b" using bitlen_bounds[of d] d b by simp
    then have db: "(of_int d :: rat) \<le> 2 ^ b" by (metis of_int_le_iff of_int_numeral of_int_power order_less_imp_le)
    have "(2::rat) powi (bitlen n - bitlen d - 1) = 2 ^ a / 2 ^ b"
      using power_int_diff[of "2::rat" "int a" "int b"] by (simp add: a b)
    also have "\<dots> \<le> of_int n / of_int d" using na db d n by (intro frac_le) auto
    finally show ?thesis by (simp add: x)
  qed
  then show ?thesis by (simp add: rat_exponent_def q Let_def)
qed

text \<open>Rounding moves a value by less than its magnitude plus one, so moderate values stay finite.\<close>

lemma round64_finite:
  assumes "\<bar>x\<bar> < 2 ^ 1000"
  shows "is_finite (round64 x)"
proof (cases "x = 0")
  case False
  define e where "e = max (rat_exponent \<bar>x\<bar>) (- 1022)"
  define u :: rat where "u = 2 powi (e - 52)"
  have u: "0 < u" by (simp add: u_def)
  have "u \<le> 2 powi e" by (simp add: u_def power_int_increasing)
  also have "\<dots> \<le> \<bar>x\<bar> + 1"
  proof (cases "rat_exponent \<bar>x\<bar> \<le> - 1022")
    case True
    then have "2 powi e \<le> (2::rat) powi 0" by (intro power_int_increasing) (simp_all add: e_def)
    then show ?thesis by simp
  next
    case e: False
    then show ?thesis using rat_exponent_le[of "\<bar>x\<bar>"] False by (simp add: e_def)
  qed
  finally have ux: "u \<le> \<bar>x\<bar> + 1" .
  have "\<bar>of_int (round_half_even y)\<bar> \<le> \<bar>y\<bar> + 1" for y :: rat
    using round_half_even_floor[of y] by (auto simp: abs_le_iff) linarith+
  from this[of "x / u"] have "\<bar>of_int (round_half_even (x / u))\<bar> * u \<le> (\<bar>x / u\<bar> + 1) * u"
    using u by (intro mult_right_mono) simp_all
  then have "\<bar>of_int (round_half_even (x / u)) * u\<bar> \<le> \<bar>x\<bar> + u" using u by (simp add: abs_mult distrib_right)
  also have "\<dots> \<le> 2 * \<bar>x\<bar> + 1" using ux by simp
  also have "\<dots> < 2 * 2 ^ 1000 + 1" using assms by simp
  also have "\<dots> < (2 ^ 1024 :: rat)" by simp
  finally have "\<not> 2 ^ 1024 \<le> \<bar>of_int (round_half_even (x / u)) * u\<bar>" by (simp only: not_le)
  then show ?thesis using False unfolding round64_def Let_def e_def[symmetric] u_def[symmetric] by simp
qed simp

lemma round64_dyadic:
  assumes "\<bar>m\<bar> < 2 ^ 53" and "k \<le> 1074"
  shows "round64 (of_int m / 2 ^ k) = Fin (of_int m / 2 ^ k)"
proof (cases "m = 0")
  case False
  let ?x = "of_int m / 2 ^ k :: rat"
  define e where "e = max (rat_exponent \<bar>?x\<bar>) (- 1022)"
  have "(of_int \<bar>m\<bar> :: rat) < of_int (2 ^ 53)" using assms(1) by (simp only: of_int_less_iff)
  then have m53: "(of_int \<bar>m\<bar> :: rat) < 2 ^ 53" by simp
  have xpos: "0 < \<bar>?x\<bar>" using False by simp
  have "2 powi (rat_exponent \<bar>?x\<bar>) \<le> \<bar>?x\<bar>" using xpos by (rule rat_exponent_le)
  also have "\<dots> < 2 ^ 53 / 2 ^ k" using m53 by (simp add: divide_strict_right_mono)
  also have "\<dots> = 2 powi (53 - int k)" using power_int_diff[of "2::rat" 53 "int k"] by simp
  finally have "\<not> (2::rat) powi (53 - int k) \<le> 2 powi (rat_exponent \<bar>?x\<bar>)" by simp
  then have "rat_exponent \<bar>?x\<bar> < 53 - int k"
    by (metis linorder_not_le one_le_numeral power_int_increasing)
  then have ek: "e - 52 \<le> - int k" using assms(2) by (simp add: e_def)
  define j where "j = nat (- int k - (e - 52))"
  have "(2::rat) powi (e - 52) = 2 powi (- int k - int j)" using ek by (simp add: j_def)
  also have "\<dots> = 1 / (2 ^ k * 2 ^ j)"
    using power_int_diff[of "2::rat" "- int k" "int j"] by (simp add: power_int_minus divide_simps)
  finally have u: "(2::rat) powi (e - 52) = 1 / (2 ^ k * 2 ^ j)" .
  have "?x / (1 / (2 ^ k * 2 ^ j)) = of_int (m * 2 ^ j)" by simp
  then have r: "round_half_even (?x / (1 / (2 ^ k * 2 ^ j))) = m * 2 ^ j"
    using round_half_even_of_int[of "m * 2 ^ j"] by simp
  have val: "of_int (m * 2 ^ j) * (1 / (2 ^ k * 2 ^ j)) = ?x" by simp
  have "\<bar>?x\<bar> \<le> of_int \<bar>m\<bar>" by (simp add: divide_le_eq mult_le_cancel_left1)
  with m53 have "\<not> (2 ^ 1024 :: rat) \<le> \<bar>?x\<bar>" by simp
  then show ?thesis using False
    unfolding round64_def Let_def e_def[symmetric] u r val by simp
qed simp

lemma round64_of_int:
  assumes "\<bar>n\<bar> < 2 ^ 53"
  shows "round64 (of_int n) = Fin (of_int n)"
  using round64_dyadic[of n 0] assms by simp

section \<open>Arithmetic of the modelled code\<close>

fun fmul :: "pyfloat \<Rightarrow> pyfloat \<Rightarrow> pyfloat" where
  "fmul (Fin a) (Fin b) = round64 (a * b)"
| "fmul (Fin a) PosInf = (if a = 0 then NaN else if 0 < a then PosInf else NegInf)"
| "fmul (Fin a) NegInf = (if a = 0 then NaN else if 0 < a then NegInf else PosInf)"
| "fmul PosInf (Fin a) = (if a = 0 then NaN else if 0 < a then PosInf else NegInf)"
| "fmul NegInf (Fin a) = (if a = 0 then NaN else if 0 < a then NegInf else PosInf)"
| "fmul PosInf PosInf = PosInf"
| "fmul PosInf NegInf = NegInf"
| "fmul NegInf PosInf = NegInf"
| "fmul NegInf NegInf = PosInf"
| "fmul _ _ = NaN"

fun fadd :: "pyfloat \<Rightarrow> pyfloat \<Rightarrow> pyfloat" where
  "fadd (Fin a) (Fin b) = round64 (a + b)"
| "fadd NaN _ = NaN"
| "fadd _ NaN = NaN"
| "fadd PosInf NegInf = NaN"
| "fadd NegInf PosInf = NaN"
| "fadd PosInf _ = PosInf"
| "fadd NegInf _ = NegInf"
| "fadd _ PosInf = PosInf"
| "fadd _ NegInf = NegInf"

fun fneg :: "pyfloat \<Rightarrow> pyfloat" where
  "fneg (Fin a) = Fin (- a)"
| "fneg PosInf = NegInf"
| "fneg NegInf = PosInf"
| "fneg NaN = NaN"

definition fsub :: "pyfloat \<Rightarrow> pyfloat \<Rightarrow> pyfloat" where
  "fsub a b = fadd a (fneg b)"

fun fabs :: "pyfloat \<Rightarrow> pyfloat" where
  "fabs (Fin a) = Fin \<bar>a\<bar>"
| "fabs NaN = NaN"
| "fabs _ = PosInf"

text \<open>\<open>a / b\<close> on floats, with a divisor that is not zero (Python raises on a zero divisor).\<close>

fun fdiv :: "pyfloat \<Rightarrow> pyfloat \<Rightarrow> pyfloat" where
  "fdiv (Fin a) (Fin b) = round64 (a / b)"
| "fdiv (Fin a) PosInf = Fin 0"
| "fdiv (Fin a) NegInf = Fin 0"
| "fdiv PosInf (Fin b) = (if 0 < b then PosInf else NegInf)"
| "fdiv NegInf (Fin b) = (if 0 < b then NegInf else PosInf)"
| "fdiv _ _ = NaN"

lemma fneg_fneg [simp]: "fneg (fneg x) = x"
  by (cases x) simp_all

lemma is_finite_fneg [simp]: "is_finite (fneg x) = is_finite x"
  by (cases x) simp_all

datatype conv_error = OverflowError | ValueErrorNaN

text \<open>\<open>int(x)\<close>: truncation towards zero; infinities and NaN raise.\<close>

fun py_int :: "pyfloat \<Rightarrow> (conv_error, int) res" where
  "py_int (Fin r) = Inr (if 0 \<le> r then \<lfloor>r\<rfloor> else \<lceil>r\<rceil>)"
| "py_int NaN = Inl ValueErrorNaN"
| "py_int _ = Inl OverflowError"

text \<open>\<open>int(x * 1e9)\<close>, the conversion of a duration in seconds to nanoseconds.\<close>

definition seconds_to_ns :: "pyfloat \<Rightarrow> (conv_error, int) res" where
  "seconds_to_ns s = py_int (fmul s (Fin 1000000000))"

lemma seconds_to_ns_nonneg:
  assumes "fle (Fin 0) s" and "seconds_to_ns s = Inr n"
  shows "0 \<le> n"
proof (cases s)
  case (Fin a)
  with assms(1) have "0 \<le> a * 1000000000" by simp
  from round64_nonneg[OF this] assms(2) Fin show ?thesis
    by (auto simp: seconds_to_ns_def)
qed (use assms in \<open>auto simp: seconds_to_ns_def\<close>)

text \<open>A duration that is a whole number of nanoseconds converts exactly.\<close>

lemma seconds_to_ns_exact:
  assumes "a * 1000000000 = of_int n" and "0 \<le> n" and "n < 2 ^ 53"
  shows "seconds_to_ns (Fin a) = Inr n"
  using round64_of_int[of n] assms by (simp add: seconds_to_ns_def)

text \<open>\<open>n / 1e9\<close> for a Python int \<open>n\<close>: the int is rounded to a float, then the quotient is.\<close>

definition ns_to_seconds :: "int \<Rightarrow> pyfloat" where
  "ns_to_seconds n =
     (case round64 (of_int n) of Fin r \<Rightarrow> round64 (r / 1000000000) | f \<Rightarrow> f)"

text \<open>
  \<open>a / b\<close> on two Python ints: the exact quotient, rounded once; a zero divisor raises, and so does a
  quotient out of range.
\<close>

datatype div_error = ZeroDivisionError | DivOverflowError

definition py_true_div :: "int \<Rightarrow> int \<Rightarrow> (div_error, pyfloat) res" where
  "py_true_div a b =
     (if b = 0 then Inl ZeroDivisionError
      else case round64 (of_int a / of_int b) of Fin r \<Rightarrow> Inr (Fin r) | _ \<Rightarrow> Inl DivOverflowError)"

text \<open>\<open>max(a, b)\<close> and \<open>min(a, b)\<close> keep the first argument unless the second is strictly better.\<close>

definition fmax :: "pyfloat \<Rightarrow> pyfloat \<Rightarrow> pyfloat" where
  "fmax a b = (if flt a b then b else a)"

definition fmin :: "pyfloat \<Rightarrow> pyfloat \<Rightarrow> pyfloat" where
  "fmin a b = (if flt b a then b else a)"

lemma fclamp_range:
  "fle (Fin 0) (fmin (Fin 1) (fmax (Fin 0) x)) \<and> fle (fmin (Fin 1) (fmax (Fin 0) x)) (Fin 1)"
  by (cases x) (auto simp: fmin_def fmax_def)

text \<open>\<open>numpy.minimum\<close>, \<open>numpy.maximum\<close> and \<open>numpy.clip\<close> propagate NaN; \<open>feq\<close> is \<open>==\<close>.\<close>

definition np_minimum :: "pyfloat \<Rightarrow> pyfloat \<Rightarrow> pyfloat" where
  "np_minimum a b = (if a = NaN \<or> b = NaN then NaN else if flt b a then b else a)"

definition np_maximum :: "pyfloat \<Rightarrow> pyfloat \<Rightarrow> pyfloat" where
  "np_maximum a b = (if a = NaN \<or> b = NaN then NaN else if flt a b then b else a)"

definition np_clip :: "pyfloat \<Rightarrow> pyfloat \<Rightarrow> pyfloat \<Rightarrow> pyfloat" where
  "np_clip x lo hi = np_minimum (np_maximum x lo) hi"

definition feq :: "pyfloat \<Rightarrow> pyfloat \<Rightarrow> bool" where
  "feq a b \<longleftrightarrow> fle a b \<and> fle b a"

lemma np_clip_range:
  assumes "fle lo hi"
  shows "np_clip x lo hi = NaN \<or> (fle lo (np_clip x lo hi) \<and> fle (np_clip x lo hi) hi)"
  using assms by (cases x; cases lo; cases hi) (auto simp: np_clip_def np_minimum_def np_maximum_def)

lemma np_clip_finite:
  "np_clip x (Fin a) (Fin b) = NaN \<longleftrightarrow> x = NaN"
  by (cases x) (auto simp: np_clip_def np_minimum_def np_maximum_def)

text \<open>\<open>n / 1e6\<close> for a Python int of nanoseconds.\<close>

definition ns_to_ms :: "int \<Rightarrow> pyfloat" where
  "ns_to_ms n = (case round64 (of_int n) of Fin r \<Rightarrow> round64 (r / 1000000) | f \<Rightarrow> f)"

end
