(* ===== verification/PyText.thy ===== *)
theory PyText
  imports PyFloat "HOL-Library.Word"
begin

text \<open>
  Python's \<open>bytes\<close> and \<open>str\<close> as the protocol parsers use them: bytes are \<open>8 word\<close>s, a
  \<open>str\<close> is its list of code points. Strict UTF-8 decoding, \<open>splitlines\<close>, \<open>split\<close>,
  \<open>partition\<close>, \<open>strip\<close> and the decimal conversions follow the CPython documentation.
\<close>

section \<open>Code points\<close>

type_synonym pystr = "nat list"
type_synonym bytes = "8 word list"

text \<open>The code points of an ASCII literal, and the bytes of one.\<close>

definition lit :: "string \<Rightarrow> pystr" where
  "lit s = map of_char s"

definition lit_bytes :: "string \<Rightarrow> bytes" where
  "lit_bytes s = map of_char s"

definition is_digit :: "nat \<Rightarrow> bool" where
  "is_digit c \<longleftrightarrow> 48 \<le> c \<and> c \<le> 57"

text \<open>\<open>str.isspace\<close> on one code point.\<close>

definition is_space :: "nat \<Rightarrow> bool" where
  "is_space c \<longleftrightarrow> 9 \<le> c \<and> c \<le> 13 \<or> 28 \<le> c \<and> c \<le> 32 \<or> c = 133 \<or> c = 160 \<or> c = 5760
     \<or> 8192 \<le> c \<and> c \<le> 8202 \<or> c = 8232 \<or> c = 8233 \<or> c = 8239 \<or> c = 8287 \<or> c = 12288"

text \<open>\<open>not s.strip()\<close> on an ASCII string.\<close>

definition blank :: "string \<Rightarrow> bool" where
  "blank s \<longleftrightarrow> list_all (\<lambda>c. is_space (of_char c)) s"

text \<open>The line boundaries of \<open>str.splitlines\<close>.\<close>

definition is_line_break :: "nat \<Rightarrow> bool" where
  "is_line_break c \<longleftrightarrow> 10 \<le> c \<and> c \<le> 13 \<or> 28 \<le> c \<and> c \<le> 30 \<or> c = 133 \<or> c = 8232 \<or> c = 8233"

section \<open>UTF-8\<close>

definition utf8_cont :: "nat \<Rightarrow> bool" where
  "utf8_cont b \<longleftrightarrow> 128 \<le> b \<and> b < 192"

text \<open>Strict decoding: no overlong form, no surrogate, nothing above U+10FFFF.\<close>

fun utf8_points :: "nat list \<Rightarrow> pystr option" where
  "utf8_points [] = Some []"
| "utf8_points (a # bs) =
     (if a < 128 then map_option ((#) a) (utf8_points bs)
      else if 194 \<le> a \<and> a < 224 then
        (case bs of b # bs' \<Rightarrow>
           if utf8_cont b then map_option ((#) ((a - 192) * 64 + (b - 128))) (utf8_points bs') else None
         | _ \<Rightarrow> None)
      else if 224 \<le> a \<and> a < 240 then
        (case bs of b # c # bs' \<Rightarrow>
           if utf8_cont b \<and> utf8_cont c \<and> (a = 224 \<longrightarrow> 160 \<le> b) \<and> (a = 237 \<longrightarrow> b < 160)
           then map_option ((#) ((a - 224) * 4096 + (b - 128) * 64 + (c - 128))) (utf8_points bs') else None
         | _ \<Rightarrow> None)
      else if 240 \<le> a \<and> a < 245 then
        (case bs of b # c # d # bs' \<Rightarrow>
           if utf8_cont b \<and> utf8_cont c \<and> utf8_cont d \<and> (a = 240 \<longrightarrow> 144 \<le> b) \<and> (a = 244 \<longrightarrow> b < 144)
           then map_option ((#) ((a - 240) * 262144 + (b - 128) * 4096 + (c - 128) * 64 + (d - 128)))
                  (utf8_points bs') else None
         | _ \<Rightarrow> None)
      else None)"

definition utf8_decode :: "bytes \<Rightarrow> pystr option" where
  "utf8_decode bs = utf8_points (map unat bs)"

lemma utf8_points_ascii: "\<forall>b \<in> set bs. b < 128 \<Longrightarrow> utf8_points bs = Some bs"
  by (induction bs) auto

section \<open>Lines and fields\<close>

text \<open>A carriage return and a line feed after it are one boundary.\<close>

definition drop_lf :: "pystr \<Rightarrow> pystr" where
  "drop_lf cs = (case cs of [] \<Rightarrow> [] | c # cs' \<Rightarrow> if c = 10 then cs' else cs)"

lemma length_drop_lf [termination_simp]: "length (drop_lf cs) < Suc (length cs)"
  by (simp add: drop_lf_def split: list.split)

fun splitlines_from :: "pystr \<Rightarrow> pystr \<Rightarrow> pystr list" where
  "splitlines_from acc [] = (if acc = [] then [] else [rev acc])"
| "splitlines_from acc (c # cs) =
     (if c = 13 then rev acc # splitlines_from [] (drop_lf cs)
      else if is_line_break c then rev acc # splitlines_from [] cs
      else splitlines_from (c # acc) cs)"

definition splitlines :: "pystr \<Rightarrow> pystr list" where
  "splitlines s = splitlines_from [] s"

fun split_on :: "nat \<Rightarrow> pystr \<Rightarrow> pystr list" where
  "split_on d [] = [[]]"
| "split_on d (c # cs) =
     (if c = d then [] # split_on d cs
      else case split_on d cs of p # ps \<Rightarrow> (c # p) # ps | [] \<Rightarrow> [[c]])"

fun join_with :: "nat \<Rightarrow> pystr list \<Rightarrow> pystr" where
  "join_with d [] = []"
| "join_with d [p] = p"
| "join_with d (p # q # ps) = p @ d # join_with d (q # ps)"

text \<open>\<open>str.partition\<close>: text before the first separator, whether there is one, text after it.\<close>

fun partition_at :: "nat \<Rightarrow> pystr \<Rightarrow> pystr \<times> bool \<times> pystr" where
  "partition_at d [] = ([], False, [])"
| "partition_at d (c # cs) =
     (if c = d then ([], True, cs) else let (a, f, b) = partition_at d cs in (c # a, f, b))"

definition strip :: "pystr \<Rightarrow> pystr" where
  "strip s = rev (dropWhile is_space (rev (dropWhile is_space s)))"

fun starts_with :: "'a list \<Rightarrow> 'a list \<Rightarrow> bool" where
  "starts_with [] s = True"
| "starts_with (p # ps) [] = False"
| "starts_with (p # ps) (c # cs) = (p = c \<and> starts_with ps cs)"

lemma split_on_nonempty [simp]: "split_on d s \<noteq> []"
  by (induction s) (auto split: list.split)

lemma join_split: "join_with d (split_on d s) = s"
proof (induction s)
  case (Cons c cs)
  obtain p ps where sp: "split_on d cs = p # ps" by (cases "split_on d cs") auto
  with Cons show ?case by (cases ps) auto
qed simp

lemma split_on_no_sep: "d \<notin> set p \<Longrightarrow> split_on d p = [p]"
  by (induction p) auto

lemma split_on_append_sep: "d \<notin> set p \<Longrightarrow> split_on d (p @ d # s) = p # split_on d s"
  by (induction p) auto

lemma split_join: "ps \<noteq> [] \<Longrightarrow> \<forall>p \<in> set ps. d \<notin> set p \<Longrightarrow> split_on d (join_with d ps) = ps"
  by (induction ps rule: join_with.induct[of _ d]) (auto simp: split_on_no_sep split_on_append_sep)

lemma partition_at_append: "d \<notin> set a \<Longrightarrow> partition_at d (a @ d # b) = (a, True, b)"
  by (induction a) auto

lemma partition_at_True: "partition_at d s = (a, True, b) \<Longrightarrow> s = a @ d # b \<and> d \<notin> set a"
  by (induction s arbitrary: a) (auto split: if_splits prod.splits)

lemma starts_with_iff: "starts_with p s \<longleftrightarrow> (\<exists>r. s = p @ r)"
  by (induction p s rule: starts_with.induct) auto

lemma set_join_with: "set (join_with d ps) \<subseteq> insert d (\<Union>p \<in> set ps. set p)"
  by (induction ps rule: join_with.induct[of _ d]) auto

lemma splitlines_plain:
  "\<forall>c \<in> set s. \<not> is_line_break c \<Longrightarrow> splitlines_from acc s = (if acc = [] \<and> s = [] then [] else [rev acc @ s])"
  by (induction s arbitrary: acc) (auto simp: is_line_break_def)

section \<open>Decimal numbers\<close>

definition digits_value :: "pystr \<Rightarrow> int" where
  "digits_value ds = foldl (\<lambda>n c. 10 * n + int (c - 48)) 0 ds"

definition is_uint_text :: "pystr \<Rightarrow> bool" where
  "is_uint_text s \<longleftrightarrow> s \<noteq> [] \<and> list_all is_digit s"

text \<open>
  \<open>int(s)\<close> on a string of ASCII digits. CPython refuses to convert more than 4300 digits with a
  plain \<open>ValueError\<close> (\<open>sys.int_info.default_max_str_digits\<close>).
\<close>

definition int_max_str_digits :: nat where
  "int_max_str_digits = 4300"

definition py_int_of_digits :: "pystr \<Rightarrow> int option" where
  "py_int_of_digits s = (if int_max_str_digits < length s then None else Some (digits_value s))"

lemma digits_value_nonneg: "0 \<le> digits_value ds"
proof -
  have "0 \<le> n \<Longrightarrow> 0 \<le> foldl (\<lambda>n c. 10 * n + int (c - 48)) n ds" for n
    by (induction ds arbitrary: n) auto
  then show ?thesis by (simp add: digits_value_def)
qed

lemma digits_value_snoc: "digits_value (ds @ [c]) = 10 * digits_value ds + int (c - 48)"
  by (simp add: digits_value_def)

text \<open>The decimal notation of a natural number, as the sender writes it.\<close>

fun show_nat :: "nat \<Rightarrow> pystr" where
  "show_nat n = (if n < 10 then [48 + n] else show_nat (n div 10) @ [48 + n mod 10])"

declare show_nat.simps [simp del]

lemma digits_value_show_nat: "digits_value (show_nat n) = int n"
proof (induction n rule: show_nat.induct)
  case (1 n)
  show ?case
  proof (cases "n < 10")
    case True
    then show ?thesis by (simp add: show_nat.simps[of n] digits_value_def)
  next
    case False
    with 1 have "digits_value (show_nat n) = 10 * int (n div 10) + int (n mod 10)"
      by (simp add: show_nat.simps[of n] digits_value_snoc)
    then show ?thesis by (simp add: zdiv_int zmod_int)
  qed
qed

lemma show_nat_digits: "is_uint_text (show_nat n)"
proof (induction n rule: show_nat.induct)
  case (1 n)
  have "n mod 10 < 10" by simp
  then have "n mod 10 \<le> 9" by linarith
  with 1 show ?case by (subst show_nat.simps) (auto simp: is_uint_text_def is_digit_def)
qed

lemma show_nat_length: "n < 10 ^ k \<Longrightarrow> 0 < k \<Longrightarrow> length (show_nat n) \<le> k"
proof (induction n arbitrary: k rule: show_nat.induct)
  case (1 n)
  show ?case
  proof (cases "n < 10")
    case True
    then show ?thesis using "1.prems" by (simp add: show_nat.simps[of n])
  next
    case False
    then obtain j where k: "k = Suc j" "0 < j"
      using "1.prems" by (cases k; cases "k - 1") auto
    then have "n div 10 < 10 ^ j" using "1.prems" by auto
    with "1.IH"[OF False this k(2)] False k show ?thesis by (simp add: show_nat.simps[of n])
  qed
qed

text \<open>
  The unsigned decimal literals \<open>[0-9]+(.[0-9]*)?\<close> or \<open>.[0-9]+\<close>, with an optional exponent,
  and their exact value. \<open>float\<close> rounds that value to binary64.
\<close>

definition exponent_value :: "pystr \<Rightarrow> int option" where
  "exponent_value s =
     (case s of
        [] \<Rightarrow> Some 0
      | e # ds \<Rightarrow>
          if e = 69 \<or> e = 101 then
            (case ds of
               [] \<Rightarrow> None
             | c # ds' \<Rightarrow>
                 if c = 43 then (if is_uint_text ds' then Some (digits_value ds') else None)
                 else if c = 45 then (if is_uint_text ds' then Some (- digits_value ds') else None)
                 else if is_uint_text ds then Some (digits_value ds) else None)
          else None)"

definition scaled :: "pystr \<Rightarrow> pystr \<Rightarrow> int \<Rightarrow> rat" where
  "scaled ip fp e =
     (let k = e - int (length fp); m = of_int (digits_value (ip @ fp))
      in if 0 \<le> k then m * 10 ^ nat k else m / 10 ^ nat (- k))"

definition decimal_value :: "pystr \<Rightarrow> rat option" where
  "decimal_value s =
     (let ip = takeWhile is_digit s; rest = dropWhile is_digit s in
      if rest \<noteq> [] \<and> hd rest = 46 then
        (let fp = takeWhile is_digit (tl rest) in
         if ip = [] \<and> fp = [] then None
         else map_option (scaled ip fp) (exponent_value (dropWhile is_digit (tl rest))))
      else if ip = [] then None else map_option (scaled ip []) (exponent_value rest))"

lemma scaled_nonneg: "0 \<le> scaled ip fp e"
  by (simp add: scaled_def Let_def digits_value_nonneg)

lemma decimal_value_nonneg: "decimal_value s = Some r \<Longrightarrow> 0 \<le> r"
  by (auto simp: decimal_value_def Let_def scaled_nonneg split: if_splits)

end
