(* ===== verification/Clutch.thy ===== *)
theory Clutch
  imports PyFloat
begin

text \<open>
  The provider-independent hold-to-run clutches of \<open>src/motion_input/clutch.py\<close>: an analog
  hysteresis with release-before-press arming (\<open>AnalogHoldToRun\<close>), and the two state machines
  over it (\<open>ArmClutchMachine\<close>, \<open>HandClutchMachine\<close>). Timestamps are host monotonic
  nanoseconds, Python ints. A handler returns the successor state and its action.
\<close>

section \<open>Analog samples and the hysteresis\<close>

datatype clutch_error =
    AnalogValueOutOfRange
  | NegativeTimestampOrSequence
  | BadThresholds
  | BadStaleTimeout
  | BadReacquisitionDuration
  | DurationConversion conv_error
  | ReferenceCaptureOutOfSequence

record analog_sample =
  smp_value :: pyfloat
  smp_receive_ns :: int
  smp_seq :: int
  smp_valid :: bool
  smp_source_ns :: "int option"

definition mk_analog_sample ::
  "pyfloat \<Rightarrow> int \<Rightarrow> int \<Rightarrow> bool \<Rightarrow> int option \<Rightarrow> (clutch_error, analog_sample) res" where
  "mk_analog_sample v recv sq valid src =
     (if \<not> is_finite v \<or> \<not> (fle (Fin 0) v \<and> fle v (Fin 1)) then Inl AnalogValueOutOfRange
      else if recv < 0 \<or> sq < 0 then Inl NegativeTimestampOrSequence
      else Inr \<lparr>smp_value = v, smp_receive_ns = recv, smp_seq = sq, smp_valid = valid,
                smp_source_ns = src\<rparr>)"

definition sample_fresh :: "analog_sample \<Rightarrow> int \<Rightarrow> int \<Rightarrow> bool" where
  "sample_fresh s now_ns stale_after_ns \<longleftrightarrow>
     smp_valid s \<and> smp_receive_ns s \<le> now_ns \<and> now_ns - smp_receive_ns s \<le> stale_after_ns"

record observation =
  obs_pressed :: "bool option"
  obs_rising :: bool
  obs_falling :: bool
  obs_released_observed :: bool
  obs_new_sample :: bool
  obs_valid :: bool

record hold_to_run =
  htr_pressed_at :: pyfloat
  htr_released_at :: pyfloat
  htr_pressed :: "bool option"
  htr_released_observed :: bool
  htr_last_seq :: "int option"

definition mk_hold_to_run :: "pyfloat \<Rightarrow> pyfloat \<Rightarrow> (clutch_error, hold_to_run) res" where
  "mk_hold_to_run pressed_at released_at =
     (if \<not> (fle (Fin 0) released_at \<and> flt released_at pressed_at \<and> fle pressed_at (Fin 1))
      then Inl BadThresholds
      else Inr \<lparr>htr_pressed_at = pressed_at, htr_released_at = released_at, htr_pressed = None,
                htr_released_observed = False, htr_last_seq = None\<rparr>)"

text \<open>The defaults \<open>pressed_at = 0.75\<close> and \<open>released_at = 0.55\<close>, as binary64 values.\<close>

definition default_pressed_at :: pyfloat where
  "default_pressed_at = Fin (3 / 4)"

definition default_released_at :: pyfloat where
  "default_released_at = Fin (4953959590107546 / 9007199254740992)"

definition htr_require_release :: "hold_to_run \<Rightarrow> hold_to_run" where
  "htr_require_release h =
     h\<lparr>htr_released_observed := False, htr_pressed := None, htr_last_seq := None\<rparr>"

text \<open>The hysteresis itself: the new pressed state, and whether a release has been observed.\<close>

definition htr_band :: "hold_to_run \<Rightarrow> pyfloat \<Rightarrow> bool option \<times> bool" where
  "htr_band h v =
     (if fle (htr_pressed_at h) v then (Some True, htr_released_observed h)
      else if fle v (htr_released_at h) then (Some False, True)
      else (htr_pressed h, htr_released_observed h))"

definition htr_observe ::
  "hold_to_run \<Rightarrow> analog_sample \<Rightarrow> bool \<Rightarrow> hold_to_run \<times> observation" where
  "htr_observe h s fresh =
     (if \<not> fresh then
        (h, \<lparr>obs_pressed = htr_pressed h, obs_rising = False, obs_falling = False,
             obs_released_observed = htr_released_observed h, obs_new_sample = False,
             obs_valid = False\<rparr>)
      else if htr_last_seq h = Some (smp_seq s) then
        (h, \<lparr>obs_pressed = htr_pressed h, obs_rising = False, obs_falling = False,
             obs_released_observed = htr_released_observed h, obs_new_sample = False,
             obs_valid = True\<rparr>)
      else
        let previous = htr_pressed h; (p, r) = htr_band h (smp_value s) in
        (h\<lparr>htr_pressed := p, htr_released_observed := r, htr_last_seq := Some (smp_seq s)\<rparr>,
         \<lparr>obs_pressed = p,
          obs_rising = (r \<and> previous = Some False \<and> p = Some True),
          obs_falling = (previous = Some True \<and> p = Some False),
          obs_released_observed = r, obs_new_sample = True, obs_valid = True\<rparr>))"

section \<open>The interface of a hold-to-run trigger\<close>

text \<open>
  What the clutch machines and the transport monitor rely on: a stale sample changes nothing and
  reports no edge; after \<open>reset\<close> nothing is pressed or armed; arming needs a fresh sample that is
  at or below the release threshold; a rising edge happens only on a trigger that is armed.
\<close>

locale hold_trigger =
  fixes observe :: "'t \<Rightarrow> 's \<Rightarrow> bool \<Rightarrow> 't \<times> observation"
    and reset :: "'t \<Rightarrow> 't"
    and armed :: "'t \<Rightarrow> bool"
    and down :: "'t \<Rightarrow> bool option"
    and released_sample :: "'t \<Rightarrow> 's \<Rightarrow> bool"
  assumes stale_same: "fst (observe t s False) = t"
    and stale_no_edge: "\<not> obs_rising (snd (observe t s False))"
    and reset_unarmed: "\<not> armed (reset t)"
    and reset_up: "down (reset t) = None"
    and arming: "\<not> armed t \<Longrightarrow> armed (fst (observe t s fr)) \<Longrightarrow> fr \<and> released_sample t s"
    and unarmed_not_up: "(\<not> armed t \<longrightarrow> down t \<noteq> Some False) \<Longrightarrow>
      \<not> armed (fst (observe t s fr)) \<Longrightarrow> down (fst (observe t s fr)) \<noteq> Some False"
    and edge_needs_up: "obs_rising (snd (observe t s fr)) \<Longrightarrow> down t = Some False"
    and released_stable: "released_sample (fst (observe t s fr)) = released_sample t"
    and released_reset: "released_sample (reset t) = released_sample t"
begin

fun observe_all :: "'t \<Rightarrow> ('s \<times> bool) list \<Rightarrow> 't \<times> bool" where
  "observe_all t [] = (t, False)"
| "observe_all t ((s, fr) # xs) =
     (let (t', o1) = observe t s fr; (t'', e) = observe_all t' xs in (t'', obs_rising o1 \<or> e))"

lemma no_edge_while_unarmed:
  assumes "\<not> armed t" and "down t \<noteq> Some False"
    and "\<forall>(s, fr) \<in> set xs. fr \<longrightarrow> \<not> released_sample t s"
  shows "\<not> snd (observe_all t xs) \<and> \<not> armed (fst (observe_all t xs))"
  using assms
proof (induction xs arbitrary: t)
  case (Cons x xs)
  obtain s fr where x: "x = (s, fr)" by (cases x)
  obtain t' ob where ob: "observe t s fr = (t', ob)" by (cases "observe t s fr")
  have na: "\<not> armed t'" using arming[of t s fr] Cons.prems x ob by auto
  have nu: "down t' \<noteq> Some False" using unarmed_not_up[of t s fr] Cons.prems na ob by auto
  have ne: "\<not> obs_rising ob" using edge_needs_up[of t s fr] Cons.prems ob by auto
  have "released_sample t' = released_sample t" using released_stable[of t s fr] ob by simp
  with Cons.IH[OF na nu] Cons.prems(3) x have "\<not> snd (observe_all t' xs) \<and> \<not> armed (fst (observe_all t' xs))"
    by auto
  with ne show ?case by (simp add: x ob split: prod.split)
qed simp

lemma no_edge_after_reset:
  assumes "\<forall>(s, fr) \<in> set xs. fr \<longrightarrow> \<not> released_sample t s"
  shows "\<not> snd (observe_all (reset t) xs)"
  using no_edge_while_unarmed[of "reset t" xs] assms reset_unarmed reset_up released_reset by auto

end

definition htr_sample_released :: "hold_to_run \<Rightarrow> analog_sample \<Rightarrow> bool" where
  "htr_sample_released h s \<longleftrightarrow>
     \<not> fle (htr_pressed_at h) (smp_value s) \<and> fle (smp_value s) (htr_released_at h)"

interpretation htr: hold_trigger htr_observe htr_require_release htr_released_observed htr_pressed
  htr_sample_released
  by unfold_locales
    (auto simp: htr_observe_def htr_require_release_def htr_sample_released_def htr_band_def
      Let_def fun_eq_iff split: if_splits prod.splits)

lemma htr_observe_stale [clutch_simps]:
  "htr_observe h s False =
     (h, \<lparr>obs_pressed = htr_pressed h, obs_rising = False, obs_falling = False,
          obs_released_observed = htr_released_observed h, obs_new_sample = False,
          obs_valid = False\<rparr>)"
  by (simp add: htr_observe_def)

lemma htr_observe_pressed: "obs_pressed (snd (htr_observe h s fr)) = htr_pressed (fst (htr_observe h s fr))"
  by (auto simp: htr_observe_def Let_def split: prod.splits)

lemma htr_observe_thresholds [simp]:
  "htr_pressed_at (fst (htr_observe h s fr)) = htr_pressed_at h"
  "htr_released_at (fst (htr_observe h s fr)) = htr_released_at h"
  by (auto simp: htr_observe_def Let_def split: prod.splits)

section \<open>What both machines share\<close>

datatype clutch_action = FREEZE | CAPTURE_ARM_REFERENCE | START_HAND_REACQUISITION | UPDATE

text \<open>\<open>ClutchTransition\<close>, over the state enum of the machine that logs it.\<close>

record 's clutch_transition =
  tr_ns :: int
  tr_previous :: 's
  tr_current :: 's
  tr_reason :: string

record clutch_fault =
  cf_ns :: int
  cf_channel :: string
  cf_reason :: string

text \<open>\<open>_stale_ns\<close>\<close>

definition stale_ns :: "pyfloat \<Rightarrow> (clutch_error, int) res" where
  "stale_ns stale_after_s =
     (if \<not> is_finite stale_after_s \<or> fle stale_after_s (Fin 0) then Inl BadStaleTimeout
      else case seconds_to_ns stale_after_s of
             Inl e \<Rightarrow> Inl (DurationConversion e)
           | Inr n \<Rightarrow> Inr n)"

lemma stale_ns_nonneg: "stale_ns s = Inr n \<Longrightarrow> 0 \<le> n"
  using seconds_to_ns_nonneg[of s n] by (cases s) (auto simp: stale_ns_def split: if_splits sum.splits)

text \<open>A log is a path of allowed edges from the start state to the current one.\<close>

fun log_path :: "('s \<Rightarrow> 's \<Rightarrow> bool) \<Rightarrow> 's \<Rightarrow> 's clutch_transition list \<Rightarrow> 's \<Rightarrow> bool" where
  "log_path R a [] b = (a = b)"
| "log_path R a (t # ts) b = (tr_previous t = a \<and> R a (tr_current t) \<and> log_path R (tr_current t) ts b)"

lemma log_path_snoc [simp]:
  "log_path R a (ts @ [t]) b \<longleftrightarrow> log_path R a ts (tr_previous t) \<and> R (tr_previous t) (tr_current t) \<and> tr_current t = b"
  by (induction ts arbitrary: a) auto

end
