(* ===== verification/ArmClutch.thy ===== *)
theory ArmClutch
  imports Clutch
begin

text \<open>
  \<open>ArmClutchMachine\<close> of \<open>src/motion_input/clutch.py\<close>: release-before-press arming, reference
  capture on the press edge, hold-to-run afterwards, and faults that latch until a released sample
  newer than the fault has been seen with valid capture inputs.
\<close>

section \<open>The arm clutch\<close>

datatype arm_state =
  ArmWaitingForRelease | ArmDisengaged | ArmReferenceCapture | ArmEngaged | ArmTrackingFault

record arm_machine =
  am_stale_after_ns :: int
  am_trigger :: hold_to_run
  am_state :: arm_state
  am_transitions :: "arm_state clutch_transition list"
  am_fault_history :: "clutch_fault list"
  am_active_fault :: "clutch_fault option"
  am_cycle_count :: nat

definition mk_arm_machine ::
  "pyfloat \<Rightarrow> pyfloat \<Rightarrow> pyfloat \<Rightarrow> (clutch_error, arm_machine) res" where
  "mk_arm_machine stale_after_s pressed_at released_at =
     rbind (stale_ns stale_after_s) (\<lambda>stale.
     rbind (mk_hold_to_run pressed_at released_at) (\<lambda>trigger.
     Inr \<lparr>am_stale_after_ns = stale, am_trigger = trigger, am_state = ArmWaitingForRelease,
          am_transitions = [], am_fault_history = [], am_active_fault = None,
          am_cycle_count = 0\<rparr>))"

definition arm_transition :: "arm_machine \<Rightarrow> int \<Rightarrow> arm_state \<Rightarrow> string \<Rightarrow> arm_machine" where
  "arm_transition m now_ns st reason =
     (if st = am_state m then m
      else m\<lparr>am_state := st,
             am_transitions := am_transitions m @
               [\<lparr>tr_ns = now_ns, tr_previous = am_state m, tr_current = st, tr_reason = reason\<rparr>]\<rparr>)"

definition arm_fault :: "arm_machine \<Rightarrow> int \<Rightarrow> string \<Rightarrow> arm_machine" where
  "arm_fault m now_ns reason =
     (let f = \<lparr>cf_ns = now_ns, cf_channel = ''arm'', cf_reason = reason\<rparr> in
      arm_transition
        (m\<lparr>am_active_fault := Some f, am_fault_history := am_fault_history m @ [f],
           am_trigger := htr_require_release (am_trigger m)\<rparr>)
        now_ns ArmTrackingFault reason)"

definition arm_step ::
  "arm_machine \<Rightarrow> analog_sample \<Rightarrow> int \<Rightarrow> bool \<Rightarrow> bool \<Rightarrow> bool \<Rightarrow> arm_machine \<times> clutch_action" where
  "arm_step m0 s now_ns controller_valid continuous_inputs_valid capture_inputs_valid =
     (let fresh = (controller_valid \<and> sample_fresh s now_ns (am_stale_after_ns m0));
          (trigger, ob) = htr_observe (am_trigger m0) s fresh;
          m = m0\<lparr>am_trigger := trigger\<rparr>
      in
      if am_state m \<notin> {ArmWaitingForRelease, ArmTrackingFault} \<and> \<not> fresh then
        (arm_fault m now_ns ''ARM_TRIGGER_STALE_OR_INVALID'', FREEZE)
      else if am_state m = ArmEngaged \<and> \<not> continuous_inputs_valid then
        (arm_fault m now_ns ''RIGHT_WRIST_STALE_OR_INVALID'', FREEZE)
      else if am_state m = ArmReferenceCapture then (m, FREEZE)
      else if am_state m = ArmWaitingForRelease then
        (if obs_valid ob \<and> obs_pressed ob = Some False
         then arm_transition m now_ns ArmDisengaged ''VALID_RELEASE_OBSERVED'' else m, FREEZE)
      else if am_state m = ArmTrackingFault then
        (if obs_valid ob \<and> obs_pressed ob = Some False
            \<and> (\<exists>f \<in> set_option (am_active_fault m). cf_ns f < smp_receive_ns s)
            \<and> capture_inputs_valid \<and> controller_valid
         then arm_transition (m\<lparr>am_active_fault := None\<rparr>) now_ns ArmDisengaged
                ''FAULT_RECOVERY_RELEASED_AND_VALID''
         else m, FREEZE)
      else if am_state m = ArmDisengaged then
        (if obs_rising ob then
           (if \<not> fresh \<or> \<not> capture_inputs_valid
            then (arm_fault m now_ns ''ARM_REFERENCE_INPUT_INVALID'', FREEZE)
            else (arm_transition m now_ns ArmReferenceCapture ''ARM_PRESS_EDGE'',
                  CAPTURE_ARM_REFERENCE))
         else (m, FREEZE))
      else if obs_pressed ob = Some False then
        (arm_transition m now_ns ArmDisengaged ''ARM_TRIGGER_RELEASED'', FREEZE)
      else (m, UPDATE))"

definition arm_reference_captured :: "arm_machine \<Rightarrow> int \<Rightarrow> (clutch_error, arm_machine) res" where
  "arm_reference_captured m now_ns =
     (if am_state m \<noteq> ArmReferenceCapture then Inl ReferenceCaptureOutOfSequence
      else Inr (arm_transition (m\<lparr>am_cycle_count := am_cycle_count m + 1\<rparr>) now_ns ArmEngaged
                  ''ARM_REFERENCE_CAPTURED''))"

text \<open>
  The calls a client can make, in the order it makes them. A call that raises leaves the machine
  as it was.
\<close>

datatype arm_event =
    ArmStep analog_sample int bool bool bool
  | ArmCaptured int
  | ArmFaulted int string

datatype clutch_output = Acted clutch_action | Completed | Raised clutch_error

fun arm_apply :: "arm_machine \<Rightarrow> arm_event \<Rightarrow> arm_machine \<times> clutch_output" where
  "arm_apply m (ArmStep s now cv cont cap) =
     (let (m', a) = arm_step m s now cv cont cap in (m', Acted a))"
| "arm_apply m (ArmCaptured now) =
     (case arm_reference_captured m now of Inl e \<Rightarrow> (m, Raised e) | Inr m' \<Rightarrow> (m', Completed))"
| "arm_apply m (ArmFaulted now reason) = (arm_fault m now reason, Completed)"

fun arm_run :: "arm_machine \<Rightarrow> arm_event list \<Rightarrow> arm_machine \<times> clutch_output list" where
  "arm_run m [] = (m, [])"
| "arm_run m (e # es) =
     (let (m', out) = arm_apply m e; (m'', outs) = arm_run m' es in (m'', out # outs))"

section \<open>Invariant of reachable machines\<close>

text \<open>The edges of the state graph of the arm clutch.\<close>

inductive arm_edge :: "arm_state \<Rightarrow> arm_state \<Rightarrow> bool" where
  armed: "arm_edge ArmWaitingForRelease ArmDisengaged"
| recovered: "arm_edge ArmTrackingFault ArmDisengaged"
| press: "arm_edge ArmDisengaged ArmReferenceCapture"
| captured: "arm_edge ArmReferenceCapture ArmEngaged"
| release: "arm_edge ArmEngaged ArmDisengaged"
| faulted: "st \<noteq> ArmTrackingFault \<Longrightarrow> arm_edge st ArmTrackingFault"

inductive_cases arm_edge_to_engagedE: "arm_edge st ArmEngaged"
inductive_simps arm_edge_to_capture: "arm_edge st ArmReferenceCapture"

definition arm_inv :: "arm_machine \<Rightarrow> bool" where
  "arm_inv m \<longleftrightarrow>
     (am_active_fault m \<noteq> None \<longleftrightarrow> am_state m = ArmTrackingFault)
     \<and> log_path arm_edge ArmWaitingForRelease (am_transitions m) (am_state m)
     \<and> am_cycle_count m = length (filter (\<lambda>t. tr_current t = ArmEngaged) (am_transitions m))
     \<and> (\<forall>f \<in> set_option (am_active_fault m). am_fault_history m \<noteq> [] \<and> last (am_fault_history m) = f)"

inductive arm_reachable :: "arm_machine \<Rightarrow> bool" where
  start: "mk_arm_machine stale p r = Inr m \<Longrightarrow> arm_reachable m"
| event: "arm_reachable m \<Longrightarrow> arm_apply m e = (m', out) \<Longrightarrow> arm_reachable m'"

lemma arm_inv_start: "mk_arm_machine stale p r = Inr m \<Longrightarrow> arm_inv m"
  by (auto simp: mk_arm_machine_def arm_inv_def)

lemma arm_inv_trigger [simp]: "arm_inv (m\<lparr>am_trigger := t\<rparr>) = arm_inv m"
  by (simp add: arm_inv_def)

lemma arm_inv_fault: "arm_inv m \<Longrightarrow> arm_inv (arm_fault m now reason)"
  by (auto simp: arm_inv_def arm_fault_def arm_transition_def Let_def intro: arm_edge.intros)

lemma arm_inv_step_aux:
  "arm_inv m \<Longrightarrow> am_state m = ArmWaitingForRelease \<Longrightarrow> arm_inv (arm_transition m now ArmDisengaged why)"
  "arm_inv m \<Longrightarrow> am_state m = ArmEngaged \<Longrightarrow> arm_inv (arm_transition m now ArmDisengaged why)"
  "arm_inv m \<Longrightarrow> am_state m = ArmDisengaged \<Longrightarrow> arm_inv (arm_transition m now ArmReferenceCapture why)"
  "arm_inv m \<Longrightarrow> am_state m = ArmTrackingFault \<Longrightarrow>
     arm_inv (arm_transition (m\<lparr>am_active_fault := None\<rparr>) now ArmDisengaged why)"
  by (auto simp: arm_inv_def arm_transition_def intro: arm_edge.intros)

lemma arm_inv_step: "arm_inv m \<Longrightarrow> arm_inv (fst (arm_step m s now cv cont cap))"
  by (cases "htr_observe (am_trigger m) s (cv \<and> sample_fresh s now (am_stale_after_ns m))";
      cases "am_state m")
    (auto simp: arm_step_def Let_def arm_inv_fault intro: arm_inv_step_aux)

lemma arm_inv_stepI: "arm_step m s now cv cont cap = (m', a) \<Longrightarrow> arm_inv m \<Longrightarrow> arm_inv m'"
  using arm_inv_step[of m s now cv cont cap] by simp

lemma arm_inv_captured: "arm_inv m \<Longrightarrow> arm_reference_captured m now = Inr m' \<Longrightarrow> arm_inv m'"
  by (auto simp: arm_reference_captured_def arm_inv_def arm_transition_def intro: arm_edge.intros
      split: if_splits)

lemma arm_inv_apply: "arm_inv m \<Longrightarrow> arm_apply m e = (m', out) \<Longrightarrow> arm_inv m'"
  by (cases e) (auto split: prod.splits sum.splits intro: arm_inv_fault arm_inv_captured arm_inv_stepI)

lemma arm_reachable_inv: "arm_reachable m \<Longrightarrow> arm_inv m"
  by (induction rule: arm_reachable.induct) (auto intro: arm_inv_start arm_inv_apply)

section \<open>Release before motion\<close>

text \<open>A step that shows the trigger a fresh sample at or below the release threshold.\<close>

fun arm_sees_release :: "arm_machine \<Rightarrow> arm_event \<Rightarrow> bool" where
  "arm_sees_release m (ArmStep s now cv cont cap) =
     (cv \<and> sample_fresh s now (am_stale_after_ns m) \<and> htr_sample_released (am_trigger m) s)"
| "arm_sees_release m (ArmCaptured now) = False"
| "arm_sees_release m (ArmFaulted now reason) = False"

text \<open>A machine that must see a release before anything else can happen.\<close>

definition arm_locked :: "arm_machine \<Rightarrow> bool" where
  "arm_locked m \<longleftrightarrow> am_state m \<in> {ArmWaitingForRelease, ArmTrackingFault}
     \<and> \<not> htr_released_observed (am_trigger m) \<and> htr_pressed (am_trigger m) \<noteq> Some False"

definition arm_motion :: "clutch_output \<Rightarrow> bool" where
  "arm_motion out \<longleftrightarrow> out = Acted UPDATE \<or> out = Acted CAPTURE_ARM_REFERENCE"

lemma arm_locked_start: "mk_arm_machine a b c = Inr m \<Longrightarrow> arm_locked m"
  by (auto simp: mk_arm_machine_def mk_hold_to_run_def arm_locked_def split: if_splits)

lemma arm_locked_fault: "arm_locked (arm_fault m now why)"
  by (simp add: arm_locked_def arm_fault_def arm_transition_def htr_require_release_def Let_def)

lemma arm_fault_params [simp]:
  "am_stale_after_ns (arm_fault m now why) = am_stale_after_ns m"
  "htr_sample_released (am_trigger (arm_fault m now why)) = htr_sample_released (am_trigger m)"
  by (auto simp: arm_fault_def arm_transition_def Let_def htr.released_reset)

lemma arm_transition_params [simp]:
  "am_stale_after_ns (arm_transition m now st why) = am_stale_after_ns m"
  "am_trigger (arm_transition m now st why) = am_trigger m"
  by (auto simp: arm_transition_def)

lemma arm_step_params:
  "am_stale_after_ns (fst (arm_step m s now cv cont cap)) = am_stale_after_ns m"
  "htr_sample_released (am_trigger (fst (arm_step m s now cv cont cap))) = htr_sample_released (am_trigger m)"
proof -
  obtain t ob where ob: "htr_observe (am_trigger m) s (cv \<and> sample_fresh s now (am_stale_after_ns m)) = (t, ob)"
    by (cases "htr_observe (am_trigger m) s (cv \<and> sample_fresh s now (am_stale_after_ns m))")
  then have rs: "htr_sample_released t = htr_sample_released (am_trigger m)"
    using htr.released_stable[of "am_trigger m" s "cv \<and> sample_fresh s now (am_stale_after_ns m)"] by simp
  show "am_stale_after_ns (fst (arm_step m s now cv cont cap)) = am_stale_after_ns m"
    by (simp add: arm_step_def ob Let_def)
  show "htr_sample_released (am_trigger (fst (arm_step m s now cv cont cap))) = htr_sample_released (am_trigger m)"
    by (simp add: arm_step_def ob rs Let_def)
qed

lemma arm_apply_params:
  assumes "arm_apply m e = (m', out)"
  shows "am_stale_after_ns m' = am_stale_after_ns m"
    and "htr_sample_released (am_trigger m') = htr_sample_released (am_trigger m)"
proof -
  have "am_stale_after_ns m' = am_stale_after_ns m
    \<and> htr_sample_released (am_trigger m') = htr_sample_released (am_trigger m)"
  proof (cases e)
    case (ArmStep s now cv cont cap)
    then have "m' = fst (arm_step m s now cv cont cap)" using assms by (auto split: prod.splits)
    then show ?thesis by (simp add: arm_step_params)
  qed (use assms in \<open>auto simp: arm_reference_captured_def split: sum.splits if_splits\<close>)
  then show "am_stale_after_ns m' = am_stale_after_ns m"
    and "htr_sample_released (am_trigger m') = htr_sample_released (am_trigger m)" by auto
qed

lemma arm_apply_sees_release:
  "arm_apply m e = (m', out) \<Longrightarrow> arm_sees_release m' e' = arm_sees_release m e'"
  by (cases e') (auto simp: arm_apply_params)

lemma arm_locked_step:
  assumes "arm_locked m" and "\<not> (cv \<and> sample_fresh s now (am_stale_after_ns m) \<and> htr_sample_released (am_trigger m) s)"
    and "arm_step m s now cv cont cap = (m', a)"
  shows "arm_locked m' \<and> a = FREEZE"
proof -
  let ?fresh = "cv \<and> sample_fresh s now (am_stale_after_ns m)"
  obtain t ob where ob: "htr_observe (am_trigger m) s ?fresh = (t, ob)"
    by (cases "htr_observe (am_trigger m) s ?fresh")
  have na: "\<not> htr_released_observed t"
    using htr.arming[of "am_trigger m" s ?fresh] assms(1,2) ob by (auto simp: arm_locked_def)
  have nu: "htr_pressed t \<noteq> Some False"
    using htr.unarmed_not_up[of "am_trigger m" s ?fresh] assms(1) na ob by (auto simp: arm_locked_def)
  have "obs_pressed ob = htr_pressed t"
    using htr_observe_pressed[of "am_trigger m" s ?fresh] ob by simp
  with assms(1,3) na nu ob show ?thesis
    by (auto simp: arm_step_def arm_locked_def Let_def split: if_splits)
qed

lemma arm_locked_apply:
  assumes "arm_locked m" and "\<not> arm_sees_release m e" and "arm_apply m e = (m', out)"
  shows "arm_locked m' \<and> \<not> arm_motion out"
proof (cases e)
  case (ArmStep s now cv cont cap)
  obtain m1 a where st: "arm_step m s now cv cont cap = (m1, a)"
    by (cases "arm_step m s now cv cont cap")
  show ?thesis
    using arm_locked_step[OF assms(1) _ st] assms(2,3) ArmStep st by (auto simp: arm_motion_def)
next
  case (ArmCaptured now)
  then show ?thesis using assms
    by (auto simp: arm_reference_captured_def arm_locked_def arm_motion_def split: if_splits)
next
  case (ArmFaulted now reason)
  then show ?thesis using assms by (auto simp: arm_locked_fault arm_motion_def)
qed

lemma arm_locked_run:
  "arm_locked m \<Longrightarrow> \<forall>e \<in> set es. \<not> arm_sees_release m e \<Longrightarrow> out \<in> set (snd (arm_run m es)) \<Longrightarrow> \<not> arm_motion out"
proof (induction es arbitrary: m)
  case (Cons e es)
  obtain m' o1 where ap: "arm_apply m e = (m', o1)" by (cases "arm_apply m e")
  have l: "arm_locked m' \<and> \<not> arm_motion o1"
    using arm_locked_apply[OF Cons.prems(1) _ ap] Cons.prems(2) by simp
  have "\<forall>e \<in> set es. \<not> arm_sees_release m' e"
    using Cons.prems(2) arm_apply_sees_release[OF ap] by simp
  with Cons.IH[of m'] l Cons.prems(3) ap show ?case by (auto split: prod.splits)
qed simp

section \<open>Properties\<close>


definition demo_sample :: "rat \<Rightarrow> int \<Rightarrow> int \<Rightarrow> analog_sample" where
  "demo_sample v recv sq =
     \<lparr>smp_value = Fin v, smp_receive_ns = recv, smp_seq = sq, smp_valid = True, smp_source_ns = None\<rparr>"

definition demo_arm :: arm_machine where
  "demo_arm =
     \<lparr>am_stale_after_ns = 250000000,
      am_trigger = \<lparr>htr_pressed_at = default_pressed_at, htr_released_at = default_released_at,
        htr_pressed = None, htr_released_observed = False, htr_last_seq = None\<rparr>,
      am_state = ArmWaitingForRelease, am_transitions = [], am_fault_history = [],
      am_active_fault = None, am_cycle_count = 0\<rparr>"

lemma demo_arm_constructed:
  "mk_arm_machine (Fin (1 / 4)) default_pressed_at default_released_at = Inr demo_arm"
proof -
  have "seconds_to_ns (Fin (1 / 4)) = Inr 250000000" by (rule seconds_to_ns_exact) auto
  then show ?thesis
    by (simp add: mk_arm_machine_def stale_ns_def mk_hold_to_run_def demo_arm_def
        default_pressed_at_def default_released_at_def)
qed


text \<open>
  Hold to run. An update passes only while the machine is engaged and stays engaged, with a fresh
  sample from a valid controller, valid continuous inputs, and a trigger that is not released; it
  leaves the log and the cycle count alone.
\<close>

theorem arm_update_sound:
  assumes "arm_step m s now cv cont cap = (m', UPDATE)"
  shows "am_state m = ArmEngaged \<and> am_state m' = ArmEngaged \<and> cv \<and> cont
    \<and> sample_fresh s now (am_stale_after_ns m) \<and> htr_pressed (am_trigger m') \<noteq> Some False
    \<and> am_transitions m' = am_transitions m \<and> am_cycle_count m' = am_cycle_count m"
proof -
  obtain t ob where ob: "htr_observe (am_trigger m) s (cv \<and> sample_fresh s now (am_stale_after_ns m)) = (t, ob)"
    by (cases "htr_observe (am_trigger m) s (cv \<and> sample_fresh s now (am_stale_after_ns m))")
  then have "obs_pressed ob = htr_pressed t"
    using htr_observe_pressed[of "am_trigger m" s "cv \<and> sample_fresh s now (am_stale_after_ns m)"] by simp
  with assms ob show ?thesis
    by (cases "am_state m") (auto simp: arm_step_def Let_def split: if_splits)
qed

definition demo_arm_engaged :: arm_machine where
  "demo_arm_engaged =
     fst (arm_run demo_arm [ArmStep (demo_sample 0 10 1) 20 True True True,
       ArmStep (demo_sample 1 30 2) 40 True True True, ArmCaptured 50])"

lemma demo_arm_engaged_eq:
  "demo_arm_engaged = demo_arm\<lparr>
     am_trigger := (am_trigger demo_arm)\<lparr>htr_pressed := Some True, htr_released_observed := True,
       htr_last_seq := Some 2\<rparr>,
     am_state := ArmEngaged,
     am_transitions :=
       [\<lparr>tr_ns = 20, tr_previous = ArmWaitingForRelease, tr_current = ArmDisengaged,
         tr_reason = ''VALID_RELEASE_OBSERVED''\<rparr>,
        \<lparr>tr_ns = 40, tr_previous = ArmDisengaged, tr_current = ArmReferenceCapture,
         tr_reason = ''ARM_PRESS_EDGE''\<rparr>,
        \<lparr>tr_ns = 50, tr_previous = ArmReferenceCapture, tr_current = ArmEngaged,
         tr_reason = ''ARM_REFERENCE_CAPTURED''\<rparr>],
     am_cycle_count := 1\<rparr>"
  by (simp add: demo_arm_engaged_def demo_arm_def demo_sample_def arm_step_def arm_transition_def
      arm_reference_captured_def htr_observe_def htr_band_def sample_fresh_def
      default_pressed_at_def default_released_at_def)

theorem arm_update_sound_witness:
  "am_state (fst (arm_step demo_arm_engaged (demo_sample 1 60 3) 70 True True False)) = ArmEngaged"
proof -
  have "arm_step demo_arm_engaged (demo_sample 1 60 3) 70 True True False =
      (fst (arm_step demo_arm_engaged (demo_sample 1 60 3) 70 True True False), UPDATE)"
    by (simp add: demo_arm_engaged_eq demo_arm_def demo_sample_def arm_step_def htr_observe_def
        htr_band_def sample_fresh_def default_pressed_at_def)
  from arm_update_sound[OF this] show ?thesis by simp
qed

lemma log_path_edges: "log_path R a ts b \<Longrightarrow> t \<in> set ts \<Longrightarrow> R (tr_previous t) (tr_current t)"
  by (induction ts arbitrary: a) auto

text \<open>
  Reachable arm clutches. In every reachable machine the transition log is a path of the state
  graph from waiting-for-release to the current state, every entry into the engaged state comes from
  a reference capture, the cycle count is the number of those entries, and a fault is active exactly
  in the fault state.
\<close>

theorem arm_reachable_log:
  assumes "arm_reachable m"
  shows "log_path arm_edge ArmWaitingForRelease (am_transitions m) (am_state m)
    \<and> (\<forall>t \<in> set (am_transitions m). tr_current t = ArmEngaged \<longrightarrow> tr_previous t = ArmReferenceCapture)
    \<and> am_cycle_count m = length (filter (\<lambda>t. tr_current t = ArmEngaged) (am_transitions m))
    \<and> (am_active_fault m \<noteq> None \<longleftrightarrow> am_state m = ArmTrackingFault)"
proof -
  have inv: "arm_inv m" using assms by (rule arm_reachable_inv)
  have "tr_previous t = ArmReferenceCapture" if "t \<in> set (am_transitions m)" "tr_current t = ArmEngaged" for t
    using inv that log_path_edges[of arm_edge _ "am_transitions m" _ t]
    by (auto simp: arm_inv_def elim: arm_edge_to_engagedE)
  with inv show ?thesis by (auto simp: arm_inv_def)
qed

lemma arm_reachable_run: "arm_reachable m \<Longrightarrow> arm_reachable (fst (arm_run m es))"
proof (induction es arbitrary: m)
  case (Cons e es)
  obtain m' out where ap: "arm_apply m e = (m', out)" by (cases "arm_apply m e")
  with Cons.prems have "arm_reachable m'" by (rule arm_reachable.event)
  from Cons.IH[OF this] ap show ?case by (cases "arm_run m' es") simp
qed simp

theorem arm_reachable_log_witness: "am_cycle_count demo_arm_engaged =
    length (filter (\<lambda>t. tr_current t = ArmEngaged) (am_transitions demo_arm_engaged))"
proof -
  have "arm_reachable demo_arm_engaged"
    unfolding demo_arm_engaged_def
    by (rule arm_reachable_run) (rule arm_reachable.start[OF demo_arm_constructed])
  from arm_reachable_log[OF this] show ?thesis by blast
qed

text \<open>
  Recovery. From a fault, a fresh released sample newer than the fault and a later fresh press
  bring the machine back: it asks for a reference capture, and after the capture it passes updates.
\<close>

theorem arm_recovers:
  assumes fault: "am_state m = ArmTrackingFault" "am_active_fault m = Some f"
    and seqs: "htr_last_seq (am_trigger m) \<noteq> Some (smp_seq s1)" "smp_seq s2 \<noteq> smp_seq s1"
    and release: "sample_fresh s1 n1 (am_stale_after_ns m)" "htr_sample_released (am_trigger m) s1"
      "cf_ns f < smp_receive_ns s1"
    and press: "sample_fresh s2 n2 (am_stale_after_ns m)" "fle (htr_pressed_at (am_trigger m)) (smp_value s2)"
    and hold: "sample_fresh s3 n4 (am_stale_after_ns m)" "fle (htr_pressed_at (am_trigger m)) (smp_value s3)"
  shows "snd (arm_run m [ArmStep s1 n1 True c1 True, ArmStep s2 n2 True c2 True, ArmCaptured n3,
      ArmStep s3 n4 True True c3]) = [Acted FREEZE, Acted CAPTURE_ARM_REFERENCE, Completed, Acted UPDATE]"
proof -
  have nr: "\<not> fle (htr_pressed_at (am_trigger m)) (smp_value s1)" "fle (smp_value s1) (htr_released_at (am_trigger m))"
    using release(2) by (auto simp: htr_sample_released_def)
  define m1 where "m1 = fst (arm_step m s1 n1 True c1 True)"
  have s1: "arm_step m s1 n1 True c1 True = (m1, FREEZE)"
    and m1: "am_state m1 = ArmDisengaged" "htr_pressed (am_trigger m1) = Some False"
      "htr_released_observed (am_trigger m1)" "htr_last_seq (am_trigger m1) = Some (smp_seq s1)"
      "am_stale_after_ns m1 = am_stale_after_ns m"
      "htr_pressed_at (am_trigger m1) = htr_pressed_at (am_trigger m)"
    using fault seqs release nr
    by (simp_all add: m1_def arm_step_def htr_observe_def htr_band_def arm_transition_def)
  define m2 where "m2 = fst (arm_step m1 s2 n2 True c2 True)"
  have s2: "arm_step m1 s2 n2 True c2 True = (m2, CAPTURE_ARM_REFERENCE)"
    and m2: "am_state m2 = ArmReferenceCapture" "am_stale_after_ns m2 = am_stale_after_ns m"
      "htr_pressed_at (am_trigger m2) = htr_pressed_at (am_trigger m)"
      "htr_pressed (am_trigger m2) = Some True"
    using m1 press seqs
    by (simp_all add: m2_def arm_step_def htr_observe_def htr_band_def arm_transition_def)
  show ?thesis using s1 s2 m2 hold
    by (simp add: arm_reference_captured_def arm_transition_def arm_step_def htr_observe_def htr_band_def Let_def)
qed

theorem arm_recovers_witness:
  "snd (arm_run (arm_fault demo_arm_engaged 100 ''TEST'')
     [ArmStep (demo_sample 0 110 3) 120 True True True, ArmStep (demo_sample 1 130 4) 140 True True True,
      ArmCaptured 150, ArmStep (demo_sample 1 160 5) 170 True True True])
   = [Acted FREEZE, Acted CAPTURE_ARM_REFERENCE, Completed, Acted UPDATE]"
  by (rule arm_recovers[where f = "\<lparr>cf_ns = 100, cf_channel = ''arm'', cf_reason = ''TEST''\<rparr>"])
    (simp_all add: demo_arm_engaged_eq demo_arm_def demo_sample_def arm_fault_def arm_transition_def
      htr_require_release_def sample_fresh_def htr_sample_released_def Let_def
      default_pressed_at_def default_released_at_def)

end
