(* ===== verification/HandClutch.thy ===== *)
theory HandClutch
  imports ArmClutch
begin

text \<open>
  \<open>HandClutchMachine\<close> of \<open>src/motion_input/clutch.py\<close>: as the arm clutch, with a timed
  reacquisition phase in place of the reference capture.
\<close>

section \<open>State and operations\<close>

datatype hand_state =
  HandWaitingForRelease | HandDisengaged | HandReacquire | HandEngaged | HandTrackingFault

record hand_machine =
  hm_stale_after_ns :: int
  hm_reacquisition_duration_ns :: int
  hm_trigger :: hold_to_run
  hm_state :: hand_state
  hm_transitions :: "hand_state clutch_transition list"
  hm_fault_history :: "clutch_fault list"
  hm_active_fault :: "clutch_fault option"
  hm_cycle_count :: nat
  hm_reacquisition_started_ns :: "int option"

definition mk_hand_machine ::
  "pyfloat \<Rightarrow> pyfloat \<Rightarrow> pyfloat \<Rightarrow> pyfloat \<Rightarrow> (clutch_error, hand_machine) res" where
  "mk_hand_machine stale_after_s reacquisition_duration_s pressed_at released_at =
     rbind (stale_ns stale_after_s) (\<lambda>stale.
     if \<not> (flt (Fin 0) reacquisition_duration_s \<and> fle reacquisition_duration_s (Fin 1))
     then Inl BadReacquisitionDuration
     else case seconds_to_ns reacquisition_duration_s of
       Inl e \<Rightarrow> Inl (DurationConversion e)
     | Inr duration \<Rightarrow>
         rbind (mk_hold_to_run pressed_at released_at) (\<lambda>trigger.
         Inr \<lparr>hm_stale_after_ns = stale, hm_reacquisition_duration_ns = duration,
              hm_trigger = trigger, hm_state = HandWaitingForRelease, hm_transitions = [],
              hm_fault_history = [], hm_active_fault = None, hm_cycle_count = 0,
              hm_reacquisition_started_ns = None\<rparr>))"

definition hand_transition :: "hand_machine \<Rightarrow> int \<Rightarrow> hand_state \<Rightarrow> string \<Rightarrow> hand_machine" where
  "hand_transition m now_ns st reason =
     (if st = hm_state m then m
      else m\<lparr>hm_state := st,
             hm_transitions := hm_transitions m @
               [\<lparr>tr_ns = now_ns, tr_previous = hm_state m, tr_current = st, tr_reason = reason\<rparr>]\<rparr>)"

definition hand_fault :: "hand_machine \<Rightarrow> int \<Rightarrow> string \<Rightarrow> hand_machine" where
  "hand_fault m now_ns reason =
     (let f = \<lparr>cf_ns = now_ns, cf_channel = ''hand'', cf_reason = reason\<rparr> in
      hand_transition
        (m\<lparr>hm_active_fault := Some f, hm_fault_history := hm_fault_history m @ [f],
           hm_reacquisition_started_ns := None,
           hm_trigger := htr_require_release (hm_trigger m)\<rparr>)
        now_ns HandTrackingFault reason)"

text \<open>\<open>None\<close> is the failed assertion that a reacquisition has a start time.\<close>

definition hand_step ::
  "hand_machine \<Rightarrow> analog_sample \<Rightarrow> int \<Rightarrow> bool \<Rightarrow> bool \<Rightarrow> hand_machine \<times> clutch_action option" where
  "hand_step m0 s now_ns controller_valid skeleton_valid =
     (let fresh = (controller_valid \<and> sample_fresh s now_ns (hm_stale_after_ns m0));
          (trigger, ob) = htr_observe (hm_trigger m0) s fresh;
          m = m0\<lparr>hm_trigger := trigger\<rparr>
      in
      if hm_state m \<notin> {HandWaitingForRelease, HandTrackingFault} \<and> \<not> fresh then
        (hand_fault m now_ns ''HAND_GRIP_STALE_OR_INVALID'', Some FREEZE)
      else if hm_state m \<in> {HandEngaged, HandReacquire} \<and> \<not> skeleton_valid then
        (hand_fault m now_ns ''RIGHT_HAND_SKELETON_STALE_OR_INVALID'', Some FREEZE)
      else if hm_state m = HandWaitingForRelease then
        (if obs_valid ob \<and> obs_pressed ob = Some False
         then hand_transition m now_ns HandDisengaged ''VALID_RELEASE_OBSERVED'' else m, Some FREEZE)
      else if hm_state m = HandTrackingFault then
        (if obs_valid ob \<and> obs_pressed ob = Some False
            \<and> (\<exists>f \<in> set_option (hm_active_fault m). cf_ns f < smp_receive_ns s)
            \<and> skeleton_valid \<and> controller_valid
         then hand_transition (m\<lparr>hm_active_fault := None\<rparr>) now_ns HandDisengaged
                ''FAULT_RECOVERY_RELEASED_AND_VALID''
         else m, Some FREEZE)
      else if hm_state m = HandDisengaged then
        (if obs_rising ob then
           (if \<not> fresh \<or> \<not> skeleton_valid
            then (hand_fault m now_ns ''HAND_REACQUISITION_INPUT_INVALID'', Some FREEZE)
            else (hand_transition
                    (m\<lparr>hm_reacquisition_started_ns := Some now_ns,
                       hm_cycle_count := hm_cycle_count m + 1\<rparr>)
                    now_ns HandReacquire ''HAND_PRESS_EDGE'',
                  Some START_HAND_REACQUISITION))
         else (m, Some FREEZE))
      else if obs_pressed ob = Some False then
        (hand_transition (m\<lparr>hm_reacquisition_started_ns := None\<rparr>) now_ns HandDisengaged
           ''HAND_GRIP_RELEASED'', Some FREEZE)
      else if hm_state m = HandReacquire then
        (case hm_reacquisition_started_ns m of
           None \<Rightarrow> (m, None)
         | Some started \<Rightarrow>
             (if hm_reacquisition_duration_ns m \<le> now_ns - started
              then hand_transition m now_ns HandEngaged ''HAND_REACQUISITION_COMPLETE'' else m,
              Some UPDATE))
      else (m, Some UPDATE))"

definition hand_reacquisition_fraction :: "hand_machine \<Rightarrow> int \<Rightarrow> (div_error, pyfloat) res" where
  "hand_reacquisition_fraction m now_ns =
     (case hm_reacquisition_started_ns m of
        None \<Rightarrow> Inr (Fin 1)
      | Some started \<Rightarrow>
          rbind (py_true_div (now_ns - started) (hm_reacquisition_duration_ns m)) (\<lambda>x.
          Inr (fmin (Fin 1) (fmax (Fin 0) x))))"

datatype hand_event =
    HandStep analog_sample int bool bool
  | HandFaulted int string

fun hand_apply :: "hand_machine \<Rightarrow> hand_event \<Rightarrow> hand_machine \<times> clutch_action option" where
  "hand_apply m (HandStep s now cv sk) = hand_step m s now cv sk"
| "hand_apply m (HandFaulted now reason) = (hand_fault m now reason, Some FREEZE)"

section \<open>Invariant of reachable machines\<close>

inductive hand_edge :: "hand_state \<Rightarrow> hand_state \<Rightarrow> bool" where
  armed: "hand_edge HandWaitingForRelease HandDisengaged"
| recovered: "hand_edge HandTrackingFault HandDisengaged"
| press: "hand_edge HandDisengaged HandReacquire"
| reacquired: "hand_edge HandReacquire HandEngaged"
| release_early: "hand_edge HandReacquire HandDisengaged"
| release: "hand_edge HandEngaged HandDisengaged"
| faulted: "st \<noteq> HandTrackingFault \<Longrightarrow> hand_edge st HandTrackingFault"

text \<open>An entry into the engaged state follows the press by at least the reacquisition time.\<close>

definition reacquired_after :: "int \<Rightarrow> hand_state clutch_transition \<Rightarrow> hand_state clutch_transition \<Rightarrow> bool" where
  "reacquired_after d a b \<longleftrightarrow>
     (tr_current b = HandEngaged \<longrightarrow> tr_current a = HandReacquire \<and> d \<le> tr_ns b - tr_ns a)"

definition hand_inv :: "hand_machine \<Rightarrow> bool" where
  "hand_inv m \<longleftrightarrow>
     (hm_active_fault m \<noteq> None \<longleftrightarrow> hm_state m = HandTrackingFault)
     \<and> (hm_reacquisition_started_ns m \<noteq> None \<longleftrightarrow> hm_state m \<in> {HandReacquire, HandEngaged})
     \<and> log_path hand_edge HandWaitingForRelease (hm_transitions m) (hm_state m)
     \<and> hm_cycle_count m = length (filter (\<lambda>t. tr_current t = HandReacquire) (hm_transitions m))
     \<and> successively (reacquired_after (hm_reacquisition_duration_ns m)) (hm_transitions m)
     \<and> (hm_state m = HandReacquire \<longrightarrow> hm_transitions m \<noteq> []
          \<and> tr_current (last (hm_transitions m)) = HandReacquire
          \<and> hm_reacquisition_started_ns m = Some (tr_ns (last (hm_transitions m))))"

inductive hand_reachable :: "hand_machine \<Rightarrow> bool" where
  start: "mk_hand_machine stale dur p r = Inr m \<Longrightarrow> hand_reachable m"
| event: "hand_reachable m \<Longrightarrow> hand_apply m e = (m', out) \<Longrightarrow> hand_reachable m'"

lemma hand_inv_start: "mk_hand_machine stale dur p r = Inr m \<Longrightarrow> hand_inv m"
  by (auto simp: mk_hand_machine_def hand_inv_def split: if_splits sum.splits)

lemma hand_inv_trigger [simp]: "hand_inv (m\<lparr>hm_trigger := t\<rparr>) = hand_inv m"
  by (simp add: hand_inv_def)

lemma hand_inv_fault: "hand_inv m \<Longrightarrow> hand_inv (hand_fault m now reason)"
  by (auto simp: hand_inv_def hand_fault_def hand_transition_def reacquired_after_def
      successively_append_iff Let_def intro: hand_edge.intros)

lemma hand_inv_moves:
  "hand_inv m \<Longrightarrow> hm_state m = HandWaitingForRelease \<Longrightarrow> hand_inv (hand_transition m now HandDisengaged why)"
  "hand_inv m \<Longrightarrow> hm_state m = HandTrackingFault \<Longrightarrow>
     hand_inv (hand_transition (m\<lparr>hm_active_fault := None\<rparr>) now HandDisengaged why)"
  "hand_inv m \<Longrightarrow> hm_state m = HandDisengaged \<Longrightarrow>
     hand_inv (hand_transition (m\<lparr>hm_reacquisition_started_ns := Some now,
       hm_cycle_count := hm_cycle_count m + 1\<rparr>) now HandReacquire why)"
  "hand_inv m \<Longrightarrow> hm_state m = HandEngaged \<or> hm_state m = HandReacquire \<Longrightarrow>
     hand_inv (hand_transition (m\<lparr>hm_reacquisition_started_ns := None\<rparr>) now HandDisengaged why)"
  "hand_inv m \<Longrightarrow> hm_state m = HandReacquire \<Longrightarrow> hm_reacquisition_started_ns m = Some st \<Longrightarrow>
     hm_reacquisition_duration_ns m \<le> now - st \<Longrightarrow> hand_inv (hand_transition m now HandEngaged why)"
  by (auto simp: hand_inv_def hand_transition_def reacquired_after_def successively_append_iff
      intro: hand_edge.intros)

lemma hand_inv_trigger_moves:
  "hand_inv m \<Longrightarrow> hm_state m = HandWaitingForRelease \<Longrightarrow>
     hand_inv (hand_transition (m\<lparr>hm_trigger := t\<rparr>) now HandDisengaged why)"
  "hand_inv m \<Longrightarrow> hm_state m = HandTrackingFault \<Longrightarrow>
     hand_inv (hand_transition (m\<lparr>hm_trigger := t, hm_active_fault := None\<rparr>) now HandDisengaged why)"
  "hand_inv m \<Longrightarrow> hm_state m = HandDisengaged \<Longrightarrow>
     hand_inv (hand_transition (m\<lparr>hm_trigger := t, hm_reacquisition_started_ns := Some now,
       hm_cycle_count := Suc (hm_cycle_count m)\<rparr>) now HandReacquire why)"
  "hand_inv m \<Longrightarrow> hm_state m = HandEngaged \<or> hm_state m = HandReacquire \<Longrightarrow>
     hand_inv (hand_transition (m\<lparr>hm_trigger := t, hm_reacquisition_started_ns := None\<rparr>) now HandDisengaged why)"
  "hand_inv m \<Longrightarrow> hm_state m = HandReacquire \<Longrightarrow> hm_reacquisition_started_ns m = Some st \<Longrightarrow>
     hm_reacquisition_duration_ns m \<le> now - st \<Longrightarrow>
     hand_inv (hand_transition (m\<lparr>hm_trigger := t\<rparr>) now HandEngaged why)"
  using hand_inv_moves[of "m\<lparr>hm_trigger := t\<rparr>"] by simp_all

lemma hand_inv_step: "hand_inv m \<Longrightarrow> hand_inv (fst (hand_step m s now cv sk))"
  by (cases "htr_observe (hm_trigger m) s (cv \<and> sample_fresh s now (hm_stale_after_ns m))";
      cases "hm_state m")
    (simp_all add: hand_step_def Let_def hand_inv_fault hand_inv_trigger_moves split: option.split)

lemma hand_inv_apply: "hand_inv m \<Longrightarrow> hand_apply m e = (m', out) \<Longrightarrow> hand_inv m'"
proof (cases e)
  case (HandStep s now cv sk)
  assume "hand_inv m" "hand_apply m e = (m', out)"
  then show ?thesis using hand_inv_step[of m s now cv sk] HandStep by simp
qed (auto intro: hand_inv_fault)

lemma hand_reachable_inv: "hand_reachable m \<Longrightarrow> hand_inv m"
  by (induction rule: hand_reachable.induct) (auto intro: hand_inv_start hand_inv_apply)

section \<open>Release before motion\<close>

fun hand_sees_release :: "hand_machine \<Rightarrow> hand_event \<Rightarrow> bool" where
  "hand_sees_release m (HandStep s now cv sk) =
     (cv \<and> sample_fresh s now (hm_stale_after_ns m) \<and> htr_sample_released (hm_trigger m) s)"
| "hand_sees_release m (HandFaulted now reason) = False"

definition hand_locked :: "hand_machine \<Rightarrow> bool" where
  "hand_locked m \<longleftrightarrow> hm_state m \<in> {HandWaitingForRelease, HandTrackingFault}
     \<and> \<not> htr_released_observed (hm_trigger m) \<and> htr_pressed (hm_trigger m) \<noteq> Some False"

lemma hand_locked_start: "mk_hand_machine a d b c = Inr m \<Longrightarrow> hand_locked m"
  by (auto simp: mk_hand_machine_def mk_hold_to_run_def hand_locked_def split: if_splits sum.splits)

lemma hand_locked_fault: "hand_locked (hand_fault m now why)"
  by (simp add: hand_locked_def hand_fault_def hand_transition_def htr_require_release_def Let_def)

lemma hand_locked_step:
  assumes "hand_locked m"
    and "\<not> (cv \<and> sample_fresh s now (hm_stale_after_ns m) \<and> htr_sample_released (hm_trigger m) s)"
    and "hand_step m s now cv sk = (m', a)"
  shows "hand_locked m' \<and> a = Some FREEZE \<and> hm_stale_after_ns m' = hm_stale_after_ns m
    \<and> htr_sample_released (hm_trigger m') = htr_sample_released (hm_trigger m)"
proof -
  let ?fresh = "cv \<and> sample_fresh s now (hm_stale_after_ns m)"
  obtain t ob where ob: "htr_observe (hm_trigger m) s ?fresh = (t, ob)"
    by (cases "htr_observe (hm_trigger m) s ?fresh")
  have na: "\<not> htr_released_observed t"
    using htr.arming[of "hm_trigger m" s ?fresh] assms(1,2) ob by (auto simp: hand_locked_def)
  have nu: "htr_pressed t \<noteq> Some False"
    using htr.unarmed_not_up[of "hm_trigger m" s ?fresh] assms(1) na ob by (auto simp: hand_locked_def)
  have "obs_pressed ob = htr_pressed t" and "htr_sample_released t = htr_sample_released (hm_trigger m)"
    using htr_observe_pressed[of "hm_trigger m" s ?fresh] htr.released_stable[of "hm_trigger m" s ?fresh] ob
    by simp_all
  with assms(1,3) na nu ob show ?thesis
    by (auto simp: hand_step_def hand_locked_def Let_def split: if_splits)
qed

lemma hand_locked_apply:
  assumes "hand_locked m" and "\<not> hand_sees_release m e" and "hand_apply m e = (m', out)"
  shows "hand_locked m' \<and> out = Some FREEZE \<and> hand_sees_release m' = hand_sees_release m"
proof -
  have sees: "hand_sees_release m' = hand_sees_release m"
    if "hm_stale_after_ns m' = hm_stale_after_ns m"
      and "htr_sample_released (hm_trigger m') = htr_sample_released (hm_trigger m)"
  proof
    fix e
    show "hand_sees_release m' e = hand_sees_release m e" using that by (cases e) auto
  qed
  show ?thesis
  proof (cases e)
    case (HandStep s now cv sk)
    with assms have "hand_step m s now cv sk = (m', out)" by simp
    from hand_locked_step[OF assms(1) _ this] assms(2) HandStep sees show ?thesis by auto
  next
    case (HandFaulted now reason)
    with assms have "m' = hand_fault m now reason" "out = Some FREEZE" by auto
    then show ?thesis using sees hand_locked_fault[of m now reason]
      by (auto simp: hand_fault_def hand_transition_def Let_def htr.released_reset)
  qed
qed

fun hand_run :: "hand_machine \<Rightarrow> hand_event list \<Rightarrow> hand_machine \<times> clutch_action option list" where
  "hand_run m [] = (m, [])"
| "hand_run m (e # es) =
     (let (m', out) = hand_apply m e; (m'', outs) = hand_run m' es in (m'', out # outs))"

lemma hand_locked_run:
  "hand_locked m \<Longrightarrow> \<forall>e \<in> set es. \<not> hand_sees_release m e \<Longrightarrow> set (snd (hand_run m es)) \<subseteq> {Some FREEZE}"
proof (induction es arbitrary: m)
  case (Cons e es)
  obtain m' o1 where ap: "hand_apply m e = (m', o1)" by (cases "hand_apply m e")
  have l: "hand_locked m' \<and> o1 = Some FREEZE \<and> hand_sees_release m' = hand_sees_release m"
    using hand_locked_apply[OF Cons.prems(1) _ ap] Cons.prems(2) by simp
  with Cons.prems(2) have "set (snd (hand_run m' es)) \<subseteq> {Some FREEZE}" by (intro Cons.IH) auto
  with l ap show ?case by (auto split: prod.splits)
qed simp

section \<open>Properties\<close>

text \<open>
  Release before motion, for the hand. A freshly constructed hand clutch, and one that has just
  faulted from any state, answers every call with a freeze until one step shows it a fresh, valid
  sample at or below the release threshold.
\<close>

theorem hand_release_before_motion:
  assumes "mk_hand_machine stale duration pressed_at released_at = Inr m \<or> m = hand_fault m0 now why"
    and "\<forall>e \<in> set es. \<not> hand_sees_release m e"
  shows "set (snd (hand_run m es)) \<subseteq> {Some FREEZE}"
  using assms hand_locked_run[of m es] hand_locked_start[of stale duration pressed_at released_at m]
    hand_locked_fault[of m0 now why] by auto

definition demo_hand :: hand_machine where
  "demo_hand =
     \<lparr>hm_stale_after_ns = 250000000, hm_reacquisition_duration_ns = 250000000,
      hm_trigger = \<lparr>htr_pressed_at = default_pressed_at, htr_released_at = default_released_at,
        htr_pressed = None, htr_released_observed = False, htr_last_seq = None\<rparr>,
      hm_state = HandWaitingForRelease, hm_transitions = [], hm_fault_history = [],
      hm_active_fault = None, hm_cycle_count = 0, hm_reacquisition_started_ns = None\<rparr>"

lemma demo_hand_constructed:
  "mk_hand_machine (Fin (1 / 4)) (Fin (1 / 4)) default_pressed_at default_released_at = Inr demo_hand"
proof -
  have "seconds_to_ns (Fin (1 / 4)) = Inr 250000000" by (rule seconds_to_ns_exact) auto
  then show ?thesis
    by (simp add: mk_hand_machine_def stale_ns_def mk_hold_to_run_def demo_hand_def
        default_pressed_at_def default_released_at_def)
qed

theorem hand_release_before_motion_witness:
  "set (snd (hand_run demo_hand [HandStep (demo_sample 1 10 1) 20 True True,
      HandStep (demo_sample 1 30 2) 40 True True])) \<subseteq> {Some FREEZE}"
  by (rule hand_release_before_motion[OF disjI1[OF demo_hand_constructed]])
    (simp add: demo_sample_def demo_hand_def htr_sample_released_def default_pressed_at_def)

text \<open>
  Timed reacquisition. In every reachable hand clutch each entry into the engaged state directly
  follows a press, and not before the configured reacquisition time has passed since that press; the
  assertion on the start time never fails, and the cycle count is the number of presses.
\<close>

theorem hand_reacquisition_timed:
  assumes "hand_reachable m"
  shows "(\<forall>i < length (hm_transitions m). tr_current (hm_transitions m ! i) = HandEngaged \<longrightarrow>
      0 < i \<and> tr_current (hm_transitions m ! (i - 1)) = HandReacquire
      \<and> hm_reacquisition_duration_ns m \<le> tr_ns (hm_transitions m ! i) - tr_ns (hm_transitions m ! (i - 1)))
    \<and> snd (hand_step m s now cv sk) \<noteq> None
    \<and> hm_cycle_count m = length (filter (\<lambda>t. tr_current t = HandReacquire) (hm_transitions m))"
proof (intro conjI allI impI)
  have inv: "hand_inv m" using assms by (rule hand_reachable_inv)
  show "snd (hand_step m s now cv sk) \<noteq> None"
    using inv
    by (cases "htr_observe (hm_trigger m) s (cv \<and> sample_fresh s now (hm_stale_after_ns m))")
      (auto simp: hand_step_def hand_inv_def Let_def split: option.split)
  show "hm_cycle_count m = length (filter (\<lambda>t. tr_current t = HandReacquire) (hm_transitions m))"
    using inv by (simp add: hand_inv_def)
  fix i
  assume i: "i < length (hm_transitions m)" "tr_current (hm_transitions m ! i) = HandEngaged"
  show pos: "0 < i"
  proof (rule ccontr)
    assume "\<not> 0 < i"
    with i obtain t ts where "hm_transitions m = t # ts" "tr_current t = HandEngaged"
      by (cases "hm_transitions m") auto
    with inv show False by (auto simp: hand_inv_def elim: hand_edge.cases)
  qed
  have "reacquired_after (hm_reacquisition_duration_ns m) (hm_transitions m ! (i - 1)) (hm_transitions m ! i)"
    using inv i pos by (cases i) (simp_all add: hand_inv_def successively_conv_nth)
  with i show "tr_current (hm_transitions m ! (i - 1)) = HandReacquire"
    and "hm_reacquisition_duration_ns m \<le> tr_ns (hm_transitions m ! i) - tr_ns (hm_transitions m ! (i - 1))"
    by (auto simp: reacquired_after_def)
qed

theorem hand_reacquisition_timed_witness:
  "snd (hand_step demo_hand (demo_sample 0 10 1) 20 True True) \<noteq> None"
  using hand_reacquisition_timed[OF hand_reachable.start[OF demo_hand_constructed]] by blast

text \<open>
  The blending fraction of a reacquisition is a float in \<open>[0, 1]\<close>, and 1 when no
  reacquisition is running.
\<close>

theorem hand_fraction_range:
  assumes "hand_reacquisition_fraction m now = Inr x"
  shows "fle (Fin 0) x \<and> fle x (Fin 1) \<and> (hm_reacquisition_started_ns m = None \<longrightarrow> x = Fin 1)"
  using assms fclamp_range by (auto simp: hand_reacquisition_fraction_def split: option.splits)

theorem hand_fraction_range_witness:
  "fle (Fin 0) (Fin 1) \<and> hand_reacquisition_fraction demo_hand 5 = Inr (Fin 1)"
proof -
  have h: "hand_reacquisition_fraction demo_hand 5 = Inr (Fin 1)"
    by (simp add: hand_reacquisition_fraction_def demo_hand_def)
  show ?thesis using hand_fraction_range[OF h] h by blast
qed

text \<open>
  A reacquisition duration below one nanosecond is accepted by the constructor and truncated to
  zero; the fraction then divides by zero as soon as a reacquisition is running.
\<close>

theorem hand_fraction_zero_division:
  "\<exists>m. mk_hand_machine (Fin (1 / 4)) (Fin (1 / 2 ^ 40)) default_pressed_at default_released_at = Inr m
     \<and> hand_reacquisition_fraction
          (fst (hand_run m [HandStep (demo_sample 0 10 1) 20 True True, HandStep (demo_sample 1 30 2) 40 True True])) 50
        = Inl ZeroDivisionError"
proof -
  have s1: "seconds_to_ns (Fin (1 / 4)) = Inr 250000000" by (rule seconds_to_ns_exact) auto
  have "round64 (of_int 1000000000 / 2 ^ 40) = Fin (of_int 1000000000 / 2 ^ 40)"
    by (rule round64_dyadic) auto
  then have s2: "seconds_to_ns (Fin (1 / 2 ^ 40)) = Inr 0"
    by (simp add: seconds_to_ns_def floor_eq_iff)
  have "mk_hand_machine (Fin (1 / 4)) (Fin (1 / 2 ^ 40)) default_pressed_at default_released_at
      = Inr (demo_hand\<lparr>hm_reacquisition_duration_ns := 0\<rparr>)"
    using s1 s2 by (simp add: mk_hand_machine_def stale_ns_def mk_hold_to_run_def demo_hand_def
        default_pressed_at_def default_released_at_def)
  moreover have "hand_reacquisition_fraction
      (fst (hand_run (demo_hand\<lparr>hm_reacquisition_duration_ns := 0\<rparr>)
        [HandStep (demo_sample 0 10 1) 20 True True, HandStep (demo_sample 1 30 2) 40 True True])) 50
      = Inl ZeroDivisionError"
    by (simp add: demo_hand_def demo_sample_def hand_step_def hand_transition_def htr_observe_def
        htr_band_def sample_fresh_def default_pressed_at_def default_released_at_def
        hand_reacquisition_fraction_def py_true_div_def)
  ultimately show ?thesis by blast
qed

end
