(* ===== verification/CtrlProtocol.thy ===== *)
theory CtrlProtocol
  imports PyText
begin

text \<open>
  The strict Quest left-controller \<open>CTRL\<close> wire protocol of
  \<open>src/motion_input/controller_protocol.py\<close>: one fixed-order line per datagram. Every \<open>raise\<close> of
  the parser is a constructor of \<open>ctrl_error\<close>; \<open>CtrlIntDigitLimit\<close> is the plain \<open>ValueError\<close>
  that \<open>int\<close> raises on more than 4300 digits, which is not a \<open>ControllerPacketError\<close>.
\<close>

section \<open>Packets and the parser\<close>

datatype ctrl_error =
    CtrlEmpty | CtrlTooLong | CtrlNotUtf8 | CtrlNotOneLine | CtrlTrailingContent
  | CtrlEmbeddedLineBreak | CtrlNotCtrl | CtrlFieldCount | CtrlMalformedField
  | CtrlDuplicateField | CtrlUnknownField | CtrlFieldOrder | CtrlUnsupportedVersion
  | CtrlNotUint | CtrlUint64Range | CtrlBadBool | CtrlNotFloat | CtrlNotFinite | CtrlOutsideUnit
  | CtrlIntDigitLimit

record controller_packet =
  cp_version :: int
  cp_session_id :: int
  cp_sequence_number :: int
  cp_source_timestamp_ns :: int
  cp_connected :: bool
  cp_active :: bool
  cp_tracked :: bool
  cp_index_trigger :: pyfloat
  cp_grip_trigger :: pyfloat

definition facts_valid :: "controller_packet \<Rightarrow> bool" where
  "facts_valid p \<longleftrightarrow> cp_connected p \<and> cp_active p \<and> cp_tracked p"

definition hts_max_datagram_bytes :: nat where
  "hts_max_datagram_bytes = 65535"

definition ctrl_field_names :: "pystr list" where
  "ctrl_field_names = [lit ''v'', lit ''session'', lit ''seq'', lit ''t_ns'', lit ''connected'',
     lit ''active'', lit ''tracked'', lit ''index'', lit ''grip'']"

definition uint64_max :: int where
  "uint64_max = 2 ^ 64 - 1"

definition parse_uint :: "pystr \<Rightarrow> (ctrl_error, int) res" where
  "parse_uint raw =
     (if \<not> is_uint_text raw then Inl CtrlNotUint
      else case py_int_of_digits raw of
        None \<Rightarrow> Inl CtrlIntDigitLimit
      | Some value \<Rightarrow> if uint64_max < value then Inl CtrlUint64Range else Inr value)"

definition parse_bool :: "pystr \<Rightarrow> (ctrl_error, bool) res" where
  "parse_bool raw =
     (if raw = lit ''0'' then Inr False else if raw = lit ''1'' then Inr True else Inl CtrlBadBool)"

definition parse_unit_float :: "pystr \<Rightarrow> (ctrl_error, pyfloat) res" where
  "parse_unit_float raw =
     (case decimal_value raw of
        None \<Rightarrow> Inl CtrlNotFloat
      | Some r \<Rightarrow>
          let value = round64 r in
          if \<not> is_finite value then Inl CtrlNotFinite
          else if \<not> (fle (Fin 0) value \<and> fle value (Fin 1)) then Inl CtrlOutsideUnit
          else Inr value)"

text \<open>The loop over \<open>zip(CTRL_FIELD_NAMES, parts[1:])\<close>: the raw values in field order.\<close>

fun ctrl_raw_values :: "pystr list \<Rightarrow> pystr list \<Rightarrow> pystr list \<Rightarrow> (ctrl_error, pystr list) res" where
  "ctrl_raw_values seen (expected # names) (field # flds) =
     (let (name, sep, v) = partition_at 61 field in
      if \<not> sep \<or> name = [] \<or> v = [] then Inl CtrlMalformedField
      else if name \<in> set seen then Inl CtrlDuplicateField
      else if name \<noteq> expected then
        (if name \<notin> set ctrl_field_names then Inl CtrlUnknownField else Inl CtrlFieldOrder)
      else rbind (ctrl_raw_values (name # seen) names flds) (\<lambda>vs. Inr (v # vs)))"
| "ctrl_raw_values seen _ _ = Inr []"

definition ctrl_packet_of_raw :: "pystr list \<Rightarrow> (ctrl_error, controller_packet) res" where
  "ctrl_packet_of_raw raw =
     rbind (parse_uint (raw ! 0)) (\<lambda>version.
     if version \<noteq> 1 then Inl CtrlUnsupportedVersion
     else
     rbind (parse_uint (raw ! 1)) (\<lambda>session.
     rbind (parse_uint (raw ! 2)) (\<lambda>sq.
     rbind (parse_uint (raw ! 3)) (\<lambda>t_ns.
     rbind (parse_bool (raw ! 4)) (\<lambda>connected.
     rbind (parse_bool (raw ! 5)) (\<lambda>active.
     rbind (parse_bool (raw ! 6)) (\<lambda>tracked.
     rbind (parse_unit_float (raw ! 7)) (\<lambda>index.
     rbind (parse_unit_float (raw ! 8)) (\<lambda>grip.
     Inr \<lparr>cp_version = version, cp_session_id = session, cp_sequence_number = sq,
          cp_source_timestamp_ns = t_ns, cp_connected = connected, cp_active = active,
          cp_tracked = tracked, cp_index_trigger = index, cp_grip_trigger = grip\<rparr>)))))))))"

definition parse_controller_line :: "pystr \<Rightarrow> (ctrl_error, controller_packet) res" where
  "parse_controller_line line =
     (if 10 \<in> set line \<or> 13 \<in> set line then Inl CtrlEmbeddedLineBreak
      else let parts = split_on 44 line in
      if parts = [] \<or> hd parts \<noteq> lit ''CTRL'' then Inl CtrlNotCtrl
      else if length parts \<noteq> length ctrl_field_names + 1 then Inl CtrlFieldCount
      else rbind (ctrl_raw_values [] ctrl_field_names (tl parts)) ctrl_packet_of_raw)"

definition parse_controller_datagram :: "nat \<Rightarrow> bytes \<Rightarrow> (ctrl_error, controller_packet) res" where
  "parse_controller_datagram max_bytes payload =
     (if payload = [] then Inl CtrlEmpty
      else if max_bytes < length payload then Inl CtrlTooLong
      else case utf8_decode payload of
        None \<Rightarrow> Inl CtrlNotUtf8
      | Some s \<Rightarrow>
          let lines = splitlines s; nonempty = filter (\<lambda>l. l \<noteq> []) lines in
          if length nonempty \<noteq> 1 then Inl CtrlNotOneLine
          else if \<exists>l \<in> set (tl (dropWhile (\<lambda>l. l \<noteq> hd nonempty) lines)). l \<noteq> [] then Inl CtrlTrailingContent
          else parse_controller_line (hd nonempty))"

section \<open>What an accepted line looks like\<close>

text \<open>The line with the given raw values.\<close>

definition ctrl_field :: "pystr \<Rightarrow> pystr \<Rightarrow> pystr" where
  "ctrl_field name v = name @ 61 # v"

definition ctrl_line :: "pystr list \<Rightarrow> pystr" where
  "ctrl_line raw = join_with 44 (lit ''CTRL'' # map2 ctrl_field ctrl_field_names raw)"

lemma ctrl_field_names_facts:
  "length ctrl_field_names = 9" "distinct ctrl_field_names"
  "\<forall>n \<in> set ctrl_field_names. n \<noteq> [] \<and> 61 \<notin> set n \<and> 44 \<notin> set n \<and> (\<forall>c \<in> set n. 32 \<le> c \<and> c < 128)"
  by (simp_all add: ctrl_field_names_def lit_def)

lemma ctrl_raw_values_Inr:
  "ctrl_raw_values seen names flds = Inr raw \<Longrightarrow> length names = length flds \<Longrightarrow>
     flds = map2 ctrl_field names raw \<and> length raw = length names \<and> (\<forall>v \<in> set raw. v \<noteq> [])"
proof (induction names arbitrary: seen flds raw)
  case (Cons expected names)
  then obtain field flds' where f: "flds = field # flds'" by (cases flds) auto
  obtain name sep v where p: "partition_at 61 field = (name, sep, v)" by (cases "partition_at 61 field")
  have ok: "sep" "v \<noteq> []" "name = expected"
    using Cons.prems(1) p f by (auto split: if_splits)
  obtain vs where vs: "ctrl_raw_values (name # seen) names flds' = Inr vs" "raw = v # vs"
    using Cons.prems(1) p f by (auto split: if_splits)
  have "flds' = map2 ctrl_field names vs \<and> length vs = length names \<and> (\<forall>v \<in> set vs. v \<noteq> [])"
    by (rule Cons.IH[OF vs(1)]) (use Cons.prems(2) f in simp)
  moreover have "field = ctrl_field name v"
    using partition_at_True[of 61 field name v] p ok by (simp add: ctrl_field_def)
  ultimately show ?case using vs(2) ok f by simp
qed simp

lemma ctrl_raw_values_complete:
  assumes "length raw = length names" "distinct names" "set names \<inter> set seen = {}"
    "\<forall>n \<in> set names. n \<noteq> [] \<and> 61 \<notin> set n" "\<forall>v \<in> set raw. v \<noteq> []"
  shows "ctrl_raw_values seen names (map2 ctrl_field names raw) = Inr raw"
  using assms
proof (induction names arbitrary: seen raw)
  case (Cons n names)
  then obtain v vs where raw: "raw = v # vs" by (cases raw) auto
  have "ctrl_raw_values (n # seen) names (map2 ctrl_field names vs) = Inr vs"
    using Cons.prems raw by (intro Cons.IH) auto
  with Cons.prems raw show ?case by (auto simp: ctrl_field_def partition_at_append)
qed simp

lemma parse_uint_Inr: "parse_uint raw = Inr v \<Longrightarrow> 0 \<le> v \<and> v \<le> uint64_max \<and> is_uint_text raw \<and> v = digits_value raw"
  by (auto simp: parse_uint_def py_int_of_digits_def digits_value_nonneg split: if_splits option.splits)

lemma parse_unit_float_Inr: "parse_unit_float raw = Inr v \<Longrightarrow> \<exists>r. v = Fin r \<and> 0 \<le> r \<and> r \<le> 1"
  by (cases v) (auto simp: parse_unit_float_def Let_def split: if_splits option.splits)

lemma parse_controller_line_Inr:
  assumes "parse_controller_line line = Inr p"
  shows "\<exists>raw. length raw = 9 \<and> line = ctrl_line raw \<and> ctrl_packet_of_raw raw = Inr p \<and> (\<forall>v \<in> set raw. v \<noteq> [])"
proof -
  define parts where "parts = split_on 44 line"
  from assms have h: "parts \<noteq> []" "hd parts = lit ''CTRL''" "length parts = 10"
    "rbind (ctrl_raw_values [] ctrl_field_names (tl parts)) ctrl_packet_of_raw = Inr p"
    by (auto simp: parse_controller_line_def parts_def[symmetric] ctrl_field_names_facts Let_def split: if_splits)
  then obtain raw where raw: "ctrl_raw_values [] ctrl_field_names (tl parts) = Inr raw"
    "ctrl_packet_of_raw raw = Inr p" by auto
  have len: "length ctrl_field_names = length (tl parts)" using h ctrl_field_names_facts by simp
  from ctrl_raw_values_Inr[OF raw(1) len] have tl: "tl parts = map2 ctrl_field ctrl_field_names raw"
    and "length raw = 9" "\<forall>v \<in> set raw. v \<noteq> []" using ctrl_field_names_facts by auto
  moreover have "line = join_with 44 parts" by (simp add: parts_def join_split)
  then have "line = ctrl_line raw" using h tl by (cases parts) (auto simp: ctrl_line_def)
  ultimately show ?thesis using raw by blast
qed

definition plain_value :: "pystr \<Rightarrow> bool" where
  "plain_value v \<longleftrightarrow> v \<noteq> [] \<and> (\<forall>c \<in> set v. 32 < c \<and> c < 128 \<and> c \<noteq> 44)"

lemma ctrl_line_split:
  assumes "length raw = 9" and "\<forall>v \<in> set raw. plain_value v"
  shows "split_on 44 (ctrl_line raw) = lit ''CTRL'' # map2 ctrl_field ctrl_field_names raw"
proof -
  have "44 \<notin> set (ctrl_field n v)" if "n \<in> set ctrl_field_names" "v \<in> set raw" for n v
    using that assms ctrl_field_names_facts by (auto simp: ctrl_field_def plain_value_def)
  then show ?thesis unfolding ctrl_line_def
    by (intro split_join) (auto simp: lit_def dest: set_zip_leftD set_zip_rightD)
qed

lemma ctrl_line_chars:
  assumes "length raw = 9" and "\<forall>v \<in> set raw. plain_value v" and "c \<in> set (ctrl_line raw)"
  shows "32 \<le> c \<and> c < 128"
proof -
  have ascii: "\<forall>c \<in> set p. 32 \<le> c \<and> c < 128"
    if "p \<in> set (lit ''CTRL'' # map2 ctrl_field ctrl_field_names raw)" for p
  proof (cases "p = lit ''CTRL''")
    case False
    with that obtain n v where nv: "n \<in> set ctrl_field_names" "v \<in> set raw" "p = ctrl_field n v"
      by (auto dest: set_zip_leftD set_zip_rightD)
    from nv(1) ctrl_field_names_facts(3) have n: "\<forall>c \<in> set n. 32 \<le> c \<and> c < 128" by blast
    from nv(2) assms(2) have "\<forall>c \<in> set v. 32 \<le> c \<and> c < 128" by (fastforce simp: plain_value_def)
    with n nv(3) show ?thesis by (auto simp: ctrl_field_def)
  qed (simp add: lit_def)
  have "c \<in> insert 44 (\<Union>p \<in> set (lit ''CTRL'' # map2 ctrl_field ctrl_field_names raw). set p)"
    using assms(3) set_join_with[of 44 "lit ''CTRL'' # map2 ctrl_field ctrl_field_names raw"]
    unfolding ctrl_line_def by blast
  then consider "c = 44" | p where "p \<in> set (lit ''CTRL'' # map2 ctrl_field ctrl_field_names raw)" "c \<in> set p"
    by blast
  then show ?thesis using ascii by cases auto
qed

lemma parse_ctrl_line:
  assumes "length raw = 9" and "\<forall>v \<in> set raw. plain_value v"
  shows "parse_controller_line (ctrl_line raw) = ctrl_packet_of_raw raw"
proof -
  have nl: "10 \<notin> set (ctrl_line raw)" "13 \<notin> set (ctrl_line raw)"
    using ctrl_line_chars[OF assms] by force+
  have "ctrl_raw_values [] ctrl_field_names (map2 ctrl_field ctrl_field_names raw) = Inr raw"
    using assms ctrl_field_names_facts by (intro ctrl_raw_values_complete) (auto simp: plain_value_def)
  then show ?thesis
    using nl assms(1) ctrl_field_names_facts(1)
    by (simp add: parse_controller_line_def ctrl_line_split[OF assms])
qed

section \<open>Properties\<close>

definition packet_in_range :: "controller_packet \<Rightarrow> bool" where
  "packet_in_range p \<longleftrightarrow> cp_version p = 1
     \<and> (\<forall>n \<in> {cp_session_id p, cp_sequence_number p, cp_source_timestamp_ns p}. 0 \<le> n \<and> n < 2 ^ 64)
     \<and> (\<forall>v \<in> {cp_index_trigger p, cp_grip_trigger p}. \<exists>r. v = Fin r \<and> 0 \<le> r \<and> r \<le> 1)"

lemma ctrl_packet_of_raw_range:
  "ctrl_packet_of_raw raw = Inr p \<Longrightarrow>
     packet_in_range p \<and> cp_session_id p = digits_value (raw ! 1)
     \<and> cp_sequence_number p = digits_value (raw ! 2) \<and> cp_source_timestamp_ns p = digits_value (raw ! 3)"
  by (auto simp: ctrl_packet_of_raw_def packet_in_range_def uint64_max_def split: if_splits
      dest!: parse_uint_Inr parse_unit_float_Inr)

lemma parse_controller_datagram_Inr:
  assumes "parse_controller_datagram mx payload = Inr p"
  shows "length payload \<le> mx \<and> (\<exists>s line. utf8_decode payload = Some s
    \<and> filter (\<lambda>l. l \<noteq> []) (splitlines s) = [line] \<and> parse_controller_line line = Inr p)"
proof -
  obtain s where s: "utf8_decode payload = Some s" and len: "length payload \<le> mx"
    using assms by (auto simp: parse_controller_datagram_def split: if_splits option.splits)
  define ne where "ne = filter (\<lambda>l. l \<noteq> []) (splitlines s)"
  have "length ne = 1" and "parse_controller_line (hd ne) = Inr p"
    using assms s by (auto simp: parse_controller_datagram_def ne_def[symmetric] Let_def split: if_splits)
  then obtain line where "ne = [line]" "parse_controller_line line = Inr p" by (cases ne) auto
  then show ?thesis using s len unfolding ne_def by blast
qed

text \<open>
  C2. Soundness of the parser. An accepted datagram decodes to exactly one non-empty line; that line is
  \<open>CTRL\<close> with the nine fields in order; the packet's integers are the decimal values of the raw
  fields and fit 64 bits, its version is 1, its triggers are finite and within \<open>[0, 1]\<close>.
\<close>

theorem ctrl_datagram_sound:
  assumes "parse_controller_datagram mx payload = Inr p"
  shows "length payload \<le> mx \<and> packet_in_range p \<and> (\<exists>s raw. utf8_decode payload = Some s
    \<and> length raw = 9 \<and> filter (\<lambda>l. l \<noteq> []) (splitlines s) = [ctrl_line raw]
    \<and> cp_session_id p = digits_value (raw ! 1) \<and> cp_sequence_number p = digits_value (raw ! 2)
    \<and> cp_source_timestamp_ns p = digits_value (raw ! 3))"
proof -
  obtain s line where d: "length payload \<le> mx" "utf8_decode payload = Some s"
    "filter (\<lambda>l. l \<noteq> []) (splitlines s) = [line]" "parse_controller_line line = Inr p"
    using parse_controller_datagram_Inr[OF assms] by blast
  obtain raw where r: "length raw = 9" "line = ctrl_line raw" "ctrl_packet_of_raw raw = Inr p"
    using parse_controller_line_Inr[OF d(4)] by blast
  then show ?thesis using d ctrl_packet_of_raw_range[OF r(3)] by blast
qed

definition demo_raw :: "pystr list" where
  "demo_raw = map lit [''1'', ''7'', ''42'', ''1000'', ''1'', ''1'', ''0'', ''0.75'', ''.5'']"

definition demo_packet :: controller_packet where
  "demo_packet = \<lparr>cp_version = 1, cp_session_id = 7, cp_sequence_number = 42,
     cp_source_timestamp_ns = 1000, cp_connected = True, cp_active = True, cp_tracked = False,
     cp_index_trigger = Fin (3 / 4), cp_grip_trigger = Fin (1 / 2)\<rparr>"

lemma demo_raw_packet: "ctrl_packet_of_raw demo_raw = Inr demo_packet"
proof -
  have r: "round64 (3 / 4) = Fin (3 / 4)" "round64 (1 / 2) = Fin (1 / 2)"
    using round64_dyadic[of 3 2] round64_dyadic[of 1 1] by simp_all
  have "parse_uint (lit ''1'') = Inr 1" "parse_uint (lit ''7'') = Inr 7"
    "parse_uint (lit ''42'') = Inr 42" "parse_uint (lit ''1000'') = Inr 1000"
    "parse_bool (lit ''1'') = Inr True" "parse_bool (lit ''0'') = Inr False"
    "parse_unit_float (lit ''0.75'') = Inr (Fin (3 / 4))"
    "parse_unit_float (lit ''.5'') = Inr (Fin (1 / 2))"
    by (simp_all add: r parse_uint_def parse_bool_def parse_unit_float_def lit_def is_uint_text_def
        is_digit_def py_int_of_digits_def int_max_str_digits_def digits_value_def uint64_max_def
        decimal_value_def exponent_value_def scaled_def)
  then show ?thesis
    by (simp add: ctrl_packet_of_raw_def demo_raw_def demo_packet_def numeral_eq_Suc)
qed

definition ascii_bytes :: "pystr \<Rightarrow> bytes" where
  "ascii_bytes s = map of_nat s"

lemma utf8_decode_ascii:
  assumes "\<forall>c \<in> set s. c < 128"
  shows "utf8_decode (ascii_bytes s) = Some s"
proof -
  have "map unat (ascii_bytes s) = s"
    using assms by (auto simp: ascii_bytes_def unat_of_nat o_def intro!: map_idI)
  then show ?thesis using assms by (simp add: utf8_decode_def utf8_points_ascii)
qed

lemma parse_ctrl_line_datagram:
  assumes "length raw = 9" and "\<forall>v \<in> set raw. plain_value v"
    and "length (ctrl_line raw) \<le> mx"
  shows "parse_controller_datagram mx (ascii_bytes (ctrl_line raw)) = ctrl_packet_of_raw raw"
proof -
  have chars: "\<forall>c \<in> set (ctrl_line raw). 32 \<le> c \<and> c < 128" using ctrl_line_chars[OF assms(1,2)] by blast
  then have dec: "utf8_decode (ascii_bytes (ctrl_line raw)) = Some (ctrl_line raw)"
    by (intro utf8_decode_ascii) auto
  have ne: "ctrl_line raw \<noteq> []"
    using ctrl_line_split[OF assms(1,2)] by (auto simp: lit_def)
  have "splitlines (ctrl_line raw) = [ctrl_line raw]"
    using chars ne unfolding splitlines_def by (subst splitlines_plain) (auto simp: is_line_break_def)
  then show ?thesis
    using dec ne assms by (simp add: parse_controller_datagram_def parse_ctrl_line ascii_bytes_def)
qed

text \<open>
  Completeness of the parser. An ASCII datagram holding one line built from nine plain raw values
  is parsed exactly as those values are; so a conforming sender is never rejected for its framing.
\<close>

theorem ctrl_datagram_complete:
  assumes "length raw = 9" and "\<forall>v \<in> set raw. plain_value v"
    and "length (ctrl_line raw) \<le> mx"
  shows "parse_controller_datagram mx (ascii_bytes (ctrl_line raw)) = ctrl_packet_of_raw raw"
  using assms by (rule parse_ctrl_line_datagram)

lemma demo_raw_plain: "length demo_raw = 9" "\<forall>v \<in> set demo_raw. plain_value v"
  by (simp_all add: demo_raw_def lit_def plain_value_def)

lemma demo_line_length: "length (ctrl_line demo_raw) \<le> hts_max_datagram_bytes"
  by (simp add: ctrl_line_def ctrl_field_def demo_raw_def ctrl_field_names_def lit_def hts_max_datagram_bytes_def)

theorem ctrl_datagram_complete_witness:
  "parse_controller_datagram hts_max_datagram_bytes (ascii_bytes (ctrl_line demo_raw)) = Inr demo_packet"
  using ctrl_datagram_complete[OF demo_raw_plain demo_line_length] demo_raw_packet by simp

lemma demo_datagram:
  "parse_controller_datagram hts_max_datagram_bytes (ascii_bytes (ctrl_line demo_raw)) = Inr demo_packet"
proof -
  have "parse_controller_line (ctrl_line demo_raw) = Inr demo_packet"
    using parse_ctrl_line[OF demo_raw_plain] demo_raw_packet by simp
  moreover have "utf8_decode (ascii_bytes (ctrl_line demo_raw)) = Some (ctrl_line demo_raw)"
    using ctrl_line_chars[OF demo_raw_plain] by (intro utf8_decode_ascii) auto
  moreover have "splitlines (ctrl_line demo_raw) = [ctrl_line demo_raw] \<and> ctrl_line demo_raw \<noteq> []"
    by (simp add: splitlines_def is_line_break_def ctrl_line_def ctrl_field_def demo_raw_def
        ctrl_field_names_def lit_def)
  ultimately show ?thesis
    using demo_line_length by (simp add: parse_controller_datagram_def ascii_bytes_def)
qed

theorem ctrl_datagram_sound_witness: "packet_in_range demo_packet"
  using ctrl_datagram_sound[OF demo_datagram] by blast

definition bool_text :: "bool \<Rightarrow> pystr" where
  "bool_text b = (if b then lit ''1'' else lit ''0'')"

lemma parse_bool_text: "parse_bool (bool_text b) = Inr b"
  by (simp add: parse_bool_def bool_text_def lit_def)

lemma parse_uint_show:
  assumes "n < 2 ^ 64"
  shows "parse_uint (show_nat n) = Inr (int n)"
proof -
  have "n < 10 ^ 20" using assms by simp
  then have len: "length (show_nat n) \<le> 20" using show_nat_length[of n 20] by simp
  have "int n \<le> uint64_max" using assms by (simp add: uint64_max_def)
  then show ?thesis using len show_nat_digits[of n]
    by (simp add: parse_uint_def py_int_of_digits_def int_max_str_digits_def digits_value_show_nat)
qed

text \<open>
  The packet of nine raw values. For a conforming sender the parse result is the packet itself:
  every session, sequence number and timestamp below \<open>2 ^ 64\<close>, every combination of the three facts.
\<close>

theorem ctrl_packet_roundtrip:
  assumes "sess < 2 ^ 64" "sq < 2 ^ 64" "t < 2 ^ 64"
    and "parse_unit_float idx = Inr i" "parse_unit_float grp = Inr g"
  shows "ctrl_packet_of_raw [lit ''1'', show_nat sess, show_nat sq, show_nat t, bool_text c, bool_text a,
      bool_text k, idx, grp]
    = Inr \<lparr>cp_version = 1, cp_session_id = int sess, cp_sequence_number = int sq,
        cp_source_timestamp_ns = int t, cp_connected = c, cp_active = a, cp_tracked = k,
        cp_index_trigger = i, cp_grip_trigger = g\<rparr>"
proof -
  have "parse_uint (lit ''1'') = Inr 1"
    by (simp add: parse_uint_def lit_def is_uint_text_def is_digit_def py_int_of_digits_def
        int_max_str_digits_def digits_value_def uint64_max_def)
  then show ?thesis using assms
    by (simp add: ctrl_packet_of_raw_def parse_bool_text parse_uint_show)
qed

theorem ctrl_packet_roundtrip_witness:
  "\<exists>p. ctrl_packet_of_raw [lit ''1'', show_nat 5, show_nat 6, show_nat 7, bool_text True, bool_text True,
      bool_text True, lit ''.5'', lit ''.5''] = Inr p \<and> cp_sequence_number p = 6"
proof -
  have h: "parse_unit_float (lit ''.5'') = Inr (Fin (1 / 2))"
    using round64_dyadic[of 1 1]
    by (simp add: parse_unit_float_def lit_def is_digit_def digits_value_def decimal_value_def
        exponent_value_def is_uint_text_def scaled_def)
  show ?thesis using ctrl_packet_roundtrip[of 5 6 7, OF _ _ _ h h] by simp
qed

text \<open>
  Rejection by digit count. A session field of more than 4300 digits is not rejected with a
  \<open>ControllerPacketError\<close>: the conversion raises a plain \<open>ValueError\<close>, which the transport gate does
  not catch.
\<close>

theorem ctrl_uint_digit_limit:
  assumes "is_uint_text raw" and "4300 < length raw"
  shows "parse_uint raw = Inl CtrlIntDigitLimit"
  using assms by (simp add: parse_uint_def py_int_of_digits_def int_max_str_digits_def)

theorem ctrl_uint_digit_limit_witness: "parse_uint (replicate 4301 48) = Inl CtrlIntDigitLimit"
proof (rule ctrl_uint_digit_limit)
  have "is_uint_text (replicate n 48)" if "0 < n" for n
    using that by (auto simp: is_uint_text_def list_all_iff is_digit_def)
  from this[of 4301] show "is_uint_text (replicate 4301 48)" by (simp only: zero_less_numeral)
  show "4300 < length (replicate 4301 (48 :: nat))" by (simp only: length_replicate)
qed

end
