(* ===== verification/CtrlProvider.thy ===== *)
theory CtrlProvider
  imports Clutch CtrlProtocol
begin

text \<open>
  The session-aware host state of CTRL samples in \<open>src/motion_input/controller_provider.py\<close>:
  \<open>ControllerProvider\<close> accepts only forward packets of the current session, never of a retired one.
  The host clock is an argument: a call that defaults to \<open>time.monotonic_ns()\<close> passes its value.
\<close>

section \<open>State\<close>

datatype provider_error =
    NegativeReceiveTime | NegativeNow | EmptyInvalidReason | LatestAssertion
  | BadDuration | ProviderDuration conv_error

record provider =
  pv_stale_after_ns :: int
  pv_source_pause_after_ns :: int
  pv_latest :: "controller_packet option"
  pv_host_receive_ns :: "int option"
  pv_current_session :: "int option"
  pv_retired_sessions :: "int set"
  pv_sequence_gap :: int
  pv_source_interval_ns :: "int option"
  pv_source_pause :: bool
  pv_packet_count :: nat
  pv_accepted_count :: nat
  pv_invalid_count :: nat
  pv_gap_event_count :: nat
  pv_missing_sequence_count :: int
  pv_duplicate_count :: nat
  pv_reorder_count :: nat
  pv_new_session_count :: nat
  pv_session_count :: nat
  pv_old_session_packet_count :: nat
  pv_stale_event_count :: nat
  pv_source_pause_count :: nat
  pv_source_reorder_count :: nat
  pv_active_fault :: string
  pv_stale_latched :: bool
  pv_forced_invalid_reason :: "string option"

text \<open>\<open>ControllerProviderState\<close>: what a snapshot reports besides the provider's own fields.\<close>

record provider_snapshot =
  ps_latest :: "controller_packet option"
  ps_host_receive_ns :: "int option"
  ps_sample_age_ns :: "int option"
  ps_stale :: bool
  ps_controller_valid :: bool
  ps_invalid_reason :: "string option"
  ps_active_fault :: string
  ps_provider :: provider

definition positive_seconds_ns :: "pyfloat \<Rightarrow> (provider_error, int) res" where
  "positive_seconds_ns v =
     (if \<not> is_finite v \<or> fle v (Fin 0) then Inl BadDuration
      else case seconds_to_ns v of Inl e \<Rightarrow> Inl (ProviderDuration e) | Inr n \<Rightarrow> Inr n)"

definition new_provider :: "int \<Rightarrow> int \<Rightarrow> provider" where
  "new_provider stale pause =
     \<lparr>pv_stale_after_ns = stale, pv_source_pause_after_ns = pause, pv_latest = None,
      pv_host_receive_ns = None, pv_current_session = None, pv_retired_sessions = {},
      pv_sequence_gap = 0, pv_source_interval_ns = None, pv_source_pause = False,
      pv_packet_count = 0, pv_accepted_count = 0, pv_invalid_count = 0, pv_gap_event_count = 0,
      pv_missing_sequence_count = 0, pv_duplicate_count = 0, pv_reorder_count = 0,
      pv_new_session_count = 0, pv_session_count = 0, pv_old_session_packet_count = 0,
      pv_stale_event_count = 0, pv_source_pause_count = 0, pv_source_reorder_count = 0,
      pv_active_fault = ''no_sample'', pv_stale_latched = True, pv_forced_invalid_reason = None\<rparr>"

definition mk_provider :: "pyfloat \<Rightarrow> pyfloat \<Rightarrow> (provider_error, provider) res" where
  "mk_provider stale_after_s source_pause_after_s =
     rbind (positive_seconds_ns stale_after_s) (\<lambda>stale.
     rbind (positive_seconds_ns source_pause_after_s) (\<lambda>pause.
     Inr (new_provider stale pause)))"

section \<open>Operations\<close>

text \<open>\<open>_invalid_reason\<close>: \<open>"+".join(reasons) or None\<close>.\<close>

fun plus_join :: "string list \<Rightarrow> string" where
  "plus_join [] = ''''"
| "plus_join [r] = r"
| "plus_join (r # s # rs) = r @ ''+'' @ plus_join (s # rs)"

definition invalid_reason :: "controller_packet option \<Rightarrow> bool \<Rightarrow> string option" where
  "invalid_reason packet stale =
     (if stale then Some ''stale''
      else case packet of
        None \<Rightarrow> Some ''no_sample''
      | Some p \<Rightarrow>
          let reasons = (if cp_connected p then [] else [''disconnected''])
                @ (if cp_active p then [] else [''inactive''])
                @ (if cp_tracked p then [] else [''untracked''])
          in if reasons = [] then None else Some (plus_join reasons))"

definition pv_accept :: "provider \<Rightarrow> controller_packet \<Rightarrow> int \<Rightarrow> string \<Rightarrow> provider" where
  "pv_accept s p receive_ns active_fault =
     s\<lparr>pv_latest := Some p, pv_host_receive_ns := Some receive_ns,
       pv_forced_invalid_reason := None, pv_accepted_count := pv_accepted_count s + 1,
       pv_invalid_count := (if facts_valid p then pv_invalid_count s else pv_invalid_count s + 1),
       pv_active_fault := (case invalid_reason (Some p) False of Some r \<Rightarrow> r | None \<Rightarrow> active_fault),
       pv_stale_latched := False\<rparr>"

text \<open>The staleness test of \<open>snapshot\<close>, and the sample age it reports.\<close>

definition pv_age :: "provider \<Rightarrow> int \<Rightarrow> int option" where
  "pv_age s now_ns =
     (case (pv_latest s, pv_host_receive_ns s) of
        (Some p, Some r) \<Rightarrow> Some (max 0 (now_ns - r)) | _ \<Rightarrow> None)"

definition pv_stale :: "provider \<Rightarrow> int \<Rightarrow> bool" where
  "pv_stale s now_ns =
     (case (pv_latest s, pv_host_receive_ns s) of
        (Some p, Some r) \<Rightarrow> now_ns < r \<or> pv_stale_after_ns s < max 0 (now_ns - r) | _ \<Rightarrow> True)"

definition pv_snapshot :: "provider \<Rightarrow> int \<Rightarrow> (provider_error, provider \<times> provider_snapshot) res" where
  "pv_snapshot s0 now_ns =
     (if now_ns < 0 then Inl NegativeNow
      else
      let stale = pv_stale s0 now_ns;
          s = (if stale \<and> \<not> pv_stale_latched s0
               then s0\<lparr>pv_stale_event_count := pv_stale_event_count s0 + 1, pv_stale_latched := True\<rparr>
               else s0);
          facts = ((case pv_latest s of None \<Rightarrow> False | Some p \<Rightarrow> facts_valid p) \<and> pv_forced_invalid_reason s = None)
      in Inr (s,
        \<lparr>ps_latest = pv_latest s, ps_host_receive_ns = pv_host_receive_ns s,
         ps_sample_age_ns = pv_age s now_ns, ps_stale = stale,
         ps_controller_valid = (facts \<and> \<not> stale),
         ps_invalid_reason =
           (case invalid_reason (pv_latest s) stale of Some r \<Rightarrow> Some r | None \<Rightarrow> pv_forced_invalid_reason s),
         ps_active_fault =
           (if stale then ''stale''
            else case pv_forced_invalid_reason s of Some r \<Rightarrow> r | None \<Rightarrow> pv_active_fault s),
         ps_provider = s\<rparr>))"

text \<open>The forward packet of the current session, before it is accepted: the gap, the source interval and
  the pause are recorded in that order, and the fault is the last one that applies.\<close>

definition pv_note_gap :: "provider \<Rightarrow> controller_packet \<Rightarrow> controller_packet \<Rightarrow> provider" where
  "pv_note_gap s l p =
     (if cp_sequence_number l + 1 < cp_sequence_number p then
        (let gap = cp_sequence_number p - cp_sequence_number l - 1 in
         s\<lparr>pv_sequence_gap := gap, pv_gap_event_count := pv_gap_event_count s + 1,
           pv_missing_sequence_count := pv_missing_sequence_count s + gap\<rparr>)
      else s)"

definition pv_note_interval :: "provider \<Rightarrow> controller_packet \<Rightarrow> controller_packet \<Rightarrow> provider" where
  "pv_note_interval s l p =
     (let delta = cp_source_timestamp_ns p - cp_source_timestamp_ns l;
          t = s\<lparr>pv_source_interval_ns := Some delta\<rparr>
      in if delta < 0 then t\<lparr>pv_source_reorder_count := pv_source_reorder_count t + 1\<rparr>
         else if pv_source_pause_after_ns t < delta then
           t\<lparr>pv_source_pause := True, pv_source_pause_count := pv_source_pause_count t + 1\<rparr>
         else t)"

definition pv_forward :: "provider \<Rightarrow> controller_packet \<Rightarrow> controller_packet \<Rightarrow> int \<Rightarrow> provider" where
  "pv_forward s0 l p receive_ns =
     (let s = pv_note_interval (pv_note_gap s0 l p) l p;
          fault = (if cp_source_timestamp_ns p - cp_source_timestamp_ns l < 0 then ''source_timestamp_reorder''
                   else if pv_source_pause s then ''source_pause''
                   else if pv_sequence_gap s \<noteq> 0 then ''sequence_gap'' else ''none'')
      in pv_accept s p receive_ns fault)"

definition pv_arrive :: "provider \<Rightarrow> provider" where
  "pv_arrive s = s\<lparr>pv_packet_count := pv_packet_count s + 1, pv_sequence_gap := 0,
                   pv_source_interval_ns := None, pv_source_pause := False\<rparr>"

definition pv_update_core :: "provider \<Rightarrow> controller_packet \<Rightarrow> int \<Rightarrow> (provider_error, provider) res" where
  "pv_update_core s0 p receive_ns =
     (let s = pv_arrive s0 in
      if cp_session_id p \<in> pv_retired_sessions s then
        Inr (s\<lparr>pv_old_session_packet_count := pv_old_session_packet_count s + 1,
               pv_active_fault := ''old_session_packet''\<rparr>)
      else case pv_current_session s of
        None \<Rightarrow>
          Inr (pv_accept (s\<lparr>pv_current_session := Some (cp_session_id p), pv_session_count := 1\<rparr>)
                 p receive_ns ''initial_session'')
      | Some cur \<Rightarrow>
          if cp_session_id p \<noteq> cur then
            Inr (pv_accept
                   (s\<lparr>pv_retired_sessions := insert cur (pv_retired_sessions s),
                      pv_current_session := Some (cp_session_id p),
                      pv_new_session_count := pv_new_session_count s + 1,
                      pv_session_count := pv_session_count s + 1\<rparr>)
                   p receive_ns ''new_session'')
          else case pv_latest s of
            None \<Rightarrow> Inl LatestAssertion
          | Some l \<Rightarrow>
              if cp_sequence_number p = cp_sequence_number l then
                Inr (s\<lparr>pv_duplicate_count := pv_duplicate_count s + 1, pv_active_fault := ''duplicate''\<rparr>)
              else if cp_sequence_number p < cp_sequence_number l then
                Inr (s\<lparr>pv_reorder_count := pv_reorder_count s + 1, pv_active_fault := ''sequence_reorder''\<rparr>)
              else Inr (pv_forward s l p receive_ns))"

definition pv_update ::
  "provider \<Rightarrow> controller_packet \<Rightarrow> int \<Rightarrow> (provider_error, provider \<times> provider_snapshot) res" where
  "pv_update s p receive_ns =
     (if receive_ns < 0 then Inl NegativeReceiveTime
      else rbind (pv_update_core s p receive_ns) (\<lambda>s'. pv_snapshot s' receive_ns))"

definition pv_invalidate :: "provider \<Rightarrow> string \<Rightarrow> (provider_error, provider) res" where
  "pv_invalidate s reason =
     (if blank reason then Inl EmptyInvalidReason
      else Inr (s\<lparr>pv_active_fault := reason, pv_forced_invalid_reason := Some reason\<rparr>))"

section \<open>Invariant\<close>

text \<open>Sessions: the current one is the latest packet's, is not retired, and each session change retires
  one. Counters: every packet is accounted for exactly once.\<close>

definition pv_session_inv :: "provider \<Rightarrow> bool" where
  "pv_session_inv s \<longleftrightarrow>
     pv_current_session s = map_option cp_session_id (pv_latest s)
     \<and> (pv_host_receive_ns s = None \<longleftrightarrow> pv_latest s = None)
     \<and> set_option (pv_current_session s) \<inter> pv_retired_sessions s = {}
     \<and> finite (pv_retired_sessions s) \<and> card (pv_retired_sessions s) = pv_new_session_count s
     \<and> (pv_latest s = None \<longrightarrow> pv_retired_sessions s = {})
     \<and> pv_session_count s = (if pv_latest s = None then 0 else pv_new_session_count s + 1)"

definition pv_count_inv :: "provider \<Rightarrow> bool" where
  "pv_count_inv s \<longleftrightarrow>
     pv_packet_count s = pv_accepted_count s + pv_duplicate_count s + pv_reorder_count s
         + pv_old_session_packet_count s
     \<and> pv_invalid_count s \<le> pv_accepted_count s
     \<and> (pv_accepted_count s = 0 \<longleftrightarrow> pv_latest s = None)
     \<and> int (pv_gap_event_count s) \<le> pv_missing_sequence_count s"

definition pv_inv :: "provider \<Rightarrow> bool" where
  "pv_inv s \<longleftrightarrow> pv_session_inv s \<and> pv_count_inv s"

lemma pv_inv_new: "pv_inv (new_provider stale pause)"
  by (simp add: pv_inv_def pv_session_inv_def pv_count_inv_def new_provider_def)

lemma pv_note_fields [simp]:
  "pv_latest (pv_note_gap s l p) = pv_latest s" "pv_current_session (pv_note_gap s l p) = pv_current_session s"
  "pv_retired_sessions (pv_note_gap s l p) = pv_retired_sessions s"
  "pv_host_receive_ns (pv_note_gap s l p) = pv_host_receive_ns s"
  "pv_new_session_count (pv_note_gap s l p) = pv_new_session_count s"
  "pv_session_count (pv_note_gap s l p) = pv_session_count s"
  "pv_latest (pv_note_interval s l p) = pv_latest s"
  "pv_current_session (pv_note_interval s l p) = pv_current_session s"
  "pv_retired_sessions (pv_note_interval s l p) = pv_retired_sessions s"
  "pv_host_receive_ns (pv_note_interval s l p) = pv_host_receive_ns s"
  "pv_new_session_count (pv_note_interval s l p) = pv_new_session_count s"
  "pv_session_count (pv_note_interval s l p) = pv_session_count s"
  by (simp_all add: pv_note_gap_def pv_note_interval_def Let_def)

lemma pv_note_counts [simp]:
  "pv_packet_count (pv_note_gap s l p) = pv_packet_count s" "pv_accepted_count (pv_note_gap s l p) = pv_accepted_count s"
  "pv_duplicate_count (pv_note_gap s l p) = pv_duplicate_count s"
  "pv_reorder_count (pv_note_gap s l p) = pv_reorder_count s"
  "pv_old_session_packet_count (pv_note_gap s l p) = pv_old_session_packet_count s"
  "pv_invalid_count (pv_note_gap s l p) = pv_invalid_count s"
  "pv_packet_count (pv_note_interval s l p) = pv_packet_count s"
  "pv_accepted_count (pv_note_interval s l p) = pv_accepted_count s"
  "pv_duplicate_count (pv_note_interval s l p) = pv_duplicate_count s"
  "pv_reorder_count (pv_note_interval s l p) = pv_reorder_count s"
  "pv_old_session_packet_count (pv_note_interval s l p) = pv_old_session_packet_count s"
  "pv_invalid_count (pv_note_interval s l p) = pv_invalid_count s"
  "pv_gap_event_count (pv_note_interval s l p) = pv_gap_event_count s"
  "pv_missing_sequence_count (pv_note_interval s l p) = pv_missing_sequence_count s"
  by (simp_all add: pv_note_gap_def pv_note_interval_def Let_def)

lemma pv_note_gap_missing:
  "int (pv_gap_event_count s) \<le> pv_missing_sequence_count s \<Longrightarrow>
   int (pv_gap_event_count (pv_note_gap s l p)) \<le> pv_missing_sequence_count (pv_note_gap s l p)"
  by (simp add: pv_note_gap_def Let_def)

lemma pv_accept_fields [simp]:
  "pv_latest (pv_accept s p ns f) = Some p" "pv_host_receive_ns (pv_accept s p ns f) = Some ns"
  "pv_current_session (pv_accept s p ns f) = pv_current_session s"
  "pv_retired_sessions (pv_accept s p ns f) = pv_retired_sessions s"
  "pv_new_session_count (pv_accept s p ns f) = pv_new_session_count s"
  "pv_session_count (pv_accept s p ns f) = pv_session_count s"
  "pv_forced_invalid_reason (pv_accept s p ns f) = None"
  "pv_packet_count (pv_accept s p ns f) = pv_packet_count s"
  "pv_accepted_count (pv_accept s p ns f) = pv_accepted_count s + 1"
  "pv_duplicate_count (pv_accept s p ns f) = pv_duplicate_count s"
  "pv_reorder_count (pv_accept s p ns f) = pv_reorder_count s"
  "pv_old_session_packet_count (pv_accept s p ns f) = pv_old_session_packet_count s"
  "pv_invalid_count (pv_accept s p ns f) \<le> pv_invalid_count s + 1"
  "pv_gap_event_count (pv_accept s p ns f) = pv_gap_event_count s"
  "pv_missing_sequence_count (pv_accept s p ns f) = pv_missing_sequence_count s"
  by (simp_all add: pv_accept_def)

text \<open>The four outcomes of an update, each with the state it leaves.\<close>

lemma pv_update_core_cases:
  assumes "pv_session_inv s" and "pv_update_core s p ns = Inr s'"
  obtains
    (old) "cp_session_id p \<in> pv_retired_sessions s"
      "s' = (pv_arrive s)\<lparr>pv_old_session_packet_count := pv_old_session_packet_count s + 1,
                          pv_active_fault := ''old_session_packet''\<rparr>"
  | (initial) "pv_latest s = None"
      "s' = pv_accept ((pv_arrive s)\<lparr>pv_current_session := Some (cp_session_id p), pv_session_count := 1\<rparr>)
              p ns ''initial_session''"
  | (switch) l where "pv_latest s = Some l" "cp_session_id p \<noteq> cp_session_id l"
      "cp_session_id p \<notin> pv_retired_sessions s"
      "s' = pv_accept ((pv_arrive s)\<lparr>pv_retired_sessions := insert (cp_session_id l) (pv_retired_sessions s),
                 pv_current_session := Some (cp_session_id p),
                 pv_new_session_count := pv_new_session_count s + 1, pv_session_count := pv_session_count s + 1\<rparr>)
              p ns ''new_session''"
  | (duplicate) l where "pv_latest s = Some l" "cp_session_id p = cp_session_id l"
      "cp_sequence_number p = cp_sequence_number l"
      "s' = (pv_arrive s)\<lparr>pv_duplicate_count := pv_duplicate_count s + 1, pv_active_fault := ''duplicate''\<rparr>"
  | (reorder) l where "pv_latest s = Some l" "cp_session_id p = cp_session_id l"
      "cp_sequence_number p < cp_sequence_number l"
      "s' = (pv_arrive s)\<lparr>pv_reorder_count := pv_reorder_count s + 1, pv_active_fault := ''sequence_reorder''\<rparr>"
  | (forward) l where "pv_latest s = Some l" "cp_session_id p = cp_session_id l"
      "cp_sequence_number l < cp_sequence_number p" "s' = pv_forward (pv_arrive s) l p ns"
proof -
  have ar: "pv_retired_sessions (pv_arrive s) = pv_retired_sessions s" "pv_latest (pv_arrive s) = pv_latest s"
    "pv_current_session (pv_arrive s) = map_option cp_session_id (pv_latest s)"
    "pv_old_session_packet_count (pv_arrive s) = pv_old_session_packet_count s"
    "pv_new_session_count (pv_arrive s) = pv_new_session_count s" "pv_session_count (pv_arrive s) = pv_session_count s"
    "pv_duplicate_count (pv_arrive s) = pv_duplicate_count s" "pv_reorder_count (pv_arrive s) = pv_reorder_count s"
    using assms(1) by (simp_all add: pv_arrive_def pv_session_inv_def)
  note u = assms(2)[unfolded pv_update_core_def Let_def ar]
  show thesis
  proof (cases "cp_session_id p \<in> pv_retired_sessions s")
    case True
    with u show thesis by (intro old) simp_all
  next
    case new: False
    show thesis
    proof (cases "pv_latest s")
      case None
      with u new show thesis by (intro initial) simp_all
    next
      case (Some l)
      note v = u[unfolded Some option.map option.case if_not_P[OF new]]
      show thesis
      proof (cases "cp_session_id p = cp_session_id l")
        case True
        consider (eq) "cp_sequence_number p = cp_sequence_number l"
          | (lt) "cp_sequence_number p < cp_sequence_number l"
          | (gt) "cp_sequence_number l < cp_sequence_number p" by linarith
        then show thesis
        proof cases
          case eq with v Some True show thesis by (intro duplicate) simp_all
        next
          case lt with v Some True show thesis by (intro reorder) simp_all
        next
          case gt with v Some True show thesis by (intro forward) auto
        qed
      next
        case False
        with v Some new show thesis by (intro switch) auto
      qed
    qed
  qed
qed

lemma pv_update_core_total: "pv_session_inv s \<Longrightarrow> \<exists>s'. pv_update_core s p ns = Inr s'"
  by (cases "pv_latest s")
     (simp_all add: pv_session_inv_def pv_update_core_def pv_arrive_def Let_def)

lemma pv_session_inv_update_core:
  assumes "pv_session_inv s" and "pv_update_core s p ns = Inr s'"
  shows "pv_session_inv s'"
  using assms
proof (cases rule: pv_update_core_cases)
  case (switch l)
  have "cp_session_id l \<notin> pv_retired_sessions s" "finite (pv_retired_sessions s)"
    using assms(1) switch(1) by (auto simp: pv_session_inv_def)
  with assms(1) switch show ?thesis
    by (simp add: pv_session_inv_def pv_arrive_def card_insert_disjoint)
next
  case (forward l)
  with assms(1) show ?thesis
    by (auto simp: pv_session_inv_def pv_arrive_def pv_forward_def Let_def)
qed (use assms(1) in \<open>auto simp: pv_session_inv_def pv_arrive_def\<close>)

lemma pv_count_inv_accept:
  assumes "pv_packet_count s = pv_accepted_count s + pv_duplicate_count s + pv_reorder_count s
         + pv_old_session_packet_count s + 1" "pv_invalid_count s \<le> pv_accepted_count s"
    "int (pv_gap_event_count s) \<le> pv_missing_sequence_count s"
  shows "pv_count_inv (pv_accept s p ns f)"
  using assms by (simp add: pv_count_inv_def pv_accept_def)

lemma pv_count_inv_update_core:
  assumes "pv_session_inv s" "pv_count_inv s" and "pv_update_core s p ns = Inr s'"
  shows "pv_count_inv s'"
  using assms(1,3)
proof (cases rule: pv_update_core_cases)
  case initial
  show ?thesis
    unfolding initial(2)
    by (rule pv_count_inv_accept) (use assms(2) in \<open>simp_all add: pv_count_inv_def pv_arrive_def\<close>)
next
  case (switch l)
  show ?thesis
    unfolding switch(4)
    by (rule pv_count_inv_accept) (use assms(2) in \<open>simp_all add: pv_count_inv_def pv_arrive_def\<close>)
next
  case (forward l)
  have "int (pv_gap_event_count (pv_note_gap (pv_arrive s) l p))
      \<le> pv_missing_sequence_count (pv_note_gap (pv_arrive s) l p)"
    by (rule pv_note_gap_missing) (use assms(2) in \<open>simp add: pv_count_inv_def pv_arrive_def\<close>)
  then show ?thesis
    unfolding forward(4) pv_forward_def Let_def
    by (intro pv_count_inv_accept) (use assms(2) in \<open>simp_all add: pv_count_inv_def pv_arrive_def\<close>)
qed (use assms(2) in \<open>simp_all add: pv_count_inv_def pv_arrive_def\<close>)

lemma pv_inv_update_core: "pv_inv s \<Longrightarrow> pv_update_core s p ns = Inr s' \<Longrightarrow> pv_inv s'"
  using pv_session_inv_update_core [of s p ns s'] pv_count_inv_update_core [of s p ns s']
  by (simp add: pv_inv_def)

text \<open>A snapshot only counts and latches staleness.\<close>

lemma pv_inv_latch [simp]:
  "pv_inv (s\<lparr>pv_stale_event_count := n, pv_stale_latched := b\<rparr>) = pv_inv s"
  "pv_inv (s\<lparr>pv_active_fault := f, pv_forced_invalid_reason := r\<rparr>) = pv_inv s"
  by (simp_all add: pv_inv_def pv_session_inv_def pv_count_inv_def)

lemma pv_snapshot_Inr:
  assumes "pv_snapshot s now = Inr (s', st)"
  shows "0 \<le> now \<and> ps_provider st = s' \<and> pv_inv s' = pv_inv s
    \<and> (s' = s \<or> s' = s\<lparr>pv_stale_event_count := pv_stale_event_count s + 1, pv_stale_latched := True\<rparr>)"
  using assms by (auto simp: pv_snapshot_def Let_def split: if_split_asm)

lemma pv_snapshot_total: "0 \<le> now \<Longrightarrow> \<exists>s' st. pv_snapshot s now = Inr (s', st)"
  by (simp add: pv_snapshot_def Let_def)

lemma pv_update_split:
  assumes "pv_update s p ns = Inr (s', st)"
  obtains u where "0 \<le> ns" "pv_update_core s p ns = Inr u" "pv_snapshot u ns = Inr (s', st)"
  using assms by (auto simp: pv_update_def split: if_split_asm)

lemma pv_inv_update: "pv_inv s \<Longrightarrow> pv_update s p ns = Inr (s', st) \<Longrightarrow> pv_inv s'"
  by (erule pv_update_split) (metis pv_inv_update_core pv_snapshot_Inr)

lemma pv_inv_invalidate: "pv_inv s \<Longrightarrow> pv_invalidate s r = Inr s' \<Longrightarrow> pv_inv s'"
  by (auto simp: pv_invalidate_def split: if_split_asm)

datatype provider_call = PvUpdate controller_packet int | PvSnapshot int | PvInvalidate string

fun pv_call :: "provider \<Rightarrow> provider_call \<Rightarrow> provider" where
  "pv_call s (PvUpdate p ns) = (case pv_update s p ns of Inr (s', _) \<Rightarrow> s' | Inl _ \<Rightarrow> s)"
| "pv_call s (PvSnapshot now) = (case pv_snapshot s now of Inr (s', _) \<Rightarrow> s' | Inl _ \<Rightarrow> s)"
| "pv_call s (PvInvalidate r) = (case pv_invalidate s r of Inr s' \<Rightarrow> s' | Inl _ \<Rightarrow> s)"

inductive pv_reachable :: "provider \<Rightarrow> bool" where
  start: "mk_provider stale pause = Inr s \<Longrightarrow> pv_reachable s"
| call: "pv_reachable s \<Longrightarrow> pv_reachable (pv_call s c)"

lemma pv_inv_call [intro, simp]: "pv_inv s \<Longrightarrow> pv_inv (pv_call s c)"
  by (cases c) (auto split: sum.split dest: pv_inv_update pv_inv_invalidate pv_snapshot_Inr)

lemma pv_reachable_inv: "pv_reachable s \<Longrightarrow> pv_inv s"
  by (induction rule: pv_reachable.induct) (auto simp: mk_provider_def pv_inv_new pv_inv_call)

section \<open>What a call changes\<close>

definition invalidating :: "provider_call \<Rightarrow> bool" where
  "invalidating c = (case c of PvInvalidate r \<Rightarrow> \<not> blank r | _ \<Rightarrow> False)"

text \<open>The packet a call makes the latest, if it accepts one.\<close>

definition pv_taken :: "provider \<Rightarrow> provider_call \<Rightarrow> controller_packet option" where
  "pv_taken s c =
     (case c of PvUpdate p ns \<Rightarrow>
        if pv_accepted_count (pv_call s c) = pv_accepted_count s + 1 then Some p else None
      | _ \<Rightarrow> None)"

definition pv_same :: "provider \<Rightarrow> provider \<Rightarrow> bool" where
  "pv_same s t \<longleftrightarrow> pv_latest t = pv_latest s \<and> pv_host_receive_ns t = pv_host_receive_ns s
     \<and> pv_retired_sessions t = pv_retired_sessions s \<and> pv_accepted_count t = pv_accepted_count s
     \<and> pv_stale_after_ns t = pv_stale_after_ns s \<and> pv_packet_count s \<le> pv_packet_count t"

lemma pv_same_refl [simp]: "pv_same s s"
  by (simp add: pv_same_def)

lemma pv_snapshot_same:
  assumes "pv_snapshot u now = Inr (t, st)"
  shows "pv_same u t \<and> pv_forced_invalid_reason t = pv_forced_invalid_reason u
    \<and> pv_current_session t = pv_current_session u"
  using pv_snapshot_Inr[OF assms] by (auto simp: pv_same_def)

lemma pv_stale_after_note [simp]:
  "pv_stale_after_ns (pv_note_gap s l p) = pv_stale_after_ns s"
  "pv_stale_after_ns (pv_note_interval s l p) = pv_stale_after_ns s"
  "pv_stale_after_ns (pv_accept s p ns f) = pv_stale_after_ns s"
  "pv_stale_after_ns (pv_arrive s) = pv_stale_after_ns s"
  by (simp_all add: pv_note_gap_def pv_note_interval_def pv_accept_def pv_arrive_def Let_def)

text \<open>An update that accepts its packet, and what it needs of the session before it.\<close>

definition pv_accepts :: "provider \<Rightarrow> controller_packet \<Rightarrow> int \<Rightarrow> provider \<Rightarrow> bool" where
  "pv_accepts s p ns t \<longleftrightarrow> 0 \<le> ns \<and> pv_latest t = Some p \<and> pv_host_receive_ns t = Some ns
     \<and> pv_forced_invalid_reason t = None \<and> pv_accepted_count t = pv_accepted_count s + 1
     \<and> pv_stale_after_ns t = pv_stale_after_ns s
     \<and> (case pv_latest s of
          None \<Rightarrow> pv_retired_sessions t = pv_retired_sessions s
        | Some l \<Rightarrow>
            if cp_session_id p = cp_session_id l then
              cp_sequence_number l < cp_sequence_number p \<and> pv_retired_sessions t = pv_retired_sessions s
            else cp_session_id p \<notin> pv_retired_sessions s
              \<and> pv_retired_sessions t = insert (cp_session_id l) (pv_retired_sessions s))"

lemma pv_update_core_effect:
  assumes "pv_session_inv s" and "pv_update_core s p ns = Inr u" and "0 \<le> ns"
  shows "pv_accepts s p ns u
    \<or> (pv_same s u \<and> pv_forced_invalid_reason u = pv_forced_invalid_reason s)"
  using assms(1,2)
proof (cases rule: pv_update_core_cases)
  case initial
  then show ?thesis using assms(3) by (simp add: pv_accepts_def pv_arrive_def)
next
  case (switch l)
  then show ?thesis using assms(3) by (simp add: pv_accepts_def pv_arrive_def)
next
  case (forward l)
  then show ?thesis using assms(3) by (simp add: pv_accepts_def pv_arrive_def pv_forward_def Let_def)
qed (simp_all add: pv_same_def pv_arrive_def)

lemma pv_accepts_same: "pv_accepts s p ns u \<Longrightarrow> pv_same u t \<Longrightarrow>
    pv_forced_invalid_reason t = pv_forced_invalid_reason u \<Longrightarrow> pv_accepts s p ns t"
  by (cases "pv_latest s") (simp_all add: pv_accepts_def pv_same_def split: if_split_asm)

lemma pv_same_trans: "pv_same s t \<Longrightarrow> pv_same t u \<Longrightarrow> pv_same s u"
  by (simp add: pv_same_def)

lemma pv_update_effect:
  assumes "pv_inv s"
  shows "pv_accepts s p ns (pv_call s (PvUpdate p ns))
    \<or> (pv_same s (pv_call s (PvUpdate p ns))
        \<and> pv_forced_invalid_reason (pv_call s (PvUpdate p ns)) = pv_forced_invalid_reason s)"
proof (cases "pv_update s p ns")
  case (Inr x)
  obtain t st where x: "x = (t, st)" by (cases x)
  obtain u where u: "0 \<le> ns" "pv_update_core s p ns = Inr u" "pv_snapshot u ns = Inr (t, st)"
    using pv_update_split[of s p ns t st] Inr x by blast
  have "pv_session_inv s" using assms by (simp add: pv_inv_def)
  from pv_update_core_effect[OF this u(2,1)] pv_snapshot_same[OF u(3)] show ?thesis
    by (auto simp: Inr x intro: pv_accepts_same pv_same_trans)
qed simp

lemma pv_call_cases:
  assumes "pv_inv s"
  obtains (accept) p ns where "c = PvUpdate p ns" "pv_accepts s p ns (pv_call s c)" "pv_taken s c = Some p"
  | (keep) "pv_same s (pv_call s c)" "pv_taken s c = None"
      "pv_forced_invalid_reason (pv_call s c) = None \<longleftrightarrow> pv_forced_invalid_reason s = None \<and> \<not> invalidating c"
proof (cases c)
  case (PvUpdate p ns)
  from pv_update_effect[OF assms, of p ns] show thesis
  proof
    assume a: "pv_accepts s p ns (pv_call s (PvUpdate p ns))"
    then have "pv_taken s c = Some p" by (simp add: pv_taken_def pv_accepts_def PvUpdate)
    with a show thesis by (intro accept) (simp_all add: PvUpdate)
  next
    assume a: "pv_same s (pv_call s (PvUpdate p ns))
        \<and> pv_forced_invalid_reason (pv_call s (PvUpdate p ns)) = pv_forced_invalid_reason s"
    then have "pv_taken s c = None" by (simp add: pv_taken_def pv_same_def PvUpdate)
    with a show thesis by (intro keep) (simp_all add: PvUpdate invalidating_def)
  qed
next
  case (PvSnapshot now)
  then show thesis
    by (intro keep) (auto simp: pv_taken_def invalidating_def split: sum.split dest: pv_snapshot_same)
next
  case (PvInvalidate r)
  then show thesis
    by (intro keep) (auto simp: pv_taken_def invalidating_def pv_invalidate_def pv_same_def)
qed

declare pv_call.simps [simp del]

section \<open>Runs of the provider\<close>

text \<open>A run keeps the packets it accepted, in order.\<close>

definition pv_log_step :: "provider \<times> controller_packet list \<Rightarrow> provider_call \<Rightarrow> provider \<times> controller_packet list" where
  "pv_log_step sl c = (pv_call (fst sl) c, snd sl @ (case pv_taken (fst sl) c of Some p \<Rightarrow> [p] | None \<Rightarrow> []))"

definition pv_run :: "provider \<Rightarrow> provider_call list \<Rightarrow> provider \<times> controller_packet list" where
  "pv_run s cs = foldl pv_log_step (s, []) cs"

lemma pv_run_Nil [simp]: "pv_run s [] = (s, [])"
  and pv_run_snoc: "pv_run s (cs @ [c]) = pv_log_step (pv_run s cs) c"
  by (simp_all add: pv_run_def)

text \<open>What the log of accepted packets promises: a session's packets are adjacent and their sequence
  numbers increase.\<close>

definition forward_log :: "controller_packet list \<Rightarrow> bool" where
  "forward_log ps \<longleftrightarrow>
     sorted_wrt (\<lambda>a b. cp_session_id a = cp_session_id b \<longrightarrow> cp_sequence_number a < cp_sequence_number b) ps
     \<and> distinct (remdups_adj (map cp_session_id ps))"

definition log_matches :: "provider \<Rightarrow> controller_packet list \<Rightarrow> bool" where
  "log_matches s ps \<longleftrightarrow> pv_latest s = (if ps = [] then None else Some (last ps))
     \<and> set (map cp_session_id ps) = pv_retired_sessions s \<union> cp_session_id ` set_option (pv_latest s)
     \<and> length ps = pv_accepted_count s"

lemma distinct_remdups_adj_snoc:
  "distinct (remdups_adj xs) \<Longrightarrow> xs = [] \<or> last xs = x \<or> x \<notin> set xs \<Longrightarrow> distinct (remdups_adj (xs @ [x]))"
  by (cases xs rule: rev_cases) (auto simp: remdups_adj_append_two)

lemma forward_log_extend:
  assumes "forward_log ps" "log_matches s ps" "pv_inv s" "pv_accepts s p ns t"
  shows "forward_log (ps @ [p]) \<and> log_matches t (ps @ [p])"
proof (cases ps rule: rev_cases)
  case Nil
  then show ?thesis
    using assms by (auto simp: forward_log_def log_matches_def pv_accepts_def)
next
  case (snoc qs l)
  have l: "pv_latest s = Some l" using assms(2) by (simp add: log_matches_def snoc)
  show ?thesis
  proof (cases "cp_session_id p = cp_session_id l")
    case True
    then have lt: "cp_sequence_number l < cp_sequence_number p"
      using assms(4) by (simp add: pv_accepts_def l)
    have "\<forall>q \<in> set qs. cp_session_id q = cp_session_id p \<longrightarrow> cp_sequence_number q < cp_sequence_number p"
      using assms(1) lt True by (force simp: forward_log_def snoc sorted_wrt_append)
    with assms True lt show ?thesis
      by (auto simp: forward_log_def log_matches_def pv_accepts_def snoc l sorted_wrt_append remdups_adj_append_two)
  next
    case False
    have "cp_session_id p \<notin> pv_retired_sessions s"
      using assms(4) False by (simp add: pv_accepts_def l)
    moreover have "set (map cp_session_id ps) = insert (cp_session_id l) (pv_retired_sessions s)"
      using assms(2) by (simp add: log_matches_def l)
    ultimately have new: "cp_session_id p \<notin> set (map cp_session_id ps)"
      using False by simp
    have "distinct (remdups_adj (map cp_session_id ps @ [cp_session_id p]))"
      using new assms(1) by (intro distinct_remdups_adj_snoc) (auto simp: forward_log_def)
    moreover have "\<forall>q \<in> set ps. cp_session_id q \<noteq> cp_session_id p"
      using new by (metis image_eqI set_map)
    ultimately have "forward_log (ps @ [p])"
      using assms(1) by (simp add: forward_log_def sorted_wrt_append)
    moreover have "pv_retired_sessions t = insert (cp_session_id l) (pv_retired_sessions s)"
        "pv_latest t = Some p" "pv_accepted_count t = pv_accepted_count s + 1"
      using assms(4) False by (simp_all add: pv_accepts_def l)
    with assms(2) have "log_matches t (ps @ [p])" by (simp add: log_matches_def l)
    ultimately show ?thesis by simp
  qed
qed

lemma pv_run_log:
  assumes "pv_run (new_provider stale pause) cs = (s, ps)"
  shows "pv_inv s \<and> forward_log ps \<and> log_matches s ps"
  using assms
proof (induction cs arbitrary: s ps rule: rev_induct)
  case Nil
  then show ?case
    using pv_inv_new [of stale pause] by (auto simp: forward_log_def log_matches_def) (simp_all add: new_provider_def)
next
  case (snoc c cs)
  obtain t qs where r: "pv_run (new_provider stale pause) cs = (t, qs)" by fastforce
  note ih = snoc.IH[OF r]
  have s: "s = pv_call t c" "ps = qs @ (case pv_taken t c of Some p \<Rightarrow> [p] | None \<Rightarrow> [])"
    using snoc.prems by (simp_all add: pv_run_snoc r pv_log_step_def)
  from ih have "pv_inv t" by simp
  then show ?case
  proof (cases rule: pv_call_cases[where c = c])
    case (accept p ns)
    then show ?thesis using ih forward_log_extend[of qs t p ns s] s by (simp add: pv_inv_call)
  next
    case keep
    then show ?thesis using ih s by (simp add: pv_inv_call log_matches_def pv_same_def)
  qed
qed

text \<open>When the sample could be valid, the log ends with it and no invalidation came after it.\<close>

definition clear_since :: "provider \<Rightarrow> provider_call list \<Rightarrow> controller_packet \<Rightarrow> int \<Rightarrow> bool" where
  "clear_since s0 cs p r \<longleftrightarrow>
     (\<exists>before after. cs = before @ PvUpdate p r # after
        \<and> snd (pv_run s0 cs) = snd (pv_run s0 before) @ [p] \<and> list_all (\<lambda>c. \<not> invalidating c) after)"

lemma pv_run_clear:
  assumes "pv_inv s0" "pv_latest s0 = None" "pv_run s0 cs = (s, ps)"
  shows "pv_inv s \<and> pv_stale_after_ns s = pv_stale_after_ns s0
    \<and> (\<forall>p r. pv_latest s = Some p \<longrightarrow> pv_host_receive_ns s = Some r \<longrightarrow>
          pv_forced_invalid_reason s = None \<longrightarrow> clear_since s0 cs p r)"
  using assms(3)
proof (induction cs arbitrary: s ps rule: rev_induct)
  case Nil
  then show ?case using assms by auto
next
  case (snoc c cs)
  obtain t qs where r: "pv_run s0 cs = (t, qs)" by fastforce
  note ih = snoc.IH[OF r]
  have s: "s = pv_call t c" "ps = qs @ (case pv_taken t c of Some p \<Rightarrow> [p] | None \<Rightarrow> [])"
    using snoc.prems by (simp_all add: pv_run_snoc r pv_log_step_def)
  from ih have "pv_inv t" by simp
  then show ?case
  proof (cases rule: pv_call_cases[where c = c])
    case (accept p ns)
    have "clear_since s0 (cs @ [c]) p ns"
      unfolding clear_since_def
      by (rule exI[of _ cs]) (use snoc.prems s accept r in simp)
    then show ?thesis using accept ih s by (auto simp: pv_inv_call pv_accepts_def)
  next
    case keep
    have "clear_since s0 (cs @ [c]) p n"
      if "clear_since s0 cs p n" "\<not> invalidating c" for p n
    proof -
      from that(1) obtain b a where "cs = b @ PvUpdate p n # a" "qs = snd (pv_run s0 b) @ [p]"
        "list_all (\<lambda>c. \<not> invalidating c) a" by (auto simp: clear_since_def r)
      with that(2) snoc.prems s keep(2) show ?thesis
        unfolding clear_since_def by (intro exI[of _ b] exI[of _ "a @ [c]"]) simp
    qed
    then show ?thesis using keep ih s by (auto simp: pv_inv_call pv_same_def)
  qed
qed

section \<open>Properties of the provider\<close>

definition demo_ctrl :: "int \<Rightarrow> int \<Rightarrow> int \<Rightarrow> pyfloat \<Rightarrow> pyfloat \<Rightarrow> controller_packet" where
  "demo_ctrl session sq t i g =
     \<lparr>cp_version = 1, cp_session_id = session, cp_sequence_number = sq, cp_source_timestamp_ns = t,
      cp_connected = True, cp_active = True, cp_tracked = True, cp_index_trigger = i, cp_grip_trigger = g\<rparr>"

lemmas pv_eval = pv_run_def pv_log_step_def pv_taken_def pv_update_def pv_update_core_def
  pv_arrive_def pv_accept_def pv_forward_def pv_note_gap_def pv_note_interval_def
  pv_snapshot_def pv_age_def pv_stale_def invalid_reason_def facts_valid_def new_provider_def
  pv_invalidate_def blank_def demo_ctrl_def Let_def

text \<open>C3. Whatever updates, snapshots and invalidations a provider sees, the packets it accepts keep
  each sender session adjacent, and increase in sequence number within a session: a retired session
  never comes back, a duplicate or reordered packet is never accepted.\<close>

theorem provider_forward_log:
  assumes "pv_run (new_provider stale pause) cs = (s, ps)" and "i < j" and "j < length ps"
    and "cp_session_id (ps ! i) = cp_session_id (ps ! j)"
  shows "cp_sequence_number (ps ! i) < cp_sequence_number (ps ! j)
    \<and> distinct (remdups_adj (map cp_session_id ps))
    \<and> pv_latest s = Some (last ps) \<and> length ps = pv_accepted_count s"
proof -
  from pv_run_log[OF assms(1)] have l: "forward_log ps" "log_matches s ps" by simp_all
  from assms(2,3) have "ps \<noteq> []" by auto
  moreover have "cp_sequence_number (ps ! i) < cp_sequence_number (ps ! j)"
    using l(1) assms(2-4) by (auto simp: forward_log_def sorted_wrt_iff_nth_less)
  ultimately show ?thesis using l by (simp add: forward_log_def log_matches_def)
qed

definition demo_calls :: "provider_call list" where
  "demo_calls = [PvUpdate (demo_ctrl 7 1 100 (Fin 0) (Fin 0)) 1000, PvUpdate (demo_ctrl 7 1 100 (Fin 0) (Fin 0)) 1001,
     PvInvalidate ''malformed_ctrl'', PvUpdate (demo_ctrl 7 3 120 (Fin 0) (Fin 0)) 1002, PvSnapshot 1003]"

lemma demo_run:
  "snd (pv_run (new_provider 250 250) demo_calls) =
     [demo_ctrl 7 1 100 (Fin 0) (Fin 0), demo_ctrl 7 3 120 (Fin 0) (Fin 0)]"
  by code_simp

theorem provider_forward_log_witness:
  "cp_sequence_number (demo_ctrl 7 1 100 (Fin 0) (Fin 0)) < cp_sequence_number (demo_ctrl 7 3 120 (Fin 0) (Fin 0))"
proof -
  obtain s where "pv_run (new_provider 250 250) demo_calls =
     (s, [demo_ctrl 7 1 100 (Fin 0) (Fin 0), demo_ctrl 7 3 120 (Fin 0) (Fin 0)])"
    using demo_run by (metis prod.collapse)
  from provider_forward_log[OF this, of 0 1] show ?thesis by (simp add: demo_ctrl_def)
qed

text \<open>C4. A snapshot reports the controller valid only on the last packet the provider accepted, if that
  packet was connected, active and tracked, was received within the stale window before the snapshot,
  and no invalidation was latched since it was accepted.\<close>

theorem provider_valid_sound:
  assumes "pv_run (new_provider stale pause) cs = (s, ps)" and "pv_snapshot s now = Inr (s', st)"
    and "ps_controller_valid st"
  obtains p r before after where "ps_latest st = Some p" and "facts_valid p"
    and "r \<le> now" and "now - r \<le> stale" and "ps_sample_age_ns st = Some (now - r)"
    and "ps_invalid_reason st = None"
    and "cs = before @ PvUpdate p r # after" and "ps = snd (pv_run (new_provider stale pause) before) @ [p]"
    and "list_all (\<lambda>c. \<not> invalidating c) after"
proof -
  have new: "pv_latest (new_provider stale pause) = None" "pv_stale_after_ns (new_provider stale pause) = stale"
    by (simp_all add: new_provider_def)
  note run = pv_run_clear[OF pv_inv_new new(1) assms(1)]
  from assms(2,3) obtain p r where v: "pv_latest s = Some p" "pv_host_receive_ns s = Some r" "facts_valid p"
      "pv_forced_invalid_reason s = None" "\<not> pv_stale s now" "ps_latest st = Some p"
      "ps_sample_age_ns st = pv_age s now" "ps_invalid_reason st = None"
    by (cases "pv_latest s"; cases "pv_host_receive_ns s")
       (auto simp: pv_snapshot_def Let_def pv_stale_def invalid_reason_def facts_valid_def split: if_split_asm)
  from v(1,2,5) run new(2) have "r \<le> now" "now - r \<le> stale" "pv_age s now = Some (now - r)"
    by (auto simp: pv_stale_def pv_age_def)
  moreover from run v have "clear_since (new_provider stale pause) cs p r" by simp
  ultimately show thesis using that v assms(1) by (auto simp: clear_since_def)
qed

theorem provider_valid_sound_witness:
  "\<exists>r before after. demo_calls = before @ PvUpdate (demo_ctrl 7 3 120 (Fin 0) (Fin 0)) r # after"
proof -
  define r where "r = pv_run (new_provider 250 250) demo_calls"
  have run: "pv_run (new_provider 250 250) demo_calls = (fst r, snd r)" by (simp add: r_def)
  have "(case pv_snapshot (fst (pv_run (new_provider 250 250) demo_calls)) 1100 of Inl e \<Rightarrow> False
      | Inr (s', st) \<Rightarrow> ps_controller_valid st \<and> ps_latest st = Some (demo_ctrl 7 3 120 (Fin 0) (Fin 0)))"
    by code_simp
  then obtain s' st where sn: "pv_snapshot (fst r) 1100 = Inr (s', st)" and v: "ps_controller_valid st"
      "ps_latest st = Some (demo_ctrl 7 3 120 (Fin 0) (Fin 0))"
    by (auto simp: r_def split: sum.split_asm)
  show ?thesis
    by (rule provider_valid_sound[OF run sn v(1)]) (use v(2) in auto)
qed

text \<open>A fault never blocks the provider for good: whatever was latched, a packet with valid facts that
  moves its session forward, or opens a session not retired before, makes the controller valid at once.\<close>

theorem provider_recovers:
  assumes "pv_reachable s" and "0 \<le> ns" and "facts_valid p" and "0 \<le> pv_stale_after_ns s"
    and "cp_session_id p \<notin> pv_retired_sessions s"
    and "\<And>l. pv_latest s = Some l \<Longrightarrow> cp_session_id p = cp_session_id l \<Longrightarrow>
           cp_sequence_number l < cp_sequence_number p"
  obtains s' st where "pv_update s p ns = Inr (s', st)" and "ps_controller_valid st"
    and "ps_latest st = Some p" and "ps_invalid_reason st = None" and "ps_sample_age_ns st = Some 0"
proof -
  have inv: "pv_session_inv s" using pv_reachable_inv[OF assms(1)] by (simp add: pv_inv_def)
  from pv_update_core_total[OF inv] obtain u where u: "pv_update_core s p ns = Inr u" by blast
  have "pv_latest u = Some p \<and> pv_host_receive_ns u = Some ns \<and> pv_forced_invalid_reason u = None
      \<and> pv_stale_after_ns u = pv_stale_after_ns s"
    using inv u
  proof (cases rule: pv_update_core_cases)
    case (duplicate l) with assms(6)[of l] show ?thesis by simp
  next
    case (reorder l) with assms(6)[of l] show ?thesis by simp
  qed (use assms(5) in \<open>simp_all add: pv_arrive_def pv_forward_def Let_def\<close>)
  with u assms(2-4) show thesis
    by (intro that[of "fst (case pv_snapshot u ns of Inr x \<Rightarrow> x)" "snd (case pv_snapshot u ns of Inr x \<Rightarrow> x)"])
       (simp_all add: pv_update_def pv_snapshot_def pv_stale_def pv_age_def invalid_reason_def facts_valid_def Let_def)
qed

theorem provider_recovers_witness:
  "\<exists>s' st. pv_update (new_provider 1000000000 1000000000) (demo_ctrl 7 1 100 (Fin 0) (Fin 0)) 5 = Inr (s', st)
     \<and> ps_controller_valid st"
proof -
  have ns: "seconds_to_ns (Fin 1) = Inr 1000000000"
    using seconds_to_ns_exact[of 1 1000000000] by simp
  have "mk_provider (Fin 1) (Fin 1) = Inr (new_provider 1000000000 1000000000)"
    by (simp add: mk_provider_def positive_seconds_ns_def ns)
  then have r: "pv_reachable (new_provider 1000000000 1000000000)" by (rule pv_reachable.start)
  show ?thesis
    by (rule provider_recovers[OF r, of 5 "demo_ctrl 7 1 100 (Fin 0) (Fin 0)"])
       (auto simp: new_provider_def demo_ctrl_def facts_valid_def)
qed

text \<open>Every packet is counted exactly once: accepted, duplicate, reordered or of a retired session;
  each session change retires exactly one session.\<close>

theorem provider_counts:
  assumes "pv_reachable s"
  shows "pv_packet_count s = pv_accepted_count s + pv_duplicate_count s + pv_reorder_count s
        + pv_old_session_packet_count s
    \<and> pv_session_count s = (if pv_latest s = None then 0 else pv_new_session_count s + 1)
    \<and> card (pv_retired_sessions s) = pv_new_session_count s
    \<and> pv_current_session s = map_option cp_session_id (pv_latest s)
    \<and> (\<forall>c \<in> set_option (pv_current_session s). c \<notin> pv_retired_sessions s)
    \<and> int (pv_gap_event_count s) \<le> pv_missing_sequence_count s"
  using pv_reachable_inv[OF assms] by (auto simp: pv_inv_def pv_session_inv_def pv_count_inv_def)

theorem provider_counts_witness:
  "card (pv_retired_sessions (new_provider 1000000000 1000000000)) = 0"
proof -
  have ns: "seconds_to_ns (Fin 1) = Inr 1000000000"
    using seconds_to_ns_exact[of 1 1000000000] by simp
  have "mk_provider (Fin 1) (Fin 1) = Inr (new_provider 1000000000 1000000000)"
    by (simp add: mk_provider_def positive_seconds_ns_def ns)
  then have r: "pv_reachable (new_provider 1000000000 1000000000)" by (rule pv_reachable.start)
  show ?thesis using provider_counts[OF r] by (simp add: new_provider_def)
qed

end
