(* ===== verification/TransportClutch.thy ===== *)
theory TransportClutch
  imports CtrlProvider
begin

text \<open>
  From controller snapshots to the two clutch channels, in
  \<open>src/motion_input/controller_provider.py\<close>: \<open>ControllerClutchAdapter\<close> blocks both samples after any
  fault or session change until one packet shows both triggers released, and
  \<open>TransportClutchMonitor\<close> runs one hysteresis per channel over the frames.
\<close>

section \<open>State and frames\<close>

record clutch_frame =
  fr_index :: analog_sample
  fr_grip :: analog_sample
  fr_controller_valid :: bool
  fr_shared_release_required :: bool
  fr_provider_name :: string

record clutch_snapshot =
  sn_arm_engaged :: bool
  sn_hand_engaged :: bool
  sn_arm_release_required :: bool
  sn_hand_release_required :: bool
  sn_arm_rising_edge :: bool
  sn_arm_falling_edge :: bool
  sn_hand_rising_edge :: bool
  sn_hand_falling_edge :: bool

record clutch_adapter =
  ca_released_at :: pyfloat
  ca_shared_release_required :: bool
  ca_session_id :: "int option"

record clutch_monitor =
  tm_arm :: hold_to_run
  tm_hand :: hold_to_run
  tm_invalid_latched :: bool

definition mk_clutch_adapter :: "pyfloat \<Rightarrow> (clutch_error, clutch_adapter) res" where
  "mk_clutch_adapter released_at =
     (if \<not> (fle (Fin 0) released_at \<and> flt released_at (Fin 1)) then Inl BadThresholds
      else Inr \<lparr>ca_released_at = released_at, ca_shared_release_required = True, ca_session_id = None\<rparr>)"

definition mk_clutch_monitor :: "pyfloat \<Rightarrow> pyfloat \<Rightarrow> (clutch_error, clutch_monitor) res" where
  "mk_clutch_monitor pressed_at released_at =
     rbind (mk_hold_to_run pressed_at released_at) (\<lambda>arm.
     rbind (mk_hold_to_run pressed_at released_at) (\<lambda>hand.
     Inr \<lparr>tm_arm = arm, tm_hand = hand, tm_invalid_latched = False\<rparr>))"

section \<open>Operations\<close>

text \<open>\<open>samples\<close>: the adapter's flags are written before a sample constructor may raise.\<close>

definition ca_track :: "clutch_adapter \<Rightarrow> controller_packet \<Rightarrow> bool \<Rightarrow> clutch_adapter" where
  "ca_track a0 packet controller_valid =
     (let a = (if Some (cp_session_id packet) \<noteq> ca_session_id a0
               then a0\<lparr>ca_session_id := Some (cp_session_id packet), ca_shared_release_required := True\<rparr>
               else a0)
      in if \<not> controller_valid then a\<lparr>ca_shared_release_required := True\<rparr>
         else if ca_shared_release_required a
              \<and> fle (cp_index_trigger packet) (ca_released_at a)
              \<and> fle (cp_grip_trigger packet) (ca_released_at a)
         then a\<lparr>ca_shared_release_required := False\<rparr>
         else a)"

definition ca_samples ::
  "clutch_adapter \<Rightarrow> provider_snapshot \<Rightarrow> clutch_adapter \<times> (clutch_error, clutch_frame) res" where
  "ca_samples a0 st =
     (case (ps_latest st, ps_host_receive_ns st) of
        (Some packet, Some receive_ns) \<Rightarrow>
          let a = ca_track a0 packet (ps_controller_valid st);
              sample_valid = (ps_controller_valid st \<and> \<not> ca_shared_release_required a)
          in (a,
              rbind (mk_analog_sample (cp_index_trigger packet) receive_ns (cp_sequence_number packet)
                       sample_valid (Some (cp_source_timestamp_ns packet))) (\<lambda>index.
              rbind (mk_analog_sample (cp_grip_trigger packet) receive_ns (cp_sequence_number packet)
                       sample_valid (Some (cp_source_timestamp_ns packet))) (\<lambda>grip.
              Inr \<lparr>fr_index = index, fr_grip = grip, fr_controller_valid = ps_controller_valid st,
                   fr_shared_release_required = ca_shared_release_required a,
                   fr_provider_name = ''quest_ctrl_udp_v1''\<rparr>)))
      | _ \<Rightarrow>
          let a = a0\<lparr>ca_shared_release_required := True\<rparr>
          in (a,
              rbind (mk_analog_sample (Fin 0) 0 0 False None) (\<lambda>invalid.
              Inr \<lparr>fr_index = invalid, fr_grip = invalid, fr_controller_valid = False,
                   fr_shared_release_required = ca_shared_release_required a,
                   fr_provider_name = ''quest_ctrl_udp_v1''\<rparr>)))"

definition transport_snapshot :: "observation \<Rightarrow> observation \<Rightarrow> bool \<Rightarrow> clutch_snapshot" where
  "transport_snapshot arm hand shared_release_required =
     \<lparr>sn_arm_engaged = (obs_pressed arm = Some True \<and> obs_released_observed arm),
      sn_hand_engaged = (obs_pressed hand = Some True \<and> obs_released_observed hand),
      sn_arm_release_required = (shared_release_required \<or> \<not> obs_released_observed arm),
      sn_hand_release_required = (shared_release_required \<or> \<not> obs_released_observed hand),
      sn_arm_rising_edge = obs_rising arm, sn_arm_falling_edge = obs_falling arm,
      sn_hand_rising_edge = obs_rising hand, sn_hand_falling_edge = obs_falling hand\<rparr>"

definition inputs_valid :: "clutch_frame \<Rightarrow> bool" where
  "inputs_valid frame \<longleftrightarrow> fr_controller_valid frame \<and> \<not> fr_shared_release_required frame"

definition tm_latch :: "clutch_monitor \<Rightarrow> bool \<Rightarrow> clutch_monitor" where
  "tm_latch m0 valid =
     (let m = (if \<not> valid \<and> \<not> tm_invalid_latched m0
               then m0\<lparr>tm_arm := htr_require_release (tm_arm m0),
                       tm_hand := htr_require_release (tm_hand m0), tm_invalid_latched := True\<rparr>
               else m0)
      in if valid then m\<lparr>tm_invalid_latched := False\<rparr> else m)"

definition tm_update :: "clutch_monitor \<Rightarrow> clutch_frame \<Rightarrow> int \<Rightarrow> int \<Rightarrow> clutch_monitor \<times> clutch_snapshot" where
  "tm_update m0 frame now_ns stale_after_ns =
     (let m = tm_latch m0 (inputs_valid frame);
          (arm, arm_obs) = htr_observe (tm_arm m) (fr_index frame)
             (inputs_valid frame \<and> sample_fresh (fr_index frame) now_ns stale_after_ns);
          (hand, hand_obs) = htr_observe (tm_hand m) (fr_grip frame)
             (inputs_valid frame \<and> sample_fresh (fr_grip frame) now_ns stale_after_ns)
      in (m\<lparr>tm_arm := arm, tm_hand := hand\<rparr>,
          transport_snapshot arm_obs hand_obs (fr_shared_release_required frame)))"

section \<open>Runs\<close>

text \<open>The gate feeds every provider snapshot through the adapter and then the monitor.\<close>

type_synonym clutch_pipeline = "clutch_adapter \<times> clutch_monitor"

definition pipeline_step ::
  "int \<Rightarrow> clutch_pipeline \<Rightarrow> provider_snapshot \<times> int \<Rightarrow> clutch_pipeline \<times> (clutch_error, clutch_snapshot) res" where
  "pipeline_step stale_after_ns am x =
     (let (a, fr) = ca_samples (fst am) (fst x) in
      case fr of
        Inl e \<Rightarrow> ((a, snd am), Inl e)
      | Inr frame \<Rightarrow>
          let (m, snap) = tm_update (snd am) frame (snd x) stale_after_ns in ((a, m), Inr snap))"

fun pipeline_run :: "int \<Rightarrow> clutch_pipeline \<Rightarrow> (provider_snapshot \<times> int) list \<Rightarrow> clutch_pipeline" where
  "pipeline_run stale am [] = am"
| "pipeline_run stale am (x # xs) = pipeline_run stale (fst (pipeline_step stale am x)) xs"

lemma pipeline_run_snoc [simp]:
  "pipeline_run stale am (xs @ [x]) = fst (pipeline_step stale (pipeline_run stale am xs) x)"
  by (induction xs arbitrary: am) simp_all

section \<open>Joint release\<close>

text \<open>A snapshot with a valid controller and both triggers at or below the release threshold, and a valid
  snapshot of a session.\<close>

definition joint_release :: "pyfloat \<Rightarrow> int \<Rightarrow> provider_snapshot \<Rightarrow> bool" where
  "joint_release thr session st \<longleftrightarrow> ps_controller_valid st \<and>
     (case ps_latest st of None \<Rightarrow> False | Some p \<Rightarrow>
        cp_session_id p = session \<and> fle (cp_index_trigger p) thr \<and> fle (cp_grip_trigger p) thr)"

definition valid_in :: "int \<Rightarrow> provider_snapshot \<Rightarrow> bool" where
  "valid_in session st \<longleftrightarrow> ps_controller_valid st \<and>
     (case ps_latest st of None \<Rightarrow> False | Some p \<Rightarrow> cp_session_id p = session)"

definition released_since :: "pyfloat \<Rightarrow> int \<Rightarrow> (provider_snapshot \<times> int) list \<Rightarrow> bool" where
  "released_since thr session xs \<longleftrightarrow>
     (\<exists>before y after. xs = before @ y # after \<and> joint_release thr session (fst y)
        \<and> list_all (\<lambda>z. valid_in session (fst z)) after)"

lemma released_since_snoc_release: "joint_release thr session (fst x) \<Longrightarrow> released_since thr session (xs @ [x])"
  unfolding released_since_def by (rule exI[of _ xs], rule exI[of _ x], rule exI[of _ "[]"]) simp

lemma released_since_snoc_valid:
  assumes "released_since thr session xs" "valid_in session (fst x)"
  shows "released_since thr session (xs @ [x])"
proof -
  from assms(1) obtain b y a where "xs = b @ y # a" "joint_release thr session (fst y)"
    "list_all (\<lambda>z. valid_in session (fst z)) a" by (auto simp: released_since_def)
  with assms(2) show ?thesis
    unfolding released_since_def by (intro exI[of _ b] exI[of _ y] exI[of _ "a @ [x]"]) simp
qed

text \<open>The adapter is open only after such a release in its own session.\<close>

definition adapter_open_after :: "pyfloat \<Rightarrow> clutch_adapter \<Rightarrow> (provider_snapshot \<times> int) list \<Rightarrow> bool" where
  "adapter_open_after thr a xs \<longleftrightarrow> ca_released_at a = thr \<and>
     (\<not> ca_shared_release_required a \<longrightarrow>
        (\<exists>session. ca_session_id a = Some session \<and> released_since thr session xs))"

lemma ca_track_cases:
  assumes "\<not> ca_shared_release_required (ca_track a p valid)"
  shows "valid \<and> ca_session_id (ca_track a p valid) = Some (cp_session_id p)
     \<and> (\<not> ca_shared_release_required a \<and> ca_session_id a = Some (cp_session_id p)
        \<or> fle (cp_index_trigger p) (ca_released_at a) \<and> fle (cp_grip_trigger p) (ca_released_at a))"
  using assms by (auto simp: ca_track_def Let_def split: if_split_asm)

lemma ca_track_released_at [simp]: "ca_released_at (ca_track a p valid) = ca_released_at a"
  by (simp add: ca_track_def Let_def)

lemma ca_samples_adapter:
  "fst (ca_samples a st) =
     (case (ps_latest st, ps_host_receive_ns st) of
        (Some packet, Some receive_ns) \<Rightarrow> ca_track a packet (ps_controller_valid st)
      | _ \<Rightarrow> a\<lparr>ca_shared_release_required := True\<rparr>)"
  by (auto simp: ca_samples_def Let_def split: option.split)

lemma adapter_open_after_step:
  assumes "adapter_open_after thr a xs"
  shows "adapter_open_after thr (fst (ca_samples a (fst x))) (xs @ [x])"
proof (cases "ps_latest (fst x)")
  case None
  then show ?thesis using assms by (simp add: ca_samples_adapter adapter_open_after_def)
next
  case (Some p)
  show ?thesis
  proof (cases "ps_host_receive_ns (fst x)")
    case None
    then show ?thesis using assms Some by (simp add: ca_samples_adapter adapter_open_after_def)
  next
    case (Some r)
    let ?a = "ca_track a p (ps_controller_valid (fst x))"
    have fst: "fst (ca_samples a (fst x)) = ?a" using Some \<open>ps_latest (fst x) = Some p\<close>
      by (simp add: ca_samples_adapter)
    have "\<exists>session. ca_session_id ?a = Some session \<and> released_since thr session (xs @ [x])"
      if "\<not> ca_shared_release_required ?a"
    proof -
      note c = ca_track_cases[OF that]
      have "released_since thr (cp_session_id p) (xs @ [x])"
      proof (cases "\<not> ca_shared_release_required a \<and> ca_session_id a = Some (cp_session_id p)")
        case True
        then show ?thesis using assms c \<open>ps_latest (fst x) = Some p\<close>
          by (intro released_since_snoc_valid) (auto simp: adapter_open_after_def valid_in_def)
      next
        case False
        then show ?thesis using assms c \<open>ps_latest (fst x) = Some p\<close>
          by (intro released_since_snoc_release) (auto simp: adapter_open_after_def joint_release_def)
      qed
      with c show ?thesis by blast
    qed
    then show ?thesis using assms by (simp add: fst adapter_open_after_def)
  qed
qed

lemma pipeline_step_adapter [simp]: "fst (fst (pipeline_step stale am x)) = fst (ca_samples (fst am) (fst x))"
  by (simp add: pipeline_step_def Let_def split: prod.split sum.split)

lemma adapter_open_after_run:
  assumes "ca_shared_release_required a" "ca_released_at a = thr"
  shows "adapter_open_after thr (fst (pipeline_run stale (a, m) xs)) xs"
proof (induction xs rule: rev_induct)
  case Nil
  then show ?case using assms by (simp add: adapter_open_after_def)
next
  case (snoc x xs)
  then show ?case using adapter_open_after_step by simp
qed

section \<open>The monitor\<close>

text \<open>While the inputs are invalid neither channel is pressed or armed.\<close>

definition channel_idle :: "hold_to_run \<Rightarrow> bool" where
  "channel_idle h \<longleftrightarrow> htr_pressed h = None \<and> \<not> htr_released_observed h"

definition tm_inv :: "clutch_monitor \<Rightarrow> bool" where
  "tm_inv m \<longleftrightarrow> (tm_invalid_latched m \<longrightarrow> channel_idle (tm_arm m) \<and> channel_idle (tm_hand m))"

lemma channel_idle_release [simp]: "channel_idle (htr_require_release h)"
  by (simp add: channel_idle_def htr_require_release_def)

lemma tm_latch_inv:
  "tm_inv m \<Longrightarrow> (\<not> v \<longrightarrow> channel_idle (tm_arm (tm_latch m v)) \<and> channel_idle (tm_hand (tm_latch m v)))
     \<and> tm_invalid_latched (tm_latch m v) = (\<not> v)"
  by (auto simp: tm_latch_def tm_inv_def Let_def)

lemma tm_update_inv:
  assumes "tm_inv m"
  shows "tm_inv (fst (tm_update m fr now stale))"
  using tm_latch_inv[OF assms, of "inputs_valid fr"]
  by (cases "inputs_valid fr") (auto simp: tm_update_def tm_inv_def Let_def clutch_simps split: prod.split)

lemma tm_update_engaged_valid:
  assumes "tm_inv m" and "sn_arm_engaged (snd (tm_update m fr now stale)) \<or> sn_hand_engaged (snd (tm_update m fr now stale))"
  shows "inputs_valid fr"
  using tm_latch_inv[OF assms(1), of "inputs_valid fr"] assms(2)
  by (cases "inputs_valid fr")
     (auto simp: tm_update_def transport_snapshot_def channel_idle_def Let_def clutch_simps)

lemma pipeline_step_monitor:
  "tm_inv (snd am) \<Longrightarrow> tm_inv (snd (fst (pipeline_step stale am x)))"
  using tm_update_inv by (auto simp: pipeline_step_def Let_def split: prod.split sum.split) (metis fst_conv)

lemma pipeline_run_monitor: "tm_inv m \<Longrightarrow> tm_inv (snd (pipeline_run stale (a, m) xs))"
  by (induction xs rule: rev_induct) (simp_all add: pipeline_step_monitor)

lemma pipeline_step_frame:
  assumes "snd (pipeline_step stale am x) = Inr snap"
  obtains frame where "snd (ca_samples (fst am) (fst x)) = Inr frame"
    and "snap = snd (tm_update (snd am) frame (snd x) stale)"
  using assms by (auto simp: pipeline_step_def Let_def split: prod.split_asm sum.split_asm)

lemma ca_samples_valid_frame:
  assumes "snd (ca_samples a st) = Inr frame" and "inputs_valid frame"
  shows "\<not> ca_shared_release_required (fst (ca_samples a st)) \<and> (\<exists>p. ps_latest st = Some p \<and>
     ca_session_id (fst (ca_samples a st)) = Some (cp_session_id p))"
  using assms
  by (auto simp: ca_samples_def inputs_valid_def Let_def ca_track_cases split: option.split_asm)

text \<open>C5. If a channel is reported engaged, then the controller was valid and of one session from some
  earlier snapshot on, and at that snapshot both triggers were at or below the release threshold: after
  a fault, a stale sample or a session change neither channel engages before a joint release.\<close>

theorem transport_engaged_needs_joint_release:
  assumes "mk_clutch_adapter thr = Inr a" and "mk_clutch_monitor pressed_at released_at = Inr m"
    and "snd (pipeline_step stale (pipeline_run stale (a, m) xs) x) = Inr snap"
    and "sn_arm_engaged snap \<or> sn_hand_engaged snap"
  shows "\<exists>p. ps_latest (fst x) = Some p \<and> ps_controller_valid (fst x)
     \<and> released_since thr (cp_session_id p) (xs @ [x])"
proof -
  let ?am = "pipeline_run stale (a, m) xs"
  have a: "ca_shared_release_required a" "ca_released_at a = thr"
    using assms(1) by (auto simp: mk_clutch_adapter_def split: if_split_asm)
  have m: "tm_inv (snd ?am)"
    by (rule pipeline_run_monitor) (use assms(2) in \<open>auto simp: mk_clutch_monitor_def tm_inv_def\<close>)
  obtain frame where f: "snd (ca_samples (fst ?am) (fst x)) = Inr frame"
      "snap = snd (tm_update (snd ?am) frame (snd x) stale)"
    using pipeline_step_frame[OF assms(3)] .
  have v: "inputs_valid frame" using tm_update_engaged_valid[OF m] assms(4) f(2) by blast
  note s = ca_samples_valid_frame[OF f(1) v]
  have "adapter_open_after thr (fst (pipeline_run stale (a, m) (xs @ [x]))) (xs @ [x])"
    using adapter_open_after_run[OF a] .
  with s obtain p where p: "ps_latest (fst x) = Some p" "released_since thr (cp_session_id p) (xs @ [x])"
    by (auto simp: adapter_open_after_def)
  then have "ps_controller_valid (fst x)"
    by (auto simp: released_since_def joint_release_def valid_in_def append_eq_append_conv2 Cons_eq_append_conv
        append_eq_Cons_conv split: option.split_asm)
  with p show ?thesis by blast
qed

definition demo_snapshot :: "int \<Rightarrow> int \<Rightarrow> pyfloat \<Rightarrow> pyfloat \<Rightarrow> provider_snapshot" where
  "demo_snapshot sq ns i g =
     \<lparr>ps_latest = Some (demo_ctrl 7 sq ns i g), ps_host_receive_ns = Some ns, ps_sample_age_ns = Some 0,
      ps_stale = False, ps_controller_valid = True, ps_invalid_reason = None, ps_active_fault = ''none'',
      ps_provider = new_provider 250 250\<rparr>"

theorem transport_engaged_needs_joint_release_witness:
  "released_since (Fin (1 / 2)) 7
     ([(demo_snapshot 1 10 (Fin 0) (Fin 0), 10)] @ [(demo_snapshot 2 20 (Fin 1) (Fin 0), 20)])"
proof -
  define a where "a = \<lparr>ca_released_at = Fin (1 / 2), ca_shared_release_required = True, ca_session_id = None\<rparr>"
  define h where "h = \<lparr>htr_pressed_at = Fin (3 / 4), htr_released_at = Fin (1 / 2), htr_pressed = None,
                htr_released_observed = False, htr_last_seq = None\<rparr>"
  define m where "m = \<lparr>tm_arm = h, tm_hand = h, tm_invalid_latched = False\<rparr>"
  define snap where "snap = transport_snapshot
    \<lparr>obs_pressed = Some True, obs_rising = True, obs_falling = False, obs_released_observed = True,
     obs_new_sample = True, obs_valid = True\<rparr>
    \<lparr>obs_pressed = Some False, obs_rising = False, obs_falling = False, obs_released_observed = True,
     obs_new_sample = True, obs_valid = True\<rparr> False"
  have a: "mk_clutch_adapter (Fin (1 / 2)) = Inr a" by (simp add: mk_clutch_adapter_def a_def)
  have m: "mk_clutch_monitor (Fin (3 / 4)) (Fin (1 / 2)) = Inr m"
    by (simp add: mk_clutch_monitor_def mk_hold_to_run_def m_def h_def)
  have s: "snd (pipeline_step 250 (pipeline_run 250 (a, m) [(demo_snapshot 1 10 (Fin 0) (Fin 0), 10)])
      (demo_snapshot 2 20 (Fin 1) (Fin 0), 20)) = Inr snap"
    unfolding snap_def a_def m_def h_def by code_simp
  show ?thesis
    using transport_engaged_needs_joint_release[OF a m s]
    by (simp add: snap_def transport_snapshot_def demo_snapshot_def demo_ctrl_def)
qed

end
