(* ===== verification/HtsProtocol.thy ===== *)
theory HtsProtocol
  imports PyText CtrlProtocol
begin

text \<open>
  The Hand Tracking Streamer text protocol of \<open>src/motion_input/hts_protocol.py\<close>, and the dispatch of
  \<open>parse_quest_transport_datagram\<close>. Two things of the interpreter are parameters: the decimal digit
  values of non-ASCII characters (the Unicode database that \<open>float\<close> consults), and
  \<open>math.sqrt(sum(v * v))\<close>, whose last bit differs between the supported CPython versions because
  \<open>sum\<close> on floats is compensated from 3.12 on.
\<close>

section \<open>Packets\<close>

datatype side = LEFT | RIGHT | NO_SIDE

datatype hts_kind = WRIST | LANDMARKS | HEAD_POSE

datatype hts_error =
    HtsEmptyDatagram | HtsTooLong | HtsNotUtf8 | HtsNoLines | HtsEmptyLine | HtsNoColon
  | HtsEmptyLabel | HtsUnsupportedLabel | HtsBadDebugField | HtsDuplicateSequence
  | HtsDuplicateTimestamp | HtsHeadSide | HtsHandSide | HtsNegativeMetadata
  | HtsEmptyValue | HtsNotFloat | HtsNotFinite | HtsFloatCount | HtsQuaternionNorm | HtsNormalize
  | HtsIntDigitLimit

type_synonym vec3 = "pyfloat \<times> pyfloat \<times> pyfloat"
type_synonym quat = "pyfloat \<times> pyfloat \<times> pyfloat \<times> pyfloat"

record hts_header =
  hd_kind :: hts_kind
  hd_side :: side
  hd_source_sequence :: "int option"
  hd_source_timestamp_ns :: "int option"
  hd_extra_fields :: "(pystr \<times> int) list"

record pose_packet =
  pp_header :: hts_header
  pp_position_m :: vec3
  pp_orientation_xyzw :: quat
  pp_quaternion_norm :: pyfloat

record landmarks_packet =
  lp_header :: hts_header
  lp_positions_wrist_m :: "vec3 list"

datatype hts_packet = WristPacket pose_packet | LandmarksPacket landmarks_packet | HeadPosePacket pose_packet

definition mk_hts_header ::
  "hts_kind \<Rightarrow> side \<Rightarrow> int option \<Rightarrow> int option \<Rightarrow> (pystr \<times> int) list \<Rightarrow> (hts_error, hts_header) res" where
  "mk_hts_header kind side sq ts extras =
     (if kind = HEAD_POSE \<and> side \<noteq> NO_SIDE then Inl HtsHeadSide
      else if kind \<noteq> HEAD_POSE \<and> side \<noteq> LEFT \<and> side \<noteq> RIGHT then Inl HtsHandSide
      else if (case sq of Some v \<Rightarrow> v < 0 | None \<Rightarrow> False) then Inl HtsNegativeMetadata
      else if (case ts of Some v \<Rightarrow> v < 0 | None \<Rightarrow> False) then Inl HtsNegativeMetadata
      else Inr \<lparr>hd_kind = kind, hd_side = side, hd_source_sequence = sq, hd_source_timestamp_ns = ts,
                hd_extra_fields = extras\<rparr>)"

text \<open>What the interpreter contributes.\<close>

record py_env =
  pe_decimal :: "nat \<Rightarrow> nat option"
  pe_norm :: "quat \<Rightarrow> pyfloat"

definition hts_landmark_count :: nat where
  "hts_landmark_count = 21"

definition hts_norm_tolerance :: pyfloat where
  "hts_norm_tolerance = Fin (5764607523034235 / 288230376151711744)"

definition hts_norm_minimum :: pyfloat where
  "hts_norm_minimum = Fin (4951760157141521 / 4951760157141521099596496896)"

section \<open>The text of a float\<close>

text \<open>Non-ASCII characters: a space becomes a space, a decimal digit that digit, the rest a question mark.\<close>

definition ascii_char :: "py_env \<Rightarrow> nat \<Rightarrow> nat" where
  "ascii_char env c =
     (if c < 128 then c else if is_space c then 32
      else case pe_decimal env c of Some d \<Rightarrow> 48 + d | None \<Rightarrow> 63)"

text \<open>Underscores are allowed between two digits only.\<close>

fun drop_underscores :: "nat \<Rightarrow> pystr \<Rightarrow> pystr option" where
  "drop_underscores prev [] = (if prev = 95 then None else Some [])"
| "drop_underscores prev (c # cs) =
     (if c = 95 then (if is_digit prev then drop_underscores 95 cs else None)
      else if prev = 95 \<and> \<not> is_digit c then None
      else map_option ((#) c) (drop_underscores c cs))"

definition ascii_lower :: "pystr \<Rightarrow> pystr" where
  "ascii_lower s = map (\<lambda>c. if 65 \<le> c \<and> c \<le> 90 then c + 32 else c) s"

definition unsigned_float :: "pystr \<Rightarrow> (bool \<Rightarrow> pyfloat) option" where
  "unsigned_float s =
     (if ascii_lower s = lit ''inf'' \<or> ascii_lower s = lit ''infinity''
      then Some (\<lambda>neg. if neg then NegInf else PosInf)
      else if ascii_lower s = lit ''nan'' then Some (\<lambda>neg. NaN)
      else case decimal_value s of
        None \<Rightarrow> None
      | Some r \<Rightarrow> Some (\<lambda>neg. round64 (if neg then - r else r)))"

definition py_float :: "py_env \<Rightarrow> pystr \<Rightarrow> pyfloat option" where
  "py_float env s =
     (case drop_underscores 0 (map (ascii_char env) s) of
        None \<Rightarrow> None
      | Some t \<Rightarrow>
          let neg = (t \<noteq> [] \<and> hd t = 45); body = (if t \<noteq> [] \<and> (hd t = 45 \<or> hd t = 43) then tl t else t)
          in map_option (\<lambda>f. f neg) (unsigned_float body))"

section \<open>Headers\<close>

definition is_name_char :: "nat \<Rightarrow> bool" where
  "is_name_char c \<longleftrightarrow> 65 \<le> c \<and> c \<le> 90 \<or> 97 \<le> c \<and> c \<le> 122 \<or> c = 95"

text \<open>\<open>_DEBUG_FIELD.fullmatch\<close>: the name and the digits.\<close>

definition match_debug_field :: "pystr \<Rightarrow> (pystr \<times> pystr) option" where
  "match_debug_field item =
     (let name = takeWhile is_name_char item;
          rest = dropWhile is_space (dropWhile is_name_char item)
      in if name \<noteq> [] \<and> rest \<noteq> [] \<and> hd rest = 61 then
           (let ds = dropWhile is_space (tl rest) in if is_uint_text ds then Some (name, ds) else None)
         else None)"

definition hts_label :: "pystr \<Rightarrow> (hts_kind \<times> side) option" where
  "hts_label label =
     (if label = lit ''Left wrist'' then Some (WRIST, LEFT)
      else if label = lit ''Right wrist'' then Some (WRIST, RIGHT)
      else if label = lit ''Left landmarks'' then Some (LANDMARKS, LEFT)
      else if label = lit ''Right landmarks'' then Some (LANDMARKS, RIGHT)
      else if label = lit ''Head pose'' then Some (HEAD_POSE, NO_SIDE)
      else None)"

fun parse_debug_fields ::
  "pystr list \<Rightarrow> int option \<Rightarrow> int option \<Rightarrow> (pystr \<times> int) list \<Rightarrow>
   (hts_error, int option \<times> int option \<times> (pystr \<times> int) list) res" where
  "parse_debug_fields [] sq ts extras = Inr (sq, ts, extras)"
| "parse_debug_fields (item # items) sq ts extras =
     (case match_debug_field item of
        None \<Rightarrow> Inl HtsBadDebugField
      | Some (name, ds) \<Rightarrow>
          let key = ascii_lower name in
          case py_int_of_digits ds of
            None \<Rightarrow> Inl HtsIntDigitLimit
          | Some number \<Rightarrow>
              if key = lit ''f'' \<or> key = lit ''frame'' \<or> key = lit ''frame_id'' then
                (if sq \<noteq> None then Inl HtsDuplicateSequence
                 else parse_debug_fields items (Some number) ts extras)
              else if key = lit ''t'' \<or> key = lit ''ts'' \<or> key = lit ''timestamp'' then
                (if ts \<noteq> None then Inl HtsDuplicateTimestamp
                 else parse_debug_fields items sq (Some number) extras)
              else parse_debug_fields items sq ts (dict_set key number extras))"

definition parse_header :: "pystr \<Rightarrow> (hts_error, hts_header) res" where
  "parse_header value =
     (let parts = map strip (split_on 124 value) in
      if hd parts = [] then Inl HtsEmptyLabel
      else case hts_label (hd parts) of
        None \<Rightarrow> Inl HtsUnsupportedLabel
      | Some (kind, side) \<Rightarrow>
          rbind (parse_debug_fields (tl parts) None None []) (\<lambda>(sq, ts, extras).
          mk_hts_header kind side sq ts extras))"

section \<open>Values and lines\<close>

definition trim_empty :: "pystr list \<Rightarrow> pystr list" where
  "trim_empty chunks = rev (dropWhile (\<lambda>c. c = []) (rev (dropWhile (\<lambda>c. c = []) chunks)))"

definition parse_finite_floats :: "py_env \<Rightarrow> pystr \<Rightarrow> (hts_error, pyfloat list) res" where
  "parse_finite_floats env payload =
     (let chunks = trim_empty (map strip (split_on 44 payload)) in
      if chunks = [] \<or> list_ex (\<lambda>c. c = []) chunks then Inl HtsEmptyValue
      else rbind (rmap (\<lambda>c. case py_float env c of None \<Rightarrow> Inl HtsNotFloat | Some v \<Rightarrow> Inr v) chunks)
             (\<lambda>values. if list_all is_finite values then Inr values else Inl HtsNotFinite))"

fun quat_list :: "quat \<Rightarrow> pyfloat list" where
  "quat_list (a, b, c, d) = [a, b, c, d]"

fun vec_list :: "vec3 \<Rightarrow> pyfloat list" where
  "vec_list (a, b, c) = [a, b, c]"

definition quaternion_norm :: "py_env \<Rightarrow> quat \<Rightarrow> (hts_error, pyfloat) res" where
  "quaternion_norm env q =
     (if \<not> list_all is_finite (quat_list q) then Inl HtsNotFinite else Inr (pe_norm env q))"

definition norm_accepted :: "pyfloat \<Rightarrow> bool" where
  "norm_accepted qn \<longleftrightarrow>
     \<not> (fle qn hts_norm_minimum \<or> flt hts_norm_tolerance (fabs (fsub qn (Fin 1))))"

definition normalize_quaternion :: "py_env \<Rightarrow> quat \<Rightarrow> (hts_error, quat) res" where
  "normalize_quaternion env q =
     rbind (quaternion_norm env q) (\<lambda>norm.
     if fle norm hts_norm_minimum \<or> \<not> is_finite norm then Inl HtsNormalize
     else case q of (a, b, c, d) \<Rightarrow> Inr (fdiv a norm, fdiv b norm, fdiv c norm, fdiv d norm))"

fun triples :: "pyfloat list \<Rightarrow> vec3 list" where
  "triples (a # b # c # vs) = (a, b, c) # triples vs"
| "triples _ = []"

definition parse_hts_line :: "py_env \<Rightarrow> pystr \<Rightarrow> (hts_error, hts_packet) res" where
  "parse_hts_line env line =
     (let stripped = strip line in
      if stripped = [] then Inl HtsEmptyLine
      else case partition_at 58 stripped of (label, sep, payload) \<Rightarrow>
      if \<not> sep then Inl HtsNoColon
      else
      rbind (parse_header label) (\<lambda>header.
      rbind (parse_finite_floats env payload) (\<lambda>values.
      if hd_kind header = WRIST \<or> hd_kind header = HEAD_POSE then
        (if length values \<noteq> 7 then Inl HtsFloatCount
         else
         let position = (values ! 0, values ! 1, values ! 2);
             quaternion = (values ! 3, values ! 4, values ! 5, values ! 6)
         in rbind (quaternion_norm env quaternion) (\<lambda>norm.
            if \<not> norm_accepted norm then Inl HtsQuaternionNorm
            else
              let packet = \<lparr>pp_header = header, pp_position_m = position,
                            pp_orientation_xyzw = quaternion, pp_quaternion_norm = norm\<rparr>
              in Inr (if hd_kind header = WRIST then WristPacket packet else HeadPosePacket packet)))
      else if length values \<noteq> hts_landmark_count * 3 then Inl HtsFloatCount
      else Inr (LandmarksPacket \<lparr>lp_header = header, lp_positions_wrist_m = triples values\<rparr>))))"

text \<open>The lines of a datagram that carry something, and those that are not the controller extension's.\<close>

definition hts_lines :: "pystr \<Rightarrow> pystr list" where
  "hts_lines s = filter (\<lambda>l. l \<noteq> []) (map strip (splitlines s))"

definition hand_head_lines :: "pystr \<Rightarrow> pystr list" where
  "hand_head_lines s = filter (\<lambda>l. \<not> starts_with (lit ''CTRL,'') l) (hts_lines s)"

definition parse_hts_datagram :: "py_env \<Rightarrow> bytes \<Rightarrow> (hts_error, hts_packet list) res" where
  "parse_hts_datagram env payload =
     (if payload = [] then Inl HtsEmptyDatagram
      else if hts_max_datagram_bytes < length payload then Inl HtsTooLong
      else case utf8_decode payload of
        None \<Rightarrow> Inl HtsNotUtf8
      | Some s \<Rightarrow>
          if hts_lines s = [] then Inl HtsNoLines
          else rmap (parse_hts_line env) (hand_head_lines s))"

section \<open>Dispatch\<close>

datatype quest_packet = ControllerDatagram controller_packet | HandHeadDatagram "hts_packet list"

definition parse_quest_datagram :: "py_env \<Rightarrow> bytes \<Rightarrow> (ctrl_error + hts_error, quest_packet) res" where
  "parse_quest_datagram env payload =
     (if starts_with (lit_bytes ''CTRL,'') payload then
        (case parse_controller_datagram hts_max_datagram_bytes payload of
           Inl e \<Rightarrow> Inl (Inl e) | Inr p \<Rightarrow> Inr (ControllerDatagram p))
      else
        (case parse_hts_datagram env payload of
           Inl e \<Rightarrow> Inl (Inr e) | Inr ps \<Rightarrow> Inr (HandHeadDatagram ps)))"

section \<open>What a parsed packet satisfies\<close>

fun packet_header :: "hts_packet \<Rightarrow> hts_header" where
  "packet_header (WristPacket p) = pp_header p"
| "packet_header (LandmarksPacket p) = lp_header p"
| "packet_header (HeadPosePacket p) = pp_header p"

definition header_ok :: "hts_header \<Rightarrow> bool" where
  "header_ok h \<longleftrightarrow> (hd_kind h = HEAD_POSE \<longleftrightarrow> hd_side h = NO_SIDE)
     \<and> (\<forall>v \<in> set_option (hd_source_sequence h) \<union> set_option (hd_source_timestamp_ns h). 0 \<le> v)"

definition pose_ok :: "py_env \<Rightarrow> pose_packet \<Rightarrow> bool" where
  "pose_ok env p \<longleftrightarrow> list_all is_finite (vec_list (pp_position_m p))
     \<and> list_all is_finite (quat_list (pp_orientation_xyzw p))
     \<and> pp_quaternion_norm p = pe_norm env (pp_orientation_xyzw p) \<and> norm_accepted (pp_quaternion_norm p)"

fun packet_ok :: "py_env \<Rightarrow> hts_packet \<Rightarrow> bool" where
  "packet_ok env (WristPacket p) \<longleftrightarrow> header_ok (pp_header p) \<and> hd_kind (pp_header p) = WRIST \<and> pose_ok env p"
| "packet_ok env (HeadPosePacket p) \<longleftrightarrow> header_ok (pp_header p) \<and> hd_kind (pp_header p) = HEAD_POSE \<and> pose_ok env p"
| "packet_ok env (LandmarksPacket p) \<longleftrightarrow> header_ok (lp_header p) \<and> hd_kind (lp_header p) = LANDMARKS
     \<and> length (lp_positions_wrist_m p) = hts_landmark_count
     \<and> list_all (\<lambda>v. list_all is_finite (vec_list v)) (lp_positions_wrist_m p)"

lemma triples_spec:
  "length vs = 3 * n \<Longrightarrow> length (triples vs) = n \<and> concat (map vec_list (triples vs)) = vs"
proof (induction n arbitrary: vs)
  case (Suc n)
  then obtain a b c ws where vs: "vs = a # b # c # ws" and "length ws = 3 * n"
    by (auto simp: length_Suc_conv numeral_3_eq_3)
  with Suc.IH[of ws] show ?case by simp
qed simp

lemma mk_hts_header_ok: "mk_hts_header k s q t e = Inr h \<Longrightarrow> header_ok h \<and> hd_kind h = k"
  by (auto simp: mk_hts_header_def header_ok_def split: if_split_asm option.split_asm)

lemma parse_header_ok: "parse_header v = Inr h \<Longrightarrow> header_ok h"
  by (auto simp: parse_header_def Let_def mk_hts_header_ok split: if_split_asm option.split_asm)

lemma parse_finite_floats_finite: "parse_finite_floats env s = Inr vs \<Longrightarrow> list_all is_finite vs"
  by (auto simp: parse_finite_floats_def Let_def split: if_split_asm)

lemma list_all_nth_finite: "list_all is_finite vs \<Longrightarrow> i < length vs \<Longrightarrow> is_finite (vs ! i)"
  by (simp add: list_all_length)

lemma parse_hts_line_ok:
  assumes "parse_hts_line env line = Inr p"
  shows "packet_ok env p"
proof -
  obtain label sep payload where pt: "partition_at 58 (strip line) = (label, sep, payload)"
    by (cases "partition_at 58 (strip line)")
  from assms pt obtain h vs where h: "parse_header label = Inr h" and vs: "parse_finite_floats env payload = Inr vs"
    by (auto simp: parse_hts_line_def Let_def split: if_split_asm)
  note hok = parse_header_ok[OF h] and fin = parse_finite_floats_finite[OF vs]
  show ?thesis
  proof (cases "hd_kind h = LANDMARKS")
    case True
    with assms pt h vs have p: "p = LandmarksPacket \<lparr>lp_header = h, lp_positions_wrist_m = triples vs\<rparr>"
      and l: "length vs = 3 * hts_landmark_count"
      by (auto simp: parse_hts_line_def Let_def split: if_split_asm)
    from triples_spec[OF l] fin have "list_all is_finite (concat (map vec_list (triples vs)))" by simp
    then have "list_all (\<lambda>v. list_all is_finite (vec_list v)) (triples vs)"
      by (auto simp: list_all_iff)
    with triples_spec[OF l] True hok show ?thesis by (simp add: p)
  next
    case False
    then have k: "hd_kind h = WRIST \<or> hd_kind h = HEAD_POSE" by (cases "hd_kind h") auto
    define q where "q = (vs ! 3, vs ! 4, vs ! 5, vs ! 6)"
    from assms pt h vs k have l: "length vs = 7" and n: "norm_accepted (pe_norm env q)"
      and p: "p = (if hd_kind h = WRIST then WristPacket else HeadPosePacket)
           \<lparr>pp_header = h, pp_position_m = (vs ! 0, vs ! 1, vs ! 2), pp_orientation_xyzw = q,
            pp_quaternion_norm = pe_norm env q\<rparr>"
      by (auto simp: parse_hts_line_def Let_def quaternion_norm_def q_def split: if_split_asm)
    from l fin n hok k show ?thesis
      by (auto simp: p pose_ok_def q_def list_all_nth_finite)
  qed
qed

section \<open>A concrete head line\<close>

definition plain_env :: py_env where
  "plain_env = \<lparr>pe_decimal = (\<lambda>c. None), pe_norm = (\<lambda>q. Fin 1)\<rparr>"
lemma demo_f0: "py_float plain_env (lit ''0'') = Some (Fin 0)"
proof -
  have "drop_underscores 0 (map (ascii_char plain_env) (lit ''0'')) = Some [48]" by code_simp
  moreover have "ascii_lower [48] \<noteq> lit ''inf''" "ascii_lower [48] \<noteq> lit ''infinity''" "ascii_lower [48] \<noteq> lit ''nan''"
    "decimal_value [48] = Some 0" by code_simp+
  ultimately show ?thesis by (simp add: py_float_def unsigned_float_def Let_def)
qed
lemma demo_f1: "py_float plain_env (lit ''1'') = Some (Fin 1)"
proof -
  have "drop_underscores 0 (map (ascii_char plain_env) (lit ''1'')) = Some [49]" by code_simp
  moreover have "ascii_lower [49] \<noteq> lit ''inf''" "ascii_lower [49] \<noteq> lit ''infinity''" "ascii_lower [49] \<noteq> lit ''nan''"
    "decimal_value [49] = Some 1" by code_simp+
  moreover have "round64 1 = Fin 1" using round64_of_int[of 1] by simp
  ultimately show ?thesis by (simp add: py_float_def unsigned_float_def Let_def)
qed
lemma demo_codes0: "lit ''Head pose:,0,0,0,0,0,0,1'' = [72, 101, 97, 100, 32, 112, 111, 115, 101, 58, 44, 48, 44, 48, 44, 48, 44, 48, 44, 48, 44, 48, 44, 49]" by (simp add: lit_def)
lemma demo_codes1: "lit '',0,0,0,0,0,0,1'' = [44, 48, 44, 48, 44, 48, 44, 48, 44, 48, 44, 48, 44, 49]" by (simp add: lit_def)
lemma demo_codes2: "lit ''0'' = [48]" by (simp add: lit_def)
lemma demo_codes3: "lit ''1'' = [49]" by (simp add: lit_def)
lemma demo_codes4: "lit ''Head pose'' = [72, 101, 97, 100, 32, 112, 111, 115, 101]" by (simp add: lit_def)
lemma demo_head_floats: "parse_finite_floats plain_env (lit '',0,0,0,0,0,0,1'') = Inr [Fin 0, Fin 0, Fin 0, Fin 0, Fin 0, Fin 0, Fin 1]"
proof -
  have "trim_empty (map strip (split_on 44 (lit '',0,0,0,0,0,0,1''))) = 
    [lit ''0'', lit ''0'', lit ''0'', lit ''0'', lit ''0'', lit ''0'', lit ''1'']" by (simp add: demo_codes1 demo_codes2 demo_codes3 trim_empty_def strip_def is_space_def)
  moreover have "lit ''0'' \<noteq> []" "lit ''1'' \<noteq> []" by (simp_all add: demo_codes2 demo_codes3)
  ultimately show ?thesis by (simp add: parse_finite_floats_def demo_f0 demo_f1)
qed
lemma demo_head_line: "\<exists>h. hd_kind h = HEAD_POSE \<and> parse_hts_line plain_env (lit ''Head pose:,0,0,0,0,0,0,1'') = Inr (HeadPosePacket
   \<lparr>pp_header = h, pp_position_m = (Fin 0, Fin 0, Fin 0), pp_orientation_xyzw = (Fin 0, Fin 0, Fin 0, Fin 1), pp_quaternion_norm = Fin 1\<rparr>)"
proof -
  have "partition_at 58 (strip (lit ''Head pose:,0,0,0,0,0,0,1'')) = (lit ''Head pose'', True, lit '',0,0,0,0,0,0,1'')"
   "strip (lit ''Head pose:,0,0,0,0,0,0,1'') \<noteq> []"
    by (simp_all add: demo_codes0 demo_codes1 demo_codes4 strip_def is_space_def)
  moreover have "parse_header (lit ''Head pose'') = Inr \<lparr>hd_kind = HEAD_POSE, hd_side = NO_SIDE, hd_source_sequence = None, hd_source_timestamp_ns = None, hd_extra_fields = []\<rparr>"
    by (simp add: parse_header_def strip_def is_space_def hts_label_def mk_hts_header_def demo_codes4 lit_def)
  moreover have "norm_accepted (Fin 1)" by (simp add: norm_accepted_def hts_norm_minimum_def hts_norm_tolerance_def fsub_def)
  moreover have "pe_norm plain_env q = Fin 1" for q by (simp add: plain_env_def)
  ultimately show ?thesis by (simp add: parse_hts_line_def demo_head_floats quaternion_norm_def Let_def)
qed

lemma demo_head_datagram: "utf8_decode (lit_bytes ''Head pose:,0,0,0,0,0,0,1'') = Some (lit ''Head pose:,0,0,0,0,0,0,1'')"
 by (simp add: utf8_decode_def lit_bytes_def demo_codes0)
lemma demo_head_datagram2:  "hts_lines (lit ''Head pose:,0,0,0,0,0,0,1'') = [lit ''Head pose:,0,0,0,0,0,0,1'']"
 by (simp add: hts_lines_def splitlines_def demo_codes0 is_line_break_def strip_def is_space_def)
lemma demo_head_datagram3:  "hand_head_lines (lit ''Head pose:,0,0,0,0,0,0,1'') = [lit ''Head pose:,0,0,0,0,0,0,1'']"
 by (simp add: hand_head_lines_def demo_head_datagram2) (simp add: demo_codes0 lit_def)
lemma demo_head_datagram4: "length (lit_bytes ''Head pose:,0,0,0,0,0,0,1'') = 24"
 by (simp add: lit_bytes_def)

section \<open>The parser\<close>

text \<open>A datagram that parses is at most 65535 bytes of UTF-8, yields one packet for each of its
  non-empty lines that is not a controller line, in order, and every packet is well formed: its side
  fits its kind, its metadata is not negative, every number is finite, landmarks have 21 points and a
  quaternion's norm lies within the tolerance of one.\<close>

theorem hts_datagram_sound:
  assumes "parse_hts_datagram env payload = Inr ps"
  shows "payload \<noteq> [] \<and> length payload \<le> 65535 \<and> list_all (packet_ok env) ps
    \<and> (\<exists>s. utf8_decode payload = Some s \<and> length ps = length (hand_head_lines s)
         \<and> (\<forall>i < length ps. parse_hts_line env (hand_head_lines s ! i) = Inr (ps ! i)))"
proof -
  have nth: "rmap f xs = Inr ys \<Longrightarrow> \<forall>i < length ys. f (xs ! i) = Inr (ys ! i)"
    for f :: "pystr \<Rightarrow> (hts_error, hts_packet) res" and xs ys
    by (induction xs arbitrary: ys) (auto simp: less_Suc_eq_0_disj)
  from assms obtain s where s: "utf8_decode payload = Some s"
      "rmap (parse_hts_line env) (hand_head_lines s) = Inr ps"
    "payload \<noteq> []" "length payload \<le> 65535"
    by (auto simp: parse_hts_datagram_def hts_max_datagram_bytes_def split: if_split_asm option.split_asm)
  from rmap_Inr_set[OF s(2)] parse_hts_line_ok have "list_all (packet_ok env) ps"
    by (metis list_all_iff)
  with s nth[OF s(2)] rmap_Inr_length[OF s(2)] show ?thesis by auto
qed

theorem hts_datagram_sound_witness:
  "\<exists>p. parse_hts_datagram plain_env (lit_bytes ''Head pose:,0,0,0,0,0,0,1'') = Inr [p] \<and> packet_ok plain_env p"
proof -
  obtain p where "parse_hts_line plain_env (lit ''Head pose:,0,0,0,0,0,0,1'') = Inr p"
    using demo_head_line by blast
  then have "parse_hts_datagram plain_env (lit_bytes ''Head pose:,0,0,0,0,0,0,1'') = Inr [p]"
    using demo_head_datagram4
    by (auto simp: parse_hts_datagram_def hts_max_datagram_bytes_def demo_head_datagram demo_head_datagram2 demo_head_datagram3)
  from hts_datagram_sound[OF this] this show ?thesis by simp
qed

end
