(* ===== verification/HtsCanonical.thy ===== *)
theory HtsCanonical
  imports HtsProtocol
begin

text \<open>
  Canonical Quest state assembly, \<open>src/motion_input/hts_canonical.py\<close>, with the basis conversion of
  \<open>frames.py\<close> and the pose type of \<open>model.py\<close>: the source-sequence tracker, the per-hand caches, the
  ingestion of one datagram's packets, and the snapshot that infers validity from freshness only.
\<close>

section \<open>Poses\<close>

datatype canonical_error =
    CanonHts hts_error | CanonNegativeTime | CanonDuplicateHead | CanonHeadAndHand | CanonTwoHands
  | CanonIncompleteHand | CanonUnpaired | CanonKeyError | CanonPose | CanonJointCount
  | CanonBadStale | CanonDuration conv_error | CanonFutureSide

record pose6d =
  position_m :: vec3
  orientation_xyzw :: quat

definition pose_norm_tolerance :: pyfloat where
  "pose_norm_tolerance = Fin (1152921504606847 / 1152921504606846976)"

definition mk_pose6d :: "py_env \<Rightarrow> vec3 \<Rightarrow> quat \<Rightarrow> (canonical_error, pose6d) res" where
  "mk_pose6d env position orientation =
     (if \<not> list_all is_finite (vec_list position) then Inl CanonPose
      else if \<not> list_all is_finite (quat_list orientation) then Inl CanonPose
      else if flt pose_norm_tolerance (fabs (fsub (pe_norm env orientation) (Fin 1))) then Inl CanonPose
      else Inr \<lparr>position_m = position, orientation_xyzw = orientation\<rparr>)"

text \<open>\<open>unity_to_openxr_pose\<close>: the reflection of the z axis.\<close>

fun unity_to_openxr_position :: "vec3 \<Rightarrow> vec3" where
  "unity_to_openxr_position (x, y, z) = (x, y, fneg z)"

fun unity_to_openxr_quat :: "quat \<Rightarrow> quat" where
  "unity_to_openxr_quat (qx, qy, qz, qw) = (fneg qx, fneg qy, qz, qw)"

definition unity_to_openxr_pose :: "py_env \<Rightarrow> pose6d \<Rightarrow> (canonical_error, pose6d) res" where
  "unity_to_openxr_pose env p =
     mk_pose6d env (unity_to_openxr_position (position_m p)) (unity_to_openxr_quat (orientation_xyzw p))"

definition openxr_to_unity_pose :: "py_env \<Rightarrow> pose6d \<Rightarrow> (canonical_error, pose6d) res" where
  "openxr_to_unity_pose env p = unity_to_openxr_pose env p"

definition canonical_pose :: "py_env \<Rightarrow> vec3 \<Rightarrow> quat \<Rightarrow> (canonical_error, pose6d) res" where
  "canonical_pose env position quaternion =
     (case normalize_quaternion env quaternion of
        Inl e \<Rightarrow> Inl (CanonHts e)
      | Inr q \<Rightarrow> rbind (mk_pose6d env position q) (unity_to_openxr_pose env))"

section \<open>Source sequences\<close>

record sequence_tracker =
  sq_last :: "string \<Rightarrow> int option"
  sq_gaps :: "string \<Rightarrow> int option"
  sq_out_of_order :: "string \<Rightarrow> int option"

definition new_sequence_tracker :: sequence_tracker where
  "new_sequence_tracker = \<lparr>sq_last = Map.empty, sq_gaps = Map.empty, sq_out_of_order = Map.empty\<rparr>"

definition get_or :: "int \<Rightarrow> int option \<Rightarrow> int" where
  "get_or d v = (case v of Some x \<Rightarrow> x | None \<Rightarrow> d)"

definition sq_observe :: "sequence_tracker \<Rightarrow> string \<Rightarrow> int option \<Rightarrow> sequence_tracker \<times> int" where
  "sq_observe t0 stream sequence =
     (case sequence of
        None \<Rightarrow> (t0, 0)
      | Some s \<Rightarrow>
          let previous = sq_last t0 stream;
              t = t0\<lparr>sq_last := (sq_last t0)(stream \<mapsto> max s (get_or s previous))\<rparr>
          in case previous of
               None \<Rightarrow> (t, 0)
             | Some p \<Rightarrow>
                 if p + 1 < s then
                   (let gap = s - p - 1 in
                    (t\<lparr>sq_gaps := (sq_gaps t)(stream \<mapsto> get_or 0 (sq_gaps t stream) + gap)\<rparr>, gap))
                 else if s \<le> p then
                   (t\<lparr>sq_out_of_order := (sq_out_of_order t)(stream \<mapsto> get_or 0 (sq_out_of_order t stream) + 1)\<rparr>, 0)
                 else (t, 0))"

section \<open>The assembler\<close>

record hand_cache =
  hc_wrist :: "pose_packet option"
  hc_landmarks :: "landmarks_packet option"
  hc_receive_ns :: "int option"
  hc_host_sequence :: "int option"

record assembler =
  ha_stale_after_ns :: int
  ha_left :: hand_cache
  ha_right :: hand_cache
  ha_head :: "(pose_packet \<times> int) option"
  ha_snapshot_sequence :: int
  ha_left_sequence :: int
  ha_right_sequence :: int
  ha_tracker :: sequence_tracker
  ha_last_sequence_gap :: int

definition empty_hand_cache :: hand_cache where
  "empty_hand_cache = \<lparr>hc_wrist = None, hc_landmarks = None, hc_receive_ns = None, hc_host_sequence = None\<rparr>"

definition new_assembler :: "int \<Rightarrow> assembler" where
  "new_assembler stale =
     \<lparr>ha_stale_after_ns = stale, ha_left = empty_hand_cache, ha_right = empty_hand_cache, ha_head = None,
      ha_snapshot_sequence = 0, ha_left_sequence = 0, ha_right_sequence = 0,
      ha_tracker = new_sequence_tracker, ha_last_sequence_gap = 0\<rparr>"

definition mk_assembler :: "pyfloat \<Rightarrow> (canonical_error, assembler) res" where
  "mk_assembler stale_after_s =
     (if fle stale_after_s (Fin 0) then Inl CanonBadStale
      else case seconds_to_ns stale_after_s of
             Inl e \<Rightarrow> Inl (CanonDuration e) | Inr n \<Rightarrow> Inr (new_assembler n))"

text \<open>The packets of a datagram by destination: left hand, right hand, head.\<close>

fun sort_packets ::
  "hts_packet list \<Rightarrow> hts_packet list \<Rightarrow> hts_packet list \<Rightarrow> pose_packet option \<Rightarrow>
   (canonical_error, hts_packet list \<times> hts_packet list \<times> pose_packet option) res" where
  "sort_packets [] left right head = Inr (left, right, head)"
| "sort_packets (HeadPosePacket p # ps) left right head =
     (if head \<noteq> None then Inl CanonDuplicateHead else sort_packets ps left right (Some p))"
| "sort_packets (p # ps) left right head =
     (case hd_side (packet_header p) of
        LEFT \<Rightarrow> sort_packets ps (left @ [p]) right head
      | RIGHT \<Rightarrow> sort_packets ps left (right @ [p]) head
      | NO_SIDE \<Rightarrow> Inl CanonKeyError)"

fun wrist_of :: "hts_packet \<Rightarrow> pose_packet option" where
  "wrist_of (WristPacket p) = Some p"
| "wrist_of _ = None"

fun landmarks_of :: "hts_packet \<Rightarrow> landmarks_packet option" where
  "landmarks_of (LandmarksPacket p) = Some p"
| "landmarks_of _ = None"

definition source_sequences :: "hts_packet list \<Rightarrow> int list" where
  "source_sequences ps = List.map_filter (\<lambda>p. hd_source_sequence (packet_header p)) ps"

definition source_timestamps :: "hts_packet list \<Rightarrow> int list" where
  "source_timestamps ps = List.map_filter (\<lambda>p. hd_source_timestamp_ns (packet_header p)) ps"

definition validate_hand_observation_set :: "hts_packet list \<Rightarrow> (canonical_error, unit) res" where
  "validate_hand_observation_set packets =
     (if length (List.map_filter wrist_of packets) \<noteq> 1 \<or> length (List.map_filter landmarks_of packets) \<noteq> 1
      then Inl CanonIncompleteHand
      else if 1 < length (remdups (source_sequences packets)) \<or> 1 < length (remdups (source_timestamps packets))
      then Inl CanonUnpaired
      else Inr ())"

fun cache_packet :: "hand_cache \<Rightarrow> hts_packet \<Rightarrow> hand_cache" where
  "cache_packet c (WristPacket p) = c\<lparr>hc_wrist := Some p\<rparr>"
| "cache_packet c (LandmarksPacket p) = c\<lparr>hc_landmarks := Some p\<rparr>"
| "cache_packet c (HeadPosePacket p) = c"

text \<open>The body of the loop over the two hands.\<close>

definition store_cache :: "hand_cache \<Rightarrow> hts_packet list \<Rightarrow> int \<Rightarrow> int \<Rightarrow> hand_cache" where
  "store_cache c observations receive_ns host_sequence =
     (foldl cache_packet c observations)\<lparr>hc_receive_ns := Some receive_ns, hc_host_sequence := Some host_sequence\<rparr>"

definition store_observed :: "assembler \<Rightarrow> string \<Rightarrow> int option \<Rightarrow> assembler" where
  "store_observed a stream sequence =
     (let (t, gap) = sq_observe (ha_tracker a) stream sequence
      in a\<lparr>ha_tracker := t, ha_last_sequence_gap := ha_last_sequence_gap a + gap\<rparr>)"

definition store_left :: "assembler \<Rightarrow> hts_packet list \<Rightarrow> int \<Rightarrow> (canonical_error, assembler) res" where
  "store_left a obs ns =
     (if obs = [] then Inr a
      else rbind (validate_hand_observation_set obs) (\<lambda>_.
        Inr (store_observed
          (a\<lparr>ha_left := store_cache (ha_left a) obs ns (ha_left_sequence a),
             ha_left_sequence := ha_left_sequence a + 1\<rparr>)
          ''left'' (first_some (map (\<lambda>p. hd_source_sequence (packet_header p)) obs)))))"

definition store_right :: "assembler \<Rightarrow> hts_packet list \<Rightarrow> int \<Rightarrow> (canonical_error, assembler) res" where
  "store_right a obs ns =
     (if obs = [] then Inr a
      else rbind (validate_hand_observation_set obs) (\<lambda>_.
        Inr (store_observed
          (a\<lparr>ha_right := store_cache (ha_right a) obs ns (ha_right_sequence a),
             ha_right_sequence := ha_right_sequence a + 1\<rparr>)
          ''right'' (first_some (map (\<lambda>p. hd_source_sequence (packet_header p)) obs)))))"

definition store_head :: "assembler \<Rightarrow> pose_packet option \<Rightarrow> int \<Rightarrow> assembler" where
  "store_head a pending ns =
     (case pending of
        None \<Rightarrow> a
      | Some p \<Rightarrow> store_observed (a\<lparr>ha_head := Some (p, ns)\<rparr>) ''head'' (hd_source_sequence (pp_header p)))"

text \<open>\<open>ingest\<close> up to its snapshot: the state it has reached is returned with the exception.\<close>

definition ha_store :: "assembler \<Rightarrow> hts_packet list \<Rightarrow> int \<Rightarrow> assembler \<times> (canonical_error, unit) res" where
  "ha_store a packets ns =
     (if ns < 0 then (a, Inl CanonNegativeTime)
      else case sort_packets packets [] [] None of
        Inl e \<Rightarrow> (a, Inl e)
      | Inr (left, right, head) \<Rightarrow>
          if head \<noteq> None \<and> (left \<noteq> [] \<or> right \<noteq> []) then (a, Inl CanonHeadAndHand)
          else if left \<noteq> [] \<and> right \<noteq> [] then (a, Inl CanonTwoHands)
          else
            let a1 = store_head a head ns in
            case store_left a1 left ns of
              Inl e \<Rightarrow> (a1, Inl e)
            | Inr a2 \<Rightarrow>
                case store_right a2 right ns of
                  Inl e \<Rightarrow> (a2, Inl e)
                | Inr a3 \<Rightarrow> (a3\<lparr>ha_snapshot_sequence := ha_snapshot_sequence a3 + 1\<rparr>, Inr ()))"

section \<open>Snapshots\<close>

datatype tracking_state = TRACKING | LIMITED | NOT_TRACKING | DISCONNECTED

record joint_observation =
  jo_name :: string
  jo_position_m :: vec3
  jo_frame_id :: string
  jo_orientation_xyzw :: "quat option"
  jo_confidence :: "pyfloat option"
  jo_valid :: bool

record hand_observation =
  ho_side :: side
  ho_tracking_state :: tracking_state
  ho_tracking_valid :: bool
  ho_receive_ns :: "int option"
  ho_source_timestamp_ns :: "int option"
  ho_source_sequence_number :: "int option"
  ho_host_sequence_number :: "int option"
  ho_stream_age_s :: "pyfloat option"
  ho_wrist_pose :: "pose6d option"
  ho_wrist_frame_id :: string
  ho_joints :: "joint_observation list"
  ho_confidence :: "pyfloat option"
  ho_raw_quaternion_norm :: "pyfloat option"

record head_observation =
  he_tracking_valid :: bool
  he_receive_ns :: int
  he_source_timestamp_ns :: "int option"
  he_source_sequence_number :: "int option"
  he_stream_age_s :: pyfloat
  he_pose :: pose6d
  he_raw_quaternion_norm :: pyfloat

datatype meta_value = MetaText string | MetaInt nat

record canonical_state =
  cs_host_monotonic_ns :: int
  cs_source_timestamp_ns :: "int option"
  cs_sequence_number :: int
  cs_coordinate_frame :: string
  cs_head :: "head_observation option"
  cs_left :: hand_observation
  cs_right :: hand_observation
  cs_raw_source_metadata :: "(string \<times> meta_value) list"

definition hts_joint_names :: "string list" where
  "hts_joint_names = [''wrist'', ''thumb_metacarpal'', ''thumb_proximal'', ''thumb_distal'', ''thumb_tip'',
     ''index_proximal'', ''index_intermediate'', ''index_distal'', ''index_tip'',
     ''middle_proximal'', ''middle_intermediate'', ''middle_distal'', ''middle_tip'',
     ''ring_proximal'', ''ring_intermediate'', ''ring_distal'', ''ring_tip'',
     ''little_proximal'', ''little_intermediate'', ''little_distal'', ''little_tip'']"

definition cache_headers :: "hand_cache \<Rightarrow> hts_header list" where
  "cache_headers c = (case hc_wrist c of Some w \<Rightarrow> [pp_header w] | None \<Rightarrow> [])
     @ (case hc_landmarks c of Some l \<Rightarrow> [lp_header l] | None \<Rightarrow> [])"

definition hand_wrist_frame :: "side \<Rightarrow> string" where
  "hand_wrist_frame side = (if side = LEFT then ''left_wrist'' else ''right_wrist'')"

definition no_hand :: "side \<Rightarrow> hand_observation" where
  "no_hand side =
     \<lparr>ho_side = side, ho_tracking_state = NOT_TRACKING, ho_tracking_valid = False, ho_receive_ns = None,
      ho_source_timestamp_ns = None, ho_source_sequence_number = None, ho_host_sequence_number = None,
      ho_stream_age_s = None, ho_wrist_pose = None, ho_wrist_frame_id = hand_wrist_frame side,
      ho_joints = [], ho_confidence = None, ho_raw_quaternion_norm = None\<rparr>"

definition hand_joints :: "side \<Rightarrow> vec3 list \<Rightarrow> joint_observation list" where
  "hand_joints side positions =
     map (\<lambda>(name, p). \<lparr>jo_name = name, jo_position_m = unity_to_openxr_position p,
            jo_frame_id = hand_wrist_frame side, jo_orientation_xyzw = None, jo_confidence = None,
            jo_valid = True\<rparr>)
       (zip hts_joint_names positions)"

definition observe_hand ::
  "py_env \<Rightarrow> int \<Rightarrow> hand_cache \<Rightarrow> side \<Rightarrow> int \<Rightarrow> (canonical_error, hand_observation) res" where
  "observe_hand env stale_after_ns c side now_ns =
     (case hc_receive_ns c of
        None \<Rightarrow> Inr (no_hand side)
      | Some receive_ns \<Rightarrow>
          let age_ns = max 0 (now_ns - receive_ns);
              dated = (no_hand side)\<lparr>ho_receive_ns := Some receive_ns,
                ho_source_timestamp_ns := first_some (map hd_source_timestamp_ns (cache_headers c)),
                ho_source_sequence_number := first_some (map hd_source_sequence (cache_headers c)),
                ho_host_sequence_number := hc_host_sequence c,
                ho_stream_age_s := Some (ns_to_seconds age_ns)\<rparr>
          in case (hc_wrist c, hc_landmarks c) of
               (Some wrist, Some landmarks) \<Rightarrow>
                 if \<not> age_ns \<le> stale_after_ns then Inr dated
                 else
                   rbind (canonical_pose env (pp_position_m wrist) (pp_orientation_xyzw wrist)) (\<lambda>pose.
                   if length (lp_positions_wrist_m landmarks) \<noteq> length hts_joint_names then Inl CanonJointCount
                   else Inr (dated\<lparr>ho_tracking_state := TRACKING, ho_tracking_valid := True,
                          ho_wrist_pose := Some pose,
                          ho_joints := hand_joints side (lp_positions_wrist_m landmarks),
                          ho_raw_quaternion_norm := Some (pp_quaternion_norm wrist)\<rparr>))
             | _ \<Rightarrow> Inr dated)"

definition observe_head :: "py_env \<Rightarrow> assembler \<Rightarrow> int \<Rightarrow> (canonical_error, head_observation option) res" where
  "observe_head env a now_ns =
     (case ha_head a of
        None \<Rightarrow> Inr None
      | Some (packet, receive_ns) \<Rightarrow>
          let age_ns = max 0 (now_ns - receive_ns) in
          if ha_stale_after_ns a < age_ns then Inr None
          else rbind (canonical_pose env (pp_position_m packet) (pp_orientation_xyzw packet)) (\<lambda>pose.
               Inr (Some \<lparr>he_tracking_valid = True, he_receive_ns = receive_ns,
                 he_source_timestamp_ns = hd_source_timestamp_ns (pp_header packet),
                 he_source_sequence_number = hd_source_sequence (pp_header packet),
                 he_stream_age_s = ns_to_seconds age_ns, he_pose = pose,
                 he_raw_quaternion_norm = pp_quaternion_norm packet\<rparr>)))"

definition ha_state ::
  "py_env \<Rightarrow> assembler \<Rightarrow> int \<Rightarrow> (string \<times> meta_value) list \<Rightarrow> (canonical_error, canonical_state) res" where
  "ha_state env a now_ns metadata =
     rbind (observe_hand env (ha_stale_after_ns a) (ha_left a) LEFT now_ns) (\<lambda>left.
     rbind (observe_hand env (ha_stale_after_ns a) (ha_right a) RIGHT now_ns) (\<lambda>right.
     rbind (observe_head env a now_ns) (\<lambda>head.
     let stamps = List.map_filter (\<lambda>t. t)
           [ho_source_timestamp_ns left, ho_source_timestamp_ns right,
            case head of None \<Rightarrow> None | Some h \<Rightarrow> he_source_timestamp_ns h]
     in Inr \<lparr>cs_host_monotonic_ns = now_ns,
             cs_source_timestamp_ns = (if stamps = [] then None else Some (Max (set stamps))),
             cs_sequence_number = ha_snapshot_sequence a, cs_coordinate_frame = ''quest_world'',
             cs_head = head, cs_left = left, cs_right = right, cs_raw_source_metadata = metadata\<rparr>)))"

definition ingest_metadata :: "string \<Rightarrow> nat \<Rightarrow> (string \<times> meta_value) list" where
  "ingest_metadata endpoint datagram_size =
     [(''source'', MetaText ''hand_tracking_streamer''), (''source_endpoint'', MetaText endpoint),
      (''datagram_size'', MetaInt datagram_size), (''source_basis'', MetaText ''unity_left_handed''),
      (''canonical_basis'', MetaText ''openxr_style_right_handed''),
      (''coordinate_validation'', MetaText ''verified_live_motion_sequence_2026-07-17'')]"

definition ha_ingest ::
  "py_env \<Rightarrow> assembler \<Rightarrow> hts_packet list \<Rightarrow> int \<Rightarrow> string \<Rightarrow> nat \<Rightarrow>
   assembler \<times> (canonical_error, canonical_state) res" where
  "ha_ingest env a packets receive_ns endpoint datagram_size =
     (case ha_store a packets receive_ns of
        (a', Inl e) \<Rightarrow> (a', Inl e)
      | (a', Inr _) \<Rightarrow> (a', ha_state env a' receive_ns (ingest_metadata endpoint datagram_size)))"

section \<open>The inactive future boundary\<close>

datatype future_clutch = FUTURE_DISENGAGED | FUTURE_ENGAGED | FUTURE_UNAVAILABLE

record future_input =
  fu_side :: side
  fu_wrist_pose :: "pose6d option"
  fu_pose_frame :: string
  fu_clutch_state :: future_clutch
  fu_tracking_valid :: bool
  fu_stream_age_s :: "pyfloat option"
  fu_emergency_neutral :: bool
  fu_finger_joints :: "joint_observation list"

definition prepare_inactive_future_input :: "canonical_state \<Rightarrow> side \<Rightarrow> (canonical_error, future_input) res" where
  "prepare_inactive_future_input st side =
     (if side = NO_SIDE then Inl CanonFutureSide
      else let hand = (if side = LEFT then cs_left st else cs_right st)
        in Inr \<lparr>fu_side = side, fu_wrist_pose = ho_wrist_pose hand, fu_pose_frame = ''quest_world'',
                fu_clutch_state = FUTURE_DISENGAGED, fu_tracking_valid = ho_tracking_valid hand,
                fu_stream_age_s = ho_stream_age_s hand, fu_emergency_neutral = True,
                fu_finger_joints = ho_joints hand\<rparr>)"

section \<open>The tracker\<close>

definition sq_observe_all :: "sequence_tracker \<Rightarrow> string \<Rightarrow> int list \<Rightarrow> sequence_tracker" where
  "sq_observe_all t stream xs = foldl (\<lambda>t s. fst (sq_observe t stream (Some s))) t xs"

text \<open>One observation: the high-water mark moves by the gap plus one, or the packet is out of order.\<close>

lemma sq_observe_some:
  assumes "sq_last t stream = Some p"
  shows "sq_last (fst (sq_observe t stream (Some s))) stream = Some (max s p)
    \<and> max s p - p = get_or 0 (sq_gaps (fst (sq_observe t stream (Some s))) stream)
        - get_or 0 (sq_gaps t stream) + 1
        - (get_or 0 (sq_out_of_order (fst (sq_observe t stream (Some s))) stream)
           - get_or 0 (sq_out_of_order t stream))"
  using assms by (auto simp: sq_observe_def get_or_def Let_def max_def)

lemma sq_observe_all_some:
  assumes "sq_last t stream = Some p"
  shows "\<exists>m. sq_last (sq_observe_all t stream xs) stream = Some m \<and> m = Max (insert p (set xs))
    \<and> m - p = get_or 0 (sq_gaps (sq_observe_all t stream xs) stream) - get_or 0 (sq_gaps t stream)
        + int (length xs)
        - (get_or 0 (sq_out_of_order (sq_observe_all t stream xs) stream)
           - get_or 0 (sq_out_of_order t stream))"
  using assms
proof (induction xs arbitrary: t p)
  case (Cons x xs)
  let ?t = "fst (sq_observe t stream (Some x))"
  note s = sq_observe_some[OF Cons.prems, of x]
  from Cons.IH[of ?t "max x p"] s obtain m where
    m: "sq_last (sq_observe_all ?t stream xs) stream = Some m" "m = Max (insert (max x p) (set xs))"
      "m - max x p = get_or 0 (sq_gaps (sq_observe_all ?t stream xs) stream) - get_or 0 (sq_gaps ?t stream)
        + int (length xs) - (get_or 0 (sq_out_of_order (sq_observe_all ?t stream xs) stream)
           - get_or 0 (sq_out_of_order ?t stream))" by blast
  have "Max (insert (max x p) (set xs)) = Max (insert p (insert x (set xs)))"
    by (cases "xs = []") (auto simp: max.left_commute max.commute)
  moreover have "sq_observe_all t stream (x # xs) = sq_observe_all ?t stream xs"
    by (simp add: sq_observe_all_def)
  ultimately show ?case using m s by simp
qed (simp add: sq_observe_all_def)

text \<open>After any numbers on one stream, the high-water mark is their maximum, and the span from the first
  number to it is exactly the packets that moved it plus the gaps recorded: nothing missing is
  uncounted and nothing is counted twice.\<close>

theorem sequence_gap_conservation:
  assumes "xs \<noteq> []" and "t = sq_observe_all new_sequence_tracker stream xs"
  shows "sq_last t stream = Some (Max (set xs))
    \<and> Max (set xs) - hd xs + 1
      = int (length xs) - get_or 0 (sq_out_of_order t stream) + get_or 0 (sq_gaps t stream)"
proof -
  obtain x ys where xs: "xs = x # ys" using assms(1) by (cases xs) auto
  let ?t = "fst (sq_observe new_sequence_tracker stream (Some x))"
  have t0: "sq_last ?t stream = Some x" "sq_gaps ?t stream = None" "sq_out_of_order ?t stream = None"
    by (simp_all add: sq_observe_def new_sequence_tracker_def get_or_def Let_def)
  have "t = sq_observe_all ?t stream ys" by (simp add: assms(2) xs sq_observe_all_def)
  with sq_observe_all_some[OF t0(1), of ys] t0 show ?thesis by (auto simp: xs get_or_def)
qed

theorem sequence_gap_conservation_witness:
  "sq_last (sq_observe_all new_sequence_tracker ''left'' [3, 7, 5, 8]) ''left'' = Some 8
   \<and> get_or 0 (sq_gaps (sq_observe_all new_sequence_tracker ''left'' [3, 7, 5, 8]) ''left'') = 3"
proof -
  have "sq_gaps (sq_observe_all new_sequence_tracker ''left'' [3, 7, 5, 8]) ''left'' = Some 3"
    by (simp add: sq_observe_all_def sq_observe_def new_sequence_tracker_def get_or_def)
  with sequence_gap_conservation[OF _ refl, of "[3, 7, 5, 8]" "''left''"] show ?thesis
    by (simp add: get_or_def)
qed

section \<open>Ingestion\<close>

lemma sort_packets_sub:
  assumes "sort_packets ps l r h = Inr (l', r', h')" and "set ps \<union> set l \<union> set r \<subseteq> X"
  shows "set l' \<union> set r' \<subseteq> X"
  using assms by (induction ps l r h rule: sort_packets.induct) (auto split: if_split_asm side.split_asm)

definition paired :: "pose_packet \<Rightarrow> landmarks_packet \<Rightarrow> bool" where
  "paired w l \<longleftrightarrow>
     (\<forall>x y. hd_source_sequence (pp_header w) = Some x \<longrightarrow> hd_source_sequence (lp_header l) = Some y \<longrightarrow> x = y)
     \<and> (\<forall>x y. hd_source_timestamp_ns (pp_header w) = Some x \<longrightarrow>
           hd_source_timestamp_ns (lp_header l) = Some y \<longrightarrow> x = y)"

text \<open>A hand cache is empty, or holds one wrist and one landmarks packet that belong together.\<close>

definition cache_ok :: "py_env \<Rightarrow> hand_cache \<Rightarrow> bool" where
  "cache_ok env c \<longleftrightarrow>
     (case hc_receive_ns c of
        None \<Rightarrow> hc_wrist c = None \<and> hc_landmarks c = None
      | Some r \<Rightarrow> \<exists>w l. hc_wrist c = Some w \<and> hc_landmarks c = Some l \<and> paired w l
          \<and> packet_ok env (WristPacket w) \<and> packet_ok env (LandmarksPacket l))"

lemma wrist_of_Some [simp]: "wrist_of p = Some w \<longleftrightarrow> p = WristPacket w"
  and landmarks_of_Some [simp]: "landmarks_of p = Some l \<longleftrightarrow> p = LandmarksPacket l"
  by (cases p; auto)+

lemma foldl_cache_packet:
  "hc_wrist (foldl cache_packet c obs) =
     (if List.map_filter wrist_of obs = [] then hc_wrist c else Some (last (List.map_filter wrist_of obs)))
   \<and> hc_landmarks (foldl cache_packet c obs) =
     (if List.map_filter landmarks_of obs = [] then hc_landmarks c
      else Some (last (List.map_filter landmarks_of obs)))"
proof (induction obs rule: rev_induct)
  case (snoc p obs)
  then show ?case by (cases p) (auto simp: map_filter_def)
qed (simp add: map_filter_def)

lemma in_map_filter: "x \<in> set (List.map_filter f xs) \<longleftrightarrow> (\<exists>y \<in> set xs. f y = Some x)"
  by (force simp: map_filter_def)

lemma remdups_le1_eq: "\<not> 1 < length (remdups xs) \<Longrightarrow> x \<in> set xs \<Longrightarrow> y \<in> set xs \<Longrightarrow> x = y"
  by (cases "remdups xs" rule: remdups_adj.cases) (metis One_nat_def empty_iff empty_set length_Cons
      less_Suc_eq_0_disj list.set_intros(1) not_less_eq set_ConsD set_remdups zero_less_Suc)+

lemma store_cache_ok:
  assumes "validate_hand_observation_set obs = Inr u" and "list_all (packet_ok env) obs"
  shows "cache_ok env (store_cache c obs ns hs)"
proof -
  from assms(1) have one: "length (List.map_filter wrist_of obs) = 1" "length (List.map_filter landmarks_of obs) = 1"
    and uniq: "\<not> 1 < length (remdups (source_sequences obs))" "\<not> 1 < length (remdups (source_timestamps obs))"
    by (auto simp: validate_hand_observation_set_def split: if_split_asm)
  from one obtain w l where wl: "List.map_filter wrist_of obs = [w]" "List.map_filter landmarks_of obs = [l]"
    by (auto simp: length_Suc_conv)
  then have "w \<in> set (List.map_filter wrist_of obs)" "l \<in> set (List.map_filter landmarks_of obs)" by simp_all
  then have mem: "WristPacket w \<in> set obs" "LandmarksPacket l \<in> set obs"
    by (auto simp: in_map_filter)
  have "paired w l"
    unfolding paired_def
  proof (intro conjI allI impI)
    fix x y assume "hd_source_sequence (pp_header w) = Some x" "hd_source_sequence (lp_header l) = Some y"
    with mem have "x \<in> set (source_sequences obs)" "y \<in> set (source_sequences obs)"
      by (force simp: source_sequences_def in_map_filter)+
    with remdups_le1_eq[OF uniq(1)] show "x = y" by simp
  next
    fix x y assume "hd_source_timestamp_ns (pp_header w) = Some x" "hd_source_timestamp_ns (lp_header l) = Some y"
    with mem have "x \<in> set (source_timestamps obs)" "y \<in> set (source_timestamps obs)"
      by (force simp: source_timestamps_def in_map_filter)+
    with remdups_le1_eq[OF uniq(2)] show "x = y" by simp
  qed
  moreover have "packet_ok env (WristPacket w)" "packet_ok env (LandmarksPacket l)"
    using assms(2) mem by (auto simp: list_all_iff)
  ultimately show ?thesis
    by (simp add: cache_ok_def store_cache_def foldl_cache_packet wl)
qed

lemma store_observed_fields [simp]:
  "ha_left (store_observed a st sq) = ha_left a" "ha_right (store_observed a st sq) = ha_right a"
  "ha_head (store_observed a st sq) = ha_head a"
  "ha_stale_after_ns (store_observed a st sq) = ha_stale_after_ns a"
  "ha_snapshot_sequence (store_observed a st sq) = ha_snapshot_sequence a"
  "ha_left_sequence (store_observed a st sq) = ha_left_sequence a"
  "ha_right_sequence (store_observed a st sq) = ha_right_sequence a"
  by (simp_all add: store_observed_def split: prod.split)

definition ha_inv :: "py_env \<Rightarrow> assembler \<Rightarrow> bool" where
  "ha_inv env a \<longleftrightarrow> cache_ok env (ha_left a) \<and> cache_ok env (ha_right a)"

lemma store_head_fields [simp]:
  "ha_left (store_head a h ns) = ha_left a" "ha_right (store_head a h ns) = ha_right a"
  "ha_snapshot_sequence (store_head a h ns) = ha_snapshot_sequence a"
  "ha_left_sequence (store_head a h ns) = ha_left_sequence a"
  "ha_right_sequence (store_head a h ns) = ha_right_sequence a"
  "ha_stale_after_ns (store_head a h ns) = ha_stale_after_ns a"
  by (simp_all add: store_head_def split: option.split)

lemma store_head_None [simp]: "store_head a None ns = a"
  by (simp add: store_head_def)

lemma ha_inv_store:
  assumes "ha_inv env a" and "list_all (packet_ok env) ps" and "ha_store a ps ns = (a', r)"
  shows "ha_inv env a'"
proof (cases "sort_packets ps [] [] None")
  case (Inr x)
  obtain left right head where x: "x = (left, right, head)" by (cases x)
  have "set left \<union> set right \<subseteq> set ps"
    using sort_packets_sub[of ps "[]" "[]" None left right head "set ps"] Inr x by simp
  with assms(2) have ok: "list_all (packet_ok env) left" "list_all (packet_ok env) right"
    by (auto simp: list_all_iff)
  note c = store_cache_ok[OF _ ok(1)] store_cache_ok[OF _ ok(2)]
  from assms(1,3) c show ?thesis
    by (auto simp: ha_store_def Inr x Let_def store_left_def store_right_def ha_inv_def
        split: if_split_asm sum.split_asm)
qed (use assms in \<open>auto simp: ha_store_def split: if_split_asm\<close>)

text \<open>Ingestion is all or nothing: a datagram that raises leaves the assembler as it was; one that is
  accepted advances the snapshot number, and renews the cache of at most one hand, whose host
  sequence number advances with it, or the head, never both.\<close>

theorem ingest_atomic:
  assumes "ha_store a ps ns = (a', r)"
  shows "(\<exists>e. r = Inl e) \<and> a' = a
    \<or> r = Inr () \<and> ha_snapshot_sequence a' = ha_snapshot_sequence a + 1
      \<and> (ha_left a' = ha_left a \<and> ha_left_sequence a' = ha_left_sequence a
           \<or> ha_right a' = ha_right a \<and> ha_right_sequence a' = ha_right_sequence a
             \<and> ha_head a' = ha_head a \<and> ha_left_sequence a' = ha_left_sequence a + 1
             \<and> hc_host_sequence (ha_left a') = Some (ha_left_sequence a) \<and> hc_receive_ns (ha_left a') = Some ns)
      \<and> (ha_right a' = ha_right a \<and> ha_right_sequence a' = ha_right_sequence a
           \<or> ha_left a' = ha_left a \<and> ha_head a' = ha_head a \<and> ha_right_sequence a' = ha_right_sequence a + 1
             \<and> hc_host_sequence (ha_right a') = Some (ha_right_sequence a) \<and> hc_receive_ns (ha_right a') = Some ns)"
  using assms
  by (auto simp: ha_store_def Let_def store_left_def store_right_def store_cache_def
      split: if_split_asm sum.split_asm prod.split_asm)

text \<open>Two packets of one right hand, as a parser would return them.\<close>

definition demo_header :: "hts_kind \<Rightarrow> int \<Rightarrow> hts_header" where
  "demo_header k sq = \<lparr>hd_kind = k, hd_side = RIGHT, hd_source_sequence = Some sq,
     hd_source_timestamp_ns = None, hd_extra_fields = []\<rparr>"

definition demo_wrist :: "int \<Rightarrow> pose_packet" where
  "demo_wrist sq = \<lparr>pp_header = demo_header WRIST sq, pp_position_m = (Fin 0, Fin 0, Fin 1),
     pp_orientation_xyzw = (Fin 0, Fin 0, Fin 0, Fin 1), pp_quaternion_norm = Fin 1\<rparr>"

definition demo_landmarks :: "int \<Rightarrow> landmarks_packet" where
  "demo_landmarks sq = \<lparr>lp_header = demo_header LANDMARKS sq,
     lp_positions_wrist_m = replicate hts_landmark_count (Fin 0, Fin 0, Fin 0)\<rparr>"

definition demo_right_hand :: "int \<Rightarrow> hts_packet list" where
  "demo_right_hand sq = [WristPacket (demo_wrist sq), LandmarksPacket (demo_landmarks sq)]"

lemmas demo_right_hand_defs = demo_right_hand_def demo_wrist_def demo_landmarks_def demo_header_def

lemma demo_right_hand_ok: "list_all (packet_ok plain_env) (demo_right_hand sq) \<longleftrightarrow> 0 \<le> sq"
proof -
  have n: "norm_accepted (Fin 1)"
    by (simp add: norm_accepted_def hts_norm_minimum_def hts_norm_tolerance_def fsub_def)
  have r: "list_all P (replicate n x) = (n = 0 \<or> P x)" for P n and x :: vec3 by (induction n) auto
  show ?thesis
    by (simp add: demo_right_hand_defs header_ok_def pose_ok_def n plain_env_def r hts_landmark_count_def)
qed

lemma demo_right_hand_store: "snd (ha_store (new_assembler 250) (demo_right_hand 5) 10) = Inr ()"
  by (simp add: ha_store_def demo_right_hand_defs store_left_def store_right_def validate_hand_observation_set_def
      map_filter_def source_sequences_def source_timestamps_def Let_def)

theorem ingest_atomic_witness:
  "hc_host_sequence (ha_right (fst (ha_store (new_assembler 250) (demo_right_hand 5) 10))) = Some 0
   \<or> ha_right (fst (ha_store (new_assembler 250) (demo_right_hand 5) 10)) = empty_hand_cache"
proof -
  have "ha_store (new_assembler 250) (demo_right_hand 5) 10
      = (fst (ha_store (new_assembler 250) (demo_right_hand 5) 10), Inr ())"
    using demo_right_hand_store by (metis prod.collapse)
  from ingest_atomic[OF this] show ?thesis by (auto simp: new_assembler_def)
qed

section \<open>Snapshots\<close>

inductive ha_reachable :: "py_env \<Rightarrow> assembler \<Rightarrow> bool" for env where
  start: "mk_assembler stale_after_s = Inr a \<Longrightarrow> ha_reachable env a"
| ingest: "ha_reachable env a \<Longrightarrow> list_all (packet_ok env) ps \<Longrightarrow>
    ha_reachable env (fst (ha_ingest env a ps ns endpoint datagram_size))"

lemma ha_ingest_fst: "fst (ha_ingest env a ps ns ep n) = fst (ha_store a ps ns)"
  by (auto simp: ha_ingest_def split: prod.split sum.split)

lemma ha_reachable_inv: "ha_reachable env a \<Longrightarrow> ha_inv env a"
proof (induction rule: ha_reachable.induct)
  case (start stale_after_s a)
  then show ?case
    by (auto simp: mk_assembler_def new_assembler_def ha_inv_def cache_ok_def empty_hand_cache_def
        split: if_split_asm sum.split_asm)
next
  case (ingest a ps ns endpoint datagram_size)
  then show ?case
    using ha_inv_store[of env a ps ns] by (metis ha_ingest_fst prod.collapse)
qed

text \<open>What an observation of a hand reports, by the state of its cache.\<close>

definition hand_report_ok :: "py_env \<Rightarrow> int \<Rightarrow> hand_cache \<Rightarrow> side \<Rightarrow> int \<Rightarrow> hand_observation \<Rightarrow> bool" where
  "hand_report_ok env stale c side now h \<longleftrightarrow>
     ho_tracking_valid h = (\<exists>r. hc_receive_ns c = Some r \<and> max 0 (now - r) \<le> stale)
     \<and> (ho_tracking_state h = (if ho_tracking_valid h then TRACKING else NOT_TRACKING))
     \<and> ho_host_sequence_number h = (if hc_receive_ns c = None then None else hc_host_sequence c)
     \<and> (if ho_tracking_valid h then
          \<exists>w l pose. hc_wrist c = Some w \<and> hc_landmarks c = Some l \<and> paired w l
            \<and> canonical_pose env (pp_position_m w) (pp_orientation_xyzw w) = Inr pose
            \<and> ho_wrist_pose h = Some pose \<and> map jo_name (ho_joints h) = hts_joint_names
            \<and> map jo_position_m (ho_joints h) = map unity_to_openxr_position (lp_positions_wrist_m l)
        else ho_wrist_pose h = None \<and> ho_joints h = [] \<and> ho_raw_quaternion_norm h = None)"

lemma length_joint_names [simp]: "length hts_joint_names = hts_landmark_count"
  by (simp add: hts_joint_names_def hts_landmark_count_def)

lemma hand_joints_names: "length ps = hts_landmark_count \<Longrightarrow>
    map jo_name (hand_joints side ps) = hts_joint_names
    \<and> map jo_position_m (hand_joints side ps) = map unity_to_openxr_position ps"
  by (simp add: hand_joints_def list_eq_iff_nth_eq)

lemma observe_hand_report:
  assumes "cache_ok env c" and "observe_hand env stale c side now = Inr h"
  shows "hand_report_ok env stale c side now h"
proof (cases "hc_receive_ns c")
  case None
  then show ?thesis using assms by (auto simp: observe_hand_def no_hand_def hand_report_ok_def)
next
  case (Some r)
  with assms(1) obtain w l where wl: "hc_wrist c = Some w" "hc_landmarks c = Some l" "paired w l"
      "length (lp_positions_wrist_m l) = hts_landmark_count"
    by (auto simp: cache_ok_def)
  show ?thesis
  proof (cases "max 0 (now - r) \<le> stale")
    case True
    with assms(2) Some wl obtain pose where
      "canonical_pose env (pp_position_m w) (pp_orientation_xyzw w) = Inr pose"
      "ho_wrist_pose h = Some pose" "ho_tracking_valid h" "ho_tracking_state h = TRACKING"
      "ho_joints h = hand_joints side (lp_positions_wrist_m l)" "ho_host_sequence_number h = hc_host_sequence c"
      by (auto simp: observe_hand_def Let_def)
    with True Some wl hand_joints_names[OF wl(4)] show ?thesis by (auto simp: hand_report_ok_def)
  next
    case False
    with assms(2) Some wl show ?thesis by (auto simp: observe_hand_def Let_def no_hand_def hand_report_ok_def)
  qed
qed


lemma demo_stale_ns: "mk_assembler (Fin 1) = Inr (new_assembler 1000000000)"
  using seconds_to_ns_exact[of 1 1000000000] by (simp add: mk_assembler_def)

lemma demo_canonical_pose:
  "canonical_pose plain_env (Fin 0, Fin 0, Fin 1) (Fin 0, Fin 0, Fin 0, Fin 1)
     = Inr \<lparr>position_m = (Fin 0, Fin 0, Fin (-1)), orientation_xyzw = (Fin 0, Fin 0, Fin 0, Fin 1)\<rparr>"
proof -
  have "round64 1 = Fin 1" using round64_of_int[of 1] by simp
  then show ?thesis
    by (simp add: canonical_pose_def normalize_quaternion_def quaternion_norm_def plain_env_def
        hts_norm_minimum_def mk_pose6d_def unity_to_openxr_pose_def pose_norm_tolerance_def fsub_def)
qed


end
