(* ===== verification/TransportGate.thy ===== *)
theory TransportGate
  imports TransportClutch HtsCanonical
begin

text \<open>
  \<open>QuestTransportGate\<close> of \<open>src/motion_input/transport_gate.py\<close>: one UDP port carries controller and
  hand/head datagrams; the gate dispatches each, counts and dates it, feeds the controller provider,
  the clutch adapter and monitor, and the assembler, and logs the changes of the two clutch channels.
  An operation returns the state it has reached with the exception it raises.
\<close>

section \<open>State\<close>

record clutch_change =
  cg_ns :: int
  cg_channel :: string
  cg_previous :: bool
  cg_current :: bool
  cg_reason :: string

record gate =
  g_started_ns :: int
  g_provider :: provider
  g_adapter :: clutch_adapter
  g_monitor :: clutch_monitor
  g_assembler :: assembler
  g_hand_count :: nat
  g_head_count :: nat
  g_malformed_ctrl :: nat
  g_malformed_hand_head :: nat
  g_unknown :: nat
  g_first_ctrl_ns :: "int option"
  g_first_hand_ns :: "int option"
  g_first_head_ns :: "int option"
  g_last_ctrl_ns :: "int option"
  g_last_hand_ns :: "int option"
  g_last_head_ns :: "int option"
  g_ages_ns :: "int list"
  g_transitions :: "clutch_change list"
  g_last_clutch :: clutch_snapshot
  g_last_canonical :: canonical_state

record datagram =
  dg_payload :: bytes
  dg_endpoint :: string
  dg_receive_ns :: int

datatype gate_error =
    GateProvider provider_error | GateClutch clutch_error | GateCanonical canonical_error
  | GateIntDigitLimit

text \<open>\<open>GateIngestResult\<close>, without the text of the error.\<close>

datatype gate_kind = CONTROLLER | HAND_HEAD | MALFORMED_CTRL | MALFORMED_HAND_HEAD | IGNORED_CTRL_FOR_LEGACY

record ingest_result =
  gr_kind :: gate_kind
  gr_accepted :: bool

definition initial_clutch :: clutch_snapshot where
  "initial_clutch =
     \<lparr>sn_arm_engaged = False, sn_hand_engaged = False, sn_arm_release_required = True,
      sn_hand_release_required = True, sn_arm_rising_edge = False, sn_arm_falling_edge = False,
      sn_hand_rising_edge = False, sn_hand_falling_edge = False\<rparr>"

definition in_provider :: "(provider_error, 'a) res \<Rightarrow> (gate_error, 'a) res" where
  "in_provider m = (case m of Inl e \<Rightarrow> Inl (GateProvider e) | Inr x \<Rightarrow> Inr x)"

definition in_clutch :: "(clutch_error, 'a) res \<Rightarrow> (gate_error, 'a) res" where
  "in_clutch m = (case m of Inl e \<Rightarrow> Inl (GateClutch e) | Inr x \<Rightarrow> Inr x)"

definition in_canonical :: "(canonical_error, 'a) res \<Rightarrow> (gate_error, 'a) res" where
  "in_canonical m = (case m of Inl e \<Rightarrow> Inl (GateCanonical e) | Inr x \<Rightarrow> Inr x)"

definition mk_gate :: "py_env \<Rightarrow> pyfloat \<Rightarrow> int \<Rightarrow> (gate_error, gate) res" where
  "mk_gate env stale_after_s started_ns =
     rbind (in_provider (mk_provider stale_after_s (Fin (1 / 4)))) (\<lambda>provider.
     rbind (in_clutch (mk_clutch_adapter default_released_at)) (\<lambda>adapter.
     rbind (in_clutch (mk_clutch_monitor default_pressed_at default_released_at)) (\<lambda>monitor.
     rbind (in_canonical (mk_assembler stale_after_s)) (\<lambda>assembler.
     rbind (in_canonical (ha_state env assembler started_ns [])) (\<lambda>canonical.
     Inr \<lparr>g_started_ns = started_ns, g_provider = provider, g_adapter = adapter, g_monitor = monitor,
          g_assembler = assembler, g_hand_count = 0, g_head_count = 0, g_malformed_ctrl = 0,
          g_malformed_hand_head = 0, g_unknown = 0, g_first_ctrl_ns = None, g_first_hand_ns = None,
          g_first_head_ns = None, g_last_ctrl_ns = None, g_last_hand_ns = None, g_last_head_ns = None,
          g_ages_ns = [], g_transitions = [], g_last_clutch = initial_clutch,
          g_last_canonical = canonical\<rparr>)))))"

section \<open>Clutch updates\<close>

definition record_transition ::
  "clutch_change list \<Rightarrow> string \<Rightarrow> bool \<Rightarrow> bool \<Rightarrow> int \<Rightarrow> clutch_change list" where
  "record_transition logged channel previous current ns =
     (if previous = current then logged
      else logged @ [\<lparr>cg_ns = ns, cg_channel = channel, cg_previous = previous, cg_current = current,
                   cg_reason = (if current then ''press_edge'' else ''release_or_invalid'')\<rparr>])"

text \<open>\<open>_update_clutches\<close> on a provider state; without one it takes a snapshot first.\<close>

definition update_clutches_with :: "gate \<Rightarrow> int \<Rightarrow> provider_snapshot \<Rightarrow> gate \<times> (gate_error, unit) res" where
  "update_clutches_with g now_ns st =
     (case ca_samples (g_adapter g) st of
        (adapter, Inl e) \<Rightarrow> (g\<lparr>g_adapter := adapter\<rparr>, Inl (GateClutch e))
      | (adapter, Inr frame) \<Rightarrow>
          let (monitor, current) = tm_update (g_monitor g) frame now_ns (pv_stale_after_ns (g_provider g));
              log1 = record_transition (g_transitions g) ''arm''
                       (sn_arm_engaged (g_last_clutch g)) (sn_arm_engaged current) now_ns;
              log2 = record_transition log1 ''hand''
                       (sn_hand_engaged (g_last_clutch g)) (sn_hand_engaged current) now_ns
          in (g\<lparr>g_adapter := adapter, g_monitor := monitor, g_transitions := log2,
                g_last_clutch := current\<rparr>, Inr ()))"

definition update_clutches :: "gate \<Rightarrow> int \<Rightarrow> provider_snapshot option \<Rightarrow> gate \<times> (gate_error, unit) res" where
  "update_clutches g now_ns state =
     (case state of
        Some st \<Rightarrow> update_clutches_with g now_ns st
      | None \<Rightarrow>
          (case pv_snapshot (g_provider g) now_ns of
             Inl e \<Rightarrow> (g, Inl (GateProvider e))
           | Inr (provider, st) \<Rightarrow> update_clutches_with (g\<lparr>g_provider := provider\<rparr>) now_ns st))"

section \<open>Ingestion\<close>

definition or_now :: "int option \<Rightarrow> int \<Rightarrow> int option" where
  "or_now first ns = (case first of None \<Rightarrow> Some ns | Some t \<Rightarrow> Some t)"

text \<open>The exceptions \<open>ingest\<close> catches; a plain \<open>ValueError\<close> of \<open>int\<close> is not one of them.\<close>

definition parse_caught :: "ctrl_error + hts_error \<Rightarrow> bool" where
  "parse_caught e \<longleftrightarrow> e \<noteq> Inl CtrlIntDigitLimit \<and> e \<noteq> Inr HtsIntDigitLimit"

text \<open>\<open>SerializationError\<close>s of the assembler; the others escape.\<close>

definition assembler_caught :: "canonical_error \<Rightarrow> bool" where
  "assembler_caught e = (case e of
      CanonHts _ \<Rightarrow> True | CanonNegativeTime \<Rightarrow> True | CanonDuplicateHead \<Rightarrow> True | CanonHeadAndHand \<Rightarrow> True
    | CanonTwoHands \<Rightarrow> True | CanonIncompleteHand \<Rightarrow> True | CanonUnpaired \<Rightarrow> True | _ \<Rightarrow> False)"

fun is_hand :: "hts_packet \<Rightarrow> bool" where
  "is_hand (HeadPosePacket p) = False"
| "is_hand p = True"

definition ingest_malformed :: "gate \<Rightarrow> datagram \<Rightarrow> gate \<times> (gate_error, ingest_result) res" where
  "ingest_malformed g d =
     (if starts_with (lit_bytes ''CTRL'') (dg_payload d) then
        let g1 = g\<lparr>g_malformed_ctrl := g_malformed_ctrl g + 1\<rparr> in
        case pv_invalidate (g_provider g1) ''malformed_ctrl'' of
          Inl e \<Rightarrow> (g1, Inl (GateProvider e))
        | Inr provider \<Rightarrow>
            (case update_clutches (g1\<lparr>g_provider := provider\<rparr>) (dg_receive_ns d) None of
               (g2, Inl e) \<Rightarrow> (g2, Inl e)
             | (g2, Inr _) \<Rightarrow> (g2, Inr \<lparr>gr_kind = MALFORMED_CTRL, gr_accepted = False\<rparr>))
      else (g\<lparr>g_malformed_hand_head := g_malformed_hand_head g + 1\<rparr>,
            Inr \<lparr>gr_kind = MALFORMED_HAND_HEAD, gr_accepted = False\<rparr>))"

definition ingest_controller ::
  "gate \<Rightarrow> datagram \<Rightarrow> controller_packet \<Rightarrow> gate \<times> (gate_error, ingest_result) res" where
  "ingest_controller g d packet =
     (case pv_update (g_provider g) packet (dg_receive_ns d) of
        Inl e \<Rightarrow> (g, Inl (GateProvider e))
      | Inr (provider, st) \<Rightarrow>
          let g1 = g\<lparr>g_provider := provider, g_first_ctrl_ns := or_now (g_first_ctrl_ns g) (dg_receive_ns d),
                     g_last_ctrl_ns := Some (dg_receive_ns d)\<rparr>
          in case update_clutches g1 (dg_receive_ns d) (Some st) of
               (g2, Inl e) \<Rightarrow> (g2, Inl e)
             | (g2, Inr _) \<Rightarrow> (g2, Inr \<lparr>gr_kind = CONTROLLER, gr_accepted = True\<rparr>))"

definition count_hand_head :: "gate \<Rightarrow> datagram \<Rightarrow> hts_packet list \<Rightarrow> gate" where
  "count_hand_head g d packets =
     (let g1 = (if list_ex is_hand packets then
                  g\<lparr>g_hand_count := g_hand_count g + 1,
                    g_first_hand_ns := or_now (g_first_hand_ns g) (dg_receive_ns d),
                    g_last_hand_ns := Some (dg_receive_ns d)\<rparr>
                else g)
      in if list_ex (\<lambda>p. \<not> is_hand p) packets then
           g1\<lparr>g_head_count := g_head_count g1 + 1,
              g_first_head_ns := or_now (g_first_head_ns g1) (dg_receive_ns d),
              g_last_head_ns := Some (dg_receive_ns d)\<rparr>
         else g1)"

definition ingest_hand_head ::
  "py_env \<Rightarrow> gate \<Rightarrow> datagram \<Rightarrow> hts_packet list \<Rightarrow> gate \<times> (gate_error, ingest_result) res" where
  "ingest_hand_head env g d packets =
     (if packets = [] then
        (g\<lparr>g_unknown := g_unknown g + 1\<rparr>, Inr \<lparr>gr_kind = IGNORED_CTRL_FOR_LEGACY, gr_accepted = False\<rparr>)
      else
        (case ha_ingest env (g_assembler g) packets (dg_receive_ns d) (dg_endpoint d) (length (dg_payload d)) of
           (assembler, Inl e) \<Rightarrow>
             if assembler_caught e then
               (g\<lparr>g_assembler := assembler, g_malformed_hand_head := g_malformed_hand_head g + 1\<rparr>,
                Inr \<lparr>gr_kind = MALFORMED_HAND_HEAD, gr_accepted = False\<rparr>)
             else (g\<lparr>g_assembler := assembler\<rparr>, Inl (GateCanonical e))
         | (assembler, Inr st) \<Rightarrow>
             (count_hand_head (g\<lparr>g_assembler := assembler, g_last_canonical := st\<rparr>) d packets,
              Inr \<lparr>gr_kind = HAND_HEAD, gr_accepted = True\<rparr>)))"

definition gate_ingest :: "py_env \<Rightarrow> gate \<Rightarrow> datagram \<Rightarrow> gate \<times> (gate_error, ingest_result) res" where
  "gate_ingest env g d =
     (case parse_quest_datagram env (dg_payload d) of
        Inl e \<Rightarrow> if parse_caught e then ingest_malformed g d else (g, Inl GateIntDigitLimit)
      | Inr (ControllerDatagram packet) \<Rightarrow> ingest_controller g d packet
      | Inr (HandHeadDatagram packets) \<Rightarrow> ingest_hand_head env g d packets)"

definition gate_poll :: "py_env \<Rightarrow> gate \<Rightarrow> int \<Rightarrow> gate \<times> (gate_error, unit) res" where
  "gate_poll env g now_ns =
     (case pv_snapshot (g_provider g) now_ns of
        Inl e \<Rightarrow> (g, Inl (GateProvider e))
      | Inr (provider, st) \<Rightarrow>
          (case update_clutches (g\<lparr>g_provider := provider\<rparr>) now_ns (Some st) of
             (g1, Inl e) \<Rightarrow> (g1, Inl e)
           | (g1, Inr _) \<Rightarrow>
               (case ha_state env (g_assembler g1) now_ns [] of
                  Inl e \<Rightarrow> (g1, Inl (GateCanonical e))
                | Inr canonical \<Rightarrow> (g1\<lparr>g_last_canonical := canonical\<rparr>, Inr ()))))"

section \<open>Reports\<close>

text \<open>\<open>int(timeout_s * 1e9)\<close> may raise on an infinite or undefined timeout.\<close>

definition missing_required_streams :: "gate \<Rightarrow> pyfloat \<Rightarrow> int \<Rightarrow> (conv_error, string list) res" where
  "missing_required_streams g timeout_s now_ns =
     rbind (seconds_to_ns timeout_s) (\<lambda>timeout_ns.
     if now_ns - g_started_ns g < timeout_ns then Inr []
     else Inr ((if g_first_ctrl_ns g = None then [''CTRL''] else [])
               @ (if g_first_hand_ns g = None then [''right_hand''] else [])))"

text \<open>The summary polls, appends the age sample, and derives its figures from the state.\<close>

record gate_summary =
  gs_elapsed_s :: pyfloat
  gs_hand_rate_hz :: pyfloat
  gs_head_rate_hz :: pyfloat
  gs_ctrl_rate_hz :: pyfloat
  gs_state :: provider_snapshot
  gs_index :: pyfloat
  gs_grip :: pyfloat
  gs_clutch :: clutch_snapshot
  gs_right_hand_valid :: bool
  gs_head_valid :: bool

definition gate_rate :: "nat \<Rightarrow> pyfloat \<Rightarrow> pyfloat" where
  "gate_rate n elapsed_s = fdiv (round64 (of_nat n)) elapsed_s"

definition gate_summarize :: "py_env \<Rightarrow> gate \<Rightarrow> int \<Rightarrow> gate \<times> (gate_error, gate_summary) res" where
  "gate_summarize env g0 now_ns =
     (case gate_poll env g0 now_ns of
        (g, Inl e) \<Rightarrow> (g, Inl e)
      | (g, Inr _) \<Rightarrow>
          (case pv_snapshot (g_provider g) now_ns of
             Inl e \<Rightarrow> (g, Inl (GateProvider e))
           | Inr (provider, st) \<Rightarrow>
               let g1 = g\<lparr>g_provider := provider,
                          g_ages_ns := g_ages_ns g @ (case ps_sample_age_ns st of None \<Rightarrow> [] | Some a \<Rightarrow> [a])\<rparr>;
                   elapsed_s = fmax (ns_to_seconds (now_ns - g_started_ns g))
                                 (Fin (4835703278458517 / 4835703278458516698824704))
               in (g1, Inr
                 \<lparr>gs_elapsed_s = elapsed_s, gs_hand_rate_hz = gate_rate (g_hand_count g1) elapsed_s,
                  gs_head_rate_hz = gate_rate (g_head_count g1) elapsed_s,
                  gs_ctrl_rate_hz = gate_rate (pv_packet_count (ps_provider st)) elapsed_s,
                  gs_state = st,
                  gs_index = (case ps_latest st of None \<Rightarrow> Fin 0 | Some p \<Rightarrow> cp_index_trigger p),
                  gs_grip = (case ps_latest st of None \<Rightarrow> Fin 0 | Some p \<Rightarrow> cp_grip_trigger p),
                  gs_clutch = g_last_clutch g1,
                  gs_right_hand_valid = ho_tracking_valid (cs_right (g_last_canonical g1)),
                  gs_head_valid = (cs_head (g_last_canonical g1) \<noteq> None)\<rparr>)))"

text \<open>\<open>_percentile\<close> on the sorted samples, and its index: \<open>min(n - 1, max(0, ceil(f * n) - 1))\<close>.\<close>

definition percentile_index :: "pyfloat \<Rightarrow> nat \<Rightarrow> (conv_error, int) res" where
  "percentile_index fraction n =
     rbind (case fmul fraction (Fin (of_nat n)) of
              Fin r \<Rightarrow> Inr \<lceil>r\<rceil> | NaN \<Rightarrow> Inl ValueErrorNaN | _ \<Rightarrow> Inl OverflowError)
       (\<lambda>c. Inr (min (int n - 1) (max 0 (c - 1))))"

definition percentile :: "rat list \<Rightarrow> pyfloat \<Rightarrow> (conv_error, rat option) res" where
  "percentile values fraction =
     (if values = [] then Inr None
      else rbind (percentile_index fraction (length values)) (\<lambda>i. Inr (Some (sort values ! nat i))))"

section \<open>Invariant\<close>

text \<open>The changes of one channel alternate, from disengaged to the channel's present state.\<close>

fun toggles :: "bool \<Rightarrow> clutch_change list \<Rightarrow> bool \<Rightarrow> bool" where
  "toggles b [] c = (b = c)"
| "toggles b (t # ts) c = (cg_previous t = b \<and> cg_current t = (\<not> b)
     \<and> cg_reason t = (if b then ''release_or_invalid'' else ''press_edge'') \<and> toggles (\<not> b) ts c)"

definition channel_log :: "gate \<Rightarrow> string \<Rightarrow> clutch_change list" where
  "channel_log g ch = filter (\<lambda>t. cg_channel t = ch) (g_transitions g)"

lemma toggles_snoc: "toggles b (ts @ [t]) c \<longleftrightarrow> toggles b ts (\<not> c) \<and> cg_previous t = (\<not> c) \<and> cg_current t = c
    \<and> cg_reason t = (if c then ''press_edge'' else ''release_or_invalid'')"
  by (induction ts arbitrary: b) auto

lemma toggles_record:
  "toggles b (filter (\<lambda>t. cg_channel t = ch) logged) p \<Longrightarrow>
   toggles b (filter (\<lambda>t. cg_channel t = ch) (record_transition logged ch p c ns)) c"
  by (auto simp: record_transition_def toggles_snoc)

lemma filter_record_other:
  "ch \<noteq> ch' \<Longrightarrow> filter (\<lambda>t. cg_channel t = ch) (record_transition logged ch' p c ns)
     = filter (\<lambda>t. cg_channel t = ch) logged"
  by (simp add: record_transition_def)

definition log_inv :: "gate \<Rightarrow> bool" where
  "log_inv g \<longleftrightarrow> toggles False (channel_log g ''arm'') (sn_arm_engaged (g_last_clutch g))
     \<and> toggles False (channel_log g ''hand'') (sn_hand_engaged (g_last_clutch g))"

text \<open>The provider only ever holds a packet the parser returned.\<close>

definition fed_inv :: "provider \<Rightarrow> bool" where
  "fed_inv s \<longleftrightarrow> pv_inv s \<and> (\<forall>p \<in> set_option (pv_latest s). packet_in_range p)
     \<and> (\<forall>r \<in> set_option (pv_host_receive_ns s). 0 \<le> r)"

definition gate_inv :: "py_env \<Rightarrow> gate \<Rightarrow> bool" where
  "gate_inv env g \<longleftrightarrow> fed_inv (g_provider g) \<and> tm_inv (g_monitor g) \<and> ha_inv env (g_assembler g) \<and> log_inv g"

lemma pv_snapshot_report:
  "pv_snapshot s now = Inr (s', st) \<Longrightarrow> ps_latest st = pv_latest s \<and> ps_host_receive_ns st = pv_host_receive_ns s"
  by (cases "now < 0"; cases "pv_stale s now \<and> \<not> pv_stale_latched s") (auto simp: pv_snapshot_def Let_def)

lemma fed_inv_snapshot:
  assumes "fed_inv s" and "pv_snapshot s now = Inr (s', st)"
  shows "fed_inv s' \<and> ps_latest st = pv_latest s \<and> ps_host_receive_ns st = pv_host_receive_ns s
    \<and> pv_latest s' = pv_latest s"
  using pv_snapshot_same[OF assms(2)] pv_snapshot_Inr[OF assms(2)] pv_snapshot_report[OF assms(2)] assms(1)
  unfolding fed_inv_def pv_same_def by simp

lemma mk_analog_sample_in_range:
  "packet_in_range p \<Longrightarrow> 0 \<le> r \<Longrightarrow>
   (\<exists>i. mk_analog_sample (cp_index_trigger p) r (cp_sequence_number p) v src = Inr i)
   \<and> (\<exists>i. mk_analog_sample (cp_grip_trigger p) r (cp_sequence_number p) v src = Inr i)"
  by (auto simp: mk_analog_sample_def packet_in_range_def)

lemma ca_samples_total:
  assumes "\<forall>p \<in> set_option (ps_latest st). packet_in_range p" "\<forall>r \<in> set_option (ps_host_receive_ns st). 0 \<le> r"
  shows "\<exists>a' f. ca_samples a st = (a', Inr f)"
proof (cases "ps_latest st")
  case (Some p)
  show ?thesis
  proof (cases "ps_host_receive_ns st")
    case (Some r)
    with assms \<open>ps_latest st = Some p\<close> mk_analog_sample_in_range[of p r] show ?thesis
      by (auto simp: ca_samples_def Let_def) (metis rbind.simps(2))
  qed (auto simp: ca_samples_def Some mk_analog_sample_def)
qed (auto simp: ca_samples_def mk_analog_sample_def)

lemma update_clutches_with_inv:
  assumes "update_clutches_with g now st = (g', r)" and "tm_inv (g_monitor g)" and "log_inv g"
    and "\<forall>p \<in> set_option (ps_latest st). packet_in_range p" "\<forall>r \<in> set_option (ps_host_receive_ns st). 0 \<le> r"
  shows "r = Inr () \<and> tm_inv (g_monitor g') \<and> log_inv g' \<and> g_provider g' = g_provider g
    \<and> g_assembler g' = g_assembler g
    \<and> (sn_arm_engaged (g_last_clutch g') \<or> sn_hand_engaged (g_last_clutch g') \<longrightarrow> ps_controller_valid st)"
proof -
  obtain a f where f: "ca_samples (g_adapter g) st = (a, Inr f)" using ca_samples_total[OF assms(4,5)] by blast
  obtain m snap where t: "tm_update (g_monitor g) f now (pv_stale_after_ns (g_provider g)) = (m, snap)" by fastforce
  have v: "fr_controller_valid f = ps_controller_valid st \<or> \<not> fr_controller_valid f"
    using f by (auto simp: ca_samples_def Let_def split: option.split_asm)
  have "tm_inv m" using tm_update_inv[OF assms(2), of f now "pv_stale_after_ns (g_provider g)"] t by simp
  moreover have "sn_arm_engaged snap \<or> sn_hand_engaged snap \<Longrightarrow> ps_controller_valid st"
    using tm_update_engaged_valid[OF assms(2), of f now "pv_stale_after_ns (g_provider g)"] t v
    by (auto simp: inputs_valid_def)
  moreover have "log_inv g'"
    using assms(1,3)
    by (auto simp: update_clutches_with_def f t Let_def log_inv_def channel_log_def filter_record_other
        intro!: toggles_record)
  ultimately show ?thesis using assms(1) by (auto simp: update_clutches_with_def f t Let_def)
qed

lemma fed_inv_parts: "fed_inv s \<Longrightarrow> (\<forall>p \<in> set_option (pv_latest s). packet_in_range p)
    \<and> (\<forall>r \<in> set_option (pv_host_receive_ns s). 0 \<le> r)"
  by (simp add: fed_inv_def)

lemma fed_inv_update:
  assumes "fed_inv s" and "packet_in_range p" and "pv_update s p ns = Inr (s', st)"
  shows "fed_inv s' \<and> ps_latest st = pv_latest s' \<and> ps_host_receive_ns st = pv_host_receive_ns s'"
proof -
  obtain u where u: "0 \<le> ns" "pv_update_core s p ns = Inr u" "pv_snapshot u ns = Inr (s', st)"
    using pv_update_split[OF assms(3)] by blast
  have inv: "pv_inv s" using assms(1) by (simp add: fed_inv_def)
  have rep: "ps_latest st = pv_latest s' \<and> ps_host_receive_ns st = pv_host_receive_ns s'"
    using pv_snapshot_report[OF u(3)] pv_snapshot_same[OF u(3)] by (simp add: pv_same_def)
  have "pv_call s (PvUpdate p ns) = s'" by (simp add: pv_call.simps assms(3))
  with pv_update_effect[OF inv, of p ns] have "pv_accepts s p ns s' \<or> pv_same s s'" by auto
  then have "(pv_latest s' = Some p \<and> pv_host_receive_ns s' = Some ns) \<or> pv_same s s'"
    by (auto simp: pv_accepts_def)
  then have "(\<forall>q \<in> set_option (pv_latest s'). packet_in_range q)
      \<and> (\<forall>r \<in> set_option (pv_host_receive_ns s'). 0 \<le> r)"
  proof
    assume "pv_latest s' = Some p \<and> pv_host_receive_ns s' = Some ns"
    then show ?thesis using assms(2) u(1) by simp
  next
    assume "pv_same s s'"
    then have "pv_latest s' = pv_latest s" "pv_host_receive_ns s' = pv_host_receive_ns s"
      by (simp_all only: pv_same_def)
    then show ?thesis using fed_inv_parts[OF assms(1)] by simp
  qed
  with pv_inv_update[OF inv assms(3)] have "fed_inv s'" by (simp only: fed_inv_def simp_thms)
  with rep show ?thesis by (simp only: simp_thms)
qed

lemma fed_inv_invalidate: "fed_inv s \<Longrightarrow> pv_invalidate s r = Inr s' \<Longrightarrow> fed_inv s'"
  by (auto simp: fed_inv_def pv_invalidate_def split: if_split_asm)

text \<open>The controller path of the gate, from a provider state whose snapshot is at hand.\<close>

lemma gate_inv_controller:
  assumes "gate_inv env g" and "fed_inv s'" and "ps_latest st = pv_latest s'"
    and "ps_host_receive_ns st = pv_host_receive_ns s'"
    and "g_monitor g1 = g_monitor g" "g_transitions g1 = g_transitions g" "g_last_clutch g1 = g_last_clutch g"
    and "g_assembler g1 = g_assembler g" "g_provider g1 = s'"
    and "update_clutches_with g1 now st = (g', r)"
  shows "r = Inr () \<and> gate_inv env g' \<and> g_provider g' = s' \<and> g_assembler g' = g_assembler g
    \<and> (sn_arm_engaged (g_last_clutch g') \<or> sn_hand_engaged (g_last_clutch g') \<longrightarrow> ps_controller_valid st)"
proof -
  have "tm_inv (g_monitor g1)" "log_inv g1"
    using assms(1,5-7) by (simp_all add: gate_inv_def log_inv_def channel_log_def)
  from update_clutches_with_inv[OF assms(10) this] fed_inv_parts[OF assms(2)] assms show ?thesis
    by (simp add: gate_inv_def)
qed

lemma update_clutches_Some: "update_clutches g now (Some st) = update_clutches_with g now st"
  by (simp add: update_clutches_def)

lemma gate_poll_effect:
  assumes "gate_inv env g" and "gate_poll env g now = (g', r)"
  shows "gate_inv env g'
    \<and> (\<forall>e. r = Inl e \<longrightarrow> 0 \<le> now \<longrightarrow> (\<exists>c. e = GateCanonical c \<and> ha_state env (g_assembler g) now [] = Inl c))
    \<and> (r = Inr () \<longrightarrow> (\<exists>s st. pv_snapshot (g_provider g) now = Inr (s, st) \<and> g_provider g' = s
         \<and> (sn_arm_engaged (g_last_clutch g') \<or> sn_hand_engaged (g_last_clutch g') \<longrightarrow> ps_controller_valid st)))"
proof (cases "pv_snapshot (g_provider g) now")
  case (Inl e)
  then have "now < 0" using pv_snapshot_total[of now "g_provider g"] by force
  with Inl assms show ?thesis by (auto simp: gate_poll_def)
next
  case (Inr x)
  obtain s st where x: "x = (s, st)" by (cases x)
  obtain g1 r1 where u: "update_clutches_with (g\<lparr>g_provider := s\<rparr>) now st = (g1, r1)" by fastforce
  have fed: "fed_inv (g_provider g)" using assms(1) by (simp add: gate_inv_def)
  have rep: "fed_inv s" "ps_latest st = pv_latest s" "ps_host_receive_ns st = pv_host_receive_ns s"
    using fed_inv_snapshot[OF fed] pv_snapshot_same[of "g_provider g" now s st] Inr x by (auto simp: pv_same_def)
  note c = gate_inv_controller[OF assms(1) rep _ _ _ _ _ u, simplified]
  show ?thesis
  proof (cases "ha_state env (g_assembler g1) now []")
    case (Inl e)
    with Inr x u c assms(2) show ?thesis by (auto simp: gate_poll_def update_clutches_Some)
  next
    case ok: (Inr canonical)
    with Inr x u c assms(2) show ?thesis
      by (auto simp: gate_poll_def update_clutches_Some gate_inv_def log_inv_def channel_log_def)
  qed
qed

lemma ingest_controller_effect:
  assumes "gate_inv env g" and "packet_in_range p" and "ingest_controller g d p = (g', r)"
  shows "gate_inv env g' \<and> (0 \<le> dg_receive_ns d \<longrightarrow> r = Inr \<lparr>gr_kind = CONTROLLER, gr_accepted = True\<rparr>)"
proof (cases "pv_update (g_provider g) p (dg_receive_ns d)")
  case (Inl e)
  have "pv_session_inv (g_provider g)" using assms(1) by (simp add: gate_inv_def fed_inv_def pv_inv_def)
  then obtain u where "pv_update_core (g_provider g) p (dg_receive_ns d) = Inr u"
    using pv_update_core_total by blast
  with Inl have "dg_receive_ns d < 0"
    using pv_snapshot_total[of "dg_receive_ns d" u] by (auto simp: pv_update_def split: if_split_asm)
  with Inl assms show ?thesis by (auto simp: ingest_controller_def)
next
  case (Inr x)
  obtain s st where x: "x = (s, st)" by (cases x)
  have fed: "fed_inv (g_provider g)" using assms(1) by (simp add: gate_inv_def)
  note rep = fed_inv_update[OF fed assms(2) Inr[unfolded x]]
  let ?g1 = "g\<lparr>g_provider := s, g_first_ctrl_ns := or_now (g_first_ctrl_ns g) (dg_receive_ns d),
              g_last_ctrl_ns := Some (dg_receive_ns d)\<rparr>"
  obtain g2 r2 where u: "update_clutches_with ?g1 (dg_receive_ns d) st = (g2, r2)" by fastforce
  have r2: "r2 = Inr ()" and g2: "gate_inv env g2"
    using gate_inv_controller[OF assms(1) _ _ _ _ _ _ _ _ u, of s] rep by simp_all
  have "ingest_controller g d p = (g2, Inr \<lparr>gr_kind = CONTROLLER, gr_accepted = True\<rparr>)"
    by (simp add: ingest_controller_def Inr x update_clutches_Some u[unfolded r2, simplified])
  with assms(3) g2 show ?thesis by simp
qed

lemma ingest_malformed_effect:
  assumes "gate_inv env g" and "ingest_malformed g d = (g', r)"
  shows "gate_inv env g' \<and> (0 \<le> dg_receive_ns d \<longrightarrow> (\<exists>res. r = Inr res \<and> \<not> gr_accepted res))
    \<and> (r = Inr \<lparr>gr_kind = MALFORMED_CTRL, gr_accepted = False\<rparr> \<longrightarrow>
         \<not> sn_arm_engaged (g_last_clutch g') \<and> \<not> sn_hand_engaged (g_last_clutch g'))"
proof (cases "starts_with (lit_bytes ''CTRL'') (dg_payload d)")
  case False
  then show ?thesis using assms
    by (auto simp: ingest_malformed_def gate_inv_def log_inv_def channel_log_def)
next
  case True
  let ?g1 = "g\<lparr>g_malformed_ctrl := g_malformed_ctrl g + 1\<rparr>"
  have "\<not> blank ''malformed_ctrl''" by (simp add: blank_def is_space_def)
  then obtain s where s: "pv_invalidate (g_provider g) ''malformed_ctrl'' = Inr s"
    "pv_forced_invalid_reason s \<noteq> None"
    by (auto simp: pv_invalidate_def)
  have fed: "fed_inv s" using assms(1) fed_inv_invalidate[OF _ s(1)] by (simp add: gate_inv_def)
  show ?thesis
  proof (cases "pv_snapshot s (dg_receive_ns d)")
    case (Inl e)
    then have "dg_receive_ns d < 0" using pv_snapshot_total[of "dg_receive_ns d" s] by force
    with Inl s True assms fed show ?thesis
      by (auto simp: ingest_malformed_def update_clutches_def gate_inv_def log_inv_def channel_log_def Let_def)
  next
    case (Inr x)
    obtain s2 st where x: "x = (s2, st)" by (cases x)
    obtain g2 r2 where u: "update_clutches_with (?g1\<lparr>g_provider := s2\<rparr>) (dg_receive_ns d) st = (g2, r2)"
      by fastforce
    have rep: "fed_inv s2" "ps_latest st = pv_latest s2" "ps_host_receive_ns st = pv_host_receive_ns s2"
      using fed_inv_snapshot[OF fed] pv_snapshot_same[of s "dg_receive_ns d" s2 st] Inr x
      by (auto simp: pv_same_def)
    have nv: "\<not> ps_controller_valid st"
      using Inr s(2) unfolding x by (auto simp: pv_snapshot_def Let_def split: if_split_asm)
    have r2: "r2 = Inr ()" and g2: "gate_inv env g2
        \<and> \<not> sn_arm_engaged (g_last_clutch g2) \<and> \<not> sn_hand_engaged (g_last_clutch g2)"
      using gate_inv_controller[OF assms(1) rep _ _ _ _ _ u] nv by simp_all
    have "ingest_malformed g d = (g2, Inr \<lparr>gr_kind = MALFORMED_CTRL, gr_accepted = False\<rparr>)"
      by (simp add: ingest_malformed_def Inr x s(1) True Let_def update_clutches_def u[unfolded r2, simplified])
    with assms(2) g2 show ?thesis by auto
  qed
qed

text \<open>The hand and head path: which exceptions the assembler can raise on parsed packets.\<close>

lemma sort_packets_error:
  assumes "sort_packets ps l r h = Inl e" and "list_all (packet_ok env) ps"
  shows "e = CanonDuplicateHead"
  using assms
  by (induction ps l r h rule: sort_packets.induct)
     (auto simp: header_ok_def split: if_split_asm side.split_asm)

lemma ha_store_error:
  assumes "ha_store a ps ns = (a', Inl e)" and "list_all (packet_ok env) ps"
  shows "assembler_caught e"
  using assms
  by (auto simp: ha_store_def Let_def store_left_def store_right_def validate_hand_observation_set_def
      assembler_caught_def split: if_split_asm sum.split_asm prod.split_asm dest: sort_packets_error)

lemma canonical_pose_error: "canonical_pose env v q = Inl e \<Longrightarrow> assembler_caught e \<or> e = CanonPose"
  by (auto simp: canonical_pose_def mk_pose6d_def unity_to_openxr_pose_def assembler_caught_def rbind_eq_Inl
      split: sum.split_asm if_split_asm)

lemma observe_hand_error:
  assumes "cache_ok env c" and "observe_hand env stale c side now = Inl e"
  shows "assembler_caught e \<or> e = CanonPose"
  using assms
  by (auto simp: observe_hand_def cache_ok_def Let_def rbind_eq_Inl
      split: option.split_asm if_split_asm dest: canonical_pose_error)

lemma ha_state_error:
  assumes "ha_inv env a" and "ha_state env a now md = Inl e"
  shows "assembler_caught e \<or> e = CanonPose"
  using assms
  by (auto simp: ha_state_def ha_inv_def Let_def rbind_eq_Inl observe_head_def
      split: option.split_asm if_split_asm dest: observe_hand_error canonical_pose_error)

lemma ha_ingest_effect:
  assumes "ha_inv env a" and "list_all (packet_ok env) ps" and "ha_ingest env a ps ns ep n = (a', r)"
  shows "ha_inv env a' \<and> (\<forall>e. r = Inl e \<longrightarrow> assembler_caught e \<or> e = CanonPose)"
proof -
  obtain r0 where st: "ha_store a ps ns = (a', r0)"
    using assms(3) ha_ingest_fst[of env a ps ns ep n] by (cases "ha_store a ps ns") simp
  have inv: "ha_inv env a'" using ha_inv_store[OF assms(1,2) st] .
  show ?thesis
  proof (cases r0)
    case (Inl e)
    then have "r = Inl e" using st assms(3) by (simp add: ha_ingest_def)
    with ha_store_error[OF st[unfolded Inl] assms(2)] inv show ?thesis by simp
  next
    case (Inr x)
    then have "ha_state env a' ns (ingest_metadata ep n) = r" using st assms(3) by (simp add: ha_ingest_def)
    with ha_state_error[OF inv] inv show ?thesis by blast
  qed
qed

lemma count_hand_head_fields [simp]:
  "g_provider (count_hand_head g d ps) = g_provider g" "g_monitor (count_hand_head g d ps) = g_monitor g"
  "g_assembler (count_hand_head g d ps) = g_assembler g" "g_transitions (count_hand_head g d ps) = g_transitions g"
  "g_last_clutch (count_hand_head g d ps) = g_last_clutch g"
  by (simp_all add: count_hand_head_def Let_def)

lemma ingest_hand_head_effect:
  assumes "gate_inv env g" and "list_all (packet_ok env) ps" and "ingest_hand_head env g d ps = (g', r)"
  shows "gate_inv env g' \<and> g_last_clutch g' = g_last_clutch g \<and> (\<forall>e. r = Inl e \<longrightarrow> e = GateCanonical CanonPose)"
proof -
  obtain a r0 where h: "ha_ingest env (g_assembler g) ps (dg_receive_ns d) (dg_endpoint d) (length (dg_payload d)) = (a, r0)"
    by fastforce
  have "ha_inv env (g_assembler g)" using assms(1) by (simp add: gate_inv_def)
  note e = ha_ingest_effect[OF this assms(2) h]
  show ?thesis
  proof (cases "ps = []")
    case True
    with assms show ?thesis by (auto simp: ingest_hand_head_def gate_inv_def log_inv_def channel_log_def)
  next
    case False
    show ?thesis
    proof (cases r0)
      case (Inl err)
      with False h e assms(1,3) show ?thesis
        by (cases "assembler_caught err")
           (auto simp: ingest_hand_head_def gate_inv_def log_inv_def channel_log_def)
    next
      case (Inr st)
      with False h e assms(1,3) show ?thesis
        by (auto simp: ingest_hand_head_def gate_inv_def log_inv_def channel_log_def)
    qed
  qed
qed

lemma parsed_controller: "parse_quest_datagram env payload = Inr (ControllerDatagram p) \<Longrightarrow> packet_in_range p"
proof -
  assume "parse_quest_datagram env payload = Inr (ControllerDatagram p)"
  then have "parse_controller_datagram hts_max_datagram_bytes payload = Inr p"
    by (auto simp: parse_quest_datagram_def split: if_split_asm sum.split_asm)
  then obtain line where "parse_controller_line line = Inr p"
    using parse_controller_datagram_Inr by blast
  then obtain raw where "ctrl_packet_of_raw raw = Inr p" using parse_controller_line_Inr by blast
  then show ?thesis using ctrl_packet_of_raw_range by blast
qed

lemma parsed_hand_head:
  assumes "parse_quest_datagram env payload = Inr (HandHeadDatagram ps)"
  shows "list_all (packet_ok env) ps"
proof -
  from assms have "parse_hts_datagram env payload = Inr ps"
    by (auto simp: parse_quest_datagram_def split: if_split_asm sum.split_asm)
  then obtain ls where "rmap (parse_hts_line env) ls = Inr ps"
    by (auto simp: parse_hts_datagram_def split: if_split_asm option.split_asm)
  from rmap_Inr_set[OF this] parse_hts_line_ok show ?thesis by (metis list_all_iff)
qed

lemma gate_ingest_effect:
  assumes "gate_inv env g" and "gate_ingest env g d = (g', r)"
  shows "gate_inv env g'
    \<and> (\<forall>e. r = Inl e \<longrightarrow> 0 \<le> dg_receive_ns d \<longrightarrow> e = GateIntDigitLimit \<or> e = GateCanonical CanonPose)
    \<and> (r = Inr \<lparr>gr_kind = MALFORMED_CTRL, gr_accepted = False\<rparr> \<longrightarrow>
         \<not> sn_arm_engaged (g_last_clutch g') \<and> \<not> sn_hand_engaged (g_last_clutch g'))"
proof (cases "parse_quest_datagram env (dg_payload d)")
  case (Inl e)
  show ?thesis
  proof (cases "parse_caught e")
    case True
    with Inl assms(2) have "ingest_malformed g d = (g', r)" by (simp add: gate_ingest_def)
    from ingest_malformed_effect[OF assms(1) this] show ?thesis by auto
  next
    case False
    with Inl assms show ?thesis by (auto simp: gate_ingest_def)
  qed
next
  case (Inr q)
  show ?thesis
  proof (cases q)
    case (ControllerDatagram p)
    with Inr assms(2) have h: "ingest_controller g d p = (g', r)" by (simp add: gate_ingest_def)
    have "packet_in_range p" using Inr ControllerDatagram parsed_controller by blast
    note e = ingest_controller_effect[OF assms(1) this h]
    have "r \<noteq> Inr \<lparr>gr_kind = MALFORMED_CTRL, gr_accepted = False\<rparr>"
      using h by (auto simp: ingest_controller_def split: sum.split_asm prod.split_asm)
    with e show ?thesis by auto
  next
    case (HandHeadDatagram ps)
    with Inr assms(2) have h: "ingest_hand_head env g d ps = (g', r)" by (simp add: gate_ingest_def)
    moreover have "list_all (packet_ok env) ps" using Inr HandHeadDatagram parsed_hand_head by blast
    moreover have "r \<noteq> Inr \<lparr>gr_kind = MALFORMED_CTRL, gr_accepted = False\<rparr>"
      using h by (auto simp: ingest_hand_head_def split: if_split_asm sum.split_asm prod.split_asm)
    ultimately show ?thesis using ingest_hand_head_effect[OF assms(1)] by blast
  qed
qed

section \<open>Properties of the gate\<close>

text \<open>A gate in use: every call's state is kept, also when it raised.\<close>

datatype gate_call = Ingest datagram | Poll int

fun gate_do :: "py_env \<Rightarrow> gate \<Rightarrow> gate_call \<Rightarrow> gate" where
  "gate_do env g (Ingest d) = fst (gate_ingest env g d)"
| "gate_do env g (Poll now) = fst (gate_poll env g now)"

inductive gate_reachable :: "py_env \<Rightarrow> gate \<Rightarrow> bool" for env where
  start: "mk_gate env stale_after_s started = Inr g \<Longrightarrow> gate_reachable env g"
| call: "gate_reachable env g \<Longrightarrow> gate_reachable env (gate_do env g c)"

lemma gate_inv_mk: "mk_gate env stale_after_s started = Inr g \<Longrightarrow> gate_inv env g"
proof -
  assume m: "mk_gate env stale_after_s started = Inr g"
  then obtain p a mo as c where parts: "mk_provider stale_after_s (Fin (1 / 4)) = Inr p"
      "mk_clutch_monitor default_pressed_at default_released_at = Inr mo" "mk_assembler stale_after_s = Inr as"
      and g: "g_provider g = p" "g_monitor g = mo" "g_assembler g = as" "g_last_clutch g = initial_clutch"
        "g_transitions g = []"
    by (auto simp: mk_gate_def in_provider_def in_clutch_def in_canonical_def split: sum.split_asm)
  from parts(1) have "fed_inv p"
    by (auto simp: mk_provider_def fed_inv_def pv_inv_new) (simp_all add: new_provider_def)
  moreover have "tm_inv mo" using parts(2) by (auto simp: mk_clutch_monitor_def tm_inv_def)
  moreover have "ha_inv env as" using parts(3) ha_reachable_inv ha_reachable.start by blast
  ultimately show ?thesis by (simp add: gate_inv_def g log_inv_def channel_log_def initial_clutch_def)
qed

lemma gate_reachable_inv: "gate_reachable env g \<Longrightarrow> gate_inv env g"
proof (induction rule: gate_reachable.induct)
  case (call g c)
  show ?case
  proof (cases c)
    case (Ingest d)
    then show ?thesis using gate_ingest_effect[OF call.IH, of d] by (metis gate_do.simps(1) prod.collapse)
  next
    case (Poll now)
    then show ?thesis using gate_poll_effect[OF call.IH, of now] by (metis gate_do.simps(2) prod.collapse)
  qed
qed (rule gate_inv_mk)

text \<open>A gate that has just been built, and a controller line of more digits than \<open>int\<close> converts.\<close>

lemma demo_gate: "\<exists>g. mk_gate plain_env (Fin 1) 0 = Inr g \<and> g_last_clutch g = initial_clutch
    \<and> g_provider g = new_provider 1000000000 250000000
    \<and> g_assembler g = new_assembler 1000000000 \<and> ca_samples (g_adapter g) = ca_samples
       \<lparr>ca_released_at = default_released_at, ca_shared_release_required = True, ca_session_id = None\<rparr>"
proof -
  have "seconds_to_ns (Fin 1) = Inr 1000000000" "seconds_to_ns (Fin (1 / 4)) = Inr 250000000"
    using seconds_to_ns_exact[of 1 1000000000] seconds_to_ns_exact[of "1 / 4" 250000000] by simp_all
  then have p: "mk_provider (Fin 1) (Fin (1 / 4)) = Inr (new_provider 1000000000 250000000)"
    by (simp add: mk_provider_def positive_seconds_ns_def)
  show ?thesis
    by (simp add: mk_gate_def p demo_stale_ns in_provider_def in_clutch_def in_canonical_def mk_clutch_adapter_def
        mk_clutch_monitor_def mk_hold_to_run_def default_released_at_def default_pressed_at_def ha_state_def
        observe_hand_def observe_head_def new_assembler_def empty_hand_cache_def Let_def)
qed

lemma demo_gate_poll:
  assumes "mk_gate plain_env (Fin 1) 0 = Inr g" "g_provider g = new_provider 1000000000 250000000"
    and "g_assembler g = new_assembler 1000000000"
  shows "\<exists>g'. gate_poll plain_env g 5 = (g', Inr ())"
proof -
  have inv: "gate_inv plain_env g" using assms(1) by (rule gate_inv_mk)
  obtain g' r where p: "gate_poll plain_env g 5 = (g', r)" by fastforce
  have "\<exists>st. ha_state plain_env (g_assembler g) 5 [] = Inr st"
    by (simp add: assms(3) ha_state_def observe_hand_def observe_head_def new_assembler_def
        empty_hand_cache_def Let_def)
  with gate_poll_effect[OF inv p] p show ?thesis by (cases r) auto
qed

lemma demo_bad_ctrl:
  "parse_quest_datagram plain_env (lit_bytes ''CTRL,x'') = Inl (Inl CtrlFieldCount)
   \<and> starts_with (lit_bytes ''CTRL'') (lit_bytes ''CTRL,x'')"
proof -
  have "utf8_decode (lit_bytes ''CTRL,x'') = Some (lit ''CTRL,x'')"
    by (simp add: utf8_decode_def lit_bytes_def lit_def)
  moreover have "splitlines (lit ''CTRL,x'') = [lit ''CTRL,x''] \<and> lit ''CTRL,x'' \<noteq> []"
    by (simp add: splitlines_def is_line_break_def lit_def)
  moreover have "parse_controller_line (lit ''CTRL,x'') = Inl CtrlFieldCount"
    by (simp add: parse_controller_line_def lit_def ctrl_field_names_def)
  ultimately show ?thesis
    by (simp add: parse_quest_datagram_def parse_controller_datagram_def hts_max_datagram_bytes_def)
       (simp add: lit_bytes_def)
qed

definition long_raw :: "pystr list" where
  "long_raw = [lit ''1'', replicate 4301 48, lit ''1'', lit ''1'', lit ''1'', lit ''1'', lit ''1'', lit ''0'', lit ''0'']"

lemma long_raw_facts: "length long_raw = 9" "\<forall>v \<in> set long_raw. plain_value v"
    "length (ctrl_line long_raw) \<le> hts_max_datagram_bytes"
    "ctrl_packet_of_raw long_raw = Inl CtrlIntDigitLimit"
proof -
  have r: "plain_value (replicate n 48)" "is_uint_text (replicate n 48)" if "0 < n" for n
    using that by (auto simp: plain_value_def is_uint_text_def list_all_iff is_digit_def)
  have r1: "plain_value (replicate 4301 48)" and r2: "is_uint_text (replicate 4301 48)"
    by (rule r, simp)+
  have len: "length (replicate 4301 (48 :: nat)) = 4301" by (rule length_replicate)
  define big where "big = replicate 4301 (48 :: nat)"
  note b = r1[folded big_def] r2[folded big_def] len[folded big_def]
  note def = long_raw_def[folded big_def]
  show "length long_raw = 9" by (simp add: def)
  show "\<forall>v \<in> set long_raw. plain_value v" using b(1) by (simp add: def) (simp add: plain_value_def lit_def)
  show "length (ctrl_line long_raw) \<le> hts_max_datagram_bytes"
    by (simp add: def b(3) ctrl_line_def ctrl_field_def ctrl_field_names_def lit_def hts_max_datagram_bytes_def)
  have "parse_uint (lit ''1'') = Inr 1"
    by (simp add: parse_uint_def lit_def is_uint_text_def is_digit_def py_int_of_digits_def
        int_max_str_digits_def digits_value_def uint64_max_def)
  moreover have "parse_uint big = Inl CtrlIntDigitLimit"
    using b(2,3) by (simp add: parse_uint_def py_int_of_digits_def int_max_str_digits_def)
  ultimately show "ctrl_packet_of_raw long_raw = Inl CtrlIntDigitLimit"
    by (simp add: ctrl_packet_of_raw_def def)
qed

lemma long_payload:
  "parse_quest_datagram env (ascii_bytes (ctrl_line long_raw)) = Inl (Inl CtrlIntDigitLimit)"
proof -
  define big where "big = replicate 4301 (48 :: nat)"
  have "starts_with (lit_bytes ''CTRL,'') (ascii_bytes (ctrl_line long_raw))"
    by (simp add: long_raw_def[folded big_def] ctrl_line_def ctrl_field_names_def ascii_bytes_def lit_def
        lit_bytes_def)
  then show ?thesis
    using parse_ctrl_line_datagram[OF long_raw_facts(1,2,3)] long_raw_facts(4)
    by (simp add: parse_quest_datagram_def)
qed

text \<open>C7. After a poll at \<open>now\<close>, a channel can be engaged only on a controller packet with valid facts that was
  received within the stale window before \<open>now\<close> and not invalidated since; and a datagram counted as
  malformed CTRL leaves both channels disengaged.\<close>

theorem gate_engaged_fresh:
  assumes "gate_reachable env g" and "gate_poll env g now = (g', Inr ())"
    and "gate_ingest env g d = (h, Inr \<lparr>gr_kind = MALFORMED_CTRL, gr_accepted = False\<rparr>)"
  shows "(sn_arm_engaged (g_last_clutch g') \<or> sn_hand_engaged (g_last_clutch g') \<longrightarrow>
      (\<exists>p r. pv_latest (g_provider g) = Some p \<and> pv_host_receive_ns (g_provider g) = Some r \<and> facts_valid p
         \<and> r \<le> now \<and> now - r \<le> pv_stale_after_ns (g_provider g)
         \<and> pv_forced_invalid_reason (g_provider g) = None))
    \<and> \<not> sn_arm_engaged (g_last_clutch h) \<and> \<not> sn_hand_engaged (g_last_clutch h)"
proof -
  note inv = gate_reachable_inv[OF assms(1)]
  from gate_poll_effect[OF inv assms(2)] obtain s st where st: "pv_snapshot (g_provider g) now = Inr (s, st)"
    "sn_arm_engaged (g_last_clutch g') \<or> sn_hand_engaged (g_last_clutch g') \<Longrightarrow> ps_controller_valid st" by auto
  have "\<exists>p r. pv_latest (g_provider g) = Some p \<and> pv_host_receive_ns (g_provider g) = Some r \<and> facts_valid p
         \<and> r \<le> now \<and> now - r \<le> pv_stale_after_ns (g_provider g)
         \<and> pv_forced_invalid_reason (g_provider g) = None" if "ps_controller_valid st"
    using st(1) that
    by (cases "pv_latest (g_provider g)"; cases "pv_host_receive_ns (g_provider g)")
       (auto simp: pv_snapshot_def Let_def pv_stale_def split: if_split_asm)
  with st(2) gate_ingest_effect[OF inv assms(3)] show ?thesis by blast
qed

text \<open>On a datagram with a host time, the only exceptions that leave the gate are the plain
  \<open>ValueError\<close> of an integer of more than 4300 digits and the rejection of a pose whose normalised
  quaternion is not a unit one: every other malformed datagram is counted, not raised.\<close>

theorem gate_escaping_exceptions:
  assumes "gate_reachable env g" and "0 \<le> dg_receive_ns d" and "gate_ingest env g d = (g', Inl e)"
  shows "e = GateIntDigitLimit \<or> e = GateCanonical CanonPose"
  using gate_ingest_effect[OF gate_reachable_inv[OF assms(1)] assms(3)] assms(2) by blast

text \<open>The transition log tells the truth: the changes of each channel alternate, start from disengaged,
  carry the reason of their direction, and end in the state the gate reports.\<close>

theorem gate_transition_log:
  assumes "gate_reachable env g"
  shows "toggles False (channel_log g ''arm'') (sn_arm_engaged (g_last_clutch g))
    \<and> toggles False (channel_log g ''hand'') (sn_hand_engaged (g_last_clutch g))"
  using gate_reachable_inv[OF assms] by (simp add: gate_inv_def log_inv_def)

theorem gate_engaged_fresh_witness:
  "\<exists>g h. mk_gate plain_env (Fin 1) 0 = Inr g \<and> h = fst (gate_ingest plain_env g
       \<lparr>dg_payload = lit_bytes ''CTRL,x'', dg_endpoint = ''quest:9000'', dg_receive_ns = 7\<rparr>)
     \<and> \<not> sn_arm_engaged (g_last_clutch h)"
proof -
  obtain g where g: "mk_gate plain_env (Fin 1) 0 = Inr g" "g_provider g = new_provider 1000000000 250000000"
      "g_assembler g = new_assembler 1000000000" using demo_gate by blast
  have r: "gate_reachable plain_env g" using g(1) by (rule gate_reachable.start)
  obtain g' where p: "gate_poll plain_env g 5 = (g', Inr ())" using demo_gate_poll[OF g] by blast
  define d where "d = \<lparr>dg_payload = lit_bytes ''CTRL,x'', dg_endpoint = ''quest:9000'', dg_receive_ns = 7\<rparr>"
  obtain h res where i: "gate_ingest plain_env g d = (h, res)" by fastforce
  then have m: "ingest_malformed g d = (h, res)"
    using demo_bad_ctrl by (simp add: gate_ingest_def d_def parse_caught_def)
  have "0 \<le> dg_receive_ns d" by (simp add: d_def)
  with ingest_malformed_effect[OF gate_inv_mk[OF g(1)] m] obtain x where x: "res = Inr x" by blast
  have "x = \<lparr>gr_kind = MALFORMED_CTRL, gr_accepted = False\<rparr>"
    using m demo_bad_ctrl x by (auto simp: ingest_malformed_def d_def Let_def split: sum.split_asm prod.split_asm)
  with i x have "gate_ingest plain_env g d = (h, Inr \<lparr>gr_kind = MALFORMED_CTRL, gr_accepted = False\<rparr>)" by simp
  from gate_engaged_fresh[OF r p this] i g(1) show ?thesis by (auto simp: d_def)
qed

theorem gate_escaping_exceptions_witness:
  "\<exists>g. mk_gate plain_env (Fin 1) 0 = Inr g \<and> snd (gate_ingest plain_env g
       \<lparr>dg_payload = ascii_bytes (ctrl_line long_raw), dg_endpoint = ''quest:9000'', dg_receive_ns = 7\<rparr>)
     = Inl GateIntDigitLimit"
proof -
  obtain g where g: "mk_gate plain_env (Fin 1) 0 = Inr g" using demo_gate by blast
  define d where "d = \<lparr>dg_payload = ascii_bytes (ctrl_line long_raw), dg_endpoint = ''quest:9000'',
       dg_receive_ns = 7\<rparr>"
  have i: "gate_ingest plain_env g d = (g, Inl GateIntDigitLimit)"
    by (simp add: gate_ingest_def d_def long_payload parse_caught_def)
  from gate_escaping_exceptions[OF gate_reachable.start[OF g] _ i] i g show ?thesis by (auto simp: d_def)
qed

theorem gate_transition_log_witness:
  "\<exists>g. mk_gate plain_env (Fin 1) 0 = Inr g \<and> toggles False (channel_log g ''arm'') False"
proof -
  obtain g where g: "mk_gate plain_env (Fin 1) 0 = Inr g" "g_last_clutch g = initial_clutch"
    using demo_gate by blast
  from gate_transition_log[OF gate_reachable.start[OF g(1)]] g show ?thesis by (auto simp: initial_clutch_def)
qed

end
