(* ===== verification/ByteCodec.thy ===== *)
theory ByteCodec
  imports Prelude "HOL-Library.Word"
begin

text \<open>
  The interface of a fixed-width byte codec, which the serial registers and the teleoperation wire
  protocol share: one value is written as a fixed number of bytes and read back; lists of values
  follow once for all codecs.
\<close>

section \<open>The interface\<close>

locale fixed_codec =
  fixes width :: nat
    and enc :: "'a \<Rightarrow> 'b list"
    and dec :: "'b list \<Rightarrow> 'a"
    and ok :: "'a \<Rightarrow> bool"
  assumes width_pos: "0 < width"
    and enc_width: "length (enc x) = width"
    and dec_enc: "ok x \<Longrightarrow> dec (enc x) = x"
begin

definition enc_all :: "'a list \<Rightarrow> 'b list" where
  "enc_all xs = concat (map enc xs)"

fun dec_all :: "nat \<Rightarrow> 'b list \<Rightarrow> 'a list" where
  "dec_all 0 bs = []"
| "dec_all (Suc n) bs = dec (take width bs) # dec_all n (drop width bs)"

lemma enc_all_length: "length (enc_all xs) = width * length xs"
  by (induction xs) (simp_all add: enc_all_def enc_width)

lemma dec_all_enc_all: "\<forall>x \<in> set xs. ok x \<Longrightarrow> dec_all (length xs) (enc_all xs @ rest) = xs"
  by (induction xs) (simp_all add: enc_all_def enc_width dec_enc)

lemma dec_all_nth: "i < n \<Longrightarrow> dec_all n bs ! i = dec (take width (drop (width * i) bs))"
proof (induction n arbitrary: bs i)
  case (Suc n)
  then show ?case by (cases i) (simp_all add: drop_drop add.commute)
qed simp

lemma dec_all_length [simp]: "length (dec_all n bs) = n"
  by (induction n arbitrary: bs) simp_all

lemma enc_inj: "ok x \<Longrightarrow> ok y \<Longrightarrow> enc x = enc y \<Longrightarrow> x = y"
  by (metis dec_enc)

end

section \<open>Sums of bytes\<close>

text \<open>A checksum that is the sum of the bytes modulo 256 changes with any one byte.\<close>

lemma sum_list_update_byte:
  fixes bs :: "8 word list"
  assumes "i < length bs" and "b \<noteq> bs ! i"
  shows "sum_list (bs[i := b]) \<noteq> sum_list bs"
proof -
  have s: "sum_list (bs[i := c]) = sum_list (take i bs) + c + sum_list (drop (Suc i) bs)" for c
    by (subst upd_conv_take_nth_drop[OF assms(1)]) (simp add: add.assoc)
  from s[of "bs ! i"] have "sum_list bs = sum_list (take i bs) + bs ! i + sum_list (drop (Suc i) bs)" by simp
  with s[of b] assms(2) show ?thesis by simp
qed

text \<open>Two little-endian bytes of an integer.\<close>

unbundle bit_operations_syntax

lemma int_and_255: "(x :: int) AND 255 = x mod 256"
  using take_bit_eq_mask[of 8 x] by (simp add: mask_eq_exp_minus_1 take_bit_eq_mod)

lemma int_or_shift:
  assumes "0 \<le> (lo :: int)" "lo < 256"
  shows "lo OR push_bit 8 hi = lo + 256 * hi"
proof -
  have "lo AND push_bit 8 hi = 0"
  proof (rule bit_eqI)
    fix n
    have "\<not> bit lo n" if "8 \<le> n"
    proof -
      have "take_bit 8 lo = lo" using assms by (simp add: take_bit_int_eq_self_iff)
      then show ?thesis using that by (metis bit_take_bit_iff linorder_not_less)
    qed
    then show "bit (lo AND push_bit 8 hi) n = bit 0 n"
      by (auto simp: bit_and_iff bit_push_bit_iff)
  qed
  then have "lo OR push_bit 8 hi = lo + push_bit 8 hi" by (simp add: disjunctive_add_eq_or)
  then show ?thesis by (simp add: push_bit_eq_mult)
qed

end
