(* ===== verification/HandSchema.thy ===== *)
theory HandSchema
  imports PyFloat
begin

text \<open>
  The finger orders of the RH56 hand, \<open>src/rh56_driver/hand_schema.py\<close>: validation of an order and the
  reordering between raw (device) and canonical order. \<open>numpy\<close>'s cast to \<open>float32\<close> is a parameter
  \<open>cast32\<close>; what is used of it is that small integers are exact.
\<close>

section \<open>Orders\<close>

definition canonical_hand_order :: "string list" where
  "canonical_hand_order = [''index'', ''middle'', ''ring'', ''pinky'', ''thumb_close'', ''thumb_lateral'']"

definition rh56_internal_order :: "string list" where
  "rh56_internal_order = [''thumb_close'', ''thumb_lateral'', ''index'', ''middle'', ''ring'', ''pinky'']"

definition rh56_protocol_order :: "string list" where
  "rh56_protocol_order = [''pinky'', ''ring'', ''middle'', ''index'', ''thumb_close'', ''thumb_lateral'']"

datatype schema_error =
    DuplicateNames | NotCanonicalNames | WrongLength | MissingName | InvalidCalibration

definition validate_order :: "string list \<Rightarrow> (schema_error, string list) res" where
  "validate_order order =
     (if length order \<noteq> length (remdups order) then Inl DuplicateNames
      else if \<not> set canonical_hand_order \<subseteq> set order \<or> \<not> set order \<subseteq> set canonical_hand_order
      then Inl NotCanonicalNames
      else Inr order)"

section \<open>Reordering\<close>

definition as_array :: "(pyfloat \<Rightarrow> pyfloat) \<Rightarrow> pyfloat list \<Rightarrow> nat \<Rightarrow> (schema_error, pyfloat list) res" where
  "as_array cast32 values expected =
     (if length values \<noteq> expected then Inl WrongLength else Inr (map cast32 values))"

definition reorder_values ::
  "(pyfloat \<Rightarrow> pyfloat) \<Rightarrow> pyfloat list \<Rightarrow> string list \<Rightarrow> string list \<Rightarrow> (schema_error, pyfloat list) res" where
  "reorder_values cast32 values source_order target_order =
     rbind (validate_order source_order) (\<lambda>source.
     rbind (validate_order target_order) (\<lambda>target.
     rbind (as_array cast32 values (length source)) (\<lambda>array.
     let by_name = map_of (zip source array) in
     rmap (\<lambda>name. case by_name name of Some v \<Rightarrow> Inr v | None \<Rightarrow> Inl MissingName) target)))"

definition raw_to_canonical :: "(pyfloat \<Rightarrow> pyfloat) \<Rightarrow> pyfloat list \<Rightarrow> string list \<Rightarrow> (schema_error, pyfloat list) res" where
  "raw_to_canonical cast32 values raw_order = reorder_values cast32 values raw_order canonical_hand_order"

definition canonical_to_raw :: "(pyfloat \<Rightarrow> pyfloat) \<Rightarrow> pyfloat list \<Rightarrow> string list \<Rightarrow> (schema_error, pyfloat list) res" where
  "canonical_to_raw cast32 values raw_order = reorder_values cast32 values canonical_hand_order raw_order"

section \<open>Calibration\<close>

record dof_calibration =
  dc_raw_open :: pyfloat
  dc_raw_close :: pyfloat
  dc_direction_sign :: int
  dc_safe_min :: pyfloat
  dc_safe_max :: pyfloat
  dc_default_speed :: pyfloat
  dc_default_force_limit :: pyfloat

text \<open>\<open>from_open_close\<close> with the default speed and force; an absent safe bound is that of the range.\<close>

definition from_open_close :: "pyfloat \<Rightarrow> pyfloat \<Rightarrow> pyfloat option \<Rightarrow> pyfloat option \<Rightarrow> pyfloat \<Rightarrow> pyfloat \<Rightarrow> dof_calibration" where
  "from_open_close raw_open raw_close safe_min safe_max default_speed default_force_limit =
     \<lparr>dc_raw_open = raw_open, dc_raw_close = raw_close,
      dc_direction_sign = (if fle raw_open raw_close then 1 else - 1),
      dc_safe_min = (case safe_min of None \<Rightarrow> fmin raw_open raw_close | Some v \<Rightarrow> v),
      dc_safe_max = (case safe_max of None \<Rightarrow> fmax raw_open raw_close | Some v \<Rightarrow> v),
      dc_default_speed = default_speed, dc_default_force_limit = default_force_limit\<rparr>"

definition default_rh56_calibration :: dof_calibration where
  "default_rh56_calibration = from_open_close (Fin 1000) (Fin 0) None None (Fin 800) (Fin 500)"

section \<open>Normalised positions\<close>

text \<open>The smallest range a calibration may have, \<open>1e-9\<close>.\<close>

definition calibration_floor :: pyfloat where
  "calibration_floor = round64 (1 / 1000000000)"

definition normalize_dof :: "dof_calibration \<Rightarrow> pyfloat \<Rightarrow> (schema_error, pyfloat) res" where
  "normalize_dof dof raw =
     (let denom = fsub (dc_raw_close dof) (dc_raw_open dof) in
      if flt (fabs denom) calibration_floor then Inl InvalidCalibration
      else Inr (np_clip (fdiv (fsub raw (dc_raw_open dof)) denom) (Fin 0) (Fin 1)))"

definition normalize_raw ::
  "(pyfloat \<Rightarrow> pyfloat) \<Rightarrow> pyfloat list \<Rightarrow> string list \<Rightarrow> (string \<Rightarrow> dof_calibration) \<Rightarrow> (schema_error, pyfloat list) res" where
  "normalize_raw cast32 raw_values raw_order calibration =
     rbind (raw_to_canonical cast32 raw_values raw_order) (\<lambda>canonical_raw.
     rmap (\<lambda>(name, raw). normalize_dof (calibration name) raw) (zip canonical_hand_order canonical_raw))"

definition denormalize_dof :: "dof_calibration \<Rightarrow> pyfloat \<Rightarrow> pyfloat" where
  "denormalize_dof dof v =
     (let clipped = np_clip v (Fin 0) (Fin 1);
          raw = fadd (dc_raw_open dof) (fmul clipped (fsub (dc_raw_close dof) (dc_raw_open dof))) in
      np_clip raw (dc_safe_min dof) (dc_safe_max dof))"

definition denormalize_canonical ::
  "(pyfloat \<Rightarrow> pyfloat) \<Rightarrow> pyfloat list \<Rightarrow> string list \<Rightarrow> (string \<Rightarrow> dof_calibration) \<Rightarrow> (schema_error, pyfloat list) res" where
  "denormalize_canonical cast32 normalized_values raw_order calibration =
     rbind (as_array cast32 normalized_values (length canonical_hand_order)) (\<lambda>normalized.
     canonical_to_raw cast32
       (map (\<lambda>(name, v). denormalize_dof (calibration name) v) (zip canonical_hand_order normalized)) raw_order)"

text \<open>
  The single-precision difference is the double-precision one rounded again, which is the same number
  for operands that are single-precision floats.
\<close>

definition compute_delta ::
  "(pyfloat \<Rightarrow> pyfloat) \<Rightarrow> pyfloat list \<Rightarrow> pyfloat list \<Rightarrow> pyfloat \<Rightarrow> (schema_error, pyfloat list) res" where
  "compute_delta cast32 current_cmd target_cmd limit =
     rbind (as_array cast32 current_cmd (length canonical_hand_order)) (\<lambda>current.
     rbind (as_array cast32 target_cmd (length canonical_hand_order)) (\<lambda>target.
     Inr (map2 (\<lambda>t c. cast32 (np_clip (cast32 (fsub t c)) (fneg (fabs limit)) (fabs limit))) target current)))"

definition apply_delta ::
  "(pyfloat \<Rightarrow> pyfloat) \<Rightarrow> pyfloat list \<Rightarrow> pyfloat list \<Rightarrow> pyfloat \<Rightarrow> (schema_error, pyfloat list) res" where
  "apply_delta cast32 current_cmd delta limit =
     rbind (as_array cast32 current_cmd (length canonical_hand_order)) (\<lambda>current.
     rbind (as_array cast32 delta (length canonical_hand_order)) (\<lambda>d.
     Inr (map2 (\<lambda>c x. cast32 (np_clip (cast32 (fadd c (cast32 (np_clip x (fneg (fabs limit)) (fabs limit))))) (Fin 0) (Fin 1)))
        current d)))"

section \<open>Orders are permutations\<close>

lemma canonical_order_facts [simp]:
  "distinct canonical_hand_order" "length canonical_hand_order = 6"
  by (simp_all add: canonical_hand_order_def)

lemma validate_order_Inr:
  "validate_order order = Inr o' \<longleftrightarrow> o' = order \<and> distinct order \<and> set order = set canonical_hand_order"
proof -
  have "length order \<noteq> length (remdups order) \<longleftrightarrow> \<not> distinct order"
    by (metis distinct_remdups_id length_remdups_eq remdups_id_iff_distinct)
  then show ?thesis by (auto simp: validate_order_def)
qed

lemma valid_order_length: "validate_order order = Inr o' \<Longrightarrow> length order = 6"
  using distinct_card[of order] distinct_card[of canonical_hand_order] by (auto simp: validate_order_Inr)

lemma rmap_lookup:
  "(\<forall>n \<in> set target. f n \<noteq> None) \<Longrightarrow>
   rmap (\<lambda>n. case f n of Some v \<Rightarrow> Inr v | None \<Rightarrow> Inl MissingName) target = Inr (map (the \<circ> f) target)"
  by (induction target) auto

lemma reorder_values_Inr:
  assumes "validate_order src = Inr s" "validate_order tgt = Inr t" "length values = 6"
  shows "reorder_values cast32 values src tgt = Inr (map (\<lambda>n. the (map_of (zip src (map cast32 values)) n)) tgt)"
proof -
  have len: "length src = length values" using valid_order_length[OF assms(1)] assms(3) by simp
  have keys: "dom (map_of (zip src (map cast32 values))) = set src"
    using len by (simp add: dom_map_of_zip)
  have "set tgt = set src" using assms(1,2) by (simp add: validate_order_Inr)
  then have "\<forall>n \<in> set tgt. map_of (zip src (map cast32 values)) n \<noteq> None" using keys by (auto simp: dom_def)
  from rmap_lookup[OF this] assms len show ?thesis
    by (simp add: reorder_values_def as_array_def validate_order_Inr comp_def)
qed

lemma map_the_zip: "distinct ks \<Longrightarrow> length ks = length vs \<Longrightarrow> map (\<lambda>k. the (map_of (zip ks vs) k)) ks = vs"
  by (rule nth_equalityI) (simp_all add: map_of_zip_nth)

definition cast32_exact :: "(pyfloat \<Rightarrow> pyfloat) \<Rightarrow> bool" where
  "cast32_exact cast32 \<longleftrightarrow> (\<forall>n. \<bar>n\<bar> \<le> 2 ^ 24 \<longrightarrow> cast32 (Fin (of_int n)) = Fin (of_int n))"

lemma cast32_exact_map:
  "cast32_exact cast32 \<Longrightarrow> \<forall>v \<in> set vs. \<bar>v\<bar> \<le> 2 ^ 24 \<Longrightarrow>
   map cast32 (map (\<lambda>n. Fin (of_int n)) vs) = map (\<lambda>n. Fin (of_int n)) vs"
  by (auto simp: cast32_exact_def)

text \<open>Reordering there and back is the identity on values the cast keeps.\<close>

lemma reorder_back:
  assumes "validate_order src = Inr s" "validate_order tgt = Inr t" "length values = 6"
    and "map cast32 values = values" and "reorder_values cast32 values src tgt = Inr moved"
  shows "reorder_values cast32 moved tgt src = Inr values \<and> set moved = set values \<and> length moved = 6"
proof -
  have len: "length src = length values" "length tgt = 6"
    using valid_order_length[OF assms(1)] valid_order_length[OF assms(2)] assms(3) by simp_all
  have d: "distinct src" "distinct tgt" "set tgt = set src" using assms(1,2) by (simp_all add: validate_order_Inr)
  define f where "f = (\<lambda>n. the (map_of (zip src values) n))"
  have moved: "moved = map f tgt"
    using reorder_values_Inr[OF assms(1-3), of cast32] assms(4,5) by (simp add: f_def)
  have vals: "map f src = values" unfolding f_def using d(1) len(1) by (rule map_the_zip)
  have fixed: "cast32 v = v" if "v \<in> set values" for v
    using assms(4) that by (metis in_set_conv_nth length_map nth_map)
  have sm: "set moved = set values" unfolding moved vals[symmetric] using d(3) by simp
  have cm: "map cast32 moved = moved" using fixed sm by (auto intro: map_idI)
  have ret: "reorder_values cast32 moved tgt src = Inr (map (\<lambda>n. the (map_of (zip tgt (map f tgt)) n)) src)"
    using reorder_values_Inr[OF assms(2,1), of moved cast32, unfolded cm] len(2) by (simp add: moved)
  have "the (map_of (zip tgt (map f tgt)) n) = f n" if "n \<in> set src" for n
    using that d(3) by (simp add: map_of_zip_map)
  with ret vals sm len show ?thesis by (simp add: moved cong: map_cong)
qed

section \<open>Device values stay in the safe range\<close>

lemma canonical_to_raw_set:
  assumes "canonical_to_raw cast32 vs order = Inr rs" and "r \<in> set rs"
  shows "\<exists>v \<in> set vs. r = cast32 v"
proof -
  from assms(1) obtain src tgt where o: "validate_order canonical_hand_order = Inr src" "validate_order order = Inr tgt"
    by (auto simp: canonical_to_raw_def reorder_values_def)
  have len: "length vs = 6" using assms(1) o
    by (auto simp: canonical_to_raw_def reorder_values_def as_array_def validate_order_Inr split: if_split_asm)
  have "rs = map (\<lambda>n. the (map_of (zip canonical_hand_order (map cast32 vs)) n)) order"
    using reorder_values_Inr[OF o len, of cast32] assms(1) by (simp add: canonical_to_raw_def)
  then obtain n where n: "n \<in> set order" "r = the (map_of (zip canonical_hand_order (map cast32 vs)) n)"
    using assms(2) by auto
  have "n \<in> set canonical_hand_order" using n(1) o(2) by (simp add: validate_order_Inr)
  then obtain v where v: "map_of (zip canonical_hand_order (map cast32 vs)) n = Some v"
    using len by (metis canonical_order_facts(2) length_map map_of_zip_is_Some)
  then have "v \<in> cast32 ` set vs" by (auto dest!: map_of_SomeD set_zip_rightD)
  with n(2) v show ?thesis by auto
qed

lemma canonical_to_raw_length:
  assumes "canonical_to_raw cast32 vs order = Inr rs"
  shows "length rs = 6"
proof -
  from assms obtain src tgt arr where o: "validate_order order = Inr tgt"
    and rs: "rmap (\<lambda>name. case map_of (zip src arr) name of Some v \<Rightarrow> Inr v | None \<Rightarrow> Inl MissingName) tgt = Inr rs"
    by (auto simp: canonical_to_raw_def reorder_values_def)
  then show ?thesis using valid_order_length[OF o] rmap_Inr_length[OF rs] by (simp add: validate_order_Inr)
qed

lemma denormalize_dof_range:
  assumes "fle (dc_safe_min dof) (dc_safe_max dof)"
  shows "denormalize_dof dof v = NaN
    \<or> (fle (dc_safe_min dof) (denormalize_dof dof v) \<and> fle (denormalize_dof dof v) (dc_safe_max dof))"
  unfolding denormalize_dof_def Let_def by (rule np_clip_range[OF assms])

lemma denormalize_range:
  assumes "denormalize_canonical cast32 vs order calibration = Inr rs" and "r \<in> set rs"
    and "\<forall>name. fle (dc_safe_min (calibration name)) (dc_safe_max (calibration name))"
  shows "\<exists>name v. r = cast32 v \<and> (v = NaN \<or> (fle (dc_safe_min (calibration name)) v \<and> fle v (dc_safe_max (calibration name))))"
proof -
  obtain ns where ns: "canonical_to_raw cast32
      (map (\<lambda>(name, v). denormalize_dof (calibration name) v) (zip canonical_hand_order ns)) order = Inr rs"
    using assms(1) by (auto simp: denormalize_canonical_def)
  from canonical_to_raw_set[OF this assms(2)] denormalize_dof_range assms(3) show ?thesis by fastforce
qed

text \<open>A calibration with a positive range inverts: a normalised value is a fraction of the range.\<close>

lemma normalize_raw_range:
  assumes "normalize_raw cast32 raws order calibration = Inr ns" and "v \<in> set ns"
  shows "v = NaN \<or> (fle (Fin 0) v \<and> fle v (Fin 1))"
proof -
  from assms(1) obtain cr where cr: "rmap (\<lambda>(name, raw). normalize_dof (calibration name) raw) (zip canonical_hand_order cr) = Inr ns"
    by (auto simp: normalize_raw_def)
  obtain name raw where "normalize_dof (calibration name) raw = Inr v"
    using rmap_Inr_set[OF cr assms(2)] by auto
  then show ?thesis
    using np_clip_range[of "Fin 0" "Fin 1"] by (auto simp: normalize_dof_def Let_def split: if_split_asm)
qed

end
