(* ===== verification/SerialBackend.thy ===== *)
theory SerialBackend
  imports HandSchema ByteCodec PyText
begin

text \<open>
  The RS485 backend of the RH56 hand, \<open>src/rh56_driver/serial_backend.py\<close>: framing and checksum,
  register reads and writes with their failure bookkeeping, vectors of six fingers. The serial device is
  an argument: \<open>reads\<close> lists what \<open>read\<close> returns, in order, until the deadline of one exchange (an empty
  chunk is a read that returned nothing).
\<close>

section \<open>State\<close>

record failure_record =
  fl_code :: string
  fl_operation :: string
  fl_address :: int
  fl_register :: "string option"
  fl_context :: "(string \<times> int) list"

datatype serial_error =
    SerialError failure_record | NotConnected | ByteOutOfRange | ShortPayload | VectorLength | VectorRange
  | UnknownPreset | UnsupportedCommand | UnsupportedGestureOrder | SchemaFailure schema_error
  | RoundFailure conv_error | PortRequired | NegativeDelay

datatype gesture_order = GestureName string | GestureOrder "string list"

record serial_backend =
  sb_hand_id :: int
  sb_connected :: bool
  sb_protocol_order :: "string list"
  sb_gesture_order :: gesture_order
  sb_gestures :: "(string \<times> int list) list"
  sb_last_mode :: string
  sb_write_count :: nat
  sb_timeout_count :: nat
  sb_checksum_failures :: nat
  sb_protocol_errors :: nat
  sb_last_failure :: "failure_record option"

text \<open>\<open>REG\<close> and \<open>_register_name\<close>.\<close>

definition rh56_registers :: "(string \<times> int) list" where
  "rh56_registers = [(''CLEAR_ERROR'', 1004), (''GESTURE_FORCE_CLB'', 1009), (''POS_SET'', 1474),
     (''ANGLE_SET'', 1486), (''FORCE_SET'', 1498), (''SPEED_SET'', 1522), (''POS_ACT'', 1534),
     (''ANGLE_ACT'', 1546), (''FORCE_ACT'', 1582), (''CURRENT'', 1594), (''ERROR'', 1606),
     (''STATUS'', 1612), (''TEMP'', 1618), (''ACTION_SEQ_IDX'', 2320), (''ACTION_SEQ_RUN'', 2322)]"

definition register_name :: "int \<Rightarrow> string option" where
  "register_name address = map_option fst (find (\<lambda>nv. snd nv = address) rh56_registers)"

text \<open>\<open>__init__\<close> from the configured values: an empty port and a negative delay are refused.\<close>

definition mk_serial_backend ::
  "string \<Rightarrow> pyfloat \<Rightarrow> int \<Rightarrow> string list \<Rightarrow> gesture_order \<Rightarrow> (string \<times> int list) list \<Rightarrow> (serial_error, serial_backend) res" where
  "mk_serial_backend port delay_ms hand_id protocol_order gesture_order gestures =
     (if blank port then Inl PortRequired
      else if flt (fdiv delay_ms (Fin 1000)) (Fin 0) then Inl NegativeDelay
      else Inr \<lparr>sb_hand_id = hand_id, sb_connected = False, sb_protocol_order = protocol_order,
                sb_gesture_order = gesture_order, sb_gestures = gestures, sb_last_mode = ''idle'',
                sb_write_count = 0, sb_timeout_count = 0, sb_checksum_failures = 0,
                sb_protocol_errors = 0, sb_last_failure = None\<rparr>)"

definition sb_connect :: "serial_backend \<Rightarrow> serial_backend" where
  "sb_connect sb = sb\<lparr>sb_connected := True\<rparr>"

definition sb_close_port :: "serial_backend \<Rightarrow> serial_backend" where
  "sb_close_port sb = sb\<lparr>sb_connected := False\<rparr>"

section \<open>Frames\<close>

definition build_frame :: "int list \<Rightarrow> (serial_error, 8 word list) res" where
  "build_frame payload =
     (let checksum = sum_list payload AND 255 in
      if list_all (\<lambda>b. 0 \<le> b \<and> b < 256) payload
      then Inr (map word_of_int ([235, 144] @ payload @ [checksum]))
      else Inl ByteOutOfRange)"

text \<open>\<open>_split_frames\<close> on the rest of the buffer from index \<open>i\<close> on.\<close>

function split_frames :: "8 word list \<Rightarrow> 8 word list list" where
  "split_frames buffer =
     (if length buffer < 5 then []
      else if buffer ! 0 \<noteq> 144 \<or> buffer ! 1 \<noteq> 235 then split_frames (tl buffer)
      else let total_len = unat (buffer ! 3) + 5 in
           if length buffer < total_len then []
           else take total_len buffer # split_frames (drop total_len buffer))"
  by pat_completeness auto

termination
  by (relation "measure length") auto

declare split_frames.simps [simp del]

definition validate_checksum :: "8 word list \<Rightarrow> bool" where
  "validate_checksum frame \<longleftrightarrow>
     6 \<le> length frame \<and> sum_list (map uint (butlast (drop 2 frame))) AND 255 = uint (last frame)"

text \<open>The loop of \<open>_exchange\<close> over what the port returns before the deadline.\<close>

fun collect_frames :: "8 word list \<Rightarrow> 8 word list list \<Rightarrow> nat \<Rightarrow> 8 word list list \<Rightarrow> 8 word list list" where
  "collect_frames buffer frames expected [] = frames"
| "collect_frames buffer frames expected (chunk # reads) =
     (if chunk \<noteq> [] then
        (let buffer' = buffer @ chunk; frames' = split_frames buffer' in
         if expected \<le> length frames' then frames' else collect_frames buffer' frames' expected reads)
      else collect_frames buffer frames expected reads)"

text \<open>\<open>_exchange\<close>: the frame sent, and the frames received.\<close>

definition sb_exchange ::
  "serial_backend \<Rightarrow> int list \<Rightarrow> nat \<Rightarrow> 8 word list list \<Rightarrow> (serial_error, 8 word list \<times> 8 word list list) res" where
  "sb_exchange sb payload expected reads =
     (if \<not> sb_connected sb then Inl NotConnected
      else rbind (build_frame payload) (\<lambda>frame. Inr (frame, collect_frames [] [] expected reads)))"

section \<open>Failures\<close>

definition failure_of :: "string \<Rightarrow> string \<Rightarrow> int \<Rightarrow> (string \<times> int) list \<Rightarrow> failure_record" where
  "failure_of code operation address ctx =
     \<lparr>fl_code = code, fl_operation = operation, fl_address = address,
      fl_register = register_name address, fl_context = ctx\<rparr>"

definition remember_failure :: "serial_backend \<Rightarrow> failure_record \<Rightarrow> serial_backend" where
  "remember_failure sb f = sb\<lparr>sb_last_failure := Some f\<rparr>"

definition raise_failure ::
  "serial_backend \<Rightarrow> failure_record \<Rightarrow> serial_backend \<times> (serial_error, 'a) res" where
  "raise_failure sb f = (remember_failure sb f, Inl (SerialError f))"

definition byte_lo :: "int \<Rightarrow> int" where
  "byte_lo v = v AND 255"

definition byte_hi :: "int \<Rightarrow> int" where
  "byte_hi v = drop_bit 8 v AND 255"

section \<open>Registers\<close>

definition read_header_ok :: "int \<Rightarrow> int \<Rightarrow> 8 word list \<Rightarrow> bool" where
  "read_header_ok hand_id address frame \<longleftrightarrow>
     \<not> (length frame < 8 \<or> uint (frame ! 0) \<noteq> 144 \<or> uint (frame ! 1) \<noteq> 235
        \<or> uint (frame ! 2) \<noteq> hand_id \<or> uint (frame ! 4) \<noteq> 17
        \<or> uint (frame ! 5) \<noteq> byte_lo address \<or> uint (frame ! 6) \<noteq> byte_hi address)"

definition read_register ::
  "serial_backend \<Rightarrow> int \<Rightarrow> int \<Rightarrow> 8 word list list \<Rightarrow> serial_backend \<times> (serial_error, int list) res" where
  "read_register sb0 address len reads =
     (let sb = sb0\<lparr>sb_last_failure := None\<rparr> in
      case sb_exchange sb [sb_hand_id sb, 4, 17, byte_lo address, byte_hi address, len] 1 reads of
        Inl e \<Rightarrow> (sb, Inl e)
      | Inr (sent, frames) \<Rightarrow>
          if frames = [] then
            raise_failure (sb\<lparr>sb_timeout_count := sb_timeout_count sb + 1\<rparr>)
              (failure_of ''timeout'' ''read_register'' address [(''requested_length'', len)])
          else
            let frame = hd frames;
                ctx = [(''requested_length'', len), (''response_length'', int (length frame))]
            in
            if \<not> validate_checksum frame then
              raise_failure (sb\<lparr>sb_checksum_failures := sb_checksum_failures sb + 1\<rparr>)
                (failure_of ''checksum_failure'' ''read_register'' address ctx)
            else if \<not> read_header_ok (sb_hand_id sb) address frame then
              raise_failure (sb\<lparr>sb_protocol_errors := sb_protocol_errors sb + 1\<rparr>)
                (failure_of ''response_validation_failure'' ''read_register'' address ctx)
            else if uint (frame ! 3) < 3 then
              raise_failure (sb\<lparr>sb_protocol_errors := sb_protocol_errors sb + 1\<rparr>)
                (failure_of ''response_length_failure'' ''read_register'' address ctx)
            else
              let reg_len = uint (frame ! 3) - 3 in
              if reg_len \<noteq> len \<or> int (length frame) \<noteq> 8 + reg_len then
                raise_failure (sb\<lparr>sb_protocol_errors := sb_protocol_errors sb + 1\<rparr>)
                  (failure_of ''response_length_mismatch'' ''read_register'' address
                     [(''requested_length'', len), (''register_length'', reg_len),
                      (''response_length'', int (length frame))])
              else (sb, Inr (map uint (take (nat reg_len) (drop 7 frame)))))"

definition write_ack_ok :: "int \<Rightarrow> int \<Rightarrow> 8 word list \<Rightarrow> bool" where
  "write_ack_ok hand_id address frame \<longleftrightarrow>
     length frame = 9 \<and> uint (frame ! 0) = 144 \<and> uint (frame ! 1) = 235 \<and> uint (frame ! 2) = hand_id
     \<and> uint (frame ! 3) = 4 \<and> uint (frame ! 4) = 18 \<and> uint (frame ! 5) = byte_lo address
     \<and> uint (frame ! 6) = byte_hi address \<and> uint (frame ! 7) = 1"

definition write_register ::
  "serial_backend \<Rightarrow> int \<Rightarrow> int list \<Rightarrow> 8 word list list \<Rightarrow> serial_backend \<times> (serial_error, bool) res" where
  "write_register sb0 address data reads =
     (let sb = sb0\<lparr>sb_last_failure := None, sb_write_count := sb_write_count sb0 + 1\<rparr>;
          data_length = int (length data)
      in
      case sb_exchange sb ([sb_hand_id sb, data_length + 3, 18, byte_lo address, byte_hi address] @ data) 1 reads of
        Inl e \<Rightarrow> (sb, Inl e)
      | Inr (sent, frames) \<Rightarrow>
          if frames = [] then
            raise_failure (sb\<lparr>sb_timeout_count := sb_timeout_count sb + 1\<rparr>)
              (failure_of ''timeout'' ''write_register'' address [(''data_length'', data_length)])
          else
            let frame = hd frames;
                ctx = [(''data_length'', data_length), (''response_length'', int (length frame))]
            in
            if \<not> validate_checksum frame then
              (remember_failure (sb\<lparr>sb_checksum_failures := sb_checksum_failures sb + 1\<rparr>)
                 (failure_of ''checksum_failure'' ''write_register'' address ctx), Inr False)
            else if \<not> write_ack_ok (sb_hand_id sb) address frame then
              (remember_failure (sb\<lparr>sb_protocol_errors := sb_protocol_errors sb + 1\<rparr>)
                 (failure_of ''acknowledgement_validation_failure'' ''write_register'' address ctx), Inr False)
            else (sb, Inr True))"

section \<open>Vectors\<close>

definition u16_list_to_bytes :: "int list \<Rightarrow> int list" where
  "u16_list_to_bytes values = concat (map (\<lambda>v. [byte_lo v, byte_hi v]) values)"

definition u16_list_from_bytes :: "int list \<Rightarrow> nat \<Rightarrow> (serial_error, int list) res" where
  "u16_list_from_bytes data count =
     (if length data < 2 * count then Inl ShortPayload
      else Inr (map (\<lambda>i. (data ! (2 * i) AND 255) OR push_bit 8 (data ! (2 * i + 1) AND 255)) [0..<count]))"

definition s16_list_from_bytes :: "int list \<Rightarrow> nat \<Rightarrow> (serial_error, int list) res" where
  "s16_list_from_bytes data count =
     rbind (u16_list_from_bytes data count) (\<lambda>values.
     Inr (map (\<lambda>v. if 32768 \<le> v then v - 65536 else v) values))"

definition validate_vector :: "int list \<Rightarrow> int \<Rightarrow> int \<Rightarrow> (serial_error, unit) res" where
  "validate_vector values min_value max_value =
     (if length values \<noteq> 6 then Inl VectorLength
      else if \<not> list_all (\<lambda>v. min_value \<le> v \<and> v \<le> max_value) values then Inl VectorRange
      else Inr ())"

definition py_round :: "pyfloat \<Rightarrow> (conv_error, int) res" where
  "py_round v = (case v of Fin r \<Rightarrow> Inr (round_half_even r) | NaN \<Rightarrow> Inl ValueErrorNaN | _ \<Rightarrow> Inl OverflowError)"

definition to_raw_ints ::
  "(pyfloat \<Rightarrow> pyfloat) \<Rightarrow> int list \<Rightarrow> string list \<Rightarrow> (serial_error, int list) res" where
  "to_raw_ints cast32 values raw_order =
     (case canonical_to_raw cast32 (map (\<lambda>v. Fin (of_int v)) values) raw_order of
        Inl e \<Rightarrow> Inl (SchemaFailure e)
      | Inr floats \<Rightarrow>
          rmap (\<lambda>f. case py_round f of Inl e \<Rightarrow> Inl (RoundFailure e) | Inr n \<Rightarrow> Inr n) floats)"

text \<open>\<open>set_speeds\<close>, \<open>set_forces\<close> and \<open>set_angles\<close> differ in their register only.\<close>

definition set_vector ::
  "serial_backend \<Rightarrow> int \<Rightarrow> int list \<Rightarrow> 8 word list list \<Rightarrow> serial_backend \<times> (serial_error, bool) res" where
  "set_vector sb address values reads =
     (case validate_vector values 0 1000 of
        Inl e \<Rightarrow> (sb, Inl e)
      | Inr _ \<Rightarrow> write_register sb address (u16_list_to_bytes values) reads)"

definition set_speeds :: "serial_backend \<Rightarrow> int list \<Rightarrow> 8 word list list \<Rightarrow> serial_backend \<times> (serial_error, bool) res" where
  "set_speeds sb = set_vector sb 1522"

definition set_forces :: "serial_backend \<Rightarrow> int list \<Rightarrow> 8 word list list \<Rightarrow> serial_backend \<times> (serial_error, bool) res" where
  "set_forces sb = set_vector sb 1498"

definition set_angles :: "serial_backend \<Rightarrow> int list \<Rightarrow> 8 word list list \<Rightarrow> serial_backend \<times> (serial_error, bool) res" where
  "set_angles sb = set_vector sb 1486"

text \<open>\<open>set_canonical_speeds\<close>, \<open>set_canonical_forces\<close>, \<open>set_canonical_angles\<close>.\<close>

definition set_canonical ::
  "(serial_backend \<Rightarrow> int list \<Rightarrow> 8 word list list \<Rightarrow> serial_backend \<times> (serial_error, bool) res) \<Rightarrow>
   (pyfloat \<Rightarrow> pyfloat) \<Rightarrow> serial_backend \<Rightarrow> int list \<Rightarrow> 8 word list list \<Rightarrow>
   serial_backend \<times> (serial_error, bool) res" where
  "set_canonical setter cast32 sb values reads =
     (case to_raw_ints cast32 values (sb_protocol_order sb) of
        Inl e \<Rightarrow> (sb, Inl e)
      | Inr raw \<Rightarrow> setter sb raw reads)"

definition set_command_angles ::
  "(pyfloat \<Rightarrow> pyfloat) \<Rightarrow> serial_backend \<Rightarrow> int list \<Rightarrow> 8 word list list \<Rightarrow> serial_backend \<times> (serial_error, bool) res" where
  "set_command_angles cast32 sb values reads =
     (case sb_gesture_order sb of
        GestureName name \<Rightarrow>
          if name = ''canonical'' then set_canonical set_angles cast32 sb values reads
          else if name = ''protocol'' \<or> name = ''raw'' then set_angles sb values reads
          else (sb, Inl UnsupportedGestureOrder)
      | GestureOrder order \<Rightarrow>
          (case to_raw_ints cast32 values order of
             Inl e \<Rightarrow> (sb, Inl e) | Inr raw \<Rightarrow> set_angles sb raw reads))"

definition clear_error :: "serial_backend \<Rightarrow> 8 word list list \<Rightarrow> serial_backend \<times> (serial_error, bool) res" where
  "clear_error sb reads = write_register sb 1004 [1] reads"

definition calibrate_force_sensors :: "serial_backend \<Rightarrow> 8 word list list \<Rightarrow> serial_backend \<times> (serial_error, bool) res" where
  "calibrate_force_sensors sb reads = write_register sb 1009 [1] reads"

section \<open>Commands and state\<close>

record hand_command =
  hcmd_command :: string
  hcmd_preset_name :: string

definition gesture_or :: "serial_backend \<Rightarrow> string \<Rightarrow> int list \<Rightarrow> int list" where
  "gesture_or sb name preset = (case map_of (sb_gestures sb) name of Some v \<Rightarrow> v | None \<Rightarrow> preset)"

definition command_vector :: "serial_backend \<Rightarrow> hand_command \<Rightarrow> (serial_error, int list) res" where
  "command_vector sb c =
     (if hcmd_command c = ''open'' then Inr (gesture_or sb ''open'' (replicate 6 1000))
      else if hcmd_command c = ''close'' then Inr (gesture_or sb ''close'' (replicate 6 0))
      else if hcmd_command c = ''pinch'' then Inr (gesture_or sb ''pinch'' [400, 400, 500, 200, 200, 500])
      else if hcmd_command c = ''preset_grasp'' then
        (case map_of (sb_gestures sb) (if hcmd_preset_name c = [] then ''power_grasp'' else hcmd_preset_name c) of
           None \<Rightarrow> Inl UnknownPreset | Some v \<Rightarrow> Inr v)
      else Inl UnsupportedCommand)"

definition sb_execute ::
  "(pyfloat \<Rightarrow> pyfloat) \<Rightarrow> serial_backend \<Rightarrow> hand_command \<Rightarrow> 8 word list list \<Rightarrow>
   serial_backend \<times> (serial_error, bool) res" where
  "sb_execute cast32 sb c reads =
     (case command_vector sb c of
        Inl e \<Rightarrow> (sb, Inl e)
      | Inr values \<Rightarrow>
          (case set_command_angles cast32 sb values reads of
             (sb', Inl e) \<Rightarrow> (sb', Inl e)
           | (sb', Inr done_ok) \<Rightarrow>
               (sb'\<lparr>sb_last_mode := (if hcmd_command c \<noteq> ''preset_grasp'' then hcmd_command c
                                     else hcmd_preset_name c)\<rparr>, Inr done_ok)))"

text \<open>\<open>get_angles\<close>, \<open>get_currents\<close> (unsigned) and \<open>get_forces\<close> (signed): six registers of twelve bytes.\<close>

definition get_vector ::
  "(int list \<Rightarrow> nat \<Rightarrow> (serial_error, int list) res) \<Rightarrow> int \<Rightarrow> serial_backend \<Rightarrow> 8 word list list \<Rightarrow>
   serial_backend \<times> (serial_error, pyfloat list) res" where
  "get_vector decode address sb reads =
     (case read_register sb address 12 reads of
        (sb', Inl e) \<Rightarrow> (sb', Inl e)
      | (sb', Inr data) \<Rightarrow> (sb', rbind (decode data 6) (\<lambda>vs. Inr (map (\<lambda>v. Fin (of_int v)) vs))))"

definition get_angles :: "serial_backend \<Rightarrow> 8 word list list \<Rightarrow> serial_backend \<times> (serial_error, pyfloat list) res" where
  "get_angles = get_vector u16_list_from_bytes 1546"

definition get_forces :: "serial_backend \<Rightarrow> 8 word list list \<Rightarrow> serial_backend \<times> (serial_error, pyfloat list) res" where
  "get_forces = get_vector s16_list_from_bytes 1582"

definition get_currents :: "serial_backend \<Rightarrow> 8 word list list \<Rightarrow> serial_backend \<times> (serial_error, pyfloat list) res" where
  "get_currents = get_vector u16_list_from_bytes 1594"

definition get_canonical ::
  "(serial_backend \<Rightarrow> 8 word list list \<Rightarrow> serial_backend \<times> (serial_error, pyfloat list) res) \<Rightarrow>
   (pyfloat \<Rightarrow> pyfloat) \<Rightarrow> serial_backend \<Rightarrow> 8 word list list \<Rightarrow> serial_backend \<times> (serial_error, pyfloat list) res" where
  "get_canonical getter cast32 sb reads =
     (case getter sb reads of
        (sb', Inl e) \<Rightarrow> (sb', Inl e)
      | (sb', Inr values) \<Rightarrow>
          (case raw_to_canonical cast32 values (sb_protocol_order sb') of
             Inl e \<Rightarrow> (sb', Inl (SchemaFailure e)) | Inr vs \<Rightarrow> (sb', Inr vs)))"

record hand_state_report =
  hs_mode :: string
  hs_finger_positions :: "pyfloat list"
  hs_finger_currents :: "pyfloat list"
  hs_contact_flags :: "bool list"
  hs_force_estimate :: "pyfloat list"

text \<open>\<open>read_state\<close>: three exchanges, forces first.\<close>

definition sb_read_state ::
  "(pyfloat \<Rightarrow> pyfloat) \<Rightarrow> serial_backend \<Rightarrow> 8 word list list \<Rightarrow> 8 word list list \<Rightarrow> 8 word list list \<Rightarrow>
   serial_backend \<times> (serial_error, hand_state_report) res" where
  "sb_read_state cast32 sb force_reads angle_reads current_reads =
     (case get_canonical get_forces cast32 sb force_reads of
        (sb1, Inl e) \<Rightarrow> (sb1, Inl e)
      | (sb1, Inr forces) \<Rightarrow>
          (case get_canonical get_angles cast32 sb1 angle_reads of
             (sb2, Inl e) \<Rightarrow> (sb2, Inl e)
           | (sb2, Inr angles) \<Rightarrow>
               (case get_canonical get_currents cast32 sb2 current_reads of
                  (sb3, Inl e) \<Rightarrow> (sb3, Inl e)
                | (sb3, Inr currents) \<Rightarrow>
                    (sb3, Inr \<lparr>hs_mode = sb_last_mode sb, hs_finger_positions = angles,
                       hs_finger_currents = currents, hs_contact_flags = map (\<lambda>v. flt (Fin 0) v) forces,
                       hs_force_estimate = forces\<rparr>))))"

section \<open>The byte pair codec\<close>

definition u16_of_bytes :: "int list \<Rightarrow> int" where
  "u16_of_bytes bs = (bs ! 0 AND 255) OR push_bit 8 (bs ! 1 AND 255)"

lemma byte_parts: "byte_lo v = v mod 256" "byte_hi v = v div 256 mod 256"
  by (simp_all add: byte_lo_def byte_hi_def int_and_255 drop_bit_eq_div)

lemma u16_of_parts: "0 \<le> v \<Longrightarrow> v < 65536 \<Longrightarrow> u16_of_bytes [byte_lo v, byte_hi v] = v"
  by (simp add: u16_of_bytes_def byte_parts int_and_255 int_or_shift)

interpretation u16: fixed_codec 2 "\<lambda>v. [byte_lo v, byte_hi v]" u16_of_bytes "\<lambda>v. 0 \<le> v \<and> v < 65536"
  by unfold_locales (simp_all add: u16_of_parts)

lemma u16_list_to_bytes_codec: "u16_list_to_bytes vs = u16.enc_all vs"
  by (simp add: u16_list_to_bytes_def u16.enc_all_def)

lemma u16_list_from_bytes_codec:
  "2 * count \<le> length data \<Longrightarrow> u16_list_from_bytes data count = Inr (u16.dec_all count data)"
  by (simp add: u16_list_from_bytes_def list_eq_iff_nth_eq u16.dec_all_nth u16_of_bytes_def mult.commute)

lemma u16_list_roundtrip:
  assumes "\<forall>v \<in> set vs. 0 \<le> v \<and> v < 65536"
  shows "u16_list_from_bytes (u16_list_to_bytes vs) (length vs) = Inr vs"
  using u16.dec_all_enc_all[of vs "[]"] assms u16.enc_all_length[of vs]
  by (simp add: u16_list_to_bytes_codec u16_list_from_bytes_codec)

section \<open>Checksums\<close>

lemma uint_sum_list: "uint (sum_list ws) = sum_list (map uint ws) mod 256" for ws :: "8 word list"
  by (induction ws) (simp_all add: uint_word_ariths mod_add_right_eq)

lemma validate_checksum_word:
  "validate_checksum frame \<longleftrightarrow> 6 \<le> length frame \<and> sum_list (butlast (drop 2 frame)) = last frame"
  by (simp add: validate_checksum_def int_and_255 uint_sum_list[symmetric] word_uint_eq_iff)

text \<open>C8. The checksum detects every corruption of one byte behind the header: a frame that validates does
  not validate any more when any single byte from the hand id to the checksum is changed.\<close>

theorem checksum_detects_byte:
  assumes "validate_checksum frame" and "2 \<le> i" and "i < length frame" and "b \<noteq> frame ! i"
  shows "\<not> validate_checksum (frame[i := b])"
proof -
  let ?body = "butlast (drop 2 frame)"
  have len: "6 \<le> length frame" and sum: "sum_list ?body = last frame"
    using assms(1) by (simp_all add: validate_checksum_word)
  have body: "butlast (drop 2 (frame[i := b])) = (if i = length frame - 1 then ?body else ?body[i - 2 := b])"
    using assms(2,3) len by (auto simp: list_eq_iff_nth_eq nth_butlast nth_list_update)
  have last: "last (frame[i := b]) = (if i = length frame - 1 then b else last frame)"
  proof -
    have "frame \<noteq> []" using assms(3) by auto
    then show ?thesis using assms(3) by (auto simp: last_conv_nth nth_list_update)
  qed
  show ?thesis
  proof (cases "i = length frame - 1")
    case True
    then have "frame ! i = last frame" using assms(3) by (metis last_conv_nth list.size(3) not_less_zero)
    with True assms(4) sum show ?thesis unfolding validate_checksum_word body last by simp
  next
    case False
    have "i - 2 < length ?body" using assms(2,3) False len by simp
    moreover have "Suc (Suc (i - 2)) = i" using assms(2) by arith
    then have "?body ! (i - 2) = frame ! i" using assms(2,3) False len by (simp add: nth_butlast)
    ultimately have "sum_list (?body[i - 2 := b]) \<noteq> sum_list ?body"
      using assms(4) by (intro sum_list_update_byte) simp_all
    with False sum show ?thesis unfolding validate_checksum_word body last by simp
  qed
qed

definition demo_ack :: "8 word list" where
  "demo_ack = [144, 235, 1, 4, 18, 206, 5, 1, 235]"

theorem checksum_detects_byte_witness:
  "validate_checksum demo_ack \<and> \<not> validate_checksum (demo_ack[7 := 0])"
proof -
  have v: "validate_checksum demo_ack" by (simp add: validate_checksum_word demo_ack_def)
  moreover have "\<not> validate_checksum (demo_ack[7 := 0])"
    by (rule checksum_detects_byte[OF v]) (simp_all add: demo_ack_def)
  ultimately show ?thesis by blast
qed

section \<open>Reading a register\<close>

text \<open>The device's answer to a read, as the protocol frames it.\<close>

definition device_response :: "int \<Rightarrow> int \<Rightarrow> int list \<Rightarrow> 8 word list" where
  "device_response hand_id address data =
     (let body = [hand_id, int (length data) + 3, 17, byte_lo address, byte_hi address] @ data
      in map word_of_int ([144, 235] @ body @ [sum_list body]))"

definition all_bytes :: "int list \<Rightarrow> bool" where
  "all_bytes bs \<longleftrightarrow> (\<forall>b \<in> set bs. 0 \<le> b \<and> b < 256)"

text \<open>One frame behind bytes that are no frame start: nothing is found before it is complete.\<close>

lemma split_frames_nil [simp]: "split_frames [] = []"
  by (subst split_frames.simps) simp

lemma split_frames_partial:
  assumes "length frame = unat (frame ! 3) + 5" and "frame ! 0 = 144" and "frame ! 1 = 235"
    and "144 \<notin> set noise" and "k < length frame"
  shows "split_frames (noise @ take k frame) = []"
  using assms(4)
proof (induction noise)
  case Nil
  show ?case
  proof (cases "k < 5")
    case True
    with assms(5) have "length ([] @ take k frame) < 5" by simp
    then show ?thesis by (subst split_frames.simps) (simp only: if_True)
  next
    case False
    then have "take k frame ! 3 = frame ! 3" by simp
    with assms(1,5) have "length (take k frame) < unat (take k frame ! 3) + 5" by simp
    with False assms(2,3) show ?thesis by (subst split_frames.simps) (simp add: Let_def)
  qed
next
  case (Cons b noise)
  show ?case by (subst split_frames.simps) (use Cons in auto)
qed

lemma split_frames_complete:
  assumes "length frame = unat (frame ! 3) + 5" and "frame ! 0 = 144" and "frame ! 1 = 235"
    and "144 \<notin> set noise"
  shows "split_frames (noise @ frame) = [frame]"
  using assms(4)
proof (induction noise)
  case Nil
  show ?case using assms(1-3) by (subst split_frames.simps) (simp add: Let_def)
next
  case (Cons b noise)
  have "\<not> length (b # noise @ frame) < 5" using assms(1) by simp
  with Cons show ?case by (subst split_frames.simps) auto
qed

lemma collect_frames_chunks:
  assumes "length frame = unat (frame ! 3) + 5" and "frame ! 0 = 144" and "frame ! 1 = 235"
    and "144 \<notin> set noise" and "buffer @ concat reads = noise @ frame"
    and "length buffer < length noise + length frame"
  shows "collect_frames buffer [] 1 reads = [frame]"
  using assms(5,6)
proof (induction reads arbitrary: buffer)
  case Nil
  then show ?case by (metis append_Nil2 concat.simps(1) length_append nat_neq_iff)
next
  case (Cons chunk reads)
  show ?case
  proof (cases "chunk = []")
    case True
    with Cons show ?thesis by simp
  next
    case False
    show ?thesis
    proof (cases "length (buffer @ chunk) < length noise + length frame")
      case True
      have "split_frames (buffer @ chunk) = []"
      proof -
        have pre: "(buffer @ chunk) @ concat reads = noise @ frame" using Cons.prems(1) by simp
        show ?thesis
        proof (cases "length (buffer @ chunk) \<le> length noise")
          case True
          with pre have "buffer @ chunk = take (length (buffer @ chunk)) noise"
            by (metis append_eq_append_conv_if)
          then have "144 \<notin> set (buffer @ chunk)" using assms(4) by (metis in_set_takeD)
          from split_frames_partial[OF assms(1-3) this, of 0] assms(1) show ?thesis by simp
        next
          case False
          define k where "k = length (buffer @ chunk) - length noise"
          have "buffer @ chunk = take (length (buffer @ chunk)) (noise @ frame)"
            unfolding pre[symmetric] by simp
          also have "\<dots> = noise @ take k frame" using False by (simp add: k_def)
          finally have k: "buffer @ chunk = noise @ take k frame" "k < length frame"
            using True False by (simp_all add: k_def)
          with split_frames_partial[OF assms(1-4) k(2)] show ?thesis by simp
        qed
      qed
      with Cons.IH[of "buffer @ chunk"] Cons.prems False True show ?thesis by (simp add: Let_def)
    next
      case ge: False
      have "length (buffer @ chunk) + length (concat reads) = length (noise @ frame)"
        using arg_cong[OF Cons.prems(1), of length] by simp
      with ge have "length (concat reads) = 0" unfolding length_append by linarith
      then have "concat reads = []" by (simp only: length_0_conv)
      with Cons.prems(1) have "buffer @ chunk = noise @ frame" by simp
      with split_frames_complete[OF assms(1-4)] False show ?thesis by (simp add: Let_def)
    qed
  qed
qed

lemma uint_of_byte: "0 \<le> b \<Longrightarrow> b < 256 \<Longrightarrow> uint (word_of_int b :: 8 word) = b"
  by (simp add: uint_word_of_int)

lemma byte_bounds: "0 \<le> byte_lo v" "byte_lo v < 256" "0 \<le> byte_hi v" "byte_hi v < 256"
  by (simp_all add: byte_parts)

lemma word_sum_list: "sum_list (map word_of_int bs) = (word_of_int (sum_list bs) :: 8 word)"
  by (induction bs) simp_all

lemma device_response_facts:
  fixes address :: int
  assumes "0 \<le> hand_id" "hand_id < 256" "all_bytes data" "length data \<le> 252"
  defines "frame \<equiv> device_response hand_id address data"
  shows "length frame = length data + 8" "length frame = unat (frame ! 3) + 5" "frame ! 0 = 144" "frame ! 1 = 235"
    and "validate_checksum frame" "read_header_ok hand_id address frame" "uint (frame ! 3) = int (length data) + 3"
    and "map uint (take (length data) (drop 7 frame)) = data"
proof -
  let ?body = "[hand_id, int (length data) + 3, 17, byte_lo address, byte_hi address] @ data"
  have f: "frame = map word_of_int ([144, 235] @ ?body @ [sum_list ?body])"
    by (simp add: frame_def device_response_def)
  show len: "length frame = length data + 8" by (simp add: f)
  have f3: "frame ! 3 = word_of_int (int (length data) + 3)" by (simp add: f)
  show u3: "uint (frame ! 3) = int (length data) + 3"
    unfolding f3 by (rule uint_of_byte) (use assms(4) in simp_all)
  then show "length frame = unat (frame ! 3) + 5" using len by (simp add: unat_eq_nat_uint)
  show h: "frame ! 0 = 144" "frame ! 1 = 235" by (simp_all add: f)
  have "butlast (drop 2 frame) = map word_of_int ?body" by (simp add: f butlast_append)
  moreover have "last frame = word_of_int (sum_list ?body)" by (simp add: f)
  ultimately show "validate_checksum frame" using len by (simp only: validate_checksum_word word_sum_list) simp
  have "uint (frame ! 2) = hand_id" "uint (frame ! 4) = 17" "uint (frame ! 5) = byte_lo address"
      "uint (frame ! 6) = byte_hi address"
    using assms(1,2) byte_bounds[of address] by (simp_all add: f uint_of_byte)
  with h len show "read_header_ok hand_id address frame" by (simp add: read_header_ok_def)
  have "take (length data) (drop 7 frame) = map word_of_int data" by (simp add: f)
  then show "map uint (take (length data) (drop 7 frame)) = data"
    using assms(3) by (auto simp: all_bytes_def uint_of_byte intro!: map_idI)
qed

lemma build_frame_ok: "all_bytes payload \<Longrightarrow> \<exists>f. build_frame payload = Inr f"
  by (simp add: build_frame_def Let_def all_bytes_def list_all_iff)

text \<open>C9. A device's answer is read back exactly, however the port fragments it and whatever bytes without a
  frame start precede it: the register's bytes are returned, no failure is counted or remembered.\<close>

theorem read_register_roundtrip:
  assumes "sb_connected sb" and "0 \<le> sb_hand_id sb" and "sb_hand_id sb < 256"
    and "all_bytes data" and "length data \<le> 252" and "144 \<notin> set noise"
    and "concat reads = noise @ device_response (sb_hand_id sb) address data"
  shows "read_register sb address (int (length data)) reads = (sb\<lparr>sb_last_failure := None\<rparr>, Inr data)"
proof -
  let ?f = "device_response (sb_hand_id sb) address data"
  note facts = device_response_facts[OF assms(2,3,4,5), of address]
  have c: "collect_frames [] [] 1 reads = [?f]"
    by (rule collect_frames_chunks[OF facts(2,3,4) assms(6)]) (use assms(7) facts(1) in simp_all)
  have "all_bytes [sb_hand_id sb, 4, 17, byte_lo address, byte_hi address, int (length data)]"
    using assms(2,3,5) byte_bounds[of address] by (simp add: all_bytes_def)
  then obtain f where "build_frame [sb_hand_id sb, 4, 17, byte_lo address, byte_hi address, int (length data)] = Inr f"
    using build_frame_ok by blast
  then have e: "sb_exchange (sb\<lparr>sb_last_failure := None\<rparr>)
      [sb_hand_id sb, 4, 17, byte_lo address, byte_hi address, int (length data)] 1 reads = Inr (f, [?f])"
    using assms(1) c by (simp add: sb_exchange_def)
  then show ?thesis
    using facts(1,5,6,7,8) by (simp add: read_register_def Let_def)
qed

definition demo_backend :: serial_backend where
  "demo_backend = \<lparr>sb_hand_id = 1, sb_connected = True, sb_protocol_order = rh56_protocol_order,
     sb_gesture_order = GestureName ''canonical'', sb_gestures = [], sb_last_mode = ''idle'',
     sb_write_count = 0, sb_timeout_count = 0, sb_checksum_failures = 0, sb_protocol_errors = 0,
     sb_last_failure = None\<rparr>"

theorem read_register_roundtrip_witness:
  "snd (read_register demo_backend 1546 2
     [[7], take 4 (device_response 1 1546 [232, 3]), [], drop 4 (device_response 1 1546 [232, 3])])
   = Inr [232, 3]"
proof -
  have "read_register demo_backend 1546 (int (length [232, 3 :: int]))
     [[7], take 4 (device_response 1 1546 [232, 3]), [], drop 4 (device_response 1 1546 [232, 3])]
    = (demo_backend\<lparr>sb_last_failure := None\<rparr>, Inr [232, 3])"
    by (rule read_register_roundtrip[where noise = "[7]"]) (simp_all add: demo_backend_def all_bytes_def)
  then show ?thesis by simp
qed

section \<open>Failure accounting\<close>

definition failure_total :: "serial_backend \<Rightarrow> nat" where
  "failure_total sb = sb_timeout_count sb + sb_checksum_failures sb + sb_protocol_errors sb"

lemma read_register_outcome:
  assumes "sb_connected sb" and "0 \<le> sb_hand_id sb" "sb_hand_id sb < 256" "0 \<le> len" "len < 256"
    and "read_register sb address len reads = (rd, r)"
  shows "((\<exists>bs. r = Inr bs \<and> int (length bs) = len \<and> sb_last_failure rd = None \<and> failure_total rd = failure_total sb)
       \<or> (\<exists>f. r = Inl (SerialError f) \<and> sb_last_failure rd = Some f \<and> fl_register f = register_name address
            \<and> failure_total rd = failure_total sb + 1))
    \<and> sb_write_count rd = sb_write_count sb"
proof -
  have "all_bytes [sb_hand_id sb, 4, 17, byte_lo address, byte_hi address, len]"
    using assms(2-5) byte_bounds[of address] by (simp add: all_bytes_def)
  then obtain f where f: "build_frame [sb_hand_id sb, 4, 17, byte_lo address, byte_hi address, len] = Inr f"
    using build_frame_ok by blast
  define fs where "fs = collect_frames [] [] 1 reads"
  show ?thesis
    using assms(1,4,6) f
    by (auto simp: read_register_def sb_exchange_def fs_def[symmetric] Let_def raise_failure_def
        remember_failure_def failure_of_def failure_total_def split: if_split_asm)
qed

lemma write_register_outcome:
  assumes "sb_connected sb" and "0 \<le> sb_hand_id sb" "sb_hand_id sb < 256" "all_bytes data" "length data \<le> 252"
    and "write_register sb address data reads = (wr, w)"
  shows "sb_write_count wr = sb_write_count sb + 1
    \<and> (if w = Inr True then sb_last_failure wr = None \<and> failure_total wr = failure_total sb
         \<and> (\<exists>frame rest. collect_frames [] [] 1 reads = frame # rest
              \<and> validate_checksum frame \<and> write_ack_ok (sb_hand_id sb) address frame)
       else sb_last_failure wr \<noteq> None \<and> failure_total wr = failure_total sb + 1)"
proof -
  have "all_bytes ([sb_hand_id sb, int (length data) + 3, 18, byte_lo address, byte_hi address] @ data)"
    using assms(2-5) byte_bounds[of address] by (auto simp: all_bytes_def)
  then obtain f where
    f: "build_frame ([sb_hand_id sb, int (length data) + 3, 18, byte_lo address, byte_hi address] @ data) = Inr f"
    using build_frame_ok by blast
  define fs where "fs = collect_frames [] [] 1 reads"
  show ?thesis
    using assms(1,6) f fs_def[symmetric, simplified]
    by (cases fs) (auto simp: write_register_def sb_exchange_def Let_def raise_failure_def
        remember_failure_def failure_of_def failure_total_def split: if_split_asm)
qed



section \<open>Vectors there and back\<close>

lemma to_raw_ints_exact:
  assumes "cast32_exact cast32" and "validate_order order = Inr o'" and "length values = 6"
    and "\<forall>v \<in> set values. 0 \<le> v \<and> v \<le> 1000"
  obtains raw where "to_raw_ints cast32 values order = Inr raw" "set raw = set values" "length raw = 6"
    "raw_to_canonical cast32 (map (\<lambda>v. Fin (of_int v)) raw) order = Inr (map (\<lambda>v. Fin (of_int v)) values)"
proof -
  let ?fs = "map (\<lambda>v. Fin (of_int v)) values"
  have can: "validate_order canonical_hand_order = Inr canonical_hand_order" by (simp add: validate_order_Inr)
  have cast: "map cast32 ?fs = ?fs"
    by (rule cast32_exact_map[OF assms(1)]) (use assms(4) in auto)
  obtain moved where moved: "reorder_values cast32 ?fs canonical_hand_order order = Inr moved"
    using reorder_values_Inr[OF can assms(2), of ?fs cast32] assms(3) by simp
  have ret: "reorder_values cast32 moved order canonical_hand_order = Inr ?fs" "set moved = set ?fs" "length moved = 6"
    using reorder_back[OF can assms(2) _ cast moved] assms(3) by simp_all
  have ints: "rmap (\<lambda>f. case py_round f of Inl e \<Rightarrow> Inl (RoundFailure e) | Inr n \<Rightarrow> Inr n)
      (map (\<lambda>v. Fin (of_int v)) ns) = Inr ns" for ns
    by (induction ns) (simp_all add: py_round_def)
  from ret(2) have "\<forall>m \<in> set moved. \<exists>v \<in> set values. m = Fin (of_int v)" by auto
  then obtain raw where raw: "moved = map (\<lambda>v. Fin (of_int v)) raw" "set raw \<subseteq> set values"
  proof (induction moved arbitrary: thesis)
    case (Cons m ms)
    then obtain v ws where "m = Fin (of_int v)" "v \<in> set values" "ms = map (\<lambda>v. Fin (of_int v)) ws" "set ws \<subseteq> set values"
      by (metis list.set_intros)
    then show ?case by (intro Cons.prems(1)[of "v # ws"]) simp_all
  qed simp
  have "inj (\<lambda>v :: int. Fin (of_int v))" by (simp add: inj_def)
  with ret(2) raw(1) have "set raw = set values" by (simp add: inj_image_eq_iff)
  then show thesis
    using moved ret raw(1) ints by (intro that[of raw]) (simp_all add: to_raw_ints_def canonical_to_raw_def raw_to_canonical_def)
qed

text \<open>A vector of six finger values in \<open>[0, 1000]\<close> survives the trip to the device in any valid order:
  the raw integers are a reordering that passes the range check, their bytes decode to the same
  integers, and reading them back in canonical order gives the values sent.\<close>

theorem finger_vector_roundtrip:
  assumes "cast32_exact cast32" and "validate_order order = Inr o'" and "validate_vector values 0 1000 = Inr u"
  shows "\<exists>raw. to_raw_ints cast32 values order = Inr raw \<and> validate_vector raw 0 1000 = Inr ()
    \<and> u16_list_from_bytes (u16_list_to_bytes raw) 6 = Inr raw
    \<and> s16_list_from_bytes (u16_list_to_bytes raw) 6 = Inr raw
    \<and> raw_to_canonical cast32 (map (\<lambda>v. Fin (of_int v)) raw) order = Inr (map (\<lambda>v. Fin (of_int v)) values)"
proof -
  from assms(3) have v: "length values = 6" "\<forall>v \<in> set values. 0 \<le> v \<and> v \<le> 1000"
    by (auto simp: validate_vector_def list_all_iff split: if_split_asm)
  obtain raw where raw: "to_raw_ints cast32 values order = Inr raw" "set raw = set values" "length raw = 6"
    "raw_to_canonical cast32 (map (\<lambda>v. Fin (of_int v)) raw) order = Inr (map (\<lambda>v. Fin (of_int v)) values)"
    using to_raw_ints_exact[OF assms(1,2) v] .
  have u: "u16_list_from_bytes (u16_list_to_bytes raw) 6 = Inr raw"
    using u16_list_roundtrip[of raw] raw(2,3) v(2) by fastforce
  have "map (\<lambda>v. if 32768 \<le> v then v - 65536 else v) raw = raw"
    by (rule map_idI) (use raw(2) v(2) in fastforce)
  with raw u v(2) show ?thesis
    by (auto simp: validate_vector_def list_all_iff s16_list_from_bytes_def)
qed

theorem finger_vector_roundtrip_witness:
  "\<exists>raw. to_raw_ints (\<lambda>f. f) [0, 100, 200, 300, 400, 1000] rh56_protocol_order = Inr raw
     \<and> u16_list_from_bytes (u16_list_to_bytes raw) 6 = Inr raw"
proof -
  have c: "cast32_exact (\<lambda>f. f)" by (simp add: cast32_exact_def)
  have o: "validate_order rh56_protocol_order = Inr rh56_protocol_order"
    by (auto simp: validate_order_Inr rh56_protocol_order_def canonical_hand_order_def)
  have v: "validate_vector [0, 100, 200, 300, 400, 1000] 0 1000 = Inr ()" by (simp add: validate_vector_def)
  show ?thesis using finger_vector_roundtrip[OF c o v] by blast
qed

end
