(* ===== verification/Binary64.thy ===== *)
theory Binary64
  imports PyFloat ByteCodec
begin

text \<open>
  The byte layouts of \<open>struct\<close>: little-endian unsigned integers of a fixed width, and binary64 floats as
  their 64-bit patterns. Both are instances of the codec interface. All NaNs share one pattern and
  both zeros are the zero of the model.
\<close>

section \<open>Little-endian integers\<close>

fun le_bytes :: "nat \<Rightarrow> int \<Rightarrow> 8 word list" where
  "le_bytes 0 v = []"
| "le_bytes (Suc n) v = word_of_int v # le_bytes n (v div 256)"

fun le_value :: "8 word list \<Rightarrow> int" where
  "le_value [] = 0"
| "le_value (b # bs) = uint b + 256 * le_value bs"

lemma length_le_bytes [simp]: "length (le_bytes n v) = n"
  by (induction n arbitrary: v) simp_all

lemma le_value_le_bytes [simp]: "0 \<le> v \<Longrightarrow> v < 256 ^ n \<Longrightarrow> le_value (le_bytes n v) = v"
  by (induction n arbitrary: v) (simp_all add: uint_word_of_int div_less_iff_less_mult algebra_simps flip: zdiv_zmult2_eq)

lemma le_value_nonneg: "0 \<le> le_value bs"
  by (induction bs) simp_all

lemma le_value_bound: "le_value bs < 256 ^ length bs"
proof (induction bs)
  case (Cons b bs)
  have "uint b < 256" using uint_lt2p[of b] by simp
  with Cons show ?case by simp
qed simp

lemma le_value_inj: "length as = length bs \<Longrightarrow> le_value as = le_value bs \<Longrightarrow> as = bs"
proof (induction as bs rule: list_induct2)
  case (Cons a as b bs)
  have ab: "0 \<le> uint a" "uint a < 256" "0 \<le> uint b" "uint b < 256"
    using uint_lt2p[of a] uint_lt2p[of b] by simp_all
  moreover have "uint a + 256 * le_value as = uint b + 256 * le_value bs" using Cons.prems by simp
  ultimately have "uint a = uint b \<and> le_value as = le_value bs" by smt
  with Cons.IH show ?case by (simp add: word_uint_eq_iff)
qed simp

interpretation le16: fixed_codec 2 "le_bytes 2" le_value "\<lambda>v. 0 \<le> v \<and> v < 65536"
  by unfold_locales simp_all

interpretation le32: fixed_codec 4 "le_bytes 4" le_value "\<lambda>v. 0 \<le> v \<and> v < 4294967296"
  by unfold_locales simp_all

interpretation le64: fixed_codec 8 "le_bytes 8" le_value "\<lambda>v. 0 \<le> v \<and> v < 18446744073709551616"
  by unfold_locales simp_all

section \<open>The pattern of a float\<close>

definition f64_magnitude :: "rat \<Rightarrow> int" where
  "f64_magnitude r =
     (let e = max (rat_exponent r) (- 1022); m = \<lfloor>r / 2 powi (e - 52)\<rfloor>
      in if m < 4503599627370496 then m else (e + 1023) * 4503599627370496 + (m - 4503599627370496))"

fun f64_bits :: "pyfloat \<Rightarrow> int" where
  "f64_bits (Fin r) =
     (if r = 0 then 0 else if 0 < r then f64_magnitude r else 9223372036854775808 + f64_magnitude (- r))"
| "f64_bits PosInf = 2047 * 4503599627370496"
| "f64_bits NegInf = 9223372036854775808 + 2047 * 4503599627370496"
| "f64_bits NaN = 2047 * 4503599627370496 + 2251799813685248"

definition f64_unsigned :: "int \<Rightarrow> rat" where
  "f64_unsigned v =
     (let ex = v div 4503599627370496; m = v mod 4503599627370496
      in if ex = 0 then of_int m * 2 powi (- 1074) else of_int (m + 4503599627370496) * 2 powi (ex - 1075))"

definition f64_value :: "int \<Rightarrow> pyfloat" where
  "f64_value w =
     (let negative = 9223372036854775808 \<le> w; v = w mod 9223372036854775808 in
      if 2047 \<le> v div 4503599627370496 then
        (if v mod 4503599627370496 \<noteq> 0 then NaN else if negative then NegInf else PosInf)
      else Fin (if negative then - f64_unsigned v else f64_unsigned v))"

text \<open>A value a Python float can hold.\<close>

fun is_f64 :: "pyfloat \<Rightarrow> bool" where
  "is_f64 (Fin r) \<longleftrightarrow> round64 r = Fin r"
| "is_f64 _ \<longleftrightarrow> True"

lemma rat_exponent_gt:
  assumes "0 < x"
  shows "x < 2 powi (rat_exponent x + 1)"
proof -
  obtain n d where q: "quotient_of x = (n, d)" by (cases "quotient_of x")
  have d: "0 < d" using quotient_of_denom_pos[OF q] .
  have x: "x = of_int n / of_int d" using quotient_of_div[OF q] .
  have n: "0 < n" using assms x d by (simp add: zero_less_divide_iff)
  have pos: "\<exists>a. bitlen k = int a + 1" if "0 < k" for k
  proof -
    have "0 < bitlen k" using bitlen_nonneg[of k] bitlen_eq_zero_iff[of k] that by linarith
    then show ?thesis by (metis zero_less_imp_eq_int Suc_pred' int_Suc)
  qed
  obtain a where a: "bitlen n = int a + 1" using pos[OF n] ..
  obtain b where b: "bitlen d = int b + 1" using pos[OF d] ..
  have "n < 2 ^ (a + 1)" using bitlen_bounds[of n] n a by (simp add: nat_add_distrib)
  then have na: "(of_int n :: rat) < 2 ^ (a + 1)" by (metis of_int_less_iff of_int_numeral of_int_power)
  have "2 ^ b \<le> d" using bitlen_bounds[of d] d b by simp
  then have db: "(2 ^ b :: rat) \<le> of_int d" by (metis of_int_le_iff of_int_numeral of_int_power)
  have "of_int n / of_int d < (2 ^ (a + 1) / 2 ^ b :: rat)"
    using na db n d by (intro frac_less) auto
  also have "\<dots> = 2 powi (bitlen n - bitlen d + 1)"
    using power_int_diff[of "2::rat" "int (a + 1)" "int b"] by (simp add: a b algebra_simps power_int_add)
  finally have "x < 2 powi (bitlen n - bitlen d + 1)" by (simp add: x)
  then show ?thesis by (auto simp: rat_exponent_def q Let_def)
qed

lemma round64_fixed:
  assumes "0 < r" and "round64 r = Fin r"
  defines "e \<equiv> max (rat_exponent r) (- 1022)"
  obtains k where "r = of_int k * 2 powi (e - 52)" and "0 < k" and "k < 2 ^ 53"
    and "k < 2 ^ 52 \<Longrightarrow> e = - 1022" and "e \<le> 1023"
proof -
  define u :: rat where "u = 2 powi (e - 52)"
  have u: "0 < u" by (simp add: u_def)
  define k where "k = round_half_even (r / u)"
  have "round64 r = (if 2 ^ 1024 \<le> \<bar>of_int k * u\<bar> then PosInf else Fin (of_int k * u))"
    using assms(1) unfolding round64_def Let_def k_def u_def e_def by simp
  with assms(2) have r: "r = of_int k * u" and small: "\<bar>of_int k * u\<bar> < 2 ^ 1024"
    by (simp_all split: if_split_asm)
  have k0: "0 < k" using assms(1) r u by (simp add: zero_less_mult_iff)
  have top: "r < 2 powi (e + 1)"
    using rat_exponent_gt[OF assms(1)] power_int_increasing[of "rat_exponent r + 1" "e + 1" "2::rat"]
    by (simp add: e_def)
  have "2 powi (e + 1) = 2 ^ 53 * u"
    using power_int_add[of "2::rat" "53" "e - 52"] by (simp add: u_def add.commute)
  with top r u have "(of_int k :: rat) < 2 ^ 53" by simp
  then have k53: "k < 2 ^ 53" by (metis of_int_less_iff of_int_numeral of_int_power)
  have sub: "e = - 1022" if "k < 2 ^ 52"
  proof (rule ccontr)
    assume "e \<noteq> - 1022"
    then have "rat_exponent r = e" by (simp add: e_def max_def split: if_split_asm)
    with rat_exponent_le[OF assms(1)] have le: "2 powi e \<le> r" by simp
    have "2 powi e = 2 ^ 52 * u" using power_int_add[of "2::rat" "52" "e - 52"] by (simp add: u_def)
    with le r u have "(2 ^ 52 :: rat) \<le> of_int k" by simp
    with that show False by (metis not_less of_int_le_iff of_int_numeral of_int_power)
  qed
  have "e \<le> 1023"
  proof (rule ccontr)
    assume "\<not> e \<le> 1023"
    then have "rat_exponent r = e" and e: "1024 \<le> e" by (simp_all add: e_def max_def split: if_split_asm)
    with rat_exponent_le[OF assms(1)] have "2 powi e \<le> r" by simp
    moreover have "(2::rat) powi 1024 \<le> 2 powi e" using e by (intro power_int_increasing) simp_all
    ultimately show False using small r assms(1) by simp
  qed
  then show thesis using that[of k] r k0 k53 sub by (simp add: u_def)
qed

lemma f64_magnitude_ok:
  assumes "0 < r" and "round64 r = Fin r"
  shows "0 \<le> f64_magnitude r \<and> f64_magnitude r < 2047 * 4503599627370496 \<and> f64_unsigned (f64_magnitude r) = r"
proof -
  define e where "e = max (rat_exponent r) (- 1022)"
  obtain k where k: "r = of_int k * 2 powi (e - 52)" "0 < k" "k < 2 ^ 53" "k < 2 ^ 52 \<Longrightarrow> e = - 1022" "e \<le> 1023"
    using round64_fixed[OF assms, folded e_def] by blast
  have m: "\<lfloor>r / 2 powi (e - 52)\<rfloor> = k" by (simp add: k(1))
  have e: "- 1022 \<le> e" by (simp add: e_def)
  have mag: "f64_magnitude r =
    (if k < 4503599627370496 then k else (e + 1023) * 4503599627370496 + (k - 4503599627370496))"
    unfolding f64_magnitude_def Let_def e_def[symmetric] m ..
  show ?thesis
  proof (cases "k < 4503599627370496")
    case True
    with k have "e = - 1022" by simp
    with True k show ?thesis by (simp add: mag f64_unsigned_def)
  next
    case False
    define f where "f = k - 4503599627370496"
    have f: "0 \<le> f" "f < 4503599627370496" using False k(3) by (simp_all add: f_def)
    have "((e + 1023) * 4503599627370496 + f) div 4503599627370496 = e + 1023"
      "((e + 1023) * 4503599627370496 + f) mod 4503599627370496 = f"
      using f by (simp_all only: div_mult_self3 mod_mult_self3) simp_all
    moreover have "e + 1023 \<noteq> 0" "e + 1023 - 1075 = e - 52" using e by simp_all
    moreover have "0 \<le> (e + 1023) * 4503599627370496 + f" "(e + 1023) * 4503599627370496 + f < 2047 * 4503599627370496"
      using e k(5) f by simp_all
    ultimately show ?thesis
      using False unfolding mag f64_unsigned_def Let_def by (simp add: f_def[symmetric]) (simp add: f_def k(1))
  qed
qed

lemma round_half_even_minus: "round_half_even (- x) = - round_half_even x"
proof (cases "x \<in> \<int>")
  case True
  then obtain n where n: "x = of_int n" by (elim Ints_cases)
  show ?thesis using round_half_even_of_int[of "- n"] by (simp add: n)
next
  case False
  then have c: "\<lfloor>- x\<rfloor> = - \<lfloor>x\<rfloor> - 1" by (metis Ints_of_int ceiling_altdef floor_minus minus_add_distrib uminus_add_conv_diff add.commute)
  show ?thesis by (auto simp: round_half_even_def Let_def c)
qed

lemma round64_minus: "round64 (- r) = fneg (round64 r)"
  by (auto simp: round64_def Let_def round_half_even_minus)

lemma f64_bits_ok:
  assumes "is_f64 x"
  shows "0 \<le> f64_bits x \<and> f64_bits x < 18446744073709551616 \<and> f64_value (f64_bits x) = x"
proof (cases x)
  case (Fin r)
  have val: "f64_value (if s then 9223372036854775808 + v else v) = Fin (if s then - f64_unsigned v else f64_unsigned v)"
    if "0 \<le> v" "v < 2047 * 4503599627370496" for s v
  proof -
    have "v < 9223372036854775808" "\<not> 2047 \<le> v div 4503599627370496" using that by simp_all
    then show ?thesis using that(1) by (auto simp: f64_value_def Let_def)
  qed
  consider "r = 0" | "0 < r" | "0 < - r" by fastforce
  then show ?thesis
  proof cases
    case 1
    then show ?thesis by (simp add: Fin f64_value_def f64_unsigned_def)
  next
    case 2
    have m: "0 \<le> f64_magnitude r" "f64_magnitude r < 2047 * 4503599627370496" "f64_unsigned (f64_magnitude r) = r"
      using f64_magnitude_ok[OF 2] assms Fin by simp_all
    then show ?thesis using 2 val[of "f64_magnitude r" False] by (simp add: Fin)
  next
    case 3
    have m: "0 \<le> f64_magnitude (- r)" "f64_magnitude (- r) < 2047 * 4503599627370496"
      "f64_unsigned (f64_magnitude (- r)) = - r"
      using f64_magnitude_ok[OF 3] assms Fin by (simp_all add: round64_minus)
    then show ?thesis using 3 val[of "f64_magnitude (- r)" True] by (simp add: Fin)
  qed
qed (simp_all add: f64_value_def)

definition f64_bytes :: "pyfloat \<Rightarrow> 8 word list" where
  "f64_bytes x = le_bytes 8 (f64_bits x)"

definition f64_of_bytes :: "8 word list \<Rightarrow> pyfloat" where
  "f64_of_bytes bs = f64_value (le_value bs)"

interpretation f64: fixed_codec 8 f64_bytes f64_of_bytes is_f64
  by unfold_locales (simp_all add: f64_bytes_def f64_of_bytes_def f64_bits_ok)

lemma is_f64_dyadic: "\<bar>m\<bar> < 2 ^ 53 \<Longrightarrow> k \<le> 1074 \<Longrightarrow> is_f64 (Fin (of_int m / 2 ^ k))"
  by (simp add: round64_dyadic)

lemma is_f64_of_int: "\<bar>n\<bar> < 2 ^ 53 \<Longrightarrow> is_f64 (Fin (of_int n))"
  by (simp add: round64_of_int)

section \<open>Integer fields\<close>

text \<open>\<open>struct\<close> formats of unsigned fields, given by their widths; a value out of range is a \<open>struct.error\<close>.\<close>

fun pack_uints :: "nat list \<Rightarrow> int list \<Rightarrow> 8 word list option" where
  "pack_uints [] [] = Some []"
| "pack_uints (n # ns) (v # vs) =
     (if 0 \<le> v \<and> v < 256 ^ n then map_option (\<lambda>bs. le_bytes n v @ bs) (pack_uints ns vs) else None)"
| "pack_uints _ _ = None"

fun unpack_uints :: "nat list \<Rightarrow> 8 word list \<Rightarrow> int list" where
  "unpack_uints [] bs = []"
| "unpack_uints (n # ns) bs = le_value (take n bs) # unpack_uints ns (drop n bs)"

lemma pack_uints_length: "pack_uints ns vs = Some bs \<Longrightarrow> length bs = sum_list ns"
  by (induction ns vs arbitrary: bs rule: pack_uints.induct) (auto split: if_split_asm)

lemma unpack_pack_uints: "pack_uints ns vs = Some bs \<Longrightarrow> unpack_uints ns (bs @ rest) = vs"
  by (induction ns vs arbitrary: bs rule: pack_uints.induct) (auto split: if_split_asm)

lemma pack_uints_ok: "list_all2 (\<lambda>n v. 0 \<le> v \<and> v < 256 ^ n) ns vs \<longleftrightarrow> pack_uints ns vs \<noteq> None"
  by (induction ns vs rule: pack_uints.induct) auto

lemma length_unpack_uints [simp]: "length (unpack_uints ns bs) = length ns"
  by (induction ns arbitrary: bs) simp_all

lemma pack_unpack_uints:
  "sum_list ns \<le> length bs \<Longrightarrow> pack_uints ns (unpack_uints ns bs) = Some (take (sum_list ns) bs)"
proof (induction ns arbitrary: bs)
  case (Cons n ns)
  have len: "length (take n bs) = n" using Cons.prems by simp
  have v: "0 \<le> le_value (take n bs)" "le_value (take n bs) < 256 ^ n"
    using le_value_nonneg le_value_bound[of "take n bs"] len by simp_all
  have "le_bytes n (le_value (take n bs)) = take n bs"
    using le_value_inj[of "le_bytes n (le_value (take n bs))" "take n bs"] len v by simp
  then show ?case using Cons v by (simp add: take_add)
qed simp

end
