(* ===== verification/Contracts.thy ===== *)
theory Contracts
  imports PyText
begin

text \<open>
  The data contracts of the arm teleoperation pipeline, \<open>src/teleoperation/contracts.py\<close>: enums, records,
  and for each dataclass the \<open>__post_init__\<close> that validates it, as a function from the raw fields to
  the validated record. \<open>pnorm\<close>, the Euclidean norm the interpreter computes for a tuple of floats
  (\<open>sum\<close> compensates its rounding or not, by version), is a parameter.
\<close>

section \<open>Enums\<close>

datatype controller_state =
    StDisconnected | StConnecting | StConnected | StArmed | StEdgReady | StHolding | StRunning
  | StControlledStop | StFault | StShutdown

text \<open>\<open>tuple(ControllerState)\<close>: declaration order, which the native worker's codes index.\<close>

definition controller_states :: "controller_state list" where
  "controller_states = [StDisconnected, StConnecting, StConnected, StArmed, StEdgReady, StHolding,
     StRunning, StControlledStop, StFault, StShutdown]"

datatype health_level = HealthOk | HealthWarning | HealthDegraded | HealthError | HealthFatal

datatype safety_action = ActHold | ActAllow | ActControlledStop | ActAbort

datatype arm_tracking = TrackUnknown | TrackValid | TrackLimited | TrackInvalid

datatype discontinuity = DiscNone | DiscInitial | DiscReconnect | DiscSequenceReset
  | DiscTrackingRecovery | DiscRelocalization

datatype contract_error =
    NotFiniteValues | NegativeInteger | NotMonotonic | UnknownStage | AssertionFailed | PoseShape | ZeroNorm
  | NotUnitLength | BlankIdentity | NegativeSequence | TrackingConflict | QualityRange | InvalidReset
  | WrongLength | NegativeHealth | EmptyReason

section \<open>Field checks\<close>

definition finite_tuple :: "pyfloat list \<Rightarrow> (contract_error, unit) res" where
  "finite_tuple values = require (list_all is_finite values) NotFiniteValues"

definition nonnegative_ns :: "int option \<Rightarrow> (contract_error, unit) res" where
  "nonnegative_ns value = require (case value of None \<Rightarrow> True | Some v \<Rightarrow> \<not> v < 0) NegativeInteger"

definition validate_identity :: "string \<Rightarrow> (contract_error, unit) res" where
  "validate_identity value = require (\<not> blank value) BlankIdentity"

definition validate_sequence :: "int \<Rightarrow> (contract_error, unit) res" where
  "validate_sequence value = require (\<not> value < 0) NegativeSequence"

section \<open>TimestampSet\<close>

record timestamp_set =
  ts_local_receive_ns :: int
  ts_source_capture_ns :: "int option"
  ts_processing_ns :: "int option"
  ts_dispatch_ns :: "int option"
  ts_robot_command_ns :: "int option"
  ts_robot_state_observation_ns :: "int option"

text \<open>The local stages that are present, in pipeline order.\<close>

definition local_stages :: "timestamp_set \<Rightarrow> int list" where
  "local_stages t =
     List.map_filter id [Some (ts_local_receive_ns t), ts_processing_ns t, ts_dispatch_ns t, ts_robot_command_ns t]"

definition mk_timestamps :: "timestamp_set \<Rightarrow> (contract_error, timestamp_set) res" where
  "mk_timestamps t =
     rbind (rmap nonnegative_ns [Some (ts_local_receive_ns t), ts_source_capture_ns t, ts_processing_ns t,
       ts_dispatch_ns t, ts_robot_command_ns t, ts_robot_state_observation_ns t]) (\<lambda>_.
     if list_ex (\<lambda>(before, after). after < before) (zip (local_stages t) (tl (local_stages t)))
     then Inl NotMonotonic else Inr t)"

definition timestamp_names :: "string list" where
  "timestamp_names = [''local_receive_ns'', ''source_capture_ns'', ''processing_ns'', ''dispatch_ns'',
     ''robot_command_ns'', ''robot_state_observation_ns'']"

text \<open>One keyword of \<open>with_stage\<close>; a \<open>None\<close> for the local timestamp fails its assertion.\<close>

definition set_stage :: "string \<times> int option \<Rightarrow> timestamp_set \<Rightarrow> timestamp_set" where
  "set_stage kv t =
     (let (k, v) = kv in
      if k = ''local_receive_ns'' then (case v of Some n \<Rightarrow> t\<lparr>ts_local_receive_ns := n\<rparr> | None \<Rightarrow> t)
      else if k = ''source_capture_ns'' then t\<lparr>ts_source_capture_ns := v\<rparr>
      else if k = ''processing_ns'' then t\<lparr>ts_processing_ns := v\<rparr>
      else if k = ''dispatch_ns'' then t\<lparr>ts_dispatch_ns := v\<rparr>
      else if k = ''robot_command_ns'' then t\<lparr>ts_robot_command_ns := v\<rparr>
      else if k = ''robot_state_observation_ns'' then t\<lparr>ts_robot_state_observation_ns := v\<rparr>
      else t)"

definition with_stage :: "timestamp_set \<Rightarrow> (string \<times> int option) list \<Rightarrow> (contract_error, timestamp_set) res" where
  "with_stage t updates =
     (if list_ex (\<lambda>(k, v). k \<notin> set timestamp_names) updates then Inl UnknownStage
      else if map_of updates ''local_receive_ns'' = Some None then Inl AssertionFailed
      else mk_timestamps (fold set_stage updates t))"

section \<open>Pose3D\<close>

record pose3d =
  p3_position_m :: "pyfloat list"
  p3_quaternion_xyzw :: "pyfloat list"

text \<open>\<open>1e-12\<close> and \<open>1e-3\<close> as binary64 values.\<close>

definition norm_floor :: pyfloat where
  "norm_floor = round64 (1 / 1000000000000)"

definition norm_tolerance :: pyfloat where
  "norm_tolerance = round64 (1 / 1000)"

definition mk_pose3d :: "(pyfloat list \<Rightarrow> pyfloat) \<Rightarrow> pose3d \<Rightarrow> (contract_error, pose3d) res" where
  "mk_pose3d pnorm p =
     (if length (p3_position_m p) \<noteq> 3 \<or> length (p3_quaternion_xyzw p) \<noteq> 4 then Inl PoseShape
      else rbind (finite_tuple (p3_position_m p)) (\<lambda>_. rbind (finite_tuple (p3_quaternion_xyzw p)) (\<lambda>_.
        let n = pnorm (p3_quaternion_xyzw p) in
        if flt n norm_floor then Inl ZeroNorm
        else if flt norm_tolerance (fabs (fsub n (Fin 1))) then Inl NotUnitLength
        else Inr (p\<lparr>p3_quaternion_xyzw := map (\<lambda>v. fdiv v n) (p3_quaternion_xyzw p)\<rparr>))))"

section \<open>Samples\<close>

record arm_pose_sample =
  as_source_id :: string
  as_sequence :: int
  as_frame_id :: string
  as_pose :: pose3d
  as_timestamps :: timestamp_set
  as_tracking_valid :: bool
  as_tracking_quality :: "pyfloat option"
  as_tracking_state :: arm_tracking
  as_validity_reason :: string
  as_sample_age_ns :: int
  as_connection_epoch :: int
  as_discontinuity :: discontinuity
  as_source_sequence :: "int option"

definition quality_ok :: "pyfloat \<Rightarrow> bool" where
  "quality_ok q \<longleftrightarrow> is_finite q \<and> fle (Fin 0) q \<and> fle q (Fin 1)"

definition mk_arm_pose_sample :: "arm_pose_sample \<Rightarrow> (contract_error, arm_pose_sample) res" where
  "mk_arm_pose_sample s =
     rbind (validate_identity (as_source_id s)) (\<lambda>_.
     rbind (validate_identity (as_frame_id s)) (\<lambda>_.
     rbind (validate_sequence (as_sequence s)) (\<lambda>_.
     rbind (nonnegative_ns (Some (as_sample_age_ns s))) (\<lambda>_.
     rbind (require (\<not> as_connection_epoch s < 0) NegativeInteger) (\<lambda>_.
     rbind (case as_source_sequence s of Some n \<Rightarrow> validate_sequence n | None \<Rightarrow> Inr ()) (\<lambda>_.
     rbind (require (\<not> (\<not> as_tracking_valid s \<and> as_tracking_state s = TrackValid)) TrackingConflict) (\<lambda>_.
     rbind (case as_tracking_quality s of Some q \<Rightarrow> require (quality_ok q) QualityRange | None \<Rightarrow> Inr ()) (\<lambda>_.
     Inr s))))))))"

record run_gate_sample =
  rg_source_id :: string
  rg_sequence :: int
  rg_local_receive_ns :: int
  rg_engaged :: bool
  rg_valid :: bool
  rg_connection_epoch :: int
  rg_reason :: string

definition mk_run_gate :: "run_gate_sample \<Rightarrow> (contract_error, run_gate_sample) res" where
  "mk_run_gate g =
     rbind (validate_identity (rg_source_id g)) (\<lambda>_.
     rbind (validate_sequence (rg_sequence g)) (\<lambda>_.
     rbind (nonnegative_ns (Some (rg_local_receive_ns g))) (\<lambda>_.
     rbind (require (\<not> rg_connection_epoch g < 0) NegativeInteger) (\<lambda>_. Inr g))))"

record operator_action_sample =
  oa_source_id :: string
  oa_sequence :: int
  oa_local_receive_ns :: int
  oa_recenter_requested :: bool
  oa_stop_requested :: bool
  oa_fault_reset_requested :: bool
  oa_valid :: bool
  oa_reason :: string

definition mk_operator_action :: "operator_action_sample \<Rightarrow> (contract_error, operator_action_sample) res" where
  "mk_operator_action a =
     rbind (validate_identity (oa_source_id a)) (\<lambda>_.
     rbind (validate_sequence (oa_sequence a)) (\<lambda>_.
     rbind (nonnegative_ns (Some (oa_local_receive_ns a))) (\<lambda>_.
     if oa_fault_reset_requested a \<and> \<not> oa_valid a then Inl InvalidReset else Inr a)))"

section \<open>Targets and robot state\<close>

record joint_target =
  jt_source_id :: string
  jt_sequence :: int
  jt_generated_ns :: int
  jt_position_rad :: "pyfloat list"
  jt_velocity_rad_s :: "pyfloat list"
  jt_acceleration_rad_s2 :: "pyfloat list"
  jt_source_age_ns :: int
  jt_anchor_id :: int

definition sized_tuple :: "nat \<Rightarrow> pyfloat list \<Rightarrow> (contract_error, unit) res" where
  "sized_tuple n values = (if length values \<noteq> n then Inl WrongLength else finite_tuple values)"

definition mk_joint_target :: "joint_target \<Rightarrow> (contract_error, joint_target) res" where
  "mk_joint_target t =
     rbind (validate_identity (jt_source_id t)) (\<lambda>_.
     rbind (validate_sequence (jt_sequence t)) (\<lambda>_.
     rbind (nonnegative_ns (Some (jt_generated_ns t))) (\<lambda>_.
     rbind (nonnegative_ns (Some (jt_source_age_ns t))) (\<lambda>_.
     rbind (require (\<not> jt_anchor_id t < 0) NegativeInteger) (\<lambda>_.
     rbind (rmap (sized_tuple 6) [jt_position_rad t, jt_velocity_rad_s t, jt_acceleration_rad_s2 t]) (\<lambda>_.
     Inr t))))))"

record pose_target =
  pt_source_id :: string
  pt_sequence :: int
  pt_frame_id :: string
  pt_pose :: pose3d
  pt_timestamps :: timestamp_set
  pt_linear_velocity_m_s :: "pyfloat list option"
  pt_angular_velocity_rad_s :: "pyfloat list option"

definition mk_pose_target :: "pose_target \<Rightarrow> (contract_error, pose_target) res" where
  "mk_pose_target t =
     rbind (validate_identity (pt_source_id t)) (\<lambda>_.
     rbind (validate_identity (pt_frame_id t)) (\<lambda>_.
     rbind (validate_sequence (pt_sequence t)) (\<lambda>_.
     rbind (rmap (\<lambda>v. case v of None \<Rightarrow> Inr () | Some xs \<Rightarrow> sized_tuple 3 xs)
       [pt_linear_velocity_m_s t, pt_angular_velocity_rad_s t]) (\<lambda>_. Inr t))))"

record robot_state =
  rs_sequence :: int
  rs_observed_ns :: int
  rs_joint_position_rad :: "pyfloat list"
  rs_joint_velocity_rad_s :: "pyfloat list"
  rs_tcp_pose :: "pose3d option"
  rs_powered :: bool
  rs_enabled :: bool
  rs_in_servo_mode :: bool
  rs_controller_timestamp_ns :: "int option"
  rs_sdk_call_duration_ns :: "int option"

definition mk_robot_state :: "robot_state \<Rightarrow> (contract_error, robot_state) res" where
  "mk_robot_state r =
     rbind (validate_sequence (rs_sequence r)) (\<lambda>_.
     rbind (nonnegative_ns (Some (rs_observed_ns r))) (\<lambda>_.
     rbind (rmap (sized_tuple 6) [rs_joint_position_rad r, rs_joint_velocity_rad_s r]) (\<lambda>_.
     rbind (rmap nonnegative_ns [rs_controller_timestamp_ns r, rs_sdk_call_duration_ns r]) (\<lambda>_. Inr r))))"

section \<open>Health, safety, acknowledgements\<close>

record health_state =
  he_level :: health_level
  he_monotonic_ns :: int
  he_connected :: bool
  he_detail :: string
  he_sample_age_ns :: "int option"
  he_consecutive_failures :: int

definition mk_health_state :: "health_state \<Rightarrow> (contract_error, health_state) res" where
  "mk_health_state h =
     (if he_monotonic_ns h < 0 \<or> he_consecutive_failures h < 0 then Inl NegativeHealth
      else rbind (nonnegative_ns (he_sample_age_ns h)) (\<lambda>_. Inr h))"

record safety_state =
  sf_action :: safety_action
  sf_monotonic_ns :: int
  sf_reasons :: "string list"
  sf_fault_latched :: bool

definition mk_safety_state :: "safety_state \<Rightarrow> (contract_error, safety_state) res" where
  "mk_safety_state s =
     (if sf_monotonic_ns s < 0 then Inl NegativeHealth
      else if list_ex (\<lambda>reason. reason = []) (sf_reasons s) then Inl EmptyReason
      else Inr s)"

record command_ack =
  ack_sequence :: int
  ack_accepted :: bool
  ack_state :: controller_state
  ack_received_ns :: int
  ack_robot_command_ns :: "int option"
  ack_reason :: string

definition mk_command_ack :: "command_ack \<Rightarrow> (contract_error, command_ack) res" where
  "mk_command_ack a =
     rbind (validate_sequence (ack_sequence a)) (\<lambda>_.
     if ack_received_ns a < 0 then Inl NegativeHealth
     else rbind (nonnegative_ns (ack_robot_command_ns a)) (\<lambda>_. Inr a))"

section \<open>What the checks guarantee\<close>

named_theorems contract_simps

lemma finite_tuple_Inr [simp]: "finite_tuple xs = Inr u \<longleftrightarrow> (\<forall>x \<in> set xs. is_finite x)"
  by (simp add: finite_tuple_def list_all_iff)

lemma nonnegative_ns_Inr [simp]: "nonnegative_ns v = Inr u \<longleftrightarrow> (\<forall>n. v = Some n \<longrightarrow> 0 \<le> n)"
  by (auto simp: nonnegative_ns_def split: option.splits)

lemma validate_identity_Inr [simp]: "validate_identity s = Inr u \<longleftrightarrow> \<not> blank s"
  by (simp add: validate_identity_def)

lemma validate_sequence_Inr [simp]: "validate_sequence n = Inr u \<longleftrightarrow> 0 \<le> n"
  by (auto simp: validate_sequence_def)

lemma sized_tuple_Inr [simp]:
  "sized_tuple n xs = Inr u \<longleftrightarrow> length xs = n \<and> (\<forall>x \<in> set xs. is_finite x)"
  by (simp add: sized_tuple_def)

text \<open>Pipeline stages are non-negative and in order, whatever stages are missing.\<close>

definition timestamps_ok :: "timestamp_set \<Rightarrow> bool" where
  "timestamps_ok t \<longleftrightarrow> sorted (local_stages t) \<and> (\<forall>n \<in> set (local_stages t). 0 \<le> n)
     \<and> (\<forall>n. ts_source_capture_ns t = Some n \<longrightarrow> 0 \<le> n)
     \<and> (\<forall>n. ts_robot_state_observation_ns t = Some n \<longrightarrow> 0 \<le> n)"

lemma adjacent_sorted:
  "\<not> list_ex (\<lambda>(a, b). b < a) (zip xs (tl xs)) \<longleftrightarrow> sorted (xs :: int list)"
proof (induction xs)
  case (Cons x xs)
  then show ?case by (cases xs) (auto simp: not_less intro: order_trans)
qed simp

lemma mk_timestamps_Inr: "mk_timestamps t = Inr t' \<longleftrightarrow> t' = t \<and> timestamps_ok t"
  unfolding mk_timestamps_def timestamps_ok_def adjacent_sorted[symmetric]
  by (auto simp: local_stages_def List.map_filter_def id_def split: option.splits)

lemma with_stage_ok: "with_stage t updates = Inr t' \<Longrightarrow> timestamps_ok t' \<and> t' = fold set_stage updates t"
  by (auto simp: with_stage_def mk_timestamps_Inr split: if_split_asm)

lemma mk_pose3d_Inr:
  "mk_pose3d pnorm p = Inr p' \<Longrightarrow> length (p3_position_m p') = 3 \<and> length (p3_quaternion_xyzw p') = 4
     \<and> (\<forall>x \<in> set (p3_position_m p'). is_finite x) \<and> p3_position_m p' = p3_position_m p"
  by (auto simp: mk_pose3d_def Let_def split: if_split_asm)

lemma mk_arm_pose_sample_Inr:
  "mk_arm_pose_sample s = Inr s' \<Longrightarrow> s' = s \<and> 0 \<le> as_sequence s \<and> 0 \<le> as_sample_age_ns s
     \<and> 0 \<le> as_connection_epoch s \<and> (as_tracking_state s = TrackValid \<longrightarrow> as_tracking_valid s)"
  by (auto simp: mk_arm_pose_sample_def)

end
