(* ===== verification/Wire.thy ===== *)
theory Wire
  imports Contracts Binary64
begin

text \<open>
  The Unix datagrams between the Python supervisor and the native servo worker,
  \<open>src/teleoperation/wire.py\<close>: target packets with their CRC-32, the status packets of the worker, the packet
  constructors, and the non-blocking publisher and receiver. The sockets are arguments: what one
  \<open>sendto\<close> reports, and the datagrams \<open>recv\<close> returns until it would block.
\<close>

section \<open>Formats\<close>

definition target_magic :: int where
  "target_magic = 1247037268"

definition status_magic :: int where
  "status_magic = 1246975041"

definition wire_version :: int where
  "wire_version = 1"

text \<open>The unsigned fields of \<open><IHHIIQQQQQ8d\<close> and \<open><IHHIQQQQQ6di\<close>; eight and six doubles follow them.\<close>

definition target_fields :: "nat list" where
  "target_fields = [4, 2, 2, 4, 4, 8, 8, 8, 8, 8]"

definition status_fields :: "nat list" where
  "status_fields = [4, 2, 2, 4, 8, 8, 8, 8, 8]"

definition target_size :: nat where
  "target_size = 124"

definition status_size :: nat where
  "status_size = 108"

datatype target_kind = KindHeartbeat | KindHoldCurrent | KindJointPosition | KindCartesianPose | KindStop

definition target_kinds :: "target_kind list" where
  "target_kinds = [KindHeartbeat, KindHoldCurrent, KindJointPosition, KindCartesianPose, KindStop]"

datatype frame_id = FrameNone | FrameRobotBase | FrameStartupTcpRelative

definition frame_ids :: "frame_id list" where
  "frame_ids = [FrameNone, FrameRobotBase, FrameStartupTcpRelative]"

fun kind_code :: "target_kind \<Rightarrow> int" where
  "kind_code KindHeartbeat = 0"
| "kind_code KindHoldCurrent = 1"
| "kind_code KindJointPosition = 2"
| "kind_code KindCartesianPose = 3"
| "kind_code KindStop = 4"

fun frame_code :: "frame_id \<Rightarrow> int" where
  "frame_code FrameNone = 0"
| "frame_code FrameRobotBase = 1"
| "frame_code FrameStartupTcpRelative = 2"

text \<open>\<open>TargetKind(n)\<close> and \<open>FrameId(n)\<close>: an unknown code raises.\<close>

definition kind_of_code :: "int \<Rightarrow> target_kind option" where
  "kind_of_code n = find (\<lambda>k. kind_code k = n) target_kinds"

definition frame_of_code :: "int \<Rightarrow> frame_id option" where
  "frame_of_code n = find (\<lambda>k. frame_code k = n) frame_ids"

text \<open>\<open>TargetFlags.ALLOW_MOTION if allow_motion else TargetFlags.NONE\<close>.\<close>

definition motion_flags :: "bool \<Rightarrow> int" where
  "motion_flags allow_motion = (if allow_motion then 1 else 0)"

record target_packet =
  tp_kind :: target_kind
  tp_flags :: int
  tp_frame_id :: frame_id
  tp_sequence :: int
  tp_source_capture_ns :: int
  tp_local_receive_ns :: int
  tp_processing_ns :: int
  tp_dispatch_ns :: int
  tp_payload :: "pyfloat list"

record worker_status =
  ws_state :: int
  ws_flags :: int
  ws_last_sequence :: int
  ws_loop_sequence :: int
  ws_worker_ns :: int
  ws_command_ns :: int
  ws_observation_ns :: int
  ws_joint_position_rad :: "pyfloat list"
  ws_error_code :: int

datatype wire_error =
    StructError | WrongSize | BadMagic | CrcMismatch | UnknownKind | UnknownFrame | UnsupportedFrame
  | NegativeWireSequence | WireTimestamps | NegativeSource | SixJoints | NonFiniteJoints | UnknownState
  | WireContract contract_error

section \<open>CRC-32\<close>

text \<open>\<open>zlib.crc32\<close>: the reflected polynomial \<open>0xEDB88320\<close>, one bit at a time, complemented at both ends.\<close>

definition crc_bit :: "32 word \<Rightarrow> 32 word" where
  "crc_bit c = (if odd c then drop_bit 1 c XOR 3988292384 else drop_bit 1 c)"

definition crc_byte :: "32 word \<Rightarrow> 8 word \<Rightarrow> 32 word" where
  "crc_byte c b = (crc_bit ^^ 8) (c XOR ucast b)"

definition crc32 :: "8 word list \<Rightarrow> 32 word" where
  "crc32 bs = NOT (foldl crc_byte (NOT 0) bs)"

section \<open>Encoding and decoding\<close>

definition encode_target :: "target_packet \<Rightarrow> (wire_error, 8 word list) res" where
  "encode_target p =
     (case pack_uints target_fields [target_magic, wire_version, kind_code (tp_kind p), tp_flags p,
        frame_code (tp_frame_id p), tp_sequence p, tp_source_capture_ns p, tp_local_receive_ns p,
        tp_processing_ns p, tp_dispatch_ns p] of
        None \<Rightarrow> Inl StructError
      | Some head \<Rightarrow>
          if length (tp_payload p) \<noteq> 8 then Inl StructError
          else let body = head @ f64.enc_all (tp_payload p)
               in Inr (body @ le_bytes 4 (uint (crc32 body))))"

definition decode_target :: "8 word list \<Rightarrow> (wire_error, target_packet) res" where
  "decode_target data =
     (if length data \<noteq> target_size then Inl WrongSize
      else let values = unpack_uints target_fields data;
               payload = f64.dec_all 8 (drop 56 data);
               crc = le_value (drop 120 data) in
        if values ! 0 \<noteq> target_magic \<or> values ! 1 \<noteq> wire_version then Inl BadMagic
        else if uint (crc32 (take 120 data)) \<noteq> crc then Inl CrcMismatch
        else case kind_of_code (values ! 2) of
          None \<Rightarrow> Inl UnknownKind
        | Some kind \<Rightarrow>
            (case frame_of_code (values ! 4) of
               None \<Rightarrow> Inl UnknownFrame
             | Some frame \<Rightarrow>
                 Inr \<lparr>tp_kind = kind, tp_flags = values ! 3, tp_frame_id = frame, tp_sequence = values ! 5,
                      tp_source_capture_ns = values ! 6, tp_local_receive_ns = values ! 7,
                      tp_processing_ns = values ! 8, tp_dispatch_ns = values ! 9, tp_payload = payload\<rparr>))"

text \<open>A signed 32-bit field.\<close>

definition signed32 :: "int \<Rightarrow> int" where
  "signed32 v = (if 2147483648 \<le> v then v - 4294967296 else v)"

definition decode_status :: "8 word list \<Rightarrow> (wire_error, worker_status) res" where
  "decode_status data =
     (if length data \<noteq> status_size then Inl WrongSize
      else let values = unpack_uints status_fields data in
        if values ! 0 \<noteq> status_magic \<or> values ! 1 \<noteq> wire_version then Inl BadMagic
        else if uint (crc32 (take 104 data)) \<noteq> le_value (drop 104 data) then Inl CrcMismatch
        else Inr \<lparr>ws_state = values ! 2, ws_flags = values ! 3, ws_last_sequence = values ! 4,
                  ws_loop_sequence = values ! 5, ws_worker_ns = values ! 6, ws_command_ns = values ! 7,
                  ws_observation_ns = values ! 8, ws_joint_position_rad = f64.dec_all 6 (drop 52 data),
                  ws_error_code = signed32 (le_value (take 4 (drop 100 data)))\<rparr>)"

section \<open>Packet constructors\<close>

text \<open>\<open>x or 0\<close> on an optional timestamp.\<close>

definition or_zero :: "int option \<Rightarrow> int" where
  "or_zero t = (case t of None \<Rightarrow> 0 | Some n \<Rightarrow> n)"

definition pose_target_packet :: "pose_target \<Rightarrow> bool \<Rightarrow> (wire_error, target_packet) res" where
  "pose_target_packet target allow_motion =
     (let ts = pt_timestamps target;
          frame = map_of [(''robot_base'', FrameRobotBase), (''startup_tcp_relative'', FrameStartupTcpRelative)]
                    (pt_frame_id target) in
      case frame of
        None \<Rightarrow> Inl UnsupportedFrame
      | Some f \<Rightarrow> Inr \<lparr>tp_kind = KindCartesianPose, tp_flags = motion_flags allow_motion, tp_frame_id = f,
          tp_sequence = pt_sequence target, tp_source_capture_ns = or_zero (ts_source_capture_ns ts),
          tp_local_receive_ns = ts_local_receive_ns ts, tp_processing_ns = or_zero (ts_processing_ns ts),
          tp_dispatch_ns = or_zero (ts_dispatch_ns ts),
          tp_payload = p3_position_m (pt_pose target) @ p3_quaternion_xyzw (pt_pose target) @ [Fin 0]\<rparr>)"

definition joint_position_target_packet ::
  "int \<Rightarrow> pyfloat list \<Rightarrow> int \<Rightarrow> int \<Rightarrow> int \<Rightarrow> int \<Rightarrow> bool \<Rightarrow> (wire_error, target_packet) res" where
  "joint_position_target_packet sequence joints local_receive_ns processing_ns dispatch_ns source_capture_ns
     allow_motion =
     (if sequence < 0 then Inl NegativeWireSequence
      else if \<not> (0 < local_receive_ns \<and> local_receive_ns \<le> processing_ns \<and> processing_ns \<le> dispatch_ns)
      then Inl WireTimestamps
      else if source_capture_ns < 0 then Inl NegativeSource
      else if length joints \<noteq> 6 then Inl SixJoints
      else if \<not> list_all is_finite joints then Inl NonFiniteJoints
      else Inr \<lparr>tp_kind = KindJointPosition, tp_flags = motion_flags allow_motion, tp_frame_id = FrameNone,
          tp_sequence = sequence, tp_source_capture_ns = source_capture_ns,
          tp_local_receive_ns = local_receive_ns, tp_processing_ns = processing_ns,
          tp_dispatch_ns = dispatch_ns, tp_payload = joints @ [Fin 0, Fin 0]\<rparr>)"

text \<open>\<open>float(n)\<close> of a Python integer overflows beyond the largest double.\<close>

definition py_float_of_int :: "int \<Rightarrow> (wire_error, pyfloat) res" where
  "py_float_of_int n = (let x = round64 (of_int n) in if is_finite x then Inr x else Inl StructError)"

definition heartbeat_target_packet ::
  "int \<Rightarrow> int \<Rightarrow> int \<Rightarrow> int \<Rightarrow> int \<Rightarrow> int \<Rightarrow> int \<Rightarrow> bool \<Rightarrow> (wire_error, target_packet) res" where
  "heartbeat_target_packet sequence input_sequence local_receive_ns processing_ns dispatch_ns
     last_accepted_target_sequence control_state_code allow_motion =
     (if sequence < 0 \<or> input_sequence < 0 \<or> last_accepted_target_sequence < 0 then Inl NegativeWireSequence
      else if \<not> (0 < local_receive_ns \<and> local_receive_ns \<le> processing_ns \<and> processing_ns \<le> dispatch_ns)
      then Inl WireTimestamps
      else rbind (py_float_of_int input_sequence) (\<lambda>a. rbind (py_float_of_int last_accepted_target_sequence) (\<lambda>b.
        rbind (py_float_of_int control_state_code) (\<lambda>c.
        Inr \<lparr>tp_kind = KindHeartbeat, tp_flags = motion_flags allow_motion, tp_frame_id = FrameNone,
          tp_sequence = sequence, tp_source_capture_ns = 0, tp_local_receive_ns = local_receive_ns,
          tp_processing_ns = processing_ns, tp_dispatch_ns = dispatch_ns,
          tp_payload = [a, b, c, Fin 0, Fin 0, Fin 0, Fin 0, Fin 0]\<rparr>))))"

definition stationary_packet :: "target_kind \<Rightarrow> int \<Rightarrow> int \<Rightarrow> target_packet" where
  "stationary_packet kind sequence monotonic_ns =
     \<lparr>tp_kind = kind, tp_flags = 0, tp_frame_id = FrameNone, tp_sequence = sequence, tp_source_capture_ns = 0,
      tp_local_receive_ns = monotonic_ns, tp_processing_ns = monotonic_ns, tp_dispatch_ns = monotonic_ns,
      tp_payload = replicate 8 (Fin 0)\<rparr>"

definition stop_target_packet :: "int \<Rightarrow> int \<Rightarrow> (wire_error, target_packet) res" where
  "stop_target_packet sequence monotonic_ns =
     (if sequence < 0 \<or> monotonic_ns < 0 then Inl NegativeWireSequence
      else Inr (stationary_packet KindStop sequence monotonic_ns))"

definition hold_current_target_packet :: "int \<Rightarrow> int \<Rightarrow> (wire_error, target_packet) res" where
  "hold_current_target_packet sequence monotonic_ns =
     (if sequence < 0 \<or> monotonic_ns < 0 then Inl NegativeWireSequence
      else Inr (stationary_packet KindHoldCurrent sequence monotonic_ns))"

section \<open>Acknowledgements\<close>

text \<open>Bits 3 and 4 of the flags: \<open>HAS_TARGET\<close>, \<open>ACCEPTED_SINCE_STATUS\<close>.\<close>

definition has_target :: "int \<Rightarrow> bool" where
  "has_target flags = bit flags 3"

definition accepted_since_status :: "int \<Rightarrow> bool" where
  "accepted_since_status flags = bit flags 4"

definition status_acknowledgement :: "worker_status \<Rightarrow> (wire_error, command_ack option) res" where
  "status_acknowledgement s =
     (if \<not> has_target (ws_flags s) then Inr None
      else if int (length controller_states) \<le> ws_state s then Inl UnknownState
      else let accepted = accepted_since_status (ws_flags s) in
        (case mk_command_ack
           \<lparr>ack_sequence = ws_last_sequence s, ack_accepted = accepted,
            ack_state = controller_states ! nat (ws_state s), ack_received_ns = ws_worker_ns s,
            ack_robot_command_ns = (if ws_command_ns s = 0 then None else Some (ws_command_ns s)),
            ack_reason = (if accepted then ''accepted''
              else ''latest target retained; no new acceptance in this status interval'')\<rparr> of
           Inl e \<Rightarrow> Inl (WireContract e)
         | Inr a \<Rightarrow> Inr (Some a)))"

section \<open>Publisher and receiver\<close>

record publisher =
  pb_sent :: nat
  pb_dropped :: nat

definition new_publisher :: publisher where
  "new_publisher = \<lparr>pb_sent = 0, pb_dropped = 0\<rparr>"

text \<open>
  What \<open>sendto\<close> does with a datagram: it takes it, or reports one of the three conditions the
  publisher treats as a drop, or raises another error, which \<open>publish\<close> passes on.
\<close>

datatype send_outcome = SendTaken | SendRefused | SendError

datatype publish_error = PublishWire wire_error | PublishSocket

definition publish ::
  "(8 word list \<Rightarrow> send_outcome) \<Rightarrow> publisher \<Rightarrow> target_packet \<Rightarrow> publisher \<times> (publish_error, bool) res" where
  "publish sendto b packet =
     (case encode_target packet of
        Inl e \<Rightarrow> (b, Inl (PublishWire e))
      | Inr data \<Rightarrow>
          (case sendto data of
             SendTaken \<Rightarrow> (b\<lparr>pb_sent := pb_sent b + 1\<rparr>, Inr True)
           | SendRefused \<Rightarrow> (b\<lparr>pb_dropped := pb_dropped b + 1\<rparr>, Inr False)
           | SendError \<Rightarrow> (b, Inl PublishSocket)))"

text \<open>\<open>latest\<close>: every pending datagram, cut to one byte more than a status, is decoded; the last valid one counts.\<close>

fun latest_status_from :: "worker_status option \<Rightarrow> 8 word list list \<Rightarrow> worker_status option" where
  "latest_status_from result [] = result"
| "latest_status_from result (data # pending) =
     (case decode_status (take (status_size + 1) data) of
        Inl _ \<Rightarrow> latest_status_from result pending
      | Inr s \<Rightarrow> latest_status_from (Some s) pending)"

definition latest_status :: "8 word list list \<Rightarrow> worker_status option" where
  "latest_status pending = latest_status_from None pending"

section \<open>CRC injectivity\<close>

lemma crc_bit_top: "bit (crc_bit c) 31 = odd c"
  by (auto simp: crc_bit_def bit_xor_iff bit_drop_bit_eq dest: bit_imp_le_length)

lemma crc_bit_inj: "crc_bit c = crc_bit d \<Longrightarrow> c = d"
proof -
  assume eq: "crc_bit c = crc_bit d"
  then have o: "odd c = odd d" by (metis crc_bit_top)
  have "drop_bit 1 c = (drop_bit 1 c XOR 3988292384) XOR 3988292384" for c :: "32 word"
    by (simp add: xor.assoc)
  with eq o have "drop_bit 1 c = drop_bit 1 d"
    unfolding crc_bit_def by (metis (full_types))
  then have s: "bit c (Suc n) = bit d (Suc n)" for n by (metis bit_drop_bit_eq comp_apply plus_1_eq_Suc)
  show "c = d"
  proof (rule bit_eqI)
    fix n show "bit c n = bit d n" using o s by (cases n) (simp_all add: bit_0)
  qed
qed

lemma crc_bits_inj: "(crc_bit ^^ n) c = (crc_bit ^^ n) d \<Longrightarrow> c = d"
  by (induction n) (auto dest: crc_bit_inj)

lemma xor_cancel: "(c :: 32 word) XOR x = d XOR x \<Longrightarrow> c = d"
  by (metis xor.assoc xor.right_neutral xor_self_eq)

lemma crc_byte_inj_state: "crc_byte c b = crc_byte d b \<Longrightarrow> c = d"
  unfolding crc_byte_def by (rule xor_cancel, rule crc_bits_inj)

lemma crc_byte_inj_byte:
  assumes "crc_byte c b = crc_byte c b'"
  shows "b = b'"
proof -
  have "ucast b XOR c = ucast b' XOR c"
    using crc_bits_inj[OF assms[unfolded crc_byte_def]] by (simp add: xor.commute)
  then have "(ucast b :: 32 word) = ucast b'" by (rule xor_cancel)
  then have "uint (ucast b :: 32 word) = uint (ucast b' :: 32 word)" by simp
  then show ?thesis by (simp add: uint_up_ucast is_up word_uint_eq_iff)
qed

lemma crc_fold_inj: "foldl crc_byte c bs = foldl crc_byte d bs \<Longrightarrow> c = d"
  by (induction bs arbitrary: c d) (auto dest: crc_byte_inj_state)

text \<open>A message with one byte changed has another CRC.\<close>

lemma crc32_update:
  assumes "i < length bs" and "b \<noteq> bs ! i"
  shows "crc32 (bs[i := b]) \<noteq> crc32 bs"
proof
  assume "crc32 (bs[i := b]) = crc32 bs"
  then have "foldl crc_byte (NOT 0) (bs[i := b]) = foldl crc_byte (NOT 0) bs"
    by (metis crc32_def bit.double_compl)
  moreover have "bs = take i bs @ bs ! i # drop (Suc i) bs" using assms(1) by (rule id_take_nth_drop)
  ultimately have "foldl crc_byte (NOT 0) (take i bs @ b # drop (Suc i) bs)
      = foldl crc_byte (NOT 0) (take i bs @ bs ! i # drop (Suc i) bs)"
    using upd_conv_take_nth_drop[OF assms(1), of b] by metis
  then have "crc_byte (foldl crc_byte (NOT 0) (take i bs)) b = crc_byte (foldl crc_byte (NOT 0) (take i bs)) (bs ! i)"
    by (auto dest: crc_fold_inj)
  with assms(2) show False by (auto dest: crc_byte_inj_byte)
qed

text \<open>The same for a message followed by its stored CRC, wherever the byte is.\<close>

lemma crc_trailer_update:
  assumes "uint (crc32 (take n d)) = le_value (drop n d)" and "i < length d" and "b \<noteq> d ! i"
  shows "uint (crc32 (take n (d[i := b]))) \<noteq> le_value (drop n (d[i := b]))"
proof (cases "i < n")
  case True
  have "crc32 ((take n d)[i := b]) \<noteq> crc32 (take n d)"
    using True assms(2,3) by (intro crc32_update) simp_all
  with True assms(1) show ?thesis by (simp add: take_update_swap word_uint_eq_iff)
next
  case False
  have "drop n (d[i := b]) \<noteq> drop n d"
  proof
    assume "drop n (d[i := b]) = drop n d"
    then have "drop n (d[i := b]) ! (i - n) = drop n d ! (i - n)" by simp
    with False assms(2,3) show False by simp
  qed
  then have "le_value (drop n (d[i := b])) \<noteq> le_value (drop n d)"
    using le_value_inj[of "drop n (d[i := b])" "drop n d"] by auto
  with False assms(1) show ?thesis by simp
qed

section \<open>Round trips\<close>

lemma kind_roundtrip [simp]: "kind_of_code (kind_code k) = Some k"
  by (cases k) (simp_all add: kind_of_code_def target_kinds_def)

lemma frame_roundtrip [simp]: "frame_of_code (frame_code f) = Some f"
  by (cases f) (simp_all add: frame_of_code_def frame_ids_def)

text \<open>A packet whose integers fit their fields and whose payload is eight doubles.\<close>

definition packet_fits :: "target_packet \<Rightarrow> bool" where
  "packet_fits p \<longleftrightarrow> 0 \<le> tp_flags p \<and> tp_flags p < 4294967296
     \<and> list_all (\<lambda>v. 0 \<le> v \<and> v < 18446744073709551616) [tp_sequence p, tp_source_capture_ns p,
          tp_local_receive_ns p, tp_processing_ns p, tp_dispatch_ns p]
     \<and> length (tp_payload p) = 8 \<and> list_all is_f64 (tp_payload p)"

lemma encode_target_fits:
  assumes "packet_fits p"
  shows "\<exists>data. encode_target p = Inr data"
proof -
  have "0 \<le> kind_code (tp_kind p) \<and> kind_code (tp_kind p) < 65536" by (cases "tp_kind p") simp_all
  moreover have "0 \<le> frame_code (tp_frame_id p) \<and> frame_code (tp_frame_id p) < 4294967296"
    by (cases "tp_frame_id p") simp_all
  ultimately have "list_all2 (\<lambda>n v. 0 \<le> v \<and> v < 256 ^ n) target_fields [target_magic, wire_version,
     kind_code (tp_kind p), tp_flags p, frame_code (tp_frame_id p), tp_sequence p, tp_source_capture_ns p,
     tp_local_receive_ns p, tp_processing_ns p, tp_dispatch_ns p]"
    using assms by (simp add: packet_fits_def target_fields_def target_magic_def wire_version_def)
  then obtain head where "pack_uints target_fields [target_magic, wire_version,
     kind_code (tp_kind p), tp_flags p, frame_code (tp_frame_id p), tp_sequence p, tp_source_capture_ns p,
     tp_local_receive_ns p, tp_processing_ns p, tp_dispatch_ns p] = Some head"
    unfolding pack_uints_ok by blast
  with assms show ?thesis by (simp add: encode_target_def packet_fits_def Let_def)
qed

lemma crc_field [simp]: "le_value (le_bytes 4 (uint (c :: 32 word))) = uint c"
  using uint_lt2p[of c] by simp

lemma decode_encode_target:
  assumes "encode_target p = Inr data" and "list_all is_f64 (tp_payload p)"
  shows "length data = target_size \<and> decode_target data = Inr p"
proof -
  let ?vs = "[target_magic, wire_version, kind_code (tp_kind p), tp_flags p, frame_code (tp_frame_id p),
     tp_sequence p, tp_source_capture_ns p, tp_local_receive_ns p, tp_processing_ns p, tp_dispatch_ns p]"
  obtain head where head: "pack_uints target_fields ?vs = Some head" and n: "length (tp_payload p) = 8"
    and data: "data = head @ f64.enc_all (tp_payload p)
      @ le_bytes 4 (uint (crc32 (head @ f64.enc_all (tp_payload p))))"
    using assms(1) by (auto simp: encode_target_def Let_def split: option.split_asm if_split_asm)
  have lh: "length head = 56" using pack_uints_length[OF head] by (simp add: target_fields_def)
  have lp: "length (f64.enc_all (tp_payload p)) = 64" using n by (simp add: f64.enc_all_length)
  have vs: "unpack_uints target_fields data = ?vs"
    using unpack_pack_uints[OF head] by (simp add: data)
  have payload: "f64.dec_all 8 (drop 56 data) = tp_payload p"
    using f64.dec_all_enc_all[of "tp_payload p"] assms(2) n by (simp add: data lh list_all_iff)
  have body: "take 120 data = head @ f64.enc_all (tp_payload p)" "length data = target_size"
    "le_value (drop 120 data) = uint (crc32 (head @ f64.enc_all (tp_payload p)))"
    by (simp_all add: data lh lp target_size_def)
  show ?thesis
    by (simp add: decode_target_def Let_def vs payload body)
qed

text \<open>C11. Every target packet whose integers fit their fields is sent as 124 bytes that decode to that packet,
  its eight doubles bit for bit.\<close>

theorem target_roundtrip:
  assumes "packet_fits p"
  shows "\<exists>data. encode_target p = Inr data \<and> length data = 124 \<and> decode_target data = Inr p"
  using encode_target_fits[OF assms] decode_encode_target assms
  by (auto simp: packet_fits_def target_size_def)

definition demo_target :: target_packet where
  "demo_target = \<lparr>tp_kind = KindJointPosition, tp_flags = 1, tp_frame_id = FrameNone, tp_sequence = 7,
     tp_source_capture_ns = 0, tp_local_receive_ns = 1000, tp_processing_ns = 2000, tp_dispatch_ns = 3000,
     tp_payload = [Fin (1 / 2), Fin (- 3 / 4), Fin 0, Fin 0, Fin 0, Fin 1, Fin 0, Fin 0]\<rparr>"

lemma demo_target_fits: "packet_fits demo_target"
proof -
  have "is_f64 (Fin (1 / 2))" "is_f64 (Fin (- 3 / 4))" "is_f64 (Fin 1)"
    using is_f64_dyadic[of 1 1] is_f64_dyadic[of "- 3" 2] is_f64_of_int[of 1] by simp_all
  then show ?thesis by (simp add: packet_fits_def demo_target_def)
qed

theorem target_roundtrip_witness:
  "\<exists>data. encode_target demo_target = Inr data \<and> decode_target data = Inr demo_target"
  using target_roundtrip[OF demo_target_fits] by blast

lemma decode_target_Inr:
  assumes "decode_target d = Inr p"
  shows "length d = target_size" and "uint (crc32 (take 120 d)) = le_value (drop 120 d)"
  using assms by (auto simp: decode_target_def Let_def split: if_split_asm)

text \<open>C12. No target packet survives a corrupted byte: whatever packet a datagram decodes to, changing any one of
  its bytes makes it undecodable.\<close>

theorem target_corruption_rejected:
  assumes "decode_target data = Inr p" and "i < length data" and "b \<noteq> data ! i"
  shows "\<exists>e. decode_target (data[i := b]) = Inl e"
proof -
  have "uint (crc32 (take 120 (data[i := b]))) \<noteq> le_value (drop 120 (data[i := b]))"
    by (rule crc_trailer_update[OF decode_target_Inr(2)[OF assms(1)] assms(2,3)])
  then show ?thesis using decode_target_Inr(1)[OF assms(1)] by (auto simp: decode_target_def Let_def)
qed

theorem target_corruption_rejected_witness:
  "\<exists>data e. decode_target data = Inr demo_target \<and> decode_target (data[60 := data ! 60 + 1]) = Inl e"
proof -
  obtain data where data: "encode_target demo_target = Inr data" using encode_target_fits[OF demo_target_fits] ..
  have d: "length data = target_size" "decode_target data = Inr demo_target"
    using decode_encode_target[OF data] demo_target_fits by (auto simp: packet_fits_def)
  with target_corruption_rejected[OF d(2), of 60 "data ! 60 + 1"] d show ?thesis
    by (auto simp: target_size_def)
qed

section \<open>The status receiver\<close>

text \<open>The layout the worker writes, the specification of \<open>decode_status\<close>.\<close>

definition status_fits :: "worker_status \<Rightarrow> bool" where
  "status_fits s \<longleftrightarrow> 0 \<le> ws_state s \<and> ws_state s < 65536 \<and> 0 \<le> ws_flags s \<and> ws_flags s < 4294967296
     \<and> list_all (\<lambda>v. 0 \<le> v \<and> v < 18446744073709551616) [ws_last_sequence s, ws_loop_sequence s,
          ws_worker_ns s, ws_command_ns s, ws_observation_ns s]
     \<and> length (ws_joint_position_rad s) = 6 \<and> list_all is_f64 (ws_joint_position_rad s)
     \<and> - 2147483648 \<le> ws_error_code s \<and> ws_error_code s < 2147483648"

definition status_bytes :: "worker_status \<Rightarrow> 8 word list" where
  "status_bytes s =
     (let body = concat (map2 le_bytes status_fields [status_magic, wire_version, ws_state s, ws_flags s,
          ws_last_sequence s, ws_loop_sequence s, ws_worker_ns s, ws_command_ns s, ws_observation_ns s])
          @ f64.enc_all (ws_joint_position_rad s) @ le_bytes 4 (ws_error_code s mod 4294967296)
      in body @ le_bytes 4 (uint (crc32 body)))"

lemma pack_uints_concat:
  "list_all2 (\<lambda>n v. 0 \<le> v \<and> v < 256 ^ n) ns vs \<Longrightarrow> pack_uints ns vs = Some (concat (map2 le_bytes ns vs))"
  by (induction ns vs rule: list_all2_induct) simp_all

lemma decode_status_bytes:
  assumes "status_fits s"
  shows "length (status_bytes s) = status_size \<and> decode_status (status_bytes s) = Inr s"
proof -
  let ?vs = "[status_magic, wire_version, ws_state s, ws_flags s, ws_last_sequence s, ws_loop_sequence s,
     ws_worker_ns s, ws_command_ns s, ws_observation_ns s]"
  define head where "head = concat (map2 le_bytes status_fields ?vs)"
  define joints where "joints = f64.enc_all (ws_joint_position_rad s)"
  define code where "code = le_bytes 4 (ws_error_code s mod 4294967296)"
  define crc where "crc = le_bytes 4 (uint (crc32 (head @ joints @ code)))"
  have data: "status_bytes s = head @ joints @ code @ crc"
    by (simp add: status_bytes_def Let_def head_def joints_def code_def crc_def)
  have "list_all2 (\<lambda>n v. 0 \<le> v \<and> v < 256 ^ n) status_fields ?vs"
    using assms by (simp add: status_fits_def status_fields_def status_magic_def wire_version_def)
  then have packed: "pack_uints status_fields ?vs = Some head" unfolding head_def by (rule pack_uints_concat)
  have lens: "length head = 52" "length joints = 48" "length code = 4" "length crc = 4"
    using pack_uints_length[OF packed] assms
    by (simp_all add: status_fields_def joints_def f64.enc_all_length status_fits_def code_def crc_def)
  have vs: "unpack_uints status_fields (status_bytes s) = ?vs"
    using unpack_pack_uints[OF packed] by (simp add: data)
  have js: "f64.dec_all 6 (drop 52 (status_bytes s)) = ws_joint_position_rad s"
    using f64.dec_all_enc_all[of "ws_joint_position_rad s"] assms
    by (simp add: data lens status_fits_def list_all_iff joints_def)
  have "signed32 (ws_error_code s mod 4294967296) = ws_error_code s"
  proof (cases "0 \<le> ws_error_code s")
    case False
    then have "(ws_error_code s + 4294967296) mod 4294967296 = ws_error_code s + 4294967296"
      using assms by (intro mod_pos_pos_trivial) (simp_all add: status_fits_def)
    with False assms show ?thesis by (simp add: signed32_def status_fits_def)
  qed (use assms in \<open>simp add: signed32_def status_fits_def\<close>)
  then have err: "signed32 (le_value (take 4 (drop 100 (status_bytes s)))) = ws_error_code s"
    by (simp add: data lens) (simp add: code_def)
  have parts: "take 104 (status_bytes s) = head @ joints @ code" "drop 104 (status_bytes s) = crc"
    "length (status_bytes s) = status_size"
    by (simp_all add: data lens status_size_def)
  have "le_value crc = uint (crc32 (head @ joints @ code))" by (simp add: crc_def)
  then show ?thesis
    unfolding decode_status_def Let_def vs js err parts by simp
qed

lemma latest_status_from_append:
  "latest_status_from r (xs @ ys) = latest_status_from (latest_status_from r xs) ys"
  by (induction xs arbitrary: r) (simp_all split: sum.split)

lemma latest_status_from_junk:
  "\<forall>d \<in> set xs. \<exists>e. decode_status (take 109 d) = Inl e \<Longrightarrow> latest_status_from r xs = r"
  by (induction xs arbitrary: r) (auto simp: status_size_def)

text \<open>The receiver reports the worker's newest intact status: whatever is queued before it, and whatever
  undecodable datagrams follow it, every field comes back as the worker wrote it. A status with a
  corrupted byte is such an undecodable datagram.\<close>

theorem latest_status_newest:
  assumes "status_fits s"
    and "\<And>d. d \<in> set junk \<Longrightarrow> (\<exists>e. decode_status (take 109 d) = Inl e) \<or>
           (\<exists>s' i b. status_fits s' \<and> i < 108 \<and> b \<noteq> status_bytes s' ! i \<and> d = (status_bytes s')[i := b])"
  shows "latest_status (before @ status_bytes s # junk) = Some s"
proof -
  have "\<exists>e. decode_status (take 109 d) = Inl e" if "d \<in> set junk" for d
    using assms(2)[OF that]
  proof (elim disjE exE conjE)
    fix s' i b assume s': "status_fits s'" and i: "i < 108" "b \<noteq> status_bytes s' ! i" "d = (status_bytes s')[i := b]"
    have "uint (crc32 (take 104 (status_bytes s'))) = le_value (drop 104 (status_bytes s'))"
      using decode_status_bytes[OF s'] by (auto simp: decode_status_def Let_def split: if_split_asm)
    then have "uint (crc32 (take 104 d)) \<noteq> le_value (drop 104 d)"
      unfolding i(3) using i decode_status_bytes[OF s'] by (intro crc_trailer_update) (simp_all add: status_size_def)
    moreover have "length d = 108" using i decode_status_bytes[OF s'] by (simp add: status_size_def)
    ultimately show ?thesis by (auto simp: decode_status_def Let_def status_size_def)
  qed blast
  then have "latest_status_from (Some s) junk = Some s" by (intro latest_status_from_junk) blast
  then show ?thesis
    using decode_status_bytes[OF assms(1)] by (simp add: latest_status_def latest_status_from_append status_size_def)
qed

definition demo_status :: worker_status where
  "demo_status = \<lparr>ws_state = 6, ws_flags = 31, ws_last_sequence = 9, ws_loop_sequence = 100, ws_worker_ns = 5000,
     ws_command_ns = 4000, ws_observation_ns = 4500, ws_joint_position_rad = replicate 6 (Fin 0),
     ws_error_code = - 3\<rparr>"

theorem latest_status_newest_witness:
  "latest_status [[], status_bytes demo_status, [1, 2, 3]] = Some demo_status"
proof -
  have "status_fits demo_status" by (simp add: status_fits_def demo_status_def list_all_iff)
  then show ?thesis
    using latest_status_newest[of demo_status "[[1, 2, 3]]" "[[]]"] by (simp add: decode_status_def status_size_def)
qed

end
