(* ===== verification/Lifecycle.thy ===== *)
theory Lifecycle
  imports Contracts
begin

text \<open>
  The supervision models of the arm pipeline: the controller lifecycle and the stale-target policy of
  \<open>src/teleoperation/state_machine.py\<close>, and the sequence classification of \<open>src/teleoperation/sequence.py\<close>.
\<close>

section \<open>Lifecycle\<close>

text \<open>\<open>_TRANSITIONS\<close>.\<close>

fun lifecycle_transitions :: "controller_state \<Rightarrow> controller_state list" where
  "lifecycle_transitions StDisconnected = [StConnecting, StShutdown]"
| "lifecycle_transitions StConnecting = [StConnected, StFault, StControlledStop]"
| "lifecycle_transitions StConnected = [StArmed, StControlledStop, StFault]"
| "lifecycle_transitions StArmed = [StEdgReady, StControlledStop, StFault]"
| "lifecycle_transitions StEdgReady = [StHolding, StControlledStop, StFault]"
| "lifecycle_transitions StHolding = [StRunning, StControlledStop, StFault]"
| "lifecycle_transitions StRunning = [StHolding, StControlledStop, StFault]"
| "lifecycle_transitions StControlledStop = [StDisconnected, StFault, StShutdown]"
| "lifecycle_transitions StFault = [StControlledStop, StDisconnected, StShutdown]"
| "lifecycle_transitions StShutdown = []"

record lifecycle_item =
  lt_previous :: controller_state
  lt_current :: controller_state
  lt_monotonic_ns :: int
  lt_reason :: string

record lifecycle =
  lc_state :: controller_state
  lc_history :: "lifecycle_item list"

datatype lifecycle_error = InvalidTransition | BadTransitionArguments | BadThresholds | BadSequence

definition new_lifecycle :: lifecycle where
  "new_lifecycle = \<lparr>lc_state = StDisconnected, lc_history = []\<rparr>"

definition lc_transition ::
  "lifecycle \<Rightarrow> controller_state \<Rightarrow> int \<Rightarrow> string \<Rightarrow> (lifecycle_error, lifecycle \<times> lifecycle_item) res" where
  "lc_transition m destination monotonic_ns reason =
     (if destination \<notin> set (lifecycle_transitions (lc_state m)) then Inl InvalidTransition
      else if monotonic_ns < 0 \<or> blank reason then Inl BadTransitionArguments
      else let item = \<lparr>lt_previous = lc_state m, lt_current = destination, lt_monotonic_ns = monotonic_ns,
                       lt_reason = reason\<rparr>
           in Inr (\<lparr>lc_state = destination, lc_history = lc_history m @ [item]\<rparr>, item))"

text \<open>A client that requests transitions one after the other; a rejected request changes nothing.\<close>

fun lc_run :: "lifecycle \<Rightarrow> (controller_state \<times> int \<times> string) list \<Rightarrow> lifecycle" where
  "lc_run m [] = m"
| "lc_run m ((d, t, r) # reqs) =
     (case lc_transition m d t r of Inl _ \<Rightarrow> lc_run m reqs | Inr x \<Rightarrow> lc_run (fst x) reqs)"

definition lifecycle_edges :: "lifecycle \<Rightarrow> (controller_state \<times> controller_state) list" where
  "lifecycle_edges m = map (\<lambda>i. (lt_previous i, lt_current i)) (lc_history m)"

text \<open>The only way up, and the edges between holding and running.\<close>

definition startup_edges :: "(controller_state \<times> controller_state) list" where
  "startup_edges = [(StDisconnected, StConnecting), (StConnecting, StConnected), (StConnected, StArmed),
     (StArmed, StEdgReady), (StEdgReady, StHolding)]"

fun startup_rank :: "controller_state \<Rightarrow> nat" where
  "startup_rank StConnecting = 1"
| "startup_rank StConnected = 2"
| "startup_rank StArmed = 3"
| "startup_rank StEdgReady = 4"
| "startup_rank StHolding = 5"
| "startup_rank StRunning = 5"
| "startup_rank _ = 0"

lemma startup_edges_length: "length startup_edges = 5"
  by (simp add: startup_edges_def)

definition holding_running :: "(controller_state \<times> controller_state) list \<Rightarrow> bool" where
  "holding_running es \<longleftrightarrow> set es \<subseteq> {(StHolding, StRunning), (StRunning, StHolding)}"

definition startup_ordered :: "lifecycle \<Rightarrow> bool" where
  "startup_ordered m \<longleftrightarrow>
     (\<exists>old running. lifecycle_edges m = old @ take (startup_rank (lc_state m)) startup_edges @ running
        \<and> (if startup_rank (lc_state m) = 5 then holding_running running else running = []))"

text \<open>The history is a path of allowed edges from the initial state to the current one.\<close>

fun edge_path :: "controller_state \<Rightarrow> (controller_state \<times> controller_state) list \<Rightarrow> controller_state \<Rightarrow> bool" where
  "edge_path a [] b \<longleftrightarrow> a = b"
| "edge_path a ((x, y) # es) b \<longleftrightarrow> x = a \<and> y \<in> set (lifecycle_transitions x) \<and> edge_path y es b"

lemma edge_path_snoc: "edge_path a (es @ [(x, y)]) b \<longleftrightarrow> edge_path a es x \<and> y \<in> set (lifecycle_transitions x) \<and> y = b"
  by (induction a es b rule: edge_path.induct) auto

definition lifecycle_inv :: "lifecycle \<Rightarrow> bool" where
  "lifecycle_inv m \<longleftrightarrow> edge_path StDisconnected (lifecycle_edges m) (lc_state m) \<and> startup_ordered m
     \<and> list_all (\<lambda>i. 0 \<le> lt_monotonic_ns i \<and> \<not> blank (lt_reason i)) (lc_history m)"

lemma lifecycle_inv_new: "lifecycle_inv new_lifecycle"
  by (simp add: lifecycle_inv_def new_lifecycle_def lifecycle_edges_def startup_ordered_def)

lemma startup_step:
  assumes "startup_ordered m" and "d \<in> set (lifecycle_transitions (lc_state m))"
    and "lc_state m' = d" and "lifecycle_edges m' = lifecycle_edges m @ [(lc_state m, d)]"
  shows "startup_ordered m'"
proof -
  obtain old running where
    e: "lifecycle_edges m = old @ take (startup_rank (lc_state m)) startup_edges @ running"
    and r: "if startup_rank (lc_state m) = 5 then holding_running running else running = []"
    using assms(1) by (auto simp: startup_ordered_def)
  consider "startup_rank d = 0" | "startup_rank d = 1" | "startup_rank d = Suc (startup_rank (lc_state m))" "lc_state m \<noteq> StDisconnected"
    | "holding_running [(lc_state m, d)]"
    using assms(2) by (cases "lc_state m") (auto simp: holding_running_def)
  then show ?thesis
  proof cases
    case 1
    then show ?thesis using assms(3) by (auto simp: startup_ordered_def)
  next
    case 2
    then have "(lc_state m, d) = (StDisconnected, StConnecting)"
      using assms(2) by (cases "lc_state m"; cases d) simp_all
    with 2 assms(3,4) show ?thesis
      by (auto simp: startup_ordered_def startup_edges_def)
  next
    case 3
    then have "startup_rank (lc_state m) < 5" "(lc_state m, d) = startup_edges ! startup_rank (lc_state m)"
      using assms(2) by (cases "lc_state m"; cases d; simp add: startup_edges_def)+
    then have "take (startup_rank d) startup_edges = take (startup_rank (lc_state m)) startup_edges @ [(lc_state m, d)]"
      using 3 take_Suc_conv_app_nth[of "startup_rank (lc_state m)" startup_edges] by (simp add: startup_edges_length)
    moreover have "running = []" using r \<open>startup_rank (lc_state m) < 5\<close> by simp
    ultimately have "lifecycle_edges m' = old @ take (startup_rank (lc_state m')) startup_edges @ []"
      using assms(3,4) e by simp
    moreover have "holding_running []" by (simp add: holding_running_def)
    ultimately show ?thesis unfolding startup_ordered_def by metis
  next
    case 4
    then have ranks: "startup_rank (lc_state m) = 5" "startup_rank d = 5" by (auto simp: holding_running_def)
    then have "holding_running (running @ [(lc_state m, d)])" using r 4 by (simp add: holding_running_def)
    moreover have "lifecycle_edges m' = old @ take (startup_rank (lc_state m')) startup_edges @ running @ [(lc_state m, d)]"
      using assms(3,4) e ranks by simp
    ultimately show ?thesis using assms(3) ranks unfolding startup_ordered_def by metis
  qed
qed

lemma lifecycle_inv_step:
  assumes "lifecycle_inv m" and "lc_transition m d t r = Inr (m', i)"
  shows "lifecycle_inv m'"
proof -
  have d: "d \<in> set (lifecycle_transitions (lc_state m))" and m': "lc_state m' = d"
    "lifecycle_edges m' = lifecycle_edges m @ [(lc_state m, d)]"
    and i: "lc_history m' = lc_history m @ [i]" "0 \<le> lt_monotonic_ns i" "\<not> blank (lt_reason i)"
    using assms(2) by (auto simp: lc_transition_def Let_def lifecycle_edges_def split: if_split_asm)
  show ?thesis
    using assms(1) d m' i startup_step[OF _ d m']
    by (simp add: lifecycle_inv_def edge_path_snoc)
qed

lemma lifecycle_inv_run: "lifecycle_inv m \<Longrightarrow> lifecycle_inv (lc_run m reqs)"
  by (induction m reqs rule: lc_run.induct) (auto split: sum.split dest: lifecycle_inv_step)

text \<open>Whatever transitions a client asks for, the recorded history is a path of allowed edges from DISCONNECTED
  to the current state, and the arm is holding or running only after the whole startup sequence
  DISCONNECTED, CONNECTING, CONNECTED, ARMED, EDG_READY, HOLDING, followed by nothing but changes between holding
  and running: no fault, stop or reconnect can be skipped over.\<close>

theorem lifecycle_startup_order:
  assumes "m = lc_run new_lifecycle reqs"
  shows "edge_path StDisconnected (lifecycle_edges m) (lc_state m)
    \<and> (lc_state m \<in> {StHolding, StRunning} \<longrightarrow>
        (\<exists>old running. lifecycle_edges m = old @ startup_edges @ running
           \<and> set running \<subseteq> {(StHolding, StRunning), (StRunning, StHolding)}))"
proof -
  have inv: "lifecycle_inv m" unfolding assms by (rule lifecycle_inv_run[OF lifecycle_inv_new])
  then have s: "startup_ordered m" by (simp add: lifecycle_inv_def)
  have "take 5 startup_edges = startup_edges" by (simp add: startup_edges_def)
  with s have "lc_state m \<in> {StHolding, StRunning} \<Longrightarrow>
      \<exists>old running. lifecycle_edges m = old @ startup_edges @ running \<and> holding_running running"
    unfolding startup_ordered_def by auto blast+
  with inv show ?thesis by (auto simp: lifecycle_inv_def holding_running_def)
qed

theorem lifecycle_startup_order_witness:
  "lc_state (lc_run new_lifecycle [(StRunning, 1, ''go''), (StConnecting, 2, ''user''), (StConnected, 3, ''up''),
      (StArmed, 4, ''arm''), (StEdgReady, 5, ''edg''), (StHolding, 6, ''hold''), (StRunning, 7, ''run'')]) = StRunning
   \<and> (\<exists>old running. lifecycle_edges (lc_run new_lifecycle [(StRunning, 1, ''go''), (StConnecting, 2, ''user''),
      (StConnected, 3, ''up''), (StArmed, 4, ''arm''), (StEdgReady, 5, ''edg''), (StHolding, 6, ''hold''),
      (StRunning, 7, ''run'')]) = old @ startup_edges @ running)"
proof -
  let ?m = "lc_run new_lifecycle [(StRunning, 1, ''go''), (StConnecting, 2, ''user''), (StConnected, 3, ''up''),
      (StArmed, 4, ''arm''), (StEdgReady, 5, ''edg''), (StHolding, 6, ''hold''), (StRunning, 7, ''run'')]"
  have "lc_state ?m = StRunning"
    by (simp add: lc_transition_def new_lifecycle_def blank_def is_space_def Let_def)
  with lifecycle_startup_order[of ?m, OF refl] show ?thesis by blast
qed

section \<open>Stale targets\<close>

record stale_thresholds =
  st_warning_age_ns :: int
  st_hold_age_ns :: int
  st_controlled_stop_age_ns :: int
  st_fatal_timeout_ns :: int

definition mk_thresholds :: "stale_thresholds \<Rightarrow> (lifecycle_error, stale_thresholds) res" where
  "mk_thresholds t =
     (let values = [st_warning_age_ns t, st_hold_age_ns t, st_controlled_stop_age_ns t, st_fatal_timeout_ns t] in
      if values ! 0 < 0 \<or> \<not> list_all (\<lambda>(a, b). a < b) (zip values (tl values)) then Inl BadThresholds
      else Inr t)"

definition default_thresholds :: stale_thresholds where
  "default_thresholds = \<lparr>st_warning_age_ns = 40000000, st_hold_age_ns = 100000000,
     st_controlled_stop_age_ns = 500000000, st_fatal_timeout_ns = 2000000000\<rparr>"

definition stale_action :: "int option \<Rightarrow> stale_thresholds \<Rightarrow> safety_action" where
  "stale_action age thresholds =
     (case age of
        None \<Rightarrow> ActHold
      | Some age_ns \<Rightarrow>
          if age_ns < 0 then ActAbort
          else if st_fatal_timeout_ns thresholds \<le> age_ns then ActAbort
          else if st_controlled_stop_age_ns thresholds \<le> age_ns then ActControlledStop
          else if st_hold_age_ns thresholds \<le> age_ns then ActHold
          else ActAllow)"

fun action_severity :: "safety_action \<Rightarrow> nat" where
  "action_severity ActAllow = 0"
| "action_severity ActHold = 1"
| "action_severity ActControlledStop = 2"
| "action_severity ActAbort = 3"

text \<open>With validated thresholds the stale-target policy escalates: motion is allowed exactly for a target younger
  than the hold age, an older target never gets a milder action, and a clock that runs backwards or
  a target beyond the fatal timeout aborts.\<close>

theorem stale_action_escalates:
  assumes "mk_thresholds raw = Inr th" and "0 \<le> age" and "age \<le> age'"
  shows "action_severity (stale_action (Some age) th) \<le> action_severity (stale_action (Some age') th)
    \<and> (stale_action (Some n) th = ActAllow \<longleftrightarrow> 0 \<le> n \<and> n < st_hold_age_ns th)
    \<and> (stale_action (Some n) th = ActAbort \<longleftrightarrow> n < 0 \<or> st_fatal_timeout_ns th \<le> n)
    \<and> stale_action None th \<noteq> ActAllow"
  using assms by (auto simp: stale_action_def mk_thresholds_def Let_def split: if_split_asm)

theorem stale_action_escalates_witness:
  "mk_thresholds default_thresholds = Inr default_thresholds
   \<and> action_severity (stale_action (Some 50000000) default_thresholds)
       \<le> action_severity (stale_action (Some 700000000) default_thresholds)"
proof -
  have "mk_thresholds default_thresholds = Inr default_thresholds"
    by (simp add: mk_thresholds_def default_thresholds_def)
  with stale_action_escalates[OF this, of 50000000 700000000] show ?thesis by simp
qed

section \<open>Sequence numbers\<close>

datatype sequence_disposition = SeqFirst | SeqNew | SeqDuplicate | SeqReordered

text \<open>The state of a \<open>SequenceTracker\<close> is its last sequence number.\<close>

definition seq_observe :: "int option \<Rightarrow> int \<Rightarrow> (lifecycle_error, int option \<times> sequence_disposition) res" where
  "seq_observe last_sequence sequence =
     (if sequence < 0 then Inl BadSequence
      else case last_sequence of
        None \<Rightarrow> Inr (Some sequence, SeqFirst)
      | Some newest \<Rightarrow>
          if sequence = newest then Inr (last_sequence, SeqDuplicate)
          else if sequence < newest then Inr (last_sequence, SeqReordered)
          else Inr (Some sequence, SeqNew))"

definition seq_reset :: "int option" where
  "seq_reset = None"

text \<open>An accepted number is above everything accepted before.\<close>

lemma seq_observe_cases:
  assumes "seq_observe l n = Inr (l', d)"
  shows "(d \<in> {SeqFirst, SeqNew} \<longrightarrow> l' = Some n \<and> (\<forall>k. l = Some k \<longrightarrow> k < n))
    \<and> (d \<in> {SeqDuplicate, SeqReordered} \<longrightarrow> l' = l \<and> (\<exists>k. l = Some k \<and> n \<le> k))"
  using assms by (auto simp: seq_observe_def split: if_split_asm option.split_asm)

lemma seq_observe_ok: "0 \<le> n \<Longrightarrow> \<exists>x. seq_observe l n = Inr x"
  by (auto simp: seq_observe_def split: option.split)

end
