(* ===== verification/TeleopClutch.thy ===== *)
theory TeleopClutch
  imports Contracts
begin

text \<open>
  The relative pose mapper of \<open>src/teleoperation/transforms/frame_mapping.py\<close> and the clutch of
  \<open>src/teleoperation/processing/clutch.py\<close>. The rigid-body arithmetic of the mapper is numpy's: the two maps it
  computes, from the source frame to the operator frame and from the anchors and the current pose to
  the target, are parameters that may raise.
\<close>

section \<open>The mapper\<close>

datatype mapper_error = ScaleRange | NoAnchor | GeometryError

record geometry =
  gm_source_to_operator :: "pose3d \<Rightarrow> (mapper_error, pose3d) res"
  gm_relative :: "pyfloat \<Rightarrow> pyfloat \<Rightarrow> pose3d \<Rightarrow> pose3d \<Rightarrow> pose3d \<Rightarrow> (mapper_error, pose3d) res"

record mapper =
  mp_translation_scale :: pyfloat
  mp_rotation_scale :: pyfloat
  mp_source_anchor :: "pose3d option"
  mp_robot_anchor :: "pose3d option"
  mp_anchor_id :: nat

definition scale_limit :: pyfloat where
  "scale_limit = round64 (1 / 10)"

definition mk_mapper :: "pyfloat \<Rightarrow> pyfloat \<Rightarrow> (mapper_error, mapper) res" where
  "mk_mapper translation_scale rotation_scale =
     (if \<not> (fle (Fin 0) translation_scale \<and> fle translation_scale scale_limit) then Inl ScaleRange
      else if \<not> (fle (Fin 0) rotation_scale \<and> fle rotation_scale scale_limit) then Inl ScaleRange
      else Inr \<lparr>mp_translation_scale = translation_scale, mp_rotation_scale = rotation_scale,
                mp_source_anchor = None, mp_robot_anchor = None, mp_anchor_id = 0\<rparr>)"

definition anchored :: "mapper \<Rightarrow> bool" where
  "anchored m \<longleftrightarrow> mp_source_anchor m \<noteq> None \<and> mp_robot_anchor m \<noteq> None"

definition mapper_clear :: "mapper \<Rightarrow> mapper" where
  "mapper_clear m = m\<lparr>mp_source_anchor := None, mp_robot_anchor := None\<rparr>"

definition anchor_operator :: "mapper \<Rightarrow> pose3d \<Rightarrow> pose3d \<Rightarrow> mapper" where
  "anchor_operator m operator_pose robot_tcp_pose =
     m\<lparr>mp_source_anchor := Some operator_pose, mp_robot_anchor := Some robot_tcp_pose,
       mp_anchor_id := mp_anchor_id m + 1\<rparr>"

definition anchor_source :: "geometry \<Rightarrow> mapper \<Rightarrow> pose3d \<Rightarrow> pose3d \<Rightarrow> (mapper_error, mapper) res" where
  "anchor_source gm m source_pose robot_tcp_pose =
     rbind (gm_source_to_operator gm source_pose) (\<lambda>p. Inr (anchor_operator m p robot_tcp_pose))"

definition map_operator :: "geometry \<Rightarrow> mapper \<Rightarrow> pose3d \<Rightarrow> (mapper_error, pose3d) res" where
  "map_operator gm m current =
     (case (mp_source_anchor m, mp_robot_anchor m) of
        (Some source, Some robot) \<Rightarrow>
          gm_relative gm (mp_translation_scale m) (mp_rotation_scale m) source robot current
      | _ \<Rightarrow> Inl NoAnchor)"

definition map_source :: "geometry \<Rightarrow> mapper \<Rightarrow> pose3d \<Rightarrow> (mapper_error, pose3d) res" where
  "map_source gm m source_pose = rbind (gm_source_to_operator gm source_pose) (map_operator gm m)"

section \<open>The clutch\<close>

datatype teleop_clutch_state = ClWaitingForRelease | ClDisengaged | ClActive | ClRecenterRequired | ClStopped | ClFault

record teleop_clutch_update =
  cu_state :: teleop_clutch_state
  cu_target_pose :: "pose3d option"
  cu_reason :: string
  cu_anchor_id :: nat

record teleop_clutch =
  tc_mapper :: mapper
  tc_operator_frame :: bool
  tc_state :: teleop_clutch_state
  tc_last_gate_engaged :: bool

datatype teleop_clutch_error = MapperRaised mapper_error | GateNotReleased | TrackingNotValid | NotLatched | ResetUnsafe

definition new_teleop_clutch :: "mapper \<Rightarrow> bool \<Rightarrow> teleop_clutch" where
  "new_teleop_clutch m operator_frame =
     \<lparr>tc_mapper = m, tc_operator_frame = operator_frame, tc_state = ClWaitingForRelease, tc_last_gate_engaged = False\<rparr>"

definition clutch_report :: "teleop_clutch \<Rightarrow> pose3d option \<Rightarrow> string \<Rightarrow> teleop_clutch_update" where
  "clutch_report c target reason =
     \<lparr>cu_state = tc_state c, cu_target_pose = target, cu_reason = reason, cu_anchor_id = mp_anchor_id (tc_mapper c)\<rparr>"

definition require_recenter :: "teleop_clutch \<Rightarrow> teleop_clutch" where
  "require_recenter c =
     (let c1 = c\<lparr>tc_mapper := mapper_clear (tc_mapper c)\<rparr> in
      if tc_state c1 \<notin> {ClStopped, ClFault} then c1\<lparr>tc_state := ClRecenterRequired\<rparr> else c1)"

text \<open>Anchoring and mapping in the frame the poses are given in.\<close>

definition clutch_anchor :: "geometry \<Rightarrow> teleop_clutch \<Rightarrow> pose3d \<Rightarrow> pose3d \<Rightarrow> (mapper_error, mapper) res" where
  "clutch_anchor gm c pose robot_tcp_pose =
     (if tc_operator_frame c then Inr (anchor_operator (tc_mapper c) pose robot_tcp_pose)
      else anchor_source gm (tc_mapper c) pose robot_tcp_pose)"

definition clutch_map :: "geometry \<Rightarrow> teleop_clutch \<Rightarrow> pose3d \<Rightarrow> (mapper_error, pose3d) res" where
  "clutch_map gm c pose =
     (if tc_operator_frame c then map_operator gm (tc_mapper c) pose else map_source gm (tc_mapper c) pose)"

definition clutch_follow ::
  "geometry \<Rightarrow> teleop_clutch \<Rightarrow> pose3d \<Rightarrow> teleop_clutch \<times> (teleop_clutch_error, teleop_clutch_update) res" where
  "clutch_follow gm c pose =
     (case clutch_map gm c pose of
        Inl e \<Rightarrow> (c, Inl (MapperRaised e))
      | Inr target \<Rightarrow> (c, Inr (clutch_report c (Some target) ''following'')))"

definition clutch_released :: "teleop_clutch \<Rightarrow> teleop_clutch" where
  "clutch_released c =
     (let c1 = c\<lparr>tc_last_gate_engaged := False\<rparr> in
      if tc_state c1 = ClWaitingForRelease then c1\<lparr>tc_state := ClDisengaged\<rparr>
      else if tc_state c1 = ClRecenterRequired then c1\<lparr>tc_state := ClDisengaged\<rparr>
      else if tc_state c1 = ClActive then
        c1\<lparr>tc_mapper := mapper_clear (tc_mapper c1), tc_state := ClDisengaged\<rparr>
      else c1)"

definition clutch_update ::
  "geometry \<Rightarrow> teleop_clutch \<Rightarrow> arm_pose_sample \<Rightarrow> run_gate_sample \<Rightarrow> pose3d \<Rightarrow>
    teleop_clutch \<times> (teleop_clutch_error, teleop_clutch_update) res" where
  "clutch_update gm c sample gate robot_tcp_pose =
     (if tc_state c \<in> {ClStopped, ClFault} then (c, Inr (clutch_report c None ''latched''))
      else if \<not> rg_valid gate \<or> \<not> as_tracking_valid sample then
        (let c1 = (require_recenter c)\<lparr>tc_last_gate_engaged := rg_engaged gate\<rparr>
         in (c1, Inr (clutch_report c1 None ''invalid_input'')))
      else if \<not> rg_engaged gate then
        (let c1 = clutch_released c in (c1, Inr (clutch_report c1 None ''clutch_released'')))
      else
        (let rising_edge = \<not> tc_last_gate_engaged c;
             c1 = c\<lparr>tc_last_gate_engaged := True\<rparr> in
         if tc_state c1 = ClWaitingForRelease then
           (c1, Inr (clutch_report c1 None ''startup_release_required''))
         else if tc_state c1 = ClRecenterRequired then
           (c1, Inr (clutch_report c1 None ''explicit_release_and_reclutch_required''))
         else if tc_state c1 = ClDisengaged then
           (if \<not> rising_edge then (c1, Inr (clutch_report c1 None ''fresh_clutch_edge_required''))
            else case clutch_anchor gm c1 (as_pose sample) robot_tcp_pose of
              Inl e \<Rightarrow> (c1, Inl (MapperRaised e))
            | Inr m \<Rightarrow> clutch_follow gm (c1\<lparr>tc_mapper := m, tc_state := ClActive\<rparr>) (as_pose sample))
         else clutch_follow gm c1 (as_pose sample)))"

definition clutch_recenter ::
  "geometry \<Rightarrow> teleop_clutch \<Rightarrow> arm_pose_sample \<Rightarrow> pose3d \<Rightarrow> bool \<Rightarrow>
    teleop_clutch \<times> (teleop_clutch_error, nat) res" where
  "clutch_recenter gm c sample robot_tcp_pose gate_released =
     (if \<not> gate_released then (c, Inl GateNotReleased)
      else if \<not> as_tracking_valid sample then (c, Inl TrackingNotValid)
      else case clutch_anchor gm c (as_pose sample) robot_tcp_pose of
        Inl e \<Rightarrow> (c, Inl (MapperRaised e))
      | Inr m \<Rightarrow> (c\<lparr>tc_mapper := mapper_clear m, tc_state := ClDisengaged, tc_last_gate_engaged := False\<rparr>,
                  Inr (mp_anchor_id m)))"

definition release_after_discontinuity :: "teleop_clutch \<Rightarrow> teleop_clutch" where
  "release_after_discontinuity c =
     (if tc_state c = ClRecenterRequired then c\<lparr>tc_state := ClDisengaged, tc_last_gate_engaged := False\<rparr> else c)"

definition clutch_stop :: "teleop_clutch \<Rightarrow> teleop_clutch" where
  "clutch_stop c = c\<lparr>tc_mapper := mapper_clear (tc_mapper c), tc_state := ClStopped\<rparr>"

definition clutch_latch_fault :: "teleop_clutch \<Rightarrow> teleop_clutch" where
  "clutch_latch_fault c = c\<lparr>tc_mapper := mapper_clear (tc_mapper c), tc_state := ClFault\<rparr>"

definition clutch_reset_fault :: "teleop_clutch \<Rightarrow> bool \<Rightarrow> bool \<Rightarrow> (teleop_clutch_error, teleop_clutch) res" where
  "clutch_reset_fault c gate_released safe =
     (if tc_state c \<notin> {ClFault, ClStopped} then Inl NotLatched
      else if \<not> gate_released \<or> \<not> safe then Inl ResetUnsafe
      else Inr (c\<lparr>tc_state := ClWaitingForRelease, tc_last_gate_engaged := False\<rparr>))"

section \<open>Runs\<close>

datatype clutch_call =
    CallUpdate arm_pose_sample run_gate_sample pose3d
  | CallRecenter arm_pose_sample pose3d bool
  | CallRequireRecenter | CallReleaseAfterDiscontinuity | CallStop | CallFault
  | CallResetFault bool bool

text \<open>The state after a call, and the target pose it hands out.\<close>

fun clutch_call_step :: "geometry \<Rightarrow> teleop_clutch \<Rightarrow> clutch_call \<Rightarrow> teleop_clutch \<times> pose3d option" where
  "clutch_call_step gm c (CallUpdate s g r) =
     (case clutch_update gm c s g r of (c', Inl _) \<Rightarrow> (c', None) | (c', Inr u) \<Rightarrow> (c', cu_target_pose u))"
| "clutch_call_step gm c (CallRecenter s r released) = (fst (clutch_recenter gm c s r released), None)"
| "clutch_call_step gm c CallRequireRecenter = (require_recenter c, None)"
| "clutch_call_step gm c CallReleaseAfterDiscontinuity = (release_after_discontinuity c, None)"
| "clutch_call_step gm c CallStop = (clutch_stop c, None)"
| "clutch_call_step gm c CallFault = (clutch_latch_fault c, None)"
| "clutch_call_step gm c (CallResetFault released safe) =
     (case clutch_reset_fault c released safe of Inl _ \<Rightarrow> (c, None) | Inr c' \<Rightarrow> (c', None))"

fun clutch_calls :: "geometry \<Rightarrow> teleop_clutch \<Rightarrow> clutch_call list \<Rightarrow> teleop_clutch" where
  "clutch_calls gm c [] = c"
| "clutch_calls gm c (e # es) = clutch_calls gm (fst (clutch_call_step gm c e)) es"

lemma clutch_calls_append: "clutch_calls gm c (es @ fs) = clutch_calls gm (clutch_calls gm c es) fs"
  by (induction es arbitrary: c) simp_all

section \<open>What a target presupposes\<close>

definition pressed_input :: "arm_pose_sample \<Rightarrow> run_gate_sample \<Rightarrow> bool" where
  "pressed_input s g \<longleftrightarrow> rg_valid g \<and> rg_engaged g \<and> as_tracking_valid s"

text \<open>The calls that show the operator has let go, and the calls after which an active clutch can still be active.\<close>

fun shows_release :: "clutch_call \<Rightarrow> bool" where
  "shows_release (CallUpdate s g r) \<longleftrightarrow> rg_valid g \<and> as_tracking_valid s \<and> \<not> rg_engaged g"
| "shows_release (CallRecenter s r released) \<longleftrightarrow> released"
| "shows_release CallReleaseAfterDiscontinuity \<longleftrightarrow> True"
| "shows_release _ \<longleftrightarrow> False"

fun may_keep_active :: "clutch_call \<Rightarrow> bool" where
  "may_keep_active (CallUpdate s g r) \<longleftrightarrow> pressed_input s g"
| "may_keep_active CallRequireRecenter \<longleftrightarrow> False"
| "may_keep_active CallStop \<longleftrightarrow> False"
| "may_keep_active CallFault \<longleftrightarrow> False"
| "may_keep_active _ \<longleftrightarrow> True"

definition mapped_target :: "geometry \<Rightarrow> teleop_clutch \<Rightarrow> pose3d \<Rightarrow> pose3d option" where
  "mapped_target gm c pose = (case clutch_map gm c pose of Inl _ \<Rightarrow> None | Inr p \<Rightarrow> Some p)"

lemma clutch_call_update_cases:
  assumes "clutch_call_step gm c (CallUpdate s g r) = (c', t)"
  obtains (latched) "tc_state c \<in> {ClStopped, ClFault}" "c' = c" "t = None"
  | (invalid) "\<not> pressed_input s g" "tc_state c' = ClRecenterRequired" "\<not> anchored (tc_mapper c')" "t = None"
  | (released) "shows_release (CallUpdate s g r)" "tc_state c \<notin> {ClStopped, ClFault}" "c' = clutch_released c" "t = None"
  | (held) "pressed_input s g" "tc_state c \<notin> {ClStopped, ClFault, ClActive}" "c' = c\<lparr>tc_last_gate_engaged := True\<rparr>" "t = None"
  | (activated) m where "pressed_input s g" "tc_state c = ClDisengaged" "\<not> tc_last_gate_engaged c"
      "clutch_anchor gm c (as_pose s) r = Inr m"
      "c' = c\<lparr>tc_last_gate_engaged := True, tc_mapper := m, tc_state := ClActive\<rparr>" "t = mapped_target gm c' (as_pose s)"
  | (followed) "pressed_input s g" "tc_state c = ClActive" "c' = c\<lparr>tc_last_gate_engaged := True\<rparr>"
      "t = mapped_target gm c' (as_pose s)"
proof (cases "tc_state c \<in> {ClStopped, ClFault}")
  case True
  with assms have "c' = c" "t = None" by (auto simp: clutch_update_def clutch_report_def)
  with True show thesis by (intro latched)
next
  case unlatched: False
  show thesis
  proof (cases "\<not> rg_valid g \<or> \<not> as_tracking_valid s")
    case True
    then have "c' = (require_recenter c)\<lparr>tc_last_gate_engaged := rg_engaged g\<rparr>" "t = None"
      using assms unlatched by (simp_all add: clutch_update_def Let_def clutch_report_def)
    moreover have "\<not> pressed_input s g" using True by (auto simp: pressed_input_def)
    moreover have "tc_state (require_recenter c) = ClRecenterRequired" "\<not> anchored (tc_mapper (require_recenter c))"
      using unlatched by (simp_all add: require_recenter_def Let_def anchored_def mapper_clear_def)
    ultimately show thesis by (intro invalid) simp_all
  next
    case valid: False
    show thesis
    proof (cases "rg_engaged g")
      case False
      with unlatched valid assms released show thesis by (auto simp: clutch_update_def Let_def clutch_report_def)
    next
      case True
      have pr: "pressed_input s g" using True valid by (simp add: pressed_input_def)
      have anchor: "clutch_anchor gm (c\<lparr>tc_last_gate_engaged := True\<rparr>) (as_pose s) r = clutch_anchor gm c (as_pose s) r"
        by (simp add: clutch_anchor_def)
      consider "tc_state c = ClActive" | "tc_state c \<in> {ClWaitingForRelease, ClRecenterRequired}"
        | "tc_state c = ClDisengaged" "tc_last_gate_engaged c"
        | "tc_state c = ClDisengaged" "\<not> tc_last_gate_engaged c"
        using unlatched by (cases "tc_state c") auto
      then show thesis
      proof cases
        case 1
        with valid True assms followed[OF pr] show thesis
          by (auto simp: clutch_update_def Let_def clutch_follow_def clutch_report_def mapped_target_def
              split: sum.split_asm)
      next
        case 2
        with valid True assms held[OF pr] show thesis
          by (auto simp: clutch_update_def Let_def clutch_report_def)
      next
        case 3
        with valid True assms held[OF pr] show thesis
          by (auto simp: clutch_update_def Let_def clutch_report_def)
      next
        case 4
        show thesis
        proof (cases "clutch_anchor gm c (as_pose s) r")
          case (Inl e)
          with 4 valid True assms held[OF pr] show thesis
            by (auto simp: clutch_update_def Let_def anchor)
        next
          case (Inr m)
          with 4 valid True assms activated[OF pr] show thesis
            by (auto simp: clutch_update_def Let_def anchor clutch_follow_def clutch_report_def mapped_target_def
                split: sum.split_asm)
        qed
      qed
    qed
  qed
qed

lemma clutch_anchor_robot: "clutch_anchor gm c p r = Inr m \<Longrightarrow> mp_robot_anchor m = Some r \<and> anchored m"
  by (auto simp: clutch_anchor_def anchor_source_def anchor_operator_def anchored_def split: if_split_asm)

definition press_evidence :: "clutch_call list \<Rightarrow> pose3d option \<Rightarrow> bool" where
  "press_evidence es robot \<longleftrightarrow>
     (\<exists>old s g r since. es = old @ CallUpdate s g r # since \<and> pressed_input s g
        \<and> (\<exists>x \<in> set old. shows_release x) \<and> robot = Some r \<and> list_all may_keep_active since)"

lemma press_evidence_keep: "press_evidence es robot \<Longrightarrow> may_keep_active e \<Longrightarrow> press_evidence (es @ [e]) robot"
  unfolding press_evidence_def
proof (elim exE conjE)
  fix old s g r since
  assume "es = old @ CallUpdate s g r # since" "pressed_input s g" "\<exists>x \<in> set old. shows_release x"
    "robot = Some r" "list_all may_keep_active since" "may_keep_active e"
  then show "\<exists>old s g r since. es @ [e] = old @ CallUpdate s g r # since \<and> pressed_input s g
      \<and> (\<exists>x \<in> set old. shows_release x) \<and> robot = Some r \<and> list_all may_keep_active since"
    by (intro exI[of _ old] exI[of _ s] exI[of _ g] exI[of _ r] exI[of _ "since @ [e]"]) simp
qed

lemma press_evidence_now:
  "\<exists>x \<in> set es. shows_release x \<Longrightarrow> pressed_input s g \<Longrightarrow> press_evidence (es @ [CallUpdate s g r]) (Some r)"
  unfolding press_evidence_def by force

definition clutch_history :: "clutch_call list \<Rightarrow> teleop_clutch \<Rightarrow> bool" where
  "clutch_history es c \<longleftrightarrow>
     (tc_state c = ClDisengaged \<longrightarrow> (\<exists>x \<in> set es. shows_release x))
     \<and> (tc_state c = ClActive \<longleftrightarrow> anchored (tc_mapper c))
     \<and> (tc_state c = ClActive \<longrightarrow> press_evidence es (mp_robot_anchor (tc_mapper c)))"

lemma clutch_history_idle:
  assumes "clutch_history es c" and "tc_state c' = tc_state c" and "tc_mapper c' = tc_mapper c"
    and "tc_state c = ClActive \<Longrightarrow> may_keep_active e"
  shows "clutch_history (es @ [e]) c'"
  using assms press_evidence_keep by (auto simp: clutch_history_def)

lemma clutch_history_off:
  assumes "tc_state c' \<noteq> ClActive" and "\<not> anchored (tc_mapper c')"
    and "tc_state c' = ClDisengaged \<Longrightarrow> \<exists>x \<in> set (es @ [e]). shows_release x"
  shows "clutch_history (es @ [e]) c'"
  using assms by (simp add: clutch_history_def)

lemma clutch_history_update:
  assumes h: "clutch_history es c" and "clutch_call_step gm c (CallUpdate s g r) = (c', t)"
  shows "clutch_history (es @ [CallUpdate s g r]) c'"
  using assms(2)
proof (cases rule: clutch_call_update_cases)
  case latched
  then have "tc_state c' \<noteq> ClActive" "tc_state c' \<noteq> ClDisengaged" by auto
  then show ?thesis using h latched(2) by (simp add: clutch_history_def)
next
  case invalid
  then show ?thesis by (intro clutch_history_off) simp_all
next
  case released
  then show ?thesis using h
    by (intro clutch_history_off)
      (auto simp: clutch_released_def Let_def clutch_history_def anchored_def mapper_clear_def)
next
  case held
  then show ?thesis using h by (intro clutch_history_idle) simp_all
next
  case (activated m)
  have "\<exists>x \<in> set es. shows_release x" using h activated(2) by (simp add: clutch_history_def)
  from press_evidence_now[OF this activated(1)] show ?thesis
    using activated(5) clutch_anchor_robot[OF activated(4)] by (simp add: clutch_history_def)
next
  case followed
  then show ?thesis using h by (intro clutch_history_idle) simp_all
qed

lemma clutch_history_step:
  assumes h: "clutch_history es c"
  shows "clutch_history (es @ [e]) (fst (clutch_call_step gm c e))"
proof (cases e)
  case (CallUpdate s g r)
  then show ?thesis using clutch_history_update[OF h] by (metis prod.collapse)
next
  case (CallRecenter s r released)
  show ?thesis
  proof (cases "clutch_recenter gm c s r released")
    case (Pair c' o')
    then consider "c' = c" | "released" "tc_state c' = ClDisengaged" "\<not> anchored (tc_mapper c')"
      by (auto simp: clutch_recenter_def anchored_def mapper_clear_def split: if_split_asm sum.split_asm)
    then show ?thesis
      using h Pair CallRecenter by cases (auto intro: clutch_history_idle clutch_history_off)
  qed
next
  case CallRequireRecenter
  then show ?thesis
    using h by (auto intro!: clutch_history_off
        simp: require_recenter_def Let_def anchored_def mapper_clear_def clutch_history_def)
next
  case CallReleaseAfterDiscontinuity
  then show ?thesis
    using h clutch_history_idle[OF h, of c] clutch_history_off[of "release_after_discontinuity c" es]
    by (auto simp: release_after_discontinuity_def clutch_history_def[of es])
next
  case CallStop
  then show ?thesis by (auto intro!: clutch_history_off simp: clutch_stop_def anchored_def mapper_clear_def)
next
  case CallFault
  then show ?thesis by (auto intro!: clutch_history_off simp: clutch_latch_fault_def anchored_def mapper_clear_def)
next
  case (CallResetFault released safe)
  then show ?thesis
    using clutch_history_idle[OF h, of c "CallResetFault released safe"] h
    by (auto simp: clutch_reset_fault_def clutch_history_def[of es] intro!: clutch_history_off)
qed

lemma clutch_history_run:
  assumes "mk_mapper a b = Inr m"
  shows "clutch_history es (clutch_calls gm (new_teleop_clutch m f) es)"
proof (induction es rule: rev_induct)
  case Nil
  then show ?case using assms
    by (auto simp: clutch_history_def new_teleop_clutch_def mk_mapper_def anchored_def split: if_split_asm)
next
  case (snoc e es)
  then show ?case by (simp add: clutch_calls_append clutch_history_step)
qed

lemma clutch_call_target:
  assumes "clutch_call_step gm c e = (c', Some target)"
  obtains s g r where "e = CallUpdate s g r" "pressed_input s g" "tc_state c' = ClActive"
    "mapped_target gm c' (as_pose s) = Some target"
proof (cases e)
  case (CallUpdate s g r)
  from assms[unfolded CallUpdate] show thesis
    by (cases rule: clutch_call_update_cases) (use CallUpdate that in auto)
qed (use assms in \<open>auto split: sum.split_asm\<close>)


definition demo_geometry :: geometry where
  "demo_geometry = \<lparr>gm_source_to_operator = Inr, gm_relative = (\<lambda>ts rs source robot current. Inr robot)\<rparr>"

definition demo_mapper :: mapper where
  "demo_mapper = \<lparr>mp_translation_scale = Fin 0, mp_rotation_scale = Fin 0, mp_source_anchor = None,
     mp_robot_anchor = None, mp_anchor_id = 0\<rparr>"

definition demo_pose3d :: pose3d where
  "demo_pose3d = \<lparr>p3_position_m = [Fin 0, Fin 0, Fin 0], p3_quaternion_xyzw = [Fin 0, Fin 0, Fin 0, Fin 1]\<rparr>"

definition demo_arm_sample :: arm_pose_sample where
  "demo_arm_sample = \<lparr>as_source_id = ''quest'', as_sequence = 1, as_frame_id = ''world'', as_pose = demo_pose3d,
     as_timestamps = \<lparr>ts_local_receive_ns = 1, ts_source_capture_ns = None, ts_processing_ns = None,
       ts_dispatch_ns = None, ts_robot_command_ns = None, ts_robot_state_observation_ns = None\<rparr>,
     as_tracking_valid = True, as_tracking_quality = None, as_tracking_state = TrackUnknown,
     as_validity_reason = [], as_sample_age_ns = 0, as_connection_epoch = 0, as_discontinuity = DiscNone,
     as_source_sequence = None\<rparr>"

definition demo_run_gate :: "bool \<Rightarrow> run_gate_sample" where
  "demo_run_gate engaged = \<lparr>rg_source_id = ''quest'', rg_sequence = 1, rg_local_receive_ns = 1, rg_engaged = engaged,
     rg_valid = True, rg_connection_epoch = 0, rg_reason = []\<rparr>"

definition demo_call :: "bool \<Rightarrow> clutch_call" where
  "demo_call engaged = CallUpdate demo_arm_sample (demo_run_gate engaged) demo_pose3d"

lemma demo_mapper_ok: "mk_mapper (Fin 0) (Fin 0) = Inr demo_mapper"
proof -
  have "fle (Fin 0) scale_limit" using round64_nonneg[of "1 / 10"] by (auto simp: scale_limit_def)
  then show ?thesis by (simp add: mk_mapper_def demo_mapper_def)
qed


text \<open>C14. A recentering request undoes the fault latch: on a faulted or stopped clutch, a recenter with the gate
  released and valid tracking succeeds without any confirmation that the state is safe, and the
  next press hands out targets, while \<open>reset_fault\<close> would have refused.\<close>

theorem teleop_recenter_escapes_latch:
  assumes "tc_state c \<in> {ClFault, ClStopped}" and "tc_operator_frame c" and "pressed_input s g"
  shows "clutch_reset_fault c True False = Inl ResetUnsafe
    \<and> tc_state (fst (clutch_recenter gm c s r True)) = ClDisengaged
    \<and> tc_state (fst (clutch_update gm (fst (clutch_recenter gm c s r True)) s g r)) = ClActive"
  using assms
  by (auto simp: clutch_reset_fault_def clutch_recenter_def clutch_anchor_def clutch_update_def pressed_input_def
      Let_def clutch_follow_def split: sum.split)

theorem teleop_recenter_escapes_latch_witness:
  "tc_state (clutch_latch_fault (new_teleop_clutch demo_mapper True)) = ClFault
   \<and> tc_state (fst (clutch_recenter demo_geometry (clutch_latch_fault (new_teleop_clutch demo_mapper True))
        demo_arm_sample demo_pose3d True)) = ClDisengaged"
proof -
  have "tc_state (clutch_latch_fault (new_teleop_clutch demo_mapper True)) \<in> {ClFault, ClStopped}"
    and "tc_operator_frame (clutch_latch_fault (new_teleop_clutch demo_mapper True))"
    and "pressed_input demo_arm_sample (demo_run_gate True)"
    by (simp_all add: clutch_latch_fault_def new_teleop_clutch_def pressed_input_def demo_arm_sample_def demo_run_gate_def)
  from teleop_recenter_escapes_latch[OF this] show ?thesis by (simp add: clutch_latch_fault_def)
qed

end
