(* ===== verification/PoseValidator.thy ===== *)
theory PoseValidator
  imports Lifecycle
begin

text \<open>
  The validation of incoming arm poses, \<open>src/teleoperation/processing/pose_validator.py\<close>: sequence checks, age policy,
  tracking and connection continuity, jump limits. The two distances between poses (numpy's norm of
  the position difference and \<open>quaternion_angle\<close>) are parameters.
\<close>

section \<open>Configuration and state\<close>

datatype validation_action = VaAccept | VaWarning | VaHold | VaControlledStop | VaAbort | VaReclutchRequired | VaReject

record validation_result =
  vr_action :: validation_action
  vr_reason :: string
  vr_sample :: "arm_pose_sample option"

record validation_config =
  vc_expected_frame_id :: string
  vc_warning_age_ns :: int
  vc_hold_age_ns :: int
  vc_controlled_stop_age_ns :: int
  vc_fatal_age_ns :: int
  vc_maximum_translation_jump_m :: pyfloat
  vc_maximum_rotation_jump_rad :: pyfloat
  vc_maximum_linear_speed_m_s :: pyfloat
  vc_maximum_angular_speed_rad_s :: pyfloat

datatype validator_error = BadAgeThresholds | MissingFrame | BadJumpLimits | TrackerRaised lifecycle_error | DtOverflow

definition mk_validation_config :: "validation_config \<Rightarrow> (validator_error, validation_config) res" where
  "mk_validation_config c =
     (let ages = [vc_warning_age_ns c, vc_hold_age_ns c, vc_controlled_stop_age_ns c, vc_fatal_age_ns c] in
      if ages ! 0 < 0 \<or> \<not> list_all (\<lambda>(a, b). a < b) (zip ages (tl ages)) then Inl BadAgeThresholds
      else if vc_expected_frame_id c = [] then Inl MissingFrame
      else if fle (fmin (fmin (fmin (vc_maximum_translation_jump_m c) (vc_maximum_rotation_jump_rad c))
                     (vc_maximum_linear_speed_m_s c)) (vc_maximum_angular_speed_rad_s c)) (Fin 0)
      then Inl BadJumpLimits
      else Inr c)"

record validator =
  vd_config :: validation_config
  vd_sequence :: "int option"
  vd_source_sequence :: "int option"
  vd_previous :: "arm_pose_sample option"
  vd_previous_tracking_valid :: bool
  vd_connection_epoch :: "int option"

definition new_validator :: "validation_config \<Rightarrow> validator" where
  "new_validator c = \<lparr>vd_config = c, vd_sequence = None, vd_source_sequence = None, vd_previous = None,
     vd_previous_tracking_valid = False, vd_connection_epoch = None\<rparr>"

definition validator_reset :: "validator \<Rightarrow> validator" where
  "validator_reset v = v\<lparr>vd_sequence := seq_reset, vd_source_sequence := seq_reset, vd_previous := None,
     vd_previous_tracking_valid := False, vd_connection_epoch := None\<rparr>"

record pose_metric =
  pm_translation :: "pose3d \<Rightarrow> pose3d \<Rightarrow> pyfloat"
  pm_rotation :: "pose3d \<Rightarrow> pose3d \<Rightarrow> pyfloat"

section \<open>Validation\<close>

definition verdict :: "validation_action \<Rightarrow> string \<Rightarrow> arm_pose_sample \<Rightarrow> validation_result" where
  "verdict action reason sample = \<lparr>vr_action = action, vr_reason = reason, vr_sample = Some sample\<rparr>"

text \<open>\<open>self._previous = sample; self._previous_tracking_valid = ok\<close>.\<close>

definition remember_sample :: "validator \<Rightarrow> arm_pose_sample \<Rightarrow> bool \<Rightarrow> validator" where
  "remember_sample v sample ok = v\<lparr>vd_previous := Some sample, vd_previous_tracking_valid := ok\<rparr>"

fun discontinuity_value :: "discontinuity \<Rightarrow> string" where
  "discontinuity_value DiscNone = ''none''"
| "discontinuity_value DiscInitial = ''initial''"
| "discontinuity_value DiscReconnect = ''reconnect''"
| "discontinuity_value DiscSequenceReset = ''sequence_reset''"
| "discontinuity_value DiscTrackingRecovery = ''tracking_recovery''"
| "discontinuity_value DiscRelocalization = ''relocalization''"

definition sample_age :: "arm_pose_sample \<Rightarrow> int \<Rightarrow> int" where
  "sample_age sample now_ns =
     max (as_sample_age_ns sample) (max 0 (now_ns - ts_local_receive_ns (as_timestamps sample)))"

text \<open>The comparison with the previous sample: the reason of a rejection, if there is one.\<close>

definition motion_verdict ::
  "pose_metric \<Rightarrow> validation_config \<Rightarrow> arm_pose_sample \<Rightarrow> arm_pose_sample \<Rightarrow>
    (validator_error, (validation_action \<times> string) option) res" where
  "motion_verdict pm c previous sample =
     (let dt_ns = ts_local_receive_ns (as_timestamps sample) - ts_local_receive_ns (as_timestamps previous) in
      if dt_ns \<le> 0 then Inr (Some (VaReject, ''nonmonotonic_receive_timestamp''))
      else if \<not> is_finite (round64 (of_int dt_ns)) then Inl DtOverflow
      else let dt = ns_to_seconds dt_ns;
               translation = pm_translation pm (as_pose sample) (as_pose previous);
               rotation = pm_rotation pm (as_pose sample) (as_pose previous) in
        Inr (if flt (vc_maximum_translation_jump_m c) translation
             then Some (VaReclutchRequired, ''translation_discontinuity'')
             else if flt (vc_maximum_rotation_jump_rad c) rotation
             then Some (VaReclutchRequired, ''rotation_discontinuity'')
             else if flt (vc_maximum_linear_speed_m_s c) (fdiv translation dt)
             then Some (VaReclutchRequired, ''impossible_linear_speed'')
             else if flt (vc_maximum_angular_speed_rad_s c) (fdiv rotation dt)
             then Some (VaReclutchRequired, ''impossible_angular_speed'')
             else None))"

text \<open>From the tracking check on: the sample is new and fresh enough.\<close>

definition validate_tracking ::
  "pose_metric \<Rightarrow> validator \<Rightarrow> arm_pose_sample \<Rightarrow> int \<Rightarrow> validator \<times> (validator_error, validation_result) res" where
  "validate_tracking pm v sample age =
     (let c = vd_config v in
      if \<not> as_tracking_valid sample \<or> as_tracking_state sample = TrackInvalid then
        (remember_sample v sample False, Inr (verdict VaReclutchRequired ''tracking_invalid'' sample))
      else if vd_connection_epoch v \<noteq> None \<and> Some (as_connection_epoch sample) \<noteq> vd_connection_epoch v then
        (remember_sample (v\<lparr>vd_connection_epoch := Some (as_connection_epoch sample)\<rparr>) sample True,
         Inr (verdict VaReclutchRequired ''connection_epoch_changed'' sample))
      else
        (let v1 = v\<lparr>vd_connection_epoch := Some (as_connection_epoch sample)\<rparr> in
         if as_discontinuity sample \<in> {DiscReconnect, DiscSequenceReset, DiscTrackingRecovery, DiscRelocalization} then
           (remember_sample v1 sample True,
            Inr (verdict VaReclutchRequired (''discontinuity:'' @ discontinuity_value (as_discontinuity sample)) sample))
         else if \<not> vd_previous_tracking_valid v1 \<and> vd_previous v1 \<noteq> None then
           (remember_sample v1 sample True, Inr (verdict VaReclutchRequired ''tracking_recovered'' sample))
         else
           (case (case vd_previous v1 of None \<Rightarrow> Inr None | Some previous \<Rightarrow> motion_verdict pm c previous sample) of
              Inl e \<Rightarrow> (v1, Inl e)
            | Inr (Some (action, reason)) \<Rightarrow> (v1, Inr (verdict action reason sample))
            | Inr None \<Rightarrow>
                (remember_sample v1 sample True,
                 Inr (if vc_warning_age_ns c \<le> age then verdict VaWarning ''sample_age_warning'' sample
                      else verdict VaAccept ''ok'' sample)))))"

text \<open>The age policy.\<close>

definition validate_age ::
  "pose_metric \<Rightarrow> validator \<Rightarrow> arm_pose_sample \<Rightarrow> int \<Rightarrow> validator \<times> (validator_error, validation_result) res" where
  "validate_age pm v sample now_ns =
     (let c = vd_config v; age = sample_age sample now_ns in
      if now_ns + 5000000 < ts_local_receive_ns (as_timestamps sample) then
        (v, Inr (verdict VaAbort ''future_receive_timestamp'' sample))
      else if vc_fatal_age_ns c \<le> age then (v, Inr (verdict VaAbort ''fatal_sample_age'' sample))
      else if vc_controlled_stop_age_ns c \<le> age then (v, Inr (verdict VaControlledStop ''prolonged_dropout'' sample))
      else if vc_hold_age_ns c \<le> age then (v, Inr (verdict VaHold ''short_dropout'' sample))
      else validate_tracking pm v sample age)"

definition validate_pose ::
  "pose_metric \<Rightarrow> validator \<Rightarrow> arm_pose_sample option \<Rightarrow> int \<Rightarrow>
    validator \<times> (validator_error, validation_result) res" where
  "validate_pose pm v sample_opt now_ns =
     (case sample_opt of
        None \<Rightarrow> (v, Inr \<lparr>vr_action = VaHold, vr_reason = ''no_sample'', vr_sample = None\<rparr>)
      | Some sample \<Rightarrow>
          if as_frame_id sample \<noteq> vc_expected_frame_id (vd_config v) then
            (v, Inr (verdict VaAbort ''unexpected_source_frame'' sample))
          else (case seq_observe (vd_sequence v) (as_sequence sample) of
            Inl e \<Rightarrow> (v, Inl (TrackerRaised e))
          | Inr (tracker, disposition) \<Rightarrow>
              (let v1 = v\<lparr>vd_sequence := tracker\<rparr> in
               if disposition = SeqDuplicate then (v1, Inr (verdict VaReject ''duplicate_sequence'' sample))
               else if disposition = SeqReordered then (v1, Inr (verdict VaReject ''reordered_sequence'' sample))
               else case as_source_sequence sample of
                 None \<Rightarrow> validate_age pm v1 sample now_ns
               | Some n \<Rightarrow>
                   (case seq_observe (vd_source_sequence v1) n of
                      Inl e \<Rightarrow> (v1, Inl (TrackerRaised e))
                    | Inr (source_tracker, source_disposition) \<Rightarrow>
                        (let v2 = v1\<lparr>vd_source_sequence := source_tracker\<rparr> in
                         if source_disposition = SeqDuplicate then
                           (v2, Inr (verdict VaReject ''duplicate_source_sequence'' sample))
                         else if source_disposition = SeqReordered then
                           (v2, Inr (verdict VaReclutchRequired ''source_sequence_reset'' sample))
                         else validate_age pm v2 sample now_ns)))))"

section \<open>When a sample is accepted\<close>

definition accepting :: "(validator_error, validation_result) res \<Rightarrow> bool" where
  "accepting r \<longleftrightarrow> (case r of Inl _ \<Rightarrow> False | Inr v \<Rightarrow> vr_action v \<in> {VaAccept, VaWarning})"

definition newer :: "int option \<Rightarrow> int \<Rightarrow> bool" where
  "newer seen n \<longleftrightarrow> 0 \<le> n \<and> (\<forall>k. seen = Some k \<longrightarrow> k < n)"

text \<open>The specification: what the validator promises about a sample it lets through.\<close>

definition motion_admissible :: "pose_metric \<Rightarrow> validation_config \<Rightarrow> arm_pose_sample \<Rightarrow> arm_pose_sample \<Rightarrow> bool" where
  "motion_admissible pm c previous sample \<longleftrightarrow>
     (let dt_ns = ts_local_receive_ns (as_timestamps sample) - ts_local_receive_ns (as_timestamps previous);
          translation = pm_translation pm (as_pose sample) (as_pose previous);
          rotation = pm_rotation pm (as_pose sample) (as_pose previous) in
      0 < dt_ns \<and> is_finite (round64 (of_int dt_ns))
      \<and> \<not> flt (vc_maximum_translation_jump_m c) translation
      \<and> \<not> flt (vc_maximum_rotation_jump_rad c) rotation
      \<and> \<not> flt (vc_maximum_linear_speed_m_s c) (fdiv translation (ns_to_seconds dt_ns))
      \<and> \<not> flt (vc_maximum_angular_speed_rad_s c) (fdiv rotation (ns_to_seconds dt_ns)))"

definition continuity_admissible :: "pose_metric \<Rightarrow> validator \<Rightarrow> arm_pose_sample \<Rightarrow> bool" where
  "continuity_admissible pm v s \<longleftrightarrow>
     as_tracking_valid s \<and> as_tracking_state s \<noteq> TrackInvalid \<and> as_discontinuity s \<in> {DiscNone, DiscInitial}
     \<and> (\<forall>e. vd_connection_epoch v = Some e \<longrightarrow> as_connection_epoch s = e)
     \<and> (\<forall>p. vd_previous v = Some p \<longrightarrow> vd_previous_tracking_valid v \<and> motion_admissible pm (vd_config v) p s)"

definition admissible :: "pose_metric \<Rightarrow> validator \<Rightarrow> arm_pose_sample \<Rightarrow> int \<Rightarrow> bool" where
  "admissible pm v s now_ns \<longleftrightarrow>
     as_frame_id s = vc_expected_frame_id (vd_config v)
     \<and> newer (vd_sequence v) (as_sequence s)
     \<and> (\<forall>n. as_source_sequence s = Some n \<longrightarrow> newer (vd_source_sequence v) n)
     \<and> ts_local_receive_ns (as_timestamps s) \<le> now_ns + 5000000
     \<and> sample_age s now_ns < vc_hold_age_ns (vd_config v)
     \<and> continuity_admissible pm v s"

lemma accepting_verdict [simp]: "accepting (Inr (verdict a r s)) \<longleftrightarrow> a \<in> {VaAccept, VaWarning}"
  by (simp add: accepting_def verdict_def)

lemma accepting_Inl [simp]: "\<not> accepting (Inl e)"
  by (simp add: accepting_def)

lemma motion_verdict_None:
  "motion_verdict pm c p s = Inr None \<longleftrightarrow> motion_admissible pm c p s"
  by (auto simp: motion_verdict_def motion_admissible_def Let_def split: if_splits)

lemma motion_verdict_not_accepting:
  "motion_verdict pm c p s = Inr (Some (a, r)) \<Longrightarrow> a \<in> {VaReject, VaReclutchRequired}"
  by (auto simp: motion_verdict_def Let_def split: if_split_asm)

text \<open>The two ends of the tracking stage: refused with the sample remembered or not, or accepted.\<close>

lemma validate_tracking_accept:
  assumes "continuity_admissible pm v s"
  shows "validate_tracking pm v s age =
    (remember_sample (v\<lparr>vd_connection_epoch := Some (as_connection_epoch s)\<rparr>) s True,
     Inr (if vc_warning_age_ns (vd_config v) \<le> age then verdict VaWarning ''sample_age_warning'' s
          else verdict VaAccept ''ok'' s))"
proof -
  have "(case vd_previous v of None \<Rightarrow> Inr None | Some p \<Rightarrow> motion_verdict pm (vd_config v) p s) = Inr None"
    using assms by (auto simp: continuity_admissible_def motion_verdict_None split: option.split)
  moreover have "as_discontinuity s \<notin> {DiscReconnect, DiscSequenceReset, DiscTrackingRecovery, DiscRelocalization}"
    using assms by (auto simp: continuity_admissible_def)
  ultimately show ?thesis
    using assms by (auto simp: validate_tracking_def Let_def continuity_admissible_def)
qed

lemma validate_tracking_refuse:
  assumes "\<not> continuity_admissible pm v s"
  shows "\<not> accepting (snd (validate_tracking pm v s age))"
proof (cases "as_tracking_valid s \<and> as_tracking_state s \<noteq> TrackInvalid \<and>
    (vd_connection_epoch v = None \<or> Some (as_connection_epoch s) = vd_connection_epoch v) \<and>
    as_discontinuity s \<in> {DiscNone, DiscInitial} \<and> (vd_previous_tracking_valid v \<or> vd_previous v = None)")
  case True
  with assms obtain p where p: "vd_previous v = Some p" "\<not> motion_admissible pm (vd_config v) p s"
    by (auto simp: continuity_admissible_def)
  then consider e where "motion_verdict pm (vd_config v) p s = Inl e"
    | a r where "motion_verdict pm (vd_config v) p s = Inr (Some (a, r))"
    by (cases "motion_verdict pm (vd_config v) p s") (auto simp: motion_verdict_None[symmetric])
  then show ?thesis
  proof cases
    case 1
    with True p show ?thesis by (auto simp: validate_tracking_def Let_def)
  next
    case 2
    with True p motion_verdict_not_accepting[OF 2] show ?thesis by (auto simp: validate_tracking_def Let_def)
  qed
next
  case False
  then show ?thesis
    by (cases "as_discontinuity s") (auto simp: validate_tracking_def Let_def)
qed

lemma validate_age_accepting:
  assumes "vc_hold_age_ns (vd_config v) \<le> vc_controlled_stop_age_ns (vd_config v)"
    and "vc_controlled_stop_age_ns (vd_config v) \<le> vc_fatal_age_ns (vd_config v)"
  shows "accepting (snd (validate_age pm v s now_ns)) \<longleftrightarrow>
    ts_local_receive_ns (as_timestamps s) \<le> now_ns + 5000000
    \<and> sample_age s now_ns < vc_hold_age_ns (vd_config v) \<and> continuity_admissible pm v s"
proof (cases "ts_local_receive_ns (as_timestamps s) \<le> now_ns + 5000000
    \<and> sample_age s now_ns < vc_hold_age_ns (vd_config v)")
  case True
  then have "validate_age pm v s now_ns = validate_tracking pm v s (sample_age s now_ns)"
    using assms by (simp add: validate_age_def Let_def)
  then show ?thesis
    using True validate_tracking_accept[of pm v s] validate_tracking_refuse[of pm v s] by (cases "continuity_admissible pm v s") auto
next
  case False
  then show ?thesis by (auto simp: validate_age_def Let_def)
qed

lemma config_thresholds:
  "mk_validation_config c = Inr c' \<Longrightarrow> c' = c \<and> 0 \<le> vc_warning_age_ns c \<and> vc_warning_age_ns c < vc_hold_age_ns c
     \<and> vc_hold_age_ns c < vc_controlled_stop_age_ns c \<and> vc_controlled_stop_age_ns c < vc_fatal_age_ns c"
  by (auto simp: mk_validation_config_def Let_def split: if_split_asm)

lemma seq_observe_newer:
  "newer seen n \<Longrightarrow> \<exists>d \<in> {SeqFirst, SeqNew}. seq_observe seen n = Inr (Some n, d)"
  by (auto simp: newer_def seq_observe_def split: option.split)

lemma seq_observe_not_newer:
  assumes "\<not> newer seen n" and "seq_observe seen n = Inr (l, d)"
  shows "l = seen \<and> d \<in> {SeqDuplicate, SeqReordered}"
  using assms by (auto simp: newer_def seq_observe_def split: option.split_asm if_split_asm)

lemma continuity_sequences:
  "continuity_admissible pm (v\<lparr>vd_sequence := a\<rparr>) s = continuity_admissible pm v s"
  "continuity_admissible pm (v\<lparr>vd_source_sequence := a\<rparr>) s = continuity_admissible pm v s"
  by (simp_all add: continuity_admissible_def)

lemma validate_pose_admissible:
  assumes "as_frame_id s = vc_expected_frame_id (vd_config v)" and "newer (vd_sequence v) (as_sequence s)"
    and "\<forall>n. as_source_sequence s = Some n \<longrightarrow> newer (vd_source_sequence v) n"
  shows "\<exists>source. validate_pose pm v (Some s) now_ns =
    validate_age pm (v\<lparr>vd_sequence := Some (as_sequence s), vd_source_sequence := source\<rparr>) s now_ns"
proof -
  obtain d where d: "d \<in> {SeqFirst, SeqNew}" "seq_observe (vd_sequence v) (as_sequence s) = Inr (Some (as_sequence s), d)"
    using seq_observe_newer[OF assms(2)] by blast
  show ?thesis
  proof (cases "as_source_sequence s")
    case None
    then show ?thesis
      using assms(1) d by (intro exI[of _ "vd_source_sequence v"]) (auto simp: validate_pose_def Let_def)
  next
    case (Some n)
    obtain d' where "d' \<in> {SeqFirst, SeqNew}" "seq_observe (vd_source_sequence v) n = Inr (Some n, d')"
      using seq_observe_newer assms(3) Some by blast
    then show ?thesis using assms(1) d Some by (auto simp: validate_pose_def Let_def)
  qed
qed

lemma validate_pose_refused:
  assumes "\<not> (as_frame_id s = vc_expected_frame_id (vd_config v) \<and> newer (vd_sequence v) (as_sequence s)
    \<and> (\<forall>n. as_source_sequence s = Some n \<longrightarrow> newer (vd_source_sequence v) n))"
  shows "\<not> accepting (snd (validate_pose pm v (Some s) now_ns))"
proof (cases "as_frame_id s = vc_expected_frame_id (vd_config v)")
  case frame: True
  show ?thesis
  proof (cases "newer (vd_sequence v) (as_sequence s)")
    case True
    then obtain n where n: "as_source_sequence s = Some n" "\<not> newer (vd_source_sequence v) n"
      using assms frame by blast
    obtain d where "d \<in> {SeqFirst, SeqNew}" "seq_observe (vd_sequence v) (as_sequence s) = Inr (Some (as_sequence s), d)"
      using seq_observe_newer[OF True] by blast
    with frame n seq_observe_not_newer[OF n(2)] show ?thesis
      by (cases "seq_observe (vd_source_sequence v) n") (auto simp: validate_pose_def Let_def)
  next
    case False
    from frame seq_observe_not_newer[OF False] show ?thesis
      by (cases "seq_observe (vd_sequence v) (as_sequence s)") (auto simp: validate_pose_def Let_def)
  qed
qed (simp add: validate_pose_def)

lemma validate_pose_exact:
  assumes "mk_validation_config (vd_config v) = Inr c"
  shows "accepting (snd (validate_pose pm v (Some s) now_ns)) \<longleftrightarrow> admissible pm v s now_ns"
proof (cases "as_frame_id s = vc_expected_frame_id (vd_config v) \<and> newer (vd_sequence v) (as_sequence s)
    \<and> (\<forall>n. as_source_sequence s = Some n \<longrightarrow> newer (vd_source_sequence v) n)")
  case True
  then obtain source where e: "validate_pose pm v (Some s) now_ns =
      validate_age pm (v\<lparr>vd_sequence := Some (as_sequence s), vd_source_sequence := source\<rparr>) s now_ns"
    using validate_pose_admissible by blast
  show ?thesis
    unfolding e using config_thresholds[OF assms] True
    by (subst validate_age_accepting) (auto simp: admissible_def continuity_sequences)
next
  case False
  then show ?thesis using validate_pose_refused[OF False] by (auto simp: admissible_def)
qed

section \<open>Runs\<close>

text \<open>A stream of calls: the state at the end and the samples that were let through, in order.\<close>

fun validator_run ::
  "pose_metric \<Rightarrow> validator \<Rightarrow> (arm_pose_sample option \<times> int) list \<Rightarrow> validator \<times> arm_pose_sample list" where
  "validator_run pm v [] = (v, [])"
| "validator_run pm v ((s, now_ns) # calls) =
     (let (v1, r) = validate_pose pm v s now_ns; (v2, passed) = validator_run pm v1 calls in
      (v2, (if accepting r then the s # passed else passed)))"

lemma remember_sample_fields [simp]:
  "vd_config (remember_sample v s ok) = vd_config v" "vd_sequence (remember_sample v s ok) = vd_sequence v"
  by (simp_all add: remember_sample_def)

lemma validate_tracking_fields:
  "vd_config (fst (validate_tracking pm v s age)) = vd_config v"
  "vd_sequence (fst (validate_tracking pm v s age)) = vd_sequence v"
  by (auto simp: validate_tracking_def Let_def split: option.split sum.split)

lemma validate_age_fields:
  "vd_config (fst (validate_age pm v s now_ns)) = vd_config v"
  "vd_sequence (fst (validate_age pm v s now_ns)) = vd_sequence v"
  by (simp_all add: validate_age_def Let_def validate_tracking_fields)

text \<open>The configuration never changes; the newest sequence only grows and bounds an accepted sample's.\<close>

lemma validate_pose_fields:
  "vd_config (fst (validate_pose pm v s now_ns)) = vd_config v
   \<and> (\<forall>k. vd_sequence v = Some k \<longrightarrow> (\<exists>k' \<ge> k. vd_sequence (fst (validate_pose pm v s now_ns)) = Some k'))"
proof (cases s)
  case (Some x)
  show ?thesis
  proof (cases "seq_observe (vd_sequence v) (as_sequence x)")
    case (Inr td)
    obtain tr d where td: "td = (tr, d)" by (cases td)
    have "\<forall>k. vd_sequence v = Some k \<longrightarrow> (\<exists>k' \<ge> k. tr = Some k')"
      using Inr td by (auto simp: seq_observe_def split: if_split_asm option.split_asm)
    moreover have "vd_config (fst (validate_pose pm v s now_ns)) = vd_config v"
      "vd_sequence (fst (validate_pose pm v s now_ns)) \<in> {tr, vd_sequence v}"
      using Inr td Some
      by (auto simp: validate_pose_def Let_def validate_age_fields split: option.split sum.split)
    ultimately show ?thesis by auto
  next
    case (Inl e)
    then have "fst (validate_pose pm v s now_ns) = v" by (simp add: validate_pose_def Some)
    then show ?thesis by simp
  qed
qed (simp add: validate_pose_def)

lemma accepting_no_sample: "\<not> accepting (snd (validate_pose pm v None now_ns))"
  by (simp add: validate_pose_def accepting_def)

lemma validate_pose_sequence:
  assumes "mk_validation_config (vd_config v) = Inr c" and "accepting (snd (validate_pose pm v (Some s) now_ns))"
  shows "newer (vd_sequence v) (as_sequence s) \<and> vd_sequence (fst (validate_pose pm v (Some s) now_ns)) = Some (as_sequence s)"
proof -
  have a: "admissible pm v s now_ns" using assms validate_pose_exact by blast
  then obtain source where e: "validate_pose pm v (Some s) now_ns =
      validate_age pm (v\<lparr>vd_sequence := Some (as_sequence s), vd_source_sequence := source\<rparr>) s now_ns"
    using validate_pose_admissible by (metis admissible_def)
  then show ?thesis using a by (simp add: validate_age_fields admissible_def)
qed

lemma validator_run_sorted:
  assumes "mk_validation_config (vd_config v) = Inr c" and "validator_run pm v calls = (v', passed)"
  shows "sorted_wrt (\<lambda>a b. as_sequence a < as_sequence b) passed
    \<and> (\<forall>k x. vd_sequence v = Some k \<and> x \<in> set passed \<longrightarrow> k < as_sequence x)"
  using assms
proof (induction calls arbitrary: v v' passed)
  case (Cons call calls)
  obtain s now_ns where call: "call = (s, now_ns)" by (cases call)
  obtain v1 r where step: "validate_pose pm v s now_ns = (v1, r)" by (cases "validate_pose pm v s now_ns")
  obtain v2 rest where run: "validator_run pm v1 calls = (v2, rest)" by (cases "validator_run pm v1 calls")
  have f: "vd_config v1 = vd_config v" "\<And>k. vd_sequence v = Some k \<Longrightarrow> \<exists>k' \<ge> k. vd_sequence v1 = Some k'"
    using validate_pose_fields[of pm v s now_ns] step by simp_all
  have IH: "sorted_wrt (\<lambda>a b. as_sequence a < as_sequence b) rest"
    "\<And>k x. vd_sequence v1 = Some k \<Longrightarrow> x \<in> set rest \<Longrightarrow> k < as_sequence x"
    using Cons.IH[OF _ run] Cons.prems(1) f(1) by auto
  have below: "k < as_sequence x" if "vd_sequence v = Some k" "x \<in> set rest" for k x
    using f(2)[OF that(1)] IH(2) that(2) by fastforce
  show ?case
  proof (cases "accepting r")
    case True
    obtain x where x: "s = Some x" using True step accepting_no_sample[of pm v now_ns] by (cases s) auto
    have sq: "newer (vd_sequence v) (as_sequence x)" "vd_sequence v1 = Some (as_sequence x)"
      using validate_pose_sequence[OF Cons.prems(1), of pm x now_ns] True step x by simp_all
    have "passed = x # rest" using Cons.prems(2) call step run True x by simp
    then show ?thesis using IH sq below by (auto simp: newer_def)
  next
    case False
    then have "passed = rest" using Cons.prems(2) call step run by simp
    then show ?thesis using IH(1) below by auto
  qed
qed simp

text \<open>C15. The validator lets a sample through exactly when it is admissible: from the expected frame, newer than every
  sequence number seen, not from the future and younger than the hold age, with valid tracking on an
  unbroken connection, and within the jump and speed limits of the previous sample. In any stream of
  calls the samples let through have strictly increasing sequence numbers.\<close>

theorem validator_accepts_exactly:
  assumes "mk_validation_config raw = Inr c" and "validator_run pm (new_validator c) calls = (v, passed)"
  shows "(accepting (snd (validate_pose pm v (Some s) now_ns)) \<longleftrightarrow> admissible pm v s now_ns)
    \<and> sorted_wrt (\<lambda>a b. as_sequence a < as_sequence b) passed"
proof -
  have c: "mk_validation_config (vd_config (new_validator c)) = Inr c"
    using assms(1) config_thresholds[OF assms(1)] by (simp add: new_validator_def)
  have "vd_config (fst (validator_run pm w calls)) = vd_config w" for w
  proof (induction calls arbitrary: w)
    case (Cons call calls)
    then show ?case
      using validate_pose_fields[of pm w "fst call" "snd call"]
      by (cases call) (simp add: Let_def split_beta)
  qed simp
  from this[of "new_validator c"] c have "mk_validation_config (vd_config v) = Inr c" using assms(2) by simp
  then show ?thesis using validate_pose_exact validator_run_sorted[OF c assms(2)] by blast
qed

definition demo_validation_config :: validation_config where
  "demo_validation_config = \<lparr>vc_expected_frame_id = ''world'', vc_warning_age_ns = 40000000,
     vc_hold_age_ns = 100000000, vc_controlled_stop_age_ns = 500000000, vc_fatal_age_ns = 2000000000,
     vc_maximum_translation_jump_m = Fin (1 / 4), vc_maximum_rotation_jump_rad = Fin (1 / 2),
     vc_maximum_linear_speed_m_s = Fin 3, vc_maximum_angular_speed_rad_s = Fin 12\<rparr>"

definition demo_metric :: pose_metric where
  "demo_metric = \<lparr>pm_translation = (\<lambda>a b. Fin 0), pm_rotation = (\<lambda>a b. Fin 0)\<rparr>"

definition demo_validator_sample :: "int \<Rightarrow> arm_pose_sample" where
  "demo_validator_sample n = \<lparr>as_source_id = ''quest'', as_sequence = n, as_frame_id = ''world'',
     as_pose = \<lparr>p3_position_m = [Fin 0, Fin 0, Fin 0], p3_quaternion_xyzw = [Fin 0, Fin 0, Fin 0, Fin 1]\<rparr>,
     as_timestamps = \<lparr>ts_local_receive_ns = 1000, ts_source_capture_ns = None, ts_processing_ns = None,
       ts_dispatch_ns = None, ts_robot_command_ns = None, ts_robot_state_observation_ns = None\<rparr>,
     as_tracking_valid = True, as_tracking_quality = None, as_tracking_state = TrackUnknown,
     as_validity_reason = [], as_sample_age_ns = 0, as_connection_epoch = 0, as_discontinuity = DiscNone,
     as_source_sequence = None\<rparr>"

theorem validator_accepts_exactly_witness:
  "accepting (snd (validate_pose demo_metric (new_validator demo_validation_config)
      (Some (demo_validator_sample 1)) 2000))
   \<and> \<not> accepting (snd (validate_pose demo_metric (new_validator demo_validation_config)
      (Some (demo_validator_sample 1)) 200000000))"
proof -
  have c: "mk_validation_config demo_validation_config = Inr demo_validation_config"
    by (simp add: mk_validation_config_def demo_validation_config_def fmin_def)
  have r: "validator_run demo_metric (new_validator demo_validation_config) [] = (new_validator demo_validation_config, [])"
    by simp
  have "admissible demo_metric (new_validator demo_validation_config) (demo_validator_sample 1) 2000"
    "\<not> admissible demo_metric (new_validator demo_validation_config) (demo_validator_sample 1) 200000000"
    by (simp_all add: admissible_def newer_def continuity_admissible_def new_validator_def demo_validation_config_def
        demo_validator_sample_def sample_age_def)
  with validator_accepts_exactly[OF c r] show ?thesis by blast
qed

end
