(* ===== verification/JakaAdapter.thy ===== *)
theory JakaAdapter
  imports Wire
begin

text \<open>
  From an accepted arm target to the datagram the native worker receives: the contract of
  \<open>src/teleoperation/accepted_target.py\<close>, the adapter of \<open>jaka/quest_adapter.py\<close> and the runtime
  \<open>runtime/arm_only.py\<close> over the publisher of the wire protocol. Every \<open>time.monotonic_ns()\<close> is the
  \<open>now_ns\<close> argument of its operation.
\<close>

section \<open>Accepted targets\<close>

record accepted_tcp_pose =
  at_position_m :: "pyfloat list"
  at_orientation_xyzw :: "pyfloat list"

datatype accepted_error =
    TcpPosition | TcpOrientation | TcpNotUnit | DiagnosticReasons | DiagnosticValues | FractionRange
  | NegativeBacktracks | AcceptedSequence | AcceptedSource | AcceptedTimestamps | AcceptedGeneration
  | AcceptedJoints | HeartbeatReason

definition tcp_norm_tolerance :: pyfloat where
  "tcp_norm_tolerance = round64 (1 / 1000000)"

definition mk_accepted_tcp_pose ::
  "(pyfloat list \<Rightarrow> pyfloat) \<Rightarrow> accepted_tcp_pose \<Rightarrow> (accepted_error, accepted_tcp_pose) res" where
  "mk_accepted_tcp_pose pnorm p =
     (if length (at_position_m p) \<noteq> 3 \<or> \<not> list_all is_finite (at_position_m p) then Inl TcpPosition
      else if length (at_orientation_xyzw p) \<noteq> 4 \<or> \<not> list_all is_finite (at_orientation_xyzw p)
      then Inl TcpOrientation
      else if flt tcp_norm_tolerance (fabs (fsub (pnorm (at_orientation_xyzw p)) (Fin 1))) then Inl TcpNotUnit
      else Inr p)"

record accepted_diagnostics =
  ad_final_reason :: string
  ad_attempted_reasons :: "string list"
  ad_continuation_fraction :: pyfloat
  ad_continuation_backtracks :: int
  ad_ik_position_error_m :: pyfloat
  ad_ik_orientation_error_rad :: pyfloat
  ad_jacobian_condition :: pyfloat
  ad_minimum_singular_value :: pyfloat
  ad_nearest_limit_margin_rad :: pyfloat

definition mk_accepted_diagnostics :: "accepted_diagnostics \<Rightarrow> (accepted_error, accepted_diagnostics) res" where
  "mk_accepted_diagnostics d =
     (let numeric = [ad_continuation_fraction d, ad_ik_position_error_m d, ad_ik_orientation_error_rad d,
                     ad_jacobian_condition d, ad_minimum_singular_value d, ad_nearest_limit_margin_rad d] in
      if ad_final_reason d = [] \<or> ad_attempted_reasons d = [] then Inl DiagnosticReasons
      else if \<not> list_all is_finite numeric then Inl DiagnosticValues
      else if \<not> (flt (Fin 0) (ad_continuation_fraction d) \<and> fle (ad_continuation_fraction d) (Fin 1))
      then Inl FractionRange
      else if ad_continuation_backtracks d < 0 then Inl NegativeBacktracks
      else Inr d)"

record accepted_arm_target =
  aa_sequence_number :: int
  aa_input_sequence_number :: int
  aa_source_sequence_number :: "int option"
  aa_source_timestamp_ns :: "int option"
  aa_input_receive_ns :: int
  aa_generated_ns :: int
  aa_reference_generation :: int
  aa_clutch_generation :: int
  aa_desired_tcp :: accepted_tcp_pose
  aa_filtered_tcp :: accepted_tcp_pose
  aa_joint_position_rad :: "pyfloat list"
  aa_diagnostics :: accepted_diagnostics

definition mk_accepted_arm_target :: "accepted_arm_target \<Rightarrow> (accepted_error, accepted_arm_target) res" where
  "mk_accepted_arm_target t =
     (if aa_sequence_number t < 0 \<or> aa_input_sequence_number t < 0 then Inl AcceptedSequence
      else if (case aa_source_sequence_number t of None \<Rightarrow> False | Some n \<Rightarrow> n < 0) then Inl AcceptedSource
      else if (case aa_source_timestamp_ns t of None \<Rightarrow> False | Some n \<Rightarrow> n < 0) then Inl AcceptedSource
      else if \<not> (0 \<le> aa_input_receive_ns t \<and> aa_input_receive_ns t \<le> aa_generated_ns t)
      then Inl AcceptedTimestamps
      else if aa_reference_generation t < 1 \<or> aa_clutch_generation t < 1 then Inl AcceptedGeneration
      else if length (aa_joint_position_rad t) \<noteq> 6 \<or> \<not> list_all is_finite (aa_joint_position_rad t)
      then Inl AcceptedJoints
      else Inr t)"

datatype arm_control_state = CtlActive | CtlHoldRejected | CtlDisengaged | CtlHardStop

record arm_heartbeat =
  hb_input_sequence_number :: int
  hb_input_receive_ns :: int
  hb_generated_ns :: int
  hb_reference_generation :: int
  hb_clutch_generation :: int
  hb_state :: arm_control_state
  hb_reason :: string
  hb_last_accepted_sequence :: int

definition mk_arm_heartbeat :: "arm_heartbeat \<Rightarrow> (accepted_error, arm_heartbeat) res" where
  "mk_arm_heartbeat h =
     (if hb_input_sequence_number h < 0 \<or> hb_last_accepted_sequence h < 0 then Inl AcceptedSequence
      else if \<not> (0 < hb_input_receive_ns h \<and> hb_input_receive_ns h \<le> hb_generated_ns h)
      then Inl AcceptedTimestamps
      else if hb_reference_generation h < 1 \<or> hb_clutch_generation h < 1 then Inl AcceptedGeneration
      else if hb_reason h = [] then Inl HeartbeatReason
      else Inr h)"

section \<open>The runtime\<close>

text \<open>\<open>ArmOnlyRuntime\<close> is its publisher; the status receiver is \<open>latest_status\<close>.\<close>

type_synonym sender = "8 word list \<Rightarrow> send_outcome"

definition dispatch_packet :: "sender \<Rightarrow> publisher \<Rightarrow> target_packet \<Rightarrow> publisher \<times> (publish_error, bool) res" where
  "dispatch_packet sendto b packet = publish sendto b packet"

definition dispatch_stop :: "sender \<Rightarrow> publisher \<Rightarrow> int \<Rightarrow> int \<Rightarrow> publisher \<times> (publish_error, bool) res" where
  "dispatch_stop sendto b sequence now_ns =
     (case stop_target_packet sequence now_ns of
        Inl e \<Rightarrow> (b, Inl (PublishWire e))
      | Inr packet \<Rightarrow> publish sendto b packet)"

definition stamped_target :: "pose_target \<Rightarrow> int \<Rightarrow> (contract_error, pose_target) res" where
  "stamped_target target now_ns =
     rbind (with_stage (pt_timestamps target) [(''dispatch_ns'', Some now_ns)]) (\<lambda>ts.
       mk_pose_target (target\<lparr>pt_timestamps := ts\<rparr>))"

definition runtime_dispatch ::
  "sender \<Rightarrow> publisher \<Rightarrow> pose_target \<Rightarrow> bool \<Rightarrow> int \<Rightarrow> publisher \<times> (publish_error, bool) res" where
  "runtime_dispatch sendto b target allow_motion now_ns =
     (case stamped_target target now_ns of
        Inl e \<Rightarrow> (b, Inl (PublishWire (WireContract e)))
      | Inr stamped \<Rightarrow>
          (case pose_target_packet stamped allow_motion of
             Inl e \<Rightarrow> (b, Inl (PublishWire e))
           | Inr packet \<Rightarrow> publish sendto b packet))"

section \<open>The adapter\<close>

record jaka_adapter =
  ja_allow_motion :: bool
  ja_applied_count :: nat
  ja_last_sequence :: int
  ja_stopped :: bool
  ja_publisher :: publisher

datatype adapter_error = JointOrder | AngleUnit | CommandMode

definition jaka_joint_order :: "string list" where
  "jaka_joint_order = [''jaka_joint_1'', ''jaka_joint_2'', ''jaka_joint_3'', ''jaka_joint_4'', ''jaka_joint_5'',
     ''jaka_joint_6'']"

definition mk_jaka_adapter ::
  "publisher \<Rightarrow> bool \<Rightarrow> string list \<Rightarrow> string \<Rightarrow> string \<Rightarrow> (adapter_error, jaka_adapter) res" where
  "mk_jaka_adapter b allow_motion joint_order joint_angle_unit command_mode =
     (if joint_order \<noteq> jaka_joint_order then Inl JointOrder
      else if joint_angle_unit \<noteq> ''rad'' then Inl AngleUnit
      else if command_mode \<noteq> ''edg_servo_j_absolute'' then Inl CommandMode
      else Inr \<lparr>ja_allow_motion = allow_motion, ja_applied_count = 0, ja_last_sequence = 0, ja_stopped = False,
                ja_publisher = b\<rparr>)"

text \<open>\<open>self.last_sequence += 1\<close>.\<close>

definition next_sequence :: "jaka_adapter \<Rightarrow> jaka_adapter" where
  "next_sequence a = a\<lparr>ja_last_sequence := ja_last_sequence a + 1\<rparr>"

text \<open>Dispatching a packet that may not be constructible; \<open>counts\<close> says whether a sent packet is an applied target.\<close>

definition transmit ::
  "sender \<Rightarrow> bool \<Rightarrow> jaka_adapter \<Rightarrow> (wire_error, target_packet) res \<Rightarrow> jaka_adapter \<times> (publish_error, bool) res" where
  "transmit sendto counts a packet_res =
     (case packet_res of
        Inl e \<Rightarrow> (a, Inl (PublishWire e))
      | Inr packet \<Rightarrow>
          (let (b, r) = dispatch_packet sendto (ja_publisher a) packet; a1 = a\<lparr>ja_publisher := b\<rparr> in
           (if counts \<and> r = Inr True then a1\<lparr>ja_applied_count := ja_applied_count a1 + 1\<rparr> else a1, r)))"

text \<open>The packets of the operations, built after the sequence number has been advanced.\<close>

definition apply_packet :: "jaka_adapter \<Rightarrow> accepted_arm_target \<Rightarrow> int \<Rightarrow> (wire_error, target_packet) res" where
  "apply_packet a target now_ns =
     joint_position_target_packet (ja_last_sequence a) (aa_joint_position_rad target) (aa_input_receive_ns target)
       (aa_generated_ns target) (max now_ns (aa_generated_ns target)) 0 (ja_allow_motion a)"

definition joint_packet ::
  "jaka_adapter \<Rightarrow> pyfloat list \<Rightarrow> int \<Rightarrow> int option \<Rightarrow> int option \<Rightarrow> int \<Rightarrow> (wire_error, target_packet) res" where
  "joint_packet a joints source_capture_ns local_receive_ns processing_ns now_ns =
     (let receive_ns = (case local_receive_ns of None \<Rightarrow> now_ns | Some n \<Rightarrow> n);
          process_ns = (case processing_ns of None \<Rightarrow> receive_ns | Some n \<Rightarrow> n);
          dispatch_ns = max now_ns process_ns in
      joint_position_target_packet (ja_last_sequence a) joints receive_ns process_ns dispatch_ns
        source_capture_ns (ja_allow_motion a))"

definition heartbeat_packet :: "jaka_adapter \<Rightarrow> arm_heartbeat \<Rightarrow> int \<Rightarrow> (wire_error, target_packet) res" where
  "heartbeat_packet a hb now_ns =
     heartbeat_target_packet (ja_last_sequence a) (hb_input_sequence_number hb) (hb_input_receive_ns hb)
       (hb_generated_ns hb) (max now_ns (hb_generated_ns hb)) (hb_last_accepted_sequence hb) 1 (ja_allow_motion a)"

definition adapter_apply ::
  "sender \<Rightarrow> jaka_adapter \<Rightarrow> accepted_arm_target \<Rightarrow> int \<Rightarrow> jaka_adapter \<times> (publish_error, bool) res" where
  "adapter_apply sendto a target now_ns =
     (if ja_stopped a then (a, Inr False)
      else let a1 = next_sequence a in transmit sendto True a1 (apply_packet a1 target now_ns))"

definition adapter_apply_joints ::
  "sender \<Rightarrow> jaka_adapter \<Rightarrow> pyfloat list \<Rightarrow> int \<Rightarrow> int option \<Rightarrow> int option \<Rightarrow> int \<Rightarrow>
    jaka_adapter \<times> (publish_error, bool) res" where
  "adapter_apply_joints sendto a joints source_capture_ns local_receive_ns processing_ns now_ns =
     (if ja_stopped a then (a, Inr False)
      else let a1 = next_sequence a in
        transmit sendto True a1 (joint_packet a1 joints source_capture_ns local_receive_ns processing_ns now_ns))"

definition adapter_heartbeat ::
  "sender \<Rightarrow> jaka_adapter \<Rightarrow> arm_heartbeat \<Rightarrow> int \<Rightarrow> jaka_adapter \<times> (publish_error, bool) res" where
  "adapter_heartbeat sendto a hb now_ns =
     (if ja_stopped a then (a, Inr False)
      else let a1 = next_sequence a in transmit sendto False a1 (heartbeat_packet a1 hb now_ns))"

definition adapter_stop :: "sender \<Rightarrow> jaka_adapter \<Rightarrow> int \<Rightarrow> jaka_adapter \<times> (publish_error, bool) res" where
  "adapter_stop sendto a now_ns =
     (let a1 = next_sequence (a\<lparr>ja_stopped := True\<rparr>);
          (b, r) = dispatch_stop sendto (ja_publisher a1) (ja_last_sequence a1) now_ns in
      (a1\<lparr>ja_publisher := b\<rparr>, r))"

definition adapter_pause :: "sender \<Rightarrow> jaka_adapter \<Rightarrow> int \<Rightarrow> jaka_adapter \<times> (publish_error, bool) res" where
  "adapter_pause sendto a now_ns =
     (if ja_stopped a then (a, Inr False)
      else let a1 = next_sequence a in
        transmit sendto False a1 (hold_current_target_packet (ja_last_sequence a1) now_ns))"

section \<open>Runs\<close>

datatype adapter_call =
    CallApply accepted_arm_target int
  | CallJoints "pyfloat list" int "int option" "int option" int
  | CallHeartbeat arm_heartbeat int
  | CallStop int
  | CallPause int

fun adapter_step :: "sender \<Rightarrow> jaka_adapter \<Rightarrow> adapter_call \<Rightarrow> jaka_adapter \<times> (publish_error, bool) res" where
  "adapter_step sendto a (CallApply target now_ns) = adapter_apply sendto a target now_ns"
| "adapter_step sendto a (CallJoints joints src rcv proc now_ns) = adapter_apply_joints sendto a joints src rcv proc now_ns"
| "adapter_step sendto a (CallHeartbeat hb now_ns) = adapter_heartbeat sendto a hb now_ns"
| "adapter_step sendto a (CallStop now_ns) = adapter_stop sendto a now_ns"
| "adapter_step sendto a (CallPause now_ns) = adapter_pause sendto a now_ns"

text \<open>The packet a call hands to the transport.\<close>

fun built_packet :: "jaka_adapter \<Rightarrow> adapter_call \<Rightarrow> (wire_error, target_packet) res" where
  "built_packet a (CallApply target now_ns) = apply_packet a target now_ns"
| "built_packet a (CallJoints joints src rcv proc now_ns) = joint_packet a joints src rcv proc now_ns"
| "built_packet a (CallHeartbeat hb now_ns) = heartbeat_packet a hb now_ns"
| "built_packet a (CallStop now_ns) = stop_target_packet (ja_last_sequence a) now_ns"
| "built_packet a (CallPause now_ns) = hold_current_target_packet (ja_last_sequence a) now_ns"

fun is_stop_call :: "adapter_call \<Rightarrow> bool" where
  "is_stop_call (CallStop _) \<longleftrightarrow> True"
| "is_stop_call _ \<longleftrightarrow> False"

fun is_target_call :: "adapter_call \<Rightarrow> bool" where
  "is_target_call (CallApply _ _) \<longleftrightarrow> True"
| "is_target_call (CallJoints _ _ _ _ _) \<longleftrightarrow> True"
| "is_target_call _ \<longleftrightarrow> False"

text \<open>A run, with a log of the packets the socket took.\<close>

fun adapter_run ::
  "jaka_adapter \<Rightarrow> (sender \<times> adapter_call) list \<Rightarrow> jaka_adapter \<times> (adapter_call \<times> target_packet) list" where
  "adapter_run a [] = (a, [])"
| "adapter_run a ((sendto, call) # calls) =
     (let (a1, r) = adapter_step sendto a call; (a2, sent) = adapter_run a1 calls in
      (a2, (if r = Inr True then (case built_packet (next_sequence a) call of Inr p \<Rightarrow> (call, p) # sent | Inl _ \<Rightarrow> sent)
            else sent)))"

lemma publish_True:
  "publish sendto b p = (b', Inr True) \<longleftrightarrow>
     (\<exists>data. encode_target p = Inr data \<and> sendto data = SendTaken) \<and> b' = b\<lparr>pb_sent := pb_sent b + 1\<rparr>"
  by (auto simp: publish_def split: sum.split send_outcome.split)

lemma publish_not_True: "publish sendto b p = (b', r) \<Longrightarrow> r \<noteq> Inr True \<Longrightarrow> pb_sent b' = pb_sent b"
  by (auto simp: publish_def split: sum.split_asm send_outcome.split_asm)

text \<open>What a call does to the adapter, whatever call it is.\<close>

definition adapter_effect :: "jaka_adapter \<Rightarrow> adapter_call \<Rightarrow> jaka_adapter \<Rightarrow> (publish_error, bool) res \<Rightarrow> bool" where
  "adapter_effect a call a' r \<longleftrightarrow>
     ja_allow_motion a' = ja_allow_motion a \<and> (ja_stopped a' \<longleftrightarrow> ja_stopped a \<or> is_stop_call call)
     \<and> ja_last_sequence a \<le> ja_last_sequence a'
     \<and> (if r = Inr True
        then (\<exists>p data. built_packet (next_sequence a) call = Inr p \<and> encode_target p = Inr data)
             \<and> (ja_stopped a \<longrightarrow> is_stop_call call)
             \<and> ja_last_sequence a' = ja_last_sequence a + 1
             \<and> pb_sent (ja_publisher a') = pb_sent (ja_publisher a) + 1
             \<and> ja_applied_count a' = ja_applied_count a + (if is_target_call call then 1 else 0)
        else pb_sent (ja_publisher a') = pb_sent (ja_publisher a) \<and> ja_applied_count a' = ja_applied_count a)"

lemma transmit_effect:
  assumes "transmit sendto (is_target_call call) (next_sequence a) (built_packet (next_sequence a) call) = (a', r)"
    and "\<not> ja_stopped a" and "\<not> is_stop_call call"
  shows "adapter_effect a call a' r"
proof (cases "built_packet (next_sequence a) call")
  case (Inl e)
  with assms show ?thesis by (auto simp: transmit_def adapter_effect_def next_sequence_def)
next
  case (Inr p)
  obtain b r' where b: "publish sendto (ja_publisher (next_sequence a)) p = (b, r')"
    by (cases "publish sendto (ja_publisher (next_sequence a)) p")
  have r: "r' = r" using assms(1) Inr b by (auto simp: transmit_def dispatch_packet_def Let_def)
  show ?thesis
  proof (cases "r = Inr True")
    case True
    then show ?thesis
      using assms Inr b r publish_True[of sendto "ja_publisher (next_sequence a)" p b]
      by (auto simp: transmit_def dispatch_packet_def Let_def adapter_effect_def next_sequence_def)
  next
    case False
    then show ?thesis
      using assms Inr b r publish_not_True[of sendto "ja_publisher (next_sequence a)" p b r]
      by (auto simp: transmit_def dispatch_packet_def Let_def adapter_effect_def next_sequence_def)
  qed
qed

lemma stop_effect:
  assumes "adapter_stop sendto a now_ns = (a', r)"
  shows "adapter_effect a (CallStop now_ns) a' r"
proof (cases "stop_target_packet (ja_last_sequence a + 1) now_ns")
  case (Inl e)
  with assms show ?thesis
    by (auto simp: adapter_stop_def dispatch_stop_def Let_def adapter_effect_def next_sequence_def)
next
  case (Inr p)
  obtain b r' where b: "publish sendto (ja_publisher a) p = (b, r')" by (cases "publish sendto (ja_publisher a) p")
  show ?thesis
    using assms Inr b publish_True[of sendto "ja_publisher a" p b] publish_not_True[of sendto "ja_publisher a" p b r']
    by (cases "r' = Inr True")
      (auto simp: adapter_stop_def dispatch_stop_def Let_def adapter_effect_def next_sequence_def)
qed

lemma adapter_step_effect:
  assumes "adapter_step sendto a call = (a', r)"
  shows "adapter_effect a call a' r"
proof (cases "ja_stopped a \<and> \<not> is_stop_call call")
  case True
  then have "a' = a \<and> r = Inr False"
    using assms by (cases call)
      (auto simp: adapter_apply_def adapter_apply_joints_def adapter_heartbeat_def adapter_pause_def)
  with True show ?thesis by (auto simp: adapter_effect_def)
next
  case False
  show ?thesis
  proof (cases call)
    case (CallStop now_ns)
    with assms stop_effect show ?thesis by simp
  qed (use False assms in \<open>auto intro!: transmit_effect
        simp: adapter_apply_def adapter_apply_joints_def adapter_heartbeat_def adapter_pause_def Let_def\<close>)
qed

text \<open>What a packet built for a call looks like.\<close>

fun packet_shape :: "bool \<Rightarrow> adapter_call \<Rightarrow> target_packet \<Rightarrow> bool" where
  "packet_shape allow (CallApply target _) p \<longleftrightarrow> tp_kind p = KindJointPosition \<and> tp_flags p = motion_flags allow
     \<and> tp_payload p = aa_joint_position_rad target @ [Fin 0, Fin 0]
     \<and> tp_local_receive_ns p = aa_input_receive_ns target \<and> tp_processing_ns p = aa_generated_ns target"
| "packet_shape allow (CallJoints joints _ _ _ _) p \<longleftrightarrow> tp_kind p = KindJointPosition \<and> tp_flags p = motion_flags allow
     \<and> tp_payload p = joints @ [Fin 0, Fin 0]"
| "packet_shape allow (CallHeartbeat _ _) p \<longleftrightarrow> tp_kind p = KindHeartbeat \<and> tp_flags p = motion_flags allow"
| "packet_shape allow (CallStop _) p \<longleftrightarrow> tp_kind p = KindStop \<and> tp_flags p = 0"
| "packet_shape allow (CallPause _) p \<longleftrightarrow> tp_kind p = KindHoldCurrent \<and> tp_flags p = 0"

lemma joint_position_packet_Inr:
  assumes "joint_position_target_packet n js a b c d m = Inr p"
  shows "tp_sequence p = n \<and> tp_kind p = KindJointPosition \<and> tp_flags p = motion_flags m
    \<and> tp_payload p = js @ [Fin 0, Fin 0] \<and> tp_local_receive_ns p = a \<and> tp_processing_ns p = b"
  using assms by (auto simp: joint_position_target_packet_def split: if_split_asm)

lemma built_packet_shape:
  assumes "built_packet a call = Inr p"
  shows "packet_shape (ja_allow_motion a) call p \<and> tp_sequence p = ja_last_sequence a"
proof (cases call)
  case (CallApply target now_ns)
  with assms joint_position_packet_Inr show ?thesis by (fastforce simp: apply_packet_def)
next
  case (CallJoints js src rcv proc now_ns)
  with assms joint_position_packet_Inr show ?thesis by (fastforce simp: joint_packet_def Let_def)
next
  case (CallHeartbeat hb now_ns)
  with assms show ?thesis
    by (auto simp: heartbeat_packet_def heartbeat_target_packet_def split: if_split_asm)
next
  case (CallStop now_ns)
  with assms show ?thesis by (auto simp: stop_target_packet_def stationary_packet_def split: if_split_asm)
next
  case (CallPause now_ns)
  with assms show ?thesis by (auto simp: hold_current_target_packet_def stationary_packet_def split: if_split_asm)
qed

text \<open>The invariant of a run, and its sent relative to the adapter it starts from.\<close>

definition log_ok :: "jaka_adapter \<Rightarrow> (adapter_call \<times> target_packet) list \<Rightarrow> jaka_adapter \<Rightarrow> bool" where
  "log_ok a sent a' \<longleftrightarrow>
     sorted_wrt (\<lambda>x y. tp_sequence (snd x) < tp_sequence (snd y)) sent
     \<and> (\<forall>(c, p) \<in> set sent. ja_last_sequence a < tp_sequence p \<and> tp_sequence p \<le> ja_last_sequence a'
          \<and> packet_shape (ja_allow_motion a) c p \<and> (\<exists>data. encode_target p = Inr data)
          \<and> (ja_stopped a \<longrightarrow> is_stop_call c))
     \<and> (\<forall>old c p new. sent = old @ (c, p) # new \<and> is_stop_call c \<longrightarrow> (\<forall>(c', p') \<in> set new. is_stop_call c'))
     \<and> pb_sent (ja_publisher a') = pb_sent (ja_publisher a) + length sent
     \<and> ja_applied_count a' = ja_applied_count a + length (filter (is_target_call \<circ> fst) sent)
     \<and> ja_last_sequence a \<le> ja_last_sequence a'"

lemma adapter_run_ok:
  "adapter_run a calls = (a', sent) \<Longrightarrow> log_ok a sent a'"
proof (induction calls arbitrary: a a' sent)
  case Nil
  then show ?case by (auto simp: log_ok_def)
next
  case (Cons x calls)
  obtain sendto call where x: "x = (sendto, call)" by (cases x)
  obtain a1 r where step: "adapter_step sendto a call = (a1, r)" by (cases "adapter_step sendto a call")
  obtain a2 rest where run: "adapter_run a1 calls = (a2, rest)" by (cases "adapter_run a1 calls")
  have eff: "adapter_effect a call a1 r" using step by (rule adapter_step_effect)
  have IH: "log_ok a1 rest a2" using run by (rule Cons.IH)
  show ?case
  proof (cases "r = Inr True")
    case False
    then have "sent = rest" "a' = a2" using Cons.prems x step run by simp_all
    with False eff IH show ?thesis by (fastforce simp: log_ok_def adapter_effect_def)
  next
    case True
    then obtain p data where p: "built_packet (next_sequence a) call = Inr p" "encode_target p = Inr data"
      using eff by (auto simp: adapter_effect_def)
    have sh: "packet_shape (ja_allow_motion a) call p" "tp_sequence p = ja_last_sequence a + 1"
      using built_packet_shape[OF p(1)] by (simp_all add: next_sequence_def)
    have sent: "sent = (call, p) # rest" "a' = a2" using Cons.prems x step run True p by simp_all
    have e: "ja_last_sequence a1 = ja_last_sequence a + 1" "ja_allow_motion a1 = ja_allow_motion a"
      "ja_stopped a1 \<longleftrightarrow> ja_stopped a \<or> is_stop_call call" "ja_stopped a \<longrightarrow> is_stop_call call"
      "pb_sent (ja_publisher a1) = pb_sent (ja_publisher a) + 1"
      "ja_applied_count a1 = ja_applied_count a + (if is_target_call call then 1 else 0)"
      using eff True by (simp_all add: adapter_effect_def)
    have rest: "sorted_wrt (\<lambda>x y. tp_sequence (snd x) < tp_sequence (snd y)) rest"
      "\<And>c q. (c, q) \<in> set rest \<Longrightarrow> ja_last_sequence a + 1 < tp_sequence q \<and> tp_sequence q \<le> ja_last_sequence a2
         \<and> packet_shape (ja_allow_motion a) c q \<and> (\<exists>data. encode_target q = Inr data)
         \<and> (ja_stopped a \<or> is_stop_call call \<longrightarrow> is_stop_call c)"
      "ja_last_sequence a + 1 \<le> ja_last_sequence a2"
      using IH e by (fastforce simp: log_ok_def)+
    have stops: "\<forall>(c', p') \<in> set new. is_stop_call c'"
      if "(call, p) # rest = old @ (c, q) # new" "is_stop_call c" for old c q new
    proof (cases old)
      case Nil
      with that rest(2) show ?thesis by fastforce
    next
      case (Cons y ys)
      then have "rest = ys @ (c, q) # new" using that(1) by simp
      with IH that(2) show ?thesis unfolding log_ok_def by blast
    qed
    have counts: "pb_sent (ja_publisher a2) = pb_sent (ja_publisher a1) + length rest"
      "ja_applied_count a2 = ja_applied_count a1 + length (filter (is_target_call \<circ> fst) rest)"
      using IH by (simp_all add: log_ok_def)
    have "\<forall>(c, q) \<in> set ((call, p) # rest). ja_last_sequence a < tp_sequence q \<and> tp_sequence q \<le> ja_last_sequence a2
          \<and> packet_shape (ja_allow_motion a) c q \<and> (\<exists>data. encode_target q = Inr data)
          \<and> (ja_stopped a \<longrightarrow> is_stop_call c)"
      using rest(2,3) sh p(2) e(4) by fastforce
    moreover have "sorted_wrt (\<lambda>x y. tp_sequence (snd x) < tp_sequence (snd y)) ((call, p) # rest)"
      using rest sh(2) by fastforce
    ultimately show ?thesis
      unfolding log_ok_def sent using stops counts e rest(3) by (auto simp del: sorted_wrt.simps)
  qed
qed

text \<open>Whatever calls an adapter serves, over a socket that may drop any datagram: the packets that reach the
  worker have strictly increasing sequence numbers; the packet of an accepted target carries its six
  joint angles and its timestamps unchanged, as a joint position, with the motion flag only if the
  adapter may move; after a stop nothing but stop packets goes out; and the counters equal the packets
  sent and the targets among them.\<close>

theorem adapter_packets_ordered:
  assumes "mk_jaka_adapter new_publisher allow order unit_name mode = Inr a" and "adapter_run a calls = (a', sent)"
  shows "sorted_wrt (\<lambda>x y. tp_sequence (snd x) < tp_sequence (snd y)) sent
    \<and> (\<forall>(c, p) \<in> set sent. packet_shape allow c p \<and> (\<exists>data. encode_target p = Inr data))
    \<and> (\<forall>old c p new. sent = old @ (c, p) # new \<and> is_stop_call c \<longrightarrow> (\<forall>(c', p') \<in> set new. is_stop_call c'))
    \<and> pb_sent (ja_publisher a') = length sent
    \<and> ja_applied_count a' = length (filter (is_target_call \<circ> fst) sent)"
proof -
  have "ja_allow_motion a = allow" "pb_sent (ja_publisher a) = 0" "ja_applied_count a = 0"
    using assms(1) by (auto simp: mk_jaka_adapter_def new_publisher_def split: if_split_asm)
  then show ?thesis using adapter_run_ok[OF assms(2)] by (auto simp: log_ok_def)
qed

definition demo_adapter :: jaka_adapter where
  "demo_adapter = \<lparr>ja_allow_motion = True, ja_applied_count = 0, ja_last_sequence = 0, ja_stopped = False,
     ja_publisher = new_publisher\<rparr>"

theorem adapter_packets_ordered_witness:
  "mk_jaka_adapter new_publisher True jaka_joint_order ''rad'' ''edg_servo_j_absolute'' = Inr demo_adapter
   \<and> pb_sent (ja_publisher (fst (adapter_run demo_adapter [(\<lambda>d. SendTaken, CallPause 5), (\<lambda>d. SendRefused, CallStop 6),
        (\<lambda>d. SendTaken, CallPause 7), (\<lambda>d. SendTaken, CallStop 8)])))
     = length (snd (adapter_run demo_adapter [(\<lambda>d. SendTaken, CallPause 5), (\<lambda>d. SendRefused, CallStop 6),
        (\<lambda>d. SendTaken, CallPause 7), (\<lambda>d. SendTaken, CallStop 8)]))"
proof -
  have a: "mk_jaka_adapter new_publisher True jaka_joint_order ''rad'' ''edg_servo_j_absolute'' = Inr demo_adapter"
    by (simp add: mk_jaka_adapter_def demo_adapter_def)
  from adapter_packets_ordered[OF a surjective_pairing] a show ?thesis by blast
qed

end
