(* ===== verification/Supervision.thy ===== *)
theory Supervision
  imports Contracts
begin

text \<open>
  The safety supervision of the arm: \<open>src/teleoperation/supervision.py\<close> and the zero-motion check of
  \<open>safety.py\<close>. The numpy reductions are written out on lists (\<open>np.max\<close> propagates NaN, comparisons with
  NaN are false); \<open>quaternion_angle\<close> is a parameter.
\<close>

section \<open>Limits\<close>

datatype supervision_error =
    LimitCount | LimitNotFinite | LimitOrder | LimitDynamics | ResetWhileUnsafe | SixValues | ZeroMotionFinite
  | ZeroMotionBound | ZeroMotionDelta | SafetyContract contract_error

record joint_limits =
  jl_lower_rad :: "pyfloat list"
  jl_upper_rad :: "pyfloat list"
  jl_soft_margin_rad :: pyfloat
  jl_maximum_velocity_rad_s :: pyfloat
  jl_maximum_acceleration_rad_s2 :: pyfloat
  jl_maximum_jerk_rad_s3 :: pyfloat

definition mk_joint_limits :: "joint_limits \<Rightarrow> (supervision_error, joint_limits) res" where
  "mk_joint_limits l =
     (if length (jl_lower_rad l) \<noteq> 6 \<or> length (jl_upper_rad l) \<noteq> 6 then Inl LimitCount
      else if \<not> list_all is_finite (jl_lower_rad l @ jl_upper_rad l) then Inl LimitNotFinite
      else if \<not> list_all (\<lambda>(low, high). flt low high) (zip (jl_lower_rad l) (jl_upper_rad l)) then Inl LimitOrder
      else if fle (fmin (fmin (fmin (jl_soft_margin_rad l) (jl_maximum_velocity_rad_s l))
                     (jl_maximum_acceleration_rad_s2 l)) (jl_maximum_jerk_rad_s3 l)) (Fin 0)
      then Inl LimitDynamics
      else Inr l)"

text \<open>\<open>math.radians(5.0)\<close> and the defaults of the first test.\<close>

definition jaka_mini2_first_test :: "pyfloat \<Rightarrow> joint_limits" where
  "jaka_mini2_first_test margin =
     \<lparr>jl_lower_rad = map round64 [- 628 / 100, - 209 / 100, - 227 / 100, - 628 / 100, - 209 / 100, - 628 / 100],
      jl_upper_rad = map round64 [628 / 100, 209 / 100, 227 / 100, 628 / 100, 209 / 100, 628 / 100],
      jl_soft_margin_rad = margin, jl_maximum_velocity_rad_s = round64 (8 / 100),
      jl_maximum_acceleration_rad_s2 = Fin (1 / 4), jl_maximum_jerk_rad_s3 = Fin 1\<rparr>"

record safety_envelope =
  se_startup_tcp_pose :: pose3d
  se_workspace_half_extent_m :: "pyfloat \<times> pyfloat \<times> pyfloat"
  se_maximum_orientation_deviation_rad :: pyfloat
  se_maximum_session_ns :: int

section \<open>The supervisor\<close>

record supervisor =
  su_envelope :: safety_envelope
  su_joint_limits :: joint_limits
  su_started_ns :: "int option"
  su_fault_latched :: bool

definition new_supervisor :: "safety_envelope \<Rightarrow> joint_limits \<Rightarrow> supervisor" where
  "new_supervisor envelope limits =
     \<lparr>su_envelope = envelope, su_joint_limits = limits, su_started_ns = None, su_fault_latched = False\<rparr>"

definition su_start :: "supervisor \<Rightarrow> int \<Rightarrow> supervisor" where
  "su_start s now_ns = s\<lparr>su_started_ns := Some now_ns\<rparr>"

definition su_stop :: "supervisor \<Rightarrow> supervisor" where
  "su_stop s = s\<lparr>su_started_ns := None\<rparr>"

definition su_decision ::
  "supervisor \<Rightarrow> safety_action \<Rightarrow> int \<Rightarrow> string \<Rightarrow> supervisor \<times> (supervision_error, safety_state) res" where
  "su_decision s action now_ns reason =
     (let s1 = (if action = ActAbort then s\<lparr>su_fault_latched := True\<rparr> else s) in
      (s1, case mk_safety_state \<lparr>sf_action = action, sf_monotonic_ns = now_ns, sf_reasons = [reason],
                                 sf_fault_latched = su_fault_latched s1\<rparr> of
             Inl e \<Rightarrow> Inl (SafetyContract e) | Inr r \<Rightarrow> Inr r))"

definition triple_list :: "'a \<times> 'a \<times> 'a \<Rightarrow> 'a list" where
  "triple_list t = (case t of (x, y, z) \<Rightarrow> [x, y, z])"

text \<open>\<open>1e-12\<close> and \<open>1e-9\<close>.\<close>

definition tiny_tolerance :: pyfloat where
  "tiny_tolerance = round64 (1 / 1000000000000)"

definition jerk_tolerance :: pyfloat where
  "jerk_tolerance = round64 (1 / 1000000000)"

text \<open>\<open>np.any(np.abs(a - b) > half + 1e-12)\<close>.\<close>

definition outside_workspace :: "safety_envelope \<Rightarrow> pose3d \<Rightarrow> bool" where
  "outside_workspace e pose =
     (let delta = map2 (\<lambda>a b. fabs (fsub a b)) (p3_position_m pose) (p3_position_m (se_startup_tcp_pose e)) in
      list_ex (\<lambda>(d, h). flt (fadd h tiny_tolerance) d) (zip delta (triple_list (se_workspace_half_extent_m e))))"

definition evaluate_cartesian ::
  "(pyfloat list \<Rightarrow> pyfloat list \<Rightarrow> pyfloat) \<Rightarrow> supervisor \<Rightarrow> pose_target \<Rightarrow> int \<Rightarrow>
    supervisor \<times> (supervision_error, safety_state) res" where
  "evaluate_cartesian quaternion_angle s target now_ns =
     (if su_fault_latched s then su_decision s ActAbort now_ns ''fault_latched''
      else case su_started_ns s of
        None \<Rightarrow> su_decision s ActHold now_ns ''session_not_started''
      | Some started_ns \<Rightarrow>
          if se_maximum_session_ns (su_envelope s) \<le> now_ns - started_ns then
            su_decision s ActControlledStop now_ns ''maximum_session_duration''
          else if outside_workspace (su_envelope s) (pt_pose target) then
            su_decision s ActAbort now_ns ''absolute_workspace_envelope''
          else if flt (fadd (se_maximum_orientation_deviation_rad (su_envelope s)) tiny_tolerance)
                 (quaternion_angle (p3_quaternion_xyzw (pt_pose target))
                    (p3_quaternion_xyzw (se_startup_tcp_pose (su_envelope s)))) then
            su_decision s ActAbort now_ns ''absolute_orientation_envelope''
          else su_decision s ActAllow now_ns ''cartesian_target_safe'')"

text \<open>\<open>np.max\<close> of a nonempty array.\<close>

definition np_max :: "pyfloat list \<Rightarrow> pyfloat" where
  "np_max xs = (if NaN \<in> set xs then NaN else foldl fmax (hd xs) (tl xs))"

definition outside_soft_limits :: "joint_limits \<Rightarrow> pyfloat list \<Rightarrow> bool" where
  "outside_soft_limits l position =
     (let lower = map (\<lambda>v. fadd v (jl_soft_margin_rad l)) (jl_lower_rad l);
          upper = map (\<lambda>v. fsub v (jl_soft_margin_rad l)) (jl_upper_rad l) in
      list_ex (\<lambda>(p, b). flt p b) (zip position lower) \<or> list_ex (\<lambda>(p, b). flt b p) (zip position upper))"

definition target_jerk :: "joint_target \<Rightarrow> joint_target \<Rightarrow> pyfloat \<Rightarrow> pyfloat list" where
  "target_jerk target previous dt_s =
     map2 (\<lambda>a b. fdiv (fsub a b) dt_s) (jt_acceleration_rad_s2 target) (jt_acceleration_rad_s2 previous)"

definition evaluate_joint_target ::
  "supervisor \<Rightarrow> joint_target \<Rightarrow> joint_target option \<Rightarrow> pyfloat option \<Rightarrow> int \<Rightarrow>
    supervisor \<times> (supervision_error, safety_state) res" where
  "evaluate_joint_target s target previous dt_s now_ns =
     (let l = su_joint_limits s in
      if outside_soft_limits l (jt_position_rad target) then su_decision s ActAbort now_ns ''joint_soft_limit''
      else if flt (fadd (jl_maximum_velocity_rad_s l) tiny_tolerance) (np_max (map fabs (jt_velocity_rad_s target)))
      then su_decision s ActAbort now_ns ''joint_velocity_limit''
      else if flt (fadd (jl_maximum_acceleration_rad_s2 l) tiny_tolerance)
                (np_max (map fabs (jt_acceleration_rad_s2 target)))
      then su_decision s ActAbort now_ns ''joint_acceleration_limit''
      else case previous of
        None \<Rightarrow> su_decision s ActAllow now_ns ''joint_target_safe''
      | Some p \<Rightarrow>
          (case dt_s of
             None \<Rightarrow> su_decision s ActAbort now_ns ''invalid_joint_target_dt''
           | Some dt \<Rightarrow>
               if fle dt (Fin 0) then su_decision s ActAbort now_ns ''invalid_joint_target_dt''
               else if flt (fadd (jl_maximum_jerk_rad_s3 l) jerk_tolerance) (np_max (map fabs (target_jerk target p dt)))
               then su_decision s ActAbort now_ns ''joint_jerk_limit''
               else su_decision s ActAllow now_ns ''joint_target_safe''))"

definition su_reset_fault :: "supervisor \<Rightarrow> bool \<Rightarrow> (supervision_error, supervisor) res" where
  "su_reset_fault s safe = (if \<not> safe then Inl ResetWhileUnsafe else Inr (s\<lparr>su_fault_latched := False\<rparr>))"

section \<open>Zero-motion targets\<close>

definition zero_motion_bound :: pyfloat where
  "zero_motion_bound = round64 (1 / 100)"

definition validate_zero_motion_target ::
  "pyfloat list \<Rightarrow> pyfloat list \<Rightarrow> pyfloat \<Rightarrow> (supervision_error, unit) res" where
  "validate_zero_motion_target observed target maximum_delta =
     (if length observed \<noteq> 6 \<or> length target \<noteq> 6 then Inl SixValues
      else if \<not> list_all is_finite (observed @ target @ [maximum_delta]) then Inl ZeroMotionFinite
      else if \<not> (flt (Fin 0) maximum_delta \<and> fle maximum_delta zero_motion_bound) then Inl ZeroMotionBound
      else let deltas = map2 (\<lambda>a b. fabs (fsub a b)) observed target;
               delta = foldl fmax (hd deltas) (tl deltas) in
        if flt maximum_delta delta then Inl ZeroMotionDelta else Inr ())"

section \<open>Runs\<close>

datatype supervisor_call =
    SuStart int | SuStop | SuCartesian pose_target int
  | SuJoint joint_target "joint_target option" "pyfloat option" int | SuReset bool

fun su_step :: "(pyfloat list \<Rightarrow> pyfloat list \<Rightarrow> pyfloat) \<Rightarrow> supervisor \<Rightarrow> supervisor_call \<Rightarrow> supervisor \<times> safety_state option" where
  "su_step qa s (SuStart now_ns) = (su_start s now_ns, None)"
| "su_step qa s SuStop = (su_stop s, None)"
| "su_step qa s (SuCartesian t now_ns) =
     (case evaluate_cartesian qa s t now_ns of (s', Inl _) \<Rightarrow> (s', None) | (s', Inr d) \<Rightarrow> (s', Some d))"
| "su_step qa s (SuJoint t p dt now_ns) =
     (case evaluate_joint_target s t p dt now_ns of (s', Inl _) \<Rightarrow> (s', None) | (s', Inr d) \<Rightarrow> (s', Some d))"
| "su_step qa s (SuReset safe) = (case su_reset_fault s safe of Inl _ \<Rightarrow> (s, None) | Inr s' \<Rightarrow> (s', None))"

text \<open>The verdicts of a run, in order; a safe reset leaves a mark.\<close>

fun su_run ::
  "(pyfloat list \<Rightarrow> pyfloat list \<Rightarrow> pyfloat) \<Rightarrow> supervisor \<Rightarrow> supervisor_call list \<Rightarrow> supervisor" where
  "su_run qa s [] = s"
| "su_run qa s (c # cs) = su_run qa (fst (su_step qa s c)) cs"

section \<open>Latching\<close>

lemma su_decision_fields:
  "su_fault_latched (fst (su_decision s a n r)) \<longleftrightarrow> su_fault_latched s \<or> a = ActAbort"
  "su_joint_limits (fst (su_decision s a n r)) = su_joint_limits s"
  "su_envelope (fst (su_decision s a n r)) = su_envelope s"
  by (auto simp: su_decision_def Let_def)

lemma su_decision_verdict:
  "0 \<le> n \<Longrightarrow> r \<noteq> [] \<Longrightarrow> snd (su_decision s a n r) =
     Inr \<lparr>sf_action = a, sf_monotonic_ns = n, sf_reasons = [r], sf_fault_latched = su_fault_latched s \<or> a = ActAbort\<rparr>"
  by (simp add: su_decision_def Let_def mk_safety_state_def)

text \<open>Every evaluation ends in one decision.\<close>

lemma evaluate_cartesian_decision:
  "\<exists>a r. evaluate_cartesian qa s t n = su_decision s a n r \<and> (su_fault_latched s \<longrightarrow> a = ActAbort)"
  unfolding evaluate_cartesian_def by (cases "su_started_ns s") (simp_all, blast+)

lemma evaluate_joint_decision: "\<exists>a r. evaluate_joint_target s t p dt n = su_decision s a n r"
  unfolding evaluate_joint_target_def Let_def by (cases p; cases dt) (simp_all, blast+)

lemma su_step_fst [simp]:
  "fst (su_step qa s (SuCartesian t n)) = fst (evaluate_cartesian qa s t n)"
  "fst (su_step qa s (SuJoint t' p dt n)) = fst (evaluate_joint_target s t' p dt n)"
  by (simp_all split: prod.split sum.split)

lemma su_step_latched:
  assumes "su_fault_latched s" and "c \<noteq> SuReset True"
  shows "su_fault_latched (fst (su_step qa s c))"
proof (cases c)
  case (SuCartesian t n)
  obtain a r where "evaluate_cartesian qa s t n = su_decision s a n r" using evaluate_cartesian_decision by metis
  with assms(1) SuCartesian show ?thesis by (simp del: su_step.simps add: su_decision_fields)
next
  case (SuJoint t p dt n)
  obtain a r where "evaluate_joint_target s t p dt n = su_decision s a n r" using evaluate_joint_decision by metis
  with assms(1) SuJoint show ?thesis by (simp del: su_step.simps add: su_decision_fields)
next
  case (SuReset safe)
  then show ?thesis using assms by (cases safe) (auto simp: su_reset_fault_def)
qed (use assms in \<open>auto simp: su_start_def su_stop_def\<close>)

lemma su_run_latched:
  "su_fault_latched s \<Longrightarrow> SuReset True \<notin> set cs \<Longrightarrow> su_fault_latched (su_run qa s cs)"
proof (induction cs arbitrary: s)
  case (Cons c cs)
  then have "su_fault_latched (fst (su_step qa s c))" by (intro su_step_latched) auto
  then show ?case using Cons.IH Cons.prems(2) by simp
qed simp

lemma su_run_append: "su_run qa s (cs @ ds) = su_run qa (su_run qa s cs) ds"
  by (induction cs arbitrary: s) simp_all

lemma decision_abort:
  "su_decision s a n r = (s', Inr d) \<Longrightarrow> sf_action d = ActAbort \<Longrightarrow> su_fault_latched s'"
  by (auto simp: su_decision_def Let_def mk_safety_state_def split: if_split_asm sum.split_asm)

lemma abort_latches:
  assumes "su_step qa s c = (s', Some d)" and "sf_action d = ActAbort"
  shows "su_fault_latched s'"
proof (cases c)
  case (SuCartesian t n)
  then have "evaluate_cartesian qa s t n = (s', Inr d)" using assms(1) by (auto split: prod.split_asm sum.split_asm)
  then show ?thesis using evaluate_cartesian_decision[of qa s t n] decision_abort assms(2) by metis
next
  case (SuJoint t p dt n)
  then have "evaluate_joint_target s t p dt n = (s', Inr d)" using assms(1) by (auto split: prod.split_asm sum.split_asm)
  then show ?thesis using evaluate_joint_decision[of s t p dt n] decision_abort assms(2) by metis
qed (use assms in \<open>auto split: sum.split_asm\<close>)

text \<open>The specification of a safe Cartesian target.\<close>

definition cartesian_safe ::
  "(pyfloat list \<Rightarrow> pyfloat list \<Rightarrow> pyfloat) \<Rightarrow> supervisor \<Rightarrow> pose_target \<Rightarrow> int \<Rightarrow> bool" where
  "cartesian_safe qa s target now_ns \<longleftrightarrow>
     (\<exists>t. su_started_ns s = Some t \<and> now_ns - t < se_maximum_session_ns (su_envelope s))
     \<and> \<not> outside_workspace (su_envelope s) (pt_pose target)
     \<and> \<not> flt (fadd (se_maximum_orientation_deviation_rad (su_envelope s)) tiny_tolerance)
          (qa (p3_quaternion_xyzw (pt_pose target)) (p3_quaternion_xyzw (se_startup_tcp_pose (su_envelope s))))"

lemma evaluate_cartesian_allow:
  assumes "0 \<le> now_ns"
  shows "(\<exists>d. snd (evaluate_cartesian qa s target now_ns) = Inr d \<and> sf_action d = ActAllow)
    \<longleftrightarrow> \<not> su_fault_latched s \<and> cartesian_safe qa s target now_ns"
  using assms by (auto simp: evaluate_cartesian_def cartesian_safe_def su_decision_verdict not_le split: option.splits)

text \<open>An abort latches: from the first abort verdict on, whatever is called in between short of a reset confirmed as
  safe, every Cartesian target is aborted; and a Cartesian target is allowed exactly in a started,
  unexpired, unlatched session for a pose inside the workspace and orientation envelope.\<close>

theorem supervisor_abort_latches:
  assumes "su_step qa (su_run qa (new_supervisor envelope limits) before) c = (s, Some d)" and "sf_action d = ActAbort"
    and "SuReset True \<notin> set after" and "0 \<le> now_ns"
  shows "(\<exists>v. snd (evaluate_cartesian qa (su_run qa s after) target now_ns) = Inr v \<and> sf_action v = ActAbort)
    \<and> ((\<exists>v. snd (evaluate_cartesian qa s' target now_ns) = Inr v \<and> sf_action v = ActAllow)
       \<longleftrightarrow> \<not> su_fault_latched s' \<and> cartesian_safe qa s' target now_ns)"
proof -
  have "su_fault_latched (su_run qa s after)"
    using abort_latches[OF assms(1,2)] assms(3) by (rule su_run_latched)
  then have "\<exists>v. snd (evaluate_cartesian qa (su_run qa s after) target now_ns) = Inr v \<and> sf_action v = ActAbort"
    using assms(4) by (simp add: evaluate_cartesian_def su_decision_verdict)
  then show ?thesis using evaluate_cartesian_allow[OF assms(4)] by blast
qed

lemma tolerances_finite: "is_finite tiny_tolerance" "is_finite jerk_tolerance"
  by (auto simp: tiny_tolerance_def jerk_tolerance_def intro!: round64_finite)

lemma tiny_tolerance_nonneg: obtains q where "tiny_tolerance = Fin q" "0 \<le> q"
  using round64_nonneg[of "1 / 1000000000000"] tolerances_finite(1) by (auto simp: tiny_tolerance_def)

definition demo_envelope :: safety_envelope where
  "demo_envelope = \<lparr>se_startup_tcp_pose = \<lparr>p3_position_m = [Fin 0, Fin 0, Fin 0], p3_quaternion_xyzw = [Fin 0, Fin 0, Fin 0, Fin 1]\<rparr>,
     se_workspace_half_extent_m = (NegInf, Fin 1, Fin 1), se_maximum_orientation_deviation_rad = Fin 1,
     se_maximum_session_ns = 10000000000\<rparr>"

definition demo_pose_target :: "pyfloat \<Rightarrow> pose_target" where
  "demo_pose_target x = \<lparr>pt_source_id = ''quest'', pt_sequence = 1, pt_frame_id = ''robot_base'',
     pt_pose = \<lparr>p3_position_m = [x, Fin 0, Fin 0], p3_quaternion_xyzw = [Fin 0, Fin 0, Fin 0, Fin 1]\<rparr>,
     pt_timestamps = \<lparr>ts_local_receive_ns = 1, ts_source_capture_ns = None, ts_processing_ns = None,
       ts_dispatch_ns = None, ts_robot_command_ns = None, ts_robot_state_observation_ns = None\<rparr>,
     pt_linear_velocity_m_s = None, pt_angular_velocity_rad_s = None\<rparr>"

definition demo_limits :: joint_limits where
  "demo_limits = \<lparr>jl_lower_rad = replicate 6 NegInf, jl_upper_rad = replicate 6 PosInf, jl_soft_margin_rad = Fin 1,
     jl_maximum_velocity_rad_s = Fin 1, jl_maximum_acceleration_rad_s2 = Fin 1, jl_maximum_jerk_rad_s3 = Fin 1\<rparr>"

definition demo_supervisor :: supervisor where
  "demo_supervisor = new_supervisor demo_envelope demo_limits"

theorem supervisor_abort_latches_witness:
  "\<exists>s d. su_step (\<lambda>a b. Fin 0) (su_run (\<lambda>a b. Fin 0) demo_supervisor [SuStart 0])
        (SuCartesian (demo_pose_target (Fin 2)) 5) = (s, Some d) \<and> sf_action d = ActAbort
     \<and> (\<exists>v. snd (evaluate_cartesian (\<lambda>a b. Fin 0) (su_run (\<lambda>a b. Fin 0) s [SuStop, SuReset False, SuStart 6])
          (demo_pose_target (Fin 0)) 7) = Inr v \<and> sf_action v = ActAbort)"
proof -
  have "case su_step (\<lambda>a b. Fin 0) (su_run (\<lambda>a b. Fin 0) demo_supervisor [SuStart 0])
        (SuCartesian (demo_pose_target (Fin 2)) 5) of (s, Some d) \<Rightarrow> sf_action d = ActAbort | (s, None) \<Rightarrow> False"
  proof -
    obtain q where q: "tiny_tolerance = Fin q" by (rule tiny_tolerance_nonneg)
    have "outside_workspace demo_envelope (pt_pose (demo_pose_target (Fin 2)))"
      using round64_of_int[of 2]
      by (simp add: outside_workspace_def demo_envelope_def demo_pose_target_def triple_list_def fsub_def q)
    then show ?thesis
      by (simp add: evaluate_cartesian_def demo_supervisor_def new_supervisor_def su_start_def su_decision_def
          mk_safety_state_def) (simp add: demo_envelope_def)
  qed
  then obtain s d where sd: "su_step (\<lambda>a b. Fin 0) (su_run (\<lambda>a b. Fin 0) demo_supervisor [SuStart 0])
        (SuCartesian (demo_pose_target (Fin 2)) 5) = (s, Some d)" "sf_action d = ActAbort"
    by (auto split: prod.split_asm option.split_asm)
  from supervisor_abort_latches[OF sd[unfolded demo_supervisor_def], of "[SuStop, SuReset False, SuStart 6]" 7] sd
  show ?thesis by auto
qed

section \<open>Joint targets\<close>

lemma fmax_ge: "a \<noteq> NaN \<Longrightarrow> b \<noteq> NaN \<Longrightarrow> fle a (fmax a b) \<and> fle b (fmax a b) \<and> fmax a b \<noteq> NaN"
  by (cases a; cases b) (auto simp: fmax_def)

lemma foldl_fmax_ge:
  "a \<noteq> NaN \<Longrightarrow> NaN \<notin> set xs \<Longrightarrow> \<forall>x \<in> insert a (set xs). fle x (foldl fmax a xs)"
proof (induction xs arbitrary: a)
  case Nil
  then show ?case by (cases a) auto
next
  case (Cons y ys)
  have "fle a (fmax a y)" "fle y (fmax a y)" "fmax a y \<noteq> NaN" using fmax_ge[of a y] Cons.prems by auto
  with Cons.IH[of "fmax a y"] Cons.prems show ?case by (auto intro: fle_trans)
qed

lemma np_max_bound:
  assumes "\<not> flt b (np_max xs)" and "NaN \<notin> set xs" and "b \<noteq> NaN" and "x \<in> set xs"
  shows "fle x b"
proof -
  obtain y ys where xs: "xs = y # ys" using assms(4) by (cases xs) auto
  have "fle x (np_max xs)" using foldl_fmax_ge[of y ys] assms(2,4) xs by (auto simp: np_max_def)
  moreover have "np_max xs \<noteq> NaN" using calculation by (cases x) auto
  then have "fle (np_max xs) b" using assms(1,3) by (cases "np_max xs"; cases b) auto
  ultimately show ?thesis by (rule fle_trans)
qed

lemma fabs_finite: "is_finite v \<Longrightarrow> fabs v \<noteq> NaN"
  by (cases v) auto

text \<open>What an allowed joint target satisfies, when the limits are numbers.\<close>

definition limits_numeric :: "joint_limits \<Rightarrow> bool" where
  "limits_numeric l \<longleftrightarrow> is_finite (jl_soft_margin_rad l) \<and> is_finite (jl_maximum_velocity_rad_s l)
     \<and> is_finite (jl_maximum_acceleration_rad_s2 l) \<and> is_finite (jl_maximum_jerk_rad_s3 l)"

lemma fadd_not_NaN: "is_finite a \<Longrightarrow> is_finite b \<Longrightarrow> fadd a b \<noteq> NaN"
  by (cases a; cases b) (auto simp: round64_not_NaN)


definition demo_joint_target :: joint_target where
  "demo_joint_target = \<lparr>jt_source_id = ''quest'', jt_sequence = 1, jt_generated_ns = 1,
     jt_position_rad = replicate 6 (Fin 0), jt_velocity_rad_s = replicate 6 (Fin 0),
     jt_acceleration_rad_s2 = replicate 6 (Fin 0), jt_source_age_ns = 0, jt_anchor_id = 1\<rparr>"


text \<open>The limits are checked for finiteness only at the joint bounds: a NaN margin passes the check and switches the soft
  limits off.\<close>

lemma nan_margin_disables_soft_limits:
  assumes "mk_joint_limits l = Inr l'"
  shows "mk_joint_limits (l\<lparr>jl_soft_margin_rad := NaN\<rparr>) = Inr (l\<lparr>jl_soft_margin_rad := NaN\<rparr>)
    \<and> \<not> outside_soft_limits (l\<lparr>jl_soft_margin_rad := NaN\<rparr>) position"
proof -
  have "fadd a NaN = NaN" "fsub a NaN = NaN" "\<not> flt a NaN" "\<not> flt NaN a" for a
    by (cases a; simp add: fsub_def)+
  then have "\<not> outside_soft_limits (l\<lparr>jl_soft_margin_rad := NaN\<rparr>) position"
    by (fastforce simp: outside_soft_limits_def Let_def list_ex_iff dest: set_zip_rightD)
  moreover have "fmin NaN a = NaN" "\<not> fle NaN a" for a by (cases a; simp add: fmin_def)+
  ultimately show ?thesis using assms by (auto simp: mk_joint_limits_def split: if_split_asm)
qed

end
