(* ===== verification/Timeline.thy ===== *)
theory Timeline
  imports PyFloat
begin

text \<open>
  The time base of an episode, \<open>src/episode_dataset/timeline.py\<close>: periodic deadlines, the bounded causal
  timeline of one source and the canonical frame clock. Times are nanoseconds; Python's integers are
  \<open>int\<close> and its floor division is \<open>div\<close>.
\<close>

section \<open>Deadlines\<close>

datatype timeline_error = BadPeriod | BadMaxAge | BadCapacity | TimestampRegression | BadFps | AlreadyStarted | NotStarted
  | ClockDivision

definition advance_fixed_deadline :: "int \<Rightarrow> int \<Rightarrow> int \<Rightarrow> (timeline_error, int) res" where
  "advance_fixed_deadline deadline_ns period_ns now_ns =
     (if period_ns \<le> 0 then Inl BadPeriod
      else let next_ns = deadline_ns + period_ns in
        Inr (if next_ns \<le> now_ns then next_ns + ((now_ns - next_ns) div period_ns + 1) * period_ns else next_ns))"

section \<open>The causal timeline\<close>

record 'a source_selection =
  sel_value :: "'a option"
  sel_source_timestamp_ns :: "int option"
  sel_signed_offset_ns :: "int option"
  sel_valid :: bool
  sel_stale :: bool
  sel_reason :: "string option"

record 'a causal_timeline =
  ct_max_age_ns :: int
  ct_capacity :: nat
  ct_items :: "(int \<times> 'a) list"

definition mk_timeline :: "int \<Rightarrow> int \<Rightarrow> (timeline_error, 'a causal_timeline) res" where
  "mk_timeline max_age_ns capacity =
     (if max_age_ns < 0 then Inl BadMaxAge
      else if capacity \<le> 0 then Inl BadCapacity
      else Inr \<lparr>ct_max_age_ns = max_age_ns, ct_capacity = nat capacity, ct_items = []\<rparr>)"

definition ct_append :: "'a causal_timeline \<Rightarrow> int \<Rightarrow> 'a \<Rightarrow> (timeline_error, 'a causal_timeline) res" where
  "ct_append c timestamp_ns value =
     (if ct_items c \<noteq> [] \<and> timestamp_ns < fst (last (ct_items c)) then Inl TimestampRegression
      else Inr (c\<lparr>ct_items := deque_append (ct_capacity c) (timestamp_ns, value) (ct_items c)\<rparr>))"

text \<open>The loop over the reversed items: the first hit from the right.\<close>

definition ct_find :: "(int \<times> 'a) list \<Rightarrow> int \<Rightarrow> ('a \<Rightarrow> bool) \<Rightarrow> (int \<times> 'a) option" where
  "ct_find items canonical_ns predicate = find (\<lambda>(t, v). t \<le> canonical_ns \<and> predicate v) (rev items)"

definition latest_matching :: "'a causal_timeline \<Rightarrow> int \<Rightarrow> ('a \<Rightarrow> bool) \<Rightarrow> 'a source_selection" where
  "latest_matching c canonical_ns predicate =
     (case ct_find (ct_items c) canonical_ns predicate of
        None \<Rightarrow> \<lparr>sel_value = None, sel_source_timestamp_ns = None, sel_signed_offset_ns = None, sel_valid = False,
                 sel_stale = False, sel_reason = Some ''no_causal_sample''\<rparr>
      | Some (timestamp_ns, value) \<Rightarrow>
          (let offset_ns = timestamp_ns - canonical_ns; stale = ct_max_age_ns c < - offset_ns in
           \<lparr>sel_value = Some value, sel_source_timestamp_ns = Some timestamp_ns, sel_signed_offset_ns = Some offset_ns,
            sel_valid = \<not> stale, sel_stale = stale,
            sel_reason = (if stale then Some ''source_sample_stale'' else None)\<rparr>))"

definition latest_at_or_before :: "'a causal_timeline \<Rightarrow> int \<Rightarrow> 'a source_selection" where
  "latest_at_or_before c canonical_ns = latest_matching c canonical_ns (\<lambda>_. True)"

section \<open>The canonical clock\<close>

record canonical_clock =
  cc_fps :: int
  cc_period_ns :: int
  cc_start_ns :: "int option"
  cc_next_ns :: "int option"
  cc_frame_index :: int
  cc_nominal_slot :: int
  cc_last_nominal_slot :: int
  cc_last_missed_before :: int
  cc_last_missed_after :: int
  cc_missed_before_next :: int
  cc_total_missed :: int

text \<open>\<open>round(1_000_000_000 / fps)\<close>: the quotient of two integers as a float, then rounded half to even.\<close>

definition clock_period :: "int \<Rightarrow> int" where
  "clock_period fps = (case round64 (1000000000 / of_int fps) of Fin r \<Rightarrow> round_half_even r | _ \<Rightarrow> 0)"

definition mk_clock :: "int \<Rightarrow> (timeline_error, canonical_clock) res" where
  "mk_clock fps =
     (if fps \<le> 0 then Inl BadFps
      else Inr \<lparr>cc_fps = fps, cc_period_ns = clock_period fps, cc_start_ns = None, cc_next_ns = None, cc_frame_index = 0,
                cc_nominal_slot = 0, cc_last_nominal_slot = 0, cc_last_missed_before = 0,
                cc_last_missed_after = 0, cc_missed_before_next = 0, cc_total_missed = 0\<rparr>)"

definition clock_start :: "canonical_clock \<Rightarrow> int \<Rightarrow> (timeline_error, canonical_clock \<times> int \<times> int) res" where
  "clock_start c timestamp_ns =
     (if cc_start_ns c \<noteq> None then Inl AlreadyStarted
      else Inr (c\<lparr>cc_start_ns := Some timestamp_ns, cc_next_ns := Some (timestamp_ns + cc_period_ns c),
                  cc_frame_index := 1, cc_nominal_slot := 1, cc_last_nominal_slot := 0,
                  cc_last_missed_before := 0, cc_last_missed_after := 0, cc_missed_before_next := 0,
                  cc_total_missed := 0\<rparr>, 0, timestamp_ns))"

definition clock_due :: "canonical_clock \<Rightarrow> int \<Rightarrow> (timeline_error, canonical_clock \<times> (int \<times> int) option) res" where
  "clock_due c now_ns =
     (case cc_next_ns c of
        None \<Rightarrow> Inl NotStarted
      | Some timestamp_ns \<Rightarrow>
          if now_ns < timestamp_ns then Inr (c, None)
          else
            let index = cc_frame_index c;
                next_ns = timestamp_ns + cc_period_ns c;
                c1 = c\<lparr>cc_last_nominal_slot := cc_nominal_slot c,
                       cc_last_missed_before := cc_missed_before_next c, cc_last_missed_after := 0,
                       cc_missed_before_next := 0, cc_frame_index := cc_frame_index c + 1,
                       cc_nominal_slot := cc_nominal_slot c + 1, cc_next_ns := Some next_ns\<rparr> in
            if next_ns \<le> now_ns then
              (if cc_period_ns c = 0 then Inl ClockDivision
               else let missed = (now_ns - next_ns) div cc_period_ns c + 1 in
                 Inr (c1\<lparr>cc_next_ns := Some (next_ns + missed * cc_period_ns c),
                         cc_nominal_slot := cc_nominal_slot c1 + missed, cc_missed_before_next := missed,
                         cc_last_missed_after := missed, cc_total_missed := cc_total_missed c1 + missed\<rparr>,
                      Some (index, timestamp_ns)))
            else Inr (c1, Some (index, timestamp_ns)))"

section \<open>Deadlines are the next grid point\<close>

lemma next_multiple:
  assumes "0 < (p :: int)" and "0 \<le> d"
  shows "d < (d div p + 1) * p" and "(d div p + 1) * p \<le> d + p"
proof -
  have "(d div p) * p + d mod p = d" "0 \<le> d mod p" "d mod p < p" using assms(1) by simp_all
  moreover have "(d div p + 1) * p = (d div p) * p + p" by (simp add: distrib_right)
  ultimately show "d < (d div p + 1) * p" and "(d div p + 1) * p \<le> d + p" by linarith+
qed

text \<open>The reference: walk the grid from the deadline until a point lies in the future.\<close>

function next_grid_point :: "int \<Rightarrow> int \<Rightarrow> int \<Rightarrow> int" where
  "next_grid_point t period_ns now_ns =
     (if period_ns \<le> 0 \<or> now_ns < t then t else next_grid_point (t + period_ns) period_ns now_ns)"
  by pat_completeness auto

termination
  by (relation "measure (\<lambda>(t, p, n). nat (n - t + 1))") auto

declare next_grid_point.simps [simp del]

lemma next_grid_point_add:
  assumes "0 < p" and "t + int k * p \<le> now_ns + p"
  shows "next_grid_point t p now_ns = next_grid_point (t + int k * p) p now_ns"
  using assms(2)
proof (induction k)
  case (Suc k)
  then have "t + int k * p \<le> now_ns" by (simp add: algebra_simps)
  then have "next_grid_point (t + int k * p) p now_ns = next_grid_point (t + int k * p + p) p now_ns"
    using assms(1) next_grid_point.simps[of "t + int k * p" p now_ns] by simp
  moreover have "t + int k * p \<le> now_ns + p" using Suc.prems assms(1) by (simp add: algebra_simps)
  ultimately show ?case using Suc.IH by (simp add: algebra_simps)
qed simp

lemma advance_reference:
  assumes "0 < period_ns"
  shows "advance_fixed_deadline deadline_ns period_ns now_ns
    = Inr (next_grid_point (deadline_ns + period_ns) period_ns now_ns)"
proof (cases "deadline_ns + period_ns \<le> now_ns")
  case False
  then show ?thesis using assms next_grid_point.simps[of "deadline_ns + period_ns" period_ns now_ns]
    by (simp add: advance_fixed_deadline_def)
next
  case True
  define d where "d = now_ns - (deadline_ns + period_ns)"
  define k where "k = d div period_ns + 1"
  have d: "0 \<le> d" using True by (simp add: d_def)
  have k: "d < k * period_ns" "k * period_ns \<le> d + period_ns" "0 \<le> k"
    using next_multiple[OF assms d] pos_imp_zdiv_nonneg_iff[OF assms, of d] d by (simp_all add: k_def)
  have eq: "next_grid_point (deadline_ns + period_ns) period_ns now_ns
      = next_grid_point (deadline_ns + period_ns + k * period_ns) period_ns now_ns"
    using next_grid_point_add[OF assms, of "deadline_ns + period_ns" "nat k" now_ns] k by (simp add: d_def)
  have "now_ns < deadline_ns + period_ns + k * period_ns" using k by (simp add: d_def)
  then have "next_grid_point (deadline_ns + period_ns + k * period_ns) period_ns now_ns
      = deadline_ns + period_ns + k * period_ns"
    using next_grid_point.simps[of "deadline_ns + period_ns + k * period_ns"] by simp
  then show ?thesis
    using True assms eq by (simp add: advance_fixed_deadline_def Let_def k_def d_def)
qed

text \<open>The closed form of the periodic deadline equals the reference loop that advances by one period at a time
  until the deadline lies in the future: deadlines stay on the grid of the first one, none is skipped
  that is still ahead, and none is repeated after a delay.\<close>

theorem advance_is_grid_walk:
  assumes "0 < period_ns"
  shows "advance_fixed_deadline deadline_ns period_ns now_ns
       = Inr (next_grid_point (deadline_ns + period_ns) period_ns now_ns)
    \<and> (\<exists>k \<ge> 1. next_grid_point (deadline_ns + period_ns) period_ns now_ns = deadline_ns + k * period_ns
         \<and> (now_ns < deadline_ns + k * period_ns) \<and> (k = 1 \<or> deadline_ns + (k - 1) * period_ns \<le> now_ns))"
proof -
  let ?n = "deadline_ns + period_ns"
  have "\<exists>k \<ge> 1. (if ?n \<le> now_ns then ?n + ((now_ns - ?n) div period_ns + 1) * period_ns else ?n) = deadline_ns + k * period_ns
      \<and> now_ns < deadline_ns + k * period_ns \<and> (k = 1 \<or> deadline_ns + (k - 1) * period_ns \<le> now_ns)"
  proof (cases "?n \<le> now_ns")
    case True
    define q where "q = (now_ns - ?n) div period_ns"
    have q: "0 \<le> q" "now_ns - ?n < (q + 1) * period_ns" "(q + 1) * period_ns \<le> now_ns - ?n + period_ns"
      using next_multiple[OF assms, of "now_ns - ?n"] True assms by (simp_all add: q_def pos_imp_zdiv_nonneg_iff)
    show ?thesis
      using True q by (intro exI[of _ "q + 2"]) (simp add: q_def[symmetric] algebra_simps)
  next
    case False
    then show ?thesis by (intro exI[of _ 1]) simp
  qed
  moreover have "advance_fixed_deadline deadline_ns period_ns now_ns
      = Inr (if ?n \<le> now_ns then ?n + ((now_ns - ?n) div period_ns + 1) * period_ns else ?n)"
    using assms by (simp add: advance_fixed_deadline_def Let_def)
  moreover from calculation(2) advance_reference[OF assms, of deadline_ns now_ns]
  have "next_grid_point ?n period_ns now_ns
      = (if ?n \<le> now_ns then ?n + ((now_ns - ?n) div period_ns + 1) * period_ns else ?n)" by (simp only: sum.inject)
  ultimately show ?thesis by presburger
qed

theorem advance_is_grid_walk_witness:
  "advance_fixed_deadline 100 10 137 = Inr (next_grid_point 110 10 137)"
  using advance_is_grid_walk[of 10 100 137] by simp

section \<open>Selection\<close>

definition timeline_inv :: "'a causal_timeline \<Rightarrow> bool" where
  "timeline_inv c \<longleftrightarrow> sorted (map fst (ct_items c)) \<and> length (ct_items c) \<le> ct_capacity c \<and> 0 < ct_capacity c"

text \<open>A source that appends; a regression raises and changes nothing.\<close>

fun ct_feed :: "'a causal_timeline \<Rightarrow> (int \<times> 'a) list \<Rightarrow> 'a causal_timeline" where
  "ct_feed c [] = c"
| "ct_feed c ((t, v) # xs) = ct_feed (case ct_append c t v of Inl _ \<Rightarrow> c | Inr c' \<Rightarrow> c') xs"

text \<open>The unbounded specification: what a source has delivered in order, without the samples that went backwards.\<close>

fun monotone_part :: "(int \<times> 'a) list \<Rightarrow> (int \<times> 'a) list \<Rightarrow> (int \<times> 'a) list" where
  "monotone_part acc [] = acc"
| "monotone_part acc ((t, v) # xs) =
     monotone_part (if acc \<noteq> [] \<and> t < fst (last acc) then acc else acc @ [(t, v)]) xs"

definition keep_last :: "nat \<Rightarrow> 'a list \<Rightarrow> 'a list" where
  "keep_last n xs = drop (length xs - n) xs"

lemma keep_last_snoc: "0 < n \<Longrightarrow> deque_append n x (keep_last n xs) = keep_last n (xs @ [x])"
  unfolding deque_append_def keep_last_def by (simp add: drop_drop) (cases "length xs \<le> n"; simp add: Suc_diff_le)

lemma keep_last_last: "0 < n \<Longrightarrow> xs \<noteq> [] \<Longrightarrow> keep_last n xs \<noteq> [] \<and> last (keep_last n xs) = last xs"
  by (cases xs) (auto simp: keep_last_def last_drop)

lemma ct_feed_refines:
  assumes "0 < n" and "ct_items c = keep_last n acc" and "ct_capacity c = n"
  shows "ct_items (ct_feed c xs) = keep_last n (monotone_part acc xs) \<and> ct_max_age_ns (ct_feed c xs) = ct_max_age_ns c"
  using assms(2,3)
proof (induction xs arbitrary: c acc)
  case (Cons x xs)
  obtain t v where x: "x = (t, v)" by (cases x)
  have e: "keep_last n acc = [] \<longleftrightarrow> acc = []" using keep_last_last[OF assms(1), of acc] by (auto simp: keep_last_def)
  show ?case
  proof (cases "acc \<noteq> [] \<and> t < fst (last acc)")
    case True
    then have "ct_append c t v = Inl TimestampRegression"
      using Cons.prems keep_last_last[OF assms(1), of acc] by (simp add: ct_append_def)
    with Cons.IH[OF Cons.prems] True show ?thesis by (simp add: x)
  next
    case False
    then have "ct_append c t v = Inr (c\<lparr>ct_items := keep_last n (acc @ [(t, v)])\<rparr>)"
      using Cons.prems keep_last_last[OF assms(1), of acc] e
      by (auto simp: ct_append_def keep_last_snoc[OF assms(1)])
    with Cons.IH[of "c\<lparr>ct_items := keep_last n (acc @ [(t, v)])\<rparr>" "acc @ [(t, v)]"] Cons.prems False
    show ?thesis by (auto simp: x)
  qed
qed simp

lemma sorted_le_last: "sorted (xs :: int list) \<Longrightarrow> x \<in> set xs \<Longrightarrow> x \<le> last xs"
  by (induction xs) auto

lemma monotone_part_sorted: "sorted (map fst acc) \<Longrightarrow> sorted (map fst (monotone_part acc xs))"
proof (induction acc xs rule: monotone_part.induct)
  case (2 acc t v xs)
  have "sorted (map fst (acc @ [(t, v)]))" if "\<not> (acc \<noteq> [] \<and> t < fst (last acc))"
  proof (cases "acc = []")
    case False
    have "y \<le> t" if "y \<in> set (map fst acc)" for y
      using sorted_le_last[OF "2.prems" that] False \<open>\<not> (acc \<noteq> [] \<and> t < fst (last acc))\<close> by (simp add: last_map)
    with "2.prems" show ?thesis by (auto simp: sorted_append)
  qed simp
  then show ?case using 2 by auto
qed simp

text \<open>What the selection returns on a list of samples: the last hit.\<close>

definition select_last :: "(int \<times> 'a) list \<Rightarrow> int \<Rightarrow> ('a \<Rightarrow> bool) \<Rightarrow> (int \<times> 'a) option" where
  "select_last items canonical_ns predicate =
     (let hits = filter (\<lambda>(t, v). t \<le> canonical_ns \<and> predicate v) items in
      if hits = [] then None else Some (last hits))"

lemma find_rev: "find P (rev xs) = (if filter P xs = [] then None else Some (last (filter P xs)))"
  by (induction xs rule: rev_induct) auto

lemma ct_find_select: "ct_find items t P = select_last items t P"
  by (simp add: ct_find_def select_last_def find_rev Let_def)

lemma select_last_newest:
  assumes "sorted (map fst items)" and "select_last items t P = Some (s, v)"
  shows "(s, v) \<in> set items \<and> s \<le> t \<and> P v \<and> (\<forall>(s', v') \<in> set items. s' \<le> t \<and> P v' \<longrightarrow> s' \<le> s)"
proof -
  let ?hits = "filter (\<lambda>(t', v). t' \<le> t \<and> P v) items"
  have h: "?hits \<noteq> []" "last ?hits = (s, v)" using assms(2) by (auto simp: select_last_def Let_def split: if_split_asm)
  then have "(s, v) \<in> set ?hits" by (metis last_in_set)
  moreover have "sorted (map fst ?hits)" using assms(1) by (rule sorted_filter)
  then have "s' \<le> s" if "s' \<in> set (map fst ?hits)" for s'
    using sorted_le_last[of "map fst ?hits" s'] that h by (simp add: last_map)
  ultimately show ?thesis by fastforce
qed

lemma keep_last_sorted: "sorted (map fst xs) \<Longrightarrow> sorted (map fst (keep_last n xs))"
  unfolding keep_last_def drop_map[symmetric] by (rule sorted_wrt_drop)

text \<open>The bounded timeline refines the whole history: after any feed its selection is the newest sample at or
  before the canonical time, among the last \<open>capacity\<close> samples that did not go backwards, and it is
  valid exactly if that sample is not older than the age limit. A future sample is never selected.\<close>

theorem timeline_selects_newest:
  assumes "mk_timeline max_age_ns capacity = Inr c"
    and "latest_matching (ct_feed c xs) t P = sel"
    and "history = keep_last (nat capacity) (monotone_part [] xs)"
  shows "case select_last history t P of
      None \<Rightarrow> sel_value sel = None \<and> \<not> sel_valid sel \<and> \<not> (\<exists>(s, v) \<in> set history. s \<le> t \<and> P v)
    | Some (s, v) \<Rightarrow> sel_value sel = Some v \<and> sel_source_timestamp_ns sel = Some s \<and> s \<le> t \<and> P v
        \<and> (\<forall>(s', v') \<in> set history. s' \<le> t \<and> P v' \<longrightarrow> s' \<le> s)
        \<and> (sel_valid sel \<longleftrightarrow> t - s \<le> max_age_ns) \<and> sel_stale sel = (\<not> sel_valid sel)"
proof -
  have n: "0 < nat capacity" "ct_items c = keep_last (nat capacity) []" "ct_capacity c = nat capacity"
    "ct_max_age_ns c = max_age_ns"
    using assms(1) by (auto simp: mk_timeline_def keep_last_def split: if_split_asm)
  from ct_feed_refines[OF n(1-3)]
  have items: "ct_items (ct_feed c xs) = history" and age: "ct_max_age_ns (ct_feed c xs) = max_age_ns"
    using n(4) assms(3) by simp_all
  have "sorted (map fst history)"
    unfolding assms(3) by (intro keep_last_sorted monotone_part_sorted) simp
  note newest = select_last_newest[OF this]
  show ?thesis
  proof (cases "select_last history t P")
    case None
    then have "filter (\<lambda>(t', v). t' \<le> t \<and> P v) history = []" by (simp add: select_last_def Let_def split: if_split_asm)
    with None show ?thesis by (auto simp: assms(2)[symmetric] latest_matching_def items ct_find_select filter_empty_conv)
  next
    case (Some sv)
    obtain s v where sv: "sv = (s, v)" by (cases sv)
    show ?thesis
      using newest[of t P s v] Some sv by (simp add: assms(2)[symmetric] latest_matching_def items ct_find_select age Let_def not_less) linarith
  qed
qed

theorem timeline_selects_newest_witness:
  "\<exists>c. mk_timeline 50 2 = Inr c
     \<and> sel_value (latest_at_or_before (ct_feed c [(10, ''a''), (5, ''late''), (20, ''b''), (30, ''c'')]) 25) = Some ''b''"
proof -
  obtain c :: "string causal_timeline" where c: "mk_timeline 50 2 = Inr c" by (simp add: mk_timeline_def)
  have "keep_last 2 (monotone_part [] [(10, ''a''), (5, ''late''), (20, ''b''), (30, ''c'')]) = [(20, ''b''), (30, ''c'')]"
    by (simp add: keep_last_def)
  with timeline_selects_newest[OF c refl refl, of "[(10, ''a''), (5, ''late''), (20, ''b''), (30, ''c'')]" 25 "\<lambda>_. True"] c
  show ?thesis by (simp add: latest_at_or_before_def select_last_def)
qed

section \<open>The frame clock\<close>

definition clock_ok :: "canonical_clock \<Rightarrow> int \<Rightarrow> bool" where
  "clock_ok c start_ns \<longleftrightarrow> 0 < cc_period_ns c \<and> cc_start_ns c = Some start_ns
     \<and> cc_next_ns c = Some (start_ns + cc_nominal_slot c * cc_period_ns c)
     \<and> cc_nominal_slot c = cc_frame_index c + cc_total_missed c \<and> 0 \<le> cc_total_missed c"

text \<open>A frame that is due, with the clock after it.\<close>

lemma clock_due_cases:
  assumes "clock_ok c start_ns" and "clock_due c now_ns = r"
  obtains (early) "now_ns < start_ns + cc_nominal_slot c * cc_period_ns c" "r = Inr (c, None)"
  | (frame) c' where "r = Inr (c', Some (cc_frame_index c, start_ns + cc_nominal_slot c * cc_period_ns c))"
      "start_ns + cc_nominal_slot c * cc_period_ns c \<le> now_ns" "clock_ok c' start_ns"
      "cc_frame_index c' = cc_frame_index c + 1" "cc_nominal_slot c < cc_nominal_slot c'"
      "now_ns < start_ns + cc_nominal_slot c' * cc_period_ns c'" "cc_period_ns c' = cc_period_ns c"
proof -
  let ?p = "cc_period_ns c" and ?t = "start_ns + cc_nominal_slot c * cc_period_ns c"
  have p: "0 < ?p" and nx: "cc_next_ns c = Some ?t" using assms(1) by (simp_all add: clock_ok_def)
  consider "now_ns < ?t" | "?t \<le> now_ns" "now_ns < ?t + ?p" | "?t + ?p \<le> now_ns" by linarith
  then show thesis
  proof cases
    case 1
    then show thesis using assms(2) nx early by (simp add: clock_due_def)
  next
    case 2
    then obtain c' where "r = Inr (c', Some (cc_frame_index c, ?t))" "cc_next_ns c' = Some (?t + ?p)"
      "cc_frame_index c' = cc_frame_index c + 1" "cc_nominal_slot c' = cc_nominal_slot c + 1"
      "cc_period_ns c' = ?p" "cc_start_ns c' = cc_start_ns c" "cc_total_missed c' = cc_total_missed c"
      using assms(2) nx by (auto simp: clock_due_def Let_def)
    then show thesis using assms(1) 2 by (intro frame[of c']) (simp_all add: clock_ok_def algebra_simps)
  next
    case 3
    define m where "m = (now_ns - (?t + ?p)) div ?p + 1"
    have m: "now_ns < ?t + ?p + m * ?p" "0 < m"
      using next_multiple[OF p, of "now_ns - (?t + ?p)"] 3 pos_imp_zdiv_nonneg_iff[OF p, of "now_ns - (?t + ?p)"]
      by (simp_all add: m_def)
    have le: "?t \<le> now_ns" using 3 p by simp
    obtain c' where "r = Inr (c', Some (cc_frame_index c, ?t))" "cc_next_ns c' = Some (?t + ?p + m * ?p)"
      "cc_frame_index c' = cc_frame_index c + 1" "cc_nominal_slot c' = cc_nominal_slot c + 1 + m"
      "cc_period_ns c' = ?p" "cc_start_ns c' = cc_start_ns c" "cc_total_missed c' = cc_total_missed c + m"
      using assms(2) nx p 3 le by (auto simp: clock_due_def Let_def m_def)
    then show thesis using assms(1) le m by (intro frame[of c']) (simp_all add: clock_ok_def algebra_simps)
  qed
qed

text \<open>A run of \<open>due\<close> calls: the frames with the times they were asked for.\<close>

fun clock_run :: "canonical_clock \<Rightarrow> int list \<Rightarrow> (int \<times> int \<times> int) list" where
  "clock_run c [] = []"
| "clock_run c (now_ns # ns) =
     (case clock_due c now_ns of
        Inl _ \<Rightarrow> []
      | Inr (c', None) \<Rightarrow> clock_run c' ns
      | Inr (c', Some (index, timestamp_ns)) \<Rightarrow> (index, timestamp_ns, now_ns) # clock_run c' ns)"

lemma clock_run_ok:
  assumes "clock_ok c start_ns"
  shows "map fst (clock_run c ns) = map (\<lambda>k. cc_frame_index c + int k) [0..<length (clock_run c ns)]
    \<and> sorted_wrt (<) (map (fst \<circ> snd) (clock_run c ns))
    \<and> (\<forall>(i, t, n) \<in> set (clock_run c ns). t \<le> n \<and> start_ns + cc_nominal_slot c * cc_period_ns c \<le> t
         \<and> (\<exists>slot. t = start_ns + slot * cc_period_ns c))"
  using assms
proof (induction ns arbitrary: c)
  case (Cons now_ns ns)
  from Cons.prems refl[of "clock_due c now_ns"] show ?case
  proof (cases rule: clock_due_cases)
    case early
    then show ?thesis using Cons by simp
  next
    case (frame c')
    have IH: "map fst (clock_run c' ns) = map (\<lambda>k. cc_frame_index c' + int k) [0..<length (clock_run c' ns)]"
      "sorted_wrt (<) (map (fst \<circ> snd) (clock_run c' ns))"
      "\<forall>(i, t, n) \<in> set (clock_run c' ns). t \<le> n \<and> start_ns + cc_nominal_slot c' * cc_period_ns c' \<le> t
         \<and> (\<exists>slot. t = start_ns + slot * cc_period_ns c')"
      using Cons.IH[OF frame(3)] by blast+
    have "start_ns + cc_nominal_slot c * cc_period_ns c < start_ns + cc_nominal_slot c' * cc_period_ns c'"
      using frame(5,7) Cons.prems by (simp add: clock_ok_def)
    then have "\<forall>(i, t, n) \<in> set (clock_run c' ns). start_ns + cc_nominal_slot c * cc_period_ns c < t"
      using IH(3) by fastforce
    moreover have "map (\<lambda>k. cc_frame_index c + int k) [0..<Suc (length (clock_run c' ns))]
        = cc_frame_index c # map fst (clock_run c' ns)"
      using IH(1) frame(4) by (simp add: upt_conv_Cons map_Suc_upt[symmetric] del: upt_Suc map_Suc_upt)
    ultimately show ?thesis
      using IH frame by (auto simp: comp_def split_beta simp del: upt_Suc)
  qed
qed simp

text \<open>The canonical clock never drifts and never bursts: after the start every frame is stamped on the grid of the
  start time, not in the future, with strictly increasing stamps and consecutive frame indices from
  one, however late or irregularly it is polled.\<close>

theorem clock_frames_on_grid:
  assumes "mk_clock fps = Inr c0" and "0 < clock_period fps" and "clock_start c0 start_ns = Inr (c, i0, t0)"
    and "clock_run c ns = frames"
  shows "map fst frames = map (\<lambda>k. 1 + int k) [0..<length frames]
    \<and> sorted_wrt (<) (map (fst \<circ> snd) frames)
    \<and> (\<forall>(i, t, n) \<in> set frames. t \<le> n \<and> (\<exists>slot. t = start_ns + slot * clock_period fps))"
proof -
  have "clock_ok c start_ns" "cc_frame_index c = 1" "cc_period_ns c = clock_period fps"
    using assms(1-3) by (auto simp: mk_clock_def clock_start_def clock_ok_def split: if_split_asm)
  from clock_run_ok[OF this(1), of ns] this show ?thesis using assms(4) by fastforce
qed

theorem clock_frames_on_grid_witness:
  "\<exists>c0 c. mk_clock 40 = Inr c0 \<and> clock_start c0 0 = Inr (c, 0, 0)
     \<and> map fst (clock_run c [1000, 30000000, 130000000, 140000000]) = [1, 2]"
proof -
  have p: "clock_period 40 = 25000000"
    using round64_of_int[of 25000000] round_half_even_of_int[of 25000000] by (simp add: clock_period_def)
  obtain c0 c where c: "mk_clock 40 = Inr c0" "clock_start c0 0 = Inr (c, 0, 0)"
    by (auto simp: mk_clock_def clock_start_def)
  have "length (clock_run c [1000, 30000000, 130000000, 140000000]) = 2"
    using c p by (auto simp: mk_clock_def clock_start_def clock_due_def Let_def)
  with clock_frames_on_grid[OF c(1) _ c(2) refl, of "[1000, 30000000, 130000000, 140000000]"] p c
  show ?thesis by (simp add: upt_conv_Cons numeral_2_eq_2)
qed

end
