(* ===== verification/Engagement.thy ===== *)
theory Engagement
  imports PyFloat
begin

text \<open>
  The recoverable engagement coordinator of \<open>src/teleop_rearchitecture/engagement.py\<close>: a mode machine with
  safety epochs, the captured references and the latest input pose. The float arithmetic of the
  relative pose is the model's; the Euclidean norm of \<open>SpatialPose.checked\<close> is a parameter.
\<close>

section \<open>Data\<close>

datatype engagement_mode = EgUninitialized | EgDisengaged | EgEngaging | EgActiveTracking | EgHoldRejected
  | EgControlledBraking | EgStoppedReady | EgHardStopped

datatype engagement_result = ErOk | ErAlreadyApplied | ErWaitForStopped | ErInvalidState | ErInvalidMeasurement
  | ErNoInputPose | ErOldEpoch | ErOldSequence

datatype spatial_error = SpatialShape | SpatialNotFinite | SpatialZero

record spatial_pose =
  sp_position_m :: "pyfloat list"
  sp_orientation_wxyz :: "pyfloat list"

definition spatial_floor :: pyfloat where
  "spatial_floor = round64 (1 / 1000000000000)"

definition checked_pose :: "(pyfloat list \<Rightarrow> pyfloat) \<Rightarrow> pyfloat list \<Rightarrow> pyfloat list \<Rightarrow> (spatial_error, spatial_pose) res" where
  "checked_pose pnorm position orientation =
     (if length position \<noteq> 3 \<or> length orientation \<noteq> 4 then Inl SpatialShape
      else if \<not> list_all is_finite (position @ orientation) then Inl SpatialNotFinite
      else let n = pnorm orientation in
        if fle n spatial_floor then Inl SpatialZero
        else Inr \<lparr>sp_position_m = position, sp_orientation_wxyz = map (\<lambda>v. fdiv v n) orientation\<rparr>)"

record measured_state =
  ms_sequence :: int
  ms_monotonic_ns :: int
  ms_position_rad :: "pyfloat list"
  ms_velocity_rad_s :: "pyfloat list"
  ms_acceleration_rad_s2 :: "pyfloat list"
  ms_valid :: bool

definition measurement_valid :: "measured_state \<Rightarrow> bool" where
  "measurement_valid m \<longleftrightarrow>
     ms_valid m \<and> 0 < ms_sequence m \<and> 0 \<le> ms_monotonic_ns m
     \<and> 0 < length (ms_position_rad m) \<and> length (ms_position_rad m) \<le> 8
     \<and> length (ms_velocity_rad_s m) = length (ms_position_rad m)
     \<and> length (ms_acceleration_rad_s2 m) = length (ms_position_rad m)
     \<and> list_all is_finite (ms_position_rad m @ ms_velocity_rad_s m @ ms_acceleration_rad_s2 m)"

record relative_pose =
  rp_translation_m :: "pyfloat list"
  rp_rotation_wxyz :: "pyfloat list"

record engagement_capture =
  ec_safety_epoch :: int
  ec_robot_reference :: measured_state
  ec_input_reference :: spatial_pose
  ec_input_sequence :: int
  ec_captured_ns :: int

record coordinator =
  eg_mode :: engagement_mode
  eg_safety_epoch :: int
  eg_last_target_sequence :: int
  eg_frozen_source_sequence :: int
  eg_latest_input_sequence :: int
  eg_latest_input_pose :: "spatial_pose option"
  eg_capture :: "engagement_capture option"
  eg_old_target_rejections :: nat
  eg_input_replacements :: nat
  eg_history_clears :: nat

record coordinator_snapshot =
  cs_mode :: engagement_mode
  cs_safety_epoch :: int
  cs_last_target_sequence :: int
  cs_frozen_source_sequence :: int
  cs_latest_input_sequence :: int
  cs_old_target_rejections :: nat
  cs_input_replacements :: nat
  cs_history_clears :: nat

section \<open>Operations\<close>

definition new_coordinator :: coordinator where
  "new_coordinator = \<lparr>eg_mode = EgUninitialized, eg_safety_epoch = 0, eg_last_target_sequence = 0,
     eg_frozen_source_sequence = 0, eg_latest_input_sequence = 0, eg_latest_input_pose = None, eg_capture = None,
     eg_old_target_rejections = 0, eg_input_replacements = 0, eg_history_clears = 0\<rparr>"

definition initialize_disengaged :: "coordinator \<Rightarrow> measured_state \<Rightarrow> coordinator \<times> engagement_result" where
  "initialize_disengaged c measured =
     (if eg_mode c \<noteq> EgUninitialized then (c, ErInvalidState)
      else if \<not> measurement_valid measured then (c, ErInvalidMeasurement)
      else (c\<lparr>eg_mode := EgDisengaged\<rparr>, ErOk))"

definition observe_input :: "coordinator \<Rightarrow> int \<Rightarrow> spatial_pose \<Rightarrow> coordinator \<times> engagement_result" where
  "observe_input c sequence pose =
     (if sequence \<le> eg_latest_input_sequence c then (c, ErOldSequence)
      else
        (let c1 = (if eg_latest_input_pose c \<noteq> None
                   then c\<lparr>eg_input_replacements := eg_input_replacements c + 1\<rparr> else c)
         in (c1\<lparr>eg_latest_input_sequence := sequence, eg_latest_input_pose := Some pose\<rparr>, ErOk)))"

definition begin_engagement ::
  "coordinator \<Rightarrow> measured_state \<Rightarrow> int \<Rightarrow> coordinator \<times> engagement_result \<times> engagement_capture option" where
  "begin_engagement c measured now_ns =
     (if eg_mode c = EgControlledBraking then (c, ErWaitForStopped, None)
      else if eg_mode c = EgEngaging then (c, ErAlreadyApplied, eg_capture c)
      else if eg_mode c \<notin> {EgDisengaged, EgStoppedReady} then (c, ErInvalidState, None)
      else if \<not> measurement_valid measured then (c, ErInvalidMeasurement, None)
      else case eg_latest_input_pose c of
        None \<Rightarrow> (c, ErNoInputPose, None)
      | Some pose \<Rightarrow>
          (let epoch = eg_safety_epoch c + 1;
               capture = \<lparr>ec_safety_epoch = epoch, ec_robot_reference = measured, ec_input_reference = pose,
                          ec_input_sequence = eg_latest_input_sequence c, ec_captured_ns = now_ns\<rparr> in
           (c\<lparr>eg_safety_epoch := epoch, eg_last_target_sequence := 0, eg_frozen_source_sequence := 0,
              eg_history_clears := eg_history_clears c + 1, eg_capture := Some capture, eg_mode := EgEngaging\<rparr>,
            ErOk, Some capture)))"

definition complete_engagement :: "coordinator \<Rightarrow> coordinator \<times> engagement_result" where
  "complete_engagement c =
     (if eg_mode c = EgActiveTracking then (c, ErAlreadyApplied)
      else if eg_mode c \<noteq> EgEngaging \<or> eg_capture c = None then (c, ErInvalidState)
      else (c\<lparr>eg_mode := EgActiveTracking\<rparr>, ErOk))"

fun quaternion_product :: "pyfloat list \<Rightarrow> pyfloat list \<Rightarrow> pyfloat list" where
  "quaternion_product [lw, lx, ly, lz] [rw, rx, ry, rz] =
     [fsub (fsub (fsub (fmul lw rw) (fmul lx rx)) (fmul ly ry)) (fmul lz rz),
      fsub (fadd (fadd (fmul lw rx) (fmul lx rw)) (fmul ly rz)) (fmul lz ry),
      fadd (fadd (fsub (fmul lw ry) (fmul lx rz)) (fmul ly rw)) (fmul lz rx),
      fadd (fsub (fadd (fmul lw rz) (fmul lx ry)) (fmul ly rx)) (fmul lz rw)]"
| "quaternion_product _ _ = []"

definition relative_pose_of :: "coordinator \<Rightarrow> relative_pose option" where
  "relative_pose_of c =
     (if eg_mode c \<notin> {EgActiveTracking, EgHoldRejected} then None
      else case (eg_capture c, eg_latest_input_pose c) of
        (Some capture, Some current) \<Rightarrow>
          (let reference = ec_input_reference capture;
               q = sp_orientation_wxyz reference;
               inverse_reference = [q ! 0, fneg (q ! 1), fneg (q ! 2), fneg (q ! 3)];
               product = quaternion_product inverse_reference (sp_orientation_wxyz current);
               rotation = (if flt (product ! 0) (Fin 0) then map fneg product else product) in
           Some \<lparr>rp_translation_m = map (\<lambda>i. fsub (sp_position_m current ! i) (sp_position_m reference ! i)) [0, 1, 2],
                 rp_rotation_wxyz = rotation\<rparr>)
      | _ \<Rightarrow> None)"

definition note_target :: "coordinator \<Rightarrow> int \<Rightarrow> int \<Rightarrow> bool \<Rightarrow> coordinator \<times> engagement_result" where
  "note_target c sequence epoch accepted =
     (if epoch \<noteq> eg_safety_epoch c then (c\<lparr>eg_old_target_rejections := eg_old_target_rejections c + 1\<rparr>, ErOldEpoch)
      else if eg_mode c \<notin> {EgActiveTracking, EgHoldRejected} then (c, ErInvalidState)
      else if sequence \<le> eg_last_target_sequence c then (c, ErOldSequence)
      else (c\<lparr>eg_last_target_sequence := sequence,
              eg_mode := (if accepted then EgActiveTracking else EgHoldRejected)\<rparr>, ErOk))"

definition request_release :: "coordinator \<Rightarrow> coordinator \<times> engagement_result" where
  "request_release c =
     (if eg_mode c = EgControlledBraking then (c, ErAlreadyApplied)
      else if eg_mode c \<notin> {EgActiveTracking, EgHoldRejected} then (c, ErInvalidState)
      else (c\<lparr>eg_frozen_source_sequence := eg_last_target_sequence c, eg_mode := EgControlledBraking\<rparr>, ErOk))"

definition braking_complete :: "coordinator \<Rightarrow> coordinator \<times> engagement_result" where
  "braking_complete c =
     (if eg_mode c = EgStoppedReady then (c, ErAlreadyApplied)
      else if eg_mode c \<noteq> EgControlledBraking then (c, ErInvalidState)
      else (c\<lparr>eg_mode := EgStoppedReady\<rparr>, ErOk))"

definition hard_stop :: "coordinator \<Rightarrow> coordinator" where
  "hard_stop c = c\<lparr>eg_mode := EgHardStopped\<rparr>"

definition reset_hard_stop :: "coordinator \<Rightarrow> measured_state \<Rightarrow> coordinator \<times> engagement_result" where
  "reset_hard_stop c measured =
     (if eg_mode c \<noteq> EgHardStopped then (c, ErInvalidState)
      else if \<not> measurement_valid measured then (c, ErInvalidMeasurement)
      else (c\<lparr>eg_capture := None, eg_last_target_sequence := 0, eg_frozen_source_sequence := 0,
              eg_safety_epoch := eg_safety_epoch c + 1, eg_history_clears := eg_history_clears c + 1,
              eg_mode := EgDisengaged\<rparr>, ErOk))"

definition coordinator_snapshot_of :: "coordinator \<Rightarrow> coordinator_snapshot" where
  "coordinator_snapshot_of c =
     \<lparr>cs_mode = eg_mode c, cs_safety_epoch = eg_safety_epoch c, cs_last_target_sequence = eg_last_target_sequence c,
      cs_frozen_source_sequence = eg_frozen_source_sequence c, cs_latest_input_sequence = eg_latest_input_sequence c,
      cs_old_target_rejections = eg_old_target_rejections c, cs_input_replacements = eg_input_replacements c,
      cs_history_clears = eg_history_clears c\<rparr>"

section \<open>Steps\<close>

datatype engagement_event =
    EvInitialize measured_state | EvObserve int spatial_pose | EvBegin measured_state int | EvComplete
  | EvTarget int int bool | EvRelease | EvBraked | EvHardStop | EvResetHardStop measured_state

fun engagement_apply :: "coordinator \<Rightarrow> engagement_event \<Rightarrow> coordinator \<times> engagement_result" where
  "engagement_apply c (EvInitialize m) = initialize_disengaged c m"
| "engagement_apply c (EvObserve n p) = observe_input c n p"
| "engagement_apply c (EvBegin m now_ns) = (case begin_engagement c m now_ns of (c', r, _) \<Rightarrow> (c', r))"
| "engagement_apply c EvComplete = complete_engagement c"
| "engagement_apply c (EvTarget n e a) = note_target c n e a"
| "engagement_apply c EvRelease = request_release c"
| "engagement_apply c EvBraked = braking_complete c"
| "engagement_apply c EvHardStop = (hard_stop c, ErOk)"
| "engagement_apply c (EvResetHardStop m) = reset_hard_stop c m"

inductive engagement_step :: "coordinator \<Rightarrow> engagement_event \<Rightarrow> engagement_result \<Rightarrow> coordinator \<Rightarrow> bool" where
  step: "engagement_apply c ev = (c', r) \<Longrightarrow> engagement_step c ev r c'"

inductive_cases engagement_stepE: "engagement_step c ev r c'"

text \<open>Reachable coordinators with the targets they accepted: epoch and sequence number, oldest first.\<close>

inductive engagement_reachable :: "coordinator \<Rightarrow> (int \<times> int) list \<Rightarrow> bool" where
  start: "engagement_reachable new_coordinator []"
| accept: "engagement_reachable c ts \<Longrightarrow> engagement_step c (EvTarget n e a) ErOk c' \<Longrightarrow>
    engagement_reachable c' (ts @ [(e, n)])"
| other: "engagement_reachable c ts \<Longrightarrow> engagement_step c ev r c' \<Longrightarrow>
    (\<forall>n e a. ev = EvTarget n e a \<longrightarrow> r \<noteq> ErOk) \<Longrightarrow> engagement_reachable c' ts"

section \<open>Invariant\<close>

abbreviation tracking_modes :: "engagement_mode set" where
  "tracking_modes \<equiv> {EgActiveTracking, EgHoldRejected}"

definition later_target :: "int \<times> int \<Rightarrow> int \<times> int \<Rightarrow> bool" where
  "later_target x y \<longleftrightarrow> fst x < fst y \<or> fst x = fst y \<and> snd x < snd y"

definition engaged_modes :: "engagement_mode set" where
  "engaged_modes = {EgEngaging, EgActiveTracking, EgHoldRejected, EgControlledBraking, EgStoppedReady}"

definition capture_ok :: "coordinator \<Rightarrow> bool" where
  "capture_ok c \<longleftrightarrow>
     (\<exists>k. eg_capture c = Some k \<and> ec_safety_epoch k = eg_safety_epoch c \<and> measurement_valid (ec_robot_reference k)
        \<and> ec_input_sequence k \<le> eg_latest_input_sequence c)
     \<and> eg_latest_input_pose c \<noteq> None"

definition engagement_inv :: "coordinator \<Rightarrow> (int \<times> int) list \<Rightarrow> bool" where
  "engagement_inv c ts \<longleftrightarrow>
     sorted_wrt later_target ts
     \<and> (\<forall>(e, n) \<in> set ts. 0 < n \<and> (e < eg_safety_epoch c \<or> e = eg_safety_epoch c \<and> n \<le> eg_last_target_sequence c))
     \<and> 0 \<le> eg_last_target_sequence c
     \<and> (eg_mode c \<in> engaged_modes \<longrightarrow> capture_ok c)
     \<and> (eg_mode c \<in> {EgControlledBraking, EgStoppedReady} \<longrightarrow>
          eg_frozen_source_sequence c = eg_last_target_sequence c)
     \<and> eg_safety_epoch c = int (eg_history_clears c)"

lemmas engagement_defs = initialize_disengaged_def observe_input_def begin_engagement_def complete_engagement_def
  note_target_def request_release_def braking_complete_def hard_stop_def reset_hard_stop_def

lemma engagement_inv_start: "engagement_inv new_coordinator []"
  by (simp add: engagement_inv_def new_coordinator_def engaged_modes_def)

text \<open>Events other than an accepted target: either epoch and sequence stay, or a new epoch starts.\<close>

lemma engagement_other_cases:
  assumes "engagement_apply c ev = (c', r)" and "\<forall>n e a. ev = EvTarget n e a \<longrightarrow> r \<noteq> ErOk" and "engagement_inv c ts"
  obtains (same) "eg_safety_epoch c' = eg_safety_epoch c" "eg_last_target_sequence c' = eg_last_target_sequence c"
      "eg_history_clears c' = eg_history_clears c"
      "eg_mode c' \<in> engaged_modes \<longrightarrow> capture_ok c'"
      "eg_mode c' \<in> {EgControlledBraking, EgStoppedReady} \<longrightarrow> eg_frozen_source_sequence c' = eg_last_target_sequence c'"
  | (fresh) "eg_safety_epoch c' = eg_safety_epoch c + 1" "eg_last_target_sequence c' = 0"
      "eg_history_clears c' = eg_history_clears c + 1"
      "eg_mode c' \<in> engaged_modes \<longrightarrow> capture_ok c'"
      "eg_mode c' \<notin> {EgControlledBraking, EgStoppedReady}"
proof -
  have inv: "eg_mode c \<in> engaged_modes \<longrightarrow> capture_ok c"
    "eg_mode c \<in> {EgControlledBraking, EgStoppedReady} \<longrightarrow> eg_frozen_source_sequence c = eg_last_target_sequence c"
    using assms(3) by (simp_all add: engagement_inv_def)
  show thesis
  proof (cases ev)
    case (EvInitialize m)
    with assms(1) inv same show thesis
      by (auto simp: initialize_disengaged_def engaged_modes_def split: if_split_asm)
  next
    case (EvObserve n p)
    with assms(1) inv same show thesis
      by (auto simp: observe_input_def Let_def capture_ok_def split: if_split_asm)
  next
    case (EvBegin m now_ns)
    show thesis
    proof (cases "eg_mode c \<in> {EgDisengaged, EgStoppedReady} \<and> measurement_valid m \<and> eg_latest_input_pose c \<noteq> None")
      case True
      with assms(1) EvBegin fresh show thesis
        by (auto simp: begin_engagement_def Let_def capture_ok_def)
    next
      case False
      then have "c' = c" using assms(1) EvBegin
        by (auto simp: begin_engagement_def Let_def split: if_split_asm option.split_asm)
      with inv same show thesis by simp
    qed
  next
    case EvComplete
    with assms(1) inv same show thesis
      by (auto simp: complete_engagement_def engaged_modes_def capture_ok_def split: if_split_asm)
  next
    case (EvTarget n e a)
    with assms(1,2) inv same show thesis
      by (auto simp: note_target_def capture_ok_def split: if_split_asm)
  next
    case EvRelease
    with assms(1) inv same show thesis
      by (auto simp: request_release_def engaged_modes_def capture_ok_def split: if_split_asm)
  next
    case EvBraked
    with assms(1) inv same show thesis
      by (auto simp: braking_complete_def engaged_modes_def capture_ok_def split: if_split_asm)
  next
    case EvHardStop
    with assms(1) same show thesis by (auto simp: hard_stop_def engaged_modes_def)
  next
    case (EvResetHardStop m)
    show thesis
    proof (cases "eg_mode c = EgHardStopped \<and> measurement_valid m")
      case True
      with assms(1) EvResetHardStop fresh show thesis
        by (auto simp: reset_hard_stop_def engaged_modes_def)
    next
      case False
      then have "c' = c" using assms(1) EvResetHardStop by (auto simp: reset_hard_stop_def split: if_split_asm)
      with inv same show thesis by simp
    qed
  qed
qed

lemma engagement_inv_other:
  assumes "engagement_inv c ts" and "engagement_step c ev r c'" and "\<forall>n e a. ev = EvTarget n e a \<longrightarrow> r \<noteq> ErOk"
  shows "engagement_inv c' ts"
proof -
  have ap: "engagement_apply c ev = (c', r)" using assms(2) by (auto elim: engagement_stepE)
  from ap assms(3,1) show ?thesis
  proof (cases rule: engagement_other_cases)
    case same
    then show ?thesis
      using assms(1) same(4) same(5)[unfolded same(2)] unfolding engagement_inv_def same(1-3) by blast
  next
    case fresh
    then show ?thesis using assms(1) by (auto simp: engagement_inv_def)
  qed
qed

lemma engagement_inv_accept:
  assumes "engagement_inv c ts" and "engagement_step c (EvTarget n e a) ErOk c'"
  shows "engagement_inv c' (ts @ [(e, n)]) \<and> eg_mode c \<in> tracking_modes \<and> e = eg_safety_epoch c"
proof -
  have ap: "note_target c n e a = (c', ErOk)" using assms(2) by (auto elim: engagement_stepE)
  then have f: "e = eg_safety_epoch c" "eg_mode c \<in> tracking_modes" "eg_last_target_sequence c < n"
    "c' = c\<lparr>eg_last_target_sequence := n, eg_mode := (if a then EgActiveTracking else EgHoldRejected)\<rparr>"
    by (auto simp: note_target_def split: if_split_asm)
  have k: "capture_ok c" using assms(1) f(2) by (auto simp: engagement_inv_def engaged_modes_def)
  have "capture_ok c'" using k f(4) by (auto simp: capture_ok_def)
  then show ?thesis
    using assms(1) f
    by (auto simp: engagement_inv_def sorted_wrt_append later_target_def)
qed

lemma engagement_reachable_inv: "engagement_reachable c ts \<Longrightarrow> engagement_inv c ts"
  by (induction rule: engagement_reachable.induct)
    (auto intro: engagement_inv_start engagement_inv_other dest: engagement_inv_accept)

text \<open>C17. Safety epochs separate engagements: over every run the accepted targets have increasing epochs and, within an
  epoch, increasing positive sequence numbers; whenever the coordinator is engaged, tracking, braking
  or stopped it holds a capture of the current epoch taken from a valid measurement and a seen input;
  a relative pose exists exactly while tracking; and the frozen sequence of a release is the last
  accepted target.\<close>

theorem engagement_epochs_separate:
  assumes "engagement_reachable c ts"
  shows "sorted_wrt later_target ts
    \<and> (\<forall>(e, n) \<in> set ts. 0 < n \<and> e \<le> eg_safety_epoch c)
    \<and> (eg_mode c \<in> engaged_modes \<longrightarrow> (\<exists>k. eg_capture c = Some k \<and> ec_safety_epoch k = eg_safety_epoch c
         \<and> measurement_valid (ec_robot_reference k) \<and> ec_input_sequence k \<le> eg_latest_input_sequence c))
    \<and> (relative_pose_of c \<noteq> None \<longleftrightarrow> eg_mode c \<in> tracking_modes)
    \<and> (eg_mode c \<in> {EgControlledBraking, EgStoppedReady} \<longrightarrow>
         eg_frozen_source_sequence c = eg_last_target_sequence c)"
proof -
  have inv: "engagement_inv c ts" using assms by (rule engagement_reachable_inv)
  then have "eg_mode c \<in> tracking_modes \<Longrightarrow> relative_pose_of c \<noteq> None"
    by (auto simp: engagement_inv_def engaged_modes_def capture_ok_def relative_pose_of_def Let_def)
  moreover have "relative_pose_of c \<noteq> None \<Longrightarrow> eg_mode c \<in> tracking_modes"
    by (auto simp: relative_pose_of_def split: if_split_asm)
  moreover have "\<forall>(e, n) \<in> set ts. 0 < n \<and> e \<le> eg_safety_epoch c" using inv by (fastforce simp: engagement_inv_def)
  ultimately show ?thesis using inv unfolding engagement_inv_def capture_ok_def by blast
qed

definition demo_measured :: measured_state where
  "demo_measured = \<lparr>ms_sequence = 1, ms_monotonic_ns = 5, ms_position_rad = [Fin 0], ms_velocity_rad_s = [Fin 0],
     ms_acceleration_rad_s2 = [Fin 0], ms_valid = True\<rparr>"

definition demo_spatial :: spatial_pose where
  "demo_spatial = \<lparr>sp_position_m = [Fin 0, Fin 0, Fin 0], sp_orientation_wxyz = [Fin 1, Fin 0, Fin 0, Fin 0]\<rparr>"

lemma engagement_silent:
  "engagement_reachable c ts \<Longrightarrow> engagement_apply c ev = (c', r) \<Longrightarrow> (\<forall>n e a. ev \<noteq> EvTarget n e a)
     \<Longrightarrow> engagement_reachable c' ts"
  by (rule engagement_reachable.other) (auto intro: engagement_step.intros)

text \<open>Without targets, a list of events.\<close>

fun engagement_run :: "coordinator \<Rightarrow> engagement_event list \<Rightarrow> coordinator" where
  "engagement_run c [] = c"
| "engagement_run c (ev # evs) = engagement_run (fst (engagement_apply c ev)) evs"

lemma engagement_run_reachable:
  "engagement_reachable c ts \<Longrightarrow> \<forall>ev \<in> set evs. \<forall>n e a. ev \<noteq> EvTarget n e a \<Longrightarrow> engagement_reachable (engagement_run c evs) ts"
proof (induction evs arbitrary: c)
  case (Cons ev evs)
  have "engagement_reachable (fst (engagement_apply c ev)) ts"
    using Cons.prems by (intro engagement_silent[OF Cons.prems(1) prod.collapse[symmetric]]) simp
  then show ?case using Cons.IH Cons.prems(2) by simp
qed simp

theorem engagement_epochs_separate_witness:
  "relative_pose_of (engagement_run new_coordinator [EvInitialize demo_measured, EvObserve 1 demo_spatial,
      EvBegin demo_measured 7, EvComplete]) \<noteq> None"
proof -
  let ?c = "engagement_run new_coordinator [EvInitialize demo_measured, EvObserve 1 demo_spatial,
      EvBegin demo_measured 7, EvComplete]"
  have "engagement_reachable ?c []"
    by (rule engagement_run_reachable[OF engagement_reachable.start]) simp
  moreover have "eg_mode ?c = EgActiveTracking"
    by (simp add: engagement_defs new_coordinator_def measurement_valid_def demo_measured_def Let_def)
  ultimately show ?thesis using engagement_epochs_separate by blast
qed

section \<open>Recovery\<close>

text \<open>From a disengaged or stopped coordinator with an input pose two calls start tracking.\<close>

lemma engage_from_rest:
  assumes "eg_mode c \<in> {EgDisengaged, EgStoppedReady}" and "eg_latest_input_pose c \<noteq> None" and "measurement_valid m"
  shows "eg_mode (engagement_run c [EvBegin m now_ns, EvComplete]) = EgActiveTracking
    \<and> eg_safety_epoch (engagement_run c [EvBegin m now_ns, EvComplete]) = eg_safety_epoch c + 1"
  using assms by (auto simp: begin_engagement_def complete_engagement_def Let_def)

lemma observe_next:
  "eg_latest_input_pose (engagement_run c [EvObserve (eg_latest_input_sequence c + 1) p]) = Some p
   \<and> eg_mode (engagement_run c [EvObserve (eg_latest_input_sequence c + 1) p]) = eg_mode c
   \<and> eg_safety_epoch (engagement_run c [EvObserve (eg_latest_input_sequence c + 1) p]) = eg_safety_epoch c"
  by (simp add: observe_input_def Let_def)

text \<open>The calls that bring any mode to rest.\<close>

fun rest_events :: "engagement_mode \<Rightarrow> measured_state \<Rightarrow> engagement_event list" where
  "rest_events EgUninitialized m = [EvInitialize m]"
| "rest_events EgDisengaged m = []"
| "rest_events EgEngaging m = [EvComplete, EvRelease, EvBraked]"
| "rest_events EgActiveTracking m = [EvRelease, EvBraked]"
| "rest_events EgHoldRejected m = [EvRelease, EvBraked]"
| "rest_events EgControlledBraking m = [EvBraked]"
| "rest_events EgStoppedReady m = []"
| "rest_events EgHardStopped m = [EvResetHardStop m]"

lemma engagement_run_append: "engagement_run c (xs @ ys) = engagement_run (engagement_run c xs) ys"
  by (induction xs arbitrary: c) simp_all

lemma rest_reached:
  assumes "engagement_inv c ts" and "measurement_valid m"
  shows "eg_mode (engagement_run c (rest_events (eg_mode c) m)) \<in> {EgDisengaged, EgStoppedReady}
    \<and> eg_safety_epoch c \<le> eg_safety_epoch (engagement_run c (rest_events (eg_mode c) m))"
proof (cases "eg_mode c")
  case EgEngaging
  then have "eg_capture c \<noteq> None" using assms(1) by (auto simp: engagement_inv_def engaged_modes_def capture_ok_def)
  with EgEngaging show ?thesis by (simp add: complete_engagement_def request_release_def braking_complete_def)
qed (use assms(2) in \<open>simp_all add: engagement_defs\<close>)

text \<open>The coordinator is recoverable: from every reachable state, whatever mode it stopped in, a valid measurement
  and one new input pose suffice to reach active tracking in a new epoch, by at most six calls.\<close>

theorem engagement_recovers:
  assumes "engagement_reachable c ts" and "measurement_valid m"
  shows "\<exists>evs. length evs \<le> 6 \<and> eg_mode (engagement_run c evs) = EgActiveTracking
    \<and> eg_safety_epoch c < eg_safety_epoch (engagement_run c evs)"
proof -
  let ?c1 = "engagement_run c (rest_events (eg_mode c) m)"
  let ?c2 = "engagement_run ?c1 [EvObserve (eg_latest_input_sequence ?c1 + 1) demo_spatial]"
  let ?evs = "rest_events (eg_mode c) m @ [EvObserve (eg_latest_input_sequence ?c1 + 1) demo_spatial] @ [EvBegin m 0, EvComplete]"
  have "engagement_inv c ts" using assms(1) by (rule engagement_reachable_inv)
  note rest = rest_reached[OF this assms(2)]
  note ob = observe_next[of ?c1 demo_spatial]
  have "eg_mode (engagement_run ?c2 [EvBegin m 0, EvComplete]) = EgActiveTracking
    \<and> eg_safety_epoch (engagement_run ?c2 [EvBegin m 0, EvComplete]) = eg_safety_epoch ?c2 + 1"
    using rest ob by (intro engage_from_rest assms(2)) auto
  then have "eg_mode (engagement_run c ?evs) = EgActiveTracking \<and> eg_safety_epoch c < eg_safety_epoch (engagement_run c ?evs)"
    using rest ob unfolding engagement_run_append by linarith
  moreover have "length ?evs \<le> 6" by (cases "eg_mode c") simp_all
  ultimately show ?thesis by blast
qed

theorem engagement_recovers_witness:
  "\<exists>evs. eg_mode (engagement_run (hard_stop new_coordinator) evs) = EgActiveTracking"
proof -
  have "engagement_reachable (hard_stop new_coordinator) []"
    by (rule engagement_silent[OF engagement_reachable.start, of EvHardStop]) simp_all
  moreover have "measurement_valid demo_measured" by (simp add: measurement_valid_def demo_measured_def)
  ultimately show ?thesis using engagement_recovers by blast
qed

end
