(* ===== verification/TemporalExecutor.thy ===== *)
theory TemporalExecutor
  imports PyFloat "HOL-Library.Product_Lexorder" "HOL-Library.Multiset"
begin

text \<open>
  The temporal ensemble of action chunks, \<open>src/embodiment_core/act_temporal_executor.py\<close>. The dictionary
  from command ticks to buffered points is an association list in insertion order; a point is a
  prediction with one of its horizons. Numpy's exponential, sum and weighted average are parameters.
\<close>

section \<open>Data\<close>

record prediction =
  tp_query_id :: int
  tp_query_timestamp_ns :: int
  tp_query_command_tick :: int
  tp_chunk :: "pyfloat list list"

type_synonym te_point = "prediction \<times> nat"

record contributor =
  tc_query_id :: int
  tc_query_timestamp_ns :: int
  tc_query_command_tick :: int
  tc_source_horizon :: nat
  tc_target_command_tick :: int
  tc_predicted_action :: "pyfloat list"
  tc_ensemble_weight :: pyfloat

record temporal_selection =
  ts_command_tick :: int
  ts_action :: "pyfloat list option"
  ts_contributors :: "contributor list"
  ts_fallback_used :: bool
  ts_fallback_action_age_ticks :: "int option"

record ensembler =
  te_action_dim :: nat
  te_chunk_size :: nat
  te_coefficient :: pyfloat
  te_max_source_horizon :: nat
  te_max_prediction_age_ticks :: "int option"
  te_capacity :: int
  te_by_tick :: "(int \<times> te_point list) list"
  te_entry_count :: int
  te_last_action :: "pyfloat list option"
  te_last_action_tick :: "int option"
  te_predictions_added :: nat
  te_points_added :: nat
  te_capacity_dropped :: nat
  te_expired :: nat
  te_age_expired :: nat
  te_selected_ticks :: nat
  te_fallback_ticks :: nat

datatype te_error = TeShape | TeCoefficient | TeHorizon | TeAge | TeCapacity | TeChunk | TeMinEmpty | TePopEmpty

section \<open>Operations\<close>

definition mk_ensembler ::
  "int \<Rightarrow> int \<Rightarrow> pyfloat \<Rightarrow> int option \<Rightarrow> int option \<Rightarrow> int \<Rightarrow> (te_error, ensembler) res" where
  "mk_ensembler action_dim chunk_size coefficient max_source_horizon max_prediction_age_ticks capacity =
     (if action_dim < 1 \<or> chunk_size < 1 then Inl TeShape
      else if \<not> is_finite coefficient then Inl TeCoefficient
      else if (case max_source_horizon of None \<Rightarrow> False | Some h \<Rightarrow> \<not> (0 \<le> h \<and> h < chunk_size)) then Inl TeHorizon
      else if (case max_prediction_age_ticks of None \<Rightarrow> False | Some a \<Rightarrow> a < 0) then Inl TeAge
      else if capacity < 1 then Inl TeCapacity
      else Inr \<lparr>te_action_dim = nat action_dim, te_chunk_size = nat chunk_size, te_coefficient = coefficient,
                te_max_source_horizon = nat (case max_source_horizon of None \<Rightarrow> chunk_size - 1 | Some h \<Rightarrow> h),
                te_max_prediction_age_ticks = max_prediction_age_ticks, te_capacity = capacity,
                te_by_tick = [], te_entry_count = 0, te_last_action = None, te_last_action_tick = None,
                te_predictions_added = 0, te_points_added = 0, te_capacity_dropped = 0, te_expired = 0,
                te_age_expired = 0, te_selected_ticks = 0, te_fallback_ticks = 0\<rparr>)"

definition te_reset :: "ensembler \<Rightarrow> ensembler" where
  "te_reset s = s\<lparr>te_by_tick := [], te_entry_count := 0, te_last_action := None, te_last_action_tick := None\<rparr>"

text \<open>\<open>setdefault(tick, []).append(point)\<close>\<close>

fun bucket_append :: "int \<Rightarrow> te_point \<Rightarrow> (int \<times> te_point list) list \<Rightarrow> (int \<times> te_point list) list" where
  "bucket_append t x [] = [(t, [x])]"
| "bucket_append t x ((k, es) # bs) = (if k = t then (k, es @ [x]) # bs else (k, es) # bucket_append t x bs)"

definition bucket_at :: "(int \<times> te_point list) list \<Rightarrow> int \<Rightarrow> te_point list" where
  "bucket_at bs t = (case map_of bs t of None \<Rightarrow> [] | Some es \<Rightarrow> es)"

definition te_store :: "prediction \<Rightarrow> nat \<Rightarrow> ensembler \<Rightarrow> ensembler" where
  "te_store p horizon s =
     s\<lparr>te_by_tick := bucket_append (tp_query_command_tick p + int horizon) (p, horizon) (te_by_tick s),
       te_entry_count := te_entry_count s + 1\<rparr>"

text \<open>\<open>entries.pop(0)\<close> and the removal of an emptied entry.\<close>

definition bucket_rest :: "int \<Rightarrow> te_point list \<Rightarrow> (int \<times> te_point list) list \<Rightarrow> (int \<times> te_point list) list" where
  "bucket_rest t es bs =
     (if es = [] then filter (\<lambda>b. fst b \<noteq> t) bs else map (\<lambda>b. if fst b = t then (t, es) else b) bs)"

function te_trim :: "ensembler \<Rightarrow> (te_error, ensembler) res" where
  "te_trim s =
     (if te_entry_count s \<le> te_capacity s then Inr s
      else if te_by_tick s = [] then Inl TeMinEmpty
      else let oldest = min_list (map fst (te_by_tick s)) in
        case bucket_at (te_by_tick s) oldest of
          [] \<Rightarrow> Inl TePopEmpty
        | x # es \<Rightarrow>
            te_trim (s\<lparr>te_by_tick := bucket_rest oldest es (te_by_tick s),
                       te_entry_count := te_entry_count s - 1,
                       te_capacity_dropped := te_capacity_dropped s + 1\<rparr>))"
  by pat_completeness auto

termination
  by (relation "measure (\<lambda>s. nat (te_entry_count s - te_capacity s))") auto

declare te_trim.simps [simp del]

definition chunk_ok :: "ensembler \<Rightarrow> pyfloat list list \<Rightarrow> bool" where
  "chunk_ok s chunk \<longleftrightarrow> length chunk = te_chunk_size s \<and> list_all (\<lambda>row. length row = te_action_dim s) chunk
     \<and> list_all (list_all is_finite) chunk"

definition add_prediction ::
  "ensembler \<Rightarrow> int \<Rightarrow> int \<Rightarrow> int \<Rightarrow> pyfloat list list \<Rightarrow> (te_error, ensembler \<times> nat) res" where
  "add_prediction s query_id query_timestamp_ns query_command_tick chunk =
     (if \<not> chunk_ok s chunk then Inl TeChunk
      else
        let p = \<lparr>tp_query_id = query_id, tp_query_timestamp_ns = query_timestamp_ns,
                 tp_query_command_tick = query_command_tick, tp_chunk = chunk\<rparr>;
            s1 = fold (te_store p) [0..<te_max_source_horizon s + 1] s;
            added = te_max_source_horizon s + 1;
            s2 = s1\<lparr>te_predictions_added := te_predictions_added s1 + 1,
                    te_points_added := te_points_added s1 + added\<rparr> in
        rbind (te_trim s2) (\<lambda>s3. Inr (s3, added)))"

definition expire_before :: "ensembler \<Rightarrow> int \<Rightarrow> ensembler" where
  "expire_before s tick =
     (let gone = sum_list (map (\<lambda>b. length (snd b)) (filter (\<lambda>b. fst b < tick) (te_by_tick s))) in
      s\<lparr>te_expired := te_expired s + gone, te_entry_count := te_entry_count s - int gone,
        te_by_tick := filter (\<lambda>b. \<not> fst b < tick) (te_by_tick s)\<rparr>)"

definition te_age_ok :: "int option \<Rightarrow> int \<Rightarrow> te_point \<Rightarrow> bool" where
  "te_age_ok max_age tick x =
     (case max_age of None \<Rightarrow> True | Some a \<Rightarrow> \<not> a < tick - tp_query_command_tick (fst x))"

definition te_order :: "te_point \<Rightarrow> int \<times> int" where
  "te_order x = (tp_query_command_tick (fst x), tp_query_id (fst x))"

definition te_weights :: "(pyfloat \<Rightarrow> pyfloat) \<Rightarrow> (pyfloat list \<Rightarrow> pyfloat) \<Rightarrow> pyfloat \<Rightarrow> nat \<Rightarrow> pyfloat list" where
  "te_weights np_exp np_sum coefficient n =
     (let unnormalized = map (\<lambda>k. np_exp (fmul (fneg coefficient) (Fin (of_nat k)))) [0..<n] in
      map (\<lambda>w. fdiv w (np_sum unnormalized)) unnormalized)"

definition mk_contributor :: "int \<Rightarrow> te_point \<Rightarrow> pyfloat \<Rightarrow> contributor" where
  "mk_contributor tick x weight =
     \<lparr>tc_query_id = tp_query_id (fst x), tc_query_timestamp_ns = tp_query_timestamp_ns (fst x),
      tc_query_command_tick = tp_query_command_tick (fst x), tc_source_horizon = snd x,
      tc_target_command_tick = tick, tc_predicted_action = tp_chunk (fst x) ! snd x, tc_ensemble_weight = weight\<rparr>"

definition te_select ::
  "(pyfloat \<Rightarrow> pyfloat) \<Rightarrow> (pyfloat list \<Rightarrow> pyfloat) \<Rightarrow> (pyfloat list list \<Rightarrow> pyfloat list \<Rightarrow> pyfloat list)
     \<Rightarrow> ensembler \<Rightarrow> int \<Rightarrow> ensembler \<times> temporal_selection" where
  "te_select np_exp np_sum np_average s tick =
     (let s1 = expire_before s tick;
          raw_candidates = bucket_at (te_by_tick s1) tick;
          candidates = filter (te_age_ok (te_max_prediction_age_ticks s1) tick) raw_candidates;
          s2 = s1\<lparr>te_by_tick := filter (\<lambda>b. fst b \<noteq> tick) (te_by_tick s1),
                  te_entry_count := te_entry_count s1 - int (length raw_candidates),
                  te_age_expired := te_age_expired s1 + (length raw_candidates - length candidates)\<rparr> in
      if candidates \<noteq> [] then
        let ordered = sort_key te_order candidates;
            weights = te_weights np_exp np_sum (te_coefficient s2) (length ordered);
            contributors = map2 (mk_contributor tick) ordered weights;
            action = np_average (map tc_predicted_action contributors) weights in
        (s2\<lparr>te_last_action := Some action, te_last_action_tick := Some tick,
            te_selected_ticks := te_selected_ticks s2 + 1\<rparr>,
         \<lparr>ts_command_tick = tick, ts_action = Some action, ts_contributors = contributors,
          ts_fallback_used = False, ts_fallback_action_age_ticks = None\<rparr>)
      else
        (s2\<lparr>te_fallback_ticks := te_fallback_ticks s2 + 1\<rparr>,
         \<lparr>ts_command_tick = tick, ts_action = te_last_action s2, ts_contributors = [], ts_fallback_used = True,
          ts_fallback_action_age_ticks = map_option (\<lambda>last_tick. tick - last_tick) (te_last_action_tick s2)\<rparr>))"

section \<open>Buckets and the target-ordered queue\<close>

definition te_target :: "te_point \<Rightarrow> int" where
  "te_target x = tp_query_command_tick (fst x) + int (snd x)"

definition points :: "(int \<times> te_point list) list \<Rightarrow> te_point list" where
  "points bs = concat (map snd bs)"

definition buckets_ok :: "(int \<times> te_point list) list \<Rightarrow> bool" where
  "buckets_ok bs \<longleftrightarrow> distinct (map fst bs) \<and> (\<forall>b \<in> set bs. snd b \<noteq> [] \<and> (\<forall>x \<in> set (snd b). te_target x = fst b))"

text \<open>The queue a dictionary stands for: its points by target tick, and in order of arrival within a tick.\<close>

definition te_queue :: "(int \<times> te_point list) list \<Rightarrow> te_point list" where
  "te_queue bs = sort_key te_target (points bs)"

lemma buckets_ok_Nil [simp]: "buckets_ok []"
  by (simp add: buckets_ok_def)

lemma buckets_ok_Cons: "buckets_ok ((k, es) # bs) \<longleftrightarrow>
    buckets_ok bs \<and> k \<notin> fst ` set bs \<and> es \<noteq> [] \<and> (\<forall>x \<in> set es. te_target x = k)"
  by (auto simp: buckets_ok_def)

lemma points_simps [simp]: "points [] = []" "points ((k, es) # bs) = es @ points bs"
  by (simp_all add: points_def)

lemma filter_points: "buckets_ok bs \<Longrightarrow> filter (\<lambda>x. te_target x = t) (points bs) = bucket_at bs t"
proof (induction bs)
  case (Cons b bs)
  obtain k es where b: "b = (k, es)" by (cases b)
  have "filter (\<lambda>x. te_target x = t) es = (if k = t then es else [])"
    using Cons.prems by (auto simp: b buckets_ok_Cons filter_id_conv filter_empty_conv)
  moreover have "map_of bs k = None" using Cons.prems by (simp add: b buckets_ok_Cons map_of_eq_None_iff)
  ultimately show ?case using Cons by (auto simp: b buckets_ok_Cons bucket_at_def)
qed (simp add: bucket_at_def)

lemma sort_key_cong:
  assumes "\<And>k. filter (\<lambda>x. f x = k) xs = filter (\<lambda>x. f x = k) ys"
  shows "sort_key (f :: 'a \<Rightarrow> int) xs = sort_key f ys"
proof (rule properties_for_sort_key)
  have "count (mset ys) a = count (mset xs) a" for a
  proof -
    have c: "count (mset zs) a = count (mset (filter (\<lambda>x. f x = f a) zs)) a" for zs by simp
    show ?thesis unfolding c[of xs] c[of ys] assms[of "f a"] by (rule refl)
  qed
  then show "mset (sort_key f ys) = mset xs" by (simp add: multiset_eq_iff)
next
  fix k assume "k \<in> set (sort_key f ys)"
  have "filter (\<lambda>x. f k = f x) (sort_key f ys) = filter (\<lambda>x. f x = f k) ys"
    using sort_key_stable[of f "f k" ys] by (simp add: eq_commute[of "f k"])
  then show "filter (\<lambda>x. f k = f x) (sort_key f ys) = filter (\<lambda>x. f k = f x) xs"
    using assms[of "f k"] by (simp add: eq_commute[of "f k"])
qed simp

lemma bucket_append_ok:
  "buckets_ok bs \<Longrightarrow> te_target x = t \<Longrightarrow> buckets_ok (bucket_append t x bs)
    \<and> fst ` set (bucket_append t x bs) = insert t (fst ` set bs)"
  by (induction t x bs rule: bucket_append.induct) (auto simp: buckets_ok_Cons)

lemma bucket_append_at:
  "bucket_at (bucket_append t x bs) k = bucket_at bs k @ (if k = t then [x] else [])"
  by (induction t x bs rule: bucket_append.induct) (auto simp: bucket_at_def split: option.splits)

lemma bucket_append_length: "length (points (bucket_append t x bs)) = length (points bs) + 1"
  by (induction t x bs rule: bucket_append.induct) auto

lemma bucket_append_set: "set (points (bucket_append t x bs)) = insert x (set (points bs))"
  by (induction t x bs rule: bucket_append.induct) auto

lemma queue_append:
  assumes "buckets_ok bs" and "te_target x = t"
  shows "te_queue (bucket_append t x bs) = sort_key te_target (points bs @ [x])"
  unfolding te_queue_def
proof (rule sort_key_cong)
  fix k
  show "filter (\<lambda>y. te_target y = k) (points (bucket_append t x bs)) = filter (\<lambda>y. te_target y = k) (points bs @ [x])"
    using filter_points bucket_append_ok[OF assms] assms bucket_append_at[of t x bs k] by auto
qed

lemma bucket_rest_ok:
  assumes "buckets_ok bs" and "bucket_at bs t = x # es"
  shows "buckets_ok (bucket_rest t es bs)"
    and "\<And>k. bucket_at (bucket_rest t es bs) k = (if k = t then es else bucket_at bs k)"
proof -
  have "set (x # es) = set (filter (\<lambda>y. te_target y = t) (points bs))"
    unfolding filter_points[OF assms(1)] assms(2) by (rule refl)
  then have x: "\<forall>y \<in> set (x # es). te_target y = t" by auto
  have keys: "map fst (map (\<lambda>b. if fst b = t then (t, es) else b) bs) = map fst bs" by (induction bs) auto
  show "buckets_ok (bucket_rest t es bs)"
  proof (cases "es = []")
    case True
    then show ?thesis using assms(1) by (auto simp: bucket_rest_def buckets_ok_def distinct_map_filter)
  next
    case False
    then have "distinct (map fst (bucket_rest t es bs))" unfolding bucket_rest_def
      using assms(1) keys by (simp add: buckets_ok_def del: map_map)
    with False show ?thesis using assms(1) x by (auto simp: bucket_rest_def buckets_ok_def)
  qed
  show "bucket_at (bucket_rest t es bs) k = (if k = t then es else bucket_at bs k)" for k
  proof (cases "es = []")
    case True
    have "map_of (filter (\<lambda>b. fst b \<noteq> t) bs) k = (if k = t then None else map_of bs k)" by (induction bs) auto
    with True show ?thesis by (simp add: bucket_rest_def bucket_at_def)
  next
    case False
    have "map_of (map (\<lambda>b. if fst b = t then (t, es) else b) bs) k
        = (if k = t then map_option (\<lambda>_. es) (map_of bs k) else map_of bs k)" by (induction bs) auto
    with False assms(2) show ?thesis by (auto simp: bucket_rest_def bucket_at_def split: option.splits)
  qed
qed

lemma points_eq_queue [simp]: "set (te_queue bs) = set (points bs)" "length (te_queue bs) = length (points bs)"
  by (simp_all add: te_queue_def)

lemma queue_filter: "buckets_ok bs \<Longrightarrow> filter (\<lambda>x. te_target x = k) (te_queue bs) = bucket_at bs k"
  by (simp add: te_queue_def sort_key_stable filter_points)

text \<open>Two queues in target order with the same points at every tick are the same.\<close>

lemma queue_unique:
  assumes "sorted (map te_target xs)" and "\<And>k. filter (\<lambda>x. te_target x = k) xs = bucket_at bs k" and "buckets_ok bs"
  shows "te_queue bs = xs"
proof -
  have "te_queue bs = sort_key te_target xs"
    unfolding te_queue_def by (rule sort_key_cong) (simp add: filter_points assms)
  also have "\<dots> = xs" using assms(1) by (simp add: sort_key_id_if_sorted)
  finally show ?thesis .
qed

lemma queue_rest:
  assumes "buckets_ok bs" and "bs \<noteq> []"
  shows "\<exists>x es. bucket_at bs (min_list (map fst bs)) = x # es
    \<and> te_queue bs = x # te_queue (bucket_rest (min_list (map fst bs)) es bs)"
proof -
  let ?t = "min_list (map fst bs)"
  have t: "?t = Min (fst ` set bs)" using assms(2) by (simp add: min_list_Min)
  then obtain es0 where "(?t, es0) \<in> set bs" using Min_in[of "fst ` set bs"] assms(2) by fastforce
  then have at: "bucket_at bs ?t = es0" "es0 \<noteq> []" "\<forall>y \<in> set es0. te_target y = ?t"
    using assms(1) by (fastforce simp: bucket_at_def buckets_ok_def)+
  then obtain x es where x: "bucket_at bs ?t = x # es" "te_target x = ?t" by (cases es0) auto
  note rest = bucket_rest_ok[OF assms(1) x(1)]
  have least: "?t \<le> te_target y" if y: "y \<in> set (points bs)" for y
  proof -
    obtain b where "b \<in> set bs" "y \<in> set (snd b)" using y by (auto simp: points_def)
    moreover from this have "te_target y = fst b" using assms(1) unfolding buckets_ok_def by blast
    ultimately have "te_target y \<in> fst ` set bs" by simp
    then show ?thesis unfolding t by (intro Min_le) auto
  qed
  have sub: "set (points (bucket_rest ?t es bs)) \<subseteq> set (points bs)"
  proof
    fix y assume "y \<in> set (points (bucket_rest ?t es bs))"
    then have "y \<in> set (bucket_at (bucket_rest ?t es bs) (te_target y))"
      using filter_points[OF rest(1), of "te_target y", symmetric] by simp
    then have "y \<in> set (bucket_at bs (te_target y))" using rest(2) x(1) by (auto split: if_split_asm)
    then show "y \<in> set (points bs)" using filter_points[OF assms(1), of "te_target y", symmetric] by simp
  qed
  have "te_queue bs = x # te_queue (bucket_rest ?t es bs)"
  proof (rule queue_unique[OF _ _ assms(1)])
    show "sorted (map te_target (x # te_queue (bucket_rest ?t es bs)))"
      using least sub x(2) by (auto simp: te_queue_def)
    fix k
    show "filter (\<lambda>y. te_target y = k) (x # te_queue (bucket_rest ?t es bs)) = bucket_at bs k"
      using queue_filter[OF rest(1), of k] rest(2)[of k] x by auto
  qed
  with x show ?thesis by blast
qed

text \<open>Trimming ends, never fails, and drops exactly the excess from the front of the queue.\<close>

definition trim_result :: "ensembler \<Rightarrow> ensembler \<Rightarrow> bool" where
  "trim_result s s' \<longleftrightarrow>
     (let n = nat (te_entry_count s - te_capacity s) in
      buckets_ok (te_by_tick s') \<and> te_queue (te_by_tick s') = drop n (te_queue (te_by_tick s))
      \<and> s' = s\<lparr>te_by_tick := te_by_tick s', te_entry_count := te_entry_count s - int n,
              te_capacity_dropped := te_capacity_dropped s + n\<rparr>)"

lemma te_trim_total:
  assumes "buckets_ok (te_by_tick s)" and "te_entry_count s = int (length (points (te_by_tick s)))" and "0 \<le> te_capacity s"
  shows "\<exists>s'. te_trim s = Inr s' \<and> trim_result s s'"
  using assms
proof (induction s rule: te_trim.induct)
  case (1 s)
  show ?case
  proof (cases "te_entry_count s \<le> te_capacity s")
    case True
    then show ?thesis using "1.prems" by (simp add: te_trim.simps[of s] trim_result_def)
  next
    case False
    then have ne: "te_by_tick s \<noteq> []" using "1.prems" by auto
    let ?t = "min_list (map fst (te_by_tick s))"
    obtain x es where x: "bucket_at (te_by_tick s) ?t = x # es"
      "te_queue (te_by_tick s) = x # te_queue (bucket_rest ?t es (te_by_tick s))"
      using queue_rest[OF "1.prems"(1) ne] by blast
    let ?s = "s\<lparr>te_by_tick := bucket_rest ?t es (te_by_tick s), te_entry_count := te_entry_count s - 1,
       te_capacity_dropped := te_capacity_dropped s + 1\<rparr>"
    have len: "length (points (te_by_tick s)) = Suc (length (points (bucket_rest ?t es (te_by_tick s))))"
      using arg_cong[OF x(2), of length] by simp
    have "\<exists>s'. te_trim ?s = Inr s' \<and> trim_result ?s s'"
      using "1.IH"[OF False ne refl x(1)] bucket_rest_ok(1)[OF "1.prems"(1) x(1)] "1.prems" len by simp
    then obtain s' where s': "te_trim ?s = Inr s'" "trim_result ?s s'" by blast
    have "te_trim s = te_trim ?s" using False ne x(1) by (simp add: te_trim.simps[of s])
    moreover have "nat (te_entry_count s - te_capacity s) = Suc (nat (te_entry_count s - 1 - te_capacity s))"
      using False by simp
    then have "trim_result s s'"
      using s'(2) x(2) unfolding trim_result_def Let_def by (simp add: algebra_simps del: nat_diff_distrib)
    ultimately show ?thesis using s'(1) by auto
  qed
qed

section \<open>Adding and selecting on the queue\<close>

definition queue_add :: "nat \<Rightarrow> te_point list \<Rightarrow> te_point list \<Rightarrow> te_point list" where
  "queue_add capacity new q = (let ys = sort_key te_target (q @ new) in drop (length ys - capacity) ys)"

definition queue_candidates :: "int option \<Rightarrow> int \<Rightarrow> te_point list \<Rightarrow> te_point list" where
  "queue_candidates max_age tick q =
     sort_key te_order (filter (te_age_ok max_age tick) (filter (\<lambda>x. te_target x = tick) q))"

lemma sort_key_append_cong:
  assumes "sort_key (f :: 'a \<Rightarrow> int) xs = sort_key f ys"
  shows "sort_key f (xs @ zs) = sort_key f (ys @ zs)"
proof (rule sort_key_cong)
  fix k
  show "filter (\<lambda>x. f x = k) (xs @ zs) = filter (\<lambda>x. f x = k) (ys @ zs)"
    using sort_key_stable[of f k xs] sort_key_stable[of f k ys] assms by simp
qed

lemma store_all:
  assumes "buckets_ok (te_by_tick s)"
  shows "buckets_ok (te_by_tick (fold (te_store p) [0..<n] s))
    \<and> te_queue (te_by_tick (fold (te_store p) [0..<n] s)) = sort_key te_target (points (te_by_tick s) @ map (Pair p) [0..<n])
    \<and> fold (te_store p) [0..<n] s = s\<lparr>te_by_tick := te_by_tick (fold (te_store p) [0..<n] s),
        te_entry_count := te_entry_count s + int n\<rparr>"
proof (induction n)
  case 0
  then show ?case using assms by (simp add: te_queue_def)
next
  case (Suc n)
  let ?s = "fold (te_store p) [0..<n] s"
  have t: "te_target (p, n) = tp_query_command_tick p + int n" by (simp add: te_target_def)
  have ok: "buckets_ok (te_by_tick ?s)" using Suc by blast
  have "te_queue (te_by_tick (te_store p n ?s)) = sort_key te_target (points (te_by_tick ?s) @ [(p, n)])"
    using queue_append[OF ok t] by (simp add: te_store_def)
  also have "\<dots> = sort_key te_target ((points (te_by_tick s) @ map (Pair p) [0..<n]) @ [(p, n)])"
    using Suc by (intro sort_key_append_cong) (simp add: te_queue_def)
  finally have "te_queue (te_by_tick (te_store p n ?s)) = sort_key te_target (points (te_by_tick s) @ map (Pair p) [0..<Suc n])"
    by simp
  moreover have "buckets_ok (te_by_tick (te_store p n ?s))"
    using bucket_append_ok[OF ok t] by (simp add: te_store_def)
  moreover have "te_store p n ?s = s\<lparr>te_by_tick := te_by_tick (te_store p n ?s), te_entry_count := te_entry_count s + int (Suc n)\<rparr>"
  proof -
    have "?s = s\<lparr>te_by_tick := te_by_tick ?s, te_entry_count := te_entry_count s + int n\<rparr>" using Suc by blast
    then have "te_store p n ?s = te_store p n (s\<lparr>te_by_tick := te_by_tick ?s, te_entry_count := te_entry_count s + int n\<rparr>)"
      by simp
    also have "\<dots> = s\<lparr>te_by_tick := te_by_tick (te_store p n ?s), te_entry_count := te_entry_count s + int (Suc n)\<rparr>"
      by (simp add: te_store_def)
    finally show ?thesis .
  qed
  ultimately show ?case by simp
qed

lemma points_filter:
  "buckets_ok bs \<Longrightarrow> points (filter (\<lambda>b. P (fst b)) bs) = filter (\<lambda>x. P (te_target x)) (points bs)"
proof (induction bs)
  case (Cons b bs)
  obtain k es where b: "b = (k, es)" by (cases b)
  have "filter (\<lambda>x. P (te_target x)) es = (if P k then es else [])"
    using Cons.prems by (auto simp: b buckets_ok_Cons filter_id_conv filter_empty_conv)
  then show ?case using Cons by (simp add: b buckets_ok_Cons)
qed simp

lemma buckets_ok_filter: "buckets_ok bs \<Longrightarrow> buckets_ok (filter P bs)"
  by (auto simp: buckets_ok_def distinct_map_filter)

lemma points_expired:
  "buckets_ok bs \<Longrightarrow> sum_list (map (\<lambda>b. length (snd b)) (filter (\<lambda>b. P (fst b)) bs))
     = length (filter (\<lambda>x. P (te_target x)) (points bs))"
  unfolding points_filter[symmetric] by (simp add: points_def length_concat comp_def)

lemma length_trichotomy:
  "length (filter (\<lambda>x. f x < (t :: int)) xs) + length (filter (\<lambda>x. f x = t) xs) + length (filter (\<lambda>x. t < f x) xs) = length xs"
  by (induction xs) auto

text \<open>What every reachable ensembler satisfies.\<close>

definition te_inv :: "ensembler \<Rightarrow> bool" where
  "te_inv s \<longleftrightarrow> buckets_ok (te_by_tick s) \<and> te_entry_count s = int (length (points (te_by_tick s)))
     \<and> 1 \<le> te_capacity s \<and> te_entry_count s \<le> te_capacity s"

lemma add_prediction_queue:
  assumes "te_inv s" and "chunk_ok s chunk"
    and "p = \<lparr>tp_query_id = i, tp_query_timestamp_ns = ts, tp_query_command_tick = q, tp_chunk = chunk\<rparr>"
  obtains s' where "add_prediction s i ts q chunk = Inr (s', te_max_source_horizon s + 1)" "te_inv s'"
    "te_queue (te_by_tick s') = queue_add (nat (te_capacity s)) (map (Pair p) [0..<te_max_source_horizon s + 1]) (te_queue (te_by_tick s))"
    "te_capacity_dropped s' + length (points (te_by_tick s')) = te_capacity_dropped s + length (points (te_by_tick s)) + te_max_source_horizon s + 1"
    "te_points_added s' = te_points_added s + te_max_source_horizon s + 1"
    "te_expired s' = te_expired s" "te_age_expired s' = te_age_expired s" "te_capacity s' = te_capacity s"
proof -
  let ?b = "te_by_tick s"
  define n where "n = te_max_source_horizon s + 1"
  let ?s1 = "fold (te_store p) [0..<n] s"
  let ?s2 = "?s1\<lparr>te_predictions_added := te_predictions_added ?s1 + 1, te_points_added := te_points_added ?s1 + n\<rparr>"
  have inv: "buckets_ok ?b" "te_entry_count s = int (length (points ?b))" "1 \<le> te_capacity s" using assms(1) by (auto simp: te_inv_def)
  have st: "buckets_ok (te_by_tick ?s1)"
    "te_queue (te_by_tick ?s1) = sort_key te_target (points ?b @ map (Pair p) [0..<n])"
    "?s1 = s\<lparr>te_by_tick := te_by_tick ?s1, te_entry_count := te_entry_count s + int n\<rparr>"
    using store_all[OF inv(1), of p n] by blast+
  define b1 where "b1 = te_by_tick ?s1"
  have s1: "?s1 = s\<lparr>te_by_tick := b1, te_entry_count := te_entry_count s + int n\<rparr>" using st(3) b1_def by simp
  have len: "length (points b1) = length (points ?b) + n"
    using arg_cong[OF st(2), of length] by (simp add: b1_def)
  have b1: "buckets_ok b1" using st(1) by (simp add: b1_def)
  have "\<exists>s'. te_trim ?s2 = Inr s' \<and> trim_result ?s2 s'"
    unfolding s1 by (rule te_trim_total) (use b1 len inv in simp_all)
  then obtain s' where s': "te_trim ?s2 = Inr s'" "trim_result ?s2 s'" by blast
  have q: "sort_key te_target (te_queue ?b @ map (Pair p) [0..<n]) = te_queue b1"
    unfolding b1_def st(2) by (rule sort_key_append_cong) (simp add: te_queue_def sort_key_id_if_sorted)
  define d where "d = nat (te_entry_count s + int n - te_capacity s)"
  have d': "nat (te_entry_count ?s2 - te_capacity ?s2) = d" unfolding s1 d_def by simp
  have by2: "te_by_tick ?s2 = b1" by (simp add: b1_def)
  have tr: "buckets_ok (te_by_tick s')" "te_queue (te_by_tick s') = drop d (te_queue b1)"
    "s' = ?s2\<lparr>te_by_tick := te_by_tick s', te_entry_count := te_entry_count ?s2 - int d,
       te_capacity_dropped := te_capacity_dropped ?s2 + d\<rparr>"
    using s'(2)[unfolded trim_result_def Let_def d' by2] by blast+
  have l': "length (points (te_by_tick s')) = length (points b1) - d"
    using arg_cong[OF tr(2), of length] by simp
  note eq = tr(3)[unfolded s1]
  have f: "te_entry_count s' = te_entry_count s + int n - int d" "te_capacity_dropped s' = te_capacity_dropped s + d"
    "te_points_added s' = te_points_added s + n" "te_expired s' = te_expired s" "te_age_expired s' = te_age_expired s"
    "te_capacity s' = te_capacity s"
    by (subst eq, simp)+
  have d: "d \<le> length (points b1)" using inv(2,3) len by (simp add: d_def)
  have d2: "d = length (points b1) - nat (te_capacity s)" using inv(2,3) len by (simp add: d_def)
  show thesis
  proof
    show "add_prediction s i ts q chunk = Inr (s', te_max_source_horizon s + 1)"
      using assms(2) s'(1) unfolding add_prediction_def Let_def assms(3)[symmetric] n_def[symmetric] by (simp add: n_def[symmetric])
    show "te_inv s'" using tr(1) l' f d inv len by (simp add: te_inv_def d_def)
    show "te_queue (te_by_tick s') = queue_add (nat (te_capacity s)) (map (Pair p) [0..<te_max_source_horizon s + 1]) (te_queue ?b)"
      unfolding queue_add_def Let_def n_def[symmetric] q points_eq_queue d2[symmetric] by (rule tr(2))
    show "te_capacity_dropped s' + length (points (te_by_tick s')) = te_capacity_dropped s + length (points ?b) + te_max_source_horizon s + 1"
      using f(2) l' len d by (simp add: n_def)
  qed (use f in \<open>simp_all add: n_def\<close>)
qed

lemma select_queue:
  assumes "te_inv s" and "te_select np_exp np_sum np_average s tick = (s', sel)"
    and "cands = queue_candidates (te_max_prediction_age_ticks s) tick (te_queue (te_by_tick s))"
  shows "te_inv s' \<and> te_queue (te_by_tick s') = filter (\<lambda>x. tick < te_target x) (te_queue (te_by_tick s))
    \<and> ts_contributors sel = map2 (mk_contributor tick) cands (te_weights np_exp np_sum (te_coefficient s) (length cands))
    \<and> (ts_fallback_used sel \<longleftrightarrow> cands = [])
    \<and> te_expired s' + te_age_expired s' + length cands + length (points (te_by_tick s'))
        = te_expired s + te_age_expired s + length (points (te_by_tick s))
    \<and> te_points_added s' = te_points_added s \<and> te_capacity_dropped s' = te_capacity_dropped s"
proof -
  let ?b = "te_by_tick s"
  define raw where "raw = filter (\<lambda>x. te_target x = tick) (points ?b)"
  have inv: "buckets_ok ?b" "te_entry_count s = int (length (points ?b))" using assms(1) by (auto simp: te_inv_def)
  have late: "buckets_ok (filter (\<lambda>b. \<not> fst b < tick) ?b)" using inv(1) by (rule buckets_ok_filter)
  have at: "bucket_at (filter (\<lambda>b. \<not> fst b < tick) ?b) tick = raw"
    using filter_points[OF late, of tick] points_filter[OF inv(1), of "\<lambda>k. \<not> k < tick"]
    by (simp add: raw_def) (metis (mono_tags, lifting) filter_cong less_irrefl)
  have cands: "cands = sort_key te_order (filter (te_age_ok (te_max_prediction_age_ticks s) tick) raw)"
    unfolding assms(3) queue_candidates_def raw_def te_queue_def sort_key_stable by (rule refl)
  define b2 where "b2 = filter (\<lambda>b. fst b \<noteq> tick) (filter (\<lambda>b. \<not> fst b < tick) ?b)"
  have b2: "b2 = filter (\<lambda>b. tick < fst b) ?b" unfolding b2_def filter_filter by (rule filter_cong) auto
  define gone where "gone = length (filter (\<lambda>x. te_target x < tick) (points ?b))"
  have gone: "sum_list (map (\<lambda>b. length (snd b)) (filter (\<lambda>b. fst b < tick) ?b)) = gone"
    unfolding gone_def by (rule points_expired[OF inv(1)])
  have split: "gone + length raw + length (points b2) = length (points ?b)"
    unfolding gone_def raw_def b2 points_filter[OF inv(1)] by (rule length_trichotomy)
  have q: "te_queue b2 = filter (\<lambda>x. tick < te_target x) (te_queue ?b)"
    unfolding te_queue_def b2 points_filter[OF inv(1)] filter_sort by (rule refl)
  have ok2: "buckets_ok b2" unfolding b2 by (rule buckets_ok_filter[OF inv(1)])
  define stale where "stale = length raw - length (filter (te_age_ok (te_max_prediction_age_ticks s) tick) raw)"
  have lc: "length cands + stale = length raw" by (simp add: cands stale_def)
  have f: "te_by_tick s' = b2" "te_entry_count s' = te_entry_count s - int gone - int (length raw)"
    "te_expired s' = te_expired s + gone" "te_age_expired s' = te_age_expired s + stale"
    "te_points_added s' = te_points_added s" "te_capacity_dropped s' = te_capacity_dropped s" "te_capacity s' = te_capacity s"
    "ts_contributors sel = map2 (mk_contributor tick) cands (te_weights np_exp np_sum (te_coefficient s) (length cands))"
    "ts_fallback_used sel \<longleftrightarrow> cands = []"
    using assms(2) unfolding cands
    by (auto simp: te_select_def expire_before_def Let_def gone at b2_def stale_def split: if_split_asm)
      (metis length_0_conv length_sort)+
  show ?thesis
    using assms(1) f lc split q ok2 inv(2) by (simp add: te_inv_def)
qed

text \<open>A live ensembler, with the number of points that were averaged into commands or discarded by a reset.\<close>

inductive te_reachable ::
  "(pyfloat \<Rightarrow> pyfloat) \<Rightarrow> (pyfloat list \<Rightarrow> pyfloat) \<Rightarrow> (pyfloat list list \<Rightarrow> pyfloat list \<Rightarrow> pyfloat list)
     \<Rightarrow> ensembler \<Rightarrow> nat \<Rightarrow> bool"
  for np_exp np_sum np_average where
  start: "mk_ensembler d c k h a cap = Inr s \<Longrightarrow> te_reachable np_exp np_sum np_average s 0"
| add: "te_reachable np_exp np_sum np_average s n \<Longrightarrow> add_prediction s i ts q chunk = Inr (s', added) \<Longrightarrow>
    te_reachable np_exp np_sum np_average s' n"
| sel: "te_reachable np_exp np_sum np_average s n \<Longrightarrow> te_select np_exp np_sum np_average s tick = (s', out) \<Longrightarrow>
    te_reachable np_exp np_sum np_average s' (n + length (ts_contributors out))"
| reset: "te_reachable np_exp np_sum np_average s n \<Longrightarrow>
    te_reachable np_exp np_sum np_average (te_reset s) (n + length (points (te_by_tick s)))"

lemma te_weights_length [simp]: "length (te_weights np_exp np_sum k n) = n"
  by (simp add: te_weights_def Let_def)

lemma te_reachable_inv:
  "te_reachable np_exp np_sum np_average s n \<Longrightarrow> te_inv s \<and> te_points_added s
     = length (points (te_by_tick s)) + te_capacity_dropped s + te_expired s + te_age_expired s + n"
proof (induction rule: te_reachable.induct)
  case (start d c k h a cap s)
  then show ?case by (auto simp: mk_ensembler_def te_inv_def split: if_split_asm)
next
  case (add s n i ts q chunk s' added)
  then have "chunk_ok s chunk" by (auto simp: add_prediction_def split: if_split_asm)
  moreover have "te_inv s" using add by blast
  ultimately show ?case using add by (elim add_prediction_queue[OF _ _ refl, of s chunk i ts q]) auto
next
  case (sel s n tick s' out)
  then show ?case using select_queue[OF _ sel(2) refl] by auto
next
  case (reset s n)
  then show ?case by (auto simp: te_reset_def te_inv_def)
qed

text \<open>
  C18. The ensembler refines a bounded queue ordered by target tick. From every reachable state a
  well-shaped prediction is stored without an exception (trimming ends): the queue gains one point per
  horizon, in target order after the points of the same tick, and loses exactly its front beyond the
  capacity. A selection at a tick consumes all points up to it and averages, oldest query first, exactly
  the points aimed at that tick that are not too old; the fallback is used exactly when there is none.
\<close>

theorem temporal_refines_queue:
  assumes "te_reachable np_exp np_sum np_average s n"
    and "p = \<lparr>tp_query_id = i, tp_query_timestamp_ns = ts, tp_query_command_tick = q, tp_chunk = chunk\<rparr>"
    and "cands = queue_candidates (te_max_prediction_age_ticks s) tick (te_queue (te_by_tick s))"
    and "te_select np_exp np_sum np_average s tick = (s2, sel)"
  shows "(chunk_ok s chunk \<longrightarrow> (\<exists>s'. add_prediction s i ts q chunk = Inr (s', te_max_source_horizon s + 1)
      \<and> te_queue (te_by_tick s') = queue_add (nat (te_capacity s)) (map (Pair p) [0..<te_max_source_horizon s + 1]) (te_queue (te_by_tick s))))
    \<and> te_queue (te_by_tick s2) = filter (\<lambda>x. tick < te_target x) (te_queue (te_by_tick s))
    \<and> ts_contributors sel = map2 (mk_contributor tick) cands (te_weights np_exp np_sum (te_coefficient s) (length cands))
    \<and> (ts_fallback_used sel \<longleftrightarrow> cands = [])"
proof -
  have inv: "te_inv s" using te_reachable_inv[OF assms(1)] by blast
  have "\<exists>s'. add_prediction s i ts q chunk = Inr (s', te_max_source_horizon s + 1)
      \<and> te_queue (te_by_tick s') = queue_add (nat (te_capacity s)) (map (Pair p) [0..<te_max_source_horizon s + 1]) (te_queue (te_by_tick s))"
    if ok: "chunk_ok s chunk"
    by (rule add_prediction_queue[OF inv ok assms(2)]) blast
  then show ?thesis using select_queue[OF inv assms(4,3)] by blast
qed

text \<open>
  C19. No point is lost silently: at every moment the points ever added are the buffered ones plus those
  counted as dropped by capacity, expired by tick or expired by age, plus those averaged into a command
  or discarded by a reset; the buffer never exceeds its capacity and its counter is exact.
\<close>

theorem temporal_conserves_points:
  assumes "te_reachable np_exp np_sum np_average s n"
  shows "te_entry_count s = int (length (te_queue (te_by_tick s))) \<and> te_entry_count s \<le> te_capacity s
    \<and> int (te_points_added s) = te_entry_count s + int (te_capacity_dropped s + te_expired s + te_age_expired s + n)"
  using te_reachable_inv[OF assms] by (auto simp: te_inv_def)

text \<open>A small ensembler: one joint, chunks of two, capacity three.\<close>

definition demo_chunk :: "pyfloat list list" where
  "demo_chunk = [[Fin 1], [Fin 2]]"

lemma demo_ensembler:
  "\<exists>s. mk_ensembler 1 2 (Fin 0) None (Some 5) 3 = Inr s \<and> chunk_ok s demo_chunk \<and> te_max_source_horizon s = 1"
  by (simp add: mk_ensembler_def chunk_ok_def demo_chunk_def)

theorem temporal_refines_queue_witness:
  "\<exists>s s1. mk_ensembler 1 2 (Fin 0) None (Some 5) 3 = Inr s \<and> add_prediction s 7 0 10 demo_chunk = Inr (s1, 2)
     \<and> map snd (te_queue (te_by_tick s1)) = [0, 1]"
proof -
  obtain s where s: "mk_ensembler 1 2 (Fin 0) None (Some 5) 3 = Inr s" "chunk_ok s demo_chunk" "te_max_source_horizon s = 1"
    using demo_ensembler by blast
  then have c: "te_capacity s = 3" "te_by_tick s = []" by (auto simp: mk_ensembler_def)
  have r: "te_reachable (\<lambda>x. x) (\<lambda>_. Fin 1) (\<lambda>_ _. []) s 0" using s(1) by (rule te_reachable.start)
  have up: "[0..<2] = [0, Suc 0]" by (simp add: upt_rec numeral_2_eq_2)
  from temporal_refines_queue[OF r refl refl prod.collapse[symmetric], of demo_chunk 7 0 10 0] s(2,3) c show ?thesis
    using s(1) by (auto simp: queue_add_def te_queue_def points_def te_target_def up numeral_2_eq_2)
qed

theorem temporal_conserves_points_witness:
  "\<exists>s s1. mk_ensembler 1 2 (Fin 0) None (Some 5) 3 = Inr s \<and> add_prediction s 7 0 10 demo_chunk = Inr (s1, 2)
     \<and> te_points_added s1 = nat (te_entry_count s1) + te_capacity_dropped s1 + te_expired s1 + te_age_expired s1"
proof -
  obtain s where s: "mk_ensembler 1 2 (Fin 0) None (Some 5) 3 = Inr s" "chunk_ok s demo_chunk" "te_max_source_horizon s = 1"
    using demo_ensembler by blast
  have r: "te_reachable (\<lambda>x. x) (\<lambda>_. Fin 1) (\<lambda>_ _. []) s 0" using s(1) by (rule te_reachable.start)
  have "te_inv s" using te_reachable_inv[OF r] by blast
  then obtain s1 where s1: "add_prediction s 7 0 10 demo_chunk = Inr (s1, 2)"
    using add_prediction_queue[OF _ s(2) refl, of 7 0 10] s(3) by (metis one_add_one)
  have "te_reachable (\<lambda>x. x) (\<lambda>_. Fin 1) (\<lambda>_ _. []) s1 0" using r s1 by (rule te_reachable.add)
  from temporal_conserves_points[OF this] s1 s(1) show ?thesis by (simp add: nat_eq_iff2)
qed

end
