(* ===== verification/FloatOrder.thy ===== *)
theory FloatOrder
  imports PyFloat
begin

text \<open>
  Rounding to binary64 as an order-preserving projection: it is monotone, odd and idempotent. The
  consequences for sums and differences of floats are what bounds of float code rest on.
\<close>

section \<open>The leading exponent\<close>

lemma rat_exponent_less:
  assumes "0 < x"
  shows "x < 2 powi (rat_exponent x + 1)"
proof -
  obtain n d where q: "quotient_of x = (n, d)" by (cases "quotient_of x")
  have d: "0 < d" using quotient_of_denom_pos[OF q] .
  have x: "x = of_int n / of_int d" using quotient_of_div[OF q] .
  have n: "0 < n" using assms x d by (simp add: zero_less_divide_iff)
  obtain a where a: "bitlen n = int a" using bitlen_nonneg[of n] by (metis nonneg_int_cases)
  have "0 < bitlen d" using bitlen_nonneg[of d] bitlen_eq_zero_iff[of d] d by linarith
  then obtain b where b: "bitlen d = int b + 1" by (metis zero_less_imp_eq_int Suc_pred' int_Suc)
  have "n < 2 ^ a" using bitlen_bounds[of n] n a by simp
  then have na: "(of_int n :: rat) < 2 ^ a" by (metis of_int_less_iff of_int_numeral of_int_power)
  have "2 ^ b \<le> d" using bitlen_bounds[of d] d b by simp
  then have db: "(2 ^ b :: rat) \<le> of_int d" by (metis of_int_le_iff of_int_numeral of_int_power)
  have "of_int n / of_int d < (2 ^ a / 2 ^ b :: rat)"
    using na db d n by (intro frac_less) auto
  also have "\<dots> = 2 powi (bitlen n - bitlen d + 1)"
    using power_int_diff[of "2::rat" "int a" "int b"] by (simp add: a b)
  finally have "x < 2 powi (bitlen n - bitlen d + 1)" by (simp add: x)
  then show ?thesis by (simp add: rat_exponent_def q Let_def not_le)
qed

lemma rat_exponent_mono:
  assumes "0 < x" and "x \<le> y"
  shows "rat_exponent x \<le> rat_exponent y"
proof (rule ccontr)
  assume "\<not> rat_exponent x \<le> rat_exponent y"
  then have "(2::rat) powi (rat_exponent y + 1) \<le> 2 powi (rat_exponent x)" by (intro power_int_increasing) simp_all
  also have "\<dots> \<le> x" using assms(1) by (rule rat_exponent_le)
  finally show False using rat_exponent_less[of y] assms by simp
qed

section \<open>The rounded value\<close>

text \<open>The value before the overflow test.\<close>

definition unit_exponent :: "rat \<Rightarrow> int" where
  "unit_exponent x = max (rat_exponent \<bar>x\<bar>) (- 1022)"

definition rounded_rat :: "rat \<Rightarrow> rat" where
  "rounded_rat x = of_int (round_half_even (x / 2 powi (unit_exponent x - 52))) * 2 powi (unit_exponent x - 52)"

lemma round64_rounded:
  "round64 x = (if x = 0 then Fin 0
     else if 2 ^ 1024 \<le> \<bar>rounded_rat x\<bar> then (if 0 < x then PosInf else NegInf) else Fin (rounded_rat x))"
  by (simp add: round64_def rounded_rat_def unit_exponent_def Let_def)

lemma round_half_even_uminus: "round_half_even (- x) = - round_half_even x"
proof (cases "x = of_int \<lfloor>x\<rfloor>")
  case True
  then have "round_half_even (- x) = round_half_even (of_int (- \<lfloor>x\<rfloor>))" by simp
  also have "\<dots> = - round_half_even (of_int \<lfloor>x\<rfloor>)" by (simp only: round_half_even_of_int)
  finally show ?thesis using True by simp
next
  case False
  then have f: "\<lfloor>- x\<rfloor> = - \<lfloor>x\<rfloor> - 1" by (simp add: floor_minus ceiling_altdef)
  then show ?thesis unfolding round_half_even_def Let_def f by auto
qed

lemma rounded_rat_uminus: "rounded_rat (- x) = - rounded_rat x"
  by (simp add: rounded_rat_def unit_exponent_def round_half_even_uminus)

lemma rounded_rat_nonneg: "0 \<le> x \<Longrightarrow> 0 \<le> rounded_rat x"
  by (simp add: rounded_rat_def round_half_even_nonneg)

lemma rounded_rat_le_power:
  assumes "0 < x" and "rat_exponent x < k" and "- 1022 < k"
  shows "rounded_rat x \<le> 2 powi k"
proof -
  define e where "e = unit_exponent x"
  have e: "e + 1 \<le> k" using assms by (simp add: e_def unit_exponent_def)
  have u: "0 < (2::rat) powi (e - 52)" by simp
  have "x < 2 powi (rat_exponent x + 1)" using assms(1) by (rule rat_exponent_less)
  also have "\<dots> \<le> 2 powi (e + 1)" using assms(1) by (intro power_int_increasing) (simp_all add: e_def unit_exponent_def)
  also have "\<dots> = of_int (2 ^ 53) * 2 powi (e - 52)"
    using power_int_add[of "2::rat" 53 "e - 52"] by (simp add: algebra_simps)
  finally have "x / 2 powi (e - 52) \<le> of_int (2 ^ 53)" using u by (simp only: pos_divide_le_eq less_imp_le)
  then have "round_half_even (x / 2 powi (e - 52)) \<le> 2 ^ 53"
    using round_half_even_mono round_half_even_of_int by metis
  then have "rounded_rat x \<le> of_int (2 ^ 53) * 2 powi (e - 52)"
    unfolding rounded_rat_def e_def[symmetric] using u by (intro mult_right_mono) (simp_all only: of_int_le_iff less_imp_le)
  also have "\<dots> = 2 powi (e + 1)" using power_int_add[of "2::rat" 53 "e - 52"] by (simp add: algebra_simps)
  also have "\<dots> \<le> 2 powi k" using e by (intro power_int_increasing) simp_all
  finally show ?thesis .
qed

lemma rounded_rat_ge_power:
  assumes "0 < x" and "- 1022 \<le> rat_exponent x"
  shows "2 powi (rat_exponent x) \<le> rounded_rat x"
proof -
  define e where "e = rat_exponent x"
  have ue: "unit_exponent x = e" using assms by (simp add: unit_exponent_def e_def)
  have u: "0 < (2::rat) powi (e - 52)" by simp
  have p: "2 powi e = of_int (2 ^ 52) * (2::rat) powi (e - 52)"
    using power_int_add[of "2::rat" 52 "e - 52"] by simp
  have "2 powi e \<le> x" unfolding e_def using assms(1) by (rule rat_exponent_le)
  then have "of_int (2 ^ 52) \<le> x / 2 powi (e - 52)" unfolding p using u by (simp only: pos_le_divide_eq)
  then have "2 ^ 52 \<le> round_half_even (x / 2 powi (e - 52))"
    using round_half_even_mono round_half_even_of_int by metis
  then show ?thesis
    unfolding rounded_rat_def ue e_def[symmetric] p using u
    by (intro mult_right_mono) (simp_all only: of_int_le_iff less_imp_le)
qed

lemma rounded_rat_mono_pos:
  assumes "0 < x" and "x \<le> y"
  shows "rounded_rat x \<le> rounded_rat y"
proof (cases "unit_exponent x = unit_exponent y")
  case True
  have u: "0 < (2::rat) powi (unit_exponent y - 52)" by simp
  have "round_half_even (x / 2 powi (unit_exponent y - 52)) \<le> round_half_even (y / 2 powi (unit_exponent y - 52))"
    using assms(2) u by (intro round_half_even_mono divide_right_mono) simp_all
  then show ?thesis unfolding rounded_rat_def True using u by (intro mult_right_mono) (simp_all only: of_int_le_iff less_imp_le)
next
  case False
  have m: "rat_exponent x \<le> rat_exponent y" using assms by (rule rat_exponent_mono)
  then have lt: "rat_exponent x < rat_exponent y" "- 1022 < rat_exponent y"
    using False assms by (auto simp: unit_exponent_def)
  have "rounded_rat x \<le> 2 powi (rat_exponent y)" using assms(1) lt by (rule rounded_rat_le_power)
  also have "\<dots> \<le> rounded_rat y" using assms lt by (intro rounded_rat_ge_power) simp_all
  finally show ?thesis .
qed

lemma rounded_rat_zero [simp]: "rounded_rat 0 = 0"
proof -
  have "round_half_even 0 = 0" using round_half_even_of_int[of 0] by simp
  then show ?thesis by (simp add: rounded_rat_def)
qed

lemma rounded_rat_mono:
  assumes "x \<le> y"
  shows "rounded_rat x \<le> rounded_rat y"
proof -
  consider "0 < x" | "x \<le> 0" "0 \<le> y" | "y < 0" by linarith
  then show ?thesis
  proof cases
    case 1
    then show ?thesis using assms by (rule rounded_rat_mono_pos)
  next
    case 2
    have "rounded_rat x \<le> 0" using rounded_rat_nonneg[of "- x"] 2 by (simp add: rounded_rat_uminus)
    also have "\<dots> \<le> rounded_rat y" using 2 by (simp add: rounded_rat_nonneg)
    finally show ?thesis .
  next
    case 3
    then have "rounded_rat (- y) \<le> rounded_rat (- x)" using assms by (intro rounded_rat_mono_pos) simp_all
    then show ?thesis by (simp add: rounded_rat_uminus)
  qed
qed

text \<open>Rounding is monotone.\<close>

lemma round64_alt:
  "round64 x = (if 2 ^ 1024 \<le> rounded_rat x then PosInf else if rounded_rat x \<le> - (2 ^ 1024) then NegInf else Fin (rounded_rat x))"
proof (cases "x = 0")
  case False
  have pow: "(0::rat) < 2 ^ 1024" by simp
  from False consider "0 < x" | "x < 0" by linarith
  then show ?thesis
  proof cases
    case 1
    then have "0 \<le> rounded_rat x" by (simp add: rounded_rat_nonneg)
    moreover from this have "\<not> rounded_rat x \<le> - (2 ^ 1024)" using pow by linarith
    ultimately show ?thesis using 1 by (simp add: round64_rounded)
  next
    case 2
    then have "rounded_rat x \<le> 0" using rounded_rat_nonneg[of "- x"] by (simp add: rounded_rat_uminus)
    moreover from this have "\<not> 2 ^ 1024 \<le> rounded_rat x" using pow by linarith
    ultimately show ?thesis using 2 by (auto simp: round64_rounded)
  qed
qed simp

lemma round64_mono: "x \<le> y \<Longrightarrow> fle (round64 x) (round64 y)"
  using rounded_rat_mono[of x y] by (auto simp: round64_alt)

lemma round64_one [simp]: "round64 1 = Fin 1"
  using round64_of_int[of 1] by simp

section \<open>Rounding keeps what it produces\<close>

lemma rounded_rat_grid:
  assumes "r = of_int m * 2 powi (e - 52)" and "\<bar>m\<bar> \<le> 2 ^ 53" and "- 1022 \<le> e"
  shows "rounded_rat r = r"
proof (cases "m = 0")
  case False
  define e' where "e' = unit_exponent r"
  have abs: "\<bar>r\<bar> = of_int \<bar>m\<bar> * 2 powi (e - 52)" by (simp add: assms(1) abs_mult)
  have pos: "0 < \<bar>r\<bar>" using False by (simp add: assms(1))
  have top: "(2::rat) powi (e + 1) = of_int (2 ^ 53) * 2 powi (e - 52)"
    using power_int_add[of "2::rat" 53 "e - 52"] by (simp add: algebra_simps)
  have le: "\<bar>r\<bar> \<le> 2 powi (e + 1)"
    unfolding abs top by (intro mult_right_mono) (simp_all only: of_int_le_iff assms(2) power_int_def zero_le_power zero_le_numeral, simp)
  have int: "\<exists>k. r = of_int k * 2 powi (e' - 52)"
  proof (cases "e' \<le> e")
    case True
    define j where "j = nat (e - e')"
    have "(2::rat) powi (e - 52) = 2 ^ j * 2 powi (e' - 52)"
    proof -
      have "e - 52 = int j + (e' - 52)" using True by (simp add: j_def)
      then show ?thesis using power_int_add[of "2::rat" "int j" "e' - 52"] by (simp only:) simp
    qed
    then have "r = of_int (m * 2 ^ j) * 2 powi (e' - 52)" by (simp add: assms(1))
    then show ?thesis by blast
  next
    case False
    then have ex: "e < rat_exponent \<bar>r\<bar>" "e' = rat_exponent \<bar>r\<bar>" using assms(3) by (auto simp: e'_def unit_exponent_def)
    have "2 powi (rat_exponent \<bar>r\<bar>) \<le> \<bar>r\<bar>" using pos by (rule rat_exponent_le)
    then have "2 powi (rat_exponent \<bar>r\<bar>) \<le> (2::rat) powi (e + 1)" using le by linarith
    then have "\<not> e + 1 < rat_exponent \<bar>r\<bar>"
      by (metis linorder_not_le one_less_numeral_iff power_int_strict_increasing semiring_norm(76))
    then have e'': "e' = e + 1" using ex by simp
    have "2 powi (e + 1) \<le> \<bar>r\<bar>" using \<open>2 powi (rat_exponent \<bar>r\<bar>) \<le> \<bar>r\<bar>\<close> ex(2) e'' by simp
    then have "\<bar>r\<bar> = 2 powi (e + 1)" using le by simp
    then have "\<bar>r\<bar> = of_int (2 ^ 52) * 2 powi (e' - 52)"
      using power_int_add[of "2::rat" 52 "e' - 52"] by (simp add: e'' add.commute)
    then have "r = of_int (2 ^ 52) * 2 powi (e' - 52) \<or> r = of_int (- (2 ^ 52)) * 2 powi (e' - 52)"
      by (auto simp: abs_if split: if_split_asm)
    then show ?thesis by blast
  qed
  then obtain k where k: "r = of_int k * 2 powi (e' - 52)" by blast
  have nz: "(2::rat) powi (e' - 52) \<noteq> 0" by simp
  have "r / 2 powi (e' - 52) = of_int k" by (subst k) (use nz in simp)
  then show ?thesis unfolding rounded_rat_def e'_def[symmetric] by (simp add: k)
qed (simp add: assms(1))

lemma rounded_rat_idem: "rounded_rat (rounded_rat x) = rounded_rat x"
proof -
  define e where "e = unit_exponent x"
  define m where "m = round_half_even (x / 2 powi (e - 52))"
  have pos: "\<bar>round_half_even (y / 2 powi (unit_exponent y - 52))\<bar> \<le> 2 ^ 53" if "0 \<le> y" for y
  proof (cases "y = 0")
    case True
    have "round_half_even 0 = 0" using round_half_even_of_int[of 0] by simp
    with True show ?thesis by simp
  next
    case False
    let ?u = "(2::rat) powi (unit_exponent y - 52)"
    have u: "0 < ?u" by simp
    have "rounded_rat y \<le> 2 powi (unit_exponent y + 1)"
      using that False by (intro rounded_rat_le_power) (auto simp: unit_exponent_def)
    also have "\<dots> = of_int (2 ^ 53) * ?u" using power_int_add[of "2::rat" 53 "unit_exponent y - 52"] by (simp add: algebra_simps)
    finally have "of_int (round_half_even (y / ?u)) \<le> (of_int (2 ^ 53) :: rat)"
      unfolding rounded_rat_def using u by (simp only: mult_le_cancel_right_pos)
    then have "round_half_even (y / ?u) \<le> 2 ^ 53" by (simp only: of_int_le_iff)
    moreover have "0 \<le> round_half_even (y / ?u)" using that by (intro round_half_even_nonneg) simp
    ultimately show ?thesis by simp
  qed
  have "\<bar>m\<bar> \<le> 2 ^ 53"
  proof (cases "0 \<le> x")
    case False
    then have "\<bar>round_half_even (- x / 2 powi (unit_exponent (- x) - 52))\<bar> \<le> 2 ^ 53" by (intro pos) simp
    then show ?thesis by (simp add: m_def e_def unit_exponent_def round_half_even_uminus)
  qed (use pos in \<open>simp add: m_def e_def\<close>)
  then show ?thesis
    by (intro rounded_rat_grid[of _ m e]) (simp_all add: rounded_rat_def m_def e_def unit_exponent_def)
qed

text \<open>A binary64 value: what rounding keeps.\<close>

definition is_double :: "pyfloat \<Rightarrow> bool" where
  "is_double x = (case x of Fin r \<Rightarrow> round64 r = Fin r | _ \<Rightarrow> True)"

lemma round64_double [simp]: "is_double (round64 x)"
  by (auto simp: is_double_def round64_alt rounded_rat_idem split: pyfloat.split)

lemma is_double_simps [simp]:
  "is_double NaN" "is_double PosInf" "is_double NegInf" "is_double (Fin r) \<longleftrightarrow> round64 r = Fin r"
  by (simp_all add: is_double_def)

lemma round64_Fin_double: "round64 x = Fin r \<Longrightarrow> round64 r = Fin r"
  using round64_double[of x] by simp

lemma arith_double [simp]: "is_double (fadd a b)" "is_double (fmul a b)" "is_double (fdiv a b)"
  by (cases a; cases b; simp)+

lemma is_double_fneg [simp]: "is_double (fneg x) \<longleftrightarrow> is_double x"
proof -
  have "round64 (- r) = fneg (round64 r)" for r
    unfolding round64_alt rounded_rat_uminus by (auto simp: minus_le_iff le_minus_iff)
  then show ?thesis by (cases x) (auto simp: is_double_def dest: arg_cong[of _ _ fneg])
qed

lemma fsub_double [simp]: "is_double (fsub a b)"
  by (simp add: fsub_def)

text \<open>A rounded value compared with a binary64 value: rounding cannot cross it.\<close>

lemma round64_le_double: "x \<le> r \<Longrightarrow> round64 r = Fin r \<Longrightarrow> fle (round64 x) (Fin r)"
  using round64_mono[of x r] by simp

lemma round64_ge_double: "r \<le> x \<Longrightarrow> round64 r = Fin r \<Longrightarrow> fle (Fin r) (round64 x)"
  using round64_mono[of r x] by simp

text \<open>Adding a non-positive float never increases a binary64 value.\<close>

lemma fadd_nonpos_le:
  assumes "is_double x" and "x \<noteq> NaN" and "fle d (Fin 0)"
  shows "fle (fadd x d) x \<or> fadd x d = NaN"
  using assms by (cases x; cases d) (auto intro: round64_le_double)

lemma fsub_self [simp]: "fsub (Fin a) (Fin a) = Fin 0"
  by (simp add: fsub_def)

text \<open>The difference of two ordered floats has the sign of the exact difference.\<close>

lemma fsub_nonpos: "fle a b \<Longrightarrow> a \<noteq> PosInf \<Longrightarrow> b \<noteq> NegInf \<Longrightarrow> fle (fsub a b) (Fin 0)"
  using round64_mono[of _ 0] by (cases a; cases b) (auto simp: fsub_def)

end
