(* ===== verification/HandContact.thy ===== *)
theory HandContact
  imports HandSchema
begin

text \<open>
  The contact stop of the PC-direct hand control, \<open>src/rh56_driver/pc_direct_control.py\<close>: the contact
  fields of \<open>RH56PcDirectControl\<close> with the methods that observe feedback, limit a target and pop a relief
  target. The parallel six-element arrays of the source are a list of six records, one per finger.
\<close>

section \<open>Policy and state\<close>

record finger_policy =
  pol_onset :: pyfloat
  pol_release :: pyfloat
  pol_budget :: pyfloat
  pol_max_step :: pyfloat

record contact_config =
  ctc_enabled :: bool
  ctc_require_fresh_force :: bool
  ctc_fingers :: "finger_policy list"
  ctc_minimum_closing_gap :: pyfloat
  ctc_maximum_stall_progress :: pyfloat
  ctc_relief_margin :: pyfloat
  ctc_release_open_delta :: pyfloat
  ctc_consecutive_samples :: int
  ctc_baseline_alpha :: pyfloat

record finger =
  fg_candidate_count :: int
  fg_hold_target :: pyfloat
  fg_latched :: bool
  fg_last_closing_request_ns :: int
  fg_force_delta :: pyfloat
  fg_angle_progress :: pyfloat
  fg_closure_since_force :: pyfloat

record contact =
  cn_force_baseline :: "pyfloat list option"
  cn_last_angle :: "pyfloat list option"
  cn_angle_generation :: int
  cn_force_angle_generation :: int
  cn_force_generation :: int
  cn_last_closure_force_generation :: int
  cn_fingers :: "finger list"
  cn_detection_count :: nat
  cn_rebased_count :: nat
  cn_relief_pending :: bool
  cn_relief_write_count :: nat
  cn_last_activation_mode :: string

text \<open>\<open>1e-12\<close>, the slack of every comparison of targets.\<close>

definition target_slack :: pyfloat where
  "target_slack = round64 (1 / 1000000000000)"

definition fresh_finger :: finger where
  "fresh_finger = \<lparr>fg_candidate_count = 0, fg_hold_target = NaN, fg_latched = False, fg_last_closing_request_ns = - 1,
     fg_force_delta = Fin 0, fg_angle_progress = Fin 0, fg_closure_since_force = Fin 0\<rparr>"

definition new_contact :: contact where
  "new_contact = \<lparr>cn_force_baseline = None, cn_last_angle = None, cn_angle_generation = 0, cn_force_angle_generation = 0,
     cn_force_generation = 0, cn_last_closure_force_generation = - 1, cn_fingers = replicate 6 fresh_finger,
     cn_detection_count = 0, cn_rebased_count = 0, cn_relief_pending = False, cn_relief_write_count = 0,
     cn_last_activation_mode = ''never_activated''\<rparr>"

definition finger_active :: "finger \<Rightarrow> bool" where
  "finger_active f \<longleftrightarrow> fg_latched f \<or> 0 < fg_candidate_count f"

section \<open>Activation and angle feedback\<close>

definition reset_contact_stop :: "contact \<Rightarrow> pyfloat list \<Rightarrow> pyfloat list \<Rightarrow> contact" where
  "reset_contact_stop c force normalized =
     c\<lparr>cn_force_baseline := Some force, cn_last_angle := Some normalized,
       cn_angle_generation := cn_angle_generation c + 1, cn_force_angle_generation := cn_angle_generation c + 1,
       cn_fingers := replicate 6 fresh_finger, cn_relief_pending := False,
       cn_last_closure_force_generation := cn_force_generation c - 1\<rparr>"

definition prepare_activation :: "contact \<Rightarrow> pyfloat list \<Rightarrow> pyfloat list \<Rightarrow> contact" where
  "prepare_activation c force normalized =
     (reset_contact_stop c force normalized)\<lparr>cn_rebased_count := cn_rebased_count c + 1,
        cn_last_activation_mode := ''rebased_new_grip''\<rparr>"

definition observe_contact_angle :: "contact \<Rightarrow> pyfloat list \<Rightarrow> contact" where
  "observe_contact_angle c values =
     (let c1 = (case cn_last_angle c of
                  None \<Rightarrow> c
                | Some before \<Rightarrow> c\<lparr>cn_fingers := map (\<lambda>i. (cn_fingers c ! i)\<lparr>fg_angle_progress := fsub (values ! i) (before ! i)\<rparr>) [0..<6]\<rparr>)
      in c1\<lparr>cn_last_angle := Some values, cn_angle_generation := cn_angle_generation c1 + 1\<rparr>)"

section \<open>Force feedback\<close>

definition first_candidate :: "contact_config \<Rightarrow> finger_policy \<Rightarrow> finger \<Rightarrow> pyfloat \<Rightarrow> pyfloat \<Rightarrow> bool" where
  "first_candidate cfg pol f requested measured \<longleftrightarrow>
     fg_candidate_count f = 0 \<and> 0 \<le> fg_last_closing_request_ns f \<and> fle (pol_onset pol) (fg_force_delta f)
     \<and> (fle (ctc_minimum_closing_gap cfg) (fsub requested measured)
        \<or> fle measured (fadd requested (ctc_minimum_closing_gap cfg)))"

definition confirmed_candidate :: "contact_config \<Rightarrow> finger_policy \<Rightarrow> finger \<Rightarrow> bool" where
  "confirmed_candidate cfg pol f \<longleftrightarrow>
     0 < fg_candidate_count f \<and> fle (pol_release pol) (fg_force_delta f)
     \<and> fle (fg_angle_progress f) (ctc_maximum_stall_progress cfg)"

definition observe_finger ::
  "contact_config \<Rightarrow> finger_policy \<Rightarrow> pyfloat \<Rightarrow> pyfloat \<Rightarrow> pyfloat option \<Rightarrow> pyfloat \<Rightarrow> finger \<Rightarrow> pyfloat
     \<Rightarrow> finger \<times> pyfloat \<times> bool \<times> bool" where
  "observe_finger cfg pol requested measured last_command current_force f baseline =
     (if fg_latched f then (f, baseline, False, False)
      else if first_candidate cfg pol f requested measured \<or> confirmed_candidate cfg pol f then
        let f1 = (if first_candidate cfg pol f requested measured
                  then f\<lparr>fg_hold_target := fmax (Fin 0) (fsub (fmin (case last_command of None \<Rightarrow> measured | Some v \<Rightarrow> v) measured)
                                                              (ctc_relief_margin cfg))\<rparr>
                  else f);
            f2 = f1\<lparr>fg_candidate_count := fg_candidate_count f1 + 1\<rparr>;
            detected = ctc_consecutive_samples cfg \<le> fg_candidate_count f2 in
        (if detected then f2\<lparr>fg_latched := True\<rparr> else f2, baseline, True, detected)
      else
        (f\<lparr>fg_candidate_count := 0, fg_hold_target := NaN\<rparr>,
         if \<not> 0 \<le> fg_last_closing_request_ns f
         then fadd (fmul (fsub (Fin 1) (ctc_baseline_alpha cfg)) baseline) (fmul (ctc_baseline_alpha cfg) current_force)
         else baseline,
         False, False))"

definition observe_contact_force ::
  "contact_config \<Rightarrow> contact \<Rightarrow> pyfloat list \<Rightarrow> bool \<Rightarrow> bool \<Rightarrow> pyfloat list option \<Rightarrow> pyfloat list option \<Rightarrow> contact" where
  "observe_contact_force cfg c values running holding last_requested last_command =
     (let c1 = c\<lparr>cn_force_generation := cn_force_generation c + 1,
                 cn_fingers := map (\<lambda>f. f\<lparr>fg_closure_since_force := Fin 0\<rparr>) (cn_fingers c)\<rparr> in
      case cn_force_baseline c1 of
        None \<Rightarrow> c1\<lparr>cn_force_baseline := Some values\<rparr>
      | Some baseline \<Rightarrow>
          (let c2 = c1\<lparr>cn_fingers := map (\<lambda>i. (cn_fingers c1 ! i)\<lparr>fg_force_delta := fabs (fsub (values ! i) (baseline ! i))\<rparr>) [0..<6]\<rparr> in
           case (last_requested, cn_last_angle c2) of
             (Some requested, Some measured) \<Rightarrow>
               if \<not> ctc_enabled cfg \<or> \<not> running \<or> cn_angle_generation c2 \<le> cn_force_angle_generation c2 then c2
               else
                 (let rs = map (\<lambda>i. observe_finger cfg (ctc_fingers cfg ! i) (requested ! i) (measured ! i)
                                     (map_option (\<lambda>l. l ! i) last_command) (values ! i) (cn_fingers c2 ! i) (baseline ! i)) [0..<6] in
                  c2\<lparr>cn_fingers := map fst rs, cn_force_baseline := Some (map (\<lambda>r. fst (snd r)) rs),
                     cn_detection_count := cn_detection_count c2 + length (filter (\<lambda>r. snd (snd (snd r))) rs),
                     cn_relief_pending := (cn_relief_pending c2 \<or> holding \<and> (\<exists>r \<in> set rs. fst (snd (snd r)))),
                     cn_force_angle_generation := cn_angle_generation c2\<rparr>)
           | _ \<Rightarrow> c2))"

section \<open>Limiting a target\<close>

definition release_finger :: "finger \<Rightarrow> finger" where
  "release_finger f = f\<lparr>fg_latched := False, fg_candidate_count := 0, fg_hold_target := NaN, fg_last_closing_request_ns := - 1\<rparr>"

definition release_requested :: "contact_config \<Rightarrow> finger \<Rightarrow> pyfloat option \<Rightarrow> pyfloat \<Rightarrow> bool" where
  "release_requested cfg f previous requested \<longleftrightarrow>
     fle requested (fsub (fg_hold_target f) (ctc_release_open_delta cfg))
     \<or> (fle (fg_hold_target f) (ctc_release_open_delta cfg)
        \<and> (case previous of None \<Rightarrow> False | Some p \<Rightarrow> flt requested (fsub p target_slack)))"

definition limit_finger :: "contact_config \<Rightarrow> bool \<Rightarrow> finger \<Rightarrow> pyfloat option \<Rightarrow> pyfloat \<Rightarrow> finger \<times> pyfloat" where
  "limit_finger cfg allow_release f previous requested =
     (if \<not> finger_active f then (f, requested)
      else if allow_release \<and> release_requested cfg f previous requested then (release_finger f, requested)
      else (f, fmin requested (fg_hold_target f)))"

definition contact_limited_target ::
  "contact_config \<Rightarrow> bool \<Rightarrow> contact \<Rightarrow> pyfloat list option \<Rightarrow> pyfloat list \<Rightarrow> contact \<times> pyfloat list" where
  "contact_limited_target cfg allow_release c previous target =
     (if \<not> ctc_enabled cfg then (c, target)
      else
        (let rs = map (\<lambda>i. limit_finger cfg allow_release (cn_fingers c ! i) (map_option (\<lambda>p. p ! i) previous) (target ! i)) [0..<6] in
         (c\<lparr>cn_fingers := map fst rs\<rparr>, map snd rs)))"

definition relief_of :: "finger list \<Rightarrow> pyfloat list \<Rightarrow> pyfloat list" where
  "relief_of fingers command =
     map (\<lambda>i. if finger_active (fingers ! i) \<and> is_finite (fg_hold_target (fingers ! i))
              then fmin (command ! i) (fmax (Fin 0) (fg_hold_target (fingers ! i))) else command ! i) [0..<6]"

definition pop_contact_relief_target :: "contact \<Rightarrow> bool \<Rightarrow> pyfloat list option \<Rightarrow> contact \<times> pyfloat list option" where
  "pop_contact_relief_target c holding last_command =
     (case last_command of
        None \<Rightarrow> (c, None)
      | Some command \<Rightarrow>
          if \<not> cn_relief_pending c \<or> \<not> holding then (c, None)
          else let relief = relief_of (cn_fingers c) command; c1 = c\<lparr>cn_relief_pending := False\<rparr> in
            if \<not> (\<exists>f \<in> set (cn_fingers c). finger_active f) then (c1, None)
            else if \<not> list_ex (\<lambda>i. flt (relief ! i) (fsub (command ! i) target_slack)) [0..<6] then (c1, None)
            else (c1, Some relief))"

text \<open>After a write: the closure spent since the last force sample.\<close>

definition account_closure :: "contact \<Rightarrow> int \<Rightarrow> pyfloat list \<Rightarrow> pyfloat list \<Rightarrow> contact" where
  "account_closure c now_ns previous selected =
     (let written = map (\<lambda>i. flt (fadd (previous ! i) target_slack) (selected ! i)) [0..<6] in
      if \<not> list_ex (\<lambda>b. b) written then c
      else c\<lparr>cn_fingers := map (\<lambda>i. let f = cn_fingers c ! i;
                  f1 = f\<lparr>fg_closure_since_force := fadd (fg_closure_since_force f) (np_maximum (fsub (selected ! i) (previous ! i)) (Fin 0))\<rparr>
                in if written ! i then f1\<lparr>fg_last_closing_request_ns := now_ns\<rparr> else f1) [0..<6],
             cn_last_closure_force_generation := cn_force_generation c\<rparr>)"

section \<open>Well-formed contact state\<close>

text \<open>
  A finger is free, a candidate with a hold target, or latched: the hold target is a number exactly
  while the finger is active, and it is latched exactly when enough consecutive samples qualified.
\<close>

definition finger_ok :: "contact_config \<Rightarrow> finger \<Rightarrow> bool" where
  "finger_ok cfg f \<longleftrightarrow> 0 \<le> fg_candidate_count f
     \<and> (fg_latched f \<longleftrightarrow> ctc_consecutive_samples cfg \<le> fg_candidate_count f)
     \<and> (if finger_active f then fle (Fin 0) (fg_hold_target f) else fg_hold_target f = NaN)"

definition contact_ok :: "contact_config \<Rightarrow> contact \<Rightarrow> bool" where
  "contact_ok cfg c \<longleftrightarrow> length (cn_fingers c) = 6 \<and> (\<forall>f \<in> set (cn_fingers c). finger_ok cfg f)
     \<and> (case cn_force_baseline c of None \<Rightarrow> True | Some b \<Rightarrow> length b = 6)
     \<and> (case cn_last_angle c of None \<Rightarrow> True | Some a \<Rightarrow> length a = 6)"

lemma fmax_zero: "fle (Fin 0) (fmax (Fin 0) x)"
  by (cases x) (auto simp: fmax_def)

lemma fresh_finger_ok: "1 \<le> ctc_consecutive_samples cfg \<Longrightarrow> finger_ok cfg fresh_finger"
  by (simp add: finger_ok_def fresh_finger_def finger_active_def)

lemma release_finger_ok: "1 \<le> ctc_consecutive_samples cfg \<Longrightarrow> finger_ok cfg (release_finger f)"
  by (simp add: finger_ok_def release_finger_def finger_active_def)

lemma finger_ok_update [simp]:
  "finger_ok cfg (f\<lparr>fg_angle_progress := x\<rparr>) = finger_ok cfg f"
  "finger_ok cfg (f\<lparr>fg_force_delta := x\<rparr>) = finger_ok cfg f"
  "finger_ok cfg (f\<lparr>fg_closure_since_force := x\<rparr>) = finger_ok cfg f"
  "finger_ok cfg (f\<lparr>fg_last_closing_request_ns := n\<rparr>) = finger_ok cfg f"
  by (simp_all add: finger_ok_def finger_active_def)

lemma observe_finger_ok:
  assumes "finger_ok cfg f" and "1 \<le> ctc_consecutive_samples cfg"
  shows "finger_ok cfg (fst (observe_finger cfg pol requested measured last_command force f baseline))"
proof -
  note d = observe_finger_def finger_ok_def finger_active_def Let_def
  consider "fg_latched f" | "\<not> fg_latched f" "first_candidate cfg pol f requested measured"
    | "\<not> fg_latched f" "\<not> first_candidate cfg pol f requested measured" "confirmed_candidate cfg pol f"
    | "\<not> fg_latched f" "\<not> first_candidate cfg pol f requested measured" "\<not> confirmed_candidate cfg pol f" by blast
  then show ?thesis
  proof cases
    case 2
    then have "fg_candidate_count f = 0" by (simp add: first_candidate_def)
    with 2 show ?thesis using assms fmax_zero by (simp add: d)
  next
    case 3
    then have "0 < fg_candidate_count f" by (simp add: confirmed_candidate_def)
    with 3 show ?thesis using assms by (simp add: d)
  qed (use assms in \<open>simp_all add: d\<close>)
qed

lemma contact_ok_nth: "contact_ok cfg c \<Longrightarrow> i < 6 \<Longrightarrow> finger_ok cfg (cn_fingers c ! i)"
  by (auto simp: contact_ok_def)

lemma contact_ok_fingers:
  "contact_ok cfg c \<Longrightarrow> (\<And>i. i < 6 \<Longrightarrow> finger_ok cfg (g i)) \<Longrightarrow> contact_ok cfg (c\<lparr>cn_fingers := map g [0..<6]\<rparr>)"
  by (auto simp: contact_ok_def)

lemma contact_ok_more [simp]:
  "contact_ok cfg (c\<lparr>cn_angle_generation := n\<rparr>) = contact_ok cfg c"
  "contact_ok cfg (c\<lparr>cn_force_angle_generation := n\<rparr>) = contact_ok cfg c"
  "contact_ok cfg (c\<lparr>cn_force_generation := n\<rparr>) = contact_ok cfg c"
  "contact_ok cfg (c\<lparr>cn_last_closure_force_generation := n\<rparr>) = contact_ok cfg c"
  "contact_ok cfg (c\<lparr>cn_detection_count := k\<rparr>) = contact_ok cfg c"
  "contact_ok cfg (c\<lparr>cn_rebased_count := k\<rparr>) = contact_ok cfg c"
  "contact_ok cfg (c\<lparr>cn_relief_pending := b\<rparr>) = contact_ok cfg c"
  "contact_ok cfg (c\<lparr>cn_relief_write_count := k\<rparr>) = contact_ok cfg c"
  "contact_ok cfg (c\<lparr>cn_last_activation_mode := m\<rparr>) = contact_ok cfg c"
  by (simp_all add: contact_ok_def)

lemma contact_ok_arrays:
  "contact_ok cfg c \<Longrightarrow> length values = 6 \<Longrightarrow> contact_ok cfg (c\<lparr>cn_force_baseline := Some values\<rparr>)"
  "contact_ok cfg c \<Longrightarrow> length values = 6 \<Longrightarrow> contact_ok cfg (c\<lparr>cn_last_angle := Some values\<rparr>)"
  by (simp_all add: contact_ok_def)

lemma new_contact_ok: "1 \<le> ctc_consecutive_samples cfg \<Longrightarrow> contact_ok cfg new_contact"
  using fresh_finger_ok by (simp add: contact_ok_def new_contact_def)

lemma prepare_activation_ok:
  "1 \<le> ctc_consecutive_samples cfg \<Longrightarrow> length force = 6 \<Longrightarrow> length normalized = 6
     \<Longrightarrow> contact_ok cfg (prepare_activation c force normalized)"
  using fresh_finger_ok by (simp add: contact_ok_def prepare_activation_def reset_contact_stop_def)

lemma observe_angle_ok:
  assumes "contact_ok cfg c" and "length values = 6"
  shows "contact_ok cfg (observe_contact_angle c values)"
proof (cases "cn_last_angle c")
  case None
  then show ?thesis using assms contact_ok_arrays(2) by (simp add: observe_contact_angle_def)
next
  case (Some before)
  have "contact_ok cfg (c\<lparr>cn_fingers := map (\<lambda>i. (cn_fingers c ! i)\<lparr>fg_angle_progress := fsub (values ! i) (before ! i)\<rparr>) [0..<6]\<rparr>)"
    using contact_ok_nth[OF assms(1)] by (intro contact_ok_fingers assms(1)) simp
  then show ?thesis using Some assms(2) contact_ok_arrays(2) by (simp add: observe_contact_angle_def Let_def)
qed

lemma limited_ok:
  assumes "contact_ok cfg c" and "1 \<le> ctc_consecutive_samples cfg"
  shows "contact_ok cfg (fst (contact_limited_target cfg allow c previous target))"
  using assms contact_ok_nth[OF assms(1)] release_finger_ok[OF assms(2)]
  by (auto simp: contact_limited_target_def Let_def comp_def limit_finger_def intro!: contact_ok_fingers)

lemma account_ok: "contact_ok cfg c \<Longrightarrow> contact_ok cfg (account_closure c now_ns previous selected)"
  using contact_ok_nth[of cfg c] unfolding account_closure_def Let_def
  by (auto intro!: contact_ok_fingers)

lemma pop_ok: "contact_ok cfg c \<Longrightarrow> contact_ok cfg (fst (pop_contact_relief_target c holding command))"
  by (auto simp: pop_contact_relief_target_def Let_def split: option.splits)

lemma observe_force_ok:
  assumes "contact_ok cfg c" and "1 \<le> ctc_consecutive_samples cfg" and "length values = 6"
  shows "contact_ok cfg (observe_contact_force cfg c values running holding requested command)"
proof -
  define c1 where "c1 = c\<lparr>cn_force_generation := cn_force_generation c + 1,
    cn_fingers := map (\<lambda>f. f\<lparr>fg_closure_since_force := Fin 0\<rparr>) (cn_fingers c)\<rparr>"
  have c1: "contact_ok cfg c1" using assms(1) by (auto simp: c1_def contact_ok_def)
  show ?thesis
  proof (cases "cn_force_baseline c1")
    case None
    then show ?thesis unfolding observe_contact_force_def Let_def c1_def[symmetric]
      using contact_ok_arrays(1)[OF c1 assms(3)] by simp
  next
    case (Some baseline)
    define c2 where "c2 = c1\<lparr>cn_fingers := map (\<lambda>i. (cn_fingers c1 ! i)\<lparr>fg_force_delta := fabs (fsub (values ! i) (baseline ! i))\<rparr>) [0..<6]\<rparr>"
    have c2: "contact_ok cfg c2" unfolding c2_def
      using contact_ok_nth[OF c1] by (intro contact_ok_fingers c1) simp
    have upd: "contact_ok cfg (c2\<lparr>cn_fingers := map fst (map g [0..<6]), cn_force_baseline := Some (map h (map g [0..<6])),
        cn_detection_count := k, cn_relief_pending := b, cn_force_angle_generation := n\<rparr>)"
      if "\<And>i. i < 6 \<Longrightarrow> finger_ok cfg (fst (g i))" for g :: "nat \<Rightarrow> finger \<times> pyfloat \<times> bool \<times> bool" and h k b n
      using that c2 by (auto simp: contact_ok_def)
    show ?thesis
      unfolding observe_contact_force_def Let_def c1_def[symmetric] Some option.case c2_def[symmetric]
      using c2 upd[OF observe_finger_ok[OF contact_ok_nth[OF c2] assms(2)]]
      by (auto split: option.split simp del: map_map)
  qed
qed

section \<open>Latching needs consecutive samples\<close>

text \<open>
  What happens to one finger: force samples while it is not latched (newest first, with their verdicts),
  and everything else that keeps its candidate count.
\<close>

inductive finger_history :: "contact_config \<Rightarrow> finger_policy \<Rightarrow> finger \<Rightarrow> bool list \<Rightarrow> bool" for cfg pol where
  fresh: "finger_history cfg pol fresh_finger []"
| sample: "finger_history cfg pol f qs \<Longrightarrow> \<not> fg_latched f \<Longrightarrow>
    observe_finger cfg pol requested measured last_command force f baseline = (f', baseline', q, detected) \<Longrightarrow>
    finger_history cfg pol f' (q # qs)"
| release: "finger_history cfg pol f qs \<Longrightarrow> finger_history cfg pol (release_finger f) []"
| other: "finger_history cfg pol f qs \<Longrightarrow> fg_candidate_count f' = fg_candidate_count f \<Longrightarrow>
    fg_latched f' = fg_latched f \<Longrightarrow> finger_history cfg pol f' qs"

lemma finger_history_count:
  "finger_history cfg pol f qs \<Longrightarrow> 1 \<le> ctc_consecutive_samples cfg \<Longrightarrow>
     fg_candidate_count f = int (length (takeWhile (\<lambda>q. q) qs))
     \<and> (fg_latched f \<longleftrightarrow> ctc_consecutive_samples cfg \<le> fg_candidate_count f)"
proof (induction rule: finger_history.induct)
  case (sample f qs requested measured last_command force baseline f' baseline' q detected)
  then show ?case
    by (auto simp: observe_finger_def Let_def split: if_split_asm)
qed (auto simp: fresh_finger_def release_finger_def)

end
