(* ===== verification/HandControl.thy ===== *)
theory HandControl
  imports HandContact SerialBackend
begin

text \<open>
  The PC-direct control of the RH56 hand, \<open>RH56PcDirectControl\<close> of \<open>src/rh56_driver/pc_direct_control.py\<close>:
  configuration, session, feedback, faults. Calls of the backend are arguments: the result or the exception
  the call produced. So are the readings of the performance counter. Every position vector handed to the
  backend is kept in \<open>rc_position_writes\<close>. The latency windows kept for diagnostics are not modelled.
\<close>

section \<open>Data\<close>

datatype hand_control_state = HandDisabled | HandHold | HandActive | HandFault

datatype hand_operation = OpHandOnly | OpCombined | OpRuntimeConfig | OpFaultReset | OpForceCalibration

datatype hand_register = RegAngle | RegCurrent | RegForce | RegStatus | RegError

definition hand_registers :: "hand_register list" where
  "hand_registers = [RegAngle, RegCurrent, RegForce, RegStatus, RegError]"

text \<open>Exceptions a backend call may raise.\<close>

datatype backend_exn = ExSerial failure_record | ExTimeout | ExOther

definition exn_of_serial :: "serial_error \<Rightarrow> backend_exn" where
  "exn_of_serial e = (case e of SerialError r \<Rightarrow> ExSerial r | _ \<Rightarrow> ExOther)"

datatype hand_error = HcConfig string | HcNotConnected | HcNotOpen | HcBackend backend_exn | HcSchema schema_error
  | HcConv conv_error | HcDeviceError | HcStaleRead | HcStaleFeedback | HcCacheIncomplete | HcPermission | HcFaulted
  | HcAssertion | HcTargetSize | HcTargetRange | HcActivation | HcActivationMismatch | HcRejected | HcVector

record hand_feedback =
  fbk_monotonic_ns :: int
  fbk_position_raw :: "pyfloat list"
  fbk_position_normalized :: "pyfloat list"
  fbk_current_raw_count :: "pyfloat list"
  fbk_load_or_force_raw_count :: "pyfloat list"
  fbk_status :: "int list"
  fbk_error :: "int list"
  fbk_read_latency_ms :: pyfloat

record hand_failure =
  hfl_stage :: string
  hfl_monotonic_ns :: int
  hfl_exception :: hand_error
  hfl_fault_reason :: "string option"
  hfl_control_state :: hand_control_state
  hfl_transport_state :: string

section \<open>Configuration\<close>

datatype vector_setting = Scalar pyfloat | Components "pyfloat list"

record hand_settings =
  hst_command_rate_hz :: pyfloat
  hst_feedback_rate_hz :: "hand_register \<Rightarrow> pyfloat"
  hst_warning_age_ms :: "hand_register \<Rightarrow> pyfloat option"
  hst_serial_timeout_sec :: "pyfloat option"
  hst_stale_timeout_sec :: "pyfloat option"
  hst_delta_limit :: "pyfloat option"
  hst_max_close_strength :: "pyfloat option"
  hst_contact_enabled :: bool
  hst_require_fresh_force :: bool
  hst_force_delta_onset :: "vector_setting option"
  hst_force_delta_release :: "vector_setting option"
  hst_closure_budget :: "vector_setting option"
  hst_maximum_closure_step :: "vector_setting option"
  hst_minimum_closing_gap :: "pyfloat option"
  hst_maximum_stall_progress :: "pyfloat option"
  hst_relief_margin :: "pyfloat option"
  hst_release_open_delta :: "pyfloat option"
  hst_consecutive_samples :: "int option"
  hst_baseline_alpha :: "pyfloat option"
  hst_calibration :: "(string \<Rightarrow> dof_calibration) option"
  hst_protocol_order :: "string list option"
  hst_diagnostics_enabled :: bool
  hst_window_size :: "int option"
  hst_duplicate_suppression :: "bool option"

record hand_config =
  hcf_command_rate_hz :: pyfloat
  hcf_command_period_ns :: int
  hcf_feedback_rate_hz :: "hand_register \<Rightarrow> pyfloat"
  hcf_warning_age_ns :: "hand_register \<Rightarrow> int"
  hcf_stale_timeout_ns :: int
  hcf_delta_limit :: pyfloat
  hcf_max_close :: pyfloat
  hcf_contact :: contact_config
  hcf_calibration :: "string \<Rightarrow> dof_calibration"
  hcf_protocol_order :: "string list"
  hcf_diagnostics_enabled :: bool
  hcf_window_size :: int
  hcf_duplicate_suppression :: bool

text \<open>A decimal literal of the source and \<open>.get(name, default)\<close>.\<close>

definition literal :: "int \<Rightarrow> int \<Rightarrow> pyfloat" where
  "literal a b = round64 (of_int a / of_int b)"

definition setting_or :: "'a \<Rightarrow> 'a option \<Rightarrow> 'a" where
  "setting_or d v = (case v of None \<Rightarrow> d | Some x \<Rightarrow> x)"

definition rounded :: "pyfloat \<Rightarrow> (hand_error, int) res" where
  "rounded v = (case py_round v of Inl e \<Rightarrow> Inl (HcConv e) | Inr n \<Rightarrow> Inr n)"

definition default_warning_ms :: "hand_register \<Rightarrow> pyfloat" where
  "default_warning_ms r = (if r = RegAngle then Fin 150 else Fin 250)"

definition contact_vector :: "vector_setting option \<Rightarrow> pyfloat \<Rightarrow> (hand_error, pyfloat list) res" where
  "contact_vector setting fallback =
     (let raw = setting_or (Scalar fallback) setting;
          values = (case raw of Scalar x \<Rightarrow> replicate 6 x | Components xs \<Rightarrow> xs) in
      if length values \<noteq> 6 \<or> \<not> list_all is_finite values \<or> list_ex (\<lambda>v. flt v (Fin 0)) values
      then Inl (HcConfig ''contact_vector'') else Inr values)"

definition contact_policy_malformed :: "contact_config \<Rightarrow> pyfloat \<Rightarrow> bool" where
  "contact_policy_malformed c delta_limit \<longleftrightarrow>
     \<not> is_finite (ctc_minimum_closing_gap c) \<or> fle (ctc_minimum_closing_gap c) (Fin 0)
     \<or> \<not> is_finite (ctc_maximum_stall_progress c) \<or> flt (ctc_maximum_stall_progress c) (Fin 0)
     \<or> list_ex (\<lambda>p. fle (pol_onset p) (pol_release p)) (ctc_fingers c)
     \<or> list_ex (\<lambda>p. fle (pol_budget p) (Fin 0)) (ctc_fingers c)
     \<or> list_ex (\<lambda>p. flt delta_limit (pol_budget p)) (ctc_fingers c)
     \<or> list_ex (\<lambda>p. fle (pol_max_step p) (Fin 0)) (ctc_fingers c)
     \<or> list_ex (\<lambda>p. flt (pol_budget p) (pol_max_step p)) (ctc_fingers c)
     \<or> \<not> is_finite (ctc_relief_margin c) \<or> \<not> (fle (Fin 0) (ctc_relief_margin c) \<and> fle (ctc_relief_margin c) delta_limit)
     \<or> \<not> is_finite (ctc_release_open_delta c) \<or> fle (ctc_release_open_delta c) (Fin 0)
     \<or> ctc_consecutive_samples c < 2
     \<or> \<not> is_finite (ctc_baseline_alpha c) \<or> \<not> (flt (Fin 0) (ctc_baseline_alpha c) \<and> fle (ctc_baseline_alpha c) (Fin 1))"

definition mk_contact_config :: "hand_settings \<Rightarrow> pyfloat \<Rightarrow> (hand_error, contact_config) res" where
  "mk_contact_config s delta_limit =
     rbind (contact_vector (hst_force_delta_onset s) (Fin 250)) (\<lambda>onset.
     rbind (contact_vector (hst_force_delta_release s) (Fin 100)) (\<lambda>release.
     rbind (contact_vector (hst_closure_budget s) delta_limit) (\<lambda>budget.
     rbind (contact_vector (hst_maximum_closure_step s) delta_limit) (\<lambda>step.
     let c = \<lparr>ctc_enabled = hst_contact_enabled s, ctc_require_fresh_force = hst_require_fresh_force s,
              ctc_fingers = map (\<lambda>i. \<lparr>pol_onset = onset ! i, pol_release = release ! i, pol_budget = budget ! i,
                                       pol_max_step = step ! i\<rparr>) [0..<6],
              ctc_minimum_closing_gap = setting_or (literal 8 1000) (hst_minimum_closing_gap s),
              ctc_maximum_stall_progress = setting_or (literal 5 1000) (hst_maximum_stall_progress s),
              ctc_relief_margin = setting_or (literal 1 100) (hst_relief_margin s),
              ctc_release_open_delta = setting_or (literal 2 100) (hst_release_open_delta s),
              ctc_consecutive_samples = setting_or 2 (hst_consecutive_samples s),
              ctc_baseline_alpha = setting_or (literal 1 10) (hst_baseline_alpha s)\<rparr> in
     if contact_policy_malformed c delta_limit then Inl (HcConfig ''contact_policy'') else Inr c))))"

definition warning_age_ns :: "hand_settings \<Rightarrow> hand_register \<Rightarrow> (hand_error, int) res" where
  "warning_age_ns s r = rounded (fmul (setting_or (default_warning_ms r) (hst_warning_age_ms s r)) (Fin 1000000))"

text \<open>A quotient by a positive rate: \<open>1e9 / rate\<close>.\<close>

definition mk_hand_config :: "hand_settings \<Rightarrow> (hand_error, hand_config) res" where
  "mk_hand_config s =
     rbind (require (\<not> fle (hst_command_rate_hz s) (Fin 0)) (HcConfig ''command_rate_hz'')) (\<lambda>_.
     rbind (rounded (fdiv (Fin 1000000000) (hst_command_rate_hz s))) (\<lambda>period.
     rbind (require (\<not> list_ex (\<lambda>r. fle (hst_feedback_rate_hz s r) (Fin 0)) hand_registers) (HcConfig ''feedback_rate_hz'')) (\<lambda>_.
     rbind (rmap (warning_age_ns s) hand_registers) (\<lambda>ages.
     rbind (require (\<not> list_ex (\<lambda>a. a \<le> 0) ages) (HcConfig ''feedback_warning_age_ms'')) (\<lambda>_.
     rbind (rounded (fmul (setting_or (fmul (Fin 2) (setting_or (literal 2 10) (hst_serial_timeout_sec s))) (hst_stale_timeout_sec s))
                          (Fin 1000000000))) (\<lambda>stale.
     let delta_limit = setting_or (literal 5 100) (hst_delta_limit s); max_close = setting_or (Fin 1) (hst_max_close_strength s) in
     rbind (require (is_finite max_close \<and> flt (Fin 0) max_close \<and> fle max_close (Fin 1)) (HcConfig ''max_close_strength'')) (\<lambda>_.
     rbind (mk_contact_config s delta_limit) (\<lambda>contact.
     rbind (require (0 < setting_or 256 (hst_window_size s)) (HcConfig ''window_size'')) (\<lambda>_.
     Inr \<lparr>hcf_command_rate_hz = hst_command_rate_hz s, hcf_command_period_ns = period,
          hcf_feedback_rate_hz = hst_feedback_rate_hz s,
          hcf_warning_age_ns = (\<lambda>r. case map_of (zip hand_registers ages) r of Some a \<Rightarrow> a | None \<Rightarrow> 0),
          hcf_stale_timeout_ns = stale, hcf_delta_limit = delta_limit, hcf_max_close = max_close, hcf_contact = contact,
          hcf_calibration = setting_or (\<lambda>_. default_rh56_calibration) (hst_calibration s),
          hcf_protocol_order = setting_or canonical_hand_order (hst_protocol_order s),
          hcf_diagnostics_enabled = hst_diagnostics_enabled s, hcf_window_size = setting_or 256 (hst_window_size s),
          hcf_duplicate_suppression = setting_or True (hst_duplicate_suppression s)\<rparr>)))))))))"

section \<open>The control\<close>

record register_cache =
  hca_angle :: "pyfloat list option"
  hca_current :: "pyfloat list option"
  hca_force :: "pyfloat list option"
  hca_status :: "int list option"
  hca_error :: "int list option"
  hca_success_ns :: "hand_register \<Rightarrow> int option"

record hand_trace =
  htx_request_normalized :: "pyfloat list option"
  htx_request_ns :: "int option"
  htx_request_sequence :: "int option"
  htx_post_contact :: "pyfloat list option"
  htx_post_delta_limit :: "pyfloat list option"
  htx_disposition :: string
  htx_submitted_sequence :: "int option"
  htx_written_sequence :: "int option"
  htx_command_age_ms :: "pyfloat option"
  htx_write_latency_ms :: "pyfloat option"

record hand_counts =
  hct_evaluations :: nat
  hct_rate_limited :: nat
  hct_write_attempts :: nat
  hct_writes :: nat
  hct_duplicates :: nat
  hct_feedback_records :: nat
  hct_transient_holds :: nat
  hct_timeouts :: nat
  hct_timeouts_by_register :: "hand_register \<Rightarrow> nat"
  hct_first_attempt_ns :: "int option"
  hct_last_attempt_ns :: "int option"

record hand_control =
  rc_cfg :: hand_config
  rc_state :: hand_control_state
  rc_transport_state :: string
  rc_operation :: "hand_operation option"
  rc_last_feedback :: "hand_feedback option"
  rc_last_command_normalized :: "pyfloat list option"
  rc_last_command_raw :: "int list option"
  rc_last_command_ns :: "int option"
  rc_next_command_ns :: "int option"
  rc_fault_reason :: "string option"
  rc_last_failure :: "hand_failure option"
  rc_force_next_command :: bool
  rc_transient_hold :: bool
  rc_last_requested :: "pyfloat list option"
  rc_cache :: register_cache
  rc_trace :: hand_trace
  rc_counts :: hand_counts
  rc_contact :: contact
  rc_position_writes :: "(int \<times> int list) list"

definition mk_hand_control :: "hand_settings \<Rightarrow> (hand_error, hand_control) res" where
  "mk_hand_control s =
     rbind (mk_hand_config s) (\<lambda>cfg.
     Inr \<lparr>rc_cfg = cfg, rc_state = HandDisabled, rc_transport_state = ''CLOSED'', rc_operation = None,
          rc_last_feedback = None, rc_last_command_normalized = None, rc_last_command_raw = None,
          rc_last_command_ns = None, rc_next_command_ns = None, rc_fault_reason = None, rc_last_failure = None,
          rc_force_next_command = False, rc_transient_hold = False, rc_last_requested = None,
          rc_cache = \<lparr>hca_angle = None, hca_current = None, hca_force = None, hca_status = None, hca_error = None,
                      hca_success_ns = (\<lambda>_. None)\<rparr>,
          rc_trace = \<lparr>htx_request_normalized = None, htx_request_ns = None, htx_request_sequence = None,
                      htx_post_contact = None, htx_post_delta_limit = None, htx_disposition = ''never_evaluated'',
                      htx_submitted_sequence = None, htx_written_sequence = None, htx_command_age_ms = None,
                      htx_write_latency_ms = None\<rparr>,
          rc_counts = \<lparr>hct_evaluations = 0, hct_rate_limited = 0, hct_write_attempts = 0, hct_writes = 0,
                       hct_duplicates = 0, hct_feedback_records = 0, hct_transient_holds = 0, hct_timeouts = 0,
                       hct_timeouts_by_register = (\<lambda>_. 0), hct_first_attempt_ns = None, hct_last_attempt_ns = None\<rparr>,
          rc_contact = new_contact, rc_position_writes = []\<rparr>)"

section \<open>Faults, hold and session\<close>

definition rc_fault :: "hand_control \<Rightarrow> string \<Rightarrow> hand_control" where
  "rc_fault c reason =
     c\<lparr>rc_state := HandFault, rc_transport_state := ''FAULT'',
       rc_fault_reason := (case rc_fault_reason c of None \<Rightarrow> Some reason | Some r \<Rightarrow> Some r),
       rc_next_command_ns := None\<rparr>"

definition capture_failure :: "hand_control \<Rightarrow> string \<Rightarrow> hand_error \<Rightarrow> int \<Rightarrow> hand_control" where
  "capture_failure c stage e now_ns =
     c\<lparr>rc_last_failure := Some \<lparr>hfl_stage = stage, hfl_monotonic_ns = now_ns, hfl_exception = e,
        hfl_fault_reason = rc_fault_reason c, hfl_control_state = rc_state c, hfl_transport_state = rc_transport_state c\<rparr>\<rparr>"

definition rc_dispose :: "hand_control \<Rightarrow> string \<Rightarrow> hand_control" where
  "rc_dispose c d = c\<lparr>rc_trace := (rc_trace c)\<lparr>htx_disposition := d\<rparr>\<rparr>"

definition rc_hold :: "hand_control \<Rightarrow> string \<Rightarrow> hand_control" where
  "rc_hold c reason =
     (if rc_state c = HandFault then c
      else c\<lparr>rc_state := HandHold, rc_transport_state := ''CONNECTED_HOLD:'' @ reason, rc_next_command_ns := None\<rparr>)"

definition rc_open :: "hand_control \<Rightarrow> hand_operation \<Rightarrow> (backend_exn, bool) res \<Rightarrow> hand_control \<times> (hand_error, unit) res" where
  "rc_open c operation outcome =
     (case outcome of
        Inl e \<Rightarrow> (rc_fault c ''serial_connect_failure'', Inl (HcBackend e))
      | Inr False \<Rightarrow> (rc_fault c ''serial_connect_failure'', Inl HcNotConnected)
      | Inr True \<Rightarrow> (c\<lparr>rc_operation := Some operation, rc_transport_state := ''CONNECTED_READ_ONLY'',
                        rc_state := HandHold\<rparr>, Inr ()))"

definition rc_arm_terminal_stop :: "hand_control \<Rightarrow> string \<Rightarrow> hand_control" where
  "rc_arm_terminal_stop c reason = rc_fault c (''arm_terminal_hard_stop:'' @ reason)"

definition rc_cleanup :: "hand_control \<Rightarrow> hand_control" where
  "rc_cleanup c = c\<lparr>rc_state := HandDisabled, rc_transport_state := ''CLOSED'', rc_next_command_ns := None\<rparr>"

definition feedback_stale :: "hand_control \<Rightarrow> int \<Rightarrow> bool" where
  "feedback_stale c now_ns \<longleftrightarrow>
     (case rc_last_feedback c of None \<Rightarrow> True
      | Some f \<Rightarrow> hcf_stale_timeout_ns (rc_cfg c) < now_ns - fbk_monotonic_ns f)"

definition mark_feedback_timeout :: "hand_control \<Rightarrow> int \<Rightarrow> hand_control \<times> bool" where
  "mark_feedback_timeout c now_ns =
     (if feedback_stale c now_ns
      then (capture_failure (rc_fault c ''feedback_timeout'') ''feedback_freshness'' HcStaleFeedback now_ns, True)
      else (c, False))"

definition rc_closed :: "hand_control \<Rightarrow> bool" where
  "rc_closed c \<longleftrightarrow> rc_transport_state c = ''CLOSED'' \<or> rc_state c = HandDisabled"

section \<open>Feedback\<close>

definition any_nonzero :: "int list \<Rightarrow> bool" where
  "any_nonzero vs = list_ex (\<lambda>v. v \<noteq> 0) vs"

definition lift_exn :: "(backend_exn, 'a) res \<Rightarrow> (hand_error, 'a) res" where
  "lift_exn r = (case r of Inl e \<Rightarrow> Inl (HcBackend e) | Inr v \<Rightarrow> Inr v)"

definition canonical_ints :: "(pyfloat \<Rightarrow> pyfloat) \<Rightarrow> hand_config \<Rightarrow> int list \<Rightarrow> (hand_error, int list) res" where
  "canonical_ints cast32 cfg values =
     (case raw_to_canonical cast32 (map (\<lambda>v. Fin (of_int v)) values) (hcf_protocol_order cfg) of
        Inl e \<Rightarrow> Inl (HcSchema e)
      | Inr fs \<Rightarrow> rmap (\<lambda>f. case py_int f of Inl e \<Rightarrow> Inl (HcConv e) | Inr n \<Rightarrow> Inr n) fs)"

definition rc_normalize :: "(pyfloat \<Rightarrow> pyfloat) \<Rightarrow> hand_config \<Rightarrow> pyfloat list \<Rightarrow> (hand_error, pyfloat list) res" where
  "rc_normalize cast32 cfg position =
     (case normalize_raw cast32 position canonical_hand_order (hcf_calibration cfg) of
        Inl e \<Rightarrow> Inl (HcSchema e) | Inr v \<Rightarrow> Inr v)"

definition running_state :: "hand_control_state \<Rightarrow> bool" where
  "running_state s \<longleftrightarrow> s = HandActive \<or> s = HandHold"

definition rc_observe_angle :: "hand_control \<Rightarrow> pyfloat list \<Rightarrow> hand_control" where
  "rc_observe_angle c normalized = c\<lparr>rc_contact := observe_contact_angle (rc_contact c) normalized\<rparr>"

definition rc_observe_force :: "hand_control \<Rightarrow> pyfloat list \<Rightarrow> hand_control" where
  "rc_observe_force c loads =
     c\<lparr>rc_contact := observe_contact_force (hcf_contact (rc_cfg c)) (rc_contact c) loads (running_state (rc_state c))
        (rc_state c = HandHold) (rc_last_requested c) (rc_last_command_normalized c)\<rparr>"

text \<open>The first measured position becomes the last command: the target is set before the rounding may raise.\<close>

definition adopt_position :: "hand_control \<Rightarrow> hand_feedback \<Rightarrow> hand_control \<times> (hand_error, unit) res" where
  "adopt_position c fb =
     (let c1 = c\<lparr>rc_last_command_normalized := Some (fbk_position_normalized fb)\<rparr> in
      case rmap rounded (fbk_position_raw fb) of
        Inl e \<Rightarrow> (c1, Inl e)
      | Inr raw \<Rightarrow> (c1\<lparr>rc_last_command_raw := Some raw\<rparr>, Inr ()))"

definition adopting :: "hand_control \<Rightarrow> hand_feedback \<Rightarrow> hand_control \<times> (hand_error, hand_feedback) res" where
  "adopting c fb = (case adopt_position c fb of (c1, Inl e) \<Rightarrow> (c1, Inl e) | (c1, Inr _) \<Rightarrow> (c1, Inr fb))"

definition read_too_slow :: "hand_control \<Rightarrow> int \<Rightarrow> bool" where
  "read_too_slow c elapsed_ns \<longleftrightarrow>
     flt (Fin (of_int (hcf_stale_timeout_ns (rc_cfg c)))) (fmul (ns_to_ms elapsed_ns) (Fin 1000000))"

definition fail_with :: "hand_control \<Rightarrow> string \<Rightarrow> string \<Rightarrow> hand_error \<Rightarrow> int \<Rightarrow> hand_control \<times> (hand_error, 'a) res" where
  "fail_with c reason stage e now_ns = (capture_failure (rc_fault c reason) stage e now_ns, Inl e)"

text \<open>A complete snapshot: cache and contact detector first, then the device error and latency checks.\<close>

definition store_snapshot :: "hand_control \<Rightarrow> hand_feedback \<Rightarrow> hand_control" where
  "store_snapshot c fb =
     rc_observe_force (rc_observe_angle
       (c\<lparr>rc_last_feedback := Some fb,
          rc_cache := \<lparr>hca_angle = Some (fbk_position_raw fb), hca_current = Some (fbk_current_raw_count fb),
                       hca_force = Some (fbk_load_or_force_raw_count fb), hca_status = Some (fbk_status fb),
                       hca_error = Some (fbk_error fb), hca_success_ns = (\<lambda>_. Some (fbk_monotonic_ns fb))\<rparr>,
          rc_counts := (rc_counts c)\<lparr>hct_feedback_records := hct_feedback_records (rc_counts c) + 1\<rparr>\<rparr>)
       (fbk_position_normalized fb)) (fbk_load_or_force_raw_count fb)"

definition settle_snapshot :: "hand_control \<Rightarrow> hand_feedback \<Rightarrow> int \<Rightarrow> hand_control \<times> (hand_error, hand_feedback) res" where
  "settle_snapshot c fb elapsed_ns =
     (if any_nonzero (fbk_error fb) then fail_with c ''device_error_status'' ''device_error_status'' HcDeviceError (fbk_monotonic_ns fb)
      else if read_too_slow c elapsed_ns
      then fail_with c ''feedback_stale_during_read'' ''feedback_stale_during_read'' HcStaleRead (fbk_monotonic_ns fb)
      else if rc_last_command_normalized c = None then adopting c fb
      else (c, Inr fb))"

definition poll_feedback ::
  "(pyfloat \<Rightarrow> pyfloat) \<Rightarrow> hand_control \<Rightarrow> int \<Rightarrow> (backend_exn, pyfloat list) res \<Rightarrow> (backend_exn, pyfloat list) res
     \<Rightarrow> (backend_exn, pyfloat list) res \<Rightarrow> (backend_exn, int list) res \<Rightarrow> (backend_exn, int list) res \<Rightarrow> int
     \<Rightarrow> hand_control \<times> (hand_error, hand_feedback) res" where
  "poll_feedback cast32 c now_ns angles currents forces status_read error_read elapsed_ns =
     (if rc_closed c then (c, Inl HcNotOpen)
      else case
        rbind (lift_exn angles) (\<lambda>position. rbind (lift_exn currents) (\<lambda>current. rbind (lift_exn forces) (\<lambda>load.
        rbind (rbind (lift_exn status_read) (canonical_ints cast32 (rc_cfg c))) (\<lambda>status.
        rbind (rbind (lift_exn error_read) (canonical_ints cast32 (rc_cfg c))) (\<lambda>errors.
        Inr (position, current, load, status, errors)))))) of
        Inl e \<Rightarrow> fail_with c ''serial_feedback_failure'' ''feedback_poll'' e now_ns
      | Inr (position, current, load, status, errors) \<Rightarrow>
          (case rc_normalize cast32 (rc_cfg c) position of
             Inl e \<Rightarrow> (c, Inl e)
           | Inr normalized \<Rightarrow>
               (let fb = \<lparr>fbk_monotonic_ns = now_ns, fbk_position_raw = position, fbk_position_normalized = normalized,
                          fbk_current_raw_count = current, fbk_load_or_force_raw_count = load, fbk_status = status,
                          fbk_error = errors, fbk_read_latency_ms = ns_to_ms elapsed_ns\<rparr> in
                settle_snapshot (store_snapshot c fb) fb elapsed_ns)))"

text \<open>One register: the read that was made, with its result.\<close>

datatype register_read =
    ReadAngle "(backend_exn, pyfloat list) res" | ReadCurrent "(backend_exn, pyfloat list) res"
  | ReadForce "(backend_exn, pyfloat list) res" | ReadStatus "(backend_exn, int list) res"
  | ReadError "(backend_exn, int list) res"

fun register_of :: "register_read \<Rightarrow> hand_register" where
  "register_of (ReadAngle _) = RegAngle"
| "register_of (ReadCurrent _) = RegCurrent"
| "register_of (ReadForce _) = RegForce"
| "register_of (ReadStatus _) = RegStatus"
| "register_of (ReadError _) = RegError"

definition reg_name :: "hand_register \<Rightarrow> string" where
  "reg_name r = (case r of RegAngle \<Rightarrow> ''ANGLE'' | RegCurrent \<Rightarrow> ''CURRENT'' | RegForce \<Rightarrow> ''FORCE''
     | RegStatus \<Rightarrow> ''STATUS'' | RegError \<Rightarrow> ''ERROR'')"

definition reg_alias :: "hand_register \<Rightarrow> string" where
  "reg_alias r = (case r of RegAngle \<Rightarrow> ''ANGLE_ACT'' | RegForce \<Rightarrow> ''FORCE_ACT'' | _ \<Rightarrow> reg_name r)"

text \<open>The cache with the values of one successful read.\<close>

fun cache_read :: "(pyfloat \<Rightarrow> pyfloat) \<Rightarrow> hand_config \<Rightarrow> register_cache \<Rightarrow> register_read \<Rightarrow> (hand_error, register_cache) res" where
  "cache_read cast32 cfg h (ReadAngle r) = rbind (lift_exn r) (\<lambda>v. Inr (h\<lparr>hca_angle := Some v\<rparr>))"
| "cache_read cast32 cfg h (ReadCurrent r) = rbind (lift_exn r) (\<lambda>v. Inr (h\<lparr>hca_current := Some v\<rparr>))"
| "cache_read cast32 cfg h (ReadForce r) = rbind (lift_exn r) (\<lambda>v. Inr (h\<lparr>hca_force := Some v\<rparr>))"
| "cache_read cast32 cfg h (ReadStatus r) =
     rbind (rbind (lift_exn r) (canonical_ints cast32 cfg)) (\<lambda>v. Inr (h\<lparr>hca_status := Some v\<rparr>))"
| "cache_read cast32 cfg h (ReadError r) =
     rbind (rbind (lift_exn r) (canonical_ints cast32 cfg)) (\<lambda>v. Inr (h\<lparr>hca_error := Some v\<rparr>))"

definition transient_read_timeout :: "hand_control \<Rightarrow> hand_error \<Rightarrow> int \<Rightarrow> hand_register \<Rightarrow> bool" where
  "transient_read_timeout c e now_ns r \<longleftrightarrow>
     \<not> feedback_stale c now_ns
     \<and> (case e of
          HcBackend (ExSerial f) \<Rightarrow> fl_code f = ''timeout'' \<and> fl_operation f = ''read_register''
            \<and> (case fl_register f of None \<Rightarrow> True | Some n \<Rightarrow> n = reg_name r \<or> n = reg_alias r)
        | HcBackend ExTimeout \<Rightarrow> True
        | _ \<Rightarrow> False)"

definition feedback_from_cache :: "(pyfloat \<Rightarrow> pyfloat) \<Rightarrow> hand_control \<Rightarrow> pyfloat \<Rightarrow> (hand_error, hand_feedback) res" where
  "feedback_from_cache cast32 c read_latency_ms =
     (case (hca_angle (rc_cache c), hca_current (rc_cache c), hca_force (rc_cache c), hca_status (rc_cache c), hca_error (rc_cache c)) of
        (Some position, Some current, Some load, Some status, Some errors) \<Rightarrow>
          (case hca_success_ns (rc_cache c) RegAngle of
             None \<Rightarrow> Inl HcAssertion
           | Some angle_ns \<Rightarrow>
               rbind (rc_normalize cast32 (rc_cfg c) position) (\<lambda>normalized.
               Inr \<lparr>fbk_monotonic_ns = angle_ns, fbk_position_raw = position, fbk_position_normalized = normalized,
                    fbk_current_raw_count = current, fbk_load_or_force_raw_count = load, fbk_status = status,
                    fbk_error = errors, fbk_read_latency_ms = read_latency_ms\<rparr>))
      | _ \<Rightarrow> Inl HcCacheIncomplete)"

definition note_transient :: "hand_control \<Rightarrow> hand_register \<Rightarrow> hand_error \<Rightarrow> int \<Rightarrow> hand_control" where
  "note_transient c r e now_ns =
     (let n = rc_counts c;
          c1 = c\<lparr>rc_counts := n\<lparr>hct_timeouts := hct_timeouts n + 1, hct_transient_holds := hct_transient_holds n + 1,
                   hct_timeouts_by_register := (hct_timeouts_by_register n)(r := hct_timeouts_by_register n r + 1)\<rparr>,
                 rc_transient_hold := True\<rparr> in
      capture_failure (rc_dispose c1 ''feedback_timeout_hold'') ''feedback_read_timeout_hold'' e now_ns)"

definition store_register :: "hand_control \<Rightarrow> hand_register \<Rightarrow> register_cache \<Rightarrow> int \<Rightarrow> hand_control" where
  "store_register c r h now_ns =
     c\<lparr>rc_transient_hold := False, rc_cache := h\<lparr>hca_success_ns := (hca_success_ns h)(r := Some now_ns)\<rparr>\<rparr>"

text \<open>The refreshed snapshot after a register read, and the detector that reads it.\<close>

definition refresh_snapshot :: "hand_control \<Rightarrow> hand_register \<Rightarrow> hand_feedback \<Rightarrow> hand_control" where
  "refresh_snapshot c r fb =
     (let c1 = c\<lparr>rc_last_feedback := Some fb\<rparr> in
      if r = RegAngle then rc_observe_angle c1 (fbk_position_normalized fb)
      else if r = RegForce then rc_observe_force c1 (fbk_load_or_force_raw_count fb) else c1)"

definition settle_register ::
  "(pyfloat \<Rightarrow> pyfloat) \<Rightarrow> hand_control \<Rightarrow> hand_register \<Rightarrow> int \<Rightarrow> int \<Rightarrow> hand_control \<times> (hand_error, hand_feedback) res" where
  "settle_register cast32 c r now_ns elapsed_ns =
     (if r = RegError \<and> any_nonzero (setting_or [] (hca_error (rc_cache c)))
      then fail_with c ''device_error_status'' ''device_error_status'' HcDeviceError now_ns
      else if read_too_slow c elapsed_ns
      then fail_with c ''feedback_stale_during_read'' ''feedback_stale_during_read'' HcStaleRead now_ns
      else case feedback_from_cache cast32 c (ns_to_ms elapsed_ns) of
        Inl e \<Rightarrow> (c, Inl e)
      | Inr fb \<Rightarrow>
          (let c1 = refresh_snapshot c r fb in
           if r = RegAngle \<and> rc_last_command_normalized c1 = None then adopting c1 fb else (c1, Inr fb)))"

definition poll_feedback_register ::
  "(pyfloat \<Rightarrow> pyfloat) \<Rightarrow> hand_control \<Rightarrow> int \<Rightarrow> register_read \<Rightarrow> int \<Rightarrow> hand_control \<times> (hand_error, hand_feedback) res" where
  "poll_feedback_register cast32 c now_ns rd elapsed_ns =
     (let r = register_of rd in
      if rc_closed c then (c, Inl HcNotOpen)
      else case cache_read cast32 (rc_cfg c) (rc_cache c) rd of
        Inl e \<Rightarrow>
          if transient_read_timeout c e now_ns r
          then (note_transient c r e now_ns, case rc_last_feedback c of None \<Rightarrow> Inl HcAssertion | Some fb \<Rightarrow> Inr fb)
          else fail_with c ''serial_feedback_failure'' ''feedback_register_poll'' e now_ns
      | Inr h \<Rightarrow> settle_register cast32 (store_register c r h now_ns) r now_ns elapsed_ns)"

definition feedback_register_timestamp_ns :: "hand_control \<Rightarrow> hand_register \<Rightarrow> int option" where
  "feedback_register_timestamp_ns c r = hca_success_ns (rc_cache c) r"

section \<open>Activation and the other operations\<close>

definition rc_activate :: "hand_control \<Rightarrow> int \<Rightarrow> hand_control \<times> (hand_error, unit) res" where
  "rc_activate c now_ns =
     (if rc_operation c \<notin> {Some OpHandOnly, Some OpCombined} then (c, Inl HcPermission)
      else case mark_feedback_timeout c now_ns of
        (c1, True) \<Rightarrow> (c1, Inl HcStaleFeedback)
      | (c1, False) \<Rightarrow>
          if rc_state c1 = HandFault then (c1, Inl HcFaulted)
          else case rc_last_feedback c1 of
            None \<Rightarrow> (c1, Inl HcAssertion)
          | Some fb \<Rightarrow>
              (case adopt_position c1 fb of
                 (c2, Inl e) \<Rightarrow> (c2, Inl e)
               | (c2, Inr _) \<Rightarrow>
                   (c2\<lparr>rc_last_requested := rc_last_command_normalized c2,
                       rc_contact := prepare_activation (rc_contact c2) (fbk_load_or_force_raw_count fb) (fbk_position_normalized fb),
                       rc_state := HandActive, rc_transport_state := ''CONNECTED_COMMANDING'',
                       rc_next_command_ns := Some now_ns, rc_force_next_command := True\<rparr>, Inr ())))"

definition rc_pop_relief :: "hand_control \<Rightarrow> hand_control \<times> pyfloat list option" where
  "rc_pop_relief c =
     (case pop_contact_relief_target (rc_contact c) (rc_state c = HandHold) (rc_last_command_normalized c) of
        (k, t) \<Rightarrow> (c\<lparr>rc_contact := k\<rparr>, t))"

definition validated_int_vector :: "int list \<Rightarrow> int \<Rightarrow> int \<Rightarrow> (hand_error, int list) res" where
  "validated_int_vector values lo hi =
     (if length values \<noteq> 6 then Inl HcVector
      else if list_ex (\<lambda>v. v < lo \<or> hi < v) values then Inl HcVector else Inr values)"

text \<open>A backend write that must return true.\<close>

definition accepted_write :: "(backend_exn, bool) res \<Rightarrow> (hand_error, unit) res" where
  "accepted_write outcome =
     (case outcome of Inl e \<Rightarrow> Inl (HcBackend e) | Inr b \<Rightarrow> if b then Inr () else Inl HcRejected)"

definition write_runtime_config ::
  "hand_control \<Rightarrow> int list \<Rightarrow> int list \<Rightarrow> (backend_exn, bool) res \<Rightarrow> (backend_exn, bool) res \<Rightarrow> hand_control \<times> (hand_error, unit) res" where
  "write_runtime_config c speeds forces speed_outcome force_outcome =
     (if rc_operation c \<noteq> Some OpRuntimeConfig then (c, Inl HcPermission)
      else case rbind (validated_int_vector speeds 0 1000) (\<lambda>_. validated_int_vector forces 0 1000) of
        Inl e \<Rightarrow> (c, Inl e)
      | Inr _ \<Rightarrow>
          (case rbind (accepted_write speed_outcome) (\<lambda>_. accepted_write force_outcome) of
             Inl e \<Rightarrow> (rc_fault c ''runtime_config_write_failure'', Inl e)
           | Inr _ \<Rightarrow> (c, Inr ())))"

definition clear_device_error :: "hand_control \<Rightarrow> (backend_exn, bool) res \<Rightarrow> hand_control \<times> (hand_error, unit) res" where
  "clear_device_error c outcome =
     (if rc_operation c \<noteq> Some OpFaultReset then (c, Inl HcPermission)
      else case accepted_write outcome of
        Inl e \<Rightarrow> (rc_fault c ''fault_reset_write_failure'', Inl e)
      | Inr _ \<Rightarrow> (c, Inr ()))"

definition start_force_calibration :: "hand_control \<Rightarrow> (backend_exn, bool) res \<Rightarrow> hand_control \<times> (hand_error, unit) res" where
  "start_force_calibration c outcome =
     (if rc_operation c \<noteq> Some OpForceCalibration then (c, Inl HcPermission)
      else case accepted_write outcome of
        Inl e \<Rightarrow> (rc_fault c ''force_sensor_calibration_write_failure'', Inl e)
      | Inr _ \<Rightarrow> (c, Inr ()))"

end
