(* ===== verification/HandCommand.thy ===== *)
theory HandCommand
  imports HandControl
begin

text \<open>
  The position command of the PC-direct hand control, \<open>RH56PcDirectControl.command\<close> of
  \<open>src/rh56_driver/pc_direct_control.py\<close>, in the stages of its body: the gate, the checks of the target, the
  contact limits, the duplicate test, the bounded step, and the write with its bookkeeping.
\<close>

section \<open>The stages\<close>

record command_request =
  crq_target :: "pyfloat list"
  crq_grip_fresh :: bool
  crq_arm_terminal_stop :: bool
  crq_submitted_ns :: "int option"
  crq_target_sequence :: "int option"
  crq_force_write :: bool
  crq_measured_activation :: bool
  crq_contact_relief :: bool

text \<open>Up to the rate limit: the call returns early with a result, or goes on.\<close>

definition command_gate ::
  "hand_control \<Rightarrow> command_request \<Rightarrow> int \<Rightarrow> hand_control \<times> (hand_error, bool) res option" where
  "command_gate c rq now_ns =
     (let c0 = c\<lparr>rc_counts := (rc_counts c)\<lparr>hct_evaluations := hct_evaluations (rc_counts c) + 1\<rparr>,
                 rc_trace := (rc_trace c)\<lparr>htx_submitted_sequence := crq_target_sequence rq\<rparr>\<rparr> in
      if crq_arm_terminal_stop rq then (rc_fault c0 ''arm_terminal_hard_stop'', Some (Inr False))
      else if \<not> crq_grip_fresh rq then (rc_hold c0 ''grip_stale'', Some (Inr False))
      else if rc_state c0 \<noteq> HandActive \<and> \<not> (crq_contact_relief rq \<and> rc_state c0 = HandHold)
      then (rc_dispose c0 ''inactive'', Some (Inr False))
      else case mark_feedback_timeout c0 now_ns of
        (c1, True) \<Rightarrow> (c1, Some (Inl HcStaleFeedback))
      | (c1, False) \<Rightarrow>
          if rc_state c1 = HandFault then (rc_dispose c1 ''faulted'', Some (Inr False))
          else if rc_transient_hold c1
          then (rc_dispose (c1\<lparr>rc_transient_hold := False\<rparr>) ''feedback_timeout_hold'', Some (Inr False))
          else if \<not> crq_force_write rq \<and> (case rc_next_command_ns c1 of None \<Rightarrow> False | Some t \<Rightarrow> now_ns < t)
          then (rc_dispose (c1\<lparr>rc_counts := (rc_counts c1)\<lparr>hct_rate_limited := hct_rate_limited (rc_counts c1) + 1\<rparr>\<rparr>)
                  ''rate_limited'', Some (Inr False))
          else (c1, None))"

definition check_target :: "hand_control \<Rightarrow> command_request \<Rightarrow> (hand_error, unit) res" where
  "check_target c rq =
     (let target = crq_target rq;
          ceiling = (if crq_measured_activation rq then Fin 1 else hcf_max_close (rc_cfg c)) in
      if length target \<noteq> 6 then Inl HcTargetSize
      else if \<not> list_all is_finite target \<or> list_ex (\<lambda>v. flt v (Fin 0)) target \<or> list_ex (\<lambda>v. flt ceiling v) target
      then Inl HcTargetRange
      else if crq_measured_activation rq then
        (case rc_last_feedback c of
           None \<Rightarrow> Inl HcActivation
         | Some fb \<Rightarrow>
             if \<not> crq_force_write rq then Inl HcActivation
             else let measured = map (\<lambda>v. np_clip v (Fin 0) (Fin 1)) (fbk_position_normalized fb) in
               if list_all (\<lambda>i. fle (fabs (fsub (target ! i) (measured ! i))) target_slack) [0..<6]
               then Inr () else Inl HcActivationMismatch)
      else Inr ())"

text \<open>The closure that the force samples still allow, and the target cut to it.\<close>

definition closing_at :: "pyfloat list \<Rightarrow> pyfloat list \<Rightarrow> nat \<Rightarrow> bool" where
  "closing_at previous requested i \<longleftrightarrow> flt (fadd (previous ! i) target_slack) (requested ! i)"

definition budget_target :: "hand_control \<Rightarrow> pyfloat list \<Rightarrow> pyfloat list \<Rightarrow> pyfloat list" where
  "budget_target c previous requested =
     map (\<lambda>i. if closing_at previous requested i
              then np_minimum (requested ! i)
                     (fadd (previous ! i)
                       (np_maximum (Fin 0)
                         (fsub (pol_budget (ctc_fingers (hcf_contact (rc_cfg c)) ! i)) (fg_closure_since_force (cn_fingers (rc_contact c) ! i)))))
              else requested ! i) [0..<6]"

definition must_wait :: "pyfloat list \<Rightarrow> pyfloat list \<Rightarrow> pyfloat list \<Rightarrow> bool" where
  "must_wait previous requested budgeted \<longleftrightarrow>
     list_all (\<lambda>i. closing_at previous requested i \<longrightarrow> fle (budgeted ! i) (fadd (previous ! i) target_slack)) [0..<6]
     \<and> \<not> list_ex (\<lambda>i. flt (budgeted ! i) (fsub (previous ! i) target_slack)) [0..<6]"

definition fresh_force_required :: "hand_control \<Rightarrow> bool" where
  "fresh_force_required c \<longleftrightarrow>
     ctc_enabled (hcf_contact (rc_cfg c)) \<and> ctc_require_fresh_force (hcf_contact (rc_cfg c))"

definition note_request :: "hand_control \<Rightarrow> command_request \<Rightarrow> int \<Rightarrow> hand_control" where
  "note_request c rq now_ns =
     c\<lparr>rc_trace := (rc_trace c)\<lparr>htx_request_normalized := Some (crq_target rq), htx_request_ns := Some now_ns,
         htx_request_sequence := crq_target_sequence rq\<rparr>\<rparr>"

definition note_post_contact :: "hand_control \<Rightarrow> pyfloat list \<Rightarrow> hand_control" where
  "note_post_contact c requested = c\<lparr>rc_trace := (rc_trace c)\<lparr>htx_post_contact := Some requested\<rparr>\<rparr>"

text \<open>The target after the contact limits, or the decision to wait for a force sample.\<close>

definition shape_target ::
  "hand_control \<Rightarrow> command_request \<Rightarrow> int \<Rightarrow> pyfloat list \<Rightarrow> hand_control \<times> pyfloat list option" where
  "shape_target c rq now_ns previous =
     (let c1 = note_request c rq now_ns in
      if crq_measured_activation rq
      then (note_post_contact (c1\<lparr>rc_last_requested := Some (crq_target rq)\<rparr>) (crq_target rq), Some (crq_target rq))
      else
        (case contact_limited_target (hcf_contact (rc_cfg c1)) True (rc_contact c1) (rc_last_requested c1) (crq_target rq) of
           (k, requested) \<Rightarrow>
             let c2 = c1\<lparr>rc_contact := k, rc_last_requested := Some (crq_target rq)\<rparr> in
             if fresh_force_required c2 \<and> list_ex (closing_at previous requested) [0..<6]
             then let budgeted = budget_target c2 previous requested; c3 = note_post_contact c2 budgeted in
               if must_wait previous requested budgeted then (rc_dispose c3 ''contact_feedback_wait'', None)
               else (c3, Some budgeted)
             else (note_post_contact c2 requested, Some requested)))"

definition command_age :: "command_request \<Rightarrow> int \<Rightarrow> pyfloat option" where
  "command_age rq now_ns = map_option (\<lambda>t. fmax (Fin 0) (ns_to_ms (now_ns - t))) (crq_submitted_ns rq)"

definition is_duplicate :: "hand_control \<Rightarrow> command_request \<Rightarrow> pyfloat list \<Rightarrow> pyfloat list \<Rightarrow> bool" where
  "is_duplicate c rq previous requested \<longleftrightarrow>
     hcf_duplicate_suppression (rc_cfg c) \<and> \<not> crq_force_write rq \<and> \<not> rc_force_next_command c
     \<and> length requested = length previous \<and> list_all2 feq requested previous"

definition suppress_duplicate :: "hand_control \<Rightarrow> command_request \<Rightarrow> int \<Rightarrow> hand_control" where
  "suppress_duplicate c rq now_ns =
     (let c1 = rc_dispose (c\<lparr>rc_counts := (rc_counts c)\<lparr>hct_duplicates := hct_duplicates (rc_counts c) + 1\<rparr>,
                            rc_next_command_ns := Some (now_ns + hcf_command_period_ns (rc_cfg c))\<rparr>) ''exact_duplicate_suppressed'' in
      case command_age rq now_ns of
        None \<Rightarrow> c1
      | Some age \<Rightarrow> c1\<lparr>rc_trace := (rc_trace c1)\<lparr>htx_command_age_ms := Some age\<rparr>\<rparr>)"

text \<open>One bounded step from the last command towards the target.\<close>

definition selected_delta :: "hand_control \<Rightarrow> command_request \<Rightarrow> nat \<Rightarrow> pyfloat \<Rightarrow> pyfloat" where
  "selected_delta c rq i delta =
     (let limit = hcf_delta_limit (rc_cfg c) in
      if \<not> crq_measured_activation rq \<and> fresh_force_required c
      then if fle (Fin 0) delta then np_minimum delta (pol_max_step (ctc_fingers (hcf_contact (rc_cfg c)) ! i))
           else np_maximum delta (fneg limit)
      else np_clip delta (fneg limit) limit)"

definition select_target :: "hand_control \<Rightarrow> command_request \<Rightarrow> pyfloat list \<Rightarrow> pyfloat list \<Rightarrow> pyfloat list" where
  "select_target c rq previous requested =
     map (\<lambda>i. fadd (previous ! i) (selected_delta c rq i (fsub (requested ! i) (previous ! i)))) [0..<6]"

definition raw_target :: "(pyfloat \<Rightarrow> pyfloat) \<Rightarrow> hand_config \<Rightarrow> pyfloat list \<Rightarrow> (hand_error, int list) res" where
  "raw_target cast32 cfg selected =
     (case denormalize_canonical cast32 selected canonical_hand_order (hcf_calibration cfg) of
        Inl e \<Rightarrow> Inl (HcSchema e)
      | Inr raw \<Rightarrow> rmap rounded raw)"

text \<open>Handing the position to the backend, and what follows its answer.\<close>

definition begin_write :: "hand_control \<Rightarrow> int \<Rightarrow> int list \<Rightarrow> hand_control" where
  "begin_write c now_ns raw =
     (let n = rc_counts c in
      c\<lparr>rc_counts := n\<lparr>hct_write_attempts := hct_write_attempts n + 1,
          hct_first_attempt_ns := (case hct_first_attempt_ns n of None \<Rightarrow> Some now_ns | Some t \<Rightarrow> Some t),
          hct_last_attempt_ns := Some now_ns\<rparr>,
        rc_force_next_command := False, rc_position_writes := rc_position_writes c @ [(now_ns, raw)]\<rparr>)"

definition finish_write ::
  "hand_control \<Rightarrow> command_request \<Rightarrow> int \<Rightarrow> pyfloat list \<Rightarrow> pyfloat list \<Rightarrow> int list \<Rightarrow> hand_control" where
  "finish_write c rq now_ns previous selected raw =
     (let k = account_closure (if crq_contact_relief rq
                               then (rc_contact c)\<lparr>cn_relief_write_count := cn_relief_write_count (rc_contact c) + 1\<rparr>
                               else rc_contact c) now_ns previous selected in
      c\<lparr>rc_last_command_normalized := Some selected, rc_last_command_raw := Some raw, rc_last_command_ns := Some now_ns,
        rc_next_command_ns := Some (now_ns + hcf_command_period_ns (rc_cfg c)),
        rc_trace := (rc_trace c)\<lparr>htx_written_sequence := crq_target_sequence rq, htx_command_age_ms := command_age rq now_ns,
                      htx_disposition := ''serial_write_success''\<rparr>,
        rc_contact := k, rc_counts := (rc_counts c)\<lparr>hct_writes := hct_writes (rc_counts c) + 1\<rparr>\<rparr>)"

definition perform_write ::
  "hand_control \<Rightarrow> command_request \<Rightarrow> int \<Rightarrow> pyfloat list \<Rightarrow> pyfloat list \<Rightarrow> int list \<Rightarrow> (backend_exn, bool) res \<Rightarrow> int
     \<Rightarrow> hand_control \<times> (hand_error, bool) res" where
  "perform_write c rq now_ns previous selected raw outcome write_elapsed_ns =
     (let c1 = begin_write c now_ns raw;
          c2 = c1\<lparr>rc_trace := (rc_trace c1)\<lparr>htx_write_latency_ms := Some (ns_to_ms write_elapsed_ns)\<rparr>\<rparr> in
      case outcome of
        Inl e \<Rightarrow> fail_with c2 ''serial_command_failure'' ''command_write'' (HcBackend e) now_ns
      | Inr ok \<Rightarrow>
          if \<not> ok then fail_with c2 ''serial_command_rejected'' ''command_write'' HcRejected now_ns
          else (finish_write c2 rq now_ns previous selected raw, Inr True))"

definition rc_command ::
  "(pyfloat \<Rightarrow> pyfloat) \<Rightarrow> hand_control \<Rightarrow> command_request \<Rightarrow> int \<Rightarrow> (backend_exn, bool) res \<Rightarrow> int
     \<Rightarrow> hand_control \<times> (hand_error, bool) res" where
  "rc_command cast32 c rq now_ns outcome write_elapsed_ns =
     (case command_gate c rq now_ns of
        (c1, Some r) \<Rightarrow> (c1, r)
      | (c1, None) \<Rightarrow>
          (case check_target c1 rq of
             Inl e \<Rightarrow> (c1, Inl e)
           | Inr _ \<Rightarrow>
               (case rc_last_command_normalized c1 of
                  None \<Rightarrow> (c1, Inl HcAssertion)
                | Some previous \<Rightarrow>
                    (case shape_target c1 rq now_ns previous of
                       (c2, None) \<Rightarrow> (c2, Inr False)
                     | (c2, Some requested) \<Rightarrow>
                         if is_duplicate c2 rq previous requested then (suppress_duplicate c2 rq now_ns, Inr False)
                         else
                           let selected = select_target c2 rq previous requested;
                               c3 = c2\<lparr>rc_trace := (rc_trace c2)\<lparr>htx_post_delta_limit := Some selected\<rparr>\<rparr> in
                           case raw_target cast32 (rc_cfg c3) selected of
                             Inl e \<Rightarrow> (c3, Inl e)
                           | Inr raw \<Rightarrow> perform_write c3 rq now_ns previous selected raw outcome write_elapsed_ns))))"

section \<open>What the stages keep\<close>

text \<open>The fields no stage before the write touches.\<close>

definition same_output :: "hand_control \<Rightarrow> hand_control \<Rightarrow> bool" where
  "same_output c c' \<longleftrightarrow> rc_position_writes c' = rc_position_writes c \<and> rc_cfg c' = rc_cfg c
     \<and> rc_last_command_normalized c' = rc_last_command_normalized c \<and> rc_last_command_ns c' = rc_last_command_ns c
     \<and> rc_operation c' = rc_operation c \<and> rc_last_feedback c' = rc_last_feedback c"

lemma same_output_refl [simp]: "same_output c c"
  by (simp add: same_output_def)

lemma same_output_trans: "same_output a b \<Longrightarrow> same_output b c \<Longrightarrow> same_output a c"
  by (simp add: same_output_def)

lemma same_output_simps [simp]:
  "same_output c (rc_fault d r) = same_output c d"
  "same_output c (rc_dispose d s) = same_output c d"
  "same_output c (rc_hold d s) = same_output c d"
  "same_output c (capture_failure d stage e n) = same_output c d"
  "same_output c (d\<lparr>rc_counts := hn\<rparr>) = same_output c d"
  "same_output c (d\<lparr>rc_trace := t\<rparr>) = same_output c d"
  "same_output c (d\<lparr>rc_contact := k\<rparr>) = same_output c d"
  "same_output c (d\<lparr>rc_last_requested := l\<rparr>) = same_output c d"
  "same_output c (d\<lparr>rc_transient_hold := b\<rparr>) = same_output c d"
  "same_output c (d\<lparr>rc_next_command_ns := x\<rparr>) = same_output c d"
  by (simp_all add: same_output_def rc_fault_def rc_dispose_def rc_hold_def capture_failure_def)

definition counted :: "hand_control \<Rightarrow> command_request \<Rightarrow> hand_control" where
  "counted c rq = c\<lparr>rc_counts := (rc_counts c)\<lparr>hct_evaluations := hct_evaluations (rc_counts c) + 1\<rparr>,
     rc_trace := (rc_trace c)\<lparr>htx_submitted_sequence := crq_target_sequence rq\<rparr>\<rparr>"

lemma counted_simps [simp]:
  "rc_state (counted c rq) = rc_state c" "rc_cfg (counted c rq) = rc_cfg c"
  "rc_transient_hold (counted c rq) = rc_transient_hold c" "rc_next_command_ns (counted c rq) = rc_next_command_ns c"
  "rc_last_feedback (counted c rq) = rc_last_feedback c" "rc_contact (counted c rq) = rc_contact c"
  "rc_last_requested (counted c rq) = rc_last_requested c" "rc_position_writes (counted c rq) = rc_position_writes c"
  "rc_last_command_normalized (counted c rq) = rc_last_command_normalized c"
  "rc_last_command_ns (counted c rq) = rc_last_command_ns c" "rc_operation (counted c rq) = rc_operation c"
  "rc_fault_reason (counted c rq) = rc_fault_reason c" "rc_transport_state (counted c rq) = rc_transport_state c"
  "same_output d (counted c rq) = same_output d c" "feedback_stale (counted c rq) t = feedback_stale c t"
  by (simp_all add: counted_def feedback_stale_def split: option.split)

text \<open>When a command may go on to its target.\<close>

definition may_write :: "hand_control \<Rightarrow> command_request \<Rightarrow> int \<Rightarrow> bool" where
  "may_write c rq now_ns \<longleftrightarrow>
     \<not> crq_arm_terminal_stop rq \<and> crq_grip_fresh rq
     \<and> (rc_state c = HandActive \<or> (crq_contact_relief rq \<and> rc_state c = HandHold))
     \<and> \<not> feedback_stale c now_ns \<and> \<not> rc_transient_hold c
     \<and> (crq_force_write rq \<or> (case rc_next_command_ns c of None \<Rightarrow> True | Some t \<Rightarrow> t \<le> now_ns))"

lemma command_gate_decision:
  assumes "command_gate c rq now_ns = (c1, out)"
  shows "(out = None \<longleftrightarrow> may_write c rq now_ns) \<and> (out = None \<longrightarrow> c1 = counted c rq) \<and> same_output c c1"
proof -
  have "(case rc_next_command_ns c of None \<Rightarrow> False | Some t \<Rightarrow> now_ns < t)
      = (\<not> (case rc_next_command_ns c of None \<Rightarrow> True | Some t \<Rightarrow> t \<le> now_ns))"
    by (cases "rc_next_command_ns c") auto
  then show ?thesis
    using assms unfolding command_gate_def Let_def counted_def[symmetric] mark_feedback_timeout_def may_write_def
    by (auto split: if_split_asm)
qed

lemma shape_target_frame:
  assumes "shape_target c rq now_ns previous = (c', out)"
  shows "same_output c c'"
  using assms unfolding shape_target_def Let_def note_request_def note_post_contact_def
  by (auto split: if_split_asm prod.split_asm)

text \<open>A command either leaves the output alone or goes through every stage to the write.\<close>

lemma rc_command_cases:
  assumes "rc_command cast32 c rq now_ns outcome elapsed = (c', r)"
  obtains (quiet) "rc_position_writes c' = rc_position_writes c" "rc_cfg c' = rc_cfg c" "r \<noteq> Inr True"
      "rc_last_command_normalized c' = rc_last_command_normalized c" "rc_last_command_ns c' = rc_last_command_ns c"
      "rc_last_feedback c' = rc_last_feedback c"
  | (written) previous c2 requested c3 raw where
      "may_write c rq now_ns" "check_target (counted c rq) rq = Inr ()" "rc_last_command_normalized c = Some previous"
      "shape_target (counted c rq) rq now_ns previous = (c2, Some requested)" "\<not> is_duplicate c2 rq previous requested"
      "c3 = c2\<lparr>rc_trace := (rc_trace c2)\<lparr>htx_post_delta_limit := Some (select_target c2 rq previous requested)\<rparr>\<rparr>"
      "raw_target cast32 (rc_cfg c) (select_target c2 rq previous requested) = Inr raw"
      "(c', r) = perform_write c3 rq now_ns previous (select_target c2 rq previous requested) raw outcome elapsed"
      "same_output c c3"
proof -
  obtain c1 out where g: "command_gate c rq now_ns = (c1, out)" by (cases "command_gate c rq now_ns")
  note gd = command_gate_decision[OF g]
  show thesis
  proof (cases out)
    case (Some res)
    have "res \<noteq> Inr True"
      using g Some unfolding command_gate_def Let_def mark_feedback_timeout_def by (auto split: if_split_asm)
    with assms g gd Some show thesis by (intro quiet) (auto simp: rc_command_def same_output_def)
  next
    case None
    then have c1: "c1 = counted c rq" "may_write c rq now_ns" using gd by auto
    show thesis
    proof (cases "check_target c1 rq")
      case (Inl e)
      with assms g None c1(1) show thesis by (intro quiet) (auto simp: rc_command_def)
    next
      case (Inr u)
      show thesis
      proof (cases "rc_last_command_normalized c1")
        case None
        with assms g \<open>out = None\<close> Inr c1(1) show thesis by (intro quiet) (auto simp: rc_command_def)
      next
        case (Some previous)
        obtain c2 shaped where sh: "shape_target c1 rq now_ns previous = (c2, shaped)" by (cases "shape_target c1 rq now_ns previous")
        have keep: "same_output c c2" using shape_target_frame[OF sh] c1(1) by (simp add: same_output_def)
        note base = rc_command_def g \<open>out = None\<close> Inr Some sh
        show thesis
        proof (cases shaped)
          case None
          with assms keep show thesis by (intro quiet) (auto simp: base same_output_def)
        next
          case shaped: (Some requested)
          show thesis
          proof (cases "is_duplicate c2 rq previous requested")
            case True
            then have "c' = suppress_duplicate c2 rq now_ns" "r = Inr False" using assms shaped by (simp_all add: base)
            moreover have "same_output c2 (suppress_duplicate c2 rq now_ns)"
              by (simp add: suppress_duplicate_def Let_def split: option.split)
            ultimately show thesis using keep by (intro quiet) (auto simp: same_output_def)
          next
            case False
            define c3 where "c3 = c2\<lparr>rc_trace := (rc_trace c2)\<lparr>htx_post_delta_limit := Some (select_target c2 rq previous requested)\<rparr>\<rparr>"
            have k3: "same_output c c3" using keep by (simp add: c3_def)
            have cfg: "rc_cfg c3 = rc_cfg c" using k3 by (simp add: same_output_def)
            show thesis
            proof (cases "raw_target cast32 (rc_cfg c) (select_target c2 rq previous requested)")
              case (Inl e)
              then have "c' = c3" "r = Inl e" using assms shaped False cfg by (simp_all add: base Let_def c3_def)
              then show thesis using k3 by (intro quiet) (auto simp: same_output_def)
            next
              case (Inr raw)
              then have "(c', r) = perform_write c3 rq now_ns previous (select_target c2 rq previous requested) raw outcome elapsed"
                using assms shaped False cfg by (simp add: base Let_def c3_def)
              then show thesis
                using written[OF c1(2) _ _ _ False c3_def Inr _ k3] \<open>check_target c1 rq = Inr u\<close> Some sh shaped c1(1) by simp
            qed
          qed
        qed
      qed
    qed
  qed
qed

end
