(* ===== verification/HandSession.thy ===== *)
theory HandSession
  imports HandCommand FloatOrder
begin

text \<open>
  Runs of the PC-direct hand control: every public operation as an event, reachable controls, and what
  holds of every position that reaches the hand.
\<close>

section \<open>Events\<close>

datatype control_event =
    HeOpen hand_operation "(backend_exn, bool) res"
  | HePoll int "(backend_exn, pyfloat list) res" "(backend_exn, pyfloat list) res" "(backend_exn, pyfloat list) res"
      "(backend_exn, int list) res" "(backend_exn, int list) res" int
  | HePollRegister int register_read int
  | HeActivate int
  | HeCommand command_request int "(backend_exn, bool) res" int
  | HeHold string
  | HeArmStop string
  | HeTransportFault string
  | HeMarkTimeout int
  | HePopRelief
  | HeConfigure "int list" "int list" "(backend_exn, bool) res" "(backend_exn, bool) res"
  | HeClearError "(backend_exn, bool) res"
  | HeCalibrate "(backend_exn, bool) res"
  | HeCleanup

fun control_apply :: "(pyfloat \<Rightarrow> pyfloat) \<Rightarrow> hand_control \<Rightarrow> control_event \<Rightarrow> hand_control" where
  "control_apply cast32 c (HeOpen op res) = fst (rc_open c op res)"
| "control_apply cast32 c (HePoll t a u f s e d) = fst (poll_feedback cast32 c t a u f s e d)"
| "control_apply cast32 c (HePollRegister t rd d) = fst (poll_feedback_register cast32 c t rd d)"
| "control_apply cast32 c (HeActivate t) = fst (rc_activate c t)"
| "control_apply cast32 c (HeCommand rq t res d) = fst (rc_command cast32 c rq t res d)"
| "control_apply cast32 c (HeHold reason) = rc_hold c reason"
| "control_apply cast32 c (HeArmStop reason) = rc_arm_terminal_stop c reason"
| "control_apply cast32 c (HeTransportFault reason) = rc_fault c reason"
| "control_apply cast32 c (HeMarkTimeout t) = fst (mark_feedback_timeout c t)"
| "control_apply cast32 c HePopRelief = fst (rc_pop_relief c)"
| "control_apply cast32 c (HeConfigure v w r1 r2) = fst (write_runtime_config c v w r1 r2)"
| "control_apply cast32 c (HeClearError res) = fst (clear_device_error c res)"
| "control_apply cast32 c (HeCalibrate res) = fst (start_force_calibration c res)"
| "control_apply cast32 c HeCleanup = rc_cleanup c"

fun control_run :: "(pyfloat \<Rightarrow> pyfloat) \<Rightarrow> hand_control \<Rightarrow> control_event list \<Rightarrow> hand_control" where
  "control_run cast32 c [] = c"
| "control_run cast32 c (ev # evs) = control_run cast32 (control_apply cast32 c ev) evs"

section \<open>Only a command writes\<close>

definition quiet :: "hand_control \<Rightarrow> hand_control \<Rightarrow> bool" where
  "quiet c c' \<longleftrightarrow> rc_position_writes c' = rc_position_writes c \<and> rc_cfg c' = rc_cfg c
     \<and> (rc_state c = HandFault \<longrightarrow> rc_state c' = HandFault)
     \<and> (\<forall>r. rc_fault_reason c = Some r \<longrightarrow> rc_fault_reason c' = Some r)"

lemma quiet_refl [simp]: "quiet c c"
  by (simp add: quiet_def)

lemma quiet_trans: "quiet a b \<Longrightarrow> quiet b c \<Longrightarrow> quiet a c"
  by (simp add: quiet_def)

lemma quiet_simps [simp]:
  "quiet c d \<Longrightarrow> quiet c (rc_fault d r)"
  "quiet c d \<Longrightarrow> quiet c (rc_dispose d s)"
  "quiet c d \<Longrightarrow> quiet c (rc_hold d s)"
  "quiet c d \<Longrightarrow> quiet c (capture_failure d stage e n)"
  "quiet c d \<Longrightarrow> quiet c (fst (fail_with d r stage e n))"
  "quiet c (d\<lparr>rc_counts := hn\<rparr>) = quiet c d"
  "quiet c (d\<lparr>rc_trace := ht\<rparr>) = quiet c d"
  "quiet c (d\<lparr>rc_contact := k\<rparr>) = quiet c d"
  "quiet c (d\<lparr>rc_cache := h\<rparr>) = quiet c d"
  "quiet c (d\<lparr>rc_last_requested := l\<rparr>) = quiet c d"
  "quiet c (d\<lparr>rc_last_feedback := fb\<rparr>) = quiet c d"
  "quiet c (d\<lparr>rc_last_command_normalized := l\<rparr>) = quiet c d"
  "quiet c (d\<lparr>rc_last_command_raw := lr\<rparr>) = quiet c d"
  "quiet c (d\<lparr>rc_transient_hold := b\<rparr>) = quiet c d"
  "quiet c (d\<lparr>rc_next_command_ns := x\<rparr>) = quiet c d"
  by (auto simp: quiet_def rc_fault_def rc_dispose_def rc_hold_def capture_failure_def fail_with_def split: option.split)

lemma quiet_mark: "quiet c (fst (mark_feedback_timeout c t))"
  by (simp add: mark_feedback_timeout_def)

lemma quiet_adopt: "quiet c d \<Longrightarrow> quiet c (fst (adopt_position d fb))"
  by (simp add: adopt_position_def Let_def split: sum.split)

lemma quiet_observe [simp]:
  "quiet c (rc_observe_angle d v) = quiet c d" "quiet c (rc_observe_force d v) = quiet c d"
  by (simp_all add: rc_observe_angle_def rc_observe_force_def)

lemma quiet_adopting [simp]: "quiet c d \<Longrightarrow> quiet c (fst (adopting d fb))"
  using quiet_adopt[of c d fb] by (auto simp: adopting_def split: prod.split sum.split)

lemma quiet_store [simp]:
  "quiet c (store_snapshot d fb) = quiet c d" "quiet c (store_register d r h t) = quiet c d"
  "quiet c (refresh_snapshot d r fb) = quiet c d" "quiet c d \<Longrightarrow> quiet c (note_transient d r e t)"
  by (simp_all add: store_snapshot_def store_register_def refresh_snapshot_def note_transient_def Let_def)

lemma quiet_settle [simp]:
  "quiet c d \<Longrightarrow> quiet c (fst (settle_snapshot d fb n))" "quiet c d \<Longrightarrow> quiet c (fst (settle_register cast32 d r t n))"
  by (simp_all add: settle_snapshot_def settle_register_def Let_def split: sum.split)

lemma quiet_poll: "quiet c (fst (poll_feedback cast32 c t a u f s e d))"
  unfolding poll_feedback_def by (simp add: Let_def split: sum.split prod.split)

lemma quiet_poll_register: "quiet c (fst (poll_feedback_register cast32 c t rd d))"
  unfolding poll_feedback_register_def by (simp add: Let_def split: sum.split)

lemma quiet_activate: "quiet c (fst (rc_activate c t))"
proof (cases "rc_operation c \<notin> {Some OpHandOnly, Some OpCombined} \<or> feedback_stale c t \<or> rc_state c = HandFault
    \<or> rc_last_feedback c = None")
  case True
  then show ?thesis by (auto simp: rc_activate_def mark_feedback_timeout_def)
next
  case False
  then obtain fb where fb: "rc_last_feedback c = Some fb" "rc_state c \<noteq> HandFault" "\<not> feedback_stale c t"
    "\<not> rc_operation c \<notin> {Some OpHandOnly, Some OpCombined}" by auto
  obtain c2 r where ad: "adopt_position c fb = (c2, r)" by (cases "adopt_position c fb")
  have "quiet c c2" using quiet_adopt[of c c fb] ad by simp
  then show ?thesis
    using fb by (cases r) (simp_all add: rc_activate_def mark_feedback_timeout_def ad quiet_def)
qed

lemma quiet_other:
  "quiet c (fst (rc_pop_relief c))" "quiet c (fst (write_runtime_config c v w r1 r2))"
  "quiet c (fst (clear_device_error c res))" "quiet c (fst (start_force_calibration c res))"
  by (auto simp: rc_pop_relief_def write_runtime_config_def clear_device_error_def start_force_calibration_def
      split: prod.split sum.split)

lemma perform_write_writes:
  assumes "(c', r) = perform_write c rq now_ns previous selected raw outcome elapsed"
  shows "rc_position_writes c' = rc_position_writes c @ [(now_ns, raw)] \<and> rc_cfg c' = rc_cfg c
    \<and> htx_post_contact (rc_trace c') = htx_post_contact (rc_trace c)"
  using assms unfolding perform_write_def Let_def
  by (auto simp: fail_with_def capture_failure_def rc_fault_def finish_write_def begin_write_def Let_def
      split: sum.split_asm if_split_asm)

text \<open>Every event but a command, an opening and a cleanup is quiet; those two only change the state.\<close>

definition is_command :: "control_event \<Rightarrow> bool" where
  "is_command ev \<longleftrightarrow> (\<exists>rq t res d. ev = HeCommand rq t res d)"

definition is_session :: "control_event \<Rightarrow> bool" where
  "is_session ev \<longleftrightarrow> ev = HeCleanup \<or> (\<exists>op res. ev = HeOpen op res)"

lemma quiet_event:
  assumes "\<not> is_command ev" and "\<not> is_session ev"
  shows "quiet c (control_apply cast32 c ev)"
  using assms quiet_poll quiet_poll_register quiet_activate quiet_mark quiet_other
  by (cases ev) (simp_all add: is_command_def is_session_def rc_arm_terminal_stop_def)

lemma session_output:
  "is_session ev \<Longrightarrow> rc_position_writes (control_apply cast32 c ev) = rc_position_writes c \<and> rc_cfg (control_apply cast32 c ev) = rc_cfg c"
  by (auto simp: is_session_def rc_open_def rc_cleanup_def rc_fault_def split: sum.split bool.split)

lemma event_output:
  assumes "\<not> is_command ev"
  shows "rc_position_writes (control_apply cast32 c ev) = rc_position_writes c \<and> rc_cfg (control_apply cast32 c ev) = rc_cfg c"
  using assms quiet_event[OF assms, of c cast32] session_output[of ev cast32 c] by (auto simp: quiet_def)

lemma command_output:
  assumes "rc_command cast32 c rq now_ns outcome elapsed = (c', r)"
  shows "rc_cfg c' = rc_cfg c \<and> (rc_position_writes c' = rc_position_writes c
    \<or> (\<exists>raw selected. rc_position_writes c' = rc_position_writes c @ [(now_ns, raw)] \<and> raw_target cast32 (rc_cfg c) selected = Inr raw
        \<and> may_write c rq now_ns \<and> check_target (counted c rq) rq = Inr ()))"
  using assms
proof (cases rule: rc_command_cases)
  case quiet
  then show ?thesis by simp
next
  case (written previous c2 requested c3 raw)
  from perform_write_writes[OF written(8)] written show ?thesis by (auto simp: same_output_def)
qed

section \<open>Every position that reaches the hand\<close>


text \<open>A cast to single precision is monotone, keeps NaN and small integers.\<close>

definition cast32_rounding :: "(pyfloat \<Rightarrow> pyfloat) \<Rightarrow> bool" where
  "cast32_rounding cast32 \<longleftrightarrow>
     cast32_exact cast32 \<and> cast32 NaN = NaN \<and> (\<forall>x y. fle x y \<longrightarrow> fle (cast32 x) (cast32 y))"

definition safe_calibration :: "int \<Rightarrow> int \<Rightarrow> (string \<Rightarrow> dof_calibration) \<Rightarrow> bool" where
  "safe_calibration lo hi calibration \<longleftrightarrow>
     (\<forall>name. fle (Fin (of_int lo)) (dc_safe_min (calibration name))
        \<and> fle (dc_safe_min (calibration name)) (dc_safe_max (calibration name))
        \<and> fle (dc_safe_max (calibration name)) (Fin (of_int hi)))"

lemma rounded_range:
  assumes "rounded v = Inr n" and "fle (Fin (of_int lo)) v" and "fle v (Fin (of_int hi))"
  shows "lo \<le> n \<and> n \<le> hi"
proof (cases v)
  case (Fin r)
  with assms have r: "of_int lo \<le> r" "r \<le> of_int hi" "n = round_half_even r"
    by (auto simp: rounded_def py_round_def)
  then show ?thesis
    using round_half_even_mono[OF r(1)] round_half_even_mono[OF r(2)] by simp
qed (use assms in \<open>auto simp: rounded_def py_round_def\<close>)

lemma raw_target_range:
  assumes "raw_target cast32 cfg selected = Inr raw" and "cast32_rounding cast32"
    and "safe_calibration lo hi (hcf_calibration cfg)" and "\<bar>lo\<bar> \<le> 2 ^ 24" and "\<bar>hi\<bar> \<le> 2 ^ 24"
  shows "length raw = 6 \<and> (\<forall>v \<in> set raw. lo \<le> v \<and> v \<le> hi)"
proof -
  obtain fs where fs: "denormalize_canonical cast32 selected canonical_hand_order (hcf_calibration cfg) = Inr fs" "rmap rounded fs = Inr raw"
    using assms(1) by (auto simp: raw_target_def split: sum.split_asm)
  have len: "length raw = 6"
    using rmap_Inr_length[OF fs(2)] fs(1) by (auto simp: denormalize_canonical_def dest: canonical_to_raw_length)
  have ends: "cast32 (Fin (of_int lo)) = Fin (of_int lo)" "cast32 (Fin (of_int hi)) = Fin (of_int hi)"
    using assms(2,4,5) by (auto simp: cast32_rounding_def cast32_exact_def)
  have "lo \<le> v \<and> v \<le> hi" if v: "v \<in> set raw" for v
  proof -
    obtain f where f: "f \<in> set fs" "rounded f = Inr v" using rmap_Inr_set[OF fs(2) v] by blast
    have safe: "\<forall>name. fle (dc_safe_min (hcf_calibration cfg name)) (dc_safe_max (hcf_calibration cfg name))"
      using assms(3) by (simp add: safe_calibration_def)
    obtain name w where w: "f = cast32 w"
      "w = NaN \<or> (fle (dc_safe_min (hcf_calibration cfg name)) w \<and> fle w (dc_safe_max (hcf_calibration cfg name)))"
      using denormalize_range[OF fs(1) f(1) safe] by blast
    have "w \<noteq> NaN" using f(2) w(1) assms(2) by (auto simp: cast32_rounding_def rounded_def py_round_def)
    then have "fle (Fin (of_int lo)) w" "fle w (Fin (of_int hi))"
      using w(2) assms(3) fle_trans unfolding safe_calibration_def by blast+
    then have "fle (Fin (of_int lo)) f" "fle f (Fin (of_int hi))"
      using assms(2) ends w(1) unfolding cast32_rounding_def by metis+
    then show ?thesis by (rule rounded_range[OF f(2)])
  qed
  with len show ?thesis by blast
qed

definition writes_within :: "int \<Rightarrow> int \<Rightarrow> (int \<times> int list) list \<Rightarrow> bool" where
  "writes_within lo hi ws \<longleftrightarrow> (\<forall>w \<in> set ws. length (snd w) = 6 \<and> (\<forall>v \<in> set (snd w). lo \<le> v \<and> v \<le> hi))"

lemma writes_within_append:
  "writes_within lo hi (ws @ [(t, raw)]) \<longleftrightarrow> writes_within lo hi ws \<and> length raw = 6 \<and> (\<forall>v \<in> set raw. lo \<le> v \<and> v \<le> hi)"
  by (auto simp: writes_within_def)

lemma control_run_range:
  assumes "cast32_rounding cast32" and "safe_calibration lo hi (hcf_calibration (rc_cfg c))"
    and "\<bar>lo\<bar> \<le> 2 ^ 24" and "\<bar>hi\<bar> \<le> 2 ^ 24" and "writes_within lo hi (rc_position_writes c)"
  shows "writes_within lo hi (rc_position_writes (control_run cast32 c evs))"
  using assms(2,5)
proof (induction evs arbitrary: c)
  case (Cons ev evs)
  let ?c = "control_apply cast32 c ev"
  have "rc_cfg ?c = rc_cfg c \<and> writes_within lo hi (rc_position_writes ?c)"
  proof (cases "is_command ev")
    case False
    then show ?thesis using event_output[OF False, of cast32 c] Cons.prems by simp
  next
    case True
    then obtain rq t res d where ev: "ev = HeCommand rq t res d" by (auto simp: is_command_def)
    obtain c' r where cmd: "rc_command cast32 c rq t res d = (c', r)" by fastforce
    from command_output[OF cmd] raw_target_range[OF _ assms(1) Cons.prems(1) assms(3,4)] Cons.prems(2) ev cmd
    show ?thesis by (auto simp: writes_within_append)
  qed
  then show ?case using Cons.IH[of ?c] Cons.prems(1) by simp
qed simp

text \<open>
  C21. Every position vector a control has handed to the hand, over any run of its operations, has six
  values inside the calibrated safe range, whatever the targets, the feedback and the rounding.
\<close>

theorem hand_writes_in_range:
  assumes "mk_hand_control s = Inr c" and "cast32_rounding cast32"
    and "safe_calibration lo hi (setting_or (\<lambda>_. default_rh56_calibration) (hst_calibration s))"
    and "\<bar>lo\<bar> \<le> 2 ^ 24" and "\<bar>hi\<bar> \<le> 2 ^ 24"
  shows "writes_within lo hi (rc_position_writes (control_run cast32 c evs))"
proof -
  have "rc_position_writes c = []" "hcf_calibration (rc_cfg c) = setting_or (\<lambda>_. default_rh56_calibration) (hst_calibration s)"
    using assms(1) by (auto simp: mk_hand_control_def mk_hand_config_def Let_def)
  with assms show ?thesis by (intro control_run_range) (simp_all add: writes_within_def)
qed

lemma quiet_command_fault: "rc_state c = HandFault \<Longrightarrow> quiet c (fst (rc_command cast32 c rq t res d))"
  by (auto simp: rc_command_def command_gate_def Let_def)

text \<open>
  C22. A fault is terminal for the session: until the transport is opened again or cleaned up, whatever is
  called, the hand stays in the fault state with its first cause and no position is written.
\<close>

theorem hand_fault_terminal:
  assumes "rc_state c = HandFault" and "rc_fault_reason c = Some reason" and "\<forall>ev \<in> set evs. \<not> is_session ev"
  shows "rc_state (control_run cast32 c evs) = HandFault \<and> rc_fault_reason (control_run cast32 c evs) = Some reason
    \<and> rc_position_writes (control_run cast32 c evs) = rc_position_writes c"
  using assms
proof (induction evs arbitrary: c)
  case (Cons ev evs)
  have "quiet c (control_apply cast32 c ev)"
  proof (cases "is_command ev")
    case True
    then show ?thesis using quiet_command_fault[OF Cons.prems(1)] by (auto simp: is_command_def)
  qed (use quiet_event[of ev c cast32] Cons.prems(3) in simp)
  then show ?case using Cons by (simp add: quiet_def)
qed simp

text \<open>An opening puts a faulted control back on hold, with the old fault reason.\<close>

lemma open_leaves_fault:
  "rc_state (control_apply cast32 c (HeOpen op (Inr True))) = HandHold
   \<and> rc_fault_reason (control_apply cast32 c (HeOpen op (Inr True))) = rc_fault_reason c"
  by (simp add: rc_open_def)

section \<open>Contact holds\<close>

lemma limited_below_hold:
  assumes "ctc_enabled cfg" and "i < 6" and "finger_active (cn_fingers k ! i)"
    and "\<not> release_requested cfg (cn_fingers k ! i) (map_option (\<lambda>p. p ! i) previous) (target ! i)"
    and "contact_limited_target cfg True k previous target = (k', requested)"
  shows "\<not> flt (fg_hold_target (cn_fingers k ! i)) (requested ! i)"
proof -
  have "requested ! i = fmin (target ! i) (fg_hold_target (cn_fingers k ! i))"
    using assms by (auto simp: contact_limited_target_def Let_def limit_finger_def)
  moreover have "\<not> flt h h" for h by (cases h) auto
  ultimately show ?thesis by (simp add: fmin_def)
qed

lemma flt_trans: "flt x y \<Longrightarrow> flt y z \<Longrightarrow> flt x z"
  by (cases x; cases y; cases z) auto

lemma minimum_not_above: "\<not> flt h x \<Longrightarrow> \<not> flt h (np_minimum x y)"
  using flt_trans[of h y x] by (cases h) (auto simp: np_minimum_def)

lemma budget_not_above: "i < 6 \<Longrightarrow> \<not> flt h (requested ! i) \<Longrightarrow> \<not> flt h (budget_target c previous requested ! i)"
  by (simp add: budget_target_def minimum_not_above)

text \<open>Commands and measured positions are six binary64 values, and the step limit is not negative.\<close>

definition doubles6 :: "pyfloat list \<Rightarrow> bool" where
  "doubles6 l \<longleftrightarrow> length l = 6 \<and> (\<forall>v \<in> set l. is_double v)"

definition control_inv :: "hand_control \<Rightarrow> bool" where
  "control_inv c \<longleftrightarrow> fle (Fin 0) (hcf_delta_limit (rc_cfg c))
     \<and> (case rc_last_feedback c of None \<Rightarrow> True | Some fb \<Rightarrow> doubles6 (fbk_position_normalized fb))
     \<and> (case rc_last_command_normalized c of None \<Rightarrow> True | Some l \<Rightarrow> doubles6 l)"

lemma np_clip_double: "is_double a \<Longrightarrow> is_double b \<Longrightarrow> is_double x \<Longrightarrow> is_double (np_clip x a b)"
  by (simp add: np_clip_def np_minimum_def np_maximum_def)

lemma normalize_doubles: "rc_normalize cast32 cfg position = Inr n \<Longrightarrow> doubles6 n"
proof -
  assume "rc_normalize cast32 cfg position = Inr n"
  then obtain cr where cr: "raw_to_canonical cast32 position canonical_hand_order = Inr cr"
    "rmap (\<lambda>(name, raw). normalize_dof (hcf_calibration cfg name) raw) (zip canonical_hand_order cr) = Inr n"
    by (auto simp: rc_normalize_def normalize_raw_def split: sum.split_asm)
  have "length cr = 6"
    using canonical_to_raw_length[of cast32 position canonical_hand_order cr] cr(1)
    by (simp add: raw_to_canonical_def canonical_to_raw_def)
  then have "length n = 6" using rmap_Inr_length[OF cr(2)] by simp
  moreover have "is_double v" if "v \<in> set n" for v
    using rmap_Inr_set[OF cr(2) that] by (auto simp: normalize_dof_def Let_def intro!: np_clip_double split: if_split_asm)
  ultimately show ?thesis by (simp add: doubles6_def)
qed

lemma same_output_inv: "same_output c c' \<Longrightarrow> control_inv c \<Longrightarrow> control_inv c'"
  by (simp add: same_output_def control_inv_def)

lemma adopt_inv:
  "control_inv c \<Longrightarrow> doubles6 (fbk_position_normalized fb) \<Longrightarrow> control_inv (fst (adopt_position c fb))"
  "control_inv c \<Longrightarrow> doubles6 (fbk_position_normalized fb) \<Longrightarrow> control_inv (fst (adopting c fb))"
proof -
  show 1: "control_inv (fst (adopt_position c fb))" if "control_inv c" "doubles6 (fbk_position_normalized fb)"
    using that by (auto simp: adopt_position_def control_inv_def Let_def split: sum.split)
  show "control_inv (fst (adopting c fb))" if "control_inv c" "doubles6 (fbk_position_normalized fb)"
    using 1[OF that] by (auto simp: adopting_def split: prod.split sum.split)
qed

lemma fail_inv: "control_inv c \<Longrightarrow> control_inv (fst (fail_with c r stage x n))"
  by (simp add: fail_with_def control_inv_def capture_failure_def rc_fault_def)

lemma poll_inv: "control_inv c \<Longrightarrow> control_inv (fst (poll_feedback cast32 c t a u f s e d))"
proof -
  assume inv: "control_inv c"
  have settle: "control_inv (fst (settle_snapshot (store_snapshot c fb) fb d))" if "doubles6 (fbk_position_normalized fb)" for fb
  proof -
    have st: "control_inv (store_snapshot c fb)"
      using inv that by (simp add: control_inv_def store_snapshot_def rc_observe_force_def rc_observe_angle_def)
    show ?thesis by (simp add: settle_snapshot_def st fail_inv[OF st] adopt_inv(2)[OF st that])
  qed
  show ?thesis
    unfolding poll_feedback_def
    by (auto simp: Let_def inv settle fail_inv[OF inv] dest!: normalize_doubles split: sum.split prod.split)
qed

lemma poll_register_inv: "control_inv c \<Longrightarrow> control_inv (fst (poll_feedback_register cast32 c t rd d))"
proof -
  assume inv: "control_inv c"
  have settle: "control_inv (fst (settle_register cast32 k r t d))" if k: "control_inv k" for k r
  proof -
    have rf: "control_inv (refresh_snapshot k r fb) \<and> doubles6 (fbk_position_normalized fb)"
      if "feedback_from_cache cast32 k l = Inr fb" for fb l
    proof -
      have "doubles6 (fbk_position_normalized fb)"
        using that by (auto simp: feedback_from_cache_def dest!: normalize_doubles split: option.split_asm)
      with k show ?thesis
        by (simp add: control_inv_def refresh_snapshot_def rc_observe_force_def rc_observe_angle_def Let_def)
    qed
    show ?thesis
      using rf by (auto simp: settle_register_def Let_def k fail_inv[OF k] adopt_inv(2) split: sum.split)
  qed
  have "control_inv (store_register c r h n)" "control_inv (note_transient c r e n)" for r h n e
    using inv by (simp_all add: control_inv_def store_register_def note_transient_def Let_def capture_failure_def rc_dispose_def)
  then show ?thesis
    unfolding poll_feedback_register_def by (simp add: Let_def inv settle fail_inv[OF inv] split: sum.split)
qed

lemma mark_inv: "control_inv c \<Longrightarrow> control_inv (fst (mark_feedback_timeout c t))"
  by (simp add: mark_feedback_timeout_def control_inv_def capture_failure_def rc_fault_def)

lemma activate_inv: "control_inv c \<Longrightarrow> control_inv (fst (rc_activate c t))"
proof (cases "rc_operation c \<notin> {Some OpHandOnly, Some OpCombined} \<or> feedback_stale c t \<or> rc_state c = HandFault
    \<or> rc_last_feedback c = None")
  case True
  then show "control_inv c \<Longrightarrow> ?thesis" using mark_inv[of c t] by (auto simp: rc_activate_def mark_feedback_timeout_def)
next
  case False
  assume inv: "control_inv c"
  from False obtain fb where fb: "rc_last_feedback c = Some fb" "rc_state c \<noteq> HandFault" "\<not> feedback_stale c t"
    "\<not> rc_operation c \<notin> {Some OpHandOnly, Some OpCombined}" by auto
  obtain c2 r where ad: "adopt_position c fb = (c2, r)" by (cases "adopt_position c fb")
  have "doubles6 (fbk_position_normalized fb)" using inv fb(1) by (simp add: control_inv_def)
  then have "control_inv c2" using adopt_inv(1)[OF inv, of fb] ad by simp
  then show ?thesis
    using fb by (cases r) (simp_all add: rc_activate_def mark_feedback_timeout_def ad control_inv_def)
qed

lemma perform_write_last:
  assumes "(c', r) = perform_write c rq now_ns previous selected raw outcome elapsed"
  shows "rc_last_command_normalized c' = (if r = Inr True then Some selected else rc_last_command_normalized c)
    \<and> rc_last_feedback c' = rc_last_feedback c"
  using assms unfolding perform_write_def Let_def
  by (auto simp: fail_with_def capture_failure_def rc_fault_def finish_write_def begin_write_def Let_def
      split: sum.split_asm if_split_asm)

lemma select_doubles: "doubles6 (select_target c rq previous requested)"
  by (auto simp: doubles6_def select_target_def)

lemma command_inv:
  assumes "control_inv c" and "rc_command cast32 c rq now_ns outcome elapsed = (c', r)"
  shows "control_inv c'"
  using assms(2)
proof (cases rule: rc_command_cases)
  case quiet
  with assms(1) show ?thesis by (simp add: control_inv_def)
next
  case (written previous c2 requested c3 raw)
  from perform_write_last[OF written(8)] perform_write_writes[OF written(8)] written(9) assms(1)
    select_doubles[of c2 rq previous requested] show ?thesis
    by (auto simp: control_inv_def same_output_def)
qed

lemma event_inv: "control_inv c \<Longrightarrow> control_inv (control_apply cast32 c ev)"
proof (cases ev)
  case (HeCommand rq t res d)
  assume "control_inv c"
  moreover obtain c' r where "rc_command cast32 c rq t res d = (c', r)" by fastforce
  ultimately show ?thesis using command_inv HeCommand by simp
next
  case (HeOpen op res)
  then show "control_inv c \<Longrightarrow> ?thesis"
    by (simp add: rc_open_def control_inv_def rc_fault_def split: sum.split bool.split)
qed (simp_all add: poll_inv poll_register_inv activate_inv mark_inv,
    simp_all add: control_inv_def rc_hold_def rc_arm_terminal_stop_def rc_fault_def rc_cleanup_def rc_pop_relief_def
      write_runtime_config_def clear_device_error_def start_force_calibration_def split: prod.split sum.split)

lemma run_inv: "control_inv c \<Longrightarrow> control_inv (control_run cast32 c evs)"
  by (induction evs arbitrary: c) (simp_all add: event_inv)

lemma config_contact:
  "mk_hand_config s = Inr cfg \<Longrightarrow> \<exists>k. mk_contact_config s (hcf_delta_limit cfg) = Inr k"
  by (auto simp: mk_hand_config_def Let_def)

lemma new_control_inv:
  assumes "mk_hand_control s = Inr c"
  shows "control_inv c"
proof -
  obtain cfg where cfg: "mk_hand_config s = Inr cfg" "rc_cfg c = cfg" "rc_last_feedback c = None" "rc_last_command_normalized c = None"
    using assms by (auto simp: mk_hand_control_def)
  then obtain k where "mk_contact_config s (hcf_delta_limit cfg) = Inr k" using config_contact by blast
  then have "\<not> contact_policy_malformed k (hcf_delta_limit cfg)"
    by (auto simp: mk_contact_config_def Let_def split: if_split_asm)
  then have "fle (Fin 0) (ctc_relief_margin k)" "fle (ctc_relief_margin k) (hcf_delta_limit cfg)"
    by (simp_all add: contact_policy_malformed_def)
  then have "fle (Fin 0) (hcf_delta_limit cfg)" by (rule fle_trans)
  with cfg show ?thesis by (simp add: control_inv_def)
qed

text \<open>A step towards a target that is not above the last command does not increase it.\<close>

lemma step_not_closing:
  assumes "control_inv c" and "rc_last_command_normalized c = Some previous" and "i < 6" and "\<not> flt h (t ! i)" and "fle h (previous ! i)"
    and "previous ! i \<noteq> PosInf" and "rc_cfg c2 = rc_cfg c"
  shows "\<not> flt (previous ! i) (select_target c2 rq previous t ! i)"
proof -
  let ?d = "fsub (t ! i) (previous ! i)"
  have dbl: "is_double (previous ! i)" using assms(1-3) by (auto simp: control_inv_def doubles6_def)
  have nn: "previous ! i \<noteq> NaN" using assms(5) by (cases h) auto
  have lim: "fle (Fin 0) (hcf_delta_limit (rc_cfg c2))" using assms(1,7) by (simp add: control_inv_def)
  have d: "?d = NaN \<or> fle ?d (Fin 0)"
  proof (cases "t ! i = NaN \<or> previous ! i = NegInf")
    case True
    then show ?thesis using assms(4,5) by (cases "t ! i"; cases h) (auto simp: fsub_def)
  next
    case False
    then have "fle (t ! i) h" using assms(4,5) by (cases h; cases "t ! i") auto
    then have "fle (t ! i) (previous ! i)" using assms(5) by (rule fle_trans)
    then show ?thesis using fsub_nonpos[of "t ! i" "previous ! i"] assms(6) False nn
      by (cases "t ! i"; cases "previous ! i") auto
  qed
  have "selected_delta c2 rq i ?d = NaN \<or> fle (selected_delta c2 rq i ?d) (Fin 0)"
    using d lim
    by (cases ?d; cases "hcf_delta_limit (rc_cfg c2)")
      (auto simp: selected_delta_def Let_def np_clip_def np_minimum_def np_maximum_def dest: flt_imp_fle split: if_splits)
  then have "fadd (previous ! i) (selected_delta c2 rq i ?d) = NaN \<or> fle (fadd (previous ! i) (selected_delta c2 rq i ?d)) (previous ! i)"
    using fadd_nonpos_le[OF dbl nn] by (cases "previous ! i") auto
  then show ?thesis
    using assms(3) flt_not_fle by (cases "previous ! i") (auto simp: select_target_def)
qed

text \<open>
  A finger in contact is not driven on: whenever a command writes, the target of every finger that is a
  contact candidate or latched, and whose release the operator does not ask for, lies at most at the hold
  position taken when the contact was felt; a finger that is already there or beyond is not closed further.
\<close>

theorem hand_contact_caps:
  assumes "mk_hand_control s = Inr c0" and "c = control_run cast32 c0 evs"
    and "rc_command cast32 c rq now_ns outcome elapsed = (c', Inr True)" and "rc_last_command_normalized c = Some previous"
    and "ctc_enabled (hcf_contact (rc_cfg c))" and "\<not> crq_measured_activation rq" and "i < 6"
    and "f = cn_fingers (rc_contact c) ! i" and "finger_active f"
    and "\<not> release_requested (hcf_contact (rc_cfg c)) f (map_option (\<lambda>p. p ! i) (rc_last_requested c)) (crq_target rq ! i)"
  shows "\<exists>t selected. htx_post_contact (rc_trace c') = Some t \<and> rc_last_command_normalized c' = Some selected
    \<and> \<not> flt (fg_hold_target f) (t ! i)
    \<and> (is_finite (previous ! i) \<and> fle (fg_hold_target f) (previous ! i) \<longrightarrow> \<not> flt (previous ! i) (selected ! i))"
  using assms(3)
proof (cases rule: rc_command_cases)
  case quiet
  then show ?thesis by simp
next
  case (written previous' c2 requested c3 raw)
  have inv: "control_inv c" using new_control_inv[OF assms(1)] run_inv assms(2) by simp
  have p: "previous' = previous" using written(3) assms(4) by simp
  let ?n = "note_request (counted c rq) rq now_ns"
  obtain k limited where lim: "contact_limited_target (hcf_contact (rc_cfg c)) True (rc_contact c) (rc_last_requested c) (crq_target rq) = (k, limited)"
    by fastforce
  have nt: "rc_cfg ?n = rc_cfg c" "rc_contact ?n = rc_contact c" "rc_last_requested ?n = rc_last_requested c"
    by (simp_all add: note_request_def)
  have below: "\<not> flt (fg_hold_target f) (limited ! i)"
    using limited_below_hold[OF assms(5,7) _ _ lim] assms(8-10) by simp
  have post: "htx_post_contact (rc_trace c2) = Some requested" and cap: "\<not> flt (fg_hold_target f) (requested ! i)"
    using written(4) below budget_not_above[OF assms(7) below] assms(6) lim
    unfolding shape_target_def Let_def by (auto simp: nt note_post_contact_def rc_dispose_def split: if_split_asm)
  have cfg: "rc_cfg c2 = rc_cfg c" using written(6,9) by (simp add: same_output_def)
  have "\<not> flt (previous ! i) (select_target c2 rq previous requested ! i)"
    if "is_finite (previous ! i)" "fle (fg_hold_target f) (previous ! i)"
    using step_not_closing[OF inv assms(4,7) cap that(2) _ cfg] that(1) by (cases "previous ! i") simp_all
  then show ?thesis
    using perform_write_writes[OF written(8)] perform_write_last[OF written(8)] post cap written(6) p by auto
qed

end
