(* ===== verification/HandDemo.thy ===== *)
theory HandDemo
  imports HandSession
begin

text \<open>
  A small hand, evaluated: a configuration of dyadic constants, a run that opens the transport, reads a
  snapshot, engages, closes by one step and feels a contact, and the theorems of \<open>HandSession\<close> on it.
\<close>

section \<open>A small hand\<close>

definition demo_settings :: hand_settings where
  "demo_settings = \<lparr>hst_command_rate_hz = Fin 32, hst_feedback_rate_hz = (\<lambda>_. Fin 8), hst_warning_age_ms = (\<lambda>_. Some (Fin 250)),
     hst_serial_timeout_sec = Some (Fin (1 / 4)), hst_stale_timeout_sec = Some (Fin (1 / 2)), hst_delta_limit = Some (Fin (1 / 16)),
     hst_max_close_strength = Some (Fin 1), hst_contact_enabled = True, hst_require_fresh_force = False,
     hst_force_delta_onset = Some (Scalar (Fin 250)), hst_force_delta_release = Some (Scalar (Fin 100)),
     hst_closure_budget = Some (Scalar (Fin (1 / 16))), hst_maximum_closure_step = Some (Scalar (Fin (1 / 16))),
     hst_minimum_closing_gap = Some (Fin (1 / 128)), hst_maximum_stall_progress = Some (Fin (1 / 256)),
     hst_relief_margin = Some (Fin (1 / 128)), hst_release_open_delta = Some (Fin (1 / 64)), hst_consecutive_samples = Some 2,
     hst_baseline_alpha = Some (Fin (1 / 8)), hst_calibration = None, hst_protocol_order = None,
     hst_diagnostics_enabled = False, hst_window_size = None, hst_duplicate_suppression = None\<rparr>"

definition demo_contact_config :: contact_config where
  "demo_contact_config = \<lparr>ctc_enabled = True, ctc_require_fresh_force = False,
     ctc_fingers = replicate 6 \<lparr>pol_onset = Fin 250, pol_release = Fin 100, pol_budget = Fin (1 / 16), pol_max_step = Fin (1 / 16)\<rparr>,
     ctc_minimum_closing_gap = Fin (1 / 128), ctc_maximum_stall_progress = Fin (1 / 256), ctc_relief_margin = Fin (1 / 128),
     ctc_release_open_delta = Fin (1 / 64), ctc_consecutive_samples = 2, ctc_baseline_alpha = Fin (1 / 8)\<rparr>"

lemma demo_contact: "mk_contact_config demo_settings (Fin (1 / 16)) = Inr demo_contact_config"
proof -
  have six: "[0..<6] = [0, 1, 2, 3, 4, 5 :: nat]" by (simp add: upt_rec)
  have v: "contact_vector (Some (Scalar (Fin a))) d = Inr (replicate 6 (Fin a))" if "0 \<le> a" for a d
    using that by (simp add: contact_vector_def setting_or_def Let_def list_all_iff list_ex_iff)
  have m: "\<not> contact_policy_malformed demo_contact_config (Fin (1 / 16))"
    by (simp add: contact_policy_malformed_def demo_contact_config_def list_ex_iff)
  have fs: "map (\<lambda>i. \<lparr>pol_onset = replicate 6 (Fin 250) ! i, pol_release = replicate 6 (Fin 100) ! i,
      pol_budget = replicate 6 (Fin (1 / 16)) ! i, pol_max_step = replicate 6 (Fin (1 / 16)) ! i\<rparr>) [0..<6]
      = replicate 6 \<lparr>pol_onset = Fin 250, pol_release = Fin 100, pol_budget = Fin (1 / 16), pol_max_step = Fin (1 / 16)\<rparr>"
    by (simp add: six numeral_eq_Suc)
  show ?thesis
    using m by (simp add: mk_contact_config_def demo_settings_def v Let_def fs) (simp add: demo_contact_config_def setting_or_def)
qed

lemma each_register [simp]: "map_of (zip hand_registers [a, a, a, a, a]) r = Some a"
  by (cases r) (simp_all add: hand_registers_def)

lemma demo_config:
  "\<exists>cfg. mk_hand_config demo_settings = Inr cfg \<and> hcf_stale_timeout_ns cfg = 500000000 \<and> hcf_command_period_ns cfg = 31250000
     \<and> hcf_contact cfg = demo_contact_config \<and> hcf_calibration cfg = (\<lambda>_. default_rh56_calibration)
     \<and> hcf_protocol_order cfg = canonical_hand_order \<and> hcf_max_close cfg = Fin 1 \<and> hcf_delta_limit cfg = Fin (1 / 16)
     \<and> hcf_feedback_rate_hz cfg = (\<lambda>_. Fin 8) \<and> (\<forall>r. hcf_warning_age_ns cfg r = 250000000)"
proof -
  have p: "rounded (fdiv (Fin 1000000000) (Fin 32)) = Inr 31250000"
    using round64_of_int[of 31250000] round_half_even_of_int[of 31250000] by (simp add: rounded_def py_round_def)
  have w: "rounded (fmul (Fin 250) (Fin 1000000)) = Inr 250000000"
    using round64_of_int[of 250000000] round_half_even_of_int[of 250000000] by (simp add: rounded_def py_round_def)
  have st: "rounded (fmul (Fin (1 / 2)) (Fin 1000000000)) = Inr 500000000"
    using round64_of_int[of 500000000] round_half_even_of_int[of 500000000] by (simp add: rounded_def py_round_def)
  have f: "hst_command_rate_hz demo_settings = Fin 32" "hst_feedback_rate_hz demo_settings = (\<lambda>_. Fin 8)"
    "hst_warning_age_ms demo_settings = (\<lambda>_. Some (Fin 250))" "hst_stale_timeout_sec demo_settings = Some (Fin (1 / 2))"
    "hst_delta_limit demo_settings = Some (Fin (1 / 16))" "hst_max_close_strength demo_settings = Some (Fin 1)"
    "hst_window_size demo_settings = None" "hst_calibration demo_settings = None" "hst_protocol_order demo_settings = None"
    by (simp_all add: demo_settings_def)
  have ages: "rmap (warning_age_ns demo_settings) hand_registers = Inr [250000000, 250000000, 250000000, 250000000, 250000000]"
    by (simp add: hand_registers_def warning_age_ns_def f w setting_or_def del: fmul.simps)
  show ?thesis
    by (simp add: mk_hand_config_def f p st ages list_ex_iff setting_or_def demo_contact Let_def del: fdiv.simps fmul.simps)
qed


lemma calibration_floor_small: "fle calibration_floor (Fin 1)" "calibration_floor \<noteq> NaN"
  using round64_mono[of "1 / 1000000000" 1] round64_not_NaN by (auto simp: calibration_floor_def)

lemma validate_canonical: "validate_order canonical_hand_order = Inr canonical_hand_order"
  by (simp add: validate_order_Inr)

lemma canonical_identity: "length vs = 6 \<Longrightarrow> reorder_values (\<lambda>x. x) vs canonical_hand_order canonical_hand_order = Inr vs"
  using reorder_values_Inr[OF validate_canonical validate_canonical, of vs "\<lambda>x. x"] map_the_zip[of canonical_hand_order vs]
  by simp

lemma default_calibration_simps [simp]:
  "dc_raw_open default_rh56_calibration = Fin 1000" "dc_raw_close default_rh56_calibration = Fin 0"
  "dc_safe_min default_rh56_calibration = Fin 0" "dc_safe_max default_rh56_calibration = Fin 1000"
  by (simp_all add: default_rh56_calibration_def from_open_close_def fmin_def fmax_def)

lemma demo_normalize: "normalize_dof default_rh56_calibration (Fin 1000) = Inr (Fin 0)"
proof -
  have r: "round64 (- 1000) = Fin (- 1000)" using round64_of_int[of "- 1000"] by simp
  have "\<not> flt (Fin 1000) calibration_floor"
    using calibration_floor_small fle_trans[of calibration_floor "Fin 1" "Fin 1000"] flt_not_fle by auto
  then show ?thesis
    by (simp add: normalize_dof_def Let_def fsub_def r np_clip_def np_maximum_def np_minimum_def)
qed

lemma six: "[0..<6] = [0, 1, 2, 3, 4, 5 :: nat]"
  by (simp add: upt_rec)

lemma six_copies: "replicate 6 x = [x, x, x, x, x, x]"
  by (simp add: numeral_eq_Suc)

lemma demo_positions: "rc_normalize (\<lambda>x. x) cfg [Fin 1000, Fin 1000, Fin 1000, Fin 1000, Fin 1000, Fin 1000] = Inr [Fin 0, Fin 0, Fin 0, Fin 0, Fin 0, Fin 0]"
  if "hcf_calibration cfg = (\<lambda>_. default_rh56_calibration)"
  using that canonical_identity[of "replicate 6 (Fin 1000)"]
  by (simp add: rc_normalize_def normalize_raw_def raw_to_canonical_def six_copies canonical_hand_order_def demo_normalize)

lemma demo_raw:
  assumes "hcf_calibration cfg = (\<lambda>_. default_rh56_calibration)"
  shows "raw_target (\<lambda>x. x) cfg (replicate 6 (Fin 0)) = Inr (replicate 6 1000)"
    and "raw_target (\<lambda>x. x) cfg (replicate 6 (Fin (1 / 16))) = Inr (replicate 6 938)"
proof -
  have r: "round64 (- 1000) = Fin (- 1000)" "round64 1000 = Fin 1000" "round64 (- (125 / 2)) = Fin (- (125 / 2))"
    "round64 (1875 / 2) = Fin (1875 / 2)"
    using round64_of_int[of "- 1000"] round64_of_int[of 1000] round64_dyadic[of "- 125" 1] round64_dyadic[of 1875 1] by simp_all
  have d: "denormalize_dof default_rh56_calibration (Fin 0) = Fin 1000"
    "denormalize_dof default_rh56_calibration (Fin (1 / 16)) = Fin (1875 / 2)"
    by (simp_all add: denormalize_dof_def Let_def fsub_def r np_clip_def np_maximum_def np_minimum_def)
  have z: "map (\<lambda>(name, v). denormalize_dof default_rh56_calibration v) (zip canonical_hand_order (replicate 6 v))
      = replicate 6 (denormalize_dof default_rh56_calibration v)" for v
    by (simp add: canonical_hand_order_def six_copies)
  have m: "rmap rounded (replicate 6 (Fin q)) = Inr (replicate 6 (round_half_even q))" for q
    by (simp add: six_copies rounded_def py_round_def)
  have "\<lfloor>1875 / 2 :: rat\<rfloor> = 937" by (simp add: floor_eq_iff)
  then have e: "round_half_even 1000 = 1000" "round_half_even (1875 / 2) = 938"
    using round_half_even_of_int[of 1000] by (simp_all add: round_half_even_def Let_def)
  show "raw_target (\<lambda>x. x) cfg (replicate 6 (Fin 0)) = Inr (replicate 6 1000)"
    "raw_target (\<lambda>x. x) cfg (replicate 6 (Fin (1 / 16))) = Inr (replicate 6 938)"
    by (simp_all add: raw_target_def denormalize_canonical_def as_array_def assms z d canonical_to_raw_def canonical_identity m e)
qed


definition demo_poll :: "int \<Rightarrow> pyfloat \<Rightarrow> control_event" where
  "demo_poll t force = HePoll t (Inr (replicate 6 (Fin 1000))) (Inr (replicate 6 (Fin 0))) (Inr (replicate 6 force))
     (Inr (replicate 6 0)) (Inr (replicate 6 0)) 0"

definition demo_request :: "pyfloat \<Rightarrow> command_request" where
  "demo_request v = \<lparr>crq_target = replicate 6 v, crq_grip_fresh = True, crq_arm_terminal_stop = False,
     crq_submitted_ns = None, crq_target_sequence = Some 1, crq_force_write = False, crq_measured_activation = False,
     crq_contact_relief = False\<rparr>"

text \<open>Open, poll, activate.\<close>

definition demo_active :: "hand_control \<Rightarrow> bool" where
  "demo_active c \<longleftrightarrow> rc_state c = HandActive \<and> rc_transport_state c = ''CONNECTED_COMMANDING'' \<and> rc_last_command_normalized c = Some (replicate 6 (Fin 0))
     \<and> rc_last_requested c = Some (replicate 6 (Fin 0)) \<and> rc_next_command_ns c = Some 20 \<and> \<not> rc_transient_hold c
     \<and> cn_fingers (rc_contact c) = replicate 6 fresh_finger \<and> cn_force_baseline (rc_contact c) = Some (replicate 6 (Fin 0))
     \<and> cn_last_angle (rc_contact c) = Some (replicate 6 (Fin 0)) \<and> cn_force_angle_generation (rc_contact c) = cn_angle_generation (rc_contact c)
     \<and> rc_position_writes c = []
     \<and> (\<exists>fb. rc_last_feedback c = Some fb \<and> fbk_monotonic_ns fb = 10)"

lemma demo_snapshot:
  assumes "\<not> rc_closed c" and "hcf_calibration (rc_cfg c) = (\<lambda>_. default_rh56_calibration)" and "hcf_protocol_order (rc_cfg c) = canonical_hand_order"
    and "fb = \<lparr>fbk_monotonic_ns = t, fbk_position_raw = replicate 6 (Fin 1000), fbk_position_normalized = replicate 6 (Fin 0),
      fbk_current_raw_count = replicate 6 (Fin 0), fbk_load_or_force_raw_count = replicate 6 force, fbk_status = replicate 6 0,
      fbk_error = replicate 6 0, fbk_read_latency_ms = Fin 0\<rparr>"
  shows "control_apply (\<lambda>x. x) c (demo_poll t force) = fst (settle_snapshot (store_snapshot c fb) fb 0)"
proof -
  have ints: "canonical_ints (\<lambda>x. x) (rc_cfg c) (replicate 6 0) = Inr (replicate 6 0)"
    using canonical_identity[of "replicate 6 (Fin 0)"] assms(3) by (simp add: canonical_ints_def raw_to_canonical_def six_copies)
  have pos: "rc_normalize (\<lambda>x. x) (rc_cfg c) (replicate 6 (Fin 1000)) = Inr (replicate 6 (Fin 0))"
    using demo_positions[OF assms(2)] by (simp add: six_copies)
  have "ns_to_ms 0 = Fin 0" by (simp add: ns_to_ms_def)
  then show ?thesis
    using assms(1) by (simp add: demo_poll_def poll_feedback_def lift_exn_def ints pos assms(4) Let_def)
qed

lemma settle_fine:
  assumes "fbk_error fb = replicate 6 0" and "hcf_stale_timeout_ns (rc_cfg c) = 500000000"
  shows "settle_snapshot c fb 0 = (if rc_last_command_normalized c = None then adopting c fb else (c, Inr fb))"
  using assms by (simp add: settle_snapshot_def any_nonzero_def read_too_slow_def ns_to_ms_def six_copies)

lemma demo_activated:
  assumes "mk_hand_control demo_settings = Inr c0"
  shows "demo_active (control_run (\<lambda>x. x) c0 [HeOpen OpHandOnly (Inr True), demo_poll 10 (Fin 0), HeActivate 20])
    \<and> rc_cfg (control_run (\<lambda>x. x) c0 [HeOpen OpHandOnly (Inr True), demo_poll 10 (Fin 0), HeActivate 20]) = rc_cfg c0"
proof -
  obtain cfg where cfg: "mk_hand_config demo_settings = Inr cfg" "hcf_stale_timeout_ns cfg = 500000000"
    "hcf_calibration cfg = (\<lambda>_. default_rh56_calibration)" "hcf_protocol_order cfg = canonical_hand_order"
    using demo_config by auto
  define c1 where "c1 = control_apply (\<lambda>x. x) c0 (HeOpen OpHandOnly (Inr True))"
  have c1: "rc_cfg c1 = cfg" "rc_state c1 = HandHold" "rc_transport_state c1 = ''CONNECTED_READ_ONLY''" "rc_operation c1 = Some OpHandOnly"
    "rc_last_command_normalized c1 = None" "rc_contact c1 = new_contact" "rc_position_writes c1 = []" "\<not> rc_transient_hold c1"
    using assms cfg(1) by (auto simp: c1_def mk_hand_control_def rc_open_def)
  define fb where "fb = \<lparr>fbk_monotonic_ns = 10, fbk_position_raw = replicate 6 (Fin 1000), fbk_position_normalized = replicate 6 (Fin 0),
      fbk_current_raw_count = replicate 6 (Fin 0), fbk_load_or_force_raw_count = replicate 6 (Fin 0), fbk_status = replicate 6 0,
      fbk_error = replicate 6 0, fbk_read_latency_ms = Fin 0\<rparr>"
  define c2 where "c2 = store_snapshot c1 fb"
  have c2: "rc_cfg c2 = cfg" "rc_state c2 = HandHold" "rc_operation c2 = Some OpHandOnly" "rc_last_feedback c2 = Some fb"
    "rc_last_command_normalized c2 = None" "rc_position_writes c2 = []" "\<not> rc_transient_hold c2"
    using c1 by (simp_all add: c2_def store_snapshot_def rc_observe_force_def rc_observe_angle_def)
  have raw: "rmap rounded (fbk_position_raw fb) = Inr (replicate 6 1000)"
    using round_half_even_of_int[of 1000] by (simp add: fb_def six_copies rounded_def py_round_def)
  have p: "control_apply (\<lambda>x. x) c1 (demo_poll 10 (Fin 0)) = c2\<lparr>rc_last_command_normalized := Some (replicate 6 (Fin 0)), rc_last_command_raw := Some (replicate 6 1000)\<rparr>"
    using demo_snapshot[of c1 fb 10 "Fin 0"] c1 cfg settle_fine[of fb c2] c2 raw
    by (simp add: rc_closed_def fb_def[symmetric] c2_def[symmetric] adopting_def adopt_position_def Let_def) (simp add: fb_def)
  have act: "rc_activate (c2\<lparr>rc_last_command_normalized := Some (replicate 6 (Fin 0)), rc_last_command_raw := Some (replicate 6 1000)\<rparr>) 20
     = (c2\<lparr>rc_last_command_normalized := Some (replicate 6 (Fin 0)), rc_last_command_raw := Some (replicate 6 1000),
          rc_last_requested := Some (replicate 6 (Fin 0)),
          rc_contact := prepare_activation (rc_contact c2) (replicate 6 (Fin 0)) (replicate 6 (Fin 0)),
          rc_state := HandActive, rc_transport_state := ''CONNECTED_COMMANDING'', rc_next_command_ns := Some 20,
          rc_force_next_command := True\<rparr>, Inr ())"
    using c2 raw cfg(2) by (simp add: rc_activate_def mark_feedback_timeout_def feedback_stale_def adopt_position_def Let_def) (simp add: fb_def)
  have run: "control_run (\<lambda>x. x) c0 [HeOpen OpHandOnly (Inr True), demo_poll 10 (Fin 0), HeActivate 20]
     = c2\<lparr>rc_last_command_normalized := Some (replicate 6 (Fin 0)), rc_last_command_raw := Some (replicate 6 1000),
          rc_last_requested := Some (replicate 6 (Fin 0)),
          rc_contact := prepare_activation (rc_contact c2) (replicate 6 (Fin 0)) (replicate 6 (Fin 0)),
          rc_state := HandActive, rc_transport_state := ''CONNECTED_COMMANDING'', rc_next_command_ns := Some 20,
          rc_force_next_command := True\<rparr>"
    by (simp only: control_run.simps c1_def[symmetric] p) (simp add: act)
  have "fbk_monotonic_ns fb = 10" by (simp add: fb_def)
  moreover have "rc_cfg c0 = cfg" using cfg(1) assms by (auto simp: mk_hand_control_def)
  ultimately show ?thesis
    unfolding run using c2 by (simp add: demo_active_def prepare_activation_def reset_contact_stop_def)
qed

text \<open>One command of the demonstration: six equal channels.\<close>

lemma demo_command:
  assumes "rc_state c = HandActive" and "rc_last_feedback c = Some fb" and "now_ns - fbk_monotonic_ns fb \<le> 500000000"
    and "\<not> rc_transient_hold c" and "rc_next_command_ns c = Some nx" and "nx \<le> now_ns"
    and "rc_last_command_normalized c = Some (replicate 6 (Fin p))" and "rc_last_requested c = Some (replicate 6 (Fin q))"
    and "cn_fingers (rc_contact c) = replicate 6 f" and "hcf_contact (rc_cfg c) = demo_contact_config"
    and "hcf_stale_timeout_ns (rc_cfg c) = 500000000" and "hcf_max_close (rc_cfg c) = Fin 1" and "0 \<le> v" and "v \<le> 1"
    and "limit_finger demo_contact_config True f (Some (Fin q)) (Fin v) = (f', Fin w)" and "w \<noteq> p"
    and "fadd (Fin p) (np_clip (fsub (Fin w) (Fin p)) (fneg (hcf_delta_limit (rc_cfg c))) (hcf_delta_limit (rc_cfg c))) = Fin x"
    and "raw_target (\<lambda>x. x) (rc_cfg c) (replicate 6 (Fin x)) = Inr raw"
  obtains c' where "rc_command (\<lambda>x. x) c (demo_request (Fin v)) now_ns (Inr True) 0 = (c', Inr True)"
    "rc_position_writes c' = rc_position_writes c @ [(now_ns, raw)]"
    "rc_last_command_normalized c' = Some (replicate 6 (Fin x))" "rc_last_requested c' = Some (replicate 6 (Fin v))"
    "rc_contact c' = account_closure ((rc_contact c)\<lparr>cn_fingers := replicate 6 f'\<rparr>) now_ns (replicate 6 (Fin p)) (replicate 6 (Fin x))"
    "rc_state c' = HandActive" "rc_cfg c' = rc_cfg c" "rc_last_feedback c' = Some fb" "\<not> rc_transient_hold c'"
    "rc_next_command_ns c' = Some (now_ns + hcf_command_period_ns (rc_cfg c))" "rc_transport_state c' = rc_transport_state c"
proof -
  let ?rq = "demo_request (Fin v)"
  have rq: "crq_target ?rq = replicate 6 (Fin v)" "crq_grip_fresh ?rq" "\<not> crq_arm_terminal_stop ?rq" "\<not> crq_measured_activation ?rq"
    "\<not> crq_contact_relief ?rq" "\<not> crq_force_write ?rq"
    by (simp_all add: demo_request_def)
  have "may_write c ?rq now_ns"
    using assms(1-6,11) rq by (simp add: may_write_def feedback_stale_def)
  then have gate: "command_gate c ?rq now_ns = (counted c ?rq, None)"
    using command_gate_decision[of c ?rq now_ns] by (cases "command_gate c ?rq now_ns") auto
  have chk: "check_target (counted c ?rq) ?rq = Inr ()"
    using rq assms(12-14) by (simp add: check_target_def Let_def list_all_iff list_ex_iff)
  define n where "n = note_request (counted c ?rq) ?rq now_ns"
  have n: "rc_cfg n = rc_cfg c" "rc_contact n = rc_contact c" "rc_last_requested n = rc_last_requested c"
    "rc_state n = rc_state c" "rc_last_feedback n = rc_last_feedback c" "rc_position_writes n = rc_position_writes c"
    "rc_transient_hold n = rc_transient_hold c" "rc_transport_state n = rc_transport_state c"
    by (simp_all add: n_def note_request_def)
  have lim: "contact_limited_target demo_contact_config True (rc_contact c) (rc_last_requested c) (replicate 6 (Fin v))
      = ((rc_contact c)\<lparr>cn_fingers := replicate 6 f'\<rparr>, replicate 6 (Fin w))"
  proof -
    have "map (\<lambda>i. limit_finger demo_contact_config True (replicate 6 f ! i) (Some (replicate 6 (Fin q) ! i)) (replicate 6 (Fin v) ! i)) [0..<6]
        = replicate 6 (f', Fin w)"
      by (rule nth_equalityI) (simp_all add: assms(15))
    then show ?thesis
      using assms(8,9) by (simp add: contact_limited_target_def Let_def demo_contact_config_def six_copies)
  qed
  define c2 where "c2 = note_post_contact (n\<lparr>rc_contact := (rc_contact c)\<lparr>cn_fingers := replicate 6 f'\<rparr>, rc_last_requested := Some (replicate 6 (Fin v))\<rparr>) (replicate 6 (Fin w))"
  have fr: "\<not> fresh_force_required k" if "rc_cfg k = rc_cfg c" for k
    using that assms(10) by (simp add: fresh_force_required_def demo_contact_config_def)
  have c2: "rc_cfg c2 = rc_cfg c" "rc_contact c2 = (rc_contact c)\<lparr>cn_fingers := replicate 6 f'\<rparr>" "rc_last_requested c2 = Some (replicate 6 (Fin v))"
    "rc_state c2 = rc_state c" "rc_last_feedback c2 = rc_last_feedback c" "rc_position_writes c2 = rc_position_writes c"
    "rc_transient_hold c2 = rc_transient_hold c" "rc_transport_state c2 = rc_transport_state c"
    by (simp_all add: c2_def note_post_contact_def n)
  have shp: "shape_target (counted c ?rq) ?rq now_ns (replicate 6 (Fin p)) = (c2, Some (replicate 6 (Fin w)))"
    using fr[of "n\<lparr>rc_contact := (rc_contact c)\<lparr>cn_fingers := replicate 6 f'\<rparr>, rc_last_requested := Some (replicate 6 (Fin v))\<rparr>"]
    by (simp add: shape_target_def Let_def rq n_def[symmetric] n assms(10) lim c2_def)
  have dup: "\<not> is_duplicate c2 ?rq (replicate 6 (Fin p)) (replicate 6 (Fin w))"
    using assms(16) by (simp add: is_duplicate_def feq_def six_copies)
  have selx: "select_target c2 ?rq (replicate 6 (Fin p)) (replicate 6 (Fin w)) = replicate 6 (Fin x)"
    by (rule nth_equalityI)
      (simp_all add: select_target_def selected_delta_def Let_def fr[OF c2(1)] c2(1) assms(17) del: fadd.simps)
  define c3 where "c3 = c2\<lparr>rc_trace := (rc_trace c2)\<lparr>htx_post_delta_limit := Some (replicate 6 (Fin x))\<rparr>\<rparr>"
  have cmd: "rc_command (\<lambda>x. x) c ?rq now_ns (Inr True) 0
      = perform_write c3 ?rq now_ns (replicate 6 (Fin p)) (replicate 6 (Fin x)) raw (Inr True) 0"
    by (simp add: rc_command_def gate chk assms(7) shp dup selx c2(1) assms(18) Let_def c3_def)
  define c' where "c' = fst (perform_write c3 ?rq now_ns (replicate 6 (Fin p)) (replicate 6 (Fin x)) raw (Inr True) 0)"
  show thesis
    using assms(1,2,4) c2 rq
    by (intro that[of c'])
      (simp_all add: cmd c'_def perform_write_def Let_def finish_write_def begin_write_def c3_def)
qed

lemma slack_small:
  obtains q where "target_slack = Fin q" "0 \<le> q" "q \<le> 1 / 32"
proof -
  have h: "round64 (1 / 32) = Fin (1 / 32)" using round64_dyadic[of 1 5] by simp
  have u: "fle target_slack (Fin (1 / 32))" using round64_mono[of "1 / 1000000000000" "1 / 32"] by (simp add: target_slack_def h)
  have l: "fle (Fin 0) target_slack" using round64_mono[of 0 "1 / 1000000000000"] by (simp add: target_slack_def)
  obtain q where "target_slack = Fin q" "0 \<le> q" "q \<le> 1 / 32"
    using u l fle_Fin_iff[of 0 target_slack "1 / 32"] by blast
  then show thesis by (rule that)
qed

lemma demo_closing: "flt (fadd (Fin 0) target_slack) (Fin (1 / 16))"
proof -
  obtain q where q: "target_slack = Fin q" "0 \<le> q" "q \<le> 1 / 32" by (rule slack_small)
  have "round64 q = Fin q" using q(1) round64_Fin_double by (simp only: target_slack_def)
  then have "fadd (Fin 0) (Fin q) = Fin q" by simp
  then show ?thesis unfolding q(1) using q(3) by simp
qed

lemma demo_not_opening: "\<not> flt (Fin (1 / 8)) (fsub (Fin (1 / 16)) target_slack)"
proof -
  obtain q where q: "target_slack = Fin q" "0 \<le> q" "q \<le> 1 / 32" by (rule slack_small)
  have "fle (round64 (1 / 16 - q)) (Fin (1 / 16))"
    using q(2) round64_dyadic[of 1 4] by (intro round64_le_double) simp_all
  then have "fle (fsub (Fin (1 / 16)) target_slack) (Fin (1 / 16))" by (simp add: fsub_def q(1))
  then have "fle (fsub (Fin (1 / 16)) target_slack) (Fin (1 / 8))" by (rule fle_trans) simp
  then show ?thesis using flt_not_fle by blast
qed

lemma demo_rounds:
  "round64 (1 / 16) = Fin (1 / 16)" "round64 (- (1 / 16)) = Fin (- (1 / 16))" "round64 (- (1 / 128)) = Fin (- (1 / 128))"
  "round64 (- (1 / 64)) = Fin (- (1 / 64))" "round64 300 = Fin 300"
  using round64_dyadic[of 1 4] round64_dyadic[of "- 1" 4] round64_dyadic[of "- 1" 7] round64_dyadic[of "- 1" 6] round64_of_int[of 300]
  by simp_all

lemma demo_account:
  "account_closure (k\<lparr>cn_fingers := replicate 6 fresh_finger\<rparr>) 30 (replicate 6 (Fin 0)) (replicate 6 (Fin (1 / 16)))
   = k\<lparr>cn_fingers := replicate 6 (fresh_finger\<lparr>fg_closure_since_force := Fin (1 / 16), fg_last_closing_request_ns := 30\<rparr>),
       cn_last_closure_force_generation := cn_force_generation k\<rparr>"
  by (simp add: account_closure_def Let_def six six_copies demo_closing fsub_def np_maximum_def demo_rounds fresh_finger_def
      del: fadd.simps) (simp add: demo_rounds)

text \<open>The first command closes every finger by the step limit; then a loaded force sample makes every finger a candidate.\<close>

definition demo_candidate :: finger where
  "demo_candidate = \<lparr>fg_candidate_count = 1, fg_hold_target = Fin 0, fg_latched = False, fg_last_closing_request_ns = 30,
     fg_force_delta = Fin 300, fg_angle_progress = Fin 0, fg_closure_since_force = Fin 0\<rparr>"

definition demo_events :: "control_event list" where
  "demo_events = [HeOpen OpHandOnly (Inr True), demo_poll 10 (Fin 0), HeActivate 20,
     HeCommand (demo_request (Fin (1 / 16))) 30 (Inr True) 0, demo_poll 40 (Fin 300)]"

lemma control_run_append: "control_run cast32 c (xs @ ys) = control_run cast32 (control_run cast32 c xs) ys"
  by (induction xs arbitrary: c) simp_all

lemma demo_first_command:
  assumes "mk_hand_control demo_settings = Inr c0" and "cfg = rc_cfg c0"
    and "c3 = control_run (\<lambda>x. x) c0 [HeOpen OpHandOnly (Inr True), demo_poll 10 (Fin 0), HeActivate 20]"
  obtains c4 where "demo_active c3" "rc_command (\<lambda>x. x) c3 (demo_request (Fin (1 / 16))) 30 (Inr True) 0 = (c4, Inr True)"
    "rc_position_writes c4 = [(30, replicate 6 938)]" "rc_last_command_normalized c4 = Some (replicate 6 (Fin (1 / 16)))"
    "rc_last_requested c4 = Some (replicate 6 (Fin (1 / 16)))"
    "rc_contact c4 = account_closure ((rc_contact c3)\<lparr>cn_fingers := replicate 6 fresh_finger\<rparr>) 30 (replicate 6 (Fin 0)) (replicate 6 (Fin (1 / 16)))"
    "rc_state c4 = HandActive" "rc_cfg c4 = cfg" "\<not> rc_transient_hold c4" "rc_next_command_ns c4 = Some 31250030"
    "rc_transport_state c4 = ''CONNECTED_COMMANDING''"
proof -
  have cfg: "hcf_stale_timeout_ns cfg = 500000000" "hcf_command_period_ns cfg = 31250000"
    "hcf_contact cfg = demo_contact_config" "hcf_calibration cfg = (\<lambda>_. default_rh56_calibration)"
    "hcf_max_close cfg = Fin 1" "hcf_delta_limit cfg = Fin (1 / 16)"
    using demo_config assms(1,2) by (auto simp: mk_hand_control_def)
  have a: "demo_active c3" and g3: "rc_cfg c3 = cfg" using demo_activated[OF assms(1)] assms(2,3) by simp_all
  obtain fb where fb: "rc_last_feedback c3 = Some fb" "fbk_monotonic_ns fb = 10" using a by (auto simp: demo_active_def)
  have st: "fadd (Fin 0) (np_clip (fsub (Fin (1 / 16)) (Fin 0)) (fneg (hcf_delta_limit (rc_cfg c3))) (hcf_delta_limit (rc_cfg c3))) = Fin (1 / 16)"
    by (simp add: g3 cfg(6) fsub_def np_clip_def np_minimum_def np_maximum_def demo_rounds)
  have lm: "limit_finger demo_contact_config True fresh_finger (Some (Fin 0)) (Fin (1 / 16)) = (fresh_finger, Fin (1 / 16))"
    by (simp add: limit_finger_def finger_active_def fresh_finger_def)
  show thesis
    by (rule demo_command[OF _ fb(1) _ _ _ _ _ _ _ _ _ _ _ _ lm _ st, of 30 20 "replicate 6 938"])
      (use a g3 cfg fb(2) demo_raw(2)[OF cfg(4)] that in \<open>auto simp: demo_active_def\<close>)
qed

lemma demo_contact_run:
  assumes "mk_hand_control demo_settings = Inr c0"
  obtains c where "c = control_run (\<lambda>x. x) c0 demo_events" "rc_state c = HandActive" "\<not> rc_transient_hold c" "rc_cfg c = rc_cfg c0"
    "rc_last_command_normalized c = Some (replicate 6 (Fin (1 / 16)))" "rc_last_requested c = Some (replicate 6 (Fin (1 / 16)))"
    "cn_fingers (rc_contact c) = replicate 6 demo_candidate" "rc_next_command_ns c = Some 31250030"
    "\<exists>fb. rc_last_feedback c = Some fb \<and> fbk_monotonic_ns fb = 40" "rc_position_writes c = [(30, replicate 6 938)]"
proof -
  obtain cfg where cfg: "rc_cfg c0 = cfg" "hcf_stale_timeout_ns cfg = 500000000" "hcf_command_period_ns cfg = 31250000"
    "hcf_contact cfg = demo_contact_config" "hcf_calibration cfg = (\<lambda>_. default_rh56_calibration)"
    "hcf_protocol_order cfg = canonical_hand_order" "hcf_max_close cfg = Fin 1" "hcf_delta_limit cfg = Fin (1 / 16)"
    using demo_config assms by (auto simp: mk_hand_control_def)
  define c3 where "c3 = control_run (\<lambda>x. x) c0 [HeOpen OpHandOnly (Inr True), demo_poll 10 (Fin 0), HeActivate 20]"
  obtain c4 where a: "demo_active c3" and c4: "rc_command (\<lambda>x. x) c3 (demo_request (Fin (1 / 16))) 30 (Inr True) 0 = (c4, Inr True)"
    "rc_position_writes c4 = [(30, replicate 6 938)]" "rc_last_command_normalized c4 = Some (replicate 6 (Fin (1 / 16)))"
    "rc_last_requested c4 = Some (replicate 6 (Fin (1 / 16)))"
    "rc_contact c4 = account_closure ((rc_contact c3)\<lparr>cn_fingers := replicate 6 fresh_finger\<rparr>) 30 (replicate 6 (Fin 0)) (replicate 6 (Fin (1 / 16)))"
    "rc_state c4 = HandActive" "rc_cfg c4 = cfg" "\<not> rc_transient_hold c4" "rc_next_command_ns c4 = Some 31250030"
    "rc_transport_state c4 = ''CONNECTED_COMMANDING''"
    by (rule demo_first_command[OF assms cfg(1)[symmetric] c3_def])
  have f4: "cn_fingers (rc_contact c4) = replicate 6 (fresh_finger\<lparr>fg_closure_since_force := Fin (1 / 16), fg_last_closing_request_ns := 30\<rparr>)"
    by (simp add: c4(5) demo_account)
  have k4: "cn_force_baseline (rc_contact c4) = Some (replicate 6 (Fin 0))" "cn_last_angle (rc_contact c4) = Some (replicate 6 (Fin 0))"
    "cn_force_angle_generation (rc_contact c4) = cn_angle_generation (rc_contact c4)"
    using a by (simp_all add: c4(5) demo_account demo_active_def)
  define fb5 where "fb5 = \<lparr>fbk_monotonic_ns = 40, fbk_position_raw = replicate 6 (Fin 1000), fbk_position_normalized = replicate 6 (Fin 0),
      fbk_current_raw_count = replicate 6 (Fin 0), fbk_load_or_force_raw_count = replicate 6 (Fin 300), fbk_status = replicate 6 0,
      fbk_error = replicate 6 0, fbk_read_latency_ms = Fin 0\<rparr>"
  define c5 where "c5 = store_snapshot c4 fb5"
  have open4: "\<not> rc_closed c4" using c4 by (simp add: rc_closed_def)
  have poll: "control_apply (\<lambda>x. x) c4 (demo_poll 40 (Fin 300)) = c5"
    using demo_snapshot[OF open4 _ _ fb5_def] settle_fine[of fb5 c5] cfg c4
    by (simp add: c5_def store_snapshot_def rc_observe_force_def rc_observe_angle_def fb5_def)
  have c5: "rc_state c5 = HandActive" "\<not> rc_transient_hold c5" "rc_cfg c5 = cfg" "rc_last_command_normalized c5 = Some (replicate 6 (Fin (1 / 16)))"
    "rc_last_requested c5 = Some (replicate 6 (Fin (1 / 16)))" "rc_next_command_ns c5 = Some 31250030"
    "rc_last_feedback c5 = Some fb5" "rc_position_writes c5 = [(30, replicate 6 938)]"
    using c4 by (simp_all add: c5_def store_snapshot_def rc_observe_force_def rc_observe_angle_def)
  let ?g = "fresh_finger\<lparr>fg_closure_since_force := Fin 0, fg_last_closing_request_ns := 30, fg_force_delta := Fin 300\<rparr>"
  have obs: "observe_finger demo_contact_config \<lparr>pol_onset = Fin 250, pol_release = Fin 100, pol_budget = Fin (1 / 16), pol_max_step = Fin (1 / 16)\<rparr>
      (Fin (1 / 16)) (Fin 0) (Some (Fin (1 / 16))) (Fin 300) ?g (Fin 0) = (demo_candidate, Fin 0, True, False)"
    by (simp add: observe_finger_def first_candidate_def Let_def fresh_finger_def demo_contact_config_def fsub_def demo_rounds
        fmin_def fmax_def demo_candidate_def)
  have f5: "cn_fingers (rc_contact c5) = replicate 6 demo_candidate"
  proof -
    define k where "k = observe_contact_angle (rc_contact c4) (replicate 6 (Fin 0))"
    have k: "cn_fingers k = replicate 6 (fresh_finger\<lparr>fg_closure_since_force := Fin (1 / 16), fg_last_closing_request_ns := 30\<rparr>)"
      "cn_force_baseline k = Some (replicate 6 (Fin 0))" "cn_last_angle k = Some (replicate 6 (Fin 0))"
      "cn_force_angle_generation k < cn_angle_generation k"
      using k4 f4 by (auto simp: k_def observe_contact_angle_def Let_def fresh_finger_def intro!: nth_equalityI)
    have "cn_fingers (observe_contact_force demo_contact_config k (replicate 6 (Fin 300)) True False (Some (replicate 6 (Fin (1 / 16))))
        (Some (replicate 6 (Fin (1 / 16))))) = replicate 6 demo_candidate"
      using k obs unfolding observe_contact_force_def Let_def
      by (auto simp: fsub_def demo_rounds demo_contact_config_def fresh_finger_def intro!: nth_equalityI)
    then show ?thesis
      using c4 cfg(4) by (simp add: c5_def store_snapshot_def rc_observe_force_def rc_observe_angle_def fb5_def k_def running_state_def)
  qed
  have "control_run (\<lambda>x. x) c0 demo_events = c5"
    using control_run_append[of "\<lambda>x. x" c0 "[HeOpen OpHandOnly (Inr True), demo_poll 10 (Fin 0), HeActivate 20]"
        "[HeCommand (demo_request (Fin (1 / 16))) 30 (Inr True) 0, demo_poll 40 (Fin 300)]"]
    by (simp only: demo_events_def append.simps c3_def[symmetric]) (simp add: c4(1) poll)
  then show thesis using that[of c5] c5 f5 cfg(1) by (simp add: fb5_def)
qed

section \<open>The theorems on the small hand\<close>

lemma demo_control: "\<exists>c0. mk_hand_control demo_settings = Inr c0"
  using demo_config by (auto simp: mk_hand_control_def)


theorem hand_writes_in_range_witness:
  "\<exists>c0. mk_hand_control demo_settings = Inr c0 \<and> writes_within 0 1000 (rc_position_writes (control_run (\<lambda>x. x) c0 demo_events))
     \<and> rc_position_writes (control_run (\<lambda>x. x) c0 demo_events) = [(30, replicate 6 938)]"
proof -
  obtain c0 where c0: "mk_hand_control demo_settings = Inr c0" using demo_control by blast
  have k: "cast32_rounding (\<lambda>x. x)" by (simp add: cast32_rounding_def cast32_exact_def)
  have s: "safe_calibration 0 1000 (setting_or (\<lambda>_. default_rh56_calibration) (hst_calibration demo_settings))"
    by (simp add: safe_calibration_def demo_settings_def setting_or_def)
  from hand_writes_in_range[OF c0 k s, of demo_events] demo_contact_run[OF c0] c0 show ?thesis by auto
qed

theorem hand_fault_terminal_witness:
  "\<exists>c0. mk_hand_control demo_settings = Inr c0
     \<and> rc_fault_reason (control_run (\<lambda>x. x) (rc_fault c0 ''arm_terminal_hard_stop'')
          [HeTransportFault ''late'', HeActivate 5, HeCommand (demo_request (Fin 0)) 6 (Inr True) 0]) = Some ''arm_terminal_hard_stop''"
proof -
  obtain c0 where c0: "mk_hand_control demo_settings = Inr c0" using demo_control by blast
  then have "rc_state (rc_fault c0 ''arm_terminal_hard_stop'') = HandFault"
    "rc_fault_reason (rc_fault c0 ''arm_terminal_hard_stop'') = Some ''arm_terminal_hard_stop''"
    by (auto simp: rc_fault_def mk_hand_control_def)
  from hand_fault_terminal[OF this, of "[HeTransportFault ''late'', HeActivate 5, HeCommand (demo_request (Fin 0)) 6 (Inr True) 0]"] c0
  show ?thesis by (auto simp: is_session_def)
qed

theorem hand_contact_caps_witness:
  "\<exists>c0 c' t. mk_hand_control demo_settings = Inr c0
     \<and> rc_command (\<lambda>x. x) (control_run (\<lambda>x. x) c0 demo_events) (demo_request (Fin (1 / 8))) 31250030 (Inr True) 0 = (c', Inr True)
     \<and> htx_post_contact (rc_trace c') = Some t \<and> \<not> flt (Fin 0) (t ! 0)"
proof -
  obtain c0 where c0: "mk_hand_control demo_settings = Inr c0" using demo_control by blast
  obtain c where c: "c = control_run (\<lambda>x. x) c0 demo_events" "rc_state c = HandActive" "\<not> rc_transient_hold c" "rc_cfg c = rc_cfg c0"
    "rc_last_command_normalized c = Some (replicate 6 (Fin (1 / 16)))" "rc_last_requested c = Some (replicate 6 (Fin (1 / 16)))"
    "cn_fingers (rc_contact c) = replicate 6 demo_candidate" "rc_next_command_ns c = Some 31250030"
    "\<exists>fb. rc_last_feedback c = Some fb \<and> fbk_monotonic_ns fb = 40"
    by (rule demo_contact_run[OF c0])
  have cfg: "hcf_stale_timeout_ns (rc_cfg c) = 500000000" "hcf_contact (rc_cfg c) = demo_contact_config"
    "hcf_calibration (rc_cfg c) = (\<lambda>_. default_rh56_calibration)" "hcf_max_close (rc_cfg c) = Fin 1" "hcf_delta_limit (rc_cfg c) = Fin (1 / 16)"
    using demo_config c0 c(4) by (auto simp: mk_hand_control_def)
  have rel: "\<not> release_requested demo_contact_config demo_candidate (Some (Fin (1 / 16))) (Fin (1 / 8))"
    using demo_not_opening by (simp add: release_requested_def demo_candidate_def demo_contact_config_def fsub_def demo_rounds)
  have act: "finger_active demo_candidate" by (simp add: finger_active_def demo_candidate_def)
  have lm: "limit_finger demo_contact_config True demo_candidate (Some (Fin (1 / 16))) (Fin (1 / 8)) = (demo_candidate, Fin 0)"
    using rel act by (simp add: limit_finger_def) (simp add: demo_candidate_def fmin_def)
  have st: "fadd (Fin (1 / 16)) (np_clip (fsub (Fin 0) (Fin (1 / 16))) (fneg (hcf_delta_limit (rc_cfg c))) (hcf_delta_limit (rc_cfg c))) = Fin 0"
    by (simp add: cfg fsub_def np_clip_def np_minimum_def np_maximum_def demo_rounds)
  obtain fb where fb: "rc_last_feedback c = Some fb" "fbk_monotonic_ns fb = 40" using c(9) by blast
  obtain c' where c': "rc_command (\<lambda>x. x) c (demo_request (Fin (1 / 8))) 31250030 (Inr True) 0 = (c', Inr True)"
    by (rule demo_command[OF c(2) fb(1) _ c(3,8) _ c(5,6,7) _ _ _ _ _ lm _ st, of 31250030 "replicate 6 1000"])
      (use cfg fb(2) demo_raw(1)[OF cfg(3)] in auto)
  have "\<exists>t selected. htx_post_contact (rc_trace c') = Some t \<and> rc_last_command_normalized c' = Some selected
    \<and> \<not> flt (fg_hold_target demo_candidate) (t ! 0)
    \<and> (is_finite (replicate 6 (Fin (1 / 16)) ! 0) \<and> fle (fg_hold_target demo_candidate) (replicate 6 (Fin (1 / 16)) ! 0)
        \<longrightarrow> \<not> flt (replicate 6 (Fin (1 / 16)) ! 0) (selected ! 0))"
    by (rule hand_contact_caps[OF c0 c(1) c' c(5)])
      (use rel act cfg c(6,7) in \<open>simp_all add: demo_request_def demo_contact_config_def[THEN arg_cong, of ctc_enabled]\<close>)
  then show ?thesis using c0 c' c(1) by (auto simp: demo_candidate_def)
qed

end
