(* ===== verification/HandWorker.thy ===== *)
theory HandWorker
  imports HandSession
begin

text \<open>
  The thread that owns the PC-direct hand control, \<open>RH56PcDirectWorker\<close> of
  \<open>src/rh56_driver/pc_direct_worker.py\<close>. The producer side (\<open>activate_from_measured\<close>, \<open>submit_target\<close>, \<open>hold\<close>,
  \<open>arm_terminal_stop\<close>) fills a mailbox of one target under a lock. A cycle of the thread is two steps, as in
  the code: the locked snapshot of the mailbox, then the one serial operation chosen from that snapshot; producer
  calls may come between the two. Clock readings and the answers of the serial line are arguments. The
  diagnostic windows, the record callback and the report dictionaries are not modelled.
\<close>

section \<open>State\<close>

record pending_target =
  pt_values :: "pyfloat list"
  pt_sequence :: int
  pt_submitted_ns :: int
  pt_measured :: bool

record dataset_feedback =
  dfb_feedback :: hand_feedback
  dfb_angle_ns :: "int option"
  dfb_force_ns :: "int option"

record register_schedule =
  rsc_period_ns :: int
  rsc_next_due_ns :: "int option"
  rsc_last_attempt_ns :: "int option"
  rsc_last_success_ns :: "int option"
  rsc_first_success_ns :: "int option"
  rsc_failure_count :: nat
  rsc_warning_count :: nat
  rsc_warning_active :: bool
  rsc_success_count :: nat

record cycle_snapshot =
  sn_active :: bool
  sn_target :: "pending_target option"
  sn_force_write :: bool
  sn_hold_reason :: string
  sn_terminal :: "string option"

record span =
  sp_count :: nat
  sp_first_ns :: "int option"
  sp_last_ns :: "int option"

datatype worker_error = WkControl hand_error | WkFailed | WkStaleEngagement | WkTargetSize | WkZeroDivision | WkStaleAge
  | WkConv conv_error | WkAssertion

record worker_counts =
  wkc_submits :: span
  wkc_unique :: span
  wkc_feedback :: span
  wkc_writes :: span
  wkc_activations :: nat
  wkc_clamped :: nat
  wkc_coalesced :: nat
  wkc_stale_drops :: nat
  wkc_cycles :: nat
  wkc_overruns :: nat
  wkc_io_busy_ns :: int
  wkc_first_io_ns :: "int option"
  wkc_last_io_ns :: "int option"

record command_trace =
  ctr_due_ns :: "int option"
  ctr_start_ns :: "int option"
  ctr_end_ns :: "int option"
  ctr_lateness_ms :: "pyfloat option"
  ctr_submit_to_write_ms :: "pyfloat option"

record worker =
  wk_control :: hand_control
  wk_active :: bool
  wk_pending :: "pending_target option"
  wk_force_write :: bool
  wk_hold_reason :: string
  wk_terminal :: "string option"
  wk_feedback :: "hand_feedback option"
  wk_dataset :: "dataset_feedback option"
  wk_failure :: "worker_error option"
  wk_submitted :: int
  wk_observed :: int
  wk_written :: "int option"
  wk_evaluated :: int
  wk_last_values :: "pyfloat list option"
  wk_command_due_ns :: "int option"
  wk_trace :: command_trace
  wk_schedule :: "hand_register \<Rightarrow> register_schedule"
  wk_counts :: worker_counts
  wk_drop_stale :: bool
  wk_drop_age_ns :: int
  wk_running :: bool
  wk_inflight :: "cycle_snapshot option"

definition no_span :: span where
  "no_span = \<lparr>sp_count = 0, sp_first_ns = None, sp_last_ns = None\<rparr>"

text \<open>One more event of a counted series, with the times of the first and the last.\<close>

definition span_note :: "span \<Rightarrow> int \<Rightarrow> span" where
  "span_note s t = \<lparr>sp_count = sp_count s + 1,
     sp_first_ns = (case sp_first_ns s of None \<Rightarrow> Some t | Some x \<Rightarrow> Some x), sp_last_ns = Some t\<rparr>"

definition new_schedule :: "int \<Rightarrow> register_schedule" where
  "new_schedule period = \<lparr>rsc_period_ns = period, rsc_next_due_ns = None, rsc_last_attempt_ns = None,
     rsc_last_success_ns = None, rsc_first_success_ns = None, rsc_failure_count = 0, rsc_warning_count = 0,
     rsc_warning_active = False, rsc_success_count = 0\<rparr>"

definition register_period :: "hand_config \<Rightarrow> hand_register \<Rightarrow> (worker_error, int) res" where
  "register_period cfg r =
     (case py_round (fdiv (Fin 1000000000) (hcf_feedback_rate_hz cfg r)) of Inl e \<Rightarrow> Inl (WkConv e) | Inr p \<Rightarrow> Inr p)"

definition mk_worker :: "hand_control \<Rightarrow> bool option \<Rightarrow> pyfloat option \<Rightarrow> (worker_error, worker) res" where
  "mk_worker c drop_enabled drop_age_sec =
     rbind (case py_round (fmul (setting_or (literal 25 100) drop_age_sec) (Fin 1000000000)) of
              Inl e \<Rightarrow> Inl (WkConv e) | Inr a \<Rightarrow> Inr a) (\<lambda>age.
     rbind (require (0 < age) WkStaleAge) (\<lambda>_.
     rbind (rmap (register_period (rc_cfg c)) hand_registers) (\<lambda>periods.
     Inr \<lparr>wk_control = c, wk_active = False, wk_pending = None, wk_force_write = False, wk_hold_reason = ''startup'',
          wk_terminal = None, wk_feedback = None, wk_dataset = None, wk_failure = None, wk_submitted = 0, wk_observed = 0,
          wk_written = None, wk_evaluated = 0, wk_last_values = None, wk_command_due_ns = None,
          wk_trace = \<lparr>ctr_due_ns = None, ctr_start_ns = None, ctr_end_ns = None, ctr_lateness_ms = None,
                      ctr_submit_to_write_ms = None\<rparr>,
          wk_schedule = (\<lambda>r. new_schedule (case map_of (zip hand_registers periods) r of Some p \<Rightarrow> p | None \<Rightarrow> 0)),
          wk_counts = \<lparr>wkc_submits = no_span, wkc_unique = no_span, wkc_feedback = no_span, wkc_writes = no_span,
                       wkc_activations = 0, wkc_clamped = 0, wkc_coalesced = 0, wkc_stale_drops = 0, wkc_cycles = 0,
                       wkc_overruns = 0, wkc_io_busy_ns = 0, wkc_first_io_ns = None, wkc_last_io_ns = None\<rparr>,
          wk_drop_stale = setting_or False drop_enabled, wk_drop_age_ns = age, wk_running = False, wk_inflight = None\<rparr>)))"

section \<open>The producer side\<close>

definition clamp_unit :: "pyfloat \<Rightarrow> pyfloat" where
  "clamp_unit v = fmin (Fin 1) (fmax (Fin 0) v)"

definition raise_if_failed :: "worker \<Rightarrow> (worker_error, unit) res" where
  "raise_if_failed w = require (wk_failure w = None) WkFailed"

definition activate_from_measured :: "worker \<Rightarrow> int \<Rightarrow> worker \<times> (worker_error, pyfloat list) res" where
  "activate_from_measured w now_ns =
     (case raise_if_failed w of
        Inl e \<Rightarrow> (w, Inl e)
      | Inr _ \<Rightarrow>
          (case wk_feedback w of
             None \<Rightarrow> (w, Inl WkStaleEngagement)
           | Some fb \<Rightarrow>
               if hcf_stale_timeout_ns (rc_cfg (wk_control w)) < now_ns - fbk_monotonic_ns fb then (w, Inl WkStaleEngagement)
               else
                 (let measured = fbk_position_normalized fb; target = map clamp_unit measured; n = wk_counts w in
                  (w\<lparr>wk_active := True,
                     wk_counts := n\<lparr>wkc_clamped := (if list_all2 feq target measured then wkc_clamped n else wkc_clamped n + 1),
                                    wkc_activations := wkc_activations n + 1\<rparr>,
                     wk_submitted := wk_submitted w + 1,
                     wk_pending := Some \<lparr>pt_values = target, pt_sequence = wk_submitted w + 1, pt_submitted_ns = now_ns,
                                         pt_measured = True\<rparr>,
                     wk_force_write := True, wk_command_due_ns := Some now_ns\<rparr>, Inr target))))"

definition note_submit :: "worker \<Rightarrow> pyfloat list \<Rightarrow> int \<Rightarrow> worker_counts" where
  "note_submit w values now_ns =
     (let n = wk_counts w; n1 = n\<lparr>wkc_submits := span_note (wkc_submits n) now_ns\<rparr> in
      if (case wk_last_values w of None \<Rightarrow> False | Some before \<Rightarrow> list_all2 feq values before) then n1
      else n1\<lparr>wkc_unique := span_note (wkc_unique n1) now_ns\<rparr>)"

definition submit_target :: "worker \<Rightarrow> pyfloat list \<Rightarrow> int \<Rightarrow> worker \<times> (worker_error, unit) res" where
  "submit_target w values now_ns =
     (case raise_if_failed w of
        Inl e \<Rightarrow> (w, Inl e)
      | Inr _ \<Rightarrow>
          if length values \<noteq> 6 then (w, Inl WkTargetSize)
          else if wk_terminal w \<noteq> None then (w, Inr ())
          else
            (let n = note_submit w values now_ns;
                 unseen = (case wk_pending w of None \<Rightarrow> False | Some p \<Rightarrow> wk_observed w < pt_sequence p) in
             (w\<lparr>wk_counts := (if unseen then n\<lparr>wkc_coalesced := wkc_coalesced n + 1\<rparr> else n),
                wk_submitted := wk_submitted w + 1,
                wk_pending := Some \<lparr>pt_values = values, pt_sequence = wk_submitted w + 1, pt_submitted_ns = now_ns,
                                    pt_measured = False\<rparr>,
                wk_last_values := Some values\<rparr>, Inr ())))"

definition worker_hold :: "worker \<Rightarrow> string \<Rightarrow> worker" where
  "worker_hold w reason = w\<lparr>wk_active := False, wk_pending := None, wk_force_write := False, wk_hold_reason := reason\<rparr>"

definition worker_terminal_stop :: "worker \<Rightarrow> string \<Rightarrow> worker" where
  "worker_terminal_stop w reason =
     w\<lparr>wk_terminal := (case wk_terminal w of None \<Rightarrow> Some reason | Some r \<Rightarrow> Some r),
       wk_active := False, wk_pending := None, wk_force_write := False\<rparr>"

section \<open>One cycle\<close>

definition advance_deadline :: "int \<Rightarrow> int \<Rightarrow> int \<Rightarrow> (worker_error, int) res" where
  "advance_deadline due_ns period_ns now_ns =
     (let next_due_ns = due_ns + period_ns in
      if next_due_ns \<le> now_ns then
        if period_ns = 0 then Inl WkZeroDivision
        else Inr (next_due_ns + ((now_ns - next_due_ns) div period_ns + 1) * period_ns)
      else Inr next_due_ns)"

definition effective_target :: "hand_control \<Rightarrow> pyfloat list \<Rightarrow> pyfloat list" where
  "effective_target c values =
     snd (contact_limited_target (hcf_contact (rc_cfg c)) False (rc_contact c) (rc_last_requested c) values)"

definition target_requires_command :: "worker \<Rightarrow> pending_target option \<Rightarrow> bool" where
  "target_requires_command w target =
     (case target of
        None \<Rightarrow> False
      | Some p \<Rightarrow>
          if wk_evaluated w < pt_sequence p then True
          else if pt_measured p then False
          else wk_written w = Some (pt_sequence p)
            \<and> (case rc_last_command_normalized (wk_control w) of
                 None \<Rightarrow> False
               | Some l \<Rightarrow> \<not> list_all2 feq (effective_target (wk_control w) (pt_values p)) l))"

text \<open>The locked snapshot that opens a cycle. A terminal stop is passed to the control and ends the thread.\<close>

definition mailbox_snapshot :: "worker \<Rightarrow> cycle_snapshot" where
  "mailbox_snapshot w = \<lparr>sn_active = wk_active w, sn_target = wk_pending w, sn_force_write = wk_force_write w,
     sn_hold_reason = wk_hold_reason w, sn_terminal = wk_terminal w\<rparr>"

definition begin_cycle :: "worker \<Rightarrow> worker" where
  "begin_cycle w =
     (case wk_terminal w of
        Some reason \<Rightarrow> w\<lparr>wk_control := rc_arm_terminal_stop (wk_control w) reason, wk_running := False\<rparr>
      | None \<Rightarrow> w\<lparr>wk_inflight := Some (mailbox_snapshot w)\<rparr>)"

definition prepare_cycle :: "worker \<Rightarrow> cycle_snapshot \<Rightarrow> int \<Rightarrow> worker \<times> (worker_error, pyfloat list option) res" where
  "prepare_cycle w sn now_ns =
     (if \<not> sn_active sn then
        (case rc_pop_relief (rc_hold (wk_control w) (sn_hold_reason sn)) of (c, relief) \<Rightarrow> (w\<lparr>wk_control := c\<rparr>, Inr relief))
      else if rc_state (wk_control w) = HandHold then
        (case rc_activate (wk_control w) now_ns of
           (c, Inl e) \<Rightarrow> (w\<lparr>wk_control := c\<rparr>, Inl (WkControl e))
         | (c, Inr _) \<Rightarrow> (w\<lparr>wk_control := c\<rparr>, Inr None))
      else (w, Inr None))"

definition command_is_due :: "worker \<Rightarrow> cycle_snapshot \<Rightarrow> pyfloat list option \<Rightarrow> int \<Rightarrow> bool" where
  "command_is_due w sn relief now_ns \<longleftrightarrow>
     relief \<noteq> None
     \<or> (sn_active sn \<and> target_requires_command w (sn_target sn)
        \<and> (sn_force_write sn \<or> (case wk_command_due_ns w of None \<Rightarrow> True | Some d \<Rightarrow> d \<le> now_ns)))"

record cycle_clock =
  cck_started_ns :: int
  cck_now_ns :: int
  cck_start_ns :: int
  cck_end_ns :: int
  cck_ages_ns :: int
  cck_finished_ns :: int

record line_answers =
  lna_write :: "(backend_exn, bool) res"
  lna_angle :: "(backend_exn, pyfloat list) res"
  lna_current :: "(backend_exn, pyfloat list) res"
  lna_force :: "(backend_exn, pyfloat list) res"
  lna_status :: "(backend_exn, int list) res"
  lna_error :: "(backend_exn, int list) res"
  lna_elapsed_ns :: int

definition note_io :: "worker_counts \<Rightarrow> int \<Rightarrow> int \<Rightarrow> worker_counts" where
  "note_io n started_ns ended_ns =
     n\<lparr>wkc_io_busy_ns := wkc_io_busy_ns n + max 0 (ended_ns - started_ns),
       wkc_first_io_ns := (case wkc_first_io_ns n of None \<Rightarrow> Some started_ns | Some t \<Rightarrow> Some t),
       wkc_last_io_ns := Some ended_ns\<rparr>"

text \<open>The register to read: an overdue status or error register first, otherwise the earliest deadline that is due.\<close>

definition register_priority :: "hand_register \<Rightarrow> int" where
  "register_priority r = (case r of RegAngle \<Rightarrow> 0 | RegStatus \<Rightarrow> 1 | RegError \<Rightarrow> 2 | RegCurrent \<Rightarrow> 3 | RegForce \<Rightarrow> 4)"

definition register_overdue :: "worker \<Rightarrow> int \<Rightarrow> hand_register \<Rightarrow> bool" where
  "register_overdue w now_ns r \<longleftrightarrow>
     (case rsc_last_success_ns (wk_schedule w r) of None \<Rightarrow> False
      | Some t \<Rightarrow> hcf_warning_age_ns (rc_cfg (wk_control w)) r \<le> now_ns - t)"

definition register_due :: "worker \<Rightarrow> int \<Rightarrow> hand_register \<Rightarrow> bool" where
  "register_due w now_ns r \<longleftrightarrow> (case rsc_next_due_ns (wk_schedule w r) of None \<Rightarrow> False | Some t \<Rightarrow> t \<le> now_ns)"

definition due_key :: "worker \<Rightarrow> hand_register \<Rightarrow> int \<times> int" where
  "due_key w r = ((case rsc_next_due_ns (wk_schedule w r) of None \<Rightarrow> 0 | Some t \<Rightarrow> t), register_priority r)"

definition earlier :: "int \<times> int \<Rightarrow> int \<times> int \<Rightarrow> bool" where
  "earlier a b \<longleftrightarrow> fst a < fst b \<or> (fst a = fst b \<and> snd a < snd b)"

fun min_by :: "('a \<Rightarrow> int \<times> int) \<Rightarrow> 'a list \<Rightarrow> 'a option" where
  "min_by key [] = None"
| "min_by key (x # xs) =
     (case min_by key xs of None \<Rightarrow> Some x | Some y \<Rightarrow> if earlier (key y) (key x) then Some y else Some x)"

definition select_feedback_register :: "worker \<Rightarrow> int \<Rightarrow> hand_register option" where
  "select_feedback_register w now_ns =
     (case find (register_overdue w now_ns) [RegStatus, RegError] of
        Some r \<Rightarrow> Some r
      | None \<Rightarrow> min_by (due_key w) (filter (register_due w now_ns) hand_registers))"

text \<open>The one serial operation of the cycle.\<close>

datatype serial_op = OpRelief "pyfloat list" | OpTarget pending_target | OpRegister hand_register | OpIdle

definition choose_operation :: "worker \<Rightarrow> cycle_snapshot \<Rightarrow> pyfloat list option \<Rightarrow> int \<Rightarrow> (worker_error, serial_op) res" where
  "choose_operation w sn relief now_ns =
     (if command_is_due w sn relief now_ns then
        (case relief of
           Some v \<Rightarrow> Inr (OpRelief v)
         | None \<Rightarrow> (case sn_target sn of None \<Rightarrow> Inl WkAssertion | Some p \<Rightarrow> Inr (OpTarget p)))
      else Inr (case select_feedback_register w now_ns of None \<Rightarrow> OpIdle | Some r \<Rightarrow> OpRegister r))"

definition command_due_at :: "worker \<Rightarrow> serial_op \<Rightarrow> int \<Rightarrow> int" where
  "command_due_at w op now_ns =
     (case op of OpRelief _ \<Rightarrow> now_ns | _ \<Rightarrow> (case wk_command_due_ns w of None \<Rightarrow> now_ns | Some d \<Rightarrow> d))"

definition start_command :: "worker \<Rightarrow> cycle_snapshot \<Rightarrow> serial_op \<Rightarrow> int \<Rightarrow> int \<Rightarrow> worker" where
  "start_command w sn op due_ns start_ns =
     (let w1 = (if sn_force_write sn \<and> (case op of OpTarget _ \<Rightarrow> True | _ \<Rightarrow> False) then w\<lparr>wk_force_write := False\<rparr> else w) in
      w1\<lparr>wk_trace := (wk_trace w1)\<lparr>ctr_due_ns := Some due_ns, ctr_start_ns := Some start_ns,
           ctr_lateness_ms := Some (fmax (Fin 0) (ns_to_ms (start_ns - due_ns)))\<rparr>\<rparr>)"

definition drops_stale :: "worker \<Rightarrow> cycle_snapshot \<Rightarrow> pending_target \<Rightarrow> int \<Rightarrow> bool" where
  "drops_stale w sn p start_ns \<longleftrightarrow>
     wk_drop_stale w \<and> \<not> sn_force_write sn \<and> wk_drop_age_ns w < max 0 (start_ns - pt_submitted_ns p)"

definition drop_target :: "worker \<Rightarrow> pending_target \<Rightarrow> worker" where
  "drop_target w p =
     w\<lparr>wk_counts := (wk_counts w)\<lparr>wkc_stale_drops := wkc_stale_drops (wk_counts w) + 1\<rparr>,
       wk_control := rc_dispose (wk_control w) ''stale_target_dropped'', wk_evaluated := pt_sequence p\<rparr>"

text \<open>A measured activation is refreshed from the latest feedback just before it is written.\<close>

definition command_payload :: "worker \<Rightarrow> pending_target \<Rightarrow> pyfloat list" where
  "command_payload w p =
     (if pt_measured p
      then (case wk_feedback w of None \<Rightarrow> pt_values p | Some fb \<Rightarrow> map clamp_unit (fbk_position_normalized fb))
      else pt_values p)"

definition target_request :: "worker \<Rightarrow> cycle_snapshot \<Rightarrow> pending_target \<Rightarrow> command_request" where
  "target_request w sn p =
     \<lparr>crq_target = command_payload w p, crq_grip_fresh = True, crq_arm_terminal_stop = False,
      crq_submitted_ns = Some (pt_submitted_ns p), crq_target_sequence = Some (pt_sequence p),
      crq_force_write = sn_force_write sn, crq_measured_activation = pt_measured p, crq_contact_relief = False\<rparr>"

definition relief_request :: "pyfloat list \<Rightarrow> command_request" where
  "relief_request v =
     \<lparr>crq_target = v, crq_grip_fresh = True, crq_arm_terminal_stop = False, crq_submitted_ns = None,
      crq_target_sequence = None, crq_force_write = True, crq_measured_activation = False, crq_contact_relief = True\<rparr>"

definition note_written :: "worker \<Rightarrow> pending_target option \<Rightarrow> int \<Rightarrow> int \<Rightarrow> worker" where
  "note_written w p start_ns end_ns =
     w\<lparr>wk_written := (case p of None \<Rightarrow> wk_written w | Some q \<Rightarrow> Some (pt_sequence q)),
       wk_counts := (wk_counts w)\<lparr>wkc_writes := span_note (wkc_writes (wk_counts w)) start_ns\<rparr>,
       wk_trace := (wk_trace w)\<lparr>ctr_submit_to_write_ms :=
         Some (fmax (Fin 0) (ns_to_ms (case p of None \<Rightarrow> 0 | Some q \<Rightarrow> end_ns - pt_submitted_ns q)))\<rparr>\<rparr>"

definition note_evaluated :: "worker \<Rightarrow> pending_target option \<Rightarrow> bool \<Rightarrow> worker" where
  "note_evaluated w p written =
     (case p of
        None \<Rightarrow> w
      | Some q \<Rightarrow> if written \<or> htx_disposition (rc_trace (wk_control w)) = ''exact_duplicate_suppressed''
                  then w\<lparr>wk_evaluated := pt_sequence q\<rparr> else w)"

definition issue_command ::
  "(pyfloat \<Rightarrow> pyfloat) \<Rightarrow> worker \<Rightarrow> command_request \<Rightarrow> pending_target option \<Rightarrow> int \<Rightarrow> int \<Rightarrow> line_answers
     \<Rightarrow> worker \<times> (worker_error, unit) res" where
  "issue_command cast32 w rq p start_ns end_ns ans =
     (case rc_command cast32 (wk_control w) rq start_ns (lna_write ans) (lna_elapsed_ns ans) of
        (c, Inl e) \<Rightarrow> (w\<lparr>wk_control := c\<rparr>, Inl (WkControl e))
      | (c, Inr written) \<Rightarrow>
          (let w1 = w\<lparr>wk_control := c, wk_counts := note_io (wk_counts w) start_ns end_ns\<rparr>;
               w2 = (if written then note_written w1 p start_ns end_ns else w1) in
           (note_evaluated w2 p written, Inr ())))"

definition settle_command :: "worker \<Rightarrow> cycle_snapshot \<Rightarrow> int \<Rightarrow> int \<Rightarrow> worker \<times> (worker_error, unit) res" where
  "settle_command w sn due_ns end_ns =
     (let w1 = w\<lparr>wk_observed := (case sn_target sn of None \<Rightarrow> wk_observed w | Some p \<Rightarrow> max (wk_observed w) (pt_sequence p)),
                 wk_trace := (wk_trace w)\<lparr>ctr_end_ns := Some end_ns\<rparr>\<rparr> in
      case (if htx_disposition (rc_trace (wk_control w1)) = ''rate_limited'' then Inr (rc_next_command_ns (wk_control w1))
            else rbind (advance_deadline due_ns (hcf_command_period_ns (rc_cfg (wk_control w1))) end_ns) (\<lambda>d. Inr (Some d))) of
        Inl e \<Rightarrow> (w1, Inl e)
      | Inr d \<Rightarrow> (w1\<lparr>wk_command_due_ns := d, wk_control := (wk_control w1)\<lparr>rc_next_command_ns := d\<rparr>\<rparr>, Inr ()))"

definition run_target ::
  "(pyfloat \<Rightarrow> pyfloat) \<Rightarrow> worker \<Rightarrow> cycle_snapshot \<Rightarrow> pending_target \<Rightarrow> cycle_clock \<Rightarrow> line_answers
     \<Rightarrow> worker \<times> (worker_error, unit) res" where
  "run_target cast32 w sn p clk ans =
     (let due_ns = command_due_at w (OpTarget p) (cck_now_ns clk);
          w1 = start_command w sn (OpTarget p) due_ns (cck_start_ns clk) in
      if drops_stale w1 sn p (cck_start_ns clk) then settle_command (drop_target w1 p) sn due_ns (cck_end_ns clk)
      else case issue_command cast32 w1 (target_request w1 sn p) (Some p) (cck_start_ns clk) (cck_end_ns clk) ans of
        (w2, Inl e) \<Rightarrow> (w2, Inl e)
      | (w2, Inr _) \<Rightarrow> settle_command w2 sn due_ns (cck_end_ns clk))"

definition run_relief ::
  "(pyfloat \<Rightarrow> pyfloat) \<Rightarrow> worker \<Rightarrow> cycle_snapshot \<Rightarrow> pyfloat list \<Rightarrow> cycle_clock \<Rightarrow> line_answers
     \<Rightarrow> worker \<times> (worker_error, unit) res" where
  "run_relief cast32 w sn v clk ans =
     (let w1 = start_command w sn (OpRelief v) (cck_now_ns clk) (cck_start_ns clk) in
      case issue_command cast32 w1 (relief_request v) None (cck_start_ns clk) (cck_end_ns clk) ans of
        (w2, Inl e) \<Rightarrow> (w2, Inl e)
      | (w2, Inr _) \<Rightarrow> settle_command w2 sn (cck_now_ns clk) (cck_end_ns clk))"

section \<open>Reading a register\<close>

definition answer_of :: "line_answers \<Rightarrow> hand_register \<Rightarrow> register_read" where
  "answer_of ans r =
     (case r of RegAngle \<Rightarrow> ReadAngle (lna_angle ans) | RegCurrent \<Rightarrow> ReadCurrent (lna_current ans)
      | RegForce \<Rightarrow> ReadForce (lna_force ans) | RegStatus \<Rightarrow> ReadStatus (lna_status ans) | RegError \<Rightarrow> ReadError (lna_error ans))"

definition set_schedule :: "worker \<Rightarrow> hand_register \<Rightarrow> register_schedule \<Rightarrow> worker" where
  "set_schedule w r s = w\<lparr>wk_schedule := (wk_schedule w)(r := s)\<rparr>"

definition make_dataset :: "hand_control \<Rightarrow> hand_feedback \<Rightarrow> dataset_feedback" where
  "make_dataset c fb = \<lparr>dfb_feedback = fb, dfb_angle_ns = feedback_register_timestamp_ns c RegAngle,
     dfb_force_ns = feedback_register_timestamp_ns c RegForce\<rparr>"

definition publish_feedback :: "worker \<Rightarrow> hand_feedback \<Rightarrow> worker" where
  "publish_feedback w fb = w\<lparr>wk_feedback := Some fb, wk_dataset := Some (make_dataset (wk_control w) fb)\<rparr>"

definition note_feedback :: "worker \<Rightarrow> int \<Rightarrow> worker" where
  "note_feedback w t = w\<lparr>wk_counts := (wk_counts w)\<lparr>wkc_feedback := span_note (wkc_feedback (wk_counts w)) t\<rparr>\<rparr>"

text \<open>The schedule after a read that returned: the answer of a tolerated timeout counts as a failure.\<close>

definition read_returned :: "register_schedule \<Rightarrow> bool \<Rightarrow> int \<Rightarrow> register_schedule" where
  "read_returned s transient end_ns =
     (if transient then s\<lparr>rsc_failure_count := rsc_failure_count s + 1, rsc_warning_active := True\<rparr>
      else s\<lparr>rsc_last_success_ns := Some end_ns, rsc_success_count := rsc_success_count s + 1\<rparr>)"

definition settle_read :: "worker \<Rightarrow> hand_register \<Rightarrow> int \<Rightarrow> int \<Rightarrow> bool \<Rightarrow> hand_feedback \<Rightarrow> worker \<times> (worker_error, unit) res" where
  "settle_read w r due_ns end_ns transient fb =
     (let s = read_returned (wk_schedule w r) transient end_ns; w1 = set_schedule w r s in
      case advance_deadline due_ns (rsc_period_ns s) end_ns of
        Inl e \<Rightarrow> (w1, Inl e)
      | Inr d \<Rightarrow>
          (let s1 = s\<lparr>rsc_next_due_ns := Some d, rsc_warning_active := (if transient then rsc_warning_active s else False)\<rparr>;
               w2 = publish_feedback (set_schedule w1 r s1) fb in
           (if r = RegAngle then note_feedback w2 end_ns else w2, Inr ())))"

definition run_read ::
  "(pyfloat \<Rightarrow> pyfloat) \<Rightarrow> worker \<Rightarrow> hand_register \<Rightarrow> cycle_clock \<Rightarrow> line_answers \<Rightarrow> worker \<times> (worker_error, unit) res" where
  "run_read cast32 w r clk ans =
     (let s = wk_schedule w r; w1 = set_schedule w r (s\<lparr>rsc_last_attempt_ns := Some (cck_start_ns clk)\<rparr>) in
      case rsc_next_due_ns s of
        None \<Rightarrow> (w, Inl WkAssertion)
      | Some due_ns \<Rightarrow>
          (case poll_feedback_register cast32 (wk_control w1) (cck_start_ns clk) (answer_of ans r) (lna_elapsed_ns ans) of
             (c, Inl e) \<Rightarrow>
               (let s1 = wk_schedule w1 r in
                (set_schedule (w1\<lparr>wk_control := c\<rparr>) r (s1\<lparr>rsc_failure_count := rsc_failure_count s1 + 1\<rparr>), Inl (WkControl e)))
           | (c, Inr fb) \<Rightarrow>
               settle_read (w1\<lparr>wk_control := c, wk_counts := note_io (wk_counts w1) (cck_start_ns clk) (cck_end_ns clk)\<rparr>) r due_ns
                 (cck_end_ns clk) (htx_disposition (rc_trace c) = ''feedback_timeout_hold'') fb))"

section \<open>The end of a cycle, the loop and the session\<close>

definition age_schedule :: "hand_config \<Rightarrow> int \<Rightarrow> hand_register \<Rightarrow> register_schedule \<Rightarrow> register_schedule" where
  "age_schedule cfg now_ns r s =
     (case rsc_last_success_ns s of
        None \<Rightarrow> s
      | Some t \<Rightarrow>
          let overdue = hcf_warning_age_ns cfg r < now_ns - t in
          s\<lparr>rsc_warning_count := rsc_warning_count s + (if overdue \<and> \<not> rsc_warning_active s then 1 else 0),
            rsc_warning_active := overdue\<rparr>)"

definition update_feedback_ages :: "worker \<Rightarrow> int \<Rightarrow> worker" where
  "update_feedback_ages w now_ns =
     w\<lparr>wk_schedule := (\<lambda>r. age_schedule (rc_cfg (wk_control w)) now_ns r (wk_schedule w r))\<rparr>"

definition close_cycle :: "worker \<Rightarrow> cycle_clock \<Rightarrow> worker" where
  "close_cycle w clk =
     (let w1 = update_feedback_ages w (cck_ages_ns clk); n = wk_counts w1;
          overrun = flt (Fin (of_int (hcf_command_period_ns (rc_cfg (wk_control w1)))))
                      (fmul (ns_to_ms (cck_finished_ns clk - cck_started_ns clk)) (Fin 1000000)) in
      w1\<lparr>wk_counts := n\<lparr>wkc_cycles := wkc_cycles n + 1, wkc_overruns := wkc_overruns n + (if overrun then 1 else 0)\<rparr>\<rparr>)"

definition run_operation ::
  "(pyfloat \<Rightarrow> pyfloat) \<Rightarrow> worker \<Rightarrow> cycle_snapshot \<Rightarrow> serial_op \<Rightarrow> cycle_clock \<Rightarrow> line_answers
     \<Rightarrow> worker \<times> (worker_error, unit) res" where
  "run_operation cast32 w sn op clk ans =
     (case op of OpRelief v \<Rightarrow> run_relief cast32 w sn v clk ans
      | OpTarget p \<Rightarrow> run_target cast32 w sn p clk ans
      | OpRegister r \<Rightarrow> run_read cast32 w r clk ans
      | OpIdle \<Rightarrow> (w, Inr ()))"

text \<open>The rest of \<open>run_cycle\<close> after the snapshot.\<close>

definition finish_cycle ::
  "(pyfloat \<Rightarrow> pyfloat) \<Rightarrow> worker \<Rightarrow> cycle_snapshot \<Rightarrow> cycle_clock \<Rightarrow> line_answers \<Rightarrow> worker \<times> (worker_error, unit) res" where
  "finish_cycle cast32 w sn clk ans =
     (case prepare_cycle w sn (cck_now_ns clk) of
        (w1, Inl e) \<Rightarrow> (w1, Inl e)
      | (w1, Inr relief) \<Rightarrow>
          (case choose_operation w1 sn relief (cck_now_ns clk) of
             Inl e \<Rightarrow> (w1, Inl e)
           | Inr op \<Rightarrow>
               (case run_operation cast32 w1 sn op clk ans of
                  (w2, Inl e) \<Rightarrow> (w2, Inl e)
                | (w2, Inr _) \<Rightarrow> (close_cycle w2 clk, Inr ()))))"

text \<open>\<open>_run\<close>: an exception of the cycle faults the control, is kept for the producer and ends the thread.\<close>

definition worker_fail :: "worker \<Rightarrow> worker_error \<Rightarrow> worker" where
  "worker_fail w e =
     w\<lparr>wk_control := (if rc_fault_reason (wk_control w) = None then rc_fault (wk_control w) ''pc_direct_worker_failure''
                      else wk_control w),
       wk_failure := Some e, wk_running := False\<rparr>"

definition end_cycle :: "(pyfloat \<Rightarrow> pyfloat) \<Rightarrow> worker \<Rightarrow> cycle_clock \<Rightarrow> line_answers \<Rightarrow> worker" where
  "end_cycle cast32 w clk ans =
     (case wk_inflight w of
        None \<Rightarrow> w
      | Some sn \<Rightarrow>
          (case finish_cycle cast32 (w\<lparr>wk_inflight := None\<rparr>) sn clk ans of
             (w1, Inl e) \<Rightarrow> worker_fail w1 e
           | (w1, Inr _) \<Rightarrow> w1))"

definition command_wakes :: "worker \<Rightarrow> bool" where
  "command_wakes w \<longleftrightarrow> wk_active w \<and> wk_pending w \<noteq> None \<and> target_requires_command w (wk_pending w)"

definition wake_candidates :: "worker \<Rightarrow> int \<Rightarrow> int list" where
  "wake_candidates w now_ns =
     List.map_filter (\<lambda>r. rsc_next_due_ns (wk_schedule w r)) hand_registers
     @ List.map_filter (\<lambda>r. map_option (\<lambda>t. t + hcf_warning_age_ns (rc_cfg (wk_control w)) r) (rsc_last_success_ns (wk_schedule w r)))
         [RegStatus, RegError]
     @ (if command_wakes w then [case wk_command_due_ns w of None \<Rightarrow> now_ns | Some d \<Rightarrow> d] else [])"

definition next_wake_ns :: "worker \<Rightarrow> int \<Rightarrow> int" where
  "next_wake_ns w now_ns =
     (if command_wakes w \<and> wk_force_write w then now_ns
      else case wake_candidates w now_ns of [] \<Rightarrow> now_ns + 1000000 | t # ts \<Rightarrow> fold min ts t)"

definition worker_start ::
  "(pyfloat \<Rightarrow> pyfloat) \<Rightarrow> worker \<Rightarrow> hand_operation \<Rightarrow> (backend_exn, bool) res \<Rightarrow> int \<Rightarrow> line_answers \<Rightarrow> int
     \<Rightarrow> worker \<times> (worker_error, hand_feedback) res" where
  "worker_start cast32 w op outcome now_ns ans end_ns =
     (case rc_open (wk_control w) op outcome of
        (c, Inl e) \<Rightarrow> (w\<lparr>wk_control := c\<rparr>, Inl (WkControl e))
      | (c, Inr _) \<Rightarrow>
          (case poll_feedback cast32 c now_ns (lna_angle ans) (lna_current ans) (lna_force ans) (lna_status ans) (lna_error ans)
                  (lna_elapsed_ns ans) of
             (c1, Inl e) \<Rightarrow> (w\<lparr>wk_control := c1\<rparr>, Inl (WkControl e))
           | (c1, Inr fb) \<Rightarrow>
               (let w1 = note_feedback (publish_feedback (w\<lparr>wk_control := c1\<rparr>) fb) (fbk_monotonic_ns fb) in
                (w1\<lparr>wk_schedule := (\<lambda>r. (wk_schedule w1 r)\<lparr>rsc_last_attempt_ns := Some end_ns, rsc_last_success_ns := Some end_ns,
                       rsc_first_success_ns := Some end_ns, rsc_success_count := 1,
                       rsc_next_due_ns := Some (end_ns + rsc_period_ns (wk_schedule w1 r))\<rparr>),
                    wk_running := True\<rparr>, Inr fb))))"

definition worker_cleanup :: "worker \<Rightarrow> worker" where
  "worker_cleanup w = w\<lparr>wk_running := False, wk_control := rc_cleanup (wk_control w)\<rparr>"

text \<open>Rates of the report.\<close>

definition worker_rate :: "span \<Rightarrow> pyfloat option" where
  "worker_rate s =
     (case (sp_first_ns s, sp_last_ns s) of
        (Some a, Some b) \<Rightarrow>
          if sp_count s < 2 \<or> b \<le> a then None
          else Some (fdiv (fmul (round64 (of_int (int (sp_count s) - 1))) (Fin 1000000000)) (round64 (of_int (b - a))))
      | _ \<Rightarrow> None)"

definition serial_utilization :: "worker_counts \<Rightarrow> (div_error, pyfloat) res option" where
  "serial_utilization n =
     (case (wkc_first_io_ns n, wkc_last_io_ns n) of
        (Some a, Some b) \<Rightarrow>
          if b \<le> a then None else Some (rbind (py_true_div (wkc_io_busy_ns n) (b - a)) (\<lambda>u. Inr (fmin (Fin 1) u)))
      | _ \<Rightarrow> None)"

end
