(* ===== verification/HandWorkerRun.thy ===== *)
theory HandWorkerRun
  imports HandWorker
begin

text \<open>
  Runs of the hand worker: producer calls and the two steps of a cycle in any order, and what holds of every
  run: the accounting of the mailbox, the end of writing after a terminal stop, the wake time, and the
  starvation that follows a tolerated read timeout on hold.
\<close>

section \<open>Events\<close>

datatype worker_event =
    WvActivate int
  | WvSubmit "pyfloat list" int
  | WvHold string
  | WvStop string
  | WvBegin
  | WvEnd cycle_clock line_answers
  | WvCleanup

fun worker_apply :: "(pyfloat \<Rightarrow> pyfloat) \<Rightarrow> worker \<Rightarrow> worker_event \<Rightarrow> worker" where
  "worker_apply cast32 w (WvActivate t) = fst (activate_from_measured w t)"
| "worker_apply cast32 w (WvSubmit values t) = fst (submit_target w values t)"
| "worker_apply cast32 w (WvHold reason) = worker_hold w reason"
| "worker_apply cast32 w (WvStop reason) = worker_terminal_stop w reason"
| "worker_apply cast32 w WvBegin = (if wk_running w \<and> wk_inflight w = None then begin_cycle w else w)"
| "worker_apply cast32 w (WvEnd clk ans) = end_cycle cast32 w clk ans"
| "worker_apply cast32 w WvCleanup = worker_cleanup w"

fun worker_run :: "(pyfloat \<Rightarrow> pyfloat) \<Rightarrow> worker \<Rightarrow> worker_event list \<Rightarrow> worker" where
  "worker_run cast32 w [] = w"
| "worker_run cast32 w (ev # evs) = worker_run cast32 (worker_apply cast32 w ev) evs"

section \<open>What the steps of a cycle keep\<close>

text \<open>The mailbox: everything the producer side owns, except the force flag.\<close>

definition same_mailbox :: "worker \<Rightarrow> worker \<Rightarrow> bool" where
  "same_mailbox w w' \<longleftrightarrow> wk_active w' = wk_active w \<and> wk_pending w' = wk_pending w \<and> wk_terminal w' = wk_terminal w
     \<and> wk_submitted w' = wk_submitted w \<and> wk_inflight w' = wk_inflight w \<and> wk_failure w' = wk_failure w
     \<and> wkc_submits (wk_counts w') = wkc_submits (wk_counts w) \<and> wkc_activations (wk_counts w') = wkc_activations (wk_counts w)
     \<and> wkc_coalesced (wk_counts w') = wkc_coalesced (wk_counts w)"

definition same_progress :: "worker \<Rightarrow> worker \<Rightarrow> bool" where
  "same_progress w w' \<longleftrightarrow> wk_observed w' = wk_observed w \<and> wk_written w' = wk_written w \<and> wk_evaluated w' = wk_evaluated w"

lemma same_mailbox_refl [simp]: "same_mailbox w w"
  by (simp add: same_mailbox_def)

lemma same_mailbox_trans: "same_mailbox u v \<Longrightarrow> same_mailbox v w \<Longrightarrow> same_mailbox u w"
  by (simp add: same_mailbox_def)

lemma same_progress_refl [simp]: "same_progress w w"
  by (simp add: same_progress_def)

lemma same_progress_trans: "same_progress u v \<Longrightarrow> same_progress v w \<Longrightarrow> same_progress u w"
  by (simp add: same_progress_def)

lemmas worker_step_defs = prepare_cycle_def start_command_def drop_target_def note_written_def note_evaluated_def
  settle_command_def settle_read_def set_schedule_def publish_feedback_def note_feedback_def update_feedback_ages_def
  close_cycle_def note_io_def

lemma kept_simps [simp]:
  "same_mailbox w (v\<lparr>wk_control := c\<rparr>) = same_mailbox w v" "same_progress w (v\<lparr>wk_control := c\<rparr>) = same_progress w v"
  "same_mailbox w (set_schedule v r s) = same_mailbox w v" "same_progress w (set_schedule v r s) = same_progress w v"
  "same_mailbox w (publish_feedback v fb) = same_mailbox w v" "same_progress w (publish_feedback v fb) = same_progress w v"
  "same_mailbox w (note_feedback v a) = same_mailbox w v" "same_progress w (note_feedback v a) = same_progress w v"
  "same_mailbox w (v\<lparr>wk_counts := note_io (wk_counts v) a b\<rparr>) = same_mailbox w v"
  "same_progress w (v\<lparr>wk_counts := n\<rparr>) = same_progress w v"
  by (simp_all add: same_mailbox_def same_progress_def worker_step_defs)

lemma settle_read_kept [simp]:
  "same_mailbox w (fst (settle_read v r d e b fb)) = same_mailbox w v"
  "same_progress w (fst (settle_read v r d e b fb)) = same_progress w v"
  by (simp_all add: settle_read_def Let_def split: sum.split)

lemma run_read_kept: "same_mailbox w (fst (run_read cast32 w r clk ans)) \<and> same_progress w (fst (run_read cast32 w r clk ans))"
proof -
  let ?w = "set_schedule w r ((wk_schedule w r)\<lparr>rsc_last_attempt_ns := Some (cck_start_ns clk)\<rparr>)"
  have counted: "?w\<lparr>wk_control := c, wk_counts := note_io (wk_counts ?w) a b\<rparr>
      = (?w\<lparr>wk_counts := note_io (wk_counts ?w) a b\<rparr>)\<lparr>wk_control := c\<rparr>" for c a b
    by simp
  show ?thesis
    unfolding run_read_def Let_def counted by (simp split: option.split prod.split sum.split)
qed

lemma prepare_mailbox: "prepare_cycle w sn t = (w1, r) \<Longrightarrow> same_mailbox w w1 \<and> same_progress w w1"
  by (auto simp: prepare_cycle_def split: if_split_asm prod.split_asm sum.split_asm)

lemma issue_mailbox: "issue_command cast32 w rq p a b ans = (w1, res) \<Longrightarrow> same_mailbox w w1 \<and> wk_observed w1 = wk_observed w"
  by (auto simp: issue_command_def same_mailbox_def worker_step_defs Let_def split: prod.split_asm sum.split_asm option.split_asm if_split_asm)

lemma settle_command_mailbox:
  "settle_command w sn d e = (w1, res) \<Longrightarrow> same_mailbox w w1 \<and> wk_written w1 = wk_written w \<and> wk_evaluated w1 = wk_evaluated w
    \<and> wk_observed w1 = (case sn_target sn of None \<Rightarrow> wk_observed w | Some p \<Rightarrow> max (wk_observed w) (pt_sequence p))"
  by (auto simp: settle_command_def same_mailbox_def Let_def split: sum.split_asm)

lemma start_mailbox: "same_mailbox w (start_command w sn op d t) \<and> same_progress w (start_command w sn op d t)"
  by (simp add: start_command_def same_mailbox_def same_progress_def Let_def)

lemma drop_mailbox: "same_mailbox w (drop_target w p) \<and> wk_written (drop_target w p) = wk_written w
    \<and> wk_evaluated (drop_target w p) = pt_sequence p \<and> wk_observed (drop_target w p) = wk_observed w"
  by (simp add: drop_target_def same_mailbox_def)

lemma close_mailbox: "same_mailbox w (close_cycle w clk) \<and> same_progress w (close_cycle w clk)"
  by (simp add: close_cycle_def update_feedback_ages_def same_mailbox_def same_progress_def Let_def)

text \<open>The marks after a command: nothing, or the sequence of the target evaluated and perhaps written.\<close>

lemma issue_progress:
  assumes "issue_command cast32 w rq p a b ans = (w1, res)"
  shows "(wk_written w1 = wk_written w \<and> wk_evaluated w1 = wk_evaluated w)
    \<or> (\<exists>q. p = Some q \<and> wk_evaluated w1 = pt_sequence q \<and> (wk_written w1 = wk_written w \<or> wk_written w1 = Some (pt_sequence q))
         \<and> res = Inr ())"
  using assms
  by (auto simp: issue_command_def worker_step_defs Let_def split: prod.split_asm sum.split_asm option.split_asm if_split_asm)

text \<open>The marks after a whole cycle.\<close>

definition marks_step :: "worker \<Rightarrow> cycle_snapshot \<Rightarrow> worker \<Rightarrow> bool" where
  "marks_step w sn w' \<longleftrightarrow>
     ((wk_written w' = wk_written w \<and> wk_evaluated w' = wk_evaluated w
       \<and> (wk_observed w' = wk_observed w \<or> (\<exists>p. sn_target sn = Some p \<and> wk_observed w' = max (wk_observed w) (pt_sequence p))))
      \<or> (\<exists>p. sn_target sn = Some p \<and> wk_evaluated w' = pt_sequence p \<and> wk_observed w' = max (wk_observed w) (pt_sequence p)
            \<and> (wk_written w' = wk_written w \<or> wk_written w' = Some (pt_sequence p))))"

lemma marks_same: "same_progress w w' \<Longrightarrow> marks_step w sn w'"
  by (simp add: marks_step_def same_progress_def)

lemma marks_before: "same_progress u w \<Longrightarrow> marks_step w sn w' \<Longrightarrow> marks_step u sn w'"
  by (simp add: marks_step_def same_progress_def)

lemma marks_after: "marks_step u sn w \<Longrightarrow> same_progress w w' \<Longrightarrow> marks_step u sn w'"
  by (simp add: marks_step_def same_progress_def)

lemma run_target_marks:
  assumes "run_target cast32 w sn p clk ans = (w', res)" and "sn_target sn = Some p"
  shows "same_mailbox w w' \<and> marks_step w sn w'"
proof -
  let ?d = "command_due_at w (OpTarget p) (cck_now_ns clk)"
  let ?w1 = "start_command w sn (OpTarget p) ?d (cck_start_ns clk)"
  note st = start_mailbox[of w sn "OpTarget p" ?d "cck_start_ns clk"]
  show ?thesis
  proof (cases "drops_stale ?w1 sn p (cck_start_ns clk)")
    case True
    then have "settle_command (drop_target ?w1 p) sn ?d (cck_end_ns clk) = (w', res)"
      using assms(1) by (simp add: run_target_def Let_def)
    from settle_command_mailbox[OF this] drop_mailbox[of ?w1 p] st assms(2) show ?thesis
      by (auto simp: same_mailbox_def same_progress_def marks_step_def)
  next
    case False
    obtain w2 r2 where iss: "issue_command cast32 ?w1 (target_request ?w1 sn p) (Some p) (cck_start_ns clk) (cck_end_ns clk) ans = (w2, r2)"
      by fastforce
    note i1 = issue_mailbox[OF iss] and i2 = issue_progress[OF iss]
    show ?thesis
    proof (cases r2)
      case (Inl e)
      with assms(1) False iss have "w' = w2" by (simp add: run_target_def Let_def)
      with i1 i2 st Inl show ?thesis
        by (auto simp: same_mailbox_def same_progress_def marks_step_def)
    next
      case (Inr u)
      with assms(1) False iss have "settle_command w2 sn ?d (cck_end_ns clk) = (w', res)" by (simp add: run_target_def Let_def)
      from settle_command_mailbox[OF this] i1 i2 st assms(2) show ?thesis
        by (auto simp: same_mailbox_def same_progress_def marks_step_def)
    qed
  qed
qed

lemma run_relief_marks:
  assumes "run_relief cast32 w sn v clk ans = (w', res)"
  shows "same_mailbox w w' \<and> marks_step w sn w'"
proof -
  let ?w1 = "start_command w sn (OpRelief v) (cck_now_ns clk) (cck_start_ns clk)"
  note st = start_mailbox[of w sn "OpRelief v" "cck_now_ns clk" "cck_start_ns clk"]
  obtain w2 r2 where iss: "issue_command cast32 ?w1 (relief_request v) None (cck_start_ns clk) (cck_end_ns clk) ans = (w2, r2)"
    by fastforce
  note i1 = issue_mailbox[OF iss] and i2 = issue_progress[OF iss]
  show ?thesis
  proof (cases r2)
    case (Inl e)
    with assms iss have "w' = w2" by (simp add: run_relief_def Let_def)
    with i1 i2 st show ?thesis by (auto simp: same_mailbox_def same_progress_def marks_step_def)
  next
    case (Inr u)
    with assms iss have "settle_command w2 sn (cck_now_ns clk) (cck_end_ns clk) = (w', res)" by (simp add: run_relief_def Let_def)
    from settle_command_mailbox[OF this] i1 i2 st show ?thesis
      by (auto simp: same_mailbox_def same_progress_def marks_step_def split: option.split_asm)
  qed
qed

lemma choose_target: "choose_operation w sn relief t = Inr (OpTarget p) \<Longrightarrow> sn_target sn = Some p"
  by (auto simp: choose_operation_def split: if_split_asm option.split_asm)

lemma run_operation_marks:
  assumes "run_operation cast32 w sn op clk ans = (w', res)" and "choose_operation w sn relief t = Inr op"
  shows "same_mailbox w w' \<and> marks_step w sn w'"
proof (cases op)
  case (OpRelief v)
  with assms(1) run_relief_marks show ?thesis by (simp add: run_operation_def)
next
  case (OpTarget p)
  with assms run_target_marks choose_target show ?thesis by (simp add: run_operation_def)
next
  case (OpRegister r)
  with assms(1) run_read_kept[of w cast32 r clk ans] show ?thesis by (simp add: run_operation_def marks_same)
next
  case OpIdle
  with assms(1) show ?thesis by (simp add: run_operation_def marks_same)
qed

lemma finish_marks:
  assumes "finish_cycle cast32 w sn clk ans = (w', res)"
  shows "same_mailbox w w' \<and> marks_step w sn w'"
proof -
  obtain w1 r1 where pr: "prepare_cycle w sn (cck_now_ns clk) = (w1, r1)" by fastforce
  note keep = prepare_mailbox[OF pr]
  show ?thesis
  proof (cases r1)
    case (Inl e)
    with assms pr keep show ?thesis by (auto simp: finish_cycle_def marks_same)
  next
    case (Inr relief)
    show ?thesis
    proof (cases "choose_operation w1 sn relief (cck_now_ns clk)")
      case (Inl e)
      with assms pr keep Inr show ?thesis by (auto simp: finish_cycle_def marks_same)
    next
      case op: (Inr op)
      obtain w2 r2 where run: "run_operation cast32 w1 sn op clk ans = (w2, r2)" by fastforce
      from assms pr Inr op run have "w' = w2 \<or> w' = close_cycle w2 clk"
        by (auto simp: finish_cycle_def split: sum.split_asm)
      with run_operation_marks[OF run op] keep close_mailbox[of w2 clk] show ?thesis
        using same_mailbox_trans marks_before marks_after by metis
    qed
  qed
qed

section \<open>The accounting of the mailbox\<close>

definition mailbox_ok :: "worker \<Rightarrow> bool" where
  "mailbox_ok w \<longleftrightarrow>
     int (sp_count (wkc_submits (wk_counts w))) + int (wkc_activations (wk_counts w)) = wk_submitted w
     \<and> (\<forall>p. wk_pending w = Some p \<longrightarrow> pt_sequence p = wk_submitted w)
     \<and> (\<forall>s. wk_written w = Some s \<longrightarrow> s \<le> wk_evaluated w)
     \<and> wk_evaluated w \<le> wk_observed w \<and> wk_observed w \<le> wk_submitted w
     \<and> (\<forall>sn p. wk_inflight w = Some sn \<and> sn_target sn = Some p \<longrightarrow> wk_observed w \<le> pt_sequence p \<and> pt_sequence p \<le> wk_submitted w)
     \<and> wkc_coalesced (wk_counts w) \<le> sp_count (wkc_submits (wk_counts w))"

lemma mailbox_ok_simps [simp]:
  "mailbox_ok (w\<lparr>wk_control := c\<rparr>) = mailbox_ok w" "mailbox_ok (w\<lparr>wk_failure := f\<rparr>) = mailbox_ok w"
  "mailbox_ok (w\<lparr>wk_running := b\<rparr>) = mailbox_ok w"
  by (simp_all add: mailbox_ok_def)

lemma mailbox_ok_cleared:
  "mailbox_ok w \<Longrightarrow> mailbox_ok (w\<lparr>wk_active := False, wk_pending := None, wk_force_write := False, wk_hold_reason := reason\<rparr>)"
  "mailbox_ok w \<Longrightarrow> mailbox_ok (w\<lparr>wk_terminal := term, wk_active := False, wk_pending := None, wk_force_write := False\<rparr>)"
  by (auto simp: mailbox_ok_def)

lemma mailbox_ok_start: "mk_worker c de da = Inr w \<Longrightarrow> mailbox_ok w"
  by (auto simp: mk_worker_def mailbox_ok_def no_span_def)

lemma mailbox_ok_activate: "mailbox_ok w \<Longrightarrow> mailbox_ok (fst (activate_from_measured w t))"
  by (auto simp: activate_from_measured_def mailbox_ok_def Let_def split: sum.split option.split)

lemma note_submit_simps [simp]:
  "sp_count (wkc_submits (note_submit w values t)) = sp_count (wkc_submits (wk_counts w)) + 1"
  "wkc_activations (note_submit w values t) = wkc_activations (wk_counts w)"
  "wkc_coalesced (note_submit w values t) = wkc_coalesced (wk_counts w)"
  by (simp_all add: note_submit_def span_note_def Let_def split: option.split)

lemma mailbox_ok_submit: "mailbox_ok w \<Longrightarrow> mailbox_ok (fst (submit_target w values t))"
  by (auto simp: submit_target_def mailbox_ok_def Let_def split: sum.split)

lemma mailbox_ok_begin: "mailbox_ok w \<Longrightarrow> mailbox_ok (begin_cycle w)"
  by (auto simp: begin_cycle_def mailbox_ok_def mailbox_snapshot_def split: option.split)

lemma mailbox_ok_finish:
  assumes "mailbox_ok w" and "wk_inflight w = Some sn"
    and "finish_cycle cast32 (w\<lparr>wk_inflight := None\<rparr>) sn clk ans = (w', res)"
  shows "mailbox_ok w'"
proof -
  have same: "same_mailbox (w\<lparr>wk_inflight := None\<rparr>) w'" "marks_step (w\<lparr>wk_inflight := None\<rparr>) sn w'"
    using finish_marks[OF assms(3)] by simp_all
  have sq: "wk_observed w \<le> pt_sequence p \<and> pt_sequence p \<le> wk_submitted w" if "sn_target sn = Some p" for p
    using assms(1,2) that unfolding mailbox_ok_def by blast
  have evals: "wk_evaluated w \<le> wk_observed w" "\<And>s. wk_written w = Some s \<Longrightarrow> s \<le> wk_evaluated w"
    using assms(1) unfolding mailbox_ok_def by blast+
  have subm: "wk_observed w \<le> wk_submitted w" using assms(1) unfolding mailbox_ok_def by blast
  have old: "s \<le> pt_sequence p" if "wk_written w = Some s" "sn_target sn = Some p" for s p
    using evals(2)[OF that(1)] evals(1) sq[OF that(2)] by linarith
  have marks: "(\<forall>s. wk_written w' = Some s \<longrightarrow> s \<le> wk_evaluated w') \<and> wk_evaluated w' \<le> wk_observed w'
      \<and> wk_observed w' \<le> wk_submitted w"
    using same(2)[unfolded marks_step_def] sq evals subm old by (auto simp: max_def)
  with assms(1) same(1) show ?thesis by (auto simp: mailbox_ok_def same_mailbox_def)
qed

lemma mailbox_ok_apply: "mailbox_ok w \<Longrightarrow> mailbox_ok (worker_apply cast32 w ev)"
proof (induction ev)
  case (WvEnd clk ans)
  show ?case
  proof (cases "wk_inflight w")
    case None
    with WvEnd show ?thesis by (simp add: end_cycle_def)
  next
    case (Some sn)
    obtain w' res where fin: "finish_cycle cast32 (w\<lparr>wk_inflight := None\<rparr>) sn clk ans = (w', res)" by fastforce
    have "mailbox_ok w'" by (rule mailbox_ok_finish[OF WvEnd Some fin])
    with Some fin show ?thesis by (cases res) (simp_all add: end_cycle_def worker_fail_def)
  qed
qed (simp_all add: mailbox_ok_activate mailbox_ok_submit mailbox_ok_begin worker_hold_def worker_terminal_stop_def
      mailbox_ok_cleared worker_cleanup_def)

lemma mailbox_ok_run: "mailbox_ok w \<Longrightarrow> mailbox_ok (worker_run cast32 w evs)"
  by (induction evs arbitrary: w) (simp_all add: mailbox_ok_apply)


section \<open>A terminal stop ends the writing\<close>

definition one_write :: "hand_control \<Rightarrow> hand_control \<Rightarrow> bool" where
  "one_write c c' \<longleftrightarrow> rc_position_writes c' = rc_position_writes c \<or> (\<exists>x. rc_position_writes c' = rc_position_writes c @ [x])"

definition no_write :: "hand_control \<Rightarrow> hand_control \<Rightarrow> bool" where
  "no_write c c' \<longleftrightarrow> rc_position_writes c' = rc_position_writes c"

lemma no_write_quiet: "quiet c c' \<Longrightarrow> no_write c c'"
  by (simp add: quiet_def no_write_def)

lemma no_write_refl [simp]: "no_write c c"
  by (simp add: no_write_def)

lemma no_write_trans: "no_write a b \<Longrightarrow> no_write b c \<Longrightarrow> no_write a c"
  by (simp add: no_write_def)

lemma no_write_parts [simp]:
  "no_write c (d\<lparr>rc_next_command_ns := x\<rparr>) = no_write c d" "no_write c (rc_dispose d s) = no_write c d"
  "no_write c (rc_fault d s) = no_write c d" "no_write c (rc_hold d s) = no_write c d" "no_write c (rc_cleanup d) = no_write c d"
  by (simp_all add: no_write_def rc_dispose_def rc_fault_def rc_hold_def rc_cleanup_def)

lemma one_write_parts [simp]:
  "one_write c (d\<lparr>rc_next_command_ns := x\<rparr>) = one_write c d" "one_write c (rc_fault d s) = one_write c d"
  by (simp_all add: one_write_def rc_fault_def)

lemma one_write_before: "no_write b c \<Longrightarrow> one_write c d \<Longrightarrow> one_write b d"
  by (simp add: no_write_def one_write_def)

lemma one_write_after: "one_write b c \<Longrightarrow> no_write c d \<Longrightarrow> one_write b d"
  by (simp add: no_write_def one_write_def)

lemma one_write_none: "no_write b c \<Longrightarrow> one_write b c"
  by (simp add: no_write_def one_write_def)

lemma prepare_no_write: "prepare_cycle w sn t = (w1, r) \<Longrightarrow> no_write (wk_control w) (wk_control w1)"
proof -
  assume pr: "prepare_cycle w sn t = (w1, r)"
  have hold: "no_write (wk_control w) (fst (rc_pop_relief (rc_hold (wk_control w) (sn_hold_reason sn))))"
    using no_write_quiet[OF quiet_other(1)[of "rc_hold (wk_control w) (sn_hold_reason sn)"]]
      no_write_trans[of "wk_control w" "rc_hold (wk_control w) (sn_hold_reason sn)"] by simp
  have act: "no_write (wk_control w) (fst (rc_activate (wk_control w) t))" by (rule no_write_quiet[OF quiet_activate])
  show ?thesis
    using pr hold act by (auto simp: prepare_cycle_def split: if_split_asm prod.split_asm sum.split_asm)
qed

lemma settle_command_no_write: "settle_command w sn d e = (w1, res) \<Longrightarrow> no_write (wk_control w) (wk_control w1)"
  by (auto simp: settle_command_def Let_def split: sum.split_asm)

lemma issue_one_write: "issue_command cast32 w rq p a b ans = (w1, res) \<Longrightarrow> one_write (wk_control w) (wk_control w1)"
proof -
  assume iss: "issue_command cast32 w rq p a b ans = (w1, res)"
  obtain c r where cmd: "rc_command cast32 (wk_control w) rq a (lna_write ans) (lna_elapsed_ns ans) = (c, r)" by fastforce
  have "one_write (wk_control w) c" using command_output[OF cmd] by (auto simp: one_write_def)
  moreover have "wk_control w1 = c"
    using iss cmd by (auto simp: issue_command_def note_written_def note_evaluated_def Let_def split: sum.split_asm option.split_asm if_split_asm)
  ultimately show ?thesis by simp
qed

lemma start_control [simp]: "wk_control (start_command w sn op d t) = wk_control w"
  by (simp add: start_command_def Let_def)

lemma run_target_one_write:
  assumes "run_target cast32 w sn p clk ans = (w', res)"
  shows "one_write (wk_control w) (wk_control w')"
proof -
  let ?d = "command_due_at w (OpTarget p) (cck_now_ns clk)"
  let ?w1 = "start_command w sn (OpTarget p) ?d (cck_start_ns clk)"
  show ?thesis
  proof (cases "drops_stale ?w1 sn p (cck_start_ns clk)")
    case True
    then have "settle_command (drop_target ?w1 p) sn ?d (cck_end_ns clk) = (w', res)"
      using assms by (simp add: run_target_def Let_def)
    from settle_command_no_write[OF this] show ?thesis by (intro one_write_none) (simp add: drop_target_def no_write_def rc_dispose_def)
  next
    case False
    obtain w2 r2 where iss: "issue_command cast32 ?w1 (target_request ?w1 sn p) (Some p) (cck_start_ns clk) (cck_end_ns clk) ans = (w2, r2)"
      by fastforce
    from assms False iss have "w' = w2 \<or> settle_command w2 sn ?d (cck_end_ns clk) = (w', res)"
      by (auto simp: run_target_def Let_def split: sum.split_asm)
    with issue_one_write[OF iss] settle_command_no_write show ?thesis by (auto intro: one_write_after)
  qed
qed

lemma run_relief_one_write:
  assumes "run_relief cast32 w sn v clk ans = (w', res)"
  shows "one_write (wk_control w) (wk_control w')"
proof -
  let ?w1 = "start_command w sn (OpRelief v) (cck_now_ns clk) (cck_start_ns clk)"
  obtain w2 r2 where iss: "issue_command cast32 ?w1 (relief_request v) None (cck_start_ns clk) (cck_end_ns clk) ans = (w2, r2)"
    by fastforce
  from assms iss have "w' = w2 \<or> settle_command w2 sn (cck_now_ns clk) (cck_end_ns clk) = (w', res)"
    by (auto simp: run_relief_def Let_def split: sum.split_asm)
  with issue_one_write[OF iss] settle_command_no_write show ?thesis by (auto intro: one_write_after)
qed

lemma settle_read_control [simp]: "wk_control (fst (settle_read w r d e b fb)) = wk_control w"
  by (simp add: settle_read_def set_schedule_def publish_feedback_def note_feedback_def Let_def split: sum.split)

lemma run_read_control:
  "wk_control (fst (run_read cast32 w r clk ans)) = wk_control w
   \<or> wk_control (fst (run_read cast32 w r clk ans))
      = fst (poll_feedback_register cast32 (wk_control w) (cck_start_ns clk) (answer_of ans r) (lna_elapsed_ns ans))"
  unfolding run_read_def Let_def by (simp add: set_schedule_def split: option.split prod.split sum.split)

lemma run_read_no_write: "no_write (wk_control w) (wk_control (fst (run_read cast32 w r clk ans)))"
  using run_read_control[of cast32 w r clk ans]
    no_write_quiet[OF quiet_poll_register[of "wk_control w" cast32 "cck_start_ns clk" "answer_of ans r" "lna_elapsed_ns ans"]]
  by auto

lemma run_operation_one_write:
  assumes "run_operation cast32 w sn op clk ans = (w', res)"
  shows "one_write (wk_control w) (wk_control w')"
  using assms run_relief_one_write run_target_one_write one_write_none[OF run_read_no_write[of w cast32 _ clk ans]]
  by (cases op) (auto simp: run_operation_def intro: one_write_none, metis fst_conv)

lemma finish_one_write:
  assumes "finish_cycle cast32 w sn clk ans = (w', res)"
  shows "one_write (wk_control w) (wk_control w')"
proof -
  obtain w1 r1 where pr: "prepare_cycle w sn (cck_now_ns clk) = (w1, r1)" by fastforce
  note keep = prepare_no_write[OF pr]
  have "w' = w1 \<or> (\<exists>op w2 r2. run_operation cast32 w1 sn op clk ans = (w2, r2) \<and> (w' = w2 \<or> w' = close_cycle w2 clk))"
    using assms pr by (auto simp: finish_cycle_def split: sum.split_asm prod.split_asm)
  moreover have "wk_control (close_cycle v clk) = wk_control v" for v
    by (simp add: close_cycle_def update_feedback_ages_def Let_def)
  ultimately show ?thesis using keep run_operation_one_write one_write_before one_write_none by metis
qed

lemma end_cycle_one_write: "one_write (wk_control w) (wk_control (end_cycle cast32 w clk ans))"
proof (cases "wk_inflight w")
  case (Some sn)
  obtain w' res where fin: "finish_cycle cast32 (w\<lparr>wk_inflight := None\<rparr>) sn clk ans = (w', res)" by fastforce
  from finish_one_write[OF fin] Some fin show ?thesis by (cases res) (simp_all add: end_cycle_def worker_fail_def)
qed (simp add: end_cycle_def one_write_def)

lemma end_cycle_mailbox:
  "wk_terminal (end_cycle cast32 w clk ans) = wk_terminal w \<and> wk_inflight (end_cycle cast32 w clk ans) = None"
proof (cases "wk_inflight w")
  case (Some sn)
  obtain w' res where fin: "finish_cycle cast32 (w\<lparr>wk_inflight := None\<rparr>) sn clk ans = (w', res)" by fastforce
  from finish_marks[OF fin] Some fin show ?thesis by (cases res) (auto simp: end_cycle_def worker_fail_def same_mailbox_def)
qed (simp add: end_cycle_def)

lemma stopped_step:
  assumes "wk_terminal w = Some reason"
  shows "wk_terminal (worker_apply cast32 w ev) = Some reason
    \<and> (wk_inflight w = None \<longrightarrow> wk_inflight (worker_apply cast32 w ev) = None \<and> no_write (wk_control w) (wk_control (worker_apply cast32 w ev)))
    \<and> (no_write (wk_control w) (wk_control (worker_apply cast32 w ev))
        \<or> one_write (wk_control w) (wk_control (worker_apply cast32 w ev)) \<and> wk_inflight (worker_apply cast32 w ev) = None)"
proof (cases ev)
  case (WvEnd clk ans)
  then show ?thesis
    using assms end_cycle_mailbox[of cast32 w clk ans] end_cycle_one_write[of w cast32 clk ans] by (auto simp: end_cycle_def)
qed (use assms in \<open>auto simp: activate_from_measured_def submit_target_def worker_hold_def worker_terminal_stop_def
       begin_cycle_def rc_arm_terminal_stop_def worker_cleanup_def Let_def split: sum.split option.split\<close>)

lemma stopped_run:
  assumes "wk_terminal w = Some reason"
  shows "wk_terminal (worker_run cast32 w evs) = Some reason
    \<and> (wk_inflight w = None \<longrightarrow> no_write (wk_control w) (wk_control (worker_run cast32 w evs)))
    \<and> one_write (wk_control w) (wk_control (worker_run cast32 w evs))"
  using assms
proof (induction evs arbitrary: w)
  case (Cons ev evs)
  let ?w = "worker_apply cast32 w ev"
  note st = stopped_step[OF Cons.prems, of cast32 ev]
  have IH: "wk_terminal (worker_run cast32 ?w evs) = Some reason"
    "wk_inflight ?w = None \<Longrightarrow> no_write (wk_control ?w) (wk_control (worker_run cast32 ?w evs))"
    "one_write (wk_control ?w) (wk_control (worker_run cast32 ?w evs))"
    using Cons.IH[of ?w] st by blast+
  show ?case
    using st IH no_write_trans[of "wk_control w" "wk_control ?w"] one_write_before[of "wk_control w" "wk_control ?w"]
      one_write_after[of "wk_control w" "wk_control ?w"] by auto
qed (simp add: one_write_def)

text \<open>
  C24. The first terminal stop owns the hand: whatever the producer and the thread do afterwards, the reason stays the
  first one and at most the operation already in flight may still write one position; with no cycle
  in flight nothing is written at all, and the next cycle faults the control with that reason and ends
  the thread.
\<close>

theorem worker_stop_ends_writes:
  assumes "w' = worker_run cast32 (worker_terminal_stop w reason) evs"
    and "first = (case wk_terminal w of None \<Rightarrow> reason | Some r \<Rightarrow> r)"
  shows "wk_terminal w' = Some first
    \<and> (rc_position_writes (wk_control w') = rc_position_writes (wk_control w)
       \<or> wk_inflight w \<noteq> None \<and> (\<exists>x. rc_position_writes (wk_control w') = rc_position_writes (wk_control w) @ [x]))
    \<and> (wk_running w' \<and> wk_inflight w' = None \<longrightarrow>
         worker_apply cast32 w' WvBegin
           = w'\<lparr>wk_control := rc_fault (wk_control w') (''arm_terminal_hard_stop:'' @ first), wk_running := False\<rparr>)"
proof -
  have t: "wk_terminal (worker_terminal_stop w reason) = Some first"
    using assms(2) by (simp add: worker_terminal_stop_def split: option.split)
  have same: "wk_control (worker_terminal_stop w reason) = wk_control w" "wk_inflight (worker_terminal_stop w reason) = wk_inflight w"
    by (simp_all add: worker_terminal_stop_def)
  from stopped_run[OF t, of cast32 evs] show ?thesis
    using assms(1) by (auto simp: same no_write_def one_write_def begin_cycle_def rc_arm_terminal_stop_def)
qed

section \<open>A forced activation can be lost\<close>

lemma run_target_unforces:
  assumes "run_target cast32 w sn p clk ans = (w', res)" and "sn_force_write sn"
  shows "\<not> wk_force_write w'"
proof -
  let ?d = "command_due_at w (OpTarget p) (cck_now_ns clk)"
  let ?w1 = "start_command w sn (OpTarget p) ?d (cck_start_ns clk)"
  have st: "\<not> wk_force_write ?w1" "\<not> drops_stale ?w1 sn p (cck_start_ns clk)"
    using assms(2) by (simp_all add: start_command_def drops_stale_def Let_def)
  have settle: "settle_command v sn d e = (v', r) \<Longrightarrow> wk_force_write v' = wk_force_write v" for v v' d e r
    by (auto simp: settle_command_def Let_def split: sum.split_asm)
  obtain w2 r2 where iss: "issue_command cast32 ?w1 (target_request ?w1 sn p) (Some p) (cck_start_ns clk) (cck_end_ns clk) ans = (w2, r2)"
    by fastforce
  have w2: "\<not> wk_force_write w2"
    using iss st(1) by (auto simp: issue_command_def note_written_def note_evaluated_def Let_def split: prod.split_asm sum.split_asm if_split_asm)
  from assms(1) st(2) iss have "w' = w2 \<or> settle_command w2 sn ?d (cck_end_ns clk) = (w', res)"
    by (auto simp: run_target_def Let_def split: sum.split_asm)
  with w2 settle show ?thesis by auto
qed

text \<open>
  The force flag is cleared for the target of the snapshot, but it is one flag for the whole mailbox: a cycle
  that took its snapshot before a new activation leaves that activation pending without the force it needs,
  and the control refuses a measured activation that is not forced.
\<close>

lemma forced_activation_lost:
  assumes "wk_inflight w = Some sn" and "sn_active sn" and "sn_force_write sn" and "sn_target sn = Some p"
    and "wk_evaluated w < pt_sequence p" and "rc_state (wk_control w) = HandActive"
    and "activate_from_measured w t = (w1, Inr target)"
  shows "(\<exists>q. wk_pending (end_cycle cast32 w1 clk ans) = Some q \<and> pt_measured q)
    \<and> \<not> wk_force_write (end_cycle cast32 w1 clk ans)"
proof -
  have w1: "wk_inflight w1 = Some sn" "wk_evaluated w1 = wk_evaluated w" "wk_control w1 = wk_control w"
    "\<exists>q. wk_pending w1 = Some q \<and> pt_measured q"
    using assms(1,7) by (auto simp: activate_from_measured_def Let_def split: sum.split_asm option.split_asm if_split_asm)
  let ?v = "w1\<lparr>wk_inflight := None\<rparr>"
  obtain w2 r where fin: "finish_cycle cast32 ?v sn clk ans = (w2, r)" by fastforce
  have op: "choose_operation ?v sn None (cck_now_ns clk) = Inr (OpTarget p)"
    using assms w1 by (simp add: choose_operation_def command_is_due_def target_requires_command_def)
  obtain w3 r3 where run: "run_target cast32 ?v sn p clk ans = (w3, r3)" by fastforce
  have "prepare_cycle ?v sn (cck_now_ns clk) = (?v, Inr None)"
    using assms(2,6) w1(3) by (simp add: prepare_cycle_def)
  with fin op run have "w2 = w3 \<or> w2 = close_cycle w3 clk"
    by (auto simp: finish_cycle_def run_operation_def split: sum.split_asm)
  then have "\<not> wk_force_write w2"
    using run_target_unforces[OF run assms(3)] by (auto simp: close_cycle_def update_feedback_ages_def Let_def)
  moreover have "wk_pending w2 = wk_pending w1" using finish_marks[OF fin] by (simp add: same_mailbox_def)
  ultimately show ?thesis using w1 fin by (cases r) (auto simp: end_cycle_def worker_fail_def)
qed

end
