(* ===== verification/HandWorkerLive.thy ===== *)
theory HandWorkerLive
  imports HandWorkerRun
begin

text \<open>
  When the hand worker acts: its sleep ends exactly when the next cycle has an operation to run, and what
  happens to its feedback when a read of a register times out while the hand is on hold.
\<close>

section \<open>The wake time\<close>

lemma fold_min_less: "(t :: int) < fold min xs x \<longleftrightarrow> t < x \<and> (\<forall>y \<in> set xs. t < y)"
  by (induction xs arbitrary: x) auto

lemma min_by_None [simp]: "min_by key xs = None \<longleftrightarrow> xs = []"
  by (cases xs) (auto split: option.split)

lemma min_by_Some:
  "min_by key xs = Some x \<Longrightarrow> x \<in> set xs \<and> (\<forall>y \<in> set xs. \<not> earlier (key y) (key x))"
proof (induction xs arbitrary: x)
  case (Cons a xs)
  show ?case
  proof (cases "min_by key xs")
    case None
    with Cons.prems show ?thesis by (auto simp: earlier_def)
  next
    case (Some y)
    with Cons.IH[OF Some] Cons.prems show ?thesis by (auto simp: earlier_def split: if_split_asm)
  qed
qed simp

lemma hand_registers_all: "r \<in> set hand_registers"
  by (cases r) (simp_all add: hand_registers_def)

lemma idle_iff:
  "choose_operation w sn None t = Inr OpIdle \<longleftrightarrow>
     \<not> command_is_due w sn None t \<and> \<not> register_overdue w t RegStatus \<and> \<not> register_overdue w t RegError
     \<and> (\<forall>r. \<not> register_due w t r)"
proof -
  have "min_by (due_key w) (filter (register_due w t) hand_registers) = None \<longleftrightarrow> (\<forall>r. \<not> register_due w t r)"
    using hand_registers_all by (auto simp: filter_empty_conv)
  then show ?thesis
    by (auto simp del: min_by_None simp: choose_operation_def select_feedback_register_def split: option.split)
qed

lemma command_due_wakes:
  "command_is_due w (mailbox_snapshot w) None t \<longleftrightarrow>
     command_wakes w \<and> (wk_force_write w \<or> (case wk_command_due_ns w of None \<Rightarrow> True | Some d \<Rightarrow> d \<le> t))"
  by (auto simp: command_is_due_def command_wakes_def mailbox_snapshot_def target_requires_command_def split: option.split)

lemma set_map_filter_Some: "set (List.map_filter f xs) = {y. \<exists>x \<in> set xs. f x = Some y}"
  by (auto simp: map_filter_def image_iff) (metis option.sel option.distinct(1))

lemma wake_before_candidates:
  assumes "\<forall>r. rsc_next_due_ns (wk_schedule w r) \<noteq> None" and "t0 \<le> t" and "\<not> (command_wakes w \<and> wk_force_write w)"
  shows "t < next_wake_ns w t0 \<longleftrightarrow> (\<forall>x \<in> set (wake_candidates w t0). t < x)"
proof -
  obtain d where "rsc_next_due_ns (wk_schedule w RegAngle) = Some d" using assms(1) by blast
  then have "d \<in> set (wake_candidates w t0)"
    using hand_registers_all[of RegAngle] by (auto simp: wake_candidates_def set_map_filter_Some)
  then obtain c cs where "wake_candidates w t0 = c # cs" by (cases "wake_candidates w t0") auto
  with assms(3) show ?thesis by (auto simp: next_wake_ns_def fold_min_less)
qed


section \<open>A tolerated timeout on hold\<close>

text \<open>
  The answer of a read counts as a failure while the control's last disposition is the timeout hold, and only a
  command sets another disposition. \<open>starved\<close> is the state a hand on hold is left in: no command will come, the
  status register is past its warning age and every answer counts as a failure.
\<close>

definition starved :: "int \<Rightarrow> hand_config \<Rightarrow> int \<Rightarrow> worker \<Rightarrow> bool" where
  "starved angle_ns cfg t w \<longleftrightarrow>
     rc_cfg (wk_control w) = cfg \<and> \<not> wk_active w \<and> (\<forall>sn. wk_inflight w = Some sn \<longrightarrow> \<not> sn_active sn)
     \<and> htx_disposition (rc_trace (wk_control w)) = ''feedback_timeout_hold''
     \<and> \<not> cn_relief_pending (rc_contact (wk_control w)) \<and> register_overdue w t RegStatus
     \<and> hca_success_ns (rc_cache (wk_control w)) RegAngle = Some angle_ns
     \<and> (\<forall>fb. rc_last_feedback (wk_control w) = Some fb \<longrightarrow> fbk_monotonic_ns fb = angle_ns)
     \<and> (\<forall>fb. wk_feedback w = Some fb \<longrightarrow> fbk_monotonic_ns fb = angle_ns)"

text \<open>What \<open>starved\<close> asks of the control alone.\<close>

definition stuck :: "int \<Rightarrow> hand_config \<Rightarrow> hand_control \<Rightarrow> bool" where
  "stuck angle_ns cfg c \<longleftrightarrow>
     htx_disposition (rc_trace c) = ''feedback_timeout_hold'' \<and> \<not> cn_relief_pending (rc_contact c) \<and> rc_cfg c = cfg
     \<and> hca_success_ns (rc_cache c) RegAngle = Some angle_ns
     \<and> (\<forall>fb. rc_last_feedback c = Some fb \<longrightarrow> fbk_monotonic_ns fb = angle_ns)"

lemma stuck_parts [simp]:
  "stuck a cfg (rc_fault c r) = stuck a cfg c" "stuck a cfg (rc_hold c r) = stuck a cfg c" "stuck a cfg (rc_cleanup c) = stuck a cfg c"
  "stuck a cfg (capture_failure c st e n) = stuck a cfg c"
  "stuck a cfg (c\<lparr>rc_counts := hn\<rparr>) = stuck a cfg c" "stuck a cfg (c\<lparr>rc_transient_hold := b\<rparr>) = stuck a cfg c"
  by (simp_all add: stuck_def rc_fault_def rc_hold_def rc_cleanup_def capture_failure_def)

lemma stuck_pop: "stuck a cfg c \<Longrightarrow> rc_pop_relief c = (c, None)"
  by (auto simp: rc_pop_relief_def pop_contact_relief_target_def stuck_def split: option.split)

lemma stuck_note_transient: "stuck a cfg c \<Longrightarrow> stuck a cfg (note_transient c r e t)"
  by (simp add: note_transient_def Let_def rc_dispose_def) (simp add: stuck_def)

lemma stuck_status_read:
  assumes "stuck a cfg c" and "poll_feedback_register cast32 c t (ReadStatus r) d = (c', res)"
  shows "stuck a cfg c' \<and> (\<forall>fb. res = Inr fb \<longrightarrow> fbk_monotonic_ns fb = a)"
proof (cases "rc_closed c")
  case True
  with assms show ?thesis by (auto simp: poll_feedback_register_def)
next
  case opened: False
  show ?thesis
  proof (cases "cache_read cast32 (rc_cfg c) (rc_cache c) (ReadStatus r)")
    case (Inl e)
    with assms opened show ?thesis
      by (auto simp: poll_feedback_register_def fail_with_def stuck_note_transient split: if_split_asm option.split_asm)
        (simp add: stuck_def)
  next
    case (Inr h)
    have ang: "hca_success_ns h RegAngle = Some a"
      using assms(1) Inr by (auto simp: stuck_def)
    let ?c = "store_register c RegStatus h t"
    have st: "stuck a cfg ?c" using assms(1) ang by (simp add: stuck_def store_register_def)
    have "fbk_monotonic_ns fb = a" if "feedback_from_cache cast32 ?c l = Inr fb" for fb l
      using that st by (auto simp: feedback_from_cache_def stuck_def split: option.split_asm)
    moreover have "stuck a cfg (?c\<lparr>rc_last_feedback := Some fb\<rparr>)" if "fbk_monotonic_ns fb = a" for fb
      using st that by (simp add: stuck_def)
    ultimately show ?thesis
      using assms(2) opened Inr st
      by (auto simp: poll_feedback_register_def settle_register_def fail_with_def refresh_snapshot_def Let_def
          split: if_split_asm sum.split_asm)
  qed
qed

lemma starved_alt:
  "starved a cfg t w \<longleftrightarrow> stuck a cfg (wk_control w) \<and> \<not> wk_active w
     \<and> (\<forall>sn. wk_inflight w = Some sn \<longrightarrow> \<not> sn_active sn) \<and> register_overdue w t RegStatus
     \<and> (\<forall>fb. wk_feedback w = Some fb \<longrightarrow> fbk_monotonic_ns fb = a)"
  by (auto simp: starved_def stuck_def)

text \<open>The fields \<open>starved\<close> reads, as a step may leave them.\<close>

lemma starved_step:
  assumes "starved a cfg t w" and "stuck a cfg (wk_control w')" and "wk_active w' = wk_active w"
    and "wk_inflight w' = None" and "rsc_last_success_ns (wk_schedule w' RegStatus) = rsc_last_success_ns (wk_schedule w RegStatus)"
    and "\<forall>fb. wk_feedback w' = Some fb \<longrightarrow> fbk_monotonic_ns fb = a"
  shows "starved a cfg t w'"
proof -
  have "rc_cfg (wk_control w') = rc_cfg (wk_control w)" using assms(1,2) by (simp add: starved_def stuck_def)
  then have "register_overdue w' t RegStatus = register_overdue w t RegStatus"
    using assms(5) by (simp add: register_overdue_def split: option.split)
  with assms show ?thesis by (auto simp: starved_alt stuck_def)
qed

lemma starved_read:
  assumes "starved a cfg t w" and "wk_inflight w = None" and "run_read cast32 w RegStatus clk ans = (w', res)"
  shows "starved a cfg t w'"
proof -
  obtain c r where poll: "poll_feedback_register cast32 (wk_control w) (cck_start_ns clk) (ReadStatus (lna_status ans)) (lna_elapsed_ns ans) = (c, r)"
    by fastforce
  have st: "stuck a cfg (wk_control w)" using assms(1) by (simp add: starved_alt)
  note read = stuck_status_read[OF st poll]
  have timeout: "htx_disposition (rc_trace c) = ''feedback_timeout_hold''" using read by (simp add: stuck_def)
  have fb: "\<forall>fb. wk_feedback w = Some fb \<longrightarrow> fbk_monotonic_ns fb = a" using assms(1) by (simp add: starved_def)
  show ?thesis
  proof (cases "rsc_next_due_ns (wk_schedule w RegStatus)")
    case None
    with assms show ?thesis by (simp add: run_read_def Let_def)
  next
    case (Some d)
    show ?thesis
    proof (cases r)
      case (Inl e)
      with assms(3) Some poll read fb assms(2) show ?thesis
        by (intro starved_step[OF assms(1)]) (auto simp: run_read_def Let_def set_schedule_def answer_of_def)
    next
      case (Inr f)
      with assms(3) Some poll read fb assms(2) timeout show ?thesis
        by (intro starved_step[OF assms(1)])
          (auto simp: run_read_def Let_def set_schedule_def answer_of_def settle_read_def read_returned_def publish_feedback_def
            split: sum.split_asm)
    qed
  qed
qed

lemma starved_end:
  assumes "starved a cfg t w" and "t \<le> cck_now_ns clk"
  shows "starved a cfg t (end_cycle cast32 w clk ans)"
proof (cases "wk_inflight w")
  case None
  with assms show ?thesis by (simp add: end_cycle_def)
next
  case (Some sn)
  let ?w = "w\<lparr>wk_inflight := None\<rparr>"
  define c where "c = rc_hold (wk_control w) (sn_hold_reason sn)"
  have idle: "\<not> sn_active sn" and st: "stuck a cfg c"
    using assms(1) Some by (simp_all add: starved_alt c_def)
  let ?h = "?w\<lparr>wk_control := c\<rparr>"
  have prep: "prepare_cycle ?w sn (cck_now_ns clk) = (?h, Inr None)"
    using idle stuck_pop[OF st] by (simp add: prepare_cycle_def c_def)
  have h: "starved a cfg t ?h"
    using assms(1) st by (intro starved_step[OF assms(1)]) (auto simp: starved_def)
  have "register_overdue ?h (cck_now_ns clk) RegStatus"
    using h assms(2) by (auto simp: starved_def register_overdue_def split: option.split_asm)
  then have op: "choose_operation ?h sn None (cck_now_ns clk) = Inr (OpRegister RegStatus)"
    using idle by (simp add: choose_operation_def command_is_due_def select_feedback_register_def)
  obtain w2 r where run: "run_read cast32 ?h RegStatus clk ans = (w2, r)" by fastforce
  have w2: "starved a cfg t w2" by (rule starved_read[OF h _ run]) simp
  have none: "wk_inflight w2 = None" using run_read_kept[of ?h cast32 RegStatus clk ans] run by (simp add: same_mailbox_def)
  have close: "starved a cfg t (close_cycle w2 clk)"
    using w2 none by (intro starved_step[OF w2])
      (auto simp: close_cycle_def update_feedback_ages_def age_schedule_def starved_alt Let_def split: option.split)
  have fail: "starved a cfg t (worker_fail w2 e)" for e
    using w2 none by (intro starved_step[OF w2]) (auto simp: worker_fail_def starved_alt)
  have "end_cycle cast32 w clk ans = (case r of Inl e \<Rightarrow> worker_fail w2 e | Inr u \<Rightarrow> close_cycle w2 clk)"
    using Some prep op run by (cases r) (simp_all add: end_cycle_def finish_cycle_def run_operation_def)
  with close fail show ?thesis by (cases r) simp_all
qed

text \<open>The events of a hand that nobody manages to engage: cycles not before \<open>t\<close> and producer calls.\<close>

fun later_event :: "int \<Rightarrow> worker_event \<Rightarrow> bool" where
  "later_event t (WvEnd clk ans) = (t \<le> cck_now_ns clk)"
| "later_event t (WvActivate _) = False"
| "later_event t _ = True"

lemma starved_apply:
  assumes "starved a cfg t w" and "later_event t ev"
  shows "starved a cfg t (worker_apply cast32 w ev)"
proof (cases ev)
  case (WvEnd clk ans)
  with assms starved_end show ?thesis by simp
next
  case WvBegin
  then show ?thesis
    using assms(1) by (auto simp: begin_cycle_def rc_arm_terminal_stop_def starved_alt register_overdue_def mailbox_snapshot_def
        rc_fault_def stuck_def split: option.split)
qed (use assms in \<open>auto simp: submit_target_def worker_hold_def worker_terminal_stop_def worker_cleanup_def starved_alt
       register_overdue_def rc_cleanup_def stuck_def Let_def split: sum.splits option.splits\<close>)

lemma starved_run: "starved a cfg t w \<Longrightarrow> \<forall>ev \<in> set evs. later_event t ev \<Longrightarrow> starved a cfg t (worker_run cast32 w evs)"
  by (induction evs arbitrary: w) (simp_all add: starved_apply)

lemma stale_activation_refused:
  assumes "\<forall>fb. wk_feedback w = Some fb \<longrightarrow> fbk_monotonic_ns fb = a"
    and "hcf_stale_timeout_ns (rc_cfg (wk_control w)) < now_ns - a"
  shows "activate_from_measured w now_ns = (w, Inl WkFailed) \<or> activate_from_measured w now_ns = (w, Inl WkStaleEngagement)"
  using assms by (auto simp: activate_from_measured_def raise_if_failed_def require_def split: option.split)


end
