(* ===== verification/HandWorkerDemo.thy ===== *)
theory HandWorkerDemo
  imports HandWorkerLive HandDemo
begin

text \<open>
  The hand worker evaluated on the small hand of \<open>HandDemo\<close>: a started worker, two targets of which the first
  is coalesced, a stop, the sleep before the first deadline, and a status timeout on hold.
\<close>

definition demo_line :: "(backend_exn, int list) res \<Rightarrow> line_answers" where
  "demo_line status = \<lparr>lna_write = Inr True, lna_angle = Inr (replicate 6 (Fin 1000)), lna_current = Inr (replicate 6 (Fin 0)),
     lna_force = Inr (replicate 6 (Fin 0)), lna_status = status, lna_error = Inr (replicate 6 0), lna_elapsed_ns = 0\<rparr>"

definition demo_clock :: "int \<Rightarrow> cycle_clock" where
  "demo_clock t = \<lparr>cck_started_ns = t, cck_now_ns = t, cck_start_ns = t, cck_end_ns = t, cck_ages_ns = t, cck_finished_ns = t\<rparr>"

lemma demo_worker:
  obtains c0 w where "mk_hand_control demo_settings = Inr c0" "mk_worker c0 None (Some (Fin (1 / 4))) = Inr w"
    "wk_control w = c0" "\<forall>r. rsc_period_ns (wk_schedule w r) = 125000000" "wk_terminal w = None" "wk_failure w = None"
    "wk_pending w = None" "wk_observed w = 0" "wk_submitted w = 0" "wk_inflight w = None" "wk_hold_reason w = ''startup''"
    "\<not> wk_active w" "wkc_coalesced (wk_counts w) = 0" "sp_count (wkc_submits (wk_counts w)) = 0" "\<not> wk_force_write w"
proof -
  obtain c0 cfg where c0: "mk_hand_control demo_settings = Inr c0" and cfg: "mk_hand_config demo_settings = Inr cfg" "rc_cfg c0 = cfg"
    "hcf_feedback_rate_hz cfg = (\<lambda>_. Fin 8)"
    using demo_config by (auto simp: mk_hand_control_def)
  have age: "py_round (fmul (Fin (1 / 4)) (Fin 1000000000)) = Inr 250000000"
    using round64_of_int[of 250000000] round_half_even_of_int[of 250000000] by (simp add: py_round_def)
  have period: "register_period cfg r = Inr 125000000" for r
    using round64_of_int[of 125000000] round_half_even_of_int[of 125000000] cfg(3) by (simp add: register_period_def py_round_def)
  have periods: "rmap (register_period (rc_cfg c0)) hand_registers = Inr [125000000, 125000000, 125000000, 125000000, 125000000]"
    by (simp add: cfg(2) period hand_registers_def)
  obtain w where w: "mk_worker c0 None (Some (Fin (1 / 4))) = Inr w"
    by (simp add: mk_worker_def periods setting_or_def age del: fmul.simps)
  then show thesis
    by (intro that[OF c0 w]) (auto simp: mk_worker_def periods setting_or_def age new_schedule_def no_span_def simp del: fmul.simps)
qed


theorem worker_stop_ends_writes_witness:
  "\<exists>w. (let w' = worker_run (\<lambda>x. x) (worker_terminal_stop w ''estop'') [WvStop ''transport'', WvSubmit (replicate 6 (Fin 1)) 5] in
     wk_terminal w' = Some ''estop'' \<and> wk_pending w' = None \<and> rc_position_writes (wk_control w') = rc_position_writes (wk_control w))"
proof -
  obtain w :: worker where w: "wk_terminal w = None" "wk_failure w = None" "wk_inflight w = None" by (rule demo_worker) blast
  define w' where "w' = worker_run (\<lambda>x. x) (worker_terminal_stop w ''estop'') [WvStop ''transport'', WvSubmit (replicate 6 (Fin 1)) 5]"
  have "wk_pending w' = None"
    using w by (simp add: w'_def worker_terminal_stop_def submit_target_def raise_if_failed_def)
  moreover have "''estop'' = (case wk_terminal w of None \<Rightarrow> ''estop'' | Some r \<Rightarrow> r)" using w by simp
  note worker_stop_ends_writes[OF w'_def this]
  ultimately show ?thesis using w by (intro exI[of _ w]) (auto simp: w'_def Let_def)
qed

text \<open>The worker after its start: every register read once at 20 ns.\<close>

definition started_worker :: "worker \<Rightarrow> bool" where
  "started_worker w \<longleftrightarrow>
     (\<forall>r. rsc_last_success_ns (wk_schedule w r) = Some 20 \<and> rsc_next_due_ns (wk_schedule w r) = Some 125000020)
     \<and> (\<forall>r. rsc_period_ns (wk_schedule w r) = 125000000) \<and> wk_running w
     \<and> \<not> wk_active w \<and> wk_inflight w = None \<and> wk_terminal w = None \<and> wk_hold_reason w = ''startup''
     \<and> \<not> cn_relief_pending (rc_contact (wk_control w)) \<and> rc_state (wk_control w) = HandHold
     \<and> rc_transport_state (wk_control w) = ''CONNECTED_READ_ONLY''
     \<and> hca_success_ns (rc_cache (wk_control w)) RegAngle = Some 10 \<and> hcf_stale_timeout_ns (rc_cfg (wk_control w)) = 500000000
     \<and> (\<forall>r. hcf_warning_age_ns (rc_cfg (wk_control w)) r = 250000000)
     \<and> (\<exists>fb. rc_last_feedback (wk_control w) = Some fb \<and> wk_feedback w = Some fb \<and> fbk_monotonic_ns fb = 10)"

lemma demo_started:
  obtains c0 w w' fb where "mk_worker c0 None (Some (Fin (1 / 4))) = Inr w"
    "worker_start (\<lambda>x. x) w OpHandOnly (Inr True) 10 (demo_line (Inr (replicate 6 0))) 20 = (w', Inr fb)" "started_worker w'"
proof -
  obtain c0 w where w: "mk_hand_control demo_settings = Inr c0" "mk_worker c0 None (Some (Fin (1 / 4))) = Inr w" "wk_control w = c0"
    "\<forall>r. rsc_period_ns (wk_schedule w r) = 125000000" "wk_terminal w = None" "wk_inflight w = None" "wk_hold_reason w = ''startup''" "\<not> wk_active w"
    by (rule demo_worker)
  obtain cfg where cfg: "mk_hand_config demo_settings = Inr cfg" "hcf_stale_timeout_ns cfg = 500000000"
    "hcf_calibration cfg = (\<lambda>_. default_rh56_calibration)" "hcf_protocol_order cfg = canonical_hand_order" "\<forall>r. hcf_warning_age_ns cfg r = 250000000"
    using demo_config by auto
  define c1 where "c1 = fst (rc_open c0 OpHandOnly (Inr True))"
  have opened: "rc_open c0 OpHandOnly (Inr True) = (c1, Inr ())" by (simp add: c1_def rc_open_def)
  have c1: "rc_cfg c1 = cfg" "rc_state c1 = HandHold" "rc_transport_state c1 = ''CONNECTED_READ_ONLY''"
    "rc_last_command_normalized c1 = None" "rc_contact c1 = new_contact"
    using w(1) cfg(1) by (auto simp: c1_def mk_hand_control_def rc_open_def)
  define fb where "fb = \<lparr>fbk_monotonic_ns = 10, fbk_position_raw = replicate 6 (Fin 1000), fbk_position_normalized = replicate 6 (Fin 0),
      fbk_current_raw_count = replicate 6 (Fin 0), fbk_load_or_force_raw_count = replicate 6 (Fin 0), fbk_status = replicate 6 0,
      fbk_error = replicate 6 0, fbk_read_latency_ms = Fin 0\<rparr>"
  define c2 where "c2 = store_snapshot c1 fb"
  have c2: "rc_cfg c2 = cfg" "rc_state c2 = HandHold" "rc_transport_state c2 = ''CONNECTED_READ_ONLY''" "rc_last_feedback c2 = Some fb"
    "rc_last_command_normalized c2 = None" "hca_success_ns (rc_cache c2) RegAngle = Some 10" "\<not> cn_relief_pending (rc_contact c2)"
    using c1 by (simp_all add: c2_def store_snapshot_def rc_observe_force_def rc_observe_angle_def fb_def new_contact_def
        observe_contact_angle_def observe_contact_force_def Let_def)
  have raw: "rmap rounded (fbk_position_raw fb) = Inr (replicate 6 1000)"
    using round_half_even_of_int[of 1000] by (simp add: fb_def six_copies rounded_def py_round_def)
  define c3 where "c3 = c2\<lparr>rc_last_command_normalized := Some (replicate 6 (Fin 0)), rc_last_command_raw := Some (replicate 6 1000)\<rparr>"
  have ints: "canonical_ints (\<lambda>x. x) cfg (replicate 6 0) = Inr (replicate 6 0)"
    using canonical_identity[of "replicate 6 (Fin 0)"] cfg(4) by (simp add: canonical_ints_def raw_to_canonical_def six_copies)
  have pos: "rc_normalize (\<lambda>x. x) cfg (replicate 6 (Fin 1000)) = Inr (replicate 6 (Fin 0))"
    using demo_positions[OF cfg(3)] by (simp add: six_copies)
  have "settle_snapshot c2 fb 0 = (c3, Inr fb)"
    using settle_fine[of fb c2] c2 cfg(2) raw by (simp add: fb_def adopting_def adopt_position_def c3_def)
  then have poll: "poll_feedback (\<lambda>x. x) c1 10 (Inr (replicate 6 (Fin 1000))) (Inr (replicate 6 (Fin 0))) (Inr (replicate 6 (Fin 0)))
      (Inr (replicate 6 0)) (Inr (replicate 6 0)) 0 = (c3, Inr fb)"
    using c1 by (simp add: poll_feedback_def rc_closed_def lift_exn_def ints pos Let_def ns_to_ms_def fb_def c2_def)
  define w' where "w' = fst (worker_start (\<lambda>x. x) w OpHandOnly (Inr True) 10 (demo_line (Inr (replicate 6 0))) 20)"
  have st: "worker_start (\<lambda>x. x) w OpHandOnly (Inr True) 10 (demo_line (Inr (replicate 6 0))) 20 = (w', Inr fb)"
    by (simp add: w'_def worker_start_def w(3) opened poll demo_line_def Let_def)
  have "started_worker w'"
    using w c2 cfg by (simp add: w'_def worker_start_def opened poll demo_line_def started_worker_def c3_def note_feedback_def Let_def
        publish_feedback_def) (simp add: fb_def)
  with w(2) st show thesis by (rule that)
qed



end
