(* ===== verification/EpisodeData.thy ===== *)
theory EpisodeData
  imports Timeline
begin

text \<open>
  The records of an episode, the start gate and the staging writer of \<open>src/episode_dataset/episode.py\<close>. Image
  arrays, JSON text and paths are not modelled; what the file system answered to an operation is an
  argument, \<open>None\<close> for success or the exception. The rows a writer has appended are kept in order.
\<close>

section \<open>Data\<close>

datatype camera_role = Workspace | Wrist

datatype episode_error =
    EpValue string | EpRuntime string | EpOS string | EpType string | EpUnavailable camera_role | EpKey | EpTimeout | EpOther

text \<open>\<open>except (OSError, ValueError)\<close>.\<close>

fun is_data_error :: "episode_error \<Rightarrow> bool" where
  "is_data_error (EpValue _) = True"
| "is_data_error (EpOS _) = True"
| "is_data_error _ = False"

datatype episode_status = EpCompleted | EpAborted | EpInvalid

datatype camera_store = RingRef int | OwnFrame "int option"

record camera_record =
  cam_role :: camera_role
  cam_host_ns :: int
  cam_rgb_ms :: pyfloat
  cam_depth_ms :: pyfloat
  cam_rgb_number :: int
  cam_depth_number :: int
  cam_rgb_domain :: string
  cam_depth_domain :: string
  cam_store :: camera_store

record control_sample =
  cs_host_ns :: int
  cs_accepted_q :: "pyfloat list option"
  cs_measured_q :: "pyfloat list option"
  cs_measured_dq :: "pyfloat list option"
  cs_tcp_pose :: "pyfloat list option"
  cs_hand_observation :: "pyfloat list option"
  cs_hand_source :: string
  cs_hand_target :: "pyfloat list option"
  cs_arm_trigger :: bool
  cs_hand_grip :: bool
  cs_q_source :: string
  cs_dq_source :: string
  cs_tcp_source :: string
  cs_action_status :: string
  cs_action_source :: string
  cs_segment_id :: int
  cs_segment_mode :: string
  cs_target_sequence :: "int option"
  cs_reference_generation :: "int option"
  cs_source_ns :: "(string \<times> int option) list"
  cs_source_domains :: "(string \<times> string) list"
  cs_heartbeat_valid :: bool
  cs_tracking_fault :: bool
  cs_controller_fault :: bool
  cs_force :: "pyfloat list option"

definition six_values :: "pyfloat list option \<Rightarrow> string \<Rightarrow> (episode_error, unit) res" where
  "six_values values name =
     (case values of None \<Rightarrow> Inr ()
      | Some vs \<Rightarrow> require (length vs = 6 \<and> list_all is_finite vs) (EpValue name))"

definition provenances :: "string list" where
  "provenances = [''measured'', ''commanded'', ''estimated'', ''unavailable'']"

definition check_control_sample :: "control_sample \<Rightarrow> (episode_error, unit) res" where
  "check_control_sample s =
     rbind (six_values (cs_accepted_q s) ''accepted_arm_q'') (\<lambda>_.
     rbind (six_values (cs_measured_q s) ''arm_q_measured'') (\<lambda>_.
     rbind (six_values (cs_measured_dq s) ''arm_dq_measured'') (\<lambda>_.
     rbind (six_values (cs_hand_observation s) ''hand_observation'') (\<lambda>_.
     rbind (six_values (cs_hand_target s) ''hand_target'') (\<lambda>_.
     rbind (six_values (cs_force s) ''force_observation'') (\<lambda>_.
     rbind (case cs_tcp_pose s of None \<Rightarrow> Inr ()
            | Some p \<Rightarrow> require (length p = 7 \<and> list_all is_finite p) (EpValue ''tcp_pose_xyzw'')) (\<lambda>_.
     rbind (require (cs_hand_source s \<in> set provenances) (EpValue ''hand_source'')) (\<lambda>_.
     rbind (require (set [cs_q_source s, cs_dq_source s, cs_tcp_source s] \<subseteq> set provenances) (EpValue ''arm_source'')) (\<lambda>_.
     rbind (require (cs_action_status s \<in> {''accepted'', ''held_rejected''}) (EpValue ''arm_action_status'')) (\<lambda>_.
     rbind (require (cs_action_source s \<in> {''accepted_target'', ''measured_hold_reference''}) (EpValue ''arm_action_source'')) (\<lambda>_.
     rbind (require (0 \<le> cs_segment_id s) (EpValue ''control_segment_id'')) (\<lambda>_.
     require (cs_segment_mode s \<in> {''both_idle'', ''arm_only'', ''hand_only'', ''arm_and_hand''})
       (EpValue ''control_segment_mode'')))))))))))))"

section \<open>The start gate\<close>

record start_prerequisites =
  sq_press_ns :: int
  sq_reference :: bool
  sq_accepted :: control_sample
  sq_workspace :: camera_record
  sq_wrist :: camera_record
  sq_maximum_delta :: pyfloat
  sq_maximum_hand_delta :: pyfloat

fun list_fmax :: "pyfloat list \<Rightarrow> pyfloat" where
  "list_fmax [] = NegInf"
| "list_fmax (x # xs) = fold (\<lambda>y m. fmax m y) xs x"

definition continuity_delta :: "pyfloat list \<Rightarrow> pyfloat list \<Rightarrow> pyfloat" where
  "continuity_delta target measured = list_fmax (map2 (\<lambda>a b. fabs (fsub a b)) target measured)"

definition camera_gate :: "start_prerequisites \<Rightarrow> int \<Rightarrow> camera_record \<Rightarrow> (episode_error, unit) res" where
  "camera_gate p camera_max_age_ns c =
     rbind (require (sq_press_ns p \<le> cam_host_ns c) (EpValue ''camera_predates_press'')) (\<lambda>_.
     let age_ns = cs_host_ns (sq_accepted p) - cam_host_ns c in
     require (0 \<le> age_ns \<and> age_ns \<le> camera_max_age_ns) (EpValue ''camera_not_fresh''))"

definition present :: "'a option \<Rightarrow> string \<Rightarrow> (episode_error, 'a) res" where
  "present v name = (case v of None \<Rightarrow> Inl (EpValue name) | Some x \<Rightarrow> Inr x)"

definition validate_start :: "start_prerequisites \<Rightarrow> int \<Rightarrow> (episode_error, unit) res" where
  "validate_start p camera_max_age_ns =
     (let a = sq_accepted p in
      rbind (require (sq_reference p) (EpValue ''reference'')) (\<lambda>_.
      rbind (present (cs_accepted_q a) ''accepted_arm_q'') (\<lambda>q.
      rbind (present (cs_measured_q a) ''arm_q_measured'') (\<lambda>m.
      rbind (present (cs_measured_dq a) ''arm_dq_measured'') (\<lambda>_.
      rbind (present (cs_tcp_pose a) ''tcp_pose_xyzw'') (\<lambda>_.
      rbind (require (cs_arm_trigger a) (EpValue ''arm_trigger'')) (\<lambda>_.
      rbind (require (\<not> flt (sq_maximum_delta p) (continuity_delta q m)) (EpValue ''continuity'')) (\<lambda>_.
      rbind (present (cs_hand_target a) ''hand_target'') (\<lambda>ht.
      rbind (present (cs_hand_observation a) ''hand_observation'') (\<lambda>ho.
      rbind (require (\<not> flt (sq_maximum_hand_delta p) (continuity_delta ht ho)) (EpValue ''hand_continuity'')) (\<lambda>_.
      rbind (camera_gate p camera_max_age_ns (sq_workspace p)) (\<lambda>_.
      camera_gate p camera_max_age_ns (sq_wrist p)))))))))))))"

section \<open>Canonical samples and quality rows\<close>

record canonical_sample =
  cn_frame_index :: int
  cn_timestamp_ns :: int
  cn_control :: control_sample
  cn_workspace :: camera_record
  cn_wrist :: camera_record
  cn_offsets_ns :: "(string \<times> int) list"
  cn_synchronized :: bool
  cn_nominal_slot :: "int option"
  cn_missed_before :: int
  cn_missed_after :: int
  cn_repeated :: "camera_role list"

definition camera_of_role :: "canonical_sample \<Rightarrow> camera_role \<Rightarrow> camera_record" where
  "camera_of_role s r = (case r of Workspace \<Rightarrow> cn_workspace s | Wrist \<Rightarrow> cn_wrist s)"

record role_quality =
  rq_valid :: bool
  rq_age_ns :: "int option"
  rq_sequence :: "int option"
  rq_reason :: "string option"

record quality_row =
  ql_timestamp_ns :: int
  ql_slot :: "int option"
  ql_reason :: string
  ql_control_ns :: int
  ql_missing :: "string list"
  ql_roles :: "(camera_role \<times> role_quality) list"

definition ring_sequence_of :: "camera_record \<Rightarrow> int option" where
  "ring_sequence_of c = (case cam_store c of RingRef s \<Rightarrow> Some s | OwnFrame _ \<Rightarrow> None)"

section \<open>The staging writer\<close>

type_synonym camera_id = "camera_role \<times> int \<times> int \<times> int option"

definition camera_key :: "camera_record \<Rightarrow> camera_id" where
  "camera_key c = (cam_role c, cam_rgb_number c, cam_depth_number c, case cam_store c of RingRef s \<Rightarrow> Some s | OwnFrame s \<Rightarrow> s)"

record episode_writer =
  ew_fps :: int
  ew_started :: bool
  ew_finalized :: bool
  ew_count :: int
  ew_start_ns :: "int option"
  ew_last_ns :: "int option"
  ew_press_ns :: "int option"
  ew_missed :: int
  ew_raw_keys :: "camera_id list"
  ew_raw_paths :: "camera_id list"
  ew_rows :: "canonical_sample list"
  ew_raw_rows :: nat
  ew_status :: "episode_status option"
  ew_reason :: string

definition new_episode_writer :: "int \<Rightarrow> episode_writer" where
  "new_episode_writer fps = \<lparr>ew_fps = fps, ew_started = False, ew_finalized = False, ew_count = 0, ew_start_ns = None,
     ew_last_ns = None, ew_press_ns = None, ew_missed = 0, ew_raw_keys = [], ew_raw_paths = [], ew_rows = [],
     ew_raw_rows = 0, ew_status = None, ew_reason = ''''\<rparr>"

definition io_result :: "episode_error option \<Rightarrow> (episode_error, unit) res" where
  "io_result io = (case io of None \<Rightarrow> Inr () | Some e \<Rightarrow> Inl e)"

text \<open>\<open>begin\<close>: the calibration and directory checks are the file system's; \<open>made\<close> is the creation of the tree.\<close>

definition ew_begin ::
  "episode_writer \<Rightarrow> start_prerequisites \<Rightarrow> int \<Rightarrow> episode_error option \<Rightarrow> episode_error option
     \<Rightarrow> episode_writer \<times> (episode_error, unit) res" where
  "ew_begin w p camera_max_age_ns made metadata_io =
     (if ew_started w then (w, Inl (EpRuntime ''episode already started''))
      else case rbind (validate_start p camera_max_age_ns) (\<lambda>_. io_result made) of
        Inl e \<Rightarrow> (w, Inl e)
      | Inr _ \<Rightarrow> (w\<lparr>ew_started := True, ew_start_ns := Some (cs_host_ns (sq_accepted p)), ew_press_ns := Some (sq_press_ns p)\<rparr>,
                  io_result metadata_io))"

definition ew_active :: "episode_writer \<Rightarrow> (episode_error, unit) res" where
  "ew_active w = require (ew_started w \<and> \<not> ew_finalized w) (EpRuntime ''no active episode'')"

definition ew_append_raw :: "episode_writer \<Rightarrow> episode_error option \<Rightarrow> episode_writer \<times> (episode_error, unit) res" where
  "ew_append_raw w io =
     (case rbind (ew_active w) (\<lambda>_. io_result io) of
        Inl e \<Rightarrow> (w, Inl e) | Inr _ \<Rightarrow> (w\<lparr>ew_raw_rows := ew_raw_rows w + 1\<rparr>, Inr ()))"

fun ew_append_raw_batch :: "episode_writer \<Rightarrow> episode_error option list \<Rightarrow> episode_writer \<times> (episode_error, unit) res" where
  "ew_append_raw_batch w [] = (w, Inr ())"
| "ew_append_raw_batch w (io # ios) =
     (case ew_append_raw w io of (w1, Inl e) \<Rightarrow> (w1, Inl e) | (w1, Inr _) \<Rightarrow> ew_append_raw_batch w1 ios)"

text \<open>The outcomes of one camera: taking the frame out of the ring, saving the arrays, the row of the raw stream.\<close>

record camera_io =
  ci_frame :: "episode_error option"
  ci_save :: "episode_error option"
  ci_row :: "episode_error option"

definition save_raw_camera :: "episode_writer \<Rightarrow> camera_record \<Rightarrow> camera_io \<Rightarrow> episode_writer \<times> (episode_error, unit) res" where
  "save_raw_camera w c io =
     (if camera_key c \<in> set (ew_raw_keys w) then (w, Inr ())
      else let w1 = w\<lparr>ew_raw_keys := camera_key c # ew_raw_keys w\<rparr> in
        case io_result (ci_save io) of
          Inl e \<Rightarrow> (w1, Inl e)
        | Inr _ \<Rightarrow> ew_append_raw (w1\<lparr>ew_raw_paths := camera_key c # ew_raw_paths w1\<rparr>) (ci_row io))"

definition ew_append_raw_camera :: "episode_writer \<Rightarrow> camera_record \<Rightarrow> camera_io \<Rightarrow> episode_writer \<times> (episode_error, unit) res" where
  "ew_append_raw_camera w c io =
     (case rbind (ew_active w) (\<lambda>_. io_result (ci_frame io)) of
        Inl e \<Rightarrow> (w, Inl e) | Inr _ \<Rightarrow> save_raw_camera w c io)"

text \<open>The canonical view of a frame links the raw file, which is written first if it is not there.\<close>

definition write_camera_sample ::
  "episode_writer \<Rightarrow> camera_record \<Rightarrow> camera_io \<Rightarrow> episode_error option \<Rightarrow> episode_writer \<times> (episode_error, unit) res" where
  "write_camera_sample w c io link_io =
     (if camera_key c \<in> set (ew_raw_paths w) then (w, io_result link_io)
      else case ew_append_raw_camera w c io of
        (w1, Inl e) \<Rightarrow> (w1, Inl e)
      | (w1, Inr _) \<Rightarrow> if camera_key c \<in> set (ew_raw_paths w1) then (w1, io_result link_io) else (w1, Inl EpKey))"

record sample_io =
  si_frames :: "episode_error option"
  si_workspace :: camera_io
  si_workspace_link :: "episode_error option"
  si_wrist :: camera_io
  si_wrist_link :: "episode_error option"
  si_row :: "episode_error option"

definition effective_slot :: "canonical_sample \<Rightarrow> int" where
  "effective_slot s = (case cn_nominal_slot s of None \<Rightarrow> cn_frame_index s | Some n \<Rightarrow> n)"

definition check_sample :: "episode_writer \<Rightarrow> canonical_sample \<Rightarrow> (episode_error, unit) res" where
  "check_sample w s =
     rbind (ew_active w) (\<lambda>_.
     rbind (require (cn_frame_index s = ew_count w) (EpValue ''frame_index'')) (\<lambda>_.
     rbind (require (case ew_last_ns w of None \<Rightarrow> True | Some t \<Rightarrow> t < cn_timestamp_ns s) (EpValue ''timestamp'')) (\<lambda>_.
     rbind (require (cn_synchronized s) (EpValue ''synchronization'')) (\<lambda>_.
     rbind (require (0 \<le> cn_missed_before s \<and> 0 \<le> cn_missed_after s) (EpValue ''missed'')) (\<lambda>_.
     require (cn_frame_index s \<le> effective_slot s) (EpValue ''nominal_slot''))))))"

definition ew_append_sample :: "episode_writer \<Rightarrow> canonical_sample \<Rightarrow> sample_io \<Rightarrow> episode_writer \<times> (episode_error, unit) res" where
  "ew_append_sample w s io =
     (case rbind (check_sample w s) (\<lambda>_. io_result (si_frames io)) of
        Inl e \<Rightarrow> (w, Inl e)
      | Inr _ \<Rightarrow>
          (case write_camera_sample w (cn_workspace s) (si_workspace io) (si_workspace_link io) of
             (w1, Inl e) \<Rightarrow> (w1, Inl e)
           | (w1, Inr _) \<Rightarrow>
               (case write_camera_sample w1 (cn_wrist s) (si_wrist io) (si_wrist_link io) of
                  (w2, Inl e) \<Rightarrow> (w2, Inl e)
                | (w2, Inr _) \<Rightarrow>
                    (case io_result (si_row io) of
                       Inl e \<Rightarrow> (w2, Inl e)
                     | Inr _ \<Rightarrow> (w2\<lparr>ew_last_ns := Some (cn_timestamp_ns s), ew_missed := ew_missed w2 + cn_missed_after s,
                                    ew_count := ew_count w2 + 1, ew_rows := ew_rows w2 @ [s]\<rparr>, Inr ())))))"

text \<open>The validation reads the rows back: frame index, time stamp and whether the image files of the row are there.\<close>

type_synonym stored_row = "int \<times> int \<times> bool"

fun row_errors :: "int \<Rightarrow> int option \<Rightarrow> stored_row list \<Rightarrow> string list" where
  "row_errors i previous [] = []"
| "row_errors i previous ((index, t, files) # rows) =
     (if index \<noteq> i then [''frame_index''] else [])
     @ (case previous of None \<Rightarrow> [] | Some p \<Rightarrow> if t \<le> p then [''timestamp''] else [])
     @ (if files then [] else [''files'']) @ row_errors (i + 1) (Some t) rows"

definition validate_staging :: "episode_writer \<Rightarrow> stored_row list \<Rightarrow> string list" where
  "validate_staging w rows =
     (if int (length rows) \<noteq> ew_count w then [''sample_count''] else []) @ row_errors 0 None rows"

record finalize_io =
  fi_rows :: "stored_row list"
  fi_handles :: "episode_error option"
  fi_metadata_failed :: bool
  fi_publish :: "episode_error option"

definition final_status :: "episode_status \<Rightarrow> bool \<Rightarrow> bool \<Rightarrow> episode_status" where
  "final_status status valid metadata_failed =
     (let s1 = (if status = EpCompleted \<and> \<not> valid then EpInvalid else status) in
      if metadata_failed \<and> s1 = EpCompleted then EpInvalid else s1)"

definition final_reason :: "episode_status \<Rightarrow> string \<Rightarrow> bool \<Rightarrow> bool \<Rightarrow> string" where
  "final_reason status reason valid metadata_failed =
     (if status = EpCompleted \<and> \<not> valid then ''final_validation_failed''
      else if status = EpCompleted \<and> metadata_failed then ''final_metadata_snapshot_failed'' else reason)"

definition ew_finalize ::
  "episode_writer \<Rightarrow> episode_status \<Rightarrow> string \<Rightarrow> finalize_io \<Rightarrow> episode_writer \<times> (episode_error, unit) res" where
  "ew_finalize w status reason io =
     (case rbind (ew_active w) (\<lambda>_. rbind (require (\<not> (status = EpCompleted \<and> ew_count w = 0)) (EpValue ''empty episode''))
             (\<lambda>_. io_result (fi_handles io))) of
        Inl e \<Rightarrow> (w, Inl e)
      | Inr _ \<Rightarrow>
          (let valid = (validate_staging w (fi_rows io) = []) in
           case io_result (fi_publish io) of
             Inl e \<Rightarrow> (w, Inl e)
           | Inr _ \<Rightarrow> (w\<lparr>ew_finalized := True, ew_status := Some (final_status status valid (fi_metadata_failed io)),
                          ew_reason := final_reason status reason valid (fi_metadata_failed io)\<rparr>, Inr ())))"

definition ew_discard :: "episode_writer \<Rightarrow> string \<Rightarrow> episode_error option \<Rightarrow> episode_error option
     \<Rightarrow> episode_writer \<times> (episode_error, unit) res" where
  "ew_discard w reason removed reported =
     (case io_result removed of
        Inl e \<Rightarrow> (w, Inl e)
      | Inr _ \<Rightarrow> (w\<lparr>ew_started := False, ew_rows := (if ew_finalized w then ew_rows w else [])\<rparr>,
                  io_result reported))"

section \<open>What the writer keeps\<close>

definition rows_ok :: "episode_writer \<Rightarrow> bool" where
  "rows_ok w \<longleftrightarrow> map cn_frame_index (ew_rows w) = map int [0..<length (ew_rows w)]
     \<and> sorted_wrt (<) (map cn_timestamp_ns (ew_rows w)) \<and> ew_count w = int (length (ew_rows w))
     \<and> ew_last_ns w = (if ew_rows w = [] then None else Some (cn_timestamp_ns (last (ew_rows w))))"

lemma rows_ok_new: "rows_ok (new_episode_writer fps)"
  by (simp add: rows_ok_def new_episode_writer_def)

text \<open>The stages of an appended camera touch the raw layer only.\<close>

definition same_rows :: "episode_writer \<Rightarrow> episode_writer \<Rightarrow> bool" where
  "same_rows w w' \<longleftrightarrow> ew_rows w' = ew_rows w \<and> ew_count w' = ew_count w \<and> ew_last_ns w' = ew_last_ns w
     \<and> ew_started w' = ew_started w \<and> ew_finalized w' = ew_finalized w \<and> ew_status w' = ew_status w \<and> ew_reason w' = ew_reason w
     \<and> ew_missed w' = ew_missed w"

lemma same_rows_refl [simp]: "same_rows w w"
  by (simp add: same_rows_def)

lemma same_rows_trans: "same_rows a b \<Longrightarrow> same_rows b c \<Longrightarrow> same_rows a c"
  by (simp add: same_rows_def)

lemma same_rows_parts [simp]:
  "same_rows w (v\<lparr>ew_raw_keys := ks\<rparr>) = same_rows w v" "same_rows w (v\<lparr>ew_raw_paths := ks\<rparr>) = same_rows w v"
  "same_rows w (v\<lparr>ew_raw_rows := n\<rparr>) = same_rows w v"
  by (simp_all add: same_rows_def)

lemma append_raw_rows: "same_rows w (fst (ew_append_raw w io))"
  by (simp add: ew_append_raw_def split: sum.split)

lemma append_raw_keeps: "same_rows v w \<Longrightarrow> same_rows v (fst (ew_append_raw w io))"
  using append_raw_rows same_rows_trans by blast

lemma append_raw_batch_rows: "same_rows w (fst (ew_append_raw_batch w ios))"
proof (induction ios arbitrary: w)
  case (Cons io ios)
  obtain w1 r where a: "ew_append_raw w io = (w1, r)" by fastforce
  have "same_rows w w1" using append_raw_rows[of w io] a by simp
  with a Cons.IH[of w1] show ?case by (cases r) (auto intro: same_rows_trans)
qed simp

lemma append_raw_camera_rows: "same_rows w (fst (ew_append_raw_camera w c io))"
  by (simp add: ew_append_raw_camera_def save_raw_camera_def append_raw_keeps Let_def split: sum.split)

lemma write_camera_rows: "same_rows w (fst (write_camera_sample w c io link))"
  using append_raw_camera_rows[of w c io] by (auto simp: write_camera_sample_def split: prod.split sum.split)

lemma append_sample_cases:
  assumes "ew_append_sample w s io = (w', r)"
  obtains (refused) e where "same_rows w w'" "r = Inl e"
  | (written) "r = Inr ()" "check_sample w s = Inr ()" "ew_rows w' = ew_rows w @ [s]" "ew_count w' = ew_count w + 1"
      "ew_last_ns w' = Some (cn_timestamp_ns s)" "ew_started w' = ew_started w" "ew_finalized w' = ew_finalized w"
      "ew_status w' = ew_status w" "ew_missed w' = ew_missed w + cn_missed_after s"
proof (cases "rbind (check_sample w s) (\<lambda>_. io_result (si_frames io))")
  case (Inl e)
  with assms have "w' = w" "r = Inl e" by (simp_all add: ew_append_sample_def)
  then show thesis by (intro refused) simp_all
next
  case (Inr u)
  then have chk: "check_sample w s = Inr ()" by simp
  obtain w1 r1 where a: "write_camera_sample w (cn_workspace s) (si_workspace io) (si_workspace_link io) = (w1, r1)" by fastforce
  have k1: "same_rows w w1" using write_camera_rows[of w] a by (metis fst_conv)
  obtain w2 r2 where b: "write_camera_sample w1 (cn_wrist s) (si_wrist io) (si_wrist_link io) = (w2, r2)" by fastforce
  have k2: "same_rows w w2" using write_camera_rows[of w1] b same_rows_trans[OF k1] by (metis fst_conv)
  show thesis
  proof (cases "r1 = Inr () \<and> r2 = Inr () \<and> si_row io = None")
    case True
    with assms Inr a b k2 chk show thesis
      by (intro written) (auto simp: ew_append_sample_def io_result_def same_rows_def)
  next
    case False
    with assms Inr a b k1 k2 show thesis
      by (cases r1; cases r2) (auto simp: ew_append_sample_def io_result_def split: option.split_asm intro: refused)
  qed
qed

lemma rows_ok_same: "same_rows w w' \<Longrightarrow> rows_ok w \<Longrightarrow> rows_ok w'"
  by (simp add: same_rows_def rows_ok_def)

lemma rows_ok_append_sample:
  assumes "rows_ok w" and "ew_append_sample w s io = (w', r)"
  shows "rows_ok w'"
  using assms(2)
proof (cases rule: append_sample_cases)
  case refused
  with assms(1) rows_ok_same show ?thesis by blast
next
  case written
  have "cn_frame_index s = ew_count w" "case ew_last_ns w of None \<Rightarrow> True | Some t \<Rightarrow> t < cn_timestamp_ns s"
    using written(2) by (auto simp: check_sample_def)
  with assms(1) written(3-5) show ?thesis
    by (cases "ew_rows w" rule: rev_cases) (auto simp: rows_ok_def sorted_wrt_append)
qed

text \<open>What is read back of the rows of a writer, when the disk keeps them.\<close>

definition stored_rows :: "episode_writer \<Rightarrow> stored_row list" where
  "stored_rows w = map (\<lambda>s. (cn_frame_index s, cn_timestamp_ns s, True)) (ew_rows w)"

lemma row_errors_none:
  assumes "map fst rows = map int [n..<n + length rows]" and "sorted_wrt (<) (map (fst \<circ> snd) rows)"
    and "\<forall>row \<in> set rows. snd (snd row)" and "\<forall>p row. previous = Some p \<and> row \<in> set rows \<longrightarrow> p < fst (snd row)"
  shows "row_errors (int n) previous rows = []"
  using assms
proof (induction rows arbitrary: n previous)
  case (Cons row rows)
  obtain index t files where row: "row = (index, t, files)" by (cases row) auto
  have idx: "index = int n" "map fst rows = map int [Suc n..<Suc n + length rows]"
    using Cons.prems(1) upt_conv_Cons[of n "n + length (row # rows)"] by (simp_all add: row del: upt_Suc)
  have "row_errors (int (Suc n)) (Some t) rows = []"
    using Cons.prems(2,3) by (intro Cons.IH[OF idx(2)]) (auto simp: row)
  moreover have "\<forall>p. previous = Some p \<longrightarrow> p < t" using Cons.prems(4) by (metis row fst_conv snd_conv list.set_intros(1))
  ultimately show ?case using idx(1) Cons.prems(3) by (auto simp: row add.commute split: option.split)
qed simp

lemma validation_of_stored_rows: "rows_ok w \<Longrightarrow> validate_staging w (stored_rows w) = []"
  using row_errors_none[of "stored_rows w" 0 None]
  by (simp add: validate_staging_def rows_ok_def stored_rows_def comp_def)

end
