(* ===== verification/AsyncWriter.thy ===== *)
theory AsyncWriter
  imports EpisodeData
begin

text \<open>
  The bounded queue between the recording threads and the staging writer, \<open>AsyncEpisodeWriter\<close> of
  \<open>src/episode_dataset/async_writer.py\<close>. The producer side never blocks: a full queue drops the newest item. The
  worker takes items in batches and executes them in order on the staging writer of \<open>EpisodeData\<close>; the answers
  of the file system and of the camera rings are arguments. Two fields record history: every accepted item,
  and every executed item with its fate.
\<close>

section \<open>State\<close>

datatype work =
    DoBegin start_prerequisites int | DoRaw string | DoRawBatch "string list" | DoRawCamera camera_record
  | DoSample canonical_sample

datatype work_method = MBegin | MRaw | MRawBatch | MRawCamera | MSample

fun method_of :: "work \<Rightarrow> work_method" where
  "method_of (DoBegin _ _) = MBegin"
| "method_of (DoRaw _) = MRaw"
| "method_of (DoRawBatch _) = MRawBatch"
| "method_of (DoRawCamera _) = MRawCamera"
| "method_of (DoSample _) = MSample"

datatype terminal = TFinalize episode_status string | TDiscard string

datatype item = Work work | Terminal terminal | StopItem

datatype fate = Written | Expired | Failed | Skipped

record async_counts =
  acn_enqueued :: nat
  acn_completed :: nat
  acn_max_depth :: nat
  acn_overflow :: nat
  acn_drops :: nat
  acn_ring_expired :: nat
  acn_errors :: nat
  acn_enqueued_by :: "work_method \<Rightarrow> nat"
  acn_written_by :: "work_method \<Rightarrow> nat"
  acn_dropped_by :: "work_method \<Rightarrow> nat"

record async_writer =
  aw_writer :: episode_writer
  aw_capacity :: nat
  aw_batch_size :: nat
  aw_require_refs :: bool
  aw_queue :: "item list"
  aw_batch :: "item list"
  aw_stop :: bool
  aw_alive :: bool
  aw_error :: "episode_error option"
  aw_closed :: bool
  aw_begin_failed :: bool
  aw_samples :: nat
  aw_start_ns :: "int option"
  aw_counts :: async_counts
  aw_result :: "(episode_error, unit) res option"
  aw_quality :: "quality_row list"
  aw_accepted :: "work list"
  aw_log :: "(work \<times> fate) list"
  aw_final_mark :: "nat option"

definition no_async_counts :: async_counts where
  "no_async_counts = \<lparr>acn_enqueued = 0, acn_completed = 0, acn_max_depth = 0, acn_overflow = 0, acn_drops = 0,
     acn_ring_expired = 0, acn_errors = 0, acn_enqueued_by = (\<lambda>_. 0), acn_written_by = (\<lambda>_. 0), acn_dropped_by = (\<lambda>_. 0)\<rparr>"

definition mk_async_writer ::
  "episode_writer \<Rightarrow> int \<Rightarrow> int \<Rightarrow> pyfloat \<Rightarrow> pyfloat \<Rightarrow> bool \<Rightarrow> (episode_error, async_writer) res" where
  "mk_async_writer w capacity batch_size flush_interval_s shutdown_timeout_s require_refs =
     rbind (require (0 < capacity) (EpValue ''capacity'')) (\<lambda>_.
     rbind (require (0 < batch_size) (EpValue ''batch size'')) (\<lambda>_.
     rbind (require (\<not> fle flush_interval_s (Fin 0) \<and> \<not> fle shutdown_timeout_s (Fin 0)) (EpValue ''intervals'')) (\<lambda>_.
     Inr \<lparr>aw_writer = w, aw_capacity = nat capacity, aw_batch_size = nat batch_size, aw_require_refs = require_refs,
          aw_queue = [], aw_batch = [], aw_stop = False, aw_alive = True, aw_error = None, aw_closed = False,
          aw_begin_failed = False, aw_samples = 0, aw_start_ns = None, aw_counts = no_async_counts, aw_result = None,
          aw_quality = [], aw_accepted = [], aw_log = [], aw_final_mark = None\<rparr>)))"

section \<open>The producer side\<close>

definition aw_full :: "async_writer \<Rightarrow> bool" where
  "aw_full a \<longleftrightarrow> aw_capacity a \<le> length (aw_queue a)"

definition bump :: "work_method \<Rightarrow> (work_method \<Rightarrow> nat) \<Rightarrow> work_method \<Rightarrow> nat" where
  "bump m f = f(m := f m + 1)"

definition aw_drop :: "async_writer \<Rightarrow> work \<Rightarrow> async_writer" where
  "aw_drop a x =
     (let n = aw_counts a in
      a\<lparr>aw_counts := n\<lparr>acn_overflow := acn_overflow n + 1, acn_drops := acn_drops n + 1,
          acn_dropped_by := bump (method_of x) (acn_dropped_by n)\<rparr>\<rparr>)"

definition aw_push :: "async_writer \<Rightarrow> work \<Rightarrow> async_writer" where
  "aw_push a x =
     (let n = aw_counts a; q = aw_queue a @ [Work x] in
      a\<lparr>aw_queue := q, aw_accepted := aw_accepted a @ [x],
        aw_counts := n\<lparr>acn_enqueued := acn_enqueued n + 1, acn_enqueued_by := bump (method_of x) (acn_enqueued_by n),
          acn_max_depth := max (acn_max_depth n) (length q)\<rparr>\<rparr>)"

definition aw_enqueue :: "async_writer \<Rightarrow> work \<Rightarrow> async_writer \<times> (episode_error, bool) res" where
  "aw_enqueue a x =
     (if aw_error a \<noteq> None then (a, Inl (EpOS ''episode writer worker failed''))
      else if aw_closed a then (a, Inl (EpOS ''episode writer is closed''))
      else if aw_full a then (aw_drop a x, Inr False)
      else (aw_push a x, Inr True))"

definition aw_begin :: "async_writer \<Rightarrow> start_prerequisites \<Rightarrow> int \<Rightarrow> async_writer \<times> (episode_error, unit) res" where
  "aw_begin a p camera_max_age_ns =
     (case validate_start p camera_max_age_ns of
        Inl e \<Rightarrow> (a, Inl e)
      | Inr _ \<Rightarrow>
          (case aw_enqueue (a\<lparr>aw_start_ns := Some (cs_host_ns (sq_accepted p))\<rparr>) (DoBegin p camera_max_age_ns) of
             (a1, Inl e) \<Rightarrow> (a1, Inl e)
           | (a1, Inr ok) \<Rightarrow> (a1, if ok then Inr () else Inl (EpOS ''episode writer queue is full during begin''))))"

definition is_ring_ref :: "camera_record \<Rightarrow> bool" where
  "is_ring_ref c \<longleftrightarrow> (case cam_store c of RingRef _ \<Rightarrow> True | OwnFrame _ \<Rightarrow> False)"

definition aw_append_raw_camera :: "async_writer \<Rightarrow> camera_record \<Rightarrow> async_writer \<times> (episode_error, bool) res" where
  "aw_append_raw_camera a c =
     (if aw_require_refs a \<and> \<not> is_ring_ref c then (a, Inl (EpType ''camera ring reference'')) else aw_enqueue a (DoRawCamera c))"

definition aw_append_sample :: "async_writer \<Rightarrow> canonical_sample \<Rightarrow> async_writer \<times> (episode_error, bool) res" where
  "aw_append_sample a s =
     (if aw_require_refs a \<and> \<not> (is_ring_ref (cn_workspace s) \<and> is_ring_ref (cn_wrist s))
      then (a, Inl (EpType ''camera ring references''))
      else case aw_enqueue a (DoSample s) of
        (a1, Inr True) \<Rightarrow> (a1\<lparr>aw_samples := aw_samples a1 + 1\<rparr>, Inr True)
      | (a1, r) \<Rightarrow> (a1, r))"

text \<open>A terminal call: the request enters the queue behind everything accepted, then the caller waits for its result.\<close>

definition aw_request :: "async_writer \<Rightarrow> terminal \<Rightarrow> async_writer \<times> (episode_error, unit) res" where
  "aw_request a t =
     (if aw_full a then (a, Inl EpTimeout) else (a\<lparr>aw_queue := aw_queue a @ [Terminal t], aw_result := None\<rparr>, Inr ()))"

definition aw_finalize :: "async_writer \<Rightarrow> episode_status \<Rightarrow> string \<Rightarrow> async_writer \<times> (episode_error, unit) res" where
  "aw_finalize a status reason =
     aw_request a (if aw_error a \<noteq> None then TFinalize EpAborted ''async_data_write_failure'' else TFinalize status reason)"

definition aw_await :: "async_writer \<Rightarrow> async_writer \<times> (episode_error, unit) res" where
  "aw_await a =
     (case aw_result a of
        Some r \<Rightarrow> (a, r)
      | None \<Rightarrow> (if aw_full a then a else a\<lparr>aw_queue := aw_queue a @ [StopItem], aw_closed := True\<rparr>, Inl EpTimeout))"

definition aw_close_worker :: "async_writer \<Rightarrow> async_writer \<times> (episode_error, unit) res" where
  "aw_close_worker a =
     (if aw_closed a then (a, Inr ())
      else if aw_full a then (a\<lparr>aw_closed := True\<rparr>, Inl EpTimeout)
      else (a\<lparr>aw_closed := True, aw_queue := aw_queue a @ [StopItem]\<rparr>, Inr ()))"

definition aw_close :: "async_writer \<Rightarrow> async_writer \<times> (episode_error, unit) res" where
  "aw_close a =
     (if aw_closed a then (a, Inr ())
      else if aw_start_ns a \<noteq> None then (a, Inl (EpRuntime ''active episode''))
      else aw_close_worker a)"

section \<open>The worker\<close>

text \<open>\<open>get\<close> and up to \<open>batch_size - 1\<close> further items that are already there.\<close>

definition aw_take :: "async_writer \<Rightarrow> async_writer" where
  "aw_take a =
     (if aw_alive a \<and> aw_batch a = [] then a\<lparr>aw_batch := take (aw_batch_size a) (aw_queue a), aw_queue := drop (aw_batch_size a) (aw_queue a)\<rparr>
      else a)"

record exec_io =
  xi_made :: "episode_error option"
  xi_metadata :: "episode_error option"
  xi_row :: "episode_error option"
  xi_rows :: "nat \<Rightarrow> episode_error option"
  xi_camera :: camera_io
  xi_sample :: sample_io
  xi_quality :: "episode_error option"
  xi_other_expired :: bool
  xi_finalize :: finalize_io
  xi_removed :: "episode_error option"
  xi_reported :: "episode_error option"

fun run_work :: "episode_writer \<Rightarrow> work \<Rightarrow> exec_io \<Rightarrow> episode_writer \<times> (episode_error, unit) res" where
  "run_work w (DoBegin p age) io = ew_begin w p age (xi_made io) (xi_metadata io)"
| "run_work w (DoRaw _) io = ew_append_raw w (xi_row io)"
| "run_work w (DoRawBatch rows) io = ew_append_raw_batch w (map (xi_rows io) [0..<length rows])"
| "run_work w (DoRawCamera c) io = ew_append_raw_camera w c (xi_camera io)"
| "run_work w (DoSample s) io = ew_append_sample w (s\<lparr>cn_frame_index := ew_count w\<rparr>) (xi_sample io)"

definition aw_count_written :: "async_writer \<Rightarrow> work \<Rightarrow> async_writer" where
  "aw_count_written a x =
     (let n = aw_counts a in
      a\<lparr>aw_counts := n\<lparr>acn_completed := acn_completed n + 1, acn_written_by := bump (method_of x) (acn_written_by n)\<rparr>,
        aw_log := aw_log a @ [(x, Written)]\<rparr>)"

definition aw_count_expired :: "async_writer \<Rightarrow> work \<Rightarrow> async_writer" where
  "aw_count_expired a x =
     (let n = aw_counts a in
      a\<lparr>aw_counts := n\<lparr>acn_ring_expired := acn_ring_expired n + 1, acn_drops := acn_drops n + 1,
          acn_dropped_by := bump (method_of x) (acn_dropped_by n)\<rparr>,
        aw_log := aw_log a @ [(x, Expired)]\<rparr>)"

definition aw_set_error :: "async_writer \<Rightarrow> episode_error \<Rightarrow> async_writer" where
  "aw_set_error a e = a\<lparr>aw_error := Some e, aw_counts := (aw_counts a)\<lparr>acn_errors := acn_errors (aw_counts a) + 1\<rparr>\<rparr>"

definition other_role :: "camera_role \<Rightarrow> camera_role" where
  "other_role r = (case r of Workspace \<Rightarrow> Wrist | Wrist \<Rightarrow> Workspace)"

definition other_expired :: "canonical_sample \<Rightarrow> camera_role \<Rightarrow> exec_io \<Rightarrow> bool" where
  "other_expired s r io \<longleftrightarrow> is_ring_ref (camera_of_role s (other_role r)) \<and> xi_other_expired io"

definition expired_quality :: "canonical_sample \<Rightarrow> camera_role \<Rightarrow> exec_io \<Rightarrow> quality_row" where
  "expired_quality s failed io =
     \<lparr>ql_timestamp_ns = cn_timestamp_ns s, ql_slot = cn_nominal_slot s, ql_reason = ''ring_reference_expired'',
      ql_control_ns = cs_host_ns (cn_control s), ql_missing = [],
      ql_roles = map (\<lambda>r. let c = camera_of_role s r; valid = (r \<noteq> failed \<and> \<not> other_expired s failed io) in
          (r, \<lparr>rq_valid = valid, rq_age_ns = Some (max 0 (cn_timestamp_ns s - cam_host_ns c)), rq_sequence = ring_sequence_of c,
               rq_reason = (if valid then None else Some ''ring_reference_expired'')\<rparr>)) [Workspace, Wrist]\<rparr>"

text \<open>A sample whose frame was overwritten in the ring leaves a row of metadata only.\<close>

definition write_expired_quality :: "async_writer \<Rightarrow> canonical_sample \<Rightarrow> camera_role \<Rightarrow> exec_io \<Rightarrow> async_writer" where
  "write_expired_quality a s failed io =
     (let n = aw_counts a;
          a1 = (if other_expired s failed io then a\<lparr>aw_counts := n\<lparr>acn_ring_expired := acn_ring_expired n + 1\<rparr>\<rparr> else a) in
      case ew_append_raw (aw_writer a1) (xi_quality io) of
        (w, Inl e) \<Rightarrow> aw_set_error (a1\<lparr>aw_writer := w\<rparr>) e
      | (w, Inr _) \<Rightarrow> a1\<lparr>aw_writer := w, aw_quality := aw_quality a1 @ [expired_quality s failed io]\<rparr>)"

definition aw_work_failed :: "async_writer \<Rightarrow> work \<Rightarrow> episode_error \<Rightarrow> async_writer" where
  "aw_work_failed a x e =
     aw_set_error (a\<lparr>aw_begin_failed := (aw_begin_failed a \<or> method_of x = MBegin), aw_log := aw_log a @ [(x, Failed)]\<rparr>) e"

definition aw_execute_work :: "async_writer \<Rightarrow> work \<Rightarrow> exec_io \<Rightarrow> async_writer" where
  "aw_execute_work a x io =
     (if aw_error a \<noteq> None then a\<lparr>aw_log := aw_log a @ [(x, Skipped)]\<rparr>
      else case run_work (aw_writer a) x io of
        (w, Inr _) \<Rightarrow> aw_count_written (a\<lparr>aw_writer := w\<rparr>) x
      | (w, Inl (EpUnavailable role)) \<Rightarrow>
          (let a1 = aw_count_expired (a\<lparr>aw_writer := w\<rparr>) x in
           case x of DoSample s \<Rightarrow> write_expired_quality a1 s role io | _ \<Rightarrow> a1)
      | (w, Inl e) \<Rightarrow> aw_work_failed (a\<lparr>aw_writer := w\<rparr>) x e)"

definition aw_execute_terminal :: "async_writer \<Rightarrow> terminal \<Rightarrow> exec_io \<Rightarrow> async_writer" where
  "aw_execute_terminal a t io =
     (case t of
        TDiscard reason \<Rightarrow>
          (case ew_discard (aw_writer a) reason (xi_removed io) (xi_reported io) of (w, r) \<Rightarrow> a\<lparr>aw_writer := w, aw_result := Some r\<rparr>)
      | TFinalize status reason \<Rightarrow>
          if aw_begin_failed a then
            (case ew_discard (aw_writer a) ''async_episode_begin_failure'' (xi_removed io) (xi_reported io) of
               (w, r) \<Rightarrow> a\<lparr>aw_writer := w, aw_result := Some r\<rparr>)
          else
            (case (if aw_error a \<noteq> None then (EpAborted, ''async_data_write_failure'') else (status, reason)) of
               (s, why) \<Rightarrow>
                 (case ew_finalize (aw_writer a) s why (xi_finalize io) of
                    (w, r) \<Rightarrow> a\<lparr>aw_writer := w, aw_result := Some r,
                                aw_final_mark := (if r = Inr () then Some (length (aw_log a)) else aw_final_mark a)\<rparr>)))"

text \<open>The next item of the batch. A stop item lets the rest of its batch run; the thread ends after it.\<close>

definition aw_step :: "async_writer \<Rightarrow> exec_io \<Rightarrow> async_writer" where
  "aw_step a io =
     (case aw_batch a of
        [] \<Rightarrow> a
      | x # rest \<Rightarrow>
          (let a1 = a\<lparr>aw_batch := rest\<rparr>;
               a2 = (case x of StopItem \<Rightarrow> a1\<lparr>aw_stop := True\<rparr>
                     | Terminal t \<Rightarrow> aw_execute_terminal a1 t io
                     | Work y \<Rightarrow> aw_execute_work a1 y io) in
           if rest = [] \<and> aw_stop a2 then a2\<lparr>aw_alive := False\<rparr> else a2))"

definition aw_flush :: "async_writer \<Rightarrow> episode_error option \<Rightarrow> async_writer" where
  "aw_flush a outcome =
     (if aw_alive a \<and> aw_batch a = [] \<and> ew_start_ns (aw_writer a) \<noteq> None
      then (case outcome of None \<Rightarrow> a | Some e \<Rightarrow> aw_set_error a e) else a)"

section \<open>Percentiles of a report\<close>

definition summary_index :: "nat \<Rightarrow> pyfloat \<Rightarrow> nat" where
  "summary_index n fraction =
     (case fmul (round64 (of_nat (n - 1))) fraction of Fin r \<Rightarrow> nat (round_half_even r) | _ \<Rightarrow> 0)"

record summary =
  sm_count :: nat
  sm_p50 :: int
  sm_p95 :: int
  sm_p99 :: int
  sm_max :: int

definition summarize :: "int list \<Rightarrow> summary" where
  "summarize vs =
     (if vs = [] then \<lparr>sm_count = 0, sm_p50 = 0, sm_p95 = 0, sm_p99 = 0, sm_max = 0\<rparr>
      else let pick = (\<lambda>a b. vs ! summary_index (length vs) (round64 (of_int a / of_int b))) in
        \<lparr>sm_count = length vs, sm_p50 = pick 1 2, sm_p95 = pick 95 100, sm_p99 = pick 99 100, sm_max = last vs\<rparr>)"

text \<open>The report sorts its windows before it reads percentiles, except the one of the enqueue durations.\<close>

lemma summary_max_sorted: "sorted vs \<Longrightarrow> v \<in> set vs \<Longrightarrow> v \<le> sm_max (summarize vs)"
  using sorted_le_last[of vs v] by (cases vs) (auto simp: summarize_def Let_def)

lemma summary_max_unsorted: "sm_max (summarize [5, 1]) = 1"
  by (simp add: summarize_def Let_def)

section \<open>Runs\<close>

datatype async_event =
    AvBegin start_prerequisites int | AvRaw string | AvRawBatch "string list" | AvCamera camera_record | AvSample canonical_sample
  | AvFinalize episode_status string | AvDiscard string | AvAwait | AvCloseWorker | AvClose
  | AvTake | AvStep exec_io | AvFlush "episode_error option"

fun async_apply :: "async_writer \<Rightarrow> async_event \<Rightarrow> async_writer" where
  "async_apply a (AvBegin p age) = fst (aw_begin a p age)"
| "async_apply a (AvRaw stream) = fst (aw_enqueue a (DoRaw stream))"
| "async_apply a (AvRawBatch rows) = fst (aw_enqueue a (DoRawBatch rows))"
| "async_apply a (AvCamera c) = fst (aw_append_raw_camera a c)"
| "async_apply a (AvSample s) = fst (aw_append_sample a s)"
| "async_apply a (AvFinalize status reason) = fst (aw_finalize a status reason)"
| "async_apply a (AvDiscard reason) = fst (aw_request a (TDiscard reason))"
| "async_apply a AvAwait = fst (aw_await a)"
| "async_apply a AvCloseWorker = fst (aw_close_worker a)"
| "async_apply a AvClose = fst (aw_close a)"
| "async_apply a AvTake = aw_take a"
| "async_apply a (AvStep io) = aw_step a io"
| "async_apply a (AvFlush outcome) = aw_flush a outcome"

fun async_run :: "async_writer \<Rightarrow> async_event list \<Rightarrow> async_writer" where
  "async_run a [] = a"
| "async_run a (ev # evs) = async_run (async_apply a ev) evs"

fun works_of :: "item list \<Rightarrow> work list" where
  "works_of [] = []"
| "works_of (Work x # xs) = x # works_of xs"
| "works_of (_ # xs) = works_of xs"

lemma works_of_append [simp]: "works_of (xs @ ys) = works_of xs @ works_of ys"
  by (induction xs rule: works_of.induct) auto

definition waiting :: "async_writer \<Rightarrow> work list" where
  "waiting a = works_of (aw_batch a @ aw_queue a)"

definition fates :: "fate \<Rightarrow> (work \<times> fate) list \<Rightarrow> nat" where
  "fates f xs = length (filter (\<lambda>x. snd x = f) xs)"

lemma fates_simps [simp]: "fates f [] = 0" "fates f (xs @ ys) = fates f xs + fates f ys"
  "fates f [(x, g)] = (if g = f then 1 else 0)"
  by (simp_all add: fates_def)

text \<open>The first property: a queue that loses nothing and keeps the order.\<close>

definition async_inv :: "async_writer \<Rightarrow> bool" where
  "async_inv a \<longleftrightarrow>
     aw_accepted a = map fst (aw_log a) @ waiting a
     \<and> acn_enqueued (aw_counts a) = length (aw_accepted a)
     \<and> acn_completed (aw_counts a) = fates Written (aw_log a)
     \<and> acn_drops (aw_counts a) = acn_overflow (aw_counts a) + fates Expired (aw_log a)
     \<and> length (aw_queue a) \<le> aw_capacity a \<and> 0 < aw_batch_size a
     \<and> (fates Failed (aw_log a) + fates Skipped (aw_log a) \<noteq> 0 \<longrightarrow> aw_error a \<noteq> None)"

text \<open>Fields no invariant reads.\<close>

lemma async_inv_parts [simp]:
  "async_inv (a\<lparr>aw_start_ns := t\<rparr>) = async_inv a" "async_inv (a\<lparr>aw_samples := n\<rparr>) = async_inv a"
  "async_inv (a\<lparr>aw_result := r\<rparr>) = async_inv a" "async_inv (a\<lparr>aw_closed := b\<rparr>) = async_inv a"
  "async_inv (a\<lparr>aw_writer := w\<rparr>) = async_inv a" "async_inv (a\<lparr>aw_alive := b\<rparr>) = async_inv a"
  "async_inv (a\<lparr>aw_stop := b\<rparr>) = async_inv a" "async_inv (a\<lparr>aw_quality := q\<rparr>) = async_inv a"
  "async_inv (a\<lparr>aw_final_mark := m\<rparr>) = async_inv a"
  "async_inv (a\<lparr>aw_counts := (aw_counts a)\<lparr>acn_ring_expired := k\<rparr>\<rparr>) = async_inv a"
  by (simp_all add: async_inv_def waiting_def)

lemma async_inv_error: "async_inv a \<Longrightarrow> async_inv (aw_set_error a e)"
  by (simp add: async_inv_def aw_set_error_def waiting_def)

lemma async_inv_enqueue: "async_inv a \<Longrightarrow> async_inv (fst (aw_enqueue a x))"
  by (auto simp: aw_enqueue_def async_inv_def aw_drop_def aw_push_def aw_full_def waiting_def Let_def)

lemma async_inv_begin: "async_inv a \<Longrightarrow> async_inv (fst (aw_begin a p age))"
  using async_inv_enqueue[of "a\<lparr>aw_start_ns := Some (cs_host_ns (sq_accepted p))\<rparr>" "DoBegin p age"]
  by (auto simp: aw_begin_def split: sum.split prod.split)

lemma async_inv_camera: "async_inv a \<Longrightarrow> async_inv (fst (aw_append_raw_camera a c))"
  using async_inv_enqueue by (simp add: aw_append_raw_camera_def)

lemma async_inv_sample: "async_inv a \<Longrightarrow> async_inv (fst (aw_append_sample a s))"
  using async_inv_enqueue[of a "DoSample s"]
  by (cases "aw_enqueue a (DoSample s)") (auto simp: aw_append_sample_def split: sum.split bool.split)

text \<open>An item that is not work enters the queue.\<close>

lemma async_inv_other:
  "async_inv a \<Longrightarrow> \<not> aw_full a \<Longrightarrow> works_of [x] = [] \<Longrightarrow> async_inv (a\<lparr>aw_queue := aw_queue a @ [x]\<rparr>)"
  by (simp add: async_inv_def waiting_def aw_full_def)

lemma async_inv_request: "async_inv a \<Longrightarrow> async_inv (fst (aw_request a t))"
  using async_inv_other[of a "Terminal t"] by (simp add: aw_request_def)

lemma async_inv_stop: "async_inv a \<Longrightarrow> \<not> aw_full a \<Longrightarrow> async_inv (a\<lparr>aw_closed := b, aw_queue := aw_queue a @ [StopItem]\<rparr>)"
  using async_inv_other[of "a\<lparr>aw_closed := b\<rparr>" StopItem] by (simp add: aw_full_def)

lemma async_inv_take: "async_inv a \<Longrightarrow> async_inv (aw_take a)"
proof -
  have "works_of (take n q) @ works_of (drop n q) = works_of q" for n and q :: "item list"
    by (metis works_of_append append_take_drop_id)
  then show "async_inv a \<Longrightarrow> async_inv (aw_take a)"
    by (auto simp: async_inv_def aw_take_def waiting_def)
qed

lemma async_inv_execute_work:
  assumes "async_inv (a\<lparr>aw_batch := Work x # aw_batch a\<rparr>)"
  shows "async_inv (aw_execute_work a x io)"
proof -
  have written: "async_inv (aw_count_written (a\<lparr>aw_writer := w\<rparr>) x)"
    and expired: "async_inv (aw_count_expired (a\<lparr>aw_writer := w\<rparr>) x)"
    and failed: "async_inv (aw_work_failed (a\<lparr>aw_writer := w\<rparr>) x e)" for w e
    using assms by (simp_all add: async_inv_def waiting_def aw_count_written_def aw_count_expired_def aw_work_failed_def aw_set_error_def Let_def)
  have quality: "async_inv b \<Longrightarrow> async_inv (write_expired_quality b s r io)" for b s r
    using async_inv_error by (auto simp: write_expired_quality_def Let_def split: prod.split sum.split)
  show ?thesis
  proof (cases "aw_error a = None")
    case False
    with assms show ?thesis by (auto simp: aw_execute_work_def async_inv_def waiting_def)
  next
    case True
    with written expired failed quality show ?thesis
      by (auto simp: aw_execute_work_def Let_def split: prod.split sum.split episode_error.split work.split)
  qed
qed

lemma async_inv_step: "async_inv a \<Longrightarrow> async_inv (aw_step a io)"
proof (cases "aw_batch a")
  case (Cons x rest)
  assume inv: "async_inv a"
  let ?a = "a\<lparr>aw_batch := rest\<rparr>"
  have skip: "works_of [x] = [] \<Longrightarrow> async_inv ?a"
    using inv Cons by (cases x) (simp_all add: async_inv_def waiting_def)
  have "async_inv (case x of StopItem \<Rightarrow> ?a\<lparr>aw_stop := True\<rparr> | Terminal t \<Rightarrow> aw_execute_terminal ?a t io | Work y \<Rightarrow> aw_execute_work ?a y io)"
  proof (cases x)
    case (Work y)
    then have "?a\<lparr>aw_batch := Work y # aw_batch ?a\<rparr> = a" using Cons by (cases a) simp
    then show ?thesis using async_inv_execute_work[of y ?a io] inv Work by simp
  next
    case (Terminal t)
    with skip show ?thesis by (simp add: aw_execute_terminal_def split: terminal.split prod.split)
  qed (use skip in simp)
  with Cons show "async_inv (aw_step a io)" by (simp add: aw_step_def Let_def)
qed (simp add: aw_step_def)

lemma async_inv_apply: "async_inv a \<Longrightarrow> async_inv (async_apply a ev)"
proof (cases ev)
  case (AvAwait)
  assume "async_inv a"
  then show ?thesis using AvAwait async_inv_stop[of a True]
    by (simp add: aw_await_def split: option.split) (simp add: async_inv_def waiting_def)
qed (simp_all add: async_inv_begin async_inv_enqueue async_inv_camera async_inv_sample async_inv_request async_inv_take
     async_inv_step aw_finalize_def aw_close_worker_def aw_close_def async_inv_stop aw_flush_def async_inv_error split: option.split)

lemma async_inv_run: "async_inv a \<Longrightarrow> async_inv (async_run a evs)"
  by (induction evs arbitrary: a) (simp_all add: async_inv_apply)

lemma async_inv_start: "mk_async_writer w n b f t refs = Inr a \<Longrightarrow> async_inv a"
  by (auto simp: mk_async_writer_def async_inv_def waiting_def no_async_counts_def)

text \<open>
  C27. The recording queue is a bounded queue that refuses but never loses or reorders: over any interleaving of
  producers and worker the accepted items are those executed, in their order, followed by those still
  waiting; the queue stays within its capacity and every accepted or refused item is counted exactly once as
  written, expired, failed, skipped, waiting or dropped.
\<close>

theorem async_writer_fifo:
  assumes "mk_async_writer w capacity batch flush_s shutdown_s refs = Inr a" and "a' = async_run a evs"
  shows "aw_accepted a' = map fst (aw_log a') @ waiting a'
    \<and> length (aw_queue a') \<le> aw_capacity a'
    \<and> acn_enqueued (aw_counts a') = acn_completed (aw_counts a') + fates Expired (aw_log a') + fates Failed (aw_log a')
        + fates Skipped (aw_log a') + length (waiting a')
    \<and> acn_drops (aw_counts a') = acn_overflow (aw_counts a') + fates Expired (aw_log a')"
proof -
  have inv: "async_inv a'" using async_inv_run[OF async_inv_start[OF assms(1)]] assms(2) by simp
  have "length xs = fates Written xs + fates Expired xs + fates Failed xs + fates Skipped xs" for xs
    by (induction xs) (auto simp: fates_def, metis fate.exhaust)
  with inv show ?thesis by (simp add: async_inv_def)
qed

section \<open>A completed episode is complete\<close>

text \<open>What the executed items left on the staging writer.\<close>

fun samples_of :: "(work \<times> fate) list \<Rightarrow> canonical_sample list" where
  "samples_of [] = []"
| "samples_of ((DoSample s, Written) # xs) = s # samples_of xs"
| "samples_of (_ # xs) = samples_of xs"

lemma samples_of_append [simp]: "samples_of (xs @ ys) = samples_of xs @ samples_of ys"
  by (induction xs rule: samples_of.induct) auto

definition unindexed :: "canonical_sample \<Rightarrow> canonical_sample" where
  "unindexed s = s\<lparr>cn_frame_index := 0\<rparr>"

definition clean :: "(work \<times> fate) list \<Rightarrow> bool" where
  "clean xs \<longleftrightarrow> fates Failed xs = 0 \<and> fates Skipped xs = 0"

definition writer_agrees :: "async_writer \<Rightarrow> bool" where
  "writer_agrees a \<longleftrightarrow>
     (aw_begin_failed a \<longrightarrow> aw_error a \<noteq> None)
     \<and> (\<not> aw_begin_failed a \<or> ew_finalized (aw_writer a) \<longrightarrow> rows_ok (aw_writer a)
          \<and> map unindexed (ew_rows (aw_writer a)) = map unindexed (samples_of (aw_log a)))
     \<and> (ew_finalized (aw_writer a) \<longleftrightarrow> ew_status (aw_writer a) \<noteq> None)
     \<and> (ew_status (aw_writer a) = Some EpCompleted \<longrightarrow>
          (\<exists>n \<le> length (aw_log a). clean (take n (aw_log a)) \<and> samples_of (drop n (aw_log a)) = [] \<and> ew_rows (aw_writer a) \<noteq> []))
     \<and> (aw_error a = None \<longrightarrow> clean (aw_log a))"

text \<open>A work item moves the staging writer and the log together.\<close>

lemma run_work_agrees:
  assumes "run_work w x io = (w', r)" and "rows_ok w"
  shows "rows_ok w' \<and> ew_finalized w' = ew_finalized w \<and> ew_status w' = ew_status w
    \<and> map unindexed (ew_rows w') = map unindexed (ew_rows w @ (if r = Inr () then samples_of [(x, Written)] else []))
    \<and> (ew_finalized w \<and> r = Inr () \<longrightarrow> samples_of [(x, Written)] = [])"
proof (cases x)
  case (DoBegin p age)
  with assms show ?thesis by (auto simp: ew_begin_def rows_ok_def split: if_split_asm sum.split_asm)
next
  case (DoRaw st)
  with assms append_raw_rows[of w "xi_row io"] show ?thesis by (auto simp: same_rows_def rows_ok_def)
next
  case (DoRawBatch rows)
  with assms append_raw_batch_rows[of w "map (xi_rows io) [0..<length rows]"] show ?thesis by (auto simp: same_rows_def rows_ok_def)
next
  case (DoRawCamera c)
  with assms append_raw_camera_rows[of w c "xi_camera io"] show ?thesis by (auto simp: same_rows_def rows_ok_def)
next
  case (DoSample s)
  with assms(1) have app: "ew_append_sample w (s\<lparr>cn_frame_index := ew_count w\<rparr>) (xi_sample io) = (w', r)" by simp
  note rows = rows_ok_append_sample[OF assms(2) app]
  from app show ?thesis
  proof (cases rule: append_sample_cases)
    case (refused e)
    with rows DoSample show ?thesis by (auto simp: same_rows_def)
  next
    case written
    with rows DoSample show ?thesis by (auto simp: unindexed_def check_sample_def ew_active_def)
  qed
qed

lemma agrees_parts [simp]:
  "writer_agrees (a\<lparr>aw_start_ns := t\<rparr>) = writer_agrees a" "writer_agrees (a\<lparr>aw_samples := k\<rparr>) = writer_agrees a"
  "writer_agrees (a\<lparr>aw_result := r\<rparr>) = writer_agrees a" "writer_agrees (a\<lparr>aw_closed := b\<rparr>) = writer_agrees a"
  "writer_agrees (a\<lparr>aw_alive := b\<rparr>) = writer_agrees a" "writer_agrees (a\<lparr>aw_stop := b\<rparr>) = writer_agrees a"
  "writer_agrees (a\<lparr>aw_quality := q\<rparr>) = writer_agrees a" "writer_agrees (a\<lparr>aw_queue := qs\<rparr>) = writer_agrees a"
  "writer_agrees (a\<lparr>aw_batch := bs\<rparr>) = writer_agrees a" "writer_agrees (a\<lparr>aw_counts := cs\<rparr>) = writer_agrees a"
  "writer_agrees (a\<lparr>aw_accepted := xs\<rparr>) = writer_agrees a" "writer_agrees (a\<lparr>aw_final_mark := m\<rparr>) = writer_agrees a"
  by (simp_all add: writer_agrees_def)

lemma clean_snoc: "clean (xs @ [(x, f)]) \<longleftrightarrow> clean xs \<and> f \<noteq> Failed \<and> f \<noteq> Skipped"
  by (auto simp: clean_def)

text \<open>One more logged work item; the staging writer moved with it.\<close>

lemma agrees_log:
  assumes "writer_agrees a" and "run_work (aw_writer a) x io = (w', r)" and "aw_error a = None"
    and "aw_writer b = w'" and "aw_log b = aw_log a @ [(x, f)]" and "r = Inr () \<longleftrightarrow> f = Written" and "f \<noteq> Skipped"
    and "f = Failed \<longrightarrow> aw_error b \<noteq> None" and "aw_begin_failed b \<longrightarrow> aw_error b \<noteq> None"
  shows "writer_agrees b"
proof -
  have ok: "rows_ok (aw_writer a)" "map unindexed (ew_rows (aw_writer a)) = map unindexed (samples_of (aw_log a))"
    "clean (aw_log a)" "ew_finalized (aw_writer a) \<longleftrightarrow> ew_status (aw_writer a) \<noteq> None"
    using assms(1,3) by (auto simp: writer_agrees_def)
  note rw = run_work_agrees[OF assms(2) ok(1)]
  have one: "samples_of [(x, f)] = (if r = Inr () then samples_of [(x, Written)] else [])"
    using assms(6) by (cases x; cases f) auto
  have rows: "rows_ok w'" "map unindexed (ew_rows w') = map unindexed (samples_of (aw_log b))"
    using rw ok(2) assms(5) one by auto
  have clean': "aw_error b = None \<longrightarrow> clean (aw_log b)" using ok(3) assms(5-8) by (auto simp: clean_snoc)
  have completed: "\<exists>n \<le> length (aw_log b). clean (take n (aw_log b)) \<and> samples_of (drop n (aw_log b)) = [] \<and> ew_rows w' \<noteq> []"
    if st: "ew_status w' = Some EpCompleted"
  proof -
    have fin: "ew_status (aw_writer a) = Some EpCompleted" "ew_finalized (aw_writer a)" using st rw ok(4) by auto
    then obtain n where n: "n \<le> length (aw_log a)" "clean (take n (aw_log a))" "samples_of (drop n (aw_log a)) = []" "ew_rows (aw_writer a) \<noteq> []"
      using assms(1) by (auto simp: writer_agrees_def)
    have "samples_of [(x, f)] = []" using one rw fin(2) by auto
    moreover have "ew_rows w' \<noteq> []" using rw n(4) by auto
    ultimately show ?thesis using n assms(5) by (intro exI[of _ n]) simp
  qed
  show ?thesis
    unfolding writer_agrees_def assms(4) using rows clean' completed rw ok(4) assms(9) by auto
qed

lemma agrees_skip:
  assumes "writer_agrees a" and "aw_error a \<noteq> None"
  shows "writer_agrees (a\<lparr>aw_log := aw_log a @ [(x, Skipped)]\<rparr>)"
proof -
  have none: "samples_of [(x, Skipped)] = []" by (cases x) simp_all
  have "\<exists>n \<le> length (aw_log a @ [(x, Skipped)]). clean (take n (aw_log a @ [(x, Skipped)])) \<and> samples_of (drop n (aw_log a @ [(x, Skipped)])) = []
      \<and> ew_rows (aw_writer a) \<noteq> []" if st: "ew_status (aw_writer a) = Some EpCompleted"
  proof -
    obtain n where n: "n \<le> length (aw_log a)" "clean (take n (aw_log a))" "samples_of (drop n (aw_log a)) = []" "ew_rows (aw_writer a) \<noteq> []"
      using assms(1) st by (auto simp: writer_agrees_def)
    with none show ?thesis by (intro exI[of _ n]) simp
  qed
  moreover obtain e where "aw_error a = Some e" using assms(2) by blast
  ultimately show ?thesis using assms(1) none by (simp add: writer_agrees_def)
qed

lemma agrees_like:
  assumes "writer_agrees a" and "aw_writer b = aw_writer a" and "aw_log b = aw_log a" and "aw_begin_failed b = aw_begin_failed a"
    and "aw_error b = aw_error a \<or> aw_error b \<noteq> None"
  shows "writer_agrees b"
  using assms by (auto simp: writer_agrees_def)

lemma agrees_error: "writer_agrees a \<Longrightarrow> writer_agrees (aw_set_error a e)"
  by (simp add: aw_set_error_def) (simp add: writer_agrees_def)

lemma set_error_queue [simp]: "aw_batch (aw_set_error a e) = aw_batch a" "aw_queue (aw_set_error a e) = aw_queue a"
  by (simp_all add: aw_set_error_def)

lemma agrees_quality:
  assumes "writer_agrees a"
  shows "writer_agrees (write_expired_quality a s r io)"
proof -
  have raw: "writer_agrees (a\<lparr>aw_writer := fst (ew_append_raw (aw_writer a) (xi_quality io))\<rparr>)"
    using assms append_raw_rows[of "aw_writer a" "xi_quality io"] by (auto simp: writer_agrees_def same_rows_def rows_ok_def)
  show ?thesis
    by (rule agrees_like[OF raw])
      (auto simp: write_expired_quality_def aw_set_error_def Let_def split: prod.split sum.split)
qed

lemma agrees_execute_work:
  assumes "writer_agrees a"
  shows "writer_agrees (aw_execute_work a x io)"
proof (cases "aw_error a")
  case (Some e)
  with agrees_skip[OF assms] show ?thesis by (simp add: aw_execute_work_def)
next
  case None
  have nb: "\<not> aw_begin_failed a" using assms None by (auto simp: writer_agrees_def)
  obtain w r where run: "run_work (aw_writer a) x io = (w, r)" by fastforce
  note log = agrees_log[OF assms run None]
  show ?thesis
  proof (cases r)
    case (Inr u)
    have "writer_agrees (aw_count_written (a\<lparr>aw_writer := w\<rparr>) x)"
      by (rule log[where f = Written]) (use Inr nb in \<open>simp_all add: aw_count_written_def Let_def\<close>)
    with run Inr None show ?thesis by (simp add: aw_execute_work_def)
  next
    case (Inl e)
    have expired: "writer_agrees (aw_count_expired (a\<lparr>aw_writer := w\<rparr>) x)"
      by (rule log[where f = Expired]) (use Inl nb in \<open>simp_all add: aw_count_expired_def Let_def\<close>)
    have failed: "writer_agrees (aw_work_failed (a\<lparr>aw_writer := w\<rparr>) x e)"
      by (rule log[where f = Failed]) (use Inl nb in \<open>simp_all add: aw_work_failed_def aw_set_error_def\<close>)
    show ?thesis
      using run Inl None failed expired agrees_quality[OF expired]
      by (auto simp: aw_execute_work_def Let_def split: episode_error.split work.split)
  qed
qed

lemma agrees_discard:
  assumes "writer_agrees a" and "aw_begin_failed a"
  shows "writer_agrees (a\<lparr>aw_writer := fst (ew_discard (aw_writer a) reason o1 o2)\<rparr>)"
  using assms by (auto simp: ew_discard_def writer_agrees_def rows_ok_def split: sum.split)

lemma agrees_finalize:
  assumes "writer_agrees a" and "\<not> aw_begin_failed a" and "status = EpCompleted \<longrightarrow> aw_error a = None"
  shows "writer_agrees (a\<lparr>aw_writer := fst (ew_finalize (aw_writer a) status reason io)\<rparr>)"
proof (cases "ew_finalize (aw_writer a) status reason io")
  case (Pair w r)
  have ok: "rows_ok (aw_writer a)" "map unindexed (ew_rows (aw_writer a)) = map unindexed (samples_of (aw_log a))"
    using assms(1,2) by (auto simp: writer_agrees_def)
  show ?thesis
  proof (cases "w = aw_writer a")
    case True
    with assms(1) Pair show ?thesis by (cases a) simp
  next
    case False
    with Pair obtain valid md where w: "w = (aw_writer a)\<lparr>ew_finalized := True, ew_status := Some (final_status status valid md),
        ew_reason := final_reason status reason valid md\<rparr>" "\<not> (status = EpCompleted \<and> ew_count (aw_writer a) = 0)"
      by (auto simp: ew_finalize_def Let_def split: sum.split_asm)
    have "status = EpCompleted" if "final_status status valid md = EpCompleted"
      using that by (auto simp: final_status_def Let_def split: if_split_asm)
    moreover have "ew_count (aw_writer a) \<noteq> 0 \<longleftrightarrow> ew_rows (aw_writer a) \<noteq> []" using ok(1) by (simp add: rows_ok_def)
    ultimately have "\<exists>n \<le> length (aw_log a). clean (take n (aw_log a)) \<and> samples_of (drop n (aw_log a)) = [] \<and> ew_rows (aw_writer a) \<noteq> []"
      if "final_status status valid md = EpCompleted"
      using that assms(1,3) w(2) by (intro exI[of _ "length (aw_log a)"]) (auto simp: writer_agrees_def)
    with assms(1) ok Pair w(1) show ?thesis by (auto simp: writer_agrees_def rows_ok_def)
  qed
qed

lemma agrees_terminal:
  assumes "writer_agrees a" and "\<forall>reason. t \<noteq> TDiscard reason"
  shows "writer_agrees (aw_execute_terminal a t io)"
proof (cases t)
  case (TFinalize status reason)
  have discard: "writer_agrees (aw_execute_terminal a t io)" if "aw_begin_failed a"
    by (rule agrees_like[OF agrees_discard[OF assms(1) that, of "''async_episode_begin_failure''" "xi_removed io" "xi_reported io"]])
      (simp_all add: aw_execute_terminal_def TFinalize that split: prod.split)
  have final: "writer_agrees (aw_execute_terminal a t io)" if "\<not> aw_begin_failed a"
  proof -
    obtain st why where sw: "(if aw_error a \<noteq> None then (EpAborted, ''async_data_write_failure'') else (status, reason)) = (st, why)"
      by fastforce
    then have "st = EpCompleted \<longrightarrow> aw_error a = None" by (auto split: if_split_asm)
    from agrees_finalize[OF assms(1) that this, of why "xi_finalize io"] show ?thesis
      by (rule agrees_like) (use sw in \<open>auto simp: aw_execute_terminal_def TFinalize that split: prod.split if_split_asm\<close>)
  qed
  show ?thesis using discard final by blast
qed (use assms in simp)

fun no_discard :: "async_event \<Rightarrow> bool" where
  "no_discard (AvDiscard _) = False"
| "no_discard _ = True"

definition no_discard_item :: "item \<Rightarrow> bool" where
  "no_discard_item x \<longleftrightarrow> (\<forall>reason. x \<noteq> Terminal (TDiscard reason))"

definition queue_clean :: "async_writer \<Rightarrow> bool" where
  "queue_clean a \<longleftrightarrow> list_all no_discard_item (aw_batch a @ aw_queue a)"

lemma queue_clean_enqueue: "queue_clean a \<Longrightarrow> queue_clean (fst (aw_enqueue a x))"
  by (simp add: aw_enqueue_def aw_drop_def aw_push_def queue_clean_def no_discard_item_def Let_def)

lemma agrees_enqueue: "writer_agrees (fst (aw_enqueue a x)) = writer_agrees a"
  by (simp add: aw_enqueue_def aw_drop_def aw_push_def Let_def)

text \<open>An operation of the producer side enqueues, at most.\<close>

lemma producer_keeps:
  assumes "writer_agrees a" and "queue_clean a"
  shows "writer_agrees (fst (aw_begin a p age)) \<and> queue_clean (fst (aw_begin a p age))"
    and "writer_agrees (fst (aw_append_raw_camera a c)) \<and> queue_clean (fst (aw_append_raw_camera a c))"
    and "writer_agrees (fst (aw_append_sample a s)) \<and> queue_clean (fst (aw_append_sample a s))"
proof -
  have start: "queue_clean (a\<lparr>aw_start_ns := t\<rparr>)" for t using assms(2) by (simp add: queue_clean_def)
  have count: "queue_clean (b\<lparr>aw_samples := k\<rparr>) = queue_clean b" for b k by (simp add: queue_clean_def)
  show "writer_agrees (fst (aw_begin a p age)) \<and> queue_clean (fst (aw_begin a p age))"
    using assms agrees_enqueue[of "a\<lparr>aw_start_ns := Some (cs_host_ns (sq_accepted p))\<rparr>" "DoBegin p age"]
      queue_clean_enqueue[OF start[of "Some (cs_host_ns (sq_accepted p))"], of "DoBegin p age"]
    by (auto simp: aw_begin_def split: sum.split prod.split)
  show "writer_agrees (fst (aw_append_raw_camera a c)) \<and> queue_clean (fst (aw_append_raw_camera a c))"
    using assms agrees_enqueue queue_clean_enqueue by (simp add: aw_append_raw_camera_def)
  show "writer_agrees (fst (aw_append_sample a s)) \<and> queue_clean (fst (aw_append_sample a s))"
    using assms agrees_enqueue[of a "DoSample s"] queue_clean_enqueue[OF assms(2), of "DoSample s"]
    by (cases "aw_enqueue a (DoSample s)") (auto simp: aw_append_sample_def count split: sum.split bool.split)
qed

lemma step_keeps:
  assumes "writer_agrees a" and "queue_clean a"
  shows "writer_agrees (aw_step a io) \<and> queue_clean (aw_step a io)"
proof (cases "aw_batch a")
  case (Cons x rest)
  let ?a = "a\<lparr>aw_batch := rest\<rparr>"
  have a: "writer_agrees ?a" "queue_clean ?a" "no_discard_item x" using assms Cons by (simp_all add: queue_clean_def)
  have frame: "aw_batch (aw_execute_work b y io) = aw_batch b \<and> aw_queue (aw_execute_work b y io) = aw_queue b"
    "aw_batch (aw_execute_terminal b t io) = aw_batch b \<and> aw_queue (aw_execute_terminal b t io) = aw_queue b" for b y t
    by (auto simp: aw_execute_work_def aw_execute_terminal_def aw_count_written_def aw_count_expired_def aw_work_failed_def
        aw_set_error_def write_expired_quality_def Let_def
        split: prod.split sum.split episode_error.split work.split terminal.split)
  define b where "b = (case x of StopItem \<Rightarrow> ?a\<lparr>aw_stop := True\<rparr> | Terminal t \<Rightarrow> aw_execute_terminal ?a t io | Work y \<Rightarrow> aw_execute_work ?a y io)"
  have "writer_agrees b"
    using a agrees_execute_work agrees_terminal by (auto simp: b_def no_discard_item_def split: item.split)
  moreover have "aw_batch b = rest \<and> aw_queue b = aw_queue a" using frame by (simp add: b_def split: item.split)
  ultimately show ?thesis
    using Cons a(2) by (simp add: aw_step_def b_def[symmetric] Let_def queue_clean_def)
qed (use assms in \<open>simp add: aw_step_def\<close>)

lemma async_keeps:
  assumes "writer_agrees a" and "queue_clean a" and "no_discard ev"
  shows "writer_agrees (async_apply a ev) \<and> queue_clean (async_apply a ev)"
proof (cases ev)
  case AvTake
  have "list_all no_discard_item (take k q) \<and> list_all no_discard_item (drop k q)" if "list_all no_discard_item q" for k q
    using that by (auto simp: list_all_iff dest: in_set_takeD in_set_dropD)
  with assms AvTake show ?thesis by (simp add: aw_take_def queue_clean_def)
qed (use assms producer_keeps[OF assms(1,2)] step_keeps[OF assms(1,2)] agrees_enqueue queue_clean_enqueue in
     \<open>auto simp: aw_finalize_def aw_request_def aw_await_def aw_close_worker_def aw_close_def aw_flush_def queue_clean_def
        no_discard_item_def agrees_error split: option.split\<close>)

lemma async_keeps_run:
  "writer_agrees a \<Longrightarrow> queue_clean a \<Longrightarrow> \<forall>ev \<in> set evs. no_discard ev \<Longrightarrow> writer_agrees (async_run a evs)"
  by (induction evs arbitrary: a) (simp_all add: async_keeps)


section \<open>A recorded episode\<close>

definition demo_camera :: "camera_role \<Rightarrow> camera_record" where
  "demo_camera r = \<lparr>cam_role = r, cam_host_ns = 10, cam_rgb_ms = Fin 0, cam_depth_ms = Fin 0, cam_rgb_number = 1, cam_depth_number = 1,
     cam_rgb_domain = [], cam_depth_domain = [], cam_store = OwnFrame None\<rparr>"

definition demo_sample_control :: control_sample where
  "demo_sample_control = \<lparr>cs_host_ns = 20, cs_accepted_q = Some [Fin 0, Fin 0, Fin 0, Fin 0, Fin 0, Fin 0],
     cs_measured_q = Some [Fin 0, Fin 0, Fin 0, Fin 0, Fin 0, Fin 0], cs_measured_dq = Some [Fin 0, Fin 0, Fin 0, Fin 0, Fin 0, Fin 0],
     cs_tcp_pose = Some [Fin 0, Fin 0, Fin 0, Fin 0, Fin 0, Fin 0, Fin 1],
     cs_hand_observation = Some [Fin 0, Fin 0, Fin 0, Fin 0, Fin 0, Fin 0], cs_hand_source = ''measured'',
     cs_hand_target = Some [Fin 0, Fin 0, Fin 0, Fin 0, Fin 0, Fin 0], cs_arm_trigger = True, cs_hand_grip = False,
     cs_q_source = ''measured'', cs_dq_source = ''measured'', cs_tcp_source = ''measured'', cs_action_status = ''accepted'',
     cs_action_source = ''accepted_target'', cs_segment_id = 0, cs_segment_mode = ''arm_only'', cs_target_sequence = None,
     cs_reference_generation = None, cs_source_ns = [], cs_source_domains = [], cs_heartbeat_valid = True,
     cs_tracking_fault = False, cs_controller_fault = False, cs_force = None\<rparr>"

definition demo_start :: start_prerequisites where
  "demo_start = \<lparr>sq_press_ns = 5, sq_reference = True, sq_accepted = demo_sample_control, sq_workspace = demo_camera Workspace,
     sq_wrist = demo_camera Wrist, sq_maximum_delta = Fin 1, sq_maximum_hand_delta = Fin 1\<rparr>"

definition demo_canonical :: "int \<Rightarrow> canonical_sample" where
  "demo_canonical t = \<lparr>cn_frame_index = 7, cn_timestamp_ns = t, cn_control = demo_sample_control, cn_workspace = demo_camera Workspace,
     cn_wrist = demo_camera Wrist, cn_offsets_ns = [], cn_synchronized = True, cn_nominal_slot = Some 3, cn_missed_before = 0,
     cn_missed_after = 0, cn_repeated = []\<rparr>"

definition fine_camera :: camera_io where
  "fine_camera = \<lparr>ci_frame = None, ci_save = None, ci_row = None\<rparr>"

definition fine_io :: exec_io where
  "fine_io = \<lparr>xi_made = None, xi_metadata = None, xi_row = None, xi_rows = (\<lambda>_. None), xi_camera = fine_camera,
     xi_sample = \<lparr>si_frames = None, si_workspace = fine_camera, si_workspace_link = None, si_wrist = fine_camera,
       si_wrist_link = None, si_row = None\<rparr>,
     xi_quality = None, xi_other_expired = False,
     xi_finalize = \<lparr>fi_rows = [(0, 20, True)], fi_handles = None, fi_metadata_failed = False, fi_publish = None\<rparr>,
     xi_removed = None, xi_reported = None\<rparr>"

definition demo_recording :: "async_event list" where
  "demo_recording = [AvBegin demo_start 100, AvSample (demo_canonical 20), AvFinalize EpCompleted ''released'',
     AvTake, AvStep fine_io, AvTake, AvStep fine_io, AvTake, AvStep fine_io]"

lemma demo_start_valid: "validate_start demo_start 100 = Inr ()"
  by (simp add: validate_start_def demo_start_def demo_sample_control_def present_def continuity_delta_def camera_gate_def
      demo_camera_def fsub_def fmax_def)

text \<open>The staging writer, one operation after the other.\<close>

definition demo_begun :: episode_writer where
  "demo_begun = (new_episode_writer 30)\<lparr>ew_started := True, ew_start_ns := Some 20, ew_press_ns := Some 5\<rparr>"

lemma demo_begin: "ew_begin (new_episode_writer 30) demo_start 100 None None = (demo_begun, Inr ())"
  unfolding ew_begin_def demo_start_valid
  by (simp add: demo_begun_def new_episode_writer_def io_result_def demo_start_def demo_sample_control_def)

definition demo_row :: canonical_sample where
  "demo_row = (demo_canonical 20)\<lparr>cn_frame_index := 0\<rparr>"

lemma demo_check: "check_sample demo_begun demo_row = Inr ()"
  by (simp add: check_sample_def demo_begun_def demo_row_def demo_canonical_def new_episode_writer_def ew_active_def effective_slot_def)

lemma write_camera_fine:
  assumes "ew_started w" and "\<not> ew_finalized w" and "camera_key c \<notin> set (ew_raw_keys w)" and "camera_key c \<notin> set (ew_raw_paths w)"
  shows "write_camera_sample w c fine_camera None =
    (w\<lparr>ew_raw_keys := camera_key c # ew_raw_keys w, ew_raw_paths := camera_key c # ew_raw_paths w, ew_raw_rows := ew_raw_rows w + 1\<rparr>, Inr ())"
  using assms
  by (simp add: write_camera_sample_def ew_append_raw_camera_def save_raw_camera_def ew_append_raw_def ew_active_def fine_camera_def
      io_result_def Let_def)

lemma demo_keys: "camera_key (demo_camera Workspace) \<noteq> camera_key (demo_camera Wrist)"
  by (simp add: camera_key_def demo_camera_def)

lemma demo_append:
  obtains w where "ew_append_sample demo_begun demo_row (xi_sample fine_io) = (w, Inr ())" "ew_rows w = [demo_row]" "ew_count w = 1"
    "ew_started w" "\<not> ew_finalized w"
proof -
  have cams: "cn_workspace demo_row = demo_camera Workspace" "cn_wrist demo_row = demo_camera Wrist"
    by (simp_all add: demo_row_def demo_canonical_def)
  have io: "xi_sample fine_io = \<lparr>si_frames = None, si_workspace = fine_camera, si_workspace_link = None, si_wrist = fine_camera,
       si_wrist_link = None, si_row = None\<rparr>" by (simp add: fine_io_def)
  have b: "ew_started demo_begun" "\<not> ew_finalized demo_begun" "ew_raw_keys demo_begun = []" "ew_raw_paths demo_begun = []"
    "ew_rows demo_begun = []" "ew_count demo_begun = 0"
    by (simp_all add: demo_begun_def new_episode_writer_def)
  define w where "w = fst (ew_append_sample demo_begun demo_row (xi_sample fine_io))"
  have "ew_append_sample demo_begun demo_row (xi_sample fine_io) = (w, Inr ())" "ew_rows w = [demo_row]" "ew_count w = 1"
    "ew_started w" "\<not> ew_finalized w"
    using b demo_keys by (auto simp: w_def ew_append_sample_def demo_check cams io write_camera_fine io_result_def)
  then show thesis by (rule that)
qed

lemma demo_finalize:
  assumes "ew_rows w = [demo_row]" "ew_count w = 1" "ew_started w" "\<not> ew_finalized w"
  shows "ew_finalize w EpCompleted ''released'' (xi_finalize fine_io) =
    (w\<lparr>ew_finalized := True, ew_status := Some EpCompleted, ew_reason := ''released''\<rparr>, Inr ())"
  using assms
  by (simp add: ew_finalize_def ew_active_def fine_io_def io_result_def validate_staging_def final_status_def final_reason_def Let_def)

text \<open>The worker, one item after the other; what the writer does is read off the lemmas above.\<close>

lemma aw_enqueue_free:
  "aw_error a = None \<Longrightarrow> \<not> aw_closed a \<Longrightarrow> length (aw_queue a) < aw_capacity a \<Longrightarrow> aw_enqueue a x = (aw_push a x, Inr True)"
  by (simp add: aw_enqueue_def aw_full_def)

lemma aw_take_one:
  "aw_alive a \<Longrightarrow> aw_batch a = [] \<Longrightarrow> aw_batch_size a = 1 \<Longrightarrow> aw_queue a = x # q \<Longrightarrow> aw_take a = a\<lparr>aw_batch := [x], aw_queue := q\<rparr>"
  by (simp add: aw_take_def)

lemma aw_step_written:
  "aw_batch a = [Work x] \<Longrightarrow> aw_error a = None \<Longrightarrow> \<not> aw_stop a \<Longrightarrow> run_work (aw_writer a) x io = (w, Inr ())
     \<Longrightarrow> aw_step a io = aw_count_written (a\<lparr>aw_batch := [], aw_writer := w\<rparr>) x"
  by (simp add: aw_step_def aw_execute_work_def aw_count_written_def Let_def)

lemma aw_step_finalize:
  "aw_batch a = [Terminal (TFinalize s r)] \<Longrightarrow> aw_error a = None \<Longrightarrow> \<not> aw_stop a \<Longrightarrow> \<not> aw_begin_failed a
     \<Longrightarrow> ew_finalize (aw_writer a) s r (xi_finalize io) = (w, Inr ())
     \<Longrightarrow> aw_step a io = a\<lparr>aw_batch := [], aw_writer := w, aw_result := Some (Inr ()), aw_final_mark := Some (length (aw_log a))\<rparr>"
  by (simp add: aw_step_def aw_execute_terminal_def Let_def)

lemma demo_idle:
  assumes "mk_async_writer (new_episode_writer 30) 4 1 (Fin 1) (Fin 5) False = Inr a"
  shows "aw_queue a = []" "aw_writer a = new_episode_writer 30" "aw_error a = None" "aw_alive a" "\<not> aw_stop a" "aw_batch a = []"
    "aw_batch_size a = 1" "\<not> aw_begin_failed a" "\<not> aw_closed a" "aw_capacity a = 4" "\<not> aw_require_refs a"
  using assms by (auto simp: mk_async_writer_def)

lemma demo_queue:
  assumes "mk_async_writer (new_episode_writer 30) 4 1 (Fin 1) (Fin 5) False = Inr a"
  defines "b \<equiv> async_run a [AvBegin demo_start 100, AvSample (demo_canonical 20), AvFinalize EpCompleted ''released'']"
  shows "aw_queue b = [Work (DoBegin demo_start 100), Work (DoSample (demo_canonical 20)), Terminal (TFinalize EpCompleted ''released'')]"
    and "aw_writer b = new_episode_writer 30" "aw_error b = None" "aw_alive b" "\<not> aw_stop b" "aw_batch b = []" "aw_batch_size b = 1"
      "\<not> aw_begin_failed b"
  using demo_idle[OF assms(1)]
  by (simp_all add: b_def aw_begin_def demo_start_valid aw_enqueue_free aw_push_def aw_append_sample_def aw_finalize_def
      aw_request_def aw_full_def Let_def)

lemma demo_worked:
  assumes "aw_queue b = [Work (DoBegin demo_start 100), Work (DoSample (demo_canonical 20)), Terminal (TFinalize EpCompleted ''released'')]"
    and "aw_writer b = new_episode_writer 30" "aw_error b = None" "aw_alive b" "\<not> aw_stop b" "aw_batch b = []" "aw_batch_size b = 1"
    and "\<not> aw_begin_failed b"
  obtains b' where "async_run b [AvTake, AvStep fine_io, AvTake, AvStep fine_io, AvTake, AvStep fine_io] = b'"
    "ew_status (aw_writer b') = Some EpCompleted" "ew_rows (aw_writer b') = [demo_row]"
proof -
  have io: "xi_made fine_io = None" "xi_metadata fine_io = None" by (simp_all add: fine_io_def)
  have zero: "(demo_canonical 20)\<lparr>cn_frame_index := ew_count demo_begun\<rparr> = demo_row"
    by (simp add: demo_row_def demo_begun_def new_episode_writer_def)
  obtain w where w: "ew_append_sample demo_begun demo_row (xi_sample fine_io) = (w, Inr ())" "ew_rows w = [demo_row]" "ew_count w = 1"
    "ew_started w" "\<not> ew_finalized w" by (rule demo_append)
  show thesis
    by (rule that[OF refl])
      (use assms w in \<open>simp_all add: aw_take_one aw_step_written aw_step_finalize demo_begin io zero aw_count_written_def Let_def
        demo_finalize\<close>)
qed

theorem async_writer_fifo_witness:
  "\<exists>a. let a' = async_run a [AvRaw ''x'', AvRaw ''y'', AvTake, AvStep fine_io] in
     aw_accepted a' = [DoRaw ''x'', DoRaw ''y''] \<and> map fst (aw_log a') = [DoRaw ''x''] \<and> waiting a' = [DoRaw ''y'']"
proof -
  obtain a where a: "mk_async_writer (new_episode_writer 30) 4 1 (Fin 1) (Fin 5) False = Inr a"
    by (simp add: mk_async_writer_def)
  define a' where "a' = async_run a [AvRaw ''x'', AvRaw ''y'', AvTake, AvStep fine_io]"
  have empty: "aw_accepted a = []" "aw_log a = []" using a by (auto simp: mk_async_writer_def)
  have bad: "aw_execute_work b (DoRaw ''x'') io =
      aw_work_failed (b\<lparr>aw_writer := aw_writer b\<rparr>) (DoRaw ''x'') (EpRuntime ''no active episode'')"
    if "aw_error b = None" "aw_writer b = new_episode_writer 30" for b io
    using that by (simp add: aw_execute_work_def ew_append_raw_def ew_active_def new_episode_writer_def)
  have eval: "aw_accepted a' = [DoRaw ''x'', DoRaw ''y'']" "map fst (aw_log a') = [DoRaw ''x'']"
    using demo_idle[OF a] empty
    by (simp_all add: a'_def aw_enqueue_free aw_push_def aw_take_one aw_step_def bad aw_work_failed_def aw_set_error_def Let_def)
  have "aw_accepted a' = map fst (aw_log a') @ waiting a'" using async_writer_fifo[OF a a'_def] by blast
  with eval have "waiting a' = [DoRaw ''y'']" by simp
  with eval show ?thesis by (intro exI[of _ a]) (simp add: a'_def Let_def)
qed


end
