(* ===== verification/Collector.thy ===== *)
theory Collector
  imports EpisodeData "HOL-Library.AList"
begin

text \<open>
  The capture state machine of \<open>src/episode_dataset/collector.py\<close>: \<open>SingleEpisodeCollector\<close> reads control
  snapshots and camera frames, starts an episode at a trigger press, hands one canonical sample per due
  slot to an episode writer and ends the episode. The writer is a record of operations on a state of any
  type; every operation returns the new state and what the call returned or raised. The state listener
  and the durations of the diagnostics are left out. Two fields record history: the samples handed to the
  writer and its successful terminal calls.
\<close>

section \<open>The writer the collector calls\<close>

type_synonym ('w, 'a) call = "'w \<times> (episode_error, 'a) res"

record 'w sink_ops =
  so_begin :: "'w \<Rightarrow> start_prerequisites \<Rightarrow> int \<Rightarrow> ('w, unit) call"
  so_raw_camera :: "'w \<Rightarrow> camera_record \<Rightarrow> ('w, unit) call"
  so_sample :: "'w \<Rightarrow> canonical_sample \<Rightarrow> ('w, bool) call"
  so_quality :: "'w \<Rightarrow> quality_row \<Rightarrow> ('w, bool) call"
  so_raw_batch :: "'w \<Rightarrow> string list \<Rightarrow> ('w, unit) call"
  so_finalize :: "'w \<Rightarrow> episode_status \<Rightarrow> string \<Rightarrow> int option \<Rightarrow> ('w, unit) call"
  so_discard :: "'w \<Rightarrow> string \<Rightarrow> ('w, unit) call"
  so_close :: "'w \<Rightarrow> ('w, unit) call"

definition cbind :: "('c, 'a) call \<Rightarrow> ('c \<Rightarrow> 'a \<Rightarrow> ('c, 'b) call) \<Rightarrow> ('c, 'b) call" where
  "cbind m f = (case m of (c, Inl e) \<Rightarrow> (c, Inl e) | (c, Inr x) \<Rightarrow> f c x)"

text \<open>\<open>except (OSError, ValueError)\<close> around a statement.\<close>

definition on_data_error :: "('c, 'a) call \<Rightarrow> ('c \<Rightarrow> episode_error \<Rightarrow> ('c, 'a) call) \<Rightarrow> ('c, 'a) call" where
  "on_data_error m h = (case m of (c, Inl e) \<Rightarrow> if is_data_error e then h c e else (c, Inl e) | r \<Rightarrow> r)"

fun error_text :: "episode_error \<Rightarrow> string" where
  "error_text (EpValue s) = s"
| "error_text (EpRuntime s) = s"
| "error_text (EpOS s) = s"
| "error_text (EpType s) = s"
| "error_text _ = ''''"

fun timeline_exception :: "timeline_error \<Rightarrow> episode_error" where
  "timeline_exception AlreadyStarted = EpRuntime ''canonical clock already started''"
| "timeline_exception NotStarted = EpRuntime ''canonical clock has not started''"
| "timeline_exception ClockDivision = EpOther"
| "timeline_exception TimestampRegression = EpValue ''source timestamp regressed''"
| "timeline_exception _ = EpValue ''timeline''"

definition lift_timeline :: "(timeline_error, 'a) res \<Rightarrow> (episode_error, 'a) res" where
  "lift_timeline r = (case r of Inl e \<Rightarrow> Inl (timeline_exception e) | Inr x \<Rightarrow> Inr x)"

section \<open>State\<close>

datatype capture_state = CapIdle | CapArming | CapRec | CapFinalizing | CapDone

datatype closing = Published episode_status string | Rejected string

type_synonym device_clock = "pyfloat \<times> pyfloat \<times> int \<times> int \<times> string \<times> string"

datatype source_id = RingSource int | FrameSource int int int

record collector_config =
  kc_camera_max_age_ns :: int
  kc_control_max_age_ns :: int
  kc_max_start_delta :: pyfloat
  kc_max_hand_delta :: pyfloat
  kc_defer :: bool
  kc_retry :: bool
  kc_severe_stale_ns :: int
  kc_stale_limit :: int
  kc_missing_timeout_ns :: int
  kc_required_limit :: int
  kc_min_valid_ratio :: pyfloat
  kc_max_invalid_run :: int

record deferral =
  df_rejection :: "string option"
  df_finish :: "(string \<times> int option) option"
  df_discard :: "string option"
  df_abort :: "(string \<times> bool \<times> string option) option"

record camera_quality =
  cq_stale_run :: int
  cq_stale_count :: int
  cq_drops :: int
  cq_repeated :: int
  cq_valid :: int
  cq_invalid :: int
  cq_invalid_run :: int
  cq_longest_run :: int
  cq_ages_ns :: "int list"

record slot_counts =
  sl_missing_source :: int
  sl_total :: int
  sl_valid_all :: int
  sl_invalid_any :: int
  sl_metadata_only :: int
  sl_required_run :: int
  sl_required_total :: int

record 'w collector =
  cl_config :: collector_config
  cl_writer :: 'w
  cl_state :: capture_state
  cl_clock :: canonical_clock
  cl_control :: "control_sample causal_timeline"
  cl_cameras :: "camera_role \<Rightarrow> camera_record causal_timeline"
  cl_enabled :: "string list"
  cl_indexed :: "string \<rightharpoonup> int"
  cl_last_trigger :: bool
  cl_segment_id :: int
  cl_segment_mode :: "string option"
  cl_press_ns :: "int option"
  cl_camera_clock :: "camera_role \<rightharpoonup> device_clock"
  cl_canonical_id :: "camera_role \<rightharpoonup> source_id"
  cl_source_ns :: "string \<rightharpoonup> int"
  cl_result :: bool
  cl_reason :: "string option"
  cl_status :: "episode_status option"
  cl_deferred :: deferral
  cl_rejections :: int
  cl_last_rejection :: "string option"
  cl_quality :: "camera_role \<Rightarrow> camera_quality"
  cl_slots :: slot_counts
  cl_pending :: "quality_row list"
  cl_unpersisted :: int
  cl_handed :: "canonical_sample list"
  cl_closings :: "closing list"

definition check_collector_config :: "collector_config \<Rightarrow> (episode_error, unit) res" where
  "check_collector_config k =
     rbind (require (fle (Fin 0) (kc_min_valid_ratio k) \<and> fle (kc_min_valid_ratio k) (Fin 1)) (EpValue ''quality_min_valid_ratio'')) (\<lambda>_.
     rbind (require (0 \<le> kc_max_invalid_run k) (EpValue ''quality_max_invalid_run'')) (\<lambda>_.
     rbind (require (0 < kc_stale_limit k) (EpValue ''camera_consecutive_stale_limit'')) (\<lambda>_.
     rbind (require (kc_camera_max_age_ns k \<le> kc_severe_stale_ns k) (EpValue ''camera severe stale limit'')) (\<lambda>_.
     rbind (require (kc_severe_stale_ns k \<le> kc_missing_timeout_ns k) (EpValue ''camera missing timeout'')) (\<lambda>_.
     rbind (require (0 < kc_required_limit k) (EpValue ''canonical required field consecutive limit'')) (\<lambda>_.
     rbind (require (is_finite (kc_max_start_delta k) \<and> \<not> flt (kc_max_start_delta k) (Fin 0)) (EpValue ''maximum_start_delta_rad'')) (\<lambda>_.
     require (is_finite (kc_max_hand_delta k) \<and> \<not> flt (kc_max_hand_delta k) (Fin 0)) (EpValue ''maximum_hand_start_delta_rad''))))))))"

definition new_camera_quality :: camera_quality where
  "new_camera_quality = \<lparr>cq_stale_run = 0, cq_stale_count = 0, cq_drops = 0, cq_repeated = 0, cq_valid = 0, cq_invalid = 0,
     cq_invalid_run = 0, cq_longest_run = 0, cq_ages_ns = []\<rparr>"

definition no_slots :: slot_counts where
  "no_slots = \<lparr>sl_missing_source = 0, sl_total = 0, sl_valid_all = 0, sl_invalid_any = 0, sl_metadata_only = 0,
     sl_required_run = 0, sl_required_total = 0\<rparr>"

definition nothing_deferred :: deferral where
  "nothing_deferred = \<lparr>df_rejection = None, df_finish = None, df_discard = None, df_abort = None\<rparr>"

definition mk_collector :: "'w \<Rightarrow> int \<Rightarrow> collector_config \<Rightarrow> (episode_error, 'w collector) res" where
  "mk_collector w fps k =
     rbind (check_collector_config k) (\<lambda>_.
     rbind (lift_timeline (mk_clock fps)) (\<lambda>clock.
     rbind (lift_timeline (mk_timeline (kc_control_max_age_ns k) 4096)) (\<lambda>control.
     rbind (lift_timeline (mk_timeline (kc_camera_max_age_ns k) 16)) (\<lambda>camera.
     Inr \<lparr>cl_config = k, cl_writer = w, cl_state = CapIdle, cl_clock = clock, cl_control = control, cl_cameras = (\<lambda>_. camera),
          cl_enabled = [], cl_indexed = Map.empty, cl_last_trigger = False, cl_segment_id = 0, cl_segment_mode = None,
          cl_press_ns = None, cl_camera_clock = Map.empty, cl_canonical_id = Map.empty, cl_source_ns = Map.empty,
          cl_result = False, cl_reason = None, cl_status = None, cl_deferred = nothing_deferred, cl_rejections = 0,
          cl_last_rejection = None, cl_quality = (\<lambda>_. new_camera_quality), cl_slots = no_slots, cl_pending = [],
          cl_unpersisted = 0, cl_handed = [], cl_closings = []\<rparr>))))"

section \<open>Ending an episode\<close>

definition sink_finalize :: "'w sink_ops \<Rightarrow> episode_status \<Rightarrow> string \<Rightarrow> int option \<Rightarrow> 'w collector \<Rightarrow> ('w collector, unit) call" where
  "sink_finalize ops status reason release_ns c =
     (case so_finalize ops (cl_writer c) status reason release_ns of
        (w, Inl e) \<Rightarrow> (c\<lparr>cl_writer := w\<rparr>, Inl e)
      | (w, Inr _) \<Rightarrow> (c\<lparr>cl_writer := w, cl_result := True, cl_closings := cl_closings c @ [Published status reason]\<rparr>, Inr ()))"

definition sink_discard :: "'w sink_ops \<Rightarrow> string \<Rightarrow> 'w collector \<Rightarrow> ('w collector, unit) call" where
  "sink_discard ops reason c =
     (case so_discard ops (cl_writer c) reason of
        (w, Inl e) \<Rightarrow> (c\<lparr>cl_writer := w\<rparr>, Inl e)
      | (w, Inr _) \<Rightarrow> (c\<lparr>cl_writer := w, cl_result := True, cl_closings := cl_closings c @ [Rejected reason]\<rparr>, Inr ()))"

definition end_as :: "string \<Rightarrow> episode_status \<Rightarrow> 'w collector \<Rightarrow> 'w collector" where
  "end_as reason status c = c\<lparr>cl_reason := Some reason, cl_status := Some status, cl_state := CapDone\<rparr>"

definition reject_start :: "'w sink_ops \<Rightarrow> string \<Rightarrow> string \<Rightarrow> 'w collector \<Rightarrow> ('w collector, unit) call" where
  "reject_start ops rejection reason c =
     cbind (if kc_defer (cl_config c) then (c\<lparr>cl_deferred := (cl_deferred c)\<lparr>df_rejection := Some rejection\<rparr>\<rparr>, Inr ())
            else sink_discard ops rejection c)
       (\<lambda>c1 _. (end_as reason EpInvalid c1, Inr ()))"

definition abort_text :: "string \<Rightarrow> string option \<Rightarrow> string" where
  "abort_text reason detail = (case detail of None \<Rightarrow> reason | Some d \<Rightarrow> reason @ '':'' @ d)"

definition finalize_now :: "'w sink_ops \<Rightarrow> episode_status \<Rightarrow> string \<Rightarrow> int option \<Rightarrow> 'w collector \<Rightarrow> ('w collector, unit) call" where
  "finalize_now ops status reason release_ns c =
     cbind (sink_finalize ops status reason release_ns (c\<lparr>cl_state := CapFinalizing\<rparr>)) (\<lambda>c1 _. (c1\<lparr>cl_state := CapDone\<rparr>, Inr ()))"

definition abort_status :: "bool \<Rightarrow> episode_status" where
  "abort_status invalid = (if invalid then EpInvalid else EpAborted)"

definition cl_abort :: "'w sink_ops \<Rightarrow> string \<Rightarrow> bool \<Rightarrow> string option \<Rightarrow> 'w collector \<Rightarrow> ('w collector, unit) call" where
  "cl_abort ops reason invalid detail c =
     (if cl_state c = CapDone then (c, Inr ())
      else if cl_state c \<in> {CapIdle, CapArming} then reject_start ops (abort_text reason detail) reason c
      else let c1 = c\<lparr>cl_reason := Some reason, cl_status := Some (abort_status invalid)\<rparr> in
        if kc_defer (cl_config c)
        then (c1\<lparr>cl_deferred := (cl_deferred c)\<lparr>df_abort := Some (reason, invalid, detail)\<rparr>, cl_state := CapDone\<rparr>, Inr ())
        else finalize_now ops (abort_status invalid) reason None c1)"

definition complete_session :: "'w sink_ops \<Rightarrow> string \<Rightarrow> int option \<Rightarrow> 'w collector \<Rightarrow> ('w collector, unit) call" where
  "complete_session ops reason release_ns c =
     (if kc_defer (cl_config c)
      then (end_as reason EpCompleted (c\<lparr>cl_deferred := (cl_deferred c)\<lparr>df_finish := Some (reason, release_ns)\<rparr>\<rparr>), Inr ())
      else cbind (sink_finalize ops EpCompleted reason release_ns (c\<lparr>cl_state := CapFinalizing\<rparr>))
             (\<lambda>c1 _. (end_as reason EpCompleted c1, Inr ())))"

definition finish_completed :: "'w sink_ops \<Rightarrow> int \<Rightarrow> 'w collector \<Rightarrow> ('w collector, unit) call" where
  "finish_completed ops release_ns c = complete_session ops ''arm_trigger_released'' (Some release_ns) c"

definition discard_current :: "'w sink_ops \<Rightarrow> string \<Rightarrow> 'w collector \<Rightarrow> ('w collector, unit) call" where
  "discard_current ops reason c =
     (if cl_state c = CapDone then (c, Inr ())
      else if cl_state c \<in> {CapIdle, CapArming} then reject_start ops reason reason c
      else if kc_defer (cl_config c)
      then (end_as reason EpInvalid (c\<lparr>cl_deferred := (cl_deferred c)\<lparr>df_discard := Some reason\<rparr>\<rparr>), Inr ())
      else cbind (sink_discard ops reason (c\<lparr>cl_state := CapFinalizing\<rparr>)) (\<lambda>c1 _. (end_as reason EpInvalid c1, Inr ())))"

section \<open>Quality rows\<close>

definition publish_quality :: "'w sink_ops \<Rightarrow> quality_row \<Rightarrow> 'w collector \<Rightarrow> ('w collector, unit) call" where
  "publish_quality ops q c =
     (case so_quality ops (cl_writer c) q of
        (w, Inl e) \<Rightarrow> (if is_data_error e then cl_abort ops ''recording_writer_failure'' False (Some (error_text e)) (c\<lparr>cl_writer := w\<rparr>)
                     else (c\<lparr>cl_writer := w\<rparr>, Inl e))
      | (w, Inr True) \<Rightarrow> (c\<lparr>cl_writer := w\<rparr>, Inr ())
      | (w, Inr False) \<Rightarrow> (c\<lparr>cl_writer := w, cl_pending := deque_append 4096 q (cl_pending c)\<rparr>, Inr ()))"

text \<open>
  The flush before a deferred finalization retries a full queue until a deadline, \<open>k\<close> retries away, has
  passed; the rows that are still refused are counted.
\<close>

function flush_rows :: "'w sink_ops \<Rightarrow> nat \<Rightarrow> quality_row list \<Rightarrow> 'w collector \<Rightarrow> ('w collector, unit) call" where
  "flush_rows ops k [] c = (c, Inr ())"
| "flush_rows ops k (q # qs) c =
     (case so_quality ops (cl_writer c) q of
        (w, Inl e) \<Rightarrow> (let c1 = c\<lparr>cl_writer := w\<rparr> in
           if is_data_error e then flush_rows ops k qs (c1\<lparr>cl_unpersisted := cl_unpersisted c1 + 1\<rparr>) else (c1, Inl e))
      | (w, Inr True) \<Rightarrow> flush_rows ops k qs (c\<lparr>cl_writer := w\<rparr>)
      | (w, Inr False) \<Rightarrow>
          (if k = 0 then flush_rows ops 0 qs (c\<lparr>cl_writer := w, cl_unpersisted := cl_unpersisted c + 1\<rparr>)
           else flush_rows ops (k - 1) (q # qs) (c\<lparr>cl_writer := w\<rparr>)))"
  by pat_completeness auto

termination
  by (relation "measures [\<lambda>(ops, k, qs, c). length qs, \<lambda>(ops, k, qs, c). k]") auto

definition flush_quality_events :: "'w sink_ops \<Rightarrow> nat \<Rightarrow> 'w collector \<Rightarrow> ('w collector, unit) call" where
  "flush_quality_events ops k c = flush_rows ops k (cl_pending c) (c\<lparr>cl_pending := []\<rparr>)"

definition write_deferred :: "'w sink_ops \<Rightarrow> nat \<Rightarrow> deferral \<Rightarrow> 'w collector \<Rightarrow> ('w collector, unit) call" where
  "write_deferred ops k d c =
     (case df_rejection d of
        Some reason \<Rightarrow> sink_discard ops reason (c\<lparr>cl_deferred := d\<lparr>df_rejection := None\<rparr>\<rparr>)
      | None \<Rightarrow> (case df_finish d of
        Some (reason, release_ns) \<Rightarrow>
          cbind (flush_quality_events ops k (c\<lparr>cl_deferred := d\<lparr>df_finish := None\<rparr>\<rparr>))
            (\<lambda>c1 _. finalize_now ops EpCompleted reason release_ns c1)
      | None \<Rightarrow> (case df_discard d of
        Some reason \<Rightarrow>
          cbind (sink_discard ops reason (c\<lparr>cl_deferred := d\<lparr>df_discard := None\<rparr>, cl_state := CapFinalizing\<rparr>))
            (\<lambda>c1 _. (c1\<lparr>cl_state := CapDone\<rparr>, Inr ()))
      | None \<Rightarrow> (case df_abort d of
        Some (reason, invalid, detail) \<Rightarrow>
          cbind (flush_quality_events ops k (c\<lparr>cl_deferred := d\<lparr>df_abort := None\<rparr>, cl_state := CapFinalizing\<rparr>))
            (\<lambda>c1 _. finalize_now ops (abort_status invalid) reason None c1)
      | None \<Rightarrow> (c, Inr ())))))"

definition finalize_pending :: "'w sink_ops \<Rightarrow> nat \<Rightarrow> 'w collector \<Rightarrow> ('w collector, unit) call" where
  "finalize_pending ops k c = (if cl_result c then (c, Inr ()) else write_deferred ops k (cl_deferred c) c)"

section \<open>A canonical slot\<close>

definition role_name :: "camera_role \<Rightarrow> string" where
  "role_name r = (case r of Workspace \<Rightarrow> ''workspace'' | Wrist \<Rightarrow> ''wrist'')"

definition roles :: "camera_role list" where
  "roles = [Workspace, Wrist]"

definition causal_sources :: "string list" where
  "causal_sources = [''jaka_observation'', ''jaka_command'', ''rh56_angle_act'', ''rh56_force_act'']"

text \<open>A snapshot that carries a source sampled at or before the slot.\<close>

definition causal_for :: "string \<Rightarrow> int \<Rightarrow> control_sample \<Rightarrow> bool" where
  "causal_for name t s \<longleftrightarrow> map_of (cs_source_domains s) name = Some ''host_monotonic_ns''
     \<and> (case map_of (cs_source_ns s) name of Some (Some k) \<Rightarrow> k \<le> t | _ \<Rightarrow> False)"

definition source_time :: "string \<Rightarrow> control_sample option \<Rightarrow> int option" where
  "source_time name sel = (case sel of None \<Rightarrow> None | Some s \<Rightarrow> (case map_of (cs_source_ns s) name of Some v \<Rightarrow> v | None \<Rightarrow> None))"

definition replace_source :: "string \<Rightarrow> control_sample option \<Rightarrow> control_sample \<Rightarrow> control_sample" where
  "replace_source name sel s =
     (let s1 = s\<lparr>cs_source_ns := AList.update name (source_time name sel) (cs_source_ns s),
                 cs_source_domains := AList.update name ''host_monotonic_ns'' (cs_source_domains s)\<rparr> in
      if name = ''jaka_observation'' then
        s1\<lparr>cs_measured_q := Option.bind sel cs_measured_q, cs_measured_dq := Option.bind sel cs_measured_dq,
           cs_q_source := (case sel of None \<Rightarrow> ''unavailable'' | Some x \<Rightarrow> cs_q_source x),
           cs_dq_source := (case sel of None \<Rightarrow> ''unavailable'' | Some x \<Rightarrow> cs_dq_source x)\<rparr>
      else if name = ''rh56_angle_act'' then
        s1\<lparr>cs_hand_observation := Option.bind sel cs_hand_observation,
           cs_hand_source := (case sel of None \<Rightarrow> ''unavailable'' | Some x \<Rightarrow> cs_hand_source x)\<rparr>
      else if name = ''rh56_force_act'' then s1\<lparr>cs_force := Option.bind sel cs_force\<rparr>
      else s1)"

definition causal_control_at :: "'w collector \<Rightarrow> control_sample \<Rightarrow> int \<Rightarrow> control_sample" where
  "causal_control_at c base t =
     fold (\<lambda>name s. if name \<in> set (cl_enabled c)
                    then replace_source name (sel_value (latest_matching (cl_control c) t (causal_for name t))) s else s)
       causal_sources base"

definition camera_source_id :: "camera_record \<Rightarrow> source_id" where
  "camera_source_id r = (case ring_sequence_of r of Some s \<Rightarrow> RingSource s
     | None \<Rightarrow> FrameSource (cam_host_ns r) (cam_rgb_number r) (cam_depth_number r))"

definition selection_age :: "'a source_selection \<Rightarrow> int option" where
  "selection_age s = map_option (\<lambda>offset. max 0 (- offset)) (sel_signed_offset_ns s)"

definition count_slots :: "(slot_counts \<Rightarrow> slot_counts) \<Rightarrow> 'w collector \<Rightarrow> 'w collector" where
  "count_slots f c = c\<lparr>cl_slots := f (cl_slots c)\<rparr>"

definition count_missing_source :: "'w collector \<Rightarrow> 'w collector" where
  "count_missing_source = count_slots (\<lambda>s. s\<lparr>sl_missing_source := sl_missing_source s + 1, sl_invalid_any := sl_invalid_any s + 1,
     sl_metadata_only := sl_metadata_only s + 1\<rparr>)"

definition note_valid_camera :: "camera_quality \<Rightarrow> camera_quality" where
  "note_valid_camera q = q\<lparr>cq_stale_run := 0, cq_valid := cq_valid q + 1, cq_invalid_run := 0\<rparr>"

definition note_stale_camera :: "camera_record source_selection \<Rightarrow> camera_quality \<Rightarrow> camera_quality" where
  "note_stale_camera sel q =
     q\<lparr>cq_invalid := cq_invalid q + 1, cq_invalid_run := cq_invalid_run q + 1,
       cq_longest_run := max (cq_longest_run q) (cq_invalid_run q + 1), cq_stale_count := cq_stale_count q + 1,
       cq_stale_run := cq_stale_run q + 1,
       cq_ages_ns := (case selection_age sel of None \<Rightarrow> cq_ages_ns q | Some a \<Rightarrow> deque_append 4096 a (cq_ages_ns q))\<rparr>"

definition note_aged_camera :: "camera_record source_selection \<Rightarrow> camera_quality \<Rightarrow> camera_quality" where
  "note_aged_camera sel q =
     (note_valid_camera q)\<lparr>cq_ages_ns := deque_append 4096 (case selection_age sel of Some a \<Rightarrow> a | None \<Rightarrow> 0) (cq_ages_ns q)\<rparr>"

definition persistent_stale :: "collector_config \<Rightarrow> camera_record source_selection \<Rightarrow> camera_quality \<Rightarrow> bool" where
  "persistent_stale k sel q \<longleftrightarrow> \<not> sel_valid sel \<and> kc_stale_limit k \<le> cq_stale_run q
     \<and> (case selection_age sel of None \<Rightarrow> True | Some a \<Rightarrow> kc_severe_stale_ns k \<le> a \<or> kc_missing_timeout_ns k \<le> a)"

definition selection_quality :: "camera_record source_selection \<Rightarrow> role_quality" where
  "selection_quality sel = \<lparr>rq_valid = sel_valid sel, rq_age_ns = selection_age sel,
     rq_sequence = Option.bind (sel_value sel) ring_sequence_of, rq_reason = sel_reason sel\<rparr>"

definition stale_row :: "int \<Rightarrow> int \<Rightarrow> control_sample \<Rightarrow> (camera_role \<Rightarrow> camera_record source_selection) \<Rightarrow> quality_row" where
  "stale_row slot t control sel = \<lparr>ql_timestamp_ns = t, ql_slot = Some slot, ql_reason = ''camera_stale_or_missing'',
     ql_control_ns = cs_host_ns control, ql_missing = [], ql_roles = map (\<lambda>r. (r, selection_quality (sel r))) roles\<rparr>"

fun join_commas :: "string list \<Rightarrow> string" where
  "join_commas [] = ''''"
| "join_commas [x] = x"
| "join_commas (x # xs) = x @ '','' @ join_commas xs"

definition stale_slot ::
  "'w sink_ops \<Rightarrow> int \<Rightarrow> control_sample \<Rightarrow> (camera_role \<Rightarrow> camera_record source_selection) \<Rightarrow> 'w collector \<Rightarrow> ('w collector, unit) call" where
  "stale_slot ops t control sel c0 =
     (let c = count_missing_source c0;
          quality = (\<lambda>r. if sel_valid (sel r) then note_valid_camera (cl_quality c r) else note_stale_camera (sel r) (cl_quality c r));
          persistent = filter (\<lambda>r. persistent_stale (cl_config c) (sel r) (quality r)) roles in
      case publish_quality ops (stale_row (cc_last_nominal_slot (cl_clock c)) t control sel) (c\<lparr>cl_quality := quality\<rparr>) of
        (c1, Inl e) \<Rightarrow> (if is_data_error e then cl_abort ops ''recording_writer_failure'' False (Some (error_text e)) c1 else (c1, Inl e))
      | (c1, Inr _) \<Rightarrow>
          (if persistent = [] then (c1, Inr ())
           else cl_abort ops (''persistent_camera_acquisition_fault:'' @ join_commas (map role_name persistent)) False None c1))"

definition missing_fields :: "control_sample \<Rightarrow> string list" where
  "missing_fields s = map fst (filter (\<lambda>x. \<not> snd x)
     [(''accepted_arm_q'', cs_accepted_q s \<noteq> None), (''arm_q_measured'', cs_measured_q s \<noteq> None),
      (''arm_dq_measured'', cs_measured_dq s \<noteq> None), (''tcp_pose_xyzw'', cs_tcp_pose s \<noteq> None),
      (''hand_observation'', cs_hand_observation s \<noteq> None), (''hand_target'', cs_hand_target s \<noteq> None)])"

definition incomplete_row :: "int \<Rightarrow> int \<Rightarrow> control_sample \<Rightarrow> quality_row" where
  "incomplete_row slot t s = \<lparr>ql_timestamp_ns = t, ql_slot = Some slot, ql_reason = ''canonical_required_field_unavailable'',
     ql_control_ns = cs_host_ns s, ql_missing = missing_fields s, ql_roles = []\<rparr>"

definition incomplete_slot :: "'w sink_ops \<Rightarrow> int \<Rightarrow> control_sample \<Rightarrow> 'w collector \<Rightarrow> ('w collector, unit) call" where
  "incomplete_slot ops t s c0 =
     (let c = count_slots (\<lambda>n. n\<lparr>sl_required_run := sl_required_run n + 1, sl_required_total := sl_required_total n + 1,
            sl_metadata_only := sl_metadata_only n + 1\<rparr>) c0 in
      cbind (publish_quality ops (incomplete_row (cc_last_nominal_slot (cl_clock c)) t s) c)
        (\<lambda>c1 _. if kc_required_limit (cl_config c1) \<le> sl_required_run (cl_slots c1)
                then cl_abort ops (''persistent_canonical_required_field_loss:'' @ join_commas (missing_fields s)) True None c1
                else (c1, Inr ())))"

definition note_repeat :: "camera_role \<Rightarrow> camera_record \<Rightarrow> 'w collector \<Rightarrow> 'w collector \<times> bool" where
  "note_repeat r camera c =
     (let repeated = (cl_canonical_id c r = Some (camera_source_id camera)) in
      (c\<lparr>cl_quality := (if repeated then (cl_quality c)(r := (cl_quality c r)\<lparr>cq_repeated := cq_repeated (cl_quality c r) + 1\<rparr>)
                        else cl_quality c),
         cl_canonical_id := (cl_canonical_id c)(r \<mapsto> camera_source_id camera)\<rparr>, repeated))"

definition full_queue_row :: "canonical_sample \<Rightarrow> string \<Rightarrow> quality_row" where
  "full_queue_row s reason = \<lparr>ql_timestamp_ns = cn_timestamp_ns s, ql_slot = cn_nominal_slot s, ql_reason = reason,
     ql_control_ns = cs_host_ns (cn_control s), ql_missing = [],
     ql_roles = map (\<lambda>(r, camera). (r, \<lparr>rq_valid = True, rq_age_ns = Some (max 0 (cn_timestamp_ns s - cam_host_ns camera)),
        rq_sequence = ring_sequence_of camera, rq_reason = None\<rparr>)) [(Workspace, cn_workspace s), (Wrist, cn_wrist s)]\<rparr>"

definition hand_over :: "'w sink_ops \<Rightarrow> canonical_sample \<Rightarrow> 'w collector \<Rightarrow> ('w collector, unit) call" where
  "hand_over ops s c =
     (let c1 = c\<lparr>cl_handed := cl_handed c @ [s]\<rparr> in
      on_data_error
        (case so_sample ops (cl_writer c1) s of
           (w, Inl e) \<Rightarrow> (c1\<lparr>cl_writer := w\<rparr>, Inl e)
         | (w, Inr True) \<Rightarrow> (c1\<lparr>cl_writer := w\<rparr>, Inr ())
         | (w, Inr False) \<Rightarrow>
             publish_quality ops (full_queue_row s ''recorder_queue_full'')
               (count_slots (\<lambda>n. n\<lparr>sl_metadata_only := sl_metadata_only n + 1\<rparr>) (c1\<lparr>cl_writer := w\<rparr>)))
        (\<lambda>c2 e. cl_abort ops ''recording_writer_failure'' False (Some (error_text e)) c2))"

definition canonical_of :: "canonical_clock \<Rightarrow> int \<Rightarrow> int \<Rightarrow> control_sample source_selection \<Rightarrow> control_sample
    \<Rightarrow> (camera_role \<Rightarrow> camera_record source_selection) \<Rightarrow> (camera_role \<Rightarrow> camera_record) \<Rightarrow> camera_role list \<Rightarrow> canonical_sample" where
  "canonical_of clock index t control_sel control sel camera repeated =
     (let offset = (\<lambda>v. case v of Some d \<Rightarrow> d | None \<Rightarrow> 0); at_start = (\<lambda>v. if index = 0 then 0 else v) in
      \<lparr>cn_frame_index = index, cn_timestamp_ns = t, cn_control = control, cn_workspace = camera Workspace, cn_wrist = camera Wrist,
       cn_offsets_ns = [(''control'', offset (sel_signed_offset_ns control_sel)),
         (''workspace'', offset (sel_signed_offset_ns (sel Workspace))), (''wrist'', offset (sel_signed_offset_ns (sel Wrist)))],
       cn_synchronized = True, cn_nominal_slot = Some (at_start (cc_last_nominal_slot clock)),
       cn_missed_before = at_start (cc_last_missed_before clock), cn_missed_after = at_start (cc_last_missed_after clock),
       cn_repeated = repeated\<rparr>)"

definition complete_slot :: "'w sink_ops \<Rightarrow> int \<Rightarrow> int \<Rightarrow> control_sample source_selection \<Rightarrow> control_sample
    \<Rightarrow> (camera_role \<Rightarrow> camera_record source_selection) \<Rightarrow> (camera_role \<Rightarrow> camera_record) \<Rightarrow> 'w collector \<Rightarrow> ('w collector, unit) call" where
  "complete_slot ops index t control_sel control sel camera c0 =
     (let c = count_slots (\<lambda>n. n\<lparr>sl_required_run := 0\<rparr>) c0;
          (c1, first) = note_repeat Workspace (camera Workspace) c;
          (c2, second) = note_repeat Wrist (camera Wrist) c1;
          repeated = (if first then [Workspace] else []) @ (if second then [Wrist] else []) in
      hand_over ops (canonical_of (cl_clock c2) index t control_sel control sel camera repeated) c2)"

definition fresh_slot :: "'w sink_ops \<Rightarrow> int \<Rightarrow> int \<Rightarrow> control_sample source_selection \<Rightarrow> control_sample
    \<Rightarrow> (camera_role \<Rightarrow> camera_record source_selection) \<Rightarrow> (camera_role \<Rightarrow> camera_record) \<Rightarrow> 'w collector \<Rightarrow> ('w collector, unit) call" where
  "fresh_slot ops index t control_sel control sel camera c0 =
     (let c = count_slots (\<lambda>n. n\<lparr>sl_valid_all := sl_valid_all n + 1\<rparr>) (c0\<lparr>cl_quality := (\<lambda>r. note_aged_camera (sel r) (cl_quality c0 r))\<rparr>) in
      if missing_fields control = [] then complete_slot ops index t control_sel control sel camera c
      else incomplete_slot ops t control c)"

text \<open>A valid selection has a value, which the code asserts.\<close>

definition fill_slot :: "'w sink_ops \<Rightarrow> int \<Rightarrow> int \<Rightarrow> control_sample source_selection
    \<Rightarrow> (camera_role \<Rightarrow> camera_record source_selection) \<Rightarrow> 'w collector \<Rightarrow> ('w collector, unit) call" where
  "fill_slot ops index t control_sel sel c =
     (if \<not> sel_valid control_sel then cl_abort ops ''stale_or_missing_source:control'' False None (count_missing_source c)
      else case sel_value control_sel of
        None \<Rightarrow> (c, Inl EpOther)
      | Some base \<Rightarrow>
          (let control = causal_control_at c base t in
           if \<not> (sel_valid (sel Workspace) \<and> sel_valid (sel Wrist)) then stale_slot ops t control sel c
           else case (sel_value (sel Workspace), sel_value (sel Wrist)) of
             (Some workspace, Some wrist) \<Rightarrow>
               fresh_slot ops index t control_sel control sel (\<lambda>r. case r of Workspace \<Rightarrow> workspace | Wrist \<Rightarrow> wrist) c
           | _ \<Rightarrow> (c, Inl EpOther)))"

definition append_canonical :: "'w sink_ops \<Rightarrow> int \<Rightarrow> int \<Rightarrow> 'w collector \<Rightarrow> ('w collector, unit) call" where
  "append_canonical ops index t c =
     fill_slot ops index t (latest_at_or_before (cl_control c) t) (\<lambda>r. latest_at_or_before (cl_cameras c r) t)
       (count_slots (\<lambda>n. n\<lparr>sl_total := sl_total n + 1\<rparr>) c)"

section \<open>The start\<close>

definition start_candidate :: "'w collector \<Rightarrow> control_sample \<Rightarrow> bool \<Rightarrow> control_sample \<times> camera_record option \<times> camera_record option" where
  "start_candidate c s0 capture_active =
     (let s = causal_control_at c s0 (cs_host_ns s0);
          frame = (\<lambda>r. let sel = latest_at_or_before (cl_cameras c r) (cs_host_ns s) in
            if sel_valid sel then sel_value sel else None) in
      (s, frame Workspace, frame Wrist))"

definition press_time :: "'w collector \<Rightarrow> control_sample \<Rightarrow> int" where
  "press_time c s = (case cl_press_ns c of Some p \<Rightarrow> if p = 0 then cs_host_ns s else p | None \<Rightarrow> cs_host_ns s)"

definition known_source_times :: "control_sample \<Rightarrow> (string \<rightharpoonup> int)" where
  "known_source_times s = (\<lambda>name. case map_of (cs_source_ns s) name of Some (Some v) \<Rightarrow> Some v | _ \<Rightarrow> None)"

definition sink_begin :: "'w sink_ops \<Rightarrow> start_prerequisites \<Rightarrow> 'w collector \<Rightarrow> ('w collector, unit) call" where
  "sink_begin ops p c = (case so_begin ops (cl_writer c) p (kc_camera_max_age_ns (cl_config c)) of (w, r) \<Rightarrow> (c\<lparr>cl_writer := w\<rparr>, r))"

definition sink_camera :: "'w sink_ops \<Rightarrow> camera_record \<Rightarrow> 'w collector \<Rightarrow> ('w collector, unit) call" where
  "sink_camera ops camera c = (case so_raw_camera ops (cl_writer c) camera of (w, r) \<Rightarrow> (c\<lparr>cl_writer := w\<rparr>, r))"

definition start_clock :: "int \<Rightarrow> 'w collector \<Rightarrow> ('w collector, unit) call" where
  "start_clock t c = (case lift_timeline (clock_start (cl_clock c) t) of Inl e \<Rightarrow> (c, Inl e) | Inr (clock, _) \<Rightarrow> (c\<lparr>cl_clock := clock\<rparr>, Inr ()))"

definition start_episode :: "'w sink_ops \<Rightarrow> control_sample \<Rightarrow> start_prerequisites \<Rightarrow> 'w collector \<Rightarrow> ('w collector, unit) call" where
  "start_episode ops s p c =
     cbind (sink_begin ops p c) (\<lambda>c1 _.
     cbind (sink_camera ops (sq_workspace p) c1) (\<lambda>c2 _.
     cbind (sink_camera ops (sq_wrist p) c2) (\<lambda>c3 _.
     cbind (start_clock (cs_host_ns s) c3) (\<lambda>c4 _.
     append_canonical ops 0 (cs_host_ns s) (c4\<lparr>cl_source_ns := known_source_times s, cl_state := CapRec\<rparr>)))))"

definition start_prerequisites_of :: "'w collector \<Rightarrow> control_sample \<Rightarrow> camera_record \<Rightarrow> camera_record \<Rightarrow> bool \<Rightarrow> start_prerequisites" where
  "start_prerequisites_of c s workspace wrist capture_active =
     \<lparr>sq_press_ns = press_time c s, sq_reference = True,
      sq_accepted = (if cs_arm_trigger s then s else s\<lparr>cs_arm_trigger := capture_active\<rparr>), sq_workspace = workspace, sq_wrist = wrist,
      sq_maximum_delta = kc_max_start_delta (cl_config c), sq_maximum_hand_delta = kc_max_hand_delta (cl_config c)\<rparr>"

definition start_refused :: "'w sink_ops \<Rightarrow> episode_error \<Rightarrow> 'w collector \<Rightarrow> ('w collector, bool) call" where
  "start_refused ops e c =
     (case e of
        EpValue _ \<Rightarrow> (if kc_retry (cl_config c)
          then (c\<lparr>cl_rejections := cl_rejections c + 1, cl_last_rejection := Some (error_text e)\<rparr>, Inr False)
          else cbind (reject_start ops (error_text e) (error_text e) c) (\<lambda>c1 _. (c1, Inr False)))
      | EpOS _ \<Rightarrow> cbind (reject_start ops (error_text e) (error_text e) c) (\<lambda>c1 _. (c1, Inr False))
      | _ \<Rightarrow> (c, Inl e))"

definition start_if_ready :: "'w sink_ops \<Rightarrow> control_sample \<Rightarrow> bool \<Rightarrow> bool \<Rightarrow> 'w collector \<Rightarrow> ('w collector, bool) call" where
  "start_if_ready ops s0 reference_established capture_active c =
     (if \<not> reference_established \<or> cs_accepted_q s0 = None then (c, Inr False)
      else case start_candidate c s0 capture_active of
        (s, Some workspace, Some wrist) \<Rightarrow>
          (if cs_measured_q s = None \<or> cs_hand_observation s = None
              \<or> cam_host_ns workspace < press_time c s \<or> cam_host_ns wrist < press_time c s then (c, Inr False)
           else case start_episode ops s (start_prerequisites_of c s workspace wrist capture_active) c of
             (c1, Inl e) \<Rightarrow> start_refused ops e c1
           | (c1, Inr _) \<Rightarrow> (c1, Inr True))
      | _ \<Rightarrow> (c, Inr False))"

section \<open>Ingestion\<close>

definition device_clock_of :: "camera_record \<Rightarrow> device_clock" where
  "device_clock_of f = (cam_rgb_ms f, cam_depth_ms f, cam_rgb_number f, cam_depth_number f, cam_rgb_domain f, cam_depth_domain f)"

fun device_clock_broken :: "device_clock \<Rightarrow> device_clock \<Rightarrow> bool" where
  "device_clock_broken (a, b, m, k, d, g) (a', b', m', k', d', g') \<longleftrightarrow>
     (flt a a' \<or> flt b b' \<or> m < m' \<or> k < k') \<or> (d, g) \<noteq> (d', g')"

definition store_frame :: "'w sink_ops \<Rightarrow> camera_record \<Rightarrow> 'w collector \<Rightarrow> ('w collector, unit) call" where
  "store_frame ops f c =
     (case lift_timeline (ct_append (cl_cameras c (cam_role f)) (cam_host_ns f) f) of
        Inl e \<Rightarrow> cl_abort ops ''camera_timestamp_regression'' True (Some (error_text e)) c
      | Inr line \<Rightarrow>
          (let c1 = c\<lparr>cl_cameras := (cl_cameras c)(cam_role f := line)\<rparr> in
           if cl_state c1 = CapRec
           then on_data_error (sink_camera ops f c1) (\<lambda>c2 e. cl_abort ops ''camera_data_write_failure'' False (Some (error_text e)) c2)
           else (c1, Inr ())))"

definition ingest_camera :: "'w sink_ops \<Rightarrow> camera_record \<Rightarrow> int \<Rightarrow> 'w collector \<Rightarrow> ('w collector, unit) call" where
  "ingest_camera ops f skipped_frames c =
     (if cl_state c = CapDone then (c, Inr ())
      else let r = cam_role f; q = cl_quality c r; previous = cl_camera_clock c r;
               c1 = c\<lparr>cl_quality := (cl_quality c)(r := q\<lparr>cq_drops := cq_drops q + max 0 skipped_frames\<rparr>),
                      cl_camera_clock := (cl_camera_clock c)(r \<mapsto> device_clock_of f)\<rparr> in
        if cl_state c = CapRec \<and> (case previous of Some p \<Rightarrow> device_clock_broken (device_clock_of f) p | None \<Rightarrow> False)
        then cl_abort ops (role_name r @ ''_camera_device_timestamp_or_frame_regression'') True None c1
        else store_frame ops f c1)"

definition segment_mode :: "control_sample \<Rightarrow> string" where
  "segment_mode s = (if cs_arm_trigger s \<and> cs_hand_grip s then ''arm_and_hand'' else if cs_arm_trigger s then ''arm_only''
     else if cs_hand_grip s then ''hand_only'' else ''both_idle'')"

definition stamp_segment :: "control_sample \<Rightarrow> 'w collector \<Rightarrow> 'w collector \<times> control_sample" where
  "stamp_segment s c =
     (let mode = segment_mode s;
          k = (if cl_segment_mode c \<noteq> None \<and> cl_segment_mode c \<noteq> Some mode then cl_segment_id c + 1 else cl_segment_id c) in
      (c\<lparr>cl_segment_id := k, cl_segment_mode := Some mode\<rparr>, s\<lparr>cs_segment_id := k, cs_segment_mode := mode\<rparr>))"

fun index_sources :: "'w sink_ops \<Rightarrow> string list \<Rightarrow> control_sample \<Rightarrow> 'w collector \<Rightarrow> ('w collector, bool) call" where
  "index_sources ops [] s c = (c, Inr True)"
| "index_sources ops (name # names) s c =
     (case map_of (cs_source_ns s) name of
        None \<Rightarrow> index_sources ops names s c
      | Some stamp \<Rightarrow>
          (let c1 = c\<lparr>cl_enabled := List.insert name (cl_enabled c)\<rparr> in
           case stamp of
             None \<Rightarrow> index_sources ops names s c1
           | Some t \<Rightarrow>
               (if map_of (cs_source_domains s) name \<noteq> Some ''host_monotonic_ns''
                then cbind (cl_abort ops (''control_source_timestamp_domain_mismatch:'' @ name) True None c1) (\<lambda>c2 _. (c2, Inr False))
                else if (case cl_indexed c1 name of Some previous \<Rightarrow> t < previous | None \<Rightarrow> False)
                then cbind (cl_abort ops (''control_source_timestamp_regression:'' @ name) True None c1) (\<lambda>c2 _. (c2, Inr False))
                else index_sources ops names s (c1\<lparr>cl_indexed := (cl_indexed c1)(name \<mapsto> t)\<rparr>))))"

fun check_source_times :: "'w sink_ops \<Rightarrow> (string \<times> int option) list \<Rightarrow> 'w collector \<Rightarrow> ('w collector, bool) call" where
  "check_source_times ops [] c = (c, Inr True)"
| "check_source_times ops ((name, None) # xs) c = check_source_times ops xs c"
| "check_source_times ops ((name, Some t) # xs) c =
     (if (case cl_source_ns c name of Some previous \<Rightarrow> t < previous | None \<Rightarrow> False)
      then cbind (cl_abort ops (''control_source_timestamp_regression:'' @ name) True None c) (\<lambda>c1 _. (c1, Inr False))
      else check_source_times ops xs (c\<lparr>cl_source_ns := (cl_source_ns c)(name \<mapsto> t)\<rparr>))"

definition append_raw_records :: "'w sink_ops \<Rightarrow> string list \<Rightarrow> 'w collector \<Rightarrow> ('w collector, unit) call" where
  "append_raw_records ops records c =
     on_data_error (case so_raw_batch ops (cl_writer c) records of (w, r) \<Rightarrow> (c\<lparr>cl_writer := w\<rparr>, r))
       (\<lambda>c1 e. cl_abort ops ''raw_data_write_failure'' False (Some (error_text e)) c1)"

definition record_step :: "'w sink_ops \<Rightarrow> control_sample \<Rightarrow> bool \<Rightarrow> 'w collector \<Rightarrow> ('w collector, unit) call" where
  "record_step ops s release_edge c =
     (if cs_controller_fault s then cl_abort ops ''controller_alarm'' False None c
      else if cs_tracking_fault s then cl_abort ops ''tracking_hard_fault'' False None c
      else if \<not> cs_heartbeat_valid s then cl_abort ops ''control_heartbeat_lost'' False None c
      else if release_edge then finish_completed ops (cs_host_ns s) c
      else case lift_timeline (clock_due (cl_clock c) (cs_host_ns s)) of
        Inl e \<Rightarrow> (c, Inl e)
      | Inr (clock, None) \<Rightarrow> (c\<lparr>cl_clock := clock\<rparr>, Inr ())
      | Inr (clock, Some (index, t)) \<Rightarrow> append_canonical ops index t (c\<lparr>cl_clock := clock\<rparr>))"

definition recording_stage :: "'w sink_ops \<Rightarrow> control_sample \<Rightarrow> string list \<Rightarrow> bool \<Rightarrow> 'w collector \<Rightarrow> ('w collector, unit) call" where
  "recording_stage ops s raw release_edge c =
     (if cl_state c \<noteq> CapRec then (c, Inr ())
      else cbind (check_source_times ops (cs_source_ns s) c) (\<lambda>c1 ok.
        if \<not> ok then (c1, Inr ())
        else if raw = [] then record_step ops s release_edge c1
        else cbind (append_raw_records ops raw c1) (\<lambda>c2 _.
          if cl_state c2 = CapDone then (c2, Inr ()) else record_step ops s release_edge c2)))"

definition released_early :: string where
  "released_early = ''trigger_released_before_reference_and_first_valid_sample''"

definition arm_on_edge :: "control_sample \<Rightarrow> bool \<Rightarrow> 'w collector \<Rightarrow> 'w collector" where
  "arm_on_edge s pressed c =
     (if cl_state c = CapIdle \<and> pressed \<and> \<not> cl_last_trigger c
      then c\<lparr>cl_last_trigger := pressed, cl_state := CapArming, cl_press_ns := Some (cs_host_ns s)\<rparr>
      else c\<lparr>cl_last_trigger := pressed\<rparr>)"

definition capture_stage :: "'w sink_ops \<Rightarrow> control_sample \<Rightarrow> bool \<Rightarrow> string list \<Rightarrow> bool \<Rightarrow> 'w collector \<Rightarrow> ('w collector, unit) call" where
  "capture_stage ops s reference_established raw pressed c0 =
     (let release_edge = (\<not> pressed \<and> cl_last_trigger c0); c = arm_on_edge s pressed c0 in
      if cl_state c = CapArming \<and> release_edge then reject_start ops released_early released_early c
      else if cl_state c = CapArming \<and> pressed then
        cbind (start_if_ready ops s reference_established pressed c) (\<lambda>c2 ok.
          if \<not> ok then recording_stage ops s raw release_edge c2
          else if raw = [] then (c2, Inr ()) else append_raw_records ops raw c2)
      else recording_stage ops s raw release_edge c)"

definition ingest_control ::
  "'w sink_ops \<Rightarrow> control_sample \<Rightarrow> bool \<Rightarrow> string list \<Rightarrow> bool option \<Rightarrow> 'w collector \<Rightarrow> ('w collector, unit) call" where
  "ingest_control ops s0 reference_established raw capture_active c0 =
     (if cl_state c0 = CapDone then (c0, Inr ())
      else let (c, s) = stamp_segment s0 c0 in
        cbind (index_sources ops causal_sources s c) (\<lambda>c1 ok.
          if \<not> ok then (c1, Inr ())
          else case lift_timeline (ct_append (cl_control c1) (cs_host_ns s) s) of
            Inl e \<Rightarrow> cl_abort ops ''control_timestamp_regression'' True (Some (error_text e)) c1
          | Inr line \<Rightarrow> capture_stage ops s reference_established raw
              (case capture_active of None \<Rightarrow> cs_arm_trigger s | Some b \<Rightarrow> b) (c1\<lparr>cl_control := line\<rparr>)))"

definition camera_fault :: "'w sink_ops \<Rightarrow> string \<Rightarrow> string \<Rightarrow> 'w collector \<Rightarrow> ('w collector, unit) call" where
  "camera_fault ops role reason c =
     (if cl_state c = CapRec then cl_abort ops (role @ ''_camera_disconnected:'' @ reason) False None c else (c, Inr ()))"

definition cl_shutdown :: "'w sink_ops \<Rightarrow> string \<Rightarrow> nat \<Rightarrow> 'w collector \<Rightarrow> ('w collector, unit) call" where
  "cl_shutdown ops reason k c =
     (if cl_state c = CapDone then finalize_pending ops k c
      else if cl_state c = CapIdle then
        (case so_close ops (cl_writer c) of
           (w, Inl e) \<Rightarrow> (c\<lparr>cl_writer := w\<rparr>, Inl e) | (w, Inr _) \<Rightarrow> (c\<lparr>cl_writer := w, cl_state := CapDone\<rparr>, Inr ()))
      else cl_abort ops reason False None c)"

definition cl_finish :: "'w sink_ops \<Rightarrow> string \<Rightarrow> int option \<Rightarrow> nat \<Rightarrow> 'w collector \<Rightarrow> ('w collector, unit) call" where
  "cl_finish ops reason release_ns k c =
     (if cl_state c = CapDone then (c, Inr ())
      else if cl_state c \<noteq> CapRec then cl_shutdown ops reason k c
      else complete_session ops reason release_ns c)"

section \<open>The verdict on an episode\<close>

fun text_contains :: "string \<Rightarrow> string \<Rightarrow> bool" where
  "text_contains part [] \<longleftrightarrow> part = []"
| "text_contains part (x # xs) \<longleftrightarrow> take (length part) (x # xs) = part \<or> text_contains part xs"

definition reason_starts :: "string \<Rightarrow> string \<Rightarrow> bool" where
  "reason_starts part s \<longleftrightarrow> take (length part) s = part"

definition role_degraded :: "collector_config \<Rightarrow> camera_quality \<Rightarrow> bool" where
  "role_degraded k q \<longleftrightarrow>
     flt (round64 (of_int (cq_valid q) / of_int (max (cq_valid q + cq_invalid q) 1))) (kc_min_valid_ratio k)
     \<or> kc_max_invalid_run k < cq_longest_run q"

definition recording_reason :: "string \<Rightarrow> bool" where
  "recording_reason r \<longleftrightarrow> reason_starts ''persistent_camera'' r \<or> text_contains ''camera'' r \<or> text_contains ''writer'' r
     \<or> text_contains ''recording'' r"

definition safety_reason :: "string \<Rightarrow> bool" where
  "safety_reason r \<longleftrightarrow> text_contains ''safety'' r \<or> text_contains ''control'' r \<or> reason_starts ''stale_or_missing_source:control'' r"

definition quality_state :: "'w collector \<Rightarrow> int \<Rightarrow> int \<Rightarrow> string" where
  "quality_state c writer_errors writer_drops =
     (let because = (\<lambda>P. case cl_reason c of Some r \<Rightarrow> r \<noteq> '''' \<and> P r | None \<Rightarrow> False) in
      if writer_errors \<noteq> 0 then ''partial_writer_failure''
      else if because recording_reason then ''aborted_recording''
      else if because safety_reason then ''aborted_robot_safety''
      else if sl_invalid_any (cl_slots c) \<noteq> 0 \<or> writer_drops \<noteq> 0 \<or> (\<exists>r \<in> set roles. role_degraded (cl_config c) (cl_quality c r))
      then ''completed_degraded'' else ''completed_valid'')"

section \<open>Runs\<close>

datatype capture_event =
    CvCamera camera_record int | CvControl control_sample bool "string list" "bool option" | CvCameraFault string string
  | CvShutdown string nat | CvFinish string "int option" nat | CvAbort string bool "string option" | CvDiscard string | CvPending nat

fun capture_call :: "'w sink_ops \<Rightarrow> 'w collector \<Rightarrow> capture_event \<Rightarrow> ('w collector, unit) call" where
  "capture_call ops c (CvCamera f skipped) = ingest_camera ops f skipped c"
| "capture_call ops c (CvControl s reference raw active) = ingest_control ops s reference raw active c"
| "capture_call ops c (CvCameraFault role reason) = camera_fault ops role reason c"
| "capture_call ops c (CvShutdown reason k) = cl_shutdown ops reason k c"
| "capture_call ops c (CvFinish reason release k) = cl_finish ops reason release k c"
| "capture_call ops c (CvAbort reason invalid detail) = cl_abort ops reason invalid detail c"
| "capture_call ops c (CvDiscard reason) = discard_current ops reason c"
| "capture_call ops c (CvPending k) = finalize_pending ops k c"

text \<open>An exception of a call reaches the caller; the collector stays as the call left it.\<close>

fun capture_run :: "'w sink_ops \<Rightarrow> 'w collector \<Rightarrow> capture_event list \<Rightarrow> 'w collector" where
  "capture_run ops c [] = c"
| "capture_run ops c (ev # evs) = capture_run ops (fst (capture_call ops c ev)) evs"

end
