(* ===== verification/CaptureSafety.thy ===== *)
theory CaptureSafety
  imports Collector
begin

text \<open>
  What a capture session hands to its writer, for any writer: samples whose sources are causal and fresh, on the
  grid of the episode clock, and an end that is decided once. An operation either leaves the data of the
  session alone (its time lines, clock and handed samples) or changes one of them; the lemmas below say
  which, and the invariants are proved from them.
\<close>

section \<open>Operations that leave the data alone\<close>

definition same_data :: "'w collector \<Rightarrow> 'w collector \<Rightarrow> bool" where
  "same_data c d \<longleftrightarrow> cl_config d = cl_config c \<and> cl_clock d = cl_clock c \<and> cl_control d = cl_control c
     \<and> cl_cameras d = cl_cameras c \<and> cl_enabled d = cl_enabled c \<and> cl_handed d = cl_handed c"

lemma same_data_refl [simp]: "same_data c c"
  by (simp add: same_data_def)

lemma same_data_trans: "same_data b c \<Longrightarrow> same_data c d \<Longrightarrow> same_data b d"
  by (simp add: same_data_def)

lemma same_data_writer [simp]: "same_data b (c\<lparr>cl_writer := w\<rparr>) = same_data b c"
  by (simp add: same_data_def)

text \<open>Sequencing and the error handler keep any predicate that is kept along the way.\<close>

lemma cbind_fst: "P (fst m) \<Longrightarrow> (\<And>c x. P c \<Longrightarrow> P (fst (f c x))) \<Longrightarrow> P (fst (cbind m f))"
  by (cases m; cases "snd m") (auto simp: cbind_def)

lemma on_data_error_fst: "P (fst m) \<Longrightarrow> (\<And>c e. P c \<Longrightarrow> P (fst (h c e))) \<Longrightarrow> P (fst (on_data_error m h))"
  by (cases m; cases "snd m") (auto simp: on_data_error_def)

lemma case_call_fst:
  "P (fst m) \<Longrightarrow> (\<And>c e. P c \<Longrightarrow> P (fst (f c e))) \<Longrightarrow> (\<And>c x. P c \<Longrightarrow> P (fst (g c x)))
     \<Longrightarrow> P (fst (case m of (c, Inl e) \<Rightarrow> f c e | (c, Inr x) \<Rightarrow> g c x))"
  by (cases m; cases "snd m") auto

text \<open>
  A predicate of the session that depends on its data and its writer only and that every writer call except the one
  taking a sample keeps, is kept by every operation that hands no sample over.
\<close>

locale capture_frame =
  fixes ops :: "'w sink_ops" and P :: "'w collector \<Rightarrow> bool"
  assumes fields: "P c \<Longrightarrow> cl_writer d = cl_writer c \<Longrightarrow> same_data c d \<Longrightarrow> P d"
    and sink_begin: "P c \<Longrightarrow> P (c\<lparr>cl_writer := fst (so_begin ops (cl_writer c) p age)\<rparr>)"
    and sink_camera: "P c \<Longrightarrow> P (c\<lparr>cl_writer := fst (so_raw_camera ops (cl_writer c) f)\<rparr>)"
    and sink_quality: "P c \<Longrightarrow> P (c\<lparr>cl_writer := fst (so_quality ops (cl_writer c) q)\<rparr>)"
    and sink_batch: "P c \<Longrightarrow> P (c\<lparr>cl_writer := fst (so_raw_batch ops (cl_writer c) rs)\<rparr>)"
    and sink_finalize: "P c \<Longrightarrow> P (c\<lparr>cl_writer := fst (so_finalize ops (cl_writer c) st r t)\<rparr>)"
    and sink_discard: "P c \<Longrightarrow> P (c\<lparr>cl_writer := fst (so_discard ops (cl_writer c) r)\<rparr>)"
    and sink_close: "P c \<Longrightarrow> P (c\<lparr>cl_writer := fst (so_close ops (cl_writer c))\<rparr>)"
begin

lemma same: "cl_writer d = cl_writer c \<Longrightarrow> same_data c d \<Longrightarrow> P d = P c"
  using fields[of c d] fields[of d c] by (auto simp: same_data_def)

lemma parts [simp]:
  "P (c\<lparr>cl_state := s\<rparr>) = P c" "P (c\<lparr>cl_deferred := d\<rparr>) = P c" "P (c\<lparr>cl_reason := r\<rparr>) = P c" "P (c\<lparr>cl_status := st\<rparr>) = P c"
  "P (c\<lparr>cl_result := b\<rparr>) = P c" "P (c\<lparr>cl_closings := xs\<rparr>) = P c" "P (c\<lparr>cl_pending := qs\<rparr>) = P c" "P (c\<lparr>cl_unpersisted := k\<rparr>) = P c"
  "P (c\<lparr>cl_quality := g\<rparr>) = P c" "P (c\<lparr>cl_slots := n\<rparr>) = P c" "P (c\<lparr>cl_canonical_id := i\<rparr>) = P c" "P (c\<lparr>cl_source_ns := m\<rparr>) = P c"
  "P (c\<lparr>cl_rejections := k\<rparr>) = P c" "P (c\<lparr>cl_last_rejection := l\<rparr>) = P c" "P (c\<lparr>cl_last_trigger := b\<rparr>) = P c"
  "P (c\<lparr>cl_press_ns := v\<rparr>) = P c" "P (c\<lparr>cl_camera_clock := h\<rparr>) = P c" "P (c\<lparr>cl_indexed := m\<rparr>) = P c"
  "P (c\<lparr>cl_segment_id := k\<rparr>) = P c" "P (c\<lparr>cl_segment_mode := sm\<rparr>) = P c" "P (count_slots u c) = P c"
  "P (count_missing_source c) = P c" "P (end_as rs es c) = P c"
  by (rule same; simp add: same_data_def count_slots_def count_missing_source_def end_as_def)+

text \<open>A writer call with the session fields written beside it.\<close>

lemma sink_with: "P (c\<lparr>cl_writer := w\<rparr>) \<Longrightarrow> cl_writer d = w \<Longrightarrow> same_data c d \<Longrightarrow> P d"
  by (rule fields[of "c\<lparr>cl_writer := w\<rparr>"]) (simp_all add: same_data_def)

lemma finalize: "P c \<Longrightarrow> P (fst (Collector.sink_finalize ops st r t c))"
  using sink_finalize[of c st r t]
  by (auto simp: Collector.sink_finalize_def split: prod.split sum.split elim: sink_with)

lemma discard: "P c \<Longrightarrow> P (fst (Collector.sink_discard ops r c))"
  using sink_discard[of c r] by (auto simp: Collector.sink_discard_def split: prod.split sum.split)

lemma begin_call: "P c \<Longrightarrow> P (fst (Collector.sink_begin ops p c))"
  using sink_begin[of c p "kc_camera_max_age_ns (cl_config c)"] by (auto simp: Collector.sink_begin_def split: prod.split)

lemma camera: "P c \<Longrightarrow> P (fst (Collector.sink_camera ops f c))"
  using sink_camera[of c f] by (auto simp: Collector.sink_camera_def split: prod.split)

lemma reject: "P c \<Longrightarrow> P (fst (reject_start ops x r c))"
  unfolding reject_start_def by (rule cbind_fst[where P = P]) (auto intro: discard)

lemma finalize_now: "P c \<Longrightarrow> P (fst (Collector.finalize_now ops st r t c))"
  unfolding Collector.finalize_now_def by (rule cbind_fst[where P = P]) (auto intro: finalize)

lemma abort: "P c \<Longrightarrow> P (fst (cl_abort ops r i d c))"
  by (simp add: cl_abort_def reject finalize_now Let_def)

lemma complete: "P c \<Longrightarrow> P (fst (complete_session ops r t c))"
  unfolding complete_session_def by (cases "kc_defer (cl_config c)") (auto intro!: cbind_fst[where P = P] finalize)

lemma discard_session: "P c \<Longrightarrow> P (fst (discard_current ops r c))"
  unfolding discard_current_def by (auto intro!: cbind_fst[where P = P] reject discard)

lemma publish: "P c \<Longrightarrow> P (fst (publish_quality ops q c))"
  using sink_quality[of c q] by (auto simp: publish_quality_def abort split: prod.split sum.split bool.split)

lemma flush_any: "calls = ops \<Longrightarrow> P c \<Longrightarrow> P (fst (flush_rows calls k qs c))"
proof (induction calls k qs c rule: flush_rows.induct)
  case (2 calls k q qs c)
  then show ?case using sink_quality[of c q]
    by (cases "so_quality ops (cl_writer c) q"; cases "snd (so_quality ops (cl_writer c) q)") (auto simp: Let_def split: bool.split)
qed simp

lemma flush: "P c \<Longrightarrow> P (fst (flush_rows ops k qs c))"
  by (rule flush_any[OF refl])

lemma flush_events: "P c \<Longrightarrow> P (fst (flush_quality_events ops k c))"
  by (simp add: flush_quality_events_def flush)

lemma pending: "P c \<Longrightarrow> P (fst (finalize_pending ops k c))"
  unfolding finalize_pending_def write_deferred_def
  by (auto split: prod.split bool.split option.split intro!: cbind_fst[where P = P] flush_events finalize_now discard)

lemma stale: "P c \<Longrightarrow> P (fst (stale_slot ops t s sel c))"
  unfolding stale_slot_def Let_def by (rule case_call_fst[where P = P]) (simp_all add: abort publish)

lemma incomplete: "P c \<Longrightarrow> P (fst (incomplete_slot ops t s c))"
  unfolding incomplete_slot_def Let_def by (rule cbind_fst[where P = P]) (auto intro: publish abort)

lemma raw_records: "P c \<Longrightarrow> P (fst (append_raw_records ops raw c))"
  unfolding append_raw_records_def
  using sink_batch[of c raw] by (intro on_data_error_fst[where P = P]) (auto intro: abort split: prod.split)

lemma source_times_any: "calls = ops \<Longrightarrow> P c \<Longrightarrow> P (fst (check_source_times calls xs c))"
  by (induction calls xs c rule: check_source_times.induct) (auto intro!: cbind_fst[where P = P] abort)

lemma source_times: "P c \<Longrightarrow> P (fst (check_source_times ops xs c))"
  by (rule source_times_any[OF refl])

lemma refused: "P c \<Longrightarrow> P (fst (start_refused ops e c))"
  by (auto simp: start_refused_def split: episode_error.split intro!: cbind_fst[where P = P] reject)

lemma shutdown: "P c \<Longrightarrow> P (fst (cl_shutdown ops r k c))"
  using sink_close[of c] by (auto simp: cl_shutdown_def pending abort split: prod.split sum.split)

lemma finish: "P c \<Longrightarrow> P (fst (cl_finish ops r t k c))"
  by (simp add: cl_finish_def shutdown complete)

lemma fault: "P c \<Longrightarrow> P (fst (camera_fault ops role r c))"
  by (simp add: camera_fault_def abort)

end

interpretation quiet: capture_frame ops "same_data b" for ops b
  by unfold_locales (simp_all add: same_data_def)

section \<open>What a slot hands over\<close>

definition handed_sample :: "'w collector \<Rightarrow> int \<Rightarrow> int \<Rightarrow> canonical_sample \<Rightarrow> bool" where
  "handed_sample c index t s \<longleftrightarrow>
     (\<exists>base. sel_valid (latest_at_or_before (cl_control c) t) \<and> sel_value (latest_at_or_before (cl_control c) t) = Some base
        \<and> cn_control s = causal_control_at c base t)
     \<and> (\<forall>r. sel_valid (latest_at_or_before (cl_cameras c r) t)
          \<and> sel_value (latest_at_or_before (cl_cameras c r) t) = Some (camera_of_role s r))
     \<and> missing_fields (cn_control s) = [] \<and> cn_timestamp_ns s = t \<and> cn_frame_index s = index
     \<and> cn_nominal_slot s = Some (if index = 0 then 0 else cc_last_nominal_slot (cl_clock c))"

lemma hand_over_data: "same_data (c\<lparr>cl_handed := cl_handed c @ [s]\<rparr>) (fst (hand_over ops s c))"
  unfolding hand_over_def Let_def
  by (rule on_data_error_fst[where P = "same_data (c\<lparr>cl_handed := cl_handed c @ [s]\<rparr>)"])
    (auto simp: quiet.abort quiet.publish split: prod.split sum.split bool.split)

lemma causal_control_same: "same_data c d \<Longrightarrow> causal_control_at d = causal_control_at c"
  by (simp add: causal_control_at_def[abs_def] same_data_def cong: if_cong)

lemma handed_data:
  "same_data b c \<Longrightarrow> same_data (b\<lparr>cl_handed := cl_handed b @ [s]\<rparr>) (c\<lparr>cl_handed := cl_handed c @ [s]\<rparr>)"
  by (simp add: same_data_def)

lemma complete_slot_cases:
  assumes "fst (complete_slot ops index t control_sel control sel camera c) = c'"
  obtains s where "same_data (c\<lparr>cl_handed := cl_handed c @ [s]\<rparr>) c'"
    "s = canonical_of (cl_clock c) index t control_sel control sel camera (cn_repeated s)"
proof -
  obtain c1 first where a: "note_repeat Workspace (camera Workspace) (count_slots (\<lambda>n. n\<lparr>sl_required_run := 0\<rparr>) c) = (c1, first)" by fastforce
  obtain c2 second where b: "note_repeat Wrist (camera Wrist) c1 = (c2, second)" by fastforce
  have "same_data c (fst (note_repeat r f d))" if "same_data c d" for r f and d :: "'a collector"
    using that by (simp add: note_repeat_def Let_def)
  from this[of "count_slots (\<lambda>n. n\<lparr>sl_required_run := 0\<rparr>) c" Workspace "camera Workspace"] this[of c1 Wrist "camera Wrist"]
  have same: "same_data c c2" using a b by simp
  define s where "s = canonical_of (cl_clock c2) index t control_sel control sel camera
     ((if first then [Workspace] else []) @ (if second then [Wrist] else []))"
  have c': "c' = fst (hand_over ops s c2)" using assms a b by (simp add: complete_slot_def s_def Let_def)
  from same_data_trans[OF handed_data[OF same] hand_over_data] have "same_data (c\<lparr>cl_handed := cl_handed c @ [s]\<rparr>) c'"
    by (simp add: c')
  moreover have "s = canonical_of (cl_clock c) index t control_sel control sel camera (cn_repeated s)"
    using same by (simp add: s_def canonical_of_def same_data_def Let_def)
  ultimately show thesis by (rule that)
qed

lemma append_canonical_cases:
  assumes "fst (append_canonical ops index t c) = c'"
  obtains (same) "same_data c c'"
  | (handed) s where "handed_sample c index t s" "same_data (c\<lparr>cl_handed := cl_handed c @ [s]\<rparr>) c'"
proof -
  define d where "d = count_slots (\<lambda>n. n\<lparr>sl_total := sl_total n + 1\<rparr>) c"
  have d: "same_data c d" by (simp add: d_def)
  define control_sel where "control_sel = latest_at_or_before (cl_control c) t"
  define sel where "sel = (\<lambda>r. latest_at_or_before (cl_cameras c r) t)"
  have run: "c' = fst (fill_slot ops index t control_sel sel d)"
    using assms by (simp add: append_canonical_def d_def control_sel_def sel_def)
  consider (stop) "\<not> sel_valid control_sel \<or> sel_value control_sel = None \<or> \<not> (sel_valid (sel Workspace) \<and> sel_valid (sel Wrist))
      \<or> sel_value (sel Workspace) = None \<or> sel_value (sel Wrist) = None"
    | (go) base workspace wrist where "sel_valid control_sel" "sel_value control_sel = Some base" "sel_valid (sel Workspace)"
      "sel_valid (sel Wrist)" "sel_value (sel Workspace) = Some workspace" "sel_value (sel Wrist) = Some wrist" by (metis option.exhaust)
  then show thesis
  proof cases
    case stop
    then have "same_data c c'"
      using d by (auto simp: run fill_slot_def Let_def quiet.abort quiet.stale split: option.split)
    then show thesis by (rule same)
  next
    case go
    define control where "control = causal_control_at c base t"
    define camera where "camera = (\<lambda>r. case r of Workspace \<Rightarrow> workspace | Wrist \<Rightarrow> wrist)"
    have c': "c' = fst (fresh_slot ops index t control_sel control sel camera d)"
      using go causal_control_same[OF d] by (simp add: run fill_slot_def camera_def control_def Let_def)
    define e where "e = count_slots (\<lambda>n. n\<lparr>sl_valid_all := sl_valid_all n + 1\<rparr>) (d\<lparr>cl_quality := (\<lambda>r. note_aged_camera (sel r) (cl_quality d r))\<rparr>)"
    have e: "same_data c e" using d by (simp add: e_def)
    show thesis
    proof (cases "missing_fields control = []")
      case False
      then have "same_data c c'" using e by (simp add: c' fresh_slot_def e_def[symmetric] Let_def quiet.incomplete)
      then show thesis by (rule same)
    next
      case True
      then have "fst (complete_slot ops index t control_sel control sel camera e) = c'"
        by (simp add: c' fresh_slot_def e_def[symmetric] Let_def)
      then obtain s where s: "same_data (e\<lparr>cl_handed := cl_handed e @ [s]\<rparr>) c'"
        "s = canonical_of (cl_clock e) index t control_sel control sel camera (cn_repeated s)" by (rule complete_slot_cases)
      have f: "cn_control s = control" "cn_workspace s = workspace" "cn_wrist s = wrist" "cn_timestamp_ns s = t" "cn_frame_index s = index"
        "cn_nominal_slot s = Some (if index = 0 then 0 else cc_last_nominal_slot (cl_clock c))"
        using e by (subst s(2), simp add: canonical_of_def camera_def same_data_def Let_def)+
      have "handed_sample c index t s"
        using go True f by (auto simp: handed_sample_def camera_of_role_def control_def control_sel_def sel_def split: camera_role.split)
      moreover have "same_data (c\<lparr>cl_handed := cl_handed c @ [s]\<rparr>) c'" using s(1) handed_data[OF e] same_data_trans by blast
      ultimately show thesis by (rule handed)
    qed
  qed
qed

section \<open>Causal control\<close>

lemma latest_matching_value:
  assumes "sel_value (latest_matching line t P) = Some v"
  shows "\<exists>s. (s, v) \<in> set (ct_items line) \<and> s \<le> t \<and> P v
    \<and> (sel_valid (latest_matching line t P) \<longleftrightarrow> t - s \<le> ct_max_age_ns line)"
proof -
  obtain s where s: "ct_find (ct_items line) t P = Some (s, v)"
    using assms by (auto simp: latest_matching_def Let_def split: option.split_asm)
  then have "(s, v) \<in> set (ct_items line) \<and> s \<le> t \<and> P v"
    by (auto simp: ct_find_def find_Some_iff) (metis length_rev nth_mem set_rev)
  moreover have "sel_valid (latest_matching line t P) \<longleftrightarrow> t - s \<le> ct_max_age_ns line"
    using s by (auto simp: latest_matching_def Let_def)
  ultimately show ?thesis by blast
qed

lemma source_time_causal:
  "source_time name (sel_value (latest_matching line t (causal_for name t))) = Some v \<Longrightarrow> v \<le> t"
  using latest_matching_value[of line t "causal_for name t"]
  by (auto simp: source_time_def causal_for_def split: option.split_asm)

lemma replace_source_parts:
  "cs_host_ns (replace_source name sel s) = cs_host_ns s"
  "map_of (cs_source_ns (replace_source name sel s)) = (map_of (cs_source_ns s))(name \<mapsto> source_time name sel)"
  by (simp_all add: replace_source_def Let_def update_conv')

lemma causal_fold:
  fixes names E pick
  defines "f \<equiv> (\<lambda>name s. if name \<in> E then replace_source name (pick name) s else s)"
  shows "cs_host_ns (fold f names s) = cs_host_ns s
    \<and> (\<forall>name. map_of (cs_source_ns (fold f names s)) name
         = (if name \<in> set names \<and> name \<in> E then Some (source_time name (pick name)) else map_of (cs_source_ns s) name))"
proof (induction names arbitrary: s)
  case (Cons name names)
  show ?case using Cons[of "f name s"] by (auto simp: f_def replace_source_parts)
qed simp

definition sources_known :: "'w collector \<Rightarrow> control_sample \<Rightarrow> bool" where
  "sources_known c s \<longleftrightarrow> (\<forall>name \<in> set causal_sources. map_of (cs_source_ns s) name \<noteq> None \<longrightarrow> name \<in> set (cl_enabled c))"

definition causal_sample :: "int \<Rightarrow> control_sample \<Rightarrow> bool" where
  "causal_sample t s \<longleftrightarrow> (\<forall>name \<in> set causal_sources. \<forall>v. map_of (cs_source_ns s) name = Some (Some v) \<longrightarrow> v \<le> t)"

lemma causal_control_ok:
  assumes "sources_known c base"
  shows "cs_host_ns (causal_control_at c base t) = cs_host_ns base \<and> causal_sample t (causal_control_at c base t)"
proof -
  define pick where "pick = (\<lambda>name. sel_value (latest_matching (cl_control c) t (causal_for name t)))"
  have run: "causal_control_at c base t
      = fold (\<lambda>name s. if name \<in> set (cl_enabled c) then replace_source name (pick name) s else s) causal_sources base"
    by (simp add: causal_control_at_def pick_def cong: if_cong)
  note fold = causal_fold[of "set (cl_enabled c)" pick causal_sources base, folded run]
  have "v \<le> t" if "name \<in> set causal_sources" "map_of (cs_source_ns (causal_control_at c base t)) name = Some (Some v)" for name v
  proof -
    have "name \<in> set (cl_enabled c)" using fold that assms by (auto simp: sources_known_def split: if_split_asm)
    with fold that have "source_time name (pick name) = Some v" by simp
    then show ?thesis unfolding pick_def by (rule source_time_causal)
  qed
  with fold show ?thesis by (simp add: causal_sample_def)
qed

section \<open>The invariant\<close>

definition lines_ok :: "collector_config \<Rightarrow> 'w collector \<Rightarrow> bool" where
  "lines_ok k c \<longleftrightarrow> cl_config c = k \<and> ct_max_age_ns (cl_control c) = kc_control_max_age_ns k
     \<and> (\<forall>r. ct_max_age_ns (cl_cameras c r) = kc_camera_max_age_ns k)
     \<and> (\<forall>(t, s) \<in> set (ct_items (cl_control c)). t = cs_host_ns s \<and> sources_known c s)
     \<and> (\<forall>r. \<forall>(t, f) \<in> set (ct_items (cl_cameras c r)). t = cam_host_ns f \<and> cam_role f = r)"

text \<open>What the writer may rely on in a canonical sample.\<close>

definition sample_ok :: "collector_config \<Rightarrow> canonical_sample \<Rightarrow> bool" where
  "sample_ok k s \<longleftrightarrow> (let t = cn_timestamp_ns s; host = cs_host_ns (cn_control s) in
     host \<le> t \<and> t - host \<le> kc_control_max_age_ns k \<and> causal_sample t (cn_control s) \<and> missing_fields (cn_control s) = []
     \<and> (\<forall>r. cam_role (camera_of_role s r) = r \<and> cam_host_ns (camera_of_role s r) \<le> t
          \<and> t - cam_host_ns (camera_of_role s r) \<le> kc_camera_max_age_ns k))"

lemma handed_sample_ok:
  assumes "handed_sample c index t s" and "lines_ok k c"
  shows "sample_ok k s"
proof -
  obtain base where b: "sel_valid (latest_at_or_before (cl_control c) t)" "sel_value (latest_at_or_before (cl_control c) t) = Some base"
    "cn_control s = causal_control_at c base t" using assms(1) by (auto simp: handed_sample_def)
  obtain t0 where t0: "(t0, base) \<in> set (ct_items (cl_control c))" "t0 \<le> t" "t - t0 \<le> ct_max_age_ns (cl_control c)"
    using latest_matching_value[of "cl_control c" t "\<lambda>_. True" base] b by (auto simp: latest_at_or_before_def)
  then have base: "t0 = cs_host_ns base" "sources_known c base" using assms(2) by (auto simp: lines_ok_def)
  have cam: "cam_role (camera_of_role s r) = r \<and> cam_host_ns (camera_of_role s r) \<le> t
      \<and> t - cam_host_ns (camera_of_role s r) \<le> kc_camera_max_age_ns k" for r
  proof -
    define f where "f = camera_of_role s r"
    have "sel_valid (latest_at_or_before (cl_cameras c r) t)" "sel_value (latest_at_or_before (cl_cameras c r) t) = Some f"
      using assms(1) by (auto simp: handed_sample_def f_def)
    then obtain u where u: "(u, f) \<in> set (ct_items (cl_cameras c r))" "u \<le> t" "t - u \<le> ct_max_age_ns (cl_cameras c r)"
      using latest_matching_value[of "cl_cameras c r" t "\<lambda>_. True" f] by (auto simp: latest_at_or_before_def)
    with assms(2) have "u = cam_host_ns f \<and> cam_role f = r \<and> ct_max_age_ns (cl_cameras c r) = kc_camera_max_age_ns k"
      by (auto simp: lines_ok_def)
    with u show ?thesis by (simp add: f_def)
  qed
  have host: "cs_host_ns (cn_control s) = t0" "causal_sample t (cn_control s)"
    using causal_control_ok[OF base(2), of t] b(3) base(1) by simp_all
  have age: "ct_max_age_ns (cl_control c) = kc_control_max_age_ns k" using assms(2) by (simp add: lines_ok_def)
  have "cn_timestamp_ns s = t" "missing_fields (cn_control s) = []" using assms(1) by (simp_all add: handed_sample_def)
  then show ?thesis using host age t0 cam unfolding sample_ok_def Let_def by metis
qed

definition on_grid :: "int \<Rightarrow> int \<Rightarrow> canonical_sample list \<Rightarrow> bool" where
  "on_grid start_ns period_ns xs \<longleftrightarrow> sorted_wrt (<) (map cn_timestamp_ns xs) \<and> sorted_wrt (<) (map cn_frame_index xs)
     \<and> (\<forall>s \<in> set xs. \<exists>slot. cn_nominal_slot s = Some slot \<and> cn_timestamp_ns s = start_ns + slot * period_ns
          \<and> 0 \<le> cn_frame_index s \<and> cn_frame_index s \<le> slot)"

lemma on_grid_snoc:
  assumes "on_grid st p xs" and "cn_nominal_slot s = Some slot" and "cn_timestamp_ns s = st + slot * p"
    and "0 \<le> cn_frame_index s" and "cn_frame_index s \<le> slot"
    and "\<forall>x \<in> set xs. cn_timestamp_ns x < cn_timestamp_ns s \<and> cn_frame_index x < cn_frame_index s"
  shows "on_grid st p (xs @ [s])"
  using assms by (auto simp: on_grid_def sorted_wrt_append)

definition clock_part :: "int \<Rightarrow> 'w collector \<Rightarrow> bool" where
  "clock_part p c \<longleftrightarrow> cc_period_ns (cl_clock c) = p \<and> 0 < p
     \<and> (case cc_start_ns (cl_clock c) of
          None \<Rightarrow> cl_handed c = [] \<and> cc_next_ns (cl_clock c) = None
        | Some st \<Rightarrow> clock_ok (cl_clock c) st \<and> 1 \<le> cc_frame_index (cl_clock c) \<and> on_grid st p (cl_handed c)
            \<and> (\<forall>s \<in> set (cl_handed c). cn_timestamp_ns s < st + cc_nominal_slot (cl_clock c) * p
                 \<and> cn_frame_index s < cc_frame_index (cl_clock c)))"

definition session_ok :: "collector_config \<Rightarrow> int \<Rightarrow> 'w collector \<Rightarrow> bool" where
  "session_ok k p c \<longleftrightarrow> lines_ok k c \<and> clock_part p c \<and> (\<forall>s \<in> set (cl_handed c). sample_ok k s)"

lemma session_ok_same: "same_data c d \<Longrightarrow> session_ok k p c \<Longrightarrow> session_ok k p d"
  by (simp add: session_ok_def lines_ok_def clock_part_def same_data_def sources_known_def cong: option.case_cong)

lemma handed_keeps:
  assumes "session_ok k p c" and "handed_sample c index t s" and "cc_start_ns (cl_clock c) = Some st"
    and "t = st + slot * p" and "slot < cc_nominal_slot (cl_clock c)" and "0 \<le> index" and "index \<le> slot"
    and "index < cc_frame_index (cl_clock c)" and "slot = (if index = 0 then 0 else cc_last_nominal_slot (cl_clock c))"
    and "\<forall>x \<in> set (cl_handed c). cn_timestamp_ns x < t \<and> cn_frame_index x < index"
  shows "session_ok k p (c\<lparr>cl_handed := cl_handed c @ [s]\<rparr>)"
proof -
  have s: "cn_nominal_slot s = Some slot" "cn_timestamp_ns s = t" "cn_frame_index s = index"
    using assms(2,9) by (simp_all add: handed_sample_def)
  have ok: "sample_ok k s" using assms(1,2) handed_sample_ok by (auto simp: session_ok_def)
  have cl: "clock_part p c" "on_grid st p (cl_handed c)" using assms(1,3) by (auto simp: session_ok_def clock_part_def)
  have grid: "on_grid st p (cl_handed c @ [s])" using on_grid_snoc[OF cl(2) s(1)] assms s by auto
  have "slot * p < cc_nominal_slot (cl_clock c) * p" using cl(1) assms(5) by (simp add: clock_part_def)
  with cl(1) grid assms(3,4,8) s have "clock_part p (c\<lparr>cl_handed := cl_handed c @ [s]\<rparr>)"
    by (auto simp: clock_part_def)
  with ok assms(1) show ?thesis by (auto simp: session_ok_def lines_ok_def sources_known_def)
qed

lemma append_keeps:
  assumes "session_ok k p c" and "cc_start_ns (cl_clock c) = Some st"
    and "t = st + slot * p" and "slot < cc_nominal_slot (cl_clock c)" and "0 \<le> index" and "index \<le> slot"
    and "index < cc_frame_index (cl_clock c)" and "slot = (if index = 0 then 0 else cc_last_nominal_slot (cl_clock c))"
    and "\<forall>x \<in> set (cl_handed c). cn_timestamp_ns x < t \<and> cn_frame_index x < index"
  shows "session_ok k p (fst (append_canonical ops index t c))"
proof (rule append_canonical_cases[of ops index t c, OF refl], goal_cases)
  case 1
  then show ?case using assms(1) by (rule session_ok_same)
next
  case (2 s)
  from session_ok_same[OF 2(2) handed_keeps[OF assms(1) 2(1) assms(2-9)]] show ?case .
qed

lemma clock_due_slot:
  "clock_due c now_ns = Inr (c', Some (index, t)) \<Longrightarrow> cc_last_nominal_slot c' = cc_nominal_slot c"
  by (auto simp: clock_due_def Let_def split: option.split_asm if_split_asm)

lemma set_clock_keeps:
  assumes "session_ok k p c" and "clock_part p (c\<lparr>cl_clock := clock\<rparr>)"
  shows "session_ok k p (c\<lparr>cl_clock := clock\<rparr>)"
  using assms by (simp add: session_ok_def lines_ok_def sources_known_def)

lemma due_keeps:
  assumes "session_ok k p c" and "lift_timeline (clock_due (cl_clock c) now_ns) = Inr (clock, due)"
  shows "session_ok k p (c\<lparr>cl_clock := clock\<rparr>)
    \<and> (case due of None \<Rightarrow> True | Some (index, t) \<Rightarrow> session_ok k p (fst (append_canonical ops index t (c\<lparr>cl_clock := clock\<rparr>))))"
proof -
  have due: "clock_due (cl_clock c) now_ns = Inr (clock, due)"
    using assms(2) by (auto simp: lift_timeline_def split: sum.split_asm)
  have part: "clock_part p c" using assms(1) by (simp add: session_ok_def)
  obtain st where st: "cc_start_ns (cl_clock c) = Some st"
    using part due by (cases "cc_start_ns (cl_clock c)") (auto simp: clock_part_def clock_due_def)
  then have ok: "clock_ok (cl_clock c) st" using part by (simp add: clock_part_def)
  have per: "cc_period_ns (cl_clock c) = p" "0 < p" using part by (simp_all add: clock_part_def)
  from ok due show ?thesis
  proof (cases rule: clock_due_cases)
    case early
    then show ?thesis using assms(1) set_clock_keeps[OF assms(1)] part by (simp add: session_ok_def)
  next
    case (frame d)
    then have d: "clock = d" "due = Some (cc_frame_index (cl_clock c), st + cc_nominal_slot (cl_clock c) * p)" using per by auto
    have st': "cc_start_ns d = Some st" using frame(3) by (simp add: clock_ok_def)
    have lt: "cc_nominal_slot (cl_clock c) * p < cc_nominal_slot d * p" using frame(5) per by simp
    have part': "clock_part p (c\<lparr>cl_clock := d\<rparr>)"
      using part st st' frame lt per by (fastforce simp: clock_part_def)
    have keep: "session_ok k p (c\<lparr>cl_clock := d\<rparr>)" using set_clock_keeps[OF assms(1) part'] .
    have pos: "1 \<le> cc_frame_index (cl_clock c)" "cc_frame_index (cl_clock c) \<le> cc_nominal_slot (cl_clock c)"
      using part st ok by (auto simp: clock_part_def clock_ok_def)
    have slot: "cc_last_nominal_slot d = cc_nominal_slot (cl_clock c)" using clock_due_slot due d by blast
    have old: "\<forall>x \<in> set (cl_handed c). cn_timestamp_ns x < st + cc_nominal_slot (cl_clock c) * p
        \<and> cn_frame_index x < cc_frame_index (cl_clock c)"
      using part st by (simp add: clock_part_def)
    have "session_ok k p (fst (append_canonical ops (cc_frame_index (cl_clock c)) (st + cc_nominal_slot (cl_clock c) * p) (c\<lparr>cl_clock := d\<rparr>)))"
      by (rule append_keeps[OF keep, of st _ "cc_nominal_slot (cl_clock c)"]) (use st' frame pos slot old in auto)
    with keep show ?thesis by (simp add: d)
  qed
qed

section \<open>The handlers\<close>

lemma abort_keeps: "session_ok k p c \<Longrightarrow> session_ok k p (fst (cl_abort ops r i d c))"
  using session_ok_same[OF quiet.abort[OF same_data_refl]] .

lemma record_keeps: "session_ok k p c \<Longrightarrow> session_ok k p (fst (record_step ops s release c))"
  using due_keeps[of k p c "cs_host_ns s"] session_ok_same[OF quiet.abort[OF same_data_refl[of c]]]
    session_ok_same[OF quiet.complete[OF same_data_refl[of c]]]
  by (auto simp: record_step_def finish_completed_def split: sum.split option.split)

lemma recording_keeps: "session_ok k p c \<Longrightarrow> session_ok k p (fst (recording_stage ops s raw release c))"
  unfolding recording_stage_def
  by (auto intro!: cbind_fst[where P = "session_ok k p"] record_keeps
      intro: session_ok_same[OF quiet.source_times[OF same_data_refl]] session_ok_same[OF quiet.raw_records[OF same_data_refl]])

lemma start_clock_keeps:
  assumes "session_ok k p c" and "start_clock t c = (c', Inr u)"
  shows "session_ok k p c' \<and> cc_start_ns (cl_clock c') = Some t \<and> cl_handed c' = [] \<and> cc_nominal_slot (cl_clock c') = 1
    \<and> cc_frame_index (cl_clock c') = 1"
proof -
  obtain clock i0 t0 where s: "clock_start (cl_clock c) t = Inr (clock, i0, t0)" "c' = c\<lparr>cl_clock := clock\<rparr>"
    using assms(2) by (cases "clock_start (cl_clock c) t") (auto simp: start_clock_def lift_timeline_def)
  have none: "cc_start_ns (cl_clock c) = None" using s(1) by (auto simp: clock_start_def split: if_split_asm)
  have part: "clock_part p c" using assms(1) by (simp add: session_ok_def)
  have handed: "cl_handed c = []" using part none by (simp add: clock_part_def)
  have "clock_part p (c\<lparr>cl_clock := clock\<rparr>)"
    using part none s(1) by (auto simp: clock_part_def clock_start_def clock_ok_def on_grid_def)
  from set_clock_keeps[OF assms(1) this] s none handed show ?thesis by (auto simp: clock_start_def)
qed

lemma start_clock_error: "start_clock t c = (c', Inl e) \<Longrightarrow> c' = c"
  by (auto simp: start_clock_def split: sum.split_asm prod.split_asm)

lemma start_episode_keeps:
  assumes "session_ok k p c"
  shows "session_ok k p (fst (start_episode ops s pr c))"
proof -
  let ?P = "session_ok k p"
  have first: "?P (fst (cbind (start_clock (cs_host_ns s) d)
      (\<lambda>c4 _. append_canonical ops 0 (cs_host_ns s) (c4\<lparr>cl_source_ns := known_source_times s, cl_state := CapRec\<rparr>))))" if "?P d" for d
  proof (cases "start_clock (cs_host_ns s) d")
    case (Pair d' r)
    show ?thesis
    proof (cases r)
      case (Inl e)
      with Pair that start_clock_error show ?thesis by (fastforce simp: cbind_def)
    next
      case (Inr u)
      note started = start_clock_keeps[OF that, of "cs_host_ns s" d' u] 
      let ?e = "d'\<lparr>cl_source_ns := known_source_times s, cl_state := CapRec\<rparr>"
      have d': "?P d'" "cc_start_ns (cl_clock d') = Some (cs_host_ns s)" "cl_handed d' = []" "cc_nominal_slot (cl_clock d') = 1"
        "cc_frame_index (cl_clock d') = 1" using started Pair Inr by simp_all
      have e: "?P ?e" using d'(1) by (rule session_ok_same[rotated]) simp
      have "?P (fst (append_canonical ops 0 (cs_host_ns s) ?e))"
        by (rule append_keeps[OF e, of "cs_host_ns s" _ 0]) (use d' in simp_all)
      with Pair Inr show ?thesis by (simp add: cbind_def)
    qed
  qed
  have sink: "?P (fst (sink_begin ops pr d))" "?P (fst (sink_camera ops f d))" if "?P d" for d f
    using that session_ok_same[OF quiet.begin_call[OF same_data_refl[of d]]] session_ok_same[OF quiet.camera[OF same_data_refl[of d]]] by simp_all
  show ?thesis
    unfolding start_episode_def
    by (rule cbind_fst[where P = ?P] sink(1) assms)+ (rule cbind_fst[where P = ?P] sink(2) first | assumption)+
qed

lemma start_keeps: "session_ok k p c \<Longrightarrow> session_ok k p (fst (start_if_ready ops s reference active c))"
proof -
  assume c: "session_ok k p c"
  have "session_ok k p (fst (case start_episode ops s' pr c of (c1, Inl e) \<Rightarrow> start_refused ops e c1 | (c1, Inr _) \<Rightarrow> (c1, Inr True)))" for s' pr
    by (rule case_call_fst[where P = "session_ok k p"])
      (use start_episode_keeps[OF c] session_ok_same[OF quiet.refused[OF same_data_refl]] in auto)
  with c show ?thesis
    by (auto simp: start_if_ready_def split: prod.split option.split)
qed

lemma capture_stage_keeps:
  assumes "session_ok k p c"
  shows "session_ok k p (fst (capture_stage ops s reference raw pressed c))"
proof -
  define d where "d = arm_on_edge s pressed c"
  have d: "session_ok k p d" using assms by (rule session_ok_same[rotated]) (simp add: d_def arm_on_edge_def)
  have go: "session_ok k p (fst (cbind (start_if_ready ops s reference pressed d) (\<lambda>c2 ok.
          if \<not> ok then recording_stage ops s raw release c2
          else if raw = [] then (c2, Inr ()) else append_raw_records ops raw c2)))" for release
    by (rule cbind_fst[where P = "session_ok k p"])
      (use start_keeps[OF d] recording_keeps session_ok_same[OF quiet.raw_records[OF same_data_refl]] in auto)
  have "session_ok k p (fst (reject_start ops x y d))" for x y
    using d session_ok_same[OF quiet.reject[OF same_data_refl]] by blast
  with go show ?thesis
    unfolding capture_stage_def Let_def d_def[symmetric] using recording_keeps[OF d] by (cases pressed) simp_all
qed

text \<open>Sources enter the index before a snapshot enters the time line.\<close>

definition indexed_more :: "'w collector \<Rightarrow> 'w collector \<Rightarrow> bool" where
  "indexed_more c d \<longleftrightarrow> same_data (c\<lparr>cl_enabled := cl_enabled d\<rparr>) d \<and> set (cl_enabled c) \<subseteq> set (cl_enabled d)"

lemma indexed_more_refl: "same_data c d \<Longrightarrow> indexed_more c d"
  by (simp add: indexed_more_def same_data_def)

lemma indexed_more_trans: "indexed_more b c \<Longrightarrow> indexed_more c d \<Longrightarrow> indexed_more b d"
  by (auto simp: indexed_more_def same_data_def)

lemma index_sources_grow:
  "indexed_more c (fst (index_sources ops names s c))
   \<and> (snd (index_sources ops names s c) = Inr True
        \<longrightarrow> (\<forall>name \<in> set names. map_of (cs_source_ns s) name \<noteq> None \<longrightarrow> name \<in> set (cl_enabled (fst (index_sources ops names s c)))))"
proof (induction ops names s c rule: index_sources.induct)
  case (2 ops name names s c)
  show ?case
  proof (cases "map_of (cs_source_ns s) name")
    case None
    with 2(1) show ?thesis by simp
  next
    case (Some stamp)
    define c1 where "c1 = c\<lparr>cl_enabled := List.insert name (cl_enabled c)\<rparr>"
    have c1: "indexed_more c c1" "name \<in> set (cl_enabled c1)" by (auto simp: c1_def indexed_more_def same_data_def)
    have later: "indexed_more c d \<and> name \<in> set (cl_enabled d)" if "indexed_more c1 d" for d
      using that c1 indexed_more_trans by (auto simp: indexed_more_def)
    have stop: "indexed_more c (fst (cbind (cl_abort ops x True None c1) (\<lambda>c2 _. (c2, Inr False))))
        \<and> snd (cbind (cl_abort ops x True None c1) (\<lambda>c2 _. (c2, Inr False))) \<noteq> Inr True" for x
    proof -
      have "indexed_more c1 (fst (cl_abort ops x True None c1))" by (simp add: indexed_more_refl quiet.abort)
      with later show ?thesis by (cases "cl_abort ops x True None c1"; cases "snd (cl_abort ops x True None c1)") (auto simp: cbind_def)
    qed
    show ?thesis
    proof (cases stamp)
      case None
      with Some 2(2)[OF Some c1_def None] later show ?thesis by (simp add: c1_def[symmetric] Let_def)
    next
      case (Some t)
      note run = \<open>map_of (cs_source_ns s) name = Some stamp\<close> Some
      show ?thesis
      proof (cases "map_of (cs_source_domains s) name \<noteq> Some ''host_monotonic_ns''
          \<or> (case cl_indexed c1 name of Some previous \<Rightarrow> t < previous | None \<Rightarrow> False)")
        case True
        then show ?thesis using run stop by (auto simp: c1_def[symmetric] Let_def)
      next
        case False
        let ?c2 = "c1\<lparr>cl_indexed := (cl_indexed c1)(name \<mapsto> t)\<rparr>"
        have eq: "index_sources ops (name # names) s c = index_sources ops names s ?c2"
          using run False by (simp add: c1_def[symmetric] Let_def)
        have "indexed_more c1 ?c2" by (rule indexed_more_refl) simp
        then have "indexed_more c1 d" if "indexed_more ?c2 d" for d using that indexed_more_trans by blast
        with 2(3)[OF \<open>map_of (cs_source_ns s) name = Some stamp\<close> c1_def Some] False later show ?thesis unfolding eq by auto
      qed
    qed
  qed
qed (simp add: indexed_more_refl)

lemma indexed_keeps: "indexed_more c d \<Longrightarrow> session_ok k p c \<Longrightarrow> session_ok k p d"
  by (fastforce simp: indexed_more_def session_ok_def lines_ok_def clock_part_def same_data_def sources_known_def cong: option.case_cong)

lemma ct_append_keeps:
  "ct_append line t v = Inr line' \<Longrightarrow> set (ct_items line') \<subseteq> insert (t, v) (set (ct_items line)) \<and> ct_max_age_ns line' = ct_max_age_ns line"
  unfolding ct_append_def deque_append_def
  using set_drop_subset[of "length (ct_items line) + 1 - ct_capacity line" "ct_items line @ [(t, v)]"]
  by (auto simp del: drop_append split: if_split_asm)

lemma lift_timeline_Inr: "lift_timeline r = Inr x \<Longrightarrow> r = Inr x"
  by (cases r) (simp_all add: lift_timeline_def)

lemma control_append_keeps:
  assumes "session_ok k p c" and "lift_timeline (ct_append (cl_control c) (cs_host_ns s) s) = Inr line" and "sources_known c s"
  shows "session_ok k p (c\<lparr>cl_control := line\<rparr>)"
  using assms(1,3) ct_append_keeps[OF lift_timeline_Inr[OF assms(2)]]
  by (fastforce simp: session_ok_def lines_ok_def clock_part_def sources_known_def cong: option.case_cong)

lemma control_keeps:
  assumes "session_ok k p c"
  shows "session_ok k p (fst (ingest_control ops s0 reference raw active c))"
proof (cases "cl_state c = CapDone")
  case False
  obtain d s where st: "stamp_segment s0 c = (d, s)" by fastforce
  have "same_data c d" using st by (auto simp: stamp_segment_def Let_def)
  then have d: "session_ok k p d" using assms by (rule session_ok_same)
  obtain c1 r where ix: "index_sources ops causal_sources s d = (c1, r)" by fastforce
  note grow = index_sources_grow[of d ops causal_sources s, unfolded ix]
  have "indexed_more d c1" using grow by simp
  then have c1: "session_ok k p c1" using d by (rule indexed_keeps)
  have abort: "session_ok k p (fst (cl_abort ops x y z c1))" for x y z
    using c1 session_ok_same[OF quiet.abort[OF same_data_refl]] by blast
  show ?thesis
  proof (cases "r = Inr True")
    case True
    then have known: "sources_known c1 s" using grow by (simp add: sources_known_def)
    have "session_ok k p (fst (capture_stage ops s reference raw pressed (c1\<lparr>cl_control := line\<rparr>)))"
      if "lift_timeline (ct_append (cl_control c1) (cs_host_ns s) s) = Inr line" for line pressed
      using capture_stage_keeps[OF control_append_keeps[OF c1 that known]] .
    with True abort st ix False show ?thesis
      by (simp add: ingest_control_def cbind_def split: sum.split)
  next
    case False
    then show ?thesis using st ix c1 assms by (cases r) (auto simp: ingest_control_def cbind_def)
  qed
qed (use assms in \<open>simp add: ingest_control_def\<close>)

lemma camera_keeps:
  assumes "session_ok k p c"
  shows "session_ok k p (fst (ingest_camera ops f skipped c))"
proof -
  have store: "session_ok k p (fst (store_frame ops f d))" if d: "session_ok k p d" for d
  proof (cases "lift_timeline (ct_append (cl_cameras d (cam_role f)) (cam_host_ns f) f)")
    case (Inl e)
    then show ?thesis using d session_ok_same[OF quiet.abort[OF same_data_refl]] by (simp add: store_frame_def)
  next
    case (Inr line)
    let ?e = "d\<lparr>cl_cameras := (cl_cameras d)(cam_role f := line)\<rparr>"
    have e: "session_ok k p ?e"
      using d ct_append_keeps[OF lift_timeline_Inr[OF Inr]]
      by (fastforce simp: session_ok_def lines_ok_def clock_part_def sources_known_def cong: option.case_cong)
    have "session_ok k p (fst (on_data_error (sink_camera ops f ?e) (\<lambda>c2 e. cl_abort ops x False (Some (error_text e)) c2)))" for x
      by (rule on_data_error_fst[where P = "session_ok k p"])
        (use session_ok_same[OF quiet.camera[OF same_data_refl] e] session_ok_same[OF quiet.abort[OF same_data_refl]] in auto)
    with e show ?thesis by (simp add: store_frame_def Inr Let_def)
  qed
  have "session_ok k p (c\<lparr>cl_quality := q, cl_camera_clock := m\<rparr>)" for q m
    using assms by (rule session_ok_same[rotated]) simp
  then show ?thesis
    using store assms by (simp add: ingest_camera_def Let_def abort_keeps)
qed

lemma capture_keeps: "session_ok k p c \<Longrightarrow> session_ok k p (fst (capture_call ops c ev))"
  by (cases ev)
    (use control_keeps camera_keeps session_ok_same[OF quiet.fault[OF same_data_refl]] session_ok_same[OF quiet.shutdown[OF same_data_refl]]
      session_ok_same[OF quiet.finish[OF same_data_refl]] session_ok_same[OF quiet.abort[OF same_data_refl]]
      session_ok_same[OF quiet.discard_session[OF same_data_refl]] session_ok_same[OF quiet.pending[OF same_data_refl]] in auto)

lemma capture_run_keeps: "session_ok k p c \<Longrightarrow> session_ok k p (capture_run ops c evs)"
  by (induction evs arbitrary: c) (simp_all add: capture_keeps)

lemma mk_collector_ok:
  assumes "mk_collector w fps k = Inr c" and "0 < clock_period fps"
  shows "session_ok k (clock_period fps) c"
  using assms
  by (auto simp: mk_collector_def lift_timeline_def mk_clock_def mk_timeline_def session_ok_def lines_ok_def clock_part_def
      split: sum.split_asm if_split_asm)

text \<open>
  C29. Every canonical sample a session hands to its writer is causal, fresh and complete, whatever the writer does
  and in whatever order frames, control snapshots and commands arrive: no source of it lies after its time
  stamp, not the control snapshot, not the acquisition time of any of the separately scheduled feedback
  sources in it, not a camera frame; snapshot and frames are within their age limits, each frame comes from
  its own camera, and no required field is missing.
\<close>

theorem capture_samples_causal:
  assumes "mk_collector w fps k = Inr c" and "0 < clock_period fps"
    and "s \<in> set (cl_handed (capture_run ops c evs))"
  shows "sample_ok k s"
  using capture_run_keeps[OF mk_collector_ok[OF assms(1,2)], of ops evs] assms(3) by (simp add: session_ok_def)

text \<open>
  The samples of a session lie on one grid: there is a start time such that each carries the time of its nominal
  slot, time stamps and frame indices increase strictly, and no frame index is ahead of its slot. A slot
  that was missed or dropped is never stamped later.
\<close>

theorem capture_samples_on_grid:
  assumes "mk_collector w fps k = Inr c" and "0 < clock_period fps"
  shows "\<exists>start_ns. on_grid start_ns (clock_period fps) (cl_handed (capture_run ops c evs))"
  using capture_run_keeps[OF mk_collector_ok[OF assms], of ops evs]
  by (cases "cc_start_ns (cl_clock (capture_run ops c evs))") (auto simp: session_ok_def clock_part_def on_grid_def)

end
