(* ===== verification/CaptureEnding.thy ===== *)
theory CaptureEnding
  imports CaptureSafety
begin

text \<open>
  How a capture session ends, for any writer and any order of calls, raising ones included: at most one terminal call
  of the writer succeeds, what the session reports is what was published, and nothing happens after it.
  A session is open while neither a terminal call has succeeded nor an end is waiting to be written, and
  settled once one of the two is the case.
\<close>

section \<open>Open and settled sessions\<close>

definition open_end :: "'w collector \<Rightarrow> bool" where
  "open_end c \<longleftrightarrow> cl_closings c = [] \<and> \<not> cl_result c \<and> cl_deferred c = nothing_deferred"

fun reported :: "'w collector \<Rightarrow> closing \<Rightarrow> bool" where
  "reported c (Published status reason) \<longleftrightarrow> cl_status c = Some status \<and> cl_reason c = Some reason"
| "reported c (Rejected _) \<longleftrightarrow> cl_status c = Some EpInvalid"

definition waiting_end :: "'w collector \<Rightarrow> bool" where
  "waiting_end c \<longleftrightarrow>
     (\<exists>r. cl_deferred c = nothing_deferred\<lparr>df_rejection := Some r\<rparr> \<and> cl_status c = Some EpInvalid)
     \<or> (\<exists>r t. cl_deferred c = nothing_deferred\<lparr>df_finish := Some (r, t)\<rparr> \<and> reported c (Published EpCompleted r))
     \<or> (\<exists>r. cl_deferred c = nothing_deferred\<lparr>df_discard := Some r\<rparr> \<and> cl_status c = Some EpInvalid)
     \<or> (\<exists>r i d. cl_deferred c = nothing_deferred\<lparr>df_abort := Some (r, i, d)\<rparr> \<and> reported c (Published (abort_status i) r))"

definition settled_end :: "'w collector \<Rightarrow> bool" where
  "settled_end c \<longleftrightarrow> cl_state c = CapDone
     \<and> ((\<exists>x. cl_closings c = [x] \<and> reported c x) \<and> cl_result c \<and> cl_deferred c = nothing_deferred
        \<or> cl_closings c = [] \<and> \<not> cl_result c \<and> waiting_end c)"

definition end_ok :: "'w collector \<Rightarrow> bool" where
  "end_ok c \<longleftrightarrow> open_end c \<or> settled_end c"

lemma end_ok_running: "end_ok c \<Longrightarrow> cl_state c \<noteq> CapDone \<Longrightarrow> open_end c"
  by (auto simp: end_ok_def settled_end_def)

lemma open_is_ok: "open_end c \<Longrightarrow> end_ok c"
  by (simp add: end_ok_def)

text \<open>Fields that say nothing about the end.\<close>

lemma open_end_parts [simp]:
  "open_end (c\<lparr>cl_writer := w\<rparr>) = open_end c" "open_end (c\<lparr>cl_state := s\<rparr>) = open_end c" "open_end (c\<lparr>cl_clock := k\<rparr>) = open_end c"
  "open_end (c\<lparr>cl_control := l\<rparr>) = open_end c" "open_end (c\<lparr>cl_cameras := ls\<rparr>) = open_end c" "open_end (c\<lparr>cl_enabled := ns\<rparr>) = open_end c"
  "open_end (c\<lparr>cl_reason := r\<rparr>) = open_end c" "open_end (c\<lparr>cl_status := st\<rparr>) = open_end c" "open_end (c\<lparr>cl_pending := qs\<rparr>) = open_end c"
  "open_end (c\<lparr>cl_unpersisted := u\<rparr>) = open_end c" "open_end (c\<lparr>cl_quality := g\<rparr>) = open_end c" "open_end (c\<lparr>cl_slots := sl\<rparr>) = open_end c"
  "open_end (c\<lparr>cl_canonical_id := f\<rparr>) = open_end c" "open_end (c\<lparr>cl_source_ns := m\<rparr>) = open_end c" "open_end (c\<lparr>cl_rejections := j\<rparr>) = open_end c"
  "open_end (c\<lparr>cl_last_rejection := v\<rparr>) = open_end c" "open_end (c\<lparr>cl_last_trigger := b\<rparr>) = open_end c" "open_end (c\<lparr>cl_press_ns := p\<rparr>) = open_end c"
  "open_end (c\<lparr>cl_camera_clock := h\<rparr>) = open_end c" "open_end (c\<lparr>cl_indexed := m\<rparr>) = open_end c" "open_end (c\<lparr>cl_segment_id := j\<rparr>) = open_end c"
  "open_end (c\<lparr>cl_segment_mode := sm\<rparr>) = open_end c" "open_end (c\<lparr>cl_handed := xs\<rparr>) = open_end c"
  "open_end (count_slots fs c) = open_end c" "open_end (count_missing_source c) = open_end c"
  by (simp_all add: open_end_def count_slots_def count_missing_source_def)

text \<open>A call from an open session: a raised exception leaves it open, a return may have settled it.\<close>

definition may_end :: "('w collector, 'a) call \<Rightarrow> bool" where
  "may_end m \<longleftrightarrow> (case m of (c, Inl _) \<Rightarrow> open_end c | (c, Inr _) \<Rightarrow> end_ok c)"

lemma may_end_simps [simp]: "may_end (c, Inl e) = open_end c" "may_end (c, Inr x) = end_ok c"
  by (simp_all add: may_end_def)

lemma may_end_fst: "may_end m \<Longrightarrow> end_ok (fst m)"
  by (cases m; cases "snd m") (auto simp: open_is_ok)

lemma may_end_cbind: "may_end m \<Longrightarrow> (\<And>c x. end_ok c \<Longrightarrow> may_end (f c x)) \<Longrightarrow> may_end (cbind m f)"
  by (cases m; cases "snd m") (auto simp: cbind_def)

lemma may_end_cbind_open: "open_end (fst m) \<Longrightarrow> (\<And>c x. open_end c \<Longrightarrow> may_end (f c x)) \<Longrightarrow> may_end (cbind m f)"
  by (cases m; cases "snd m") (auto simp: cbind_def)

section \<open>The ends\<close>

lemma discard_ends:
  assumes "open_end c" and "sink_discard ops x c = (c', r)"
  shows "cl_deferred c' = nothing_deferred \<and> cl_state c' = cl_state c \<and> cl_status c' = cl_status c \<and> cl_reason c' = cl_reason c
    \<and> (case r of Inl _ \<Rightarrow> open_end c' | Inr _ \<Rightarrow> cl_closings c' = [Rejected x] \<and> cl_result c')"
  using assms by (auto simp: sink_discard_def open_end_def split: prod.split_asm sum.split_asm)

lemma finalize_ends:
  assumes "open_end c" and "sink_finalize ops st x t c = (c', r)"
  shows "cl_deferred c' = nothing_deferred \<and> cl_state c' = cl_state c \<and> cl_status c' = cl_status c \<and> cl_reason c' = cl_reason c
    \<and> (case r of Inl _ \<Rightarrow> open_end c' | Inr _ \<Rightarrow> cl_closings c' = [Published st x] \<and> cl_result c')"
  using assms by (auto simp: sink_finalize_def open_end_def split: prod.split_asm sum.split_asm)

lemma end_after_discard:
  assumes "open_end c"
  shows "may_end (cbind (sink_discard ops x c) (\<lambda>c1 _. (end_as reason EpInvalid c1, Inr ())))"
proof -
  obtain c' r where run: "sink_discard ops x c = (c', r)" by fastforce
  from discard_ends[OF assms this] run show ?thesis
    by (cases r) (auto simp: cbind_def end_ok_def settled_end_def end_as_def)
qed

lemma reject_ends:
  assumes "open_end c"
  shows "may_end (reject_start ops x reason c)"
proof (cases "kc_defer (cl_config c)")
  case True
  with assms show ?thesis
    by (auto simp: reject_start_def cbind_def end_ok_def settled_end_def waiting_end_def end_as_def open_end_def)
next
  case False
  with end_after_discard[OF assms] show ?thesis by (simp add: reject_start_def)
qed

lemma finalize_now_ends:
  assumes "open_end c" and "cl_status c = Some st" and "cl_reason c = Some x"
  shows "may_end (finalize_now ops st x t c)"
proof -
  obtain c' r where run: "sink_finalize ops st x t (c\<lparr>cl_state := CapFinalizing\<rparr>) = (c', r)" by fastforce
  have "open_end (c\<lparr>cl_state := CapFinalizing\<rparr>)" using assms(1) by simp
  from finalize_ends[OF this run] run assms(2,3) show ?thesis
    by (cases r) (auto simp: finalize_now_def cbind_def end_ok_def settled_end_def)
qed

lemma abort_ends:
  assumes "end_ok c"
  shows "may_end (cl_abort ops reason invalid detail c)"
proof (cases "cl_state c = CapDone")
  case True
  with assms show ?thesis by (simp add: cl_abort_def)
next
  case False
  with assms have op: "open_end c" by (rule end_ok_running)
  let ?c = "c\<lparr>cl_reason := Some reason, cl_status := Some (abort_status invalid)\<rparr>"
  have "may_end (finalize_now ops (abort_status invalid) reason None ?c)"
    using op by (intro finalize_now_ends) simp_all
  moreover have "end_ok (?c\<lparr>cl_deferred := (cl_deferred c)\<lparr>df_abort := Some (reason, invalid, detail)\<rparr>, cl_state := CapDone\<rparr>)"
    using op by (auto simp: end_ok_def settled_end_def waiting_end_def open_end_def)
  ultimately show ?thesis
    using False reject_ends[OF op] by (simp add: cl_abort_def Let_def)
qed

lemma complete_ends:
  assumes "open_end c"
  shows "may_end (complete_session ops reason release_ns c)"
proof (cases "kc_defer (cl_config c)")
  case True
  with assms show ?thesis
    by (auto simp: complete_session_def end_ok_def settled_end_def waiting_end_def open_end_def end_as_def)
next
  case False
  obtain c' r where run: "sink_finalize ops EpCompleted reason release_ns (c\<lparr>cl_state := CapFinalizing\<rparr>) = (c', r)" by fastforce
  have "open_end (c\<lparr>cl_state := CapFinalizing\<rparr>)" using assms by simp
  from finalize_ends[OF this run] run False show ?thesis
    by (cases r) (auto simp: complete_session_def cbind_def end_ok_def settled_end_def end_as_def)
qed

lemma discard_current_ends:
  assumes "end_ok c"
  shows "may_end (discard_current ops reason c)"
proof (cases "cl_state c = CapDone")
  case True
  with assms show ?thesis by (simp add: discard_current_def)
next
  case False
  with assms have op: "open_end c" by (rule end_ok_running)
  have "may_end (cbind (sink_discard ops reason (c\<lparr>cl_state := CapFinalizing\<rparr>)) (\<lambda>c1 _. (end_as reason EpInvalid c1, Inr ())))"
    using op by (intro end_after_discard) simp
  moreover have "end_ok (end_as reason EpInvalid (c\<lparr>cl_deferred := (cl_deferred c)\<lparr>df_discard := Some reason\<rparr>\<rparr>))"
    using op by (auto simp: end_ok_def settled_end_def waiting_end_def open_end_def end_as_def)
  ultimately show ?thesis using False reject_ends[OF op] by (simp add: discard_current_def)
qed

text \<open>A flush touches the writer and the row counters only.\<close>

definition same_end :: "'w collector \<Rightarrow> 'w collector \<Rightarrow> bool" where
  "same_end c d \<longleftrightarrow> cl_deferred d = cl_deferred c \<and> cl_state d = cl_state c \<and> cl_status d = cl_status c
     \<and> cl_reason d = cl_reason c \<and> cl_closings d = cl_closings c \<and> cl_result d = cl_result c"

lemma same_end_parts [simp]:
  "same_end b (c\<lparr>cl_writer := w\<rparr>) = same_end b c" "same_end b (c\<lparr>cl_unpersisted := k\<rparr>) = same_end b c"
  "same_end b (c\<lparr>cl_pending := qs\<rparr>) = same_end b c"
  by (simp_all add: same_end_def)

lemma flush_frame: "same_end b c \<Longrightarrow> same_end b (fst (flush_rows ops k qs c))"
  by (induction ops k qs c rule: flush_rows.induct) (auto simp: Let_def split: prod.split sum.split bool.split)

lemma flush_then_finalize:
  assumes "open_end c" and "cl_status c = Some st" and "cl_reason c = Some x"
  shows "may_end (cbind (flush_quality_events ops k c) (\<lambda>c1 _. finalize_now ops st x t c1))"
proof -
  obtain c' r where run: "flush_quality_events ops k c = (c', r)" by fastforce
  have "open_end c' \<and> cl_status c' = Some st \<and> cl_reason c' = Some x"
    using assms flush_frame[of c "c\<lparr>cl_pending := []\<rparr>" ops k "cl_pending c"] run
    by (simp add: flush_quality_events_def open_end_def same_end_def)
  with run finalize_now_ends show ?thesis by (cases r) (auto simp: cbind_def)
qed

lemma pending_ends:
  assumes "end_ok c"
  shows "may_end (finalize_pending ops k c)"
proof (cases "cl_result c \<or> cl_deferred c = nothing_deferred")
  case True
  with assms show ?thesis by (auto simp: finalize_pending_def write_deferred_def nothing_deferred_def)
next
  case False
  with assms have s: "cl_state c = CapDone" "cl_closings c = []" "\<not> cl_result c" "waiting_end c"
    by (auto simp: end_ok_def open_end_def settled_end_def)
  have cleared: "open_end (c\<lparr>cl_deferred := nothing_deferred\<rparr>)" using s by (simp add: open_end_def)
  from s(4) show ?thesis unfolding waiting_end_def
  proof (elim disjE exE conjE)
    fix r assume d: "cl_deferred c = nothing_deferred\<lparr>df_rejection := Some r\<rparr>" "cl_status c = Some EpInvalid"
    obtain c' res where run: "sink_discard ops r (c\<lparr>cl_deferred := nothing_deferred\<rparr>) = (c', res)" by fastforce
    have eq: "finalize_pending ops k c = sink_discard ops r (c\<lparr>cl_deferred := nothing_deferred\<rparr>)"
      using s d by (simp add: finalize_pending_def write_deferred_def nothing_deferred_def)
    from discard_ends[OF cleared run] s d show ?thesis
      unfolding eq run by (cases res) (auto simp: end_ok_def settled_end_def)
  next
    fix r t assume d: "cl_deferred c = nothing_deferred\<lparr>df_finish := Some (r, t)\<rparr>" "reported c (Published EpCompleted r)"
    have eq: "finalize_pending ops k c = cbind (flush_quality_events ops k (c\<lparr>cl_deferred := nothing_deferred\<rparr>))
        (\<lambda>c1 _. finalize_now ops EpCompleted r t c1)"
      using s d by (simp add: finalize_pending_def write_deferred_def nothing_deferred_def)
    show ?thesis unfolding eq by (rule flush_then_finalize[OF cleared]) (use d in simp_all)
  next
    fix r assume d: "cl_deferred c = nothing_deferred\<lparr>df_discard := Some r\<rparr>" "cl_status c = Some EpInvalid"
    let ?c = "c\<lparr>cl_deferred := nothing_deferred, cl_state := CapFinalizing\<rparr>"
    obtain c' res where run: "sink_discard ops r ?c = (c', res)" by fastforce
    have eq: "finalize_pending ops k c = cbind (sink_discard ops r ?c) (\<lambda>c1 _. (c1\<lparr>cl_state := CapDone\<rparr>, Inr ()))"
      using s d by (simp add: finalize_pending_def write_deferred_def nothing_deferred_def)
    have "open_end ?c" using cleared by (simp add: open_end_def)
    from discard_ends[OF this run] s d show ?thesis
      unfolding eq run by (cases res) (auto simp: cbind_def end_ok_def settled_end_def)
  next
    fix r i dt assume d: "cl_deferred c = nothing_deferred\<lparr>df_abort := Some (r, i, dt)\<rparr>" "reported c (Published (abort_status i) r)"
    have eq: "finalize_pending ops k c = cbind (flush_quality_events ops k (c\<lparr>cl_deferred := nothing_deferred, cl_state := CapFinalizing\<rparr>))
        (\<lambda>c1 _. finalize_now ops (abort_status i) r None c1)"
      using s d by (simp add: finalize_pending_def write_deferred_def nothing_deferred_def)
    show ?thesis unfolding eq by (rule flush_then_finalize) (use cleared d in \<open>simp_all add: open_end_def\<close>)
  qed
qed

section \<open>The handlers\<close>

lemma abort_end_ok: "end_ok c \<Longrightarrow> end_ok (fst (cl_abort ops reason invalid detail c))"
  by (rule may_end_fst[OF abort_ends])

lemma publish_ends: "open_end c \<Longrightarrow> may_end (publish_quality ops q c)"
  by (auto simp: publish_quality_def abort_ends open_is_ok split: prod.split sum.split bool.split)

lemma may_end_handled:
  "may_end m \<Longrightarrow> (\<And>c e. open_end c \<Longrightarrow> may_end (h c e)) \<Longrightarrow> may_end (on_data_error m h)"
  by (cases m; cases "snd m") (auto simp: on_data_error_def)

lemma stale_ends:
  assumes "open_end c"
  shows "may_end (stale_slot ops t s sel c)"
proof -
  have handled: "may_end (case m of
        (c1, Inl e) \<Rightarrow> (if is_data_error e then cl_abort ops x False (y e) c1 else (c1, Inl e))
      | (c1, Inr _) \<Rightarrow> (if P then (c1, Inr ()) else cl_abort ops z False None c1))" if "may_end m"
    for m :: "('a collector, unit) call" and x y z P
    using that by (cases m; cases "snd m") (auto simp: abort_ends open_is_ok)
  show ?thesis unfolding stale_slot_def Let_def
    by (rule handled, rule publish_ends) (use assms in simp)
qed

lemma incomplete_ends: "open_end c \<Longrightarrow> may_end (incomplete_slot ops t s c)"
  unfolding incomplete_slot_def Let_def
  by (rule may_end_cbind) (auto intro: publish_ends abort_ends)

lemma hand_over_ends: "open_end c \<Longrightarrow> may_end (hand_over ops s c)"
  unfolding hand_over_def Let_def
  by (rule may_end_handled) (auto simp: publish_ends abort_ends open_is_ok split: prod.split sum.split bool.split)

lemma complete_slot_ends:
  assumes "open_end c"
  shows "may_end (complete_slot ops index t control_sel control sel camera c)"
proof -
  have keep: "open_end d'" if "open_end d" "note_repeat r f d = (d', b)" for r f b and d d' :: "'a collector"
    using that by (auto simp: note_repeat_def Let_def)
  obtain c1 first where a: "note_repeat Workspace (camera Workspace) (count_slots (\<lambda>n. n\<lparr>sl_required_run := 0\<rparr>) c) = (c1, first)" by fastforce
  obtain c2 second where b: "note_repeat Wrist (camera Wrist) c1 = (c2, second)" by fastforce
  have "open_end c1" by (rule keep[OF _ a]) (use assms in simp)
  then have "open_end c2" using b by (rule keep)
  with a b show ?thesis by (simp add: complete_slot_def hand_over_ends Let_def)
qed

lemma append_ends: "open_end c \<Longrightarrow> may_end (append_canonical ops index t c)"
  by (auto simp: append_canonical_def fill_slot_def fresh_slot_def Let_def abort_ends open_is_ok stale_ends incomplete_ends
      complete_slot_ends split: option.split)

lemma reported_writer: "reported (c\<lparr>cl_writer := w\<rparr>) x = reported c x"
  by (cases x) simp_all

lemma raw_records_end: "open_end c \<Longrightarrow> may_end (append_raw_records ops raw c)"
  unfolding append_raw_records_def
  by (rule may_end_handled) (auto simp: abort_ends open_is_ok split: prod.split, simp add: may_end_def open_is_ok split: sum.split)

lemma raw_records_ok: "end_ok c \<Longrightarrow> end_ok (fst (append_raw_records ops raw c))"
proof -
  assume c: "end_ok c"
  have w: "end_ok (c\<lparr>cl_writer := w\<rparr>)" for w
    using c by (simp add: end_ok_def open_end_def settled_end_def waiting_end_def reported_writer)
  show ?thesis
    unfolding append_raw_records_def
    by (rule on_data_error_fst[where P = end_ok]) (auto simp: w abort_ends may_end_fst split: prod.split)
qed

lemma record_ends: "open_end c \<Longrightarrow> may_end (record_step ops s release c)"
  by (auto simp: record_step_def finish_completed_def abort_ends open_is_ok complete_ends append_ends
      split: sum.split option.split)

text \<open>A check that stops the caller returns false only after an abort.\<close>

definition checks :: "('w collector, bool) call \<Rightarrow> bool" where
  "checks m \<longleftrightarrow> (case m of (c, Inl _) \<Rightarrow> open_end c | (c, Inr True) \<Rightarrow> open_end c | (c, Inr False) \<Rightarrow> end_ok c)"

lemma checks_simps [simp]: "checks (c, Inl e) = open_end c" "checks (c, Inr True) = open_end c" "checks (c, Inr False) = end_ok c"
  by (simp_all add: checks_def)

lemma checks_stop: "open_end c \<Longrightarrow> checks (cbind (cl_abort ops x i d c) (\<lambda>c1 _. (c1, Inr False)))"
  using abort_ends[OF open_is_ok, of c ops x i d]
  by (cases "cl_abort ops x i d c"; cases "snd (cl_abort ops x i d c)") (auto simp: cbind_def)

lemma may_end_checked:
  "checks m \<Longrightarrow> (\<And>c. open_end c \<Longrightarrow> may_end (f c True)) \<Longrightarrow> (\<And>c. end_ok c \<Longrightarrow> may_end (f c False)) \<Longrightarrow> may_end (cbind m f)"
  by (cases m; cases "snd m") (auto simp: cbind_def checks_def split: bool.split_asm)

lemma source_times_check: "open_end c \<Longrightarrow> checks (check_source_times ops xs c)"
  by (induction ops xs c rule: check_source_times.induct) (auto simp: checks_stop)

lemma index_check: "open_end c \<Longrightarrow> checks (index_sources ops names s c)"
  by (induction ops names s c rule: index_sources.induct) (auto simp: checks_stop Let_def split: option.split)

lemma recording_ends:
  assumes "end_ok c"
  shows "may_end (recording_stage ops s raw release c)"
proof (cases "cl_state c = CapRec")
  case False
  with assms show ?thesis by (simp add: recording_stage_def)
next
  case True
  with assms have op: "open_end c" by (intro end_ok_running) simp_all
  have raws: "may_end (cbind (append_raw_records ops raw d) (\<lambda>c2 _. if cl_state c2 = CapDone then (c2, Inr ()) else record_step ops s release c2))"
    if "open_end d" for d
    by (rule may_end_cbind[OF raw_records_end[OF that]]) (auto intro: record_ends end_ok_running)
  have "may_end (cbind (check_source_times ops (cs_source_ns s) c) (\<lambda>c1 ok.
        if \<not> ok then (c1, Inr ()) else if raw = [] then record_step ops s release c1
        else cbind (append_raw_records ops raw c1) (\<lambda>c2 _. if cl_state c2 = CapDone then (c2, Inr ()) else record_step ops s release c2)))"
    by (rule may_end_checked[OF source_times_check[OF op]]) (auto intro: record_ends raws)
  with True show ?thesis by (simp add: recording_stage_def)
qed

lemma start_episode_ends:
  assumes "open_end c"
  shows "may_end (start_episode ops s pr c)"
proof -
  have sink: "open_end (fst (sink_begin ops p d))" "open_end (fst (sink_camera ops f d))" "open_end (fst (start_clock t d))"
    if "open_end d" for d p f t
    using that by (auto simp: sink_begin_def sink_camera_def start_clock_def split: prod.split sum.split)
  show ?thesis
    unfolding start_episode_def
    by (rule may_end_cbind_open sink append_ends assms | simp)+
qed

lemma start_ends:
  assumes "open_end c"
  shows "may_end (start_if_ready ops s reference active c)"
proof -
  have refused: "may_end (start_refused ops e d)" if "open_end d" for e d
  proof -
    have "may_end (cbind (reject_start ops x x d) (\<lambda>c1 _. (c1, Inr False)))" for x
      by (rule may_end_cbind[OF reject_ends[OF that]]) simp
    with that show ?thesis by (auto simp: start_refused_def open_is_ok split: episode_error.split)
  qed
  have "may_end (case start_episode ops s' pr c of (c1, Inl e) \<Rightarrow> start_refused ops e c1 | (c1, Inr _) \<Rightarrow> (c1, Inr True))" for s' pr
    using start_episode_ends[OF assms, of ops s' pr] refused
    by (cases "start_episode ops s' pr c"; cases "snd (start_episode ops s' pr c)") auto
  with assms show ?thesis
    by (auto simp: start_if_ready_def open_is_ok split: prod.split option.split)
qed

lemma capture_stage_ok:
  assumes "open_end c"
  shows "end_ok (fst (capture_stage ops s reference raw pressed c))"
proof -
  define d where "d = arm_on_edge s pressed c"
  have d: "open_end d" using assms by (simp add: d_def arm_on_edge_def)
  have "end_ok (fst (cbind (start_if_ready ops s reference pressed d) (\<lambda>c2 ok.
          if \<not> ok then recording_stage ops s raw release c2
          else if raw = [] then (c2, Inr ()) else append_raw_records ops raw c2)))" for release
    by (rule cbind_fst[where P = end_ok])
      (use may_end_fst[OF start_ends[OF d]] may_end_fst[OF recording_ends] raw_records_ok in auto)
  then show ?thesis
    unfolding capture_stage_def Let_def d_def[symmetric]
    using may_end_fst[OF recording_ends[OF open_is_ok[OF d]]] may_end_fst[OF reject_ends[OF d]] by (cases pressed) simp_all
qed

lemma control_end_ok:
  assumes "end_ok c"
  shows "end_ok (fst (ingest_control ops s0 reference raw active c))"
proof (cases "cl_state c = CapDone")
  case False
  with assms have op: "open_end c" by (rule end_ok_running)
  obtain d s where st: "stamp_segment s0 c = (d, s)" by fastforce
  have d: "open_end d" using st op by (auto simp: stamp_segment_def Let_def)
  obtain c1 r where ix: "index_sources ops causal_sources s d = (c1, r)" by fastforce
  note check = index_check[OF d, of ops causal_sources s, unfolded ix]
  show ?thesis
  proof (cases "r = Inr True")
    case True
    with check have "open_end c1" by simp
    with capture_stage_ok[of "c1\<lparr>cl_control := line\<rparr>" ops s reference raw for line] True st ix False
    show ?thesis by (simp add: ingest_control_def cbind_def abort_end_ok open_is_ok split: sum.split)
  next
    case False
    then have "end_ok c1" using check by (auto simp: checks_def open_is_ok split: sum.split_asm)
    then show ?thesis using st ix assms False by (cases r) (auto simp: ingest_control_def cbind_def)
  qed
qed (use assms in \<open>simp add: ingest_control_def\<close>)

lemma camera_end_ok:
  assumes "end_ok c"
  shows "end_ok (fst (ingest_camera ops f skipped c))"
proof (cases "cl_state c = CapDone")
  case False
  with assms have op: "open_end c" by (rule end_ok_running)
  have store: "may_end (store_frame ops f d)" if "open_end d" for d
  proof -
    have "may_end (on_data_error (sink_camera ops f e) (\<lambda>c2 e. cl_abort ops x False (Some (error_text e)) c2))" if "open_end e" for e x
      by (rule may_end_handled)
        (use that in \<open>auto simp: sink_camera_def may_end_def abort_ends[unfolded may_end_def] open_is_ok split: prod.split sum.split\<close>)
    with that show ?thesis
      by (auto simp: store_frame_def Let_def abort_ends open_is_ok split: sum.split)
  qed
  with op False show ?thesis
    by (simp add: ingest_camera_def Let_def abort_end_ok open_is_ok may_end_fst)
qed (use assms in \<open>simp add: ingest_camera_def\<close>)

lemma shutdown_end_ok: "end_ok c \<Longrightarrow> end_ok (fst (cl_shutdown ops r k c))"
proof -
  assume c: "end_ok c"
  have "open_end c" if "cl_state c = CapIdle" using end_ok_running[OF c] that by simp
  then show ?thesis
    using may_end_fst[OF pending_ends[OF c]] abort_end_ok[OF c]
    by (auto simp: cl_shutdown_def open_is_ok split: prod.split sum.split)
qed

lemma capture_end_ok: "end_ok c \<Longrightarrow> end_ok (fst (capture_call ops c ev))"
proof (cases ev)
  case (CvFinish reason release k)
  assume c: "end_ok c"
  have "open_end c" if "cl_state c = CapRec" using end_ok_running[OF c] that by simp
  with CvFinish c show ?thesis
    using shutdown_end_ok[OF c] may_end_fst[OF complete_ends[of c]] by (simp add: cl_finish_def)
qed (auto simp: control_end_ok camera_end_ok camera_fault_def shutdown_end_ok may_end_fst[OF abort_ends] may_end_fst[OF discard_current_ends]
    may_end_fst[OF pending_ends])

lemma capture_run_end_ok: "end_ok c \<Longrightarrow> end_ok (capture_run ops c evs)"
  by (induction evs arbitrary: c) (simp_all add: capture_end_ok)

text \<open>Once a terminal call has succeeded no call does anything.\<close>

lemma finished_call:
  assumes "cl_state c = CapDone" and "cl_result c"
  shows "capture_call ops c ev = (c, Inr ())"
  using assms
  by (cases ev) (auto simp: ingest_camera_def ingest_control_def camera_fault_def cl_shutdown_def cl_finish_def cl_abort_def
      discard_current_def finalize_pending_def)

lemma finished_run: "cl_state c = CapDone \<Longrightarrow> cl_result c \<Longrightarrow> capture_run ops c evs = c"
  by (induction evs) (simp_all add: finished_call)

text \<open>
  C30. A session ends once: over any sequence of frames, snapshots, faults, aborts, discards and shutdowns, deferred or
  not, whatever the writer answers or raises, at most one terminal call of the writer succeeds; then the session is
  done, the status and reason it reports are the published ones (a rejected start is reported as invalid),
  and no later call changes anything or reaches the writer.
\<close>

theorem capture_ends_once:
  assumes "mk_collector w fps k = Inr c" and "c' = capture_run ops c evs"
  shows "length (cl_closings c') \<le> 1 \<and> cl_result c' = (cl_closings c' \<noteq> [])
    \<and> (cl_result c' \<longrightarrow> cl_state c' = CapDone \<and> reported c' (hd (cl_closings c')) \<and> capture_run ops c' later = c')"
proof -
  have "open_end c"
    using assms(1) by (auto simp: mk_collector_def open_end_def split: sum.split_asm)
  then have ok: "end_ok c'" using capture_run_end_ok[OF open_is_ok] assms(2) by simp
  then have "length (cl_closings c') \<le> 1 \<and> cl_result c' = (cl_closings c' \<noteq> [])
      \<and> (cl_result c' \<longrightarrow> cl_state c' = CapDone \<and> reported c' (hd (cl_closings c')))"
    by (auto simp: end_ok_def open_end_def settled_end_def)
  with finished_run[of c' ops later] show ?thesis by blast
qed

end
