(* ===== verification/CaptureStaging.thy ===== *)
theory CaptureStaging
  imports CaptureEnding AsyncWriter
begin

text \<open>
  The capture session over a writer that stores samples. The locale \<open>capture_writer\<close> lifts a predicate of the writer and
  of the handed samples from the single calls to whole sessions; \<open>sample_sink\<close> states what a writer
  promises about its stored samples. The staging writer of \<open>src/episode_dataset/episode.py\<close> keeps that
  promise, with the outcomes of its file operations drawn from a stream.
\<close>

section \<open>From calls to sessions\<close>

locale capture_writer = capture_frame +
  assumes data: "P c \<Longrightarrow> cl_writer d = cl_writer c \<Longrightarrow> cl_handed d = cl_handed c \<Longrightarrow> P d"
    and sink_sample: "P c \<Longrightarrow> P (c\<lparr>cl_handed := cl_handed c @ [s], cl_writer := fst (so_sample ops (cl_writer c) s)\<rparr>)"
begin

lemma same_writer: "cl_writer d = cl_writer c \<Longrightarrow> cl_handed d = cl_handed c \<Longrightarrow> P d = P c"
  using data[of c d] data[of d c] by auto

lemma data_parts [simp]:
  "P (c\<lparr>cl_clock := k\<rparr>) = P c" "P (c\<lparr>cl_control := l\<rparr>) = P c" "P (c\<lparr>cl_cameras := ls\<rparr>) = P c" "P (c\<lparr>cl_enabled := ns\<rparr>) = P c"
  by (rule same_writer; simp)+

lemma hand: "P c \<Longrightarrow> P (fst (hand_over ops s c))"
  unfolding hand_over_def Let_def
  using sink_sample[of c s]
  by (intro on_data_error_fst[where P = P]) (auto simp: abort publish split: prod.split sum.split bool.split)

lemma repeat_note: "P (fst (note_repeat r f c)) = P c"
  by (simp add: note_repeat_def Let_def)

lemma whole_slot: "P c \<Longrightarrow> P (fst (complete_slot ops index t control_sel control sel camera c))"
proof -
  assume c: "P c"
  obtain c1 first where a: "note_repeat Workspace (camera Workspace) (count_slots (\<lambda>n. n\<lparr>sl_required_run := 0\<rparr>) c) = (c1, first)" by fastforce
  obtain c2 second where b: "note_repeat Wrist (camera Wrist) c1 = (c2, second)" by fastforce
  have "P c2" using repeat_note[of Workspace "camera Workspace" "count_slots (\<lambda>n. n\<lparr>sl_required_run := 0\<rparr>) c"]
      repeat_note[of Wrist "camera Wrist" c1] a b c by simp
  with a b show ?thesis by (simp add: complete_slot_def hand Let_def)
qed

lemma slot: "P c \<Longrightarrow> P (fst (append_canonical ops index t c))"
  by (auto simp: append_canonical_def fill_slot_def fresh_slot_def Let_def abort stale incomplete whole_slot split: option.split)

lemma record_one: "P c \<Longrightarrow> P (fst (record_step ops s release c))"
  by (auto simp: record_step_def finish_completed_def abort complete slot split: sum.split option.split)

lemma recording: "P c \<Longrightarrow> P (fst (recording_stage ops s raw release c))"
  unfolding recording_stage_def by (auto intro!: cbind_fst[where P = P] record_one raw_records source_times)

lemma clock_call: "P c \<Longrightarrow> P (fst (start_clock t c))"
  by (auto simp: start_clock_def split: sum.split)

lemma started: "P c \<Longrightarrow> P (fst (start_episode ops s pr c))"
  unfolding start_episode_def
  by (rule cbind_fst[where P = P] begin_call camera clock_call slot | assumption | simp)+

lemma start: "P c \<Longrightarrow> P (fst (start_if_ready ops s reference active c))"
proof -
  assume c: "P c"
  have "P (fst (case start_episode ops s' pr c of (c1, Inl e) \<Rightarrow> start_refused ops e c1 | (c1, Inr _) \<Rightarrow> (c1, Inr True)))" for s' pr
    by (rule case_call_fst[where P = P]) (use started[OF c] refused in auto)
  with c show ?thesis by (auto simp: start_if_ready_def split: prod.split option.split)
qed

lemma stage: "P c \<Longrightarrow> P (fst (capture_stage ops s reference raw pressed c))"
proof -
  assume c: "P c"
  define d where "d = arm_on_edge s pressed c"
  have d: "P d" using c by (simp add: d_def arm_on_edge_def)
  have "P (fst (cbind (start_if_ready ops s reference pressed d) (\<lambda>c2 ok.
          if \<not> ok then recording_stage ops s raw release c2
          else if raw = [] then (c2, Inr ()) else append_raw_records ops raw c2)))" for release
    by (rule cbind_fst[where P = P]) (use start[OF d] recording raw_records in auto)
  with recording[OF d] reject[OF d] show ?thesis
    unfolding capture_stage_def Let_def d_def[symmetric] by (cases pressed) simp_all
qed

lemma index_any: "calls = ops \<Longrightarrow> P c \<Longrightarrow> P (fst (index_sources calls names s c))"
  by (induction calls names s c rule: index_sources.induct)
    (auto simp: Let_def split: option.split intro!: cbind_fst[where P = P] abort)

lemma control: "P c \<Longrightarrow> P (fst (ingest_control ops s reference raw active c))"
proof -
  assume c: "P c"
  obtain d s' where st: "stamp_segment s c = (d, s')" by fastforce
  have d: "P d" using c st by (auto simp: stamp_segment_def Let_def)
  have "P (fst (cbind (index_sources ops causal_sources s' d) (\<lambda>c1 ok.
          if \<not> ok then (c1, Inr ())
          else case lift_timeline (ct_append (cl_control c1) (cs_host_ns s') s') of
            Inl e \<Rightarrow> cl_abort ops ''control_timestamp_regression'' True (Some (error_text e)) c1
          | Inr line \<Rightarrow> capture_stage ops s' reference raw
              (case active of None \<Rightarrow> cs_arm_trigger s' | Some b \<Rightarrow> b) (c1\<lparr>cl_control := line\<rparr>))))"
    by (rule cbind_fst[where P = P]) (use index_any[OF refl d] in \<open>auto simp: abort stage split: sum.split\<close>)
  with c st show ?thesis by (simp add: ingest_control_def)
qed

lemma frame: "P c \<Longrightarrow> P (fst (ingest_camera ops f skipped c))"
proof -
  have "P (fst (store_frame ops f d))" if "P d" for d
    using that by (auto simp: store_frame_def Let_def abort split: sum.split intro!: on_data_error_fst[where P = P] camera)
  then show "P c \<Longrightarrow> P (fst (ingest_camera ops f skipped c))"
    by (simp add: ingest_camera_def Let_def abort)
qed

lemma call: "P c \<Longrightarrow> P (fst (capture_call ops c ev))"
  by (cases ev) (simp_all add: control frame fault shutdown finish abort discard_session pending)

lemma run: "P c \<Longrightarrow> P (capture_run ops c evs)"
  by (induction evs arbitrary: c) (simp_all add: call)

end

section \<open>A writer of samples\<close>

locale sample_sink =
  fixes ops :: "'w sink_ops" and stored :: "'w \<Rightarrow> canonical_sample list"
  assumes begin_stores: "set (stored (fst (so_begin ops w p age))) \<subseteq> set (stored w)"
    and camera_stores: "set (stored (fst (so_raw_camera ops w f))) \<subseteq> set (stored w)"
    and sample_stores: "set (stored (fst (so_sample ops w s))) \<subseteq> insert s (set (stored w))"
    and quality_stores: "set (stored (fst (so_quality ops w q))) \<subseteq> set (stored w)"
    and batch_stores: "set (stored (fst (so_raw_batch ops w rs))) \<subseteq> set (stored w)"
    and finalize_stores: "set (stored (fst (so_finalize ops w st r t))) \<subseteq> set (stored w)"
    and discard_stores: "set (stored (fst (so_discard ops w r))) \<subseteq> set (stored w)"
    and close_stores: "set (stored (fst (so_close ops w))) \<subseteq> set (stored w)"

sublocale sample_sink \<subseteq> keeps: capture_writer ops "\<lambda>c. set (stored (cl_writer c)) \<subseteq> set (cl_handed c)"
proof unfold_locales
  fix c :: "'w collector" and s
  assume "set (stored (cl_writer c)) \<subseteq> set (cl_handed c)"
  with sample_stores[of "cl_writer c" s]
  show "set (stored (cl_writer (c\<lparr>cl_handed := cl_handed c @ [s], cl_writer := fst (so_sample ops (cl_writer c) s)\<rparr>)))
    \<subseteq> set (cl_handed (c\<lparr>cl_handed := cl_handed c @ [s], cl_writer := fst (so_sample ops (cl_writer c) s)\<rparr>))" by auto
qed (simp_all add: same_data_def order_trans[OF begin_stores] order_trans[OF camera_stores] order_trans[OF quality_stores]
    order_trans[OF batch_stores] order_trans[OF finalize_stores] order_trans[OF discard_stores] order_trans[OF close_stores])

context sample_sink
begin

text \<open>What the writer holds of a session has been handed over by it.\<close>

lemma stored_were_handed:
  assumes "mk_collector w fps k = Inr c" and "stored w = []"
  shows "set (stored (cl_writer (capture_run ops c evs))) \<subseteq> set (cl_handed (capture_run ops c evs))"
proof -
  have "cl_writer c = w" using assms(1) by (auto simp: mk_collector_def split: sum.split_asm)
  with keeps.run[of c evs] assms(2) show ?thesis by simp
qed

end

section \<open>The staging writer\<close>

text \<open>The staging writer called directly. Each call consumes the outcomes of its file operations.\<close>

record staging =
  sg_writer :: episode_writer
  sg_io :: "nat \<Rightarrow> exec_io"
  sg_calls :: nat

definition staging_call :: "(episode_writer \<Rightarrow> exec_io \<Rightarrow> episode_writer \<times> (episode_error, unit) res) \<Rightarrow> 'a \<Rightarrow> staging \<Rightarrow> (staging, 'a) call" where
  "staging_call f x w =
     (case f (sg_writer w) (sg_io w (sg_calls w)) of
        (e, r) \<Rightarrow> (w\<lparr>sg_writer := e, sg_calls := sg_calls w + 1\<rparr>, case r of Inl err \<Rightarrow> Inl err | Inr _ \<Rightarrow> Inr x))"

definition staging_ops :: "staging sink_ops" where
  "staging_ops =
     \<lparr>so_begin = (\<lambda>w p age. staging_call (\<lambda>e io. ew_begin e p age (xi_made io) (xi_metadata io)) () w),
      so_raw_camera = (\<lambda>w f. staging_call (\<lambda>e io. ew_append_raw_camera e f (xi_camera io)) () w),
      so_sample = (\<lambda>w s. staging_call (\<lambda>e io. ew_append_sample e s (xi_sample io)) True w),
      so_quality = (\<lambda>w q. staging_call (\<lambda>e io. ew_append_raw e (xi_quality io)) True w),
      so_raw_batch = (\<lambda>w rows. staging_call (\<lambda>e io. ew_append_raw_batch e (map (xi_rows io) [0..<length rows])) () w),
      so_finalize = (\<lambda>w status reason t. staging_call (\<lambda>e io. ew_finalize e status reason (xi_finalize io)) () w),
      so_discard = (\<lambda>w reason. staging_call (\<lambda>e io. ew_discard e reason (xi_removed io) (xi_reported io)) () w),
      so_close = (\<lambda>w. (w, Inr ()))\<rparr>"

definition staged_rows :: "staging \<Rightarrow> canonical_sample list" where
  "staged_rows w = ew_rows (sg_writer w)"

lemma staging_call_writer: "sg_writer (fst (staging_call f x w)) = fst (f (sg_writer w) (sg_io w (sg_calls w)))"
  by (simp add: staging_call_def split: prod.split)

lemma staged_begin: "ew_rows (fst (ew_begin w p age a b)) = ew_rows w"
  by (auto simp: ew_begin_def split: sum.split)

lemma staged_finalize: "ew_rows (fst (ew_finalize w st r io)) = ew_rows w"
  by (auto simp: ew_finalize_def Let_def split: sum.split)

lemma staged_discard: "set (ew_rows (fst (ew_discard w r a b))) \<subseteq> set (ew_rows w)"
  by (auto simp: ew_discard_def split: sum.split)

lemma staged_sample: "set (ew_rows (fst (ew_append_sample w s io))) \<subseteq> insert s (set (ew_rows w))"
proof (rule append_sample_cases[OF surjective_pairing, of w s io], goal_cases)
  case (1 e)
  then show ?case by (auto simp: same_rows_def)
next
  case 2
  then show ?case by auto
qed

lemma staged_others:
  "ew_rows (fst (ew_append_raw w io)) = ew_rows w" "ew_rows (fst (ew_append_raw_batch w ios)) = ew_rows w"
  "ew_rows (fst (ew_append_raw_camera w f cio)) = ew_rows w"
  using append_raw_rows[of w io] append_raw_batch_rows[of w ios] append_raw_camera_rows[of w f cio] by (simp_all add: same_rows_def)

interpretation staging: sample_sink staging_ops staged_rows
  by unfold_locales
    (simp_all add: staging_ops_def staged_rows_def staging_call_writer staged_begin staged_finalize staged_discard staged_sample staged_others)

text \<open>
  C31. A row that the staging writer holds of a session, in an open episode or in the published one, is a sample the
  session handed over, so it is causal, fresh and complete: between the capture threads and the file no row
  is invented, whatever the file system answers.
\<close>

theorem capture_rows_causal:
  assumes "mk_collector w fps k = Inr c" and "0 < clock_period fps" and "staged_rows w = []"
    and "s \<in> set (staged_rows (cl_writer (capture_run staging_ops c evs)))"
  shows "s \<in> set (cl_handed (capture_run staging_ops c evs)) \<and> sample_ok k s"
proof -
  have "s \<in> set (cl_handed (capture_run staging_ops c evs))"
    using staging.stored_were_handed[OF assms(1,3), of evs] assms(4) by blast
  moreover from this capture_run_keeps[OF mk_collector_ok[OF assms(1,2)], of staging_ops evs]
  have "sample_ok k s" by (simp add: session_ok_def)
  ultimately show ?thesis by blast
qed

section \<open>Two behaviours of the code\<close>

text \<open>
  The clock numbers every due slot, the staging writer every stored row. Called directly, it refuses the next sample after
  a slot that was not stored, which ends the recording; behind the queue the worker renumbers the samples.
\<close>

lemma left_out_slot_aborts:
  assumes "cl_state c = CapRec" and "ew_started (sg_writer (cl_writer c))" and "\<not> ew_finalized (sg_writer (cl_writer c))"
    and "cn_frame_index s \<noteq> ew_count (sg_writer (cl_writer c))"
  shows "cl_reason (fst (hand_over staging_ops s c)) = Some ''recording_writer_failure''
    \<and> cl_status (fst (hand_over staging_ops s c)) = Some EpAborted
    \<and> staged_rows (cl_writer (fst (hand_over staging_ops s c))) = staged_rows (cl_writer c)"
proof -
  define d where "d = c\<lparr>cl_handed := cl_handed c @ [s],
    cl_writer := (cl_writer c)\<lparr>sg_calls := sg_calls (cl_writer c) + 1\<rparr>\<rparr>"
  have refused: "ew_append_sample (sg_writer (cl_writer c)) s io = (sg_writer (cl_writer c), Inl (EpValue ''frame_index''))" for io
    using assms by (simp add: ew_append_sample_def check_sample_def ew_active_def)
  have run: "hand_over staging_ops s c = cl_abort staging_ops ''recording_writer_failure'' False (Some ''frame_index'') d"
    by (simp add: hand_over_def staging_ops_def staging_call_def refused on_data_error_def d_def Let_def)
  have d: "cl_state d = CapRec" "staged_rows (cl_writer d) = staged_rows (cl_writer c)"
    using assms(1) by (simp_all add: d_def staged_rows_def)
  have rows: "staged_rows (fst (so_finalize staging_ops w st r t)) = staged_rows w" for w st r t
    by (simp add: staging_ops_def staged_rows_def staging_call_writer staged_finalize)
  obtain w r where fin: "so_finalize staging_ops (cl_writer d) EpAborted ''recording_writer_failure'' None = (w, r)" by fastforce
  with rows[of "cl_writer d" EpAborted "''recording_writer_failure''" None] have "staged_rows w = staged_rows (cl_writer d)" by simp
  with d fin show ?thesis
    unfolding run by (cases r) (auto simp: cl_abort_def abort_status_def finalize_now_def sink_finalize_def cbind_def Let_def)
qed

text \<open>The verdict does not look at the status: an episode aborted by a tracking fault counts as completed and valid.\<close>

lemma tracking_fault_counts_as_valid:
  assumes "cl_reason c = Some ''tracking_hard_fault''" and "sl_invalid_any (cl_slots c) = 0"
    and "\<forall>r. \<not> role_degraded (cl_config c) (cl_quality c r)"
  shows "quality_state c 0 0 = ''completed_valid''"
  using assms by (simp add: quality_state_def recording_reason_def safety_reason_def reason_starts_def)

end
