(* ===== verification/CaptureDemo.thy ===== *)
theory CaptureDemo
  imports CaptureStaging
begin

text \<open>
  A session over the staging writer, call by call: a frame of each camera, the snapshot that starts the episode and
  the one that ends it. The properties of the capture session are used on it.
\<close>

definition session_config :: collector_config where
  "session_config = \<lparr>kc_camera_max_age_ns = 100, kc_control_max_age_ns = 40, kc_max_start_delta = Fin 1, kc_max_hand_delta = Fin 1,
     kc_defer = False, kc_retry = False, kc_severe_stale_ns = 500, kc_stale_limit = 15, kc_missing_timeout_ns = 1000,
     kc_required_limit = 15, kc_min_valid_ratio = Fin 1, kc_max_invalid_run = 0\<rparr>"

definition session_frame :: "camera_role \<Rightarrow> camera_record" where
  "session_frame r = (demo_camera r)\<lparr>cam_host_ns := 20\<rparr>"

definition session_press :: control_sample where
  "session_press = demo_sample_control\<lparr>cs_segment_mode := ''both_idle''\<rparr>"

definition session_release :: control_sample where
  "session_release = session_press\<lparr>cs_host_ns := 30, cs_arm_trigger := False\<rparr>"

definition session_writer :: staging where
  "session_writer = \<lparr>sg_writer = new_episode_writer 1, sg_io = (\<lambda>_. fine_io), sg_calls = 0\<rparr>"

definition session_events :: "capture_event list" where
  "session_events = [CvCamera (session_frame Workspace) 0, CvCamera (session_frame Wrist) 0,
     CvControl session_press True [] None, CvControl session_release True [] None]"

lemma one_second: "clock_period 1 = 1000000000"
  using round64_of_int[of 1000000000] by (simp add: clock_period_def round_half_even_def)

text \<open>An idle session with empty time lines.\<close>

definition waiting_session :: "staging collector \<Rightarrow> (camera_role \<Rightarrow> (int \<times> camera_record) list) \<Rightarrow> bool" where
  "waiting_session c frames \<longleftrightarrow> cl_config c = session_config \<and> cl_writer c = session_writer \<and> cl_state c = CapIdle
     \<and> cl_enabled c = [] \<and> \<not> cl_last_trigger c \<and> cl_segment_mode c = None \<and> cl_segment_id c = 0 \<and> cl_handed c = [] \<and> cl_closings c = []
     \<and> cl_control c = \<lparr>ct_max_age_ns = 40, ct_capacity = 4096, ct_items = []\<rparr>
     \<and> (\<forall>r. cl_cameras c r = \<lparr>ct_max_age_ns = 100, ct_capacity = 16, ct_items = frames r\<rparr>)
     \<and> cc_start_ns (cl_clock c) = None \<and> cc_period_ns (cl_clock c) = 1000000000"

lemma session_start:
  obtains c where "mk_collector session_writer 1 session_config = Inr c" "waiting_session c (\<lambda>_. [])"
  by (simp add: mk_collector_def check_collector_config_def session_config_def lift_timeline_def mk_clock_def mk_timeline_def
      waiting_session_def one_second)

lemma session_frame_arrives:
  assumes "waiting_session c frames" and "frames r = []"
  shows "waiting_session (fst (ingest_camera ops (session_frame r) 0 c)) (frames(r := [(20, session_frame r)]))"
  using assms
  by (auto simp: waiting_session_def ingest_camera_def store_frame_def session_frame_def demo_camera_def ct_append_def deque_append_def
      lift_timeline_def Let_def)

definition session_stamped :: control_sample where
  "session_stamped = session_press\<lparr>cs_segment_id := 0, cs_segment_mode := ''arm_only''\<rparr>"

definition session_prerequisites :: start_prerequisites where
  "session_prerequisites = \<lparr>sq_press_ns = 20, sq_reference = True, sq_accepted = session_stamped,
    sq_workspace = session_frame Workspace, sq_wrist = session_frame Wrist, sq_maximum_delta = Fin 1, sq_maximum_hand_delta = Fin 1\<rparr>"

lemma session_validate: "validate_start session_prerequisites 100 = Inr ()"
  by (simp add: validate_start_def session_prerequisites_def session_stamped_def session_press_def session_frame_def demo_sample_control_def
      present_def continuity_delta_def camera_gate_def demo_camera_def fsub_def fmax_def)

lemma session_stamped_parts:
  "cs_host_ns session_stamped = 20" "cs_source_ns session_stamped = []" "cs_arm_trigger session_stamped" "missing_fields session_stamped = []"
  "cs_accepted_q session_stamped \<noteq> None" "cs_measured_q session_stamped \<noteq> None" "cs_hand_observation session_stamped \<noteq> None"
  by (simp_all add: session_stamped_def session_press_def demo_sample_control_def missing_fields_def)

text \<open>What the writer does, in the order the session calls it.\<close>

definition after_begin :: staging where
  "after_begin = session_writer\<lparr>sg_writer := (new_episode_writer 1)\<lparr>ew_started := True, ew_start_ns := Some 20, ew_press_ns := Some 20\<rparr>,
     sg_calls := 1\<rparr>"

lemma session_begin: "so_begin staging_ops session_writer session_prerequisites 100 = (after_begin, Inr ())"
proof -
  have "ew_begin (new_episode_writer 1) session_prerequisites 100 None None
      = ((new_episode_writer 1)\<lparr>ew_started := True, ew_start_ns := Some 20, ew_press_ns := Some 20\<rparr>, Inr ())"
    unfolding ew_begin_def session_validate
    by (simp add: new_episode_writer_def io_result_def session_prerequisites_def session_stamped_parts)
  then show ?thesis by (simp add: staging_ops_def staging_call_def session_writer_def after_begin_def fine_io_def)
qed

definition frame_stored :: "camera_record list \<Rightarrow> staging \<Rightarrow> bool" where
  "frame_stored fs w \<longleftrightarrow> ew_started (sg_writer w) \<and> \<not> ew_finalized (sg_writer w) \<and> ew_count (sg_writer w) = 0
     \<and> ew_last_ns (sg_writer w) = None \<and> ew_rows (sg_writer w) = [] \<and> sg_io w = (\<lambda>_. fine_io)
     \<and> ew_raw_keys (sg_writer w) = map camera_key fs \<and> ew_raw_paths (sg_writer w) = map camera_key fs"

lemma session_frame_stored:
  assumes "frame_stored fs w" and "camera_key f \<notin> camera_key ` set fs"
  obtains w' where "so_raw_camera staging_ops w f = (w', Inr ())" "frame_stored (f # fs) w'"
proof -
  define w' where "w' = fst (so_raw_camera staging_ops w f)"
  have "so_raw_camera staging_ops w f = (w', Inr ())" "frame_stored (f # fs) w'"
    using assms
    by (simp_all add: w'_def frame_stored_def staging_ops_def staging_call_def ew_append_raw_camera_def save_raw_camera_def ew_append_raw_def
        ew_active_def fine_io_def fine_camera_def io_result_def Let_def)
  then show thesis by (rule that)
qed

lemma session_sample_stored:
  assumes "frame_stored [session_frame Wrist, session_frame Workspace] w"
    and "cn_frame_index s = 0" "cn_synchronized s" "cn_nominal_slot s = Some 0" "cn_missed_before s = 0" "cn_missed_after s = 0"
    and "cn_workspace s = session_frame Workspace" "cn_wrist s = session_frame Wrist"
  obtains w' where "so_sample staging_ops w s = (w', Inr True)" "staged_rows w' = [s]" "ew_started (sg_writer w')"
    "\<not> ew_finalized (sg_writer w')" "ew_count (sg_writer w') = 1" "sg_io w' = (\<lambda>_. fine_io)"
proof -
  have io: "xi_sample fine_io = \<lparr>si_frames = None, si_workspace = fine_camera, si_workspace_link = None, si_wrist = fine_camera,
       si_wrist_link = None, si_row = None\<rparr>" by (simp add: fine_io_def)
  define w' where "w' = fst (so_sample staging_ops w s)"
  have "so_sample staging_ops w s = (w', Inr True)" "staged_rows w' = [s]" "ew_started (sg_writer w')" "\<not> ew_finalized (sg_writer w')"
    "ew_count (sg_writer w') = 1" "sg_io w' = (\<lambda>_. fine_io)"
    using assms
    by (simp_all add: w'_def frame_stored_def staging_ops_def staging_call_def ew_append_sample_def check_sample_def ew_active_def
        effective_slot_def write_camera_sample_def io io_result_def staged_rows_def)
  then show thesis by (rule that)
qed

text \<open>The first slot of an episode that has just begun.\<close>

lemma session_first_slot:
  assumes "cl_control c = \<lparr>ct_max_age_ns = 40, ct_capacity = 4096, ct_items = [(20, s0)]\<rparr>" and "cl_enabled c = []"
    and "\<forall>r. cl_cameras c r = \<lparr>ct_max_age_ns = 100, ct_capacity = 16, ct_items = [(20, session_frame r)]\<rparr>"
    and "missing_fields s0 = []"
    and "frame_stored [session_frame Wrist, session_frame Workspace] (cl_writer c)"
  obtains c' s where "append_canonical staging_ops 0 20 c = (c', Inr ())" "cl_handed c' = cl_handed c @ [s]" "staged_rows (cl_writer c') = [s]"
    "cn_timestamp_ns s = 20" "cl_state c' = cl_state c" "ew_started (sg_writer (cl_writer c'))" "\<not> ew_finalized (sg_writer (cl_writer c'))"
    "ew_count (sg_writer (cl_writer c')) = 1" "sg_io (cl_writer c') = (\<lambda>_. fine_io)"
    "cl_enabled c' = []" "cl_control c' = cl_control c" "cl_config c' = cl_config c" "cl_last_trigger c' = cl_last_trigger c" "cl_closings c' = cl_closings c"
proof -
  define d where "d = count_slots (\<lambda>n. n\<lparr>sl_total := sl_total n + 1\<rparr>) c"
  define csel where "csel = latest_at_or_before (cl_control c) 20"
  define sel where "sel = (\<lambda>r. latest_at_or_before (cl_cameras c r) 20)"
  have csel: "sel_valid csel" "sel_value csel = Some s0"
    using assms(1) by (simp_all add: csel_def latest_at_or_before_def latest_matching_def ct_find_def)
  have sel: "sel_valid (sel r)" "sel_value (sel r) = Some (session_frame r)" for r
    using assms(3) by (simp_all add: sel_def latest_at_or_before_def latest_matching_def ct_find_def)
  have ctl: "causal_control_at d s0 20 = s0" using assms(2) by (simp add: d_def count_slots_def causal_control_at_def fold_Cons causal_sources_def)
  have cams: "(\<lambda>r. case r of Workspace \<Rightarrow> session_frame Workspace | Wrist \<Rightarrow> session_frame Wrist) = session_frame"
    by (auto simp: fun_eq_iff split: camera_role.split)
  define e where "e = count_slots (\<lambda>n. n\<lparr>sl_required_run := 0\<rparr>)
    (count_slots (\<lambda>n. n\<lparr>sl_valid_all := sl_valid_all n + 1\<rparr>) (d\<lparr>cl_quality := (\<lambda>r. note_aged_camera (sel r) (cl_quality d r))\<rparr>))"
  obtain e1 p where n1: "note_repeat Workspace (session_frame Workspace) e = (e1, p)" by fastforce
  obtain e2 q where n2: "note_repeat Wrist (session_frame Wrist) e1 = (e2, q)" by fastforce
  have e2: "cl_writer e2 = cl_writer c" "cl_handed e2 = cl_handed c" "cl_state e2 = cl_state c" "cl_enabled e2 = cl_enabled c"
    "cl_control e2 = cl_control c" "cl_config e2 = cl_config c" "cl_last_trigger e2 = cl_last_trigger c" "cl_closings e2 = cl_closings c"
    using n1 n2 by (auto simp: note_repeat_def Let_def e_def d_def count_slots_def)
  define s where "s = canonical_of (cl_clock e2) 0 20 csel s0 sel session_frame ((if p then [Workspace] else []) @ (if q then [Wrist] else []))"
  have run: "append_canonical staging_ops 0 20 c = hand_over staging_ops s e2"
    using csel sel ctl assms(4) n1 n2
    by (simp add: append_canonical_def csel_def[symmetric] sel_def[symmetric] d_def[symmetric] fill_slot_def fresh_slot_def
        complete_slot_def cams e_def[symmetric] s_def Let_def)
  have s: "cn_frame_index s = 0" "cn_synchronized s" "cn_nominal_slot s = Some 0" "cn_missed_before s = 0" "cn_missed_after s = 0"
    "cn_workspace s = session_frame Workspace" "cn_wrist s = session_frame Wrist" "cn_timestamp_ns s = 20"
    by (simp_all add: s_def canonical_of_def Let_def)
  obtain w' where w': "so_sample staging_ops (cl_writer c) s = (w', Inr True)" "staged_rows w' = [s]" "ew_started (sg_writer w')"
    "\<not> ew_finalized (sg_writer w')" "ew_count (sg_writer w') = 1" "sg_io w' = (\<lambda>_. fine_io)"
    by (rule session_sample_stored[OF assms(5) s(1-7)])
  have "hand_over staging_ops s e2 = (e2\<lparr>cl_handed := cl_handed c @ [s], cl_writer := w'\<rparr>, Inr ())"
    using w'(1) e2 by (simp add: hand_over_def on_data_error_def)
  with run w' e2 s(8) assms(2) show thesis by (intro that[of "e2\<lparr>cl_handed := cl_handed c @ [s], cl_writer := w'\<rparr>" s]) simp_all
qed

text \<open>The press: the armed session starts and hands over its first sample.\<close>

definition armed_session :: "staging collector \<Rightarrow> bool" where
  "armed_session c \<longleftrightarrow> cl_config c = session_config \<and> cl_writer c = session_writer \<and> cl_state c = CapArming \<and> cl_enabled c = []
     \<and> cl_press_ns c = Some 20 \<and> cl_handed c = [] \<and> cl_closings c = [] \<and> cl_last_trigger c
     \<and> cl_control c = \<lparr>ct_max_age_ns = 40, ct_capacity = 4096, ct_items = [(20, session_stamped)]\<rparr>
     \<and> (\<forall>r. cl_cameras c r = \<lparr>ct_max_age_ns = 100, ct_capacity = 16, ct_items = [(20, session_frame r)]\<rparr>)
     \<and> cc_start_ns (cl_clock c) = None \<and> cc_period_ns (cl_clock c) = 1000000000"

lemma armed_candidate:
  assumes "armed_session c"
  shows "start_candidate c session_stamped True = (session_stamped, Some (session_frame Workspace), Some (session_frame Wrist))"
    and "press_time c session_stamped = 20"
    and "start_prerequisites_of c session_stamped (session_frame Workspace) (session_frame Wrist) True = session_prerequisites"
  using assms session_stamped_parts
  by (simp_all add: armed_session_def start_candidate_def causal_control_at_def causal_sources_def latest_at_or_before_def latest_matching_def
      ct_find_def press_time_def start_prerequisites_of_def session_prerequisites_def session_config_def Let_def)

definition recorded_session :: "staging collector \<Rightarrow> bool" where
  "recorded_session c \<longleftrightarrow> cl_state c = CapRec \<and> cl_enabled c = [] \<and> cl_last_trigger c \<and> cl_closings c = [] \<and> cl_config c = session_config
     \<and> cl_control c = \<lparr>ct_max_age_ns = 40, ct_capacity = 4096, ct_items = [(20, session_stamped)]\<rparr>
     \<and> (\<exists>s. cl_handed c = [s] \<and> staged_rows (cl_writer c) = [s] \<and> cn_timestamp_ns s = 20)
     \<and> ew_started (sg_writer (cl_writer c)) \<and> \<not> ew_finalized (sg_writer (cl_writer c)) \<and> ew_count (sg_writer (cl_writer c)) = 1
     \<and> sg_io (cl_writer c) = (\<lambda>_. fine_io)"

lemma session_starts:
  assumes "armed_session c"
  obtains c' where "start_if_ready staging_ops session_stamped True True c = (c', Inr True)" "recorded_session c'"
proof -
  have c: "cl_config c = session_config" "cl_writer c = session_writer" "cl_enabled c = []" "cl_handed c = []" "cl_last_trigger c"
    "cl_control c = \<lparr>ct_max_age_ns = 40, ct_capacity = 4096, ct_items = [(20, session_stamped)]\<rparr>"
    "\<forall>r. cl_cameras c r = \<lparr>ct_max_age_ns = 100, ct_capacity = 16, ct_items = [(20, session_frame r)]\<rparr>"
    "cc_start_ns (cl_clock c) = None" "cl_closings c = []" using assms by (simp_all add: armed_session_def)
  have w0: "frame_stored [] after_begin" by (simp add: frame_stored_def after_begin_def session_writer_def new_episode_writer_def)
  obtain w1 where w1: "so_raw_camera staging_ops after_begin (session_frame Workspace) = (w1, Inr ())" "frame_stored [session_frame Workspace] w1"
    by (rule session_frame_stored[OF w0, of "session_frame Workspace"]) simp_all
  obtain w2 where w2: "so_raw_camera staging_ops w1 (session_frame Wrist) = (w2, Inr ())"
    "frame_stored [session_frame Wrist, session_frame Workspace] w2"
    by (rule session_frame_stored[OF w1(2), of "session_frame Wrist"]) (simp_all add: camera_key_def session_frame_def demo_camera_def)
  obtain clock where clock: "clock_start (cl_clock c) 20 = Inr (clock, 0, 20)" using c(8) by (simp add: clock_start_def)
  define d where "d = c\<lparr>cl_writer := w2, cl_clock := clock, cl_source_ns := known_source_times session_stamped, cl_state := CapRec\<rparr>"
  obtain c' s where s: "append_canonical staging_ops 0 20 d = (c', Inr ())" "cl_handed c' = cl_handed d @ [s]" "staged_rows (cl_writer c') = [s]"
    "cn_timestamp_ns s = 20" "cl_state c' = cl_state d" "ew_started (sg_writer (cl_writer c'))" "\<not> ew_finalized (sg_writer (cl_writer c'))"
    "ew_count (sg_writer (cl_writer c')) = 1" "sg_io (cl_writer c') = (\<lambda>_. fine_io)"
    "cl_enabled c' = []" "cl_control c' = cl_control d" "cl_config c' = cl_config d" "cl_last_trigger c' = cl_last_trigger d" "cl_closings c' = cl_closings d"
    by (rule session_first_slot[of d session_stamped]) (use c w2 in \<open>simp_all add: d_def session_stamped_parts\<close>)
  have pre: "sq_workspace session_prerequisites = session_frame Workspace" "sq_wrist session_prerequisites = session_frame Wrist"
    by (simp_all add: session_prerequisites_def)
  have age: "kc_camera_max_age_ns (cl_config c) = 100" using c(1) by (simp add: session_config_def)
  have "start_episode staging_ops session_stamped session_prerequisites c = (c', Inr ())"
    using session_begin w1(1) w2(1) c(2) s(1) clock
    by (simp add: start_episode_def sink_begin_def sink_camera_def start_clock_def cbind_def lift_timeline_def age pre session_stamped_parts
        d_def)
  then have "start_if_ready staging_ops session_stamped True True c = (c', Inr True)"
    using armed_candidate[OF assms] session_stamped_parts by (simp add: start_if_ready_def session_frame_def)
  moreover have "recorded_session c'" using s c by (simp add: recorded_session_def d_def)
  ultimately show thesis by (rule that)
qed

lemma session_pressed:
  assumes "waiting_session c (\<lambda>r. [(20, session_frame r)])"
  shows "recorded_session (fst (ingest_control staging_ops session_press True [] None c))"
proof -
  define d where "d = c\<lparr>cl_segment_id := 0, cl_segment_mode := Some ''arm_only''\<rparr>"
  have mode: "segment_mode session_press = ''arm_only''" by (simp add: segment_mode_def session_press_def demo_sample_control_def)
  have stamp: "stamp_segment session_press c = (d, session_stamped)"
    using assms by (simp add: stamp_segment_def mode waiting_session_def d_def session_stamped_def Let_def)
  have index: "index_sources staging_ops causal_sources session_stamped d = (d, Inr True)"
    by (simp add: causal_sources_def session_stamped_parts)
  define e where "e = d\<lparr>cl_control := \<lparr>ct_max_age_ns = 40, ct_capacity = 4096, ct_items = [(20, session_stamped)]\<rparr>\<rparr>"
  have line: "ct_append (cl_control d) 20 session_stamped = Inr (cl_control e)"
    using assms by (simp add: e_def d_def waiting_session_def ct_append_def deque_append_def)
  have armed: "armed_session (arm_on_edge session_stamped True e)"
    using assms by (simp add: armed_session_def arm_on_edge_def e_def d_def waiting_session_def session_stamped_parts)
  then obtain c' where c': "start_if_ready staging_ops session_stamped True True (arm_on_edge session_stamped True e) = (c', Inr True)"
    "recorded_session c'" by (rule session_starts)
  have "capture_stage staging_ops session_stamped True [] True e = (c', Inr ())"
    using c'(1) armed by (simp add: capture_stage_def cbind_def armed_session_def Let_def)
  moreover have "e = d\<lparr>cl_control := cl_control e\<rparr>" by (simp add: e_def)
  ultimately have "ingest_control staging_ops session_press True [] None c = (c', Inr ())"
    using assms stamp index line
    by (simp add: ingest_control_def cbind_def lift_timeline_def session_stamped_parts waiting_session_def)
  with c'(2) show ?thesis by simp
qed

text \<open>The release: the writer publishes the episode as completed.\<close>

definition finished_session :: "staging collector \<Rightarrow> bool" where
  "finished_session c \<longleftrightarrow> cl_state c = CapDone \<and> cl_closings c = [Published EpCompleted ''arm_trigger_released'']
     \<and> (\<exists>s. cl_handed c = [s] \<and> staged_rows (cl_writer c) = [s] \<and> cn_timestamp_ns s = 20)"

lemma rows_of_one: "staged_rows w = [s] \<Longrightarrow> ew_rows (sg_writer w) = [s]"
  by (simp add: staged_rows_def)

lemma session_finalized:
  assumes "ew_started (sg_writer w)" "\<not> ew_finalized (sg_writer w)" "ew_count (sg_writer w) = 1" "sg_io w = (\<lambda>_. fine_io)"
  obtains w' where "so_finalize staging_ops w EpCompleted reason t = (w', Inr ())" "staged_rows w' = staged_rows w"
proof -
  define w' where "w' = fst (so_finalize staging_ops w EpCompleted reason t)"
  have "so_finalize staging_ops w EpCompleted reason t = (w', Inr ())" "staged_rows w' = staged_rows w"
    using assms by (simp_all add: w'_def staging_ops_def staging_call_def ew_finalize_def ew_active_def fine_io_def io_result_def
        staged_rows_def Let_def)
  then show thesis by (rule that)
qed

lemma session_released:
  assumes "recorded_session c"
  shows "finished_session (fst (ingest_control staging_ops session_release True [] None c))"
proof -
  obtain d s where stamp: "stamp_segment session_release c = (d, s)" by fastforce
  have d: "cl_state d = cl_state c" "cl_config d = cl_config c" "cl_writer d = cl_writer c" "cl_handed d = cl_handed c"
    "cl_control d = cl_control c" "cl_last_trigger d = cl_last_trigger c" "cl_closings d = cl_closings c"
    "cs_host_ns s = 30" "cs_source_ns s = []" "\<not> cs_arm_trigger s" "\<not> cs_controller_fault s" "\<not> cs_tracking_fault s" "cs_heartbeat_valid s"
    using stamp by (auto simp: stamp_segment_def Let_def session_release_def session_press_def demo_sample_control_def)
  have c: "cl_state c = CapRec" "cl_last_trigger c" "cl_closings c = []" "\<not> kc_defer (cl_config c)"
    "cl_control c = \<lparr>ct_max_age_ns = 40, ct_capacity = 4096, ct_items = [(20, session_stamped)]\<rparr>"
    using assms by (simp_all add: recorded_session_def session_config_def)
  obtain x where x: "cl_handed c = [x]" "staged_rows (cl_writer c) = [x]" "cn_timestamp_ns x = 20"
    using assms by (auto simp: recorded_session_def)
  obtain w' where w': "so_finalize staging_ops (cl_writer c) EpCompleted ''arm_trigger_released'' (Some 30) = (w', Inr ())"
    "staged_rows w' = staged_rows (cl_writer c)"
    by (rule session_finalized[of "cl_writer c" "''arm_trigger_released''" "Some 30"])
      (use assms in \<open>simp_all add: recorded_session_def\<close>)
  have index: "index_sources staging_ops causal_sources s d = (d, Inr True)" by (simp add: causal_sources_def d)
  obtain line where line: "ct_append (cl_control d) 30 s = Inr line" using d c by (simp add: ct_append_def)
  define e where "e = arm_on_edge s False (d\<lparr>cl_control := line\<rparr>)"
  have e: "cl_state e = CapRec" "cl_writer e = cl_writer c" "cl_config e = cl_config c" "cl_handed e = [x]" "cl_closings e = []"
    using d c x by (simp_all add: e_def arm_on_edge_def)
  have "capture_stage staging_ops s True [] False (d\<lparr>cl_control := line\<rparr>) = record_step staging_ops s True e"
    using e c d by (simp add: capture_stage_def e_def[symmetric] recording_stage_def cbind_def)
  moreover have "finished_session (fst (record_step staging_ops s True e))"
    using e d c x w'
    by (simp add: record_step_def finish_completed_def complete_session_def sink_finalize_def cbind_def finished_session_def end_as_def)
  ultimately show ?thesis
    using stamp index line d c by (simp add: ingest_control_def cbind_def lift_timeline_def)
qed

lemma session_run:
  obtains c where "mk_collector session_writer 1 session_config = Inr c" "finished_session (capture_run staging_ops c session_events)"
proof -
  obtain c where c: "mk_collector session_writer 1 session_config = Inr c" "waiting_session c (\<lambda>_. [])" by (rule session_start)
  have "waiting_session (fst (ingest_camera staging_ops (session_frame Workspace) 0 c)) ((\<lambda>_. [])(Workspace := [(20, session_frame Workspace)]))"
    by (rule session_frame_arrives[OF c(2)]) simp
  from session_frame_arrives[OF this, of Wrist staging_ops]
  have "waiting_session (fst (ingest_camera staging_ops (session_frame Wrist) 0 (fst (ingest_camera staging_ops (session_frame Workspace) 0 c))))
      (\<lambda>r. [(20, session_frame r)])"
    by (simp add: waiting_session_def) (metis camera_role.exhaust)
  from session_released[OF session_pressed[OF this]] have "finished_session (capture_run staging_ops c session_events)"
    by (simp add: session_events_def)
  with c(1) show thesis by (rule that)
qed

section \<open>The properties on this session\<close>

theorem capture_samples_causal_witness:
  "\<exists>c s. mk_collector session_writer 1 session_config = Inr c \<and> cl_handed (capture_run staging_ops c session_events) = [s]
     \<and> sample_ok session_config s"
proof -
  obtain c where c: "mk_collector session_writer 1 session_config = Inr c" "finished_session (capture_run staging_ops c session_events)"
    by (rule session_run)
  then obtain s where s: "cl_handed (capture_run staging_ops c session_events) = [s]" by (auto simp: finished_session_def)
  with capture_samples_causal[OF c(1), of s staging_ops session_events] c(1) show ?thesis by (auto simp: one_second)
qed

theorem capture_samples_on_grid_witness:
  "\<exists>c start_ns. mk_collector session_writer 1 session_config = Inr c \<and> cl_handed (capture_run staging_ops c session_events) \<noteq> []
     \<and> on_grid start_ns 1000000000 (cl_handed (capture_run staging_ops c session_events))"
proof -
  obtain c where c: "mk_collector session_writer 1 session_config = Inr c" "finished_session (capture_run staging_ops c session_events)"
    by (rule session_run)
  with capture_samples_on_grid[OF c(1), of staging_ops session_events] show ?thesis by (auto simp: one_second finished_session_def)
qed

theorem capture_ends_once_witness:
  "\<exists>c. mk_collector session_writer 1 session_config = Inr c
     \<and> cl_closings (capture_run staging_ops c session_events) = [Published EpCompleted ''arm_trigger_released'']
     \<and> cl_status (capture_run staging_ops c session_events) = Some EpCompleted
     \<and> capture_run staging_ops (capture_run staging_ops c session_events) session_events = capture_run staging_ops c session_events"
proof -
  obtain c where c: "mk_collector session_writer 1 session_config = Inr c" "finished_session (capture_run staging_ops c session_events)"
    by (rule session_run)
  then have "cl_closings (capture_run staging_ops c session_events) = [Published EpCompleted ''arm_trigger_released'']"
    by (simp add: finished_session_def)
  with capture_ends_once[OF c(1) refl, of staging_ops session_events session_events] c(1) show ?thesis by auto
qed

theorem capture_rows_causal_witness:
  "\<exists>c s. mk_collector session_writer 1 session_config = Inr c
     \<and> staged_rows (cl_writer (capture_run staging_ops c session_events)) = [s] \<and> sample_ok session_config s"
proof -
  obtain c where c: "mk_collector session_writer 1 session_config = Inr c" "finished_session (capture_run staging_ops c session_events)"
    by (rule session_run)
  then obtain s where s: "staged_rows (cl_writer (capture_run staging_ops c session_events)) = [s]" by (auto simp: finished_session_def)
  moreover have "staged_rows session_writer = []" by (simp add: staged_rows_def session_writer_def new_episode_writer_def)
  ultimately show ?thesis using capture_rows_causal[OF c(1), of s session_events] c(1) by (auto simp: one_second)
qed

end
