(* ===== verification/Synchronizer.thy ===== *)
theory Synchronizer
  imports EpisodeData "HOL-Library.While_Combinator"
begin

text \<open>
  The offline synchronizer of \<open>src/episode_dataset/synchronization.py\<close>: a fixed-rate time line over a staging
  episode, with the newest observation of each source at or before every grid point. The rows are read
  from files by the caller; a missing or malformed field is \<open>None\<close>. Two float routines of the
  runtime whose rounding depends on its version are parameters: the built-in sum of floats and the square.
\<close>

section \<open>Rows\<close>

record camera_meta =
  cm_frame_number :: "int option"
  cm_device_ms :: "pyfloat option"
  cm_host_ns :: "int option"
  cm_domain :: "string option"

record stage_row =
  sr_timestamp_ns :: int
  sr_frame_index :: int
  sr_camera :: "camera_role \<Rightarrow> camera_meta"
  sr_state :: "pyfloat list option"
  sr_source_ns :: "(string \<times> int option) list"
  sr_force :: "pyfloat list"

record jaka_audit =
  ja_read_ns :: "int option"
  ja_joints :: "pyfloat list option"

record hand_audit =
  ha_angle_ns :: "int option"
  ha_angle :: "pyfloat list option"
  ha_force_ns :: "int option"
  ha_force :: "pyfloat list option"

type_synonym stamped_values = "int \<times> pyfloat list"

record camera_observation =
  co_timestamp_ns :: int
  co_host_ns :: int
  co_frame_index :: int
  co_frame_number :: int
  co_device_ms :: pyfloat

definition conv_exception :: "(conv_error, 'a) res \<Rightarrow> (episode_error, 'a) res" where
  "conv_exception r = (case r of Inr x \<Rightarrow> Inr x | Inl OverflowError \<Rightarrow> Inl EpOther | Inl ValueErrorNaN \<Rightarrow> Inl (EpValue ''cannot convert float NaN to integer''))"

section \<open>The newest observation\<close>

text \<open>\<open>bisect.bisect_right\<close>.\<close>

function bisect_loop :: "int list \<Rightarrow> int \<Rightarrow> nat \<Rightarrow> nat \<Rightarrow> nat" where
  "bisect_loop xs x lo hi =
     (if lo < hi then let mid = (lo + hi) div 2 in
        if x < xs ! mid then bisect_loop xs x lo mid else bisect_loop xs x (mid + 1) hi
      else lo)"
  by pat_completeness auto

termination
  by (relation "measure (\<lambda>(xs, x, lo, hi). hi - lo)") auto

declare bisect_loop.simps [simp del]

definition bisect_right :: "int list \<Rightarrow> int \<Rightarrow> nat" where
  "bisect_right xs x = bisect_loop xs x 0 (length xs)"

definition sync_latest :: "('a \<Rightarrow> int) \<Rightarrow> 'a list \<Rightarrow> int \<Rightarrow> 'a option" where
  "sync_latest stamp values t =
     (let index = int (bisect_right (map stamp values) t) - 1 in if index < 0 then None else Some (values ! nat index))"

record timed_value =
  tv_values :: "pyfloat list option"
  tv_timestamp_ns :: "int option"
  tv_age_ns :: "int option"
  tv_valid :: bool

definition timed_value_of :: "stamped_values option \<Rightarrow> int \<Rightarrow> timed_value" where
  "timed_value_of v t =
     (case v of
        None \<Rightarrow> \<lparr>tv_values = None, tv_timestamp_ns = None, tv_age_ns = None, tv_valid = False\<rparr>
      | Some (s, values) \<Rightarrow> \<lparr>tv_values = Some values, tv_timestamp_ns = Some s, tv_age_ns = Some (t - s), tv_valid = (s \<le> t)\<rparr>)"

record camera_choice =
  ch_frame_index :: "int option"
  ch_frame_number :: "int option"
  ch_device_ms :: "pyfloat option"
  ch_mapped_ns :: "int option"
  ch_age_ns :: "int option"
  ch_valid :: bool

definition select_camera :: "camera_observation list \<Rightarrow> int \<Rightarrow> int \<Rightarrow> camera_choice" where
  "select_camera values t tolerance_ns =
     (case sync_latest co_timestamp_ns values t of
        None \<Rightarrow> \<lparr>ch_frame_index = None, ch_frame_number = None, ch_device_ms = None, ch_mapped_ns = None, ch_age_ns = None, ch_valid = False\<rparr>
      | Some s \<Rightarrow>
          (let age = t - co_timestamp_ns s; valid = (0 \<le> age \<and> age \<le> tolerance_ns); keep = (\<lambda>x. if valid then Some x else None) in
           \<lparr>ch_frame_index = keep (co_frame_index s), ch_frame_number = keep (co_frame_number s),
            ch_device_ms = (if valid then Some (co_device_ms s) else None), ch_mapped_ns = keep (co_timestamp_ns s),
            ch_age_ns = Some age, ch_valid = valid\<rparr>))"

section \<open>Camera clocks\<close>

record clock_map =
  mp_valid :: bool
  mp_pairs :: nat
  mp_line :: "(pyfloat \<times> pyfloat) option"
  mp_max_residual :: "pyfloat option"
  mp_domains :: "string list"

fun clock_pair :: "camera_meta \<Rightarrow> (pyfloat \<times> int) option" where
  "clock_pair m = (case (cm_device_ms m, cm_host_ns m) of
     (Some d, Some h) \<Rightarrow> if is_finite d then Some (d, h) else None | _ \<Rightarrow> None)"

definition clock_pairs :: "stage_row list \<Rightarrow> camera_role \<Rightarrow> (pyfloat \<times> int) list" where
  "clock_pairs rows r = List.map_filter (\<lambda>row. clock_pair (sr_camera row r)) rows"

definition clock_domains :: "stage_row list \<Rightarrow> camera_role \<Rightarrow> string list" where
  "clock_domains rows r = remdups (List.map_filter (\<lambda>row. case clock_pair (sr_camera row r) of
     Some _ \<Rightarrow> cm_domain (sr_camera row r) | None \<Rightarrow> None) rows)"

definition float_of_int :: "int \<Rightarrow> (episode_error, pyfloat) res" where
  "float_of_int y = (case round64 (of_int y) of Fin r \<Rightarrow> Inr (Fin r) | _ \<Rightarrow> Inl EpOther)"

definition slope_of ::
  "(pyfloat list \<Rightarrow> pyfloat) \<Rightarrow> (pyfloat \<Rightarrow> (episode_error, pyfloat) res) \<Rightarrow> (pyfloat \<times> pyfloat) list \<Rightarrow> pyfloat \<Rightarrow> pyfloat
     \<Rightarrow> (episode_error, pyfloat) res" where
  "slope_of fsum square pairs mean_x mean_y =
     rbind (rmap (\<lambda>(x, y). square (fsub x mean_x)) pairs) (\<lambda>squares.
       let denominator = fsum squares in
       Inr (if feq denominator (Fin 0) then Fin 1000000
            else fdiv (fsum (map (\<lambda>(x, y). fmul (fsub x mean_x) (fsub y mean_y)) pairs)) denominator))"

definition camera_clock_map ::
  "(pyfloat list \<Rightarrow> pyfloat) \<Rightarrow> (pyfloat \<Rightarrow> (episode_error, pyfloat) res) \<Rightarrow> stage_row list \<Rightarrow> camera_role \<Rightarrow> (episode_error, clock_map) res" where
  "camera_clock_map fsum square rows r =
     (let pairs = clock_pairs rows r; n = length pairs; domains = clock_domains rows r in
      if pairs = [] then Inr \<lparr>mp_valid = False, mp_pairs = 0, mp_line = None, mp_max_residual = None, mp_domains = domains\<rparr>
      else
        let mean_x = fdiv (fsum (map fst pairs)) (round64 (of_nat n)) in
        rbind (case py_true_div (sum_list (map snd pairs)) (int n) of Inr m \<Rightarrow> Inr m | Inl _ \<Rightarrow> Inl EpOther) (\<lambda>mean_y.
        rbind (rmap (\<lambda>(x, y). rbind (float_of_int y) (\<lambda>f. Inr (x, f))) pairs) (\<lambda>points.
        rbind (slope_of fsum square points mean_x mean_y) (\<lambda>slope.
        let intercept = fsub mean_y (fmul slope mean_x);
            residuals = map (\<lambda>(x, y). fabs (fsub (fadd (fmul slope x) intercept) y)) points in
        Inr \<lparr>mp_valid = (2 \<le> n \<and> is_finite slope \<and> is_finite intercept), mp_pairs = n, mp_line = Some (slope, intercept),
             mp_max_residual = Some (list_fmax residuals), mp_domains = domains\<rparr>))))"

definition mapped_time :: "clock_map \<Rightarrow> pyfloat \<Rightarrow> (episode_error, int) res" where
  "mapped_time m device_ms =
     (case (case mp_line m of Some l \<Rightarrow> l | None \<Rightarrow> (Fin 1000000, Fin 0)) of
        (slope, intercept) \<Rightarrow> conv_exception (py_int (fadd (fmul slope device_ms) intercept)))"

fun collect_observed :: "clock_map \<Rightarrow> camera_role \<Rightarrow> (int \<times> int) list \<Rightarrow> stage_row list \<Rightarrow> (episode_error, camera_observation list) res" where
  "collect_observed m r seen [] = Inr []"
| "collect_observed m r seen (row # rows) =
     (case (cm_frame_number (sr_camera row r), cm_device_ms (sr_camera row r), cm_host_ns (sr_camera row r)) of
        (Some k, Some d, Some h) \<Rightarrow>
          (if (k, h) \<in> set seen then collect_observed m r seen rows
           else rbind (mapped_time m d) (\<lambda>t. rbind (collect_observed m r ((k, h) # seen) rows) (\<lambda>rest.
             Inr (\<lparr>co_timestamp_ns = t, co_host_ns = h, co_frame_index = sr_frame_index row, co_frame_number = k, co_device_ms = d\<rparr> # rest))))
      | _ \<Rightarrow> collect_observed m r seen rows)"

definition camera_observations :: "stage_row list \<Rightarrow> camera_role \<Rightarrow> clock_map \<Rightarrow> (episode_error, camera_observation list) res" where
  "camera_observations rows r m = rbind (collect_observed m r [] rows) (\<lambda>fs. Inr (sort_key co_timestamp_ns fs))"

section \<open>Robot and hand\<close>

fun audited_jaka :: "jaka_audit \<Rightarrow> stamped_values option" where
  "audited_jaka a = (case (ja_read_ns a, ja_joints a) of (Some t, Some q) \<Rightarrow> Some (t, q) | _ \<Rightarrow> None)"

text \<open>\<open>int(None)\<close> raises.\<close>

fun row_jaka :: "stage_row list \<Rightarrow> (episode_error, stamped_values list) res" where
  "row_jaka [] = Inr []"
| "row_jaka (row # rows) =
     (case sr_state row of
        Some state \<Rightarrow>
          (if 6 \<le> length state then
             (case map_of (sr_source_ns row) ''jaka_observation'' of
                Some None \<Rightarrow> Inl (EpType ''int(None)'')
              | Some (Some t) \<Rightarrow> rbind (row_jaka rows) (\<lambda>rest. Inr ((t, take 6 state) # rest))
              | None \<Rightarrow> rbind (row_jaka rows) (\<lambda>rest. Inr ((sr_timestamp_ns row, take 6 state) # rest)))
           else row_jaka rows)
      | None \<Rightarrow> row_jaka rows)"

definition jaka_observations :: "stage_row list \<Rightarrow> jaka_audit list \<Rightarrow> (episode_error, stamped_values list) res" where
  "jaka_observations rows audits =
     (let audited = List.map_filter audited_jaka audits in
      if audited \<noteq> [] then Inr (sort_key fst audited) else row_jaka rows)"

definition audited_angle :: "hand_audit \<Rightarrow> stamped_values option" where
  "audited_angle a = (case (ha_angle_ns a, ha_angle a) of (Some t, Some v) \<Rightarrow> Some (t, v) | _ \<Rightarrow> None)"

definition audited_force :: "hand_audit \<Rightarrow> stamped_values option" where
  "audited_force a = (case (ha_force_ns a, ha_force a) of (Some t, Some v) \<Rightarrow> Some (t, v) | _ \<Rightarrow> None)"

definition row_angle :: "stage_row \<Rightarrow> stamped_values option" where
  "row_angle row = (case (map_of (sr_source_ns row) ''rh56_angle_act'', sr_state row) of
     (Some (Some t), Some state) \<Rightarrow> Some (t, take 6 (drop 6 state)) | _ \<Rightarrow> None)"

definition row_force :: "stage_row \<Rightarrow> stamped_values option" where
  "row_force row = (case map_of (sr_source_ns row) ''rh56_force_act'' of Some (Some t) \<Rightarrow> Some (t, sr_force row) | _ \<Rightarrow> None)"

definition rh56_observations :: "stage_row list \<Rightarrow> hand_audit list \<Rightarrow> stamped_values list \<times> stamped_values list" where
  "rh56_observations rows audits =
     (let position = List.map_filter audited_angle audits; force = List.map_filter audited_force audits in
      if position \<noteq> [] \<or> force \<noteq> [] then (sort_key fst position, sort_key fst force)
      else (sort_key fst (List.map_filter row_angle rows), sort_key fst (List.map_filter row_force rows)))"

section \<open>The time line\<close>

record sync_entry =
  se_timestamp_ns :: int
  se_jaka :: timed_value
  se_position :: timed_value
  se_force :: timed_value
  se_camera :: "camera_role \<Rightarrow> camera_choice"
  se_present :: "bool \<times> bool \<times> bool"

record sync_sources =
  ss_jaka :: "stamped_values list"
  ss_position :: "stamped_values list"
  ss_force :: "stamped_values list"
  ss_camera :: "camera_role \<Rightarrow> camera_observation list"

definition sync_entry_at :: "sync_sources \<Rightarrow> int \<Rightarrow> int \<Rightarrow> sync_entry" where
  "sync_entry_at s tolerance_ns t =
     (let jaka = sync_latest fst (ss_jaka s) t; position = sync_latest fst (ss_position s) t; force = sync_latest fst (ss_force s) t in
      \<lparr>se_timestamp_ns = t, se_jaka = timed_value_of jaka t, se_position = timed_value_of position t,
       se_force = timed_value_of force t, se_camera = (\<lambda>r. select_camera (ss_camera s r) t tolerance_ns),
       se_present = (jaka \<noteq> None, position \<noteq> None, force \<noteq> None)\<rparr>)"

text \<open>The loop over the grid; \<open>None\<close> if it does not end.\<close>

definition sync_loop :: "(int \<Rightarrow> 'e) \<Rightarrow> int \<Rightarrow> int \<Rightarrow> int \<Rightarrow> 'e list option" where
  "sync_loop entry start_ns end_ns period_ns =
     map_option snd (while_option (\<lambda>(t, acc). t \<le> end_ns) (\<lambda>(t, acc). (t + period_ns, acc @ [entry t])) (start_ns, []))"

text \<open>\<open>int(fps or metadata or 30)\<close>.\<close>

definition chosen_fps :: "int option \<Rightarrow> int option \<Rightarrow> int" where
  "chosen_fps fps metadata =
     (case fps of Some f \<Rightarrow> if f \<noteq> 0 then f else (case metadata of Some m \<Rightarrow> if m \<noteq> 0 then m else 30 | None \<Rightarrow> 30)
      | None \<Rightarrow> (case metadata of Some m \<Rightarrow> if m \<noteq> 0 then m else 30 | None \<Rightarrow> 30))"

record sync_report =
  sy_fps :: int
  sy_maps :: "camera_role \<Rightarrow> clock_map"
  sy_timeline :: "sync_entry list option"

definition sync_sources_of ::
  "(pyfloat list \<Rightarrow> pyfloat) \<Rightarrow> (pyfloat \<Rightarrow> (episode_error, pyfloat) res) \<Rightarrow> stage_row list \<Rightarrow> jaka_audit list \<Rightarrow> hand_audit list
     \<Rightarrow> (episode_error, sync_sources \<times> (camera_role \<Rightarrow> clock_map)) res" where
  "sync_sources_of fsum square rows jaka_audits hand_audits =
     rbind (jaka_observations rows jaka_audits) (\<lambda>jaka.
     rbind (camera_clock_map fsum square rows Workspace) (\<lambda>mw.
     rbind (camera_clock_map fsum square rows Wrist) (\<lambda>mr.
     rbind (camera_observations rows Workspace mw) (\<lambda>cw.
     rbind (camera_observations rows Wrist mr) (\<lambda>cr.
     case rh56_observations rows hand_audits of (position, force) \<Rightarrow>
     Inr (\<lparr>ss_jaka = jaka, ss_position = position, ss_force = force, ss_camera = case_camera_role cw cr\<rparr>, case_camera_role mw mr))))))"

definition synchronize ::
  "(pyfloat list \<Rightarrow> pyfloat) \<Rightarrow> (pyfloat \<Rightarrow> (episode_error, pyfloat) res) \<Rightarrow> stage_row list \<Rightarrow> jaka_audit list \<Rightarrow> hand_audit list
     \<Rightarrow> pyfloat \<Rightarrow> int option \<Rightarrow> int option \<Rightarrow> (episode_error, sync_report) res" where
  "synchronize fsum square rows jaka_audits hand_audits camera_tolerance_ms fps metadata_fps =
     (if rows = [] then Inl (EpValue ''cannot synchronize an empty staging episode'')
      else rbind (require (is_finite camera_tolerance_ms \<and> \<not> flt camera_tolerance_ms (Fin 0)) (EpValue ''camera_tolerance_ms'')) (\<lambda>_.
      let dataset_fps = chosen_fps fps metadata_fps in
      rbind (require (0 < dataset_fps) (EpValue ''fps must be positive'')) (\<lambda>_.
      rbind (sync_sources_of fsum square rows jaka_audits hand_audits) (\<lambda>(s, maps).
      rbind (case fmul camera_tolerance_ms (Fin 1000000) of Fin r \<Rightarrow> Inr (round_half_even r) | _ \<Rightarrow> Inl EpOther) (\<lambda>tolerance_ns.
      Inr \<lparr>sy_fps = dataset_fps, sy_maps = maps,
           sy_timeline = sync_loop (sync_entry_at s tolerance_ns) (sr_timestamp_ns (hd rows)) (sr_timestamp_ns (last rows))
             (clock_period dataset_fps)\<rparr>)))))"

definition validity_counts :: "sync_entry list \<Rightarrow> nat list" where
  "validity_counts timeline =
     map (\<lambda>P. length (filter P timeline))
       [\<lambda>e. fst (se_present e), \<lambda>e. fst (snd (se_present e)), \<lambda>e. snd (snd (se_present e)),
        \<lambda>e. ch_valid (se_camera e Workspace), \<lambda>e. ch_valid (se_camera e Wrist)]"

section \<open>Bisection finds the newest observation\<close>

lemma bisect_loop_range:
  "lo \<le> hi \<Longrightarrow> hi \<le> length xs \<Longrightarrow>
     lo \<le> bisect_loop xs x lo hi \<and> bisect_loop xs x lo hi \<le> hi
     \<and> (lo < bisect_loop xs x lo hi \<longrightarrow> xs ! (bisect_loop xs x lo hi - 1) \<le> x)"
proof (induction xs x lo hi rule: bisect_loop.induct)
  case (1 xs x lo hi)
  define mid where "mid = (lo + hi) div 2"
  show ?case
  proof (cases "lo < hi")
    case True
    then have mid: "lo \<le> mid" "mid < hi" by (auto simp: mid_def)
    show ?thesis
    proof (cases "x < xs ! mid")
      case less: True
      then have eq: "bisect_loop xs x lo hi = bisect_loop xs x lo mid"
        using True by (subst bisect_loop.simps) (simp add: mid_def Let_def)
      show ?thesis unfolding eq using 1(1)[OF True mid_def less] mid 1(4) by auto
    next
      case ge: False
      then have eq: "bisect_loop xs x lo hi = bisect_loop xs x (mid + 1) hi"
        using True by (subst bisect_loop.simps) (simp add: mid_def Let_def)
      have IH: "mid + 1 \<le> bisect_loop xs x (mid + 1) hi" "bisect_loop xs x (mid + 1) hi \<le> hi"
        "mid + 1 < bisect_loop xs x (mid + 1) hi \<longrightarrow> xs ! (bisect_loop xs x (mid + 1) hi - 1) \<le> x"
        using 1(2)[OF True mid_def ge] mid 1(4) by auto
      show ?thesis unfolding eq using IH mid ge by (cases "mid + 1 = bisect_loop xs x (mid + 1) hi") auto
    qed
  next
    case False
    then have "bisect_loop xs x lo hi = lo" by (subst bisect_loop.simps) simp
    then show ?thesis using 1(3) by simp
  qed
qed

lemma bisect_loop_split:
  assumes "sorted xs"
  shows "lo \<le> hi \<Longrightarrow> hi \<le> length xs \<Longrightarrow> \<forall>j < lo. xs ! j \<le> x \<Longrightarrow> \<forall>j. hi \<le> j \<and> j < length xs \<longrightarrow> x < xs ! j \<Longrightarrow>
    (\<forall>j < bisect_loop xs x lo hi. xs ! j \<le> x) \<and> (\<forall>j. bisect_loop xs x lo hi \<le> j \<and> j < length xs \<longrightarrow> x < xs ! j)"
  using assms
proof (induction xs x lo hi rule: bisect_loop.induct)
  case (1 xs x lo hi)
  define mid where "mid = (lo + hi) div 2"
  show ?case
  proof (cases "lo < hi")
    case True
    then have mid: "lo \<le> mid" "mid < hi" by (auto simp: mid_def)
    show ?thesis
    proof (cases "x < xs ! mid")
      case less: True
      then have eq: "bisect_loop xs x lo hi = bisect_loop xs x lo mid"
        using True by (subst bisect_loop.simps) (simp add: mid_def Let_def)
      have "x < xs ! j" if "mid \<le> j" "j < length xs" for j
        using sorted_nth_mono[OF 1(7), of mid j] that less by simp
      then have right: "\<forall>j. mid \<le> j \<and> j < length xs \<longrightarrow> x < xs ! j" by blast
      show ?thesis unfolding eq
        by (rule 1(1)[OF True mid_def less]) (use mid 1(4) in simp, use mid 1(4) in simp, rule 1(5), rule right, rule 1(7))
    next
      case ge: False
      then have eq: "bisect_loop xs x lo hi = bisect_loop xs x (mid + 1) hi"
        using True by (subst bisect_loop.simps) (simp add: mid_def Let_def)
      have "xs ! j \<le> x" if "j < mid + 1" for j
        using sorted_nth_mono[OF 1(7), of j mid] that ge mid 1(4) by auto
      then have left: "\<forall>j < mid + 1. xs ! j \<le> x" by blast
      show ?thesis unfolding eq
        by (rule 1(2)[OF True mid_def ge]) (use mid 1(4) in simp, rule 1(4), rule left, rule 1(6), rule 1(7))
    qed
  next
    case False
    then have "bisect_loop xs x lo hi = lo" by (subst bisect_loop.simps) simp
    moreover have "lo = hi" using False 1(3) by simp
    ultimately show ?thesis using 1(5,6) by auto
  qed
qed

lemma sync_latest_index:
  "sync_latest stamp values t = (if bisect_right (map stamp values) t = 0 then None else Some (values ! (bisect_right (map stamp values) t - 1)))"
proof -
  have "nat (int i - 1) = i - 1" for i by (cases i) simp_all
  then show ?thesis by (simp add: sync_latest_def Let_def)
qed

lemma sync_latest_some:
  assumes "sync_latest stamp values t = Some v"
  shows "v \<in> set values \<and> stamp v \<le> t"
proof -
  define i where "i = bisect_right (map stamp values) t"
  have i: "0 < i" "v = values ! (i - 1)" using assms by (simp_all add: sync_latest_index i_def split: if_split_asm)
  have "i \<le> length values" "map stamp values ! (i - 1) \<le> t"
    using bisect_loop_range[of 0 "length values" "map stamp values" t] i(1) by (simp_all add: i_def bisect_right_def)
  with i show ?thesis by auto
qed

text \<open>The reference: the last of the observations at or before the time.\<close>

definition newest_at :: "('a \<Rightarrow> int) \<Rightarrow> 'a list \<Rightarrow> int \<Rightarrow> 'a option" where
  "newest_at stamp values t = (let hits = filter (\<lambda>v. stamp v \<le> t) values in if hits = [] then None else Some (last hits))"

text \<open>
  On observations in time order the bisection is the linear search for the newest observation at or before a time;
  on any list it never returns an observation from the future.
\<close>

lemma sync_latest_newest:
  "(sorted (map stamp values) \<longrightarrow> sync_latest stamp values t = newest_at stamp values t)
   \<and> (\<forall>v. sync_latest stamp values t = Some v \<longrightarrow> v \<in> set values \<and> stamp v \<le> t)"
proof (intro conjI impI allI)
  assume s: "sorted (map stamp values)"
  define i where "i = bisect_right (map stamp values) t"
  have len: "i \<le> length values"
    using bisect_loop_range[of 0 "length values" "map stamp values" t] by (simp add: i_def bisect_right_def)
  have split: "\<forall>j < i. map stamp values ! j \<le> t" "\<forall>j. i \<le> j \<and> j < length values \<longrightarrow> t < map stamp values ! j"
    using bisect_loop_split[OF s, of 0 "length values" t] by (simp_all add: i_def bisect_right_def)
  have "filter (\<lambda>v. stamp v \<le> t) values = filter (\<lambda>v. stamp v \<le> t) (take i values) @ filter (\<lambda>v. stamp v \<le> t) (drop i values)"
    by (metis filter_append append_take_drop_id)
  moreover have "filter (\<lambda>v. stamp v \<le> t) (take i values) = take i values"
    using split(1) len by (auto simp: filter_id_conv in_set_conv_nth)
  moreover have "filter (\<lambda>v. stamp v \<le> t) (drop i values) = []"
    using split(2) by (auto simp: filter_empty_conv in_set_conv_nth not_le)
  ultimately have hits: "filter (\<lambda>v. stamp v \<le> t) values = take i values" by simp
  show "sync_latest stamp values t = newest_at stamp values t"
    using len by (cases i) (auto simp: sync_latest_index newest_at_def hits i_def[symmetric] Let_def take_Suc_conv_app_nth)
qed (use sync_latest_some[of stamp _ t] in \<open>simp_all\<close>)

section \<open>The grid\<close>

definition grid :: "int \<Rightarrow> int \<Rightarrow> int \<Rightarrow> int list" where
  "grid start_ns end_ns period_ns =
     (if end_ns < start_ns then [] else map (\<lambda>i. start_ns + int i * period_ns) [0..<nat ((end_ns - start_ns) div period_ns + 1)])"

lemma grid_step:
  assumes "0 < p" and "t \<le> b"
  shows "grid t b p = t # grid (t + p) b p"
proof -
  have q: "0 \<le> (b - t) div p" using assms by (simp add: pos_imp_zdiv_nonneg_iff)
  define n where "n = nat ((b - t) div p)"
  have n: "nat ((b - t) div p + 1) = Suc n" using q by (simp add: n_def)
  have g: "grid t b p = t # map (\<lambda>i. t + p + int i * p) [0..<n]"
    using assms(2) n by (simp add: grid_def upt_conv_Cons map_Suc_upt[symmetric] algebra_simps del: upt_Suc)
  show ?thesis
  proof (cases "b < t + p")
    case True
    then have "(b - t) div p = 0" using assms by (intro div_pos_pos_trivial) simp_all
    then show ?thesis unfolding g using True by (simp add: grid_def n_def)
  next
    case False
    have "(b - (t + p)) div p + 1 = (b - t) div p" using assms(1) by (metis add.commute add_diff_cancel_left' diff_add_cancel diff_diff_add div_add_self2 less_irrefl)
    then have "nat ((b - (t + p)) div p + 1) = n" by (simp add: n_def)
    then show ?thesis unfolding g using False by (simp add: grid_def)
  qed
qed

lemma grid_loop:
  assumes "0 < p"
  shows "map_option snd (while_option (\<lambda>(t, acc). t \<le> b) (\<lambda>(t, acc). (t + p, acc @ [entry t])) (t, acc))
    = Some (acc @ map entry (grid t b p))"
proof (induction "nat (b - t + 1)" arbitrary: t acc rule: less_induct)
  case less
  show ?case
  proof (cases "t \<le> b")
    case True
    have "nat (b - (t + p) + 1) < nat (b - t + 1)" using True assms by simp
    from less[OF this, of "acc @ [entry t]"] True show ?thesis
      by (subst while_option_unfold) (simp add: grid_step[OF assms True])
  next
    case False
    then show ?thesis by (subst while_option_unfold) (simp add: grid_def)
  qed
qed

text \<open>
  C32. The loop over the grid ends if and only if the period is positive or there is nothing to do; then it has visited
  exactly the grid points from the first row to the last. With a period of zero, which a rate above two
  billion per second rounds to, it does not end.
\<close>

theorem sync_loop_terminates:
  "sync_loop entry start_ns end_ns period_ns =
     (if end_ns < start_ns then Some [] else if 0 < period_ns then Some (map entry (grid start_ns end_ns period_ns)) else None)"
proof (cases "end_ns < start_ns \<or> 0 < period_ns")
  case True
  show ?thesis
  proof (cases "end_ns < start_ns")
    case True
    then show ?thesis unfolding sync_loop_def by (subst while_option_unfold) simp
  next
    case False
    then show ?thesis
      using \<open>end_ns < start_ns \<or> 0 < period_ns\<close> grid_loop[of period_ns end_ns entry start_ns "[]"] by (simp add: sync_loop_def)
  qed
next
  case False
  let ?b = "\<lambda>(t, acc). t \<le> end_ns" and ?c = "\<lambda>(t, acc). (t + period_ns, acc @ [entry t])"
  define run where "run = while_option ?b ?c (start_ns, [])"
  have "run \<noteq> Some s" for s
  proof
    assume "run = Some s"
    then have run: "while_option ?b ?c (start_ns, []) = Some s" by (simp add: run_def)
    have "fst s \<le> end_ns"
      by (rule while_option_rule[OF _ run, where P = "\<lambda>s. fst s \<le> end_ns"]) (use False in auto)
    with while_option_stop[OF run] show False by (simp add: case_prod_beta)
  qed
  then have "run = None" by (cases run) auto
  with False show ?thesis by (simp add: sync_loop_def run_def)
qed

section \<open>The report\<close>

definition reference_entry :: "sync_sources \<Rightarrow> int \<Rightarrow> int \<Rightarrow> sync_entry" where
  "reference_entry s tolerance_ns t =
     (let jaka = newest_at fst (ss_jaka s) t; position = newest_at fst (ss_position s) t; force = newest_at fst (ss_force s) t;
          pick = (\<lambda>r. newest_at co_timestamp_ns (ss_camera s r) t) in
      \<lparr>se_timestamp_ns = t, se_jaka = timed_value_of jaka t, se_position = timed_value_of position t, se_force = timed_value_of force t,
       se_camera = (\<lambda>r. case pick r of
          None \<Rightarrow> \<lparr>ch_frame_index = None, ch_frame_number = None, ch_device_ms = None, ch_mapped_ns = None, ch_age_ns = None, ch_valid = False\<rparr>
        | Some c \<Rightarrow>
            if t - co_timestamp_ns c \<le> tolerance_ns
            then \<lparr>ch_frame_index = Some (co_frame_index c), ch_frame_number = Some (co_frame_number c), ch_device_ms = Some (co_device_ms c),
                  ch_mapped_ns = Some (co_timestamp_ns c), ch_age_ns = Some (t - co_timestamp_ns c), ch_valid = True\<rparr>
            else \<lparr>ch_frame_index = None, ch_frame_number = None, ch_device_ms = None, ch_mapped_ns = None,
                  ch_age_ns = Some (t - co_timestamp_ns c), ch_valid = False\<rparr>),
       se_present = (jaka \<noteq> None, position \<noteq> None, force \<noteq> None)\<rparr>)"

lemma select_camera_reference:
  assumes "sorted (map co_timestamp_ns cs)"
  shows "select_camera cs t tolerance_ns = (case newest_at co_timestamp_ns cs t of
          None \<Rightarrow> \<lparr>ch_frame_index = None, ch_frame_number = None, ch_device_ms = None, ch_mapped_ns = None, ch_age_ns = None, ch_valid = False\<rparr>
        | Some c \<Rightarrow>
            if t - co_timestamp_ns c \<le> tolerance_ns
            then \<lparr>ch_frame_index = Some (co_frame_index c), ch_frame_number = Some (co_frame_number c), ch_device_ms = Some (co_device_ms c),
                  ch_mapped_ns = Some (co_timestamp_ns c), ch_age_ns = Some (t - co_timestamp_ns c), ch_valid = True\<rparr>
            else \<lparr>ch_frame_index = None, ch_frame_number = None, ch_device_ms = None, ch_mapped_ns = None,
                  ch_age_ns = Some (t - co_timestamp_ns c), ch_valid = False\<rparr>)"
proof -
  have eq: "sync_latest co_timestamp_ns cs t = newest_at co_timestamp_ns cs t" using sync_latest_newest assms by blast
  show ?thesis
  proof (cases "newest_at co_timestamp_ns cs t")
    case (Some c)
    then have "co_timestamp_ns c \<le> t" using sync_latest_some[of co_timestamp_ns cs t c] eq by simp
    with Some eq show ?thesis by (simp add: select_camera_def Let_def)
  qed (simp add: select_camera_def eq)
qed

definition sources_sorted :: "sync_sources \<Rightarrow> bool" where
  "sources_sorted s \<longleftrightarrow> sorted (map fst (ss_position s)) \<and> sorted (map fst (ss_force s))
     \<and> (\<forall>r. sorted (map co_timestamp_ns (ss_camera s r)))"

lemma entry_reference:
  assumes "sources_sorted s" and "sorted (map fst (ss_jaka s))"
  shows "sync_entry_at s tolerance_ns t = reference_entry s tolerance_ns t"
proof -
  have "sync_latest fst (ss_jaka s) t = newest_at fst (ss_jaka s) t" "sync_latest fst (ss_position s) t = newest_at fst (ss_position s) t"
    "sync_latest fst (ss_force s) t = newest_at fst (ss_force s) t"
    using sync_latest_newest assms by (auto simp: sources_sorted_def)
  moreover have "(\<lambda>r. select_camera (ss_camera s r) t tolerance_ns) = se_camera (reference_entry s tolerance_ns t)"
    using assms(1) by (simp add: reference_entry_def sources_sorted_def select_camera_reference Let_def)
  ultimately show ?thesis by (simp add: sync_entry_at_def reference_entry_def Let_def)
qed

text \<open>Nothing in an entry lies after it.\<close>

definition timed_causal :: "int \<Rightarrow> timed_value \<Rightarrow> bool" where
  "timed_causal t v \<longleftrightarrow> (case tv_timestamp_ns v of
     None \<Rightarrow> \<not> tv_valid v | Some s \<Rightarrow> s \<le> t \<and> tv_valid v \<and> tv_age_ns v = Some (t - s))"

definition entry_causal :: "int \<Rightarrow> sync_entry \<Rightarrow> bool" where
  "entry_causal tolerance_ns e \<longleftrightarrow> timed_causal (se_timestamp_ns e) (se_jaka e) \<and> timed_causal (se_timestamp_ns e) (se_position e)
     \<and> timed_causal (se_timestamp_ns e) (se_force e)
     \<and> (\<forall>r. ch_valid (se_camera e r) \<longrightarrow> (\<exists>m. ch_mapped_ns (se_camera e r) = Some m \<and> m \<le> se_timestamp_ns e
          \<and> se_timestamp_ns e - m \<le> tolerance_ns))"

lemma timed_value_causal: "timed_causal t (timed_value_of (sync_latest fst vs t) t)"
  using sync_latest_some[of fst vs t] by (auto simp: timed_value_of_def timed_causal_def split: option.split)

lemma entry_is_causal: "entry_causal tolerance_ns (sync_entry_at s tolerance_ns t)"
proof -
  have "\<exists>m. ch_mapped_ns (select_camera cs t tolerance_ns) = Some m \<and> m \<le> t \<and> t - m \<le> tolerance_ns"
    if "ch_valid (select_camera cs t tolerance_ns)" for cs
    using that by (cases "sync_latest co_timestamp_ns cs t") (auto simp: select_camera_def Let_def)
  then show ?thesis by (simp add: entry_causal_def sync_entry_at_def timed_value_causal Let_def)
qed

lemma sources_are_sorted:
  assumes "sync_sources_of fsum square rows jas has = Inr (s, maps)"
  shows "sources_sorted s"
proof -
  obtain position force where h: "rh56_observations rows has = (position, force)" by fastforce
  obtain jaka mw mr cw cr where c: "camera_observations rows Workspace mw = Inr cw" "camera_observations rows Wrist mr = Inr cr"
    "s = \<lparr>ss_jaka = jaka, ss_position = position, ss_force = force, ss_camera = case_camera_role cw cr\<rparr>"
    using assms h by (auto simp: sync_sources_of_def)
  have "sorted (map fst position) \<and> sorted (map fst force)"
    using h by (auto simp: rh56_observations_def Let_def split: if_split_asm)
  moreover have "sorted (map co_timestamp_ns xs)" if "camera_observations rows r m = Inr xs" for r m xs
    using that by (auto simp: camera_observations_def)
  ultimately show ?thesis using c by (auto simp: sources_sorted_def split: camera_role.split)
qed


section \<open>A short staging episode\<close>

definition blank_camera :: camera_meta where
  "blank_camera = \<lparr>cm_frame_number = None, cm_device_ms = None, cm_host_ns = None, cm_domain = None\<rparr>"

definition short_row :: "int \<Rightarrow> int \<Rightarrow> stage_row" where
  "short_row t k = \<lparr>sr_timestamp_ns = t, sr_frame_index = k, sr_camera = (\<lambda>_. blank_camera),
     sr_state = Some [Fin 0, Fin 0, Fin 0, Fin 0, Fin 0, Fin 0], sr_source_ns = [], sr_force = []\<rparr>"


end
