(* ===== verification/HtsOperator.thy ===== *)
theory HtsOperator
  imports HtsCanonical
begin

text \<open>
  The offline right-hand operator of \<open>src/motion_input/hts_operator.py\<close>: the validity checks of a
  canonical state, the fail-disengaged state machine (disengaged, armed for a reference, engaged), the
  relative pose in the captured wrist frame and its bounded, filtered output. The functions of libm, the
  rounding of the built-in \<open>sum\<close> and of \<open>** 2\<close> are parameters.
\<close>

section \<open>What the runtime contributes\<close>

datatype operator_error =
    OpRequiredHand | OpForbiddenHand | OpJointCount | OpNotPositive string | OpFilterConstant
  | OpOrientationMapping | OpThreeValues string | OpNegativeScale | OpWorkspaceOrder
  | OpZeroQuaternion | OpMathDomain | OpOverflow | OpZeroDivision | OpAssertion | OpBlankReason

record math_env =
  me_py :: py_env
  me_sum :: "pyfloat list \<Rightarrow> pyfloat"
  me_square :: "pyfloat \<Rightarrow> pyfloat option"
  me_sqrt :: "pyfloat \<Rightarrow> pyfloat"
  me_acos :: "pyfloat \<Rightarrow> pyfloat"
  me_sin :: "pyfloat \<Rightarrow> pyfloat"
  me_cos :: "pyfloat \<Rightarrow> pyfloat"
  me_exp :: "pyfloat \<Rightarrow> pyfloat"

text \<open>\<open>math.sin\<close> and \<open>math.cos\<close> raise on an infinity; \<open>x ** 2\<close> raises when it overflows.\<close>

definition py_trig :: "(pyfloat \<Rightarrow> pyfloat) \<Rightarrow> pyfloat \<Rightarrow> (operator_error, pyfloat) res" where
  "py_trig f x = (if x = PosInf \<or> x = NegInf then Inl OpMathDomain else Inr (f x))"

definition py_square :: "math_env \<Rightarrow> pyfloat \<Rightarrow> (operator_error, pyfloat) res" where
  "py_square env x = (case me_square env x of None \<Rightarrow> Inl OpOverflow | Some y \<Rightarrow> Inr y)"

definition py_div :: "pyfloat \<Rightarrow> pyfloat \<Rightarrow> (operator_error, pyfloat) res" where
  "py_div a b = (if b = Fin 0 then Inl OpZeroDivision else Inr (fdiv a b))"

section \<open>Configuration\<close>

record op_config =
  oc_required_joint_count :: int
  oc_stale_after_s :: pyfloat
  oc_translation_scale :: vec3
  oc_orientation_mapping :: string
  oc_orientation_scale :: pyfloat
  oc_filter_time_constant_s :: pyfloat
  oc_jump_translation_m :: pyfloat
  oc_jump_rotation_rad :: pyfloat
  oc_workspace_min_m :: vec3
  oc_workspace_max_m :: vec3

definition positive_finite :: "string \<times> pyfloat \<Rightarrow> (operator_error, unit) res" where
  "positive_finite p = (case p of (name, v) \<Rightarrow> require (is_finite v \<and> \<not> fle v (Fin 0)) (OpNotPositive name))"

definition three_finite :: "string \<times> pyfloat list \<Rightarrow> (operator_error, vec3) res" where
  "three_finite p = (case p of
     (name, [a, b, c]) \<Rightarrow> (if list_all is_finite [a, b, c] then Inr (a, b, c) else Inl (OpThreeValues name))
   | (name, _) \<Rightarrow> Inl (OpThreeValues name))"

definition mk_op_config ::
  "side \<Rightarrow> bool \<Rightarrow> bool \<Rightarrow> int \<Rightarrow> pyfloat \<Rightarrow> pyfloat list \<Rightarrow> string \<Rightarrow> pyfloat \<Rightarrow> pyfloat \<Rightarrow> pyfloat \<Rightarrow> pyfloat \<Rightarrow>
   pyfloat list \<Rightarrow> pyfloat list \<Rightarrow> (operator_error, op_config) res" where
  "mk_op_config hand left_required head_required joints stale scale mapping oscale tau jump_m jump_rad lo hi =
     rbind (require (hand = RIGHT) OpRequiredHand) (\<lambda>_.
     rbind (require (\<not> (left_required \<or> head_required)) OpForbiddenHand) (\<lambda>_.
     rbind (require (joints = 21) OpJointCount) (\<lambda>_.
     rbind (rmap positive_finite
       [(''stale_after_s'', stale), (''orientation_scale'', oscale),
        (''jump_reject_translation_m'', jump_m), (''jump_reject_rotation_rad'', jump_rad)]) (\<lambda>_.
     rbind (require (is_finite tau \<and> \<not> flt tau (Fin 0)) OpFilterConstant) (\<lambda>_.
     rbind (require (mapping = ''relative'' \<or> mapping = ''disabled'') OpOrientationMapping) (\<lambda>_.
     rbind (three_finite (''translation_scale'', scale)) (\<lambda>scale3.
     rbind (three_finite (''workspace_min_m'', lo)) (\<lambda>lo3.
     rbind (three_finite (''workspace_max_m'', hi)) (\<lambda>hi3.
     rbind (require (\<not> list_ex (\<lambda>v. flt v (Fin 0)) scale) OpNegativeScale) (\<lambda>_.
     rbind (require (\<not> list_ex (\<lambda>(a, b). fle b a) (zip lo hi)) OpWorkspaceOrder) (\<lambda>_.
     Inr \<lparr>oc_required_joint_count = joints, oc_stale_after_s = stale, oc_translation_scale = scale3,
          oc_orientation_mapping = mapping, oc_orientation_scale = oscale, oc_filter_time_constant_s = tau,
          oc_jump_translation_m = jump_m, oc_jump_rotation_rad = jump_rad,
          oc_workspace_min_m = lo3, oc_workspace_max_m = hi3\<rparr>)))))))))))"

text \<open>The defaults: scale 0.35, filter 0.02 s, jumps 0.25 m and 45 degrees, workspace plus or minus 0.2 m.\<close>

definition op_config_with_stale :: "pyfloat \<Rightarrow> (operator_error, op_config) res" where
  "op_config_with_stale stale =
     (let s = Fin (3152519739159347 / 9007199254740992); w = Fin (3602879701896397 / 18014398509481984) in
      mk_op_config RIGHT False False 21 stale [s, s, s] ''relative'' (Fin 1)
        (Fin (5764607523034235 / 288230376151711744)) (Fin (1 / 4)) (Fin (884279719003555 / 1125899906842624))
        [fneg w, fneg w, fneg w] [w, w, w])"

section \<open>Geometry\<close>

fun map3 :: "(pyfloat \<Rightarrow> pyfloat) \<Rightarrow> vec3 \<Rightarrow> vec3" where
  "map3 f (a, b, c) = (f a, f b, f c)"

fun zip3 :: "(pyfloat \<Rightarrow> pyfloat \<Rightarrow> pyfloat) \<Rightarrow> vec3 \<Rightarrow> vec3 \<Rightarrow> vec3" where
  "zip3 f (a, b, c) (x, y, z) = (f a x, f b y, f c z)"

fun zip4 :: "(pyfloat \<Rightarrow> pyfloat \<Rightarrow> pyfloat) \<Rightarrow> quat \<Rightarrow> quat \<Rightarrow> quat" where
  "zip4 f (a, b, c, d) (x, y, z, w) = (f a x, f b y, f c z, f d w)"

definition distance3 :: "math_env \<Rightarrow> vec3 \<Rightarrow> vec3 \<Rightarrow> (operator_error, pyfloat) res" where
  "distance3 env a b =
     rbind (rmap (py_square env) (vec_list (zip3 fsub a b))) (\<lambda>squares. Inr (me_sqrt env (me_sum env squares)))"

fun quaternion_conjugate :: "quat \<Rightarrow> quat" where
  "quaternion_conjugate (x, y, z, w) = (fneg x, fneg y, fneg z, w)"

definition normalized_quaternion :: "math_env \<Rightarrow> quat \<Rightarrow> (operator_error, quat) res" where
  "normalized_quaternion env q =
     (let n = pe_norm (me_py env) q in
      if n = Fin 0 then Inl OpZeroQuaternion
      else case q of (x, y, z, w) \<Rightarrow> Inr (fdiv x n, fdiv y n, fdiv z n, fdiv w n))"

fun hamilton :: "quat \<Rightarrow> quat \<Rightarrow> quat" where
  "hamilton (lx, ly, lz, lw) (rx, ry, rz, rw) =
     (fsub (fadd (fadd (fmul lw rx) (fmul lx rw)) (fmul ly rz)) (fmul lz ry),
      fadd (fadd (fsub (fmul lw ry) (fmul lx rz)) (fmul ly rw)) (fmul lz rx),
      fadd (fsub (fadd (fmul lw rz) (fmul lx ry)) (fmul ly rx)) (fmul lz rw),
      fsub (fsub (fsub (fmul lw rw) (fmul lx rx)) (fmul ly ry)) (fmul lz rz))"

definition quaternion_multiply :: "math_env \<Rightarrow> quat \<Rightarrow> quat \<Rightarrow> (operator_error, quat) res" where
  "quaternion_multiply env l r = normalized_quaternion env (hamilton l r)"

fun rodrigues :: "quat \<Rightarrow> vec3 \<Rightarrow> vec3" where
  "rodrigues (x, y, z, w) (vx, vy, vz) =
     (let tx = fmul (Fin 2) (fsub (fmul y vz) (fmul z vy));
          ty = fmul (Fin 2) (fsub (fmul z vx) (fmul x vz));
          tz = fmul (Fin 2) (fsub (fmul x vy) (fmul y vx))
      in (fadd (fadd vx (fmul w tx)) (fsub (fmul y tz) (fmul z ty)),
          fadd (fadd vy (fmul w ty)) (fsub (fmul z tx) (fmul x tz)),
          fadd (fadd vz (fmul w tz)) (fsub (fmul x ty) (fmul y tx))))"

definition rotate_vector :: "math_env \<Rightarrow> quat \<Rightarrow> vec3 \<Rightarrow> (operator_error, vec3) res" where
  "rotate_vector env q v = rbind (normalized_quaternion env q) (\<lambda>u. Inr (rodrigues u v))"

definition quaternion_dot :: "math_env \<Rightarrow> quat \<Rightarrow> quat \<Rightarrow> pyfloat" where
  "quaternion_dot env l r = me_sum env (quat_list (zip4 fmul l r))"

definition quaternion_distance :: "math_env \<Rightarrow> quat \<Rightarrow> quat \<Rightarrow> pyfloat" where
  "quaternion_distance env l r =
     fmul (Fin 2) (me_acos env (fmin (Fin 1) (fabs (quaternion_dot env l r))))"

definition identity_quat :: quat where
  "identity_quat = (Fin 0, Fin 0, Fin 0, Fin 1)"

definition zero3 :: vec3 where
  "zero3 = (Fin 0, Fin 0, Fin 0)"

definition shortest :: "quat \<Rightarrow> quat" where
  "shortest q = (case q of (x, y, z, w) \<Rightarrow> if flt w (Fin 0) then (fneg x, fneg y, fneg z, fneg w) else q)"

definition quaternion_scaled :: "math_env \<Rightarrow> quat \<Rightarrow> pyfloat \<Rightarrow> (operator_error, quat) res" where
  "quaternion_scaled env q scale =
     rbind (normalized_quaternion env q) (\<lambda>u.
     case shortest u of (x, y, z, w) \<Rightarrow>
     let half_angle = me_acos env (fmax (Fin (- 1)) (fmin (Fin 1) w)) in
     rbind (py_trig (me_sin env) half_angle) (\<lambda>sine.
     if flt (fabs sine) (Fin (4951760157141521 / 4951760157141521099596496896)) then Inr identity_quat
     else
       let new_half_angle = fmul half_angle scale in
       rbind (py_trig (me_sin env) new_half_angle) (\<lambda>new_sine.
       let factor = fdiv new_sine sine in
       rbind (py_trig (me_cos env) new_half_angle) (\<lambda>cosine.
       normalized_quaternion env (fmul x factor, fmul y factor, fmul z factor, cosine)))))"

definition quaternion_slerp :: "math_env \<Rightarrow> quat \<Rightarrow> quat \<Rightarrow> pyfloat \<Rightarrow> (operator_error, quat) res" where
  "quaternion_slerp env q0 q1 fraction0 =
     (let fraction = fmax (Fin 0) (fmin (Fin 1) fraction0);
          dot0 = quaternion_dot env q0 q1;
          flip = flt dot0 (Fin 0);
          q2 = (if flip then (case q1 of (x, y, z, w) \<Rightarrow> (fneg x, fneg y, fneg z, fneg w)) else q1);
          dot = fmax (Fin (- 1)) (fmin (Fin 1) (if flip then fneg dot0 else dot0))
      in if flt (Fin (4501347827556811 / 4503599627370496)) dot
         then normalized_quaternion env (zip4 (\<lambda>a b. fadd a (fmul fraction (fsub b a))) q0 q2)
         else
           let angle = me_acos env dot in
           rbind (py_trig (me_sin env) angle) (\<lambda>sine.
           rbind (py_trig (me_sin env) (fmul (fsub (Fin 1) fraction) angle)) (\<lambda>sl.
           rbind (py_div sl sine) (\<lambda>left_weight.
           rbind (py_trig (me_sin env) (fmul fraction angle)) (\<lambda>sr.
           rbind (py_div sr sine) (\<lambda>right_weight.
           normalized_quaternion env
             (zip4 (\<lambda>a b. fadd (fmul left_weight a) (fmul right_weight b)) q0 q2)))))))"

definition inside_workspace :: "vec3 \<Rightarrow> vec3 \<Rightarrow> vec3 \<Rightarrow> bool" where
  "inside_workspace p lo hi =
     list_all (\<lambda>(v, l, h). fle l v \<and> fle v h) (zip (vec_list p) (zip (vec_list lo) (vec_list hi)))"

section \<open>The pipeline\<close>

datatype operator_state = OpDisengaged | OpArmed | OpEngaged

record operator_transition =
  ot_timestamp_ns :: int
  ot_previous :: operator_state
  ot_current :: operator_state
  ot_reason :: string

record operator_target =
  og_timestamp_ns :: int
  og_state :: operator_state
  og_valid_for_mapping :: bool
  og_emergency_neutral :: bool
  og_frame_id :: string
  og_translation_m :: vec3
  og_orientation_xyzw :: quat
  og_reference_host_sequence :: "int option"
  og_current_host_sequence :: "int option"
  og_reason :: string

record op_pipeline =
  op_config :: op_config
  op_state :: operator_state
  op_reference_pose :: "pose6d option"
  op_reference_host_sequence :: "int option"
  op_transitions :: "operator_transition list"
  op_last_input_pose :: "pose6d option"
  op_last_input_sequence :: "int option"
  op_filtered_translation :: "vec3 option"
  op_filtered_orientation :: "quat option"
  op_last_output_ns :: "int option"

definition new_op_pipeline :: "op_config \<Rightarrow> op_pipeline" where
  "new_op_pipeline c =
     \<lparr>op_config = c, op_state = OpDisengaged, op_reference_pose = None, op_reference_host_sequence = None,
      op_transitions = [], op_last_input_pose = None, op_last_input_sequence = None,
      op_filtered_translation = None, op_filtered_orientation = None, op_last_output_ns = None\<rparr>"

definition op_transition :: "op_pipeline \<Rightarrow> int \<Rightarrow> operator_state \<Rightarrow> string \<Rightarrow> op_pipeline" where
  "op_transition p now current reason =
     (if current = op_state p then p
      else p\<lparr>op_state := current,
             op_transitions := op_transitions p @
               [\<lparr>ot_timestamp_ns = now, ot_previous = op_state p, ot_current = current, ot_reason = reason\<rparr>]\<rparr>)"

definition op_force_disengaged :: "op_pipeline \<Rightarrow> int \<Rightarrow> string \<Rightarrow> op_pipeline" where
  "op_force_disengaged p now reason =
     op_transition
       (p\<lparr>op_reference_pose := None, op_reference_host_sequence := None, op_filtered_translation := None,
          op_filtered_orientation := None, op_last_output_ns := None\<rparr>)
       now OpDisengaged reason"

definition op_neutral :: "op_pipeline \<Rightarrow> int \<Rightarrow> int option \<Rightarrow> string \<Rightarrow> operator_target" where
  "op_neutral p now current reason =
     \<lparr>og_timestamp_ns = now, og_state = op_state p, og_valid_for_mapping = False, og_emergency_neutral = True,
      og_frame_id = ''quest_world'', og_translation_m = zero3, og_orientation_xyzw = identity_quat,
      og_reference_host_sequence = op_reference_host_sequence p, og_current_host_sequence = current,
      og_reason = reason\<rparr>"

definition op_target :: "op_pipeline \<Rightarrow> int \<Rightarrow> int option \<Rightarrow> vec3 \<Rightarrow> quat \<Rightarrow> string \<Rightarrow> operator_target" where
  "op_target p now current translation orientation reason =
     \<lparr>og_timestamp_ns = now, og_state = op_state p, og_valid_for_mapping = True, og_emergency_neutral = False,
      og_frame_id = ''quest_world'', og_translation_m = translation, og_orientation_xyzw = orientation,
      og_reference_host_sequence = op_reference_host_sequence p, og_current_host_sequence = current,
      og_reason = reason\<rparr>"

definition op_unsafe_reason :: "op_config \<Rightarrow> hand_observation \<Rightarrow> bool \<Rightarrow> bool \<Rightarrow> string option" where
  "op_unsafe_reason c hand frozen malformed =
     (if malformed then Some ''malformed_right_hand_data''
      else if frozen then Some ''frozen_right_hand_stream''
      else if \<not> ho_tracking_valid hand \<or> ho_wrist_pose hand = None then
        Some (case ho_stream_age_s hand of
                Some age \<Rightarrow> if flt (oc_stale_after_s c) age then ''right_hand_stale'' else ''right_hand_not_tracking''
              | None \<Rightarrow> ''right_hand_not_tracking'')
      else case ho_stream_age_s hand of
        None \<Rightarrow> Some ''right_hand_stale''
      | Some age \<Rightarrow>
          if flt (oc_stale_after_s c) age then Some ''right_hand_stale''
          else if int (length (ho_joints hand)) \<noteq> oc_required_joint_count c
          then Some ''right_hand_joint_count_invalid''
          else None)"

definition op_remember_input :: "op_pipeline \<Rightarrow> pose6d \<Rightarrow> int option \<Rightarrow> op_pipeline" where
  "op_remember_input p pose sequence =
     (if sequence \<noteq> op_last_input_sequence p
      then p\<lparr>op_last_input_pose := Some pose, op_last_input_sequence := sequence\<rparr> else p)"

text \<open>The smoothing factor of the first-order filter.\<close>

definition op_alpha :: "math_env \<Rightarrow> op_pipeline \<Rightarrow> int \<Rightarrow> pyfloat" where
  "op_alpha env p now =
     (if feq (oc_filter_time_constant_s (op_config p)) (Fin 0) \<or> op_filtered_translation p = None
         \<or> op_filtered_orientation p = None then Fin 1
      else case op_last_output_ns p of
        None \<Rightarrow> Fin 1
      | Some t \<Rightarrow>
          let dt = fmax (Fin 0) (ns_to_seconds (now - t))
          in fsub (Fin 1) (me_exp env (fdiv (fneg dt) (oc_filter_time_constant_s (op_config p)))))"

definition or_else :: "'a option \<Rightarrow> 'a \<Rightarrow> 'a" where
  "or_else x d = (case x of None \<Rightarrow> d | Some v \<Rightarrow> v)"

definition op_filter ::
  "math_env \<Rightarrow> op_pipeline \<Rightarrow> int \<Rightarrow> vec3 \<Rightarrow> quat \<Rightarrow> op_pipeline \<times> (operator_error, vec3 \<times> quat) res" where
  "op_filter env p now translation orientation =
     (let alpha = op_alpha env p now;
          filtered = zip3 (\<lambda>previous current. fadd previous (fmul alpha (fsub current previous)))
            (or_else (op_filtered_translation p) translation) translation
      in case quaternion_slerp env (or_else (op_filtered_orientation p) orientation) orientation alpha of
           Inl e \<Rightarrow> (p, Inl e)
         | Inr q \<Rightarrow>
             (p\<lparr>op_filtered_translation := Some filtered, op_filtered_orientation := Some q,
                op_last_output_ns := Some now\<rparr>, Inr (filtered, q)))"

section \<open>One step\<close>

text \<open>The arguments of \<open>step\<close>.\<close>

record op_requests =
  rq_engage :: bool
  rq_capture :: bool
  rq_disengage :: bool
  rq_frozen :: bool
  rq_malformed :: bool

type_synonym op_result = "op_pipeline \<times> (operator_error, operator_target) res"

definition op_stop :: "op_pipeline \<Rightarrow> int \<Rightarrow> int option \<Rightarrow> string \<Rightarrow> op_result" where
  "op_stop p now current reason =
     (let p' = op_force_disengaged p now reason in (p', Inr (op_neutral p' now current reason)))"

text \<open>The jump check between two new samples, when the pipeline is armed or engaged.\<close>

definition op_jump ::
  "math_env \<Rightarrow> op_pipeline \<Rightarrow> pose6d \<Rightarrow> int option \<Rightarrow> (operator_error, string option) res" where
  "op_jump env p pose sequence =
     (case op_last_input_pose p of
        Some before \<Rightarrow>
          if sequence \<noteq> op_last_input_sequence p \<and> op_state p \<noteq> OpDisengaged then
            rbind (distance3 env (position_m pose) (position_m before)) (\<lambda>translation_jump.
            let rotation_jump = quaternion_distance env (orientation_xyzw pose) (orientation_xyzw before) in
            if flt (oc_jump_translation_m (op_config p)) translation_jump
            then Inr (Some ''excessive_translation_jump'')
            else if flt (oc_jump_rotation_rad (op_config p)) rotation_jump
            then Inr (Some ''excessive_orientation_jump'')
            else Inr None)
          else Inr None
      | None \<Rightarrow> Inr None)"

definition op_disengaged_step :: "op_pipeline \<Rightarrow> int \<Rightarrow> int option \<Rightarrow> bool \<Rightarrow> op_result" where
  "op_disengaged_step p now sequence engage =
     (if engage then
        (let p' = op_transition p now OpArmed ''explicit_engage_request_with_fresh_right_hand''
         in (p', Inr (op_neutral p' now sequence ''awaiting_reference_capture'')))
      else (p, Inr (op_neutral p now sequence ''disengaged'')))"

definition op_armed_step :: "op_pipeline \<Rightarrow> int \<Rightarrow> pose6d \<Rightarrow> int option \<Rightarrow> bool \<Rightarrow> op_result" where
  "op_armed_step p now pose sequence capture =
     (if capture then
        (let p' = op_transition
               (p\<lparr>op_reference_pose := Some pose, op_reference_host_sequence := sequence,
                  op_filtered_translation := Some zero3, op_filtered_orientation := Some identity_quat,
                  op_last_output_ns := Some now\<rparr>)
               now OpEngaged ''fresh_right_hand_reference_captured''
         in (p', Inr (op_target p' now sequence zero3 identity_quat ''reference_captured'')))
      else (p, Inr (op_neutral p now sequence ''awaiting_reference_capture'')))"

definition op_relative_translation ::
  "math_env \<Rightarrow> op_config \<Rightarrow> pose6d \<Rightarrow> pose6d \<Rightarrow> (operator_error, vec3) res" where
  "op_relative_translation env c reference pose =
     rbind (rotate_vector env (quaternion_conjugate (orientation_xyzw reference))
              (zip3 fsub (position_m pose) (position_m reference))) (\<lambda>local_delta.
     Inr (zip3 fmul local_delta (oc_translation_scale c)))"

definition op_relative_orientation ::
  "math_env \<Rightarrow> op_config \<Rightarrow> pose6d \<Rightarrow> pose6d \<Rightarrow> (operator_error, quat) res" where
  "op_relative_orientation env c reference pose =
     (if oc_orientation_mapping c = ''disabled'' then Inr identity_quat
      else rbind (quaternion_multiply env (quaternion_conjugate (orientation_xyzw reference))
                    (orientation_xyzw pose)) (\<lambda>relative.
           quaternion_scaled env relative (oc_orientation_scale c)))"

definition op_emit :: "op_pipeline \<times> (operator_error, vec3 \<times> quat) res \<Rightarrow> int \<Rightarrow> int option \<Rightarrow> op_result" where
  "op_emit r now sequence =
     (case r of
        (p, Inl e) \<Rightarrow> (p, Inl e)
      | (p, Inr (translation, orientation)) \<Rightarrow>
          (p, Inr (op_target p now sequence translation orientation ''engaged_relative_operator_transform'')))"

definition op_orient :: "math_env \<Rightarrow> op_pipeline \<Rightarrow> int \<Rightarrow> int option \<Rightarrow> vec3 \<Rightarrow> (operator_error, quat) res \<Rightarrow> op_result" where
  "op_orient env p now sequence translation orientation =
     (case orientation of
        Inl e \<Rightarrow> (p, Inl e)
      | Inr q \<Rightarrow> op_emit (op_filter env p now translation q) now sequence)"

definition op_engaged_step :: "math_env \<Rightarrow> op_pipeline \<Rightarrow> int \<Rightarrow> pose6d \<Rightarrow> int option \<Rightarrow> op_result" where
  "op_engaged_step env p now pose sequence =
     (case op_reference_pose p of
        None \<Rightarrow> (p, Inl OpAssertion)
      | Some reference \<Rightarrow>
          (case op_relative_translation env (op_config p) reference pose of
             Inl e \<Rightarrow> (p, Inl e)
           | Inr translation \<Rightarrow>
               if \<not> inside_workspace translation (oc_workspace_min_m (op_config p)) (oc_workspace_max_m (op_config p))
               then op_stop p now sequence ''operator_workspace_envelope_violation''
               else op_orient env p now sequence translation
                      (op_relative_orientation env (op_config p) reference pose)))"

definition op_dispatch :: "math_env \<Rightarrow> op_pipeline \<Rightarrow> int \<Rightarrow> pose6d \<Rightarrow> int option \<Rightarrow> op_requests \<Rightarrow> op_result" where
  "op_dispatch env p now pose sequence rq =
     (case op_state p of
        OpDisengaged \<Rightarrow> op_disengaged_step p now sequence (rq_engage rq)
      | OpArmed \<Rightarrow> op_armed_step p now pose sequence (rq_capture rq)
      | OpEngaged \<Rightarrow> op_engaged_step env p now pose sequence)"

definition op_checked ::
  "math_env \<Rightarrow> op_pipeline \<Rightarrow> int \<Rightarrow> pose6d \<Rightarrow> int option \<Rightarrow> op_requests \<Rightarrow>
   (operator_error, string option) res \<Rightarrow> op_result" where
  "op_checked env p now pose sequence rq jump =
     (case jump of
        Inl e \<Rightarrow> (p, Inl e)
      | Inr (Some reason) \<Rightarrow>
          (let p' = op_remember_input (op_force_disengaged p now reason) pose sequence
           in (p', Inr (op_neutral p' now sequence reason)))
      | Inr None \<Rightarrow> op_dispatch env (op_remember_input p pose sequence) now pose sequence rq)"

definition op_step :: "math_env \<Rightarrow> op_pipeline \<Rightarrow> canonical_state \<Rightarrow> op_requests \<Rightarrow> op_result" where
  "op_step env p quest rq =
     (let now = cs_host_monotonic_ns quest; hand = cs_right quest;
          sequence = ho_host_sequence_number hand
      in case op_unsafe_reason (op_config p) hand (rq_frozen rq) (rq_malformed rq) of
           Some reason \<Rightarrow> op_stop p now sequence reason
         | None \<Rightarrow>
             (case ho_wrist_pose hand of
                None \<Rightarrow> (p, Inl OpAssertion)
              | Some pose \<Rightarrow>
                  if rq_disengage rq then op_stop p now sequence ''explicit_disengage_request''
                  else op_checked env p now pose sequence rq (op_jump env p pose sequence)))"

definition op_force_fault :: "op_pipeline \<Rightarrow> int \<Rightarrow> string \<Rightarrow> op_pipeline \<times> (operator_error, unit) res" where
  "op_force_fault p now reason =
     (if strip (lit reason) = [] then (p, Inl OpBlankReason) else (op_force_disengaged p now reason, Inr ()))"

end
