(* ===== verification/HtsOperatorSafety.thy ===== *)
theory HtsOperatorSafety
  imports HtsOperator
begin

text \<open>
  Runs of the right-hand operator of \<open>src/motion_input/hts_operator.py\<close>: what its callers can do is a list
  of events. A target that is valid for mapping traces back to an explicit engagement and an explicit
  reference capture with nothing unsafe since.
\<close>

section \<open>Runs\<close>

datatype op_event = OpStep canonical_state op_requests | OpFault int string

fun op_apply :: "math_env \<Rightarrow> op_pipeline \<Rightarrow> op_event \<Rightarrow> op_pipeline \<times> (operator_error, operator_target option) res" where
  "op_apply env p (OpStep quest rq) =
     (case op_step env p quest rq of (p', Inl e) \<Rightarrow> (p', Inl e) | (p', Inr t) \<Rightarrow> (p', Inr (Some t)))"
| "op_apply env p (OpFault now reason) =
     (case op_force_fault p now reason of (p', Inl e) \<Rightarrow> (p', Inl e) | (p', Inr u) \<Rightarrow> (p', Inr None))"

definition op_run :: "math_env \<Rightarrow> op_pipeline \<Rightarrow> op_event list \<Rightarrow> op_pipeline" where
  "op_run env p es = foldl (\<lambda>q e. fst (op_apply env q e)) p es"

text \<open>Events that must disengage, and the two explicit requests of the operator.\<close>

definition hand_fresh_complete :: "op_config \<Rightarrow> hand_observation \<Rightarrow> bool" where
  "hand_fresh_complete c hand \<longleftrightarrow> ho_tracking_valid hand \<and> ho_wrist_pose hand \<noteq> None
     \<and> (\<exists>age. ho_stream_age_s hand = Some age \<and> \<not> flt (oc_stale_after_s c) age)
     \<and> int (length (ho_joints hand)) = oc_required_joint_count c"

fun op_clears :: "op_config \<Rightarrow> op_event \<Rightarrow> bool" where
  "op_clears c (OpStep quest rq) =
     (rq_malformed rq \<or> rq_frozen rq \<or> rq_disengage rq \<or> \<not> hand_fresh_complete c (cs_right quest))"
| "op_clears c (OpFault now reason) = (strip (lit reason) \<noteq> [])"

fun op_engages :: "op_event \<Rightarrow> bool" where
  "op_engages (OpStep quest rq) = rq_engage rq"
| "op_engages (OpFault now reason) = False"

fun op_captures :: "op_event \<Rightarrow> pose6d \<Rightarrow> int option \<Rightarrow> bool" where
  "op_captures (OpStep quest rq) pose sequence =
     (rq_capture rq \<and> ho_wrist_pose (cs_right quest) = Some pose
      \<and> ho_host_sequence_number (cs_right quest) = sequence)"
| "op_captures (OpFault now reason) pose sequence = False"

text \<open>The history ends in an accepted engagement, nothing unsafe since.\<close>

definition armed_by :: "op_config \<Rightarrow> op_event list \<Rightarrow> bool" where
  "armed_by c es \<longleftrightarrow> (\<exists>pre a mid. es = pre @ a # mid \<and> op_engages a \<and> (\<forall>x \<in> set (a # mid). \<not> op_clears c x))"

text \<open>It ends in an engagement and then the capture of this reference, nothing unsafe since.\<close>

definition engaged_by :: "op_config \<Rightarrow> op_event list \<Rightarrow> pose6d \<Rightarrow> int option \<Rightarrow> bool" where
  "engaged_by c es pose sequence \<longleftrightarrow>
     (\<exists>pre a mid b post. es = pre @ a # mid @ b # post \<and> op_engages a \<and> op_captures b pose sequence
       \<and> (\<forall>x \<in> set (a # mid @ b # post). \<not> op_clears c x))"

lemma armed_by_extend: "armed_by c es \<Longrightarrow> \<not> op_clears c e \<Longrightarrow> armed_by c (es @ [e])"
  unfolding armed_by_def by (elim exE conjE, rule exI, rule exI, rule_tac x = "mid @ [e]" in exI) auto

lemma armed_by_engage: "op_engages e \<Longrightarrow> \<not> op_clears c e \<Longrightarrow> armed_by c (es @ [e])"
  unfolding armed_by_def by (rule exI[of _ es], rule exI[of _ e], rule exI[of _ "[]"]) simp

lemma engaged_by_capture:
  "armed_by c es \<Longrightarrow> op_captures e pose sequence \<Longrightarrow> \<not> op_clears c e \<Longrightarrow> engaged_by c (es @ [e]) pose sequence"
  unfolding armed_by_def engaged_by_def
  by (elim exE conjE, rule exI, rule exI, rule exI, rule exI[of _ e], rule exI[of _ "[]"]) auto

lemma engaged_by_extend:
  "engaged_by c es pose sequence \<Longrightarrow> \<not> op_clears c e \<Longrightarrow> engaged_by c (es @ [e]) pose sequence"
  unfolding engaged_by_def
  by (elim exE conjE, rule exI, rule exI, rule exI, rule exI, rule_tac x = "post @ [e]" in exI) auto

section \<open>The invariant\<close>

definition op_inv :: "op_config \<Rightarrow> op_event list \<Rightarrow> op_pipeline \<Rightarrow> bool" where
  "op_inv c es p \<longleftrightarrow> op_config p = c \<and>
     (case op_state p of
        OpDisengaged \<Rightarrow> op_reference_pose p = None \<and> op_reference_host_sequence p = None
      | OpArmed \<Rightarrow> op_reference_pose p = None \<and> op_reference_host_sequence p = None \<and> armed_by c es
      | OpEngaged \<Rightarrow> (\<exists>pose. op_reference_pose p = Some pose \<and> engaged_by c es pose (op_reference_host_sequence p)))"

lemma op_inv_start: "op_inv c [] (new_op_pipeline c)"
  by (simp add: op_inv_def new_op_pipeline_def)

text \<open>The parts of the pipeline that remembering an input leaves alone.\<close>

lemma op_remember_input_parts [simp]:
  "op_config (op_remember_input p pose s) = op_config p"
  "op_state (op_remember_input p pose s) = op_state p"
  "op_reference_pose (op_remember_input p pose s) = op_reference_pose p"
  "op_reference_host_sequence (op_remember_input p pose s) = op_reference_host_sequence p"
  by (simp_all add: op_remember_input_def)

lemma op_force_disengaged_parts [simp]:
  "op_config (op_force_disengaged p now reason) = op_config p"
  "op_state (op_force_disengaged p now reason) = OpDisengaged"
  "op_reference_pose (op_force_disengaged p now reason) = None"
  "op_reference_host_sequence (op_force_disengaged p now reason) = None"
  by (simp_all add: op_force_disengaged_def op_transition_def)

lemma op_transition_parts [simp]:
  "op_config (op_transition p now st reason) = op_config p"
  "op_state (op_transition p now st reason) = st"
  "op_reference_pose (op_transition p now st reason) = op_reference_pose p"
  "op_reference_host_sequence (op_transition p now st reason) = op_reference_host_sequence p"
  by (simp_all add: op_transition_def)

lemma op_filter_parts:
  assumes "op_filter env p now t q = (p', r)"
  shows "op_config p' = op_config p" "op_state p' = op_state p" "op_reference_pose p' = op_reference_pose p"
    "op_reference_host_sequence p' = op_reference_host_sequence p"
  using assms by (auto simp: op_filter_def Let_def split: sum.splits)

lemma op_inv_disengaged:
  "op_config p = c \<Longrightarrow> op_state p = OpDisengaged \<Longrightarrow> op_reference_pose p = None \<Longrightarrow>
   op_reference_host_sequence p = None \<Longrightarrow> op_inv c es p"
  by (simp add: op_inv_def)

text \<open>The reasons of the code are exactly the reasons of the specification.\<close>

lemma op_unsafe_iff:
  "op_unsafe_reason c hand frozen malformed = None \<longleftrightarrow> \<not> malformed \<and> \<not> frozen \<and> hand_fresh_complete c hand"
  by (auto simp: op_unsafe_reason_def hand_fresh_complete_def split: option.splits)

text \<open>What a step may do with the parts the invariant reads.\<close>

definition op_same :: "op_pipeline \<Rightarrow> op_pipeline \<Rightarrow> bool" where
  "op_same p p' \<longleftrightarrow> op_config p' = op_config p \<and> op_state p' = op_state p
     \<and> op_reference_pose p' = op_reference_pose p \<and> op_reference_host_sequence p' = op_reference_host_sequence p"

definition op_off :: "op_pipeline \<Rightarrow> op_pipeline \<Rightarrow> bool" where
  "op_off p p' \<longleftrightarrow> op_config p' = op_config p \<and> op_state p' = OpDisengaged
     \<and> op_reference_pose p' = None \<and> op_reference_host_sequence p' = None"

lemma op_same_refl [simp]: "op_same p p"
  by (simp add: op_same_def)

text \<open>
  The outcomes of a step. The result is the target of the state reached, and a target that is valid for
  mapping comes with the engaged state and its reference.
\<close>

definition op_out :: "op_pipeline \<Rightarrow> (operator_error, operator_target) res \<Rightarrow> bool" where
  "op_out p r \<longleftrightarrow> (\<forall>t. r = Inr t \<longrightarrow> og_state t = op_state p
     \<and> og_reference_host_sequence t = op_reference_host_sequence p
     \<and> (og_valid_for_mapping t \<longleftrightarrow> \<not> og_emergency_neutral t)
     \<and> (if og_valid_for_mapping t then op_state p = OpEngaged
        else og_translation_m t = zero3 \<and> og_orientation_xyzw t = identity_quat))"

lemma op_out_neutral [simp]: "op_out p (Inr (op_neutral p now s reason))"
  by (simp add: op_out_def op_neutral_def)

lemma op_out_error [simp]: "op_out p (Inl e)"
  by (simp add: op_out_def)

lemma op_out_target [simp]: "op_out p (Inr (op_target p now s t q reason)) \<longleftrightarrow> op_state p = OpEngaged"
  by (auto simp: op_out_def op_target_def)

lemma op_stop_cases:
  assumes "op_stop p now s reason = (p', r)"
  shows "op_off p p'" "op_out p' r"
  using assms by (auto simp: op_stop_def op_off_def Let_def)

lemma op_engaged_cases:
  assumes "op_engaged_step env p now pose s = (p', r)" "op_state p = OpEngaged"
  shows "(op_same p p' \<or> op_off p p') \<and> op_out p' r"
proof -
  have emit: "op_same p p' \<and> op_out p' r"
    if "op_emit (op_filter env p now t q) now s = (p', r)" for t q
    using that op_filter_parts[of env p now t q] assms(2)
    by (auto simp: op_emit_def op_same_def split: prod.splits sum.splits)
  show ?thesis
    using assms emit op_stop_cases[of p now s _ p' r]
    by (auto simp: op_engaged_step_def op_orient_def split: option.splits sum.splits if_splits)
qed

text \<open>A state the checks let through has a wrist pose.\<close>

lemma op_safe_pose:
  "op_unsafe_reason c hand frozen malformed = None \<Longrightarrow> \<exists>pose. ho_wrist_pose hand = Some pose"
  by (auto simp: op_unsafe_reason_def split: if_splits option.splits)

definition op_armed_now :: "op_pipeline \<Rightarrow> op_pipeline \<Rightarrow> bool" where
  "op_armed_now p p' \<longleftrightarrow> op_config p' = op_config p \<and> op_state p = OpDisengaged \<and> op_state p' = OpArmed
     \<and> op_reference_pose p' = op_reference_pose p \<and> op_reference_host_sequence p' = op_reference_host_sequence p"

definition op_captured_now :: "op_pipeline \<Rightarrow> op_pipeline \<Rightarrow> pose6d \<Rightarrow> int option \<Rightarrow> bool" where
  "op_captured_now p p' pose s \<longleftrightarrow> op_config p' = op_config p \<and> op_state p = OpArmed \<and> op_state p' = OpEngaged
     \<and> op_reference_pose p' = Some pose \<and> op_reference_host_sequence p' = s"

lemmas op_outcomes = op_same_def op_off_def op_armed_now_def op_captured_now_def

lemma op_dispatch_cases:
  assumes "op_dispatch env p now pose s rq = (p', r)"
  shows "(op_same p p' \<or> op_off p p' \<or> (rq_engage rq \<and> op_armed_now p p')
      \<or> (rq_capture rq \<and> op_captured_now p p' pose s)) \<and> op_out p' r"
proof (cases "op_state p")
  case OpDisengaged
  with assms show ?thesis
    by (auto simp: op_dispatch_def op_disengaged_step_def Let_def op_armed_now_def split: if_splits)
next
  case OpArmed
  with assms show ?thesis
    by (auto simp: op_dispatch_def op_armed_step_def Let_def op_captured_now_def split: if_splits)
next
  case OpEngaged
  with assms op_engaged_cases[of env p now pose s p' r] show ?thesis
    by (auto simp: op_dispatch_def)
qed

lemma op_checked_cases:
  assumes "op_checked env p now pose s rq jump = (p', r)"
  shows "(op_same p p' \<or> op_off p p' \<or> (rq_engage rq \<and> op_armed_now p p')
      \<or> (rq_capture rq \<and> op_captured_now p p' pose s)) \<and> op_out p' r"
proof -
  have "(op_same p p' \<or> op_off p p' \<or> (rq_engage rq \<and> op_armed_now p p')
      \<or> (rq_capture rq \<and> op_captured_now p p' pose s)) \<and> op_out p' r"
    if "op_dispatch env (op_remember_input p pose s) now pose s rq = (p', r)"
    using op_dispatch_cases[OF that] by (auto simp: op_outcomes)
  with assms show ?thesis
    by (auto simp: op_checked_def Let_def op_off_def split: sum.splits option.splits)
qed

text \<open>One step: it clears when it must, and arms or captures only on the explicit request for it.\<close>

lemma op_step_cases:
  assumes "op_step env p quest rq = (p', r)"
  shows "(op_off p p' \<or> \<not> op_clears (op_config p) (OpStep quest rq) \<and>
      (op_same p p' \<or> (rq_engage rq \<and> op_armed_now p p')
       \<or> (\<exists>pose s. op_captures (OpStep quest rq) pose s \<and> op_captured_now p p' pose s))) \<and> op_out p' r"
proof (cases "op_unsafe_reason (op_config p) (cs_right quest) (rq_frozen rq) (rq_malformed rq)")
  case (Some reason)
  with assms show ?thesis
    using op_stop_cases by (auto simp: op_step_def Let_def)
next
  case None
  from op_safe_pose[OF this] obtain pose where pose: "ho_wrist_pose (cs_right quest) = Some pose" ..
  let ?s = "ho_host_sequence_number (cs_right quest)" and ?now = "cs_host_monotonic_ns quest"
  show ?thesis
  proof (cases "rq_disengage rq")
    case True
    with assms None pose show ?thesis using op_stop_cases by (auto simp: op_step_def Let_def)
  next
    case False
    with assms None pose have "op_checked env p ?now pose ?s rq (op_jump env p pose ?s) = (p', r)"
      by (simp add: op_step_def Let_def)
    from op_checked_cases[OF this] False None pose show ?thesis by (auto simp: op_unsafe_iff)
  qed
qed

lemma op_apply_cases:
  assumes "op_apply env p e = (p', r)"
  shows "op_off p p' \<or> \<not> op_clears (op_config p) e \<and>
      (op_same p p' \<or> (op_engages e \<and> op_armed_now p p')
       \<or> (\<exists>pose s. op_captures e pose s \<and> op_captured_now p p' pose s))"
proof (cases e)
  case (OpStep quest rq)
  with assms op_step_cases[of env p quest rq] show ?thesis
    by (auto split: prod.splits sum.splits)
next
  case (OpFault now reason)
  with assms show ?thesis
    by (auto simp: op_force_fault_def op_off_def split: prod.splits sum.splits if_splits)
qed

lemma op_inv_apply:
  assumes inv: "op_inv c es p" and ap: "op_apply env p e = (p', r)"
  shows "op_inv c (es @ [e]) p'"
proof -
  have c: "op_config p = c" using inv by (simp add: op_inv_def)
  from op_apply_cases[OF ap] c consider (off) "op_off p p'" | (same) "\<not> op_clears c e" "op_same p p'"
    | (armed) "\<not> op_clears c e" "op_engages e" "op_armed_now p p'"
    | (captured) pose s where "\<not> op_clears c e" "op_captures e pose s" "op_captured_now p p' pose s" by auto
  then show ?thesis
  proof cases
    case off
    with c show ?thesis by (auto simp: op_off_def intro: op_inv_disengaged)
  next
    case same
    with inv show ?thesis
      by (auto simp: op_inv_def op_same_def armed_by_extend engaged_by_extend split: operator_state.splits)
  next
    case armed
    with inv armed_by_engage[of e c es] show ?thesis by (auto simp: op_inv_def op_armed_now_def)
  next
    case captured
    with inv engaged_by_capture[of c es e pose s] show ?thesis by (auto simp: op_inv_def op_captured_now_def)
  qed
qed

lemma op_inv_run: "op_inv c es (op_run env (new_op_pipeline c) es)"
proof (induction es rule: rev_induct)
  case (snoc e es)
  obtain p' r where ap: "op_apply env (op_run env (new_op_pipeline c) es) e = (p', r)" by (metis surj_pair)
  from op_inv_apply[OF snoc ap] ap show ?case by (simp add: op_run_def)
qed (simp add: op_run_def op_inv_start)

section \<open>Properties\<close>

text \<open>
  C34. Explicit engagement. When a run of the operator ends in a step whose target is valid for mapping, the
  pipeline is engaged, the run holds an explicit engagement request and after it an explicit capture of the
  very reference the target is relative to, and no event since that engagement was unsafe, asked for
  disengagement or reported a fault: every stale, frozen, malformed, untracked or incomplete sample makes
  both requests necessary again.
\<close>

theorem operator_target_traced:
  assumes "op_apply env (op_run env (new_op_pipeline c) es) e = (p', Inr (Some t))" and "og_valid_for_mapping t"
  shows "op_state p' = OpEngaged \<and> og_state t = OpEngaged
    \<and> (\<exists>pose. op_reference_pose p' = Some pose \<and> engaged_by c (es @ [e]) pose (og_reference_host_sequence t))"
proof -
  let ?p = "op_run env (new_op_pipeline c) es"
  from assms(1) obtain quest rq where st: "op_step env ?p quest rq = (p', Inr t)"
    by (cases e) (auto split: prod.splits sum.splits)
  from op_step_cases[OF st] assms(2) have out: "op_state p' = OpEngaged" "og_state t = op_state p'"
    "og_reference_host_sequence t = op_reference_host_sequence p'"
    by (auto simp: op_out_def split: if_splits)
  with op_inv_apply[OF op_inv_run assms(1)] show ?thesis by (auto simp: op_inv_def)
qed

section \<open>A concrete run\<close>

definition demo_math :: math_env where
  "demo_math = \<lparr>me_py = \<lparr>pe_decimal = (\<lambda>_. None), pe_norm = (\<lambda>_. Fin 1)\<rparr>, me_sum = (\<lambda>_. Fin 1),
     me_square = Some, me_sqrt = id, me_acos = (\<lambda>_. Fin 0), me_sin = id, me_cos = id, me_exp = id\<rparr>"

definition demo_op_config :: op_config where
  "demo_op_config =
     \<lparr>oc_required_joint_count = 21, oc_stale_after_s = Fin (1 / 4), oc_translation_scale = (Fin 1, Fin 1, Fin 1),
      oc_orientation_mapping = ''disabled'', oc_orientation_scale = Fin 1, oc_filter_time_constant_s = Fin 0,
      oc_jump_translation_m = Fin 2, oc_jump_rotation_rad = Fin 1,
      oc_workspace_min_m = (Fin (- 1), Fin (- 1), Fin (- 1)), oc_workspace_max_m = (Fin 1, Fin 1, Fin 1)\<rparr>"

definition demo_op_pose :: pose6d where
  "demo_op_pose = \<lparr>position_m = zero3, orientation_xyzw = identity_quat\<rparr>"

text \<open>A tracked right hand at the origin in the given sample.\<close>

definition demo_op_hand :: "int \<Rightarrow> hand_observation" where
  "demo_op_hand s = (no_hand RIGHT)\<lparr>ho_tracking_valid := True, ho_stream_age_s := Some (Fin 0),
     ho_host_sequence_number := Some s, ho_wrist_pose := Some demo_op_pose,
     ho_joints := hand_joints RIGHT (replicate 21 zero3)\<rparr>"

definition demo_quest :: "int \<Rightarrow> canonical_state" where
  "demo_quest s = \<lparr>cs_host_monotonic_ns = s, cs_source_timestamp_ns = None, cs_sequence_number = s,
     cs_coordinate_frame = ''quest_world'', cs_head = None, cs_left = no_hand LEFT, cs_right = demo_op_hand s,
     cs_raw_source_metadata = []\<rparr>"

definition demo_rq :: "bool \<Rightarrow> bool \<Rightarrow> op_requests" where
  "demo_rq engage capture =
     \<lparr>rq_engage = engage, rq_capture = capture, rq_disengage = False, rq_frozen = False, rq_malformed = False\<rparr>"

lemma demo_joints [simp]: "length (hand_joints RIGHT (replicate 21 zero3)) = 21"
  by (simp add: hand_joints_def hts_joint_names_def)

lemma demo_safe [simp]: "op_unsafe_reason demo_op_config (demo_op_hand s) False False = None"
  by (simp add: op_unsafe_reason_def demo_op_hand_def demo_op_config_def)

lemma demo_round [simp]: "round64 0 = Fin 0" "round64 1 = Fin 1"
  using round64_of_int[of 0] round64_of_int[of 1] by simp_all

lemma demo_no_jump: "op_config p = demo_op_config \<Longrightarrow> op_last_input_pose p \<in> {None, Some demo_op_pose} \<Longrightarrow>
    op_jump demo_math p demo_op_pose s = Inr None"
  by (auto simp: op_jump_def demo_op_pose_def demo_op_config_def demo_math_def distance3_def zero3_def
      identity_quat_def quaternion_distance_def quaternion_dot_def py_square_def fsub_def fmin_def)

lemma demo_filter: "op_filtered_translation p = Some zero3 \<Longrightarrow> op_config p = demo_op_config \<Longrightarrow>
   op_filtered_orientation p = Some identity_quat \<Longrightarrow>
   snd (op_filter demo_math p now zero3 identity_quat) = Inr (zero3, identity_quat)"
  by (simp add: op_filter_def op_alpha_def demo_op_config_def feq_def or_else_def zero3_def identity_quat_def fsub_def
      quaternion_slerp_def quaternion_dot_def demo_math_def fmax_def fmin_def normalized_quaternion_def Let_def)

lemma demo_relative: "op_relative_translation demo_math demo_op_config demo_op_pose demo_op_pose = Inr zero3"
  "op_relative_orientation demo_math demo_op_config demo_op_pose demo_op_pose = Inr identity_quat"
  by (simp_all add: op_relative_translation_def op_relative_orientation_def rotate_vector_def demo_op_pose_def
      normalized_quaternion_def identity_quat_def zero3_def fsub_def demo_math_def demo_op_config_def Let_def)

lemma demo_inside: "inside_workspace zero3 (oc_workspace_min_m demo_op_config) (oc_workspace_max_m demo_op_config)"
  by (simp add: inside_workspace_def zero3_def demo_op_config_def)

text \<open>The three steps of the demonstration: engage, capture, move.\<close>

definition demo_armed :: "op_pipeline \<Rightarrow> bool" where
  "demo_armed p \<longleftrightarrow> op_config p = demo_op_config \<and> op_state p = OpArmed \<and> op_last_input_pose p = Some demo_op_pose"

definition demo_engaged :: "op_pipeline \<Rightarrow> bool" where
  "demo_engaged p \<longleftrightarrow> op_config p = demo_op_config \<and> op_state p = OpEngaged \<and> op_last_input_pose p = Some demo_op_pose
     \<and> op_reference_pose p = Some demo_op_pose \<and> op_filtered_translation p = Some zero3
     \<and> op_filtered_orientation p = Some identity_quat"

lemma demo_hand_parts [simp]: "ho_wrist_pose (demo_op_hand s) = Some demo_op_pose"
  "ho_host_sequence_number (demo_op_hand s) = Some s"
  by (simp_all add: demo_op_hand_def)

lemma demo_step: "op_config p = demo_op_config \<Longrightarrow> op_last_input_pose p \<in> {None, Some demo_op_pose} \<Longrightarrow>
   op_step demo_math p (demo_quest s) (demo_rq en cap)
     = op_dispatch demo_math (op_remember_input p demo_op_pose (Some s)) s demo_op_pose (Some s) (demo_rq en cap)"
  by (simp add: op_step_def demo_quest_def demo_rq_def Let_def op_checked_def demo_no_jump)

lemma demo_remember: "op_last_input_sequence p \<noteq> Some s \<Longrightarrow>
   op_last_input_pose (op_remember_input p demo_op_pose (Some s)) = Some demo_op_pose"
  "op_filtered_translation (op_remember_input p pose q) = op_filtered_translation p"
  "op_filtered_orientation (op_remember_input p pose q) = op_filtered_orientation p"
  by (simp_all add: op_remember_input_def)

lemma demo_run1: "demo_armed (fst (op_step demo_math (new_op_pipeline demo_op_config) (demo_quest 1) (demo_rq True False)))"
  using demo_step[of "new_op_pipeline demo_op_config" 1 True False]
  by (simp add: new_op_pipeline_def op_dispatch_def op_disengaged_step_def demo_rq_def Let_def demo_armed_def
      op_remember_input_def op_transition_def)

lemma demo_run2: "demo_armed p \<Longrightarrow> demo_engaged (fst (op_step demo_math p (demo_quest 2) (demo_rq False True)))"
  using demo_step[of p 2 False True]
  by (simp add: demo_armed_def op_dispatch_def op_armed_step_def demo_rq_def Let_def demo_engaged_def
      op_remember_input_def op_transition_def)

lemma demo_run3:
  assumes "demo_engaged p"
  shows "\<exists>p' t. op_step demo_math p (demo_quest 3) (demo_rq False False) = (p', Inr t) \<and> og_valid_for_mapping t"
proof -
  let ?q = "op_remember_input p demo_op_pose (Some 3)"
  obtain p' r where f: "op_filter demo_math ?q 3 zero3 identity_quat = (p', r)" by (metis surj_pair)
  have "r = Inr (zero3, identity_quat)"
    using demo_filter[of ?q 3] f assms by (simp add: demo_engaged_def demo_remember)
  with f assms show ?thesis using demo_step[of p 3 False False]
    by (simp add: demo_engaged_def op_dispatch_def op_engaged_step_def demo_relative demo_inside op_orient_def
        op_emit_def op_target_def)
qed

definition demo_op_events :: "op_event list" where
  "demo_op_events = [OpStep (demo_quest 1) (demo_rq True False), OpStep (demo_quest 2) (demo_rq False True)]"

lemma op_apply_fst: "fst (op_apply env p (OpStep quest rq)) = fst (op_step env p quest rq)"
  by (auto split: prod.splits sum.splits)

lemma operator_target_traced_witness:
  "\<exists>p' t pose. op_apply demo_math (op_run demo_math (new_op_pipeline demo_op_config) demo_op_events)
       (OpStep (demo_quest 3) (demo_rq False False)) = (p', Inr (Some t))
     \<and> og_valid_for_mapping t \<and> op_reference_pose p' = Some pose
     \<and> engaged_by demo_op_config (demo_op_events @ [OpStep (demo_quest 3) (demo_rq False False)]) pose
         (og_reference_host_sequence t)"
proof -
  let ?p = "op_run demo_math (new_op_pipeline demo_op_config) demo_op_events"
  have "?p = fst (op_step demo_math (fst (op_step demo_math (new_op_pipeline demo_op_config)
      (demo_quest 1) (demo_rq True False))) (demo_quest 2) (demo_rq False True))"
    by (simp add: op_run_def demo_op_events_def op_apply_fst del: op_apply.simps)
  with demo_run2[OF demo_run1] have "demo_engaged ?p" by simp
  from demo_run3[OF this] obtain p' t where
    st: "op_step demo_math ?p (demo_quest 3) (demo_rq False False) = (p', Inr t)" "og_valid_for_mapping t" by blast
  then have ap: "op_apply demo_math ?p (OpStep (demo_quest 3) (demo_rq False False)) = (p', Inr (Some t))" by simp
  from operator_target_traced[OF ap st(2)] ap st(2) show ?thesis by blast
qed

end
