(* ===== verification/Umip.thy ===== *)
theory Umip
  imports HtsCanonical "HOL-Library.Finite_Map"
begin

text \<open>
  The sample type of the Unified Motion Input Protocol, \<open>src/motion_input/model.py\<close>: JSON values, and for each
  dataclass its record with the check of \<open>__post_init__\<close>. A dict is a finite map, since its equality ignores
  order. A number of an optional field may be a JSON bool, int or float; \<open>None\<close> is \<open>JNull\<close>.
\<close>

section \<open>JSON values\<close>

datatype jval = JNull | JBool bool | JInt int | JFloat pyfloat | JStr string | JList "jval list"
  | JObj "(string, jval) fmap"

type_synonym jobject = "(string, jval) fmap"

datatype umip_error =
    UmProtocol | UmKey | UmType | UmValue | UmOverflow | UmAttribute | UmSerialization
  | UmState | UmExists | UmProviderState | UmDisconnected | UmZeroDivision | UmAssertion | UmIndex

text \<open>What the interpreter contributes: \<open>str\<close> of a value that is no string, numbers in text, the order of a dict and
  \<open>dict\<close> of a sequence.\<close>

record umip_env =
  ue_py :: py_env
  ue_str :: "jval \<Rightarrow> string"
  ue_int_text :: "string \<Rightarrow> int option"
  ue_float_text :: "string \<Rightarrow> pyfloat option"
  ue_keys :: "jobject \<Rightarrow> string list"
  ue_pairs :: "jval \<Rightarrow> (umip_error, jobject) res"

primrec json_finite :: "jval \<Rightarrow> bool" where
  "json_finite JNull = True"
| "json_finite (JBool b) = True"
| "json_finite (JInt n) = True"
| "json_finite (JFloat f) = is_finite f"
| "json_finite (JStr s) = True"
| "json_finite (JList xs) = list_all (\<lambda>b. b) (map json_finite xs)"
| "json_finite (JObj m) = fmpred (\<lambda>k b. b) (fmmap json_finite m)"

definition json_mapping :: "jobject \<Rightarrow> (umip_error, jobject) res" where
  "json_mapping m = (if json_finite (JObj m) then Inr m else Inl UmProtocol)"

text \<open>\<open>math.isfinite\<close> of a value: an int too large for a float raises.\<close>

fun py_isfinite :: "jval \<Rightarrow> (umip_error, bool) res" where
  "py_isfinite (JBool b) = Inr True"
| "py_isfinite (JInt n) = (if is_finite (round64 (of_int n)) then Inr True else Inl UmOverflow)"
| "py_isfinite (JFloat f) = Inr (is_finite f)"
| "py_isfinite v = Inl UmType"

fun num_of :: "jval \<Rightarrow> rat" where
  "num_of (JBool b) = (if b then 1 else 0)"
| "num_of (JInt n) = of_int n"
| "num_of (JFloat (Fin r)) = r"
| "num_of v = 0"

section \<open>Time stamps\<close>

record umip_timestamp =
  tp_nanoseconds :: int
  tp_clock_id :: string
  tp_uncertainty_ns :: "int option"

definition check_timestamp :: "umip_timestamp \<Rightarrow> (umip_error, umip_timestamp) res" where
  "check_timestamp t =
     rbind (require (0 \<le> tp_nanoseconds t) UmProtocol) (\<lambda>_.
     rbind (require (\<not> blank (tp_clock_id t)) UmProtocol) (\<lambda>_.
     rbind (require (case tp_uncertainty_ns t of None \<Rightarrow> True | Some u \<Rightarrow> 0 \<le> u) UmProtocol) (\<lambda>_. Inr t)))"

definition comparable_to :: "umip_timestamp \<Rightarrow> umip_timestamp \<Rightarrow> bool" where
  "comparable_to a b \<longleftrightarrow> tp_clock_id a = tp_clock_id b"

definition difference_ns :: "umip_timestamp \<Rightarrow> umip_timestamp \<Rightarrow> (umip_error, int) res" where
  "difference_ns a b =
     (if comparable_to a b then Inr (tp_nanoseconds a - tp_nanoseconds b) else Inl UmProtocol)"

section \<open>Poses\<close>

definition umip_pose :: "umip_env \<Rightarrow> pyfloat list \<Rightarrow> pyfloat list \<Rightarrow> (umip_error, pose6d) res" where
  "umip_pose env position orientation =
     (case position of
        [a, b, c] \<Rightarrow>
          (case orientation of
             [x, y, z, w] \<Rightarrow>
               (case mk_pose6d (ue_py env) (a, b, c) (x, y, z, w) of Inl e \<Rightarrow> Inl UmProtocol | Inr p \<Rightarrow> Inr p)
           | _ \<Rightarrow> Inl UmProtocol)
      | _ \<Rightarrow> Inl UmProtocol)"

section \<open>Devices\<close>

record umip_device =
  dv_device_id :: string
  dv_device_type :: string
  dv_manufacturer :: string
  dv_model :: string
  dv_serial_number :: "string option"
  dv_firmware_version :: "string option"
  dv_software_version :: "string option"
  dv_metadata :: jobject

definition check_device :: "umip_device \<Rightarrow> (umip_error, umip_device) res" where
  "check_device d =
     rbind (require (list_all (\<lambda>s. \<not> blank s) [dv_device_id d, dv_device_type d, dv_manufacturer d, dv_model d]) UmProtocol) (\<lambda>_.
     rbind (json_mapping (dv_metadata d)) (\<lambda>_. Inr d))"

section \<open>Hands\<close>

definition check_unit_interval :: "jval \<Rightarrow> (umip_error, unit) res" where
  "check_unit_interval v =
     (if v = JNull then Inr ()
      else rbind (py_isfinite v) (\<lambda>finite.
           require (finite \<and> 0 \<le> num_of v \<and> num_of v \<le> 1) UmProtocol))"

record umip_joint =
  jn_name :: string
  jn_pose :: "pose6d option"
  jn_tracking_state :: tracking_state
  jn_confidence :: jval
  jn_radius_m :: jval

definition check_joint :: "umip_joint \<Rightarrow> (umip_error, umip_joint) res" where
  "check_joint j =
     rbind (require (\<not> blank (jn_name j)) UmProtocol) (\<lambda>_.
     rbind (check_unit_interval (jn_confidence j)) (\<lambda>_.
     rbind (if jn_radius_m j = JNull then Inr ()
            else rbind (py_isfinite (jn_radius_m j)) (\<lambda>finite.
                 require (finite \<and> 0 < num_of (jn_radius_m j)) UmProtocol)) (\<lambda>_.
     rbind (require (jn_tracking_state j = TRACKING \<longrightarrow> jn_pose j \<noteq> None) UmProtocol) (\<lambda>_. Inr j))))"

record umip_gesture =
  gs_name :: string
  gs_active :: bool
  gs_confidence :: jval
  gs_value :: jval

definition check_gesture :: "umip_gesture \<Rightarrow> (umip_error, umip_gesture) res" where
  "check_gesture g =
     rbind (require (\<not> blank (gs_name g)) UmProtocol) (\<lambda>_.
     rbind (check_unit_interval (gs_confidence g)) (\<lambda>_.
     rbind (if gs_value g = JNull then Inr ()
            else rbind (py_isfinite (gs_value g)) (\<lambda>finite. require finite UmProtocol)) (\<lambda>_. Inr g)))"

record umip_articulation =
  ar_joints :: "umip_joint list"
  ar_gestures :: "umip_gesture list"
  ar_pinch_strength :: jval
  ar_grasp_strength :: jval
  ar_confidence :: jval

definition check_articulation :: "umip_articulation \<Rightarrow> (umip_error, umip_articulation) res" where
  "check_articulation a =
     rbind (require (distinct (map jn_name (ar_joints a))) UmProtocol) (\<lambda>_.
     rbind (check_unit_interval (ar_pinch_strength a)) (\<lambda>_.
     rbind (check_unit_interval (ar_grasp_strength a)) (\<lambda>_.
     rbind (check_unit_interval (ar_confidence a)) (\<lambda>_. Inr a))))"

section \<open>Samples\<close>

datatype motion_kind = MotionAbsolute | MotionRelative

record umip_sample =
  sm_sample_id :: string
  sm_stream_id :: string
  sm_sequence_number :: int
  sm_capture :: umip_timestamp
  sm_receive :: umip_timestamp
  sm_device_time :: "umip_timestamp option"
  sm_processing :: "umip_timestamp option"
  sm_tracking_state :: tracking_state
  sm_tracking_confidence :: jval
  sm_coordinate_frame :: string
  sm_device :: umip_device
  sm_side :: side
  sm_wrist_pose :: "pose6d option"
  sm_palm_pose :: "pose6d option"
  sm_motion_kind :: motion_kind
  sm_articulation :: "umip_articulation option"
  sm_metadata :: jobject
  sm_extensions :: jobject
  sm_protocol_version :: string

text \<open>\<open>str.isdigit\<close> on Latin-1 text: the ASCII digits and the three superscripts.\<close>

definition latin_digit :: "nat \<Rightarrow> bool" where
  "latin_digit c \<longleftrightarrow> is_digit c \<or> c \<in> {178, 179, 185}"

definition version_ok :: "string \<Rightarrow> bool" where
  "version_ok v =
     (let parts = split_on 46 (lit v)
      in length parts = 2 \<and> list_all (\<lambda>p. p \<noteq> [] \<and> list_all latin_digit p) parts)"

definition namespaced :: "jobject \<Rightarrow> bool" where
  "namespaced m \<longleftrightarrow> fmpred (\<lambda>k v. CHR ''.'' \<in> set k) m"

definition check_umip_sample :: "umip_sample \<Rightarrow> (umip_error, umip_sample) res" where
  "check_umip_sample s =
     rbind (require (list_all (\<lambda>t. \<not> blank t) [sm_sample_id s, sm_stream_id s, sm_coordinate_frame s]) UmProtocol) (\<lambda>_.
     rbind (require (0 \<le> sm_sequence_number s) UmProtocol) (\<lambda>_.
     rbind (require (version_ok (sm_protocol_version s)) UmProtocol) (\<lambda>_.
     rbind (check_unit_interval (sm_tracking_confidence s)) (\<lambda>_.
     rbind (require (sm_tracking_state s = TRACKING \<longrightarrow> sm_wrist_pose s \<noteq> None) UmProtocol) (\<lambda>_.
     rbind (require (sm_tracking_state s \<in> {NOT_TRACKING, DISCONNECTED} \<longrightarrow>
        sm_wrist_pose s = None \<and> sm_palm_pose s = None) UmProtocol) (\<lambda>_.
     rbind (json_mapping (sm_metadata s)) (\<lambda>_.
     rbind (json_mapping (sm_extensions s)) (\<lambda>_.
     rbind (require (namespaced (sm_extensions s)) UmProtocol) (\<lambda>_. Inr s)))))))))"

definition umip_version :: string where
  "umip_version = ''1.0''"

section \<open>Well-formed values\<close>

text \<open>
  The types as predicates: what every value of the model satisfies, whatever built it.
\<close>

definition timestamp_ok :: "umip_timestamp \<Rightarrow> bool" where
  "timestamp_ok t \<longleftrightarrow> 0 \<le> tp_nanoseconds t \<and> \<not> blank (tp_clock_id t) \<and> (\<forall>u. tp_uncertainty_ns t = Some u \<longrightarrow> 0 \<le> u)"

definition umip_pose_ok :: "umip_env \<Rightarrow> pose6d \<Rightarrow> bool" where
  "umip_pose_ok env p \<longleftrightarrow> list_all is_finite (vec_list (position_m p)) \<and> list_all is_finite (quat_list (orientation_xyzw p))
     \<and> \<not> flt pose_norm_tolerance (fabs (fsub (pe_norm (ue_py env) (orientation_xyzw p)) (Fin 1)))"

definition device_ok :: "umip_device \<Rightarrow> bool" where
  "device_ok d \<longleftrightarrow> (\<forall>s \<in> {dv_device_id d, dv_device_type d, dv_manufacturer d, dv_model d}. \<not> blank s)
     \<and> json_finite (JObj (dv_metadata d))"

text \<open>A number, not too large for a float, in the given range.\<close>

definition number_ok :: "(rat \<Rightarrow> bool) \<Rightarrow> jval \<Rightarrow> bool" where
  "number_ok P v \<longleftrightarrow> v = JNull \<or> (py_isfinite v = Inr True \<and> P (num_of v))"

abbreviation unit_ok :: "jval \<Rightarrow> bool" where
  "unit_ok \<equiv> number_ok (\<lambda>r. 0 \<le> r \<and> r \<le> 1)"

definition joint_ok :: "umip_env \<Rightarrow> umip_joint \<Rightarrow> bool" where
  "joint_ok env j \<longleftrightarrow> \<not> blank (jn_name j) \<and> unit_ok (jn_confidence j) \<and> number_ok (\<lambda>r. 0 < r) (jn_radius_m j)
     \<and> (jn_tracking_state j = TRACKING \<longrightarrow> jn_pose j \<noteq> None) \<and> pred_option (umip_pose_ok env) (jn_pose j)"

definition gesture_ok :: "umip_gesture \<Rightarrow> bool" where
  "gesture_ok g \<longleftrightarrow> \<not> blank (gs_name g) \<and> unit_ok (gs_confidence g) \<and> number_ok (\<lambda>r. True) (gs_value g)"

definition articulation_ok :: "umip_env \<Rightarrow> umip_articulation \<Rightarrow> bool" where
  "articulation_ok env a \<longleftrightarrow> list_all (joint_ok env) (ar_joints a) \<and> list_all gesture_ok (ar_gestures a)
     \<and> distinct (map jn_name (ar_joints a))
     \<and> unit_ok (ar_pinch_strength a) \<and> unit_ok (ar_grasp_strength a) \<and> unit_ok (ar_confidence a)"

definition umip_sample_ok :: "umip_env \<Rightarrow> umip_sample \<Rightarrow> bool" where
  "umip_sample_ok env s \<longleftrightarrow> \<not> blank (sm_sample_id s) \<and> \<not> blank (sm_stream_id s) \<and> \<not> blank (sm_coordinate_frame s)
     \<and> 0 \<le> sm_sequence_number s \<and> version_ok (sm_protocol_version s) \<and> unit_ok (sm_tracking_confidence s)
     \<and> timestamp_ok (sm_capture s) \<and> timestamp_ok (sm_receive s)
     \<and> pred_option timestamp_ok (sm_device_time s) \<and> pred_option timestamp_ok (sm_processing s)
     \<and> device_ok (sm_device s) \<and> pred_option (umip_pose_ok env) (sm_wrist_pose s)
     \<and> pred_option (umip_pose_ok env) (sm_palm_pose s) \<and> pred_option (articulation_ok env) (sm_articulation s)
     \<and> (sm_tracking_state s = TRACKING \<longrightarrow> sm_wrist_pose s \<noteq> None)
     \<and> (sm_tracking_state s \<in> {NOT_TRACKING, DISCONNECTED} \<longrightarrow> sm_wrist_pose s = None \<and> sm_palm_pose s = None)
     \<and> json_finite (JObj (sm_metadata s)) \<and> json_finite (JObj (sm_extensions s)) \<and> namespaced (sm_extensions s)"

section \<open>The checks decide well-formedness\<close>

lemma check_timestamp_iff: "check_timestamp t = Inr t' \<longleftrightarrow> t' = t \<and> timestamp_ok t"
  by (auto simp: check_timestamp_def timestamp_ok_def split: option.splits)

lemma umip_pose_iff:
  "umip_pose env ps qs = Inr p \<longleftrightarrow> umip_pose_ok env p \<and> ps = vec_list (position_m p) \<and> qs = quat_list (orientation_xyzw p)"
proof
  assume "umip_pose env ps qs = Inr p"
  then show "umip_pose_ok env p \<and> ps = vec_list (position_m p) \<and> qs = quat_list (orientation_xyzw p)"
    by (auto simp: umip_pose_def mk_pose6d_def umip_pose_ok_def split: list.splits sum.splits if_splits)
next
  assume "umip_pose_ok env p \<and> ps = vec_list (position_m p) \<and> qs = quat_list (orientation_xyzw p)"
  then show "umip_pose env ps qs = Inr p"
    by (cases "position_m p"; cases "orientation_xyzw p")
      (simp add: umip_pose_def mk_pose6d_def umip_pose_ok_def)
qed

lemma json_mapping_iff [simp]: "json_mapping m = Inr m' \<longleftrightarrow> m' = m \<and> json_finite (JObj m)"
  by (auto simp: json_mapping_def)

lemma check_device_iff: "check_device d = Inr d' \<longleftrightarrow> d' = d \<and> device_ok d"
  by (auto simp: check_device_def device_ok_def simp del: json_finite.simps)

lemma check_unit_interval_iff [simp]: "check_unit_interval v = Inr u \<longleftrightarrow> unit_ok v"
  by (auto simp: check_unit_interval_def number_ok_def)

lemma check_joint_iff: "check_joint j = Inr j' \<and> pred_option (umip_pose_ok env) (jn_pose j) \<longleftrightarrow> j' = j \<and> joint_ok env j"
  by (auto simp: check_joint_def joint_ok_def number_ok_def)

lemma check_gesture_iff: "check_gesture g = Inr g' \<longleftrightarrow> g' = g \<and> gesture_ok g"
  by (auto simp: check_gesture_def gesture_ok_def number_ok_def)

lemma check_articulation_iff:
  "list_all (joint_ok env) (ar_joints a) \<and> list_all gesture_ok (ar_gestures a) \<Longrightarrow>
   check_articulation a = Inr a' \<longleftrightarrow> a' = a \<and> articulation_ok env a"
  by (auto simp: check_articulation_def articulation_ok_def)

end
