(* ===== verification/UmipSerial.thy ===== *)
theory UmipSerial
  imports Umip
begin

text \<open>
  The JSON form of a sample, \<open>src/motion_input/serialization.py\<close>: the dictionaries of a sample and the reader of
  such a dictionary. The reader accepts any JSON value; its \<open>except\<close> clauses turn the errors of the conversions
  into \<open>UmSerialization\<close>, except those they do not name.
\<close>

section \<open>Conversions of JSON values\<close>

definition str_of :: "umip_env \<Rightarrow> jval \<Rightarrow> string" where
  "str_of env v = (case v of JStr s \<Rightarrow> s | _ \<Rightarrow> ue_str env v)"

definition bool_int :: "bool \<Rightarrow> int" where
  "bool_int b = (if b then 1 else 0)"

definition checked_int :: "pyfloat \<Rightarrow> (umip_error, int) res" where
  "checked_int f = (case py_int f of Inl OverflowError \<Rightarrow> Inl UmOverflow | Inl ValueErrorNaN \<Rightarrow> Inl UmValue | Inr n \<Rightarrow> Inr n)"

fun int_of :: "umip_env \<Rightarrow> jval \<Rightarrow> (umip_error, int) res" where
  "int_of env (JInt n) = Inr n"
| "int_of env (JBool b) = Inr (bool_int b)"
| "int_of env (JFloat f) = checked_int f"
| "int_of env (JStr s) = (case ue_int_text env s of None \<Rightarrow> Inl UmValue | Some n \<Rightarrow> Inr n)"
| "int_of env v = Inl UmType"

definition float_of_int_checked :: "int \<Rightarrow> (umip_error, pyfloat) res" where
  "float_of_int_checked n = (if is_finite (round64 (of_int n)) then Inr (round64 (of_int n)) else Inl UmOverflow)"

fun float_of :: "umip_env \<Rightarrow> jval \<Rightarrow> (umip_error, pyfloat) res" where
  "float_of env (JFloat f) = Inr f"
| "float_of env (JInt n) = float_of_int_checked n"
| "float_of env (JBool b) = Inr (Fin (of_int (bool_int b)))"
| "float_of env (JStr s) = (case ue_float_text env s of None \<Rightarrow> Inl UmValue | Some f \<Rightarrow> Inr f)"
| "float_of env v = Inl UmType"

text \<open>\<open>bool\<close> of a value, and the elements a \<open>for\<close> loop sees.\<close>

fun truthy :: "jval \<Rightarrow> bool" where
  "truthy JNull = False"
| "truthy (JBool b) = b"
| "truthy (JInt n) = (n \<noteq> 0)"
| "truthy (JFloat f) = (f \<noteq> Fin 0)"
| "truthy (JStr s) = (s \<noteq> [])"
| "truthy (JList xs) = (xs \<noteq> [])"
| "truthy (JObj m) = (m \<noteq> fmempty)"

fun elements :: "umip_env \<Rightarrow> jval \<Rightarrow> (umip_error, jval list) res" where
  "elements env (JList xs) = Inr xs"
| "elements env (JStr s) = Inr (map (\<lambda>c. JStr [c]) s)"
| "elements env (JObj m) = Inr (map JStr (ue_keys env m))"
| "elements env v = Inl UmType"

text \<open>\<open>value.get(key, default)\<close> and \<open>value[key]\<close> of a dict.\<close>

definition jget :: "jobject \<Rightarrow> string \<Rightarrow> jval \<Rightarrow> jval" where
  "jget m k d = (case fmlookup m k of None \<Rightarrow> d | Some v \<Rightarrow> v)"

definition jreq :: "jobject \<Rightarrow> string \<Rightarrow> (umip_error, jval) res" where
  "jreq m k = (case fmlookup m k of None \<Rightarrow> Inl UmKey | Some v \<Rightarrow> Inr v)"

fun mapping_of :: "jval \<Rightarrow> (umip_error, jobject) res" where
  "mapping_of (JObj m) = Inr m"
| "mapping_of v = Inl UmSerialization"

definition optional_str :: "umip_env \<Rightarrow> jval \<Rightarrow> string option" where
  "optional_str env v = (if v = JNull then None else Some (str_of env v))"

text \<open>\<open>except (KeyError, TypeError, ValueError)\<close>; every error of the package is a \<open>ValueError\<close>.\<close>

definition serialization_error :: "umip_error \<Rightarrow> umip_error" where
  "serialization_error e =
     (if e \<in> {UmProtocol, UmKey, UmType, UmValue, UmSerialization} then UmSerialization else e)"

definition as_serialization :: "(umip_error, 'a) res \<Rightarrow> (umip_error, 'a) res" where
  "as_serialization m = (case m of Inl e \<Rightarrow> Inl (serialization_error e) | Inr x \<Rightarrow> Inr x)"

lemma as_serialization_Inr [simp]: "as_serialization m = Inr x \<longleftrightarrow> m = Inr x"
  by (cases m) (simp_all add: as_serialization_def)

section \<open>Enumerations\<close>

fun tracking_name :: "tracking_state \<Rightarrow> string" where
  "tracking_name TRACKING = ''tracking''"
| "tracking_name LIMITED = ''limited''"
| "tracking_name NOT_TRACKING = ''not_tracking''"
| "tracking_name DISCONNECTED = ''disconnected''"

fun side_name :: "side \<Rightarrow> string" where
  "side_name LEFT = ''left''"
| "side_name RIGHT = ''right''"
| "side_name NO_SIDE = ''none''"

fun motion_name :: "motion_kind \<Rightarrow> string" where
  "motion_name MotionAbsolute = ''absolute_pose''"
| "motion_name MotionRelative = ''relative_pose_delta''"

text \<open>The enum member with a value, \<open>ValueError\<close> without one.\<close>

definition member :: "'a list \<Rightarrow> ('a \<Rightarrow> string) \<Rightarrow> string \<Rightarrow> (umip_error, 'a) res" where
  "member xs name s = (case find (\<lambda>x. name x = s) xs of None \<Rightarrow> Inl UmValue | Some x \<Rightarrow> Inr x)"

definition tracking_of_name :: "string \<Rightarrow> (umip_error, tracking_state) res" where
  "tracking_of_name = member [TRACKING, LIMITED, NOT_TRACKING, DISCONNECTED] tracking_name"

definition side_of_name :: "string \<Rightarrow> (umip_error, side) res" where
  "side_of_name = member [LEFT, RIGHT, NO_SIDE] side_name"

definition motion_of_name :: "string \<Rightarrow> (umip_error, motion_kind) res" where
  "motion_of_name = member [MotionAbsolute, MotionRelative] motion_name"

section \<open>Writing\<close>

definition opt_json :: "('a \<Rightarrow> jval) \<Rightarrow> 'a option \<Rightarrow> jval" where
  "opt_json f v = (case v of None \<Rightarrow> JNull | Some x \<Rightarrow> f x)"

definition timestamp_dict :: "umip_timestamp \<Rightarrow> jval" where
  "timestamp_dict t = JObj (fmap_of_list
     [(''nanoseconds'', JInt (tp_nanoseconds t)), (''clock_id'', JStr (tp_clock_id t)),
      (''uncertainty_ns'', opt_json JInt (tp_uncertainty_ns t))])"

definition pose_dict :: "pose6d \<Rightarrow> jval" where
  "pose_dict p = JObj (fmap_of_list
     [(''position_m'', JList (map JFloat (vec_list (position_m p)))),
      (''orientation_xyzw'', JList (map JFloat (quat_list (orientation_xyzw p))))])"

definition device_to_dict :: "umip_device \<Rightarrow> jval" where
  "device_to_dict d = JObj (fmap_of_list
     [(''device_id'', JStr (dv_device_id d)), (''device_type'', JStr (dv_device_type d)),
      (''manufacturer'', JStr (dv_manufacturer d)), (''model'', JStr (dv_model d)),
      (''serial_number'', opt_json JStr (dv_serial_number d)),
      (''firmware_version'', opt_json JStr (dv_firmware_version d)),
      (''software_version'', opt_json JStr (dv_software_version d)), (''metadata'', JObj (dv_metadata d))])"

definition joint_dict :: "umip_joint \<Rightarrow> jval" where
  "joint_dict j = JObj (fmap_of_list
     [(''name'', JStr (jn_name j)), (''pose'', opt_json pose_dict (jn_pose j)),
      (''tracking_state'', JStr (tracking_name (jn_tracking_state j))),
      (''confidence'', jn_confidence j), (''radius_m'', jn_radius_m j)])"

definition gesture_dict :: "umip_gesture \<Rightarrow> jval" where
  "gesture_dict g = JObj (fmap_of_list
     [(''name'', JStr (gs_name g)), (''active'', JBool (gs_active g)), (''confidence'', gs_confidence g),
      (''value'', gs_value g)])"

definition articulation_dict :: "umip_articulation \<Rightarrow> jval" where
  "articulation_dict a = JObj (fmap_of_list
     [(''joints'', JList (map joint_dict (ar_joints a))), (''gestures'', JList (map gesture_dict (ar_gestures a))),
      (''pinch_strength'', ar_pinch_strength a), (''grasp_strength'', ar_grasp_strength a),
      (''confidence'', ar_confidence a)])"

definition sample_to_dict :: "umip_sample \<Rightarrow> jval" where
  "sample_to_dict s = JObj (fmap_of_list
     [(''protocol_version'', JStr (sm_protocol_version s)), (''sample_id'', JStr (sm_sample_id s)),
      (''stream_id'', JStr (sm_stream_id s)), (''sequence_number'', JInt (sm_sequence_number s)),
      (''capture_timestamp'', timestamp_dict (sm_capture s)), (''receive_timestamp'', timestamp_dict (sm_receive s)),
      (''device_timestamp'', opt_json timestamp_dict (sm_device_time s)),
      (''processing_timestamp'', opt_json timestamp_dict (sm_processing s)),
      (''tracking_state'', JStr (tracking_name (sm_tracking_state s))),
      (''tracking_confidence'', sm_tracking_confidence s), (''coordinate_frame'', JStr (sm_coordinate_frame s)),
      (''device'', device_to_dict (sm_device s)), (''side'', JStr (side_name (sm_side s))),
      (''wrist_pose'', opt_json pose_dict (sm_wrist_pose s)), (''palm_pose'', opt_json pose_dict (sm_palm_pose s)),
      (''motion_kind'', JStr (motion_name (sm_motion_kind s))),
      (''articulation'', opt_json articulation_dict (sm_articulation s)),
      (''metadata'', JObj (sm_metadata s)), (''extensions'', JObj (sm_extensions s))])"

section \<open>Reading\<close>

definition timestamp_item :: "umip_env \<Rightarrow> jobject \<Rightarrow> (umip_error, umip_timestamp) res" where
  "timestamp_item env m =
     rbind (jreq m ''nanoseconds'') (\<lambda>n.
     rbind (int_of env n) (\<lambda>ns.
     rbind (jreq m ''clock_id'') (\<lambda>c.
     rbind (if jget m ''uncertainty_ns'' JNull = JNull then Inr None
            else rbind (int_of env (jget m ''uncertainty_ns'' JNull)) (\<lambda>u. Inr (Some u))) (\<lambda>u.
     check_timestamp \<lparr>tp_nanoseconds = ns, tp_clock_id = str_of env c, tp_uncertainty_ns = u\<rparr>))))"

definition timestamp_from_dict :: "umip_env \<Rightarrow> jval \<Rightarrow> (umip_error, umip_timestamp option) res" where
  "timestamp_from_dict env v =
     (if v = JNull then Inr None
      else rbind (mapping_of v) (\<lambda>m. rbind (timestamp_item env m) (\<lambda>t. Inr (Some t))))"

definition required_timestamp :: "umip_env \<Rightarrow> jval \<Rightarrow> (umip_error, umip_timestamp) res" where
  "required_timestamp env v =
     (if v = JNull then Inl UmSerialization else rbind (mapping_of v) (timestamp_item env))"

definition floats_of :: "umip_env \<Rightarrow> jobject \<Rightarrow> string \<Rightarrow> (umip_error, pyfloat list) res" where
  "floats_of env m k =
     rbind (jreq m k) (\<lambda>v. rbind (elements env v) (\<lambda>xs. rmap (float_of env) xs))"

definition pose_from_dict :: "umip_env \<Rightarrow> jval \<Rightarrow> (umip_error, pose6d option) res" where
  "pose_from_dict env v =
     (if v = JNull then Inr None
      else rbind (mapping_of v) (\<lambda>m.
           rbind (floats_of env m ''position_m'') (\<lambda>ps.
           rbind (floats_of env m ''orientation_xyzw'') (\<lambda>qs.
           rbind (umip_pose env ps qs) (\<lambda>p. Inr (Some p))))))"

definition joint_from_dict :: "umip_env \<Rightarrow> jval \<Rightarrow> (umip_error, umip_joint) res" where
  "joint_from_dict env v =
     rbind (mapping_of v) (\<lambda>m.
     rbind (jreq m ''name'') (\<lambda>n.
     rbind (pose_from_dict env (jget m ''pose'' JNull)) (\<lambda>p.
     rbind (jreq m ''tracking_state'') (\<lambda>t.
     rbind (tracking_of_name (str_of env t)) (\<lambda>state.
     check_joint \<lparr>jn_name = str_of env n, jn_pose = p, jn_tracking_state = state,
       jn_confidence = jget m ''confidence'' JNull, jn_radius_m = jget m ''radius_m'' JNull\<rparr>)))))"

definition gesture_from_dict :: "umip_env \<Rightarrow> jval \<Rightarrow> (umip_error, umip_gesture) res" where
  "gesture_from_dict env v =
     rbind (mapping_of v) (\<lambda>m.
     rbind (jreq m ''name'') (\<lambda>n.
     rbind (jreq m ''active'') (\<lambda>a.
     check_gesture \<lparr>gs_name = str_of env n, gs_active = truthy a, gs_confidence = jget m ''confidence'' JNull,
       gs_value = jget m ''value'' JNull\<rparr>)))"

definition articulation_from_dict :: "umip_env \<Rightarrow> jval \<Rightarrow> (umip_error, umip_articulation option) res" where
  "articulation_from_dict env v =
     (if v = JNull then Inr None
      else rbind (mapping_of v) (\<lambda>m.
           rbind (elements env (jget m ''joints'' (JList []))) (\<lambda>js.
           rbind (rmap (joint_from_dict env) js) (\<lambda>joints.
           rbind (elements env (jget m ''gestures'' (JList []))) (\<lambda>gs.
           rbind (rmap (gesture_from_dict env) gs) (\<lambda>gestures.
           rbind (check_articulation \<lparr>ar_joints = joints, ar_gestures = gestures,
             ar_pinch_strength = jget m ''pinch_strength'' JNull, ar_grasp_strength = jget m ''grasp_strength'' JNull,
             ar_confidence = jget m ''confidence'' JNull\<rparr>) (\<lambda>a. Inr (Some a))))))))"

definition device_fields :: "umip_env \<Rightarrow> jobject \<Rightarrow> (umip_error, umip_device) res" where
  "device_fields env m =
     rbind (jreq m ''device_id'') (\<lambda>i.
     rbind (jreq m ''device_type'') (\<lambda>t.
     rbind (jreq m ''manufacturer'') (\<lambda>mf.
     rbind (jreq m ''model'') (\<lambda>md.
     rbind (mapping_of (jget m ''metadata'' (JObj fmempty))) (\<lambda>meta.
     check_device \<lparr>dv_device_id = str_of env i, dv_device_type = str_of env t, dv_manufacturer = str_of env mf,
       dv_model = str_of env md, dv_serial_number = optional_str env (jget m ''serial_number'' JNull),
       dv_firmware_version = optional_str env (jget m ''firmware_version'' JNull),
       dv_software_version = optional_str env (jget m ''software_version'' JNull), dv_metadata = meta\<rparr>)))))"

text \<open>On a value that is no dict the subscript of the first field raises a \<open>TypeError\<close>.\<close>

definition device_from_dict :: "umip_env \<Rightarrow> jval \<Rightarrow> (umip_error, umip_device) res" where
  "device_from_dict env v = as_serialization (case v of JObj m \<Rightarrow> device_fields env m | _ \<Rightarrow> Inl UmType)"

definition major_version :: "string \<Rightarrow> string" where
  "major_version v = takeWhile (\<lambda>c. c \<noteq> CHR ''.'') v"

text \<open>The two halves of the constructor call: the fields up to the device, and the rest.\<close>

definition sample_rest :: "umip_env \<Rightarrow> jobject \<Rightarrow> umip_sample \<Rightarrow> (umip_error, umip_sample) res" where
  "sample_rest env m s0 =
     rbind (jreq m ''device'') (\<lambda>dv.
     rbind (mapping_of dv) (\<lambda>dm.
     rbind (device_from_dict env (JObj dm)) (\<lambda>device.
     rbind (jreq m ''side'') (\<lambda>sd.
     rbind (side_of_name (str_of env sd)) (\<lambda>side.
     rbind (pose_from_dict env (jget m ''wrist_pose'' JNull)) (\<lambda>wrist.
     rbind (pose_from_dict env (jget m ''palm_pose'' JNull)) (\<lambda>palm.
     rbind (motion_of_name (str_of env (jget m ''motion_kind'' (JStr ''absolute_pose'')))) (\<lambda>kind.
     rbind (mapping_of (jget m ''metadata'' (JObj fmempty))) (\<lambda>meta.
     rbind (mapping_of (jget m ''extensions'' (JObj fmempty))) (\<lambda>ext.
     check_umip_sample (s0\<lparr>sm_device := device, sm_side := side, sm_wrist_pose := wrist, sm_palm_pose := palm,
       sm_motion_kind := kind, sm_metadata := meta, sm_extensions := ext\<rparr>)))))))))))"

definition blank_device :: umip_device where
  "blank_device = \<lparr>dv_device_id = [], dv_device_type = [], dv_manufacturer = [], dv_model = [],
     dv_serial_number = None, dv_firmware_version = None, dv_software_version = None, dv_metadata = fmempty\<rparr>"

definition sample_fields :: "umip_env \<Rightarrow> jobject \<Rightarrow> (umip_error, umip_sample) res" where
  "sample_fields env m =
     (let version = str_of env (jget m ''protocol_version'' (JStr umip_version)) in
     if major_version version \<noteq> major_version umip_version then Inl UmSerialization
     else
     rbind (articulation_from_dict env (jget m ''articulation'' JNull)) (\<lambda>articulation.
     rbind (jreq m ''sample_id'') (\<lambda>i.
     rbind (jreq m ''stream_id'') (\<lambda>st.
     rbind (jreq m ''sequence_number'') (\<lambda>q.
     rbind (int_of env q) (\<lambda>sequence.
     rbind (jreq m ''capture_timestamp'') (\<lambda>ct.
     rbind (required_timestamp env ct) (\<lambda>capture.
     rbind (jreq m ''receive_timestamp'') (\<lambda>rt.
     rbind (required_timestamp env rt) (\<lambda>receive.
     rbind (timestamp_from_dict env (jget m ''device_timestamp'' JNull)) (\<lambda>device_time.
     rbind (timestamp_from_dict env (jget m ''processing_timestamp'' JNull)) (\<lambda>processing.
     rbind (jreq m ''tracking_state'') (\<lambda>t.
     rbind (tracking_of_name (str_of env t)) (\<lambda>state.
     rbind (jreq m ''coordinate_frame'') (\<lambda>fr.
     sample_rest env m
       \<lparr>sm_sample_id = str_of env i, sm_stream_id = str_of env st, sm_sequence_number = sequence,
        sm_capture = capture, sm_receive = receive, sm_device_time = device_time, sm_processing = processing,
        sm_tracking_state = state, sm_tracking_confidence = jget m ''tracking_confidence'' JNull,
        sm_coordinate_frame = str_of env fr, sm_device = blank_device, sm_side = NO_SIDE, sm_wrist_pose = None,
        sm_palm_pose = None, sm_motion_kind = MotionAbsolute, sm_articulation = articulation,
        sm_metadata = fmempty, sm_extensions = fmempty, sm_protocol_version = version\<rparr>)))))))))))))))"

text \<open>A value that is no dict has no \<open>get\<close>: an \<open>AttributeError\<close>, which no clause names.\<close>

definition sample_from_dict :: "umip_env \<Rightarrow> jval \<Rightarrow> (umip_error, umip_sample) res" where
  "sample_from_dict env v =
     (case v of JObj m \<Rightarrow> as_serialization (sample_fields env m) | _ \<Rightarrow> Inl UmAttribute)"

text \<open>\<open>json.dumps\<close> (\<open>None\<close> when it raises) and \<open>json.loads\<close> are arguments.\<close>

definition dumps_sample :: "(jval \<Rightarrow> string option) \<Rightarrow> umip_sample \<Rightarrow> (umip_error, string) res" where
  "dumps_sample dumps s = (case dumps (sample_to_dict s) of None \<Rightarrow> Inl UmValue | Some t \<Rightarrow> Inr t)"

definition loads_sample :: "umip_env \<Rightarrow> (string \<Rightarrow> jval option) \<Rightarrow> string \<Rightarrow> (umip_error, umip_sample) res" where
  "loads_sample env loads t =
     (case loads t of
        None \<Rightarrow> Inl UmSerialization
      | Some v \<Rightarrow> rbind (mapping_of v) (\<lambda>m. sample_from_dict env (JObj m)))"

end
