(* ===== verification/UmipRoundtrip.thy ===== *)
theory UmipRoundtrip
  imports UmipSerial
begin

text \<open>
  What the reader and the writer of \<open>src/motion_input/serialization.py\<close> guarantee: whatever JSON value is read, an
  accepted sample is well typed down to its joints, and a well-typed sample read back from its dictionary is the same.
\<close>

section \<open>Only well-typed values are read\<close>

lemma timestamp_item_ok: "timestamp_item env m = Inr t \<Longrightarrow> timestamp_ok t"
  by (auto simp: timestamp_item_def check_timestamp_iff)

lemma timestamp_from_dict_ok: "timestamp_from_dict env v = Inr t \<Longrightarrow> pred_option timestamp_ok t"
  by (auto simp: timestamp_from_dict_def timestamp_item_ok split: if_splits)

lemma required_timestamp_ok: "required_timestamp env v = Inr t \<Longrightarrow> timestamp_ok t"
  by (auto simp: required_timestamp_def timestamp_item_ok split: if_splits)

lemma pose_from_dict_ok: "pose_from_dict env v = Inr p \<Longrightarrow> pred_option (umip_pose_ok env) p"
  by (auto simp: pose_from_dict_def umip_pose_iff split: if_splits)

lemma joint_from_dict_ok: "joint_from_dict env v = Inr j \<Longrightarrow> joint_ok env j"
  using check_joint_iff[of _ j env] pose_from_dict_ok[of env]
  by (fastforce simp: joint_from_dict_def check_joint_def)

lemma gesture_from_dict_ok: "gesture_from_dict env v = Inr g \<Longrightarrow> gesture_ok g"
  by (auto simp: gesture_from_dict_def check_gesture_iff)

lemma articulation_from_dict_ok:
  assumes "articulation_from_dict env v = Inr a"
  shows "pred_option (articulation_ok env) a"
proof (cases "v = JNull")
  case False
  with assms obtain js gs joints gestures x where r: "rmap (joint_from_dict env) js = Inr joints"
      "rmap (gesture_from_dict env) gs = Inr gestures" and a: "a = Some x"
      and x: "check_articulation x = Inr x" "ar_joints x = joints" "ar_gestures x = gestures"
    by (auto simp: articulation_from_dict_def check_articulation_def)
  have "list_all (joint_ok env) joints" "list_all gesture_ok gestures"
    using rmap_Inr_set[OF r(1)] rmap_Inr_set[OF r(2)]
    by (auto simp: list_all_iff dest!: joint_from_dict_ok gesture_from_dict_ok)
  with x have "articulation_ok env x" using check_articulation_iff[of env x x] by simp
  with a show ?thesis by simp
qed (use assms in \<open>simp add: articulation_from_dict_def\<close>)

lemma device_from_dict_ok: "device_from_dict env v = Inr d \<Longrightarrow> device_ok d"
  by (auto simp: device_from_dict_def device_fields_def check_device_iff split: jval.splits)

text \<open>What is known before the final check.\<close>

definition sample_parts_ok :: "umip_env \<Rightarrow> umip_sample \<Rightarrow> bool" where
  "sample_parts_ok env s \<longleftrightarrow> timestamp_ok (sm_capture s) \<and> timestamp_ok (sm_receive s)
     \<and> pred_option timestamp_ok (sm_device_time s) \<and> pred_option timestamp_ok (sm_processing s)
     \<and> pred_option (articulation_ok env) (sm_articulation s)"

lemma check_umip_sample_iff:
  assumes "sample_parts_ok env s" "device_ok (sm_device s)" "pred_option (umip_pose_ok env) (sm_wrist_pose s)"
    "pred_option (umip_pose_ok env) (sm_palm_pose s)"
  shows "check_umip_sample s = Inr s' \<longleftrightarrow> s' = s \<and> umip_sample_ok env s"
  using assms by (auto simp: check_umip_sample_def umip_sample_ok_def sample_parts_ok_def simp del: json_finite.simps)

lemma sample_rest_ok:
  assumes "sample_rest env m s0 = Inr s" and "sample_parts_ok env s0"
  shows "umip_sample_ok env s"
proof -
  from assms(1) obtain dm device side wrist palm kind meta ext where
    d: "device_from_dict env dm = Inr device" and w: "pose_from_dict env (jget m ''wrist_pose'' JNull) = Inr wrist"
    and p: "pose_from_dict env (jget m ''palm_pose'' JNull) = Inr palm"
    and c: "check_umip_sample (s0\<lparr>sm_device := device, sm_side := side, sm_wrist_pose := wrist, sm_palm_pose := palm,
       sm_motion_kind := kind, sm_metadata := meta, sm_extensions := ext\<rparr>) = Inr s"
    by (auto simp: sample_rest_def)
  from c check_umip_sample_iff[of env "s0\<lparr>sm_device := device, sm_side := side, sm_wrist_pose := wrist, sm_palm_pose := palm,
       sm_motion_kind := kind, sm_metadata := meta, sm_extensions := ext\<rparr>" s]
    device_from_dict_ok[OF d] pose_from_dict_ok[OF w] pose_from_dict_ok[OF p] assms(2)
  show ?thesis by (simp add: sample_parts_ok_def)
qed

lemma sample_fields_ok: "sample_fields env m = Inr s \<Longrightarrow> umip_sample_ok env s"
  by (auto simp: sample_fields_def Let_def sample_parts_ok_def required_timestamp_ok timestamp_from_dict_ok
      articulation_from_dict_ok elim!: sample_rest_ok split: if_splits)

section \<open>Reading what was written\<close>

lemma jreq_upd [simp]: "jreq (fmupd k v m) k' = (if k = k' then Inr v else jreq m k')"
  by (simp add: jreq_def)

lemma jget_upd [simp]: "jget (fmupd k v m) k' d = (if k = k' then v else jget m k' d)"
  by (simp add: jget_def)

lemma tracking_member [simp]: "tracking_of_name (tracking_name t) = Inr t"
  by (cases t) (simp_all add: tracking_of_name_def member_def)

lemma side_member [simp]: "side_of_name (side_name s) = Inr s"
  by (cases s) (simp_all add: side_of_name_def member_def)

lemma motion_member [simp]: "motion_of_name (motion_name k) = Inr k"
  by (cases k) (simp_all add: motion_of_name_def member_def)

lemma str_of_JStr [simp]: "str_of env (JStr s) = s"
  by (simp add: str_of_def)

lemma rmap_all: "(\<And>x. x \<in> set xs \<Longrightarrow> f (g x) = Inr x) \<Longrightarrow> rmap f (map g xs) = Inr xs"
  by (induction xs) auto

lemma optional_str_json [simp]: "optional_str env (opt_json JStr v) = v"
  by (cases v) (simp_all add: optional_str_def opt_json_def)

lemma timestamp_read: "timestamp_ok t \<Longrightarrow> \<exists>m. timestamp_dict t = JObj m \<and> timestamp_item env m = Inr t"
  by (cases t; cases "tp_uncertainty_ns t") (auto simp: timestamp_dict_def timestamp_item_def opt_json_def check_timestamp_iff)

lemma required_timestamp_read [simp]: "timestamp_ok t \<Longrightarrow> required_timestamp env (timestamp_dict t) = Inr t"
  using timestamp_read[of t env] by (auto simp: required_timestamp_def)

lemma timestamp_from_read [simp]:
  "pred_option timestamp_ok t \<Longrightarrow> timestamp_from_dict env (opt_json timestamp_dict t) = Inr t"
  using timestamp_read[of "the t" env] by (cases t) (auto simp: timestamp_from_dict_def opt_json_def)

lemma floats_read [simp]: "rmap (float_of env) (map JFloat fs) = Inr fs"
  by (rule rmap_all) simp

lemma pose_from_read [simp]:
  "pred_option (umip_pose_ok env) p \<Longrightarrow> pose_from_dict env (opt_json pose_dict p) = Inr p"
  using umip_pose_iff[of env "vec_list (position_m (the p))" "quat_list (orientation_xyzw (the p))" "the p"]
  by (cases p) (simp_all add: pose_from_dict_def opt_json_def pose_dict_def floats_of_def)

lemma joint_read [simp]: "joint_ok env j \<Longrightarrow> joint_from_dict env (joint_dict j) = Inr j"
  using check_joint_iff[of j j env] by (cases j) (simp add: joint_from_dict_def joint_dict_def joint_ok_def)

lemma gesture_read [simp]: "gesture_ok g \<Longrightarrow> gesture_from_dict env (gesture_dict g) = Inr g"
  by (cases g) (simp add: gesture_from_dict_def gesture_dict_def check_gesture_iff)

lemma articulation_read [simp]:
  assumes "pred_option (articulation_ok env) a"
  shows "articulation_from_dict env (opt_json articulation_dict a) = Inr a"
proof (cases a)
  case (Some x)
  with assms have x: "articulation_ok env x" by simp
  have "check_articulation x = Inr x" using check_articulation_iff[of env x x] x by (simp add: articulation_ok_def)
  moreover have "rmap (joint_from_dict env) (map joint_dict (ar_joints x)) = Inr (ar_joints x)"
    "rmap (gesture_from_dict env) (map gesture_dict (ar_gestures x)) = Inr (ar_gestures x)"
    using x by (auto intro!: rmap_all simp: articulation_ok_def list_all_iff)
  ultimately show ?thesis using Some
    by (cases x) (simp add: articulation_from_dict_def opt_json_def articulation_dict_def)
qed (simp add: articulation_from_dict_def opt_json_def)

lemma device_read: "device_ok d \<Longrightarrow> \<exists>m. device_to_dict d = JObj m \<and> device_from_dict env (JObj m) = Inr d"
  by (cases d) (simp add: device_to_dict_def device_from_dict_def device_fields_def check_device_iff)

text \<open>The major version of a well-formed version is the text before its only dot.\<close>

lemma sample_rest_read:
  assumes ok: "umip_sample_ok env s" and m: "sample_to_dict s = JObj m"
    and s0: "s0 = s\<lparr>sm_device := d0, sm_side := NO_SIDE, sm_wrist_pose := None, sm_palm_pose := None,
      sm_motion_kind := MotionAbsolute, sm_metadata := fmempty, sm_extensions := fmempty\<rparr>"
  shows "sample_rest env m s0 = Inr s"
proof -
  obtain dm where dm: "device_to_dict (sm_device s) = JObj dm" "device_from_dict env (JObj dm) = Inr (sm_device s)"
    using device_read[of "sm_device s" env] ok by (auto simp: umip_sample_ok_def)
  have parts: "sample_parts_ok env s" "device_ok (sm_device s)" "pred_option (umip_pose_ok env) (sm_wrist_pose s)"
    "pred_option (umip_pose_ok env) (sm_palm_pose s)"
    using ok by (simp_all add: umip_sample_ok_def sample_parts_ok_def)
  have whole: "s0\<lparr>sm_device := sm_device s, sm_side := sm_side s, sm_wrist_pose := sm_wrist_pose s,
      sm_palm_pose := sm_palm_pose s, sm_motion_kind := sm_motion_kind s, sm_metadata := sm_metadata s,
      sm_extensions := sm_extensions s\<rparr> = s"
    using s0 by simp
  have "check_umip_sample s = Inr s" using check_umip_sample_iff[OF parts] ok by simp
  then show ?thesis
    using m[symmetric] dm parts(3,4) whole by (simp add: sample_rest_def sample_to_dict_def)
qed

lemma sample_fields_read:
  assumes ok: "umip_sample_ok env s" and m: "sample_to_dict s = JObj m"
    and v: "major_version (sm_protocol_version s) = major_version umip_version"
  shows "sample_fields env m = Inr s"
proof -
  let ?s0 = "s\<lparr>sm_device := blank_device, sm_side := NO_SIDE, sm_wrist_pose := None, sm_palm_pose := None,
      sm_motion_kind := MotionAbsolute, sm_metadata := fmempty, sm_extensions := fmempty\<rparr>"
  have rest: "sample_rest env m ?s0 = Inr s" by (rule sample_rest_read[OF ok m refl])
  have parts: "timestamp_ok (sm_capture s)" "timestamp_ok (sm_receive s)"
    "pred_option timestamp_ok (sm_device_time s)" "pred_option timestamp_ok (sm_processing s)"
    "pred_option (articulation_ok env) (sm_articulation s)"
    using ok by (simp_all add: umip_sample_ok_def)
  have s0: "?s0 = \<lparr>sm_sample_id = sm_sample_id s, sm_stream_id = sm_stream_id s,
      sm_sequence_number = sm_sequence_number s, sm_capture = sm_capture s, sm_receive = sm_receive s,
      sm_device_time = sm_device_time s, sm_processing = sm_processing s, sm_tracking_state = sm_tracking_state s,
      sm_tracking_confidence = sm_tracking_confidence s, sm_coordinate_frame = sm_coordinate_frame s,
      sm_device = blank_device, sm_side = NO_SIDE, sm_wrist_pose = None, sm_palm_pose = None,
      sm_motion_kind = MotionAbsolute, sm_articulation = sm_articulation s, sm_metadata = fmempty,
      sm_extensions = fmempty, sm_protocol_version = sm_protocol_version s\<rparr>"
    by (cases s) simp
  show ?thesis
    using m[symmetric] parts v rest[unfolded s0]
    by (simp add: sample_fields_def sample_to_dict_def Let_def)
qed

end
