(* ===== verification/UmipRecording.thy ===== *)
theory UmipRecording
  imports UmipRoundtrip
begin

text \<open>
  The line-based recordings of samples, \<open>src/motion_input/recording.py\<close>. A file is the list of its lines; the text of
  a JSON value is written by \<open>dumps\<close> (\<open>None\<close> when \<open>json.dumps\<close> raises) and read by \<open>loads\<close>, arguments of the model.
  The reader is a generator: the samples it yields before it ends or raises, and the state of its object.
\<close>

section \<open>The writer\<close>

record rec_header =
  rh_format_version :: string
  rh_umip_version :: string
  rh_recording_id :: string
  rh_created_ns :: int
  rh_device :: umip_device
  rh_metadata :: jobject

record rec_writer =
  rw_header :: rec_header
  rw_handle :: bool
  rw_lines :: "string list"
  rw_sample_count :: int

definition mk_rec_writer :: "string \<Rightarrow> int \<Rightarrow> umip_device \<Rightarrow> jobject \<Rightarrow> (umip_error, rec_writer) res" where
  "mk_rec_writer recording_id created_ns device metadata =
     (if blank recording_id then Inl UmValue
      else Inr \<lparr>rw_header = \<lparr>rh_format_version = ''1.0'', rh_umip_version = umip_version,
                   rh_recording_id = recording_id, rh_created_ns = created_ns, rh_device = device,
                   rh_metadata = metadata\<rparr>,
                rw_handle = False, rw_lines = [], rw_sample_count = 0\<rparr>)"

definition write_record :: "(jval \<Rightarrow> string option) \<Rightarrow> rec_writer \<Rightarrow> jval \<Rightarrow> rec_writer \<times> (umip_error, unit) res" where
  "write_record dumps w r =
     (case dumps r of None \<Rightarrow> (w, Inl UmValue) | Some t \<Rightarrow> (w\<lparr>rw_lines := rw_lines w @ [t]\<rparr>, Inr ()))"

definition header_record :: "rec_header \<Rightarrow> jval" where
  "header_record h = JObj (fmap_of_list
     [(''record_type'', JStr ''header''), (''format_version'', JStr (rh_format_version h)),
      (''umip_version'', JStr (rh_umip_version h)), (''recording_id'', JStr (rh_recording_id h)),
      (''created_timestamp_ns'', JInt (rh_created_ns h)), (''device'', device_to_dict (rh_device h)),
      (''metadata'', JObj (rh_metadata h))])"

definition sample_record :: "umip_sample \<Rightarrow> jval" where
  "sample_record s = JObj (fmap_of_list [(''record_type'', JStr ''sample''), (''sample'', sample_to_dict s)])"

definition footer_record :: "int \<Rightarrow> int \<Rightarrow> jval" where
  "footer_record count closed_ns = JObj (fmap_of_list
     [(''record_type'', JStr ''footer''), (''sample_count'', JInt count), (''closed_timestamp_ns'', JInt closed_ns)])"

text \<open>\<open>open\<close>: the exclusive creation of the file truncates nothing, it fails when the file exists.\<close>

definition rw_open :: "(jval \<Rightarrow> string option) \<Rightarrow> rec_writer \<Rightarrow> bool \<Rightarrow> rec_writer \<times> (umip_error, unit) res" where
  "rw_open dumps w exists =
     (if rw_handle w then (w, Inl UmState)
      else if exists then (w, Inl UmExists)
      else write_record dumps (w\<lparr>rw_handle := True, rw_lines := []\<rparr>) (header_record (rw_header w)))"

definition rw_write :: "(jval \<Rightarrow> string option) \<Rightarrow> rec_writer \<Rightarrow> umip_sample \<Rightarrow> rec_writer \<times> (umip_error, unit) res" where
  "rw_write dumps w s =
     (if \<not> rw_handle w then (w, Inl UmState)
      else case write_record dumps w (sample_record s) of
             (w', Inl e) \<Rightarrow> (w', Inl e)
           | (w', Inr u) \<Rightarrow> (w'\<lparr>rw_sample_count := rw_sample_count w' + 1\<rparr>, Inr ()))"

definition rw_close :: "(jval \<Rightarrow> string option) \<Rightarrow> rec_writer \<Rightarrow> int \<Rightarrow> rec_writer \<times> (umip_error, unit) res" where
  "rw_close dumps w closed_ns =
     (if \<not> rw_handle w then (w, Inr ())
      else case write_record dumps w (footer_record (rw_sample_count w) closed_ns) of
             (w', r) \<Rightarrow> (w'\<lparr>rw_handle := False\<rparr>, r))"

section \<open>The reader\<close>

record rec_reader =
  rr_header :: "rec_header option"
  rr_footer :: "int option"
  rr_observed :: int

definition dict_of :: "umip_env \<Rightarrow> jval \<Rightarrow> (umip_error, jobject) res" where
  "dict_of env v =
     (case v of JObj m \<Rightarrow> Inr m | JStr s \<Rightarrow> ue_pairs env v | JList xs \<Rightarrow> ue_pairs env v | _ \<Rightarrow> Inl UmType)"

definition parse_rec_header :: "umip_env \<Rightarrow> jobject \<Rightarrow> (umip_error, rec_header) res" where
  "parse_rec_header env m = as_serialization (
     rbind (jreq m ''format_version'') (\<lambda>v.
     if major_version (str_of env v) \<noteq> major_version ''1.0'' then Inl UmSerialization
     else
     rbind (jreq m ''umip_version'') (\<lambda>uv.
     rbind (jreq m ''recording_id'') (\<lambda>i.
     rbind (jreq m ''created_timestamp_ns'') (\<lambda>c.
     rbind (int_of env c) (\<lambda>created.
     rbind (jreq m ''device'') (\<lambda>d.
     rbind (device_from_dict env d) (\<lambda>device.
     rbind (dict_of env (jget m ''metadata'' (JObj fmempty))) (\<lambda>meta.
     Inr \<lparr>rh_format_version = str_of env v, rh_umip_version = str_of env uv, rh_recording_id = str_of env i,
          rh_created_ns = created, rh_device = device, rh_metadata = meta\<rparr>)))))))))"

text \<open>One record: the new state and perhaps a sample.\<close>

definition read_sample :: "umip_env \<Rightarrow> jobject \<Rightarrow> (umip_error, umip_sample) res" where
  "read_sample env m =
     (case jreq m ''sample'' of Inl e \<Rightarrow> Inl UmSerialization | Inr v \<Rightarrow> sample_from_dict env v)"

definition read_record ::
  "umip_env \<Rightarrow> rec_reader \<Rightarrow> jobject \<Rightarrow> (umip_error, rec_reader \<times> umip_sample option) res" where
  "read_record env r m =
     (let kind = jget m ''record_type'' JNull in
      if kind = JStr ''header'' then
        (if rr_header r \<noteq> None then Inl UmSerialization
         else rbind (parse_rec_header env m) (\<lambda>h. Inr (r\<lparr>rr_header := Some h\<rparr>, None)))
      else if kind = JStr ''sample'' then
        (if rr_header r = None then Inl UmSerialization
         else rbind (read_sample env m) (\<lambda>s. Inr (r\<lparr>rr_observed := rr_observed r + 1\<rparr>, Some s)))
      else if kind = JStr ''footer'' then
        rbind (jreq m ''sample_count'') (\<lambda>v. rbind (int_of env v) (\<lambda>n. Inr (r\<lparr>rr_footer := Some n\<rparr>, None)))
      else Inr (r, None))"

definition read_line ::
  "umip_env \<Rightarrow> (string \<Rightarrow> jval option) \<Rightarrow> rec_reader \<Rightarrow> string \<Rightarrow> (umip_error, rec_reader \<times> umip_sample option) res" where
  "read_line env loads r line =
     (if blank line then Inr (r, None)
      else case loads line of
        None \<Rightarrow> Inl UmSerialization
      | Some v \<Rightarrow> (case v of JObj m \<Rightarrow> read_record env r m | _ \<Rightarrow> Inl UmSerialization))"

definition read_end :: "rec_reader \<Rightarrow> (umip_error, unit) res" where
  "read_end r =
     (if rr_header r = None then Inl UmSerialization
      else if rr_footer r \<noteq> None \<and> rr_footer r \<noteq> Some (rr_observed r) then Inl UmSerialization
      else Inr ())"

fun read_lines ::
  "umip_env \<Rightarrow> (string \<Rightarrow> jval option) \<Rightarrow> rec_reader \<Rightarrow> string list \<Rightarrow>
   umip_sample list \<times> rec_reader \<times> (umip_error, unit) res" where
  "read_lines env loads r [] = ([], r, read_end r)"
| "read_lines env loads r (l # ls) =
     (case read_line env loads r l of
        Inl e \<Rightarrow> ([], r, Inl e)
      | Inr (r', y) \<Rightarrow>
          (case read_lines env loads r' ls of
             (ys, r'', e) \<Rightarrow> ((case y of None \<Rightarrow> ys | Some s \<Rightarrow> s # ys), r'', e)))"

definition new_reader :: rec_reader where
  "new_reader = \<lparr>rr_header = None, rr_footer = None, rr_observed = 0\<rparr>"

definition read_recording ::
  "umip_env \<Rightarrow> (string \<Rightarrow> jval option) \<Rightarrow> string list \<Rightarrow> umip_sample list \<times> rec_reader \<times> (umip_error, unit) res" where
  "read_recording env loads lines = read_lines env loads new_reader lines"

text \<open>\<open>read_header\<close> runs the generator up to its first sample: every line before it is read, and its own.\<close>

fun read_until_sample ::
  "umip_env \<Rightarrow> (string \<Rightarrow> jval option) \<Rightarrow> rec_reader \<Rightarrow> string list \<Rightarrow> (umip_error, rec_reader) res" where
  "read_until_sample env loads r [] = rbind (read_end r) (\<lambda>_. Inr r)"
| "read_until_sample env loads r (l # ls) =
     rbind (read_line env loads r l) (\<lambda>(r', y).
     case y of Some s \<Rightarrow> Inr r' | None \<Rightarrow> read_until_sample env loads r' ls)"

definition read_header :: "umip_env \<Rightarrow> (string \<Rightarrow> jval option) \<Rightarrow> string list \<Rightarrow> (umip_error, rec_header) res" where
  "read_header env loads lines =
     rbind (read_until_sample env loads new_reader lines) (\<lambda>r.
     case rr_header r of None \<Rightarrow> Inl UmSerialization | Some h \<Rightarrow> Inr h)"

section \<open>What a writer has written\<close>

text \<open>What \<open>json\<close> documents of its text: what was written is read back, and is not an empty line.\<close>

definition json_codec :: "(jval \<Rightarrow> string option) \<Rightarrow> (string \<Rightarrow> jval option) \<Rightarrow> bool" where
  "json_codec dumps loads \<longleftrightarrow> (\<forall>r t. dumps r = Some t \<longrightarrow> loads t = Some r \<and> \<not> blank t)"

fun rw_write_all ::
  "(jval \<Rightarrow> string option) \<Rightarrow> rec_writer \<Rightarrow> umip_sample list \<Rightarrow> rec_writer \<times> (umip_error, unit) res" where
  "rw_write_all dumps w [] = (w, Inr ())"
| "rw_write_all dumps w (s # ss) =
     (case rw_write dumps w s of (w', Inl e) \<Rightarrow> (w', Inl e) | (w', Inr u) \<Rightarrow> rw_write_all dumps w' ss)"

text \<open>A whole recording session.\<close>

definition record_session ::
  "(jval \<Rightarrow> string option) \<Rightarrow> rec_writer \<Rightarrow> umip_sample list \<Rightarrow> int \<Rightarrow> rec_writer \<times> (umip_error, unit) res" where
  "record_session dumps w ss closed_ns =
     (case rw_open dumps w False of
        (w1, Inl e) \<Rightarrow> (w1, Inl e)
      | (w1, Inr u1) \<Rightarrow>
          (case rw_write_all dumps w1 ss of
             (w2, Inl e) \<Rightarrow> (w2, Inl e)
           | (w2, Inr u2) \<Rightarrow> rw_close dumps w2 closed_ns))"

lemma rw_write_all_lines:
  assumes "rw_write_all dumps w ss = (w', Inr u)" and "rw_handle w"
  shows "\<exists>ts. rw_lines w' = rw_lines w @ ts \<and> map Some ts = map (\<lambda>s. dumps (sample_record s)) ss
    \<and> rw_handle w' \<and> rw_sample_count w' = rw_sample_count w + int (length ss)"
  using assms
proof (induction ss arbitrary: w)
  case (Cons s ss)
  from Cons.prems obtain t where t: "dumps (sample_record s) = Some t"
    and run: "rw_write_all dumps (w\<lparr>rw_lines := rw_lines w @ [t], rw_sample_count := rw_sample_count w + 1\<rparr>) ss = (w', Inr u)"
    by (auto simp: rw_write_def write_record_def split: option.splits)
  from Cons.IH[OF run] Cons.prems(2) obtain ts where
    "rw_lines w' = (rw_lines w @ [t]) @ ts" "map Some ts = map (\<lambda>s. dumps (sample_record s)) ss"
    "rw_handle w'" "rw_sample_count w' = rw_sample_count w + 1 + int (length ss)" by auto
  with t show ?case by (intro exI[of _ "t # ts"]) simp
qed simp

lemma record_session_lines:
  assumes "record_session dumps w ss closed_ns = (w', Inr u)" and "rw_sample_count w = 0"
  shows "\<exists>h ts f. rw_lines w' = h # ts @ [f] \<and> dumps (header_record (rw_header w)) = Some h
    \<and> map Some ts = map (\<lambda>s. dumps (sample_record s)) ss
    \<and> dumps (footer_record (int (length ss)) closed_ns) = Some f"
proof -
  from assms(1) obtain w1 w2 u1 u2 where o: "rw_open dumps w False = (w1, Inr u1)"
    and a: "rw_write_all dumps w1 ss = (w2, Inr u2)" and c: "rw_close dumps w2 closed_ns = (w', Inr u)"
    by (auto simp: record_session_def split: prod.splits sum.splits)
  from o obtain h where h: "dumps (header_record (rw_header w)) = Some h" "rw_lines w1 = [h]" "rw_handle w1"
    "rw_sample_count w1 = 0"
    using assms(2) by (auto simp: rw_open_def write_record_def split: if_splits option.splits)
  from rw_write_all_lines[OF a h(3)] h obtain ts where ts: "rw_lines w2 = h # ts"
    "map Some ts = map (\<lambda>s. dumps (sample_record s)) ss" "rw_handle w2" "rw_sample_count w2 = int (length ss)" by auto
  with c h(1) show ?thesis by (auto simp: rw_close_def write_record_def split: option.splits)
qed

section \<open>Reading a prefix\<close>

lemma sample_read:
  assumes "umip_sample_ok env s" "major_version (sm_protocol_version s) = major_version umip_version"
  shows "sample_from_dict env (sample_to_dict s) = Inr s"
proof -
  obtain m where m: "sample_to_dict s = JObj m" by (simp add: sample_to_dict_def)
  from sample_fields_read[OF assms(1) m assms(2)] m show ?thesis
    by (simp add: sample_from_dict_def as_serialization_def)
qed

definition recordable :: "umip_env \<Rightarrow> umip_sample \<Rightarrow> bool" where
  "recordable env s \<longleftrightarrow> umip_sample_ok env s \<and> major_version (sm_protocol_version s) = major_version umip_version"

lemma read_sample_line:
  assumes "json_codec dumps loads" "dumps (sample_record s) = Some t" "recordable env s" "rr_header r \<noteq> None"
  shows "read_line env loads r t = Inr (r\<lparr>rr_observed := rr_observed r + 1\<rparr>, Some s)"
  using assms sample_read[of env s]
  by (auto simp: json_codec_def read_line_def sample_record_def read_record_def Let_def read_sample_def recordable_def)

lemma read_header_line:
  assumes codec: "json_codec dumps loads" and t: "dumps (header_record h) = Some t" and d: "device_ok (rh_device h)"
    and v: "major_version (rh_format_version h) = ''1''"
  shows "read_line env loads new_reader t = Inr (new_reader\<lparr>rr_header := Some h\<rparr>, None)"
proof -
  obtain dm where dm: "device_to_dict (rh_device h) = JObj dm" "device_from_dict env (JObj dm) = Inr (rh_device h)"
    using device_read[OF d, of env] by blast
  obtain m where m: "header_record h = JObj m" by (simp add: header_record_def)
  have "parse_rec_header env m = Inr h"
    using m[symmetric] dm v
    by (cases h) (simp add: header_record_def parse_rec_header_def dict_of_def major_version_def)
  with codec t m show ?thesis
    by (auto simp: json_codec_def read_line_def read_record_def Let_def new_reader_def header_record_def)
qed

lemma read_footer_line:
  assumes "json_codec dumps loads" "dumps (footer_record n ns) = Some t"
  shows "read_line env loads r t = Inr (r\<lparr>rr_footer := Some n\<rparr>, None)"
  using assms by (auto simp: json_codec_def read_line_def footer_record_def read_record_def Let_def)

lemma read_sample_lines:
  assumes "json_codec dumps loads" "map Some ts = map (\<lambda>s. dumps (sample_record s)) ss"
    "\<forall>s \<in> set ss. recordable env s" "rr_header r \<noteq> None"
  shows "read_lines env loads r (ts @ ls)
    = (case read_lines env loads (r\<lparr>rr_observed := rr_observed r + int (length ss)\<rparr>) ls of
         (ys, r', e) \<Rightarrow> (ss @ ys, r', e))"
  using assms(2-4)
proof (induction ss arbitrary: ts r)
  case (Cons s ss)
  then obtain t ts' where ts: "ts = t # ts'" "dumps (sample_record s) = Some t"
    "map Some ts' = map (\<lambda>s. dumps (sample_record s)) ss" by (cases ts) auto
  let ?r = "r\<lparr>rr_observed := rr_observed r + 1\<rparr>"
  have h: "rr_header ?r \<noteq> None" using Cons.prems(3) by simp
  have l: "read_line env loads r t = Inr (?r, Some s)"
    using read_sample_line[OF assms(1) ts(2)] Cons.prems by simp
  have "\<forall>s \<in> set ss. recordable env s" using Cons.prems(2) by simp
  note ih = Cons.IH[OF ts(3) this h]
  show ?case using ts(1) l ih by (simp add: add.assoc split: prod.splits)
qed simp

text \<open>What follows the header and \<open>k\<close> sample lines.\<close>

lemma read_prefix:
  assumes codec: "json_codec dumps loads" and h: "dumps (header_record hdr) = Some h" and d: "device_ok (rh_device hdr)"
    and v: "major_version (rh_format_version hdr) = ''1''"
    and ts: "map Some ts = map (\<lambda>s. dumps (sample_record s)) ss" and ok: "\<forall>s \<in> set ss. recordable env s"
  shows "read_recording env loads (h # ts @ ls)
    = (case read_lines env loads \<lparr>rr_header = Some hdr, rr_footer = None, rr_observed = int (length ss)\<rparr> ls of
         (ys, r', e) \<Rightarrow> (ss @ ys, r', e))"
  using read_header_line[OF codec h d v] read_sample_lines[OF codec ts ok, of "new_reader\<lparr>rr_header := Some hdr\<rparr>" ls]
  by (simp add: read_recording_def new_reader_def split: prod.splits)

section \<open>Properties\<close>

text \<open>
  Only well-typed samples. Whatever text a peer sends or a file holds, a sample the reader accepts satisfies the
  type of the protocol down to its joints: finite positions and unit quaternions, non-negative times, numbers in
  their ranges, distinct joint names, a wrist pose exactly when the tracking state asks for or allows one,
  namespaced extensions, finite metadata and a supported version.
\<close>

theorem umip_read_typed:
  assumes "loads_sample env loads t = Inr s"
  shows "umip_sample_ok env s \<and> major_version (sm_protocol_version s) = major_version umip_version"
proof -
  obtain m where "sample_fields env m = Inr s"
    using assms by (auto simp: loads_sample_def sample_from_dict_def split: option.splits)
  moreover from this have "major_version (sm_protocol_version s) = major_version umip_version"
    by (auto simp: sample_fields_def sample_rest_def check_umip_sample_def Let_def simp del: json_finite.simps split: if_splits)
  ultimately show ?thesis using sample_fields_ok by blast
qed


section \<open>A concrete recording\<close>

definition demo_device :: umip_device where
  "demo_device = \<lparr>dv_device_id = ''d'', dv_device_type = ''t'', dv_manufacturer = ''m'', dv_model = ''n'',
     dv_serial_number = None, dv_firmware_version = None, dv_software_version = None, dv_metadata = fmempty\<rparr>"

definition demo_time :: umip_timestamp where
  "demo_time = \<lparr>tp_nanoseconds = 5, tp_clock_id = ''c'', tp_uncertainty_ns = None\<rparr>"

definition umip_demo_sample :: umip_sample where
  "umip_demo_sample =
     \<lparr>sm_sample_id = ''s'', sm_stream_id = ''q'', sm_sequence_number = 0, sm_capture = demo_time,
      sm_receive = demo_time, sm_device_time = None, sm_processing = None, sm_tracking_state = NOT_TRACKING,
      sm_tracking_confidence = JNull, sm_coordinate_frame = ''f'', sm_device = demo_device, sm_side = LEFT,
      sm_wrist_pose = None, sm_palm_pose = None, sm_motion_kind = MotionAbsolute, sm_articulation = None,
      sm_metadata = fmempty, sm_extensions = fmempty, sm_protocol_version = ''1.0''\<rparr>"

definition demo_writer :: rec_writer where
  "demo_writer = \<lparr>rw_header = \<lparr>rh_format_version = ''1.0'', rh_umip_version = umip_version,
      rh_recording_id = ''r'', rh_created_ns = 0, rh_device = demo_device, rh_metadata = fmempty\<rparr>,
      rw_handle = False, rw_lines = [], rw_sample_count = 0\<rparr>"

definition demo_dumps :: "jval \<Rightarrow> string option" where
  "demo_dumps r = (if r = header_record (rw_header demo_writer) then Some ''h''
     else if r = sample_record umip_demo_sample then Some ''s''
     else if r = footer_record 1 9 then Some ''f'' else None)"

definition demo_loads :: "string \<Rightarrow> jval option" where
  "demo_loads t = (if t = ''h'' then Some (header_record (rw_header demo_writer))
     else if t = ''s'' then Some (sample_record umip_demo_sample)
     else if t = ''f'' then Some (footer_record 1 9) else None)"

lemma demo_texts [simp]: "\<not> blank ''h''" "\<not> blank ''s''" "\<not> blank ''f''" "\<not> blank ''d''" "\<not> blank ''t''" "\<not> blank ''m''"
  "\<not> blank ''n''" "\<not> blank ''c''" "\<not> blank ''q''" "\<not> blank ''r''" "\<not> blank ''x''"
  by (simp_all add: blank_def lit_def is_space_def)

lemma demo_version [simp]: "version_ok ''1.0''"
  by (simp add: version_ok_def lit_def latin_digit_def is_digit_def)

lemma demo_device_ok [simp]: "device_ok demo_device"
  by (simp add: device_ok_def demo_device_def)

lemma demo_recordable: "recordable env umip_demo_sample"
  by (simp add: recordable_def umip_sample_ok_def umip_demo_sample_def timestamp_ok_def demo_time_def number_ok_def
      umip_version_def namespaced_def)

lemma demo_codec: "json_codec demo_dumps demo_loads"
  by (auto simp: json_codec_def demo_dumps_def demo_loads_def split: if_splits)

lemma demo_dumps_some: "\<exists>t. demo_dumps (header_record (rw_header demo_writer)) = Some t"
  "\<exists>t. demo_dumps (sample_record umip_demo_sample) = Some t" "\<exists>t. demo_dumps (footer_record 1 9) = Some t"
  by (simp_all add: demo_dumps_def)

lemma demo_session: "\<exists>w' u. record_session demo_dumps demo_writer [umip_demo_sample] 9 = (w', Inr u)"
proof -
  obtain h t f where d: "demo_dumps (header_record (rw_header demo_writer)) = Some h"
    "demo_dumps (sample_record umip_demo_sample) = Some t" "demo_dumps (footer_record 1 9) = Some f"
    using demo_dumps_some by blast
  let ?w = "demo_writer\<lparr>rw_handle := True, rw_lines := [h]\<rparr>"
  have "rw_open demo_dumps demo_writer False = (?w, Inr ())"
    using d(1) by (simp add: rw_open_def write_record_def demo_writer_def)
  moreover have "rw_write_all demo_dumps ?w [umip_demo_sample] = (?w\<lparr>rw_lines := [h, t], rw_sample_count := 1\<rparr>, Inr ())"
    using d(2) by (simp add: rw_write_def write_record_def demo_writer_def)
  moreover have "rw_close demo_dumps (?w\<lparr>rw_lines := [h, t], rw_sample_count := 1\<rparr>) 9
      = (?w\<lparr>rw_lines := [h, t, f], rw_sample_count := 1, rw_handle := False\<rparr>, Inr ())"
    using d(3) by (simp add: rw_close_def write_record_def)
  ultimately show ?thesis by (simp add: record_session_def)
qed

definition demo_umip_env :: umip_env where
  "demo_umip_env = \<lparr>ue_py = \<lparr>pe_decimal = (\<lambda>_. None), pe_norm = (\<lambda>_. Fin 1)\<rparr>, ue_str = (\<lambda>_. []),
     ue_int_text = (\<lambda>_. None), ue_float_text = (\<lambda>_. None), ue_keys = (\<lambda>_. []), ue_pairs = (\<lambda>_. Inl UmType)\<rparr>"


theorem umip_read_typed_witness:
  "loads_sample demo_umip_env (\<lambda>t. Some (sample_to_dict umip_demo_sample)) ''any'' = Inr umip_demo_sample \<and> umip_sample_ok demo_umip_env umip_demo_sample"
proof -
  obtain m where m: "sample_to_dict umip_demo_sample = JObj m" by (simp add: sample_to_dict_def)
  have "sample_from_dict demo_umip_env (sample_to_dict umip_demo_sample) = Inr umip_demo_sample"
    using demo_recordable[of demo_umip_env] by (intro sample_read) (simp_all add: recordable_def)
  then have l: "loads_sample demo_umip_env (\<lambda>t. Some (sample_to_dict umip_demo_sample)) ''any'' = Inr umip_demo_sample"
    by (simp add: loads_sample_def m)
  from umip_read_typed[OF l] l show ?thesis by blast
qed

text \<open>Three errors that no \<open>except\<close> clause names: they escape the reader as they are.\<close>

lemma umip_escapes:
  "sample_from_dict env (JList []) = Inl UmAttribute"
  "read_line env (\<lambda>t. Some (JObj (fmap_of_list [(''record_type'', JStr ''footer'')]))) r ''x'' = Inl UmKey"
  "timestamp_item env (fmap_of_list [(''nanoseconds'', JFloat PosInf), (''clock_id'', JStr ''c'')]) = Inl UmOverflow"
  by (simp_all add: sample_from_dict_def read_line_def read_record_def Let_def timestamp_item_def jreq_def jget_def checked_int_def)

end
