(* ===== verification/UmipProvider.thy ===== *)
theory UmipProvider
  imports UmipRecording
begin

text \<open>
  The provider lifecycle shared by live devices and replay, \<open>src/motion_input/provider.py\<close>, and the replay of a
  recording, \<open>src/motion_input/replay.py\<close>. A provider is its lifecycle state with the data of its subclass; the
  abstract methods are arguments of the lifecycle operations. Clock readings are arguments.
\<close>

section \<open>The lifecycle\<close>

datatype provider_state = PvClosed | PvOpened | PvExhausted | PvFailed

type_synonym 'p live_provider = "provider_state \<times> 'p"

text \<open>What \<open>_read\<close> leaves: the data, whether it set the state to exhausted, and its answer.\<close>

type_synonym 'p read_result = "'p \<times> bool \<times> (umip_error, umip_sample option) res"

definition mp_open ::
  "('p \<Rightarrow> 'p \<times> (umip_error, unit) res) \<Rightarrow> 'p live_provider \<Rightarrow> 'p live_provider \<times> (umip_error, unit) res" where
  "mp_open impl sp = (case sp of (st, p) \<Rightarrow>
     if st \<noteq> PvClosed then (sp, Inl UmProviderState)
     else case impl p of (p', Inl e) \<Rightarrow> ((st, p'), Inl e) | (p', Inr u) \<Rightarrow> ((PvOpened, p'), Inr ()))"

definition mp_close ::
  "('p \<Rightarrow> 'p \<times> (umip_error, unit) res) \<Rightarrow> 'p live_provider \<Rightarrow> 'p live_provider \<times> (umip_error, unit) res" where
  "mp_close impl sp = (case sp of (st, p) \<Rightarrow>
     if st = PvClosed then (sp, Inr ())
     else case impl p of (p', r) \<Rightarrow> ((PvClosed, p'), r))"

definition mp_read ::
  "('p \<Rightarrow> pyfloat option \<Rightarrow> 'p read_result) \<Rightarrow> 'p live_provider \<Rightarrow> pyfloat option \<Rightarrow>
   'p live_provider \<times> (umip_error, umip_sample option) res" where
  "mp_read impl sp timeout = (case sp of (st, p) \<Rightarrow>
     if st \<noteq> PvOpened then (sp, Inl UmProviderState)
     else if (case timeout of None \<Rightarrow> False | Some t \<Rightarrow> flt t (Fin 0)) then (sp, Inl UmValue)
     else case impl p timeout of
            (p', exhausted, r) \<Rightarrow> ((if exhausted then PvExhausted else st, p'), r))"

text \<open>Calls of a client; an input is what the outside world contributes to one call.\<close>

datatype 'i mp_input = CallOpen 'i | CallClose 'i | CallRead "pyfloat option" 'i

record ('p, 'i) provider_impl =
  im_open :: "'i \<Rightarrow> 'p \<Rightarrow> 'p \<times> (umip_error, unit) res"
  im_close :: "'i \<Rightarrow> 'p \<Rightarrow> 'p \<times> (umip_error, unit) res"
  im_read :: "'i \<Rightarrow> 'p \<Rightarrow> pyfloat option \<Rightarrow> 'p read_result"

fun mp_call ::
  "('p, 'i) provider_impl \<Rightarrow> 'p live_provider \<Rightarrow> 'i mp_input \<Rightarrow>
   'p live_provider \<times> (umip_error, umip_sample option) res" where
  "mp_call impl sp (CallOpen i) =
     (case mp_open (im_open impl i) sp of (sp', Inl e) \<Rightarrow> (sp', Inl e) | (sp', Inr u) \<Rightarrow> (sp', Inr None))"
| "mp_call impl sp (CallClose i) =
     (case mp_close (im_close impl i) sp of (sp', Inl e) \<Rightarrow> (sp', Inl e) | (sp', Inr u) \<Rightarrow> (sp', Inr None))"
| "mp_call impl sp (CallRead timeout i) = mp_read (im_read impl i) sp timeout"

text \<open>A run of calls: the final provider and the samples handed out, in order.\<close>

fun mp_run ::
  "('p, 'i) provider_impl \<Rightarrow> 'p live_provider \<Rightarrow> 'i mp_input list \<Rightarrow> 'p live_provider \<times> umip_sample list" where
  "mp_run impl sp [] = (sp, [])"
| "mp_run impl sp (c # cs) =
     (case mp_call impl sp c of
        (sp1, r) \<Rightarrow> (case mp_run impl sp1 cs of
          (sp2, ys) \<Rightarrow> (sp2, (case r of Inr (Some s) \<Rightarrow> s # ys | _ \<Rightarrow> ys))))"

section \<open>Interfaces\<close>

text \<open>A provider whose samples are all of a kind: its data keeps an invariant, and a read hands out good samples.\<close>

locale typed_provider =
  fixes impl :: "('p, 'i) provider_impl" and inv :: "'p \<Rightarrow> bool" and good :: "umip_sample \<Rightarrow> bool"
  assumes open_inv: "inv p \<Longrightarrow> inv (fst (im_open impl i p))"
    and close_inv: "inv p \<Longrightarrow> inv (fst (im_close impl i p))"
    and read_inv: "inv p \<Longrightarrow> inv (fst (im_read impl i p timeout))"
    and read_good: "inv p \<Longrightarrow> snd (snd (im_read impl i p timeout)) = Inr (Some s) \<Longrightarrow> good s"
begin

lemma call_keeps:
  assumes "inv p" and "mp_call impl (st, p) c = (sp', r)"
  shows "inv (snd sp') \<and> (\<forall>s. r = Inr (Some s) \<longrightarrow> good s \<and> st = PvOpened)"
proof (cases c)
  case (CallOpen i)
  with assms open_inv[of p i] show ?thesis
    by (auto simp: mp_open_def split: prod.splits sum.splits if_splits)
next
  case (CallClose i)
  with assms close_inv[of p i] show ?thesis
    by (auto simp: mp_close_def split: prod.splits sum.splits if_splits)
next
  case (CallRead timeout i)
  with assms read_inv[of p i timeout] read_good[of p i timeout] show ?thesis
    by (auto simp: mp_read_def split: prod.splits if_splits option.splits)
qed

lemma run_good: "inv p \<Longrightarrow> mp_run impl (st, p) cs = (sp', ys) \<Longrightarrow> inv (snd sp') \<and> list_all good ys"
proof (induction cs arbitrary: st p ys)
  case (Cons c cs)
  obtain st1 p1 r where call: "mp_call impl (st, p) c = ((st1, p1), r)" by (metis surj_pair)
  obtain ys' where run: "mp_run impl (st1, p1) cs = (sp', ys')"
    and ys: "ys = (case r of Inr (Some s) \<Rightarrow> s # ys' | _ \<Rightarrow> ys')"
    using Cons.prems(2) call by (auto split: prod.splits)
  have k: "inv p1" "\<forall>s. r = Inr (Some s) \<longrightarrow> good s" using call_keeps[OF Cons.prems(1) call] by simp_all
  from Cons.IH[OF k(1) run] k(2) ys show ?case by (auto split: sum.splits option.splits)
qed auto

end

text \<open>A provider with a queue: a read hands out the head, or nothing and keeps the queue.\<close>

locale queued_provider =
  fixes impl :: "('p, 'i) provider_impl" and queue :: "'p \<Rightarrow> umip_sample list"
  assumes read_some: "im_read impl i p timeout = (p', x, Inr (Some s)) \<Longrightarrow> queue p = s # queue p' \<and> \<not> x"
    and read_none: "im_read impl i p timeout = (p', x, Inr None) \<Longrightarrow> queue p' = queue p \<and> (x \<longrightarrow> queue p = [])"
    and read_error: "im_read impl i p timeout = (p', x, Inl e) \<Longrightarrow> queue p' = queue p \<and> \<not> x"
begin

lemma reads_take_from_queue:
  assumes "mp_run impl (st, p) cs = ((st', p'), ys)" and "\<forall>c \<in> set cs. \<exists>t i. c = CallRead t i"
    and "st = PvExhausted \<longrightarrow> queue p = []"
  shows "queue p = ys @ queue p' \<and> (st' = PvExhausted \<longrightarrow> queue p' = [])"
  using assms
proof (induction cs arbitrary: st p ys)
  case (Cons c cs)
  obtain t i where c: "c = CallRead t i" using Cons.prems(2) by auto
  obtain st1 p1 r where call: "mp_call impl (st, p) c = ((st1, p1), r)" by (metis surj_pair)
  obtain ys' where run: "mp_run impl (st1, p1) cs = ((st', p'), ys')"
    and ys: "ys = (case r of Inr (Some s) \<Rightarrow> s # ys' | _ \<Rightarrow> ys')"
    using Cons.prems(1) call by (auto split: prod.splits)
  have one: "queue p = (case r of Inr (Some s) \<Rightarrow> [s] | _ \<Rightarrow> []) @ queue p1 \<and> (st1 = PvExhausted \<longrightarrow> queue p1 = [])"
  proof (cases "st = PvOpened")
    case True
    obtain q x a where rd: "im_read impl i p t = (q, x, a)" by (metis surj_pair)
    show ?thesis
    proof (cases a)
      case (Inl e)
      with True call c rd read_error[of i p t q x e] show ?thesis
        by (auto simp: mp_read_def split: if_splits option.splits)
    next
      case (Inr y)
      with True call c rd read_some[of i p t q x] read_none[of i p t q x] show ?thesis
        by (cases y) (auto simp: mp_read_def split: if_splits option.splits)
    qed
  next
    case False
    with call c Cons.prems(3) show ?thesis by (auto simp: mp_read_def)
  qed
  have rest: "\<forall>c \<in> set cs. \<exists>t i. c = CallRead t i" using Cons.prems(2) by simp
  from Cons.IH[OF run rest] one ys show ?case by (auto split: sum.splits option.splits)
qed simp

end

end
