(* ===== verification/UmipReplay.thy ===== *)
theory UmipReplay
  imports UmipProvider
begin

text \<open>
  Replay of a recording through the provider contract, \<open>src/motion_input/replay.py\<close>: the pending sample, the delay
  before it and the reads that time out. The two interfaces of \<open>UmipProvider\<close> are interpreted on it. The file does
  not change while it is replayed.
\<close>

section \<open>The provider\<close>

datatype replay_mode = AsRecorded | FixedRate | Immediate

record replay =
  rp_lines :: "string list"
  rp_mode :: replay_mode
  rp_speed :: pyfloat
  rp_fixed_rate_hz :: "pyfloat option"
  rp_descriptor :: umip_device
  rp_iterator :: "(umip_sample list \<times> umip_error option) option"
  rp_pending :: "umip_sample option"
  rp_previous :: "umip_sample option"
  rp_last_emit_ns :: "int option"

definition mk_replay ::
  "umip_env \<Rightarrow> (string \<Rightarrow> jval option) \<Rightarrow> string list \<Rightarrow> replay_mode \<Rightarrow> pyfloat \<Rightarrow> pyfloat option \<Rightarrow>
   (umip_error, replay live_provider) res" where
  "mk_replay env loads lines mode speed rate =
     (if fle speed (Fin 0) then Inl UmValue
      else if mode = FixedRate \<and> (case rate of None \<Rightarrow> True | Some r \<Rightarrow> fle r (Fin 0)) then Inl UmValue
      else rbind (read_header env loads lines) (\<lambda>h.
           Inr (PvClosed, \<lparr>rp_lines = lines, rp_mode = mode, rp_speed = speed, rp_fixed_rate_hz = rate,
             rp_descriptor = rh_device h, rp_iterator = None, rp_pending = None, rp_previous = None,
             rp_last_emit_ns = None\<rparr>)))"

text \<open>The generator of the file: what it will yield, and the exception after that.\<close>

definition sample_iterator ::
  "umip_env \<Rightarrow> (string \<Rightarrow> jval option) \<Rightarrow> string list \<Rightarrow> umip_sample list \<times> umip_error option" where
  "sample_iterator env loads lines =
     (case read_recording env loads lines of
        (ys, r, Inl e) \<Rightarrow> (ys, Some e) | (ys, r, Inr u) \<Rightarrow> (ys, None))"

definition rp_open :: "umip_env \<Rightarrow> (string \<Rightarrow> jval option) \<Rightarrow> replay \<Rightarrow> replay \<times> (umip_error, unit) res" where
  "rp_open env loads p =
     (p\<lparr>rp_iterator := Some (sample_iterator env loads (rp_lines p)), rp_pending := None, rp_previous := None,
        rp_last_emit_ns := None\<rparr>, Inr ())"

definition rp_close :: "replay \<Rightarrow> replay \<times> (umip_error, unit) res" where
  "rp_close p = (p\<lparr>rp_iterator := None, rp_pending := None\<rparr>, Inr ())"

section \<open>Delays\<close>

definition sample_interval_ns :: "umip_sample \<Rightarrow> umip_sample \<Rightarrow> int" where
  "sample_interval_ns previous current =
     (if comparable_to (sm_capture previous) (sm_capture current)
      then tp_nanoseconds (sm_capture current) - tp_nanoseconds (sm_capture previous)
      else if comparable_to (sm_receive previous) (sm_receive current)
      then tp_nanoseconds (sm_receive current) - tp_nanoseconds (sm_receive previous)
      else 0)"

definition int_of_quotient :: "pyfloat \<Rightarrow> pyfloat \<Rightarrow> (umip_error, int) res" where
  "int_of_quotient a b = (if b = Fin 0 then Inl UmZeroDivision else checked_int (fdiv a b))"

definition target_interval_ns :: "replay \<Rightarrow> umip_sample \<Rightarrow> umip_sample \<Rightarrow> (umip_error, int) res" where
  "target_interval_ns p previous s =
     (if rp_mode p = FixedRate then
        (case rp_fixed_rate_hz p of
           None \<Rightarrow> Inl UmAssertion
         | Some rate \<Rightarrow> int_of_quotient (Fin 1000000000) (fmul rate (rp_speed p)))
      else rbind (float_of_int_checked (sample_interval_ns previous s)) (\<lambda>interval.
           rbind (int_of_quotient interval (rp_speed p)) (\<lambda>n. Inr (max 0 n))))"

definition ns_quotient :: "int \<Rightarrow> (umip_error, pyfloat) res" where
  "ns_quotient n = (case py_true_div n 1000000000 of Inl e \<Rightarrow> Inl UmOverflow | Inr f \<Rightarrow> Inr f)"

definition delay_before :: "replay \<Rightarrow> umip_sample \<Rightarrow> int \<Rightarrow> (umip_error, pyfloat) res" where
  "delay_before p s now_ns =
     (if rp_mode p = Immediate then Inr (Fin 0)
      else case rp_previous p of
        None \<Rightarrow> Inr (Fin 0)
      | Some previous \<Rightarrow>
          rbind (target_interval_ns p previous s) (\<lambda>target.
          case rp_last_emit_ns p of
            None \<Rightarrow> ns_quotient target
          | Some t \<Rightarrow> ns_quotient (max 0 (target - (now_ns - t)))))"

section \<open>Reads\<close>

text \<open>What \<open>_read\<close> does once a sample is pending: give up at the time-out, or hand the sample out after a delay.\<close>

definition hand_out :: "replay \<Rightarrow> umip_sample \<Rightarrow> (umip_error, pyfloat) res \<Rightarrow> pyfloat option \<Rightarrow> int \<Rightarrow> replay read_result" where
  "hand_out p s delay timeout emit_ns =
     (case delay of
        Inl e \<Rightarrow> (p, False, Inl e)
      | Inr d \<Rightarrow>
          (if (case timeout of None \<Rightarrow> False | Some t \<Rightarrow> flt t d) then (p, False, Inr None)
           else (p\<lparr>rp_pending := None, rp_previous := Some s, rp_last_emit_ns := Some emit_ns\<rparr>, False,
                 Inr (Some s))))"

text \<open>The clock readings: the one inside \<open>_delay_before\<close> and the one after the sleep.\<close>

definition rp_read :: "int \<times> int \<Rightarrow> replay \<Rightarrow> pyfloat option \<Rightarrow> replay read_result" where
  "rp_read clock p timeout =
     (case rp_pending p of
        Some s \<Rightarrow> hand_out p s (delay_before p s (fst clock)) timeout (snd clock)
      | None \<Rightarrow>
          (case rp_iterator p of
             None \<Rightarrow> (p, False, Inl UmAssertion)
           | Some (s # ys, e) \<Rightarrow>
               (let q = p\<lparr>rp_iterator := Some (ys, e), rp_pending := Some s\<rparr>
                in hand_out q s (delay_before q s (fst clock)) timeout (snd clock))
           | Some ([], Some e) \<Rightarrow> (p\<lparr>rp_iterator := Some ([], None)\<rparr>, False, Inl e)
           | Some ([], None) \<Rightarrow> (p, True, Inr None)))"

definition replay_impl :: "umip_env \<Rightarrow> (string \<Rightarrow> jval option) \<Rightarrow> (replay, int \<times> int) provider_impl" where
  "replay_impl env loads =
     \<lparr>im_open = (\<lambda>i. rp_open env loads), im_close = (\<lambda>i. rp_close), im_read = rp_read\<rparr>"

section \<open>The interfaces\<close>

definition rp_queue :: "replay \<Rightarrow> umip_sample list" where
  "rp_queue p = (case rp_pending p of None \<Rightarrow> [] | Some s \<Rightarrow> [s])
     @ (case rp_iterator p of None \<Rightarrow> [] | Some (ys, e) \<Rightarrow> ys)"

lemma hand_out_cases:
  assumes "hand_out p s d timeout t = (p', x, r)" and "rp_pending p = Some s"
  shows "\<not> x \<and> (case r of Inr (Some y) \<Rightarrow> y = s \<and> rp_queue p = s # rp_queue p' | _ \<Rightarrow> p' = p)"
  using assms by (auto simp: hand_out_def rp_queue_def split: sum.splits if_splits)

lemma rp_read_cases:
  assumes "rp_read clock p timeout = (p', x, r)"
  shows "(case r of Inr (Some y) \<Rightarrow> rp_queue p = y # rp_queue p' \<and> \<not> x
      | Inr None \<Rightarrow> rp_queue p' = rp_queue p \<and> (x \<longrightarrow> rp_queue p = [])
      | Inl e \<Rightarrow> rp_queue p' = rp_queue p \<and> \<not> x)"
proof (cases "rp_pending p")
  case (Some s)
  with assms hand_out_cases[of p s "delay_before p s (fst clock)" timeout "snd clock" p' x r] show ?thesis
    by (auto simp: rp_read_def split: sum.splits option.splits)
next
  case None
  show ?thesis
  proof (cases "rp_iterator p")
    case None
    with assms \<open>rp_pending p = None\<close> show ?thesis by (auto simp: rp_read_def)
  next
    case (Some it)
    obtain ys e where it: "it = (ys, e)" by (cases it)
    show ?thesis
    proof (cases ys)
      case Nil
      with assms \<open>rp_pending p = None\<close> Some it show ?thesis
        by (auto simp: rp_read_def rp_queue_def split: option.splits)
    next
      case (Cons s ys')
      let ?q = "p\<lparr>rp_iterator := Some (ys', e), rp_pending := Some s\<rparr>"
      have "rp_queue ?q = rp_queue p" using \<open>rp_pending p = None\<close> Some it Cons by (simp add: rp_queue_def)
      with assms \<open>rp_pending p = None\<close> Some it Cons
        hand_out_cases[of ?q s "delay_before ?q s (fst clock)" timeout "snd clock" p' x r] show ?thesis
        by (auto simp: rp_read_def Let_def split: sum.splits option.splits)
    qed
  qed
qed

interpretation replaying: queued_provider "replay_impl env loads" rp_queue for env loads
proof
  fix clock p timeout p' x s
  assume "im_read (replay_impl env loads) clock p timeout = (p', x, Inr (Some s))"
  then show "rp_queue p = s # rp_queue p' \<and> \<not> x"
    using rp_read_cases[of clock p timeout p' x "Inr (Some s)"] by (simp add: replay_impl_def)
next
  fix clock p timeout p' x
  assume "im_read (replay_impl env loads) clock p timeout = (p', x, Inr None)"
  then show "rp_queue p' = rp_queue p \<and> (x \<longrightarrow> rp_queue p = [])"
    using rp_read_cases[of clock p timeout p' x "Inr None"] by (simp add: replay_impl_def)
next
  fix clock p timeout p' x e
  assume "im_read (replay_impl env loads) clock p timeout = (p', x, Inl e)"
  then show "rp_queue p' = rp_queue p \<and> \<not> x"
    using rp_read_cases[of clock p timeout p' x "Inl e"] by (simp add: replay_impl_def)
qed

text \<open>Every sample of a recording is well typed.\<close>

lemma read_lines_typed: "list_all (umip_sample_ok env) (fst (read_lines env loads r ls))"
proof (induction ls arbitrary: r)
  case (Cons l ls)
  show ?case
  proof (cases "read_line env loads r l")
    case (Inr y)
    obtain r' o' where y: "y = (r', o')" by (cases y)
    obtain ys q e where rest: "read_lines env loads r' ls = (ys, q, e)" by (metis prod_cases3)
    have "list_all (umip_sample_ok env) ys" using Cons.IH[of r'] rest by simp
    moreover have "umip_sample_ok env s" if "o' = Some s" for s
      using Inr y that sample_fields_ok
      by (auto simp: read_line_def read_record_def Let_def read_sample_def sample_from_dict_def
          split: if_splits option.splits jval.splits sum.splits)
    ultimately show ?thesis using Inr y rest by (auto split: option.splits)
  qed simp
qed simp

definition rp_inv :: "umip_env \<Rightarrow> replay \<Rightarrow> bool" where
  "rp_inv env p \<longleftrightarrow> list_all (umip_sample_ok env) (rp_queue p)"

lemma sample_iterator_typed: "list_all (umip_sample_ok env) (fst (sample_iterator env loads lines))"
  using read_lines_typed[of env loads new_reader lines]
  by (auto simp: sample_iterator_def read_recording_def split: prod.splits sum.splits)

lemma rp_read_inv: "rp_inv env p \<Longrightarrow> rp_read clock p timeout = (p', x, r) \<Longrightarrow>
   rp_inv env p' \<and> (\<forall>s. r = Inr (Some s) \<longrightarrow> umip_sample_ok env s)"
  using rp_read_cases[of clock p timeout p' x r] by (auto simp: rp_inv_def split: sum.splits option.splits)

interpretation replay_typed: typed_provider "replay_impl env loads" "rp_inv env" "umip_sample_ok env" for env loads
proof
  fix p i assume "rp_inv env p"
  show "rp_inv env (fst (im_open (replay_impl env loads) i p))"
    using sample_iterator_typed[of env loads "rp_lines p"]
    by (cases "sample_iterator env loads (rp_lines p)") (simp add: replay_impl_def rp_open_def rp_inv_def rp_queue_def)
next
  fix p i assume "rp_inv env p"
  then show "rp_inv env (fst (im_close (replay_impl env loads) i p))"
    by (simp add: replay_impl_def rp_close_def rp_inv_def rp_queue_def)
next
  fix p i timeout assume "rp_inv env p"
  then show "rp_inv env (fst (im_read (replay_impl env loads) i p timeout))"
    using rp_read_inv[of env p i timeout] by (cases "rp_read i p timeout") (simp add: replay_impl_def)
next
  fix p i timeout s
  assume "rp_inv env p" "snd (snd (im_read (replay_impl env loads) i p timeout)) = Inr (Some s)"
  then show "umip_sample_ok env s"
    using rp_read_inv[of env p i timeout] by (cases "rp_read i p timeout") (simp add: replay_impl_def)
qed

section \<open>Immediate replay\<close>

text \<open>Without delays every read hands out the next sample.\<close>

definition ready :: "replay \<Rightarrow> umip_sample list \<Rightarrow> bool" where
  "ready p zs \<longleftrightarrow> rp_mode p = Immediate \<and> rp_pending p = None \<and> rp_iterator p = Some (zs, None)"

lemma immediate_read:
  "ready p (z # zs) \<Longrightarrow> \<exists>p'. rp_read clock p None = (p', False, Inr (Some z)) \<and> ready p' zs"
  "ready p [] \<Longrightarrow> rp_read clock p None = (p, True, Inr None)"
  by (auto simp: ready_def rp_read_def Let_def hand_out_def delay_before_def)

lemma exhausted_run:
  "\<forall>c \<in> set cs. \<exists>i. c = CallRead None i \<Longrightarrow> st \<noteq> PvOpened \<Longrightarrow>
   mp_run (replay_impl env loads) (st, p) cs = ((st, p), [])"
  by (induction cs) (auto simp: mp_read_def)

lemma immediate_run:
  assumes "ready p zs" and "\<forall>c \<in> set cs. \<exists>i. c = CallRead None i" and "length zs < length cs"
  shows "snd (mp_run (replay_impl env loads) (PvOpened, p) cs) = zs"
  using assms
proof (induction cs arbitrary: p zs)
  case (Cons c cs)
  obtain i where c: "c = CallRead None i" using Cons.prems(2) by auto
  have rest: "\<forall>c \<in> set cs. \<exists>i. c = CallRead None i" using Cons.prems(2) by simp
  show ?case
  proof (cases zs)
    case Nil
    with immediate_read(2)[of p i] Cons.prems(1) c exhausted_run[OF rest, of PvExhausted env loads p] show ?thesis
      by (simp add: mp_read_def replay_impl_def)
  next
    case (Cons z zs')
    then obtain p' where p': "rp_read i p None = (p', False, Inr (Some z))" "ready p' zs'"
      using immediate_read(1)[of p z zs' i] Cons.prems(1) by auto
    have "snd (mp_run (replay_impl env loads) (PvOpened, p') cs) = zs'"
      using Cons.IH[OF p'(2) rest] Cons.prems(3) Cons by simp
    with p' c Cons show ?thesis by (auto simp: mp_read_def replay_impl_def split: prod.splits)
  qed
qed simp

lemma recorded_iterator:
  assumes codec: "json_codec dumps loads" and ok: "\<forall>s \<in> set ss. recordable env s"
    and d: "device_ok device" and w: "mk_rec_writer i ns device meta = Inr w"
    and rec: "record_session dumps w ss closed_ns = (w', Inr u)"
  shows "sample_iterator env loads (rw_lines w') = (ss, None)"
proof -
  from w d have w0: "rw_sample_count w = 0" "device_ok (rh_device (rw_header w))"
    "major_version (rh_format_version (rw_header w)) = ''1''"
    by (auto simp: mk_rec_writer_def major_version_def split: if_splits)
  from record_session_lines[OF rec w0(1)] obtain h ts f where ls: "rw_lines w' = h # ts @ [f]"
    and h: "dumps (header_record (rw_header w)) = Some h"
    and ts: "map Some ts = map (\<lambda>s. dumps (sample_record s)) ss"
    and f: "dumps (footer_record (int (length ss)) closed_ns) = Some f" by blast
  from read_prefix[OF codec h w0(2,3) ts ok, of "[f]"] read_footer_line[OF codec f] ls show ?thesis
    by (simp add: sample_iterator_def read_end_def)
qed

section \<open>Properties\<close>

text \<open>
  C37. Replay returns what was recorded. Whatever the mode, the speed, the clock and the time-outs, the samples that
  reads hand out after \<open>open\<close> are the recorded samples in their order, none skipped, repeated or altered, and the
  provider is exhausted only after the last. Immediate replay without time-outs hands out all of them.
\<close>

theorem replay_returns_recorded:
  assumes "json_codec dumps loads" and "\<forall>s \<in> set ss. recordable env s"
    and "device_ok device" and "mk_rec_writer i ns device meta = Inr w"
    and "record_session dumps w ss closed_ns = (w', Inr u)"
    and "mk_replay env loads (rw_lines w') mode speed rate = Inr sp"
    and "mp_call (replay_impl env loads) sp (CallOpen clock) = (sp1, Inr None)"
    and "\<forall>c \<in> set cs. \<exists>t i. c = CallRead t i"
    and "mp_run (replay_impl env loads) sp1 cs = ((st, p), ys)"
  shows "(\<exists>rest. ss = ys @ rest \<and> (st = PvExhausted \<longrightarrow> rest = []))
    \<and> (mode = Immediate \<and> (\<forall>c \<in> set cs. \<exists>i. c = CallRead None i) \<and> length ss < length cs \<longrightarrow> ys = ss)"
proof -
  note it = recorded_iterator[OF assms(1-5)]
  from assms(6) obtain q where q: "sp = (PvClosed, q)" "rp_lines q = rw_lines w'" "rp_mode q = mode"
    by (auto simp: mk_replay_def split: if_splits)
  let ?q = "fst (rp_open env loads q)"
  have sp1: "sp1 = (PvOpened, ?q)"
    using assms(7) q(1) by (auto simp: mp_open_def replay_impl_def rp_open_def)
  have "rp_queue ?q = ss" using it q(2) by (simp add: rp_open_def rp_queue_def)
  moreover have "ready ?q ss \<or> mode \<noteq> Immediate" using it q(2,3) by (simp add: ready_def rp_open_def)
  ultimately show ?thesis
    using replaying.reads_take_from_queue[of env loads PvOpened ?q cs st p ys] immediate_run[of ?q ss cs env loads]
      assms(8,9) sp1 by auto
qed

section \<open>A concrete replay\<close>

lemma demo_lines:
  assumes "record_session demo_dumps demo_writer [umip_demo_sample] 9 = (w', Inr u)"
  shows "\<exists>h. read_header demo_umip_env demo_loads (rw_lines w') = Inr h"
proof -
  from record_session_lines[OF assms] obtain h t f where ls: "rw_lines w' = [h, t, f]"
    "demo_dumps (header_record (rw_header demo_writer)) = Some h" "demo_dumps (sample_record umip_demo_sample) = Some t"
    by (auto simp: demo_writer_def map_eq_Cons_conv)
  let ?r = "new_reader\<lparr>rr_header := Some (rw_header demo_writer)\<rparr>"
  have "read_line demo_umip_env demo_loads new_reader h = Inr (?r, None)"
    by (rule read_header_line[OF demo_codec ls(2)]) (simp_all add: demo_writer_def major_version_def)
  moreover have "read_line demo_umip_env demo_loads ?r t = Inr (?r\<lparr>rr_observed := rr_observed ?r + 1\<rparr>, Some umip_demo_sample)"
    by (rule read_sample_line[OF demo_codec ls(3) demo_recordable]) simp
  ultimately show ?thesis using ls(1) by (simp add: read_header_def)
qed

theorem replay_returns_recorded_witness:
  "\<exists>w' sp sp1. record_session demo_dumps demo_writer [umip_demo_sample] 9 = (w', Inr ())
     \<and> mk_replay demo_umip_env demo_loads (rw_lines w') Immediate (Fin 1) None = Inr sp
     \<and> mp_call (replay_impl demo_umip_env demo_loads) sp (CallOpen (0, 0)) = (sp1, Inr None)
     \<and> snd (mp_run (replay_impl demo_umip_env demo_loads) sp1 [CallRead None (0, 0), CallRead None (1, 1)]) = [umip_demo_sample]"
proof -
  obtain w' u where w': "record_session demo_dumps demo_writer [umip_demo_sample] 9 = (w', Inr u)" using demo_session by blast
  have mk: "mk_rec_writer ''r'' 0 demo_device fmempty = Inr demo_writer"
    by (simp add: mk_rec_writer_def demo_writer_def)
  obtain sp where sp: "mk_replay demo_umip_env demo_loads (rw_lines w') Immediate (Fin 1) None = Inr sp"
    using demo_lines[OF w'] by (auto simp: mk_replay_def)
  then obtain sp1 where sp1: "mp_call (replay_impl demo_umip_env demo_loads) sp (CallOpen (0, 0)) = (sp1, Inr None)"
    by (auto simp: mk_replay_def mp_open_def replay_impl_def rp_open_def split: if_splits)
  let ?cs = "[CallRead None (0, 0), CallRead None (1, 1)] :: (int \<times> int) mp_input list"
  obtain st p ys where run: "mp_run (replay_impl demo_umip_env demo_loads) sp1 ?cs = ((st, p), ys)"
    by (metis prod.exhaust)
  from replay_returns_recorded[OF demo_codec _ demo_device_ok mk w' sp sp1 _ run] demo_recordable[of demo_umip_env]
  have "ys = [umip_demo_sample]" by simp
  with w' sp sp1 run show ?thesis by (metis snd_conv unit.exhaust)
qed

end
