(* ===== verification/QuestProvider.thy ===== *)
theory QuestProvider
  imports UmipReplay
begin

text \<open>
  The live Quest provider, \<open>src/motion_input/quest.py\<close>: the JSON frame of the headset bridge, the UDP source, the
  translation of a frame to a sample, and the two samples that announce a lost connection. What a call of the
  outside contributes (clock readings, what the socket answered to a time-out, fresh identifiers) is its input.
\<close>

section \<open>Frames\<close>

record quest_frame =
  qf_session_id :: string
  qf_stream_id :: string
  qf_sequence_number :: int
  qf_side :: side
  qf_reference_space :: string
  qf_basis :: string
  qf_capture :: umip_timestamp
  qf_device_time :: "umip_timestamp option"
  qf_tracking_state :: tracking_state
  qf_tracking_confidence :: jval
  qf_wrist_pose :: "pose6d option"
  qf_palm_pose :: "pose6d option"
  qf_articulation :: "umip_articulation option"
  qf_metadata :: jobject

text \<open>The time stamps and poses are read as by \<open>serialization.py\<close>, with another text of the error.\<close>

definition wire_timestamp :: "umip_env \<Rightarrow> jval \<Rightarrow> (umip_error, umip_timestamp) res" where
  "wire_timestamp env v = (case v of JObj m \<Rightarrow> timestamp_item env m | _ \<Rightarrow> Inl UmSerialization)"

definition wire_pose :: "umip_env \<Rightarrow> jval \<Rightarrow> (umip_error, pose6d option) res" where
  "wire_pose env v = pose_from_dict env v"

text \<open>The elements of an articulation are subscripted without a test: on a value that is no dict, a \<open>TypeError\<close>.\<close>

definition wire_joint :: "umip_env \<Rightarrow> jval \<Rightarrow> (umip_error, umip_joint) res" where
  "wire_joint env v = (case v of JObj m \<Rightarrow> joint_from_dict env v | _ \<Rightarrow> Inl UmType)"

definition wire_gesture :: "umip_env \<Rightarrow> jval \<Rightarrow> (umip_error, umip_gesture) res" where
  "wire_gesture env v = (case v of JObj m \<Rightarrow> gesture_from_dict env v | _ \<Rightarrow> Inl UmType)"

definition wire_articulation :: "umip_env \<Rightarrow> jval \<Rightarrow> (umip_error, umip_articulation option) res" where
  "wire_articulation env v =
     (if v = JNull then Inr None
      else rbind (mapping_of v) (\<lambda>m.
           rbind (elements env (jget m ''joints'' (JList []))) (\<lambda>js.
           rbind (rmap (wire_joint env) js) (\<lambda>joints.
           rbind (elements env (jget m ''gestures'' (JList []))) (\<lambda>gs.
           rbind (rmap (wire_gesture env) gs) (\<lambda>gestures.
           rbind (check_articulation \<lparr>ar_joints = joints, ar_gestures = gestures,
             ar_pinch_strength = jget m ''pinch_strength'' JNull, ar_grasp_strength = jget m ''grasp_strength'' JNull,
             ar_confidence = jget m ''confidence'' JNull\<rparr>) (\<lambda>a. Inr (Some a))))))))"

definition quest_frame_fields :: "umip_env \<Rightarrow> jobject \<Rightarrow> (umip_error, quest_frame) res" where
  "quest_frame_fields env m =
     rbind (jreq m ''schema'') (\<lambda>schema.
     if schema \<noteq> JStr ''quest-hand-frame'' then Inl UmSerialization else
     rbind (jreq m ''version'') (\<lambda>v.
     if major_version (str_of env v) \<noteq> ''1'' then Inl UmSerialization else
     rbind (jreq m ''tracking_state'') (\<lambda>t.
     rbind (tracking_of_name (str_of env t)) (\<lambda>state.
     rbind (wire_pose env (jget m ''wrist_pose'' JNull)) (\<lambda>wrist.
     rbind (wire_pose env (jget m ''palm_pose'' JNull)) (\<lambda>palm.
     rbind (wire_articulation env (jget m ''articulation'' JNull)) (\<lambda>articulation.
     rbind (jreq m ''side'') (\<lambda>sd.
     rbind (side_of_name (str_of env sd)) (\<lambda>side.
     if side = NO_SIDE then Inl UmSerialization else
     rbind (mapping_of (jget m ''metadata'' (JObj fmempty))) (\<lambda>meta.
     rbind (jreq m ''session_id'') (\<lambda>session.
     rbind (jreq m ''stream_id'') (\<lambda>stream.
     rbind (jreq m ''sequence_number'') (\<lambda>q.
     rbind (int_of env q) (\<lambda>sequence.
     rbind (jreq m ''reference_space'') (\<lambda>space.
     rbind (jreq m ''basis'') (\<lambda>basis.
     rbind (jreq m ''capture_timestamp'') (\<lambda>ct.
     rbind (wire_timestamp env ct) (\<lambda>capture.
     rbind (if jget m ''device_timestamp'' JNull = JNull then Inr None
            else rbind (wire_timestamp env (jget m ''device_timestamp'' JNull)) (\<lambda>d. Inr (Some d))) (\<lambda>device_time.
     Inr \<lparr>qf_session_id = str_of env session, qf_stream_id = str_of env stream, qf_sequence_number = sequence,
          qf_side = side, qf_reference_space = str_of env space, qf_basis = str_of env basis, qf_capture = capture,
          qf_device_time = device_time, qf_tracking_state = state,
          qf_tracking_confidence = jget m ''tracking_confidence'' JNull, qf_wrist_pose = wrist, qf_palm_pose = palm,
          qf_articulation = articulation, qf_metadata = meta\<rparr>)))))))))))))))))))"

definition parse_quest_frame ::
  "umip_env \<Rightarrow> (string \<Rightarrow> jval option) \<Rightarrow> string \<Rightarrow> (umip_error, quest_frame) res" where
  "parse_quest_frame env loads payload =
     (case loads payload of
        Some (JObj m) \<Rightarrow> as_serialization (quest_frame_fields env m)
      | _ \<Rightarrow> Inl UmSerialization)"

section \<open>The UDP source\<close>

record quest_source =
  qs_allowed_sender :: "string option"
  qs_max_datagram_bytes :: nat
  qs_opened :: bool

text \<open>What \<open>recvfrom\<close> answers: a time-out, an \<open>OSError\<close>, or a datagram with its sender and the text of its port.\<close>

datatype socket_answer = SockTimeout | SockError string | SockDatagram string string string

datatype source_answer = SrcNothing | SrcFrame quest_frame | SrcDisconnected string | SrcRaises umip_error

definition mk_quest_source :: "int \<Rightarrow> string option \<Rightarrow> int \<Rightarrow> (umip_error, quest_source) res" where
  "mk_quest_source port allowed max_bytes =
     (if port < 1 \<or> 65535 < port then Inl UmValue
      else if max_bytes < 1 then Inl UmValue
      else Inr \<lparr>qs_allowed_sender = allowed, qs_max_datagram_bytes = nat max_bytes, qs_opened = False\<rparr>)"

definition quest_source_read ::
  "umip_env \<Rightarrow> (string \<Rightarrow> jval option) \<Rightarrow> quest_source \<Rightarrow> socket_answer \<Rightarrow> source_answer" where
  "quest_source_read env loads src answer =
     (if \<not> qs_opened src then SrcDisconnected ''Quest UDP source is closed''
      else case answer of
        SockTimeout \<Rightarrow> SrcNothing
      | SockError text \<Rightarrow> SrcDisconnected (''Quest UDP receive failed: '' @ text)
      | SockDatagram payload host port \<Rightarrow>
          if qs_allowed_sender src \<noteq> None \<and> qs_allowed_sender src \<noteq> Some host then SrcRaises UmSerialization
          else if qs_max_datagram_bytes src < length payload then SrcRaises UmSerialization
          else (case parse_quest_frame env loads payload of
                  Inl e \<Rightarrow> SrcRaises e
                | Inr f \<Rightarrow> SrcFrame (f\<lparr>qf_metadata := fmupd ''source_endpoint'' (JStr (host @ '':'' @ port)) (qf_metadata f)\<rparr>)))"

section \<open>The provider\<close>

record quest_provider =
  qp_source :: quest_source
  qp_descriptor :: umip_device
  qp_disconnect_timeout_ns :: int
  qp_pending :: "umip_sample list"
  qp_last_sequence :: "side \<Rightarrow> int"
  qp_last_stream_id :: "side \<Rightarrow> string"
  qp_disconnected :: bool
  qp_last_activity_ns :: int

definition mk_quest_provider :: "quest_source \<Rightarrow> umip_device \<Rightarrow> pyfloat \<Rightarrow> (umip_error, quest_provider live_provider) res" where
  "mk_quest_provider src device timeout =
     (if dv_device_type device \<noteq> ''xr_headset'' then Inl UmValue
      else if fle timeout (Fin 0) then Inl UmValue
      else rbind (checked_int (fmul timeout (Fin 1000000000))) (\<lambda>ns.
           Inr (PvClosed, \<lparr>qp_source = src, qp_descriptor = device, qp_disconnect_timeout_ns = ns, qp_pending = [],
             qp_last_sequence = (\<lambda>_. - 1), qp_last_stream_id = (\<lambda>side. dv_device_id device @ ''/'' @ side_name side),
             qp_disconnected = False, qp_last_activity_ns = 0\<rparr>)))"

text \<open>The input of a call: three clock readings, the answer of the socket to a time-out, two fresh
  identifiers, and the name-based identifier of a frame.\<close>

record quest_input =
  qi_first_ns :: int
  qi_second_ns :: int
  qi_third_ns :: int
  qi_socket :: "pyfloat \<Rightarrow> socket_answer"
  qi_ids :: "side \<Rightarrow> string"
  qi_uuid5 :: "string \<Rightarrow> string \<Rightarrow> string \<Rightarrow> int \<Rightarrow> string"
  qi_open_error :: "umip_error option"

definition qp_open :: "quest_input \<Rightarrow> quest_provider \<Rightarrow> quest_provider \<times> (umip_error, unit) res" where
  "qp_open i p =
     (if qs_opened (qp_source p) then (p, Inl UmState)
      else case qi_open_error i of
        Some e \<Rightarrow> (p, Inl e)
      | None \<Rightarrow>
          (p\<lparr>qp_source := (qp_source p)\<lparr>qs_opened := True\<rparr>, qp_pending := [], qp_last_sequence := (\<lambda>_. - 1),
             qp_disconnected := False, qp_last_activity_ns := qi_first_ns i\<rparr>, Inr ()))"

definition qp_close :: "quest_provider \<Rightarrow> quest_provider \<times> (umip_error, unit) res" where
  "qp_close p = (p\<lparr>qp_source := (qp_source p)\<lparr>qs_opened := False\<rparr>, qp_pending := []\<rparr>, Inr ())"

section \<open>Translation\<close>

definition convert_pose :: "umip_env \<Rightarrow> bool \<Rightarrow> pose6d option \<Rightarrow> (umip_error, pose6d option) res" where
  "convert_pose env unity pose =
     (case pose of
        None \<Rightarrow> Inr None
      | Some p \<Rightarrow>
          if unity then (case unity_to_openxr_pose (ue_py env) p of Inl e \<Rightarrow> Inl UmProtocol | Inr q \<Rightarrow> Inr (Some q))
          else Inr (Some p))"

definition convert_joint :: "umip_env \<Rightarrow> bool \<Rightarrow> umip_joint \<Rightarrow> (umip_error, umip_joint) res" where
  "convert_joint env unity j =
     rbind (convert_pose env unity (jn_pose j)) (\<lambda>p. check_joint (j\<lparr>jn_pose := p\<rparr>))"

definition convert_articulation ::
  "umip_env \<Rightarrow> bool \<Rightarrow> umip_articulation option \<Rightarrow> (umip_error, umip_articulation option) res" where
  "convert_articulation env unity articulation =
     (case articulation of
        None \<Rightarrow> Inr None
      | Some a \<Rightarrow>
          rbind (rmap (convert_joint env unity) (ar_joints a)) (\<lambda>joints.
          rbind (check_articulation (a\<lparr>ar_joints := joints\<rparr>)) (\<lambda>b. Inr (Some b))))"

definition host_time :: "int \<Rightarrow> umip_timestamp" where
  "host_time ns = \<lparr>tp_nanoseconds = ns, tp_clock_id = ''host:monotonic'', tp_uncertainty_ns = None\<rparr>"

definition quest_frame_id :: "umip_device \<Rightarrow> quest_frame \<Rightarrow> string" where
  "quest_frame_id device f =
     ''quest/'' @ dv_device_id device @ ''/'' @ qf_session_id f @ ''/'' @ qf_reference_space f @ '':openxr''"

definition quest_metadata :: "quest_frame \<Rightarrow> jobject" where
  "quest_metadata f = fmupd ''reference_space'' (JStr (qf_reference_space f))
     (fmupd ''source_basis'' (JStr (qf_basis f)) (fmupd ''provider'' (JStr ''quest'') (qf_metadata f)))"

definition translate_frame ::
  "umip_env \<Rightarrow> umip_device \<Rightarrow> quest_input \<Rightarrow> quest_frame \<Rightarrow> bool \<Rightarrow> (umip_error, umip_sample) res" where
  "translate_frame env device i f unity =
     rbind (check_timestamp (host_time (qi_second_ns i))) (\<lambda>receive.
     rbind (check_timestamp (host_time (qi_third_ns i))) (\<lambda>processing.
     rbind (convert_pose env unity (qf_wrist_pose f)) (\<lambda>wrist.
     rbind (convert_pose env unity (qf_palm_pose f)) (\<lambda>palm.
     rbind (convert_articulation env unity (qf_articulation f)) (\<lambda>articulation.
     check_umip_sample
       \<lparr>sm_sample_id = qi_uuid5 i (dv_device_id device) (qf_session_id f) (side_name (qf_side f)) (qf_sequence_number f),
        sm_stream_id = qf_stream_id f, sm_sequence_number = qf_sequence_number f, sm_capture = qf_capture f,
        sm_receive = receive, sm_device_time = qf_device_time f, sm_processing = Some processing,
        sm_tracking_state = qf_tracking_state f, sm_tracking_confidence = qf_tracking_confidence f,
        sm_coordinate_frame = quest_frame_id device f, sm_device = device, sm_side = qf_side f, sm_wrist_pose = wrist,
        sm_palm_pose = palm, sm_motion_kind = MotionAbsolute, sm_articulation = articulation,
        sm_metadata = quest_metadata f, sm_extensions = fmempty, sm_protocol_version = umip_version\<rparr>)))))"

definition qp_translate ::
  "umip_env \<Rightarrow> quest_input \<Rightarrow> quest_provider \<Rightarrow> quest_frame \<Rightarrow> quest_provider read_result" where
  "qp_translate env i p f =
     (if qf_basis f \<noteq> ''unity'' \<and> qf_basis f \<noteq> ''openxr'' then (p, False, Inl UmSerialization)
      else (p\<lparr>qp_last_stream_id := (qp_last_stream_id p)(qf_side f := qf_stream_id f)\<rparr>, False,
            rbind (translate_frame env (qp_descriptor p) i f (qf_basis f = ''unity'')) (\<lambda>s. Inr (Some s))))"

section \<open>Lost connections\<close>

definition disconnect_sample :: "quest_provider \<Rightarrow> side \<Rightarrow> string \<Rightarrow> string \<Rightarrow> int \<Rightarrow> (umip_error, umip_sample) res" where
  "disconnect_sample p side ident reason ns =
     rbind (check_timestamp (host_time ns)) (\<lambda>t.
     check_umip_sample
       \<lparr>sm_sample_id = ident, sm_stream_id = qp_last_stream_id p side,
        sm_sequence_number = qp_last_sequence p side, sm_capture = t, sm_receive = t, sm_device_time = None,
        sm_processing = Some t, sm_tracking_state = DISCONNECTED, sm_tracking_confidence = JNull,
        sm_coordinate_frame = ''quest/'' @ dv_device_id (qp_descriptor p) @ ''/disconnected:openxr'',
        sm_device = qp_descriptor p, sm_side = side, sm_wrist_pose = None, sm_palm_pose = None,
        sm_motion_kind = MotionAbsolute, sm_articulation = None,
        sm_metadata = fmap_of_list [(''provider'', JStr ''quest''), (''disconnect_reason'', JStr reason),
          (''event_timestamp_basis'', JStr ''host_disconnect_detection'')],
        sm_extensions = fmempty, sm_protocol_version = umip_version\<rparr>)"

definition queue_side ::
  "quest_input \<Rightarrow> quest_provider \<Rightarrow> side \<Rightarrow> string \<Rightarrow> int \<Rightarrow> quest_provider \<times> (umip_error, unit) res" where
  "queue_side i p side reason ns =
     (let q = p\<lparr>qp_last_sequence := (qp_last_sequence p)(side := qp_last_sequence p side + 1)\<rparr>
      in case disconnect_sample q side (qi_ids i side) reason ns of
           Inl e \<Rightarrow> (q, Inl e)
         | Inr s \<Rightarrow> (q\<lparr>qp_pending := qp_pending q @ [s]\<rparr>, Inr ()))"

definition queue_disconnect ::
  "quest_input \<Rightarrow> quest_provider \<Rightarrow> string \<Rightarrow> int \<Rightarrow> quest_provider \<times> (umip_error, unit) res" where
  "queue_disconnect i p reason ns =
     (case queue_side i p LEFT reason ns of
        (q, Inl e) \<Rightarrow> (q, Inl e)
      | (q, Inr u) \<Rightarrow> queue_side i q RIGHT reason ns)"

definition pop_pending :: "quest_provider \<Rightarrow> quest_provider read_result" where
  "pop_pending p = (case qp_pending p of
      [] \<Rightarrow> (p, False, Inl UmIndex)
    | s # ss \<Rightarrow> (p\<lparr>qp_pending := ss\<rparr>, False, Inr (Some s)))"

definition announce :: "quest_input \<Rightarrow> quest_provider \<Rightarrow> string \<Rightarrow> int \<Rightarrow> quest_provider read_result" where
  "announce i p reason ns =
     (case queue_disconnect i (p\<lparr>qp_disconnected := True\<rparr>) reason ns of
        (q, Inl e) \<Rightarrow> (q, False, Inl e)
      | (q, Inr u) \<Rightarrow> pop_pending q)"

section \<open>Reads\<close>

definition quest_source_timeout :: "quest_provider \<Rightarrow> int \<Rightarrow> pyfloat option \<Rightarrow> pyfloat" where
  "quest_source_timeout p now timeout =
     (let remaining = ns_to_seconds (max 0 (qp_disconnect_timeout_ns p - (now - qp_last_activity_ns p)))
      in case timeout of None \<Rightarrow> remaining | Some t \<Rightarrow> fmin t remaining)"

definition qp_on_frame :: "umip_env \<Rightarrow> quest_input \<Rightarrow> quest_provider \<Rightarrow> quest_frame \<Rightarrow> quest_provider read_result" where
  "qp_on_frame env i p f =
     qp_translate env i
       (p\<lparr>qp_disconnected := False, qp_last_activity_ns := qi_second_ns i,
          qp_last_sequence := (qp_last_sequence p)(qf_side f := max (qp_last_sequence p (qf_side f)) (qf_sequence_number f))\<rparr>) f"

definition qp_on_answer :: "umip_env \<Rightarrow> quest_input \<Rightarrow> quest_provider \<Rightarrow> source_answer \<Rightarrow> quest_provider read_result" where
  "qp_on_answer env i p answer =
     (case answer of
        SrcDisconnected text \<Rightarrow>
          if qp_disconnected p then (p, False, Inr None) else announce i p text (qi_second_ns i)
      | SrcRaises e \<Rightarrow> (p, False, Inl e)
      | SrcNothing \<Rightarrow>
          if \<not> qp_disconnected p \<and> qp_disconnect_timeout_ns p \<le> qi_second_ns i - qp_last_activity_ns p
          then announce i p ''Quest stream timeout'' (qi_second_ns i)
          else (p, False, Inr None)
      | SrcFrame f \<Rightarrow> qp_on_frame env i p f)"

definition qp_read ::
  "umip_env \<Rightarrow> (string \<Rightarrow> jval option) \<Rightarrow> quest_input \<Rightarrow> quest_provider \<Rightarrow> pyfloat option \<Rightarrow> quest_provider read_result" where
  "qp_read env loads i p timeout =
     (if qp_pending p \<noteq> [] then pop_pending p
      else qp_on_answer env i p
             (quest_source_read env loads (qp_source p) (qi_socket i (quest_source_timeout p (qi_first_ns i) timeout))))"

definition quest_impl :: "umip_env \<Rightarrow> (string \<Rightarrow> jval option) \<Rightarrow> (quest_provider, quest_input) provider_impl" where
  "quest_impl env loads = \<lparr>im_open = qp_open, im_close = (\<lambda>i. qp_close), im_read = qp_read env loads\<rparr>"

section \<open>Every sample is well typed\<close>

lemma wire_joint_ok: "wire_joint env v = Inr j \<Longrightarrow> joint_ok env j"
  by (auto simp: wire_joint_def joint_from_dict_ok split: jval.splits)

lemma wire_gesture_ok: "wire_gesture env v = Inr g \<Longrightarrow> gesture_ok g"
  by (auto simp: wire_gesture_def gesture_from_dict_ok split: jval.splits)

text \<open>An articulation the constructor has checked, from checked joints and gestures.\<close>

lemma checked_articulation_ok:
  "check_articulation a = Inr b \<Longrightarrow> list_all (joint_ok env) (ar_joints a) \<Longrightarrow> list_all gesture_ok (ar_gestures a) \<Longrightarrow>
   b = a \<and> articulation_ok env b"
  using check_articulation_iff[of env a b] by simp

lemma wire_articulation_ok:
  assumes "wire_articulation env v = Inr a"
  shows "pred_option (articulation_ok env) a"
proof (cases "v = JNull")
  case False
  with assms obtain js gs joints gestures x b where r: "rmap (wire_joint env) js = Inr joints"
      "rmap (wire_gesture env) gs = Inr gestures" and a: "a = Some b"
      and x: "check_articulation x = Inr b" "ar_joints x = joints" "ar_gestures x = gestures"
    by (fastforce simp: wire_articulation_def)
  have "list_all (joint_ok env) joints" "list_all gesture_ok gestures"
    using rmap_Inr_set[OF r(1)] rmap_Inr_set[OF r(2)]
    by (auto simp: list_all_iff dest!: wire_joint_ok wire_gesture_ok)
  with checked_articulation_ok[OF x(1), of env] x a show ?thesis by auto
qed (use assms in \<open>simp add: wire_articulation_def\<close>)

definition quest_frame_ok :: "umip_env \<Rightarrow> quest_frame \<Rightarrow> bool" where
  "quest_frame_ok env f \<longleftrightarrow> timestamp_ok (qf_capture f) \<and> pred_option timestamp_ok (qf_device_time f)
     \<and> pred_option (umip_pose_ok env) (qf_wrist_pose f) \<and> pred_option (umip_pose_ok env) (qf_palm_pose f)
     \<and> pred_option (articulation_ok env) (qf_articulation f)"

lemma wire_timestamp_ok: "wire_timestamp env v = Inr t \<Longrightarrow> timestamp_ok t"
  by (auto simp: wire_timestamp_def timestamp_item_ok split: jval.splits)

lemma quest_frame_fields_ok: "quest_frame_fields env m = Inr f \<Longrightarrow> quest_frame_ok env f"
  by (auto simp: quest_frame_fields_def quest_frame_ok_def wire_timestamp_ok wire_pose_def pose_from_dict_ok
      wire_articulation_ok split: if_splits)

lemma parse_quest_frame_ok: "parse_quest_frame env loads payload = Inr f \<Longrightarrow> quest_frame_ok env f"
  by (auto simp: parse_quest_frame_def quest_frame_fields_ok split: option.splits jval.splits)

lemma source_frame_ok:
  assumes "quest_source_read env loads src answer = SrcFrame f"
  shows "quest_frame_ok env f"
proof -
  obtain g m where "quest_frame_ok env g" "f = g\<lparr>qf_metadata := m\<rparr>"
    using assms parse_quest_frame_ok
    by (fastforce simp: quest_source_read_def split: if_splits socket_answer.splits sum.splits)
  then show ?thesis by (simp add: quest_frame_ok_def)
qed

lemma convert_pose_ok:
  "convert_pose env unity p = Inr q \<Longrightarrow> pred_option (umip_pose_ok env) p \<Longrightarrow> pred_option (umip_pose_ok env) q"
  by (auto simp: convert_pose_def unity_to_openxr_pose_def mk_pose6d_def umip_pose_ok_def
      split: option.splits if_splits sum.splits)

lemma convert_joint_ok: "convert_joint env unity j = Inr j' \<Longrightarrow> joint_ok env j \<Longrightarrow> joint_ok env j'"
proof -
  assume c: "convert_joint env unity j = Inr j'" and j: "joint_ok env j"
  then obtain p where p: "convert_pose env unity (jn_pose j) = Inr p" "check_joint (j\<lparr>jn_pose := p\<rparr>) = Inr j'"
    by (auto simp: convert_joint_def)
  have "pred_option (umip_pose_ok env) p" using convert_pose_ok[OF p(1)] j by (simp add: joint_ok_def)
  with check_joint_iff[of "j\<lparr>jn_pose := p\<rparr>" j' env] p(2) show ?thesis by simp
qed

lemma convert_articulation_ok:
  assumes "convert_articulation env unity a = Inr b" and "pred_option (articulation_ok env) a"
  shows "pred_option (articulation_ok env) b"
proof (cases a)
  case (Some x)
  with assms obtain joints y where r: "rmap (convert_joint env unity) (ar_joints x) = Inr joints"
    and y: "check_articulation (x\<lparr>ar_joints := joints\<rparr>) = Inr y" "b = Some y" and x: "articulation_ok env x"
    by (auto simp: convert_articulation_def)
  have js: "list_all (joint_ok env) joints"
    using rmap_Inr_set[OF r] x by (auto simp: list_all_iff articulation_ok_def dest!: convert_joint_ok)
  have "list_all gesture_ok (ar_gestures x)" using x by (simp add: articulation_ok_def)
  with checked_articulation_ok[OF y(1), of env] js y(2) show ?thesis by auto
qed (use assms in \<open>simp add: convert_articulation_def\<close>)

lemma translate_frame_ok:
  assumes "translate_frame env device i f unity = Inr s" and f: "quest_frame_ok env f" and d: "device_ok device"
  shows "umip_sample_ok env s"
proof -
  from assms(1) obtain receive processing wrist palm articulation x where
    t: "timestamp_ok receive" "timestamp_ok processing"
    and c: "convert_pose env unity (qf_wrist_pose f) = Inr wrist" "convert_pose env unity (qf_palm_pose f) = Inr palm"
      "convert_articulation env unity (qf_articulation f) = Inr articulation"
    and x: "check_umip_sample x = Inr s" "sm_capture x = qf_capture f" "sm_receive x = receive"
      "sm_device_time x = qf_device_time f" "sm_processing x = Some processing" "sm_device x = device"
      "sm_wrist_pose x = wrist" "sm_palm_pose x = palm" "sm_articulation x = articulation"
    by (fastforce simp: translate_frame_def check_timestamp_iff)
  have "pred_option (umip_pose_ok env) wrist" "pred_option (umip_pose_ok env) palm"
    "pred_option (articulation_ok env) articulation"
    using convert_pose_ok[OF c(1)] convert_pose_ok[OF c(2)] convert_articulation_ok[OF c(3)] f
    by (simp_all add: quest_frame_ok_def)
  with check_umip_sample_iff[of env x s] x t f d show ?thesis
    by (simp add: sample_parts_ok_def quest_frame_ok_def)
qed

definition qp_inv :: "umip_env \<Rightarrow> quest_provider \<Rightarrow> bool" where
  "qp_inv env p \<longleftrightarrow> device_ok (qp_descriptor p) \<and> list_all (umip_sample_ok env) (qp_pending p)"

lemma disconnect_sample_ok:
  assumes "disconnect_sample p side ident reason ns = Inr s" "device_ok (qp_descriptor p)"
  shows "umip_sample_ok env s"
proof -
  from assms(1) obtain t x where t: "timestamp_ok t" and x: "check_umip_sample x = Inr s" "sm_capture x = t" "sm_receive x = t"
      "sm_device_time x = None" "sm_processing x = Some t" "sm_device x = qp_descriptor p"
      "sm_wrist_pose x = None" "sm_palm_pose x = None" "sm_articulation x = None"
    by (fastforce simp: disconnect_sample_def check_timestamp_iff)
  with check_umip_sample_iff[of env x s] assms(2) show ?thesis by (simp add: sample_parts_ok_def)
qed

lemma queue_side_inv: "qp_inv env p \<Longrightarrow> qp_inv env (fst (queue_side i p side reason ns))"
  using disconnect_sample_ok[of _ side "qi_ids i side" reason ns]
  by (fastforce simp: queue_side_def Let_def qp_inv_def split: sum.splits)

lemma announce_inv:
  assumes "qp_inv env p" and "announce i p reason ns = (p', x, r)"
  shows "qp_inv env p' \<and> (\<forall>s. r = Inr (Some s) \<longrightarrow> umip_sample_ok env s)"
proof -
  obtain q a where q: "queue_disconnect i (p\<lparr>qp_disconnected := True\<rparr>) reason ns = (q, a)" by (metis surj_pair)
  have "qp_inv env (p\<lparr>qp_disconnected := True\<rparr>)" using assms(1) by (simp add: qp_inv_def)
  with q queue_side_inv have "qp_inv env q"
    by (auto simp: queue_disconnect_def split: prod.splits sum.splits) (metis fst_conv)+
  with q assms(2) show ?thesis
    by (auto simp: announce_def pop_pending_def qp_inv_def split: sum.splits list.splits)
qed

lemma qp_read_inv:
  assumes "qp_inv env p" and "qp_read env loads i p timeout = (p', x, r)"
  shows "qp_inv env p' \<and> (\<forall>s. r = Inr (Some s) \<longrightarrow> umip_sample_ok env s)"
proof (cases "qp_pending p = []")
  case False
  with assms show ?thesis by (auto simp: qp_read_def pop_pending_def qp_inv_def split: list.splits)
next
  case True
  let ?a = "quest_source_read env loads (qp_source p) (qi_socket i (quest_source_timeout p (qi_first_ns i) timeout))"
  from True assms(2) have r: "qp_on_answer env i p ?a = (p', x, r)" by (simp add: qp_read_def)
  show ?thesis
  proof (cases ?a)
    case (SrcFrame f)
    from source_frame_ok[OF SrcFrame] r SrcFrame assms(1) translate_frame_ok[of env "qp_descriptor p" i f] show ?thesis
      by (auto simp: qp_on_answer_def qp_on_frame_def qp_translate_def qp_inv_def split: if_splits)
  qed (use r assms(1) announce_inv[OF assms(1)] in \<open>auto simp: qp_on_answer_def split: if_splits\<close>)
qed

interpretation quest_typed: typed_provider "quest_impl env loads" "qp_inv env" "umip_sample_ok env" for env loads
proof
  fix p i assume "qp_inv env p"
  then show "qp_inv env (fst (im_open (quest_impl env loads) i p))"
    by (auto simp: quest_impl_def qp_open_def qp_inv_def split: option.splits)
next
  fix p i assume "qp_inv env p"
  then show "qp_inv env (fst (im_close (quest_impl env loads) i p))"
    by (simp add: quest_impl_def qp_close_def qp_inv_def)
next
  fix p i timeout assume "qp_inv env p"
  then show "qp_inv env (fst (im_read (quest_impl env loads) i p timeout))"
    using qp_read_inv[of env p loads i timeout] by (cases "qp_read env loads i p timeout") (simp add: quest_impl_def)
next
  fix p i timeout s
  assume "qp_inv env p" "snd (snd (im_read (quest_impl env loads) i p timeout)) = Inr (Some s)"
  then show "umip_sample_ok env s"
    using qp_read_inv[of env p loads i timeout] by (cases "qp_read env loads i p timeout") (simp add: quest_impl_def)
qed

section \<open>A loss is announced once\<close>

text \<open>A socket that gives no datagram.\<close>

definition silent :: "quest_input \<Rightarrow> bool" where
  "silent i \<longleftrightarrow> (\<forall>t. case qi_socket i t of SockDatagram a b c \<Rightarrow> False | _ \<Rightarrow> True)"

lemma silent_answer:
  "silent i \<Longrightarrow> quest_source_read env loads src (qi_socket i t) = SrcNothing
     \<or> (\<exists>text. quest_source_read env loads src (qi_socket i t) = SrcDisconnected text)"
  by (auto simp: silent_def quest_source_read_def split: socket_answer.splits dest: spec[of _ t])

definition loss_sample :: "umip_sample \<Rightarrow> bool" where
  "loss_sample s \<longleftrightarrow> sm_tracking_state s = DISCONNECTED \<and> sm_wrist_pose s = None \<and> sm_palm_pose s = None"

lemma disconnect_sample_loss:
  "disconnect_sample p side ident reason ns = Inr s \<Longrightarrow> loss_sample s \<and> sm_side s = side"
  by (auto simp: disconnect_sample_def loss_sample_def check_umip_sample_def simp del: json_finite.simps)

text \<open>What has been announced, with what waits: a beginning of the left and the right sample.\<close>

definition loss_inv :: "umip_sample list \<Rightarrow> quest_provider \<Rightarrow> bool" where
  "loss_inv ys p \<longleftrightarrow> (let zs = ys @ qp_pending p in
     list_all loss_sample zs \<and> map sm_side zs \<in> {[], [LEFT], [LEFT, RIGHT]} \<and> (\<not> qp_disconnected p \<longrightarrow> zs = []))"

lemma queue_side_cases:
  assumes "queue_side i p side reason ns = (q, r)"
  shows "qp_disconnected q = qp_disconnected p \<and>
    (case r of Inl e \<Rightarrow> qp_pending q = qp_pending p
     | Inr u \<Rightarrow> (\<exists>s. qp_pending q = qp_pending p @ [s] \<and> loss_sample s \<and> sm_side s = side))"
  using assms by (auto simp: queue_side_def Let_def dest!: disconnect_sample_loss split: sum.splits)

lemma announce_loss:
  assumes "loss_inv [] p" "qp_pending p = []" and "announce i p reason ns = (p', x, r)"
  shows "loss_inv (case r of Inr (Some s) \<Rightarrow> [s] | _ \<Rightarrow> []) p'"
proof -
  let ?p = "p\<lparr>qp_disconnected := True\<rparr>"
  obtain q1 r1 where q1: "queue_side i ?p LEFT reason ns = (q1, r1)" by (metis surj_pair)
  obtain q2 r2 where q2: "queue_side i q1 RIGHT reason ns = (q2, r2)" by (metis surj_pair)
  from queue_side_cases[OF q1] queue_side_cases[OF q2] q1 q2 assms(2,3) show ?thesis
    by (auto simp: announce_def queue_disconnect_def pop_pending_def loss_inv_def split: sum.splits)
qed

lemma silent_read:
  assumes inv: "loss_inv ys p" and "silent i" and rd: "qp_read env loads i p timeout = (p', x, r)"
  shows "loss_inv (ys @ (case r of Inr (Some s) \<Rightarrow> [s] | _ \<Rightarrow> [])) p'"
proof (cases "qp_pending p")
  case (Cons s ss)
  with rd inv show ?thesis by (auto simp: qp_read_def pop_pending_def loss_inv_def)
next
  case Nil
  let ?a = "quest_source_read env loads (qp_source p) (qi_socket i (quest_source_timeout p (qi_first_ns i) timeout))"
  have r: "qp_on_answer env i p ?a = (p', x, r)" using rd Nil by (simp add: qp_read_def)
  have quiet: "ys = []" if "\<not> qp_disconnected p" using inv that by (simp add: loss_inv_def)
  have start: "loss_inv [] p" if "\<not> qp_disconnected p" using Nil that by (simp add: loss_inv_def)
  from silent_answer[OF \<open>silent i\<close>, of env loads "qp_source p" "quest_source_timeout p (qi_first_ns i) timeout"]
  show ?thesis
    using r inv Nil quiet start announce_loss[OF start Nil]
    by (auto simp: qp_on_answer_def split: if_splits)
qed

lemma silent_run:
  assumes "loss_inv ys p" and "\<forall>c \<in> set cs. \<exists>t i. c = CallRead t i \<and> silent i"
    and "mp_run (quest_impl env loads) (st, p) cs = (sp', zs)"
  shows "loss_inv (ys @ zs) (snd sp')"
  using assms
proof (induction cs arbitrary: st p ys zs)
  case (Cons c cs)
  obtain t i where c: "c = CallRead t i" "silent i" using Cons.prems(2) by auto
  obtain st1 p1 r where call: "mp_call (quest_impl env loads) (st, p) c = ((st1, p1), r)" by (metis surj_pair)
  obtain zs' where run: "mp_run (quest_impl env loads) (st1, p1) cs = (sp', zs')"
    and zs: "zs = (case r of Inr (Some s) \<Rightarrow> s # zs' | _ \<Rightarrow> zs')"
    using Cons.prems(3) call by (auto split: prod.splits)
  have one: "loss_inv (ys @ (case r of Inr (Some s) \<Rightarrow> [s] | _ \<Rightarrow> [])) p1"
    using call c(1) Cons.prems(1) silent_read[OF Cons.prems(1) c(2), of env loads t]
    by (auto simp: mp_read_def quest_impl_def split: if_splits prod.splits option.splits)
  have rest: "\<forall>c \<in> set cs. \<exists>t i. c = CallRead t i \<and> silent i" using Cons.prems(2) by simp
  from Cons.IH[OF one rest run] zs show ?case by (auto split: sum.splits option.splits)
qed auto

section \<open>Properties\<close>

text \<open>
  C35. Well-typed providers. Every sample that any provider hands out is well typed: the live Quest provider for all
  datagrams, clock readings and orders of calls, and replay for all files.
\<close>

theorem provider_samples_typed:
  "(\<forall>src device timeout sp cs sp' ys. device_ok device \<and> mk_quest_provider src device timeout = Inr sp
      \<and> mp_run (quest_impl env loads) sp cs = (sp', ys) \<longrightarrow> list_all (umip_sample_ok env) ys)
    \<and> (\<forall>lines mode speed rate sp cs sp' ys. mk_replay env loads lines mode speed rate = Inr sp
      \<and> mp_run (replay_impl env loads) sp cs = (sp', ys) \<longrightarrow> list_all (umip_sample_ok env) ys)"
proof (intro conjI allI impI; elim conjE)
  fix src device timeout sp cs sp' ys
  assume "device_ok device" "mk_quest_provider src device timeout = Inr sp"
    and run: "mp_run (quest_impl env loads) sp cs = (sp', ys)"
  then obtain p where "sp = (PvClosed, p)" "qp_inv env p"
    by (auto simp: mk_quest_provider_def qp_inv_def split: if_splits)
  with run quest_typed.run_good show "list_all (umip_sample_ok env) ys" by blast
next
  fix lines mode speed rate sp cs sp' ys
  assume "mk_replay env loads lines mode speed rate = Inr sp"
    and run: "mp_run (replay_impl env loads) sp cs = (sp', ys)"
  then obtain p where "sp = (PvClosed, p)" "rp_inv env p"
    by (auto simp: mk_replay_def rp_inv_def rp_queue_def split: if_splits)
  with run replay_typed.run_good show "list_all (umip_sample_ok env) ys" by blast
qed

text \<open>
  C38. A lost headset is announced once. While an opened Quest provider receives no datagram, for any number of reads,
  time-outs, socket errors and clock readings, it hands out at most one sample per hand, the left before the right,
  both disconnected and without poses.
\<close>

theorem loss_announced_once:
  assumes "mk_quest_provider src device timeout = Inr sp"
    and "mp_call (quest_impl env loads) sp (CallOpen i) = (sp1, Inr None)"
    and "\<forall>c \<in> set cs. \<exists>t i. c = CallRead t i \<and> silent i"
    and "mp_run (quest_impl env loads) sp1 cs = (sp', ys)"
  shows "list_all loss_sample ys \<and> map sm_side ys \<in> {[], [LEFT], [LEFT, RIGHT]}"
proof -
  from assms(1,2) obtain p where "sp1 = (PvOpened, p)" "loss_inv [] p"
    by (auto simp: mk_quest_provider_def mp_open_def quest_impl_def qp_open_def loss_inv_def
        split: if_splits option.splits prod.splits sum.splits)
  with silent_run[OF _ assms(3), of "[]" p env loads PvOpened sp' ys] assms(4)
  have "loss_inv ys (snd sp')" by simp
  then have "map sm_side ys @ map sm_side (qp_pending (snd sp')) \<in> {[], [LEFT], [LEFT, RIGHT]}" "list_all loss_sample ys"
    by (simp_all add: loss_inv_def Let_def)
  then show ?thesis by (cases ys; cases "tl ys") auto
qed

section \<open>A concrete loss\<close>

definition demo_headset :: umip_device where
  "demo_headset = demo_device\<lparr>dv_device_type := ''xr_headset''\<rparr>"

definition demo_source :: quest_source where
  "demo_source = \<lparr>qs_allowed_sender = None, qs_max_datagram_bytes = 100, qs_opened = False\<rparr>"

definition quiet_input :: "int \<Rightarrow> quest_input" where
  "quiet_input now = \<lparr>qi_first_ns = now, qi_second_ns = now, qi_third_ns = now, qi_socket = (\<lambda>_. SockTimeout),
     qi_ids = (\<lambda>_. ''u''), qi_uuid5 = (\<lambda>_ _ _ _. ''u''), qi_open_error = None\<rparr>"

definition demo_quest_provider :: quest_provider where
  "demo_quest_provider = \<lparr>qp_source = demo_source, qp_descriptor = demo_headset, qp_disconnect_timeout_ns = 1000000000,
     qp_pending = [], qp_last_sequence = (\<lambda>_. - 1),
     qp_last_stream_id = (\<lambda>side. dv_device_id demo_headset @ ''/'' @ side_name side), qp_disconnected = False,
     qp_last_activity_ns = 0\<rparr>"

lemma demo_headset_ok: "device_ok demo_headset"
  by (simp add: demo_headset_def device_ok_def demo_device_def blank_def is_space_def)

lemma demo_mk_quest: "mk_quest_provider demo_source demo_headset (Fin 1) = Inr (PvClosed, demo_quest_provider)"
proof -
  have "round64 1000000000 = Fin 1000000000" using round64_of_int[of 1000000000] by simp
  then show ?thesis
    by (simp add: mk_quest_provider_def demo_headset_def demo_device_def checked_int_def demo_quest_provider_def)
qed

definition opened_quest :: quest_provider where
  "opened_quest = demo_quest_provider\<lparr>qp_source := demo_source\<lparr>qs_opened := True\<rparr>\<rparr>"

lemma demo_open: "mp_call (quest_impl env loads) (PvClosed, demo_quest_provider) (CallOpen (quiet_input 0))
   = ((PvOpened, opened_quest), Inr None)"
  by (simp add: mp_open_def quest_impl_def qp_open_def quiet_input_def demo_quest_provider_def demo_source_def
      opened_quest_def)

lemma demo_blank: "\<not> blank (''quest/d/disconnected:openxr'')" "\<not> blank ''d/left''" "\<not> blank ''d/right''" "\<not> blank ''u''"
  "\<not> blank ''host:monotonic''"
  by (simp_all add: blank_def is_space_def)

lemma demo_disconnect:
  assumes "qp_descriptor p = demo_headset" "qp_last_stream_id p side \<in> {''d/left'', ''d/right''}" "0 \<le> qp_last_sequence p side"
    "0 \<le> ns"
  shows "\<exists>s. disconnect_sample p side ''u'' reason ns = Inr s"
  using assms demo_blank
  by (auto simp: disconnect_sample_def check_timestamp_def host_time_def check_umip_sample_def number_ok_def
      demo_headset_def demo_device_def umip_version_def namespaced_def json_mapping_def intro!: fmpred_upd)

lemma demo_queue_side:
  assumes "qp_descriptor p = demo_headset" "qp_last_stream_id p side \<in> {''d/left'', ''d/right''}"
    "- 1 \<le> qp_last_sequence p side" "0 \<le> ns"
  shows "\<exists>s. queue_side (quiet_input now) p side reason ns
    = (p\<lparr>qp_last_sequence := (qp_last_sequence p)(side := qp_last_sequence p side + 1), qp_pending := qp_pending p @ [s]\<rparr>, Inr ())
    \<and> sm_side s = side"
proof -
  let ?q = "p\<lparr>qp_last_sequence := (qp_last_sequence p)(side := qp_last_sequence p side + 1)\<rparr>"
  obtain s where "disconnect_sample ?q side ''u'' reason ns = Inr s"
    using demo_disconnect[of ?q side ns reason] assms by auto
  with disconnect_sample_loss[OF this] show ?thesis by (intro exI[of _ s]) (simp add: queue_side_def Let_def quiet_input_def)
qed

lemma demo_announced:
  "\<exists>sl sr p'. announce (quiet_input 2000000000) opened_quest reason 2000000000 = (p', False, Inr (Some sl))
     \<and> qp_pending p' = [sr] \<and> sm_side sl = LEFT \<and> sm_side sr = RIGHT"
proof -
  let ?p = "opened_quest\<lparr>qp_disconnected := True\<rparr>"
  have p: "qp_descriptor ?p = demo_headset" "qp_last_stream_id ?p LEFT = ''d/left''" "qp_last_stream_id ?p RIGHT = ''d/right''"
    "qp_last_sequence ?p LEFT = - 1" "qp_last_sequence ?p RIGHT = - 1" "qp_pending ?p = []"
    by (simp_all add: opened_quest_def demo_quest_provider_def demo_headset_def demo_device_def)
  obtain sl where l: "queue_side (quiet_input 2000000000) ?p LEFT reason 2000000000
      = (?p\<lparr>qp_last_sequence := (qp_last_sequence ?p)(LEFT := 0), qp_pending := [sl]\<rparr>, Inr ())" "sm_side sl = LEFT"
    using demo_queue_side[of ?p LEFT 2000000000 2000000000 reason] p by auto
  let ?q = "?p\<lparr>qp_last_sequence := (qp_last_sequence ?p)(LEFT := 0), qp_pending := [sl]\<rparr>"
  obtain sr where r: "queue_side (quiet_input 2000000000) ?q RIGHT reason 2000000000
      = (?q\<lparr>qp_last_sequence := (qp_last_sequence ?q)(RIGHT := 0), qp_pending := [sl, sr]\<rparr>, Inr ())" "sm_side sr = RIGHT"
    using demo_queue_side[of ?q RIGHT 2000000000 2000000000 reason] p by auto
  show ?thesis
    using l r by (simp add: announce_def queue_disconnect_def pop_pending_def)
qed

definition demo_reads :: "quest_input mp_input list" where
  "demo_reads = [CallRead None (quiet_input 2000000000), CallRead None (quiet_input 2000000000)]"

lemma demo_quest_run:
  "\<exists>sp' sl sr. mp_run (quest_impl demo_umip_env demo_loads) (PvOpened, opened_quest) demo_reads = (sp', [sl, sr])
     \<and> sm_side sl = LEFT \<and> sm_side sr = RIGHT"
proof -
  obtain sl sr p' where a: "announce (quiet_input 2000000000) opened_quest ''Quest stream timeout'' 2000000000
      = (p', False, Inr (Some sl))" "qp_pending p' = [sr]" "sm_side sl = LEFT" "sm_side sr = RIGHT"
    using demo_announced by blast
  have "qp_read demo_umip_env demo_loads (quiet_input 2000000000) opened_quest None = (p', False, Inr (Some sl))"
    using a(1) by (simp add: qp_read_def quest_source_read_def qp_on_answer_def opened_quest_def demo_quest_provider_def
        demo_source_def quiet_input_def)
  moreover have "qp_read demo_umip_env demo_loads (quiet_input 2000000000) p' None
      = (p'\<lparr>qp_pending := []\<rparr>, False, Inr (Some sr))"
    using a(2) by (simp add: qp_read_def pop_pending_def)
  ultimately show ?thesis using a(3,4) by (simp add: demo_reads_def mp_read_def quest_impl_def)
qed

lemma demo_silent: "\<forall>c \<in> set demo_reads. \<exists>t i. c = CallRead t i \<and> silent i"
  by (simp add: demo_reads_def silent_def quiet_input_def)

theorem loss_announced_once_witness:
  "\<exists>sp' ys. mp_run (quest_impl demo_umip_env demo_loads) (PvOpened, opened_quest) demo_reads = (sp', ys)
     \<and> list_all loss_sample ys \<and> map sm_side ys = [LEFT, RIGHT]"
proof -
  obtain sp' sl sr where r: "mp_run (quest_impl demo_umip_env demo_loads) (PvOpened, opened_quest) demo_reads = (sp', [sl, sr])"
    "sm_side sl = LEFT" "sm_side sr = RIGHT" using demo_quest_run by blast
  from loss_announced_once[OF demo_mk_quest demo_open demo_silent r(1)] r show ?thesis by auto
qed

theorem provider_samples_typed_witness:
  "\<exists>sp' ys. mp_run (quest_impl demo_umip_env demo_loads) (PvClosed, demo_quest_provider)
       (CallOpen (quiet_input 0) # demo_reads) = (sp', ys) \<and> length ys = 2 \<and> list_all (umip_sample_ok demo_umip_env) ys"
proof -
  obtain sp' sl sr where "mp_run (quest_impl demo_umip_env demo_loads) (PvOpened, opened_quest) demo_reads = (sp', [sl, sr])"
    using demo_quest_run by blast
  then have r: "mp_run (quest_impl demo_umip_env demo_loads) (PvClosed, demo_quest_provider)
       (CallOpen (quiet_input 0) # demo_reads) = (sp', [sl, sr])"
    using demo_open by simp
  from provider_samples_typed[of demo_umip_env demo_loads, THEN conjunct1] demo_headset_ok demo_mk_quest r
  have "list_all (umip_sample_ok demo_umip_env) [sl, sr]" by blast
  with r show ?thesis by (intro exI[of _ sp'] exI[of _ "[sl, sr]"]) simp
qed

end
