(* ===== verification/HtsTransport.thy ===== *)
theory HtsTransport
  imports UmipRecording
begin

text \<open>
  The raw capture of hand-tracking datagrams, \<open>src/motion_input/hts_transport.py\<close>: the checks of a received datagram,
  the writer and the reader of a capture file, and its replay. Base64 is modelled (the decoder as of the
  strict mode of the standard library); the JSON text of a line is an argument, as for the sample recordings.
\<close>

section \<open>Base64\<close>

text \<open>The alphabet by its code points: capital letters, small letters, digits, plus and slash.\<close>

definition b64_char :: "nat \<Rightarrow> char" where
  "b64_char n = char_of
     (if n < 26 then n + 65 else if n < 52 then n + 71 else if n < 62 then n - 4 else if n = 62 then 43 else 47)"

definition b64_value :: "char \<Rightarrow> nat option" where
  "b64_value c =
     (let n = (of_char c :: nat) in
      if 65 \<le> n \<and> n \<le> 90 then Some (n - 65)
      else if 97 \<le> n \<and> n \<le> 122 then Some (n - 71)
      else if 48 \<le> n \<and> n \<le> 57 then Some (n + 4)
      else if n = 43 then Some 62
      else if n = 47 then Some 63
      else None)"

text \<open>Three bytes are four characters of six bits; the last group is padded.\<close>

fun b64_encode :: "nat list \<Rightarrow> string" where
  "b64_encode [] = []"
| "b64_encode [a] = [b64_char (a div 4), b64_char (a mod 4 * 16), CHR ''='', CHR ''='']"
| "b64_encode [a, b] =
     [b64_char (a div 4), b64_char (a mod 4 * 16 + b div 16), b64_char (b mod 16 * 4), CHR ''='']"
| "b64_encode (a # b # c # bs) =
     [b64_char (a div 4), b64_char (a mod 4 * 16 + b div 16), b64_char (b mod 16 * 4 + c div 64), b64_char (c mod 64)]
     @ b64_encode bs"

text \<open>The bytes of a group of four values.\<close>

definition b64_bytes :: "nat \<Rightarrow> nat \<Rightarrow> nat \<Rightarrow> nat \<Rightarrow> nat list" where
  "b64_bytes w x y z = [w * 4 + x div 16, x mod 16 * 16 + y div 4, y mod 4 * 64 + z]"

definition b64_values :: "string \<Rightarrow> nat list option" where
  "b64_values s = those (map b64_value s)"

fun b64_decode :: "string \<Rightarrow> nat list option" where
  "b64_decode [] = Some []"
| "b64_decode (c1 # c2 # c3 # c4 # cs) =
     (if cs = [] \<and> c4 = CHR ''='' \<and> c3 = CHR ''='' then
        (case b64_values [c1, c2] of Some [w, x] \<Rightarrow> Some (take 1 (b64_bytes w x 0 0)) | _ \<Rightarrow> None)
      else if cs = [] \<and> c4 = CHR ''='' then
        (case b64_values [c1, c2, c3] of Some [w, x, y] \<Rightarrow> Some (take 2 (b64_bytes w x y 0)) | _ \<Rightarrow> None)
      else
        (case b64_values [c1, c2, c3, c4] of
           Some [w, x, y, z] \<Rightarrow> map_option (\<lambda>bs. b64_bytes w x y z @ bs) (b64_decode cs)
         | _ \<Rightarrow> None))"
| "b64_decode cs = None"

lemma b64_value_char: "n < 64 \<Longrightarrow> b64_value (b64_char n) = Some n"
  by (auto simp: b64_value_def b64_char_def Let_def)

lemma b64_char_pad: "n < 64 \<Longrightarrow> b64_char n \<noteq> CHR ''=''"
proof
  assume "n < 64" "b64_char n = CHR ''=''"
  moreover have "b64_value (CHR ''='') = None" by (simp add: b64_value_def)
  ultimately show False using b64_value_char[of n] by simp
qed

text \<open>Digits of a mixed sum.\<close>

lemma mixed_digits: "(y :: nat) < m \<Longrightarrow> (x * m + y) div m = x" "(y :: nat) < m \<Longrightarrow> (x * m + y) mod m = y"
  by simp_all

lemma b64_group:
  assumes "a < 256" "b < 256" "c < 256"
  shows "b64_bytes (a div 4) (a mod 4 * 16 + b div 16) (b mod 16 * 4 + c div 64) (c mod 64) = [a, b, c]"
proof -
  have y: "b div 16 < 16" "c div 64 < 4" using assms by simp_all
  show ?thesis unfolding b64_bytes_def mixed_digits[OF y(1)] mixed_digits[OF y(2)] by simp
qed

lemma b64_ranges:
  assumes "a < 256" "b < 256" "c < (256 :: nat)"
  shows "a div 4 < 64" "a mod 4 * 16 + b div 16 < 64" "b mod 16 * 4 + c div 64 < 64" "c mod 64 < 64"
proof -
  have "a mod 4 < 4" "b div 16 < 16" "b mod 16 < 16" "c div 64 < 4" "c mod 64 < 64" using assms by simp_all
  then show "a mod 4 * 16 + b div 16 < 64" "b mod 16 * 4 + c div 64 < 64" "c mod 64 < 64" by linarith+
qed (use assms in simp)

lemma b64_values_chars:
  "list_all (\<lambda>n. n < 64) ns \<Longrightarrow> b64_values (map b64_char ns) = Some ns"
  by (induction ns) (simp_all add: b64_values_def b64_value_char)

lemma b64_roundtrip: "list_all (\<lambda>b. b < 256) bs \<Longrightarrow> b64_decode (b64_encode bs) = Some bs"
proof (induction bs rule: b64_encode.induct)
  case (2 a)
  from b64_ranges[of a 0 0] b64_values_chars[of "[a div 4, a mod 4 * 16]"] b64_group[of a 0 0] 2
  show ?case by (simp add: b64_bytes_def)
next
  case (3 a b)
  have "b64_bytes (a div 4) (a mod 4 * 16 + b div 16) (b mod 16 * 4) 0 = [a, b, 0]"
    using b64_group[of a b 0] 3 by simp
  with b64_ranges[of a b 0] b64_values_chars[of "[a div 4, a mod 4 * 16 + b div 16, b mod 16 * 4]"] 3
  show ?case by (simp add: b64_char_pad)
next
  case (4 a b c bs)
  let ?ns = "[a div 4, a mod 4 * 16 + b div 16, b mod 16 * 4 + c div 64, c mod 64]"
  have r: "list_all (\<lambda>n. n < 64) ?ns" using b64_ranges[of a b c] 4(2) by simp
  have g: "b64_bytes (a div 4) (a mod 4 * 16 + b div 16) (b mod 16 * 4 + c div 64) (c mod 64) = [a, b, c]"
    using b64_group[of a b c] 4(2) by simp
  have "b64_decode (b64_encode bs) = Some bs" using 4 by simp
  with b64_values_chars[OF r] g r show ?case by (simp add: b64_char_pad)
qed simp

section \<open>The receiver\<close>

record received_datagram =
  rd_payload :: bytes
  rd_source_address :: string
  rd_source_port :: int
  rd_receive_ns :: int
  rd_unix_ns :: int

definition int_text :: "int \<Rightarrow> string" where
  "int_text n = (if n < 0 then CHR ''-'' # map char_of (show_nat (nat (- n))) else map char_of (show_nat (nat n)))"

definition source_endpoint :: "received_datagram \<Rightarrow> string" where
  "source_endpoint d = rd_source_address d @ '':'' @ int_text (rd_source_port d)"

record hts_receiver =
  hr_allowed_sender :: "string option"
  hr_max_bytes :: nat
  hr_open :: bool

definition mk_hts_receiver :: "int \<Rightarrow> string option \<Rightarrow> int \<Rightarrow> (umip_error, hts_receiver) res" where
  "mk_hts_receiver port allowed max_bytes =
     (if \<not> (1 \<le> port \<and> port \<le> 65535) then Inl UmValue
      else if max_bytes < 1 \<or> 65535 < max_bytes then Inl UmValue
      else Inr \<lparr>hr_allowed_sender = allowed, hr_max_bytes = nat max_bytes, hr_open = False\<rparr>)"

datatype recv_answer = RecvTimeout | RecvError | RecvDatagram bytes string int

definition hr_receive ::
  "hts_receiver \<Rightarrow> pyfloat option \<Rightarrow> recv_answer \<Rightarrow> int \<Rightarrow> int \<Rightarrow> (umip_error, received_datagram option) res" where
  "hr_receive rv timeout answer monotonic_ns unix_ns =
     (if \<not> hr_open rv then Inl UmDisconnected
      else if (case timeout of None \<Rightarrow> False | Some t \<Rightarrow> flt t (Fin 0)) then Inl UmValue
      else case answer of
        RecvTimeout \<Rightarrow> Inr None
      | RecvError \<Rightarrow> Inl UmDisconnected
      | RecvDatagram payload address port \<Rightarrow>
          if hr_max_bytes rv < length payload then Inl UmSerialization
          else if hr_allowed_sender rv \<noteq> None \<and> hr_allowed_sender rv \<noteq> Some address then Inl UmSerialization
          else Inr (Some \<lparr>rd_payload = payload, rd_source_address = address, rd_source_port = port,
                      rd_receive_ns = monotonic_ns, rd_unix_ns = unix_ns\<rparr>))"

section \<open>Capture files\<close>

definition b64_text :: "bytes \<Rightarrow> string" where
  "b64_text payload = b64_encode (map unat payload)"

definition b64_payload :: "string \<Rightarrow> (umip_error, bytes) res" where
  "b64_payload s = (case b64_decode s of None \<Rightarrow> Inl UmValue | Some ns \<Rightarrow> Inr (map of_nat ns))"

lemma b64_payload_text [simp]: "b64_payload (b64_text payload) = Inr payload"
proof -
  have "unat b < 256" for b :: "8 word"
  proof -
    have "(unsigned b :: nat) < 2 ^ LENGTH(8)" by (rule unsigned_less)
    then show ?thesis by simp
  qed
  then have "list_all (\<lambda>n. n < 256) (map unat payload)" by (simp add: list_all_iff)
  from b64_roundtrip[OF this] show ?thesis by (simp add: b64_payload_def b64_text_def comp_def)
qed

record capture_file =
  cf_metadata :: jobject
  cf_handle :: bool
  cf_lines :: "string list"
  cf_datagram_count :: int

definition new_capture :: "jobject \<Rightarrow> capture_file" where
  "new_capture metadata = \<lparr>cf_metadata = metadata, cf_handle = False, cf_lines = [], cf_datagram_count = 0\<rparr>"

definition cf_write_line :: "(jval \<Rightarrow> string option) \<Rightarrow> capture_file \<Rightarrow> jval \<Rightarrow> capture_file \<times> (umip_error, unit) res" where
  "cf_write_line dumps w r =
     (case dumps r of None \<Rightarrow> (w, Inl UmType) | Some t \<Rightarrow> (w\<lparr>cf_lines := cf_lines w @ [t]\<rparr>, Inr ()))"

definition capture_header :: "jobject \<Rightarrow> int \<Rightarrow> jval" where
  "capture_header metadata created_ns = JObj (fmap_of_list
     [(''record_type'', JStr ''header''), (''format'', JStr ''hts-raw-jsonl''), (''version'', JStr ''1.0''),
      (''created_unix_ns'', JInt created_ns), (''metadata'', JObj metadata)])"

definition capture_record :: "received_datagram \<Rightarrow> jval" where
  "capture_record d = JObj (fmap_of_list
     [(''record_type'', JStr ''datagram''), (''payload_base64'', JStr (b64_text (rd_payload d))),
      (''source_address'', JStr (rd_source_address d)), (''source_port'', JInt (rd_source_port d)),
      (''receive_monotonic_ns'', JInt (rd_receive_ns d)), (''receive_unix_ns'', JInt (rd_unix_ns d))])"

definition capture_footer :: "int \<Rightarrow> int \<Rightarrow> jval" where
  "capture_footer count closed_ns = JObj (fmap_of_list
     [(''record_type'', JStr ''footer''), (''datagram_count'', JInt count), (''closed_unix_ns'', JInt closed_ns)])"

definition cf_open :: "(jval \<Rightarrow> string option) \<Rightarrow> capture_file \<Rightarrow> bool \<Rightarrow> int \<Rightarrow> capture_file \<times> (umip_error, unit) res" where
  "cf_open dumps w exists created_ns =
     (if cf_handle w then (w, Inl UmState)
      else if exists then (w, Inl UmExists)
      else cf_write_line dumps (w\<lparr>cf_handle := True, cf_lines := []\<rparr>) (capture_header (cf_metadata w) created_ns))"

definition cf_write :: "(jval \<Rightarrow> string option) \<Rightarrow> capture_file \<Rightarrow> received_datagram \<Rightarrow> capture_file \<times> (umip_error, unit) res" where
  "cf_write dumps w d =
     (if \<not> cf_handle w then (w, Inl UmState)
      else case cf_write_line dumps w (capture_record d) of
             (w', Inl e) \<Rightarrow> (w', Inl e)
           | (w', Inr u) \<Rightarrow> (w'\<lparr>cf_datagram_count := cf_datagram_count w' + 1\<rparr>, Inr ()))"

text \<open>\<open>close\<close> keeps the handle when the footer cannot be written.\<close>

definition cf_close :: "(jval \<Rightarrow> string option) \<Rightarrow> capture_file \<Rightarrow> int \<Rightarrow> capture_file \<times> (umip_error, unit) res" where
  "cf_close dumps w closed_ns =
     (if \<not> cf_handle w then (w, Inr ())
      else case cf_write_line dumps w (capture_footer (cf_datagram_count w) closed_ns) of
             (w', Inl e) \<Rightarrow> (w', Inl e)
           | (w', Inr u) \<Rightarrow> (w'\<lparr>cf_handle := False\<rparr>, Inr ()))"

section \<open>Reading a capture\<close>

definition load_record :: "(string \<Rightarrow> jval option) \<Rightarrow> string \<Rightarrow> (umip_error, jobject) res" where
  "load_record loads line =
     (case loads line of None \<Rightarrow> Inl UmSerialization | Some v \<Rightarrow> mapping_of v)"

definition datagram_of_record :: "umip_env \<Rightarrow> jobject \<Rightarrow> (umip_error, received_datagram) res" where
  "datagram_of_record env m = as_serialization (
     rbind (jreq m ''payload_base64'') (\<lambda>b.
     rbind (b64_payload (str_of env b)) (\<lambda>payload.
     rbind (jreq m ''source_address'') (\<lambda>a.
     rbind (jreq m ''source_port'') (\<lambda>p.
     rbind (int_of env p) (\<lambda>port.
     rbind (jreq m ''receive_monotonic_ns'') (\<lambda>t.
     rbind (int_of env t) (\<lambda>receive_ns.
     rbind (jreq m ''receive_unix_ns'') (\<lambda>u.
     rbind (int_of env u) (\<lambda>unix_ns.
     Inr \<lparr>rd_payload = payload, rd_source_address = str_of env a, rd_source_port = port,
          rd_receive_ns = receive_ns, rd_unix_ns = unix_ns\<rparr>))))))))))"

fun capture_lines ::
  "umip_env \<Rightarrow> (string \<Rightarrow> jval option) \<Rightarrow> string list \<Rightarrow> received_datagram list \<times> (umip_error, unit) res" where
  "capture_lines env loads [] = ([], Inr ())"
| "capture_lines env loads (l # ls) =
     (if blank l then capture_lines env loads ls
      else case load_record loads l of
        Inl e \<Rightarrow> ([], Inl e)
      | Inr m \<Rightarrow>
          if jget m ''record_type'' JNull = JStr ''footer'' then ([], Inr ())
          else if jget m ''record_type'' JNull \<noteq> JStr ''datagram'' then ([], Inl UmSerialization)
          else (case datagram_of_record env m of
                  Inl e \<Rightarrow> ([], Inl e)
                | Inr d \<Rightarrow> (case capture_lines env loads ls of (ds, r) \<Rightarrow> (d # ds, r))))"

definition capture_header_ok :: "umip_env \<Rightarrow> jobject \<Rightarrow> bool" where
  "capture_header_ok env m \<longleftrightarrow> jget m ''record_type'' JNull = JStr ''header''
     \<and> jget m ''format'' JNull = JStr ''hts-raw-jsonl''
     \<and> major_version (str_of env (jget m ''version'' (JStr []))) = ''1''"

definition read_capture ::
  "umip_env \<Rightarrow> (string \<Rightarrow> jval option) \<Rightarrow> string list \<Rightarrow> received_datagram list \<times> (umip_error, unit) res" where
  "read_capture env loads lines =
     (case lines of
        [] \<Rightarrow> ([], Inl UmSerialization)
      | l # ls \<Rightarrow>
          (case load_record loads l of
             Inl e \<Rightarrow> ([], Inl e)
           | Inr m \<Rightarrow> if capture_header_ok env m then capture_lines env loads ls else ([], Inl UmSerialization)))"

text \<open>\<open>replay_datagrams\<close>: each datagram with the sleep before it.\<close>

fun paced :: "pyfloat \<Rightarrow> received_datagram option \<Rightarrow> received_datagram list \<Rightarrow> (pyfloat option \<times> received_datagram) list" where
  "paced speed previous [] = []"
| "paced speed previous (d # ds) =
     (case previous of
        None \<Rightarrow> (None, d)
      | Some q \<Rightarrow> (Some (fdiv (ns_to_seconds (max 0 (rd_receive_ns d - rd_receive_ns q))) speed), d))
     # paced speed (Some d) ds"

definition replay_datagrams ::
  "umip_env \<Rightarrow> (string \<Rightarrow> jval option) \<Rightarrow> string list \<Rightarrow> bool \<Rightarrow> pyfloat \<Rightarrow>
   (pyfloat option \<times> received_datagram) list \<times> (umip_error, unit) res" where
  "replay_datagrams env loads lines as_recorded speed =
     (if fle speed (Fin 0) then ([], Inl UmValue)
      else case read_capture env loads lines of
        (ds, r) \<Rightarrow> (if as_recorded then paced speed None ds else map (Pair None) ds, r))"

section \<open>What was captured is read back\<close>

lemma capture_record_read: "\<exists>m. capture_record d = JObj m \<and> datagram_of_record env m = Inr d
    \<and> jget m ''record_type'' JNull = JStr ''datagram''"
  by (cases d) (simp add: capture_record_def datagram_of_record_def str_of_def jreq_def jget_def)

lemma capture_lines_read:
  assumes codec: "json_codec dumps loads"
    and ts: "map Some ts = map (\<lambda>d. dumps (capture_record d)) ds"
  shows "capture_lines env loads (ts @ ls) = (case capture_lines env loads ls of (es, r) \<Rightarrow> (ds @ es, r))"
  using ts
proof (induction ds arbitrary: ts)
  case (Cons d ds)
  then obtain t ts' where t: "ts = t # ts'" "dumps (capture_record d) = Some t"
    "map Some ts' = map (\<lambda>d. dumps (capture_record d)) ds" by (cases ts) auto
  obtain m where m: "capture_record d = JObj m" "datagram_of_record env m = Inr d"
    "jget m ''record_type'' JNull = JStr ''datagram''" using capture_record_read by blast
  from codec t(2) m(1) have "loads t = Some (JObj m)" "\<not> blank t" by (auto simp: json_codec_def)
  with t(1) m Cons.IH[OF t(3)] show ?case by (simp add: load_record_def split: prod.splits)
qed (simp split: prod.splits)

text \<open>Any prefix of complete lines, the header at least, reads back as the datagrams written in it.\<close>

lemma capture_prefix_read:
  assumes codec: "json_codec dumps loads"
    and h: "dumps (capture_header metadata ns) = Some h" and ts: "map Some ts = map (\<lambda>d. dumps (capture_record d)) ds"
  shows "read_capture env loads (h # ts) = (ds, Inr ())"
    and "dumps (capture_footer n ns') = Some f \<Longrightarrow> read_capture env loads (h # ts @ f # junk) = (ds, Inr ())"
proof -
  obtain m where m: "capture_header metadata ns = JObj m" by (simp add: capture_header_def)
  have hd: "load_record loads h = Inr m" using codec h m by (auto simp: load_record_def json_codec_def)
  have ok: "capture_header_ok env m"
    using m by (auto simp: capture_header_def capture_header_ok_def jget_def str_of_def major_version_def)
  show "read_capture env loads (h # ts) = (ds, Inr ())"
    using hd ok capture_lines_read[OF codec ts, of env "[]"] by (simp add: read_capture_def)
  assume f: "dumps (capture_footer n ns') = Some f"
  then have "loads f = Some (capture_footer n ns')" "\<not> blank f" using codec by (auto simp: json_codec_def)
  then have "capture_lines env loads (f # junk) = ([], Inr ())"
    by (simp add: load_record_def capture_footer_def jget_def)
  then show "read_capture env loads (h # ts @ f # junk) = (ds, Inr ())"
    using hd ok capture_lines_read[OF codec ts, of env "f # junk"] by (simp add: read_capture_def)
qed

end
