(* ===== verification/HtsReplayGate.thy ===== *)
theory HtsReplayGate
  imports HtsOperatorSafety HtsTransport TransportGate
begin

text \<open>
  The evaluation of a captured hand-tracking session, \<open>evaluate_required_right_hand_recording\<close> of
  \<open>src/motion_input/hts_gate.py\<close>: every datagram goes through the parser, the assembler and the right-hand operator;
  losses of the right hand are recorded with what the operator did and how it recovered. An exception the code does
  not catch ends the evaluation. The source keeps the active interruption as a reference into the list; here it
  is its position.
\<close>

section \<open>State\<close>

record interruption =
  it_last_valid_ns :: int
  it_stale_observed_ns :: int
  it_head_valid :: bool
  it_was_engaged :: bool
  it_disengaged :: bool
  it_invalidated :: bool
  it_reason :: "string option"
  it_recovery_ns :: "int option"
  it_recovery_joints :: "int option"
  it_recovery_neutral :: "bool option"

record gate_eval =
  ev_assembler :: assembler
  ev_pipeline :: op_pipeline
  ev_previous_valid :: bool
  ev_last_valid_ns :: "int option"
  ev_last_right_sequence :: "int option"
  ev_arm_sequence :: "int option"
  ev_active :: "nat option"
  ev_interruptions :: "interruption list"
  ev_tracked :: nat
  ev_retaining :: nat
  ev_malformed :: nat
  ev_auto_done :: bool

datatype eval_error =
    EvReader umip_error | EvConfig operator_error | EvAssembler canonical_error | EvConversion conv_error
  | EvParse hts_error | EvCanonical canonical_error | EvOperator operator_error

definition mk_gate_eval :: "pyfloat \<Rightarrow> (eval_error, gate_eval) res" where
  "mk_gate_eval stale_after_s =
     (case op_config_with_stale stale_after_s of
        Inl e \<Rightarrow> Inl (EvConfig e)
      | Inr c \<Rightarrow>
          (case mk_assembler stale_after_s of
             Inl e \<Rightarrow> Inl (EvAssembler e)
           | Inr a \<Rightarrow> Inr \<lparr>ev_assembler = a, ev_pipeline = new_op_pipeline c, ev_previous_valid = False,
                      ev_last_valid_ns = None, ev_last_right_sequence = None, ev_arm_sequence = None,
                      ev_active = None, ev_interruptions = [], ev_tracked = 0, ev_retaining = 0,
                      ev_malformed = 0, ev_auto_done = False\<rparr>))"

definition plain_request :: "bool \<Rightarrow> bool \<Rightarrow> op_requests" where
  "plain_request engage capture =
     \<lparr>rq_engage = engage, rq_capture = capture, rq_disengage = False, rq_frozen = False, rq_malformed = False\<rparr>"

section \<open>Interruptions\<close>

text \<open>The record of a loss: the pipeline before and after the step that saw it.\<close>

definition new_interruption :: "op_pipeline \<Rightarrow> op_pipeline \<Rightarrow> int \<Rightarrow> canonical_state \<Rightarrow> interruption" where
  "new_interruption before after last_valid st =
     \<lparr>it_last_valid_ns = last_valid, it_stale_observed_ns = cs_host_monotonic_ns st,
      it_head_valid = (cs_head st \<noteq> None), it_was_engaged = (op_state before = OpEngaged),
      it_disengaged = (op_state after = OpDisengaged), it_invalidated = (op_reference_pose after = None),
      it_reason = (if length (op_transitions before) < length (op_transitions after)
                   then Some (ot_reason (last (op_transitions after))) else None),
      it_recovery_ns = None, it_recovery_joints = None, it_recovery_neutral = None\<rparr>"

definition add_interruption :: "gate_eval \<Rightarrow> interruption \<Rightarrow> gate_eval" where
  "add_interruption s i =
     s\<lparr>ev_interruptions := ev_interruptions s @ [i], ev_active := Some (length (ev_interruptions s))\<rparr>"

definition recover :: "gate_eval \<Rightarrow> op_pipeline \<Rightarrow> hand_observation \<Rightarrow> operator_target \<Rightarrow> gate_eval" where
  "recover s p right out =
     (case ev_active s of
        None \<Rightarrow> s
      | Some k \<Rightarrow>
          s\<lparr>ev_interruptions := (ev_interruptions s)[k := (ev_interruptions s ! k)\<lparr>
               it_recovery_ns := ho_receive_ns right, it_recovery_joints := Some (int (length (ho_joints right))),
               it_recovery_neutral := Some (op_state p = OpDisengaged \<and> \<not> og_valid_for_mapping out
                 \<and> og_emergency_neutral out)\<rparr>],
            ev_active := None\<rparr>)"

section \<open>One datagram\<close>

text \<open>A step of the operator inside the evaluation: an exception ends it.\<close>

definition ev_step ::
  "math_env \<Rightarrow> op_pipeline \<Rightarrow> canonical_state \<Rightarrow> op_requests \<Rightarrow> (eval_error, op_pipeline \<times> operator_target) res" where
  "ev_step env p quest rq =
     (case op_step env p quest rq of (p', Inl e) \<Rightarrow> Inl (EvOperator e) | (p', Inr t) \<Rightarrow> Inr (p', t))"

text \<open>The boundary at which the last valid sample becomes stale, when the datagram is past it.\<close>

definition stale_boundary :: "int \<Rightarrow> gate_eval \<Rightarrow> int \<Rightarrow> (int \<times> int) option" where
  "stale_boundary stale_after s receive_ns =
     (case ev_last_valid_ns s of
        None \<Rightarrow> None
      | Some l \<Rightarrow> if ev_previous_valid s \<and> l + stale_after + 1 \<le> receive_ns then Some (l, l + stale_after + 1) else None)"

definition at_boundary :: "math_env \<Rightarrow> gate_eval \<Rightarrow> (int \<times> int) option \<Rightarrow> (eval_error, gate_eval) res" where
  "at_boundary env s boundary =
     (case boundary of
        None \<Rightarrow> Inr s
      | Some (l, t) \<Rightarrow>
          (case ha_state (me_py env) (ev_assembler s) t [] of
             Inl e \<Rightarrow> Inl (EvCanonical e)
           | Inr st \<Rightarrow>
               rbind (ev_step env (ev_pipeline s) st (plain_request False False)) (\<lambda>(p, out).
               Inr ((add_interruption s (new_interruption (ev_pipeline s) p l st))
                      \<lparr>ev_pipeline := p, ev_previous_valid := False\<rparr>))))"

text \<open>\<open>except SerializationError\<close>: count, and fault the operator.\<close>

definition malformed_datagram :: "gate_eval \<Rightarrow> assembler \<Rightarrow> int \<Rightarrow> gate_eval" where
  "malformed_datagram s a ns =
     s\<lparr>ev_assembler := a, ev_malformed := ev_malformed s + 1,
       ev_pipeline := fst (op_force_fault (ev_pipeline s) ns ''malformed_recorded_datagram'')\<rparr>"

text \<open>What the evaluation counts of the right hand.\<close>

definition count_right :: "gate_eval \<Rightarrow> hand_observation \<Rightarrow> gate_eval" where
  "count_right s right =
     (let s1 = (if ho_tracking_valid right
                   \<and> int (length (ho_joints right)) = oc_required_joint_count (op_config (ev_pipeline s))
                   \<and> ho_host_sequence_number right \<noteq> ev_last_right_sequence s
                then s\<lparr>ev_tracked := ev_tracked s + 1, ev_last_right_sequence := ho_host_sequence_number right\<rparr>
                else s)
      in if \<not> ho_tracking_valid right \<and> (ho_wrist_pose right \<noteq> None \<or> ho_joints right \<noteq> [])
         then s1\<lparr>ev_retaining := ev_retaining s1 + 1\<rparr> else s1)"

text \<open>The automatic requests: engage once before any interruption, capture at the next sample.\<close>

definition auto_requests :: "gate_eval \<Rightarrow> hand_observation \<Rightarrow> gate_eval \<times> op_requests" where
  "auto_requests s right =
     (if ho_tracking_valid right \<and> op_state (ev_pipeline s) = OpDisengaged then
        (if \<not> ev_auto_done s \<and> ev_active s = None
         then (s\<lparr>ev_arm_sequence := ho_host_sequence_number right\<rparr>, plain_request True False)
         else (s, plain_request False False))
      else if ho_tracking_valid right \<and> op_state (ev_pipeline s) = OpArmed
              \<and> ho_host_sequence_number right \<noteq> ev_arm_sequence s
      then (s\<lparr>ev_auto_done := True\<rparr>, plain_request False True)
      else (s, plain_request False False))"

text \<open>What happens after the step: a loss, a recovery, or neither.\<close>

definition after_step ::
  "gate_eval \<Rightarrow> op_pipeline \<Rightarrow> canonical_state \<Rightarrow> op_pipeline \<times> operator_target \<Rightarrow> gate_eval" where
  "after_step s before st res =
     (case res of (p, out) \<Rightarrow>
      let right = cs_right st;
          s1 = (case ev_last_valid_ns s of
                  Some l \<Rightarrow>
                    if ev_previous_valid s \<and> \<not> ho_tracking_valid right
                    then add_interruption s (new_interruption before p l st)
                    else if \<not> ev_previous_valid s \<and> ho_tracking_valid right then recover s p right out else s
                | None \<Rightarrow> if \<not> ev_previous_valid s \<and> ho_tracking_valid right then recover s p right out else s)
      in s1\<lparr>ev_pipeline := p,
            ev_last_valid_ns := (if ho_tracking_valid right then ho_receive_ns right else ev_last_valid_ns s1),
            ev_previous_valid := ho_tracking_valid right\<rparr>)"

definition on_state :: "math_env \<Rightarrow> gate_eval \<Rightarrow> canonical_state \<Rightarrow> (eval_error, gate_eval) res" where
  "on_state env s st =
     (case auto_requests (count_right s (cs_right st)) (cs_right st) of
        (s1, rq) \<Rightarrow> rbind (ev_step env (ev_pipeline s1) st rq) (\<lambda>res. Inr (after_step s1 (ev_pipeline s1) st res)))"

definition on_datagram :: "math_env \<Rightarrow> gate_eval \<Rightarrow> received_datagram \<Rightarrow> (eval_error, gate_eval) res" where
  "on_datagram env s d =
     (case parse_hts_datagram (me_py env) (rd_payload d) of
        Inl e \<Rightarrow> if e = HtsIntDigitLimit then Inl (EvParse e)
                 else Inr (malformed_datagram s (ev_assembler s) (rd_receive_ns d))
      | Inr packets \<Rightarrow>
          (case ha_ingest (me_py env) (ev_assembler s) packets (rd_receive_ns d) (source_endpoint d)
                  (length (rd_payload d)) of
             (a, Inl e) \<Rightarrow> if assembler_caught e then Inr (malformed_datagram s a (rd_receive_ns d))
                           else Inl (EvCanonical e)
           | (a, Inr st) \<Rightarrow> on_state env (s\<lparr>ev_assembler := a\<rparr>) st))"

definition eval_datagram :: "math_env \<Rightarrow> int \<Rightarrow> gate_eval \<Rightarrow> received_datagram \<Rightarrow> (eval_error, gate_eval) res" where
  "eval_datagram env stale_after s d =
     rbind (at_boundary env s (stale_boundary stale_after s (rd_receive_ns d))) (\<lambda>s1. on_datagram env s1 d)"

fun eval_datagrams ::
  "math_env \<Rightarrow> int \<Rightarrow> gate_eval \<Rightarrow> received_datagram list \<Rightarrow> (eval_error, gate_eval) res" where
  "eval_datagrams env stale_after s [] = Inr s"
| "eval_datagrams env stale_after s (d # ds) = rbind (eval_datagram env stale_after s d) (\<lambda>s1. eval_datagrams env stale_after s1 ds)"

section \<open>The verdict\<close>

definition publication_gap :: "interruption \<Rightarrow> pyfloat option" where
  "publication_gap i = (case it_recovery_ns i of None \<Rightarrow> None | Some r \<Rightarrow> Some (ns_to_seconds (r - it_last_valid_ns i)))"

definition observation_delay :: "interruption \<Rightarrow> pyfloat" where
  "observation_delay i = ns_to_seconds (it_stale_observed_ns i - it_last_valid_ns i)"

definition qualifying :: "pyfloat \<Rightarrow> int \<Rightarrow> interruption \<Rightarrow> bool" where
  "qualifying stale_after_s joints i \<longleftrightarrow> publication_gap i \<noteq> None \<and> fle stale_after_s (observation_delay i)
     \<and> it_head_valid i \<and> it_was_engaged i \<and> it_disengaged i \<and> it_invalidated i
     \<and> it_reason i = Some ''right_hand_stale'' \<and> it_recovery_joints i = Some joints
     \<and> it_recovery_neutral i = Some True"

record gate_report =
  gp_passed :: bool
  gp_tracked :: nat
  gp_retaining :: nat
  gp_malformed :: nat
  gp_interruptions :: "interruption list"
  gp_qualifying :: nat
  gp_transitions :: "operator_transition list"

definition gate_verdict :: "pyfloat \<Rightarrow> gate_eval \<Rightarrow> gate_report" where
  "gate_verdict stale_after_s s =
     (let good = filter (qualifying stale_after_s (oc_required_joint_count (op_config (ev_pipeline s)))) (ev_interruptions s)
      in \<lparr>gp_passed = (0 < ev_tracked s \<and> ev_retaining s = 0 \<and> ev_malformed s = 0 \<and> good \<noteq> []),
          gp_tracked = ev_tracked s, gp_retaining = ev_retaining s, gp_malformed = ev_malformed s,
          gp_interruptions = ev_interruptions s, gp_qualifying = length good,
          gp_transitions = op_transitions (ev_pipeline s)\<rparr>)"

definition evaluate_recording ::
  "umip_env \<Rightarrow> math_env \<Rightarrow> (string \<Rightarrow> jval option) \<Rightarrow> string list \<Rightarrow> pyfloat \<Rightarrow> (eval_error, gate_report) res" where
  "evaluate_recording uenv env loads lines stale_after_s =
     rbind (mk_gate_eval stale_after_s) (\<lambda>s.
     case seconds_to_ns stale_after_s of
       Inl e \<Rightarrow> Inl (EvConversion e)
     | Inr stale_after \<Rightarrow>
         (case replay_datagrams uenv loads lines False (Fin 1) of
            (ds, r) \<Rightarrow>
              rbind (eval_datagrams env stale_after s (map snd ds)) (\<lambda>s1.
              case r of Inl e \<Rightarrow> Inl (EvReader e) | Inr u \<Rightarrow> Inr (gate_verdict stale_after_s s1))))"

end
