(* ===== verification/HtsReplaySafety.thy ===== *)
theory HtsReplaySafety
  imports HtsReplayGate
begin

text \<open>
  What the evaluation of a capture, \<open>src/motion_input/hts_gate.py\<close>, establishes about every capture: each recorded
  loss disengaged the operator and dropped its reference, a recovery is neutral, and at most one loss can hit an
  engaged operator. The invariant links the last valid sample to the cache of the assembler, so that the
  evaluated boundary is one where the assembler no longer reports the hand.
\<close>

section \<open>A snapshot of parsed packets does not raise what the evaluation catches\<close>

text \<open>Documented behaviour of the square root of a sum of squares: finite numbers do not give a NaN.\<close>

definition norm_real :: "py_env \<Rightarrow> bool" where
  "norm_real env \<longleftrightarrow> (\<forall>q. list_all is_finite (quat_list q) \<longrightarrow> pe_norm env q \<noteq> NaN)"

definition head_ok :: "py_env \<Rightarrow> assembler \<Rightarrow> bool" where
  "head_ok env a \<longleftrightarrow> (\<forall>p r. ha_head a = Some (p, r) \<longrightarrow> pose_ok env p)"

lemma norm_accepted_finite: "norm_accepted n \<Longrightarrow> n \<noteq> NaN \<Longrightarrow> is_finite n \<and> \<not> fle n hts_norm_minimum"
  by (cases n) (auto simp: norm_accepted_def hts_norm_minimum_def hts_norm_tolerance_def fsub_def)

lemma canonical_pose_uncaught:
  assumes "norm_real env" "pose_ok env p"
    and "canonical_pose env (pp_position_m p) (pp_orientation_xyzw p) = Inl e"
  shows "e = CanonPose"
proof -
  let ?q = "pp_orientation_xyzw p"
  have fin: "list_all is_finite (quat_list ?q)" and acc: "norm_accepted (pe_norm env ?q)"
    using assms(2) by (auto simp: pose_ok_def)
  have "pe_norm env ?q \<noteq> NaN" using assms(1) fin unfolding norm_real_def by blast
  with norm_accepted_finite[OF acc] fin obtain q where "normalize_quaternion env ?q = Inr q"
    by (cases ?q) (simp add: normalize_quaternion_def quaternion_norm_def)
  with assms(3) show ?thesis
    by (auto simp: canonical_pose_def mk_pose6d_def unity_to_openxr_pose_def rbind_eq_Inl split: if_split_asm)
qed

lemma observe_hand_uncaught:
  assumes "norm_real env" "cache_ok env c" "observe_hand env stale c side now = Inl e"
  shows "e = CanonPose"
  using assms
  by (auto simp: observe_hand_def cache_ok_def Let_def rbind_eq_Inl
      split: option.split_asm if_split_asm dest: canonical_pose_uncaught)

lemma ha_state_uncaught:
  assumes "norm_real env" "ha_inv env a" "head_ok env a" "ha_state env a now md = Inl e"
  shows "e = CanonPose"
  using assms
  by (auto simp: ha_state_def ha_inv_def head_ok_def Let_def rbind_eq_Inl observe_head_def
      split: option.split_asm if_split_asm dest: observe_hand_uncaught canonical_pose_uncaught)

lemma sort_packets_head:
  assumes "sort_packets ps l r h = Inr (l', r', h')" and "h' = Some p"
  shows "h = Some p \<or> HeadPosePacket p \<in> set ps"
  using assms by (induction ps l r h rule: sort_packets.induct) (auto split: if_split_asm side.split_asm)

lemma store_head_ok:
  assumes "head_ok env a" "\<forall>p. h = Some p \<longrightarrow> pose_ok env p"
  shows "head_ok env (store_head a h ns)"
  using assms by (auto simp: head_ok_def store_head_def split: option.split)

lemma head_ok_store:
  assumes "head_ok env a" and "list_all (packet_ok env) ps" and "ha_store a ps ns = (a', r)"
  shows "head_ok env a' \<and> ha_stale_after_ns a' = ha_stale_after_ns a"
proof (cases "sort_packets ps [] [] None")
  case (Inr x)
  obtain left right head where x: "x = (left, right, head)" by (cases x)
  have "\<forall>p. head = Some p \<longrightarrow> pose_ok env p"
    using sort_packets_head[of ps "[]" "[]" None left right head] Inr x assms(2) by (fastforce simp: list_all_iff)
  note store_head_ok[OF assms(1) this, of ns]
  with assms(1,3) show ?thesis
    by (auto simp: ha_store_def Inr x Let_def store_left_def store_right_def head_ok_def
        split: if_split_asm sum.split_asm)
qed (use assms in \<open>auto simp: ha_store_def split: if_split_asm\<close>)

definition assembler_ok :: "py_env \<Rightarrow> int \<Rightarrow> assembler \<Rightarrow> bool" where
  "assembler_ok env stale a \<longleftrightarrow> ha_inv env a \<and> head_ok env a \<and> ha_stale_after_ns a = stale"

text \<open>A caught exception left the assembler as it was; a snapshot reports the cache it was taken from.\<close>

lemma ingest_caught_same:
  assumes "norm_real env" "assembler_ok env stale a" "list_all (packet_ok env) ps"
    and "ha_ingest env a ps ns ep n = (a', Inl e)" "assembler_caught e"
  shows "a' = a"
proof -
  obtain r0 where st: "ha_store a ps ns = (a', r0)"
    using assms(4) ha_ingest_fst[of env a ps ns ep n] by (cases "ha_store a ps ns") simp
  show ?thesis
  proof (cases r0)
    case (Inl x)
    with st ingest_atomic[OF st] show ?thesis by auto
  next
    case (Inr x)
    have ok: "ha_inv env a'" "head_ok env a'"
      using assms(2,3) ha_inv_store[OF _ _ st] head_ok_store[OF _ _ st] by (auto simp: assembler_ok_def)
    from st Inr assms(4) have "ha_state env a' ns (ingest_metadata ep n) = Inl e" by (simp add: ha_ingest_def)
    from ha_state_uncaught[OF assms(1) ok this] assms(5) show ?thesis by (simp add: assembler_caught_def)
  qed
qed

lemma observe_hand_receive:
  "observe_hand env stale c side now = Inr h \<Longrightarrow> ho_tracking_valid h \<Longrightarrow> ho_receive_ns h = hc_receive_ns c"
  by (auto simp: observe_hand_def Let_def no_hand_def split: option.split_asm if_split_asm)

lemma ha_state_right:
  assumes "ha_state env a now md = Inr st"
  shows "observe_hand env (ha_stale_after_ns a) (ha_right a) RIGHT now = Inr (cs_right st)"
  using assms by (auto simp: ha_state_def Let_def)

lemma ingest_snapshot:
  assumes "assembler_ok env stale a" "list_all (packet_ok env) ps"
    and "ha_ingest env a ps ns ep n = (a', Inr st)"
  shows "assembler_ok env stale a'"
    and "ho_tracking_valid (cs_right st) \<Longrightarrow>
      \<exists>v. ho_receive_ns (cs_right st) = Some v \<and> hc_receive_ns (ha_right a') = Some v"
    and "\<not> ho_tracking_valid (cs_right st) \<Longrightarrow> ho_wrist_pose (cs_right st) = None \<and> ho_joints (cs_right st) = []"
proof -
  obtain r0 where st: "ha_store a ps ns = (a', r0)"
    using assms(3) ha_ingest_fst[of env a ps ns ep n] by (cases "ha_store a ps ns") simp
  show ok: "assembler_ok env stale a'"
    using assms(1,2) ha_inv_store[OF _ _ st] head_ok_store[OF _ _ st] by (auto simp: assembler_ok_def)
  from st assms(3) have "ha_state env a' ns (ingest_metadata ep n) = Inr st"
    by (auto simp: ha_ingest_def split: sum.split_asm)
  note right = ha_state_right[OF this]
  have rep: "hand_report_ok env (ha_stale_after_ns a') (ha_right a') RIGHT ns (cs_right st)"
    using ok right by (auto simp: assembler_ok_def ha_inv_def intro: observe_hand_report)
  then show "\<not> ho_tracking_valid (cs_right st) \<Longrightarrow> ho_wrist_pose (cs_right st) = None \<and> ho_joints (cs_right st) = []"
    by (simp add: hand_report_ok_def)
  assume v: "ho_tracking_valid (cs_right st)"
  with rep observe_hand_receive[OF right v]
  show "\<exists>v. ho_receive_ns (cs_right st) = Some v \<and> hc_receive_ns (ha_right a') = Some v"
    by (auto simp: hand_report_ok_def)
qed

text \<open>One nanosecond past the stale window of its last datagram, the hand is not tracked.\<close>

lemma boundary_untracked:
  assumes "assembler_ok env stale a" "hc_receive_ns (ha_right a) = Some l"
    and "ha_state env a (l + stale + 1) md = Inr st"
  shows "\<not> ho_tracking_valid (cs_right st)"
proof -
  have "hand_report_ok env stale (ha_right a) RIGHT (l + stale + 1) (cs_right st)"
    using assms(1) ha_state_right[OF assms(3)] by (auto simp: assembler_ok_def ha_inv_def intro: observe_hand_report)
  with assms(2) show ?thesis by (auto simp: hand_report_ok_def max_def split: if_split_asm)
qed

section \<open>The invariant of an evaluation\<close>

text \<open>A loss that was recorded properly, and how many of them hit an engaged operator.\<close>

definition loss_handled :: "interruption \<Rightarrow> bool" where
  "loss_handled i \<longleftrightarrow> it_disengaged i \<and> it_invalidated i
     \<and> (it_recovery_ns i \<noteq> None \<longrightarrow> it_recovery_neutral i = Some True)"

definition engaged_losses :: "interruption list \<Rightarrow> nat" where
  "engaged_losses is = length (filter it_was_engaged is)"

definition sample_inv :: "py_env \<Rightarrow> int \<Rightarrow> gate_eval \<Rightarrow> bool" where
  "sample_inv env stale s \<longleftrightarrow> assembler_ok env stale (ev_assembler s)
     \<and> (ev_previous_valid s \<longrightarrow> ev_last_valid_ns s \<noteq> None
          \<and> hc_receive_ns (ha_right (ev_assembler s)) = ev_last_valid_ns s)
     \<and> ev_retaining s = 0"

definition losses_inv :: "gate_eval \<Rightarrow> bool" where
  "losses_inv s \<longleftrightarrow> list_all loss_handled (ev_interruptions s)
     \<and> (\<forall>k. ev_active s = Some k \<longrightarrow> k < length (ev_interruptions s) \<and> op_state (ev_pipeline s) = OpDisengaged)
     \<and> (ev_auto_done s \<longrightarrow> op_state (ev_pipeline s) \<noteq> OpArmed)
     \<and> engaged_losses (ev_interruptions s) + (if op_state (ev_pipeline s) = OpEngaged then 1 else 0)
         \<le> (if ev_auto_done s then 1 else 0)"

lemma engaged_losses_snoc [simp]:
  "engaged_losses (is @ [i]) = engaged_losses is + (if it_was_engaged i then 1 else 0)"
  by (simp add: engaged_losses_def)

lemma engaged_losses_update:
  assumes "k < length is" "it_was_engaged i = it_was_engaged (is ! k)"
  shows "engaged_losses (is[k := i]) = engaged_losses is"
  using assms
proof (induction "is" arbitrary: k)
  case (Cons j js)
  then show ?case by (cases k) (auto simp: engaged_losses_def)
qed simp

text \<open>A step on an untracked hand disengages.\<close>

lemma ev_step_untracked:
  assumes "ev_step env p st rq = Inr (p', out)" and "\<not> ho_tracking_valid (cs_right st)"
  shows "op_off p p'"
proof -
  have "op_step env p st rq = (p', Inr out)"
    using assms(1) by (auto simp: ev_step_def split: prod.splits sum.splits)
  from op_step_cases[OF this] assms(2) show ?thesis by (auto simp: hand_fresh_complete_def)
qed

text \<open>Recording a loss after a step that disengaged.\<close>

lemma losses_inv_add:
  assumes "losses_inv s" "op_off (ev_pipeline s) p" "ev_pipeline s' = p"
    and "ev_interruptions s' = ev_interruptions s @ [new_interruption (ev_pipeline s) p l st]"
    and "ev_active s' = Some (length (ev_interruptions s))" "ev_auto_done s' = ev_auto_done s"
  shows "losses_inv s'"
  using assms by (auto simp: losses_inv_def op_off_def new_interruption_def loss_handled_def split: if_split_asm)

lemma at_boundary_inv:
  assumes inv: "sample_inv (me_py env) stale s" "losses_inv s"
    and r: "at_boundary env s (stale_boundary stale s t) = Inr s'"
  shows "sample_inv (me_py env) stale s' \<and> losses_inv s'"
proof (cases "stale_boundary stale s t")
  case None
  with r inv show ?thesis by (simp add: at_boundary_def)
next
  case (Some b)
  then obtain l where l: "ev_last_valid_ns s = Some l" "ev_previous_valid s" "b = (l, l + stale + 1)"
    by (auto simp: stale_boundary_def split: option.split_asm if_split_asm)
  with r Some obtain st p out where st: "ha_state (me_py env) (ev_assembler s) (l + stale + 1) [] = Inr st"
    and step: "ev_step env (ev_pipeline s) st (plain_request False False) = Inr (p, out)"
    and s': "s' = (add_interruption s (new_interruption (ev_pipeline s) p l st))\<lparr>ev_pipeline := p, ev_previous_valid := False\<rparr>"
    by (auto simp: at_boundary_def split: sum.split_asm)
  have "op_off (ev_pipeline s) p"
    using ev_step_untracked[OF step] boundary_untracked[OF _ _ st] inv(1) l by (auto simp: sample_inv_def)
  with inv have "losses_inv s'" by (auto simp: s' add_interruption_def intro: losses_inv_add)
  moreover have "sample_inv (me_py env) stale s'" using inv(1) by (simp add: s' add_interruption_def sample_inv_def)
  ultimately show ?thesis by simp
qed

lemma malformed_inv:
  assumes "sample_inv env stale s" "losses_inv s"
  shows "sample_inv env stale (malformed_datagram s (ev_assembler s) ns) \<and> losses_inv (malformed_datagram s (ev_assembler s) ns)"
proof -
  have "op_state (fst (op_force_fault (ev_pipeline s) ns ''malformed_recorded_datagram'')) = OpDisengaged"
    by (simp add: op_force_fault_def strip_def lit_def is_space_def)
  with assms show ?thesis
    by (auto simp: malformed_datagram_def sample_inv_def losses_inv_def split: if_split_asm)
qed

section \<open>The step of a datagram\<close>

lemma ev_step_op: "ev_step env p st rq = Inr (p', out) \<Longrightarrow> op_step env p st rq = (p', Inr out)"
  by (auto simp: ev_step_def split: prod.splits sum.splits)

text \<open>A capture request leaves the armed state.\<close>

lemma op_step_capture_leaves:
  assumes "op_step env p quest rq = (p', Inr t)" "op_state p = OpArmed" "rq_capture rq"
  shows "op_state p' \<noteq> OpArmed"
proof (cases "op_unsafe_reason (op_config p) (cs_right quest) (rq_frozen rq) (rq_malformed rq)")
  case (Some reason)
  with assms show ?thesis by (auto simp: op_step_def op_stop_def Let_def)
next
  case None
  from op_safe_pose[OF this] obtain pose where pose: "ho_wrist_pose (cs_right quest) = Some pose" ..
  let ?s = "ho_host_sequence_number (cs_right quest)" and ?now = "cs_host_monotonic_ns quest"
  show ?thesis
  proof (cases "rq_disengage rq")
    case True
    with assms None pose show ?thesis by (auto simp: op_step_def op_stop_def Let_def)
  next
    case False
    with assms(1) None pose have "op_checked env p ?now pose ?s rq (op_jump env p pose ?s) = (p', Inr t)"
      by (simp add: op_step_def Let_def)
    with assms(2,3) show ?thesis
      by (auto simp: op_checked_def op_dispatch_def op_armed_step_def Let_def split: sum.split_asm option.split_asm)
  qed
qed

lemma count_right_fields [simp]:
  "ev_assembler (count_right s h) = ev_assembler s" "ev_pipeline (count_right s h) = ev_pipeline s"
  "ev_previous_valid (count_right s h) = ev_previous_valid s" "ev_last_valid_ns (count_right s h) = ev_last_valid_ns s"
  "ev_active (count_right s h) = ev_active s" "ev_interruptions (count_right s h) = ev_interruptions s"
  "ev_auto_done (count_right s h) = ev_auto_done s"
  by (simp_all add: count_right_def Let_def)

lemma count_right_retaining:
  "(\<not> ho_tracking_valid h \<Longrightarrow> ho_wrist_pose h = None \<and> ho_joints h = []) \<Longrightarrow>
   ev_retaining (count_right s h) = ev_retaining s"
  by (cases "ho_tracking_valid h") (simp_all add: count_right_def Let_def)

lemma losses_inv_samples:
  "losses_inv (s\<lparr>ev_pipeline := p, ev_last_valid_ns := l, ev_previous_valid := v\<rparr>) = losses_inv (s\<lparr>ev_pipeline := p\<rparr>)"
  by (simp add: losses_inv_def)

lemma losses_inv_count_right [simp]: "losses_inv (count_right s h) = losses_inv s"
  by (simp add: losses_inv_def)

lemma auto_requests_fields:
  assumes "auto_requests s h = (s1, rq)"
  shows "ev_assembler s1 = ev_assembler s" "ev_pipeline s1 = ev_pipeline s" "ev_previous_valid s1 = ev_previous_valid s"
    "ev_last_valid_ns s1 = ev_last_valid_ns s" "ev_active s1 = ev_active s" "ev_interruptions s1 = ev_interruptions s"
    "\<not> ho_tracking_valid h \<Longrightarrow> s1 = s" "ev_retaining s1 = ev_retaining s"
  using assms by (auto simp: auto_requests_def split: if_split_asm)

text \<open>The automatic requests engage only before any loss, and only once.\<close>

lemma auto_requests_cases:
  assumes "auto_requests s h = (s1, rq)"
  shows "(rq_engage rq \<longrightarrow> \<not> ev_auto_done s \<and> ev_active s = None)
    \<and> (if rq_capture rq then op_state (ev_pipeline s) = OpArmed \<and> ev_auto_done s1 else ev_auto_done s1 = ev_auto_done s)"
  using assms by (auto simp: auto_requests_def plain_request_def split: if_split_asm)

lemma stepped_losses_inv:
  assumes inv: "losses_inv s" and rq: "auto_requests s (cs_right st) = (s1, rq)"
    and step: "ev_step env (ev_pipeline s1) st rq = Inr (p, out)"
  shows "losses_inv (s1\<lparr>ev_pipeline := p\<rparr>)"
proof -
  note f = auto_requests_fields(2,5,6)[OF rq] and a = auto_requests_cases[OF rq]
  let ?q = "ev_pipeline s"
  have st: "op_step env ?q st rq = (p, Inr out)" using ev_step_op[OF step] f by simp
  show ?thesis
  proof (cases "rq_capture rq")
    case True
    with a have armed: "op_state ?q = OpArmed" "ev_auto_done s1" by auto
    with inv have fresh: "engaged_losses (ev_interruptions s) = 0" "ev_active s = None"
      by (auto simp: losses_inv_def split: if_split_asm)
    from op_step_capture_leaves[OF st armed(1) True] inv f fresh armed show ?thesis by (auto simp: losses_inv_def)
  next
    case False
    with a have d: "ev_auto_done s1 = ev_auto_done s" by simp
    from op_step_cases[OF st] False consider "op_off ?q p" | "op_same ?q p" | "rq_engage rq" "op_armed_now ?q p"
      by auto
    then show ?thesis
      using inv a d f by cases (auto simp: losses_inv_def op_outcomes split: if_split_asm)
  qed
qed

text \<open>A recovery is neutral because the operator is still disengaged.\<close>

lemma recover_losses_inv:
  assumes inv: "losses_inv (s\<lparr>ev_pipeline := p\<rparr>)" and out: "op_out p (Inr out)"
  shows "losses_inv ((recover s p h out)\<lparr>ev_pipeline := p\<rparr>)"
proof (cases "ev_active s")
  case None
  with inv show ?thesis by (simp add: recover_def)
next
  case (Some k)
  with inv have k: "k < length (ev_interruptions s)" "op_state p = OpDisengaged"
    "loss_handled (ev_interruptions s ! k)"
    by (auto simp: losses_inv_def list_all_length)
  have neutral: "\<not> og_valid_for_mapping out \<and> og_emergency_neutral out"
    using out k(2) by (auto simp: op_out_def split: if_split_asm)
  let ?i = "(ev_interruptions s ! k)\<lparr>it_recovery_ns := ho_receive_ns h,
     it_recovery_joints := Some (int (length (ho_joints h))), it_recovery_neutral := Some True\<rparr>"
  have "loss_handled ?i" using k(3) by (simp add: loss_handled_def)
  then have "list_all loss_handled ((ev_interruptions s)[k := ?i])"
    using inv by (auto simp: losses_inv_def list_all_iff dest: set_update_subset_insert[THEN subsetD])
  moreover have "engaged_losses ((ev_interruptions s)[k := ?i]) = engaged_losses (ev_interruptions s)"
    using k(1) by (simp add: engaged_losses_update)
  ultimately show ?thesis
    using inv Some k neutral by (auto simp: recover_def losses_inv_def)
qed

lemma on_state_inv:
  assumes inv: "assembler_ok (me_py env) stale (ev_assembler s)" "losses_inv s"
    and right: "ho_tracking_valid (cs_right st) \<Longrightarrow>
      \<exists>v. ho_receive_ns (cs_right st) = Some v \<and> hc_receive_ns (ha_right (ev_assembler s)) = Some v"
    and blank: "ev_retaining s = 0" "\<not> ho_tracking_valid (cs_right st) \<Longrightarrow>
      ho_wrist_pose (cs_right st) = None \<and> ho_joints (cs_right st) = []"
    and r: "on_state env s st = Inr s'"
  shows "sample_inv (me_py env) stale s' \<and> losses_inv s'"
proof -
  let ?h = "cs_right st" and ?s0 = "count_right s (cs_right st)"
  obtain s1 rq where rq: "auto_requests ?s0 ?h = (s1, rq)" by (metis surj_pair)
  from r rq obtain p out where step: "ev_step env (ev_pipeline s1) st rq = Inr (p, out)"
    and s': "s' = after_step s1 (ev_pipeline s1) st (p, out)"
    by (auto simp: on_state_def)
  note f = auto_requests_fields[OF rq]
  have retain: "ev_retaining s1 = 0"
    using blank(1) f(8) count_right_retaining[OF blank(2), of s] by simp
  have l0: "losses_inv ?s0" using inv(2) by simp
  have l1: "losses_inv (s1\<lparr>ev_pipeline := p\<rparr>)" using stepped_losses_inv[OF l0 rq step] .
  have out: "op_out p (Inr out)" using op_step_cases[OF ev_step_op[OF step]] by blast
  have "sample_inv (me_py env) stale s'"
  proof (cases "ho_tracking_valid ?h")
    case True
    with right obtain v where "ho_receive_ns ?h = Some v" "hc_receive_ns (ha_right (ev_assembler s)) = Some v" by force
    with True inv(1) f retain show ?thesis
      by (auto simp: s' after_step_def sample_inv_def Let_def recover_def split: option.split)
  next
    case False
    with inv(1) f retain show ?thesis
      by (auto simp: s' after_step_def sample_inv_def Let_def add_interruption_def split: option.split)
  qed
  moreover have "losses_inv s'"
  proof (cases "ho_tracking_valid ?h")
    case True
    then have "s' = (if ev_previous_valid s1 then s1 else recover s1 p ?h out)\<lparr>ev_pipeline := p,
        ev_last_valid_ns := ho_receive_ns ?h, ev_previous_valid := True\<rparr>"
      by (simp add: s' after_step_def Let_def split: option.split)
    with l1 recover_losses_inv[OF l1 out, of ?h] show ?thesis
      by (cases "ev_previous_valid s1") (simp_all only: if_True if_False losses_inv_samples)
  next
    case False
    with f have s1: "s1 = ?s0" by simp
    have off: "op_off (ev_pipeline s1) p" using ev_step_untracked[OF step False] .
    show ?thesis
    proof (cases "ev_previous_valid s1 \<and> ev_last_valid_ns s1 \<noteq> None")
      case True
      then obtain l where l: "ev_last_valid_ns s1 = Some l" "ev_previous_valid s1" by auto
      have "losses_inv s1" using l0 s1 by simp
      from losses_inv_add[OF this off, of s' l st] False l show ?thesis
        by (simp add: s' after_step_def Let_def add_interruption_def)
    next
      case no: False
      with False l1 show ?thesis
        by (auto simp: s' after_step_def Let_def losses_inv_def split: option.split if_split_asm)
    qed
  qed
  ultimately show ?thesis by simp
qed

lemma on_datagram_inv:
  assumes real: "norm_real (me_py env)" and inv: "sample_inv (me_py env) stale s" "losses_inv s"
    and r: "on_datagram env s d = Inr s'"
  shows "sample_inv (me_py env) stale s' \<and> losses_inv s'"
proof (cases "parse_hts_datagram (me_py env) (rd_payload d)")
  case (Inl e)
  with r malformed_inv[OF inv] show ?thesis by (auto simp: on_datagram_def split: if_split_asm)
next
  case (Inr ps)
  have ok: "list_all (packet_ok (me_py env)) ps" using hts_datagram_sound[OF Inr] by simp
  have a: "assembler_ok (me_py env) stale (ev_assembler s)" using inv(1) by (simp add: sample_inv_def)
  obtain a' res where g: "ha_ingest (me_py env) (ev_assembler s) ps (rd_receive_ns d) (source_endpoint d)
      (length (rd_payload d)) = (a', res)" by (metis surj_pair)
  show ?thesis
  proof (cases res)
    case (Inl e)
    with r Inr g have c: "assembler_caught e" "s' = malformed_datagram s a' (rd_receive_ns d)"
      by (auto simp: on_datagram_def split: if_split_asm)
    with ingest_caught_same[OF real a ok g[unfolded Inl]] malformed_inv[OF inv] show ?thesis by simp
  next
    case (Inr st)
    with r \<open>parse_hts_datagram _ _ = _\<close> g have "on_state env (s\<lparr>ev_assembler := a'\<rparr>) st = Inr s'"
      by (simp add: on_datagram_def)
    moreover have "losses_inv (s\<lparr>ev_assembler := a'\<rparr>)" "ev_retaining s = 0"
      using inv by (simp_all add: losses_inv_def sample_inv_def)
    ultimately show ?thesis
      using ingest_snapshot[OF a ok g[unfolded Inr]] by (intro on_state_inv[of env stale "s\<lparr>ev_assembler := a'\<rparr>" st s']) auto
  qed
qed

lemma eval_datagrams_inv:
  assumes "norm_real (me_py env)" "sample_inv (me_py env) stale s" "losses_inv s"
    and "eval_datagrams env stale s ds = Inr s'"
  shows "sample_inv (me_py env) stale s' \<and> losses_inv s'"
  using assms(2-)
proof (induction ds arbitrary: s)
  case (Cons d ds)
  from Cons.prems(3) obtain s1 s2 where s1: "at_boundary env s (stale_boundary stale s (rd_receive_ns d)) = Inr s1"
    and s2: "on_datagram env s1 d = Inr s2" and rest: "eval_datagrams env stale s2 ds = Inr s'"
    by (auto simp: eval_datagram_def)
  from at_boundary_inv[OF Cons.prems(1,2) s1] have i: "sample_inv (me_py env) stale s1" "losses_inv s1" by simp_all
  from on_datagram_inv[OF assms(1) i s2] Cons.IH rest show ?case by blast
qed simp

section \<open>Properties\<close>

lemma mk_gate_eval_inv:
  assumes "mk_gate_eval stale_after_s = Inr s" "seconds_to_ns stale_after_s = Inr stale"
  shows "sample_inv env stale s \<and> losses_inv s"
proof -
  from assms obtain c where s: "ev_assembler s = new_assembler stale" "ev_pipeline s = new_op_pipeline c"
    "\<not> ev_previous_valid s" "ev_active s = None" "ev_interruptions s = []" "ev_retaining s = 0" "\<not> ev_auto_done s"
    by (auto simp: mk_gate_eval_def mk_assembler_def split: sum.split_asm if_split_asm)
  then show ?thesis
    by (simp add: sample_inv_def assembler_ok_def ha_inv_def head_ok_def cache_ok_def new_assembler_def
        empty_hand_cache_def losses_inv_def new_op_pipeline_def engaged_losses_def)
qed

lemma qualifying_engaged: "length (filter (qualifying stale n) is) \<le> engaged_losses is"
  by (induction "is") (auto simp: engaged_losses_def qualifying_def)

text \<open>
  C39. Evaluation of a capture. Whatever the lines of a capture file hold, a report states only handled losses: each
  one disengaged the operator and dropped its reference, and after a recovery the output was neutral. No
  untracked sample kept a pose, at most one loss hit an engaged operator, so at most one event qualifies, and a
  report that passes rests on exactly one, with no malformed datagram.
\<close>

theorem evaluated_losses_handled:
  assumes "norm_real (me_py env)" and "evaluate_recording uenv env loads lines stale_after_s = Inr r"
  shows "list_all loss_handled (gp_interruptions r) \<and> gp_retaining r = 0
    \<and> engaged_losses (gp_interruptions r) \<le> 1 \<and> gp_qualifying r \<le> 1
    \<and> (gp_passed r \<longrightarrow> gp_malformed r = 0 \<and> gp_qualifying r = 1 \<and> engaged_losses (gp_interruptions r) = 1)"
proof -
  obtain ds res where "replay_datagrams uenv loads lines False (Fin 1) = (ds, res)" by (metis surj_pair)
  with assms(2) obtain s stale ds s' where s: "mk_gate_eval stale_after_s = Inr s" "seconds_to_ns stale_after_s = Inr stale"
    and run: "eval_datagrams env stale s ds = Inr s'" and r: "r = gate_verdict stale_after_s s'"
    by (cases "mk_gate_eval stale_after_s"; cases "seconds_to_ns stale_after_s"; cases res)
      (auto simp: evaluate_recording_def)
  from eval_datagrams_inv[OF assms(1) _ _ run] mk_gate_eval_inv[OF s]
  have inv: "sample_inv (me_py env) stale s'" "losses_inv s'" by blast+
  let ?n = "oc_required_joint_count (op_config (ev_pipeline s'))"
  have "engaged_losses (ev_interruptions s') \<le> 1" using inv(2) by (auto simp: losses_inv_def split: if_split_asm)
  moreover note qualifying_engaged[of stale_after_s ?n "ev_interruptions s'"]
  moreover have "filter (qualifying stale_after_s ?n) (ev_interruptions s') \<noteq> [] \<Longrightarrow>
      0 < length (filter (qualifying stale_after_s ?n) (ev_interruptions s'))" by simp
  ultimately show ?thesis
    using inv unfolding r gate_verdict_def Let_def
    by (auto simp: sample_inv_def losses_inv_def simp del: length_greater_0_conv)
qed

section \<open>A concrete capture\<close>

text \<open>Two lines of a right hand at the origin.\<close>

definition demo_points :: "nat list" where
  "demo_points = lit ''Right wrist:,0,0,0,0,0,0,1'' @ 10 # lit ''Right landmarks:'' @ concat (replicate 63 [44, 48])"

definition demo_payload :: bytes where
  "demo_payload = map of_nat demo_points"

lemma demo_points_codes: "lit ''Right wrist:,0,0,0,0,0,0,1'' =
    [82, 105, 103, 104, 116, 32, 119, 114, 105, 115, 116, 58, 44, 48, 44, 48, 44, 48, 44, 48, 44, 48, 44, 48, 44, 49]"
  "lit ''Right landmarks:'' = [82, 105, 103, 104, 116, 32, 108, 97, 110, 100, 109, 97, 114, 107, 115, 58]"
  "lit ''Right landmarks'' = [82, 105, 103, 104, 116, 32, 108, 97, 110, 100, 109, 97, 114, 107, 115]"
  "lit ''Right wrist'' = [82, 105, 103, 104, 116, 32, 119, 114, 105, 115, 116]"
  by (simp_all add: lit_def)

lemma demo_points_ascii: "\<forall>b \<in> set demo_points. b < 128"
  by (simp add: demo_points_def demo_points_codes)

lemma demo_payload_text: "utf8_decode demo_payload = Some demo_points"
proof -
  have "map unat (map of_nat bs :: 8 word list) = bs" if "\<forall>b \<in> set bs. b < 128" for bs :: "nat list"
    using that by (induction bs) (simp_all add: unat_of_nat)
  from this[OF demo_points_ascii] utf8_points_ascii[OF demo_points_ascii] show ?thesis
    by (simp add: utf8_decode_def demo_payload_def)
qed

lemma zeros_split: "split_on 44 (concat (replicate n [44, 48])) = [] # replicate n [48]"
  by (induction n) simp_all

lemma splitlines_from_plain: "\<forall>c \<in> set cs. c \<noteq> 13 \<and> \<not> is_line_break c \<Longrightarrow>
   splitlines_from acc (cs @ ds) = splitlines_from (rev cs @ acc) ds"
  by (induction cs arbitrary: acc) simp_all

abbreviation demo_zeros :: "nat list" where
  "demo_zeros \<equiv> concat (replicate 63 [44, 48])"

lemma demo_points_lines: "splitlines demo_points =
    [lit ''Right wrist:,0,0,0,0,0,0,1'', lit ''Right landmarks:'' @ demo_zeros]"
proof -
  have a: "\<forall>c \<in> set (lit ''Right wrist:,0,0,0,0,0,0,1''). c \<noteq> 13 \<and> \<not> is_line_break c"
    and b: "\<forall>c \<in> set (lit ''Right landmarks:'' @ demo_zeros). c \<noteq> 13 \<and> \<not> is_line_break c"
    by (simp_all add: demo_points_codes is_line_break_def)
  show ?thesis
    using splitlines_from_plain[OF a, of "[]"] splitlines_from_plain[OF b, of "[]" "[]"]
    by (simp add: splitlines_def demo_points_def is_line_break_def demo_points_codes)
qed

lemma strip_kept:
  assumes "s \<noteq> []" "\<not> is_space (hd s)" "\<not> is_space (last s)"
  shows "strip s = s"
proof -
  have "dropWhile is_space s = s" using assms(1,2) by (cases s) simp_all
  moreover have "dropWhile is_space (rev s) = rev s" using assms(1,3) by (cases s rule: rev_cases) simp_all
  ultimately show ?thesis by (simp add: strip_def)
qed

lemma last_zeros: "last (concat (replicate (Suc n) [44, 48])) = (48 :: nat)"
  by (induction n) simp_all

lemma demo_strips: "strip (lit ''Right wrist:,0,0,0,0,0,0,1'') = lit ''Right wrist:,0,0,0,0,0,0,1''"
  "strip (lit ''Right landmarks:'' @ demo_zeros) = lit ''Right landmarks:'' @ demo_zeros"
proof -
  show "strip (lit ''Right wrist:,0,0,0,0,0,0,1'') = lit ''Right wrist:,0,0,0,0,0,0,1''"
    by (rule strip_kept) (simp_all add: demo_points_codes is_space_def)
  show "strip (lit ''Right landmarks:'' @ demo_zeros) = lit ''Right landmarks:'' @ demo_zeros"
    using last_zeros[of 62] by (intro strip_kept) (simp_all add: demo_points_codes is_space_def del: replicate.simps)
qed

lemma demo_hand_lines: "hts_lines demo_points =
    [lit ''Right wrist:,0,0,0,0,0,0,1'', lit ''Right landmarks:'' @ demo_zeros]"
  "hand_head_lines demo_points = hts_lines demo_points"
proof -
  show l: "hts_lines demo_points = [lit ''Right wrist:,0,0,0,0,0,0,1'', lit ''Right landmarks:'' @ demo_zeros]"
    by (simp add: hts_lines_def demo_points_lines demo_strips) (simp add: demo_points_codes)
  show "hand_head_lines demo_points = hts_lines demo_points"
    by (simp add: hand_head_lines_def l) (simp add: demo_points_codes lit_def)
qed

definition demo_hand_header :: "hts_kind \<Rightarrow> hts_header" where
  "demo_hand_header k = \<lparr>hd_kind = k, hd_side = RIGHT, hd_source_sequence = None, hd_source_timestamp_ns = None,
     hd_extra_fields = []\<rparr>"

lemma demo_headers: "parse_header (lit ''Right wrist'') = Inr (demo_hand_header WRIST)"
  "parse_header (lit ''Right landmarks'') = Inr (demo_hand_header LANDMARKS)"
  by (simp_all add: parse_header_def strip_def is_space_def hts_label_def mk_hts_header_def demo_hand_header_def
      demo_points_codes lit_def)

lemma rmap_replicate: "f x = Inr y \<Longrightarrow> rmap f (replicate n x) = Inr (replicate n y)"
  by (induction n) simp_all

lemma demo_zero_floats: "parse_finite_floats plain_env demo_zeros = Inr (replicate 63 (Fin 0))"
proof -
  have "strip [48] = [48]" by (simp add: strip_def is_space_def)
  then have "trim_empty (map strip (split_on 44 demo_zeros)) = replicate 63 (lit ''0'')"
    unfolding zeros_split by (simp add: trim_empty_def demo_codes2 strip_def)
  moreover have "rmap (\<lambda>c. case py_float plain_env c of None \<Rightarrow> Inl HtsNotFloat | Some v \<Rightarrow> Inr v)
      (replicate 63 (lit ''0'')) = Inr (replicate 63 (Fin 0))"
    by (rule rmap_replicate) (simp add: demo_f0)
  moreover have "\<not> list_ex (\<lambda>c. c = []) (replicate 63 (lit ''0''))" by (simp add: list_ex_iff demo_codes2)
  moreover have "list_all is_finite (replicate 63 (Fin 0))" by (simp add: list_all_iff)
  ultimately show ?thesis by (simp add: parse_finite_floats_def Let_def)
qed

definition demo_hand_packets :: "hts_packet list" where
  "demo_hand_packets =
     [WristPacket \<lparr>pp_header = demo_hand_header WRIST, pp_position_m = (Fin 0, Fin 0, Fin 0),
        pp_orientation_xyzw = (Fin 0, Fin 0, Fin 0, Fin 1), pp_quaternion_norm = Fin 1\<rparr>,
      LandmarksPacket \<lparr>lp_header = demo_hand_header LANDMARKS,
        lp_positions_wrist_m = replicate hts_landmark_count (Fin 0, Fin 0, Fin 0)\<rparr>]"

lemma triples_replicate: "triples (replicate (3 * n) x) = replicate n (x, x, x)"
  by (induction n) (simp_all add: numeral_3_eq_3)

lemma demo_hand_parsed: "parse_hts_datagram plain_env demo_payload = Inr demo_hand_packets"
proof -
  have w: "parse_hts_line plain_env (lit ''Right wrist:,0,0,0,0,0,0,1'') = Inr (hd demo_hand_packets)"
  proof -
    have "partition_at 58 (lit ''Right wrist:,0,0,0,0,0,0,1'') = (lit ''Right wrist'', True, lit '',0,0,0,0,0,0,1'')"
      "lit ''Right wrist:,0,0,0,0,0,0,1'' \<noteq> []"
      by (simp_all add: demo_points_codes demo_codes1)
    moreover have "norm_accepted (Fin 1)"
      by (simp add: norm_accepted_def hts_norm_minimum_def hts_norm_tolerance_def fsub_def)
    moreover have "pe_norm plain_env q = Fin 1" for q by (simp add: plain_env_def)
    ultimately show ?thesis
      by (simp add: parse_hts_line_def demo_strips demo_headers demo_head_floats quaternion_norm_def Let_def
          demo_hand_packets_def demo_hand_header_def)
  qed
  have l: "parse_hts_line plain_env (lit ''Right landmarks:'' @ demo_zeros) = Inr (demo_hand_packets ! 1)"
  proof -
    have "partition_at 58 (lit ''Right landmarks:'' @ cs) = (lit ''Right landmarks'', True, cs)" for cs
      by (simp add: demo_points_codes)
    moreover have "lit ''Right landmarks:'' @ cs \<noteq> []" for cs by (simp add: demo_points_codes)
    moreover have "triples (replicate 63 (Fin 0)) = replicate hts_landmark_count (Fin 0, Fin 0, Fin 0)"
      using triples_replicate[of 21 "Fin 0"] by (simp add: hts_landmark_count_def)
    moreover have "length (replicate 63 (Fin 0)) = hts_landmark_count * 3" by (simp add: hts_landmark_count_def)
    ultimately show ?thesis
      by (simp add: parse_hts_line_def demo_strips demo_headers demo_zero_floats Let_def demo_hand_packets_def
          demo_hand_header_def)
  qed
  have "demo_payload \<noteq> []" "length demo_payload \<le> hts_max_datagram_bytes"
    by (simp_all add: demo_payload_def demo_points_def demo_points_codes hts_max_datagram_bytes_def length_concat
        sum_list_replicate)
  moreover have "rmap (parse_hts_line plain_env) (hand_head_lines demo_points) = Inr demo_hand_packets"
    unfolding demo_hand_lines by (simp add: w l demo_hand_packets_def)
  moreover have "hts_lines demo_points \<noteq> []" by (simp add: demo_hand_lines)
  ultimately show ?thesis by (simp add: parse_hts_datagram_def demo_payload_text)
qed


text \<open>The hand at rest, in three datagrams: two within the window, the third after it.\<close>

definition still_math :: math_env where
  "still_math = demo_math\<lparr>me_py := plain_env, me_sum := (\<lambda>_. Fin 0)\<rparr>"

definition demo_hand_datagram :: "int \<Rightarrow> received_datagram" where
  "demo_hand_datagram t = \<lparr>rd_payload = demo_payload, rd_source_address = ''q'', rd_source_port = 9000,
     rd_receive_ns = t, rd_unix_ns = 0\<rparr>"

definition demo_assembler :: "int \<Rightarrow> int option \<Rightarrow> assembler \<Rightarrow> bool" where
  "demo_assembler k t a \<longleftrightarrow> ha_left a = empty_hand_cache \<and> ha_head a = None \<and> ha_stale_after_ns a = 250000000
     \<and> ha_right_sequence a = k \<and> hc_receive_ns (ha_right a) = t \<and> (t \<noteq> None \<longrightarrow>
       hc_wrist (ha_right a) \<noteq> None \<and> hc_landmarks (ha_right a) \<noteq> None)"

definition still_pose :: pose6d where
  "still_pose = \<lparr>position_m = (Fin 0, Fin 0, Fin 0), orientation_xyzw = (Fin 0, Fin 0, Fin 0, Fin 1)\<rparr>"

definition still_hand :: "int \<Rightarrow> int \<Rightarrow> hand_observation \<Rightarrow> bool" where
  "still_hand k t h \<longleftrightarrow> ho_tracking_valid h \<and> ho_wrist_pose h = Some still_pose \<and> ho_host_sequence_number h = Some k
     \<and> ho_stream_age_s h = Some (Fin 0) \<and> length (ho_joints h) = 21 \<and> ho_receive_ns h = Some t"

lemma still_pose_canonical:
  "canonical_pose plain_env (Fin 0, Fin 0, Fin 0) (Fin 0, Fin 0, Fin 0, Fin 1) = Inr still_pose"
  by (simp add: canonical_pose_def normalize_quaternion_def quaternion_norm_def plain_env_def still_pose_def
      hts_norm_minimum_def mk_pose6d_def unity_to_openxr_pose_def pose_norm_tolerance_def fsub_def)

lemma demo_ingest:
  assumes "demo_assembler k t0 a" "0 \<le> t"
  shows "\<exists>a' st. ha_ingest plain_env a demo_hand_packets t ep n = (a', Inr st)
    \<and> demo_assembler (k + 1) (Some t) a' \<and> still_hand k t (cs_right st) \<and> cs_host_monotonic_ns st = t"
proof -
  obtain a' where a': "ha_store a demo_hand_packets t = (a', Inr ())" "demo_assembler (k + 1) (Some t) a'"
    "ha_right a' = \<lparr>hc_wrist = wrist_of (hd demo_hand_packets), hc_landmarks = landmarks_of (demo_hand_packets ! 1),
      hc_receive_ns = Some t, hc_host_sequence = Some k\<rparr>"
    using assms
    by (simp add: ha_store_def demo_hand_packets_def demo_hand_header_def store_left_def store_right_def
        validate_hand_observation_set_def map_filter_def source_sequences_def source_timestamps_def Let_def
        store_cache_def demo_assembler_def)
  then show ?thesis
    by (simp add: ha_ingest_def ha_state_def observe_hand_def observe_head_def demo_assembler_def empty_hand_cache_def
        Let_def demo_hand_packets_def demo_hand_header_def still_pose_canonical still_hand_def no_hand_def
        ns_to_seconds_def hts_landmark_count_def hand_joints_def)
qed


definition default_config :: "op_config \<Rightarrow> bool" where
  "default_config c \<longleftrightarrow> oc_stale_after_s c = Fin (1 / 4) \<and> oc_required_joint_count c = 21
     \<and> oc_jump_translation_m c = Fin (1 / 4) \<and> oc_jump_rotation_rad c = Fin (884279719003555 / 1125899906842624)"

lemma default_config_exists: "\<exists>c. op_config_with_stale (Fin (1 / 4)) = Inr c \<and> default_config c"
  by (simp add: op_config_with_stale_def mk_op_config_def Let_def positive_finite_def three_finite_def require_def
      default_config_def)

definition at_rest :: "operator_state \<Rightarrow> op_pipeline \<Rightarrow> bool" where
  "at_rest q p \<longleftrightarrow> default_config (op_config p) \<and> op_state p = q \<and> op_last_input_pose p \<in> {None, Some still_pose}"

lemma still_no_jump: "at_rest q p \<Longrightarrow> op_jump still_math p still_pose s = Inr None"
  by (auto simp: at_rest_def op_jump_def still_pose_def still_math_def demo_math_def distance3_def py_square_def
      quaternion_distance_def default_config_def fsub_def)

lemma still_step:
  assumes "at_rest q p" "still_hand k t (cs_right st)"
  shows "op_step still_math p st (plain_request en cap)
     = op_dispatch still_math (op_remember_input p still_pose (Some k)) (cs_host_monotonic_ns st) still_pose (Some k)
         (plain_request en cap)"
proof -
  have "op_unsafe_reason (op_config p) (cs_right st) False False = None"
    using assms by (simp add: op_unsafe_iff hand_fresh_complete_def still_hand_def at_rest_def default_config_def)
  with assms still_no_jump[OF assms(1)] show ?thesis
    by (simp add: op_step_def still_hand_def plain_request_def Let_def op_checked_def)
qed

lemma still_remember [simp]: "at_rest q (op_remember_input p still_pose s) \<longleftrightarrow> at_rest q p"
  if "op_last_input_pose p \<in> {None, Some still_pose}"
  using that by (auto simp: at_rest_def op_remember_input_def)

text \<open>What the operator does with the hand at rest in each state.\<close>

lemma still_ev_step:
  assumes "at_rest q p" "still_hand k t (cs_right st)" "cap = (q = OpArmed)" "q \<noteq> OpEngaged"
  shows "\<exists>p' out. ev_step still_math p st (plain_request en cap) = Inr (p', out)
    \<and> at_rest (if q = OpArmed then OpEngaged else if en then OpArmed else OpDisengaged) p'"
  using assms still_step[OF assms(1,2), of en cap] still_remember[of p q "Some k"]
  by (cases q) (auto simp: ev_step_def op_dispatch_def op_disengaged_step_def op_armed_step_def plain_request_def
      Let_def at_rest_def op_transition_def)


definition recovered :: "int \<Rightarrow> nat option \<Rightarrow> interruption list \<Rightarrow> interruption list \<Rightarrow> bool" where
  "recovered t active old new \<longleftrightarrow> (case active of
     None \<Rightarrow> new = old
   | Some i \<Rightarrow> \<exists>b. new = old[i := (old ! i)\<lparr>it_recovery_ns := Some t, it_recovery_joints := Some 21,
                          it_recovery_neutral := b\<rparr>])"

definition next_state :: "gate_eval \<Rightarrow> operator_state \<Rightarrow> operator_state" where
  "next_state s q = (if q = OpArmed then OpEngaged else if \<not> ev_auto_done s \<and> ev_active s = None then OpArmed
     else OpDisengaged)"

lemma next_state_assembler [simp]: "next_state (s\<lparr>ev_assembler := a\<rparr>) q = next_state s q"
  by (simp add: next_state_def)

lemma still_on_state:
  assumes "at_rest q (ev_pipeline s)" "q \<noteq> OpEngaged" "still_hand k t (cs_right st)"
    and "q = OpArmed \<Longrightarrow> ev_arm_sequence s \<noteq> Some k" "ev_previous_valid s \<Longrightarrow> ev_active s = None"
  shows "\<exists>s'. on_state still_math s st = Inr s' \<and> ev_assembler s' = ev_assembler s
    \<and> at_rest (next_state s q) (ev_pipeline s') \<and> ev_last_valid_ns s' = Some t \<and> ev_previous_valid s'
    \<and> ev_auto_done s' = (ev_auto_done s \<or> q = OpArmed) \<and> ev_active s' = None
    \<and> (next_state s q = OpArmed \<longrightarrow> ev_arm_sequence s' = Some k)
    \<and> recovered t (ev_active s) (ev_interruptions s) (ev_interruptions s')"
proof -
  let ?s0 = "count_right s (cs_right st)"
  obtain s1 rq where rq: "auto_requests ?s0 (cs_right st) = (s1, rq)" by (metis surj_pair)
  have v: "ho_tracking_valid (cs_right st)" "ho_host_sequence_number (cs_right st) = Some k"
    "ho_receive_ns (cs_right st) = Some t" "length (ho_joints (cs_right st)) = 21"
    using assms(3) by (simp_all add: still_hand_def)
  have arm: "ev_arm_sequence ?s0 = ev_arm_sequence s" by (simp add: count_right_def Let_def)
  have st: "op_state (ev_pipeline s) = q" using assms(1) by (simp add: at_rest_def)
  have "rq = plain_request (next_state s q = OpArmed) (q = OpArmed) \<and>
      s1 = (if q = OpArmed then ?s0\<lparr>ev_auto_done := True\<rparr>
            else if next_state s q = OpArmed then ?s0\<lparr>ev_arm_sequence := Some k\<rparr> else ?s0)"
    using rq v st arm assms(2,4) by (cases q) (auto simp: auto_requests_def next_state_def split: if_split_asm)
  then have r: "rq = plain_request (next_state s q = OpArmed) (q = OpArmed)" and
    s1: "s1 = (if q = OpArmed then ?s0\<lparr>ev_auto_done := True\<rparr>
            else if next_state s q = OpArmed then ?s0\<lparr>ev_arm_sequence := Some k\<rparr> else ?s0)" by simp_all
  note f = auto_requests_fields[OF rq]
  have "at_rest q (ev_pipeline s1)" using assms(1) f by simp
  from still_ev_step[OF this assms(3) refl assms(2), of "next_state s q = OpArmed"] obtain p out where
    step: "ev_step still_math (ev_pipeline s1) st rq = Inr (p, out)"
    and p: "at_rest (if q = OpArmed then OpEngaged else if next_state s q = OpArmed then OpArmed else OpDisengaged) p"
    using r by blast
  have q: "(if q = OpArmed then OpEngaged else if next_state s q = OpArmed then OpArmed else OpDisengaged) = next_state s q"
    by (simp add: next_state_def)
  have after: "after_step s1 (ev_pipeline s1) st (p, out) =
      (if ev_previous_valid s1 then s1 else recover s1 p (cs_right st) out)\<lparr>ev_pipeline := p,
        ev_last_valid_ns := Some t, ev_previous_valid := True\<rparr>"
    using v by (simp add: after_step_def Let_def split: option.split)
  have auto: "ev_auto_done s1 = (ev_auto_done s \<or> q = OpArmed)" "next_state s q = OpArmed \<longrightarrow> ev_arm_sequence s1 = Some k"
    using s1 by (auto simp: next_state_def)
  show ?thesis
    using rq step p q after auto f v assms(5)
    by (auto simp: on_state_def recover_def recovered_def split: option.split)
qed

lemma still_datagram:
  assumes "demo_assembler k t0 (ev_assembler s)" "at_rest q (ev_pipeline s)" "q \<noteq> OpEngaged" "0 \<le> t"
    and "q = OpArmed \<Longrightarrow> ev_arm_sequence s \<noteq> Some k" "ev_previous_valid s \<Longrightarrow> ev_active s = None"
  shows "\<exists>s'. on_datagram still_math s (demo_hand_datagram t) = Inr s' \<and> demo_assembler (k + 1) (Some t) (ev_assembler s')
    \<and> at_rest (next_state s q) (ev_pipeline s') \<and> ev_last_valid_ns s' = Some t \<and> ev_previous_valid s'
    \<and> ev_auto_done s' = (ev_auto_done s \<or> q = OpArmed) \<and> ev_active s' = None
    \<and> (next_state s q = OpArmed \<longrightarrow> ev_arm_sequence s' = Some k)
    \<and> recovered t (ev_active s) (ev_interruptions s) (ev_interruptions s')"
proof -
  have py: "me_py still_math = plain_env" by (simp add: still_math_def)
  from demo_ingest[OF assms(1,4)] obtain a st where
    a: "ha_ingest plain_env (ev_assembler s) demo_hand_packets t (source_endpoint (demo_hand_datagram t))
          (length demo_payload) = (a, Inr st)"
    "demo_assembler (k + 1) (Some t) a" "still_hand k t (cs_right st)" by blast
  have "on_datagram still_math s (demo_hand_datagram t) = on_state still_math (s\<lparr>ev_assembler := a\<rparr>) st"
    using a(1) demo_hand_parsed by (simp add: on_datagram_def py demo_hand_datagram_def)
  with still_on_state[of q "s\<lparr>ev_assembler := a\<rparr>" k t st] assms a(2,3) show ?thesis
    by (auto intro: exI)
qed

text \<open>The boundary between the second and the third datagram.\<close>

lemma still_boundary:
  assumes "demo_assembler k (Some l) (ev_assembler s)" "ev_previous_valid s" "ev_last_valid_ns s = Some l"
    and "l + 250000001 \<le> t" "op_state (ev_pipeline s) = OpEngaged" "at_rest OpEngaged (ev_pipeline s)"
  shows "\<exists>s' i. at_boundary still_math s (stale_boundary 250000000 s t) = Inr s' \<and> ev_assembler s' = ev_assembler s
    \<and> at_rest OpDisengaged (ev_pipeline s') \<and> ev_auto_done s' = ev_auto_done s \<and> \<not> ev_previous_valid s'
    \<and> ev_active s' = Some (length (ev_interruptions s)) \<and> ev_interruptions s' = ev_interruptions s @ [i]
    \<and> it_was_engaged i"
proof -
  let ?t = "l + 250000001" and ?rq = "plain_request False False"
  have b: "stale_boundary 250000000 s t = Some (l, ?t)" using assms(2-4) by (simp add: stale_boundary_def)
  have py: "me_py still_math = plain_env" by (simp add: still_math_def)
  from assms(1) obtain st where st: "ha_state plain_env (ev_assembler s) ?t [] = Inr st" "\<not> ho_tracking_valid (cs_right st)"
    by (auto simp: ha_state_def demo_assembler_def observe_hand_def observe_head_def empty_hand_cache_def no_hand_def Let_def)
  then obtain reason where "op_unsafe_reason (op_config (ev_pipeline s)) (cs_right st) False False = Some reason"
    by (metis op_unsafe_iff hand_fresh_complete_def not_Some_eq)
  then have "\<exists>p out. ev_step still_math (ev_pipeline s) st ?rq = Inr (p, out) \<and> at_rest OpDisengaged p"
    using assms(6) by (auto simp: ev_step_def op_step_def op_stop_def plain_request_def Let_def at_rest_def
        op_force_disengaged_def op_transition_def)
  then obtain p out where "ev_step still_math (ev_pipeline s) st ?rq = Inr (p, out)" "at_rest OpDisengaged p" by blast
  with b st(1) assms(5) py show ?thesis
    by (simp add: at_boundary_def add_interruption_def new_interruption_def)
qed


definition demo_capture_loads :: "string \<Rightarrow> jval option" where
  "demo_capture_loads t =
     (if t = ''h'' then Some (capture_header fmempty 0)
      else if t = ''a'' then Some (capture_record (demo_hand_datagram 10))
      else if t = ''b'' then Some (capture_record (demo_hand_datagram 20))
      else if t = ''c'' then Some (capture_record (demo_hand_datagram 1000000000)) else None)"

lemma demo_capture_line:
  assumes "demo_capture_loads l = Some (capture_record d)" "\<not> blank l"
  shows "capture_lines env demo_capture_loads (l # ls) =
    (case capture_lines env demo_capture_loads ls of (ds, r) \<Rightarrow> (d # ds, r))"
proof -
  obtain m where "capture_record d = JObj m" "datagram_of_record env m = Inr d" "jget m ''record_type'' JNull = JStr ''datagram''"
    using capture_record_read by blast
  with assms show ?thesis by (simp add: load_record_def)
qed

lemma demo_capture_read: "read_capture env demo_capture_loads [''h'', ''a'', ''b'', ''c''] =
    ([demo_hand_datagram 10, demo_hand_datagram 20, demo_hand_datagram 1000000000], Inr ())"
proof -
  have b: "\<not> blank ''a''" "\<not> blank ''b''" "\<not> blank ''c''" by (simp_all add: blank_def lit_def is_space_def)
  have l: "demo_capture_loads ''a'' = Some (capture_record (demo_hand_datagram 10))"
    "demo_capture_loads ''b'' = Some (capture_record (demo_hand_datagram 20))"
    "demo_capture_loads ''c'' = Some (capture_record (demo_hand_datagram 1000000000))"
    "demo_capture_loads ''h'' = Some (capture_header fmempty 0)" by (simp_all add: demo_capture_loads_def)
  obtain m where m: "capture_header fmempty 0 = JObj m" by (simp add: capture_header_def)
  then have "capture_header_ok env m"
    by (auto simp: capture_header_def capture_header_ok_def jget_def str_of_def major_version_def)
  with l(4) m show ?thesis
    using demo_capture_line[OF l(1) b(1)] demo_capture_line[OF l(2) b(2)] demo_capture_line[OF l(3) b(3)]
    by (simp add: read_capture_def load_record_def)
qed

lemma still_run:
  assumes "demo_assembler 0 None (ev_assembler s)" "at_rest OpDisengaged (ev_pipeline s)" "\<not> ev_previous_valid s"
    "ev_last_valid_ns s = None" "ev_active s = None" "ev_interruptions s = []" "\<not> ev_auto_done s"
  shows "\<exists>s' i. eval_datagrams still_math 250000000 s [demo_hand_datagram 10, demo_hand_datagram 20, demo_hand_datagram 1000000000] = Inr s'
    \<and> ev_interruptions s' = [i] \<and> it_was_engaged i \<and> it_recovery_ns i = Some 1000000000"
proof -
  have rx: "rd_receive_ns (demo_hand_datagram t) = t" for t by (simp add: demo_hand_datagram_def)
  obtain s1 where s1: "on_datagram still_math s (demo_hand_datagram 10) = Inr s1" "demo_assembler 1 (Some 10) (ev_assembler s1)"
    "at_rest OpArmed (ev_pipeline s1)" "ev_last_valid_ns s1 = Some 10" "ev_previous_valid s1" "\<not> ev_auto_done s1"
    "ev_active s1 = None" "ev_arm_sequence s1 = Some 0" "ev_interruptions s1 = []"
    using still_datagram[of 0 None s OpDisengaged 10] assms by (auto simp: next_state_def recovered_def)
  have b0: "at_boundary still_math s (stale_boundary 250000000 s 10) = Inr s"
    using assms(3,4) by (simp add: stale_boundary_def at_boundary_def)
  have b1: "at_boundary still_math s1 (stale_boundary 250000000 s1 20) = Inr s1"
    using s1(4) by (simp add: stale_boundary_def at_boundary_def)
  obtain s2 where s2: "on_datagram still_math s1 (demo_hand_datagram 20) = Inr s2" "demo_assembler 2 (Some 20) (ev_assembler s2)"
    "at_rest OpEngaged (ev_pipeline s2)" "ev_last_valid_ns s2 = Some 20" "ev_previous_valid s2"
    "ev_active s2 = None" "ev_interruptions s2 = []"
    using still_datagram[of 1 "Some 10" s1 OpArmed 20] s1 by (auto simp: next_state_def recovered_def)
  have "op_state (ev_pipeline s2) = OpEngaged" using s2(3) by (simp add: at_rest_def)
  then obtain s3 i where s3: "at_boundary still_math s2 (stale_boundary 250000000 s2 1000000000) = Inr s3"
    "ev_assembler s3 = ev_assembler s2" "at_rest OpDisengaged (ev_pipeline s3)" "\<not> ev_previous_valid s3"
    "ev_active s3 = Some 0" "ev_interruptions s3 = [i]" "it_was_engaged i"
    using still_boundary[of 2 20 s2 1000000000] s2 by auto
  obtain s4 where "on_datagram still_math s3 (demo_hand_datagram 1000000000) = Inr s4"
    "recovered 1000000000 (Some 0) [i] (ev_interruptions s4)"
    using still_datagram[of 2 "Some 20" s3 OpDisengaged 1000000000] s2(2) s3 by auto
  with b0 s1(1) b1 s2(1) s3(1,7) show ?thesis
    by (auto simp: eval_datagram_def rx recovered_def)
qed

lemma evaluated_losses_handled_witness:
  "\<exists>r i. evaluate_recording demo_umip_env still_math demo_capture_loads [''h'', ''a'', ''b'', ''c''] (Fin (1 / 4)) = Inr r
    \<and> gp_interruptions r = [i] \<and> it_was_engaged i \<and> it_disengaged i \<and> it_invalidated i
    \<and> it_recovery_ns i = Some 1000000000 \<and> it_recovery_neutral i = Some True"
proof -
  obtain c where c: "op_config_with_stale (Fin (1 / 4)) = Inr c" "default_config c" using default_config_exists by blast
  have ns: "seconds_to_ns (Fin (1 / 4)) = Inr 250000000" by (rule seconds_to_ns_exact) simp_all
  obtain s where s: "mk_gate_eval (Fin (1 / 4)) = Inr s" "ev_assembler s = new_assembler 250000000"
    "ev_pipeline s = new_op_pipeline c" "\<not> ev_previous_valid s" "ev_last_valid_ns s = None" "ev_active s = None"
    "ev_interruptions s = []" "\<not> ev_auto_done s"
    using c(1) ns by (simp add: mk_gate_eval_def mk_assembler_def)
  have "demo_assembler 0 None (ev_assembler s)" "at_rest OpDisengaged (ev_pipeline s)"
    using s c(2) by (simp_all add: demo_assembler_def new_assembler_def empty_hand_cache_def at_rest_def new_op_pipeline_def)
  from still_run[OF this s(4-8)] obtain s' i where
    s': "eval_datagrams still_math 250000000 s [demo_hand_datagram 10, demo_hand_datagram 20, demo_hand_datagram 1000000000] = Inr s'"
    "ev_interruptions s' = [i]" "it_was_engaged i" "it_recovery_ns i = Some 1000000000" by blast
  have ev: "evaluate_recording demo_umip_env still_math demo_capture_loads [''h'', ''a'', ''b'', ''c''] (Fin (1 / 4))
      = Inr (gate_verdict (Fin (1 / 4)) s')"
    using s(1) ns s'(1)
    by (simp add: evaluate_recording_def replay_datagrams_def demo_capture_read del: eval_datagrams.simps)
  have "norm_real (me_py still_math)" by (simp add: norm_real_def still_math_def plain_env_def)
  from evaluated_losses_handled[OF this ev] ev s'(2-4) show ?thesis
    by (auto simp: gate_verdict_def Let_def loss_handled_def)
qed

end
