(* ===== verification/CameraRing.thy ===== *)
theory CameraRing
  imports EpisodeData
begin

text \<open>
  The camera frame rings: \<open>CameraFrameRing\<close> of \<open>src/episode_dataset/camera.py\<close> (threads of one process) and
  \<open>SharedMemoryCameraFrameRing\<close> of \<open>src/episode_dataset/process_runtime.py\<close> (processes that share memory). Both are
  seqlocks: one producer marks a slot as being written, copies the image and marks it stable; a consumer copies the
  image between two looks at the mark, without a lock. Every access to one field or one array element is a step of
  its own, so that a copy can be interrupted anywhere; accesses take effect in the order of the steps (sequential
  consistency). Arrays are their shape and their elements in row order; their element types are fixed by the
  checks of \<open>CameraSample\<close>.
\<close>

section \<open>Images and references\<close>

record image_array =
  ar_shape :: "nat list"
  ar_cells :: "nat list"

record camera_image =
  im_role :: camera_role
  im_host_ns :: int
  im_rgb :: image_array
  im_depth :: image_array
  im_aligned :: "image_array option"
  im_scale_m :: "pyfloat option"
  im_rgb_ms :: pyfloat
  im_depth_ms :: pyfloat
  im_rgb_number :: int
  im_depth_number :: int
  im_rgb_domain :: string
  im_depth_domain :: string
  im_ring_sequence :: "int option"

definition array_ok :: "image_array \<Rightarrow> bool" where
  "array_ok a \<longleftrightarrow> length (ar_cells a) = prod_list (ar_shape a)"

text \<open>The checks of \<open>CameraSample\<close>; an array has as many elements as its shape says.\<close>

definition image_ok :: "camera_image \<Rightarrow> bool" where
  "image_ok img \<longleftrightarrow> array_ok (im_rgb img) \<and> length (ar_shape (im_rgb img)) = 3 \<and> ar_shape (im_rgb img) ! 2 = 3
     \<and> array_ok (im_depth img) \<and> length (ar_shape (im_depth img)) = 2
     \<and> pred_option (\<lambda>a. array_ok a \<and> length (ar_shape a) = 2) (im_aligned img)
     \<and> pred_option (\<lambda>s. is_finite s \<and> \<not> fle s (Fin 0)) (im_scale_m img)"

record frame_ref =
  fx_role :: camera_role
  fx_host_ns :: int
  fx_sequence :: int
  fx_rgb_ms :: pyfloat
  fx_depth_ms :: pyfloat
  fx_rgb_number :: int
  fx_depth_number :: int
  fx_rgb_domain :: string
  fx_depth_domain :: string
  fx_scale_m :: "pyfloat option"
  fx_rgb_shape :: "nat list"
  fx_depth_shape :: "nat list"

definition frame_ref_of :: "camera_image \<Rightarrow> nat \<Rightarrow> frame_ref" where
  "frame_ref_of img sequence =
     \<lparr>fx_role = im_role img, fx_host_ns = im_host_ns img, fx_sequence = int sequence, fx_rgb_ms = im_rgb_ms img,
      fx_depth_ms = im_depth_ms img, fx_rgb_number = im_rgb_number img, fx_depth_number = im_depth_number img,
      fx_rgb_domain = im_rgb_domain img, fx_depth_domain = im_depth_domain img, fx_scale_m = im_scale_m img,
      fx_rgb_shape = ar_shape (im_rgb img), fx_depth_shape = ar_shape (im_depth img)\<rparr>"

text \<open>A descriptor has the fields of a reference but its reader; it is what crosses the process boundary.\<close>

type_synonym frame_descriptor = frame_ref

text \<open>\<open>snapshot\<close>: what the reader returned, or an exception.\<close>

definition frame_snapshot :: "frame_ref \<Rightarrow> camera_image option \<Rightarrow> (episode_error, camera_image) res" where
  "frame_snapshot f answer =
     (case answer of
        None \<Rightarrow> Inl (EpUnavailable (fx_role f))
      | Some img \<Rightarrow> if im_ring_sequence img \<noteq> Some (fx_sequence f) then Inl (EpUnavailable (fx_role f)) else Inr img)"

section \<open>Slots and writes\<close>

datatype plane = RgbPlane | DepthPlane | AlignedPlane

record ring_slot =
  rs_version :: int
  rs_sequence :: int
  rs_rgb :: "nat list"
  rs_depth :: "nat list"
  rs_aligned :: "nat list option"

text \<open>The shapes the arrays of a ring are allocated with.\<close>

record ring_profile =
  pr_rgb :: "nat list"
  pr_depth :: "nat list"
  pr_aligned :: "nat list option"

definition image_profile :: "camera_image \<Rightarrow> ring_profile" where
  "image_profile img = \<lparr>pr_rgb = ar_shape (im_rgb img), pr_depth = ar_shape (im_depth img),
     pr_aligned = map_option ar_shape (im_aligned img)\<rparr>"

text \<open>A slot before its first frame; what the fresh memory holds is an argument.\<close>

definition blank_slot :: "nat \<Rightarrow> ring_profile \<Rightarrow> ring_slot" where
  "blank_slot junk p =
     \<lparr>rs_version = 0, rs_sequence = - 1, rs_rgb = replicate (prod_list (pr_rgb p)) junk,
      rs_depth = replicate (prod_list (pr_depth p)) junk,
      rs_aligned = map_option (\<lambda>sh. replicate (prod_list sh) junk) (pr_aligned p)\<rparr>"

datatype ring_write =
    SetVersion int | SetSequence int | SetCell plane nat nat | MetaPop int | MetaSet frame_ref | ReturnRef frame_ref

fun apply_slot :: "ring_write \<Rightarrow> ring_slot \<Rightarrow> ring_slot" where
  "apply_slot (SetVersion v) s = s\<lparr>rs_version := v\<rparr>"
| "apply_slot (SetSequence q) s = s\<lparr>rs_sequence := q\<rparr>"
| "apply_slot (SetCell RgbPlane i x) s = s\<lparr>rs_rgb := (rs_rgb s)[i := x]\<rparr>"
| "apply_slot (SetCell DepthPlane i x) s = s\<lparr>rs_depth := (rs_depth s)[i := x]\<rparr>"
| "apply_slot (SetCell AlignedPlane i x) s = s\<lparr>rs_aligned := map_option (\<lambda>xs. xs[i := x]) (rs_aligned s)\<rparr>"
| "apply_slot _ s = s"

type_synonym frame_dict = "(int \<times> frame_ref) list"

definition dict_pop :: "'k \<Rightarrow> ('k \<times> 'v) list \<Rightarrow> ('k \<times> 'v) list" where
  "dict_pop k d = filter (\<lambda>x. fst x \<noteq> k) d"

fun apply_meta :: "ring_write \<Rightarrow> frame_dict \<Rightarrow> frame_dict" where
  "apply_meta (MetaPop k) d = dict_pop k d"
| "apply_meta (MetaSet f) d = dict_set (fx_sequence f) f d"
| "apply_meta _ d = d"

text \<open>\<open>np.copyto\<close>, element by element.\<close>

definition copy_plane :: "plane \<Rightarrow> image_array \<Rightarrow> ring_write list" where
  "copy_plane pl a = map (\<lambda>i. SetCell pl i (ar_cells a ! i)) [0..<length (ar_cells a)]"

definition copy_aligned :: "camera_image \<Rightarrow> ring_write list" where
  "copy_aligned img = (case im_aligned img of None \<Rightarrow> [] | Some a \<Rightarrow> copy_plane AlignedPlane a)"

section \<open>Publishing\<close>

datatype ring_error = RingCapacity | RingRole | RingProfileChanged

text \<open>
  \<open>CameraFrameRing.publish\<close>: forget the frame the slot held, check the shapes, then the copy between an odd and
  an even version. The writes of one publication, and the exception that ends it.
\<close>

definition local_publish ::
  "ring_profile \<Rightarrow> ring_slot \<Rightarrow> nat \<Rightarrow> camera_image \<Rightarrow> ring_write list \<times> ring_error option" where
  "local_publish p slot sequence img =
     (let forget = (if 0 \<le> rs_sequence slot then [MetaPop (rs_sequence slot)] else []);
          stable = int sequence * 2 + 2
      in if image_profile img \<noteq> p then (forget, Some RingProfileChanged)
         else (forget @ [SetVersion (stable - 1)] @ copy_plane RgbPlane (im_rgb img)
                 @ copy_plane DepthPlane (im_depth img) @ copy_aligned img
                 @ [SetSequence (int sequence), SetVersion stable, MetaSet (frame_ref_of img sequence),
                    ReturnRef (frame_ref_of img sequence)], None))"

text \<open>
  \<open>SharedMemoryCameraFrameRing.publish\<close>: the two fields of a header are packed in order. Only the presence of an
  aligned image is checked before the writes; when its shape differs, \<open>np.copyto\<close> raises in the middle.
\<close>

definition shared_publish ::
  "camera_role \<Rightarrow> ring_profile \<Rightarrow> nat \<Rightarrow> camera_image \<Rightarrow> ring_write list \<times> ring_error option" where
  "shared_publish role p sequence img =
     (let progress = int sequence * 2 + 1;
          copied = [SetVersion progress, SetSequence (int sequence)] @ copy_plane RgbPlane (im_rgb img)
                     @ copy_plane DepthPlane (im_depth img)
      in if im_role img \<noteq> role then ([], Some RingRole)
         else if ar_shape (im_rgb img) \<noteq> pr_rgb p \<or> ar_shape (im_depth img) \<noteq> pr_depth p then ([], Some RingProfileChanged)
         else if (im_aligned img = None) \<noteq> (pr_aligned p = None) then ([], Some RingProfileChanged)
         else if map_option ar_shape (im_aligned img) \<noteq> pr_aligned p then (copied, Some RingProfileChanged)
         else (copied @ copy_aligned img @ [SetVersion (progress + 1), SetSequence (int sequence),
                 ReturnRef (frame_ref_of img sequence)], None))"

text \<open>\<open>register_descriptor\<close>: the dictionary of the consumer keeps at most twice the capacity.\<close>

function shrink_dict :: "nat \<Rightarrow> frame_dict \<Rightarrow> frame_dict" where
  "shrink_dict limit d =
     (if limit < length d then shrink_dict limit (dict_pop (Min (set (map fst d))) d) else d)"
  by pat_completeness auto
termination
proof (relation "measure (\<lambda>(limit, d). length d)", goal_cases)
  case (2 limit d)
  then have "Min (set (map fst d)) \<in> set (map fst d)" by (intro Min_in) auto
  then obtain x where "x \<in> set d" "fst x = Min (set (map fst d))" by auto
  then have "length (filter (\<lambda>x. fst x \<noteq> Min (set (map fst d))) d) < length d" by (intro length_filter_less) auto
  then show ?case by (simp add: dict_pop_def)
qed simp

declare shrink_dict.simps [simp del]

definition register_descriptor ::
  "camera_role \<Rightarrow> nat \<Rightarrow> frame_descriptor \<Rightarrow> frame_dict \<Rightarrow> (ring_error, frame_dict) res" where
  "register_descriptor role capacity d meta =
     (if fx_role d \<noteq> role then Inl RingRole
      else let m1 = dict_set (fx_sequence d) d meta;
               expired = fx_sequence d - int capacity
           in Inr (shrink_dict (capacity * 2) (if 0 \<le> expired then dict_pop expired m1 else m1)))"

section \<open>Reading\<close>

datatype reader_pc = PcIdle | PcLookup | PcVersion | PcSequence | PcCopy | PcVersionAfter | PcSequenceAfter | PcDone

record ring_reader =
  rd_sequence :: nat
  rd_pc :: reader_pc
  rd_tries :: nat
  rd_ref :: "frame_ref option"
  rd_version :: int
  rd_after :: int
  rd_todo :: "(plane \<times> nat) list"
  rd_cells :: "nat list"
  rd_result :: "camera_image option"
  rd_expired :: nat
  rd_inconsistent :: nat

definition slot_cell :: "ring_slot \<Rightarrow> plane \<Rightarrow> nat \<Rightarrow> nat" where
  "slot_cell s pl i =
     (case pl of RgbPlane \<Rightarrow> rs_rgb s ! i | DepthPlane \<Rightarrow> rs_depth s ! i
      | AlignedPlane \<Rightarrow> (case rs_aligned s of None \<Rightarrow> 0 | Some xs \<Rightarrow> xs ! i))"

text \<open>The elements of the three copies, in order.\<close>

definition read_plan :: "ring_profile \<Rightarrow> (plane \<times> nat) list" where
  "read_plan p = map (Pair RgbPlane) [0..<prod_list (pr_rgb p)] @ map (Pair DepthPlane) [0..<prod_list (pr_depth p)]
     @ (case pr_aligned p of None \<Rightarrow> [] | Some sh \<Rightarrow> map (Pair AlignedPlane) [0..<prod_list sh])"

definition assemble :: "ring_profile \<Rightarrow> camera_role \<Rightarrow> frame_ref \<Rightarrow> nat \<Rightarrow> nat list \<Rightarrow> camera_image" where
  "assemble p role f sequence cells =
     (let n = prod_list (pr_rgb p); m = prod_list (pr_depth p) in
      \<lparr>im_role = role, im_host_ns = fx_host_ns f, im_rgb = \<lparr>ar_shape = pr_rgb p, ar_cells = take n cells\<rparr>,
       im_depth = \<lparr>ar_shape = pr_depth p, ar_cells = take m (drop n cells)\<rparr>,
       im_aligned = map_option (\<lambda>sh. \<lparr>ar_shape = sh, ar_cells = drop (n + m) cells\<rparr>) (pr_aligned p),
       im_scale_m = fx_scale_m f, im_rgb_ms = fx_rgb_ms f, im_depth_ms = fx_depth_ms f,
       im_rgb_number = fx_rgb_number f, im_depth_number = fx_depth_number f, im_rgb_domain = fx_rgb_domain f,
       im_depth_domain = fx_depth_domain f, im_ring_sequence = Some (int sequence)\<rparr>)"

definition reader_expired :: "ring_reader \<Rightarrow> ring_reader" where
  "reader_expired r = r\<lparr>rd_pc := PcDone, rd_result := None, rd_expired := rd_expired r + 1\<rparr>"

definition reader_inconsistent :: "ring_reader \<Rightarrow> ring_reader" where
  "reader_inconsistent r = r\<lparr>rd_pc := PcDone, rd_result := None, rd_inconsistent := rd_inconsistent r + 1\<rparr>"

definition reader_retry :: "ring_reader \<Rightarrow> ring_reader" where
  "reader_retry r = (if rd_tries r \<le> 1 then reader_inconsistent r else r\<lparr>rd_pc := PcVersion, rd_tries := rd_tries r - 1\<rparr>)"

definition begin_copy :: "ring_profile \<Rightarrow> ring_reader \<Rightarrow> ring_reader" where
  "begin_copy p r = r\<lparr>rd_pc := PcCopy, rd_todo := read_plan p, rd_cells := []\<rparr>"

definition copy_step :: "ring_slot \<Rightarrow> ring_reader \<Rightarrow> ring_reader" where
  "copy_step s r =
     (case rd_todo r of
        [] \<Rightarrow> r\<lparr>rd_pc := PcVersionAfter\<rparr>
      | (pl, i) # rest \<Rightarrow> r\<lparr>rd_todo := rest, rd_cells := rd_cells r @ [slot_cell s pl i]\<rparr>)"

definition reader_return :: "ring_profile \<Rightarrow> camera_role \<Rightarrow> ring_reader \<Rightarrow> ring_reader" where
  "reader_return p role r =
     r\<lparr>rd_pc := PcDone, rd_result := map_option (\<lambda>f. assemble p role f (rd_sequence r) (rd_cells r)) (rd_ref r)\<rparr>"

definition expected_version :: "ring_reader \<Rightarrow> int" where
  "expected_version r = int (rd_sequence r) * 2 + 2"

text \<open>\<open>CameraFrameRing.read\<close>: the metadata first, then up to three attempts.\<close>

definition local_read_step :: "ring_profile \<Rightarrow> ring_slot \<Rightarrow> frame_dict \<Rightarrow> ring_reader \<Rightarrow> ring_reader" where
  "local_read_step p s meta r =
     (case rd_pc r of
        PcLookup \<Rightarrow>
          (case map_of meta (int (rd_sequence r)) of
             None \<Rightarrow> reader_expired r
           | Some f \<Rightarrow> r\<lparr>rd_ref := Some f, rd_tries := 3, rd_pc := PcVersion\<rparr>)
      | PcVersion \<Rightarrow>
          (let v = rs_version s in
           if v \<noteq> expected_version r \<or> odd v then reader_retry r
           else r\<lparr>rd_version := v, rd_pc := PcSequence\<rparr>)
      | PcSequence \<Rightarrow> if rs_sequence s \<noteq> int (rd_sequence r) then reader_retry r else begin_copy p r
      | PcCopy \<Rightarrow> copy_step s r
      | PcVersionAfter \<Rightarrow> if rs_version s = rd_version r then r\<lparr>rd_pc := PcSequenceAfter\<rparr> else reader_retry r
      | PcSequenceAfter \<Rightarrow>
          if rs_sequence s = int (rd_sequence r)
          then (case rd_ref r of None \<Rightarrow> r | Some f \<Rightarrow> reader_return p (fx_role f) r) else reader_retry r
      | _ \<Rightarrow> r)"

text \<open>\<open>SharedMemoryCameraFrameRing.read\<close>: one attempt, the metadata after the header.\<close>

definition shared_read_step ::
  "ring_profile \<Rightarrow> camera_role \<Rightarrow> ring_slot \<Rightarrow> frame_dict \<Rightarrow> ring_reader \<Rightarrow> ring_reader" where
  "shared_read_step p role s meta r =
     (case rd_pc r of
        PcVersion \<Rightarrow> r\<lparr>rd_version := rs_version s, rd_pc := PcSequence\<rparr>
      | PcSequence \<Rightarrow>
          if rd_version r \<noteq> expected_version r \<or> odd (rd_version r) \<or> rs_sequence s \<noteq> int (rd_sequence r)
          then reader_expired r else r\<lparr>rd_pc := PcLookup\<rparr>
      | PcLookup \<Rightarrow>
          (case map_of meta (int (rd_sequence r)) of
             None \<Rightarrow> reader_expired r | Some f \<Rightarrow> begin_copy p (r\<lparr>rd_ref := Some f\<rparr>))
      | PcCopy \<Rightarrow> copy_step s r
      | PcVersionAfter \<Rightarrow> r\<lparr>rd_after := rs_version s, rd_pc := PcSequenceAfter\<rparr>
      | PcSequenceAfter \<Rightarrow>
          if rd_after r \<noteq> rd_version r \<or> rs_sequence s \<noteq> int (rd_sequence r) then reader_inconsistent r
          else reader_return p role r
      | _ \<Rightarrow> r)"

section \<open>One producer and a consumer\<close>

datatype ring_kind = LocalRing | SharedRing

record ring_config =
  rg_kind :: ring_kind
  rg_capacity :: nat
  rg_role :: camera_role
  rg_spec :: ring_profile
  rg_junk :: nat

text \<open>
  The program of the current publication, the number the next one takes, and every image a publication was started
  with. The local ring allocates its slots at the first frame; the shared one has them from the start.
\<close>

record ring_world =
  wd_slots :: "ring_slot list"
  wd_profile :: "ring_profile option"
  wd_meta :: frame_dict
  wd_program :: "ring_write list"
  wd_next :: nat
  wd_history :: "nat \<Rightarrow> camera_image option"
  wd_stopped :: bool
  wd_reuse :: nat
  wd_returned :: "frame_ref list"
  wd_reader :: ring_reader

definition new_reader_at :: "nat \<Rightarrow> reader_pc \<Rightarrow> ring_reader" where
  "new_reader_at sequence pc = \<lparr>rd_sequence = sequence, rd_pc = pc, rd_tries = 0, rd_ref = None, rd_version = 0,
     rd_after = 0, rd_todo = [], rd_cells = [], rd_result = None, rd_expired = 0, rd_inconsistent = 0\<rparr>"

definition new_ring :: "ring_config \<Rightarrow> (ring_error, ring_world) res" where
  "new_ring c =
     (if rg_capacity c \<le> 1 then Inl RingCapacity
      else Inr \<lparr>wd_slots = (if rg_kind c = SharedRing then replicate (rg_capacity c) (blank_slot (rg_junk c) (rg_spec c)) else []),
        wd_profile = (if rg_kind c = SharedRing then Some (rg_spec c) else None), wd_meta = [], wd_program = [],
        wd_next = 0, wd_history = (\<lambda>_. None), wd_stopped = False, wd_reuse = 0, wd_returned = [],
        wd_reader = new_reader_at 0 PcIdle\<rparr>)"

definition allocate :: "ring_config \<Rightarrow> camera_image \<Rightarrow> ring_world \<Rightarrow> ring_world" where
  "allocate c img w =
     (if wd_profile w = None
      then w\<lparr>wd_profile := Some (image_profile img),
             wd_slots := replicate (rg_capacity c) (blank_slot (rg_junk c) (image_profile img))\<rparr>
      else w)"

text \<open>The start of a publication. Both producers end their loop at an exception.\<close>

definition start_publish :: "ring_config \<Rightarrow> camera_image \<Rightarrow> ring_world \<Rightarrow> ring_world" where
  "start_publish c img w0 =
     (let w = allocate c img w0;
          s = wd_next w;
          slot = wd_slots w ! (s mod rg_capacity c);
          p = (case wd_profile w of None \<Rightarrow> rg_spec c | Some q \<Rightarrow> q)
      in case (if rg_kind c = LocalRing then local_publish p slot s img else shared_publish (rg_role c) p s img) of
           (program, failed) \<Rightarrow>
             w\<lparr>wd_program := program, wd_next := s + 1, wd_history := (wd_history w)(s := Some img),
               wd_stopped := failed \<noteq> None,
               wd_reuse := wd_reuse w + (if 0 \<le> rs_sequence slot \<and> \<not> (rg_kind c = SharedRing \<and> program = []) then 1 else 0)\<rparr>)"

definition do_write :: "ring_config \<Rightarrow> ring_write \<Rightarrow> ring_world \<Rightarrow> ring_world" where
  "do_write c x w =
     (let k = (wd_next w - 1) mod rg_capacity c in
      w\<lparr>wd_slots := (wd_slots w)[k := apply_slot x (wd_slots w ! k)], wd_meta := apply_meta x (wd_meta w),
        wd_returned := (case x of ReturnRef f \<Rightarrow> wd_returned w @ [f] | _ \<Rightarrow> wd_returned w)\<rparr>)"

definition read_step :: "ring_config \<Rightarrow> ring_world \<Rightarrow> ring_reader" where
  "read_step c w =
     (let r = wd_reader w; s = wd_slots w ! (rd_sequence r mod rg_capacity c) in
      case wd_profile w of
        None \<Rightarrow> (if rd_pc r = PcIdle \<or> rd_pc r = PcDone then r else reader_expired r)
      | Some p \<Rightarrow> if rg_kind c = LocalRing then local_read_step p s (wd_meta w) r
                 else shared_read_step p (rg_role c) s (wd_meta w) r)"

text \<open>
  Events: the producer starts a frame, does its next write; the consumer is handed the descriptor of a returned
  frame (of the shared ring), starts to read a sequence, does its next step.
\<close>

datatype ring_event = RingPublish camera_image | RingWrite | RingRegister nat | RingRead nat | RingReadStep

fun ring_step :: "ring_config \<Rightarrow> ring_event \<Rightarrow> ring_world \<Rightarrow> ring_world" where
  "ring_step c (RingPublish img) w =
     (if wd_program w \<noteq> [] \<or> wd_stopped w \<or> \<not> image_ok img then w else start_publish c img w)"
| "ring_step c RingWrite w = (case wd_program w of [] \<Rightarrow> w | x # xs \<Rightarrow> (do_write c x w)\<lparr>wd_program := xs\<rparr>)"
| "ring_step c (RingRegister i) w =
     (if rg_kind c = LocalRing \<or> length (wd_returned w) \<le> i then w
      else case register_descriptor (rg_role c) (rg_capacity c) (wd_returned w ! i) (wd_meta w) of
             Inl e \<Rightarrow> w | Inr m \<Rightarrow> w\<lparr>wd_meta := m\<rparr>)"
| "ring_step c (RingRead s) w =
     (if rd_pc (wd_reader w) = PcIdle \<or> rd_pc (wd_reader w) = PcDone
      then w\<lparr>wd_reader := (new_reader_at s (if rg_kind c = LocalRing then PcLookup else PcVersion))
                \<lparr>rd_expired := rd_expired (wd_reader w), rd_inconsistent := rd_inconsistent (wd_reader w)\<rparr>\<rparr>
      else w)"
| "ring_step c RingReadStep w = w\<lparr>wd_reader := read_step c w\<rparr>"

definition ring_run :: "ring_config \<Rightarrow> ring_event list \<Rightarrow> ring_world \<Rightarrow> ring_world" where
  "ring_run c es w = foldl (\<lambda>v e. ring_step c e v) w es"

end
