(* ===== verification/CameraRingSafety.thy ===== *)
theory CameraRingSafety
  imports CameraRing
begin

text \<open>
  No torn frame: a consumer of a camera ring (\<open>CameraFrameRing\<close>, \<open>SharedMemoryCameraFrameRing\<close>) that returns a frame
  returns exactly the image the producer published under that number, wherever its copy was interrupted. The locale
  states what a publication owes its consumers, and both rings are interpretations of it; the argument is of the
  rely and guarantee kind: every write of the producer keeps a stable slot or raises its version.
\<close>

section \<open>Cells\<close>

definition cell_of :: "nat list \<Rightarrow> nat list \<Rightarrow> nat list option \<Rightarrow> plane \<times> nat \<Rightarrow> nat" where
  "cell_of rgb depth aligned x =
     (case x of (pl, i) \<Rightarrow> case pl of RgbPlane \<Rightarrow> rgb ! i | DepthPlane \<Rightarrow> depth ! i
      | AlignedPlane \<Rightarrow> (case aligned of None \<Rightarrow> 0 | Some xs \<Rightarrow> xs ! i))"

definition image_cell :: "camera_image \<Rightarrow> plane \<times> nat \<Rightarrow> nat" where
  "image_cell img = cell_of (ar_cells (im_rgb img)) (ar_cells (im_depth img)) (map_option ar_cells (im_aligned img))"

definition memory_cell :: "ring_slot \<Rightarrow> plane \<times> nat \<Rightarrow> nat" where
  "memory_cell s = cell_of (rs_rgb s) (rs_depth s) (rs_aligned s)"

lemma slot_cell_memory: "slot_cell s pl i = memory_cell s (pl, i)"
  by (simp add: slot_cell_def memory_cell_def cell_of_def)

definition slot_fits :: "ring_profile \<Rightarrow> ring_slot \<Rightarrow> bool" where
  "slot_fits p s \<longleftrightarrow> length (rs_rgb s) = prod_list (pr_rgb p) \<and> length (rs_depth s) = prod_list (pr_depth p)
     \<and> map_option length (rs_aligned s) = map_option prod_list (pr_aligned p)"

definition slot_holds :: "ring_profile \<Rightarrow> ring_slot \<Rightarrow> camera_image \<Rightarrow> bool" where
  "slot_holds p s img \<longleftrightarrow> (\<forall>x \<in> set (read_plan p). memory_cell s x = image_cell img x)"

lemma blank_slot_fits: "slot_fits p (blank_slot junk p)"
  by (cases "pr_aligned p") (simp_all add: slot_fits_def blank_slot_def)

text \<open>What one write leaves alone.\<close>

definition is_version :: "ring_write \<Rightarrow> bool" where
  "is_version x \<longleftrightarrow> (\<exists>v. x = SetVersion v)"

definition is_quiet :: "ring_write \<Rightarrow> bool" where
  "is_quiet x \<longleftrightarrow> \<not> is_version x \<and> (\<forall>pl i y. x \<noteq> SetCell pl i y)"

lemma is_version_simps [simp]:
  "is_version (SetVersion v)" "\<not> is_version (SetSequence q)" "\<not> is_version (SetCell pl i y)" "\<not> is_version (MetaPop k)"
  "\<not> is_version (MetaSet f)" "\<not> is_version (ReturnRef f)"
  by (simp_all add: is_version_def)

lemma is_quiet_simps [simp]:
  "\<not> is_quiet (SetVersion v)" "is_quiet (SetSequence q)" "\<not> is_quiet (SetCell pl i y)" "is_quiet (MetaPop k)"
  "is_quiet (MetaSet f)" "is_quiet (ReturnRef f)"
  by (simp_all add: is_quiet_def)

lemma apply_slot_fits [simp]: "slot_fits p (apply_slot x s) = slot_fits p s"
proof (cases x)
  case (SetCell pl i y)
  then show ?thesis by (cases pl; cases "rs_aligned s") (simp_all add: slot_fits_def)
qed (simp_all add: slot_fits_def)

lemma apply_quiet: "is_quiet x \<Longrightarrow> rs_version (apply_slot x s) = rs_version s \<and> memory_cell (apply_slot x s) = memory_cell s"
  by (cases x) (simp_all add: memory_cell_def)

lemma apply_unversioned: "\<not> is_version x \<Longrightarrow> rs_version (apply_slot x s) = rs_version s"
proof (cases x)
  case (SetCell pl i y)
  then show ?thesis by (cases pl) simp_all
qed simp_all

definition run_writes :: "ring_write list \<Rightarrow> ring_slot \<Rightarrow> ring_slot" where
  "run_writes ws s = foldl (\<lambda>t x. apply_slot x t) s ws"

lemma run_writes_simps [simp]: "run_writes [] s = s" "run_writes (x # xs) s = run_writes xs (apply_slot x s)"
  "run_writes (xs @ ys) s = run_writes ys (run_writes xs s)"
  by (simp_all add: run_writes_def)

text \<open>The version and the sequence of a slot do not matter for its cells.\<close>

lemma memory_cell_header [simp]:
  "memory_cell (s\<lparr>rs_version := v\<rparr>) = memory_cell s" "memory_cell (s\<lparr>rs_sequence := q\<rparr>) = memory_cell s"
  by (simp_all add: memory_cell_def)

lemma slot_holds_cells: "memory_cell t = memory_cell s \<Longrightarrow> slot_holds p t img = slot_holds p s img"
  by (simp add: slot_holds_def)

text \<open>Copying a plane.\<close>

lemma run_copy_rgb:
  assumes "n \<le> length (ar_cells a)" "length (rs_rgb s) = length (ar_cells a)"
  shows "run_writes (map (\<lambda>i. SetCell RgbPlane i (ar_cells a ! i)) [0..<n]) s
    = s\<lparr>rs_rgb := take n (ar_cells a) @ drop n (rs_rgb s)\<rparr>"
  using assms
proof (induction n)
  case (Suc n)
  then have "drop n (rs_rgb s) = rs_rgb s ! n # drop (Suc n) (rs_rgb s)" by (simp add: Cons_nth_drop_Suc)
  with Suc show ?case by (simp add: list_update_append take_Suc_conv_app_nth)
qed simp

lemma run_copy_depth:
  assumes "n \<le> length (ar_cells a)" "length (rs_depth s) = length (ar_cells a)"
  shows "run_writes (map (\<lambda>i. SetCell DepthPlane i (ar_cells a ! i)) [0..<n]) s
    = s\<lparr>rs_depth := take n (ar_cells a) @ drop n (rs_depth s)\<rparr>"
  using assms
proof (induction n)
  case (Suc n)
  then have "drop n (rs_depth s) = rs_depth s ! n # drop (Suc n) (rs_depth s)" by (simp add: Cons_nth_drop_Suc)
  with Suc show ?case by (simp add: list_update_append take_Suc_conv_app_nth)
qed simp

lemma run_copy_aligned:
  assumes "n \<le> length (ar_cells a)" "rs_aligned s = Some xs" "length xs = length (ar_cells a)"
  shows "run_writes (map (\<lambda>i. SetCell AlignedPlane i (ar_cells a ! i)) [0..<n]) s
    = s\<lparr>rs_aligned := Some (take n (ar_cells a) @ drop n xs)\<rparr>"
  using assms
proof (induction n)
  case (Suc n)
  then have "drop n xs = xs ! n # drop (Suc n) xs" by (simp add: Cons_nth_drop_Suc)
  with Suc show ?case by (simp add: list_update_append take_Suc_conv_app_nth)
qed (cases s; simp)

definition copy_image :: "camera_image \<Rightarrow> ring_write list" where
  "copy_image img = copy_plane RgbPlane (im_rgb img) @ copy_plane DepthPlane (im_depth img) @ copy_aligned img"

lemma run_copy_image:
  assumes fits: "slot_fits p s" and ok: "image_ok img" and prof: "image_profile img = p"
  shows "slot_holds p (run_writes (copy_image img) s) img"
proof -
  have len: "length (ar_cells (im_rgb img)) = prod_list (pr_rgb p)" "length (ar_cells (im_depth img)) = prod_list (pr_depth p)"
    using ok prof by (auto simp: image_ok_def array_ok_def image_profile_def)
  let ?s1 = "s\<lparr>rs_rgb := ar_cells (im_rgb img), rs_depth := ar_cells (im_depth img)\<rparr>"
  have s1: "run_writes (copy_plane RgbPlane (im_rgb img) @ copy_plane DepthPlane (im_depth img)) s = ?s1"
    using run_copy_rgb[of "length (ar_cells (im_rgb img))" "im_rgb img" s] fits len
      run_copy_depth[of "length (ar_cells (im_depth img))" "im_depth img" "s\<lparr>rs_rgb := ar_cells (im_rgb img)\<rparr>"]
    by (simp add: copy_plane_def slot_fits_def)
  show ?thesis
  proof (cases "im_aligned img")
    case None
    then have "pr_aligned p = None" using prof by (auto simp: image_profile_def)
    with None s1 show ?thesis
      by (auto simp: copy_image_def copy_aligned_def slot_holds_def read_plan_def memory_cell_def image_cell_def cell_of_def)
  next
    case (Some a)
    then have al: "pr_aligned p = Some (ar_shape a)" using prof by (auto simp: image_profile_def)
    with fits obtain xs where xs: "rs_aligned s = Some xs" "length xs = prod_list (ar_shape a)"
      by (auto simp: slot_fits_def)
    have la: "length (ar_cells a) = prod_list (ar_shape a)" using ok Some by (simp add: image_ok_def array_ok_def)
    have "run_writes (copy_image img) s = ?s1\<lparr>rs_aligned := Some (ar_cells a)\<rparr>"
      using s1 run_copy_aligned[of "length (ar_cells a)" a ?s1 xs] xs la Some
      by (simp add: copy_image_def copy_aligned_def copy_plane_def)
    with Some al show ?thesis
      by (auto simp: slot_holds_def read_plan_def memory_cell_def image_cell_def cell_of_def)
  qed
qed

section \<open>What a publication owes its consumers\<close>

text \<open>
  An image that a ring of this profile and role stores. A stable slot holds the image of its version; the writes
  that remain of a publication are about to mark the slot (\<open>announcing\<close>), copy into a marked slot (\<open>copying\<close>), or no
  longer touch what consumers look at.
\<close>

type_synonym image_history = "nat \<Rightarrow> camera_image option"

definition stored :: "ring_config \<Rightarrow> ring_profile \<Rightarrow> image_history \<Rightarrow> nat \<Rightarrow> camera_image \<Rightarrow> bool" where
  "stored c p h v img \<longleftrightarrow> h v = Some img \<and> image_ok img \<and> image_profile img = p
     \<and> (rg_kind c = SharedRing \<longrightarrow> im_role img = rg_role c)"

definition slot_ok :: "ring_config \<Rightarrow> ring_profile \<Rightarrow> image_history \<Rightarrow> ring_slot \<Rightarrow> bool" where
  "slot_ok c p h s \<longleftrightarrow> slot_fits p s
     \<and> (\<forall>v. rs_version s = int v * 2 + 2 \<longrightarrow> (\<exists>img. stored c p h v img \<and> slot_holds p s img))"

definition finishing :: "ring_config \<Rightarrow> ring_profile \<Rightarrow> image_history \<Rightarrow> nat \<Rightarrow> ring_slot \<Rightarrow> ring_write list \<Rightarrow> bool" where
  "finishing c p h q s ws \<longleftrightarrow> ws = [] \<or> (\<exists>ys img. ws = SetVersion (int q * 2 + 2) # ys \<and> list_all is_quiet ys
     \<and> stored c p h q img \<and> slot_holds p s img)"

definition copying :: "ring_config \<Rightarrow> ring_profile \<Rightarrow> image_history \<Rightarrow> nat \<Rightarrow> ring_slot \<Rightarrow> ring_write list \<Rightarrow> bool" where
  "copying c p h q s ws \<longleftrightarrow> (\<exists>mid post. ws = mid @ post \<and> list_all (\<lambda>x. \<not> is_version x) mid
     \<and> finishing c p h q (run_writes mid s) post)"

definition announcing :: "ring_config \<Rightarrow> ring_profile \<Rightarrow> image_history \<Rightarrow> nat \<Rightarrow> ring_slot \<Rightarrow> ring_write list \<Rightarrow> bool" where
  "announcing c p h q s ws \<longleftrightarrow> rs_version s < int q * 2 + 1 \<and> (\<exists>pre rest. ws = pre @ SetVersion (int q * 2 + 1) # rest
     \<and> list_all is_quiet pre \<and> copying c p h q s rest)"

definition writing :: "ring_config \<Rightarrow> ring_profile \<Rightarrow> image_history \<Rightarrow> nat \<Rightarrow> ring_slot \<Rightarrow> ring_write list \<Rightarrow> bool" where
  "writing c p h q s ws \<longleftrightarrow> list_all is_quiet ws \<or> announcing c p h q s ws
     \<or> rs_version s = int q * 2 + 1 \<and> copying c p h q s ws"

lemma announcingI:
  "rs_version s < int q * 2 + 1 \<Longrightarrow> ws = pre @ SetVersion (int q * 2 + 1) # rest \<Longrightarrow> list_all is_quiet pre \<Longrightarrow>
   copying c p h q s rest \<Longrightarrow> announcing c p h q s ws"
  unfolding announcing_def by blast

text \<open>What a consumer may rely on: a stable slot keeps its cells, and versions only grow.\<close>

definition slot_later :: "ring_slot \<Rightarrow> ring_slot \<Rightarrow> bool" where
  "slot_later s t \<longleftrightarrow> rs_version s \<le> rs_version t
     \<and> (rs_version t = rs_version s \<longrightarrow> even (rs_version s) \<longrightarrow> memory_cell t = memory_cell s)"

lemma slot_later_refl [simp]: "slot_later s s"
  by (simp add: slot_later_def)

definition same_cells :: "ring_slot \<Rightarrow> ring_slot \<Rightarrow> bool" where
  "same_cells s t \<longleftrightarrow> rs_rgb t = rs_rgb s \<and> rs_depth t = rs_depth s \<and> rs_aligned t = rs_aligned s"

lemma same_cells_apply: "same_cells s t \<Longrightarrow> same_cells (apply_slot x s) (apply_slot x t)"
proof (cases x)
  case (SetCell pl i y)
  assume "same_cells s t"
  with SetCell show ?thesis by (cases pl) (simp_all add: same_cells_def)
qed (simp_all add: same_cells_def)

lemma same_cells_run: "same_cells s t \<Longrightarrow> memory_cell (run_writes ws t) = memory_cell (run_writes ws s)"
  by (induction ws arbitrary: s t) (simp_all add: same_cells_apply, simp add: same_cells_def memory_cell_def)

lemma same_cells_quiet: "is_quiet x \<or> is_version x \<Longrightarrow> same_cells s (apply_slot x s)"
  by (cases x) (simp_all add: same_cells_def)

lemma finishing_cells: "memory_cell t = memory_cell s \<Longrightarrow> finishing c p h q t ws = finishing c p h q s ws"
  by (simp add: finishing_def slot_holds_def)

lemma copying_cells: "same_cells s t \<Longrightarrow> copying c p h q t ws = copying c p h q s ws"
  unfolding copying_def using finishing_cells[OF same_cells_run] by blast

section \<open>A write of the producer\<close>

lemma odd_version [simp]: "int q * 2 + 1 \<noteq> int v * 2 + 2"
  by presburger

lemma slot_ok_quiet: "is_quiet x \<Longrightarrow> slot_ok c p h s \<Longrightarrow> slot_ok c p h (apply_slot x s)"
  using apply_quiet[of x s] by (simp add: slot_ok_def slot_holds_def)

lemma writing_step:
  assumes w: "writing c p h q s (x # xs)" and ok: "slot_ok c p h s"
  shows "writing c p h q (apply_slot x s) xs \<and> slot_ok c p h (apply_slot x s) \<and> slot_later s (apply_slot x s)
    \<and> rs_version (apply_slot x s) \<le> max (rs_version s) (int q * 2 + 2)"
proof -
  have quiet: "slot_ok c p h (apply_slot x s) \<and> slot_later s (apply_slot x s)
      \<and> rs_version (apply_slot x s) \<le> max (rs_version s) (int q * 2 + 2)" if "is_quiet x"
    using that apply_quiet[OF that, of s] slot_ok_quiet[OF that ok] by (simp add: slot_later_def)
  from w consider (quiet) "list_all is_quiet (x # xs)"
    | (announce) "announcing c p h q s (x # xs)"
    | (copy) "rs_version s = int q * 2 + 1" "copying c p h q s (x # xs)"
    unfolding writing_def by blast
  then show ?thesis
  proof cases
    case quiet
    then show ?thesis using \<open>is_quiet x \<Longrightarrow> _\<close> by (simp add: writing_def)
  next
    case announce
    then obtain pre rest where pre: "x # xs = pre @ SetVersion (int q * 2 + 1) # rest" "list_all is_quiet pre"
      "copying c p h q s rest" "rs_version s < int q * 2 + 1" by (auto simp: announcing_def)
    show ?thesis
    proof (cases pre)
      case Nil
      with pre have x: "x = SetVersion (int q * 2 + 1)" "xs = rest" by simp_all
      have "copying c p h q (apply_slot x s) rest"
        using pre(3) copying_cells[OF same_cells_quiet[of x s]] x by simp
      with x pre(4) ok show ?thesis
        by (auto simp: writing_def slot_ok_def slot_later_def slot_fits_def odd_version)
    next
      case (Cons y ys)
      with pre have x: "is_quiet x" "xs = ys @ SetVersion (int q * 2 + 1) # rest" "list_all is_quiet ys" by auto
      have "announcing c p h q (apply_slot x s) xs"
        using x pre(3,4) copying_cells[OF same_cells_quiet[of x s]] apply_quiet[OF x(1), of s]
        by (auto simp: announcing_def)
      with quiet[OF x(1)] show ?thesis by (simp add: writing_def)
    qed
  next
    case copy
    then obtain mid post where mid: "x # xs = mid @ post" "list_all (\<lambda>x. \<not> is_version x) mid"
      "finishing c p h q (run_writes mid s) post" by (auto simp: copying_def)
    show ?thesis
    proof (cases mid)
      case Nil
      with mid obtain img where x: "x = SetVersion (int q * 2 + 2)" "list_all is_quiet xs"
        "stored c p h q img" "slot_holds p s img" by (auto simp: finishing_def)
      with ok copy(1) show ?thesis
        by (auto simp: writing_def slot_ok_def slot_later_def slot_fits_def slot_holds_def)
    next
      case (Cons y ys)
      with mid have x: "\<not> is_version x" "xs = ys @ post" "list_all (\<lambda>x. \<not> is_version x) ys"
        "finishing c p h q (run_writes ys (apply_slot x s)) post" by auto
      then have "copying c p h q (apply_slot x s) xs" by (auto simp: copying_def)
      moreover have "slot_ok c p h (apply_slot x s)"
        using ok copy(1) apply_unversioned[OF x(1), of s] by (auto simp: slot_ok_def)
      ultimately show ?thesis
        using copy(1) apply_unversioned[OF x(1), of s] by (simp add: writing_def slot_later_def)
    qed
  qed
qed

section \<open>The interface of a seqlock\<close>

text \<open>
  A publication announces itself with the odd version of its number on a slot whose version is smaller, or does not
  touch the slot; the references it hands out describe its image.
\<close>

fun handed_out :: "ring_write \<Rightarrow> frame_ref option" where
  "handed_out (MetaSet f) = Some f"
| "handed_out (ReturnRef f) = Some f"
| "handed_out _ = None"

locale seqlock =
  fixes config :: ring_config
    and publication :: "ring_profile \<Rightarrow> ring_slot \<Rightarrow> nat \<Rightarrow> camera_image \<Rightarrow> ring_write list"
  assumes announces: "slot_fits p s \<Longrightarrow> image_ok img \<Longrightarrow> h q = Some img \<Longrightarrow> rs_version s < int q * 2 + 1 \<Longrightarrow>
      list_all is_quiet (publication p s q img) \<or> announcing config p h q s (publication p s q img)"
    and describes: "x \<in> set (publication p s q img) \<Longrightarrow> handed_out x = Some f \<Longrightarrow>
      f = frame_ref_of img q \<and> (rg_kind config = SharedRing \<longrightarrow> im_role img = rg_role config) \<and> image_profile img = p"
begin

lemma starts_writing:
  "slot_fits p s \<Longrightarrow> image_ok img \<Longrightarrow> h q = Some img \<Longrightarrow> rs_version s < int q * 2 + 1 \<Longrightarrow>
   writing config p h q s (publication p s q img)"
  using announces by (auto simp: writing_def)

text \<open>Any part of a publication keeps the slot stable for its consumers.\<close>

lemma publication_prefix:
  assumes "slot_fits p s" "image_ok img" "h q = Some img" "rs_version s < int q * 2 + 1" "slot_ok config p h s"
    and "publication p s q img = ws @ rest"
  shows "slot_ok config p h (run_writes ws s) \<and> slot_later s (run_writes ws s)"
proof -
  have "writing config p h q t (ws @ rest) \<Longrightarrow> slot_ok config p h t \<Longrightarrow>
      slot_ok config p h (run_writes ws t) \<and> slot_later t (run_writes ws t)" for t
  proof (induction ws arbitrary: t)
    case (Cons x xs)
    then have "writing config p h q t (x # xs @ rest)" by simp
    note st = writing_step[OF this Cons.prems(2)]
    with Cons.IH[of "apply_slot x t"] show ?case by (auto simp: slot_later_def)
  qed simp
  from this[of s] starts_writing[of p s img h q] assms show ?thesis by simp
qed

end

lemma copy_image_unversioned: "list_all (\<lambda>x. \<not> is_version x) (copy_image img)"
  by (auto simp: copy_image_def copy_aligned_def copy_plane_def list_all_iff split: option.split)

lemma copy_image_handed_out: "x \<in> set (copy_image img) \<Longrightarrow> handed_out x = None"
  by (auto simp: copy_image_def copy_aligned_def copy_plane_def split: option.split_asm)

lemma run_copy_sequence: "memory_cell (run_writes ws (s\<lparr>rs_sequence := v\<rparr>)) = memory_cell (run_writes ws s)"
  using same_cells_run[of s "s\<lparr>rs_sequence := v\<rparr>" ws] by (simp add: same_cells_def)

lemma copy_then_finish:
  assumes "slot_fits p s" "stored c p h q img" "list_all is_quiet ys"
    and "copied = pre @ copy_image img @ post" "list_all is_quiet pre" "list_all is_quiet post"
  shows "copying c p h q s (copied @ SetVersion (int q * 2 + 2) # ys)"
proof -
  have quiet: "memory_cell (run_writes ws t) = memory_cell t \<and> slot_fits p (run_writes ws t) = slot_fits p t"
    if "list_all is_quiet ws" for ws t
    using that by (induction ws arbitrary: t) (simp_all add: apply_quiet)
  have "slot_holds p (run_writes copied s) img"
    using assms(2,4-6) quiet[of pre s] quiet[of post] assms(1) run_copy_image[of p "run_writes pre s" img]
    by (simp add: stored_def slot_holds_def)
  moreover have "list_all (\<lambda>x. \<not> is_version x) copied"
    using assms(4-6) copy_image_unversioned[of img] by (auto simp: list_all_iff is_quiet_def)
  ultimately show ?thesis using assms(2,3) by (auto simp: copying_def finishing_def)
qed

interpretation local_ring: seqlock "c\<lparr>rg_kind := LocalRing\<rparr>" "\<lambda>p s q img. fst (local_publish p s q img)" for c
proof
  fix p s img h q
  assume a: "slot_fits p s" "image_ok img" "h q = Some img" "rs_version s < int q * 2 + 1"
  let ?c = "c\<lparr>rg_kind := LocalRing\<rparr>" and ?forget = "if 0 \<le> rs_sequence s then [MetaPop (rs_sequence s)] else []"
  show "list_all is_quiet (fst (local_publish p s q img)) \<or> announcing ?c p h q s (fst (local_publish p s q img))"
  proof (cases "image_profile img = p")
    case True
    have st: "stored ?c p h q img" using a True by (simp add: stored_def)
    let ?ys = "[MetaSet (frame_ref_of img q), ReturnRef (frame_ref_of img q)]"
    have "copying ?c p h q s ((copy_image img @ [SetSequence (int q)]) @ SetVersion (int q * 2 + 2) # ?ys)"
      by (rule copy_then_finish[OF a(1) st, of _ _ "[]" "[SetSequence (int q)]"]) simp_all
    moreover have "fst (local_publish p s q img) = ?forget @ SetVersion (int q * 2 + 1)
        # (copy_image img @ [SetSequence (int q)]) @ SetVersion (int q * 2 + 2) # ?ys"
      using True by (simp add: local_publish_def Let_def copy_image_def)
    ultimately have "announcing ?c p h q s (fst (local_publish p s q img))"
      using a(4) by (intro announcingI[of s q _ ?forget]) auto
    then show ?thesis ..
  qed (simp add: local_publish_def Let_def)
next
  fix x p s q img f
  assume "x \<in> set (fst (local_publish p s q img))" "handed_out x = Some f"
  then show "f = frame_ref_of img q \<and> (rg_kind (c\<lparr>rg_kind := LocalRing\<rparr>) = SharedRing \<longrightarrow>
      im_role img = rg_role (c\<lparr>rg_kind := LocalRing\<rparr>)) \<and> image_profile img = p"
    using copy_image_handed_out[of x img]
    by (auto simp: local_publish_def Let_def copy_image_def split: if_split_asm)
qed

interpretation shared_ring: seqlock "c\<lparr>rg_kind := SharedRing\<rparr>" "\<lambda>p s q img. fst (shared_publish (rg_role c) p q img)" for c
proof
  fix p s img h q
  assume a: "slot_fits p s" "image_ok img" "h q = Some img" "rs_version s < int q * 2 + 1"
  let ?c = "c\<lparr>rg_kind := SharedRing\<rparr>" and ?ws = "fst (shared_publish (rg_role c) p q img)"
  show "list_all is_quiet ?ws \<or> announcing ?c p h q s ?ws"
  proof (cases "image_profile img = p \<and> im_role img = rg_role c")
    case True
    have st: "stored ?c p h q img" using a True by (simp add: stored_def)
    let ?ys = "[SetSequence (int q), ReturnRef (frame_ref_of img q)]"
    have "copying ?c p h q s ((SetSequence (int q) # copy_image img) @ SetVersion (int q * 2 + 2) # ?ys)"
      by (rule copy_then_finish[OF a(1) st, of _ _ "[SetSequence (int q)]" "[]"]) simp_all
    moreover have "?ws = SetVersion (int q * 2 + 1) # (SetSequence (int q) # copy_image img) @ SetVersion (int q * 2 + 2) # ?ys"
      using True by (auto simp: shared_publish_def Let_def copy_image_def image_profile_def)
    ultimately have "announcing ?c p h q s ?ws" using a(4) by (intro announcingI[of s q _ "[]"]) auto
    then show ?thesis ..
  next
    case False
    show ?thesis
    proof (cases "?ws = []")
      case no: False
      then have "?ws = SetVersion (int q * 2 + 1) # SetSequence (int q) # copy_plane RgbPlane (im_rgb img)
          @ copy_plane DepthPlane (im_depth img)"
        using False by (auto simp: shared_publish_def Let_def image_profile_def split: if_split_asm)
      moreover have "copying ?c p h q s (SetSequence (int q) # copy_plane RgbPlane (im_rgb img)
          @ copy_plane DepthPlane (im_depth img))"
        unfolding copying_def by (rule exI, rule exI[of _ "[]"]) (auto simp: copy_plane_def finishing_def list_all_iff)
      ultimately have "announcing ?c p h q s ?ws" using a(4) by (intro announcingI[of s q _ "[]"]) auto
      then show ?thesis ..
    qed simp
  qed
next
  fix x p and s :: ring_slot and q img f
  assume "x \<in> set (fst (shared_publish (rg_role c) p q img))" "handed_out x = Some f"
  then show "f = frame_ref_of img q \<and> (rg_kind (c\<lparr>rg_kind := SharedRing\<rparr>) = SharedRing \<longrightarrow>
      im_role img = rg_role (c\<lparr>rg_kind := SharedRing\<rparr>)) \<and> image_profile img = p"
    using copy_image_handed_out[of x img]
    by (auto simp: shared_publish_def Let_def copy_image_def image_profile_def split: if_split_asm)
qed

section \<open>The consumer\<close>

definition ref_ok :: "ring_config \<Rightarrow> ring_profile \<Rightarrow> image_history \<Rightarrow> frame_ref \<Rightarrow> bool" where
  "ref_ok c p h f \<longleftrightarrow> (\<exists>v img. h v = Some img \<and> f = frame_ref_of img v \<and> image_profile img = p
     \<and> (rg_kind c = SharedRing \<longrightarrow> im_role img = rg_role c))"

definition dict_ok :: "ring_config \<Rightarrow> ring_profile \<Rightarrow> image_history \<Rightarrow> frame_dict \<Rightarrow> bool" where
  "dict_ok c p h d \<longleftrightarrow> (\<forall>k f. (k, f) \<in> set d \<longrightarrow> k = fx_sequence f \<and> ref_ok c p h f)"

definition cells_ok :: "ring_config \<Rightarrow> ring_profile \<Rightarrow> image_history \<Rightarrow> nat \<Rightarrow> nat list \<Rightarrow> bool" where
  "cells_ok c p h v cells \<longleftrightarrow> (\<exists>img. stored c p h v img \<and> cells = map (image_cell img) (read_plan p))"

definition result_ok :: "image_history \<Rightarrow> ring_reader \<Rightarrow> bool" where
  "result_ok h r \<longleftrightarrow> (\<forall>got. rd_result r = Some got \<longrightarrow>
     (\<exists>img. h (rd_sequence r) = Some img \<and> got = img\<lparr>im_ring_sequence := Some (int (rd_sequence r))\<rparr>))"

text \<open>The copy so far, when the slot still has the version the consumer saw.\<close>

definition copy_agrees :: "ring_profile \<Rightarrow> ring_slot \<Rightarrow> ring_reader \<Rightarrow> bool" where
  "copy_agrees p s r \<longleftrightarrow> rd_version r = expected_version r \<and> expected_version r \<le> rs_version s
     \<and> (rs_version s = expected_version r \<longrightarrow>
          rd_cells r @ map (memory_cell s) (rd_todo r) = map (memory_cell s) (read_plan p))"

definition reader_ok :: "ring_config \<Rightarrow> ring_profile \<Rightarrow> image_history \<Rightarrow> ring_slot \<Rightarrow> ring_reader \<Rightarrow> bool" where
  "reader_ok c p h s r \<longleftrightarrow>
     (\<forall>f. rd_ref r = Some f \<longrightarrow> fx_sequence f = int (rd_sequence r) \<and> ref_ok c p h f)
     \<and> (case rd_pc r of
          PcIdle \<Rightarrow> rd_result r = None
        | PcVersion \<Rightarrow> True
        | PcLookup \<Rightarrow> rg_kind c = SharedRing \<longrightarrow> rd_version r = expected_version r \<and> expected_version r \<le> rs_version s
        | PcSequence \<Rightarrow> rd_version r \<le> rs_version s \<and> (rg_kind c = LocalRing \<longrightarrow> rd_version r = expected_version r)
        | PcCopy \<Rightarrow> copy_agrees p s r
        | PcVersionAfter \<Rightarrow> copy_agrees p s r \<and> rd_todo r = []
        | PcSequenceAfter \<Rightarrow> rg_kind c = LocalRing \<or> rd_after r = rd_version r \<longrightarrow> cells_ok c p h (rd_sequence r) (rd_cells r)
        | PcDone \<Rightarrow> result_ok h r)"

lemma even_expected [simp]: "even (expected_version r)"
  by (simp add: expected_version_def)

definition extends :: "image_history \<Rightarrow> image_history \<Rightarrow> bool" where
  "extends h h' \<longleftrightarrow> (\<forall>v img. h v = Some img \<longrightarrow> h' v = Some img)"

lemma extends_refl [simp]: "extends h h"
  by (simp add: extends_def)

lemma stored_extends: "extends h h' \<Longrightarrow> stored c p h v img \<Longrightarrow> stored c p h' v img"
  by (auto simp: extends_def stored_def)

lemma ref_ok_extends: "extends h h' \<Longrightarrow> ref_ok c p h f \<Longrightarrow> ref_ok c p h' f"
  unfolding extends_def ref_ok_def by blast

lemma reader_ok_later:
  assumes "reader_ok c p h s r" "slot_later s t" "extends h h'"
  shows "reader_ok c p h' t r"
proof -
  have agrees: "copy_agrees p t r" if "copy_agrees p s r"
    using that assms(2) by (auto simp: copy_agrees_def slot_later_def)
  have cells: "cells_ok c p h' v xs" if "cells_ok c p h v xs" for v xs
    using that stored_extends[OF assms(3)] unfolding cells_ok_def by blast
  have result: "result_ok h' r" if "result_ok h r"
    using that assms(3) by (auto simp: result_ok_def extends_def)
  show ?thesis
    using assms(1,2) agrees cells result ref_ok_extends[OF assms(3)]
    by (cases "rd_pc r") (auto simp: reader_ok_def slot_later_def)
qed

lemma image_cells_plan:
  assumes "image_ok img" "image_profile img = p"
  shows "map (image_cell img) (read_plan p) =
    ar_cells (im_rgb img) @ ar_cells (im_depth img) @ (case im_aligned img of None \<Rightarrow> [] | Some a \<Rightarrow> ar_cells a)"
proof -
  have n: "map ((!) xs) [0..<length xs] = xs" for xs :: "nat list" by (rule map_nth)
  have len: "prod_list (pr_rgb p) = length (ar_cells (im_rgb img))" "prod_list (pr_depth p) = length (ar_cells (im_depth img))"
    using assms by (auto simp: image_ok_def array_ok_def image_profile_def)
  show ?thesis
  proof (cases "im_aligned img")
    case None
    then have "pr_aligned p = None" using assms(2) by (auto simp: image_profile_def)
    with None show ?thesis by (simp add: read_plan_def image_cell_def cell_of_def len comp_def n)
  next
    case (Some a)
    then have "pr_aligned p = Some (ar_shape a)" "prod_list (ar_shape a) = length (ar_cells a)"
      using assms by (auto simp: image_profile_def image_ok_def array_ok_def)
    with Some show ?thesis by (simp add: read_plan_def image_cell_def cell_of_def len comp_def n)
  qed
qed

lemma assemble_image:
  assumes st: "stored c p h v img" and f: "f = frame_ref_of img v" and role: "role = im_role img"
  shows "assemble p role f v (map (image_cell img) (read_plan p)) = img\<lparr>im_ring_sequence := Some (int v)\<rparr>"
proof -
  have ok: "image_ok img" "image_profile img = p" using st by (simp_all add: stored_def)
  have len: "prod_list (ar_shape (im_rgb img)) = length (ar_cells (im_rgb img))"
    "prod_list (ar_shape (im_depth img)) = length (ar_cells (im_depth img))" "pr_rgb p = ar_shape (im_rgb img)" "pr_depth p = ar_shape (im_depth img)" "pr_aligned p = map_option ar_shape (im_aligned img)"
    using ok by (auto simp: image_ok_def array_ok_def image_profile_def)
  show ?thesis
    unfolding image_cells_plan[OF ok] assemble_def f role using len
    by (cases img; cases "im_aligned img") (simp_all add: frame_ref_of_def Let_def)
qed

lemma result_assembled:
  assumes "cells_ok c p h (rd_sequence r) (rd_cells r)" "rd_ref r = Some f" "fx_sequence f = int (rd_sequence r)"
    and "ref_ok c p h f" "role = fx_role f \<or> rg_kind c = SharedRing \<and> role = rg_role c"
  shows "result_ok h (reader_return p role r)"
proof -
  obtain img where img: "stored c p h (rd_sequence r) img" "rd_cells r = map (image_cell img) (read_plan p)"
    using assms(1) by (auto simp: cells_ok_def)
  obtain v x where x: "h v = Some x" "f = frame_ref_of x v" using assms(4) by (auto simp: ref_ok_def)
  then have "v = rd_sequence r" using assms(3) by (simp add: frame_ref_of_def)
  with x img(1) have f: "f = frame_ref_of img (rd_sequence r)" by (auto simp: stored_def)
  have "role = im_role img" using assms(5) f img(1) by (auto simp: frame_ref_of_def stored_def)
  from assemble_image[OF img(1) f this] img assms(2) show ?thesis
    by (auto simp: result_ok_def reader_return_def stored_def)
qed

text \<open>An agreeing copy at the end, under the version it began with, is the stored image.\<close>

lemma copy_complete:
  assumes "slot_ok c p h s" "copy_agrees p s r" "rd_todo r = []" "rs_version s = rd_version r"
  shows "cells_ok c p h (rd_sequence r) (rd_cells r)"
proof -
  have v: "rs_version s = int (rd_sequence r) * 2 + 2" using assms(2,4) by (simp add: copy_agrees_def expected_version_def)
  then obtain img where img: "stored c p h (rd_sequence r) img" "slot_holds p s img"
    using assms(1) unfolding slot_ok_def by blast
  have "rd_cells r = map (memory_cell s) (read_plan p)" using assms v by (simp add: copy_agrees_def expected_version_def)
  also have "\<dots> = map (image_cell img) (read_plan p)" using img(2) by (simp add: slot_holds_def)
  finally show ?thesis using img(1) by (auto simp: cells_ok_def)
qed

lemma map_of_dict_ok:
  assumes "dict_ok c p h d" "map_of d k = Some f"
  shows "fx_sequence f = k" "ref_ok c p h f"
  using assms map_of_SomeD[OF assms(2)] by (auto simp: dict_ok_def)

lemma begin_copy_ok:
  assumes "reader_ok c p h s r" "rd_version r = expected_version r" "expected_version r \<le> rs_version s"
  shows "reader_ok c p h s (begin_copy p r)"
  using assms by (simp add: reader_ok_def begin_copy_def copy_agrees_def expected_version_def)

lemma copy_step_ok:
  assumes "reader_ok c p h s r" "rd_pc r = PcCopy"
  shows "reader_ok c p h s (copy_step s r)"
  using assms by (auto simp: reader_ok_def copy_step_def copy_agrees_def expected_version_def slot_cell_memory
      split: list.split)

lemma reader_expired_ok: "reader_ok c p h s r \<Longrightarrow> reader_ok c p h s (reader_expired r)"
  by (simp add: reader_ok_def reader_expired_def result_ok_def)

lemma reader_inconsistent_ok: "reader_ok c p h s r \<Longrightarrow> reader_ok c p h s (reader_inconsistent r)"
  by (simp add: reader_ok_def reader_inconsistent_def result_ok_def)

lemma reader_retry_ok: "reader_ok c p h s r \<Longrightarrow> reader_ok c p h s (reader_retry r)"
proof (cases "rd_tries r \<le> 1")
  case True
  then show "reader_ok c p h s r \<Longrightarrow> ?thesis" by (simp add: reader_retry_def reader_inconsistent_ok)
next
  case False
  then show "reader_ok c p h s r \<Longrightarrow> ?thesis" by (simp add: reader_retry_def reader_ok_def)
qed

lemma reader_return_ok:
  assumes "reader_ok c p h s r" "cells_ok c p h (rd_sequence r) (rd_cells r)"
    and "\<And>f. rd_ref r = Some f \<Longrightarrow> role = fx_role f \<or> rg_kind c = SharedRing \<and> role = rg_role c"
  shows "reader_ok c p h s (reader_return p role r)"
proof (cases "rd_ref r")
  case None
  with assms(1) show ?thesis by (simp add: reader_ok_def reader_return_def result_ok_def)
next
  case (Some f)
  with assms(1) have "fx_sequence f = int (rd_sequence r)" "ref_ok c p h f" by (simp_all add: reader_ok_def)
  from result_assembled[OF assms(2) Some this assms(3)[OF Some]] assms(1) show ?thesis
    by (simp add: reader_ok_def reader_return_def)
qed

lemma local_read_ok:
  assumes ok: "reader_ok c p h s r" and c: "rg_kind c = LocalRing" and s: "slot_ok c p h s" and d: "dict_ok c p h d"
  shows "reader_ok c p h s (local_read_step p s d r)"
proof (cases "rd_pc r")
  case PcLookup
  with ok c map_of_dict_ok[OF d] show ?thesis
    by (auto simp: local_read_step_def reader_ok_def reader_expired_def result_ok_def split: option.split)
next
  case PcVersion
  with ok reader_retry_ok[OF ok] show ?thesis
    by (auto simp: local_read_step_def reader_ok_def expected_version_def Let_def)
next
  case PcSequence
  with ok c reader_retry_ok[OF ok] begin_copy_ok[OF ok] show ?thesis
    by (auto simp: local_read_step_def reader_ok_def)
next
  case PcCopy
  with copy_step_ok[OF ok] show ?thesis by (simp add: local_read_step_def)
next
  case PcVersionAfter
  have "copy_agrees p s r" "rd_todo r = []" using ok PcVersionAfter by (simp_all add: reader_ok_def)
  with ok PcVersionAfter reader_retry_ok[OF ok] copy_complete[OF s, of r] show ?thesis
    by (auto simp: local_read_step_def reader_ok_def)
next
  case PcSequenceAfter
  with ok c have "cells_ok c p h (rd_sequence r) (rd_cells r)" by (simp add: reader_ok_def)
  with ok PcSequenceAfter reader_retry_ok[OF ok] reader_return_ok[OF ok] show ?thesis
    by (auto simp: local_read_step_def split: option.split)
qed (use ok in \<open>simp_all add: local_read_step_def\<close>)

lemma shared_read_ok:
  assumes ok: "reader_ok c p h s r" and c: "rg_kind c = SharedRing" and s: "slot_ok c p h s" and d: "dict_ok c p h d"
  shows "reader_ok c p h s (shared_read_step p (rg_role c) s d r)"
proof (cases "rd_pc r")
  case PcVersion
  with ok c show ?thesis by (auto simp: shared_read_step_def reader_ok_def)
next
  case PcSequence
  with ok c reader_expired_ok[OF ok] show ?thesis
    by (auto simp: shared_read_step_def reader_ok_def expected_version_def)
next
  case PcLookup
  show ?thesis
  proof (cases "map_of d (int (rd_sequence r))")
    case None
    with PcLookup reader_expired_ok[OF ok] show ?thesis by (simp add: shared_read_step_def)
  next
    case (Some f)
    have "reader_ok c p h s (r\<lparr>rd_ref := Some f\<rparr>)"
      using ok map_of_dict_ok[OF d Some] PcLookup by (auto simp: reader_ok_def expected_version_def)
    from begin_copy_ok[OF this] ok c PcLookup Some show ?thesis
      by (simp add: shared_read_step_def reader_ok_def expected_version_def)
  qed
next
  case PcCopy
  with copy_step_ok[OF ok] show ?thesis by (simp add: shared_read_step_def)
next
  case PcVersionAfter
  have "copy_agrees p s r" "rd_todo r = []" using ok PcVersionAfter by (simp_all add: reader_ok_def)
  with ok PcVersionAfter copy_complete[OF s, of r] c show ?thesis
    by (auto simp: shared_read_step_def reader_ok_def)
next
  case PcSequenceAfter
  with ok reader_inconsistent_ok[OF ok] reader_return_ok[OF ok, of "rg_role c"] c show ?thesis
    by (auto simp: shared_read_step_def reader_ok_def)
qed (use ok in \<open>simp_all add: shared_read_step_def\<close>)

section \<open>The ring\<close>

text \<open>The slot the producer is working on.\<close>

definition busy_slot :: "ring_config \<Rightarrow> ring_world \<Rightarrow> nat" where
  "busy_slot c w = (wd_next w - 1) mod rg_capacity c"

definition producer_ok :: "ring_config \<Rightarrow> ring_profile \<Rightarrow> ring_world \<Rightarrow> bool" where
  "producer_ok c p w \<longleftrightarrow> length (wd_slots w) = rg_capacity c
     \<and> (\<forall>s \<in> set (wd_slots w). slot_ok c p (wd_history w) s \<and> rs_version s \<le> 2 * int (wd_next w))
     \<and> (wd_program w \<noteq> [] \<longrightarrow> 0 < wd_next w
          \<and> writing c p (wd_history w) (wd_next w - 1) (wd_slots w ! busy_slot c w) (wd_program w))
     \<and> (\<forall>x \<in> set (wd_program w). \<forall>f. handed_out x = Some f \<longrightarrow> ref_ok c p (wd_history w) f)
     \<and> dict_ok c p (wd_history w) (wd_meta w) \<and> (\<forall>f \<in> set (wd_returned w). ref_ok c p (wd_history w) f)"

definition ring_inv :: "ring_config \<Rightarrow> ring_world \<Rightarrow> bool" where
  "ring_inv c w \<longleftrightarrow> 1 < rg_capacity c \<and> (\<forall>v. wd_history w v \<noteq> None \<longrightarrow> v < wd_next w)
     \<and> (case wd_profile w of
          None \<Rightarrow> rg_kind c = LocalRing \<and> wd_next w = 0 \<and> wd_program w = [] \<and> wd_meta w = [] \<and> wd_returned w = []
            \<and> rd_ref (wd_reader w) = None \<and> rd_result (wd_reader w) = None \<and> rd_pc (wd_reader w) \<in> {PcIdle, PcLookup, PcDone}
        | Some p \<Rightarrow> producer_ok c p w
            \<and> reader_ok c p (wd_history w) (wd_slots w ! (rd_sequence (wd_reader w) mod rg_capacity c)) (wd_reader w))"

lemma busy_in_range: "producer_ok c p w \<Longrightarrow> 1 < rg_capacity c \<Longrightarrow> n mod rg_capacity c < length (wd_slots w)"
  by (simp add: producer_ok_def)

text \<open>Initially no slot holds a frame.\<close>

lemma blank_slot_ok: "slot_ok c p h (blank_slot junk p)"
  using blank_slot_fits[of p junk] by (simp add: slot_ok_def blank_slot_def)

lemma ring_inv_new:
  assumes "new_ring c = Inr w"
  shows "ring_inv c w"
proof -
  have cap: "1 < rg_capacity c" using assms by (simp add: new_ring_def split: if_split_asm)
  have "rs_version (blank_slot junk p) = 0" for junk p by (simp add: blank_slot_def)
  then have slots: "\<forall>s \<in> set (replicate n (blank_slot junk p)). slot_ok c p h s \<and> rs_version s \<le> 0" for n junk p h
    using blank_slot_ok by simp
  have reader: "reader_ok c p h s (new_reader_at 0 PcIdle)" for p h s by (simp add: reader_ok_def new_reader_at_def)
  show ?thesis
  proof (cases "rg_kind c")
    case LocalRing
    with assms cap show ?thesis by (auto simp: new_ring_def ring_inv_def new_reader_at_def)
  next
    case SharedRing
    with assms cap have w: "wd_profile w = Some (rg_spec c)" "wd_next w = 0" "wd_history w = (\<lambda>_. None)" "wd_meta w = []"
      "wd_slots w = replicate (rg_capacity c) (blank_slot (rg_junk c) (rg_spec c))" "wd_program w = []" "wd_returned w = []"
      "wd_reader w = new_reader_at 0 PcIdle" by (auto simp: new_ring_def)
    have "producer_ok c (rg_spec c) w" using slots by (simp add: producer_ok_def w dict_ok_def)
    with cap reader show ?thesis by (simp add: ring_inv_def w)
  qed
qed

text \<open>A write of the producer.\<close>

lemma dict_set_sub: "set (dict_set k v d) \<subseteq> insert (k, v) (set d)"
  by (induction d) auto

lemma dict_ok_set: "dict_ok c p h d \<Longrightarrow> ref_ok c p h f \<Longrightarrow> dict_ok c p h (dict_set (fx_sequence f) f d)"
  using dict_set_sub[of "fx_sequence f" f d] unfolding dict_ok_def by blast

lemma dict_ok_pop: "dict_ok c p h d \<Longrightarrow> dict_ok c p h (dict_pop k d)"
  by (auto simp: dict_ok_def dict_pop_def)

lemma dict_ok_apply:
  "dict_ok c p h d \<Longrightarrow> (\<forall>f. handed_out x = Some f \<longrightarrow> ref_ok c p h f) \<Longrightarrow> dict_ok c p h (apply_meta x d)"
  by (cases x) (simp_all add: dict_ok_set dict_ok_pop)

lemma ring_inv_write:
  assumes inv: "ring_inv c w"
  shows "ring_inv c (ring_step c RingWrite w)"
proof (cases "wd_program w")
  case (Cons x xs)
  with inv obtain p where p: "wd_profile w = Some p" "producer_ok c p w"
    and r: "reader_ok c p (wd_history w) (wd_slots w ! (rd_sequence (wd_reader w) mod rg_capacity c)) (wd_reader w)"
    and cap: "1 < rg_capacity c"
    by (auto simp: ring_inv_def split: option.split_asm)
  let ?k = "busy_slot c w" and ?h = "wd_history w" and ?w' = "ring_step c RingWrite w"
  let ?s = "wd_slots w ! busy_slot c w"
  have k: "?k < length (wd_slots w)" using busy_in_range[OF p(2) cap] by (simp add: busy_slot_def)
  have s: "slot_ok c p ?h ?s" "rs_version ?s \<le> 2 * int (wd_next w)" using p(2) k by (auto simp: producer_ok_def)
  have n: "0 < wd_next w" "writing c p ?h (wd_next w - 1) ?s (x # xs)" using p(2) Cons by (auto simp: producer_ok_def)
  note st = writing_step[OF n(2) s(1)]
  have ver: "rs_version (apply_slot x ?s) \<le> 2 * int (wd_next w)"
    using st s(2) n(1) by (auto simp: max_def split: if_split_asm)
  have w': "wd_slots ?w' = (wd_slots w)[?k := apply_slot x ?s]" "wd_program ?w' = xs" "wd_next ?w' = wd_next w"
    "wd_history ?w' = ?h" "wd_profile ?w' = Some p" "wd_reader ?w' = wd_reader w" "wd_meta ?w' = apply_meta x (wd_meta w)"
    "wd_returned ?w' = (case x of ReturnRef f \<Rightarrow> wd_returned w @ [f] | _ \<Rightarrow> wd_returned w)"
    using Cons p(1) by (simp_all add: do_write_def busy_slot_def Let_def)
  have refs: "\<forall>f. handed_out x = Some f \<longrightarrow> ref_ok c p ?h f" using p(2) Cons by (auto simp: producer_ok_def)
  have ret: "\<forall>f \<in> set (wd_returned ?w'). ref_ok c p ?h f"
    using p(2) refs unfolding w'(8) by (cases x) (auto simp: producer_ok_def)
  have "busy_slot c ?w' = ?k" by (simp add: busy_slot_def w'(3) del: ring_step.simps)
  moreover have "\<forall>t \<in> set (wd_slots ?w'). slot_ok c p ?h t \<and> rs_version t \<le> 2 * int (wd_next w)"
    using p(2) st ver unfolding w'(1) by (auto simp: producer_ok_def dest: set_update_subset_insert[THEN subsetD])
  ultimately have "producer_ok c p ?w'"
    using p(2) st k n(1) ret refs dict_ok_apply[OF _ refs] Cons
    by (simp add: producer_ok_def w' del: ring_step.simps)
  moreover have "slot_later (wd_slots w ! m) (wd_slots ?w' ! m)" if "m < length (wd_slots w)" for m
    using st that k by (cases "m = ?k") (simp_all add: w'(1) del: ring_step.simps)
  with reader_ok_later[OF r _ extends_refl] busy_in_range[OF p(2) cap]
  have "reader_ok c p ?h (wd_slots ?w' ! (rd_sequence (wd_reader w) mod rg_capacity c)) (wd_reader w)" by blast
  moreover have "\<forall>v. ?h v \<noteq> None \<longrightarrow> v < wd_next w" using inv by (simp add: ring_inv_def)
  ultimately show ?thesis using cap by (simp add: ring_inv_def w' del: ring_step.simps)
qed (use inv in simp)

text \<open>The start of a publication.\<close>

lemma slot_ok_extends: "extends h h' \<Longrightarrow> slot_ok c p h s \<Longrightarrow> slot_ok c p h' s"
  using stored_extends unfolding slot_ok_def by blast

lemma dict_ok_extends: "extends h h' \<Longrightarrow> dict_ok c p h d \<Longrightarrow> dict_ok c p h' d"
  using ref_ok_extends unfolding dict_ok_def by blast

lemma allocate_inv:
  assumes inv: "ring_inv c w"
  obtains p where "wd_profile (allocate c img w) = Some p" "producer_ok c p (allocate c img w)"
    "reader_ok c p (wd_history w) (wd_slots (allocate c img w) ! (rd_sequence (wd_reader w) mod rg_capacity c)) (wd_reader w)"
proof (cases "wd_profile w")
  case None
  have "rs_version (blank_slot junk q) = 0" for junk q by (simp add: blank_slot_def)
  then have "producer_ok c (image_profile img) (allocate c img w)"
    using inv None blank_slot_ok by (simp add: ring_inv_def allocate_def producer_ok_def dict_ok_def)
  moreover have "reader_ok c q h s (wd_reader w)" for q h s
    using inv None by (auto simp: ring_inv_def reader_ok_def result_ok_def)
  moreover have "wd_profile (allocate c img w) = Some (image_profile img)" using None by (simp add: allocate_def)
  ultimately show ?thesis using that by blast
next
  case (Some p)
  with inv that[of p] show ?thesis by (simp add: ring_inv_def allocate_def)
qed

lemma allocate_fields [simp]:
  "wd_next (allocate c img w) = wd_next w" "wd_history (allocate c img w) = wd_history w"
  "wd_meta (allocate c img w) = wd_meta w" "wd_returned (allocate c img w) = wd_returned w"
  "wd_reader (allocate c img w) = wd_reader w" "wd_program (allocate c img w) = wd_program w"
  by (simp_all add: allocate_def)

text \<open>What either ring writes for an image.\<close>

definition publication_of :: "ring_config \<Rightarrow> ring_profile \<Rightarrow> ring_slot \<Rightarrow> nat \<Rightarrow> camera_image \<Rightarrow> ring_write list \<times> ring_error option" where
  "publication_of c p slot q img =
     (if rg_kind c = LocalRing then local_publish p slot q img else shared_publish (rg_role c) p q img)"

lemma publication_starts:
  assumes "slot_fits p s" "image_ok img" "h q = Some img" "rs_version s < int q * 2 + 1"
  shows "writing c p h q s (fst (publication_of c p s q img))"
proof (cases "rg_kind c")
  case LocalRing
  then have "c\<lparr>rg_kind := LocalRing\<rparr> = c" by (cases c) simp
  with local_ring.starts_writing[of p s img h q c] assms LocalRing show ?thesis by (simp add: publication_of_def)
next
  case SharedRing
  then have "c\<lparr>rg_kind := SharedRing\<rparr> = c" by (cases c) simp
  with shared_ring.starts_writing[of p s img h q c] assms SharedRing show ?thesis by (simp add: publication_of_def)
qed

lemma publication_describes:
  assumes "x \<in> set (fst (publication_of c p s q img))" "handed_out x = Some f"
  shows "f = frame_ref_of img q \<and> (rg_kind c = SharedRing \<longrightarrow> im_role img = rg_role c) \<and> image_profile img = p"
proof (cases "rg_kind c")
  case LocalRing
  with local_ring.describes[of x p s q img f c] assms show ?thesis by (simp add: publication_of_def)
next
  case SharedRing
  with shared_ring.describes[of x c p q img f] assms show ?thesis by (simp add: publication_of_def)
qed

lemma start_publish_fields:
  fixes w img c
  defines "w1 \<equiv> allocate c img w"
  assumes "wd_profile w1 = Some p"
  shows "wd_slots (start_publish c img w) = wd_slots w1"
    "wd_profile (start_publish c img w) = Some p" "wd_next (start_publish c img w) = wd_next w + 1"
    "wd_history (start_publish c img w) = (wd_history w)(wd_next w := Some img)"
    "wd_meta (start_publish c img w) = wd_meta w" "wd_returned (start_publish c img w) = wd_returned w"
    "wd_reader (start_publish c img w) = wd_reader w"
    "wd_program (start_publish c img w) = fst (publication_of c p (wd_slots w1 ! (wd_next w mod rg_capacity c)) (wd_next w) img)"
  using assms(2) by (simp_all add: start_publish_def publication_of_def w1_def[symmetric] Let_def prod.case_eq_if)
    (simp_all add: w1_def)

lemma ring_inv_publish:
  assumes inv: "ring_inv c w" and idle: "wd_program w = []" and img: "image_ok img"
  shows "ring_inv c (start_publish c img w)"
proof -
  let ?w1 = "allocate c img w" and ?h = "(wd_history w)(wd_next w := Some img)" and ?n = "wd_next w"
  obtain p where p: "wd_profile ?w1 = Some p" "producer_ok c p ?w1"
    and r: "reader_ok c p (wd_history w) (wd_slots ?w1 ! (rd_sequence (wd_reader w) mod rg_capacity c)) (wd_reader w)"
    using allocate_inv[OF inv] .
  note f = start_publish_fields[OF p(1)]
  have cap: "1 < rg_capacity c" and hist: "\<forall>v. wd_history w v \<noteq> None \<longrightarrow> v < ?n" using inv by (simp_all add: ring_inv_def)
  have ext: "extends (wd_history w) ?h" using hist by (auto simp: extends_def)
  let ?s = "wd_slots ?w1 ! (?n mod rg_capacity c)"
  have k: "?n mod rg_capacity c < length (wd_slots ?w1)" using busy_in_range[OF p(2) cap] .
  have slots: "\<forall>s \<in> set (wd_slots ?w1). slot_ok c p (wd_history w) s \<and> rs_version s \<le> 2 * int ?n"
    using p(2) by (simp add: producer_ok_def)
  with k have s: "slot_fits p ?s" "rs_version ?s < int ?n * 2 + 1" by (auto simp: slot_ok_def dest!: nth_mem)
  have "writing c p ?h ?n ?s (fst (publication_of c p ?s ?n img))"
    by (rule publication_starts[OF s(1) img _ s(2)]) simp
  moreover have "\<forall>x \<in> set (fst (publication_of c p ?s ?n img)). \<forall>g. handed_out x = Some g \<longrightarrow> ref_ok c p ?h g"
  proof (intro ballI allI impI)
    fix x g assume "x \<in> set (fst (publication_of c p ?s ?n img))" "handed_out x = Some g"
    from publication_describes[OF this] show "ref_ok c p ?h g"
      unfolding ref_ok_def by (intro exI[of _ ?n] exI[of _ img]) simp
  qed
  moreover have "\<forall>s \<in> set (wd_slots ?w1). slot_ok c p ?h s \<and> rs_version s \<le> 2 * int (?n + 1)"
    using slots slot_ok_extends[OF ext] by force
  moreover have "dict_ok c p ?h (wd_meta w)" "\<forall>g \<in> set (wd_returned w). ref_ok c p ?h g"
    using p(2) dict_ok_extends[OF ext] ref_ok_extends[OF ext] by (auto simp: producer_ok_def)
  ultimately have "producer_ok c p (start_publish c img w)"
    using p(2) by (simp add: producer_ok_def f busy_slot_def)
  moreover have "reader_ok c p ?h (wd_slots ?w1 ! (rd_sequence (wd_reader w) mod rg_capacity c)) (wd_reader w)"
    by (rule reader_ok_later[OF r slot_later_refl ext])
  moreover have "\<forall>v. ?h v \<noteq> None \<longrightarrow> v < ?n + 1" using hist by (auto simp: less_Suc_eq)
  ultimately show ?thesis using cap by (simp add: ring_inv_def f)
qed

text \<open>Descriptors and reads.\<close>

lemma dict_ok_sub: "dict_ok c p h d \<Longrightarrow> set e \<subseteq> set d \<Longrightarrow> dict_ok c p h e"
  unfolding dict_ok_def by blast

lemma shrink_dict_sub: "set (shrink_dict n d) \<subseteq> set d"
proof (induction n d rule: shrink_dict.induct)
  case (1 n d)
  show ?case
  proof (cases "n < length d")
    case True
    from 1[OF True] have "set (shrink_dict n (dict_pop (Min (set (map fst d))) d)) \<subseteq> set d"
      by (auto simp: dict_pop_def)
    with True show ?thesis by (simp add: shrink_dict.simps[of n d])
  next
    case False
    then show ?thesis by (simp add: shrink_dict.simps[of n d])
  qed
qed

lemma register_descriptor_ok:
  assumes "dict_ok c p h d" "ref_ok c p h f" "register_descriptor role cap f d = Inr e"
  shows "dict_ok c p h e"
proof -
  have "dict_ok c p h (dict_set (fx_sequence f) f d)" using dict_ok_set[OF assms(1,2)] .
  moreover have "set e \<subseteq> set (dict_set (fx_sequence f) f d)"
  proof -
    have "set (dict_pop k m) \<subseteq> set m" for k and m :: frame_dict by (auto simp: dict_pop_def)
    then show ?thesis
      using assms(3) shrink_dict_sub[of "cap * 2"]
      by (simp add: register_descriptor_def Let_def split: if_split_asm) blast+
  qed
  ultimately show ?thesis by (rule dict_ok_sub)
qed

lemma ring_inv_register:
  assumes "ring_inv c w"
  shows "ring_inv c (ring_step c (RingRegister i) w)"
proof (cases "rg_kind c = LocalRing \<or> length (wd_returned w) \<le> i")
  case False
  show ?thesis
  proof (cases "register_descriptor (rg_role c) (rg_capacity c) (wd_returned w ! i) (wd_meta w)")
    case (Inr d)
    from False assms obtain p where p: "wd_profile w = Some p" "producer_ok c p w"
      by (auto simp: ring_inv_def split: option.split_asm)
    have "dict_ok c p (wd_history w) d"
      using register_descriptor_ok[OF _ _ Inr, of c p "wd_history w"] p(2) False by (simp add: producer_ok_def)
    with p(2) have "producer_ok c p (w\<lparr>wd_meta := d\<rparr>)" by (simp add: producer_ok_def busy_slot_def)
    with assms p(1) False Inr show ?thesis by (simp add: ring_inv_def)
  qed (use assms False in simp)
qed (use assms in simp)

lemma producer_ok_reader [simp]: "producer_ok c p (w\<lparr>wd_reader := r\<rparr>) = producer_ok c p w"
  by (simp add: producer_ok_def busy_slot_def)

lemma ring_inv_read:
  assumes "ring_inv c w"
  shows "ring_inv c (ring_step c (RingRead v) w)"
proof (cases "rd_pc (wd_reader w) = PcIdle \<or> rd_pc (wd_reader w) = PcDone")
  case True
  have fresh: "reader_ok c p h s ((new_reader_at v (if rg_kind c = LocalRing then PcLookup else PcVersion))
      \<lparr>rd_expired := m, rd_inconsistent := n\<rparr>)" for p h s m n
    by (cases "rg_kind c") (simp_all add: reader_ok_def new_reader_at_def)
  show ?thesis
  proof (cases "wd_profile w")
    case None
    with assms True show ?thesis by (auto simp: ring_inv_def new_reader_at_def)
  next
    case (Some p)
    with assms True fresh show ?thesis by (simp add: ring_inv_def)
  qed
qed (use assms in auto)

lemma reader_moves_sequence [simp]:
  "rd_sequence (reader_expired r) = rd_sequence r" "rd_sequence (reader_inconsistent r) = rd_sequence r"
  "rd_sequence (reader_retry r) = rd_sequence r" "rd_sequence (begin_copy p r) = rd_sequence r"
  "rd_sequence (copy_step s r) = rd_sequence r" "rd_sequence (reader_return p role r) = rd_sequence r"
  by (simp_all add: reader_expired_def reader_inconsistent_def reader_retry_def begin_copy_def copy_step_def
      reader_return_def split: list.split)

lemma local_read_sequence [simp]: "rd_sequence (local_read_step p s d r) = rd_sequence r"
  by (cases "rd_pc r") (simp_all add: local_read_step_def Let_def split: option.split)

lemma shared_read_sequence [simp]: "rd_sequence (shared_read_step p role s d r) = rd_sequence r"
  by (cases "rd_pc r") (simp_all add: shared_read_step_def split: option.split)

lemma ring_inv_read_step:
  assumes "ring_inv c w"
  shows "ring_inv c (ring_step c RingReadStep w)"
proof (cases "wd_profile w")
  case None
  with assms show ?thesis by (auto simp: ring_inv_def read_step_def reader_expired_def Let_def)
next
  case (Some p)
  let ?s = "wd_slots w ! (rd_sequence (wd_reader w) mod rg_capacity c)"
  have inv: "producer_ok c p w" "1 < rg_capacity c" "reader_ok c p (wd_history w) ?s (wd_reader w)"
    using assms Some by (simp_all add: ring_inv_def)
  then have s: "slot_ok c p (wd_history w) ?s" and d: "dict_ok c p (wd_history w) (wd_meta w)"
    using busy_in_range[OF inv(1,2)] by (auto simp: producer_ok_def)
  have "reader_ok c p (wd_history w) ?s (read_step c w) \<and> rd_sequence (read_step c w) = rd_sequence (wd_reader w)"
    using local_read_ok[OF inv(3) _ s d] shared_read_ok[OF inv(3) _ s d] Some
    by (cases "rg_kind c") (simp_all add: read_step_def Let_def)
  with assms Some inv show ?thesis by (simp add: ring_inv_def)
qed

lemma ring_inv_step: "ring_inv c w \<Longrightarrow> ring_inv c (ring_step c e w)"
proof (cases e)
  case (RingPublish img)
  assume "ring_inv c w"
  with RingPublish ring_inv_publish[of c w img] show ?thesis by simp
next
  case (RingRegister i)
  assume "ring_inv c w"
  with RingRegister ring_inv_register[of c w i] show ?thesis by (simp del: ring_step.simps)
next
  case (RingRead v)
  assume "ring_inv c w"
  with RingRead ring_inv_read[of c w v] show ?thesis by (simp del: ring_step.simps)
qed (simp_all del: ring_step.simps add: ring_inv_write ring_inv_read_step)

lemma ring_inv_run: "ring_inv c w \<Longrightarrow> ring_inv c (ring_run c es w)"
  unfolding ring_run_def by (induction es arbitrary: w) (simp_all del: ring_step.simps add: ring_inv_step)

section \<open>Properties\<close>


section \<open>A concrete interleaving\<close>

text \<open>A read of the first frame while the second is being written to the other slot.\<close>

definition demo_pixel :: "nat \<Rightarrow> camera_image" where
  "demo_pixel x = \<lparr>im_role = Wrist, im_host_ns = 7, im_rgb = \<lparr>ar_shape = [1, 1, 3], ar_cells = [x, x, x]\<rparr>,
     im_depth = \<lparr>ar_shape = [1, 1], ar_cells = [x]\<rparr>, im_aligned = None, im_scale_m = None, im_rgb_ms = Fin 0,
     im_depth_ms = Fin 0, im_rgb_number = 0, im_depth_number = 0, im_rgb_domain = [], im_depth_domain = [],
     im_ring_sequence = None\<rparr>"

definition demo_ring_config :: ring_config where
  "demo_ring_config = \<lparr>rg_kind = LocalRing, rg_capacity = 2, rg_role = Wrist,
     rg_spec = \<lparr>pr_rgb = [], pr_depth = [], pr_aligned = None\<rparr>, rg_junk = 0\<rparr>"

definition demo_ring :: ring_world where
  "demo_ring = (case new_ring demo_ring_config of Inr w \<Rightarrow> w | Inl e \<Rightarrow> undefined)"

lemma demo_ring_new: "new_ring demo_ring_config = Inr demo_ring"
  by (simp add: demo_ring_def new_ring_def demo_ring_config_def)

definition demo_ring_events :: "ring_event list" where
  "demo_ring_events = [RingPublish (demo_pixel 5), RingWrite, RingWrite, RingWrite, RingWrite, RingWrite, RingWrite,
     RingWrite, RingWrite, RingWrite, RingRead 0, RingReadStep, RingReadStep, RingReadStep, RingReadStep, RingReadStep,
     RingPublish (demo_pixel 6), RingWrite, RingWrite, RingReadStep, RingReadStep, RingReadStep, RingReadStep, RingReadStep]"

lemma demo_pixel_ok: "image_ok (demo_pixel x)"
  by (simp add: image_ok_def demo_pixel_def array_ok_def)

definition demo_profile :: ring_profile where
  "demo_profile = \<lparr>pr_rgb = [1, 1, 3], pr_depth = [1, 1], pr_aligned = None\<rparr>"

lemma demo_pixel_profile: "image_profile (demo_pixel x) = demo_profile"
  by (simp add: image_profile_def demo_pixel_def demo_profile_def)

lemma demo_upt: "[0..<3] = [0, 1, 2 :: nat]" "[0..<1] = [0 :: nat]"
  by (simp_all add: upt_rec)

lemma demo_publication: "local_publish demo_profile s v (demo_pixel x) =
   ((if 0 \<le> rs_sequence s then [MetaPop (rs_sequence s)] else []) @
    [SetVersion (int v * 2 + 1), SetCell RgbPlane 0 x, SetCell RgbPlane 1 x, SetCell RgbPlane 2 x, SetCell DepthPlane 0 x,
     SetSequence (int v), SetVersion (int v * 2 + 2), MetaSet (frame_ref_of (demo_pixel x) v),
     ReturnRef (frame_ref_of (demo_pixel x) v)], None)"
  by (simp add: local_publish_def demo_pixel_profile Let_def copy_aligned_def copy_plane_def)
    (simp add: demo_pixel_def demo_upt numeral_3_eq_3 numeral_2_eq_2)

lemma demo_fresh: "blank_slot 0 demo_profile =
   \<lparr>rs_version = 0, rs_sequence = - 1, rs_rgb = [0, 0, 0], rs_depth = [0], rs_aligned = None\<rparr>"
  by (simp add: blank_slot_def demo_profile_def numeral_3_eq_3)

lemma demo_plan: "read_plan demo_profile = [(RgbPlane, 0), (RgbPlane, 1), (RgbPlane, 2), (DepthPlane, 0)]"
  by (simp add: read_plan_def demo_profile_def demo_upt)

lemma demo_sequence: "fx_sequence (frame_ref_of img v) = int v"
  by (simp add: frame_ref_of_def)

lemmas demo_ring_simps = demo_pixel_ok demo_pixel_profile demo_publication demo_fresh demo_plan demo_sequence

lemma demo_ring_run: "rd_pc (wd_reader (ring_run demo_ring_config demo_ring_events demo_ring)) = PcDone
   \<and> rd_sequence (wd_reader (ring_run demo_ring_config demo_ring_events demo_ring)) = 0
   \<and> rd_result (wd_reader (ring_run demo_ring_config demo_ring_events demo_ring)) \<noteq> None
   \<and> wd_history (ring_run demo_ring_config demo_ring_events demo_ring) 0 = Some (demo_pixel 5)
   \<and> wd_program (ring_run demo_ring_config demo_ring_events demo_ring) \<noteq> []"
  by (simp add: ring_run_def demo_ring_events_def demo_ring_def new_ring_def demo_ring_config_def start_publish_def
     allocate_def demo_ring_simps Let_def do_write_def numeral_2_eq_2 new_reader_at_def read_step_def local_read_step_def
     expected_version_def begin_copy_def copy_step_def slot_cell_def reader_return_def)


end
