(* ===== verification/Spec2Isabelle.thy ===== *)
theory Spec2Isabelle
  imports Prelude PyFloat PyText Clutch ArmClutch HandClutch CtrlProtocol CtrlProvider TransportClutch
    HtsProtocol HtsCanonical TransportGate ByteCodec HandSchema SerialBackend
    Binary64 Contracts Wire Lifecycle TeleopClutch
    PoseValidator JakaAdapter Supervision Timeline Engagement TemporalExecutor FloatOrder HandContact HandControl HandCommand HandSession HandDemo HandWorker HandWorkerRun HandWorkerLive HandWorkerDemo EpisodeData AsyncWriter Collector CaptureSafety CaptureEnding CaptureStaging CaptureDemo Synchronizer HtsOperator HtsOperatorSafety Umip UmipSerial UmipRoundtrip UmipRecording UmipProvider UmipReplay QuestProvider HtsReplaySafety CameraRingSafety
begin

text \<open>
  A verification development for the input, teleoperation, hand and recording core of embodied-hand-lab.

  \<^bold>\<open>The program.\<close> A Quest headset streams hand poses and controller triggers over UDP. The package
  \<open>src/motion_input\<close> parses them strictly, decides whether they are fresh, and turns the triggers into hold-to-run
  clutches. \<open>src/teleoperation\<close> validates poses, supervises the arm and sends accepted targets as datagrams to a
  native servo worker; \<open>src/teleop_rearchitecture\<close> coordinates engagement. \<open>src/rh56_driver\<close> owns the serial
  line of the robot hand: a control object with a contact stop, and a worker thread with a mailbox of one target.
  \<open>src/episode_dataset\<close> records episodes: a capture state machine, a bounded queue, a staging writer and an offline
  synchronizer. \<open>src/embodiment_core\<close> blends the action chunks of a learned policy. What makes the program correct
  is that motion needs explicit, fresh, ordered human input, that faults latch, that a frame or packet that is not
  exactly well formed never becomes a command, and that a recording never holds data from the future.

  \<^bold>\<open>How the code is modelled.\<close> A dataclass or the fields of an object is a record, an enum a datatype, a method a
  function from the state and the arguments to the successor state and the result. A function that may raise returns a sum:
  \<open>Inl\<close> the exception, \<open>Inr\<close> the value; where the code has already changed the state when it raises, the reached
  state is returned with the exception. Clock readings, the answers of sockets, serial lines and files, and the calls of
  other threads are arguments or events, so the theorems hold for all of them. Python's integers are \<open>int\<close>. Floats
  are binary64 (theory \<open>PyFloat\<close>): exact rationals, infinities and NaN, each operation rounding once to nearest even;
  signed zeros and NaN payloads are not distinguished. Bytes are \<open>8 word\<close>.

  \<^bold>\<open>Parameters.\<close> Code outside the repository is an argument: the Euclidean norm and the sum of a tuple of
  floats (whose last bit depends on the interpreter: \<open>pnorm\<close>, \<open>pe_norm\<close>, \<open>fsum\<close>, \<open>square\<close>,
  \<open>math_env\<close>), numpy's casts, exponential, sums and averages (\<open>cast32\<close>, \<open>np_exp\<close>, \<open>np_sum\<close>,
  \<open>np_average\<close>), the rigid-body arithmetic of numpy (\<open>geometry\<close>, \<open>pose_metric\<close>,
  \<open>quaternion_angle\<close>), the Unicode digit table, the text of
  JSON values and of odd Python values (\<open>dumps\<close>, \<open>loads\<close>, \<open>umip_env\<close>), and what the operating system returns (\<open>sendto\<close>,
  \<open>reads\<close>, file outcomes).

  \<^bold>\<open>Theories.\<close>
  \<^item> Shared: \<open>Prelude\<close> (results, hint collections, deques, dictionaries), \<open>PyFloat\<close>, \<open>FloatOrder\<close>
    (rounding is monotone), \<open>PyText\<close> (UTF-8 and text), \<open>ByteCodec\<close> (the interface of a fixed-width codec),
    \<open>Binary64\<close> (integers and floats as bytes, two interpretations of it).
  \<^item> \<open>motion_input/clutch.py\<close>: \<open>Clutch\<close> (the locale of a hold-to-run trigger and its interpretation on the analog
    hysteresis), \<open>ArmClutch\<close>, \<open>HandClutch\<close>: no motion before a release has been seen, faults latch.
  \<^item> \<open>controller_protocol.py\<close>, \<open>controller_provider.py\<close>: \<open>CtrlProtocol\<close> (a datagram is accepted exactly when every field
    is well formed), \<open>CtrlProvider\<close> (only forward packets of the current session; validity means fresh),
    \<open>TransportClutch\<close> (joint release after any fault).
  \<^item> \<open>hts_protocol.py\<close>, \<open>hts_canonical.py\<close>, \<open>frames.py\<close>, \<open>transport_gate.py\<close>: \<open>HtsProtocol\<close>, \<open>HtsCanonical\<close>
    (gap conservation, snapshots), \<open>TransportGate\<close> (the composition on one port).
  \<^item> \<open>hts_operator.py\<close>: \<open>HtsOperator\<close>, \<open>HtsOperatorSafety\<close> (a valid target traces back to two explicit requests).
  \<^item> \<open>hts_transport.py\<close>, \<open>hts_gate.py\<close>: \<open>HtsTransport\<close> (the raw capture, read back as written), \<open>HtsReplayGate\<close>,
    \<open>HtsReplaySafety\<close> (every evaluated loss is handled, at most one hits an engaged operator).
  \<^item> \<open>model.py\<close>, \<open>serialization.py\<close>, \<open>recording.py\<close>, \<open>provider.py\<close>, \<open>replay.py\<close>, \<open>quest.py\<close>: \<open>Umip\<close> (the
    sample type and its checks), \<open>UmipSerial\<close>, \<open>UmipRoundtrip\<close>, \<open>UmipRecording\<close> (crash safe recordings),
    \<open>UmipProvider\<close> (the lifecycle, with the interfaces of typed and of queued providers), \<open>UmipReplay\<close>,
    \<open>QuestProvider\<close> (typed samples, one announcement of a loss).
  \<^item> \<open>teleoperation\<close>: \<open>Contracts\<close>, \<open>PoseValidator\<close>, \<open>TeleopClutch\<close>, \<open>Lifecycle\<close>, \<open>Supervision\<close>,
    \<open>Wire\<close> (round trip and corruption of target packets), \<open>JakaAdapter\<close> (ordered packets).
  \<^item> \<open>teleop_rearchitecture/engagement.py\<close>: \<open>Engagement\<close> (safety epochs, recovery).
  \<^item> \<open>rh56_driver\<close>: \<open>HandSchema\<close>, \<open>SerialBackend\<close> (framing, checksum, failure accounting), \<open>HandContact\<close>,
    \<open>HandControl\<close>, \<open>HandCommand\<close>, \<open>HandSession\<close> (every write guarded and in range, over all runs), \<open>HandWorker\<close>,
    \<open>HandWorkerRun\<close> (mailbox accounting over all interleavings), \<open>HandWorkerLive\<close> (wake time, starvation), and the
    evaluated examples \<open>HandDemo\<close>, \<open>HandWorkerDemo\<close>.
  \<^item> \<open>episode_dataset\<close>: \<open>Timeline\<close>, \<open>EpisodeData\<close> (records and staging writer), \<open>AsyncWriter\<close> (the queue refines a
    FIFO), \<open>Collector\<close>, \<open>CaptureSafety\<close>, \<open>CaptureEnding\<close>, \<open>CaptureStaging\<close>, \<open>CaptureDemo\<close> (the capture
    session over any writer and over the staging writer), \<open>Synchronizer\<close> (bisection and grid loop), \<open>CameraRing\<close>
    and \<open>CameraRingSafety\<close> (the two frame rings at the grain of single memory accesses: no torn frame).
  \<^item> \<open>embodiment_core/act_temporal_executor.py\<close>: \<open>TemporalExecutor\<close> (refines a plain queue of points).

  \<^bold>\<open>Interfaces.\<close> A locale states what a client relies on, and each is interpreted on the code's model: the trigger
  observed by the clutch machines, the byte codec, the frame of the capture session's data, the writer behind the
  capture session and what it promises about stored samples.

  \<^bold>\<open>Bounds, fuel and termination.\<close> No definition uses fuel. Loops over data are structural recursions; the loop of the
  synchronizer, which the code runs until a time is passed, is a \<open>while_option\<close> whose termination is a theorem; the bisection
  and the draining loops have measures. Runs of a component are lists of events of any length.

  \<^bold>\<open>Not modelled.\<close> Report dictionaries, percentile windows and text of error messages; array payloads, image files,
  JSON and YAML text, HDF5 and Parquet conversion; process management, sockets and threads themselves; numpy and
  MuJoCo simulation (\<open>src/quest_jaka_sim\<close>, inverse kinematics, vision) and the native C++ workers, which are numerical or outside
  the language. The components of the manifest name each left-out file with its reason.
\<close>

end
